(* ===== verification/Prelude.thy ===== *)
theory Prelude
  imports Main "HOL-Library.Word" "HOL-Library.AList" "HOL-Library.Sublist"
begin

text \<open>
  Shared vocabulary of the development: the machine types of the source, the model of
  Rust's strings, results and hash maps, and the generic lemmas the components rest on.

  \<^item> \<open>u16\<close>, \<open>u32\<close>, \<open>u64\<close> are words of their width.
  \<^item> A Rust \<open>String\<close>, \<open>&str\<close> or byte slice is a \<^typ>\<open>string\<close>: the list of its bytes
    (a \<^typ>\<open>char\<close> of HOL is one byte). What a \<open>String\<close> knows beyond a byte slice, being
    well-formed UTF-8, is the predicate \<open>utf8_valid\<close>.
  \<^item> A \<open>Result<T, E>\<close> is a sum, \<open>Inl\<close> for the error; \<open>res_bind\<close> is the \<open>?\<close> operator.
  \<^item> A \<open>HashMap\<close> is an association list with distinct keys. Its order stands for the
    unspecified iteration order: theorems hold for every list, hence for every order.
\<close>

section \<open>Types\<close>

type_synonym u8 = "8 word"
type_synonym u16 = "16 word"
type_synonym u32 = "32 word"
type_synonym u64 = "64 word"

text \<open>Rewrite rules of the map interface, and the facts that invert results.\<close>

named_theorems hm_simps
named_theorems res_simps

section \<open>Results\<close>

fun res_bind :: "'e + 'a \<Rightarrow> ('a \<Rightarrow> 'e + 'b) \<Rightarrow> 'e + 'b" where
  "res_bind (Inl e) f = Inl e"
| "res_bind (Inr x) f = f x"

definition ok_or :: "'a option \<Rightarrow> 'e \<Rightarrow> 'e + 'a" where
  "ok_or x e = (case x of None \<Rightarrow> Inl e | Some y \<Rightarrow> Inr y)"

lemma res_bind_Inr_iff [res_simps]:
  "res_bind r f = Inr y \<longleftrightarrow> (\<exists>x. r = Inr x \<and> f x = Inr y)"
  by (cases r) auto

lemma res_bind_Inl_iff [res_simps]:
  "res_bind r f = Inl e \<longleftrightarrow> r = Inl e \<or> (\<exists>x. r = Inr x \<and> f x = Inl e)"
  by (cases r) auto

lemma ok_or_Inr_iff [res_simps]: "ok_or x e = Inr y \<longleftrightarrow> x = Some y"
  by (auto simp: ok_or_def split: option.splits)

lemma ok_or_Inl_iff [res_simps]: "ok_or x e = Inl e' \<longleftrightarrow> x = None \<and> e' = e"
  by (auto simp: ok_or_def split: option.splits)

lemma ok_or_simps [simp]: "ok_or None e = Inl e" "ok_or (Some y) e = Inr y"
  by (auto simp: ok_or_def)

section \<open>Options\<close>

definition is_none_or :: "('a \<Rightarrow> bool) \<Rightarrow> 'a option \<Rightarrow> bool" where
  "is_none_or P x = (case x of None \<Rightarrow> True | Some y \<Rightarrow> P y)"

definition is_some_and :: "('a \<Rightarrow> bool) \<Rightarrow> 'a option \<Rightarrow> bool" where
  "is_some_and P x = (case x of None \<Rightarrow> False | Some y \<Rightarrow> P y)"

fun unwrap_or :: "'a \<Rightarrow> 'a option \<Rightarrow> 'a" where
  "unwrap_or d None = d"
| "unwrap_or d (Some x) = x"

fun or_else :: "'a option \<Rightarrow> 'a option \<Rightarrow> 'a option" where
  "or_else None y = y"
| "or_else (Some x) y = Some x"

lemma is_none_or_simps [simp]: "is_none_or P None" "is_none_or P (Some x) = P x"
  by (simp_all add: is_none_or_def)

lemma is_some_and_simps [simp]: "\<not> is_some_and P None" "is_some_and P (Some x) = P x"
  by (simp_all add: is_some_and_def)

lemma is_some_and_iff: "is_some_and P x \<longleftrightarrow> (\<exists>y. x = Some y \<and> P y)"
  by (cases x) auto

section \<open>Saturating and checked machine arithmetic\<close>

definition saturating_add :: "u64 \<Rightarrow> u64 \<Rightarrow> u64" where
  "saturating_add a b = (if unat a + unat b < 2 ^ 64 then a + b else - 1)"

lemma saturating_add_ge: "a \<le> saturating_add a b"
proof (cases "unat a + unat b < 2 ^ 64")
  case True
  then have "a \<le> a + b"
    by (simp add: no_olen_add_nat)
  with True show ?thesis by (simp add: saturating_add_def)
next
  case False
  then show ?thesis by (simp add: saturating_add_def)
qed

section \<open>Lists\<close>

text \<open>\<open>split_first x xs\<close> is \<open>xs\<close> cut at the first \<open>x\<close> (\<open>position\<close> and two slices);
  \<open>split_last\<close> cuts at the last one (\<open>rposition\<close>).\<close>

fun split_first :: "'a \<Rightarrow> 'a list \<Rightarrow> ('a list \<times> 'a list) option" where
  "split_first x [] = None"
| "split_first x (y # ys) =
     (if y = x then Some ([], ys)
      else map_option (\<lambda>(a, b). (y # a, b)) (split_first x ys))"

definition split_last :: "'a \<Rightarrow> 'a list \<Rightarrow> ('a list \<times> 'a list) option" where
  "split_last x xs = map_option (\<lambda>(a, b). (rev b, rev a)) (split_first x (rev xs))"

lemma split_first_append: "x \<notin> set a \<Longrightarrow> split_first x (a @ x # b) = Some (a, b)"
  by (induction a) auto

lemma split_first_SomeD: "split_first x xs = Some (a, b) \<Longrightarrow> xs = a @ x # b \<and> x \<notin> set a"
proof (induction xs arbitrary: a)
  case (Cons y ys)
  then show ?case by (cases "y = x") auto
qed simp

lemma split_first_None_iff: "split_first x xs = None \<longleftrightarrow> x \<notin> set xs"
  by (induction xs) auto

lemma split_last_append: "x \<notin> set b \<Longrightarrow> split_last x (a @ x # b) = Some (a, b)"
  by (simp add: split_last_def split_first_append)

lemma split_last_SomeD:
  assumes "split_last x xs = Some (a, b)"
  shows "xs = a @ x # b \<and> x \<notin> set b"
proof -
  from assms have "split_first x (rev xs) = Some (rev b, rev a)"
    by (auto simp: split_last_def)
  then have "rev xs = rev b @ x # rev a" and "x \<notin> set b"
    by (auto dest: split_first_SomeD)
  then have "xs = rev (rev b @ x # rev a)"
    by (metis rev_rev_ident)
  with \<open>x \<notin> set b\<close> show ?thesis by simp
qed

text \<open>Searching by a key that identifies the elements.\<close>

lemma find_key_None: "a \<notin> f ` set xs \<Longrightarrow> List.find (\<lambda>y. f y = a) xs = None"
  by (auto simp: find_None_iff)

lemma find_key_Some:
  assumes "distinct (map f xs)" "x \<in> set xs"
  shows "List.find (\<lambda>y. f y = f x) xs = Some x"
  using assms
proof (induction xs)
  case (Cons y ys)
  show ?case
  proof (cases "f y = f x")
    case True
    with Cons.prems have "y = x" by (auto simp: rev_image_eqI)
    then show ?thesis by simp
  next
    case False
    with Cons show ?thesis by auto
  qed
qed simp

section \<open>Strings\<close>

text \<open>\<open>str::strip_prefix\<close>: the rest after a prefix, if it is one.\<close>

fun strip_prefix :: "string \<Rightarrow> string \<Rightarrow> string option" where
  "strip_prefix [] s = Some s"
| "strip_prefix (c # cs) [] = None"
| "strip_prefix (c # cs) (d # ds) = (if c = d then strip_prefix cs ds else None)"

lemma strip_prefix_append [simp]: "strip_prefix p (p @ s) = Some s"
  by (induction p) auto

lemma strip_prefix_Some_iff: "strip_prefix p s = Some r \<longleftrightarrow> s = p @ r"
  by (induction p s rule: strip_prefix.induct) auto

text \<open>\<open>u8::is_ascii_control\<close>: \<open>0x00..=0x1f\<close> and \<open>0x7f\<close>.\<close>

definition is_ascii_control :: "char \<Rightarrow> bool" where
  "is_ascii_control c = (let n = of_char c :: nat in n \<le> 31 \<or> n = 127)"

definition is_ascii_alphanumeric :: "char \<Rightarrow> bool" where
  "is_ascii_alphanumeric c =
     (let n = of_char c :: nat
      in 48 \<le> n \<and> n \<le> 57 \<or> 65 \<le> n \<and> n \<le> 90 \<or> 97 \<le> n \<and> n \<le> 122)"

text \<open>
  \<open>str::from_utf8\<close>: the byte sequences of the standard's table of well-formed UTF-8
  (no overlong forms, no surrogates, nothing above U+10FFFF).
\<close>

definition utf8_cont :: "char \<Rightarrow> bool" where
  "utf8_cont c = (let n = of_char c :: nat in 128 \<le> n \<and> n \<le> 191)"

definition utf8_second :: "nat \<Rightarrow> char \<Rightarrow> bool" where
  "utf8_second l c =
     (let n = of_char c :: nat
      in (if l = 224 then 160 else if l = 240 then 144 else 128) \<le> n \<and>
         n \<le> (if l = 237 then 159 else if l = 244 then 143 else 191))"

fun utf8_tail :: "nat \<Rightarrow> string \<Rightarrow> string option" where
  "utf8_tail 0 s = Some s"
| "utf8_tail (Suc k) [] = None"
| "utf8_tail (Suc k) (c # s) = (if utf8_cont c then utf8_tail k s else None)"

lemma utf8_tail_length: "utf8_tail k s = Some r \<Longrightarrow> length r \<le> length s"
  by (induction k s rule: utf8_tail.induct) (auto split: if_splits)

definition utf8_step :: "char \<Rightarrow> string \<Rightarrow> string option" where
  "utf8_step c s =
     (let n = of_char c :: nat in
      if n < 128 then Some s
      else if 194 \<le> n \<and> n \<le> 223 then utf8_tail 1 s
      else if 224 \<le> n \<and> n \<le> 239 then
        (case s of [] \<Rightarrow> None | d # t \<Rightarrow> if utf8_second n d then utf8_tail 1 t else None)
      else if 240 \<le> n \<and> n \<le> 244 then
        (case s of [] \<Rightarrow> None | d # t \<Rightarrow> if utf8_second n d then utf8_tail 2 t else None)
      else None)"

lemma utf8_step_length: "utf8_step c s = Some r \<Longrightarrow> length r \<le> length s"
  by (auto simp: utf8_step_def Let_def split: if_splits list.splits dest: utf8_tail_length)

function utf8_valid :: "string \<Rightarrow> bool" where
  "utf8_valid [] = True"
| "utf8_valid (c # s) = (case utf8_step c s of None \<Rightarrow> False | Some r \<Rightarrow> utf8_valid r)"
  by pat_completeness auto
termination
  by (relation "measure length") (auto dest: utf8_step_length)

lemma utf8_step_ascii: "of_char c < (128 :: nat) \<Longrightarrow> utf8_step c s = Some s"
  by (simp add: utf8_step_def)

lemma utf8_valid_ascii: "\<forall>c \<in> set s. of_char c < (128 :: nat) \<Longrightarrow> utf8_valid s"
  by (induction s) (auto simp: utf8_step_ascii)

text \<open>The decimal digits of a number, what \<open>format!\<close> prints for an unsigned integer.\<close>

fun decimal :: "nat \<Rightarrow> string" where
  "decimal n = (if n < 10 then [char_of (48 + n)] else decimal (n div 10) @ [char_of (48 + n mod 10)])"

declare decimal.simps [simp del]

section \<open>Hash maps\<close>

type_synonym ('k, 'v) hashmap = "('k \<times> 'v) list"

definition hm_empty :: "('k, 'v) hashmap" where "hm_empty = []"

definition hm_get :: "('k, 'v) hashmap \<Rightarrow> 'k \<Rightarrow> 'v option" where "hm_get m k = map_of m k"

definition hm_insert :: "'k \<Rightarrow> 'v \<Rightarrow> ('k, 'v) hashmap \<Rightarrow> ('k, 'v) hashmap" where
  "hm_insert k v m = AList.update k v m"

definition hm_remove :: "'k \<Rightarrow> ('k, 'v) hashmap \<Rightarrow> ('k, 'v) hashmap" where
  "hm_remove k m = AList.delete k m"

definition hm_keys :: "('k, 'v) hashmap \<Rightarrow> 'k list" where "hm_keys m = map fst m"

definition hm_wf :: "('k, 'v) hashmap \<Rightarrow> bool" where "hm_wf m = distinct (hm_keys m)"

definition hm_contains :: "('k, 'v) hashmap \<Rightarrow> 'k \<Rightarrow> bool" where
  "hm_contains m k = (hm_get m k \<noteq> None)"

text \<open>\<open>HashMap::retain\<close> keeps the entries the predicate accepts.\<close>

definition hm_retain :: "('k \<Rightarrow> 'v \<Rightarrow> bool) \<Rightarrow> ('k, 'v) hashmap \<Rightarrow> ('k, 'v) hashmap" where
  "hm_retain P m = filter (\<lambda>(k, v). P k v) m"

text \<open>\<open>collect\<close> into a map: a later entry replaces an earlier one.\<close>

definition hm_collect :: "('k \<times> 'v) list \<Rightarrow> ('k, 'v) hashmap" where
  "hm_collect kvs = fold (\<lambda>(k, v). hm_insert k v) kvs hm_empty"

text \<open>
  The interface the components use of a map, as laws. A client that folds insertions
  over a list gets its characterisation once, in the locale.
\<close>

locale map_store =
  fixes empty :: "'m"
    and get :: "'m \<Rightarrow> 'k \<Rightarrow> 'v option"
    and ins :: "'k \<Rightarrow> 'v \<Rightarrow> 'm \<Rightarrow> 'm"
    and del :: "'k \<Rightarrow> 'm \<Rightarrow> 'm"
    and wf :: "'m \<Rightarrow> bool"
  assumes get_empty: "get empty k = None"
    and get_ins: "get (ins k v m) k' = (if k' = k then Some v else get m k')"
    and get_del: "wf m \<Longrightarrow> get (del k m) k' = (if k' = k then None else get m k')"
    and wf_empty: "wf empty"
    and wf_ins: "wf m \<Longrightarrow> wf (ins k v m)"
    and wf_del: "wf m \<Longrightarrow> wf (del k m)"
begin

lemma get_fold_ins:
  "get (fold (\<lambda>(k, v). ins k v) kvs m) k =
     (case map_of (rev kvs) k of None \<Rightarrow> get m k | Some v \<Rightarrow> Some v)"
proof (induction kvs arbitrary: m)
  case (Cons kv kvs)
  obtain k1 v1 where "kv = (k1, v1)" by (cases kv)
  with Cons show ?case
    by (auto simp: get_ins map_add_def split: option.splits)
qed simp

lemma wf_fold_ins: "wf m \<Longrightarrow> wf (fold (\<lambda>(k, v). ins k v) kvs m)"
  by (induction kvs arbitrary: m) (auto simp: wf_ins)

lemma get_collect: "get (fold (\<lambda>(k, v). ins k v) kvs empty) k = map_of (rev kvs) k"
  by (simp add: get_fold_ins get_empty split: option.splits)

lemma ins_twice: "get (ins k v (ins k v' m)) = get (ins k v m)"
  by (auto simp: get_ins fun_eq_iff)

end

lemma hm_get_del_aux:
  "distinct (map fst m) \<Longrightarrow> map_of (AList.delete k m) k' = (if k' = k then None else map_of m k')"
  by (simp add: AList.delete_conv)

interpretation hm: map_store hm_empty hm_get hm_insert hm_remove hm_wf
  by unfold_locales
    (auto simp: hm_empty_def hm_get_def hm_insert_def hm_remove_def hm_wf_def hm_keys_def
      update_conv hm_get_del_aux distinct_update distinct_delete)

lemmas hm_get_insert [hm_simps] = hm.get_ins
lemmas hm_get_empty [hm_simps] = hm.get_empty
lemmas hm_wf_insert [hm_simps, intro] = hm.wf_ins
lemmas hm_wf_remove [hm_simps, intro] = hm.wf_del
lemmas hm_wf_empty [hm_simps, intro] = hm.wf_empty
lemmas hm_get_remove [hm_simps] = hm.get_del

lemma hm_get_collect [hm_simps]: "hm_get (hm_collect kvs) k = map_of (rev kvs) k"
  by (simp add: hm_collect_def hm.get_collect)

lemma hm_wf_collect [hm_simps, intro]: "hm_wf (hm_collect kvs)"
  by (simp add: hm_collect_def hm.wf_fold_ins hm.wf_empty)

lemma hm_get_Some_in: "hm_get m k = Some v \<Longrightarrow> (k, v) \<in> set m"
  by (simp add: hm_get_def map_of_SomeD)

lemma hm_in_get: "hm_wf m \<Longrightarrow> (k, v) \<in> set m \<Longrightarrow> hm_get m k = Some v"
  by (simp add: hm_get_def hm_wf_def hm_keys_def)

lemma set_update_subset: "set (AList.update k v m) \<subseteq> insert (k, v) (set m)"
  by (induction m) auto

lemma hm_get_None_iff: "hm_get m k = None \<longleftrightarrow> k \<notin> set (hm_keys m)"
  by (simp add: hm_get_def hm_keys_def map_of_eq_None_iff)

lemma hm_keys_get: "k \<in> set (hm_keys m) \<longleftrightarrow> (\<exists>v. hm_get m k = Some v)"
  by (metis hm_get_None_iff not_None_eq)

lemma hm_wf_retain [intro]: "hm_wf m \<Longrightarrow> hm_wf (hm_retain P m)"
  by (simp add: hm_wf_def hm_keys_def hm_retain_def distinct_map inj_on_def)

lemma hm_get_retain:
  "hm_wf m \<Longrightarrow> hm_get (hm_retain P m) k =
     (case hm_get m k of None \<Rightarrow> None | Some v \<Rightarrow> if P k v then Some v else None)"
proof (induction m)
  case (Cons kv m)
  obtain k1 v1 where kv: "kv = (k1, v1)" by (cases kv)
  with Cons.prems have wf: "hm_wf m" and "k1 \<notin> set (hm_keys m)"
    by (auto simp: hm_wf_def hm_keys_def)
  then have "hm_get m k1 = None" by (simp add: hm_get_None_iff)
  with Cons.IH [OF wf] kv show ?case
    by (auto simp: hm_get_def hm_retain_def split: option.splits)
qed (simp add: hm_get_def hm_retain_def)

section \<open>Ordered maps\<close>

text \<open>
  A \<open>BTreeMap\<close> is an association list in strictly increasing key order; iterating it is
  reading the list. \<open>bt_entry\<close> is \<open>entry(k).or_default()\<close> followed by an update in place.
\<close>

type_synonym ('k, 'v) btree = "('k \<times> 'v) list"

definition bt_wf :: "('k::linorder, 'v) btree \<Rightarrow> bool" where
  "bt_wf m = sorted_wrt (<) (map fst m)"

fun bt_entry :: "'k::linorder \<Rightarrow> 'v \<Rightarrow> ('v \<Rightarrow> 'v) \<Rightarrow> ('k, 'v) btree \<Rightarrow> ('k, 'v) btree" where
  "bt_entry k d f [] = [(k, f d)]"
| "bt_entry k d f ((k', v) # m) =
     (if k < k' then (k, f d) # (k', v) # m
      else if k = k' then (k', f v) # m
      else (k', v) # bt_entry k d f m)"

abbreviation bt_insert :: "'k::linorder \<Rightarrow> 'v \<Rightarrow> ('k, 'v) btree \<Rightarrow> ('k, 'v) btree" where
  "bt_insert k v \<equiv> bt_entry k v (\<lambda>_. v)"

abbreviation bt_get :: "('k, 'v) btree \<Rightarrow> 'k \<Rightarrow> 'v option" where
  "bt_get m k \<equiv> map_of m k"

named_theorems bt_simps

lemma bt_keys_entry [bt_simps]: "fst ` set (bt_entry k d f m) = insert k (fst ` set m)"
  by (induction k d f m rule: bt_entry.induct) auto

lemma bt_wf_entry [bt_simps, intro]: "bt_wf m \<Longrightarrow> bt_wf (bt_entry k d f m)"
proof (induction k d f m rule: bt_entry.induct)
  case (2 k d f k' v m)
  then have "\<forall>x \<in> fst ` set m. k' < x" and "bt_wf m" by (auto simp: bt_wf_def)
  moreover have "\<not> k < k' \<Longrightarrow> k \<noteq> k' \<Longrightarrow> \<forall>x \<in> fst ` set (bt_entry k d f m). k' < x"
    using calculation(1) unfolding bt_keys_entry by auto
  ultimately show ?case using 2 by (auto simp: bt_wf_def)
qed (simp add: bt_wf_def)

lemma bt_get_entry [bt_simps]:
  "bt_wf m \<Longrightarrow> bt_get (bt_entry k d f m) j = (if j = k then Some (f (unwrap_or d (bt_get m k))) else bt_get m j)"
proof (induction k d f m rule: bt_entry.induct)
  case (2 k d f k' v m)
  then have "bt_wf m" and "\<forall>x \<in> fst ` set m. k' < x" by (auto simp: bt_wf_def)
  then have "k < k' \<Longrightarrow> bt_get m k = None"
    unfolding map_of_eq_None_iff by (meson less_asym)
  with 2 \<open>bt_wf m\<close> show ?case by auto
qed simp

lemma bt_wf_Nil [bt_simps, intro]: "bt_wf []"
  by (simp add: bt_wf_def)

text \<open>An ordered map is determined by its lookups.\<close>

lemma bt_sorted_keys: "bt_wf m \<Longrightarrow> map fst m = sorted_list_of_set (fst ` set m)"
  unfolding bt_wf_def
  by (metis list.set_map sorted_list_of_set.idem_if_sorted_distinct strict_sorted_iff)

lemma bt_by_lookup:
  assumes "bt_wf m"
  shows "m = map (\<lambda>k. (k, the (bt_get m k))) (sorted_list_of_set (dom (bt_get m)))"
proof -
  have "distinct (map fst m)" using assms by (simp add: bt_wf_def strict_sorted_iff)
  then have "\<forall>(k, v) \<in> set m. bt_get m k = Some v" by auto
  then have "map (\<lambda>kv. (fst kv, the (bt_get m (fst kv)))) m = m"
    by (intro map_idI) auto
  then have "m = map (\<lambda>k. (k, the (bt_get m k))) (map fst m)"
    by (simp add: comp_def)
  then show ?thesis using bt_sorted_keys [OF assms] by (simp add: dom_map_of_conv_image_fst)
qed

end
