(* ===== verification/F64.thy ===== *)
theory F64
  imports Complex_Main Prelude
begin

text \<open>
  The double-precision arithmetic of the rate limiter and of pricing. A finite \<open>f64\<close> is
  the real number it denotes; every operation computes the exact result and rounds it to
  the nearest representable number, ties to even, as IEEE 754 prescribes. The significand
  has 53 bits. The exponent is not bounded: the components only handle counts below
  \<open>2 ^ 64\<close>, durations of at least a nanosecond and per-token prices, so neither
  underflow nor overflow of the exponent is reached.
\<close>

section \<open>Rounding\<close>

definition round_half_even :: "real \<Rightarrow> int" where
  "round_half_even x =
     (let n = \<lfloor>x\<rfloor>; d = x - of_int n
      in if d < 1 / 2 then n else if d > 1 / 2 then n + 1 else if even n then n else n + 1)"

definition f64_exp :: "real \<Rightarrow> int" where
  "f64_exp x = \<lfloor>log 2 \<bar>x\<bar>\<rfloor> - 52"

definition f64_round :: "real \<Rightarrow> real" where
  "f64_round x =
     (if x = 0 then 0
      else of_int (round_half_even (x / 2 powr f64_exp x)) * 2 powr f64_exp x)"

text \<open>What a double with a 53-bit significand can represent.\<close>

definition f64_rep :: "real \<Rightarrow> bool" where
  "f64_rep x \<longleftrightarrow> (\<exists>m k :: int. x = of_int m * 2 powr k \<and> \<bar>m\<bar> \<le> 2 ^ 53)"

lemma round_half_even_of_int [simp]: "round_half_even (of_int n) = n"
  by (simp add: round_half_even_def)

lemma round_half_even_bounds:
  "\<lfloor>x\<rfloor> \<le> round_half_even x" "round_half_even x \<le> \<lfloor>x\<rfloor> + 1"
  by (auto simp: round_half_even_def Let_def)

lemma round_half_even_mono:
  assumes "x \<le> y"
  shows "round_half_even x \<le> round_half_even y"
proof (cases "\<lfloor>x\<rfloor> = \<lfloor>y\<rfloor>")
  case True
  with assms show ?thesis by (auto simp: round_half_even_def Let_def)
next
  case False
  with assms have "\<lfloor>x\<rfloor> + 1 \<le> \<lfloor>y\<rfloor>"
    using floor_mono [OF assms] by linarith
  then show ?thesis
    using round_half_even_bounds(2) [of x] round_half_even_bounds(1) [of y] by linarith
qed

lemma round_half_even_le: "x \<le> of_int n \<Longrightarrow> round_half_even x \<le> n"
  using round_half_even_mono [of x "of_int n"] by simp

lemma round_half_even_ge: "of_int n \<le> x \<Longrightarrow> n \<le> round_half_even x"
  using round_half_even_mono [of "of_int n" x] by simp

lemma round_half_even_abs_le:
  assumes "\<bar>x\<bar> \<le> 2 ^ 53"
  shows "\<bar>round_half_even x\<bar> \<le> 2 ^ 53"
  using assms round_half_even_le [of x "2 ^ 53"] round_half_even_ge [of "- (2 ^ 53)" x]
  by (simp add: abs_le_iff)

lemma powr_two_int: "0 \<le> n \<Longrightarrow> (2::real) powr of_int n = of_int (2 ^ nat n)"
  by (simp add: powr_realpow [symmetric])

lemma f64_exp_bounds:
  assumes "x \<noteq> 0"
  shows "2 powr (f64_exp x + 52) \<le> \<bar>x\<bar>" "\<bar>x\<bar> < 2 powr (f64_exp x + 53)"
proof -
  have pos: "0 < \<bar>x\<bar>" using assms by simp
  have "2 powr (f64_exp x + 52) = 2 powr (of_int \<lfloor>log 2 \<bar>x\<bar>\<rfloor>)"
    by (simp add: f64_exp_def)
  also have "\<dots> \<le> 2 powr (log 2 \<bar>x\<bar>)" by simp
  also have "\<dots> = \<bar>x\<bar>" using pos by (simp add: powr_log_cancel)
  finally show "2 powr (f64_exp x + 52) \<le> \<bar>x\<bar>" .
  have "\<bar>x\<bar> = 2 powr (log 2 \<bar>x\<bar>)" using pos by (simp add: powr_log_cancel)
  also have "\<dots> < 2 powr (of_int \<lfloor>log 2 \<bar>x\<bar>\<rfloor> + 1)"
    by (subst powr_less_cancel_iff) (simp, linarith)
  also have "\<dots> = 2 powr (f64_exp x + 53)" by (simp add: f64_exp_def add.commute)
  finally show "\<bar>x\<bar> < 2 powr (f64_exp x + 53)" .
qed

lemma f64_exp_mono:
  assumes "0 < \<bar>x\<bar>" "\<bar>x\<bar> \<le> \<bar>y\<bar>"
  shows "f64_exp x \<le> f64_exp y"
  using assms by (auto simp: f64_exp_def intro!: floor_mono log_le_cancel_iff [THEN iffD2])

text \<open>A representable number is rounded to itself.\<close>

lemma f64_round_rep_id:
  assumes "f64_rep x"
  shows "f64_round x = x"
proof (cases "x = 0")
  case False
  let ?e = "f64_exp x"
  from assms obtain m k :: int where x: "x = of_int m * 2 powr k" and m: "\<bar>m\<bar> \<le> 2 ^ 53"
    by (auto simp: f64_rep_def)
  have q: "x / 2 powr ?e = of_int m * 2 powr (k - ?e)"
    by (simp add: x powr_diff)
  have "\<exists>n::int. x / 2 powr ?e = of_int n"
  proof (cases "?e \<le> k")
    case True
    then have "(2::real) powr (k - ?e) = of_int (2 ^ nat (k - ?e))"
      by (simp add: powr_realpow [symmetric])
    then have "x / 2 powr ?e = of_int (m * 2 ^ nat (k - ?e))"
      by (simp add: q)
    then show ?thesis by blast
  next
    case lt: False
    have "2 powr (?e + 52) \<le> \<bar>of_int m\<bar> * 2 powr k"
      using f64_exp_bounds(1) [OF False] by (simp add: x abs_mult)
    then have "2 powr (?e + 52) / 2 powr k \<le> \<bar>of_int m\<bar>"
      by (simp add: divide_le_eq)
    then have ge: "2 powr (?e - k + 52) \<le> \<bar>of_int m\<bar>"
      by (simp add: powr_diff [symmetric] algebra_simps)
    have m': "\<bar>of_int m :: real\<bar> \<le> 2 powr 53"
      using m by (simp add: powr_numeral flip: of_int_abs)
    with ge have "(2::real) powr (?e - k + 52) \<le> 2 powr 53" by linarith
    then have "real_of_int (?e - k + 52) \<le> 53"
      by (subst (asm) powr_le_cancel_iff) simp_all
    then have e: "?e = k + 1" using lt by linarith
    then have "2 powr 53 \<le> \<bar>of_int m :: real\<bar>" using ge by simp
    then have "(2::int) ^ 53 \<le> \<bar>m\<bar>"
      by (simp add: powr_numeral flip: of_int_abs)
    with m have "m = 2 ^ 53 \<or> m = - (2 ^ 53)" by linarith
    then have "m = 2 * (m div 2)" by auto
    moreover have "x / 2 powr ?e = of_int m / 2"
      by (simp only: q) (simp add: e powr_minus_divide)
    ultimately have "x / 2 powr ?e = of_int (m div 2)"
      by (metis nonzero_mult_div_cancel_left of_int_mult of_int_numeral zero_neq_numeral)
    then show ?thesis by blast
  qed
  then obtain n where n: "x / 2 powr ?e = of_int n" by blast
  then show ?thesis using False by (simp add: f64_round_def n) (simp add: n [symmetric])
qed (simp add: f64_round_def)


text \<open>The result of rounding is representable, so rounding twice is rounding once.\<close>

lemma f64_round_rep: "f64_rep (f64_round x)"
proof (cases "x = 0")
  case True
  then show ?thesis by (auto simp: f64_round_def f64_rep_def intro: exI [of _ 0])
next
  case False
  let ?q = "x / 2 powr f64_exp x"
  have "\<bar>?q\<bar> < 2 powr (f64_exp x + 53) / 2 powr f64_exp x"
    using f64_exp_bounds(2) [OF False] by (simp add: abs_divide divide_strict_right_mono)
  also have "\<dots> = 2 powr 53" by (simp add: powr_diff [symmetric])
  finally have q: "\<bar>?q\<bar> < 2 ^ 53" by (simp add: powr_numeral)
  then have "\<bar>round_half_even ?q\<bar> \<le> 2 ^ 53"
    by (rule round_half_even_abs_le [OF less_imp_le])
  moreover have "f64_round x = of_int (round_half_even ?q) * 2 powr f64_exp x"
    using False by (simp add: f64_round_def)
  ultimately show ?thesis unfolding f64_rep_def by blast
qed

text \<open>Rounding is odd and monotone.\<close>

lemma f64_exp_minus [simp]: "f64_exp (- x) = f64_exp x"
  by (simp add: f64_exp_def)

lemma round_half_even_minus: "round_half_even (- x) = - round_half_even x"
proof -
  have c: "\<lfloor>- x\<rfloor> = (if x = of_int \<lfloor>x\<rfloor> then - \<lfloor>x\<rfloor> else - \<lfloor>x\<rfloor> - 1)"
    by (auto simp: floor_minus ceiling_altdef)
  show ?thesis
  proof (cases "x = of_int \<lfloor>x\<rfloor>")
    case True
    then show ?thesis by (metis of_int_minus round_half_even_of_int)
  next
    case False
    then have "0 < x - of_int \<lfloor>x\<rfloor>" "x - of_int \<lfloor>x\<rfloor> < 1"
      using floor_correct [of x] by linarith+
    with False c show ?thesis
      by (auto simp: round_half_even_def Let_def)
  qed
qed

lemma f64_round_minus: "f64_round (- x) = - f64_round x"
  by (simp add: f64_round_def round_half_even_minus)

lemma f64_round_nonneg: "0 \<le> x \<Longrightarrow> 0 \<le> f64_round x"
proof -
  assume "0 \<le> x"
  then have "0 \<le> round_half_even (x / 2 powr f64_exp x)"
    using round_half_even_mono [of 0 "x / 2 powr f64_exp x"] round_half_even_of_int [of 0]
    by simp
  then show ?thesis by (simp add: f64_round_def)
qed

lemma f64_rep_powr: "f64_rep (2 powr of_int k)"
  unfolding f64_rep_def by (intro exI [of _ 1] exI [of _ k]) simp

lemma f64_round_le_grid:
  assumes "0 < x" "x \<le> 2 powr (f64_exp x + n)" "n \<ge> (0 :: int)"
  shows "f64_round x \<le> 2 powr (f64_exp x + n)"
proof -
  have "x / 2 powr f64_exp x \<le> 2 powr n"
    using assms(2) by (simp add: divide_le_eq powr_add mult.commute)
  then have "round_half_even (x / 2 powr f64_exp x) \<le> 2 ^ nat n"
    by (intro round_half_even_le) (simp only: powr_two_int [OF assms(3)])
  then have "real_of_int (round_half_even (x / 2 powr f64_exp x)) \<le> 2 powr n"
    by (simp only: powr_two_int [OF assms(3)] of_int_le_iff)
  then show ?thesis
    using assms(1) by (simp add: f64_round_def powr_add mult.commute)
qed

lemma f64_round_ge_grid:
  assumes "0 < x" "2 powr (f64_exp x + n) \<le> x" "n \<ge> (0 :: int)"
  shows "2 powr (f64_exp x + n) \<le> f64_round x"
proof -
  have "2 powr n \<le> x / 2 powr f64_exp x"
    using assms(2) by (simp add: le_divide_eq powr_add mult.commute)
  then have "2 ^ nat n \<le> round_half_even (x / 2 powr f64_exp x)"
    by (intro round_half_even_ge) (simp only: powr_two_int [OF assms(3)])
  then have "2 powr n \<le> real_of_int (round_half_even (x / 2 powr f64_exp x))"
    by (simp only: powr_two_int [OF assms(3)] of_int_le_iff)
  then show ?thesis
    using assms(1) by (simp add: f64_round_def powr_add mult.commute)
qed

lemma f64_round_mono_pos:
  assumes "0 < x" "x \<le> y"
  shows "f64_round x \<le> f64_round y"
proof (cases "f64_exp x = f64_exp y")
  case True
  have "x / 2 powr f64_exp y \<le> y / 2 powr f64_exp y"
    using assms(2) by (simp add: divide_right_mono)
  then have "round_half_even (x / 2 powr f64_exp y) \<le> round_half_even (y / 2 powr f64_exp y)"
    by (rule round_half_even_mono)
  then show ?thesis using assms True by (simp add: f64_round_def)
next
  case False
  have y: "0 < y" using assms by simp
  have "f64_exp x \<le> f64_exp y" using assms by (intro f64_exp_mono) auto
  with False have e: "f64_exp x + 53 \<le> f64_exp y + 52" by simp
  have "f64_round x \<le> 2 powr (f64_exp x + 53)"
    using f64_round_le_grid [of x 53] f64_exp_bounds(2) [of x] assms(1) by simp
  also have "\<dots> \<le> 2 powr (f64_exp y + 52)"
    using e by (subst powr_le_cancel_iff) (simp, linarith)
  also have "\<dots> \<le> f64_round y"
    using f64_round_ge_grid [of y 52] f64_exp_bounds(1) [of y] y by simp
  finally show ?thesis .
qed

lemma f64_round_mono:
  assumes "x \<le> y"
  shows "f64_round x \<le> f64_round y"
proof -
  consider "0 < x" | "x \<le> 0" "0 \<le> y" | "y < 0" by linarith
  then show ?thesis
  proof cases
    case 1
    then show ?thesis using assms by (rule f64_round_mono_pos)
  next
    case 2
    then have "0 \<le> f64_round (- x)" "0 \<le> f64_round y"
      by (simp_all add: f64_round_nonneg)
    then show ?thesis by (simp add: f64_round_minus)
  next
    case 3
    then have "f64_round (- y) \<le> f64_round (- x)"
      using assms by (intro f64_round_mono_pos) auto
    then show ?thesis by (simp add: f64_round_minus)
  qed
qed

text \<open>Integers up to \<open>2 ^ 53\<close> are representable, and one can be taken off exactly.\<close>

lemma f64_rep_of_int: "\<bar>n\<bar> \<le> 2 ^ 53 \<Longrightarrow> f64_rep (of_int n)"
  unfolding f64_rep_def by (intro exI [of _ n] exI [of _ 0]) simp

lemma f64_rep_of_nat: "n \<le> 2 ^ 53 \<Longrightarrow> f64_rep (of_nat n)"
  using f64_rep_of_int [of "int n"] by simp

lemma f64_rep_minus_one:
  assumes "f64_rep x" "1 \<le> x" "x \<le> 2 ^ 53"
  shows "f64_rep (x - 1)"
proof -
  from assms(1) obtain m k :: int where x: "x = of_int m * 2 powr k" and m: "\<bar>m\<bar> \<le> 2 ^ 53"
    by (auto simp: f64_rep_def)
  show ?thesis
  proof (cases "0 \<le> k")
    case True
    have i: "x - 1 = of_int (m * 2 ^ nat k - 1)"
      by (simp add: x powr_two_int [OF True])
    moreover have "\<bar>m * 2 ^ nat k - 1\<bar> \<le> 2 ^ 53"
    proof -
      have "of_int (m * 2 ^ nat k) \<le> (of_int (2 ^ 53) :: real)"
        using assms(3) by (simp add: x powr_two_int [OF True])
      moreover have "(1 :: real) \<le> of_int (m * 2 ^ nat k)"
        using assms(2) by (simp add: x powr_two_int [OF True])
      ultimately show ?thesis
        by (simp only: of_int_le_iff of_int_1_le_iff)
    qed
    ultimately show ?thesis by (metis f64_rep_of_int)
  next
    case False
    then have k: "(1::real) = of_int (2 ^ nat (- k)) * 2 powr k"
      by (simp add: powr_realpow [symmetric] powr_add [symmetric])
    have i: "x - 1 = of_int (m - 2 ^ nat (- k)) * 2 powr k"
      by (simp add: x left_diff_distrib) (metis k of_int_numeral of_int_power)
    have "0 \<le> (of_int (m - 2 ^ nat (- k)) :: real)"
      using assms(2) i by (smt (verit) powr_gt_zero zero_le_mult_iff)
    then have "0 \<le> m - 2 ^ nat (- k)" by (simp only: of_int_0_le_iff)
    moreover have "(0::int) < 2 ^ nat (- k)" by simp
    ultimately have "\<bar>m - 2 ^ nat (- k)\<bar> \<le> 2 ^ 53" using m by linarith
    with i show ?thesis unfolding f64_rep_def by blast
  qed
qed


section \<open>What clients rely on\<close>

text \<open>
  The laws of a rounding function that the rate limiter and the pricing table use; the
  double rounding above is their instance.
\<close>

locale rounding =
  fixes rnd :: "real \<Rightarrow> real" and rep :: "real \<Rightarrow> bool"
  assumes rnd_mono: "x \<le> y \<Longrightarrow> rnd x \<le> rnd y"
    and rnd_id: "rep x \<Longrightarrow> rnd x = x"
    and rep_rnd: "rep (rnd x)"
    and rep_nat: "n \<le> 2 ^ 53 \<Longrightarrow> rep (real n)"
    and rep_pred: "rep x \<Longrightarrow> 1 \<le> x \<Longrightarrow> x \<le> 2 ^ 53 \<Longrightarrow> rep (x - 1)"
begin

lemma rnd_idem [simp]: "rnd (rnd x) = rnd x"
  by (rule rnd_id) (rule rep_rnd)

lemma rnd_zero [simp]: "rnd 0 = 0"
  using rnd_id [OF rep_nat [of 0]] by simp

lemma rnd_one [simp]: "rnd 1 = 1"
  using rnd_id [OF rep_nat [of 1]] by simp

lemma rnd_nonneg: "0 \<le> x \<Longrightarrow> 0 \<le> rnd x"
  using rnd_mono [of 0 x] by simp

lemma rnd_nonpos: "x \<le> 0 \<Longrightarrow> rnd x \<le> 0"
  using rnd_mono [of x 0] by simp

lemma rnd_le: "rep y \<Longrightarrow> x \<le> y \<Longrightarrow> rnd x \<le> y"
  using rnd_mono [of x y] rnd_id [of y] by simp

lemma rnd_ge: "rep x \<Longrightarrow> x \<le> y \<Longrightarrow> x \<le> rnd y"
  using rnd_mono [of x y] rnd_id [of x] by simp

lemma rnd_add_nonneg: "rep x \<Longrightarrow> 0 \<le> y \<Longrightarrow> x \<le> rnd (x + y)"
  by (rule rnd_ge) auto

lemma rnd_sub_nonneg: "rep x \<Longrightarrow> 0 \<le> y \<Longrightarrow> rnd (x - y) \<le> x"
  by (rule rnd_le) auto

lemma rnd_pred: "rep x \<Longrightarrow> 1 \<le> x \<Longrightarrow> x \<le> 2 ^ 53 \<Longrightarrow> rnd (x - 1) = x - 1"
  by (rule rnd_id) (rule rep_pred)

lemma rnd_pred_succ: "rep x \<Longrightarrow> 1 \<le> x \<Longrightarrow> x \<le> 2 ^ 53 \<Longrightarrow> rnd (rnd (x - 1) + 1) = x"
  by (simp add: rnd_pred rnd_id)

end

interpretation f64: rounding f64_round f64_rep
  by unfold_locales
    (auto intro: f64_round_mono f64_round_rep_id f64_round_rep f64_rep_of_nat
      f64_rep_minus_one)

lemma f64_round_numeral: "n \<le> 2 ^ 53 \<Longrightarrow> f64_round (real n) = real n"
  by (rule f64.rnd_id) (rule f64.rep_nat)

section \<open>Operations\<close>

definition fadd :: "real \<Rightarrow> real \<Rightarrow> real" where "fadd x y = f64_round (x + y)"
definition fsub :: "real \<Rightarrow> real \<Rightarrow> real" where "fsub x y = f64_round (x - y)"
definition fmul :: "real \<Rightarrow> real \<Rightarrow> real" where "fmul x y = f64_round (x * y)"
definition fdiv :: "real \<Rightarrow> real \<Rightarrow> real" where "fdiv x y = f64_round (x / y)"

text \<open>The cast \<open>n as f64\<close> of a \<open>u64\<close>, and \<open>f64::EPSILON\<close>.\<close>

definition u64_as_f64 :: "u64 \<Rightarrow> real" where "u64_as_f64 n = f64_round (real (unat n))"

definition f64_epsilon :: real where "f64_epsilon = 1 / 2 ^ 52"

text \<open>
  A \<open>Duration\<close> is its number of nanoseconds, an \<open>Instant\<close> the nanoseconds since an
  arbitrary origin. \<open>as_secs_f64\<close> converts seconds and nanoseconds apart and adds them;
  \<open>from_secs_f64\<close> rounds to the nearest nanosecond and panics (here: None) on a negative
  number and from \<open>2 ^ 64\<close> seconds on.
\<close>

type_synonym duration = nat
type_synonym instant = nat

definition as_secs_f64 :: "duration \<Rightarrow> real" where
  "as_secs_f64 d = fadd (f64_round (real (d div 10 ^ 9))) (fdiv (real (d mod 10 ^ 9)) (10 ^ 9))"

definition from_secs_f64 :: "real \<Rightarrow> duration option" where
  "from_secs_f64 x =
     (if x < 0 \<or> 2 ^ 64 \<le> x then None else Some (nat (round_half_even (x * 10 ^ 9))))"

lemma fadd_nonneg: "0 \<le> x \<Longrightarrow> 0 \<le> y \<Longrightarrow> 0 \<le> fadd x y"
  by (simp add: fadd_def f64.rnd_nonneg)

lemma fmul_nonneg: "0 \<le> x \<Longrightarrow> 0 \<le> y \<Longrightarrow> 0 \<le> fmul x y"
  by (simp add: fmul_def f64.rnd_nonneg)

lemma fdiv_nonneg: "0 \<le> x \<Longrightarrow> 0 \<le> y \<Longrightarrow> 0 \<le> fdiv x y"
  by (simp add: fdiv_def f64.rnd_nonneg)

lemma fadd_mono: "x \<le> x' \<Longrightarrow> y \<le> y' \<Longrightarrow> fadd x y \<le> fadd x' y'"
  by (simp add: fadd_def f64.rnd_mono)

lemma fmul_mono: "0 \<le> x \<Longrightarrow> x \<le> x' \<Longrightarrow> 0 \<le> y \<Longrightarrow> y \<le> y' \<Longrightarrow> fmul x y \<le> fmul x' y'"
  by (simp add: fmul_def f64.rnd_mono mult_mono)

lemma fdiv_mono: "x \<le> x' \<Longrightarrow> 0 < y \<Longrightarrow> fdiv x y \<le> fdiv x' y"
  by (simp add: fdiv_def f64.rnd_mono divide_right_mono)

lemma as_secs_f64_nonneg: "0 \<le> as_secs_f64 d"
  by (simp add: as_secs_f64_def fadd_nonneg fdiv_nonneg f64.rnd_nonneg)

lemma as_secs_f64_zero [simp]: "as_secs_f64 0 = 0"
  by (simp add: as_secs_f64_def fadd_def fdiv_def)

lemma f64_rep_u64 [simp]: "f64_rep (u64_as_f64 n)"
  by (simp add: u64_as_f64_def f64.rep_rnd)

lemma u64_as_f64_nonneg [simp]: "0 \<le> u64_as_f64 n"
  unfolding u64_as_f64_def by (rule f64.rnd_nonneg, rule of_nat_0_le_iff)

lemma u64_as_f64_exact: "unat n \<le> 2 ^ 53 \<Longrightarrow> u64_as_f64 n = real (unat n)"
  unfolding u64_as_f64_def by (rule f64_round_numeral)

lemma u64_as_f64_mono: "m \<le> n \<Longrightarrow> u64_as_f64 m \<le> u64_as_f64 n"
  unfolding u64_as_f64_def word_le_nat_alt by (intro f64.rnd_mono of_nat_mono)

end
