(* ===== verification/Config.thy ===== *)
theory Config
  imports Json
begin

text \<open>
  The configuration of \<open>crates/llmleaf-core/src/config.rs\<close>: the tables of the config file
  as records (deserialisation itself is \<open>toml\<close>'s and \<open>serde\<close>'s work), their defaults, the
  checks run at load, and the resolution of secrets and of control-plane credentials. The
  process environment is the parameter \<open>env\<close>, what \<open>std::env::var\<close> answers.
\<close>

section \<open>Secrets\<close>

datatype secret = Secret string

fun secret_resolve :: "(string \<Rightarrow> string option) \<Rightarrow> secret \<Rightarrow> string option" where
  "secret_resolve env (Secret s) =
     (case strip_prefix ''env:'' s of Some var \<Rightarrow> env var | None \<Rightarrow> Some s)"

fun secret_debug :: "secret \<Rightarrow> string" where
  "secret_debug (Secret _) = ''Secret(****)''"

section \<open>Providers, routes and keys\<close>

record server_config =
  sv_listen :: string
  sv_admin_token :: "secret option"
  sv_batch_id_secret :: "secret option"
  sv_event_buffer :: u64
  sv_include_payloads :: bool
  sv_fallback_cooldown_secs :: u64
  sv_rate_limit_max_wait_ms :: u64
  sv_max_body_bytes :: u64

definition server_config_default :: server_config where
  "server_config_default =
     \<lparr>sv_listen = ''127.0.0.1:8080'', sv_admin_token = None, sv_batch_id_secret = None,
      sv_event_buffer = 1024, sv_include_payloads = False, sv_fallback_cooldown_secs = 15,
      sv_rate_limit_max_wait_ms = 5000, sv_max_body_bytes = 32 * 1024 * 1024\<rparr>"

record rate_limit_config =
  rl_requests_per_min :: "u64 option"
  rl_tokens_per_min :: "u64 option"
  rl_max_concurrent :: "u32 option"

record provider_config =
  pc_name :: string
  pc_kind :: string
  pc_endpoint :: "string option"
  pc_credential :: "secret option"
  pc_prefix :: "string option"
  pc_settings :: json_map
  pc_limits :: "rate_limit_config option"
  pc_model_limits :: "(string, rate_limit_config) hashmap"

record route_target =
  tg_provider :: string
  tg_model :: "string option"

record route_config =
  rt_model :: string
  rt_targets :: "route_target list"

record key_config =
  kc_id :: string
  kc_pw_hash :: secret
  kc_name :: "string option"
  kc_allowed_models :: "string list option"

section \<open>OAuth\<close>

datatype on_error = Allow | Deny

record introspection_config =
  in_url :: string
  in_credential :: "secret option"
  in_cache_ttl_secs :: u64
  in_timeout_ms :: u64

record oauth_config =
  oa_issuer :: string
  oa_audience :: "string list"
  oa_jwks_uri :: "string option"
  oa_jwks :: "json option"
  oa_algorithms :: "string list"
  oa_identity_claim :: string
  oa_roles_claim :: string
  oa_role_models :: "(string, string list) hashmap"
  oa_jwks_refresh_secs :: u64
  oa_timeout_ms :: u64
  oa_on_error :: on_error
  oa_introspection :: "introspection_config option"

section \<open>The control plane\<close>

datatype auth_scheme_config =
    Bearer secret
  | Header string secret

record auth_config =
  ac_id :: string
  ac_scheme :: auth_scheme_config

datatype resolved_auth =
    ResolvedBearer string
  | ResolvedHeader string string

datatype intercept_phase = Request | Response

record control_source =
  cs_url :: string
  cs_credential :: "secret option"
  cs_auth :: "string option"

record identity_source = control_source +
  is_refresh_secs :: u64
  is_timeout_ms :: u64
  is_on_error :: on_error

record limits_source = control_source +
  ls_refresh_secs :: u64
  ls_timeout_ms :: u64
  ls_on_error :: on_error

record topology_source = control_source +
  ts_refresh_secs :: u64
  ts_timeout_ms :: u64

record usage_sink = control_source +
  us_batch_ms :: u64
  us_batch_max :: u64
  us_timeout_ms :: u64

record intercept_hook = control_source +
  ih_phases :: "intercept_phase list"
  ih_keys :: "string list option"
  ih_models :: "string list option"
  ih_timeout_ms :: u64
  ih_on_error :: on_error

record control_config =
  cc_auth :: "auth_config list"
  cc_identity :: "identity_source option"
  cc_limits :: "limits_source option"
  cc_topology :: "topology_source option"
  cc_usage :: "usage_sink option"
  cc_intercept :: "intercept_hook option"

record config =
  cf_server :: server_config
  cf_providers :: "provider_config list"
  cf_routes :: "route_config list"
  cf_keys :: "key_config list"
  cf_control :: control_config
  cf_oauth :: "oauth_config option"

text \<open>The field defaults, as \<open>serde\<close> fills them in.\<close>

definition default_identity_refresh_secs :: u64 where "default_identity_refresh_secs = 30"
definition default_limits_refresh_secs :: u64 where "default_limits_refresh_secs = 5"
definition default_topology_refresh_secs :: u64 where "default_topology_refresh_secs = 30"
definition default_pull_timeout_ms :: u64 where "default_pull_timeout_ms = 2000"
definition default_push_timeout_ms :: u64 where "default_push_timeout_ms = 5000"
definition default_intercept_timeout_ms :: u64 where "default_intercept_timeout_ms = 1000"
definition default_batch_ms :: u64 where "default_batch_ms = 1000"
definition default_batch_max :: u64 where "default_batch_max = 256"
definition default_on_error_allow :: on_error where "default_on_error_allow = Allow"
definition default_on_error_deny :: on_error where "default_on_error_deny = Deny"
definition default_oauth_algorithms :: "string list" where
  "default_oauth_algorithms = [''RS256'', ''ES256'']"
definition default_identity_claim :: string where "default_identity_claim = ''sub''"
definition default_roles_claim :: string where "default_roles_claim = ''roles''"
definition default_jwks_refresh_secs :: u64 where "default_jwks_refresh_secs = 3600"
definition default_introspect_cache_ttl_secs :: u64 where
  "default_introspect_cache_ttl_secs = 30"

section \<open>Load-time checks\<close>

text \<open>Why a config is invalid; the source renders each reason as a message.\<close>

datatype invalid_reason =
    ControlBytesInKey string
  | DuplicateKeyId string
  | DuplicateDisplayId string string
  | EmptyAuthId
  | DuplicateAuthId string
  | InvalidHeaderName string string
  | AuthAndCredential string
  | UnknownAuthId string string

datatype config_error =
    ConfigIo string
  | ConfigParse string
  | ConfigInvalid invalid_reason

definition has_control_bytes :: "string \<Rightarrow> bool" where
  "has_control_bytes s = list_ex is_ascii_control s"

definition key_display :: "key_config \<Rightarrow> string" where
  "key_display k = unwrap_or (kc_id k) (kc_name k)"

text \<open>\<open>Config::validate_keys\<close>: one turn per key, with the ids and display ids seen so far.\<close>

fun validate_keys_loop :: "string list \<Rightarrow> string list \<Rightarrow> key_config list \<Rightarrow> config_error + unit" where
  "validate_keys_loop ids displays [] = Inr ()"
| "validate_keys_loop ids displays (k # ks) =
     (if has_control_bytes (kc_id k) \<or> is_some_and has_control_bytes (kc_name k)
      then Inl (ConfigInvalid (ControlBytesInKey (kc_id k)))
      else if kc_id k \<in> set ids then Inl (ConfigInvalid (DuplicateKeyId (kc_id k)))
      else if key_display k \<in> set displays
      then Inl (ConfigInvalid (DuplicateDisplayId (key_display k) (kc_id k)))
      else validate_keys_loop (kc_id k # ids) (key_display k # displays) ks)"

definition validate_keys :: "config \<Rightarrow> config_error + unit" where
  "validate_keys cfg = validate_keys_loop [] [] (cf_keys cfg)"

text \<open>
  \<open>str::trim().is_empty()\<close>: nothing but Unicode white space, here in its UTF-8 bytes.
\<close>

definition white_space :: "string list" where
  "white_space =
    [[CHR 0x09], [CHR 0x0A], [CHR 0x0B], [CHR 0x0C], [CHR 0x0D], [CHR 0x20],
     [CHR 0xC2, CHR 0x85], [CHR 0xC2, CHR 0xA0], [CHR 0xE1, CHR 0x9A, CHR 0x80],
     [CHR 0xE2, CHR 0x80, CHR 0x80], [CHR 0xE2, CHR 0x80, CHR 0x81],
     [CHR 0xE2, CHR 0x80, CHR 0x82], [CHR 0xE2, CHR 0x80, CHR 0x83],
     [CHR 0xE2, CHR 0x80, CHR 0x84], [CHR 0xE2, CHR 0x80, CHR 0x85],
     [CHR 0xE2, CHR 0x80, CHR 0x86], [CHR 0xE2, CHR 0x80, CHR 0x87],
     [CHR 0xE2, CHR 0x80, CHR 0x88], [CHR 0xE2, CHR 0x80, CHR 0x89],
     [CHR 0xE2, CHR 0x80, CHR 0x8A], [CHR 0xE2, CHR 0x80, CHR 0xA8],
     [CHR 0xE2, CHR 0x80, CHR 0xA9], [CHR 0xE2, CHR 0x80, CHR 0xAF],
     [CHR 0xE2, CHR 0x81, CHR 0x9F], [CHR 0xE3, CHR 0x80, CHR 0x80]]"

definition strip_white :: "string \<Rightarrow> string option" where
  "strip_white s =
     map_option (\<lambda>w. drop (length w) s) (List.find (\<lambda>w. take (length w) s = w) white_space)"

lemma strip_white_length: "strip_white s = Some r \<Longrightarrow> length r < length s"
proof -
  assume "strip_white s = Some r"
  then obtain w where f: "List.find (\<lambda>w. take (length w) s = w) white_space = Some w"
    and r: "r = drop (length w) s"
    by (auto simp: strip_white_def)
  from f have w: "w \<in> set white_space" "take (length w) s = w"
    by (auto simp: find_Some_iff)
  then have "w \<noteq> []" by (auto simp: white_space_def)
  moreover from w r have "s = w @ r" by (metis append_take_drop_id)
  ultimately show ?thesis by simp
qed

function trim_is_empty :: "string \<Rightarrow> bool" where
  "trim_is_empty s =
     (if s = [] then True
      else (case strip_white s of None \<Rightarrow> False | Some r \<Rightarrow> trim_is_empty r))"
  by pat_completeness auto
termination
  by (relation "measure length") (auto dest: strip_white_length)

declare trim_is_empty.simps [simp del]

definition header_name_char :: "char \<Rightarrow> bool" where
  "header_name_char b \<longleftrightarrow>
     is_ascii_alphanumeric b \<or> b \<in> set (''!#$%&'' @ [CHR 0x27] @ ''*+-.^_`|~'')"

definition is_valid_header_name :: "string \<Rightarrow> bool" where
  "is_valid_header_name name \<longleftrightarrow> name \<noteq> [] \<and> list_all header_name_char name"

text \<open>\<open>ControlConfig::validate\<close>: the auth entries, then the five sub-table references.\<close>

fun validate_auth_loop :: "string list \<Rightarrow> auth_config list \<Rightarrow> config_error + unit" where
  "validate_auth_loop seen [] = Inr ()"
| "validate_auth_loop seen (a # as) =
     (if trim_is_empty (ac_id a) then Inl (ConfigInvalid EmptyAuthId)
      else if ac_id a \<in> set seen then Inl (ConfigInvalid (DuplicateAuthId (ac_id a)))
      else (case ac_scheme a of
          Header header _ \<Rightarrow>
            if \<not> is_valid_header_name header
            then Inl (ConfigInvalid (InvalidHeaderName (ac_id a) header))
            else validate_auth_loop (ac_id a # seen) as
        | Bearer _ \<Rightarrow> validate_auth_loop (ac_id a # seen) as))"

definition source_ref ::
  "string \<Rightarrow> 'b control_source_scheme option \<Rightarrow> string \<times> string option \<times> bool" where
  "source_ref label src =
     (label, Option.bind src cs_auth, is_some_and (\<lambda>s. cs_credential s \<noteq> None) src)"

definition control_refs :: "control_config \<Rightarrow> (string \<times> string option \<times> bool) list" where
  "control_refs cc =
     [source_ref ''control.identity'' (cc_identity cc),
      source_ref ''control.limits'' (cc_limits cc),
      source_ref ''control.topology'' (cc_topology cc),
      source_ref ''control.usage'' (cc_usage cc),
      source_ref ''control.intercept'' (cc_intercept cc)]"

fun validate_refs_loop ::
  "auth_config list \<Rightarrow> (string \<times> string option \<times> bool) list \<Rightarrow> config_error + unit" where
  "validate_refs_loop auths [] = Inr ()"
| "validate_refs_loop auths ((label, reference, has_credential) # rs) =
     (case reference of
        None \<Rightarrow> validate_refs_loop auths rs
      | Some i \<Rightarrow>
          if has_credential then Inl (ConfigInvalid (AuthAndCredential label))
          else if \<not> list_ex (\<lambda>a. ac_id a = i) auths
          then Inl (ConfigInvalid (UnknownAuthId label i))
          else validate_refs_loop auths rs)"

definition control_validate :: "control_config \<Rightarrow> config_error + unit" where
  "control_validate cc =
     res_bind (validate_auth_loop [] (cc_auth cc))
       (\<lambda>_. validate_refs_loop (cc_auth cc) (control_refs cc))"

text \<open>
  \<open>Config::from_toml_str\<close>, where the parser (\<open>toml::from_str\<close>, third-party) is the
  parameter \<open>parse\<close>; \<open>Config::from_path\<close> reads the file first.
\<close>

definition from_toml_str :: "(string \<Rightarrow> string + config) \<Rightarrow> string \<Rightarrow> config_error + config" where
  "from_toml_str parse s =
     (case parse s of
        Inl e \<Rightarrow> Inl (ConfigParse e)
      | Inr cfg \<Rightarrow>
          res_bind (control_validate (cf_control cfg))
            (\<lambda>_. res_bind (validate_keys cfg) (\<lambda>_. Inr cfg)))"

definition from_path ::
  "(string \<Rightarrow> string + config) \<Rightarrow> (string \<Rightarrow> string option) \<Rightarrow> string \<Rightarrow> config_error + config" where
  "from_path parse read_file path =
     (case read_file path of
        None \<Rightarrow> Inl (ConfigIo path)
      | Some text \<Rightarrow> from_toml_str parse text)"

section \<open>Credentials\<close>

fun scheme_resolve :: "(string \<Rightarrow> string option) \<Rightarrow> auth_scheme_config \<Rightarrow> resolved_auth option" where
  "scheme_resolve env (Bearer tok) = map_option ResolvedBearer (secret_resolve env tok)"
| "scheme_resolve env (Header header val) =
     map_option (ResolvedHeader header) (secret_resolve env val)"

definition resolve_auth ::
  "(string \<Rightarrow> string option) \<Rightarrow> control_config \<Rightarrow> string option \<Rightarrow> secret option
    \<Rightarrow> resolved_auth option" where
  "resolve_auth env cc reference fallback =
     (case reference of
        Some i \<Rightarrow> Option.bind (List.find (\<lambda>a. ac_id a = i) (cc_auth cc)) (\<lambda>a. scheme_resolve env (ac_scheme a))
      | None \<Rightarrow> map_option ResolvedBearer (Option.bind fallback (secret_resolve env)))"

text \<open>The redacting \<open>Debug\<close> of a resolved credential; \<open>quote\<close> renders a header name.\<close>

fun resolved_auth_debug :: "(string \<Rightarrow> string) \<Rightarrow> resolved_auth \<Rightarrow> string" where
  "resolved_auth_debug quote (ResolvedBearer _) = ''Bearer(****)''"
| "resolved_auth_debug quote (ResolvedHeader name _) =
     ''Header { name: '' @ quote name @ '', value: **** }''"

section \<open>What the checks guarantee\<close>

lemma validate_keys_loop_Inr_iff:
  "validate_keys_loop ids displays ks = Inr () \<longleftrightarrow>
     (\<forall>k \<in> set ks. \<not> has_control_bytes (kc_id k) \<and> \<not> is_some_and has_control_bytes (kc_name k)) \<and>
     distinct (map kc_id ks) \<and> set (map kc_id ks) \<inter> set ids = {} \<and>
     distinct (map key_display ks) \<and> set (map key_display ks) \<inter> set displays = {}"
proof (induction ks arbitrary: ids displays)
  case (Cons k ks)
  show ?case by (simp add: Cons.IH) blast
qed simp

lemma validate_auth_loop_Inr_iff:
  "validate_auth_loop seen as = Inr () \<longleftrightarrow>
     (\<forall>a \<in> set as. \<not> trim_is_empty (ac_id a)) \<and> distinct (map ac_id as) \<and>
     set (map ac_id as) \<inter> set seen = {} \<and>
     (\<forall>a \<in> set as. \<forall>h s. ac_scheme a = Header h s \<longrightarrow> is_valid_header_name h)"
proof (induction as arbitrary: seen)
  case (Cons a as)
  show ?case by (cases "ac_scheme a") (auto simp: Cons.IH)
qed simp

lemma validate_refs_loop_Inr_iff:
  "validate_refs_loop auths rs = Inr () \<longleftrightarrow>
     (\<forall>(label, reference, cred) \<in> set rs.
        \<forall>i. reference = Some i \<longrightarrow> \<not> cred \<and> (\<exists>a \<in> set auths. ac_id a = i))"
  by (induction auths rs rule: validate_refs_loop.induct)
    (auto split: option.splits simp: list_ex_iff)

lemma resolve_auth_found:
  assumes "\<exists>a \<in> set (cc_auth cc). ac_id a = i"
  shows "\<exists>a \<in> set (cc_auth cc). ac_id a = i \<and>
           resolve_auth env cc (Some i) fallback = scheme_resolve env (ac_scheme a)"
proof -
  from assms obtain a where f: "List.find (\<lambda>a. ac_id a = i) (cc_auth cc) = Some a"
    by (metis (mono_tags, lifting) find_None_iff not_None_eq)
  then have "a \<in> set (cc_auth cc)" and "ac_id a = i"
    by (auto simp: find_Some_iff)
  with f show ?thesis
    by (intro bexI [of _ a]) (simp_all add: resolve_auth_def)
qed

text \<open>What a loaded config satisfies: the integrity rules of the keys and of the credentials.\<close>

definition keys_ok :: "key_config list \<Rightarrow> bool" where
  "keys_ok ks \<longleftrightarrow>
     (\<forall>k \<in> set ks. \<not> has_control_bytes (kc_id k) \<and> \<not> has_control_bytes (key_display k)) \<and>
     distinct (map kc_id ks) \<and> distinct (map key_display ks)"

definition auths_ok :: "auth_config list \<Rightarrow> bool" where
  "auths_ok as \<longleftrightarrow>
     (\<forall>a \<in> set as. \<not> trim_is_empty (ac_id a)) \<and> distinct (map ac_id as) \<and>
     (\<forall>a \<in> set as. \<forall>h s. ac_scheme a = Header h s \<longrightarrow> is_valid_header_name h)"

definition refs_ok :: "control_config \<Rightarrow> bool" where
  "refs_ok cc \<longleftrightarrow>
     (\<forall>(label, reference, cred) \<in> set (control_refs cc).
        \<forall>i. reference = Some i \<longrightarrow> \<not> cred \<and> (\<exists>a \<in> set (cc_auth cc). ac_id a = i))"

lemma display_control:
  "\<not> has_control_bytes (kc_id k) \<Longrightarrow>
   has_control_bytes (key_display k) = is_some_and has_control_bytes (kc_name k)"
  by (cases "kc_name k") (simp_all add: key_display_def)

lemma validate_keys_ok: "validate_keys cfg = Inr () \<longleftrightarrow> keys_ok (cf_keys cfg)"
  by (auto simp: validate_keys_def validate_keys_loop_Inr_iff keys_ok_def display_control)

lemma control_validate_ok: "control_validate cc = Inr () \<longleftrightarrow> auths_ok (cc_auth cc) \<and> refs_ok cc"
  by (auto simp: control_validate_def res_simps validate_auth_loop_Inr_iff
      validate_refs_loop_Inr_iff auths_ok_def refs_ok_def)

text \<open>
  Loading a config succeeds exactly when the parser does and the integrity rules hold:
  key ids and display ids are distinct and free of control bytes, the named credentials have
  distinct, non-blank ids and valid header names, and every credential reference of a control
  sub-table names one of them and stands alone (no inline credential beside it). So a config
  that loads can be trusted by the batch-id format (no \<open>0x1f\<close> in an owner), by model scoping
  (display ids identify keys) and by the control clients (no dangling reference).
\<close>

theorem from_toml_str_ok:
  "from_toml_str parse s = Inr cfg \<longleftrightarrow>
     parse s = Inr cfg \<and> keys_ok (cf_keys cfg) \<and> auths_ok (cc_auth (cf_control cfg)) \<and>
     refs_ok (cf_control cfg)"
proof (cases "parse s")
  case (Inr c)
  then show ?thesis
    by (auto simp: from_toml_str_def res_simps validate_keys_ok control_validate_ok)
qed (simp add: from_toml_str_def)

text \<open>
  In a config that loaded, a control sub-table that references a credential by id gets
  exactly that credential: one entry has the id, it is the one \<open>resolve_auth\<close> resolves,
  whatever the environment, and the only way to get none is an unset environment variable.
\<close>

theorem loaded_reference_resolves:
  assumes "from_toml_str parse s = Inr cfg"
    and "(label, Some i, cred) \<in> set (control_refs (cf_control cfg))"
  shows "\<not> cred \<and> (\<exists>!a. a \<in> set (cc_auth (cf_control cfg)) \<and> ac_id a = i) \<and>
    (\<exists>a \<in> set (cc_auth (cf_control cfg)). ac_id a = i \<and>
      resolve_auth env (cf_control cfg) (Some i) fallback = scheme_resolve env (ac_scheme a))"
proof -
  from assms(1) have "validate_keys cfg = Inr ()" and ok: "control_validate (cf_control cfg) = Inr ()"
    by (auto simp: from_toml_str_def res_simps split: sum.splits)
  from ok have a: "auths_ok (cc_auth (cf_control cfg))" and r: "refs_ok (cf_control cfg)"
    by (simp_all add: control_validate_ok)
  from r assms(2) have cred: "\<not> cred" and ex: "\<exists>a \<in> set (cc_auth (cf_control cfg)). ac_id a = i"
    by (auto simp: refs_ok_def)
  from a have "inj_on ac_id (set (cc_auth (cf_control cfg)))"
    by (simp add: auths_ok_def distinct_map)
  with ex have "\<exists>!a. a \<in> set (cc_auth (cf_control cfg)) \<and> ac_id a = i"
    by (auto simp: inj_on_def)
  with cred resolve_auth_found [OF ex] show ?thesis by blast
qed

section \<open>Example\<close>

definition ex_control :: control_config where
  "ex_control =
     \<lparr>cc_auth = [\<lparr>ac_id = ''cp'', ac_scheme = Header ''x-api-key'' (Secret ''env:CP'')\<rparr>],
      cc_identity = Some \<lparr>cs_url = ''https://cp'', cs_credential = None, cs_auth = Some ''cp'',
        is_refresh_secs = 30, is_timeout_ms = 2000, is_on_error = Deny\<rparr>,
      cc_limits = None, cc_topology = None, cc_usage = None, cc_intercept = None\<rparr>"

definition ex_config :: config where
  "ex_config =
     \<lparr>cf_server = server_config_default, cf_providers = [], cf_routes = [],
      cf_keys = [\<lparr>kc_id = ''k1'', kc_pw_hash = Secret ''h'', kc_name = Some ''alice'',
        kc_allowed_models = None\<rparr>],
      cf_control = ex_control, cf_oauth = None\<rparr>"

lemma ex_config_valid:
  "validate_keys ex_config = Inr ()" "control_validate (cf_control ex_config) = Inr ()"
  by code_simp+

theorem from_toml_str_ok_witness:
  "from_toml_str (\<lambda>_. Inr ex_config) ''text'' = Inr ex_config \<and> keys_ok (cf_keys ex_config)"
  using from_toml_str_ok [of "\<lambda>_. Inr ex_config" "''text''" ex_config]
  by (simp add: from_toml_str_def ex_config_valid)

theorem loaded_reference_resolves_witness:
  "\<exists>a \<in> set (cc_auth (cf_control ex_config)). ac_id a = ''cp'' \<and>
     resolve_auth (\<lambda>_. Some ''tok'') (cf_control ex_config) (Some ''cp'') None =
       scheme_resolve (\<lambda>_. Some ''tok'') (ac_scheme a)"
  using loaded_reference_resolves [of "\<lambda>_. Inr ex_config" "''text''" ex_config
      "''control.identity''" "''cp''" False "\<lambda>_. Some ''tok''" None]
  by (simp add: from_toml_str_def ex_config_valid)
    (simp add: ex_config_def ex_control_def control_refs_def source_ref_def)

end
