(* ===== verification/Wildcard.thy ===== *)
theory Wildcard
  imports Prelude
begin

text \<open>
  The model allow-list matcher of \<open>keys.rs\<close>: \<open>wildcard_match\<close>, an iterative two-pointer
  glob with a single backtracking point, and \<open>allow_set_permits\<close> on top of it. The
  reference is the recursive \<open>glob\<close>, where a star tries every suffix; the loop is proved
  equal to it.
\<close>

section \<open>The loop\<close>

text \<open>The closing loop over trailing stars and the final test \<open>pi == p.len()\<close>.\<close>

function trailing_stars :: "string \<Rightarrow> nat \<Rightarrow> bool" where
  "trailing_stars p i =
     (if i < length p \<and> p ! i = CHR ''*'' then trailing_stars p (Suc i) else i = length p)"
  by pat_completeness auto
termination
  by (relation "measure (\<lambda>(p, i). length p - i)") auto

text \<open>
  The main loop. \<open>i\<close> and \<open>j\<close> are the source's \<open>pi\<close> and \<open>ti\<close>; \<open>star\<close> holds the position
  after the last star and the text index it has consumed up to. It terminates from every
  state: a backtrack moves the star's text index forward, and between backtracks the
  pattern index grows.
\<close>

function glob_loop :: "string \<Rightarrow> string \<Rightarrow> nat \<Rightarrow> nat \<Rightarrow> (nat \<times> nat) option \<Rightarrow> bool" where
  "glob_loop p t i j star =
     (if j < length t then
        if i < length p \<and> p ! i = CHR ''*'' then glob_loop p t (Suc i) j (Some (Suc i, j))
        else if i < length p \<and> p ! i = t ! j then glob_loop p t (Suc i) (Suc j) star
        else (case star of
            Some (sp, st) \<Rightarrow> glob_loop p t sp (Suc st) (Some (sp, Suc st))
          | None \<Rightarrow> False)
      else trailing_stars p i)"
  by pat_completeness auto
termination
  by (relation "measures
        [\<lambda>(p, t, i, j, star). case star of None \<Rightarrow> 0 | Some (sp, st) \<Rightarrow> if st \<le> j then 0 else 1,
         \<lambda>(p, t, i, j, star). length t - (case star of None \<Rightarrow> 0 | Some (sp, st) \<Rightarrow> st),
         \<lambda>(p, t, i, j, star). length p - i]")
    (auto split: option.splits if_splits)

declare trailing_stars.simps [simp del] glob_loop.simps [simp del]

definition wildcard_match :: "string \<Rightarrow> string \<Rightarrow> bool" where
  "wildcard_match pattern model = glob_loop pattern model 0 0 None"

definition allow_set_permits :: "string list \<Rightarrow> string \<Rightarrow> bool" where
  "allow_set_permits allowed model \<longleftrightarrow>
     model \<in> set allowed \<or> list_ex (\<lambda>p. CHR ''*'' \<in> set p \<and> wildcard_match p model) allowed"

section \<open>The reference matcher\<close>

fun glob :: "string \<Rightarrow> string \<Rightarrow> bool" where
  "glob [] t = (t = [])"
| "glob (c # p) t =
     (if c = CHR ''*'' then list_ex (glob p) (suffixes t)
      else (case t of [] \<Rightarrow> False | d # t' \<Rightarrow> c = d \<and> glob p t'))"

lemma glob_star: "glob (CHR ''*'' # p) t \<longleftrightarrow> (\<exists>k \<le> length t. glob p (drop k t))"
proof -
  have "glob (CHR ''*'' # p) t \<longleftrightarrow> (\<exists>s. suffix s t \<and> glob p s)"
    by (simp add: list_ex_iff) (metis in_set_suffixes)
  also have "\<dots> \<longleftrightarrow> (\<exists>k \<le> length t. glob p (drop k t))"
    by (metis diff_le_self suffix_drop suffix_take suffix_def append_eq_conv_conj
        length_append le_add1)
  finally show ?thesis .
qed

lemma glob_star_from:
  assumes "j \<le> length t"
  shows "glob (CHR ''*'' # p) (drop j t) \<longleftrightarrow> (\<exists>k \<ge> j. k \<le> length t \<and> glob p (drop k t))"
proof
  assume "glob (CHR ''*'' # p) (drop j t)"
  then obtain k where "k \<le> length t - j" "glob p (drop (k + j) t)"
    by (auto simp only: glob_star length_drop drop_drop)
  with assms show "\<exists>k \<ge> j. k \<le> length t \<and> glob p (drop k t)"
    by (intro exI [of _ "k + j"]) auto
next
  assume "\<exists>k \<ge> j. k \<le> length t \<and> glob p (drop k t)"
  then obtain k where k: "j \<le> k" "k \<le> length t" "glob p (drop k t)" by blast
  then have "k - j \<le> length (drop j t)" "glob p (drop (k - j) (drop j t))" by simp_all
  then show "glob (CHR ''*'' # p) (drop j t)" unfolding glob_star by blast
qed

lemma glob_literal:
  "CHR ''*'' \<notin> set w \<Longrightarrow> glob (w @ q) s \<longleftrightarrow> (\<exists>r. s = w @ r \<and> glob q r)"
proof (induction w arbitrary: s)
  case (Cons c w)
  then show ?case by (cases s) auto
qed simp

text \<open>A pattern without a star matches itself only; a star matches anything.\<close>

lemma glob_no_star: "CHR ''*'' \<notin> set p \<Longrightarrow> glob p t \<longleftrightarrow> t = p"
  using glob_literal [of p "[]" t] by simp

lemma glob_prefix_star:
  "CHR ''*'' \<notin> set w \<Longrightarrow> glob (w @ [CHR ''*'']) t \<longleftrightarrow> prefix w t"
proof -
  assume w: "CHR ''*'' \<notin> set w"
  have "glob [CHR ''*''] r" for r
    by (subst glob_star) (auto intro: exI [of _ "length r"])
  with w show ?thesis by (auto simp: glob_literal prefix_def)
qed

lemma trailing_stars_glob: "i \<le> length p \<Longrightarrow> trailing_stars p i \<longleftrightarrow> glob (drop i p) []"
proof (induction p i rule: trailing_stars.induct)
  case (1 p i)
  show ?case
  proof (cases "i < length p")
    case True
    then have d: "drop i p = p ! i # drop (Suc i) p" by (simp add: Cons_nth_drop_Suc)
    show ?thesis
      using "1.IH" True by (subst trailing_stars.simps) (auto simp: d)
  next
    case False
    with "1.prems" show ?thesis by (subst trailing_stars.simps) auto
  qed
qed

section \<open>The loop computes the reference\<close>

text \<open>
  What holds between the pointers and the backtracking point: the pattern between the
  star and \<open>i\<close> is star-free and equals the text between the star's index and \<open>j\<close>.
\<close>

definition glob_inv :: "string \<Rightarrow> string \<Rightarrow> nat \<Rightarrow> nat \<Rightarrow> (nat \<times> nat) option \<Rightarrow> bool" where
  "glob_inv p t i j star \<longleftrightarrow> i \<le> length p \<and> j \<le> length t \<and>
     (case star of None \<Rightarrow> True
      | Some (sp, st) \<Rightarrow> sp \<le> i \<and> (\<exists>w. CHR ''*'' \<notin> set w \<and> drop sp p = w @ drop i p \<and>
          drop st t = w @ drop j t \<and> st \<le> j \<and> j = st + length w))"

definition glob_alt :: "string \<Rightarrow> string \<Rightarrow> (nat \<times> nat) option \<Rightarrow> bool" where
  "glob_alt p t star \<longleftrightarrow>
     (case star of None \<Rightarrow> False
      | Some (sp, st) \<Rightarrow> \<exists>k. st < k \<and> k \<le> length t \<and> glob (drop sp p) (drop k t))"

lemma glob_alt_step:
  assumes "Suc st \<le> length t"
  shows "glob_alt p t (Some (sp, st)) \<longleftrightarrow>
    glob (drop sp p) (drop (Suc st) t) \<or> glob_alt p t (Some (sp, Suc st))"
proof -
  have "st < k \<longleftrightarrow> k = Suc st \<or> Suc st < k" for k by auto
  with assms show ?thesis by (auto simp: glob_alt_def)
qed

lemma glob_alt_end:
  assumes "glob_inv p t i j star" "\<not> j < length t" "glob_alt p t star"
  shows False
proof -
  from assms obtain sp st w k where
    "star = Some (sp, st)" and w: "CHR ''*'' \<notin> set w" "drop sp p = w @ drop i p"
    and j: "j = st + length w" and k: "st < k" "k \<le> length t" "glob (drop sp p) (drop k t)"
    by (auto simp: glob_inv_def glob_alt_def split: option.splits)
  from w k(3) have "length w \<le> length t - k"
    by (auto simp: glob_literal) (metis length_drop length_append le_add1)
  with j k(1,2) assms(1,2) show False by (auto simp: glob_inv_def)
qed

lemma glob_alt_star:
  assumes "glob_inv p t i j star" "i < length p" "p ! i = CHR ''*''" "glob_alt p t star"
  shows "glob (drop i p) (drop j t)"
proof -
  from assms obtain sp st w k where
    "star = Some (sp, st)" and w: "CHR ''*'' \<notin> set w" "drop sp p = w @ drop i p"
    and j: "j = st + length w" and k: "st < k" "k \<le> length t" "glob (drop sp p) (drop k t)"
    by (auto simp: glob_inv_def glob_alt_def split: option.splits)
  have d: "drop i p = CHR ''*'' # drop (Suc i) p"
    using assms(2,3) by (metis Cons_nth_drop_Suc)
  from w k(3) obtain r where r: "drop k t = w @ r" "glob (CHR ''*'' # drop (Suc i) p) r"
    by (auto simp: glob_literal d)
  have r': "r = drop (k + length w) t" using r(1)
    by (metis add.commute append_eq_conv_conj drop_drop)
  have "k + length w \<le> length t"
    using r(1) k(2) by (metis add.commute diff_add length_append length_drop le_add1 add_le_mono1)
  with r(2) r' obtain l where "k + length w \<le> l" "l \<le> length t" "glob (drop (Suc i) p) (drop l t)"
    by (auto simp only: glob_star_from)
  then show ?thesis
    using j k(1) assms(1) unfolding d
    by (subst glob_star_from) (auto simp: glob_inv_def intro!: exI [of _ l])
qed

lemma glob_loop_correct:
  "glob_inv p t i j star \<Longrightarrow>
   glob_loop p t i j star \<longleftrightarrow> glob (drop i p) (drop j t) \<or> glob_alt p t star"
proof (induction p t i j star rule: glob_loop.induct)
  case (1 p t i j star)
  have ij: "i \<le> length p" "j \<le> length t" using "1.prems" by (auto simp: glob_inv_def)
  consider (fin) "\<not> j < length t" | (star) "j < length t" "i < length p" "p ! i = CHR ''*''"
    | (lit) "j < length t" "i < length p" "p ! i \<noteq> CHR ''*''" "p ! i = t ! j"
    | (miss) "j < length t" "\<not> (i < length p \<and> p ! i = CHR ''*'')"
        "\<not> (i < length p \<and> p ! i = t ! j)"
    by blast
  then show ?case
  proof cases
    case fin
    then have "j = length t" using ij by simp
    with fin show ?thesis
      using glob_alt_end [OF "1.prems" fin] trailing_stars_glob [OF ij(1)]
      by (subst glob_loop.simps) auto
  next
    case star
    then have inv: "glob_inv p t (Suc i) j (Some (Suc i, j))"
      by (auto simp: glob_inv_def intro: exI [of _ "[]"])
    have "glob_loop p t i j star \<longleftrightarrow> glob_loop p t (Suc i) j (Some (Suc i, j))"
      using star by (subst glob_loop.simps) simp
    also have "\<dots> \<longleftrightarrow> (\<exists>k \<ge> j. k \<le> length t \<and> glob (drop (Suc i) p) (drop k t))"
    proof -
      have "glob_loop p t (Suc i) j (Some (Suc i, j)) \<longleftrightarrow>
          glob (drop (Suc i) p) (drop j t) \<or> glob_alt p t (Some (Suc i, j))"
        using "1.IH"(1) star inv by blast
      then show ?thesis
        using ij(2) by (simp add: glob_alt_def) (metis le_neq_implies_less less_imp_le order_refl)
    qed
    also have "\<dots> \<longleftrightarrow> glob (CHR ''*'' # drop (Suc i) p) (drop j t)"
      using ij(2) by (simp only: glob_star_from)
    also have "CHR ''*'' # drop (Suc i) p = drop i p"
      using star by (metis Cons_nth_drop_Suc)
    finally show ?thesis
      using glob_alt_star [OF "1.prems" star(2,3)] by blast
  next
    case lit
    have d: "drop i p = p ! i # drop (Suc i) p" "drop j t = t ! j # drop (Suc j) t"
      using Cons_nth_drop_Suc [OF lit(2)] Cons_nth_drop_Suc [OF lit(1)] by simp_all
    have inv: "glob_inv p t (Suc i) (Suc j) star"
    proof (cases star)
      case None
      with lit show ?thesis by (auto simp: glob_inv_def)
    next
      case (Some s)
      obtain sp st where s: "s = (sp, st)" by (cases s)
      from "1.prems" Some s obtain w where "CHR ''*'' \<notin> set w" "drop sp p = w @ drop i p"
        "drop st t = w @ drop j t" "st \<le> j" "j = st + length w" "sp \<le> i"
        by (auto simp: glob_inv_def)
      with lit d have "CHR ''*'' \<notin> set (w @ [p ! i]) \<and> drop sp p = (w @ [p ! i]) @ drop (Suc i) p \<and>
        drop st t = (w @ [p ! i]) @ drop (Suc j) t \<and> st \<le> Suc j \<and> Suc j = st + length (w @ [p ! i]) \<and> sp \<le> Suc i"
        by auto
      with lit Some s show ?thesis unfolding glob_inv_def by auto
    qed
    have "glob_loop p t i j star \<longleftrightarrow> glob_loop p t (Suc i) (Suc j) star"
      using lit by (subst glob_loop.simps) auto
    with "1.IH"(2) [OF lit(1) _ _ inv] lit d show ?thesis by auto
  next
    case miss
    have no: "\<not> glob (drop i p) (drop j t)"
    proof (cases "i < length p")
      case True
      with miss show ?thesis
        by (auto simp: Cons_nth_drop_Suc [symmetric])
    next
      case False
      with miss ij show ?thesis by auto
    qed
    show ?thesis
    proof (cases star)
      case None
      with miss no show ?thesis
        by (subst glob_loop.simps) (auto simp: glob_alt_def)
    next
      case (Some s)
      obtain sp st where s: "s = (sp, st)" by (cases s)
      from "1.prems" Some s have w: "sp \<le> i" "st \<le> j"
        by (auto simp: glob_inv_def)
      then have inv: "glob_inv p t sp (Suc st) (Some (sp, Suc st))"
        using miss(1) ij by (auto simp: glob_inv_def intro: exI [of _ "[]"])
      have "glob_loop p t i j star \<longleftrightarrow> glob_loop p t sp (Suc st) (Some (sp, Suc st))"
        using miss Some s by (subst glob_loop.simps) auto
      with "1.IH"(3) [OF miss Some s [symmetric] inv] no Some s miss(1) w(2) show ?thesis
        by (simp add: glob_alt_step)
    qed
  qed
qed

lemma wildcard_match_glob: "wildcard_match p t \<longleftrightarrow> glob p t"
  using glob_loop_correct [of p t 0 0 None]
  by (simp add: wildcard_match_def glob_inv_def glob_alt_def)

text \<open>Since a star-free entry matches itself only, the allow-list is a union of globs.\<close>

lemma allow_set_permits_glob:
  "allow_set_permits allowed model \<longleftrightarrow> (\<exists>p \<in> set allowed. glob p model)
     \<or> model \<in> set allowed"
  by (auto simp: allow_set_permits_def list_ex_iff wildcard_match_glob) (metis glob_no_star)

lemma glob_refl: "glob p p"
proof (induction p)
  case (Cons c p)
  have "suffix p (c # p)" by (simp add: suffix_ConsI)
  with Cons show ?case by (auto simp: list_ex_iff)
qed simp

lemma allow_set_permits_iff:
  "allow_set_permits allowed model \<longleftrightarrow> (\<exists>p \<in> set allowed. glob p model)"
  using glob_refl by (auto simp: allow_set_permits_glob)

lemma allow_set_permits_mono:
  "set a \<subseteq> set b \<Longrightarrow> allow_set_permits a m \<Longrightarrow> allow_set_permits b m"
  by (auto simp: allow_set_permits_iff)

text \<open>
  C40: the allocation-free two-pointer matcher with single-star backtracking decides the glob
  language: each \<open>*\<close> matches any run of bytes, everything else itself. An allow-list
  permits a model exactly when one of its entries, read as a glob, matches it, the exact-entry
  shortcut included.
\<close>

theorem allow_list_is_glob:
  "(wildcard_match p m \<longleftrightarrow> glob p m) \<and>
   (allow_set_permits allowed m \<longleftrightarrow> (\<exists>p \<in> set allowed. glob p m))"
  by (simp add: wildcard_match_glob allow_set_permits_iff)

end
