(* ===== verification/Base64.thy ===== *)
theory Base64
  imports Prelude
begin

unbundle bit_operations_syntax

text \<open>
  The two hand-rolled base64 routines of the core: the bounded decoder of \<open>keys.rs\<close>, which
  reads bearer tokens into a fixed buffer, and the encoder of \<open>compat/embeddings.rs\<close>. The
  accumulator is the source's \<open>u32\<close>, whose high bits are shifted out.
\<close>

section \<open>Bytes\<close>

definition u8_of_char :: "char \<Rightarrow> u8" where
  "u8_of_char c = of_nat (of_char c)"

definition char_of_u8 :: "u8 \<Rightarrow> char" where
  "char_of_u8 w = char_of (unat w)"

lemma of_char_less_256: "of_char c < (256 :: nat)"
proof -
  have "of_char (char_of (of_char c :: nat)) = (of_char c :: nat) mod 256"
    by (rule of_char_of)
  then have "of_char c = (of_char c :: nat) mod 256" by simp
  then show ?thesis by (metis mod_less_divisor zero_less_numeral)
qed

lemma char_of_u8_of_char [simp]: "char_of_u8 (u8_of_char c) = c"
  using of_char_less_256 [of c] by (simp add: char_of_u8_def u8_of_char_def unat_of_nat)

section \<open>The decoder of keys.rs\<close>

definition sextet :: "char \<Rightarrow> u32 option" where
  "sextet c =
     (let n = of_char c :: nat in
      if 65 \<le> n \<and> n \<le> 90 then Some (of_nat (n - 65))
      else if 97 \<le> n \<and> n \<le> 122 then Some (of_nat (n - 97 + 26))
      else if 48 \<le> n \<and> n \<le> 57 then Some (of_nat (n - 48 + 52))
      else if c = CHR ''+'' then Some 62
      else if c = CHR ''/'' then Some 63
      else None)"

text \<open>
  One turn per body byte; the output buffer is the bytes written so far and its capacity.
  Both \<open>?\<close> of the source are here: an unknown letter, and a full buffer.
\<close>

definition acc_push :: "u32 \<Rightarrow> u32 \<Rightarrow> u32" where
  "acc_push acc s = push_bit 6 acc OR s"

definition acc_byte :: "u32 \<Rightarrow> nat \<Rightarrow> char" where
  "acc_byte acc nbits = char_of_u8 (ucast (drop_bit nbits acc))"

fun b64_loop :: "nat \<Rightarrow> string \<Rightarrow> u32 \<Rightarrow> nat \<Rightarrow> string \<Rightarrow> string option" where
  "b64_loop cap [] acc nbits out = Some out"
| "b64_loop cap (b # bs) acc nbits out =
     (case sextet b of
        None \<Rightarrow> None
      | Some s \<Rightarrow>
          (let acc = acc_push acc s; nbits = nbits + 6 in
           if 8 \<le> nbits then
             let nbits = nbits - 8 in
             if length out < cap
             then b64_loop cap bs acc nbits
                    (out @ [acc_byte acc nbits])
             else None
           else b64_loop cap bs acc nbits out))"

text \<open>The loop that strips up to two trailing \<open>=\<close>, on the reversed input.\<close>

fun strip_pad :: "nat \<Rightarrow> string \<Rightarrow> string" where
  "strip_pad 0 s = s"
| "strip_pad (Suc k) [] = []"
| "strip_pad (Suc k) (c # s) = (if c = CHR ''='' then strip_pad k s else c # s)"

definition b64_body :: "string \<Rightarrow> string" where
  "b64_body input = rev (strip_pad 2 (rev input))"

definition b64_decode_into :: "nat \<Rightarrow> string \<Rightarrow> string option" where
  "b64_decode_into cap input =
     (let body = b64_body input in
      if length body mod 4 = 1 then None else b64_loop cap body 0 0 [])"

section \<open>The encoder of compat/embeddings.rs\<close>

definition b64_alphabet :: string where
  "b64_alphabet = ''ABCDEFGHIJKLMNOPQRSTUVWXYZabcdefghijklmnopqrstuvwxyz0123456789+/''"

definition b64_letter :: "u32 \<Rightarrow> char" where
  "b64_letter n = b64_alphabet ! unat (n AND 63)"

definition char_u32 :: "char \<Rightarrow> u32" where
  "char_u32 c = ucast (u8_of_char c)"

definition b64_group :: "u32 \<Rightarrow> u32 \<Rightarrow> u32 \<Rightarrow> u32" where
  "b64_group b0 b1 b2 = push_bit 16 b0 OR push_bit 8 b1 OR b2"

text \<open>One equation per length of the last \<open>chunks(3)\<close> item.\<close>

fun base64_encode :: "string \<Rightarrow> string" where
  "base64_encode [] = []"
| "base64_encode [a] =
     (let n = b64_group (char_u32 a) 0 0
      in [b64_letter (drop_bit 18 n), b64_letter (drop_bit 12 n), CHR ''='', CHR ''=''])"
| "base64_encode [a, b] =
     (let n = b64_group (char_u32 a) (char_u32 b) 0
      in [b64_letter (drop_bit 18 n), b64_letter (drop_bit 12 n), b64_letter (drop_bit 6 n),
          CHR ''=''])"
| "base64_encode (a # b # c # rest) =
     (let n = b64_group (char_u32 a) (char_u32 b) (char_u32 c)
      in [b64_letter (drop_bit 18 n), b64_letter (drop_bit 12 n), b64_letter (drop_bit 6 n),
          b64_letter n] @ base64_encode rest)"

section \<open>Decoding inverts encoding\<close>

lemma sextet_alphabet_all:
  "list_all (\<lambda>k. sextet (b64_alphabet ! k) = Some (of_nat k) \<and> b64_alphabet ! k \<noteq> CHR ''='') [0..<64]"
  by (simp add: sextet_def b64_alphabet_def upt_conv_Cons Let_def)

lemma and_63_less: "unat (n AND 63 :: u32) < 64"
proof -
  have "n AND 63 \<le> (63 :: u32)" by (rule word_and_le1)
  then show ?thesis by (simp add: word_le_nat_alt)
qed

lemma sextet_letter [simp]: "sextet (b64_letter n) = Some (n AND 63)"
  using sextet_alphabet_all and_63_less [of n]
  by (simp add: b64_letter_def list_all_iff)

lemma letter_not_pad [simp]: "b64_letter n \<noteq> CHR ''=''"
  using sextet_alphabet_all and_63_less [of n]
  by (simp add: b64_letter_def list_all_iff)

text \<open>Each of the three bytes of a group, read back from the accumulator, whatever its high bits.\<close>

lemma u8_bit_ge: "8 \<le> n \<Longrightarrow> bit (x :: u8) n = False"
  using bit_imp_le_length [of x n] by auto

lemma u8_eqI:
  fixes v w :: u8
  assumes "bit v 0 = bit w 0" "bit v 1 = bit w 1" "bit v 2 = bit w 2" "bit v 3 = bit w 3"
    "bit v 4 = bit w 4" "bit v 5 = bit w 5" "bit v 6 = bit w 6" "bit v 7 = bit w 7"
  shows "v = w"
proof (rule bit_word_eqI)
  fix m assume "m < LENGTH(8)"
  then have "m = 0 \<or> m = 1 \<or> m = 2 \<or> m = 3 \<or> m = 4 \<or> m = 5 \<or> m = 6 \<or> m = 7" by auto
  with assms show "bit v m = bit w m" by (elim disjE) simp_all
qed

lemma group_byte0:
  "acc_byte (acc_push (acc_push acc (drop_bit 18 (b64_group (char_u32 a) (char_u32 b) (char_u32 c)) AND 63))
     (drop_bit 12 (b64_group (char_u32 a) (char_u32 b) (char_u32 c)) AND 63)) 4 = a"
proof -
  have "ucast (drop_bit 4 (push_bit 6 (push_bit 6 acc OR
     (drop_bit 18 (b64_group (ucast x) (ucast y) (ucast z)) AND 63)) OR
     (drop_bit 12 (b64_group (ucast x) (ucast y) (ucast z)) AND 63)) :: u32) = (x :: u8)"
    for x y z :: u8
    by (rule u8_eqI) (simp_all add: bit_simps b64_group_def, simp_all add: u8_bit_ge)
  then show ?thesis by (simp add: acc_byte_def acc_push_def char_u32_def)
qed

lemma group_byte1:
  "acc_byte (acc_push (acc_push acc (drop_bit 12 (b64_group (char_u32 a) (char_u32 b) (char_u32 c)) AND 63))
     (drop_bit 6 (b64_group (char_u32 a) (char_u32 b) (char_u32 c)) AND 63)) 2 = b"
proof -
  have "ucast (drop_bit 2 (push_bit 6 (push_bit 6 acc OR
     (drop_bit 12 (b64_group (ucast x) (ucast y) (ucast z)) AND 63)) OR
     (drop_bit 6 (b64_group (ucast x) (ucast y) (ucast z)) AND 63)) :: u32) = (y :: u8)"
    for x y z :: u8
    by (rule u8_eqI) (simp_all add: bit_simps b64_group_def, simp_all add: u8_bit_ge)
  then show ?thesis by (simp add: acc_byte_def acc_push_def char_u32_def)
qed

lemma group_byte2:
  "acc_byte (acc_push (acc_push acc (drop_bit 6 (b64_group (char_u32 a) (char_u32 b) (char_u32 c)) AND 63))
     (b64_group (char_u32 a) (char_u32 b) (char_u32 c) AND 63)) 0 = c"
proof -
  have "ucast (drop_bit 0 (push_bit 6 (push_bit 6 acc OR
     (drop_bit 6 (b64_group (ucast x) (ucast y) (ucast z)) AND 63)) OR
     (b64_group (ucast x) (ucast y) (ucast z) AND 63)) :: u32) = (z :: u8)"
    for x y z :: u8
    by (rule u8_eqI) (simp_all add: bit_simps b64_group_def)
  then show ?thesis by (simp add: acc_byte_def acc_push_def char_u32_def)
qed

text \<open>The loop on one full group, and on the two short groups.\<close>

lemma b64_loop_group3:
  assumes "length out + 3 \<le> cap"
    and "n = b64_group (char_u32 a) (char_u32 b) (char_u32 c)"
  shows "\<exists>acc'. b64_loop cap (b64_letter (drop_bit 18 n) # b64_letter (drop_bit 12 n) #
      b64_letter (drop_bit 6 n) # b64_letter n # bs) acc 0 out = b64_loop cap bs acc' 0 (out @ [a, b, c])"
  using assms(1) unfolding assms(2)
  by (simp add: group_byte0 group_byte1 group_byte2, blast)

lemma char_u32_zero: "char_u32 (CHR 0x00) = 0"
  by (simp add: char_u32_def u8_of_char_def)

lemma b64_loop_group2:
  assumes "length out + 2 \<le> cap" and "n = b64_group (char_u32 a) (char_u32 b) 0"
  shows "b64_loop cap [b64_letter (drop_bit 18 n), b64_letter (drop_bit 12 n),
      b64_letter (drop_bit 6 n)] acc 0 out = Some (out @ [a, b])"
  using assms(1) group_byte0 [of acc a b "CHR 0x00"] group_byte1 [of _ a b "CHR 0x00"]
  unfolding assms(2) by (simp add: char_u32_zero)

lemma b64_loop_group1:
  assumes "length out + 1 \<le> cap" and "n = b64_group (char_u32 a) 0 0"
  shows "b64_loop cap [b64_letter (drop_bit 18 n), b64_letter (drop_bit 12 n)] acc 0 out
    = Some (out @ [a])"
  using assms(1) group_byte0 [of acc a "CHR 0x00" "CHR 0x00"]
  unfolding assms(2) by (simp add: char_u32_zero)

text \<open>The letters of an encoding, without its padding.\<close>

fun b64_letters :: "string \<Rightarrow> string" where
  "b64_letters [] = []"
| "b64_letters [a] =
     (let n = b64_group (char_u32 a) 0 0
      in [b64_letter (drop_bit 18 n), b64_letter (drop_bit 12 n)])"
| "b64_letters [a, b] =
     (let n = b64_group (char_u32 a) (char_u32 b) 0
      in [b64_letter (drop_bit 18 n), b64_letter (drop_bit 12 n), b64_letter (drop_bit 6 n)])"
| "b64_letters (a # b # c # rest) =
     (let n = b64_group (char_u32 a) (char_u32 b) (char_u32 c)
      in b64_letter (drop_bit 18 n) # b64_letter (drop_bit 12 n) # b64_letter (drop_bit 6 n) #
          b64_letter n # b64_letters rest)"

lemma b64_loop_letters:
  "length out + length bs \<le> cap \<Longrightarrow> b64_loop cap (b64_letters bs) acc 0 out = Some (out @ bs)"
proof (induction bs arbitrary: acc out rule: b64_letters.induct)
  case (2 a)
  then show ?case using b64_loop_group1 [of out cap _ a] by (simp add: Let_def del: b64_loop.simps)
next
  case (3 a b)
  then show ?case using b64_loop_group2 [of out cap _ a b] by (simp add: Let_def del: b64_loop.simps)
next
  case (4 a b c rest)
  obtain acc' where "b64_loop cap (b64_letters (a # b # c # rest)) acc 0 out =
      b64_loop cap (b64_letters rest) acc' 0 (out @ [a, b, c])"
    using b64_loop_group3 [of out cap _ a b c "b64_letters rest" acc] "4.prems"
    by (auto simp add: Let_def simp del: b64_loop.simps)
  with "4.IH" [OF refl, of "out @ [a, b, c]" acc'] "4.prems" show ?case by simp
qed simp

lemma b64_letters_length: "length (b64_letters bs) mod 4 \<noteq> 1"
  by (induction bs rule: b64_letters.induct) (auto simp: Let_def)

lemma b64_letters_no_pad: "CHR ''='' \<notin> set (b64_letters bs)"
  by (induction bs rule: b64_letters.induct) (auto simp: Let_def letter_not_pad [symmetric])

lemma base64_encode_letters:
  "\<exists>k \<le> 2. base64_encode bs = b64_letters bs @ replicate k CHR ''=''"
proof (induction bs rule: base64_encode.induct)
  case 1
  then show ?case by (intro exI [of _ 0]) simp
next
  case (2 a)
  then show ?case by (intro exI [of _ 2]) (simp add: Let_def numeral_2_eq_2)
next
  case (3 a b)
  then show ?case by (intro exI [of _ 1]) (simp add: Let_def)
next
  case (4 a b c rest)
  then show ?case by (auto simp: Let_def)
qed

lemma strip_pad_replicate:
  "k \<le> m \<Longrightarrow> CHR ''='' \<notin> set s \<Longrightarrow> strip_pad m (replicate k CHR ''='' @ s) = s"
proof (induction k arbitrary: m)
  case 0
  then show ?case by (cases m; cases s) auto
next
  case (Suc k)
  then obtain m' where "m = Suc m'" by (cases m) auto
  with Suc show ?case by simp
qed

lemma b64_body_padded:
  "k \<le> 2 \<Longrightarrow> CHR ''='' \<notin> set s \<Longrightarrow> b64_body (s @ replicate k CHR ''='') = s"
  by (simp add: b64_body_def strip_pad_replicate)

text \<open>Padded, partly padded or unpadded, the encoding of a short enough text decodes to it.\<close>

lemma b64_decode_letters:
  assumes "k \<le> 2" "length bs \<le> cap"
  shows "b64_decode_into cap (b64_letters bs @ replicate k CHR ''='') = Some bs"
  using assms b64_loop_letters [of "[]" bs cap 0] b64_letters_length [of bs]
  by (simp add: b64_decode_into_def Let_def b64_body_padded b64_letters_no_pad)

lemma b64_decode_encode:
  assumes "length bs \<le> cap"
  shows "b64_decode_into cap (base64_encode bs) = Some bs"
proof -
  obtain k where "k \<le> 2" "base64_encode bs = b64_letters bs @ replicate k CHR ''=''"
    using base64_encode_letters by blast
  with assms show ?thesis by (simp add: b64_decode_letters)
qed

text \<open>The decoder never writes past its buffer.\<close>

lemma b64_loop_length:
  "b64_loop cap bs acc nbits out = Some r \<Longrightarrow> length out \<le> cap \<Longrightarrow> length r \<le> cap"
proof (induction cap bs acc nbits out rule: b64_loop.induct)
  case (2 cap b bs acc nbits out)
  then show ?case by (auto simp: Let_def split: option.splits if_splits)
qed simp

lemma b64_decode_length: "b64_decode_into cap s = Some r \<Longrightarrow> length r \<le> cap"
  by (auto simp: b64_decode_into_def Let_def split: if_splits dest: b64_loop_length)

lemma base64_encode_inj:
  assumes "base64_encode a = base64_encode b"
  shows "a = b"
proof -
  have "b64_decode_into (max (length a) (length b)) (base64_encode a) = Some a"
    by (rule b64_decode_encode) (rule max.cobounded1)
  moreover have "b64_decode_into (max (length a) (length b)) (base64_encode b) = Some b"
    by (rule b64_decode_encode) (rule max.cobounded2)
  ultimately show ?thesis unfolding assms by (metis option.inject)
qed

text \<open>
  The encoder of the embeddings surface and the allocation-free decoder of the key store
  are inverse: a text that fits the buffer decodes from its encoding, with all, part or none of
  the padding, and whatever the input, the decoder never writes past its buffer.
\<close>

theorem base64_roundtrip:
  assumes "length bs \<le> cap" "k \<le> 2"
  shows "b64_decode_into cap (base64_encode bs) = Some bs \<and>
    b64_decode_into cap (b64_letters bs @ replicate k (CHR ''='')) = Some bs \<and>
    (\<forall>s r. b64_decode_into cap s = Some r \<longrightarrow> length r \<le> cap)"
  by (auto simp: b64_decode_encode [OF assms(1)] b64_decode_letters [OF assms(2,1)]
      dest: b64_decode_length)

theorem base64_roundtrip_witness:
  "b64_decode_into 4 (base64_encode ''ci:s'') = Some ''ci:s''"
  using base64_roundtrip [of "''ci:s''" 4 0] by simp

end
