(* ===== verification/Keys.thy ===== *)
theory Keys
  imports Config Wildcard Base64
begin

text \<open>
  The virtual key store of \<open>crates/llmleaf-core/src/keys.rs\<close>: identities and verdicts as one
  immutable snapshot that the pull refreshers replace, the cache of proven tokens, the lookup
  that authorises a request (warm through the cache, cold through the password hash), and the
  installation of pulled rosters. The password check \<open>pwhash::unix::verify\<close> is the parameter
  \<open>verify\<close>. The store is shared between threads: the last part is the step relation of
  concurrent requests and refreshers over it.
\<close>

section \<open>State\<close>

record verdict =
  v_blocked :: bool
  v_suspended_until :: "u64 option"
  v_allowed_models :: "string list option"

definition verdict_default :: verdict where
  "verdict_default = \<lparr>v_blocked = False, v_suspended_until = None, v_allowed_models = None\<rparr>"

datatype auth_error = Unknown | Blocked | Suspended u64 | ModelNotAllowed

record key_state =
  ks_name :: "string option"
  ks_pw_hash :: string
  ks_config_allowed :: "string list option"
  ks_verdict :: verdict

definition display_id :: "key_state \<Rightarrow> string \<Rightarrow> string" where
  "display_id st i = unwrap_or i (ks_name st)"

record identity_input =
  ii_id :: string
  ii_pw_hash :: string
  ii_name :: "string option"
  ii_allowed_models :: "string list option"

record key_snapshot =
  sn_keys :: "(string, key_state) hashmap"
  sn_identity_gen :: u64

record verified_entry =
  ve_id :: string
  ve_identity_gen :: u64
  ve_pw_hash :: string

type_synonym verified = "(string, verified_entry) hashmap"

record key_store =
  st_snapshot :: key_snapshot
  st_verified :: verified

definition max_token_decoded :: nat where "max_token_decoded = 512"

definition dummy_pw_hash :: string where
  "dummy_pw_hash = ''$2y$12$u9eQ8FzvKdGjx52a1JQGN.O/Bcr0G0noVF3iy5Qtu43vwlshmAxRy''"

section \<open>Verdicts\<close>

definition allow_list :: "string list option \<Rightarrow> string list option" where
  "allow_list models =
     (case models of
        None \<Rightarrow> None
      | Some ms \<Rightarrow> if list_ex (\<lambda>m. m = ''*'') ms then None else Some (remdups ms))"

definition suspension_gate :: "verdict \<Rightarrow> u64 \<Rightarrow> auth_error + unit" where
  "suspension_gate v now =
     (case v_suspended_until v of
        Some until \<Rightarrow> if now < until then Inl (Suspended until) else Inr ()
      | None \<Rightarrow> Inr ())"

definition model_gate :: "key_state \<Rightarrow> string option \<Rightarrow> auth_error + unit" where
  "model_gate st model =
     (case model of
        None \<Rightarrow> Inr ()
      | Some m \<Rightarrow>
          if \<not> is_none_or (\<lambda>s. allow_set_permits s m) (ks_config_allowed st)
          then Inl ModelNotAllowed
          else if \<not> is_none_or (\<lambda>s. allow_set_permits s m) (v_allowed_models (ks_verdict st))
          then Inl ModelNotAllowed
          else Inr ())"

definition enforce ::
  "key_state \<Rightarrow> string \<Rightarrow> string option \<Rightarrow> u64 \<Rightarrow> auth_error + string" where
  "enforce st i model now =
     (if v_blocked (ks_verdict st) then Inl Blocked
      else res_bind (suspension_gate (ks_verdict st) now) (\<lambda>_.
           res_bind (model_gate st model) (\<lambda>_. Inr (display_id st i))))"

text \<open>The two allow-lists of a key, kept apart (\<open>ModelScope\<close>).\<close>

record model_scope =
  ms_config :: "string list option"
  ms_verdict :: "string list option"

definition permits :: "model_scope \<Rightarrow> string \<Rightarrow> bool" where
  "permits sc m \<longleftrightarrow>
     is_none_or (\<lambda>s. allow_set_permits s m) (ms_config sc) \<and>
     is_none_or (\<lambda>s. allow_set_permits s m) (ms_verdict sc)"

definition model_scope :: "key_snapshot \<Rightarrow> string \<Rightarrow> model_scope option" where
  "model_scope snap key_id =
     (case List.find (\<lambda>(i, st). display_id st i = key_id) (sn_keys snap) of
        None \<Rightarrow> None
      | Some (_, st) \<Rightarrow>
          (case (ks_config_allowed st, v_allowed_models (ks_verdict st)) of
             (None, None) \<Rightarrow> None
           | (c, v) \<Rightarrow> Some \<lparr>ms_config = c, ms_verdict = v\<rparr>))"

record key_view =
  kv_id :: string
  kv_key_id :: string
  kv_config_allowed :: "string list option"
  kv_verdict :: verdict

definition snapshot_view :: "key_snapshot \<Rightarrow> key_view list" where
  "snapshot_view snap =
     map (\<lambda>(i, st). \<lparr>kv_id = display_id st i, kv_key_id = i,
       kv_config_allowed = ks_config_allowed st, kv_verdict = ks_verdict st\<rparr>) (sn_keys snap)"

section \<open>The token\<close>

definition split_credential :: "string \<Rightarrow> (string \<times> string) option" where
  "split_credential bytes =
     (case split_first (CHR '':'') bytes of
        None \<Rightarrow> None
      | Some (i, password) \<Rightarrow>
          if \<not> utf8_valid i then None
          else if \<not> utf8_valid password then None
          else Some (i, password))"

text \<open>What a token says, before any key is looked up.\<close>

definition token_credential :: "string \<Rightarrow> (string \<times> string) option" where
  "token_credential token =
     Option.bind (b64_decode_into max_token_decoded token) split_credential"

section \<open>Authorisation\<close>

text \<open>
  \<open>KeyStore::authorize_inner\<close> in its two halves. The warm path reads the cache; \<open>None\<close> is the
  fall-through. The cold path's outcome carries the calls of the password hash it made and the
  entry it puts in the cache.
\<close>

definition warm_path ::
  "key_snapshot \<Rightarrow> verified \<Rightarrow> string \<Rightarrow> string option \<Rightarrow> u64 \<Rightarrow> (auth_error + string) option" where
  "warm_path snap verified token model now =
     (case hm_get verified token of
        None \<Rightarrow> None
      | Some entry \<Rightarrow>
          (case hm_get (sn_keys snap) (ve_id entry) of
             None \<Rightarrow> None
           | Some st \<Rightarrow>
               if ve_identity_gen entry = sn_identity_gen snap \<or> ve_pw_hash entry = ks_pw_hash st
               then Some (enforce st (ve_id entry) model now)
               else None))"

record cold_outcome =
  co_result :: "auth_error + string"
  co_kdf :: "(string \<times> string) list"
  co_entry :: "verified_entry option"

definition rejected :: "(string \<times> string) list \<Rightarrow> cold_outcome" where
  "rejected kdf = \<lparr>co_result = Inl Unknown, co_kdf = kdf, co_entry = None\<rparr>"

definition cold_path ::
  "(string \<Rightarrow> string \<Rightarrow> bool) \<Rightarrow> key_snapshot \<Rightarrow> string \<Rightarrow> string option \<Rightarrow> u64 \<Rightarrow> cold_outcome" where
  "cold_path verify snap token model now =
     (case b64_decode_into max_token_decoded token of
        None \<Rightarrow> rejected []
      | Some buf \<Rightarrow>
          (case split_credential buf of
             None \<Rightarrow> rejected []
           | Some (i, password) \<Rightarrow>
               (case hm_get (sn_keys snap) i of
                  None \<Rightarrow> rejected [(password, dummy_pw_hash)]
                | Some st \<Rightarrow>
                    if \<not> verify password (ks_pw_hash st)
                    then rejected [(password, ks_pw_hash st)]
                    else \<lparr>co_result = enforce st i model now,
                          co_kdf = [(password, ks_pw_hash st)],
                          co_entry = Some \<lparr>ve_id = i, ve_identity_gen = sn_identity_gen snap,
                            ve_pw_hash = ks_pw_hash st\<rparr>\<rparr>)))"

definition cache_entry :: "string \<Rightarrow> verified_entry option \<Rightarrow> verified \<Rightarrow> verified" where
  "cache_entry token entry verified =
     (case entry of None \<Rightarrow> verified | Some e \<Rightarrow> hm_insert token e verified)"

text \<open>The whole operation: the result, the hash calls and the store afterwards.\<close>

definition authorize_inner ::
  "(string \<Rightarrow> string \<Rightarrow> bool) \<Rightarrow> key_store \<Rightarrow> string \<Rightarrow> string option \<Rightarrow> u64 \<Rightarrow>
     (auth_error + string) \<times> (string \<times> string) list \<times> key_store" where
  "authorize_inner verify ks token model now =
     (case warm_path (st_snapshot ks) (st_verified ks) token model now of
        Some r \<Rightarrow> (r, [], ks)
      | None \<Rightarrow>
          (let c = cold_path verify (st_snapshot ks) token model now
           in (co_result c, co_kdf c,
               ks\<lparr>st_verified := cache_entry token (co_entry c) (st_verified ks)\<rparr>)))"

definition authorize ::
  "(string \<Rightarrow> string \<Rightarrow> bool) \<Rightarrow> key_store \<Rightarrow> string \<Rightarrow> string \<Rightarrow> u64 \<Rightarrow>
     (auth_error + string) \<times> (string \<times> string) list \<times> key_store" where
  "authorize verify ks token model now = authorize_inner verify ks token (Some model) now"

definition authorize_identity ::
  "(string \<Rightarrow> string \<Rightarrow> bool) \<Rightarrow> key_store \<Rightarrow> string \<Rightarrow> u64 \<Rightarrow>
     (auth_error + string) \<times> (string \<times> string) list \<times> key_store" where
  "authorize_identity verify ks token now = authorize_inner verify ks token None now"

section \<open>Installing identities and verdicts\<close>

definition key_state_of :: "string \<Rightarrow> key_config \<Rightarrow> key_state" where
  "key_state_of pw_hash k =
     \<lparr>ks_name = kc_name k, ks_pw_hash = pw_hash,
      ks_config_allowed = allow_list (kc_allowed_models k), ks_verdict = verdict_default\<rparr>"

fun from_config_loop ::
  "(string \<Rightarrow> string option) \<Rightarrow> (string, key_state) hashmap \<Rightarrow> key_config list \<Rightarrow>
     (string, key_state) hashmap" where
  "from_config_loop env m [] = m"
| "from_config_loop env m (k # ks) =
     (case secret_resolve env (kc_pw_hash k) of
        None \<Rightarrow> from_config_loop env m ks
      | Some h \<Rightarrow> from_config_loop env (hm_insert (kc_id k) (key_state_of h k) m) ks)"

definition from_config :: "(string \<Rightarrow> string option) \<Rightarrow> key_config list \<Rightarrow> key_store" where
  "from_config env ks =
     \<lparr>st_snapshot = \<lparr>sn_keys = from_config_loop env hm_empty ks, sn_identity_gen = 0\<rparr>,
      st_verified = hm_empty\<rparr>"

definition input_display :: "identity_input \<Rightarrow> string" where
  "input_display k = unwrap_or (ii_id k) (ii_name k)"

definition carried_state :: "(string, key_state) hashmap \<Rightarrow> identity_input \<Rightarrow> key_state" where
  "carried_state prev k =
     \<lparr>ks_name = ii_name k, ks_pw_hash = ii_pw_hash k,
      ks_config_allowed = allow_list (ii_allowed_models k),
      ks_verdict = unwrap_or verdict_default (map_option ks_verdict (hm_get prev (ii_id k)))\<rparr>"

fun roster_loop ::
  "(string, key_state) hashmap \<Rightarrow> string list \<Rightarrow> (string, key_state) hashmap \<Rightarrow>
     identity_input list \<Rightarrow> (string, key_state) hashmap" where
  "roster_loop prev displays keys [] = keys"
| "roster_loop prev displays keys (k # ks) =
     (if has_control_bytes (ii_id k) \<or> is_some_and has_control_bytes (ii_name k)
      then roster_loop prev displays keys ks
      else if input_display k \<in> set displays
      then roster_loop prev displays keys ks
      else roster_loop prev (input_display k # displays)
             (hm_insert (ii_id k) (carried_state prev k) keys) ks)"

definition installed_snapshot :: "key_snapshot \<Rightarrow> identity_input list \<Rightarrow> key_snapshot" where
  "installed_snapshot snap roster =
     \<lparr>sn_keys = roster_loop (sn_keys snap) [] hm_empty roster,
      sn_identity_gen = sn_identity_gen snap + 1\<rparr>"

definition prune_verified :: "(string, key_state) hashmap \<Rightarrow> verified \<Rightarrow> verified" where
  "prune_verified keys verified = hm_retain (\<lambda>t e. hm_contains keys (ve_id e)) verified"

definition install_identities :: "key_store \<Rightarrow> identity_input list \<Rightarrow> key_store" where
  "install_identities ks roster =
     (let snap = installed_snapshot (st_snapshot ks) roster
      in \<lparr>st_snapshot = snap, st_verified = prune_verified (sn_keys snap) (st_verified ks)\<rparr>)"

fun verdicts_loop ::
  "(string, verdict) hashmap \<Rightarrow> (string, key_state) hashmap \<Rightarrow> (string, key_state) hashmap" where
  "verdicts_loop verdicts [] = []"
| "verdicts_loop verdicts ((i, st) # keys) =
     (i, st\<lparr>ks_verdict := unwrap_or verdict_default (hm_get verdicts i)\<rparr>)
       # verdicts_loop (hm_remove i verdicts) keys"

definition verdict_snapshot :: "key_snapshot \<Rightarrow> (string, verdict) hashmap \<Rightarrow> key_snapshot" where
  "verdict_snapshot snap verdicts = snap\<lparr>sn_keys := verdicts_loop verdicts (sn_keys snap)\<rparr>"

definition install_verdicts :: "key_store \<Rightarrow> (string, verdict) hashmap \<Rightarrow> key_store" where
  "install_verdicts ks verdicts =
     ks\<lparr>st_snapshot := verdict_snapshot (st_snapshot ks) verdicts\<rparr>"

section \<open>The contract of an authentication scheme\<close>

text \<open>
  Key store and OAuth answer the same two questions, who presents a token and whether the
  model is allowed, and the server relies on how the answers fit together: the model check is
  the identity check plus one gate. \<open>check r None\<close> is the identity check.
\<close>

locale auth_scheme =
  fixes check :: "'req \<Rightarrow> string option \<Rightarrow> auth_error + string"
    and allows :: "'req \<Rightarrow> string \<Rightarrow> bool"
  assumes gate:
    "check r (Some m) =
       res_bind (check r None) (\<lambda>d. if allows r m then Inr d else Inl ModelNotAllowed)"
    and identity: "check r None \<noteq> Inl ModelNotAllowed"
begin

lemma ok_iff: "check r (Some m) = Inr d \<longleftrightarrow> check r None = Inr d \<and> allows r m"
  by (auto simp: gate res_simps)

lemma identity_error: "check r None = Inl e \<Longrightarrow> check r (Some m) = Inl e"
  by (simp add: gate)

lemma error_cases:
  "check r (Some m) = Inl e \<Longrightarrow>
     check r None = Inl e \<or> e = ModelNotAllowed \<and> \<not> allows r m \<and> (\<exists>d. check r None = Inr d)"
  by (auto simp: gate res_simps split: if_splits)

lemma not_allowed_iff:
  "check r (Some m) = Inl ModelNotAllowed \<longleftrightarrow> (\<exists>d. check r None = Inr d) \<and> \<not> allows r m"
  using identity [of r] by (auto simp: gate res_simps split: if_splits)

end

lemma enforce_gate:
  "enforce st i (Some m) now =
     res_bind (enforce st i None now)
       (\<lambda>d. if model_gate st (Some m) = Inr () then Inr d else Inl ModelNotAllowed)"
  by (cases "suspension_gate (ks_verdict st) now") (auto simp: enforce_def model_gate_def)

lemma enforce_identity: "enforce st i None now \<noteq> Inl ModelNotAllowed"
  by (auto simp: enforce_def model_gate_def suspension_gate_def split: option.splits)

lemma enforce_name: "enforce st i model now = Inr d \<Longrightarrow> d = display_id st i"
  by (auto simp: enforce_def res_simps split: if_splits)

definition key_check ::
  "(string \<Rightarrow> string \<Rightarrow> bool) \<times> key_snapshot \<times> string \<times> u64 \<Rightarrow> string option \<Rightarrow> auth_error + string"
where
  "key_check r model = (case r of (verify, snap, token, now) \<Rightarrow>
     co_result (cold_path verify snap token model now))"

definition key_allows ::
  "(string \<Rightarrow> string \<Rightarrow> bool) \<times> key_snapshot \<times> string \<times> u64 \<Rightarrow> string \<Rightarrow> bool" where
  "key_allows r m = (case r of (verify, snap, token, now) \<Rightarrow>
     (case Option.bind (token_credential token) (\<lambda>(i, pw). hm_get (sn_keys snap) i) of
        None \<Rightarrow> False
      | Some st \<Rightarrow> model_gate st (Some m) = Inr ()))"

section \<open>The cold path\<close>

lemma cold_path_credential:
  "cold_path verify snap token model now =
     (case token_credential token of
        None \<Rightarrow> rejected []
      | Some (i, password) \<Rightarrow>
          (case hm_get (sn_keys snap) i of
             None \<Rightarrow> rejected [(password, dummy_pw_hash)]
           | Some st \<Rightarrow>
               if verify password (ks_pw_hash st)
               then \<lparr>co_result = enforce st i model now, co_kdf = [(password, ks_pw_hash st)],
                     co_entry = Some \<lparr>ve_id = i, ve_identity_gen = sn_identity_gen snap,
                       ve_pw_hash = ks_pw_hash st\<rparr>\<rparr>
               else rejected [(password, ks_pw_hash st)]))"
  by (auto simp: cold_path_def token_credential_def split: option.splits)

lemma cold_result_cases:
  "co_result (cold_path verify snap token model now) =
     (case token_credential token of
        None \<Rightarrow> Inl Unknown
      | Some (i, password) \<Rightarrow>
          (case hm_get (sn_keys snap) i of
             None \<Rightarrow> Inl Unknown
           | Some st \<Rightarrow>
               if verify password (ks_pw_hash st) then enforce st i model now else Inl Unknown))"
  by (auto simp: cold_path_credential rejected_def split: option.splits)

lemma cold_entry_iff:
  "co_entry (cold_path verify snap token model now) = Some e \<longleftrightarrow>
     (\<exists>i password st. token_credential token = Some (i, password) \<and>
        hm_get (sn_keys snap) i = Some st \<and> verify password (ks_pw_hash st) \<and>
        e = \<lparr>ve_id = i, ve_identity_gen = sn_identity_gen snap, ve_pw_hash = ks_pw_hash st\<rparr>)"
  by (auto simp: cold_path_credential rejected_def split: option.splits)

interpretation key_auth: auth_scheme key_check key_allows
proof
  fix r :: "(string \<Rightarrow> string \<Rightarrow> bool) \<times> key_snapshot \<times> string \<times> u64" and m
  obtain verify snap token now where r: "r = (verify, snap, token, now)" by (cases r)
  show "key_check r (Some m) =
      res_bind (key_check r None) (\<lambda>d. if key_allows r m then Inr d else Inl ModelNotAllowed)"
    by (auto simp: r key_check_def key_allows_def cold_result_cases enforce_gate
        split: option.splits)
  show "key_check r None \<noteq> Inl ModelNotAllowed"
    by (auto simp: r key_check_def cold_result_cases enforce_identity split: option.splits)
qed

text \<open>
  A token is accepted exactly when it decodes to \<open>key-id:password\<close>, the key exists, the
  password matches its hash and the verdict and allow-lists permit the model; the answer is the
  key's display id. Every malformed token, unknown id and wrong password is the same
  \<open>Unknown\<close>, and that error has no other cause.
\<close>

theorem cold_path_spec:
  "(co_result (cold_path verify snap token model now) = Inr d \<longleftrightarrow>
     (\<exists>i pw st. token_credential token = Some (i, pw) \<and> hm_get (sn_keys snap) i = Some st \<and>
        verify pw (ks_pw_hash st) \<and> enforce st i model now = Inr d \<and> d = display_id st i)) \<and>
   (co_result (cold_path verify snap token model now) = Inl Unknown \<longleftrightarrow>
     \<not> (\<exists>i pw st. token_credential token = Some (i, pw) \<and> hm_get (sn_keys snap) i = Some st \<and>
        verify pw (ks_pw_hash st)))"
proof -
  have "enforce st i model now \<noteq> Inl Unknown" for st i
    by (auto simp: enforce_def model_gate_def suspension_gate_def split: option.splits)
  then show ?thesis
    by (auto simp: cold_result_cases dest: enforce_name split: option.splits if_splits)
qed

text \<open>
  Every decodable credential costs exactly one password hash, whether its key id exists or
  not and whether the password is right or wrong, and an undecodable token costs none; a cache
  hit costs none either. So response time does not reveal which key ids exist.
\<close>

theorem one_hash_per_credential:
  "length (co_kdf (cold_path verify snap token model now)) =
     (if token_credential token = None then 0 else 1) \<and>
   length (fst (snd (authorize_inner verify ks token model now))) =
     (case warm_path (st_snapshot ks) (st_verified ks) token model now of
        Some _ \<Rightarrow> 0
      | None \<Rightarrow> if token_credential token = None then 0 else 1)"
  by (auto simp: authorize_inner_def Let_def cold_path_credential rejected_def
      split: option.splits)

text \<open>
  A token built the documented way round-trips: the base64 of \<open>id:password\<close> (an id
  without colon, at most 512 bytes together), with its padding complete, partial or stripped,
  reaches the key \<open>id\<close> with exactly that password, colons in the password included.
\<close>

theorem token_roundtrip:
  assumes "CHR '':'' \<notin> set i" "utf8_valid i" "utf8_valid pw" "length i + length pw < 512" "k \<le> 2"
  shows "token_credential (base64_encode (i @ CHR '':'' # pw)) = Some (i, pw) \<and>
    token_credential (b64_letters (i @ CHR '':'' # pw) @ replicate k (CHR ''='')) = Some (i, pw) \<and>
    co_result (cold_path verify snap (base64_encode (i @ CHR '':'' # pw)) model now) =
      (case hm_get (sn_keys snap) i of
         None \<Rightarrow> Inl Unknown
       | Some st \<Rightarrow>
           if verify pw (ks_pw_hash st) then enforce st i model now else Inl Unknown)"
proof -
  let ?c = "i @ CHR '':'' # pw"
  have len: "length ?c \<le> max_token_decoded"
    using assms(4) by (simp add: max_token_decoded_def)
  have split: "split_credential ?c = Some (i, pw)"
    using assms by (simp add: split_credential_def split_first_append)
  have "token_credential (base64_encode ?c) = Some (i, pw)"
    by (simp add: token_credential_def b64_decode_encode [OF len] split)
  moreover have "token_credential (b64_letters ?c @ replicate k (CHR ''='')) = Some (i, pw)"
    by (simp add: token_credential_def b64_decode_letters [OF assms(5) len] split)
  ultimately show ?thesis by (simp add: cold_result_cases)
qed

theorem token_roundtrip_witness:
  "token_credential (base64_encode ''ci:s3:t'') = Some (''ci'', ''s3:t'')"
proof -
  have "utf8_valid ''ci''" "utf8_valid ''s3:t''"
    by (rule utf8_valid_ascii; simp)+
  then show ?thesis
    using token_roundtrip [of "''ci''" "''s3:t''" 0] by simp
qed

section \<open>Verdicts restrict\<close>

text \<open>Both layers of a key permit the model, in terms of the reference matcher.\<close>

definition layer_permits :: "string list option \<Rightarrow> string \<Rightarrow> bool" where
  "layer_permits layer m = is_none_or (\<lambda>s. \<exists>p \<in> set s. glob p m) layer"

lemma layer_permits_mono:
  "set a \<subseteq> set b \<Longrightarrow> layer_permits (Some a) m \<Longrightarrow> layer_permits (Some b) m"
  unfolding layer_permits_def is_none_or_simps by blast

lemma layer_permits_None [simp]: "layer_permits None m"
  by (simp add: layer_permits_def)

lemma layer_permits_iff: "is_none_or (\<lambda>s. allow_set_permits s m) layer = layer_permits layer m"
  by (cases layer) (simp_all add: layer_permits_def allow_set_permits_iff)

lemma model_gate_iff:
  "model_gate st (Some m) = Inr () \<longleftrightarrow>
     layer_permits (ks_config_allowed st) m \<and> layer_permits (v_allowed_models (ks_verdict st)) m"
  by (simp add: model_gate_def layer_permits_iff)

lemma permits_iff:
  "permits sc m \<longleftrightarrow> layer_permits (ms_config sc) m \<and> layer_permits (ms_verdict sc) m"
  by (simp add: permits_def layer_permits_iff)

lemma allow_list_permits:
  "layer_permits (allow_list models) m \<longleftrightarrow>
     is_none_or (\<lambda>ms. \<exists>p \<in> set ms. glob p m) models"
proof -
  have star: "glob ''*'' m"
    using glob_star [of "[]" m] by (metis drop_all glob_refl order_refl)
  show ?thesis
  proof (cases models)
    case (Some ms)
    with star show ?thesis
      by (cases "''*'' \<in> set ms")
        (auto simp: allow_list_def layer_permits_def list_ex_iff simp del: glob.simps)
  qed (simp add: allow_list_def)
qed

text \<open>
  The precedence is blocked, then suspended (while \<open>now < until\<close>), then the config
  allow-list and the verdict's, an absent list permitting everything and an entry's \<open>*\<close>
  matching any run of bytes; a request without a model skips the lists.
\<close>

theorem enforce_precedence:
  "(enforce st i model now = Inl Blocked \<longleftrightarrow> v_blocked (ks_verdict st)) \<and>
   (enforce st i model now = Inl (Suspended u) \<longleftrightarrow>
      \<not> v_blocked (ks_verdict st) \<and> v_suspended_until (ks_verdict st) = Some u \<and> now < u) \<and>
   (enforce st i (Some m) now = Inl ModelNotAllowed \<longleftrightarrow>
      enforce st i None now = Inr (display_id st i) \<and>
      \<not> (layer_permits (ks_config_allowed st) m \<and>
         layer_permits (v_allowed_models (ks_verdict st)) m)) \<and>
   (enforce st i (Some m) now = Inr d \<longleftrightarrow>
      d = display_id st i \<and> enforce st i None now = Inr d \<and>
      layer_permits (ks_config_allowed st) m \<and> layer_permits (v_allowed_models (ks_verdict st)) m)"
proof -
  have none: "enforce st i None now =
      (if v_blocked (ks_verdict st) then Inl Blocked
       else res_bind (suspension_gate (ks_verdict st) now) (\<lambda>_. Inr (display_id st i)))"
    by (simp add: enforce_def model_gate_def)
  have gate: "model_gate st x = Inr () \<or> model_gate st x = Inl ModelNotAllowed" for x
    by (simp add: model_gate_def split: option.splits)
  show ?thesis
    unfolding enforce_gate model_gate_iff none
    using gate [of model]
    by (auto simp: enforce_def suspension_gate_def split: option.splits if_splits)
qed

text \<open>\<open>w\<close> blocks, suspends and restricts no more than \<open>v\<close>.\<close>

definition verdict_weaker :: "u64 \<Rightarrow> verdict \<Rightarrow> verdict \<Rightarrow> bool" where
  "verdict_weaker now w v \<longleftrightarrow>
     (v_blocked w \<longrightarrow> v_blocked v) \<and>
     (is_some_and (\<lambda>u. now < u) (v_suspended_until w) \<longrightarrow>
        is_some_and (\<lambda>u. now < u) (v_suspended_until v)) \<and>
     (\<forall>ws. v_allowed_models w = Some ws \<longrightarrow>
        (\<exists>vs. v_allowed_models v = Some vs \<and> set vs \<subseteq> set ws))"

text \<open>
  A verdict restricts and never widens: whatever a key may do under a verdict it may do
  under the empty one, and it may do it under every verdict that blocks, suspends and
  restricts no more.
\<close>

theorem verdict_never_widens:
  assumes "enforce st i model now = Inr d" and "verdict_weaker now w (ks_verdict st)"
  shows "enforce (st\<lparr>ks_verdict := w\<rparr>) i model now = Inr d \<and>
    enforce (st\<lparr>ks_verdict := verdict_default\<rparr>) i model now = Inr d"
proof -
  have weaker: "verdict_weaker now verdict_default (ks_verdict st)"
    by (simp add: verdict_weaker_def verdict_default_def)
  have key: "enforce (st\<lparr>ks_verdict := w\<rparr>) i model now = Inr d"
    if w: "verdict_weaker now w (ks_verdict st)" for w
  proof -
    from assms(1) have b: "\<not> v_blocked (ks_verdict st)"
      and s: "suspension_gate (ks_verdict st) now = Inr ()"
      and m: "model_gate st model = Inr ()" and d: "d = display_id st i"
      by (auto simp: enforce_def res_simps split: if_splits)
    from b w have "\<not> v_blocked w" by (auto simp: verdict_weaker_def)
    moreover from s w have "suspension_gate w now = Inr ()"
      by (auto simp: verdict_weaker_def suspension_gate_def is_some_and_iff
          split: option.splits if_splits)
    moreover have "model_gate (st\<lparr>ks_verdict := w\<rparr>) model = Inr ()"
    proof (cases model)
      case (Some mo)
      from w have "layer_permits (v_allowed_models (ks_verdict st)) mo \<Longrightarrow>
          layer_permits (v_allowed_models w) mo"
        by (cases "v_allowed_models w") (auto simp: verdict_weaker_def dest: layer_permits_mono)
      with m Some show ?thesis by (simp add: model_gate_iff)
    qed (simp add: model_gate_def)
    ultimately show ?thesis
      by (simp add: enforce_def d display_id_def)
  qed
  from key [OF assms(2)] key [OF weaker] show ?thesis by simp
qed

definition ex_key :: key_state where
  "ex_key = \<lparr>ks_name = Some ''ci'', ks_pw_hash = ''h'', ks_config_allowed = Some [''gpt-*''],
     ks_verdict = \<lparr>v_blocked = False, v_suspended_until = Some 10,
       v_allowed_models = Some [''gpt-4'']\<rparr>\<rparr>"

theorem verdict_never_widens_witness:
  "enforce (ex_key\<lparr>ks_verdict := verdict_default\<rparr>) ''k'' (Some ''gpt-4'') 10 = Inr ''ci''"
proof -
  have "enforce ex_key ''k'' (Some ''gpt-4'') 10 = Inr ''ci''" by code_simp
  moreover have "verdict_weaker 10 verdict_default (ks_verdict ex_key)"
    by (simp add: verdict_weaker_def verdict_default_def)
  ultimately show ?thesis using verdict_never_widens by blast
qed

text \<open>Display ids identify keys: what the integrity rules keep, and what scoping relies on.\<close>

definition displays_unique :: "(string, key_state) hashmap \<Rightarrow> bool" where
  "displays_unique keys \<longleftrightarrow>
     (\<forall>i j st st'. hm_get keys i = Some st \<longrightarrow> hm_get keys j = Some st' \<longrightarrow>
        display_id st i = display_id st' j \<longrightarrow> i = j)"

lemma find_display:
  assumes "hm_wf keys" "displays_unique keys" "hm_get keys i = Some st"
  shows "List.find (\<lambda>(j, st'). display_id st' j = display_id st i) keys = Some (i, st)"
proof -
  let ?P = "\<lambda>(j, st'). display_id st' j = display_id st i"
  from assms(3) have "(i, st) \<in> set keys" by (rule hm_get_Some_in)
  then have "List.find ?P keys \<noteq> None" by (auto simp: find_None_iff)
  then obtain j st' where f: "List.find ?P keys = Some (j, st')" by auto
  then have "(j, st') \<in> set keys" and d: "display_id st' j = display_id st i"
    by (auto simp: find_Some_iff) (metis nth_mem)
  with assms(1) have "hm_get keys j = Some st'" by (simp add: hm_in_get)
  with assms d have "j = i" by (auto simp: displays_unique_def)
  with f \<open>hm_get keys j = Some st'\<close> assms(3) show ?thesis by simp
qed

text \<open>
  The scope the model listing is filtered by says what the request path would: for a key
  that is neither blocked nor suspended, a model is in the scope (or there is no scope)
  exactly when a request for it is accepted.
\<close>

theorem model_scope_agrees:
  assumes "hm_wf (sn_keys snap)" "displays_unique (sn_keys snap)"
    and "hm_get (sn_keys snap) i = Some st" and "enforce st i None now = Inr d"
  shows "enforce st i (Some m) now = Inr d \<longleftrightarrow> is_none_or (\<lambda>sc. permits sc m) (model_scope snap d)"
proof -
  from assms(4) have d: "d = display_id st i" by (rule enforce_name)
  have sc: "model_scope snap d =
      (case (ks_config_allowed st, v_allowed_models (ks_verdict st)) of
         (None, None) \<Rightarrow> None | (c, v) \<Rightarrow> Some \<lparr>ms_config = c, ms_verdict = v\<rparr>)"
    by (simp add: model_scope_def d find_display [OF assms(1-3)])
  show ?thesis
    by (auto simp: enforce_gate assms(4) model_gate_iff sc permits_iff layer_permits_def
        split: option.splits)
qed

definition ex_snapshot :: key_snapshot where
  "ex_snapshot = \<lparr>sn_keys = [(''k'', ex_key)], sn_identity_gen = 0\<rparr>"

lemma ex_snapshot_ok:
  "hm_wf (sn_keys ex_snapshot)" "displays_unique (sn_keys ex_snapshot)"
  "hm_get (sn_keys ex_snapshot) ''k'' = Some ex_key"
  by (auto simp: ex_snapshot_def hm_wf_def hm_keys_def hm_get_def displays_unique_def
      split: if_splits)

theorem model_scope_agrees_witness:
  "enforce ex_key ''k'' (Some ''gpt-4'') 10 = Inr ''ci'' \<longleftrightarrow>
     is_none_or (\<lambda>sc. permits sc ''gpt-4'') (model_scope ex_snapshot ''ci'')"
proof (rule model_scope_agrees [OF ex_snapshot_ok])
  show "enforce ex_key ''k'' None 10 = Inr ''ci''" by code_simp
qed

section \<open>Installing a roster\<close>

definition clean_input :: "identity_input \<Rightarrow> bool" where
  "clean_input k \<longleftrightarrow>
     \<not> has_control_bytes (ii_id k) \<and> \<not> is_some_and has_control_bytes (ii_name k)"

lemma clean_input_display: "clean_input k \<Longrightarrow> \<not> has_control_bytes (input_display k)"
  by (cases "ii_name k") (auto simp: clean_input_def input_display_def)

lemma carried_display [simp]: "display_id (carried_state prev k) (ii_id k) = input_display k"
  by (simp add: display_id_def carried_state_def input_display_def)

definition roster_inv ::
  "(string, key_state) hashmap \<Rightarrow> identity_input set \<Rightarrow> string list \<Rightarrow>
     (string, key_state) hashmap \<Rightarrow> bool" where
  "roster_inv prev seen displays keys \<longleftrightarrow>
     hm_wf keys \<and> displays_unique keys \<and>
     (\<forall>i st. hm_get keys i = Some st \<longrightarrow> display_id st i \<in> set displays \<and>
        (\<exists>k \<in> seen. clean_input k \<and> ii_id k = i \<and> st = carried_state prev k))"

lemma roster_inv_insert:
  assumes "roster_inv prev seen displays keys" "clean_input k" "input_display k \<notin> set displays"
  shows "roster_inv prev (insert k seen) (input_display k # displays)
           (hm_insert (ii_id k) (carried_state prev k) keys)"
proof -
  let ?keys = "hm_insert (ii_id k) (carried_state prev k) keys"
  have old: "display_id st i \<in> set displays" if "hm_get keys i = Some st" for i st
    using assms(1) that by (auto simp: roster_inv_def)
  have "displays_unique ?keys"
    unfolding displays_unique_def
  proof (intro allI impI)
    fix i j st st'
    assume i: "hm_get ?keys i = Some st" and j: "hm_get ?keys j = Some st'"
      and d: "display_id st i = display_id st' j"
    show "i = j"
    proof (cases "i = ii_id k \<or> j = ii_id k")
      case True
      with i j d old assms(3) show ?thesis
        by (auto simp: hm_get_insert split: if_splits) metis+
    next
      case False
      with i j d assms(1) show ?thesis
        by (auto simp: hm_get_insert roster_inv_def displays_unique_def)
    qed
  qed
  with assms show ?thesis
    by (auto simp: roster_inv_def hm_get_insert hm_wf_insert split: if_splits)
qed

lemma roster_inv_mono: "roster_inv prev seen ds keys \<Longrightarrow> seen \<subseteq> seen' \<Longrightarrow> roster_inv prev seen' ds keys"
  by (fastforce simp: roster_inv_def)

lemma roster_loop_inv:
  assumes "roster_inv prev seen displays keys"
  shows "\<exists>ds. roster_inv prev (seen \<union> set roster) ds (roster_loop prev displays keys roster)"
  using assms
proof (induction prev displays keys roster arbitrary: seen rule: roster_loop.induct)
  case (1 prev displays keys)
  then show ?case by auto
next
  case (2 prev displays keys k ks)
  show ?case
  proof (cases "clean_input k \<and> input_display k \<notin> set displays")
    case True
    then have "\<exists>ds. roster_inv prev (insert k seen \<union> set ks) ds
        (roster_loop prev (input_display k # displays)
          (hm_insert (ii_id k) (carried_state prev k) keys) ks)"
      using 2(3) [OF _ _ roster_inv_insert [OF "2.prems"]] by (simp add: clean_input_def)
    with True show ?thesis by (simp add: clean_input_def)
  next
    case False
    then have "\<exists>ds. roster_inv prev (seen \<union> set ks) ds (roster_loop prev displays keys ks)"
      using 2(1) [OF _ "2.prems"] 2(2) [OF _ _ "2.prems"] by (auto simp: clean_input_def)
    with False show ?thesis by (auto simp: clean_input_def intro: roster_inv_mono)
  qed
qed

lemma roster_loop_complete:
  assumes "\<forall>k \<in> set roster. clean_input k" "distinct (map ii_id roster)"
    and "distinct (map input_display roster)" "set (map input_display roster) \<inter> set displays = {}"
  shows "hm_get (roster_loop prev displays keys roster) i =
     (case List.find (\<lambda>k. ii_id k = i) roster of
        Some k \<Rightarrow> Some (carried_state prev k) | None \<Rightarrow> hm_get keys i)"
  using assms
proof (induction roster arbitrary: displays keys)
  case (Cons k ks)
  have "List.find (\<lambda>k'. ii_id k' = ii_id k) ks = None"
    using Cons.prems(2) by (intro find_key_None) simp
  with Cons show ?case by (auto simp: clean_input_def hm_get_insert split: option.splits)
qed simp

text \<open>
  Whatever roster is pulled, the installed identities keep the rules of the config: display
  ids are unique, ids and display ids carry no control byte, every key comes from a roster
  entry, its verdict carried over from the key of that id (the empty one for a new key); the
  generation moves by one and the cache keeps only tokens of keys that still exist. A roster
  that already satisfies the rules is installed completely.
\<close>

theorem install_identities_sound:
  fixes ks roster
  defines "snap \<equiv> st_snapshot (install_identities ks roster)"
  shows "hm_wf (sn_keys snap) \<and> displays_unique (sn_keys snap) \<and>
    sn_identity_gen snap = sn_identity_gen (st_snapshot ks) + 1 \<and>
    (hm_get (sn_keys snap) i = Some st \<longrightarrow>
       \<not> has_control_bytes i \<and> \<not> has_control_bytes (display_id st i) \<and>
       (\<exists>k \<in> set roster. ii_id k = i \<and> st = carried_state (sn_keys (st_snapshot ks)) k)) \<and>
    ((token, e) \<in> set (st_verified (install_identities ks roster)) \<longrightarrow>
       (token, e) \<in> set (st_verified ks) \<and> hm_contains (sn_keys snap) (ve_id e)) \<and>
    ((\<forall>k \<in> set roster. clean_input k) \<and> distinct (map ii_id roster) \<and>
      distinct (map input_display roster) \<and> k \<in> set roster \<longrightarrow>
       hm_get (sn_keys snap) (ii_id k) = Some (carried_state (sn_keys (st_snapshot ks)) k))"
proof -
  let ?prev = "sn_keys (st_snapshot ks)"
  have snap: "snap = installed_snapshot (st_snapshot ks) roster"
    by (simp add: snap_def install_identities_def Let_def)
  have "roster_inv ?prev {} [] hm_empty"
    by (simp add: roster_inv_def displays_unique_def hm_simps)
  from roster_loop_inv [OF this, of roster] obtain ds
    where inv: "roster_inv ?prev (set roster) ds (sn_keys snap)"
    by (auto simp: snap installed_snapshot_def)
  have one: "hm_wf (sn_keys snap) \<and> displays_unique (sn_keys snap)"
    using inv by (simp add: roster_inv_def)
  have two: "hm_get (sn_keys snap) i = Some st \<longrightarrow>
       \<not> has_control_bytes i \<and> \<not> has_control_bytes (display_id st i) \<and>
       (\<exists>k \<in> set roster. ii_id k = i \<and> st = carried_state ?prev k)"
  proof
    assume "hm_get (sn_keys snap) i = Some st"
    with inv obtain k where k: "k \<in> set roster" "clean_input k" "ii_id k = i"
      "st = carried_state ?prev k"
      by (auto simp: roster_inv_def)
    then have "display_id st i = input_display k" by auto
    with k clean_input_display [of k] show "\<not> has_control_bytes i \<and>
       \<not> has_control_bytes (display_id st i) \<and>
       (\<exists>k \<in> set roster. ii_id k = i \<and> st = carried_state ?prev k)"
      by (auto simp: clean_input_def)
  qed
  have three: "(token, e) \<in> set (st_verified (install_identities ks roster)) \<longrightarrow>
       (token, e) \<in> set (st_verified ks) \<and> hm_contains (sn_keys snap) (ve_id e)"
    by (simp add: install_identities_def Let_def prune_verified_def hm_retain_def snap)
  have four: "(\<forall>k \<in> set roster. clean_input k) \<and> distinct (map ii_id roster) \<and>
      distinct (map input_display roster) \<and> k \<in> set roster \<longrightarrow>
       hm_get (sn_keys snap) (ii_id k) = Some (carried_state ?prev k)"
  proof (intro impI, elim conjE)
    assume ok: "\<forall>k \<in> set roster. clean_input k" "distinct (map ii_id roster)"
      "distinct (map input_display roster)" and k: "k \<in> set roster"
    have "List.find (\<lambda>k'. ii_id k' = ii_id k) roster = Some k"
      by (rule find_key_Some [OF ok(2) k])
    then show "hm_get (sn_keys snap) (ii_id k) = Some (carried_state ?prev k)"
      using roster_loop_complete [OF ok, of "[]" ?prev hm_empty "ii_id k"]
      by (simp add: snap installed_snapshot_def)
  qed
  from one two three four show ?thesis
    by (simp add: snap installed_snapshot_def)
qed

definition ex_store :: key_store where
  "ex_store = \<lparr>st_snapshot = ex_snapshot, st_verified = hm_empty\<rparr>"

definition ex_roster :: "identity_input list" where
  "ex_roster =
     [\<lparr>ii_id = ''k'', ii_pw_hash = ''h2'', ii_name = Some ''ci'', ii_allowed_models = None\<rparr>,
      \<lparr>ii_id = ''dev'', ii_pw_hash = ''h3'', ii_name = None, ii_allowed_models = Some [''m'']\<rparr>]"

theorem install_identities_sound_witness:
  "hm_get (sn_keys (st_snapshot (install_identities ex_store ex_roster))) ''k'' =
     Some (carried_state (sn_keys ex_snapshot) (ex_roster ! 0))"
proof -
  have "(\<forall>k \<in> set ex_roster. clean_input k) \<and> distinct (map ii_id ex_roster) \<and>
      distinct (map input_display ex_roster) \<and> ex_roster ! 0 \<in> set ex_roster"
    by code_simp
  moreover have "ii_id (ex_roster ! 0) = ''k''" by (simp add: ex_roster_def)
  ultimately show ?thesis
    using install_identities_sound [where ks = ex_store and roster = ex_roster and k = "ex_roster ! 0"]
    by (simp add: ex_store_def)
qed

lemma verdicts_loop_get:
  assumes "hm_wf verdicts" "hm_wf keys"
  shows "hm_get (verdicts_loop verdicts keys) i =
     map_option (\<lambda>st. st\<lparr>ks_verdict := unwrap_or verdict_default (hm_get verdicts i)\<rparr>) (hm_get keys i)"
  using assms
proof (induction verdicts keys rule: verdicts_loop.induct)
  case (2 verdicts j st keys)
  then have "hm_wf keys" and "hm_get keys j = None"
    by (auto simp: hm_wf_def hm_keys_def hm_get_None_iff)
  with 2 show ?case
    by (auto simp: hm_get_def [of "_ # _"] hm_get_remove hm_wf_remove simp flip: hm_get_def)
qed (simp add: hm_get_def)

lemma verdicts_loop_keys: "map fst (verdicts_loop verdicts keys) = map fst keys"
  by (induction verdicts keys rule: verdicts_loop.induct) auto

lemma verdicts_loop_wf: "hm_wf keys \<Longrightarrow> hm_wf (verdicts_loop verdicts keys)"
  by (simp add: hm_wf_def hm_keys_def verdicts_loop_keys)

text \<open>
  A pulled verdict overlay replaces every verdict, a key it does not mention getting the
  empty one, and touches nothing else: names, hashes, allow-lists, the set of keys, the
  identity generation and the cache of proven tokens stay.
\<close>

theorem install_verdicts_effect:
  assumes "hm_wf verdicts" "hm_wf (sn_keys (st_snapshot ks))"
  shows "hm_get (sn_keys (st_snapshot (install_verdicts ks verdicts))) i =
      map_option (\<lambda>st. st\<lparr>ks_verdict := unwrap_or verdict_default (hm_get verdicts i)\<rparr>)
        (hm_get (sn_keys (st_snapshot ks)) i) \<and>
    sn_identity_gen (st_snapshot (install_verdicts ks verdicts)) = sn_identity_gen (st_snapshot ks) \<and>
    st_verified (install_verdicts ks verdicts) = st_verified ks"
  using assms by (simp add: install_verdicts_def verdict_snapshot_def verdicts_loop_get)

theorem install_verdicts_effect_witness:
  "hm_get (sn_keys (st_snapshot (install_verdicts ex_store hm_empty))) ''k'' =
     Some (ex_key\<lparr>ks_verdict := verdict_default\<rparr>)"
  using install_verdicts_effect [of hm_empty ex_store "''k''"] ex_snapshot_ok
  by (simp add: ex_store_def hm_simps)

section \<open>Concurrent requests and refreshers\<close>

text \<open>
  Requests take a handle on the current snapshot and run without its lock, so installs may
  overtake them. The atomic steps are the critical sections of the two locks: a request clones
  the snapshot, reads the cache, and (on the cold path, after the hash) writes the cache; an
  identity install holds the snapshot lock from before it prunes the cache until it publishes.
  \<open>sh_answers\<close> and \<open>sh_installs\<close> are history: what was answered, and how many identity
  installs there were.
\<close>

record task =
  tk_token :: string
  tk_model :: "string option"
  tk_now :: u64
  tk_snap :: key_snapshot

record shared =
  sh_snapshot :: key_snapshot
  sh_pending :: "key_snapshot option"
  sh_verified :: verified
  sh_started :: "task list"
  sh_cold :: "task list"
  sh_answers :: "(task \<times> (auth_error + string)) list"
  sh_installs :: nat

definition cold_answer :: "(string \<Rightarrow> string \<Rightarrow> bool) \<Rightarrow> task \<Rightarrow> cold_outcome" where
  "cold_answer verify t = cold_path verify (tk_snap t) (tk_token t) (tk_model t) (tk_now t)"

definition warm_answer :: "verified \<Rightarrow> task \<Rightarrow> (auth_error + string) option" where
  "warm_answer verified t = warm_path (tk_snap t) verified (tk_token t) (tk_model t) (tk_now t)"

inductive key_step :: "(string \<Rightarrow> string \<Rightarrow> bool) \<Rightarrow> shared \<Rightarrow> shared \<Rightarrow> bool" for verify where
  start: "sh_pending s = None \<Longrightarrow> t = \<lparr>tk_token = token, tk_model = model, tk_now = now,
      tk_snap = sh_snapshot s\<rparr> \<Longrightarrow> key_step verify s (s\<lparr>sh_started := t # sh_started s\<rparr>)"
| warm: "t \<in> set (sh_started s) \<Longrightarrow> warm_answer (sh_verified s) t = Some r \<Longrightarrow>
    key_step verify s (s\<lparr>sh_started := remove1 t (sh_started s),
      sh_answers := (t, r) # sh_answers s\<rparr>)"
| miss: "t \<in> set (sh_started s) \<Longrightarrow> warm_answer (sh_verified s) t = None \<Longrightarrow>
    key_step verify s (s\<lparr>sh_started := remove1 t (sh_started s), sh_cold := t # sh_cold s\<rparr>)"
| cold: "t \<in> set (sh_cold s) \<Longrightarrow> c = cold_answer verify t \<Longrightarrow>
    key_step verify s (s\<lparr>sh_cold := remove1 t (sh_cold s),
      sh_verified := cache_entry (tk_token t) (co_entry c) (sh_verified s),
      sh_answers := (t, co_result c) # sh_answers s\<rparr>)"
| prune: "sh_pending s = None \<Longrightarrow> snap = installed_snapshot (sh_snapshot s) roster \<Longrightarrow>
    key_step verify s (s\<lparr>sh_pending := Some snap,
      sh_verified := prune_verified (sn_keys snap) (sh_verified s),
      sh_installs := Suc (sh_installs s)\<rparr>)"
| publish: "sh_pending s = Some snap \<Longrightarrow>
    key_step verify s (s\<lparr>sh_snapshot := snap, sh_pending := None\<rparr>)"
| verdicts: "sh_pending s = None \<Longrightarrow> hm_wf vs \<Longrightarrow>
    key_step verify s (s\<lparr>sh_snapshot := verdict_snapshot (sh_snapshot s) vs\<rparr>)"

definition shared_init :: "(string \<Rightarrow> string option) \<Rightarrow> key_config list \<Rightarrow> shared" where
  "shared_init env ks =
     \<lparr>sh_snapshot = st_snapshot (from_config env ks), sh_pending = None,
      sh_verified = st_verified (from_config env ks), sh_started = [], sh_cold = [],
      sh_answers = [], sh_installs = 0\<rparr>"

inductive key_reachable ::
  "(string \<Rightarrow> string \<Rightarrow> bool) \<Rightarrow> (string \<Rightarrow> string option) \<Rightarrow> key_config list \<Rightarrow> shared \<Rightarrow> bool"
  for verify env ks where
  init: "key_reachable verify env ks (shared_init env ks)"
| step: "key_reachable verify env ks s \<Longrightarrow> key_step verify s s' \<Longrightarrow> key_reachable verify env ks s'"

inductive_cases key_step_cases: "key_step verify s s'"

text \<open>
  The invariant: some history \<open>H\<close> gives every identity generation its password hashes, all
  snapshots in use agree with it, and a cached token was verified against the hash \<open>H\<close> has.
\<close>

type_synonym hash_history = "u64 \<Rightarrow> string \<Rightarrow> string option"

definition agrees :: "hash_history \<Rightarrow> nat \<Rightarrow> key_snapshot \<Rightarrow> bool" where
  "agrees H n snap \<longleftrightarrow> hm_wf (sn_keys snap) \<and> unat (sn_identity_gen snap) \<le> n \<and>
     (\<forall>i st. hm_get (sn_keys snap) i = Some st \<longrightarrow>
        H (sn_identity_gen snap) i = Some (ks_pw_hash st))"

definition proven ::
  "(string \<Rightarrow> string \<Rightarrow> bool) \<Rightarrow> hash_history \<Rightarrow> nat \<Rightarrow> string \<Rightarrow> verified_entry \<Rightarrow> bool" where
  "proven verify H n token e \<longleftrightarrow> unat (ve_identity_gen e) \<le> n \<and>
     (\<exists>pw. token_credential token = Some (ve_id e, pw) \<and> verify pw (ve_pw_hash e)) \<and>
     H (ve_identity_gen e) (ve_id e) = Some (ve_pw_hash e)"

definition newest :: "shared \<Rightarrow> key_snapshot" where
  "newest s = unwrap_or (sh_snapshot s) (sh_pending s)"

definition snapshots :: "shared \<Rightarrow> key_snapshot set" where
  "snapshots s = {sh_snapshot s, newest s} \<union> tk_snap ` (set (sh_started s) \<union> set (sh_cold s))"

definition shared_inv :: "(string \<Rightarrow> string \<Rightarrow> bool) \<Rightarrow> hash_history \<Rightarrow> shared \<Rightarrow> bool" where
  "shared_inv verify H s \<longleftrightarrow>
     (\<forall>snap \<in> snapshots s. agrees H (sh_installs s) snap) \<and>
     unat (sn_identity_gen (newest s)) = sh_installs s \<and>
     (\<forall>(token, e) \<in> set (sh_verified s). proven verify H (sh_installs s) token e) \<and>
     (\<forall>(t, r) \<in> set (sh_answers s). r = co_result (cold_answer verify t))"

lemma warm_answer_correct:
  assumes cache: "\<forall>(token, e) \<in> set verified. proven verify H n token e"
    and snap: "agrees H n (tk_snap t)" and warm: "warm_answer verified t = Some r"
  shows "r = co_result (cold_answer verify t)"
proof -
  from warm obtain e st where e: "hm_get verified (tk_token t) = Some e"
    and st: "hm_get (sn_keys (tk_snap t)) (ve_id e) = Some st"
    and eq: "ve_identity_gen e = sn_identity_gen (tk_snap t) \<or> ve_pw_hash e = ks_pw_hash st"
    and r: "r = enforce st (ve_id e) (tk_model t) (tk_now t)"
    by (auto simp: warm_answer_def warm_path_def split: option.splits if_splits)
  from e cache have p: "proven verify H n (tk_token t) e"
    by (auto dest: hm_get_Some_in)
  have "ve_pw_hash e = ks_pw_hash st"
    using eq p st snap by (auto simp: proven_def agrees_def)
  with p st show ?thesis
    by (auto simp: proven_def r cold_answer_def cold_result_cases)
qed

lemma cold_entry_proven:
  assumes "agrees H n (tk_snap t)" "co_entry (cold_answer verify t) = Some e"
  shows "proven verify H n (tk_token t) e"
  using assms by (auto simp: cold_answer_def cold_entry_iff agrees_def proven_def)

lemma cache_entry_inv:
  assumes "\<forall>(token, e) \<in> set verified. P token e" "\<And>e. entry = Some e \<Longrightarrow> P token e"
  shows "\<forall>(token, e) \<in> set (cache_entry token entry verified). P token e"
  using assms set_update_subset
  by (fastforce simp: cache_entry_def hm_insert_def split: option.splits)

lemma agrees_verdicts:
  "agrees H n snap \<Longrightarrow> hm_wf vs \<Longrightarrow> agrees H n (verdict_snapshot snap vs)"
  by (auto simp: agrees_def verdict_snapshot_def verdicts_loop_wf verdicts_loop_get)

lemma installed_wf: "hm_wf (sn_keys (installed_snapshot snap roster))"
proof -
  have "roster_inv (sn_keys snap) {} [] hm_empty"
    by (simp add: roster_inv_def displays_unique_def hm_simps)
  from roster_loop_inv [OF this, of roster] show ?thesis
    by (auto simp: installed_snapshot_def roster_inv_def)
qed

text \<open>A new generation extends the history without disturbing it.\<close>

lemma history_extend:
  fixes g :: u64
  assumes "unat g = Suc n"
  shows "agrees H n snap \<Longrightarrow> agrees (H(g := h)) (Suc n) snap"
    and "proven verify H n token e \<Longrightarrow> proven verify (H(g := h)) (Suc n) token e"
proof -
  have "unat g' \<le> n \<Longrightarrow> g' \<noteq> g" for g' :: u64
    using assms by auto
  then show "agrees H n snap \<Longrightarrow> agrees (H(g := h)) (Suc n) snap"
    and "proven verify H n token e \<Longrightarrow> proven verify (H(g := h)) (Suc n) token e"
    by (auto simp: agrees_def proven_def)
qed

lemma next_generation:
  fixes g :: u64
  assumes "unat g = n" "Suc n < 2 ^ 64"
  shows "unat (g + 1) = Suc n"
  using assms by (simp add: unat_word_ariths)

lemma shared_inv_step:
  assumes "key_step verify s s'" "shared_inv verify H s" "sh_installs s' < 2 ^ 64"
  shows "\<exists>H'. shared_inv verify H' s'"
  using assms(1)
proof (cases rule: key_step.cases)
  case (start t token model now)
  with assms(2) have "shared_inv verify H s'"
    by (auto simp: shared_inv_def snapshots_def newest_def)
  then show ?thesis by blast
next
  case (warm t r)
  from warm(2) assms(2) have "agrees H (sh_installs s) (tk_snap t)"
    by (auto simp: shared_inv_def snapshots_def)
  with warm(3) assms(2) have "r = co_result (cold_answer verify t)"
    by (intro warm_answer_correct) (auto simp: shared_inv_def)
  with warm assms(2) have "shared_inv verify H s'"
    by (auto simp: shared_inv_def snapshots_def newest_def dest: notin_set_remove1 in_set_remove1
        set_remove1_subset [THEN subsetD])
  then show ?thesis by blast
next
  case (miss t)
  with assms(2) have "shared_inv verify H s'"
    by (auto simp: shared_inv_def snapshots_def newest_def dest: set_remove1_subset [THEN subsetD])
  then show ?thesis by blast
next
  case (cold t c)
  from cold(2) assms(2) have a: "agrees H (sh_installs s) (tk_snap t)"
    by (auto simp: shared_inv_def snapshots_def)
  have "\<forall>(token, e) \<in> set (cache_entry (tk_token t) (co_entry c) (sh_verified s)).
      proven verify H (sh_installs s) token e"
    using assms(2) cold(3) a
    by (intro cache_entry_inv) (auto simp: shared_inv_def intro: cold_entry_proven)
  with cold assms(2) have "shared_inv verify H s'"
    by (auto simp: shared_inv_def snapshots_def newest_def dest: set_remove1_subset [THEN subsetD])
  then show ?thesis by blast
next
  case (prune snap roster)
  let ?g = "sn_identity_gen snap" and ?h = "\<lambda>i. map_option ks_pw_hash (hm_get (sn_keys snap) i)"
  have "unat (sn_identity_gen (sh_snapshot s)) = sh_installs s"
    using prune(2) assms(2) by (simp add: shared_inv_def newest_def)
  moreover have "Suc (sh_installs s) < 2 ^ 64"
    using prune(1) assms(3) by simp
  ultimately have g: "unat ?g = Suc (sh_installs s)"
    by (simp add: prune(3) installed_snapshot_def next_generation)
  have new: "agrees (H(?g := ?h)) (Suc (sh_installs s)) snap"
    using g prune(3) installed_wf by (auto simp: agrees_def)
  have old: "\<forall>sn \<in> snapshots s. agrees (H(?g := ?h)) (Suc (sh_installs s)) sn"
    using assms(2) history_extend(1) [OF g] by (auto simp: shared_inv_def)
  have cache: "\<forall>(token, e) \<in> set (sh_verified s).
      proven verify (H(?g := ?h)) (Suc (sh_installs s)) token e"
    using assms(2) history_extend(2) [OF g] by (auto simp: shared_inv_def)
  have "snapshots s' \<subseteq> insert snap (snapshots s)"
    using prune(1,2) by (auto simp: snapshots_def newest_def)
  with old new have "\<forall>sn \<in> snapshots s'. agrees (H(?g := ?h)) (sh_installs s') sn"
    using prune(1) by auto
  moreover have "set (sh_verified s') \<subseteq> set (sh_verified s)"
    using prune(1) by (auto simp: prune_verified_def hm_retain_def)
  then have "\<forall>(token, e) \<in> set (sh_verified s').
      proven verify (H(?g := ?h)) (sh_installs s') token e"
    using cache prune(1) by auto
  moreover have "unat (sn_identity_gen (newest s')) = sh_installs s'"
    using g prune(1) by (simp add: newest_def)
  moreover have "sh_answers s' = sh_answers s"
    using prune(1) by simp
  ultimately have "shared_inv verify (H(?g := ?h)) s'"
    using assms(2) by (simp add: shared_inv_def)
  then show ?thesis by blast
next
  case (publish snap)
  with assms(2) have "shared_inv verify H s'"
    by (auto simp: shared_inv_def snapshots_def newest_def)
  then show ?thesis by blast
next
  case (verdicts vs)
  with assms(2) agrees_verdicts have "shared_inv verify H s'"
    by (auto simp: shared_inv_def snapshots_def newest_def verdict_snapshot_def)
  then show ?thesis by blast
qed

lemma from_config_wf: "hm_wf m \<Longrightarrow> hm_wf (from_config_loop env m ks)"
  by (induction env m ks rule: from_config_loop.induct) (auto split: option.splits)

lemma shared_inv_init: "\<exists>H. shared_inv verify H (shared_init env ks)"
proof -
  let ?keys = "from_config_loop env hm_empty ks"
  let ?H = "\<lambda>_ i. map_option ks_pw_hash (hm_get ?keys i)"
  have "shared_inv verify ?H (shared_init env ks)"
    by (simp add: shared_inv_def shared_init_def from_config_def snapshots_def newest_def
        agrees_def from_config_wf hm_wf_empty) (simp add: hm_empty_def)
  then show ?thesis by blast
qed

lemma key_step_installs: "key_step verify s s' \<Longrightarrow> sh_installs s \<le> sh_installs s'"
  by (erule key_step.cases) auto

lemma key_reachable_inv:
  "key_reachable verify env ks s \<Longrightarrow> sh_installs s < 2 ^ 64 \<Longrightarrow> \<exists>H. shared_inv verify H s"
proof (induction rule: key_reachable.induct)
  case init
  show ?case by (rule shared_inv_init)
next
  case (step s s')
  from step.hyps(2) step.prems have "sh_installs s < 2 ^ 64"
    using key_step_installs by fastforce
  with step shared_inv_step show ?case by blast
qed

text \<open>
  C39: the token cache is invisible. Under every interleaving of requests, identity installs
  and verdict installs (fewer than \<open>2^64\<close> of the former), every answer a request got, warm or
  cold, is the one the full check with the password hash gives on the snapshot that was
  current when the request started; and a cached token is always one that decodes to a
  password verified against the cached hash. A rotated password, a removed key or a changed
  verdict therefore takes effect with the first request that starts after the install.
\<close>

theorem cached_answers_correct:
  assumes "key_reachable verify env ks s" "sh_installs s < 2 ^ 64"
  shows "(\<forall>(t, r) \<in> set (sh_answers s).
      r = co_result (cold_path verify (tk_snap t) (tk_token t) (tk_model t) (tk_now t))) \<and>
    (\<forall>(token, e) \<in> set (sh_verified s).
      \<exists>pw. token_credential token = Some (ve_id e, pw) \<and> verify pw (ve_pw_hash e))"
proof -
  from key_reachable_inv [OF assms] obtain H where "shared_inv verify H s" ..
  then show ?thesis
    by (auto simp: shared_inv_def cold_answer_def proven_def)
qed

theorem cached_answers_correct_witness:
  "\<exists>(s :: shared) t r. sh_answers s = [(t, r)] \<and> tk_token t = ''bad'' \<and>
     r = co_result (cold_path (=) (tk_snap t) ''bad'' None 0)"
proof -
  let ?s0 = "shared_init (\<lambda>_. None) []"
  let ?t = "\<lparr>tk_token = ''bad'', tk_model = None, tk_now = 0, tk_snap = sh_snapshot ?s0\<rparr>"
  let ?s1 = "?s0\<lparr>sh_started := ?t # sh_started ?s0\<rparr>"
  let ?s2 = "?s1\<lparr>sh_started := remove1 ?t (sh_started ?s1), sh_cold := ?t # sh_cold ?s1\<rparr>"
  let ?c = "cold_answer (=) ?t"
  let ?s3 = "?s2\<lparr>sh_cold := remove1 ?t (sh_cold ?s2),
      sh_verified := cache_entry (tk_token ?t) (co_entry ?c) (sh_verified ?s2),
      sh_answers := (?t, co_result ?c) # sh_answers ?s2\<rparr>"
  have s1: "key_step (=) ?s0 ?s1"
    by (rule key_step.start) (simp_all add: shared_init_def)
  have s2: "key_step (=) ?s1 ?s2"
    by (rule key_step.miss)
      (simp_all add: warm_answer_def warm_path_def shared_init_def from_config_def hm_simps)
  have s3: "key_step (=) ?s2 ?s3"
    by (rule key_step.cold) simp_all
  have reach: "key_reachable (=) (\<lambda>_. None) [] ?s3"
    by (rule key_reachable.step [OF key_reachable.step [OF key_reachable.step [OF
          key_reachable.init s1] s2] s3])
  have small: "sh_installs ?s3 < 2 ^ 64" by (simp add: shared_init_def)
  have answers: "sh_answers ?s3 = [(?t, co_result ?c)]" by (simp add: shared_init_def)
  have token: "tk_token ?t = ''bad''" by simp
  have same: "co_result ?c = co_result (cold_path (=) (tk_snap ?t) ''bad'' None 0)"
    using cached_answers_correct [OF reach small] unfolding answers by simp
  show ?thesis by (intro exI conjI) (rule answers, rule token, rule same)
qed

section \<open>Two behaviours worth knowing\<close>

text \<open>
  The decoder accepts every padding and ignores the bits after the last byte, so one
  credential has several tokens, and each of them gets its own cache entry: the cache is not
  bounded by the number of keys.
\<close>

lemma several_tokens_per_key:
  "length (st_verified (snd (snd (authorize_identity (=)
     (snd (snd (authorize_identity (=)
       (snd (snd (authorize_identity (=)
          (from_config (\<lambda>_. None) [\<lparr>kc_id = ''ci'', kc_pw_hash = Secret ''s'', kc_name = None,
             kc_allowed_models = None\<rparr>]) ''Y2k6cw=='' 0))) ''Y2k6cw'' 0))) ''Y2k6cx'' 0)))) = 3"
  by code_simp

text \<open>
  A pulled roster that names one id twice, under two display names, is not rejected as the
  config file would be: the later entry replaces the earlier one.
\<close>

lemma roster_duplicate_id:
  "map_option ks_pw_hash (hm_get (sn_keys (st_snapshot (install_identities ex_store
      [\<lparr>ii_id = ''a'', ii_pw_hash = ''h1'', ii_name = Some ''x'', ii_allowed_models = None\<rparr>,
       \<lparr>ii_id = ''a'', ii_pw_hash = ''h2'', ii_name = Some ''y'', ii_allowed_models = None\<rparr>]))) ''a'')
   = Some ''h2''"
  by code_simp

end
