(* ===== verification/RateLimit.thy ===== *)
theory RateLimit
  imports Config
begin

text \<open>
  Node-local rate limiting, \<open>crates/llmleaf-core/src/ratelimit.rs\<close>: token buckets over \<open>f64\<close>,
  the limits of a provider in two scopes, admission with its roll-backs, permits, and the
  limiter a topology swap derives from the old one.

  An entry of the limiter is an \<open>Arc\<close>, shared between the limiters of successive topologies and
  the permits of requests in flight: the entries live in a store, a list indexed by address.
  Every access to a bucket locks its mutex; a thread that panics while it holds the lock
  poisons it, and every later \<open>lock().unwrap()\<close> panics: both are written out.
\<close>

section \<open>Token buckets\<close>

text \<open>\<open>concurrency_poll\<close> is 50 ms, \<open>never\<close> a day.\<close>

definition concurrency_poll :: duration where "concurrency_poll = 50 * 10 ^ 6"

definition never :: duration where "never = 86400 * 10 ^ 9"

record bucket =
  tb_capacity :: real
  tb_refill_per_sec :: real
  tb_tokens :: real
  tb_last :: instant
  tb_poisoned :: bool

text \<open>What a fallible step answers: a value, how long to wait, or a panic.\<close>

datatype 'a attempt = Got 'a | Later duration | Panicked

definition per_minute :: "instant \<Rightarrow> u64 \<Rightarrow> bucket" where
  "per_minute now per_min =
     (let capacity = u64_as_f64 per_min
      in \<lparr>tb_capacity = capacity, tb_refill_per_sec = fdiv capacity 60, tb_tokens = capacity,
          tb_last = now, tb_poisoned = False\<rparr>)"

definition refill :: "instant \<Rightarrow> bucket \<Rightarrow> bucket" where
  "refill now b =
     (let elapsed = as_secs_f64 (now - tb_last b)
      in if 0 < elapsed
         then b\<lparr>tb_tokens := min (fadd (tb_tokens b) (fmul elapsed (tb_refill_per_sec b))) (tb_capacity b),
                tb_last := now\<rparr>
         else b)"

text \<open>\<open>TokenBucket::wait_for\<close>; \<open>None\<close> is the panic of \<open>Duration::from_secs_f64\<close>. The quotient
  is always finite here.\<close>

definition wait_for :: "bucket \<Rightarrow> real \<Rightarrow> duration option" where
  "wait_for b deficit =
     (if tb_refill_per_sec b \<le> 0 then Some never
      else from_secs_f64 (fdiv (max deficit 0) (tb_refill_per_sec b)))"

text \<open>An error computed under the lock; a panic poisons the mutex.\<close>

definition refuse :: "bucket \<Rightarrow> real \<Rightarrow> bucket \<times> 'a attempt" where
  "refuse b deficit =
     (case wait_for b deficit of
        Some w \<Rightarrow> (b, Later w)
      | None \<Rightarrow> (b\<lparr>tb_poisoned := True\<rparr>, Panicked))"

definition locked :: "(bucket \<Rightarrow> bucket \<times> 'a attempt) \<Rightarrow> bucket \<Rightarrow> bucket \<times> 'a attempt" where
  "locked f b = (if tb_poisoned b then (b, Panicked) else f b)"

definition try_take :: "real \<Rightarrow> instant \<Rightarrow> bucket \<Rightarrow> bucket \<times> bool attempt" where
  "try_take n now = locked (\<lambda>b.
     let b = refill now b
     in if n \<le> tb_tokens b then (b\<lparr>tb_tokens := fsub (tb_tokens b) n\<rparr>, Got True)
        else refuse b (fsub n (tb_tokens b)))"

definition refund :: "real \<Rightarrow> instant \<Rightarrow> bucket \<Rightarrow> bucket \<times> bool attempt" where
  "refund n now = locked (\<lambda>b.
     let b = refill now b
     in (b\<lparr>tb_tokens := min (fadd (tb_tokens b) n) (tb_capacity b)\<rparr>, Got True))"

definition has_capacity :: "instant \<Rightarrow> bucket \<Rightarrow> bucket \<times> bool attempt" where
  "has_capacity now = locked (\<lambda>b.
     let b = refill now b
     in if 0 < tb_tokens b then (b, Got True)
        else refuse b (fadd (- tb_tokens b) f64_epsilon))"

definition debit :: "real \<Rightarrow> instant \<Rightarrow> bucket \<Rightarrow> bucket \<times> bool attempt" where
  "debit n now = locked (\<lambda>b.
     let b = refill now b
     in (b\<lparr>tb_tokens := fsub (tb_tokens b) n\<rparr>, Got True))"

section \<open>The limits of a provider\<close>

record semaphore =
  sm_total :: nat
  sm_available :: nat

record limit =
  lm_rpm :: "bucket option"
  lm_tpm :: "bucket option"
  lm_sem :: "semaphore option"

definition limit_default :: limit where
  "limit_default = \<lparr>lm_rpm = None, lm_tpm = None, lm_sem = None\<rparr>"

definition limit_from_config :: "instant \<Rightarrow> rate_limit_config \<Rightarrow> limit" where
  "limit_from_config now cfg =
     \<lparr>lm_rpm = map_option (per_minute now) (rl_requests_per_min cfg),
      lm_tpm = map_option (per_minute now) (rl_tokens_per_min cfg),
      lm_sem = map_option (\<lambda>n. \<lparr>sm_total = unat n, sm_available = unat n\<rparr>) (rl_max_concurrent cfg)\<rparr>"

definition is_unlimited :: "limit \<Rightarrow> bool" where
  "is_unlimited l \<longleftrightarrow> lm_rpm l = None \<and> lm_tpm l = None \<and> lm_sem l = None"

record provider_limits =
  pl_global :: limit
  pl_per_model :: "(string, limit) hashmap"

text \<open>A scope is the provider (\<open>None\<close>) or one of its models; a dimension one of the two buckets.\<close>

type_synonym scope = "string option"

datatype dimension = Rpm | Tpm

definition get_limit :: "scope \<Rightarrow> provider_limits \<Rightarrow> limit option" where
  "get_limit scope pl =
     (case scope of None \<Rightarrow> Some (pl_global pl) | Some m \<Rightarrow> hm_get (pl_per_model pl) m)"

definition map_limit :: "scope \<Rightarrow> (limit \<Rightarrow> limit) \<Rightarrow> provider_limits \<Rightarrow> provider_limits" where
  "map_limit scope f pl =
     (case scope of
        None \<Rightarrow> pl\<lparr>pl_global := f (pl_global pl)\<rparr>
      | Some m \<Rightarrow>
          (case hm_get (pl_per_model pl) m of
             None \<Rightarrow> pl
           | Some l \<Rightarrow> pl\<lparr>pl_per_model := hm_insert m (f l) (pl_per_model pl)\<rparr>))"

fun dim_bucket :: "dimension \<Rightarrow> limit \<Rightarrow> bucket option" where
  "dim_bucket Rpm l = lm_rpm l"
| "dim_bucket Tpm l = lm_tpm l"

fun set_dim :: "dimension \<Rightarrow> bucket \<Rightarrow> limit \<Rightarrow> limit" where
  "set_dim Rpm b l = l\<lparr>lm_rpm := Some b\<rparr>"
| "set_dim Tpm b l = l\<lparr>lm_tpm := Some b\<rparr>"

text \<open>A bucket operation where the bucket exists; \<open>Got False\<close> where the scope declares none.\<close>

definition on_bucket ::
  "dimension \<Rightarrow> scope \<Rightarrow> (bucket \<Rightarrow> bucket \<times> bool attempt) \<Rightarrow> provider_limits \<Rightarrow>
     provider_limits \<times> bool attempt" where
  "on_bucket d scope f pl =
     (case Option.bind (get_limit scope pl) (dim_bucket d) of
        None \<Rightarrow> (pl, Got False)
      | Some b \<Rightarrow> (case f b of (b', r) \<Rightarrow> (map_limit scope (set_dim d b') pl, r)))"

definition acquire :: "scope \<Rightarrow> provider_limits \<Rightarrow> provider_limits \<times> bool attempt" where
  "acquire scope pl =
     (case Option.bind (get_limit scope pl) lm_sem of
        None \<Rightarrow> (pl, Got False)
      | Some s \<Rightarrow>
          if 0 < sm_available s
          then (map_limit scope (\<lambda>l. l\<lparr>lm_sem := Some (s\<lparr>sm_available := sm_available s - 1\<rparr>)\<rparr>) pl, Got True)
          else (pl, Later concurrency_poll))"

text \<open>Dropping a permit.\<close>

definition release :: "scope \<Rightarrow> bool \<Rightarrow> provider_limits \<Rightarrow> provider_limits" where
  "release scope held pl =
     (if held
      then map_limit scope
        (\<lambda>l. l\<lparr>lm_sem := map_option (\<lambda>s. s\<lparr>sm_available := sm_available s + 1\<rparr>) (lm_sem l)\<rparr>) pl
      else pl)"

section \<open>Admission\<close>

text \<open>The \<open>?\<close> of the source, and the drop of a permit on every way out but success.\<close>

fun andthen ::
  "'s \<times> 'a attempt \<Rightarrow> ('s \<Rightarrow> 'a \<Rightarrow> 's \<times> 'b attempt) \<Rightarrow> 's \<times> 'b attempt" where
  "andthen (s, Got x) f = f s x"
| "andthen (s, Later w) f = (s, Later w)"
| "andthen (s, Panicked) f = (s, Panicked)"

definition dropping ::
  "scope \<Rightarrow> bool \<Rightarrow> provider_limits \<times> 'a attempt \<Rightarrow> provider_limits \<times> 'a attempt" where
  "dropping scope held r =
     (case r of (pl, Got x) \<Rightarrow> (pl, Got x) | (pl, other) \<Rightarrow> (release scope held pl, other))"

definition take_rpm :: "string \<Rightarrow> instant \<Rightarrow> provider_limits \<Rightarrow> provider_limits \<times> bool attempt" where
  "take_rpm model now pl =
     andthen (on_bucket Rpm None (try_take 1 now) pl) (\<lambda>pl took_global.
       case on_bucket Rpm (Some model) (try_take 1 now) pl of
         (pl, Later w) \<Rightarrow>
           if took_global
           then andthen (on_bucket Rpm None (refund 1 now) pl) (\<lambda>pl _. (pl, Later w))
           else (pl, Later w)
       | other \<Rightarrow> other)"

definition take_tokens :: "string \<Rightarrow> instant \<Rightarrow> provider_limits \<Rightarrow> provider_limits \<times> bool attempt" where
  "take_tokens model now pl =
     andthen (on_bucket Tpm None (has_capacity now) pl) (\<lambda>pl _.
     andthen (on_bucket Tpm (Some model) (has_capacity now) pl) (\<lambda>pl _.
       take_rpm model now pl))"

definition admit_entry ::
  "string \<Rightarrow> instant \<Rightarrow> provider_limits \<Rightarrow> provider_limits \<times> (bool \<times> bool) attempt" where
  "admit_entry model now pl =
     andthen (acquire None pl) (\<lambda>pl global_permit.
       dropping None global_permit
         (andthen (acquire (Some model) pl) (\<lambda>pl model_permit.
           dropping (Some model) model_permit
             (andthen (take_tokens model now pl) (\<lambda>pl _.
               (pl, Got (global_permit, model_permit)))))))"

definition debit_entry ::
  "string \<Rightarrow> u64 \<Rightarrow> instant \<Rightarrow> provider_limits \<Rightarrow> provider_limits \<times> bool attempt" where
  "debit_entry model tokens now pl =
     andthen (on_bucket Tpm None (debit (u64_as_f64 tokens) now) pl) (\<lambda>pl _.
       on_bucket Tpm (Some model) (debit (u64_as_f64 tokens) now) pl)"

section \<open>The limiter\<close>

type_synonym limits_store = "provider_limits list"

type_synonym limiter = "(string, nat) hashmap"

text \<open>The permits of an admitted request: the entry they belong to, and in which scopes.\<close>

record rate_guard =
  rg_entry :: nat
  rg_model :: string
  rg_global :: bool
  rg_per_model :: bool

definition guard_empty :: rate_guard where
  "guard_empty = \<lparr>rg_entry = 0, rg_model = [], rg_global = False, rg_per_model = False\<rparr>"

definition try_admit ::
  "limits_store \<Rightarrow> limiter \<Rightarrow> string \<Rightarrow> string \<Rightarrow> instant \<Rightarrow> limits_store \<times> rate_guard attempt" where
  "try_admit st lr provider model now =
     (case hm_get lr provider of
        None \<Rightarrow> (st, Got guard_empty)
      | Some a \<Rightarrow>
          (case admit_entry model now (st ! a) of (pl, r) \<Rightarrow>
             (st[a := pl],
              case r of
                Got (g, m) \<Rightarrow> Got \<lparr>rg_entry = a, rg_model = model, rg_global = g, rg_per_model = m\<rparr>
              | Later w \<Rightarrow> Later w
              | Panicked \<Rightarrow> Panicked)))"

definition drop_guard :: "limits_store \<Rightarrow> rate_guard \<Rightarrow> limits_store" where
  "drop_guard st g =
     (if rg_global g \<or> rg_per_model g
      then st[rg_entry g := release (Some (rg_model g)) (rg_per_model g)
                              (release None (rg_global g) (st ! rg_entry g))]
      else st)"

definition debit_tokens ::
  "limits_store \<Rightarrow> limiter \<Rightarrow> string \<Rightarrow> string \<Rightarrow> u64 \<Rightarrow> instant \<Rightarrow> limits_store \<times> bool attempt" where
  "debit_tokens st lr provider model tokens now =
     (case hm_get lr provider of
        None \<Rightarrow> (st, Got False)
      | Some a \<Rightarrow>
          (case debit_entry model tokens now (st ! a) of (pl, r) \<Rightarrow> (st[a := pl], r)))"

definition entry_from_config :: "instant \<Rightarrow> provider_config \<Rightarrow> provider_limits" where
  "entry_from_config now p =
     \<lparr>pl_global = unwrap_or limit_default (map_option (limit_from_config now) (pc_limits p)),
      pl_per_model = map (\<lambda>(m, cfg). (m, limit_from_config now cfg)) (pc_model_limits p)\<rparr>"

fun reconciled_loop ::
  "limiter \<Rightarrow> (string \<Rightarrow> bool) \<Rightarrow> instant \<Rightarrow> limits_store \<Rightarrow> limiter \<Rightarrow> provider_config list \<Rightarrow>
     limits_store \<times> limiter" where
  "reconciled_loop old unchanged now st lr [] = (st, lr)"
| "reconciled_loop old unchanged now st lr (p # ps) =
     (if unchanged (pc_name p)
      then (case hm_get old (pc_name p) of
          Some a \<Rightarrow> reconciled_loop old unchanged now st (hm_insert (pc_name p) a lr) ps
        | None \<Rightarrow> reconciled_loop old unchanged now st lr ps)
      else let e = entry_from_config now p in
        if is_unlimited (pl_global e) \<and> pl_per_model e = []
        then reconciled_loop old unchanged now st lr ps
        else reconciled_loop old unchanged now (st @ [e])
               (hm_insert (pc_name p) (length st) lr) ps)"

definition reconciled ::
  "limits_store \<Rightarrow> limiter \<Rightarrow> provider_config list \<Rightarrow> (string \<Rightarrow> bool) \<Rightarrow> instant \<Rightarrow>
     limits_store \<times> limiter" where
  "reconciled st old providers unchanged now =
     reconciled_loop old unchanged now st hm_empty providers"

definition limiter_new :: "provider_config list \<Rightarrow> instant \<Rightarrow> limits_store \<times> limiter" where
  "limiter_new providers now = reconciled [] hm_empty providers (\<lambda>_. False) now"

section \<open>Buckets behave\<close>

text \<open>What every bucket satisfies: representable numbers, never more than a full burst.\<close>

definition bucket_ok :: "bucket \<Rightarrow> bool" where
  "bucket_ok b \<longleftrightarrow> f64_rep (tb_capacity b) \<and> f64_rep (tb_tokens b) \<and>
     0 \<le> tb_capacity b \<and> tb_tokens b \<le> tb_capacity b \<and> 0 \<le> tb_refill_per_sec b"

lemma per_minute_ok: "bucket_ok (per_minute now n)"
  by (simp add: bucket_ok_def per_minute_def Let_def fdiv_nonneg)

lemma f64_rep_min: "f64_rep x \<Longrightarrow> f64_rep y \<Longrightarrow> f64_rep (min x y)"
  by (simp add: min_def)

lemma refill_ok: "bucket_ok b \<Longrightarrow> bucket_ok (refill now b)"
  by (simp add: bucket_ok_def refill_def Let_def f64_rep_min fadd_def f64.rep_rnd)

lemma refill_capacity [simp]:
  "tb_capacity (refill now b) = tb_capacity b"
  "tb_refill_per_sec (refill now b) = tb_refill_per_sec b"
  "tb_poisoned (refill now b) = tb_poisoned b"
  by (simp_all add: refill_def Let_def)

lemma refill_idem [simp]: "refill now (refill now b) = refill now b"
  by (simp add: refill_def Let_def)

lemma refill_mono_tokens:
  assumes "bucket_ok b"
  shows "tb_tokens b \<le> tb_tokens (refill now b)"
proof -
  let ?gain = "fmul (as_secs_f64 (now - tb_last b)) (tb_refill_per_sec b)"
  have "0 \<le> ?gain"
    using assms by (intro fmul_nonneg as_secs_f64_nonneg) (simp add: bucket_ok_def)
  then have "tb_tokens b \<le> fadd (tb_tokens b) ?gain"
    using assms by (simp add: bucket_ok_def fadd_def f64.rnd_add_nonneg)
  with assms show ?thesis by (simp add: refill_def Let_def bucket_ok_def)
qed

lemma refuse_Later: "refuse b d = (b', Later w) \<Longrightarrow> b' = b"
  by (auto simp: refuse_def split: option.splits)

lemma refuse_Got [simp]: "refuse b d \<noteq> (b', Got x)" "(b', Got x) \<noteq> refuse b d"
  by (auto simp: refuse_def split: option.splits)

lemma refuse_ok: "bucket_ok b \<Longrightarrow> bucket_ok (fst (refuse b d))"
  by (auto simp: refuse_def bucket_ok_def split: option.splits)

lemma try_take_Got:
  "try_take n now b = (b', Got x) \<longleftrightarrow> \<not> tb_poisoned b \<and> n \<le> tb_tokens (refill now b) \<and> x \<and>
     b' = (refill now b)\<lparr>tb_tokens := fsub (tb_tokens (refill now b)) n\<rparr>"
  by (auto simp: try_take_def locked_def Let_def)

lemma try_take_Later: "try_take n now b = (b', Later w) \<Longrightarrow> \<not> tb_poisoned b \<and> b' = refill now b"
  by (auto simp: try_take_def locked_def Let_def dest: refuse_Later split: if_splits)

lemma has_capacity_Later: "has_capacity now b = (b', Later w) \<Longrightarrow> b' = refill now b"
  by (auto simp: has_capacity_def locked_def Let_def dest: refuse_Later split: if_splits)

lemma has_capacity_Got:
  "has_capacity now b = (b', Got x) \<longleftrightarrow>
     \<not> tb_poisoned b \<and> 0 < tb_tokens (refill now b) \<and> x \<and> b' = refill now b"
  by (auto simp: has_capacity_def locked_def Let_def)

lemma bucket_ops_ok:
  assumes "bucket_ok b" "0 \<le> n"
  shows "bucket_ok (fst (try_take n now b))" "bucket_ok (fst (refund n now b))"
    "bucket_ok (fst (has_capacity now b))" "bucket_ok (fst (debit n now b))"
proof -
  have r: "bucket_ok (refill now b)" using assms(1) by (rule refill_ok)
  have sub: "bucket_ok ((refill now b)\<lparr>tb_tokens := fsub (tb_tokens (refill now b)) n\<rparr>)"
    using r assms(2) f64.rnd_sub_nonneg [of "tb_tokens (refill now b)" n]
    by (auto simp: bucket_ok_def fsub_def f64.rep_rnd)
  show "bucket_ok (fst (try_take n now b))"
    using assms(1) r sub by (simp add: try_take_def locked_def Let_def refuse_ok)
  show "bucket_ok (fst (refund n now b))"
    using assms(1) r by (simp add: refund_def locked_def Let_def bucket_ok_def f64_rep_min fadd_def f64.rep_rnd)
  show "bucket_ok (fst (has_capacity now b))"
    using assms(1) r by (simp add: has_capacity_def locked_def Let_def refuse_ok)
  show "bucket_ok (fst (debit n now b))"
    using assms(1) sub by (simp add: debit_def locked_def Let_def)
qed

text \<open>A refund at the instant of the take restores the bucket, exactly, for every capacity a
  double counts exactly.\<close>

lemma refund_exact:
  assumes "bucket_ok b" "tb_capacity b \<le> 2 ^ 53" "try_take 1 now b = (b', Got x)"
  shows "refund 1 now b' = (refill now b, Got True)"
proof -
  let ?b = "refill now b"
  from assms(3) have np: "\<not> tb_poisoned b" and one: "1 \<le> tb_tokens ?b"
    and b': "b' = ?b\<lparr>tb_tokens := fsub (tb_tokens ?b) 1\<rparr>"
    by (simp_all add: try_take_Got)
  have ok: "bucket_ok ?b" using assms(1) by (rule refill_ok)
  then have rep: "f64_rep (tb_tokens ?b)" and le: "tb_tokens ?b \<le> tb_capacity b"
    by (auto simp: bucket_ok_def)
  have restored: "fadd (fsub (tb_tokens ?b) 1) 1 = tb_tokens ?b"
    using f64.rnd_pred_succ [OF rep one] le assms(2) by (simp add: fadd_def fsub_def)
  have "refill now b' = b'"
    by (simp add: b' refill_def Let_def)
  then show ?thesis
    using np le by (simp add: refund_def locked_def Let_def b' restored min_absorb1)
qed

section \<open>Admission takes all or nothing\<close>

text \<open>Two projections describe an entry: its permits and its buckets, per scope.\<close>

definition sem_at :: "scope \<Rightarrow> provider_limits \<Rightarrow> semaphore option" where
  "sem_at scope pl = Option.bind (get_limit scope pl) lm_sem"

definition bucket_at :: "dimension \<Rightarrow> scope \<Rightarrow> provider_limits \<Rightarrow> bucket option" where
  "bucket_at d scope pl = Option.bind (get_limit scope pl) (dim_bucket d)"

lemma get_limit_map:
  "get_limit s (map_limit s' f pl) = (if s = s' then map_option f (get_limit s pl) else get_limit s pl)"
  by (cases s; cases s') (auto simp: get_limit_def map_limit_def hm_get_insert split: option.splits)

lemma dim_set_dim [simp]: "dim_bucket d (set_dim d' b l) = (if d = d' then Some b else dim_bucket d l)"
  by (cases d; cases d') auto

lemma sem_set_dim [simp]: "lm_sem (set_dim d b l) = lm_sem l"
  by (cases d) auto

lemma sem_at_set_dim [simp]: "sem_at s (map_limit s' (set_dim d b) pl) = sem_at s pl"
  by (cases "get_limit s pl") (auto simp: sem_at_def get_limit_map)

lemma bucket_at_set_dim:
  assumes "bucket_at d' s' pl \<noteq> None"
  shows "bucket_at d s (map_limit s' (set_dim d' b) pl) =
    (if d = d' \<and> s = s' then Some b else bucket_at d s pl)"
  using assms by (cases "get_limit s pl") (auto simp: bucket_at_def get_limit_map)

lemma dim_bucket_sem [simp]: "dim_bucket d (l\<lparr>lm_sem := x\<rparr>) = dim_bucket d l"
  by (cases d) auto

lemma on_bucket_at:
  "on_bucket d s f pl =
     (case bucket_at d s pl of
        None \<Rightarrow> (pl, Got False)
      | Some b \<Rightarrow> (map_limit s (set_dim d (fst (f b))) pl, snd (f b)))"
  by (auto simp: on_bucket_def bucket_at_def split: option.splits prod.splits)

lemma on_bucket_sem [simp]: "sem_at s' (fst (on_bucket d s f pl)) = sem_at s' pl"
  by (auto simp: on_bucket_at split: option.splits)

lemma on_bucket_semD: "on_bucket d s f pl = (pl', r) \<Longrightarrow> sem_at s' pl' = sem_at s' pl"
  by (metis fst_conv on_bucket_sem)

text \<open>Permits: \<open>acquire\<close> and \<open>release\<close> move one, and touch no bucket.\<close>

definition shift_sem :: "(nat \<Rightarrow> nat) \<Rightarrow> semaphore option \<Rightarrow> semaphore option" where
  "shift_sem f = map_option (\<lambda>s. s\<lparr>sm_available := f (sm_available s)\<rparr>)"

lemma acquire_Got:
  assumes "acquire s pl = (pl', Got x)"
  shows "x = (sem_at s pl \<noteq> None)"
    and "sem_at s' pl' = (if s' = s then shift_sem (\<lambda>n. n - 1) (sem_at s' pl) else sem_at s' pl)"
    and "bucket_at d s' pl' = bucket_at d s' pl"
    and "is_none_or (\<lambda>sm. 0 < sm_available sm) (sem_at s pl)"
proof -
  show "x = (sem_at s pl \<noteq> None)" "is_none_or (\<lambda>sm. 0 < sm_available sm) (sem_at s pl)"
    using assms by (auto simp: acquire_def sem_at_def split: option.splits if_splits)
  show "sem_at s' pl' = (if s' = s then shift_sem (\<lambda>n. n - 1) (sem_at s' pl) else sem_at s' pl)"
    using assms
    by (auto simp: acquire_def sem_at_def shift_sem_def get_limit_map bind_eq_Some_conv
        split: option.splits if_splits)
  show "bucket_at d s' pl' = bucket_at d s' pl"
    using assms
    by (cases "get_limit s' pl")
      (auto simp: acquire_def bucket_at_def get_limit_map split: option.splits if_splits)
qed

lemma acquire_Later: "acquire s pl = (pl', Later w) \<Longrightarrow> pl' = pl"
  by (auto simp: acquire_def split: option.splits if_splits)

lemma acquire_no_panic [simp]: "acquire s pl \<noteq> (pl', Panicked)"
  by (auto simp: acquire_def split: option.splits if_splits)

lemma release_sem:
  "sem_at s' (release s held pl) =
     (if held \<and> s' = s then shift_sem (\<lambda>n. n + 1) (sem_at s' pl) else sem_at s' pl)"
  by (cases "get_limit s' pl") (auto simp: release_def sem_at_def shift_sem_def get_limit_map)

lemma release_bucket [simp]: "bucket_at d s' (release s held pl) = bucket_at d s' pl"
  by (cases "get_limit s' pl") (auto simp: release_def bucket_at_def get_limit_map)

lemma shift_inverse:
  "is_none_or (\<lambda>sm. 0 < sm_available sm) x \<Longrightarrow>
     shift_sem (\<lambda>n. n + 1) (shift_sem (\<lambda>n. n - 1) x) = x"
  by (cases x) (auto simp: shift_sem_def)

lemma shift_None [simp]: "shift_sem f None = None"
  by (simp add: shift_sem_def)

lemma andthen_cases:
  assumes "andthen r f = (s', x)"
  obtains (got) s a where "r = (s, Got a)" "f s a = (s', x)"
  | (later) w where "r = (s', Later w)" "x = Later w"
  | (panic) "r = (s', Panicked)" "x = Panicked"
  using assms by (cases "(r, f)" rule: andthen.cases) auto

text \<open>What a step may do to the buckets without consuming anything: top them up.\<close>

definition topped :: "instant \<Rightarrow> bucket \<Rightarrow> bucket \<Rightarrow> bool" where
  "topped now b b' \<longleftrightarrow> b' = b \<or> b' = refill now b"

definition same_buckets :: "instant \<Rightarrow> provider_limits \<Rightarrow> provider_limits \<Rightarrow> bool" where
  "same_buckets now pl pl' \<longleftrightarrow>
     (\<forall>d s. rel_option (topped now) (bucket_at d s pl) (bucket_at d s pl'))"

lemma topped_refl [simp]: "topped now b b"
  by (simp add: topped_def)

lemma topped_trans: "topped now a b \<Longrightarrow> topped now b c \<Longrightarrow> topped now a c"
  by (auto simp: topped_def)

lemma same_buckets_refl [simp]: "same_buckets now pl pl"
  by (auto simp: same_buckets_def intro: option.rel_refl)

lemma same_buckets_trans:
  assumes "same_buckets now a b" "same_buckets now b c"
  shows "same_buckets now a c"
  unfolding same_buckets_def
proof (intro allI)
  fix d s
  from assms have "rel_option (topped now) (bucket_at d s a) (bucket_at d s b)"
    and "rel_option (topped now) (bucket_at d s b) (bucket_at d s c)"
    by (simp_all add: same_buckets_def)
  then show "rel_option (topped now) (bucket_at d s a) (bucket_at d s c)"
    by (cases "bucket_at d s a"; cases "bucket_at d s b"; cases "bucket_at d s c")
      (auto intro: topped_trans)
qed

lemma same_buckets_eq:
  "(\<And>d s. bucket_at d s pl' = bucket_at d s pl) \<Longrightarrow> same_buckets now pl pl'"
  by (simp add: same_buckets_def option.rel_refl)

lemma same_buckets_set:
  assumes "bucket_at d s pl = Some b" "topped now b b'"
  shows "same_buckets now pl (map_limit s (set_dim d b') pl)"
  using assms by (auto simp: same_buckets_def bucket_at_set_dim option.rel_refl)

lemma on_bucket_topped:
  assumes "on_bucket d s f pl = (pl', r)"
    and "\<And>b. bucket_at d s pl = Some b \<Longrightarrow> snd (f b) = r \<Longrightarrow> topped now b (fst (f b))"
  shows "same_buckets now pl pl'"
  using assms by (auto simp: on_bucket_at intro: same_buckets_set split: option.splits)

definition entry_ok :: "provider_limits \<Rightarrow> bool" where
  "entry_ok pl \<longleftrightarrow>
     (\<forall>d s b. bucket_at d s pl = Some b \<longrightarrow> bucket_ok b \<and> tb_capacity b \<le> 2 ^ 53)"

lemma try_take_snd: "snd (try_take n now b) = Later w \<Longrightarrow> fst (try_take n now b) = refill now b"
  by (metis prod.collapse try_take_Later)

lemma has_capacity_snd:
  "snd (has_capacity now b) = Later w \<Longrightarrow> fst (has_capacity now b) = refill now b"
  "snd (has_capacity now b) = Got x \<Longrightarrow> fst (has_capacity now b) = refill now b"
  by (metis prod.collapse has_capacity_Later) (metis prod.collapse has_capacity_Got)

lemma take_rpm_model_Later:
  assumes "on_bucket Rpm (Some model) (try_take 1 now) pl = (pl', Later w)"
  shows "bucket_at d s pl' =
      (if d = Rpm \<and> s = Some model then map_option (refill now) (bucket_at d s pl) else bucket_at d s pl)"
  using assms
  by (auto simp: on_bucket_at bucket_at_set_dim split: option.splits dest: try_take_snd)

lemma take_rpm_Later:
  assumes ok: "entry_ok pl" and rej: "take_rpm model now pl = (pl', Later w)"
  shows "same_buckets now pl pl'"
  using rej unfolding take_rpm_def
proof (cases rule: andthen_cases)
  case (got pl1 took)
  show ?thesis
  proof (cases "bucket_at Rpm None pl")
    case None
    with got(1) have "pl1 = pl" "\<not> took" by (auto simp: on_bucket_at)
    with got(2) have "on_bucket Rpm (Some model) (try_take 1 now) pl = (pl', Later w)"
      by (auto split: prod.splits attempt.splits)
    then show ?thesis by (rule on_bucket_topped) (auto simp: topped_def dest: try_take_snd)
  next
    case (Some b)
    from got(1) Some have t: "try_take 1 now b = (fst (try_take 1 now b), Got took)" and
      pl1: "pl1 = map_limit None (set_dim Rpm (fst (try_take 1 now b))) pl"
      by (auto simp: on_bucket_at prod_eq_iff)
    then have "took" by (simp add: try_take_Got)
    from ok Some have "bucket_ok b" "tb_capacity b \<le> 2 ^ 53" by (auto simp: entry_ok_def)
    from refund_exact [OF this t]
    have r: "refund 1 now (fst (try_take 1 now b)) = (refill now b, Got True)" .
    from got(2) \<open>took\<close> obtain pl2 w2 where
      pl2: "on_bucket Rpm (Some model) (try_take 1 now) pl1 = (pl2, Later w2)"
      and undo: "andthen (on_bucket Rpm None (refund 1 now) pl2) (\<lambda>pl _. (pl, Later w2)) = (pl', Later w :: bool attempt)"
      by (auto split: prod.splits attempt.splits if_splits)
    have b1: "bucket_at d s pl1 =
        (if d = Rpm \<and> s = None then Some (fst (try_take 1 now b)) else bucket_at d s pl)" for d s
      by (auto simp: pl1 bucket_at_set_dim Some)
    note b2 = take_rpm_model_Later [OF pl2]
    from b1 b2 have "bucket_at Rpm None pl2 = Some (fst (try_take 1 now b))" by simp
    with undo r have pl': "pl' = map_limit None (set_dim Rpm (refill now b)) pl2"
      by (auto simp: on_bucket_at)
    have "bucket_at Rpm None pl2 \<noteq> None" using b1 b2 by simp
    note b3 = bucket_at_set_dim [OF this, of _ _ "refill now b", folded pl']
    have "rel_option (topped now) (bucket_at d s pl) (bucket_at d s pl')" for d s
      by (cases s; cases "bucket_at d s pl") (auto simp: b3 b2 b1 Some topped_def)
    then show ?thesis by (simp add: same_buckets_def)
  qed
next
  case (later w')
  then show ?thesis
    by (auto intro!: on_bucket_topped [OF later(1)] simp: topped_def dest: try_take_snd)
qed simp

lemma same_buckets_ok:
  assumes "same_buckets now pl pl'" "entry_ok pl"
  shows "entry_ok pl'"
  unfolding entry_ok_def
proof (intro allI impI)
  fix d s b'
  assume "bucket_at d s pl' = Some b'"
  moreover from assms(1) have "rel_option (topped now) (bucket_at d s pl) (bucket_at d s pl')"
    by (simp add: same_buckets_def)
  ultimately obtain b where "bucket_at d s pl = Some b" "topped now b b'"
    by (cases "bucket_at d s pl") auto
  with assms(2) show "bucket_ok b' \<and> tb_capacity b' \<le> 2 ^ 53"
    by (auto simp: entry_ok_def topped_def refill_ok)
qed

lemma floor_topped_Later:
  "on_bucket Tpm s (has_capacity now) pl = (pl', Later w) \<Longrightarrow> same_buckets now pl pl'"
  by (erule on_bucket_topped) (auto simp: topped_def dest: has_capacity_snd)

lemma floor_topped_Got:
  "on_bucket Tpm s (has_capacity now) pl = (pl', Got x) \<Longrightarrow> same_buckets now pl pl'"
  by (erule on_bucket_topped) (auto simp: topped_def dest: has_capacity_snd)

lemma take_tokens_Later:
  assumes "entry_ok pl" "take_tokens model now pl = (pl', Later w)"
  shows "same_buckets now pl pl'"
  using assms(2) unfolding take_tokens_def
proof (cases rule: andthen_cases)
  case (got pl1 x)
  from floor_topped_Got [OF got(1)] have s1: "same_buckets now pl pl1" .
  from got(2) show ?thesis
  proof (cases rule: andthen_cases)
    case (got pl2 y)
    from floor_topped_Got [OF got(1)] have s2: "same_buckets now pl1 pl2" .
    have "entry_ok pl2" by (intro same_buckets_ok [OF s2] same_buckets_ok [OF s1] assms(1))
    from take_rpm_Later [OF this got(2)] s1 s2 show ?thesis
      by (blast intro: same_buckets_trans)
  qed (use s1 floor_topped_Later in \<open>auto intro: same_buckets_trans\<close>)
qed (auto dest: floor_topped_Later)

lemma andthen_sem:
  assumes "\<And>pl a. sem_at s (fst (f pl a)) = sem_at s pl"
  shows "sem_at s (fst (andthen r f)) = sem_at s (fst r)"
  using assms by (cases "(r, f)" rule: andthen.cases) auto

lemma take_tokens_sem: "sem_at s (fst (take_tokens model now pl)) = sem_at s pl"
proof -
  have "sem_at s (fst (take_rpm model now pl)) = sem_at s pl" for pl
  proof -
    have "sem_at s (fst (case on_bucket Rpm (Some model) (try_take 1 now) pl of
         (pl, Later w) \<Rightarrow>
           if took
           then andthen (on_bucket Rpm None (refund 1 now) pl) (\<lambda>pl _. (pl, Later w))
           else (pl, Later w)
       | other \<Rightarrow> other)) = sem_at s pl" for pl took
      by (auto split: prod.splits attempt.splits simp: andthen_sem dest: on_bucket_semD)
    then show ?thesis unfolding take_rpm_def by (subst andthen_sem) simp_all
  qed
  then show ?thesis
    unfolding take_tokens_def by (subst andthen_sem; (subst andthen_sem)?; simp)
qed

text \<open>The whole admission: what it does to the permits on each outcome.\<close>

lemma dropping_cases:
  assumes "dropping s held r = (pl', x)"
  obtains (got) a where "r = (pl', Got a)" "x = Got a"
  | (failed) pl y where "r = (pl, y)" "x = y" "pl' = release s held pl" "\<forall>a. y \<noteq> Got a"
  using assms by (cases r; cases "snd r") (auto simp: dropping_def)

lemma admit_entry_cases:
  assumes "admit_entry model now pl = (pl', r)"
  obtains (full) w where "acquire None pl = (pl', Later w)" "r = Later w"
  | (model_full) pl1 pl2 g w where "acquire None pl = (pl1, Got g)"
      "acquire (Some model) pl1 = (pl2, Later w)" "r = Later w" "pl' = release None g pl2"
  | (refused) pl1 pl2 pl3 g m r' w where "acquire None pl = (pl1, Got g)"
      "acquire (Some model) pl1 = (pl2, Got m)" "take_tokens model now pl2 = (pl3, r')"
      "pl' = release None g (release (Some model) m pl3)"
      "r' = Later w \<and> r = Later w \<or> r' = Panicked \<and> r = Panicked"
  | (admitted) pl1 pl2 g m x where "acquire None pl = (pl1, Got g)"
      "acquire (Some model) pl1 = (pl2, Got m)" "take_tokens model now pl2 = (pl', Got x)"
      "r = Got (g, m)"
  using assms
  by (auto simp: admit_entry_def dropping_def elim!: andthen_cases
      split: prod.splits attempt.splits)

lemma admit_sem:
  assumes "admit_entry model now pl = (pl', r)"
  shows "(case r of
      Got (g, m) \<Rightarrow> g = (sem_at None pl \<noteq> None) \<and> m = (sem_at (Some model) pl \<noteq> None) \<and>
        sem_at s pl' = (if s = None \<or> s = Some model
          then shift_sem (\<lambda>n. n - 1) (sem_at s pl) else sem_at s pl) \<and>
        (s = None \<or> s = Some model \<longrightarrow> is_none_or (\<lambda>sm. 0 < sm_available sm) (sem_at s pl))
    | _ \<Rightarrow> sem_at s pl' = sem_at s pl)"
  using assms
proof (cases rule: admit_entry_cases)
  case (full w)
  then show ?thesis using acquire_Later [OF full(1)] by simp
next
  case (model_full pl1 pl2 g w)
  note a = acquire_Got [OF model_full(1)]
  from model_full acquire_Later [OF model_full(2)] show ?thesis
    using a(1) a(2) [of s] shift_inverse [OF a(4)]
    by (cases "sem_at None pl") (auto simp: release_sem)
next
  case (refused pl1 pl2 pl3 g m r' w)
  note a = acquire_Got [OF refused(1)] and b = acquire_Got [OF refused(2)]
  have c: "sem_at s pl3 = sem_at s pl2"
    using take_tokens_sem [of s model now pl2] refused(3) by simp
  have "sem_at s pl' = sem_at s pl"
    using a(1) a(2) [of s] a(2) [of "Some model"] shift_inverse [OF a(4)] b(1) b(2) [of s]
      shift_inverse [OF b(4)] c
    by (cases "sem_at None pl"; cases "sem_at (Some model) pl") (auto simp: refused(4) release_sem)
  with refused(5) show ?thesis by auto
next
  case (admitted pl1 pl2 g m x)
  note a = acquire_Got [OF admitted(1)] and b = acquire_Got [OF admitted(2)]
  have "sem_at s pl' = sem_at s pl2"
    using take_tokens_sem [of s model now pl2] admitted(3) by simp
  then show ?thesis
    using a(1) a(2) [of s] a(2) [of "Some model"] a(4) b(1) b(2) [of s] b(4)
    by (auto simp: admitted(4))
qed

lemma acquire_same_buckets: "acquire s pl = (pl', Got x) \<Longrightarrow> same_buckets now pl pl'"
  by (rule same_buckets_eq) (rule acquire_Got(3))

lemma admit_Later_buckets:
  assumes "admit_entry model now pl = (pl', Later w)" "entry_ok pl"
  shows "same_buckets now pl pl'"
  using assms(1)
proof (cases rule: admit_entry_cases)
  case (full w')
  then show ?thesis using acquire_Later [OF full(1)] by simp
next
  case (model_full pl1 pl2 g w')
  have "same_buckets now pl pl1" using model_full(1) by (rule acquire_same_buckets)
  moreover have "same_buckets now pl1 pl'"
    using acquire_Later [OF model_full(2)] by (intro same_buckets_eq) (simp add: model_full(4))
  ultimately show ?thesis by (rule same_buckets_trans)
next
  case (refused pl1 pl2 pl3 g m r' w')
  have s2: "same_buckets now pl pl2"
    using refused(1,2) by (blast intro: acquire_same_buckets same_buckets_trans)
  then have "entry_ok pl2" using assms(2) by (rule same_buckets_ok)
  with refused(3,5) have "same_buckets now pl2 pl3" by (auto intro: take_tokens_Later)
  moreover have "same_buckets now pl3 pl'"
    by (intro same_buckets_eq) (simp add: refused(4))
  ultimately show ?thesis using s2 by (blast intro: same_buckets_trans)
qed simp

definition store_ok :: "limits_store \<Rightarrow> bool" where
  "store_ok st \<longleftrightarrow> (\<forall>i < length st. entry_ok (st ! i))"

text \<open>
  admission is all or nothing. A request that is turned away leaves no trace: every
  concurrency permit is back, and every bucket holds exactly what it held (or what lazily
  topping it up at that instant gives), the global request token taken before the model's was
  refused included; the \<open>f64\<close> refund is exact. Holds for every configured rate up to
  \<open>2 ^ 53\<close> a minute, beyond which a double no longer counts single tokens.
\<close>

theorem rejected_leaves_nothing:
  assumes "try_admit st lr provider model now = (st', Later w)" "store_ok st"
  shows "length st' = length st \<and>
    (\<forall>i < length st. (\<forall>s. sem_at s (st' ! i) = sem_at s (st ! i)) \<and>
      (\<forall>d s b. bucket_at d s (st ! i) = Some b \<longrightarrow>
        bucket_at d s (st' ! i) = Some b \<or> bucket_at d s (st' ! i) = Some (refill now b)))"
proof -
  from assms(1) obtain a pl' where a: "hm_get lr provider = Some a"
    and e: "admit_entry model now (st ! a) = (pl', Later w)" and st': "st' = st[a := pl']"
    by (auto simp: try_admit_def split: option.splits prod.splits attempt.splits)
  have sem: "sem_at s pl' = sem_at s (st ! a)" for s
    using admit_sem [OF e, of s] by simp
  have buckets: "bucket_at d s pl' = Some b \<or> bucket_at d s pl' = Some (refill now b)"
    if "a < length st" "bucket_at d s (st ! a) = Some b" for d s b
  proof -
    from that(1) assms(2) have "entry_ok (st ! a)" by (simp add: store_ok_def)
    with e have "same_buckets now (st ! a) pl'" by (intro admit_Later_buckets)
    then have "rel_option (topped now) (bucket_at d s (st ! a)) (bucket_at d s pl')"
      by (simp add: same_buckets_def)
    with that(2) show ?thesis by (cases "bucket_at d s pl'") (auto simp: topped_def)
  qed
  show ?thesis
  proof (intro conjI allI impI)
    show "length st' = length st" by (simp add: st')
  next
    fix i s
    assume "i < length st"
    with sem show "sem_at s (st' ! i) = sem_at s (st ! i)"
      by (cases "i = a") (simp_all add: st')
  next
    fix i d s b
    assume "i < length st" "bucket_at d s (st ! i) = Some b"
    with buckets show "bucket_at d s (st' ! i) = Some b \<or>
        bucket_at d s (st' ! i) = Some (refill now b)"
      by (cases "i = a") (simp_all add: st')
  qed
qed

definition ex_limits :: provider_limits where
  "ex_limits =
     \<lparr>pl_global = \<lparr>lm_rpm = Some (per_minute 0 10), lm_tpm = None,
        lm_sem = Some \<lparr>sm_total = 2, sm_available = 2\<rparr>\<rparr>,
      pl_per_model = [(''m'', \<lparr>lm_rpm = Some (per_minute 0 0), lm_tpm = None, lm_sem = None\<rparr>)]\<rparr>"

lemma per_minute_capacity:
  assumes "unat n \<le> 2 ^ 53"
  shows "tb_capacity (per_minute now n) \<le> 2 ^ 53"
proof -
  have "real (unat n) \<le> real (2 ^ 53)"
    using assms by (simp only: of_nat_le_iff)
  with assms show ?thesis by (simp add: per_minute_def Let_def u64_as_f64_exact)
qed

lemma ex_limits_ok: "entry_ok ex_limits"
  unfolding entry_ok_def
proof (intro allI impI)
  fix d s b
  assume "bucket_at d s ex_limits = Some b"
  then have "b = per_minute 0 10 \<or> b = per_minute 0 0"
    by (cases d; cases s)
      (auto simp: bucket_at_def get_limit_def ex_limits_def hm_get_def split: if_splits)
  then show "bucket_ok b \<and> tb_capacity b \<le> 2 ^ 53"
    using per_minute_capacity [of 10 0] per_minute_capacity [of 0 0] by (auto simp: per_minute_ok)
qed

lemma ex_limits_rejects: "\<exists>pl'. admit_entry ''m'' 0 ex_limits = (pl', Later never)"
proof -
  have ten: "u64_as_f64 10 = 10" using u64_as_f64_exact [of 10] by simp
  have zero: "u64_as_f64 0 = 0" using u64_as_f64_exact [of 0] by simp
  have full: "tb_tokens (refill 0 (per_minute 0 10)) = 10"
    "tb_tokens (refill 0 (per_minute 0 0)) = 0" "tb_refill_per_sec (per_minute 0 0) = 0"
    "\<not> tb_poisoned (per_minute 0 n)" for n
    by (simp_all add: refill_def per_minute_def Let_def ten zero fdiv_def)
  have take: "try_take 1 0 (per_minute 0 10) =
      ((refill 0 (per_minute 0 10))\<lparr>tb_tokens := fsub 10 1\<rparr>, Got True)"
    by (simp add: try_take_def locked_def Let_def full)
  have refuse: "try_take 1 0 (per_minute 0 0) = (refill 0 (per_minute 0 0), Later never)"
    by (simp add: try_take_def locked_def Let_def full refuse_def wait_for_def)
  show ?thesis
    by (simp add: admit_entry_def acquire_def take_tokens_def take_rpm_def on_bucket_def
        get_limit_def map_limit_def ex_limits_def hm_get_def hm_insert_def take refuse
        dropping_def refund_def locked_def full Let_def)
qed

theorem rejected_leaves_nothing_witness:
  "\<exists>st'. try_admit [ex_limits] [(''p'', 0)] ''p'' ''m'' 0 = (st', Later never) \<and>
     sem_at None (st' ! 0) = sem_at None ex_limits"
proof -
  obtain pl' where "admit_entry ''m'' 0 ex_limits = (pl', Later never)"
    using ex_limits_rejects by blast
  then have t: "try_admit [ex_limits] [(''p'', 0)] ''p'' ''m'' 0 = ([pl'], Later never)"
    by (simp add: try_admit_def hm_get_def)
  have "store_ok [ex_limits]" by (simp add: store_ok_def ex_limits_ok)
  from rejected_leaves_nothing [OF t this] t show ?thesis by auto
qed

section \<open>Permits are conserved\<close>

text \<open>
  Requests, debits and topology swaps over one store of entries. A request in flight holds its
  guard until its stream ends; it may still use the limiter of an earlier topology. An
  admission is one step: each of its locks and semaphores is taken in turn, and what it takes
  and gives back on the way does not outlive it.
\<close>

record flow =
  fl_store :: limits_store
  fl_limiters :: "limiter list"
  fl_guards :: "rate_guard list"

inductive flow_step :: "flow \<Rightarrow> flow \<Rightarrow> bool" where
  admit: "lr \<in> set (fl_limiters s) \<Longrightarrow> try_admit (fl_store s) lr provider model now = (st, Got g) \<Longrightarrow>
    flow_step s (s\<lparr>fl_store := st, fl_guards := g # fl_guards s\<rparr>)"
| reject: "lr \<in> set (fl_limiters s) \<Longrightarrow> try_admit (fl_store s) lr provider model now = (st, r) \<Longrightarrow>
    \<forall>g. r \<noteq> Got g \<Longrightarrow> flow_step s (s\<lparr>fl_store := st\<rparr>)"
| finish: "g \<in> set (fl_guards s) \<Longrightarrow>
    flow_step s (s\<lparr>fl_store := drop_guard (fl_store s) g, fl_guards := remove1 g (fl_guards s)\<rparr>)"
| charge: "lr \<in> set (fl_limiters s) \<Longrightarrow>
    debit_tokens (fl_store s) lr provider model tokens now = (st, r) \<Longrightarrow>
    flow_step s (s\<lparr>fl_store := st\<rparr>)"
| swap: "fl_limiters s = old # older \<Longrightarrow>
    reconciled (fl_store s) old providers unchanged now = (st, lr) \<Longrightarrow>
    flow_step s (s\<lparr>fl_store := st, fl_limiters := lr # fl_limiters s\<rparr>)"

definition flow_init :: "provider_config list \<Rightarrow> instant \<Rightarrow> flow" where
  "flow_init providers now =
     (case limiter_new providers now of (st, lr) \<Rightarrow>
        \<lparr>fl_store = st, fl_limiters = [lr], fl_guards = []\<rparr>)"

inductive flow_reachable :: "provider_config list \<Rightarrow> instant \<Rightarrow> flow \<Rightarrow> bool" for providers now where
  init: "flow_reachable providers now (flow_init providers now)"
| step: "flow_reachable providers now s \<Longrightarrow> flow_step s s' \<Longrightarrow> flow_reachable providers now s'"

definition holds :: "nat \<Rightarrow> scope \<Rightarrow> rate_guard \<Rightarrow> bool" where
  "holds i s g \<longleftrightarrow> rg_entry g = i \<and>
     (case s of None \<Rightarrow> rg_global g | Some m \<Rightarrow> rg_per_model g \<and> rg_model g = m)"

definition holders :: "nat \<Rightarrow> scope \<Rightarrow> rate_guard list \<Rightarrow> nat" where
  "holders i s gs = length (filter (holds i s) gs)"

definition flow_inv :: "flow \<Rightarrow> bool" where
  "flow_inv f \<longleftrightarrow>
     (\<forall>lr \<in> set (fl_limiters f). \<forall>(p, a) \<in> set lr. a < length (fl_store f)) \<and>
     (\<forall>i < length (fl_store f). \<forall>s sm. sem_at s (fl_store f ! i) = Some sm \<longrightarrow>
        sm_available sm + holders i s (fl_guards f) = sm_total sm) \<and>
     (\<forall>g \<in> set (fl_guards f). \<forall>i s. holds i s g \<longrightarrow>
        i < length (fl_store f) \<and> sem_at s (fl_store f ! i) \<noteq> None)"

lemma holders_Cons: "holders i s (g # gs) = (if holds i s g then 1 else 0) + holders i s gs"
  by (simp add: holders_def)

lemma holders_remove1:
  "g \<in> set gs \<Longrightarrow> holders i s gs = (if holds i s g then 1 else 0) + holders i s (remove1 g gs)"
  by (induction gs) (auto simp: holders_def)

lemma debit_entry_sem: "sem_at s (fst (debit_entry model n now pl)) = sem_at s pl"
  unfolding debit_entry_def by (subst andthen_sem) simp_all

lemma drop_guard_at:
  assumes "i < length st"
  shows "sem_at s (drop_guard st g ! i) =
    (if holds i s g then shift_sem (\<lambda>n. n + 1) (sem_at s (st ! i)) else sem_at s (st ! i))"
  using assms
  by (cases "rg_entry g = i"; cases s) (auto simp: drop_guard_def holds_def release_sem)

lemma limit_from_config_sem: "lm_sem (limit_from_config now c) = Some sm \<Longrightarrow> sm_available sm = sm_total sm"
  by (auto simp: limit_from_config_def)

lemma entry_from_config_sem:
  assumes "sem_at s (entry_from_config now p) = Some sm"
  shows "sm_available sm = sm_total sm"
proof -
  have "\<exists>c. lm_sem (limit_from_config now c) = Some sm"
  proof (cases s)
    case None
    with assms show ?thesis
      by (cases "pc_limits p")
        (auto simp: sem_at_def get_limit_def entry_from_config_def limit_default_def)
  next
    case (Some m)
    with assms show ?thesis
      by (auto simp: sem_at_def get_limit_def entry_from_config_def hm_get_def bind_eq_Some_conv
          map_of_map)
  qed
  then show ?thesis using limit_from_config_sem by blast
qed

definition fresh_entries :: "limits_store \<Rightarrow> limits_store \<Rightarrow> limiter \<Rightarrow> bool" where
  "fresh_entries st st' lr \<longleftrightarrow>
     (\<exists>new. st' = st @ new \<and>
        (\<forall>e \<in> set new. \<forall>s sm. sem_at s e = Some sm \<longrightarrow> sm_available sm = sm_total sm)) \<and>
     (\<forall>(p, a) \<in> set lr. a < length st')"

lemma reconciled_loop_fresh:
  assumes "\<forall>(p, a) \<in> set old. a < length st" "\<forall>(p, a) \<in> set lr. a < length st"
  shows "fresh_entries st (fst (reconciled_loop old unchanged now st lr ps))
           (snd (reconciled_loop old unchanged now st lr ps))"
  using assms
proof (induction old unchanged now st lr ps rule: reconciled_loop.induct)
  case (1 old unchanged now st lr)
  then show ?case by (simp add: fresh_entries_def)
next
  case (2 old unchanged now st lr p ps)
  let ?e = "entry_from_config now p"
  have ins: "\<forall>(p, a) \<in> set (hm_insert n a' lr). a < length st'"
    if "a' < length st'" "length st \<le> length st'" for n a' and st' :: limits_store
    using that "2.prems"(2) set_update_subset [of n a' lr]
    by (fastforce simp: hm_insert_def)
  consider (keep) a where "unchanged (pc_name p)" "hm_get old (pc_name p) = Some a"
    | (none) "unchanged (pc_name p)" "hm_get old (pc_name p) = None"
    | (skip) "\<not> unchanged (pc_name p)" "is_unlimited (pl_global ?e) \<and> pl_per_model ?e = []"
    | (new) "\<not> unchanged (pc_name p)" "\<not> (is_unlimited (pl_global ?e) \<and> pl_per_model ?e = [])"
    by (cases "hm_get old (pc_name p)") auto
  then show ?case
  proof cases
    case keep
    then have "a < length st" using "2.prems"(1) hm_get_Some_in by fastforce
    with keep 2(2) [OF keep] "2.prems" ins [of a st] show ?thesis by simp
  next
    case none
    with 2(1) [OF none] "2.prems" show ?thesis by simp
  next
    case skip
    with 2(3) [OF skip(1) refl skip(2)] "2.prems" show ?thesis by (simp add: Let_def)
  next
    case new
    have "\<forall>(p, a) \<in> set old. a < length (st @ [?e])"
      using "2.prems"(1) by fastforce
    from 2(4) [OF new(1) refl new(2) this ins]
    have "fresh_entries (st @ [?e])
        (fst (reconciled_loop old unchanged now (st @ [?e]) (hm_insert (pc_name p) (length st) lr) ps))
        (snd (reconciled_loop old unchanged now (st @ [?e]) (hm_insert (pc_name p) (length st) lr) ps))"
      by simp
    moreover have "reconciled_loop old unchanged now st lr (p # ps) =
        reconciled_loop old unchanged now (st @ [?e]) (hm_insert (pc_name p) (length st) lr) ps"
      by (simp only: reconciled_loop.simps Let_def new if_False)
    ultimately have "fresh_entries (st @ [?e])
        (fst (reconciled_loop old unchanged now st lr (p # ps)))
        (snd (reconciled_loop old unchanged now st lr (p # ps)))"
      by simp
    then show ?thesis
      using entry_from_config_sem by (fastforce simp: fresh_entries_def)
  qed
qed

lemma flow_inv_init: "flow_inv (flow_init providers now)"
proof -
  obtain st lr where e: "limiter_new providers now = (st, lr)" by (cases "limiter_new providers now")
  have "fresh_entries [] st lr"
    using reconciled_loop_fresh [of hm_empty "[]" hm_empty "\<lambda>_. False" now providers] e
    by (simp add: limiter_new_def reconciled_def hm_empty_def)
  then show ?thesis
    by (auto simp: flow_init_def e flow_inv_def fresh_entries_def holders_def dest: nth_mem)
qed

lemma admit_holds:
  assumes "hm_get lr provider = Some a" "try_admit st lr provider model now = (st', Got g)"
    and "a < length st" "i < length st"
  shows "sem_at s (st' ! i) =
      (if holds i s g then shift_sem (\<lambda>n. n - 1) (sem_at s (st ! i)) else sem_at s (st ! i))"
    and "holds i s g \<Longrightarrow> \<exists>sm. sem_at s (st ! i) = Some sm \<and> 0 < sm_available sm"
    and "length st' = length st" and "holds j s g \<Longrightarrow> j = a"
proof -
  from assms(1,2) obtain pl gp mp where e: "admit_entry model now (st ! a) = (pl, Got (gp, mp))"
    and st': "st' = st[a := pl]"
    and g: "g = \<lparr>rg_entry = a, rg_model = model, rg_global = gp, rg_per_model = mp\<rparr>"
    by (auto simp: try_admit_def split: prod.splits attempt.splits)
  note sem = admit_sem [OF e, simplified]
  show "length st' = length st" by (simp add: st')
  show "holds j s g \<Longrightarrow> j = a" by (simp add: holds_def g)
  show "sem_at s (st' ! i) =
      (if holds i s g then shift_sem (\<lambda>n. n - 1) (sem_at s (st ! i)) else sem_at s (st ! i))"
    using sem [of s] assms(3,4) by (cases s) (auto simp: st' g holds_def nth_list_update)
  show "\<exists>sm. sem_at s (st ! i) = Some sm \<and> 0 < sm_available sm" if "holds i s g"
  proof -
    from that have i: "i = a" and s: "s = None \<and> gp \<or> s = Some model \<and> mp"
      by (auto simp: holds_def g split: option.splits)
    have "is_none_or (\<lambda>sm. 0 < sm_available sm) (sem_at s (st ! a))" using sem [of s] s by auto
    moreover have "sem_at s (st ! a) \<noteq> None"
      using sem [of None] sem [of "Some model"] s by auto
    ultimately show ?thesis using i by auto
  qed
qed

lemma flow_inv_admit:
  assumes inv: "flow_inv f" and lr: "lr \<in> set (fl_limiters f)"
    and ad: "try_admit (fl_store f) lr provider model now = (st, Got g)"
  shows "flow_inv (f\<lparr>fl_store := st, fl_guards := g # fl_guards f\<rparr>)"
proof (cases "hm_get lr provider")
  case None
  with ad have "st = fl_store f" and "\<not> holds i s g" for i s
    by (auto simp: try_admit_def guard_empty_def holds_def split: option.splits)
  with inv show ?thesis by (auto simp: flow_inv_def holders_Cons)
next
  case (Some a)
  then have a: "a < length (fl_store f)"
    using inv lr hm_get_Some_in by (fastforce simp: flow_inv_def)
  note h = admit_holds [OF Some ad a]
  have len: "length st = length (fl_store f)" using h(3) a by blast
  have sem: "sm_available sm + holders i s (g # fl_guards f) = sm_total sm"
    if "i < length st" "sem_at s (st ! i) = Some sm" for i s sm
    using h(1) [of i s] h(2) [of i s] that inv
    by (fastforce simp: len holders_Cons flow_inv_def shift_sem_def split: if_splits)
  have guards: "i < length st \<and> sem_at s (st ! i) \<noteq> None"
    if "g' \<in> set (g # fl_guards f)" "holds i s g'" for g' i s
  proof -
    have "i < length (fl_store f) \<and> sem_at s (fl_store f ! i) \<noteq> None"
    proof (cases "g' = g")
      case True
      with that(2) have "i = a" using h(4) a by blast
      with that(2) True h(2) a show ?thesis by auto
    next
      case False
      with that inv show ?thesis by (auto simp: flow_inv_def)
    qed
    with h(1) [of i s] show ?thesis by (auto simp: len shift_sem_def)
  qed
  from inv len have "\<forall>lr \<in> set (fl_limiters f). \<forall>(p, a) \<in> set lr. a < length st"
    by (simp add: flow_inv_def)
  with sem guards show ?thesis unfolding flow_inv_def by simp
qed

text \<open>A step that leaves every permit where it was keeps the invariant.\<close>

lemma flow_inv_same:
  assumes "flow_inv f" "length st = length (fl_store f)"
    and "\<And>i s. i < length st \<Longrightarrow> sem_at s (st ! i) = sem_at s (fl_store f ! i)"
  shows "flow_inv (f\<lparr>fl_store := st\<rparr>)"
  using assms by (fastforce simp: flow_inv_def)

lemma sem_at_update:
  "sem_at s pl = sem_at s (st ! a) \<Longrightarrow> i < length st \<Longrightarrow> sem_at s (st[a := pl] ! i) = sem_at s (st ! i)"
  by (cases "i = a") auto

lemma flow_inv_step: "flow_step f f' \<Longrightarrow> flow_inv f \<Longrightarrow> flow_inv f'"
proof (induction rule: flow_step.induct)
  case (admit lr s provider model now st g)
  then show ?case by (intro flow_inv_admit)
next
  case (reject lr s provider model now st r)
  have "length st = length (fl_store s) \<and>
      (\<forall>i < length st. \<forall>x. sem_at x (st ! i) = sem_at x (fl_store s ! i))"
  proof (cases "hm_get lr provider")
    case None
    with reject show ?thesis by (auto simp: try_admit_def)
  next
    case (Some a)
    with reject obtain pl r' where e: "admit_entry model now (fl_store s ! a) = (pl, r')"
      and "\<forall>x. r' \<noteq> Got x" and st: "st = (fl_store s)[a := pl]"
      by (auto simp: try_admit_def split: prod.splits attempt.splits)
    then have "sem_at x pl = sem_at x (fl_store s ! a)" for x
      using admit_sem [OF e, of x] by (cases r') auto
    then show ?thesis by (simp add: st sem_at_update)
  qed
  then show ?case by (intro flow_inv_same reject.prems) auto
next
  case (finish g s)
  have len: "length (drop_guard (fl_store s) g) = length (fl_store s)"
    by (simp add: drop_guard_def)
  have "sm_available sm + holders i x (remove1 g (fl_guards s)) = sm_total sm"
    if "i < length (fl_store s)" "sem_at x (drop_guard (fl_store s) g ! i) = Some sm" for i x sm
    using that drop_guard_at [OF that(1), of x g] holders_remove1 [OF finish.hyps, of i x] finish.prems
    by (fastforce simp: flow_inv_def shift_sem_def split: if_splits)
  moreover have "sem_at x (drop_guard (fl_store s) g ! i) \<noteq> None"
    if "i < length (fl_store s)" "sem_at x (fl_store s ! i) \<noteq> None" for i x
    using that drop_guard_at [OF that(1), of x g] by (auto simp: shift_sem_def)
  ultimately show ?case
    using finish.prems set_remove1_subset [of g "fl_guards s"] unfolding flow_inv_def
    by (simp add: len) blast
next
  case (charge lr s provider model tokens now st r)
  have "length st = length (fl_store s) \<and>
      (\<forall>i < length st. \<forall>x. sem_at x (st ! i) = sem_at x (fl_store s ! i))"
    using charge(2) debit_entry_sem [of _ model tokens now]
    by (auto simp: debit_tokens_def split: option.splits prod.splits)
      (metis fst_conv sem_at_update)
  then show ?case by (intro flow_inv_same charge.prems) auto
next
  case (swap s old older providers unchanged now st lr)
  then have "\<forall>(p, a) \<in> set old. a < length (fl_store s)" by (simp add: flow_inv_def)
  then have "fresh_entries (fl_store s) st lr"
    using swap(2) reconciled_loop_fresh [of old "fl_store s" hm_empty unchanged now providers]
    by (simp add: reconciled_def hm_empty_def)
  then obtain new where st: "st = fl_store s @ new"
    and new: "\<forall>e \<in> set new. \<forall>x sm. sem_at x e = Some sm \<longrightarrow> sm_available sm = sm_total sm"
    and lr: "\<forall>(p, a) \<in> set lr. a < length st"
    by (auto simp: fresh_entries_def)
  have sem: "sm_available sm + holders i x (fl_guards s) = sm_total sm"
    if "i < length st" "sem_at x (st ! i) = Some sm" for i x sm
  proof (cases "i < length (fl_store s)")
    case True
    with that swap.prems show ?thesis by (simp add: st nth_append flow_inv_def)
  next
    case False
    then have "filter (holds i x) (fl_guards s) = []"
      using swap.prems by (auto simp: flow_inv_def filter_empty_conv)
    moreover from False that have "st ! i \<in> set new"
      by (auto simp: st nth_append)
    ultimately show ?thesis using new that(2) by (auto simp: holders_def)
  qed
  moreover have "\<forall>lr' \<in> set (fl_limiters s). \<forall>(p, a) \<in> set lr'. a < length st"
    using swap.prems by (fastforce simp: flow_inv_def st)
  moreover have "\<forall>g \<in> set (fl_guards s). \<forall>i x. holds i x g \<longrightarrow> i < length st \<and> sem_at x (st ! i) \<noteq> None"
    using swap.prems by (fastforce simp: flow_inv_def st nth_append)
  ultimately show ?case using lr unfolding flow_inv_def by simp
qed

lemma reconciled_loop_unchanged:
  assumes same: "unchanged n" and "hm_get lr n \<in> {None, hm_get old n}"
  shows "hm_get (snd (reconciled_loop old unchanged now st lr ps)) n =
    (if n \<in> pc_name ` set ps then hm_get old n else hm_get lr n)"
  using assms(2)
proof (induction ps arbitrary: st lr)
  case (Cons p ps)
  show ?case
  proof (cases "pc_name p = n")
    case True
    with Cons same show ?thesis by (cases "hm_get old n") (auto simp: hm_get_insert)
  next
    case False
    then have "hm_get (hm_insert (pc_name p) a lr) n = hm_get lr n" for a
      by (simp add: hm_get_insert)
    with Cons False show ?thesis by (auto simp: Let_def split: option.split)
  qed
qed simp

text \<open>
  C34: permits are conserved. In every interleaving of admissions, rejections, finished or
  dropped streams, token debits and topology swaps, a scope with \<open>max_concurrent = n\<close> has as
  many permits out as requests in flight hold one, so never more than \<open>n\<close>, and it gets every
  one of them back. A swap leaves every entry that requests in flight count against exactly as
  it is, and the limiter it installs gives a provider whose limits did not change the very
  entry the previous limiter had for it (or none, if it had none): the count goes on across
  the swap, it does not start again.
\<close>

theorem permits_conserved:
  assumes "flow_reachable providers now f"
  shows "(i < length (fl_store f) \<longrightarrow> sem_at s (fl_store f ! i) = Some sm \<longrightarrow>
      sm_available sm + holders i s (fl_guards f) = sm_total sm \<and>
      holders i s (fl_guards f) \<le> sm_total sm) \<and>
    (fl_limiters f = old # older \<longrightarrow>
     reconciled (fl_store f) old all unchanged later = (st, lr) \<longrightarrow>
      (i < length (fl_store f) \<longrightarrow> i < length st \<and> st ! i = fl_store f ! i) \<and>
      (p \<in> set all \<longrightarrow> unchanged (pc_name p) \<longrightarrow>
        hm_get lr (pc_name p) = hm_get old (pc_name p)))"
proof (intro conjI impI)
  from assms have inv: "flow_inv f"
    by (induction rule: flow_reachable.induct) (auto intro: flow_inv_init flow_inv_step)
  show "sm_available sm + holders i s (fl_guards f) = sm_total sm"
    "holders i s (fl_guards f) \<le> sm_total sm"
    if "i < length (fl_store f)" "sem_at s (fl_store f ! i) = Some sm"
    using inv that by (force simp: flow_inv_def)+
  assume lims: "fl_limiters f = old # older"
    and rec: "reconciled (fl_store f) old all unchanged later = (st, lr)"
  from inv lims have "\<forall>(p, a) \<in> set old. a < length (fl_store f)" by (simp add: flow_inv_def)
  with rec have "fresh_entries (fl_store f) st lr"
    using reconciled_loop_fresh [of old "fl_store f" hm_empty unchanged later all]
    by (simp add: reconciled_def hm_empty_def)
  then show "i < length st" "st ! i = fl_store f ! i" if "i < length (fl_store f)"
    using that by (auto simp: fresh_entries_def nth_append)
  show "hm_get lr (pc_name p) = hm_get old (pc_name p)" if "p \<in> set all" "unchanged (pc_name p)"
    using rec that reconciled_loop_unchanged [of unchanged "pc_name p" hm_empty old later "fl_store f" all]
    by (simp add: reconciled_def hm_get_empty)
qed

definition ex_provider :: provider_config where
  "ex_provider =
     \<lparr>pc_name = ''p'', pc_kind = ''openai'', pc_endpoint = None, pc_credential = None,
      pc_prefix = None, pc_settings = [],
      pc_limits = Some \<lparr>rl_requests_per_min = None, rl_tokens_per_min = None,
        rl_max_concurrent = Some 1\<rparr>,
      pc_model_limits = []\<rparr>"

definition ex_guard :: rate_guard where
  "ex_guard = \<lparr>rg_entry = 0, rg_model = ''m'', rg_global = True, rg_per_model = False\<rparr>"

definition ex_flow :: "nat \<Rightarrow> rate_guard list \<Rightarrow> flow" where
  "ex_flow n gs =
     \<lparr>fl_store = [\<lparr>pl_global = \<lparr>lm_rpm = None, lm_tpm = None,
        lm_sem = Some \<lparr>sm_total = 1, sm_available = n\<rparr>\<rparr>, pl_per_model = []\<rparr>],
      fl_limiters = [[(''p'', 0)]], fl_guards = gs\<rparr>"

lemma ex_flow_init: "flow_init [ex_provider] 0 = ex_flow 1 []"
  by (simp add: flow_init_def limiter_new_def reconciled_def ex_provider_def entry_from_config_def
      limit_from_config_def is_unlimited_def Let_def hm_insert_def hm_empty_def ex_flow_def)

lemma ex_flow_admit: "flow_step (ex_flow 1 []) (ex_flow 0 [ex_guard])"
proof -
  have "try_admit (fl_store (ex_flow 1 [])) [(''p'', 0)] ''p'' ''m'' 0 =
      (fl_store (ex_flow 0 []), Got ex_guard)"
    by (simp add: ex_flow_def try_admit_def hm_get_def admit_entry_def acquire_def get_limit_def
        map_limit_def dropping_def take_tokens_def take_rpm_def on_bucket_def ex_guard_def)
  from flow_step.admit [OF _ this] show ?thesis by (simp add: ex_flow_def)
qed

text \<open>One request holds the only permit; a swap that keeps the provider's limits still has it
  out, on the same entry.\<close>

theorem permits_conserved_witness:
  "holders 0 None (fl_guards (ex_flow 0 [ex_guard])) = 1 \<and>
     sem_at None (fl_store (ex_flow 0 [ex_guard]) ! 0) = Some \<lparr>sm_total = 1, sm_available = 0\<rparr> \<and>
     (case reconciled (fl_store (ex_flow 0 [ex_guard])) [(''p'', 0)] [ex_provider] (\<lambda>_. True) 7 of
        (st, lr) \<Rightarrow> hm_get lr ''p'' = Some 0 \<and>
          sem_at None (st ! 0) = Some \<lparr>sm_total = 1, sm_available = 0\<rparr>)"
proof -
  have reach: "flow_reachable [ex_provider] 0 (ex_flow 0 [ex_guard])"
    using flow_reachable.step [OF flow_reachable.init ex_flow_admit [folded ex_flow_init]] .
  have sem: "sem_at None (fl_store (ex_flow 0 [ex_guard]) ! 0) =
      Some \<lparr>sm_total = 1, sm_available = 0\<rparr>"
    by (simp add: ex_flow_def sem_at_def get_limit_def)
  obtain st lr where rec: "reconciled (fl_store (ex_flow 0 [ex_guard])) [(''p'', 0)] [ex_provider]
      (\<lambda>_. True) 7 = (st, lr)"
    by (cases "reconciled (fl_store (ex_flow 0 [ex_guard])) [(''p'', 0)] [ex_provider] (\<lambda>_. True) 7")
  have facts: "0 < length (fl_store (ex_flow 0 [ex_guard]))"
    "fl_limiters (ex_flow 0 [ex_guard]) = [(''p'', 0)] # []" "pc_name ex_provider = ''p''"
    by (simp_all add: ex_flow_def ex_provider_def)
  from permits_conserved [OF reach, of 0 None "\<lparr>sm_total = 1, sm_available = 0\<rparr>"
      "[(''p'', 0)]" "[]" "[ex_provider]" "\<lambda>_. True" 7 st lr ex_provider] facts sem
  show ?thesis by (simp add: rec hm_get_def)
qed

section \<open>Bursts, waits and the panic of an overdraft\<close>

text \<open>A requests/min bucket as it can be found: a refill rate of a sixtieth of its burst, no
  overdraft (requests are taken one by one and only when there is one).\<close>

definition rpm_ok :: "bucket \<Rightarrow> bool" where
  "rpm_ok b \<longleftrightarrow> bucket_ok b \<and> \<not> tb_poisoned b \<and> 0 \<le> tb_tokens b \<and>
     tb_refill_per_sec b = fdiv (tb_capacity b) 60 \<and>
     (tb_capacity b = 0 \<or> 1 \<le> tb_capacity b) \<and> tb_capacity b \<le> 2 ^ 53"

lemma f64_rep_two_powr: "f64_rep (2 powr real_of_int k)"
  by (rule f64_rep_powr)

lemma f64_rep_inverse_64: "f64_rep (1 / 64)"
  using f64_rep_powr [of "- 6"] by (simp add: powr_minus_divide)

lemma rate_lower: "1 \<le> c \<Longrightarrow> 1 / 64 \<le> fdiv c 60"
  unfolding fdiv_def by (rule f64.rnd_ge [OF f64_rep_inverse_64]) simp

lemma wait_for_bounded:
  assumes "1 / 64 \<le> tb_refill_per_sec b" "d \<le> 2 ^ 57"
  shows "wait_for b d \<noteq> None"
proof -
  have rep: "f64_rep (2 ^ 63)"
    using f64_rep_powr [of 63] by (simp add: powr_numeral)
  have "max d 0 / tb_refill_per_sec b \<le> 2 ^ 57 / (1 / 64)"
    using assms by (intro frac_le) auto
  then have up: "fdiv (max d 0) (tb_refill_per_sec b) \<le> 2 ^ 63"
    unfolding fdiv_def by (intro f64.rnd_le [OF rep]) simp
  have "0 \<le> fdiv (max d 0) (tb_refill_per_sec b)"
    using assms by (intro fdiv_nonneg) auto
  with up show ?thesis
    by (simp add: wait_for_def from_secs_f64_def)
qed

lemma rpm_ok_refill: "rpm_ok b \<Longrightarrow> rpm_ok (refill now b)"
  using refill_ok [of b now] refill_mono_tokens [of b now] by (auto simp: rpm_ok_def)

lemma rpm_take:
  assumes "rpm_ok b"
  shows "snd (try_take 1 now b) \<noteq> Panicked" and "rpm_ok (fst (try_take 1 now b))"
    and "1 \<le> tb_tokens (refill now b) \<Longrightarrow>
      try_take 1 now b = ((refill now b)\<lparr>tb_tokens := tb_tokens (refill now b) - 1\<rparr>, Got True)"
    and "tb_tokens (refill now b) < 1 \<Longrightarrow> \<exists>w. try_take 1 now b = (refill now b, Later w)"
proof -
  let ?b = "refill now b"
  have ok: "rpm_ok ?b" using assms by (rule rpm_ok_refill)
  then have rep: "f64_rep (tb_tokens ?b)" and np: "\<not> tb_poisoned b" and big: "tb_tokens ?b \<le> 2 ^ 53"
    and nn: "0 \<le> tb_tokens ?b"
    by (auto simp: rpm_ok_def bucket_ok_def)
  show got: "try_take 1 now b = (?b\<lparr>tb_tokens := tb_tokens ?b - 1\<rparr>, Got True)"
    if "1 \<le> tb_tokens ?b"
    using that np f64.rnd_pred [OF rep that big]
    by (simp add: try_take_def locked_def Let_def fsub_def)
  have "wait_for ?b (fsub 1 (tb_tokens ?b)) \<noteq> None"
  proof (cases "tb_capacity b = 0")
    case True
    then have "tb_refill_per_sec ?b = 0" using assms by (simp add: rpm_ok_def fdiv_def)
    then show ?thesis by (simp add: wait_for_def)
  next
    case False
    then have "1 / 64 \<le> tb_refill_per_sec ?b"
      using assms rate_lower [of "tb_capacity b"] by (simp add: rpm_ok_def)
    moreover have "fsub 1 (tb_tokens ?b) \<le> 1"
      unfolding fsub_def using nn f64.rep_nat [of 1] by (intro f64.rnd_le) auto
    ultimately show ?thesis by (intro wait_for_bounded) auto
  qed
  then show later: "\<exists>w. try_take 1 now b = (?b, Later w)" if "tb_tokens ?b < 1"
    using that np by (auto simp: try_take_def locked_def Let_def refuse_def)
  show "snd (try_take 1 now b) \<noteq> Panicked"
    using got later by (cases "1 \<le> tb_tokens ?b") auto
  show "rpm_ok (fst (try_take 1 now b))"
  proof (cases "1 \<le> tb_tokens ?b")
    case True
    have "f64_rep (tb_tokens ?b - 1)" using rep True big by (rule f64_rep_minus_one)
    with got [OF True] ok True show ?thesis by (auto simp: rpm_ok_def bucket_ok_def)
  next
    case False
    with later ok show ?thesis by auto
  qed
qed

text \<open>How many of \<open>k\<close> attempts at one instant are granted.\<close>

fun granted :: "nat \<Rightarrow> instant \<Rightarrow> bucket \<Rightarrow> nat" where
  "granted 0 now b = 0"
| "granted (Suc k) now b =
     (case try_take 1 now b of
        (b', Got _) \<Rightarrow> Suc (granted k now b')
      | (b', _) \<Rightarrow> granted k now b')"

lemma granted_eq:
  "rpm_ok b \<Longrightarrow> granted k now b = min k (nat \<lfloor>tb_tokens (refill now b)\<rfloor>)"
proof (induction k arbitrary: b)
  case (Suc k)
  let ?b = "refill now b"
  note ok = rpm_take(2) [OF Suc.prems, of now]
  show ?case
  proof (cases "1 \<le> tb_tokens ?b")
    case True
    note t = rpm_take(3) [OF Suc.prems True]
    let ?b' = "?b\<lparr>tb_tokens := tb_tokens ?b - 1\<rparr>"
    have "refill now ?b' = ?b'" by (simp add: refill_def Let_def)
    then have "granted k now ?b' = min k (nat \<lfloor>tb_tokens ?b - 1\<rfloor>)"
      using Suc.IH [of ?b'] ok t by simp
    moreover have "nat \<lfloor>tb_tokens ?b\<rfloor> = Suc (nat \<lfloor>tb_tokens ?b - 1\<rfloor>)"
      using True by (simp add: floor_diff_one) (simp add: le_floor_iff Suc_nat_eq_nat_zadd1)
    ultimately show ?thesis by (simp add: t)
  next
    case False
    then obtain w where t: "try_take 1 now b = (?b, Later w)"
      using rpm_take(4) [OF Suc.prems, of now] by auto
    have "granted k now ?b = min k (nat \<lfloor>tb_tokens ?b\<rfloor>)"
      using Suc.IH [of ?b] rpm_ok_refill [OF Suc.prems] by simp
    moreover have "\<lfloor>tb_tokens ?b\<rfloor> \<le> 0" using False by linarith
    ultimately show ?thesis by (simp add: t)
  qed
qed simp

lemma per_minute_rpm_ok:
  assumes "unat n \<le> 2 ^ 53"
  shows "rpm_ok (per_minute now n)"
proof -
  have e: "u64_as_f64 n = real (unat n)" using assms by (rule u64_as_f64_exact)
  have "real (unat n) = 0 \<or> 1 \<le> real (unat n)"
    by (cases "unat n") (simp_all only: of_nat_0 of_nat_Suc, simp_all)
  then show ?thesis
    using per_minute_ok [of now n] per_minute_capacity [OF assms, of now] u64_as_f64_nonneg [of n]
    unfolding e by (simp add: rpm_ok_def) (simp add: per_minute_def Let_def e)
qed

text \<open>
  A requests/min bucket grants a burst exactly. Of any number of requests that arrive at
  one instant it admits precisely as many as it holds whole tokens, one each, and it never
  holds more than the configured rate; it never goes into overdraft, never panics and stays
  well-formed under takes and refunds.
\<close>

theorem request_burst:
  assumes "rpm_ok b"
  shows "granted k now b = min k (nat \<lfloor>tb_tokens (refill now b)\<rfloor>) \<and>
    real (granted k now b) \<le> tb_capacity b \<and>
    snd (try_take 1 now b) \<noteq> Panicked \<and> rpm_ok (fst (try_take 1 now b)) \<and>
    rpm_ok (fst (refund 1 now b))"
proof -
  have ok: "rpm_ok (refill now b)" using assms by (rule rpm_ok_refill)
  then have le: "tb_tokens (refill now b) \<le> tb_capacity b" and nn: "0 \<le> tb_tokens (refill now b)"
    by (auto simp: rpm_ok_def bucket_ok_def)
  have "real (granted k now b) \<le> real (nat \<lfloor>tb_tokens (refill now b)\<rfloor>)"
    by (simp add: granted_eq [OF assms])
  also have "\<dots> \<le> tb_tokens (refill now b)" using nn by (simp add: of_nat_nat)
  finally have "real (granted k now b) \<le> tb_capacity b" using le by simp
  moreover have "rpm_ok (fst (refund 1 now b))"
    using ok bucket_ops_ok(2) [of b 1 now] assms fadd_nonneg [OF nn, of 1]
    by (auto simp: rpm_ok_def refund_def locked_def Let_def)
  ultimately show ?thesis
    using rpm_take(1,2) [OF assms] granted_eq [OF assms] by blast
qed

theorem request_burst_witness:
  "granted 5 0 (per_minute 0 3) = 3"
proof -
  have three: "u64_as_f64 3 = 3" using u64_as_f64_exact [of 3] by simp
  have "tb_tokens (refill 0 (per_minute 0 3)) = 3"
    by (simp add: refill_def per_minute_def Let_def three)
  moreover have "rpm_ok (per_minute 0 3)" by (rule per_minute_rpm_ok) simp
  ultimately show ?thesis
    using request_burst [of "per_minute 0 3" 5 0] by simp
qed

lemma has_capacity_panics:
  assumes "\<not> tb_poisoned b" "tb_tokens (refill now b) \<le> 0" "0 < tb_refill_per_sec b"
    and "2 ^ 64 \<le> fdiv (max (fadd (- tb_tokens (refill now b)) f64_epsilon) 0) (tb_refill_per_sec b)"
  shows "has_capacity now b = ((refill now b)\<lparr>tb_poisoned := True\<rparr>, Panicked)"
  using assms by (simp add: has_capacity_def locked_def Let_def refuse_def wait_for_def from_secs_f64_def)

lemma poisoned_forever: "tb_poisoned b \<Longrightarrow> has_capacity now b = (b, Panicked)"
  by (simp add: has_capacity_def locked_def)

lemma huge_wait:
  assumes "2 ^ 62 \<le> x" "0 < r" "r \<le> 1 / 4"
  shows "2 ^ 64 \<le> fdiv (max (fadd x f64_epsilon) 0) r"
proof -
  have rep: "f64_rep (2 ^ 62)" "f64_rep (2 ^ 64)"
    using f64_rep_powr [of 62] f64_rep_powr [of 64] by (simp_all add: powr_numeral)
  have "2 ^ 62 \<le> fadd x f64_epsilon"
    unfolding fadd_def using assms(1) by (intro f64.rnd_ge [OF rep(1)]) (simp add: f64_epsilon_def)
  then have "2 ^ 62 / (1 / 4) \<le> max (fadd x f64_epsilon) 0 / r"
    using assms by (intro frac_le) auto
  then show ?thesis
    unfolding fdiv_def by (intro f64.rnd_ge [OF rep(2)]) simp
qed

definition overdrawn :: bucket where
  "overdrawn = fst (debit (u64_as_f64 (2 ^ 63)) 0 (per_minute 0 1))"

lemma overdrawn_facts:
  "\<not> tb_poisoned overdrawn" "refill 0 overdrawn = overdrawn"
  "2 ^ 62 \<le> - tb_tokens overdrawn" "0 < tb_refill_per_sec overdrawn"
  "tb_refill_per_sec overdrawn \<le> 1 / 4"
proof -
  have one: "u64_as_f64 1 = 1" using u64_as_f64_exact [of 1] by simp
  have rep: "f64_rep (2 ^ 63)" "f64_rep (- (2 ^ 62))" "f64_rep (1 / 4)"
  proof -
    show "f64_rep (2 ^ 63)" using f64_rep_powr [of 63] by (simp add: powr_numeral)
    show "f64_rep (- (2 ^ 62))"
      unfolding f64_rep_def by (intro exI [of _ "- 1"] exI [of _ 62]) (simp add: powr_numeral)
    show "f64_rep (1 / 4)" using f64_rep_powr [of "- 2"] by (simp add: powr_minus_divide)
  qed
  have big: "u64_as_f64 (2 ^ 63) = 2 ^ 63"
    using f64.rnd_id [OF rep(1)] by (simp add: u64_as_f64_def)
  have o: "overdrawn = (per_minute 0 1)\<lparr>tb_tokens := fsub 1 (2 ^ 63)\<rparr>"
    by (simp add: overdrawn_def debit_def locked_def Let_def big [simplified] refill_def per_minute_def one)
  show "\<not> tb_poisoned overdrawn" "refill 0 overdrawn = overdrawn"
    by (simp_all add: o per_minute_def refill_def Let_def)
  have "fsub 1 (2 ^ 63) \<le> - (2 ^ 62)"
    unfolding fsub_def by (rule f64.rnd_le [OF rep(2)]) simp
  then show "2 ^ 62 \<le> - tb_tokens overdrawn" by (simp add: o)
  have "1 / 64 \<le> fdiv 1 60" by (rule rate_lower) simp
  then show "0 < tb_refill_per_sec overdrawn"
    by (simp add: o per_minute_def Let_def one)
  have "fdiv 1 60 \<le> 1 / 4"
    unfolding fdiv_def by (rule f64.rnd_le [OF rep(3)]) simp
  then show "tb_refill_per_sec overdrawn \<le> 1 / 4"
    by (simp add: o per_minute_def Let_def one)
qed

text \<open>
  C38: the tokens/min check answers a wait for every overdraft up to \<open>2 ^ 56\<close> tokens, but not
  for all: with a limit of one token a minute, one response that reports \<open>2 ^ 63\<close> used tokens
  makes the next check compute a wait of more than \<open>2 ^ 64\<close> seconds, on which
  \<open>Duration::from_secs_f64\<close> panics; the panic poisons the bucket's mutex, so from then on
  every check of that bucket panics, at any time.
\<close>

theorem overdraft_panics:
  "(rpm_ok (b\<lparr>tb_tokens := 0\<rparr>) \<and> bucket_ok b \<and> - (2 ^ 56) \<le> tb_tokens b \<longrightarrow>
      snd (has_capacity now b) \<noteq> Panicked) \<and>
   snd (has_capacity 0 overdrawn) = Panicked \<and>
   snd (has_capacity later (fst (has_capacity 0 overdrawn))) = Panicked"
proof -
  have safe: "snd (has_capacity now b) \<noteq> Panicked"
    if ok: "rpm_ok (b\<lparr>tb_tokens := 0\<rparr>)" and b: "bucket_ok b" and low: "- (2 ^ 56) \<le> tb_tokens b"
  proof -
    let ?b = "refill now b"
    have rep: "f64_rep (2 ^ 57)" using f64_rep_powr [of 57] by (simp add: powr_numeral)
    have "- tb_tokens ?b \<le> 2 ^ 56" using refill_mono_tokens [OF b, of now] low by simp
    then have d: "fadd (- tb_tokens ?b) f64_epsilon \<le> 2 ^ 57"
      unfolding fadd_def by (intro f64.rnd_le [OF rep]) (simp add: f64_epsilon_def)
    have "wait_for ?b (fadd (- tb_tokens ?b) f64_epsilon) \<noteq> None"
    proof (cases "tb_capacity b = 0")
      case True
      then have "tb_refill_per_sec ?b = 0" using ok by (simp add: rpm_ok_def fdiv_def)
      then show ?thesis by (simp add: wait_for_def)
    next
      case False
      then have "1 / 64 \<le> tb_refill_per_sec ?b"
        using ok rate_lower [of "tb_capacity b"] by (simp add: rpm_ok_def)
      then show ?thesis using d by (rule wait_for_bounded)
    qed
    moreover have "\<not> tb_poisoned b" using ok by (simp add: rpm_ok_def)
    ultimately show ?thesis
      by (auto simp: has_capacity_def locked_def Let_def refuse_def split: option.splits)
  qed
  note o = overdrawn_facts
  have "has_capacity 0 overdrawn = (overdrawn\<lparr>tb_poisoned := True\<rparr>, Panicked)"
    using has_capacity_panics [of overdrawn 0] o huge_wait [OF o(3) o(4) o(5)] by simp
  with safe show ?thesis by (simp add: poisoned_forever)
qed

theorem overdraft_panics_witness:
  "snd (has_capacity 0 (per_minute 0 3)) \<noteq> Panicked"
proof -
  have "rpm_ok ((per_minute 0 3)\<lparr>tb_tokens := 0\<rparr>)"
    using per_minute_rpm_ok [of 3 0] f64.rep_nat [of 0] by (simp add: rpm_ok_def bucket_ok_def)
  moreover have "- (2 ^ 56) \<le> tb_tokens (per_minute 0 3)"
    using order_trans [OF _ u64_as_f64_nonneg [of 3], of "- (2 ^ 56)"]
    by (simp add: per_minute_def Let_def)
  ultimately show ?thesis
    using overdraft_panics [of "per_minute 0 3" 0] per_minute_ok [of 0 3] by blast
qed

text \<open>What the new limiter says of a provider: \<open>st\<close> and \<open>st'\<close> are the stores before and after.\<close>

definition entry_of ::
  "limiter \<Rightarrow> (string \<Rightarrow> bool) \<Rightarrow> instant \<Rightarrow> limits_store \<Rightarrow> limits_store \<Rightarrow> provider_config \<Rightarrow>
     nat option \<Rightarrow> bool" where
  "entry_of old unchanged now st st' p a \<longleftrightarrow>
     (if unchanged (pc_name p) then a = hm_get old (pc_name p)
      else if is_unlimited (pl_global (entry_from_config now p)) \<and> pc_model_limits p = []
      then a = None
      else (\<exists>i. a = Some i \<and> length st \<le> i \<and> i < length st' \<and> st' ! i = entry_from_config now p))"

lemma entry_of_extend:
  "entry_of old unchanged now (st @ mid) st' p a \<Longrightarrow> entry_of old unchanged now st st' p a"
  "entry_of old unchanged now st st' p a \<Longrightarrow> entry_of old unchanged now st (st' @ new) p a"
  by (fastforce simp: entry_of_def nth_append split: if_splits)+

lemma reconciled_loop_entries:
  assumes "reconciled_loop old unchanged now st lr ps = (st', lr')"
    and "distinct (map pc_name ps)" "\<forall>p \<in> set ps. hm_get lr (pc_name p) = None"
  shows "(\<exists>new. st' = st @ new) \<and>
    (\<forall>n. n \<notin> pc_name ` set ps \<longrightarrow> hm_get lr' n = hm_get lr n) \<and>
    (\<forall>p \<in> set ps. entry_of old unchanged now st st' p (hm_get lr' (pc_name p)))"
  using assms
proof (induction ps arbitrary: st lr)
  case (Cons p ps)
  let ?e = "entry_from_config now p"
  obtain st1 lr1 mid where rest: "reconciled_loop old unchanged now st1 lr1 ps = (st', lr')"
    and st1: "st1 = st @ mid" and other: "\<forall>n. n \<noteq> pc_name p \<longrightarrow> hm_get lr1 n = hm_get lr n"
    and here: "entry_of old unchanged now st st1 p (hm_get lr1 (pc_name p))"
  proof (cases "unchanged (pc_name p)")
    case True
    show ?thesis
    proof (cases "hm_get old (pc_name p)")
      case None
      with True Cons.prems show ?thesis
        by (intro that [of st lr "[]"]) (auto simp: entry_of_def)
    next
      case (Some a)
      with True Cons.prems(1) show ?thesis
        by (intro that [of st "hm_insert (pc_name p) a lr" "[]"])
          (auto simp: entry_of_def hm_get_insert)
    qed
  next
    case False
    have e: "pl_per_model ?e = [] \<longleftrightarrow> pc_model_limits p = []"
      by (simp add: entry_from_config_def)
    show ?thesis
    proof (cases "is_unlimited (pl_global ?e) \<and> pc_model_limits p = []")
      case True
      with False e Cons.prems show ?thesis
        by (intro that [of st lr "[]"]) (auto simp: entry_of_def Let_def)
    next
      case lim: False
      then have "reconciled_loop old unchanged now (st @ [?e])
          (hm_insert (pc_name p) (length st) lr) ps = (st', lr')"
        using False Cons.prems(1) by (simp add: Let_def e split: if_splits)
      then show ?thesis
        using False lim
        by (intro that [of "st @ [?e]" "hm_insert (pc_name p) (length st) lr" "[?e]"])
          (auto simp: entry_of_def hm_get_insert)
    qed
  qed
  have "\<forall>q \<in> set ps. hm_get lr1 (pc_name q) = None"
    using Cons.prems(2,3) other by (metis distinct.simps(2) image_eqI list.set_intros(2) list.set_map list.simps(9))
  from Cons.IH [OF rest _ this] Cons.prems(2)
  obtain new where st': "st' = st1 @ new"
    and keep: "\<forall>n. n \<notin> pc_name ` set ps \<longrightarrow> hm_get lr' n = hm_get lr1 n"
    and ent: "\<forall>q \<in> set ps. entry_of old unchanged now st1 st' q (hm_get lr' (pc_name q))"
    by auto
  from keep Cons.prems(2) have "hm_get lr' (pc_name p) = hm_get lr1 (pc_name p)" by auto
  with here st' have "entry_of old unchanged now st st' p (hm_get lr' (pc_name p))"
    by (simp add: entry_of_extend(2))
  moreover from ent st1 have "\<forall>q \<in> set ps. entry_of old unchanged now st st' q (hm_get lr' (pc_name q))"
    by (auto intro: entry_of_extend(1))
  ultimately show ?case using st' st1 keep other by auto
qed simp

text \<open>
  A topology swap keeps flow control where limits did not change. The limiter it derives
  leaves every existing entry as it is (old and new limiter share it), maps an unchanged
  provider to the very same entry, or to none if it had none, and gives a provider with
  changed limits a fresh entry, with full buckets and all permits free, or none if it
  declares no limits.
\<close>

theorem reconciled_shares:
  assumes "reconciled st old providers unchanged now = (st', lr)"
    and "distinct (map pc_name providers)" and "p \<in> set providers"
  shows "(\<exists>new. st' = st @ new) \<and>
    entry_of old unchanged now st st' p (hm_get lr (pc_name p))"
  using reconciled_loop_entries [OF assms(1) [unfolded reconciled_def] assms(2)] assms(3)
  by (simp add: hm_get_empty)

theorem reconciled_shares_witness:
  "entry_of [(''p'', 0)] (\<lambda>_. True) 0 [ex_limits] [ex_limits] ex_provider (Some 0)"
proof -
  have name: "pc_name ex_provider = ''p''" by (simp add: ex_provider_def)
  have "reconciled [ex_limits] [(''p'', 0)] [ex_provider] (\<lambda>_. True) 0 = ([ex_limits], [(''p'', 0)])"
    by (simp add: reconciled_def name hm_get_def hm_insert_def hm_empty_def)
  from reconciled_shares [OF this, of ex_provider] show ?thesis
    by (simp add: name hm_get_def)
qed

end
