(* ===== verification/Route.thy ===== *)
theory Route
  imports Config
begin

text \<open>
  Routing and node-local health, \<open>crates/llmleaf-core/src/route.rs\<close>: the table of explicit
  routes, the provider namespaces tried longest first, and the cool-downs of providers that
  failed.
\<close>

section \<open>The router\<close>

record router =
  ro_table :: "(string, route_target list) hashmap"
  ro_prefixes :: "(string \<times> string) list"

text \<open>\<open>sort_by_key\<close> with \<open>Reverse\<close> of the length: a stable sort, longest prefix first.\<close>

definition router_new :: "route_config list \<Rightarrow> provider_config list \<Rightarrow> router" where
  "router_new routes providers =
     \<lparr>ro_table = hm_collect (map (\<lambda>r. (rt_model r, rt_targets r)) routes),
      ro_prefixes = sort_key (\<lambda>(pre, _). - int (length pre))
        (List.map_filter (\<lambda>p. map_option (\<lambda>pre. (pre, pc_name p)) (pc_prefix p)) providers)\<rparr>"

definition strip_namespace :: "string \<Rightarrow> string \<Rightarrow> string option" where
  "strip_namespace model pre =
     (case strip_prefix pre model of
        None \<Rightarrow> None
      | Some s \<Rightarrow>
          (case strip_prefix ''/'' s of
             None \<Rightarrow> None
           | Some rest \<Rightarrow> if rest = [] then None else Some rest))"

fun resolve_prefixes :: "(string \<times> string) list \<Rightarrow> string \<Rightarrow> route_target list option" where
  "resolve_prefixes [] model = None"
| "resolve_prefixes ((pre, provider) # rest) model =
     (case strip_namespace model pre of
        Some upstream \<Rightarrow> Some [\<lparr>tg_provider = provider, tg_model = Some upstream\<rparr>]
      | None \<Rightarrow> resolve_prefixes rest model)"

definition resolve :: "router \<Rightarrow> string \<Rightarrow> route_target list option" where
  "resolve r model =
     (case hm_get (ro_table r) model of
        Some targets \<Rightarrow> Some targets
      | None \<Rightarrow> resolve_prefixes (ro_prefixes r) model)"

definition router_models :: "router \<Rightarrow> string list" where
  "router_models r = hm_keys (ro_table r)"

definition router_prefixes :: "router \<Rightarrow> (string \<times> string) list" where
  "router_prefixes r = ro_prefixes r"

section \<open>The health table\<close>

type_synonym health_table = "(string, u64) hashmap"

definition health_new :: health_table where
  "health_new = hm_empty"

text \<open>\<open>now + cooldown_secs\<close> wraps in a release build.\<close>

definition penalize :: "string \<Rightarrow> u64 \<Rightarrow> u64 \<Rightarrow> health_table \<Rightarrow> health_table" where
  "penalize provider now cooldown_secs h = hm_insert provider (now + cooldown_secs) h"

definition is_down :: "health_table \<Rightarrow> string \<Rightarrow> u64 \<Rightarrow> bool" where
  "is_down h provider now = is_some_and (\<lambda>until. now < until) (hm_get h provider)"

definition health_clear :: "string \<Rightarrow> health_table \<Rightarrow> health_table" where
  "health_clear provider h = (if \<not> hm_contains h provider then h else hm_remove provider h)"

definition health_snapshot :: "health_table \<Rightarrow> u64 \<Rightarrow> (string \<times> bool) list" where
  "health_snapshot h now = map (\<lambda>(p, until). (p, now < until)) h"

section \<open>Resolution\<close>

lemma strip_namespace_iff:
  "strip_namespace model pre = Some rest \<longleftrightarrow> model = pre @ ''/'' @ rest \<and> rest \<noteq> []"
proof
  assume "strip_namespace model pre = Some rest"
  then show "model = pre @ ''/'' @ rest \<and> rest \<noteq> []"
    by (auto simp: strip_namespace_def strip_prefix_Some_iff split: option.splits if_splits list.splits)
next
  assume "model = pre @ ''/'' @ rest \<and> rest \<noteq> []"
  then show "strip_namespace model pre = Some rest"
    by (simp add: strip_namespace_def)
qed

text \<open>A prefix that claims a model.\<close>

definition claims :: "string \<times> string \<Rightarrow> string \<Rightarrow> bool" where
  "claims pp model \<longleftrightarrow> strip_namespace model (fst pp) \<noteq> None"

lemma resolve_prefixes_find:
  "resolve_prefixes ps model =
     map_option (\<lambda>(pre, provider).
       [\<lparr>tg_provider = provider, tg_model = strip_namespace model pre\<rparr>])
       (List.find (\<lambda>pp. claims pp model) ps)"
  by (induction ps model rule: resolve_prefixes.induct) (auto simp: claims_def split: option.splits)

lemma find_sorted_minimal:
  assumes "sorted (map f xs)" "List.find P xs = Some x" "y \<in> set xs" "P y"
  shows "f x \<le> f y"
  using assms
proof (induction xs)
  case (Cons z zs)
  then show ?case by (cases "P z") auto
qed simp

lemma table_last:
  "hm_get (ro_table (router_new routes providers)) model =
     map_option rt_targets (List.find (\<lambda>r. rt_model r = model) (rev routes))"
proof -
  have "map_of (map (\<lambda>r. (rt_model r, rt_targets r)) rs) model =
      map_option rt_targets (List.find (\<lambda>r. rt_model r = model) rs)" for rs
    by (induction rs) auto
  from this [of "rev routes"] show ?thesis
    by (simp add: router_new_def hm_get_collect rev_map)
qed

text \<open>The \<open>(prefix, provider)\<close> pairs the provider tables declare, in their order.\<close>

definition declared_prefixes :: "provider_config list \<Rightarrow> (string \<times> string) list" where
  "declared_prefixes providers =
     List.map_filter (\<lambda>p. map_option (\<lambda>pre. (pre, pc_name p)) (pc_prefix p)) providers"

lemma prefixes_sorted:
  "ro_prefixes (router_new routes providers) =
     sort_key (\<lambda>pp. - int (length (fst pp))) (declared_prefixes providers)"
  by (simp add: router_new_def declared_prefixes_def case_prod_unfold)

text \<open>
  routing. An explicit route for the model always wins (the last one configured);
  otherwise the model goes to a provider whose namespace claims it, as \<open>prefix/rest\<close> with a
  non-empty rest and a whole leading segment, under its upstream name \<open>rest\<close>, and no other
  claiming namespace is longer; a model is unrouted exactly when neither exists.
\<close>

theorem resolve_spec:
  fixes routes providers
  defines "r \<equiv> router_new routes providers"
  shows "case List.find (\<lambda>r. rt_model r = model) (rev routes) of
      Some route \<Rightarrow> resolve r model = Some (rt_targets route)
    | None \<Rightarrow>
        (case resolve r model of
           None \<Rightarrow> \<forall>(pre, provider) \<in> set (declared_prefixes providers). \<forall>rest.
             model = pre @ ''/'' @ rest \<longrightarrow> rest = []
         | Some targets \<Rightarrow>
             \<exists>pre provider rest. (pre, provider) \<in> set (declared_prefixes providers) \<and>
               model = pre @ ''/'' @ rest \<and> rest \<noteq> [] \<and>
               targets = [\<lparr>tg_provider = provider, tg_model = Some rest\<rparr>] \<and>
               (\<forall>pp \<in> set (declared_prefixes providers).
                  claims pp model \<longrightarrow> length (fst pp) \<le> length pre))"
proof (cases "List.find (\<lambda>r. rt_model r = model) (rev routes)")
  case (Some route)
  then show ?thesis by (simp add: r_def resolve_def table_last)
next
  case None
  let ?ps = "sort_key (\<lambda>pp. - int (length (fst pp))) (declared_prefixes providers)"
  have res: "resolve r model = map_option (\<lambda>(pre, provider).
       [\<lparr>tg_provider = provider, tg_model = strip_namespace model pre\<rparr>])
       (List.find (\<lambda>pp. claims pp model) ?ps)"
    by (simp add: r_def resolve_def table_last None prefixes_sorted resolve_prefixes_find)
  show ?thesis
  proof (cases "List.find (\<lambda>pp. claims pp model) ?ps")
    case no: None
    then have "\<forall>pp \<in> set (declared_prefixes providers). \<not> claims pp model"
      by (auto simp: find_None_iff)
    then have "\<forall>(pre, provider) \<in> set (declared_prefixes providers). \<forall>rest.
        model = pre @ ''/'' @ rest \<longrightarrow> rest = []"
      by (auto simp: claims_def strip_namespace_iff)
    moreover have "resolve r model = None" by (simp add: res no)
    ultimately show ?thesis by (simp add: None)
  next
    case (Some pp)
    then have "pp \<in> set ?ps" and c: "claims pp model"
      by (auto simp: find_Some_iff simp del: set_sort)
    then have mem: "pp \<in> set (declared_prefixes providers)" by simp
    from c obtain rest where rest: "strip_namespace model (fst pp) = Some rest"
      by (auto simp: claims_def)
    have "length (fst qq) \<le> length (fst pp)"
      if "qq \<in> set (declared_prefixes providers)" "claims qq model" for qq
      using find_sorted_minimal [OF sorted_sort_key Some, of qq] that by simp
    then have longest: "\<forall>qq \<in> set (declared_prefixes providers).
        claims qq model \<longrightarrow> length (fst qq) \<le> length (fst pp)" by blast
    obtain pre provider where pp: "pp = (pre, provider)" by (cases pp)
    have target: "resolve r model = Some [\<lparr>tg_provider = provider, tg_model = Some rest\<rparr>]"
      using rest by (simp add: res Some pp)
    have "model = pre @ ''/'' @ rest \<and> rest \<noteq> []"
      using rest unfolding pp fst_conv strip_namespace_iff .
    with mem longest show ?thesis
      unfolding None target option.case pp fst_conv
      by (intro exI [of _ pre] exI [of _ provider] exI [of _ rest]) blast
  qed
qed

definition ex_providers :: "provider_config list" where
  "ex_providers =
     [\<lparr>pc_name = ''openrouter'', pc_kind = ''openai'', pc_endpoint = None, pc_credential = None,
       pc_prefix = Some ''or'', pc_settings = [], pc_limits = None, pc_model_limits = []\<rparr>,
      \<lparr>pc_name = ''direct'', pc_kind = ''openai'', pc_endpoint = None, pc_credential = None,
       pc_prefix = Some ''or/x'', pc_settings = [], pc_limits = None, pc_model_limits = []\<rparr>]"

theorem resolve_spec_witness:
  "resolve (router_new [] ex_providers) ''or/x/m'' =
     Some [\<lparr>tg_provider = ''direct'', tg_model = Some ''m''\<rparr>]"
proof -
  have d: "declared_prefixes ex_providers = [(''or'', ''openrouter''), (''or/x'', ''direct'')]"
    by (simp add: declared_prefixes_def ex_providers_def List.map_filter_def)
  have c: "claims (''or/x'', ''direct'') ''or/x/m''"
    by (simp add: claims_def strip_namespace_def)
  show ?thesis
    using resolve_spec [where model = "''or/x/m''" and routes = "[]" and providers = ex_providers] c
    by (auto simp: d split: option.splits)
qed

text \<open>
  Health is local and bounded. A penalty makes its provider, and only it, down until
  \<open>now + cooldown\<close> and not a second longer; clearing makes it healthy at once; both leave the
  verdict on every other provider alone, and the snapshot shows exactly these verdicts.
\<close>

theorem health_spec:
  assumes "hm_wf h"
  shows "is_down (penalize p now c h) q t = (if q = p then t < now + c else is_down h q t) \<and>
    is_down (health_clear p h) q t = (q \<noteq> p \<and> is_down h q t) \<and>
    hm_wf (penalize p now c h) \<and> hm_wf (health_clear p h) \<and>
    ((q, True) \<in> set (health_snapshot h t) \<longleftrightarrow> is_down h q t)"
proof -
  have "(q, True) \<in> set (health_snapshot h t) \<longleftrightarrow> (\<exists>until. (q, until) \<in> set h \<and> t < until)"
    by (force simp: health_snapshot_def)
  also have "\<dots> \<longleftrightarrow> is_down h q t"
    using hm_in_get [OF assms] by (auto simp: is_down_def is_some_and_iff dest: hm_get_Some_in)
  finally show ?thesis
    using assms
    by (auto simp: is_down_def penalize_def health_clear_def hm_contains_def hm_get_insert
        hm_get_remove hm_wf_insert hm_wf_remove)
qed

theorem health_spec_witness:
  "is_down (penalize ''p'' 100 15 health_new) ''p'' 114 \<and>
     \<not> is_down (penalize ''p'' 100 15 health_new) ''p'' 115"
proof -
  have "hm_wf health_new" by (simp add: health_new_def hm_simps)
  then show ?thesis
    using health_spec [of health_new "''p''" 100 15 "''p''" 114]
      health_spec [of health_new "''p''" 100 15 "''p''" 115] by simp
qed

end
