(* ===== verification/BatchId.thy ===== *)
theory BatchId
  imports Config Base64
begin

text \<open>
  Batch and file ids, \<open>crates/llmleaf-core/src/batch_id.rs\<close>: the routing of an asynchronous job
  travels in its id, signed and bound to its owner when the deployment has a secret. The
  URL-safe base64 of the \<open>base64\<close> crate is the parameter pair \<open>enc\<close>, \<open>dec\<close>, HMAC-SHA256 under the
  secret is the function a signer carries.
\<close>

section \<open>Payloads\<close>

definition sep :: char where "sep = CHR 0x1F"

definition batch_id_prefix :: string where "batch_id_prefix = ''batch_''"

definition file_id_prefix :: string where "file_id_prefix = ''file_''"

definition tag_len :: nat where "tag_len = 16"

datatype batch_id_error = Malformed

record batch_id_signer =
  sg_mac :: "string \<Rightarrow> string"

definition signer_new :: "(string \<Rightarrow> string \<Rightarrow> string) \<Rightarrow> string \<Rightarrow> batch_id_signer" where
  "signer_new hmac secret = \<lparr>sg_mac = hmac secret\<rparr>"

definition signer_tag :: "batch_id_signer \<Rightarrow> string \<Rightarrow> string" where
  "signer_tag sg payload = take tag_len (sg_mac sg payload)"

text \<open>The comparison without early exit: the differences of all bytes are or-ed together.\<close>

definition byte_diff :: "string \<Rightarrow> string \<Rightarrow> u8" where
  "byte_diff a b = fold (\<lambda>(x, y) acc. or acc (xor (u8_of_char x) (u8_of_char y))) (zip a b) 0"

definition signer_verify :: "batch_id_signer \<Rightarrow> string \<Rightarrow> string \<Rightarrow> bool" where
  "signer_verify sg payload tag =
     (if length tag \<noteq> tag_len then False
      else byte_diff (signer_tag sg payload) tag = 0)"

record decoded_batch =
  db_provider :: string
  db_upstream :: string
  db_owner :: "string option"

definition join3 :: "string \<Rightarrow> string \<Rightarrow> string \<Rightarrow> string" where
  "join3 a b c = a @ [sep] @ b @ [sep] @ c"

definition split_once :: "string \<Rightarrow> batch_id_error + string \<times> string" where
  "split_once bytes = ok_or (split_first sep bytes) Malformed"

definition rsplit_once :: "string \<Rightarrow> batch_id_error + string \<times> string" where
  "rsplit_once bytes = ok_or (split_last sep bytes) Malformed"

definition utf8 :: "string \<Rightarrow> batch_id_error + string" where
  "utf8 bytes = (if utf8_valid bytes then Inr bytes else Inl Malformed)"

definition split_fields :: "string \<Rightarrow> batch_id_error + string \<times> string" where
  "split_fields bytes =
     res_bind (split_once bytes) (\<lambda>(provider, upstream).
       if provider = [] then Inl Malformed
       else res_bind (utf8 provider) (\<lambda>p. res_bind (utf8 upstream) (\<lambda>u. Inr (p, u))))"

section \<open>Encoding and decoding\<close>

definition encode_with :: "(string \<Rightarrow> string) \<Rightarrow> string \<Rightarrow> string \<Rightarrow> string \<Rightarrow> string" where
  "encode_with enc pre provider upstream_id = pre @ enc (provider @ [sep] @ upstream_id)"

definition decode_payload ::
  "(string \<Rightarrow> string option) \<Rightarrow> string \<Rightarrow> string \<Rightarrow> batch_id_error + string" where
  "decode_payload dec pre token =
     res_bind (ok_or (strip_prefix pre token) Malformed) (\<lambda>b64. ok_or (dec b64) Malformed)"

definition encode_batch ::
  "(string \<Rightarrow> string) \<Rightarrow> string \<Rightarrow> string \<Rightarrow> string \<Rightarrow> batch_id_signer option \<Rightarrow> string" where
  "encode_batch enc provider upstream_id owner signer =
     (case signer of
        Some sg \<Rightarrow>
          (let head = join3 provider upstream_id owner;
               tag = signer_tag sg head;
               payload = head @ [sep] @ tag
           in batch_id_prefix @ enc payload)
      | None \<Rightarrow> encode_with enc batch_id_prefix provider upstream_id)"

definition decode_signed :: "batch_id_signer \<Rightarrow> string \<Rightarrow> batch_id_error + decoded_batch" where
  "decode_signed sg bytes =
     (if length bytes < tag_len + 1 \<or> bytes ! (length bytes - tag_len - 1) \<noteq> sep
      then Inl Malformed
      else
        let tag = drop (length bytes - tag_len) bytes;
            head = take (length bytes - tag_len) bytes;
            head = take (length head - 1) head
        in if \<not> signer_verify sg head tag then Inl Malformed
           else res_bind (split_once head) (\<lambda>(provider, rest).
                res_bind (rsplit_once rest) (\<lambda>(upstream, owner).
                  if provider = [] then Inl Malformed
                  else res_bind (utf8 provider) (\<lambda>p. res_bind (utf8 upstream) (\<lambda>u.
                       res_bind (utf8 owner) (\<lambda>w.
                         Inr \<lparr>db_provider = p, db_upstream = u, db_owner = Some w\<rparr>))))))"

definition decode_batch ::
  "(string \<Rightarrow> string option) \<Rightarrow> string \<Rightarrow> batch_id_signer option \<Rightarrow> batch_id_error + decoded_batch" where
  "decode_batch dec token signer =
     res_bind (decode_payload dec batch_id_prefix token) (\<lambda>bytes.
       case signer of
         Some sg \<Rightarrow> decode_signed sg bytes
       | None \<Rightarrow>
           res_bind (split_fields bytes) (\<lambda>(provider, upstream).
             Inr \<lparr>db_provider = provider, db_upstream = upstream, db_owner = None\<rparr>))"

definition encode_file :: "(string \<Rightarrow> string) \<Rightarrow> string \<Rightarrow> string \<Rightarrow> string" where
  "encode_file enc provider upstream_id = encode_with enc file_id_prefix provider upstream_id"

definition decode_file ::
  "(string \<Rightarrow> string option) \<Rightarrow> string \<Rightarrow> batch_id_error + string \<times> string" where
  "decode_file dec token = res_bind (decode_payload dec file_id_prefix token) split_fields"

section \<open>The codec\<close>

text \<open>What the ids rely on of the base64 codec: decoding inverts encoding.\<close>

locale payload_codec =
  fixes enc :: "string \<Rightarrow> string" and dec :: "string \<Rightarrow> string option"
  assumes dec_enc: "dec (enc bytes) = Some bytes"
begin

lemma payload: "decode_payload dec pre (pre @ enc bytes) = Inr bytes"
  by (simp add: decode_payload_def dec_enc)

lemma enc_inj: "enc a = enc b \<Longrightarrow> a = b"
  by (metis dec_enc option.inject)

end

text \<open>The codec of the key store and the embeddings surface is one.\<close>

definition b64_decode :: "string \<Rightarrow> string option" where
  "b64_decode s = b64_decode_into (length s) s"

lemma base64_encode_length: "length bs \<le> length (base64_encode bs)"
  by (induction bs rule: base64_encode.induct) (auto simp: Let_def)

interpretation b64: payload_codec base64_encode b64_decode
  by unfold_locales (simp add: b64_decode_def b64_decode_encode base64_encode_length)

section \<open>The tag\<close>

lemma byte_diff_fold:
  "fold (\<lambda>(x, y) acc. or acc (xor (u8_of_char x) (u8_of_char y))) (zip a b) acc =
     or acc (byte_diff a b)"
proof (induction a arbitrary: b acc)
  case (Cons x a)
  show ?case
  proof (cases b)
    case (Cons y b')
    show ?thesis
      by (simp add: Cons byte_diff_def) (simp add: Cons.IH or.assoc)
  qed (simp add: byte_diff_def)
qed (simp add: byte_diff_def)

lemma u8_of_char_inj: "u8_of_char x = u8_of_char y \<longleftrightarrow> x = y"
  by (metis char_of_u8_of_char)

lemma byte_diff_zero: "length a = length b \<Longrightarrow> byte_diff a b = 0 \<longleftrightarrow> a = b"
proof (induction a b rule: list_induct2)
  case (Cons x a y b)
  have "byte_diff (x # a) (y # b) = or (xor (u8_of_char x) (u8_of_char y)) (byte_diff a b)"
    by (simp add: byte_diff_def [of "x # a"] byte_diff_fold)
  moreover have "xor (u8_of_char x) (u8_of_char y) = 0 \<longleftrightarrow> x = y"
    by (metis u8_of_char_inj xor_self_eq xor.left_neutral xor.assoc)
  ultimately show ?case using Cons.IH by (simp add: or_eq_0_iff)
qed (simp add: byte_diff_def)

lemma signer_verify_iff:
  assumes "tag_len \<le> length (sg_mac sg payload)"
  shows "signer_verify sg payload tag \<longleftrightarrow> tag = signer_tag sg payload"
  using assms byte_diff_zero [of "signer_tag sg payload" tag]
  by (auto simp: signer_verify_def signer_tag_def)

section \<open>Round trips\<close>

lemma split_once_iff: "split_once bytes = Inr (a, b) \<longleftrightarrow> bytes = a @ [sep] @ b \<and> sep \<notin> set a"
  by (auto simp: split_once_def res_simps split_first_append dest: split_first_SomeD)

lemma rsplit_once_iff: "rsplit_once bytes = Inr (a, b) \<longleftrightarrow> bytes = a @ [sep] @ b \<and> sep \<notin> set b"
  by (auto simp: rsplit_once_def res_simps split_last_append dest: split_last_SomeD)

lemma utf8_Inr_iff [res_simps]: "utf8 s = Inr t \<longleftrightarrow> utf8_valid s \<and> t = s"
  by (auto simp: utf8_def)

lemma split_fields_iff:
  "split_fields bytes = Inr (p, u) \<longleftrightarrow>
     bytes = p @ [sep] @ u \<and> sep \<notin> set p \<and> p \<noteq> [] \<and> utf8_valid p \<and> utf8_valid u"
  by (auto simp: split_fields_def res_simps split_once_iff split: prod.splits if_splits)

text \<open>The three fields and the tag of a signed payload, taken apart from the right.\<close>

lemma decode_signed_layout:
  assumes "length tag = tag_len"
  shows "decode_signed sg (head @ [sep] @ tag) =
     (if \<not> signer_verify sg head tag then Inl Malformed
      else res_bind (split_once head) (\<lambda>(provider, rest).
           res_bind (rsplit_once rest) (\<lambda>(upstream, owner).
             if provider = [] then Inl Malformed
             else res_bind (utf8 provider) (\<lambda>p. res_bind (utf8 upstream) (\<lambda>u.
                  res_bind (utf8 owner) (\<lambda>w.
                    Inr \<lparr>db_provider = p, db_upstream = u, db_owner = Some w\<rparr>))))))"
  using assms by (simp add: decode_signed_def Let_def nth_append)

lemma decode_signed_short:
  assumes "\<not> (\<exists>head tag. bytes = head @ [sep] @ tag \<and> length tag = tag_len)"
  shows "decode_signed sg bytes = Inl Malformed"
proof -
  have "\<exists>head tag. bytes = head @ [sep] @ tag \<and> length tag = tag_len"
    if "tag_len + 1 \<le> length bytes" "bytes ! (length bytes - tag_len - 1) = sep"
  proof (intro exI conjI)
    let ?n = "length bytes - tag_len - 1"
    have "?n < length bytes" using that(1) by simp
    then have "bytes = take ?n bytes @ [bytes ! ?n] @ drop (Suc ?n) bytes"
      by (simp add: id_take_nth_drop)
    then show "bytes = take ?n bytes @ [sep] @ drop (Suc ?n) bytes" using that(2) by simp
    show "length (drop (Suc ?n) bytes) = tag_len" using that(1) by simp
  qed
  with assms show ?thesis by (auto simp: decode_signed_def)
qed

lemma decode_signed_iff:
  assumes "\<And>payload. tag_len \<le> length (sg_mac sg payload)"
  shows "decode_signed sg bytes = Inr d \<longleftrightarrow>
    (\<exists>p u w. bytes = join3 p u w @ [sep] @ signer_tag sg (join3 p u w) \<and>
       d = \<lparr>db_provider = p, db_upstream = u, db_owner = Some w\<rparr> \<and>
       p \<noteq> [] \<and> sep \<notin> set p \<and> sep \<notin> set w \<and>
       utf8_valid p \<and> utf8_valid u \<and> utf8_valid w)" (is "_ \<longleftrightarrow> ?R")
proof (cases "\<exists>head tag. bytes = head @ [sep] @ tag \<and> length tag = tag_len")
  case True
  then obtain head tag where b: "bytes = head @ [sep] @ tag" and len: "length tag = tag_len"
    by blast
  have tag_length: "length (signer_tag sg q) = tag_len" for q
    using assms by (simp add: signer_tag_def min_absorb2)
  have "decode_signed sg bytes = Inr d \<longleftrightarrow>
      tag = signer_tag sg head \<and>
      (\<exists>p u w. head = join3 p u w \<and> d = \<lparr>db_provider = p, db_upstream = u, db_owner = Some w\<rparr> \<and>
         p \<noteq> [] \<and> sep \<notin> set p \<and> sep \<notin> set w \<and>
         utf8_valid p \<and> utf8_valid u \<and> utf8_valid w)"
    unfolding b decode_signed_layout [OF len] signer_verify_iff [OF assms]
    by (auto simp: res_simps split_once_iff rsplit_once_iff join3_def
        split: prod.splits if_splits)
  also have "\<dots> \<longleftrightarrow> ?R"
    using len tag_length by (auto simp: b append_eq_append_conv)
  finally show ?thesis .
next
  case False
  have "length (signer_tag sg q) = tag_len" for q
    using assms by (simp add: signer_tag_def min_absorb2)
  with False decode_signed_short [OF False] show ?thesis by auto
qed

lemma signed_decodes:
  assumes "dec (enc (join3 p u w @ [sep] @ signer_tag sg (join3 p u w))) =
      Some (join3 p u w @ [sep] @ signer_tag sg (join3 p u w))"
    and "\<And>payload. tag_len \<le> length (sg_mac sg payload)"
    and "p \<noteq> []" "sep \<notin> set p" "sep \<notin> set w" "utf8_valid p" "utf8_valid u" "utf8_valid w"
  shows "decode_batch dec (encode_batch enc p u w (Some sg)) (Some sg) =
    Inr \<lparr>db_provider = p, db_upstream = u, db_owner = Some w\<rparr>"
proof -
  have "decode_signed sg (join3 p u w @ [sep] @ signer_tag sg (join3 p u w)) =
      Inr \<lparr>db_provider = p, db_upstream = u, db_owner = Some w\<rparr>"
    unfolding decode_signed_iff [OF assms(2)] using assms(3-) by blast
  then show ?thesis
    using assms(1) by (simp add: encode_batch_def decode_batch_def Let_def decode_payload_def)
qed

text \<open>
  ids round-trip, on whatever node decodes them: a signed id gives back provider,
  upstream id and owner, an unsigned one provider and upstream id, a file id likewise; the
  upstream id may contain anything, separators included. The codec law is what the base64
  crate documents, the tag length HMAC-SHA256's.
\<close>

theorem batch_id_roundtrip:
  assumes "\<And>bytes. dec (enc bytes) = Some bytes"
    and "\<And>payload. tag_len \<le> length (sg_mac sg payload)"
    and "p \<noteq> []" "sep \<notin> set p" "sep \<notin> set w"
    and "utf8_valid p" "utf8_valid u" "utf8_valid w"
  shows "decode_batch dec (encode_batch enc p u w (Some sg)) (Some sg) =
      Inr \<lparr>db_provider = p, db_upstream = u, db_owner = Some w\<rparr> \<and>
    decode_batch dec (encode_batch enc p u w None) None =
      Inr \<lparr>db_provider = p, db_upstream = u, db_owner = None\<rparr> \<and>
    decode_file dec (encode_file enc p u) = Inr (p, u)"
proof -
  have payload: "decode_payload dec pre (pre @ enc bytes) = Inr bytes" for pre bytes
    by (simp add: decode_payload_def assms(1))
  have fields: "split_fields (p @ sep # u) = Inr (p, u)"
    using assms(3-) by (simp add: split_fields_iff)
  have "decode_batch dec (encode_batch enc p u w (Some sg)) (Some sg) =
      Inr \<lparr>db_provider = p, db_upstream = u, db_owner = Some w\<rparr>"
    by (rule signed_decodes) (simp_all add: assms)
  with fields show ?thesis
    by (simp add: encode_batch_def decode_batch_def Let_def payload encode_with_def
        encode_file_def decode_file_def)
qed

definition ex_signer :: batch_id_signer where
  "ex_signer = signer_new (\<lambda>secret payload. take 16 (secret @ payload @ replicate 16 (CHR ''0''))) ''s3cret''"

lemma ex_signer_length: "tag_len \<le> length (sg_mac ex_signer payload)"
  by (simp add: ex_signer_def signer_new_def tag_len_def)

lemma ex_ids_valid: "utf8_valid ''openai''" "utf8_valid ''batch_1''" "utf8_valid ''alice''"
  "sep \<notin> set ''openai''" "sep \<notin> set ''alice''"
  by (rule utf8_valid_ascii; simp; fail)+ (simp_all add: sep_def)

theorem batch_id_roundtrip_witness:
  "decode_batch b64_decode (encode_batch base64_encode ''openai'' ''batch_1'' ''alice'' (Some ex_signer))
     (Some ex_signer) =
   Inr \<lparr>db_provider = ''openai'', db_upstream = ''batch_1'', db_owner = Some ''alice''\<rparr>"
  using batch_id_roundtrip [where dec = b64_decode and enc = base64_encode and sg = ex_signer
      and p = "''openai''" and u = "''batch_1''" and w = "''alice''"]
    b64.dec_enc ex_signer_length ex_ids_valid by simp

text \<open>
  C36: a signing deployment accepts only what a holder of the secret signed: a decoded batch
  comes with a payload that is exactly its provider, upstream id and owner followed by the
  16-byte tag of these three fields. So a stripped or altered owner, a legacy unsigned id or a
  truncated tag is \<open>Malformed\<close> unless its tag happens to be the right one.
\<close>

theorem signed_ids_authentic:
  assumes "\<And>payload. tag_len \<le> length (sg_mac sg payload)"
  shows "decode_batch dec token (Some sg) = Inr d \<longleftrightarrow>
    (\<exists>body p u w. token = batch_id_prefix @ body \<and>
       dec body = Some (join3 p u w @ [sep] @ take tag_len (sg_mac sg (join3 p u w))) \<and>
       d = \<lparr>db_provider = p, db_upstream = u, db_owner = Some w\<rparr> \<and>
       p \<noteq> [] \<and> sep \<notin> set p \<and> sep \<notin> set w \<and>
       utf8_valid p \<and> utf8_valid u \<and> utf8_valid w)"
  unfolding decode_batch_def decode_payload_def
  by (auto simp: res_simps decode_signed_iff [OF assms] strip_prefix_Some_iff signer_tag_def)

theorem signed_ids_authentic_witness:
  "\<not> (\<exists>d. decode_batch b64_decode (encode_batch base64_encode ''openai'' ''b'' ''alice'' None)
     (Some ex_signer) = Inr d)"
proof
  assume "\<exists>d. decode_batch b64_decode (encode_batch base64_encode ''openai'' ''b'' ''alice'' None)
     (Some ex_signer) = Inr d"
  then obtain body p u w where t: "encode_batch base64_encode ''openai'' ''b'' ''alice'' None = batch_id_prefix @ body"
    and d: "b64_decode body = Some (join3 p u w @ [sep] @ take tag_len (sg_mac ex_signer (join3 p u w)))"
    using signed_ids_authentic [OF ex_signer_length] by blast
  from t have "body = base64_encode (''openai'' @ [sep] @ ''b'')"
    by (simp add: encode_batch_def encode_with_def)
  then have "b64_decode body = Some (''openai'' @ [sep] @ ''b'')"
    by (simp only: b64.dec_enc)
  with d have "length (''openai'' @ [sep] @ ''b'') =
      length (join3 p u w @ [sep] @ take tag_len (sg_mac ex_signer (join3 p u w)))"
    by simp
  then show False
    using ex_signer_length [of "join3 p u w"] by (simp add: tag_len_def min_def split: if_splits)
qed

text \<open>
  Batch ids and file ids do not cross: neither kind, signed or not, ever decodes as the
  other, whatever the codec.
\<close>

theorem id_kinds_disjoint:
  "decode_file dec (encode_batch enc p u w sg) = Inl Malformed \<and>
   decode_batch dec (encode_file enc p u) sg' = Inl Malformed"
  by (simp add: decode_file_def decode_batch_def decode_payload_def encode_batch_def
      encode_file_def encode_with_def batch_id_prefix_def file_id_prefix_def Let_def split: option.splits)

text \<open>
  The owner boundary needs an owner without the separator. Key ids are checked for control
  bytes, an identity from an OAuth claim is not: an owner \<open>a\<close>, separator, \<open>b\<close> round-trips into
  an id whose owner is \<open>b\<close> and whose upstream id has swallowed \<open>a\<close>, with a valid tag.
\<close>

theorem owner_with_separator:
  assumes "\<And>bytes. dec (enc bytes) = Some bytes"
    and "\<And>payload. tag_len \<le> length (sg_mac sg payload)"
    and "p \<noteq> []" "sep \<notin> set p" "sep \<notin> set b"
    and "utf8_valid p" "utf8_valid (u @ [sep] @ a)" "utf8_valid b"
  shows "decode_batch dec (encode_batch enc p u (a @ [sep] @ b) (Some sg)) (Some sg) =
    Inr \<lparr>db_provider = p, db_upstream = u @ [sep] @ a, db_owner = Some b\<rparr>"
proof -
  have same: "join3 p u (a @ [sep] @ b) = join3 p (u @ [sep] @ a) b"
    by (simp add: join3_def)
  have "decode_signed sg (join3 p u (a @ [sep] @ b) @ [sep] @ signer_tag sg (join3 p u (a @ [sep] @ b))) =
      Inr \<lparr>db_provider = p, db_upstream = u @ [sep] @ a, db_owner = Some b\<rparr>"
    unfolding decode_signed_iff [OF assms(2)] same using assms(3-) by blast
  then show ?thesis
    by (simp add: encode_batch_def decode_batch_def Let_def decode_payload_def assms(1))
qed

theorem owner_with_separator_witness:
  "decode_batch b64_decode
     (encode_batch base64_encode ''openai'' ''b'' (''x'' @ [sep] @ ''alice'') (Some ex_signer))
     (Some ex_signer) =
   Inr \<lparr>db_provider = ''openai'', db_upstream = ''b'' @ [sep] @ ''x'', db_owner = Some ''alice''\<rparr>"
proof -
  have "utf8_valid (''b'' @ [sep] @ ''x'')"
    by (rule utf8_valid_ascii) (simp add: sep_def)
  then show ?thesis
    using owner_with_separator [where dec = b64_decode and enc = base64_encode and sg = ex_signer
        and p = "''openai''" and u = "''b''" and a = "''x''" and b = "''alice''"]
      b64.dec_enc ex_signer_length ex_ids_valid by simp
qed

end
