(* ===== verification/OAuth.thy ===== *)
theory OAuth
  imports Keys
begin

text \<open>
  OAuth2 bearer tokens, \<open>crates/llmleaf-core/src/oauth.rs\<close>, and the dispatch between them and
  the key store (\<open>authorize_token\<close> of \<open>server.rs\<close>): the verifier built from config, the signing
  keys installed by the refresher, the cache of proven tokens, roles mapped to models, and
  liveness by introspection. Token decoding and signature checks (\<open>jsonwebtoken\<close>) and the JWKS
  types are parameters; the answer of an introspection call is an argument of the request
  that makes it.
\<close>

section \<open>State\<close>

definition max_verified :: nat where "max_verified = 16384"

definition evict_batch :: nat where "evict_batch = 64"

datatype allow_set = AllModels | OnlyModels "string list"

fun allow_set_permit :: "allow_set \<Rightarrow> string \<Rightarrow> bool" where
  "allow_set_permit AllModels m = True"
| "allow_set_permit (OnlyModels s) m = allow_set_permits s m"

text \<open>The algorithms of \<open>jsonwebtoken\<close>: the HMAC family, and the public-key ones by name.\<close>

datatype algorithm = HS256 | HS384 | HS512 | PublicKey string

fun is_hmac :: "algorithm \<Rightarrow> bool" where
  "is_hmac HS256 = True"
| "is_hmac HS384 = True"
| "is_hmac HS512 = True"
| "is_hmac (PublicKey _) = False"

record validation =
  vd_algorithms :: "algorithm list"
  vd_issuer :: string
  vd_audience :: "string list"
  vd_validate_nbf :: bool
  vd_required_claims :: "string list"

record oauth_entry =
  oe_key_id :: string
  oe_allowed :: allow_set
  oe_exp :: u64
  oe_introspect_ok_until :: u64

record 'k oauth_verifier =
  ov_validation :: validation
  ov_identity_claim :: string
  ov_roles_claim :: string
  ov_role_models :: "(string, allow_set) hashmap"
  ov_introspect_ttl :: "u64 option"
  ov_jwks :: "(string, 'k) hashmap"
  ov_verified :: "(string, oauth_entry) hashmap"
  ov_introspector :: bool

section \<open>Construction and installs\<close>

text \<open>\<open>parse_jwks\<close>: \<open>jwk_set\<close> reads the JSON, \<open>from_jwk\<close> makes a key ready, or not.\<close>

definition parse_jwks ::
  "(json \<Rightarrow> string + (string option \<times> 'j) list) \<Rightarrow> ('j \<Rightarrow> 'k option) \<Rightarrow> json \<Rightarrow>
     string + (string, 'k) hashmap" where
  "parse_jwks jwk_set from_jwk value =
     res_bind (jwk_set value) (\<lambda>jwks.
       Inr (fold (\<lambda>(key_id, jwk) keys.
         case from_jwk jwk of
           Some key \<Rightarrow> hm_insert (unwrap_or [] key_id) key keys
         | None \<Rightarrow> keys) jwks hm_empty))"

fun usable_algorithms ::
  "(string \<Rightarrow> algorithm option) \<Rightarrow> string list \<Rightarrow> string + algorithm list" where
  "usable_algorithms from_str [] = Inr []"
| "usable_algorithms from_str (a # as) =
     (case from_str a of
        None \<Rightarrow> Inl ''unknown algorithm''
      | Some alg \<Rightarrow>
          if is_hmac alg then usable_algorithms from_str as
          else res_bind (usable_algorithms from_str as) (\<lambda>algs. Inr (alg # algs)))"

definition role_set :: "string list \<Rightarrow> allow_set" where
  "role_set models =
     (if list_ex (\<lambda>m. m = ''*'') models then AllModels else OnlyModels (remdups models))"

definition oauth_from_config ::
  "(string \<Rightarrow> algorithm option) \<Rightarrow> (json \<Rightarrow> string + (string option \<times> 'j) list) \<Rightarrow>
     ('j \<Rightarrow> 'k option) \<Rightarrow> oauth_config \<Rightarrow> string + 'k oauth_verifier" where
  "oauth_from_config from_str jwk_set from_jwk cfg =
     res_bind (usable_algorithms from_str (oa_algorithms cfg)) (\<lambda>algorithms.
       if algorithms = [] then Inl ''no usable algorithm''
       else res_bind (case oa_jwks cfg of
               Some value \<Rightarrow> parse_jwks jwk_set from_jwk value
             | None \<Rightarrow> Inr hm_empty) (\<lambda>keys.
         Inr \<lparr>ov_validation = \<lparr>vd_algorithms = algorithms, vd_issuer = oa_issuer cfg,
                vd_audience = oa_audience cfg, vd_validate_nbf = True,
                vd_required_claims = [''exp'', ''iss'', ''aud'']\<rparr>,
              ov_identity_claim = oa_identity_claim cfg, ov_roles_claim = oa_roles_claim cfg,
              ov_role_models = map (\<lambda>(role, models). (role, role_set models)) (oa_role_models cfg),
              ov_introspect_ttl = map_option in_cache_ttl_secs (oa_introspection cfg),
              ov_jwks = keys, ov_verified = hm_empty, ov_introspector = False\<rparr>))"

definition install_jwks ::
  "(json \<Rightarrow> string + (string option \<times> 'j) list) \<Rightarrow> ('j \<Rightarrow> 'k option) \<Rightarrow> json \<Rightarrow>
     'k oauth_verifier \<Rightarrow> (string + nat) \<times> 'k oauth_verifier" where
  "install_jwks jwk_set from_jwk value v =
     (case parse_jwks jwk_set from_jwk value of
        Inl e \<Rightarrow> (Inl e, v)
      | Inr keys \<Rightarrow> (Inr (length keys), v\<lparr>ov_jwks := keys\<rparr>))"

definition install_introspector :: "'k oauth_verifier \<Rightarrow> 'k oauth_verifier" where
  "install_introspector v = v\<lparr>ov_introspector := True\<rparr>"

section \<open>Claims\<close>

text \<open>\<open>str::split_whitespace\<close>: the non-empty pieces between runs of white space.\<close>

definition flush_word :: "string \<Rightarrow> string list" where
  "flush_word word = (if word = [] then [] else [word])"

function split_whitespace :: "string \<Rightarrow> string \<Rightarrow> string list" where
  "split_whitespace word s =
     (case s of
        [] \<Rightarrow> flush_word word
      | c # t \<Rightarrow>
          (case strip_white s of
             Some r \<Rightarrow> flush_word word @ split_whitespace [] r
           | None \<Rightarrow> split_whitespace (word @ [c]) t))"
  by pat_completeness auto
termination
  by (relation "measure (\<lambda>(word, s). length s)") (auto dest: strip_white_length)

declare split_whitespace.simps [simp del]

definition token_roles :: "'k oauth_verifier \<Rightarrow> json \<Rightarrow> string list" where
  "token_roles v claims =
     (case json_get claims (ov_roles_claim v) of
        Some (JArray arr) \<Rightarrow> List.map_filter as_str arr
      | Some (JString s) \<Rightarrow> split_whitespace [] s
      | _ \<Rightarrow> [])"

fun allowed_loop :: "(string, allow_set) hashmap \<Rightarrow> string list \<Rightarrow> string list \<Rightarrow> allow_set" where
  "allowed_loop role_models acc [] = OnlyModels acc"
| "allowed_loop role_models acc (role # roles) =
     (case hm_get role_models role of
        Some AllModels \<Rightarrow> AllModels
      | Some (OnlyModels s) \<Rightarrow> allowed_loop role_models (remdups (acc @ s)) roles
      | None \<Rightarrow> allowed_loop role_models acc roles)"

definition allowed_models :: "'k oauth_verifier \<Rightarrow> json \<Rightarrow> allow_set" where
  "allowed_models v claims = allowed_loop (ov_role_models v) [] (token_roles v claims)"

section \<open>Authorisation\<close>

text \<open>What \<open>jsonwebtoken\<close> answers: the \<open>kid\<close> of a token's header, and its verified claims.\<close>

record 'k jwt =
  jw_header :: "string \<Rightarrow> string option option"
  jw_decode :: "string \<Rightarrow> 'k \<Rightarrow> validation \<Rightarrow> json option"

definition model_answer :: "allow_set \<Rightarrow> string \<Rightarrow> string option \<Rightarrow> auth_error + string" where
  "model_answer allowed key_id model =
     (if is_none_or (allow_set_permit allowed) model then Inr key_id else Inl ModelNotAllowed)"

definition oauth_warm ::
  "'k oauth_verifier \<Rightarrow> string \<Rightarrow> u64 \<Rightarrow> oauth_entry option" where
  "oauth_warm v token now =
     (case hm_get (ov_verified v) token of
        None \<Rightarrow> None
      | Some entry \<Rightarrow>
          if now < oe_exp entry \<and>
             (ov_introspect_ttl v = None \<or> now < oe_introspect_ok_until entry)
          then Some entry else None)"

definition select_key :: "(string, 'k) hashmap \<Rightarrow> string \<Rightarrow> 'k option" where
  "select_key keys kid =
     or_else (hm_get keys kid) (case keys of [(_, key)] \<Rightarrow> Some key | _ \<Rightarrow> None)"

text \<open>\<open>introspect\<close> is what the identity provider answers to this request, if asked.\<close>

definition introspection ::
  "'k oauth_verifier \<Rightarrow> (string \<Rightarrow> string + bool) \<Rightarrow> string \<Rightarrow> u64 \<Rightarrow> auth_error + u64" where
  "introspection v introspect token now =
     (case ov_introspect_ttl v of
        None \<Rightarrow> Inr 0
      | Some ttl \<Rightarrow>
          if ov_introspector v
          then (case introspect token of
              Inr True \<Rightarrow> Inr (saturating_add now ttl)
            | Inr False \<Rightarrow> Inl Unknown
            | Inl e \<Rightarrow> Inl Unknown)
          else Inl Unknown)"

definition oauth_cold ::
  "'k jwt \<Rightarrow> (string \<Rightarrow> string + bool) \<Rightarrow> 'k oauth_verifier \<Rightarrow> string \<Rightarrow> u64 \<Rightarrow> auth_error + oauth_entry" where
  "oauth_cold jwt introspect v token now =
     res_bind (ok_or (jw_header jwt token) Unknown) (\<lambda>kid.
     res_bind (ok_or (select_key (ov_jwks v) (unwrap_or [] kid)) Unknown) (\<lambda>key.
     res_bind (ok_or (jw_decode jwt token key (ov_validation v)) Unknown) (\<lambda>claims.
     res_bind (ok_or (Option.bind (json_get claims (ov_identity_claim v)) as_str) Unknown) (\<lambda>key_id.
     res_bind (ok_or (Option.bind (json_get claims ''exp'') as_u64) Unknown) (\<lambda>exp.
     res_bind (introspection v introspect token now) (\<lambda>ok_until.
       Inr \<lparr>oe_key_id = key_id, oe_allowed = allowed_models v claims, oe_exp = exp,
            oe_introspect_ok_until = ok_until\<rparr>))))))"

definition cache_proven ::
  "string \<Rightarrow> oauth_entry \<Rightarrow> (string, oauth_entry) hashmap \<Rightarrow> (string, oauth_entry) hashmap" where
  "cache_proven token entry verified =
     hm_insert token entry
       (if max_verified \<le> length verified
        then fold hm_remove (take evict_batch (hm_keys verified)) verified
        else verified)"

definition oauth_authorize_inner ::
  "'k jwt \<Rightarrow> (string \<Rightarrow> string + bool) \<Rightarrow> 'k oauth_verifier \<Rightarrow> string \<Rightarrow> string option \<Rightarrow> u64 \<Rightarrow>
     (auth_error + string) \<times> 'k oauth_verifier" where
  "oauth_authorize_inner jwt introspect v token model now =
     (case oauth_warm v token now of
        Some entry \<Rightarrow> (model_answer (oe_allowed entry) (oe_key_id entry) model, v)
      | None \<Rightarrow>
          (case oauth_cold jwt introspect v token now of
             Inl e \<Rightarrow> (Inl e, v)
           | Inr entry \<Rightarrow>
               (model_answer (oe_allowed entry) (oe_key_id entry) model,
                v\<lparr>ov_verified := cache_proven token entry (ov_verified v)\<rparr>)))"

definition oauth_authorize where
  "oauth_authorize jwt introspect v token model now =
     oauth_authorize_inner jwt introspect v token (Some model) now"

definition oauth_authorize_identity where
  "oauth_authorize_identity jwt introspect v token now =
     oauth_authorize_inner jwt introspect v token None now"

section \<open>Dispatch\<close>

text \<open>\<open>token.split('.').count() == 3\<close>.\<close>

definition looks_like_jwt :: "string \<Rightarrow> bool" where
  "looks_like_jwt token \<longleftrightarrow> length (filter (\<lambda>c. c = CHR ''.'') token) + 1 = 3"

record 'k auth_state =
  as_oauth :: "'k oauth_verifier option"
  as_keys :: key_store

definition dispatch_token ::
  "(string \<Rightarrow> string \<Rightarrow> bool) \<Rightarrow> 'k jwt \<Rightarrow> (string \<Rightarrow> string + bool) \<Rightarrow> 'k auth_state \<Rightarrow> string \<Rightarrow>
     string option \<Rightarrow> u64 \<Rightarrow> (auth_error + string) \<times> 'k auth_state" where
  "dispatch_token verify jwt introspect st token model now =
     (case as_oauth st of
        Some oauth \<Rightarrow>
          if looks_like_jwt token
          then (case oauth_authorize_inner jwt introspect oauth token model now of
              (r, oauth') \<Rightarrow> (r, st\<lparr>as_oauth := Some oauth'\<rparr>))
          else (case authorize_inner verify (as_keys st) token model now of
              (r, _, ks) \<Rightarrow> (r, st\<lparr>as_keys := ks\<rparr>))
      | None \<Rightarrow>
          (case authorize_inner verify (as_keys st) token model now of
             (r, _, ks) \<Rightarrow> (r, st\<lparr>as_keys := ks\<rparr>)))"

definition authorize_token where
  "authorize_token verify jwt introspect st token model now =
     dispatch_token verify jwt introspect st token (Some model) now"

definition authorize_token_identity where
  "authorize_token_identity verify jwt introspect st token now =
     dispatch_token verify jwt introspect st token None now"

section \<open>Construction is safe\<close>

lemma usable_algorithms_safe:
  "usable_algorithms from_str as = Inr algs \<Longrightarrow> \<forall>a \<in> set algs. \<not> is_hmac a"
  by (induction as arbitrary: algs) (auto simp: res_simps split: option.splits if_splits)

lemma select_key_empty: "select_key hm_empty kid = None"
  by (simp add: select_key_def hm_get_empty) (simp add: hm_empty_def)

text \<open>
  The verifier cannot be configured into accepting forged tokens. Whatever algorithms the
  config lists, the ones accepted are public-key algorithms only (an HMAC one is dropped, a
  config with nothing else is refused), issuer, audience and expiry are required claims, and
  until signing keys are installed every token is \<open>Unknown\<close>.
\<close>

theorem oauth_config_safe:
  assumes "oauth_from_config from_str jwk_set from_jwk cfg = Inr v"
  shows "vd_algorithms (ov_validation v) \<noteq> [] \<and>
    (\<forall>a \<in> set (vd_algorithms (ov_validation v)). \<not> is_hmac a) \<and>
    vd_required_claims (ov_validation v) = [''exp'', ''iss'', ''aud''] \<and>
    (oa_jwks cfg = None \<longrightarrow>
       fst (oauth_authorize_inner jwt introspect v token model now) = Inl Unknown)"
proof -
  from assms have a: "\<forall>a \<in> set (vd_algorithms (ov_validation v)). \<not> is_hmac a"
    and ne: "vd_algorithms (ov_validation v) \<noteq> []"
    and req: "vd_required_claims (ov_validation v) = [''exp'', ''iss'', ''aud'']"
    and empty: "ov_verified v = hm_empty"
    and jwks: "oa_jwks cfg = None \<Longrightarrow> ov_jwks v = hm_empty"
    by (auto simp: oauth_from_config_def res_simps dest: usable_algorithms_safe
        split: if_splits option.splits)
  have "fst (oauth_authorize_inner jwt introspect v token model now) = Inl Unknown"
    if "oa_jwks cfg = None"
    using jwks [OF that]
    by (cases "jw_header jwt token")
      (simp_all add: oauth_authorize_inner_def oauth_warm_def empty hm_get_empty oauth_cold_def
        select_key_empty)
  with a ne req show ?thesis by blast
qed

definition ex_oauth_config :: oauth_config where
  "ex_oauth_config =
     \<lparr>oa_issuer = ''https://idp'', oa_audience = [''llm''], oa_jwks_uri = None, oa_jwks = None,
      oa_algorithms = [''HS256'', ''RS256''], oa_identity_claim = default_identity_claim,
      oa_roles_claim = default_roles_claim, oa_role_models = [(''dev'', [''gpt-*''])],
      oa_jwks_refresh_secs = default_jwks_refresh_secs, oa_timeout_ms = default_pull_timeout_ms,
      oa_on_error = Deny, oa_introspection = None\<rparr>"

definition ex_alg :: "string \<Rightarrow> algorithm option" where
  "ex_alg a = (if a = ''HS256'' then Some HS256 else Some (PublicKey a))"

definition ex_verifier :: "nat oauth_verifier" where
  "ex_verifier =
     \<lparr>ov_validation = \<lparr>vd_algorithms = [PublicKey ''RS256''], vd_issuer = ''https://idp'',
        vd_audience = [''llm''], vd_validate_nbf = True,
        vd_required_claims = [''exp'', ''iss'', ''aud'']\<rparr>,
      ov_identity_claim = ''sub'', ov_roles_claim = ''roles'',
      ov_role_models = [(''dev'', OnlyModels [''gpt-*''])], ov_introspect_ttl = None,
      ov_jwks = [], ov_verified = [], ov_introspector = False\<rparr>"

lemma ex_verifier_built:
  "oauth_from_config ex_alg (\<lambda>_. Inl ''no'') (\<lambda>_ :: nat. None) ex_oauth_config = Inr ex_verifier"
  by (simp add: oauth_from_config_def ex_oauth_config_def ex_alg_def ex_verifier_def role_set_def
      default_identity_claim_def default_roles_claim_def hm_empty_def)

theorem oauth_config_safe_witness:
  "fst (oauth_authorize_inner \<lparr>jw_header = \<lambda>_. Some None, jw_decode = \<lambda>_ _ _. Some (JObject [])\<rparr>
     (\<lambda>_. Inr True) ex_verifier ''a.b.c'' None 0) = Inl Unknown"
  using oauth_config_safe [OF ex_verifier_built] by (simp add: ex_oauth_config_def)

section \<open>Roles\<close>

lemma allowed_loop_permits:
  "allow_set_permit (allowed_loop rm acc roles) m \<longleftrightarrow>
     (\<exists>p \<in> set acc. glob p m) \<or>
     (\<exists>role \<in> set roles. \<exists>s. hm_get rm role = Some s \<and> allow_set_permit s m)"
proof (induction rm acc roles rule: allowed_loop.induct)
  case (2 rm acc role roles)
  show ?case
  proof (cases "hm_get rm role")
    case None
    with 2 show ?thesis by auto
  next
    case (Some a)
    then show ?thesis using 2 by (cases a) (auto simp: allow_set_permits_iff)
  qed
qed (simp add: allow_set_permits_iff)

lemma role_set_permits: "allow_set_permit (role_set models) m \<longleftrightarrow> (\<exists>p \<in> set models. glob p m)"
proof (cases "''*'' \<in> set models")
  case True
  have "glob ''*'' m"
    using glob_star [of "[]" m] by (metis drop_all glob_refl order_refl)
  with True show ?thesis by (auto simp: role_set_def list_ex_iff simp del: glob.simps)
next
  case False
  then show ?thesis by (auto simp: role_set_def list_ex_iff allow_set_permits_iff)
qed

lemma hm_get_map_snd: "hm_get (map (\<lambda>(k, v). (k, f v)) m) k = map_option f (hm_get m k)"
  by (simp add: hm_get_def map_of_map)

text \<open>
  A token may use a model exactly when one of the roles it carries is mapped, in the
  config, to a list with a pattern that matches it; a bare \<open>*\<close> grants every model, a token
  without a mapped role none. The early exit on a role that grants everything, and the order
  of the roles, change nothing.
\<close>

theorem roles_grant_models:
  assumes "oauth_from_config from_str jwk_set from_jwk cfg = Inr v"
  shows "allow_set_permit (allowed_models v claims) m \<longleftrightarrow>
    (\<exists>role \<in> set (token_roles v claims). \<exists>models.
       hm_get (oa_role_models cfg) role = Some models \<and> (\<exists>p \<in> set models. glob p m))"
proof -
  from assms have "ov_role_models v = map (\<lambda>(role, models). (role, role_set models)) (oa_role_models cfg)"
    by (auto simp: oauth_from_config_def res_simps split: if_splits)
  moreover have "(\<exists>s. map_option role_set x = Some s \<and> allow_set_permit s m) \<longleftrightarrow>
      (\<exists>models. x = Some models \<and> (\<exists>p \<in> set models. glob p m))" for x
    by (cases x) (simp_all add: role_set_permits)
  ultimately show ?thesis
    by (simp add: allowed_models_def allowed_loop_permits hm_get_map_snd)
qed

theorem roles_grant_models_witness:
  "allow_set_permit (allowed_models ex_verifier (JObject [(''roles'', JString ''ops dev'')])) ''gpt-4''"
proof -
  let ?c = "JObject [(''roles'', JString ''ops dev'')]"
  have "split_whitespace [] ''ops dev'' = [''ops'', ''dev'']" by code_simp
  then have "token_roles ex_verifier ?c = [''ops'', ''dev'']"
    by (simp add: token_roles_def ex_verifier_def hm_get_def)
  moreover have "hm_get (oa_role_models ex_oauth_config) ''dev'' = Some [''gpt-*'']"
    by (simp add: ex_oauth_config_def hm_get_def)
  moreover have "glob ''gpt-*'' ''gpt-4''" by code_simp
  ultimately show ?thesis
    using roles_grant_models [OF ex_verifier_built, of ?c "''gpt-4''"] by auto
qed

section \<open>The proven-token cache\<close>

lemma hm_keys_remove: "hm_keys (hm_remove k m) = removeAll k (hm_keys m)"
  by (simp add: hm_keys_def hm_remove_def delete_keys)

lemma hm_remove_length:
  assumes "hm_wf m" "k \<in> set (hm_keys m)"
  shows "length (hm_remove k m) = length m - 1"
proof -
  have "length (hm_remove k m) = length (hm_keys (hm_remove k m))" by (simp add: hm_keys_def)
  also have "\<dots> = length (remove1 k (hm_keys m))"
    using assms(1) by (simp add: hm_keys_remove hm_wf_def distinct_remove1_removeAll)
  also have "\<dots> = length m - 1"
    using assms(2) by (simp add: length_remove1) (simp add: hm_keys_def)
  finally show ?thesis .
qed

lemma fold_remove_length:
  assumes "hm_wf m" "distinct ks" "set ks \<subseteq> set (hm_keys m)"
  shows "length (fold hm_remove ks m) = length m - length ks \<and> hm_wf (fold hm_remove ks m)"
  using assms
proof (induction ks arbitrary: m)
  case (Cons k ks)
  have "set ks \<subseteq> set (hm_keys (hm_remove k m))"
    using Cons.prems(2,3) by (auto simp: hm_keys_remove)
  with Cons.IH [of "hm_remove k m"] Cons.prems
  show ?case by (simp add: hm_remove_length hm_wf_remove)
qed simp

lemma hm_insert_length: "length (hm_insert k v m) \<le> Suc (length m)"
  by (induction m) (auto simp: hm_insert_def)

lemma cache_proven_bound:
  assumes "hm_wf verified" "length verified \<le> max_verified"
  shows "hm_wf (cache_proven token e verified) \<and> length (cache_proven token e verified) \<le> max_verified"
proof (cases "max_verified \<le> length verified")
  case True
  let ?ks = "take evict_batch (hm_keys verified)"
  have "length ?ks = evict_batch"
    using True by (simp add: hm_keys_def max_verified_def evict_batch_def)
  moreover have "distinct ?ks" "set ?ks \<subseteq> set (hm_keys verified)"
    using assms(1) by (auto simp: hm_wf_def dest: in_set_takeD)
  ultimately have "length (fold hm_remove ?ks verified) = length verified - evict_batch \<and>
      hm_wf (fold hm_remove ?ks verified)"
    using fold_remove_length [OF assms(1)] by metis
  with True assms(2) show ?thesis
    using hm_insert_length [of token e "fold hm_remove ?ks verified"]
    by (simp add: cache_proven_def hm_wf_insert max_verified_def evict_batch_def)
next
  case False
  with assms show ?thesis
    using hm_insert_length [of token e verified] by (simp add: cache_proven_def hm_wf_insert)
qed

section \<open>Concurrent requests\<close>

text \<open>
  A request awaits the introspection call between reading the signing keys and writing the
  cache, so installs and other requests run in between: its cold path may use the verifier as
  it was at any earlier point (\<open>os_history\<close>), its cache write lands on the current one.
  \<open>os_active\<close> records the positive introspection answers, \<open>os_answers\<close> what was answered and
  whether from the cache.
\<close>

record 'k oauth_shared =
  os_verifier :: "'k oauth_verifier"
  os_history :: "'k oauth_verifier list"
  os_active :: "(string \<times> u64) list"
  os_answers :: "(string \<times> string option \<times> u64 \<times> bool \<times> (auth_error + string)) list"

definition active_answer ::
  "'k oauth_verifier \<Rightarrow> (string \<Rightarrow> string + bool) \<Rightarrow> string \<Rightarrow> u64 \<Rightarrow> (string \<times> u64) list" where
  "active_answer v introspect token now =
     (if ov_introspect_ttl v \<noteq> None \<and> ov_introspector v \<and> introspect token = Inr True
      then [(token, now)] else [])"

inductive oauth_step :: "'k jwt \<Rightarrow> 'k oauth_shared \<Rightarrow> 'k oauth_shared \<Rightarrow> bool" for jwt where
  warm: "oauth_warm (os_verifier s) token now = Some entry \<Longrightarrow>
    oauth_step jwt s (s\<lparr>os_answers :=
      (token, model, now, True, model_answer (oe_allowed entry) (oe_key_id entry) model) # os_answers s\<rparr>)"
| cold: "v \<in> set (os_verifier s # os_history s) \<Longrightarrow>
    oauth_cold jwt introspect v token now = Inr entry \<Longrightarrow>
    oauth_step jwt s (s\<lparr>
      os_verifier := (os_verifier s)\<lparr>ov_verified :=
        cache_proven token entry (ov_verified (os_verifier s))\<rparr>,
      os_history := os_verifier s # os_history s,
      os_active := active_answer v introspect token now @ os_active s,
      os_answers := (token, model, now, False,
        model_answer (oe_allowed entry) (oe_key_id entry) model) # os_answers s\<rparr>)"
| denied: "v \<in> set (os_verifier s # os_history s) \<Longrightarrow>
    oauth_cold jwt introspect v token now = Inl e \<Longrightarrow>
    oauth_step jwt s (s\<lparr>os_answers := (token, model, now, False, Inl e) # os_answers s\<rparr>)"
| jwks: "oauth_step jwt s (s\<lparr>os_verifier := (os_verifier s)\<lparr>ov_jwks := keys\<rparr>,
      os_history := os_verifier s # os_history s\<rparr>)"
| wire: "oauth_step jwt s (s\<lparr>os_verifier := install_introspector (os_verifier s),
      os_history := os_verifier s # os_history s\<rparr>)"

inductive oauth_reachable :: "'k jwt \<Rightarrow> 'k oauth_verifier \<Rightarrow> 'k oauth_shared \<Rightarrow> bool" for jwt v where
  init: "ov_verified v = hm_empty \<Longrightarrow>
    oauth_reachable jwt v \<lparr>os_verifier = v, os_history = [], os_active = [], os_answers = []\<rparr>"
| step: "oauth_reachable jwt v s \<Longrightarrow> oauth_step jwt s s' \<Longrightarrow> oauth_reachable jwt v s'"

text \<open>The parts of a verifier no operation changes.\<close>

definition same_policy :: "'k oauth_verifier \<Rightarrow> 'k oauth_verifier \<Rightarrow> bool" where
  "same_policy v w \<longleftrightarrow> ov_validation w = ov_validation v \<and>
     ov_identity_claim w = ov_identity_claim v \<and> ov_roles_claim w = ov_roles_claim v \<and>
     ov_role_models w = ov_role_models v \<and> ov_introspect_ttl w = ov_introspect_ttl v"

text \<open>\<open>claims\<close> were verified for \<open>token\<close> with a signing key that was installed at some time.\<close>

definition verified_claims ::
  "'k jwt \<Rightarrow> 'k oauth_verifier \<Rightarrow> 'k oauth_verifier list \<Rightarrow> string \<Rightarrow> json \<Rightarrow> bool" where
  "verified_claims jwt v history token claims \<longleftrightarrow>
     (\<exists>w \<in> set history. \<exists>key \<in> snd ` set (ov_jwks w).
        jw_decode jwt token key (ov_validation v) = Some claims)"

definition entry_proven ::
  "'k jwt \<Rightarrow> 'k oauth_verifier \<Rightarrow> 'k oauth_shared \<Rightarrow> string \<Rightarrow> oauth_entry \<Rightarrow> bool" where
  "entry_proven jwt v s token e \<longleftrightarrow>
     (\<exists>claims. verified_claims jwt v (os_verifier s # os_history s) token claims \<and>
        Option.bind (json_get claims (ov_identity_claim v)) as_str = Some (oe_key_id e) \<and>
        Option.bind (json_get claims ''exp'') as_u64 = Some (oe_exp e) \<and>
        oe_allowed e = allowed_models v claims) \<and>
     (\<forall>ttl. ov_introspect_ttl v = Some ttl \<longrightarrow>
        (\<exists>t. (token, t) \<in> set (os_active s) \<and> oe_introspect_ok_until e = saturating_add t ttl))"

definition answer_proven ::
  "'k jwt \<Rightarrow> 'k oauth_verifier \<Rightarrow> 'k oauth_shared \<Rightarrow> string \<Rightarrow> string option \<Rightarrow> u64 \<Rightarrow> bool \<Rightarrow> string \<Rightarrow> bool"
where
  "answer_proven jwt v s token model now cached d \<longleftrightarrow>
     (\<exists>claims. verified_claims jwt v (os_verifier s # os_history s) token claims \<and>
        Option.bind (json_get claims (ov_identity_claim v)) as_str = Some d \<and>
        (\<forall>m. model = Some m \<longrightarrow> allow_set_permit (allowed_models v claims) m) \<and>
        (cached \<longrightarrow> (\<exists>exp. Option.bind (json_get claims ''exp'') as_u64 = Some exp \<and> now < exp))) \<and>
     (\<forall>ttl. ov_introspect_ttl v = Some ttl \<longrightarrow>
        (\<exists>t. (token, t) \<in> set (os_active s) \<and> (t = now \<and> \<not> cached \<or> now < saturating_add t ttl)))"

definition oauth_inv :: "'k jwt \<Rightarrow> 'k oauth_verifier \<Rightarrow> 'k oauth_shared \<Rightarrow> bool" where
  "oauth_inv jwt v s \<longleftrightarrow>
     (\<forall>w \<in> set (os_verifier s # os_history s). same_policy v w) \<and>
     (\<forall>(token, e) \<in> set (ov_verified (os_verifier s)). entry_proven jwt v s token e) \<and>
     hm_wf (ov_verified (os_verifier s)) \<and> length (ov_verified (os_verifier s)) \<le> max_verified \<and>
     (\<forall>(token, model, now, cached, r) \<in> set (os_answers s). \<forall>d. r = Inr d \<longrightarrow>
        answer_proven jwt v s token model now cached d)"

lemma verified_claims_mono:
  "verified_claims jwt v h token claims \<Longrightarrow> set h \<subseteq> set h' \<Longrightarrow> verified_claims jwt v h' token claims"
  by (auto simp: verified_claims_def)

lemma proven_mono:
  assumes "set (os_verifier s # os_history s) \<subseteq> set (os_verifier s' # os_history s')"
    and "set (os_active s) \<subseteq> set (os_active s')"
  shows "entry_proven jwt v s token e \<Longrightarrow> entry_proven jwt v s' token e"
    and "answer_proven jwt v s token model now cached d \<Longrightarrow> answer_proven jwt v s' token model now cached d"
  using assms verified_claims_mono [OF _ assms(1)]
  unfolding entry_proven_def answer_proven_def by blast+

lemma same_policy_models: "same_policy v w \<Longrightarrow> allowed_models w claims = allowed_models v claims"
  by (simp add: same_policy_def allowed_models_def token_roles_def)

lemma select_key_in: "select_key keys kid = Some key \<Longrightarrow> key \<in> snd ` set keys"
  by (cases "hm_get keys kid")
    (force simp: select_key_def split: list.splits dest: hm_get_Some_in)+

lemma oauth_cold_proven:
  assumes "oauth_cold jwt introspect w token now = Inr e" "same_policy v w"
    and "w \<in> set (os_verifier s # os_history s)"
    and "set (active_answer w introspect token now) \<subseteq> set (os_active s)"
  shows "entry_proven jwt v s token e"
    and "\<forall>ttl. ov_introspect_ttl v = Some ttl \<longrightarrow> (token, now) \<in> set (os_active s)"
proof -
  from assms(1) obtain kid key claims where
    key: "select_key (ov_jwks w) kid = Some key"
    and dec: "jw_decode jwt token key (ov_validation w) = Some claims"
    and i: "Option.bind (json_get claims (ov_identity_claim w)) as_str = Some (oe_key_id e)"
    and x: "Option.bind (json_get claims ''exp'') as_u64 = Some (oe_exp e)"
    and al: "oe_allowed e = allowed_models w claims"
    and intro: "introspection w introspect token now = Inr (oe_introspect_ok_until e)"
    by (auto simp: oauth_cold_def res_simps)
  have "verified_claims jwt v (os_verifier s # os_history s) token claims"
    using select_key_in [OF key] dec assms(2,3) by (auto simp: verified_claims_def same_policy_def)
  moreover have act: "(token, now) \<in> set (os_active s) \<and> oe_introspect_ok_until e = saturating_add now ttl"
    if "ov_introspect_ttl v = Some ttl" for ttl
  proof -
    have "ov_introspect_ttl w = Some ttl" using that assms(2) by (simp add: same_policy_def)
    with intro have "introspect token = Inr True" "ov_introspector w"
      "oe_introspect_ok_until e = saturating_add now ttl"
      by (auto simp: introspection_def split: if_splits sum.splits bool.splits)
    with assms(4) \<open>ov_introspect_ttl w = Some ttl\<close> show ?thesis
      by (simp add: active_answer_def)
  qed
  ultimately show "entry_proven jwt v s token e"
    using i x al same_policy_models [OF assms(2)] assms(2)
    by (auto simp: entry_proven_def same_policy_def)
  show "\<forall>ttl. ov_introspect_ttl v = Some ttl \<longrightarrow> (token, now) \<in> set (os_active s)"
    using act by blast
qed

lemma answer_from_entry:
  assumes "entry_proven jwt v s token e"
    and "model_answer (oe_allowed e) (oe_key_id e) model = Inr d"
    and "cached \<Longrightarrow> now < oe_exp e"
    and "\<And>ttl. ov_introspect_ttl v = Some ttl \<Longrightarrow>
      now < oe_introspect_ok_until e \<or> \<not> cached \<and> (token, now) \<in> set (os_active s)"
  shows "answer_proven jwt v s token model now cached d"
proof -
  from assms(2) have d: "d = oe_key_id e"
    and m: "\<forall>m. model = Some m \<longrightarrow> allow_set_permit (oe_allowed e) m"
    by (auto simp: model_answer_def split: if_splits)
  from assms(1,3) d m show ?thesis
    using assms(4) unfolding entry_proven_def answer_proven_def by metis
qed

lemma cache_proven_subset:
  assumes "(t, e) \<in> set (cache_proven token entry verified)"
  shows "(t, e) = (token, entry) \<or> (t, e) \<in> set verified"
proof -
  have sub: "set (fold hm_remove ks m) \<subseteq> set m" for ks and m :: "(string, oauth_entry) hashmap"
  proof (induction ks arbitrary: m)
    case (Cons k ks)
    have "set (hm_remove k m) \<subseteq> set m" by (auto simp: hm_remove_def AList.delete_eq)
    with Cons [of "hm_remove k m"] show ?case by simp
  qed simp
  show ?thesis
    using assms
    by (auto simp: cache_proven_def hm_insert_def split: if_splits
        dest!: subsetD [OF set_update_subset] subsetD [OF sub])
qed

lemma oauth_warm_Some:
  "oauth_warm v token now = Some e \<Longrightarrow> hm_get (ov_verified v) token = Some e \<and> now < oe_exp e \<and>
     (\<forall>ttl. ov_introspect_ttl v = Some ttl \<longrightarrow> now < oe_introspect_ok_until e)"
  by (auto simp: oauth_warm_def split: option.splits if_splits)

text \<open>A step keeps the invariant when what it adds is proven.\<close>

lemma oauth_inv_extend:
  assumes "oauth_inv jwt v s"
    and "set (os_verifier s # os_history s) \<subseteq> set (os_verifier s' # os_history s') \<or>
      os_verifier s' = (os_verifier s)\<lparr>ov_verified := ver\<rparr> \<and> os_history s' = os_verifier s # os_history s"
    and "set (os_active s) \<subseteq> set (os_active s')"
    and "\<forall>w \<in> set (os_verifier s' # os_history s'). same_policy v w"
    and "hm_wf (ov_verified (os_verifier s')) \<and> length (ov_verified (os_verifier s')) \<le> max_verified"
    and "\<forall>(t, e) \<in> set (ov_verified (os_verifier s')).
      (t, e) \<in> set (ov_verified (os_verifier s)) \<or> entry_proven jwt v s' t e"
    and "\<forall>(t, m, n, c, r) \<in> set (os_answers s').
      (t, m, n, c, r) \<in> set (os_answers s) \<or> (\<forall>d. r = Inr d \<longrightarrow> answer_proven jwt v s' t m n c d)"
  shows "oauth_inv jwt v s'"
proof -
  from assms(2) have sub: "set (os_verifier s # os_history s) \<subseteq> set (os_verifier s' # os_history s')"
    by auto
  note mono = proven_mono [OF sub assms(3)]
  have e: "entry_proven jwt v s' t e" if "(t, e) \<in> set (ov_verified (os_verifier s'))" for t e
  proof -
    have "(t, e) \<in> set (ov_verified (os_verifier s)) \<Longrightarrow> entry_proven jwt v s t e"
      using assms(1) by (auto simp: oauth_inv_def)
    with bspec [OF assms(6) that] mono(1) show ?thesis by auto
  qed
  have a: "answer_proven jwt v s' t m n c d" if "(t, m, n, c, Inr d) \<in> set (os_answers s')" for t m n c d
  proof -
    have "(t, m, n, c, Inr d) \<in> set (os_answers s) \<Longrightarrow> answer_proven jwt v s t m n c d"
      using assms(1) by (auto simp: oauth_inv_def)
    with bspec [OF assms(7) that] mono(2) show ?thesis by auto
  qed
  show ?thesis
    unfolding oauth_inv_def using assms(4,5) e a by auto
qed

lemma oauth_inv_warm:
  assumes inv: "oauth_inv jwt v s" and warm: "oauth_warm (os_verifier s) token now = Some entry"
  shows "oauth_inv jwt v (s\<lparr>os_answers :=
      (token, model, now, True, model_answer (oe_allowed entry) (oe_key_id entry) model) # os_answers s\<rparr>)"
    (is "oauth_inv jwt v ?s")
proof (rule oauth_inv_extend [OF inv])
  note w = oauth_warm_Some [OF warm]
  then have p: "entry_proven jwt v s token entry"
    using inv by (auto simp: oauth_inv_def dest: hm_get_Some_in)
  have ttl: "ov_introspect_ttl (os_verifier s) = ov_introspect_ttl v"
    using inv by (simp add: oauth_inv_def same_policy_def)
  have "answer_proven jwt v ?s token model now True d"
    if "model_answer (oe_allowed entry) (oe_key_id entry) model = Inr d" for d
  proof (rule proven_mono(2) [of s ?s])
    show "answer_proven jwt v s token model now True d"
      using p that w ttl by (intro answer_from_entry) auto
  qed auto
  then show "\<forall>(t, m, n, c, r) \<in> set (os_answers ?s).
      (t, m, n, c, r) \<in> set (os_answers s) \<or> (\<forall>d. r = Inr d \<longrightarrow> answer_proven jwt v ?s t m n c d)"
    by auto
qed (use inv in \<open>auto simp: oauth_inv_def\<close>)

lemma oauth_inv_cold:
  assumes inv: "oauth_inv jwt v s" and w: "w \<in> set (os_verifier s # os_history s)"
    and cold: "oauth_cold jwt introspect w token now = Inr entry"
  shows "oauth_inv jwt v (s\<lparr>
      os_verifier := (os_verifier s)\<lparr>ov_verified :=
        cache_proven token entry (ov_verified (os_verifier s))\<rparr>,
      os_history := os_verifier s # os_history s,
      os_active := active_answer w introspect token now @ os_active s,
      os_answers := (token, model, now, False,
        model_answer (oe_allowed entry) (oe_key_id entry) model) # os_answers s\<rparr>)"
    (is "oauth_inv jwt v ?s")
proof (rule oauth_inv_extend [OF inv])
  have pol: "same_policy v w" using w inv by (auto simp: oauth_inv_def)
  have "w \<in> set (os_verifier ?s # os_history ?s)" using w by auto
  then have new: "entry_proven jwt v ?s token entry"
    and act: "\<forall>ttl. ov_introspect_ttl v = Some ttl \<longrightarrow> (token, now) \<in> set (os_active ?s)"
    by (rule oauth_cold_proven [OF cold pol]; simp)+
  have "answer_proven jwt v ?s token model now False d"
    if "model_answer (oe_allowed entry) (oe_key_id entry) model = Inr d" for d
    using act by (intro answer_from_entry [OF new that]) auto
  then show "\<forall>(t, m, n, c, r) \<in> set (os_answers ?s).
      (t, m, n, c, r) \<in> set (os_answers s) \<or> (\<forall>d. r = Inr d \<longrightarrow> answer_proven jwt v ?s t m n c d)"
    by auto
  show "\<forall>(t, e) \<in> set (ov_verified (os_verifier ?s)).
      (t, e) \<in> set (ov_verified (os_verifier s)) \<or> entry_proven jwt v ?s t e"
    using new by (auto dest!: cache_proven_subset)
  show "\<forall>w \<in> set (os_verifier ?s # os_history ?s). same_policy v w"
    using inv by (auto simp: oauth_inv_def same_policy_def)
  show "hm_wf (ov_verified (os_verifier ?s)) \<and> length (ov_verified (os_verifier ?s)) \<le> max_verified"
    using inv cache_proven_bound by (simp add: oauth_inv_def)
qed auto

lemma oauth_inv_step: "oauth_step jwt s s' \<Longrightarrow> oauth_inv jwt v s \<Longrightarrow> oauth_inv jwt v s'"
proof (induction rule: oauth_step.induct)
  case (warm s token now entry model)
  then show ?case by (intro oauth_inv_warm)
next
  case (cold w s introspect token now entry model)
  then show ?case by (intro oauth_inv_cold)
next
  case (denied w s introspect token now e model)
  show ?case
    by (rule oauth_inv_extend [OF denied.prems]) (use denied.prems in \<open>auto simp: oauth_inv_def\<close>)
next
  case (jwks s keys)
  show ?case
    by (rule oauth_inv_extend [OF jwks.prems])
      (use jwks.prems in \<open>auto simp: oauth_inv_def same_policy_def\<close>)
next
  case (wire s)
  show ?case
    by (rule oauth_inv_extend [OF wire.prems])
      (use wire.prems in \<open>auto simp: oauth_inv_def same_policy_def install_introspector_def\<close>)
qed

text \<open>
  C35: no bearer token is accepted without proof, under any interleaving of requests, cached
  answers, key rotations and evictions. An accepted request's token was verified with a
  signing key that was installed, its identity is the identity claim, its roles grant the
  model, an answer from the cache was given before the token's own expiry, and where
  introspection is configured the provider reported this token active for this request or
  within the cache time. The cache never exceeds its bound.
\<close>

theorem oauth_answers_proven:
  assumes "oauth_reachable jwt v s"
    and "(token, model, now, cached, Inr d) \<in> set (os_answers s)"
  shows "(\<exists>claims. verified_claims jwt v (os_verifier s # os_history s) token claims \<and>
       Option.bind (json_get claims (ov_identity_claim v)) as_str = Some d \<and>
       (\<forall>m. model = Some m \<longrightarrow> allow_set_permit (allowed_models v claims) m) \<and>
       (cached \<longrightarrow> (\<exists>exp. Option.bind (json_get claims ''exp'') as_u64 = Some exp \<and> now < exp))) \<and>
    (\<forall>ttl. ov_introspect_ttl v = Some ttl \<longrightarrow>
       (\<exists>t. (token, t) \<in> set (os_active s) \<and> (t = now \<and> \<not> cached \<or> now < saturating_add t ttl))) \<and>
    length (ov_verified (os_verifier s)) \<le> max_verified"
proof -
  from assms(1) have "oauth_inv jwt v s"
  proof (induction rule: oauth_reachable.induct)
    case init
    then show ?case
      by (simp add: oauth_inv_def same_policy_def hm_wf_empty) (simp add: hm_empty_def)
  qed (rule oauth_inv_step)
  with assms(2) show ?thesis
    unfolding oauth_inv_def answer_proven_def by blast
qed

definition ex_claims :: json where
  "ex_claims = JObject [(''sub'', JString ''alice''), (''exp'', JNumber (PosInt 100)),
     (''roles'', JArray [JString ''dev''])]"

definition ex_jwt :: "nat jwt" where
  "ex_jwt = \<lparr>jw_header = \<lambda>_. Some (Some ''k1''), jw_decode = \<lambda>_ _ _. Some ex_claims\<rparr>"

definition ex_primed :: "nat oauth_verifier" where
  "ex_primed = ex_verifier\<lparr>ov_jwks := [(''k1'', 7)]\<rparr>"

definition ex_proven :: oauth_entry where
  "ex_proven = \<lparr>oe_key_id = ''alice'', oe_allowed = OnlyModels [''gpt-*''], oe_exp = 100,
     oe_introspect_ok_until = 0\<rparr>"

lemma ex_cold: "oauth_cold ex_jwt (\<lambda>_. Inr True) ex_primed ''a.b.c'' 5 = Inr ex_proven"
  by (simp add: oauth_cold_def ex_jwt_def ex_primed_def ex_verifier_def ex_claims_def ex_proven_def
      select_key_def hm_get_def introspection_def allowed_models_def token_roles_def List.map_filter_def)

theorem oauth_answers_proven_witness:
  "\<exists>claims. verified_claims ex_jwt ex_primed [ex_primed] ''a.b.c'' claims \<and>
     allow_set_permit (allowed_models ex_primed claims) ''gpt-4''"
proof -
  let ?s0 = "\<lparr>os_verifier = ex_primed, os_history = [], os_active = [], os_answers = []\<rparr>"
  let ?s1 = "?s0\<lparr>
      os_verifier := (os_verifier ?s0)\<lparr>ov_verified :=
        cache_proven ''a.b.c'' ex_proven (ov_verified (os_verifier ?s0))\<rparr>,
      os_history := os_verifier ?s0 # os_history ?s0,
      os_active := active_answer ex_primed (\<lambda>_. Inr True) ''a.b.c'' 5 @ os_active ?s0,
      os_answers := (''a.b.c'', Some ''gpt-4'', 5, False,
        model_answer (oe_allowed ex_proven) (oe_key_id ex_proven) (Some ''gpt-4'')) # os_answers ?s0\<rparr>"
  have "oauth_reachable ex_jwt ex_primed ?s0"
    by (rule oauth_reachable.init) (simp add: ex_primed_def ex_verifier_def hm_empty_def)
  moreover have "oauth_step ex_jwt ?s0 ?s1"
    by (rule oauth_step.cold [OF _ ex_cold]) simp
  ultimately have reach: "oauth_reachable ex_jwt ex_primed ?s1" by (rule oauth_reachable.step)
  have "glob ''gpt-*'' ''gpt-4''" by code_simp
  then have "model_answer (oe_allowed ex_proven) (oe_key_id ex_proven) (Some ''gpt-4'') = Inr ''alice''"
    by (simp add: model_answer_def ex_proven_def allow_set_permits_iff)
  then have mem: "(''a.b.c'', Some ''gpt-4'', 5, False, Inr ''alice'') \<in> set (os_answers ?s1)" by simp
  from oauth_answers_proven [OF reach mem] obtain claims
    where "verified_claims ex_jwt ex_primed (os_verifier ?s1 # os_history ?s1) ''a.b.c'' claims"
      and "allow_set_permit (allowed_models ex_primed claims) ''gpt-4''" by blast
  then show ?thesis by (intro exI [of _ claims]) (auto simp: verified_claims_def)
qed

section \<open>The contract, and the dispatch\<close>

definition oauth_check ::
  "'k jwt \<times> (string \<Rightarrow> string + bool) \<times> 'k oauth_verifier \<times> string \<times> u64 \<Rightarrow> string option \<Rightarrow> auth_error + string"
where
  "oauth_check r model = (case r of (jwt, introspect, v, token, now) \<Rightarrow>
     fst (oauth_authorize_inner jwt introspect v token model now))"

definition oauth_allows ::
  "'k jwt \<times> (string \<Rightarrow> string + bool) \<times> 'k oauth_verifier \<times> string \<times> u64 \<Rightarrow> string \<Rightarrow> bool" where
  "oauth_allows r m = (case r of (jwt, introspect, v, token, now) \<Rightarrow>
     (case oauth_warm v token now of
        Some entry \<Rightarrow> allow_set_permit (oe_allowed entry) m
      | None \<Rightarrow>
          (case oauth_cold jwt introspect v token now of
             Inl e \<Rightarrow> False
           | Inr entry \<Rightarrow> allow_set_permit (oe_allowed entry) m)))"

lemma oauth_cold_error: "oauth_cold jwt introspect v token now = Inl e \<Longrightarrow> e = Unknown"
  by (auto simp: oauth_cold_def res_simps introspection_def
      split: option.splits if_splits sum.splits bool.splits)

interpretation oauth_auth: auth_scheme oauth_check oauth_allows
proof
  fix r :: "'k jwt \<times> (string \<Rightarrow> string + bool) \<times> 'k oauth_verifier \<times> string \<times> u64" and m
  obtain jwt introspect v token now where r: "r = (jwt, introspect, v, token, now)" by (cases r)
  show "oauth_check r (Some m) =
      res_bind (oauth_check r None) (\<lambda>d. if oauth_allows r m then Inr d else Inl ModelNotAllowed)"
    by (auto simp: r oauth_check_def oauth_allows_def oauth_authorize_inner_def model_answer_def
        split: option.splits sum.splits)
  show "oauth_check r None \<noteq> Inl ModelNotAllowed"
    by (auto simp: r oauth_check_def oauth_authorize_inner_def model_answer_def
        split: option.splits sum.splits dest: oauth_cold_error)
qed

text \<open>A key-store token holds no dot, so it is never taken for a JWT.\<close>

lemma b64_loop_dot: "CHR ''.'' \<in> set bs \<Longrightarrow> b64_loop cap bs acc n out = None"
proof (induction cap bs acc n out rule: b64_loop.induct)
  case (2 cap b bs acc nbits out)
  have "sextet (CHR ''.'') = None" by code_simp
  with 2 show ?case by (auto simp: Let_def split: option.splits)
qed simp

lemma strip_pad_dot: "CHR ''.'' \<in> set s \<Longrightarrow> CHR ''.'' \<in> set (strip_pad n s)"
  by (induction n s rule: strip_pad.induct) auto

lemma token_no_dot:
  assumes "token_credential token = Some c"
  shows "CHR ''.'' \<notin> set token"
proof
  assume "CHR ''.'' \<in> set token"
  then have "CHR ''.'' \<in> set (b64_body token)"
    by (simp add: b64_body_def strip_pad_dot)
  then have "b64_decode_into max_token_decoded token = None"
    by (simp add: b64_decode_into_def Let_def b64_loop_dot)
  with assms show False by (simp add: token_credential_def)
qed

text \<open>
  The two schemes do not get in each other's way. A token that decodes as a key
  credential is never sent to the OAuth verifier, so configuring OAuth changes no answer to a
  key; and each request changes the state of the scheme it was sent to only.
\<close>

theorem dispatch_separates:
  "(token_credential token \<noteq> None \<longrightarrow>
      fst (dispatch_token verify jwt introspect st token model now) =
        fst (authorize_inner verify (as_keys st) token model now)) \<and>
   (as_oauth st = None \<longrightarrow> as_oauth (snd (dispatch_token verify jwt introspect st token model now)) = None) \<and>
   (as_keys (snd (dispatch_token verify jwt introspect st token model now)) = as_keys st \<or>
    as_oauth (snd (dispatch_token verify jwt introspect st token model now)) = as_oauth st)"
proof -
  have "\<not> looks_like_jwt token" if "token_credential token \<noteq> None"
  proof -
    from that obtain c where "token_credential token = Some c" by auto
    then have "CHR ''.'' \<notin> set token" by (rule token_no_dot)
    then have "filter (\<lambda>c. c = CHR ''.'') token = []" by (auto simp: filter_empty_conv)
    then show ?thesis by (simp add: looks_like_jwt_def)
  qed
  then show ?thesis
    by (auto simp: dispatch_token_def split: option.splits prod.splits)
qed

theorem dispatch_separates_witness:
  "fst (dispatch_token (=) ex_jwt (\<lambda>_. Inr True) \<lparr>as_oauth = Some ex_primed, as_keys = ex_store\<rparr> ''Y2k6cw=='' None 0) =
     fst (authorize_inner (=) ex_store ''Y2k6cw=='' None 0)"
proof -
  have "token_credential ''Y2k6cw=='' \<noteq> None" by code_simp
  then show ?thesis
    using dispatch_separates [of "''Y2k6cw==''" "(=)" ex_jwt "\<lambda>_. Inr True"
        "\<lparr>as_oauth = Some ex_primed, as_keys = ex_store\<rparr>" None 0] by simp
qed

end
