(* ===== verification/Model.thy ===== *)
theory Model
  imports Json
begin

text \<open>
  The canonical model, \<open>crates/llmleaf-model/src/\<close>: requests, response streams and whole
  responses of the modalities, usage, errors and batches, with the collection of a stream
  into a whole response. A stream is the list of the items it yields before it ends; an
  item is an error or a chunk. Floating-point fields that are only carried are reals.
\<close>

section \<open>Errors (\<open>error.rs\<close>)\<close>

datatype model_error =
    Upstream u16 string
  | Unavailable string
  | Mapping string
  | Unsupported string
  | Timeout
  | Canceled

fun model_error_text :: "model_error \<Rightarrow> string" where
  "model_error_text (Upstream status message) = ''upstream '' @ decimal (unat status) @ '': '' @ message"
| "model_error_text (Unavailable s) = ''provider unavailable: '' @ s"
| "model_error_text (Mapping s) = ''mapping error: '' @ s"
| "model_error_text (Unsupported s) = ''unsupported: '' @ s"
| "model_error_text Timeout = ''deadline exceeded''"
| "model_error_text Canceled = ''canceled''"

section \<open>Chat requests (\<open>request.rs\<close>)\<close>

datatype effort = Low | Med | High | Highx | Max

datatype modality = Llm | Tts | Stt | Embeddings | Rerank | Decisions

datatype role = System | User | Assistant | Tool

datatype content_part =
    Text string
  | ImageUrl string "string option"
  | InputAudio string string
  | ThinkingPart string "string option"
  | RedactedThinkingPart string
  | CompactionPart (cp_output_index: "u32 option") (cp_id: "string option") (cp_content: "string option")
      (cp_encrypted: "string option") (cp_signature: "string option")

record tool_call =
  tc_id :: string
  tc_name :: string
  tc_arguments :: string

record message =
  me_role :: role
  me_content :: "content_part list"
  me_tool_calls :: "tool_call list"
  me_tool_call_id :: "string option"
  me_name :: "string option"

record tool_def =
  td_name :: string
  td_description :: "string option"
  td_parameters :: json

datatype tool_choice = ChooseAuto | ChooseNone | ChooseRequired | Named string

record chat_request =
  cq_model :: string
  cq_messages :: "message list"
  cq_max_tokens :: "u32 option"
  cq_temperature :: "real option"
  cq_top_p :: "real option"
  cq_stop :: "string list"
  cq_stream :: bool
  cq_tools :: "tool_def list"
  cq_tool_choice :: "tool_choice option"
  cq_thinking :: "effort option"
  cq_extra :: json_map

fun is_input_audio :: "content_part \<Rightarrow> bool" where
  "is_input_audio (InputAudio _ _) = True"
| "is_input_audio _ = False"

fun is_compaction :: "content_part \<Rightarrow> bool" where
  "is_compaction (CompactionPart _ _ _ _ _) = True"
| "is_compaction _ = False"

definition has_input_audio :: "chat_request \<Rightarrow> bool" where
  "has_input_audio req = list_ex (\<lambda>m. list_ex is_input_audio (me_content m)) (cq_messages req)"

definition has_compaction :: "chat_request \<Rightarrow> bool" where
  "has_compaction req = list_ex (\<lambda>m. list_ex is_compaction (me_content m)) (cq_messages req)"

definition message_text :: "role \<Rightarrow> string \<Rightarrow> message" where
  "message_text r text =
     \<lparr>me_role = r, me_content = [Text text], me_tool_calls = [], me_tool_call_id = None,
      me_name = None\<rparr>"

fun part_text :: "content_part \<Rightarrow> string" where
  "part_text (Text t) = t"
| "part_text _ = []"

definition text_content :: "message \<Rightarrow> string" where
  "text_content m = fold (\<lambda>part out. out @ part_text part) (me_content m) []"

section \<open>Responses (\<open>response.rs\<close>)\<close>

record tool_call_delta =
  tl_index :: u32
  tl_id :: "string option"
  tl_name :: "string option"
  tl_arguments :: "string option"

datatype finish_reason = Stop | Length | ToolCalls | ContentFilter | FinishError | FinishCompaction

record usage =
  ug_prompt :: u64
  ug_completion :: u64
  ug_total :: u64
  ug_cost_usd :: "real option"
  ug_cache_read :: u64
  ug_cache_creation :: u64

definition usage_default :: usage where
  "usage_default =
     \<lparr>ug_prompt = 0, ug_completion = 0, ug_total = 0, ug_cost_usd = None, ug_cache_read = 0,
      ug_cache_creation = 0\<rparr>"

datatype stream_chunk =
    OutputItem u32 message
  | Start string string
  | Content u32 string
  | Thinking u32 string
  | ThinkingSignature u32 string
  | RedactedThinking u32 string
  | Compaction "u32 option" u32 string "string option" "string option" "string option"
  | ToolCall u32 tool_call_delta
  | UsageReport usage
  | Finish u32 finish_reason

record choice =
  ch_output :: "message list"
  ch_index :: u32
  ch_text :: string
  ch_thinking :: "content_part list"
  ch_compaction :: "content_part list"
  ch_tool_calls :: "tool_call list"
  ch_finish_reason :: "finish_reason option"

record chat_response =
  rp_id :: string
  rp_model :: string
  rp_choices :: "choice list"
  rp_usage :: usage

section \<open>Collecting a stream (\<open>stream.rs\<close>)\<close>

text \<open>The local variables of \<open>collect_chunks\<close>.\<close>

record accum =
  ac_id :: string
  ac_model :: string
  ac_usage :: usage
  ac_texts :: "(u32, string) btree"
  ac_finishes :: "(u32, finish_reason) btree"
  ac_tools :: "(u32, (u32, tool_call) btree) btree"
  ac_thinkings :: "(u32, string \<times> string option) btree"
  ac_redacteds :: "(u32, string list) btree"
  ac_outputs :: "(u32, message list) btree"
  ac_compactions :: "(u32, content_part list) btree"

definition accum_init :: accum where
  "accum_init =
     \<lparr>ac_id = [], ac_model = [], ac_usage = usage_default, ac_texts = [], ac_finishes = [],
      ac_tools = [], ac_thinkings = [], ac_redacteds = [], ac_outputs = [], ac_compactions = []\<rparr>"

definition partial_default :: tool_call where
  "partial_default = \<lparr>tc_id = [], tc_name = [], tc_arguments = []\<rparr>"

text \<open>One fragment of a tool call: an id and a name replace, arguments are appended.\<close>

definition merge_call :: "tool_call_delta \<Rightarrow> tool_call \<Rightarrow> tool_call" where
  "merge_call d c =
     \<lparr>tc_id = unwrap_or (tc_id c) (tl_id d), tc_name = unwrap_or (tc_name c) (tl_name d),
      tc_arguments = tc_arguments c @ unwrap_or [] (tl_arguments d)\<rparr>"

definition compaction_part ::
  "u32 option \<Rightarrow> string \<Rightarrow> string option \<Rightarrow> string option \<Rightarrow> string option \<Rightarrow> content_part" where
  "compaction_part output_index delta cid encrypted signature =
     CompactionPart output_index cid
       (if encrypted = None \<and> (cid = None \<or> delta \<noteq> []) then Some delta else None)
       encrypted signature"

fun collect_chunk :: "stream_chunk \<Rightarrow> accum \<Rightarrow> accum" where
  "collect_chunk (OutputItem i m) a =
     a\<lparr>ac_outputs := bt_entry i [] (\<lambda>ms. ms @ [m]) (ac_outputs a)\<rparr>"
| "collect_chunk (Start rid model) a = a\<lparr>ac_id := rid, ac_model := model\<rparr>"
| "collect_chunk (Content i delta) a =
     a\<lparr>ac_texts := bt_entry i [] (\<lambda>t. t @ delta) (ac_texts a)\<rparr>"
| "collect_chunk (Thinking i delta) a =
     a\<lparr>ac_thinkings := bt_entry i ([], None) (\<lambda>(t, s). (t @ delta, s)) (ac_thinkings a)\<rparr>"
| "collect_chunk (ThinkingSignature i signature) a =
     a\<lparr>ac_thinkings := bt_entry i ([], None) (\<lambda>(t, s). (t, Some signature)) (ac_thinkings a)\<rparr>"
| "collect_chunk (RedactedThinking i data) a =
     a\<lparr>ac_redacteds := bt_entry i [] (\<lambda>ds. ds @ [data]) (ac_redacteds a)\<rparr>"
| "collect_chunk (Compaction oi i delta cid encrypted signature) a =
     a\<lparr>ac_compactions := bt_entry i []
         (\<lambda>ps. ps @ [compaction_part oi delta cid encrypted signature]) (ac_compactions a)\<rparr>"
| "collect_chunk (ToolCall i call) a =
     a\<lparr>ac_tools := bt_entry i []
         (bt_entry (tl_index call) partial_default (merge_call call)) (ac_tools a)\<rparr>"
| "collect_chunk (UsageReport u) a = a\<lparr>ac_usage := u\<rparr>"
| "collect_chunk (Finish i reason) a = a\<lparr>ac_finishes := bt_insert i reason (ac_finishes a)\<rparr>"

definition thinking_parts ::
  "(string \<times> string option) option \<Rightarrow> string list option \<Rightarrow> content_part list" where
  "thinking_parts thinking redacted =
     (case thinking of
        None \<Rightarrow> []
      | Some (text, signature) \<Rightarrow>
          if text \<noteq> [] \<or> signature \<noteq> None then [ThinkingPart text signature] else []) @
     map RedactedThinkingPart (unwrap_or [] redacted)"

text \<open>\<open>sort_unstable\<close> and \<open>dedup\<close> of the indices seen by any accumulator.\<close>

definition accum_indices :: "accum \<Rightarrow> u32 list" where
  "accum_indices a =
     remdups_adj (sort (map fst (ac_texts a) @ map fst (ac_finishes a) @ map fst (ac_tools a) @
       map fst (ac_thinkings a) @ map fst (ac_redacteds a) @ map fst (ac_outputs a) @
       map fst (ac_compactions a)))"

definition accum_choice :: "accum \<Rightarrow> u32 \<Rightarrow> choice" where
  "accum_choice a i =
     \<lparr>ch_output = unwrap_or [] (bt_get (ac_outputs a) i), ch_index = i,
      ch_text = unwrap_or [] (bt_get (ac_texts a) i),
      ch_thinking = thinking_parts (bt_get (ac_thinkings a) i) (bt_get (ac_redacteds a) i),
      ch_compaction = unwrap_or [] (bt_get (ac_compactions a) i),
      ch_tool_calls = unwrap_or [] (map_option (map snd) (bt_get (ac_tools a) i)),
      ch_finish_reason = bt_get (ac_finishes a) i\<rparr>"

definition collect_chunks :: "stream_chunk list \<Rightarrow> chat_response" where
  "collect_chunks chunks =
     (let a = fold collect_chunk chunks accum_init
      in \<lparr>rp_id = ac_id a, rp_model = ac_model a,
          rp_choices = map (accum_choice a) (accum_indices a), rp_usage = ac_usage a\<rparr>)"

text \<open>\<open>collect\<close>: the first error ends it.\<close>

fun collect_items :: "stream_chunk list \<Rightarrow> (model_error + stream_chunk) list \<Rightarrow>
    model_error + stream_chunk list" where
  "collect_items chunks [] = Inr chunks"
| "collect_items chunks (Inl e # rest) = Inl e"
| "collect_items chunks (Inr c # rest) = collect_items (chunks @ [c]) rest"

definition collect :: "(model_error + stream_chunk) list \<Rightarrow> model_error + chat_response" where
  "collect stream = res_bind (collect_items [] stream) (\<lambda>chunks. Inr (collect_chunks chunks))"

section \<open>Embeddings, rerank and decisions\<close>

record embedding_request =
  eq_model :: string
  eq_input :: "string list"
  eq_dimensions :: "u32 option"
  eq_encoding_format :: "string option"
  eq_extra :: json_map

record embedding =
  em_index :: u32
  em_vector :: "real list"

record embedding_response =
  er_model :: string
  er_embeddings :: "embedding list"
  er_usage :: usage

datatype rerank_document = DocText string | Rich json_map

fun rerank_as_text :: "rerank_document \<Rightarrow> string option" where
  "rerank_as_text (DocText s) = Some s"
| "rerank_as_text (Rich obj) = Option.bind (hm_get obj ''text'') as_str"

record rerank_request =
  rq_model :: string
  rq_query :: string
  rq_documents :: "rerank_document list"
  rq_top_n :: "u32 option"
  rq_return_documents :: "bool option"
  rq_extra :: json_map

record rerank_result =
  rr_index :: u32
  rr_score :: real
  rr_document :: "json option"

record rerank_response =
  rk_model :: string
  rk_results :: "rerank_result list"
  rk_usage :: usage

record decisions_request =
  dq_model :: string
  dq_state :: json
  dq_questions :: json_map
  dq_extra :: json_map

record decisions_response =
  dr_model :: string
  dr_answers :: json_map
  dr_usage :: usage
  dr_extra :: json_map
  dr_usage_extra :: json_map

section \<open>Audio (\<open>audio.rs\<close>)\<close>

record speech_request =
  sq_model :: string
  sq_input :: string
  sq_voice :: string
  sq_response_format :: "string option"
  sq_speed :: "real option"
  sq_extra :: json_map

datatype audio_chunk = AudioStart string | AudioData string | AudioUsage usage | AudioFinish

record audio_bytes =
  ab_content_type :: string
  ab_data :: string
  ab_usage :: usage

fun collect_audio_loop :: "audio_bytes \<Rightarrow> (model_error + audio_chunk) list \<Rightarrow>
    model_error + audio_bytes" where
  "collect_audio_loop acc [] = Inr acc"
| "collect_audio_loop acc (Inl e # rest) = Inl e"
| "collect_audio_loop acc (Inr (AudioStart ct) # rest) =
     collect_audio_loop (acc\<lparr>ab_content_type := ct\<rparr>) rest"
| "collect_audio_loop acc (Inr (AudioData bytes) # rest) =
     collect_audio_loop (acc\<lparr>ab_data := ab_data acc @ bytes\<rparr>) rest"
| "collect_audio_loop acc (Inr (AudioUsage u) # rest) =
     collect_audio_loop (acc\<lparr>ab_usage := u\<rparr>) rest"
| "collect_audio_loop acc (Inr AudioFinish # rest) = collect_audio_loop acc rest"

definition collect_audio :: "(model_error + audio_chunk) list \<Rightarrow> model_error + audio_bytes" where
  "collect_audio stream =
     collect_audio_loop \<lparr>ab_content_type = [], ab_data = [], ab_usage = usage_default\<rparr> stream"

record voice_info =
  vi_id :: string
  vi_name :: "string option"
  vi_languages :: "string list"
  vi_extra :: json_map

record transcription_request =
  tq_model :: string
  tq_audio :: string
  tq_filename :: string
  tq_language :: "string option"
  tq_prompt :: "string option"
  tq_response_format :: "string option"
  tq_temperature :: "real option"
  tq_extra :: json_map

record transcription_response =
  tr_text :: string
  tr_language :: "string option"
  tr_duration :: "real option"
  tr_usage :: usage

section \<open>Batches (\<open>batch.rs\<close>)\<close>

record batch_item =
  bi_custom_id :: string
  bi_request :: chat_request

record batch_spec =
  bs_items :: "batch_item list"

datatype batch_status =
    Validating | InProgress | Finalizing | Completed | Failed | Expired | Canceling | CanceledJob

record batch_counts =
  bc_total :: u64
  bc_processing :: u64
  bc_succeeded :: u64
  bc_errored :: u64
  bc_canceled :: u64
  bc_expired :: u64

record batch_handle =
  bh_id :: string
  bh_status :: batch_status
  bh_counts :: batch_counts
  bh_created_at :: "u64 option"
  bh_expires_at :: "u64 option"
  bh_ended_at :: "u64 option"
  bh_endpoint :: "string option"
  bh_extra :: json_map

datatype batch_outcome =
    Succeeded chat_response
  | Errored u16 string
  | OutcomeCanceled
  | OutcomeExpired

record batch_result =
  br_custom_id :: string
  br_outcome :: batch_outcome

section \<open>Catalog entries (\<open>catalog.rs\<close>)\<close>

record model_info =
  mi_id :: string
  mi_name :: "string option"
  mi_modality :: "modality option"
  mi_max_context :: "u32 option"
  mi_max_output :: "u32 option"
  mi_max_thinking :: "u32 option"
  mi_supports_reasoning :: "bool option"
  mi_supports_compaction :: "bool option"
  mi_input_per_mtok :: "real option"
  mi_cached_input_per_mtok :: "real option"
  mi_output_per_mtok :: "real option"
  mi_allow_pricing_enrichment :: "bool option"
  mi_supported_parameters :: "string list option"
  mi_unsupported_parameters :: "string list"
  mi_default_parameters :: json_map
  mi_extra :: json_map

definition model_info_new :: "string \<Rightarrow> model_info" where
  "model_info_new mid =
     \<lparr>mi_id = mid, mi_name = None, mi_modality = None, mi_max_context = None, mi_max_output = None,
      mi_max_thinking = None, mi_supports_reasoning = None, mi_supports_compaction = None,
      mi_input_per_mtok = None, mi_cached_input_per_mtok = None, mi_output_per_mtok = None,
      mi_allow_pricing_enrichment = None, mi_supported_parameters = None,
      mi_unsupported_parameters = [], mi_default_parameters = [], mi_extra = []\<rparr>"

end
