(* ===== verification/Collect.thy ===== *)
theory Collect
  imports Model
begin

text \<open>
  What collecting a stream computes: \<open>collect_chunks\<close> of \<open>llmleaf-model/src/stream.rs\<close>
  against a reference definition that reads every field of the response off the chunks that
  carry it, with no accumulators.
\<close>

section \<open>Accumulators\<close>

text \<open>The values the chunks contribute to an accumulator at an index.\<close>

definition contributions :: "(stream_chunk \<Rightarrow> (u32 \<times> 'x) option) \<Rightarrow> u32 \<Rightarrow> stream_chunk list \<Rightarrow> 'x list" where
  "contributions item i cs =
     List.map_filter (\<lambda>c. case item c of Some (j, x) \<Rightarrow> if j = i then Some x else None | None \<Rightarrow> None) cs"

lemma contributions_simps [simp]:
  "contributions item i [] = []"
  "contributions item i (a @ b) = contributions item i a @ contributions item i b"
  "contributions item i (c # cs) =
     (case item c of Some (j, x) \<Rightarrow> if j = i then x # contributions item i cs else contributions item i cs
      | None \<Rightarrow> contributions item i cs)"
  by (auto simp: contributions_def List.map_filter_def split: option.splits)

abbreviation collected :: "stream_chunk list \<Rightarrow> accum" where
  "collected cs \<equiv> fold collect_chunk cs accum_init"

text \<open>
  An accumulator of the loop: a field of its state that starts empty and that a chunk
  either leaves alone or updates at one index.
\<close>

locale accumulator =
  fixes field :: "accum \<Rightarrow> (u32, 'v) btree"
    and item :: "stream_chunk \<Rightarrow> (u32 \<times> 'x) option"
    and default :: 'v
    and upd :: "'x \<Rightarrow> 'v \<Rightarrow> 'v"
  assumes field_init: "field accum_init = []"
    and field_step: "field (collect_chunk c a) =
      (case item c of None \<Rightarrow> field a | Some (i, x) \<Rightarrow> bt_entry i default (upd x) (field a))"
begin

lemma wf: "bt_wf (field (collected cs))"
  by (induction cs rule: rev_induct)
    (auto simp: field_init field_step bt_simps split: option.splits)

lemma lookup:
  "bt_get (field (collected cs)) i =
     (if contributions item i cs = [] then None else Some (fold upd (contributions item i cs) default))"
proof (induction cs rule: rev_induct)
  case (snoc c cs)
  then show ?case
    by (auto simp: field_step bt_get_entry [OF wf] split: option.splits)
qed (simp add: field_init)

lemma folded: "unwrap_or default (bt_get (field (collected cs)) i) = fold upd (contributions item i cs) default"
  by (simp add: lookup)

lemma keys: "fst ` set (field (collected cs)) = {i. contributions item i cs \<noteq> []}"
proof -
  have "i \<in> fst ` set (field (collected cs)) \<longleftrightarrow> bt_get (field (collected cs)) i \<noteq> None" for i
    by (auto simp: map_of_eq_None_iff)
  then show ?thesis unfolding set_eq_iff mem_Collect_eq lookup by simp
qed

end

fun output_item :: "stream_chunk \<Rightarrow> (u32 \<times> message) option" where
  "output_item (OutputItem i m) = Some (i, m)" | "output_item _ = None"

fun text_item :: "stream_chunk \<Rightarrow> (u32 \<times> string) option" where
  "text_item (Content i d) = Some (i, d)" | "text_item _ = None"

text \<open>A thinking chunk carries text, a signature chunk carries a signature.\<close>

fun thinking_item :: "stream_chunk \<Rightarrow> (u32 \<times> (string + string)) option" where
  "thinking_item (Thinking i d) = Some (i, Inl d)"
| "thinking_item (ThinkingSignature i s) = Some (i, Inr s)"
| "thinking_item _ = None"

fun redacted_item :: "stream_chunk \<Rightarrow> (u32 \<times> string) option" where
  "redacted_item (RedactedThinking i d) = Some (i, d)" | "redacted_item _ = None"

fun compaction_item :: "stream_chunk \<Rightarrow> (u32 \<times> content_part) option" where
  "compaction_item (Compaction oi i d cid enc sig) = Some (i, compaction_part oi d cid enc sig)"
| "compaction_item _ = None"

fun call_item :: "stream_chunk \<Rightarrow> (u32 \<times> tool_call_delta) option" where
  "call_item (ToolCall i d) = Some (i, d)" | "call_item _ = None"

fun finish_item :: "stream_chunk \<Rightarrow> (u32 \<times> finish_reason) option" where
  "finish_item (Finish i r) = Some (i, r)" | "finish_item _ = None"

fun think :: "string + string \<Rightarrow> string \<times> string option \<Rightarrow> string \<times> string option" where
  "think (Inl d) (t, s) = (t @ d, s)"
| "think (Inr s') (t, s) = (t, Some s')"

lemma think_fun: "think (Inl d) = (\<lambda>(t, s). (t @ d, s))" "think (Inr s') = (\<lambda>(t, s). (t, Some s'))"
  by (auto simp: fun_eq_iff)

interpretation outputs: accumulator ac_outputs output_item "[]" "\<lambda>m ms. ms @ [m]"
  by unfold_locales (simp add: accum_init_def, rename_tac c a, case_tac c, simp_all)

interpretation texts: accumulator ac_texts text_item "[]" "\<lambda>d t. t @ d"
  by unfold_locales (simp add: accum_init_def, rename_tac c a, case_tac c, simp_all)

interpretation thinkings: accumulator ac_thinkings thinking_item "([], None)" think
  by unfold_locales (simp add: accum_init_def, rename_tac c a, case_tac c, simp_all add: think_fun)

interpretation redacteds: accumulator ac_redacteds redacted_item "[]" "\<lambda>d ds. ds @ [d]"
  by unfold_locales (simp add: accum_init_def, rename_tac c a, case_tac c, simp_all)

interpretation compactions: accumulator ac_compactions compaction_item "[]" "\<lambda>p ps. ps @ [p]"
  by unfold_locales (simp add: accum_init_def, rename_tac c a, case_tac c, simp_all)

interpretation tools: accumulator ac_tools call_item "[]"
  "\<lambda>d. bt_entry (tl_index d) partial_default (merge_call d)"
  by unfold_locales (simp add: accum_init_def, rename_tac c a, case_tac c, simp_all)

lemma bt_entry_const: "bt_entry k d (\<lambda>_. v) m = bt_insert k v m"
  by (induction k d "\<lambda>_ :: 'b. v" m rule: bt_entry.induct) auto

interpretation finishes: accumulator ac_finishes finish_item Stop "\<lambda>r _. r"
  by unfold_locales (simp add: accum_init_def, rename_tac c a, case_tac c, simp_all add: bt_entry_const [of _ Stop])

section \<open>The reference\<close>

definition last_or :: "'a \<Rightarrow> 'a list \<Rightarrow> 'a" where
  "last_or d xs = (if xs = [] then d else last xs)"

abbreviation indexed :: "(stream_chunk \<Rightarrow> (u32 \<times> 'x) option) \<Rightarrow> stream_chunk list \<Rightarrow> u32 set" where
  "indexed item cs \<equiv> {i. contributions item i cs \<noteq> []}"

text \<open>A tool call is the last id and the last name given, and all argument fragments.\<close>

definition ref_call :: "tool_call_delta list \<Rightarrow> tool_call" where
  "ref_call ds =
     \<lparr>tc_id = last_or [] (List.map_filter tl_id ds), tc_name = last_or [] (List.map_filter tl_name ds),
      tc_arguments = concat (List.map_filter tl_arguments ds)\<rparr>"

definition ref_calls :: "tool_call_delta list \<Rightarrow> tool_call list" where
  "ref_calls ds =
     map (\<lambda>j. ref_call (filter (\<lambda>d. tl_index d = j) ds)) (sorted_list_of_set (tl_index ` set ds))"

fun thought_text :: "string + string \<Rightarrow> string option" where
  "thought_text (Inl d) = Some d" | "thought_text (Inr _) = None"

fun thought_signature :: "string + string \<Rightarrow> string option" where
  "thought_signature (Inl _) = None" | "thought_signature (Inr s) = Some s"

definition ref_thinking :: "(string + string) list \<Rightarrow> content_part list" where
  "ref_thinking ts =
     (let text = concat (List.map_filter thought_text ts);
          signature = last_or None (map Some (List.map_filter thought_signature ts))
      in if text = [] \<and> signature = None then [] else [ThinkingPart text signature])"

definition ref_choice :: "stream_chunk list \<Rightarrow> u32 \<Rightarrow> choice" where
  "ref_choice cs i =
     \<lparr>ch_output = contributions output_item i cs, ch_index = i,
      ch_text = concat (contributions text_item i cs),
      ch_thinking = ref_thinking (contributions thinking_item i cs) @
        map RedactedThinkingPart (contributions redacted_item i cs),
      ch_compaction = contributions compaction_item i cs,
      ch_tool_calls = ref_calls (contributions call_item i cs),
      ch_finish_reason = last_or None (map Some (contributions finish_item i cs))\<rparr>"

text \<open>The indices a choice-bearing chunk names.\<close>

fun chunk_index :: "stream_chunk \<Rightarrow> u32 option" where
  "chunk_index (Start _ _) = None"
| "chunk_index (UsageReport _) = None"
| "chunk_index (OutputItem i _) = Some i"
| "chunk_index (Content i _) = Some i"
| "chunk_index (Thinking i _) = Some i"
| "chunk_index (ThinkingSignature i _) = Some i"
| "chunk_index (RedactedThinking i _) = Some i"
| "chunk_index (Compaction _ i _ _ _ _) = Some i"
| "chunk_index (ToolCall i _) = Some i"
| "chunk_index (Finish i _) = Some i"

fun chunk_start :: "stream_chunk \<Rightarrow> (string \<times> string) option" where
  "chunk_start (Start rid model) = Some (rid, model)" | "chunk_start _ = None"

fun chunk_usage :: "stream_chunk \<Rightarrow> usage option" where
  "chunk_usage (UsageReport u) = Some u" | "chunk_usage _ = None"

definition ref_response :: "stream_chunk list \<Rightarrow> chat_response" where
  "ref_response cs =
     \<lparr>rp_id = fst (last_or ([], []) (List.map_filter chunk_start cs)),
      rp_model = snd (last_or ([], []) (List.map_filter chunk_start cs)),
      rp_choices = map (ref_choice cs) (sorted_list_of_set (set (List.map_filter chunk_index cs))),
      rp_usage = last_or usage_default (List.map_filter chunk_usage cs)\<rparr>"

section \<open>Agreement\<close>

lemma fold_snoc_list: "fold (\<lambda>x xs. xs @ [x]) ys acc = acc @ ys"
  by (induction ys arbitrary: acc) auto

lemma fold_append_list: "fold (\<lambda>x xs. xs @ x) ys acc = acc @ concat ys"
  by (induction ys arbitrary: acc) auto

lemma map_filter_snoc [simp]:
  "List.map_filter f (xs @ ys) = List.map_filter f xs @ List.map_filter f ys"
  by (simp add: List.map_filter_def)

lemma last_or_snoc [simp]: "last_or d (xs @ [x]) = x"
  by (simp add: last_or_def)

lemma last_or_Nil [simp]: "last_or d [] = d"
  by (simp add: last_or_def)

lemma map_filter_singleton [simp]:
  "List.map_filter f [x] = (case f x of None \<Rightarrow> [] | Some y \<Rightarrow> [y])"
  by (simp add: List.map_filter_def split: option.splits)

lemma map_filter_Nil [simp]: "List.map_filter f [] = []"
  by (simp add: List.map_filter_def)

lemma fold_merge_call: "fold merge_call ds partial_default = ref_call ds"
  by (induction ds rule: rev_induct)
    (auto simp: ref_call_def merge_call_def partial_default_def split: option.splits)

abbreviation call_tree :: "tool_call_delta list \<Rightarrow> (u32, tool_call) btree" where
  "call_tree ds \<equiv> fold (\<lambda>d. bt_entry (tl_index d) partial_default (merge_call d)) ds []"

lemma call_tree_wf: "bt_wf (call_tree ds)"
  by (induction ds rule: rev_induct) (auto simp: bt_simps)

lemma call_tree_get:
  "bt_get (call_tree ds) j =
     (if j \<in> tl_index ` set ds then Some (ref_call (filter (\<lambda>d. tl_index d = j) ds)) else None)"
proof -
  have "bt_get (call_tree ds) j =
     (if j \<in> tl_index ` set ds then Some (fold merge_call (filter (\<lambda>d. tl_index d = j) ds) partial_default) else None)"
  proof (induction ds rule: rev_induct)
    case (snoc d ds)
    have none: "j \<notin> tl_index ` set ds \<Longrightarrow> filter (\<lambda>d. tl_index d = j) ds = []"
      by (auto simp: filter_empty_conv)
    show ?case using snoc none by (auto simp: bt_get_entry [OF call_tree_wf])
  qed simp
  then show ?thesis by (simp add: fold_merge_call)
qed

lemma call_tree_calls: "map snd (call_tree ds) = ref_calls ds"
proof -
  have "dom (bt_get (call_tree ds)) = tl_index ` set ds"
    by (auto simp: dom_def call_tree_get)
  then have "map snd (call_tree ds) =
      map (\<lambda>j. the (bt_get (call_tree ds) j)) (sorted_list_of_set (tl_index ` set ds))"
    by (subst bt_by_lookup [OF call_tree_wf]) (simp add: comp_def)
  then show ?thesis by (simp add: ref_calls_def call_tree_get)
qed

lemma fold_think:
  "fold think ts ([], None) =
     (concat (List.map_filter thought_text ts), last_or None (map Some (List.map_filter thought_signature ts)))"
proof (induction ts rule: rev_induct)
  case (snoc t ts)
  then show ?case by (cases t) auto
qed simp

lemma collected_start:
  "(ac_id (collected cs), ac_model (collected cs)) = last_or ([], []) (List.map_filter chunk_start cs)"
proof (induction cs rule: rev_induct)
  case (snoc c cs)
  then show ?case by (cases c) auto
qed (simp add: accum_init_def)

lemma collected_usage: "ac_usage (collected cs) = last_or usage_default (List.map_filter chunk_usage cs)"
proof (induction cs rule: rev_induct)
  case (snoc c cs)
  then show ?case by (cases c) auto
qed (simp add: accum_init_def)

lemma indexed_union:
  "set (List.map_filter chunk_index cs) =
     indexed text_item cs \<union> indexed finish_item cs \<union> indexed call_item cs \<union> indexed thinking_item cs \<union>
     indexed redacted_item cs \<union> indexed output_item cs \<union> indexed compaction_item cs"
proof (induction cs rule: rev_induct)
  case (snoc c cs)
  then show ?case by (cases c) (auto split: if_splits)
qed simp

lemma sorted_remdups_adj_distinct: "sorted xs \<Longrightarrow> distinct (remdups_adj xs)"
  by (induction xs rule: remdups_adj.induct) auto

lemma accum_indices_eq: "accum_indices (collected cs) = sorted_list_of_set (set (List.map_filter chunk_index cs))"
proof -
  have "remdups_adj (sort xs) = sorted_list_of_set (set xs)" for xs :: "u32 list"
    using sorted_list_of_set.idem_if_sorted_distinct [of "remdups_adj (sort xs)"]
    by (simp add: sorted_remdups_adj_distinct)
  then show ?thesis
    unfolding accum_indices_def indexed_union
    by (simp add: texts.keys finishes.keys tools.keys thinkings.keys redacteds.keys outputs.keys
        compactions.keys Un_assoc)
qed

lemma accum_thinking:
  "thinking_parts (bt_get (ac_thinkings (collected cs)) i) (bt_get (ac_redacteds (collected cs)) i) =
     ref_thinking (contributions thinking_item i cs) @
     map RedactedThinkingPart (contributions redacted_item i cs)"
  by (auto simp: thinking_parts_def ref_thinking_def thinkings.lookup redacteds.lookup fold_think
      fold_snoc_list Let_def)

lemma accum_finish:
  "bt_get (ac_finishes (collected cs)) i = last_or None (map Some (contributions finish_item i cs))"
proof -
  have "xs \<noteq> [] \<Longrightarrow> Some (fold (\<lambda>r _. r) xs d) = last (map Some xs)" for xs and d :: finish_reason
    by (induction xs arbitrary: d rule: rev_induct) auto
  then show ?thesis by (auto simp: finishes.lookup last_or_def)
qed

lemma accum_choice_eq: "accum_choice (collected cs) i = ref_choice cs i"
  unfolding accum_choice_def ref_choice_def accum_thinking accum_finish
  by (simp add: outputs.folded texts.folded compactions.folded tools.lookup fold_snoc_list
      fold_append_list call_tree_calls) (simp add: ref_calls_def)

lemma collect_chunks_ref: "collect_chunks cs = ref_response cs"
proof -
  have ids: "ac_id (collected cs) = fst (last_or ([], []) (List.map_filter chunk_start cs))"
    "ac_model (collected cs) = snd (last_or ([], []) (List.map_filter chunk_start cs))"
    using collected_start [of cs] by (metis fst_conv, metis snd_conv)
  show ?thesis
    unfolding collect_chunks_def ref_response_def Let_def ids collected_usage accum_indices_eq
      accum_choice_eq ..
qed

lemma collect_items_prefix: "collect_items acc (map Inr cs @ rest) = collect_items (acc @ cs) rest"
  by (induction cs arbitrary: acc) auto

text \<open>
  C37: collecting a stream yields exactly the response one reads off its chunks: the id and
  the model of the last start, the last usage report, and for every index that a chunk
  names, in increasing order and once each, the choice whose text is all its deltas joined,
  whose reasoning carries the joined text with its last signature before the redacted blocks,
  whose tool calls come in call order with joined arguments, and whose finish reason is the
  last one given. A stream with an error in it collects to the first error.
\<close>

theorem collect_is_reference:
  "collect (map Inr cs) = Inr (ref_response cs) \<and> collect (map Inr cs @ Inl e # rest) = Inl e"
  using collect_items_prefix [of "[]" cs "[]"]
  by (simp add: collect_def collect_items_prefix collect_chunks_ref)

section \<open>Interleaving and granularity\<close>

lemma contributions_own:
  assumes "\<And>c i x. item c = Some (i, x) \<Longrightarrow> chunk_index c = Some i"
  shows "contributions item i (filter (\<lambda>c. chunk_index c = Some i) cs) = contributions item i cs"
  by (induction cs) (auto dest: assms split: option.splits)

lemma item_index:
  "output_item c = Some (i, m) \<Longrightarrow> chunk_index c = Some i"
  "text_item c = Some (i, t) \<Longrightarrow> chunk_index c = Some i"
  "thinking_item c = Some (i, th) \<Longrightarrow> chunk_index c = Some i"
  "redacted_item c = Some (i, t) \<Longrightarrow> chunk_index c = Some i"
  "compaction_item c = Some (i, p) \<Longrightarrow> chunk_index c = Some i"
  "call_item c = Some (i, d) \<Longrightarrow> chunk_index c = Some i"
  "finish_item c = Some (i, r) \<Longrightarrow> chunk_index c = Some i"
  by (cases c; auto)+

lemma ref_choice_own: "ref_choice (filter (\<lambda>c. chunk_index c = Some i) cs) i = ref_choice cs i"
  by (simp add: ref_choice_def contributions_own item_index)

lemma indices_own:
  "set (List.map_filter chunk_index cs) = {i. filter (\<lambda>c. chunk_index c = Some i) cs \<noteq> []}"
  by (auto simp: List.map_filter_def filter_empty_conv image_iff) force

lemma map_filter_bookkeeping:
  assumes "\<And>c. chunk_index c \<noteq> None \<Longrightarrow> f c = None"
  shows "List.map_filter f cs = List.map_filter f (filter (\<lambda>c. chunk_index c = None) cs)"
  using assms by (induction cs) (auto simp: List.map_filter_def)

lemma bookkeeping:
  "chunk_index c \<noteq> None \<Longrightarrow> chunk_start c = None"
  "chunk_index c \<noteq> None \<Longrightarrow> chunk_usage c = None"
  by (cases c; simp)+

text \<open>
  The collected response depends neither on how the chunks of different choices are
  interleaved nor on how a text is cut into deltas: two streams in which every choice's own
  chunks, the starts and the usage reports come in the same order collect to the same
  response, and splitting a text delta anywhere changes nothing.
\<close>

theorem collect_independent:
  assumes "\<forall>i. filter (\<lambda>c. chunk_index c = Some i) cs = filter (\<lambda>c. chunk_index c = Some i) ds"
    and "filter (\<lambda>c. chunk_index c = None) cs = filter (\<lambda>c. chunk_index c = None) ds"
  shows "collect_chunks cs = collect_chunks ds \<and>
    collect_chunks (cs @ [Content i (x @ y)] @ es) = collect_chunks (ds @ [Content i x, Content i y] @ es)"
proof -
  have resp: "ref_response cs = ref_response ds"
    if own: "\<forall>i. filter (\<lambda>c. chunk_index c = Some i) cs = filter (\<lambda>c. chunk_index c = Some i) ds"
      and none: "filter (\<lambda>c. chunk_index c = None) cs = filter (\<lambda>c. chunk_index c = None) ds" for cs ds
  proof -
    have "ref_choice cs i = ref_choice ds i" for i
      using ref_choice_own [of i cs] ref_choice_own [of i ds] own by simp
    then have "ref_choice cs = ref_choice ds" by (rule ext)
    moreover have "set (List.map_filter chunk_index cs) = set (List.map_filter chunk_index ds)"
      using own by (simp add: indices_own)
    moreover have "List.map_filter chunk_start cs = List.map_filter chunk_start ds"
      using map_filter_bookkeeping [of chunk_start cs, OF bookkeeping(1)]
        map_filter_bookkeeping [of chunk_start ds, OF bookkeeping(1)] none by simp
    moreover have "List.map_filter chunk_usage cs = List.map_filter chunk_usage ds"
      using map_filter_bookkeeping [of chunk_usage cs, OF bookkeeping(2)]
        map_filter_bookkeeping [of chunk_usage ds, OF bookkeeping(2)] none by simp
    ultimately show ?thesis by (simp add: ref_response_def)
  qed
  have "ref_choice (ds @ [Content i (x @ y)] @ es) = ref_choice (ds @ [Content i x, Content i y] @ es)"
    by (rule ext) (simp add: ref_choice_def)
  then have split: "ref_response (ds @ [Content i (x @ y)] @ es) = ref_response (ds @ [Content i x, Content i y] @ es)"
    by (simp add: ref_response_def)
  have "ref_response (cs @ [Content i (x @ y)] @ es) = ref_response (ds @ [Content i (x @ y)] @ es)"
    using assms by (intro resp) auto
  with split resp [OF assms] show ?thesis by (simp add: collect_chunks_ref)
qed

theorem collect_independent_witness:
  "collect_chunks [Start ''r'' ''m'', Content 0 ''a'', Content 1 ''z'', Content 0 ''b''] =
     collect_chunks [Start ''r'' ''m'', Content 1 ''z'', Content 0 ''a'', Content 0 ''b'']"
  using collect_independent
    [of "[Start ''r'' ''m'', Content 0 ''a'', Content 1 ''z'', Content 0 ''b'']"
        "[Start ''r'' ''m'', Content 1 ''z'', Content 0 ''a'', Content 0 ''b'']"]
  by auto

end
