(* ===== verification/Provider.thy ===== *)
theory Provider
  imports Model Config
begin

text \<open>
  The extension boundary, \<open>crates/llmleaf-provider/src/lib.rs\<close>: the call context, the registry
  of instances, the defaults of the \<open>Provider\<close> trait. An instance (\<open>Arc<dyn Provider>\<close>) is a handle
  of type \<open>'p\<close>; what its methods answer is a parameter of the engine, a record of functions
  that let the rest of the node (\<open>'w\<close>) move on while the call is awaited.
\<close>

section \<open>The call context\<close>

record provider_cx =
  cx_request_id :: string
  cx_credential :: "string option"
  cx_endpoint :: "string option"
  cx_settings :: json_map

definition setting_str :: "provider_cx \<Rightarrow> string \<Rightarrow> string option" where
  "setting_str cx key = Option.bind (hm_get (cx_settings cx) key) as_str"

definition use_upstream_streaming :: "provider_cx \<Rightarrow> bool \<Rightarrow> bool \<Rightarrow> bool" where
  "use_upstream_streaming cx requested supported =
     (if \<not> supported then False
      else case setting_str cx ''upstream_streaming'' of
        None \<Rightarrow> True
      | Some s \<Rightarrow>
          if s = ''never'' then False
          else if s = ''when_requested'' then requested
          else True)"

section \<open>The trait\<close>

definition unsupported :: "string \<Rightarrow> string \<Rightarrow> model_error" where
  "unsupported provider capability =
     Unsupported (''provider '' @ [CHR 0x27] @ provider @ [CHR 0x27] @ '' does not support '' @ capability)"

datatype realtime_wire = WireText string | WireBinary string | WireClose

record realtime_params =
  ra_model :: string

datatype health = Up | Degraded | Down

text \<open>
  A response stream is the list of its polls: awaiting the next item lets the node move on
  and yields it.
\<close>

type_synonym ('w, 'a) polls = "('w \<Rightarrow> 'w \<times> (model_error + 'a)) list"

type_synonym ('w, 'a) awaited = "'w \<Rightarrow> 'w \<times> (model_error + 'a)"

record 'w provider_api =
  pa_name :: string
  pa_chat :: "chat_request \<Rightarrow> provider_cx \<Rightarrow> ('w, ('w, stream_chunk) polls) awaited"
  pa_embed :: "embedding_request \<Rightarrow> provider_cx \<Rightarrow> ('w, embedding_response) awaited"
  pa_rerank :: "rerank_request \<Rightarrow> provider_cx \<Rightarrow> ('w, rerank_response) awaited"
  pa_decisions :: "decisions_request \<Rightarrow> provider_cx \<Rightarrow> ('w, decisions_response) awaited"
  pa_speech :: "speech_request \<Rightarrow> provider_cx \<Rightarrow> ('w, ('w, audio_chunk) polls) awaited"
  pa_voices :: "string \<Rightarrow> provider_cx \<Rightarrow> ('w, voice_info list) awaited"
  pa_models :: "provider_cx \<Rightarrow> ('w, model_info list) awaited"
  pa_supports_compaction :: "string \<Rightarrow> provider_cx \<Rightarrow> bool option"
  pa_transcribe :: "transcription_request \<Rightarrow> provider_cx \<Rightarrow> ('w, transcription_response) awaited"
  pa_batch_create :: "batch_spec \<Rightarrow> provider_cx \<Rightarrow> ('w, batch_handle) awaited"
  pa_batch_retrieve :: "string \<Rightarrow> provider_cx \<Rightarrow> ('w, batch_handle) awaited"
  pa_batch_results :: "string \<Rightarrow> provider_cx \<Rightarrow> ('w, ('w, batch_result) polls) awaited"
  pa_batch_cancel :: "string \<Rightarrow> provider_cx \<Rightarrow> ('w, batch_handle) awaited"
  pa_supports_realtime :: bool

text \<open>A provider that overrides nothing: only its name and its chat method are its own.\<close>

definition provider_default ::
  "string \<Rightarrow> (chat_request \<Rightarrow> provider_cx \<Rightarrow> ('w, ('w, stream_chunk) polls) awaited) \<Rightarrow> 'w provider_api" where
  "provider_default name chat =
     \<lparr>pa_name = name, pa_chat = chat,
      pa_embed = (\<lambda>_ _ w. (w, Inl (unsupported name ''embeddings''))),
      pa_rerank = (\<lambda>_ _ w. (w, Inl (unsupported name ''rerank''))),
      pa_decisions = (\<lambda>_ _ w. (w, Inl (unsupported name ''decisions''))),
      pa_speech = (\<lambda>_ _ w. (w, Inl (unsupported name ''speech synthesis''))),
      pa_voices = (\<lambda>_ _ w. (w, Inl (unsupported name ''voice listing''))),
      pa_models = (\<lambda>_ w. (w, Inl (unsupported name ''model listing''))),
      pa_supports_compaction = (\<lambda>_ _. None),
      pa_transcribe = (\<lambda>_ _ w. (w, Inl (unsupported name ''transcription''))),
      pa_batch_create = (\<lambda>_ _ w. (w, Inl (unsupported name ''batch''))),
      pa_batch_retrieve = (\<lambda>_ _ w. (w, Inl (unsupported name ''batch''))),
      pa_batch_results = (\<lambda>_ _ w. (w, Inl (unsupported name ''batch''))),
      pa_batch_cancel = (\<lambda>_ _ w. (w, Inl (unsupported name ''batch''))),
      pa_supports_realtime = False\<rparr>"

section \<open>The registry\<close>

type_synonym 'p registry = "(string, 'p) hashmap"

definition registry_new :: "'p registry" where
  "registry_new = hm_empty"

definition registry_register :: "string \<Rightarrow> 'p \<Rightarrow> 'p registry \<Rightarrow> 'p registry" where
  "registry_register name p r = hm_insert name p r"

definition registry_get :: "'p registry \<Rightarrow> string \<Rightarrow> 'p option" where
  "registry_get r name = hm_get r name"

definition registry_names :: "'p registry \<Rightarrow> string list" where
  "registry_names r = hm_keys r"

section \<open>Streaming policy\<close>

text \<open>
  Configuration can decline upstream streaming but never invent it.
\<close>

lemma upstream_streaming_policy:
  "use_upstream_streaming cx requested supported \<longleftrightarrow>
     supported \<and> setting_str cx ''upstream_streaming'' \<noteq> Some ''never'' \<and>
     (setting_str cx ''upstream_streaming'' = Some ''when_requested'' \<longrightarrow> requested)"
  by (auto simp: use_upstream_streaming_def split: option.splits)

end
