(* ===== verification/Pricing.thy ===== *)
theory Pricing
  imports Model
begin

text \<open>
  The bundled price table and the lookup that prices provider-reported usage,
  \<open>crates/llmleaf-pricing/src/lib.rs\<close>. Arithmetic is the rounded one of \<open>f64\<close>, with its operations in the
  order of the source; the exponent range is unbounded in the model, so a cost that would
  overflow to infinity is a number here. Loading the bundled file is \<open>serde_json\<close>'s work.
\<close>

section \<open>The table\<close>

record model_pricing =
  mp_input_per_mtok :: "real option"
  mp_cached_input_per_mtok :: "real option"
  mp_output_per_mtok :: "real option"
  mp_modality :: "modality option"
  mp_max_context :: "u32 option"
  mp_max_output :: "u32 option"
  mp_max_thinking :: "u32 option"
  mp_supports_reasoning :: "bool option"
  mp_input_modalities :: "string list option"
  mp_output_modalities :: "string list option"
  mp_tier :: "string option"
  mp_prompts_used_for_training :: "bool option"
  mp_unsupported_parameters :: "string list option"
  mp_default_parameters :: "json_map option"

record model_card =
  mc_id :: string
  mc_modality :: "modality option"
  mc_max_context :: "u32 option"
  mc_max_output :: "u32 option"
  mc_max_thinking :: "u32 option"
  mc_supports_reasoning :: "bool option"
  mc_input_modalities :: "string list option"
  mc_output_modalities :: "string list option"
  mc_input_per_mtok :: "real option"
  mc_cached_input_per_mtok :: "real option"
  mc_output_per_mtok :: "real option"
  mc_tier :: "string option"
  mc_prompts_used_for_training :: "bool option"
  mc_unsupported_parameters :: "string list option"
  mc_default_parameters :: "json_map option"

definition opt_vec_is_none_or_empty :: "string list option \<Rightarrow> bool" where
  "opt_vec_is_none_or_empty v = is_none_or (\<lambda>xs. xs = []) v"

definition opt_map_is_none_or_empty :: "json_map option \<Rightarrow> bool" where
  "opt_map_is_none_or_empty v = is_none_or (\<lambda>xs. xs = []) v"

definition to_card :: "model_pricing \<Rightarrow> string \<Rightarrow> model_card" where
  "to_card p mid =
     \<lparr>mc_id = mid, mc_modality = mp_modality p, mc_max_context = mp_max_context p,
      mc_max_output = mp_max_output p, mc_max_thinking = mp_max_thinking p,
      mc_supports_reasoning = mp_supports_reasoning p,
      mc_input_modalities = mp_input_modalities p, mc_output_modalities = mp_output_modalities p,
      mc_input_per_mtok = mp_input_per_mtok p,
      mc_cached_input_per_mtok = mp_cached_input_per_mtok p,
      mc_output_per_mtok = mp_output_per_mtok p, mc_tier = mp_tier p,
      mc_prompts_used_for_training = mp_prompts_used_for_training p,
      mc_unsupported_parameters = mp_unsupported_parameters p,
      mc_default_parameters = mp_default_parameters p\<rparr>"

type_synonym pricing = "(string, model_pricing) hashmap"

section \<open>Costs\<close>

text \<open>\<open>tokens as f64 / 1_000_000.0 * rate\<close>.\<close>

definition mtok_cost :: "u64 \<Rightarrow> real \<Rightarrow> real" where
  "mtok_cost tokens rate = fmul (fdiv (u64_as_f64 tokens) 1000000) rate"

definition cost_usd :: "pricing \<Rightarrow> string \<Rightarrow> usage \<Rightarrow> real option" where
  "cost_usd pr model u =
     (case hm_get pr model of
        None \<Rightarrow> None
      | Some rate \<Rightarrow>
          if mp_input_per_mtok rate = None \<and> mp_cached_input_per_mtok rate = None \<and>
             mp_output_per_mtok rate = None
          then None
          else
            let cached = min (ug_cache_read u) (ug_prompt u);
                uncached = ug_prompt u - cached;
                input = fadd (mtok_cost uncached (unwrap_or 0 (mp_input_per_mtok rate)))
                  (mtok_cost cached
                    (unwrap_or 0 (or_else (mp_cached_input_per_mtok rate) (mp_input_per_mtok rate))));
                output = mtok_cost (ug_completion u) (unwrap_or 0 (mp_output_per_mtok rate))
            in Some (fadd input output))"

definition price :: "pricing \<Rightarrow> string \<Rightarrow> usage \<Rightarrow> usage" where
  "price pr model u = u\<lparr>ug_cost_usd := cost_usd pr model u\<rparr>"

definition knows :: "pricing \<Rightarrow> string \<Rightarrow> bool" where
  "knows pr model = hm_contains pr model"

definition card :: "pricing \<Rightarrow> string \<Rightarrow> model_card option" where
  "card pr model = map_option (\<lambda>rate. to_card rate model) (hm_get pr model)"

definition cards :: "pricing \<Rightarrow> model_card list" where
  "cards pr = map (\<lambda>(mid, rate). to_card rate mid) pr"

section \<open>Costs are sane\<close>

lemma mtok_cost_nonneg: "0 \<le> rate \<Longrightarrow> 0 \<le> mtok_cost n rate"
  by (simp add: mtok_cost_def fmul_nonneg fdiv_nonneg)

lemma mtok_cost_mono: "m \<le> n \<Longrightarrow> 0 \<le> rate \<Longrightarrow> mtok_cost m rate \<le> mtok_cost n rate"
  by (simp add: mtok_cost_def fmul_mono fdiv_mono fdiv_nonneg u64_as_f64_mono)

lemma mtok_cost_zero [simp]: "mtok_cost 0 rate = 0"
  by (simp add: mtok_cost_def u64_as_f64_def fdiv_def fmul_def)

text \<open>A table whose rates are not negative, the shape the collector writes.\<close>

definition rates_nonneg :: "pricing \<Rightarrow> bool" where
  "rates_nonneg pr \<longleftrightarrow>
     (\<forall>(mid, rate) \<in> set pr. \<forall>r \<in> {mp_input_per_mtok rate, mp_cached_input_per_mtok rate, mp_output_per_mtok rate}.
        is_none_or (\<lambda>x. 0 \<le> x) r)"

definition token_priced :: "pricing \<Rightarrow> string \<Rightarrow> bool" where
  "token_priced pr model \<longleftrightarrow>
     (\<exists>rate. hm_get pr model = Some rate \<and>
        (mp_input_per_mtok rate \<noteq> None \<or> mp_cached_input_per_mtok rate \<noteq> None \<or>
         mp_output_per_mtok rate \<noteq> None))"

lemma unwrap_nonneg: "is_none_or (\<lambda>x. (0::real) \<le> x) r \<Longrightarrow> 0 \<le> unwrap_or 0 r"
  by (cases r) auto

lemma or_else_nonneg:
  "is_none_or (\<lambda>x. (0::real) \<le> x) r \<Longrightarrow> is_none_or (\<lambda>x. 0 \<le> x) s \<Longrightarrow> 0 \<le> unwrap_or 0 (or_else r s)"
  by (cases r; cases s) auto

lemma uncached_mono: "p \<le> (p' :: u64) \<Longrightarrow> p - min c p \<le> p' - min c p'"
  by (auto simp: min_def word_le_nat_alt unat_sub not_le)

lemma cost_usd_cases:
  "cost_usd pr model u = None \<longleftrightarrow> \<not> token_priced pr model"
  by (auto simp: cost_usd_def token_priced_def Let_def split: option.splits if_splits)

text \<open>
  Pricing. A model has a cost exactly when the table knows it and lists some token rate;
  pricing a report fills in that cost and touches no other field; a report of no tokens is
  free; and with rates that are not negative a cost is not negative and never falls when
  more prompt or more completion tokens are reported.
\<close>

theorem cost_sane:
  assumes "rates_nonneg pr"
    and "ug_prompt u \<le> ug_prompt v" "ug_completion u \<le> ug_completion v" "ug_cache_read u = ug_cache_read v"
  shows "(cost_usd pr model u = None \<longleftrightarrow> \<not> token_priced pr model) \<and>
    price pr model u = u\<lparr>ug_cost_usd := cost_usd pr model u\<rparr> \<and>
    (token_priced pr model \<longrightarrow> cost_usd pr model usage_default = Some 0) \<and>
    (\<forall>x. cost_usd pr model u = Some x \<longrightarrow> 0 \<le> x \<and> (\<exists>y. cost_usd pr model v = Some y \<and> x \<le> y))"
proof -
  have "0 \<le> x \<and> (\<exists>y. cost_usd pr model v = Some y \<and> x \<le> y)" if cost: "cost_usd pr model u = Some x" for x
  proof -
    from cost obtain rate where rate: "hm_get pr model = Some rate"
      by (auto simp: cost_usd_def split: option.splits)
    have "is_none_or (\<lambda>x. 0 \<le> x) (mp_input_per_mtok rate)"
      "is_none_or (\<lambda>x. 0 \<le> x) (mp_cached_input_per_mtok rate)"
      "is_none_or (\<lambda>x. 0 \<le> x) (mp_output_per_mtok rate)"
      using assms(1) hm_get_Some_in [OF rate] by (auto simp: rates_nonneg_def)
    then have ri: "0 \<le> unwrap_or 0 (mp_input_per_mtok rate)"
      and rc: "0 \<le> unwrap_or 0 (or_else (mp_cached_input_per_mtok rate) (mp_input_per_mtok rate))"
      and ro: "0 \<le> unwrap_or 0 (mp_output_per_mtok rate)"
      by (auto intro: unwrap_nonneg or_else_nonneg)
    have c: "min (ug_cache_read u) (ug_prompt u) \<le> min (ug_cache_read v) (ug_prompt v)"
      using assms by (simp add: min.coboundedI2)
    have un: "ug_prompt u - min (ug_cache_read u) (ug_prompt u) \<le> ug_prompt v - min (ug_cache_read v) (ug_prompt v)"
      using assms uncached_mono by metis
    show ?thesis
      using cost rate ri rc ro c un assms(3)
      by (auto simp: cost_usd_def Let_def intro!: fadd_nonneg fadd_mono mtok_cost_nonneg mtok_cost_mono
          split: if_splits)
  qed
  moreover have "token_priced pr model \<Longrightarrow> cost_usd pr model usage_default = Some 0"
    by (auto simp: token_priced_def cost_usd_def usage_default_def fadd_def)
  ultimately show ?thesis by (simp add: cost_usd_cases price_def)
qed

definition ex_pricing :: pricing where
  "ex_pricing =
     [(''m'', \<lparr>mp_input_per_mtok = Some 3, mp_cached_input_per_mtok = None, mp_output_per_mtok = Some 15,
        mp_modality = Some Llm, mp_max_context = None, mp_max_output = None, mp_max_thinking = None,
        mp_supports_reasoning = None, mp_input_modalities = None, mp_output_modalities = None,
        mp_tier = None, mp_prompts_used_for_training = None, mp_unsupported_parameters = None,
        mp_default_parameters = None\<rparr>)]"

theorem cost_sane_witness:
  "cost_usd ex_pricing ''other'' usage_default = None \<and>
     (\<exists>y. cost_usd ex_pricing ''m'' (usage_default\<lparr>ug_completion := 7\<rparr>) = Some y \<and> 0 \<le> y)"
proof -
  have r: "rates_nonneg ex_pricing" by (simp add: rates_nonneg_def ex_pricing_def)
  have t: "token_priced ex_pricing ''m''" "\<not> token_priced ex_pricing ''other''"
    by (simp_all add: token_priced_def ex_pricing_def hm_get_def)
  show ?thesis
    using cost_sane [OF r, of usage_default "usage_default\<lparr>ug_completion := 7\<rparr>" "''m''"] t
      cost_sane [OF r, of usage_default usage_default "''other''"]
    by (auto simp: usage_default_def)
qed

end
