(* ===== verification/Node.thy ===== *)
theory Node
  imports Provider Pricing Route RateLimit BatchId
begin

text \<open>
  The state the engine's requests share: \<open>events.rs\<close>, and the topology, the engine and its
  construction in \<open>engine.rs\<close> (\<open>crates/llmleaf-core/src/\<close>).

  A \<open>node\<close> is everything that changes while the node runs: the current topology behind its lock,
  the health table, the store of rate-limit entries, the events handed to the bus, and the two
  clocks. An \<open>engine\<close> holds what \<open>Engine::new\<close> fixes. Wherever the code awaits, other tasks may run: an
  awaited call is a function on nodes, a parameter, and its result may be any node.
\<close>

section \<open>Events (\<open>events.rs\<close>)\<close>

datatype event =
    RequestStarted (ev_id: string) (ev_key: string) (ev_model: string) (ev_request: "json option")
  | RequestRouted (ev_id: string) (ev_provider: string) (ev_upstream_model: string)
  | Usage (ev_id: string) (ev_key: string) (ev_model: string) (ev_usage: usage)
  | RequestCompleted (ev_id: string) (ev_finish: "finish_reason option")
  | RequestFailed (ev_id: string) (ev_error: string)
  | ProviderHealth (ev_provider: string) (ev_status: string)

record envelope =
  nv_ts_ms :: u64
  nv_event :: event

section \<open>The topology\<close>

record 'p topology =
  tp_registry :: "'p registry"
  tp_router :: router
  tp_providers :: "(string, provider_config) hashmap"
  tp_rate :: limiter
  tp_dynamic_providers :: "(string, provider_config) hashmap"
  tp_dynamic_routes :: "(string, route_config) hashmap"
  tp_dynamic_instances :: "(string, 'p) hashmap"

definition build_cx ::
  "(string \<Rightarrow> string option) \<Rightarrow> 'p topology \<Rightarrow> string \<Rightarrow> string \<Rightarrow> provider_cx" where
  "build_cx env topo name request_id =
     (let cfg = hm_get (tp_providers topo) name
      in \<lparr>cx_request_id = request_id,
          cx_credential = Option.bind (Option.bind cfg pc_credential) (secret_resolve env),
          cx_endpoint = Option.bind cfg pc_endpoint,
          cx_settings = unwrap_or hm_empty (map_option pc_settings cfg)\<rparr>)"

section \<open>The node\<close>

record 'p node =
  nd_topology :: "'p topology"
  nd_health :: health_table
  nd_limits :: limits_store
  nd_log :: "envelope list"
  nd_instant :: instant
  nd_wall_ms :: u64

text \<open>\<open>EventBus::emit\<close> stamps the wall clock and hands the event to the broadcast ring, which never
  refuses one; what a slow or absent subscriber loses of it is the ring's business.\<close>

definition emit :: "event \<Rightarrow> 'p node \<Rightarrow> 'p node" where
  "emit e w = w\<lparr>nd_log := nd_log w @ [\<lparr>nv_ts_ms = nd_wall_ms w, nv_event = e\<rparr>]\<rparr>"

section \<open>The engine\<close>

datatype intercept_outcome = Pass | Block string | Rewrite json

record 'w interceptor =
  ic_applies :: "intercept_phase \<Rightarrow> string \<Rightarrow> string \<Rightarrow> bool"
  ic_screen :: "intercept_phase \<Rightarrow> string \<Rightarrow> string \<Rightarrow> json \<Rightarrow> 'w \<Rightarrow> 'w \<times> intercept_outcome"

datatype engine_error =
    NoRoute string
  | NoTargets string
  | AllTargetsFailed model_error
  | RateLimited u64
  | BlockedBy string
  | EmptyBatch
  | MixedProviderBatch
  | BatchNotFound string

fun engine_error_text :: "engine_error \<Rightarrow> string" where
  "engine_error_text (NoRoute m) = ''no route configured for model '' @ [CHR 0x27] @ m @ [CHR 0x27]"
| "engine_error_text (NoTargets m) = ''route for model '' @ [CHR 0x27] @ m @ [CHR 0x27] @ '' has no targets''"
| "engine_error_text (AllTargetsFailed e) = ''all targets failed: '' @ model_error_text e"
| "engine_error_text (RateLimited s) = ''rate limited; retry after '' @ decimal (unat s) @ ''s''"
| "engine_error_text (BlockedBy r) = ''blocked by interceptor: '' @ r"
| "engine_error_text EmptyBatch = ''batch has no requests''"
| "engine_error_text MixedProviderBatch = ''batch mixes models that route to different providers''"
| "engine_error_text (BatchNotFound b) = ''batch '' @ [CHR 0x27] @ b @ [CHR 0x27] @ '' not found''"

record 'p engine =
  en_base_registry :: "'p registry"
  en_base_providers :: "provider_config list"
  en_base_routes :: "route_config list"
  en_pricing :: pricing
  en_rate_max_wait :: duration
  en_include_payloads :: bool
  en_cooldown_secs :: u64
  en_interceptor :: "'p node interceptor option"
  en_batch_signer :: "batch_id_signer option"

text \<open>\<open>Engine::new\<close>: the engine and the node it starts from, at the instants \<open>now\<close> and \<open>wall\<close>.\<close>

definition base_topology :: "config \<Rightarrow> 'p registry \<Rightarrow> limiter \<Rightarrow> 'p topology" where
  "base_topology cfg registry lr =
     \<lparr>tp_registry = registry,
      tp_router = router_new (cf_routes cfg) (cf_providers cfg),
      tp_providers = hm_collect (map (\<lambda>p. (pc_name p, p)) (cf_providers cfg)),
      tp_rate = lr, tp_dynamic_providers = hm_empty, tp_dynamic_routes = hm_empty,
      tp_dynamic_instances = hm_empty\<rparr>"

definition engine_new ::
  "(string \<Rightarrow> string option) \<Rightarrow> (string \<Rightarrow> string \<Rightarrow> string) \<Rightarrow> config \<Rightarrow> 'p registry \<Rightarrow> pricing \<Rightarrow>
     'p node interceptor option \<Rightarrow> instant \<Rightarrow> u64 \<Rightarrow> 'p engine \<times> 'p node" where
  "engine_new env hmac cfg registry pr interceptor now wall =
     (case limiter_new (cf_providers cfg) now of (st, lr) \<Rightarrow>
       (\<lparr>en_base_registry = registry, en_base_providers = cf_providers cfg,
         en_base_routes = cf_routes cfg, en_pricing = pr,
         en_rate_max_wait = unat (sv_rate_limit_max_wait_ms (cf_server cfg)) * 10 ^ 6,
         en_include_payloads = sv_include_payloads (cf_server cfg),
         en_cooldown_secs = sv_fallback_cooldown_secs (cf_server cfg),
         en_interceptor = interceptor,
         en_batch_signer = map_option (signer_new hmac)
           (Option.bind (sv_batch_id_secret (cf_server cfg)) (secret_resolve env))\<rparr>,
        \<lparr>nd_topology = base_topology cfg registry lr, nd_health = health_new, nd_limits = st,
         nd_log = [], nd_instant = now, nd_wall_ms = wall\<rparr>))"

section \<open>Reading the node\<close>

definition resolve_targets :: "'p node \<Rightarrow> string \<Rightarrow> route_target list option" where
  "resolve_targets w model = resolve (tp_router (nd_topology w)) model"

text \<open>What an await answers: the node it resumes in, with a result or a panic of the task.\<close>

datatype 'a run = Ret 'a | Panic

lemma emit_fields [simp]:
  "nd_topology (emit e w) = nd_topology w" "nd_health (emit e w) = nd_health w"
  "nd_limits (emit e w) = nd_limits w" "nd_instant (emit e w) = nd_instant w"
  "nd_wall_ms (emit e w) = nd_wall_ms w"
  by (simp_all add: emit_def)

end
