(* ===== verification/Engine.thy ===== *)
theory Engine
  imports Node
begin

text \<open>
  The hot path of \<open>crates/llmleaf-core/src/engine.rs\<close>: \<open>dispatch\<close>, the per-request life written once for every
  modality. A route's targets are walked in order, twice at most (honouring cool-downs, then ignoring
  them), and the walk is repeated after a bounded sleep while every target is over its rate limit.
\<close>

section \<open>One target\<close>

text \<open>What a dispatch is called with, and the snapshot of the topology it works on.\<close>

record 'p job =
  jb_env :: "string \<Rightarrow> string option"
  jb_topology :: "'p topology"
  jb_model :: string
  jb_id :: string
  jb_now :: u64
  jb_cooldown :: u64

type_synonym ('p, 'v) op = "'p \<Rightarrow> provider_cx \<Rightarrow> string \<Rightarrow> ('p node, 'v) awaited"

datatype 'v tried =
    Skipped
  | Erred model_error
  | Busy duration
  | Accepted 'v string rate_guard
  | Crashed

definition unregistered :: "string \<Rightarrow> model_error" where
  "unregistered provider =
     Unavailable (''provider '' @ [CHR 0x27] @ provider @ [CHR 0x27] @ '' is not registered'')"

definition upstream_of :: "'p job \<Rightarrow> route_target \<Rightarrow> string" where
  "upstream_of jb t = unwrap_or (jb_model jb) (tg_model t)"

definition release_guard :: "rate_guard \<Rightarrow> 'p node \<Rightarrow> 'p node" where
  "release_guard g w = w\<lparr>nd_limits := drop_guard (nd_limits w) g\<rparr>"

text \<open>The three answers of a provider.\<close>

definition accept :: "'p job \<Rightarrow> route_target \<Rightarrow> 'p node \<Rightarrow> 'p node" where
  "accept jb t w =
     emit (RequestRouted (jb_id jb) (tg_provider t) (upstream_of jb t))
       (w\<lparr>nd_health := health_clear (tg_provider t) (nd_health w)\<rparr>)"

definition switch_over :: "'p job \<Rightarrow> route_target \<Rightarrow> 'p node \<Rightarrow> 'p node" where
  "switch_over jb t w =
     emit (ProviderHealth (tg_provider t) ''degraded'')
       (w\<lparr>nd_health := penalize (tg_provider t) (jb_now jb) (jb_cooldown jb) (nd_health w)\<rparr>)"

definition serve ::
  "'p job \<Rightarrow> ('p, 'v) op \<Rightarrow> 'p \<Rightarrow> route_target \<Rightarrow> rate_guard \<Rightarrow> 'p node \<Rightarrow> 'p node \<times> 'v tried" where
  "serve jb call provider t g w =
     (let cx = build_cx (jb_env jb) (jb_topology jb) (tg_provider t) (jb_id jb)
      in case call provider cx (upstream_of jb t) w of
        (w, Inr v) \<Rightarrow> (accept jb t w, Accepted v (upstream_of jb t) g)
      | (w, Inl e) \<Rightarrow>
          (case e of
             Unsupported _ \<Rightarrow> (release_guard g w, Erred e)
           | _ \<Rightarrow> (switch_over jb t (release_guard g w), Erred e)))"

definition try_target ::
  "'p job \<Rightarrow> ('p, 'v) op \<Rightarrow> instant \<Rightarrow> bool \<Rightarrow> route_target \<Rightarrow> 'p node \<Rightarrow> 'p node \<times> 'v tried" where
  "try_target jb call now_instant honor t w =
     (if honor \<and> is_down (nd_health w) (tg_provider t) (jb_now jb) then (w, Skipped)
      else case registry_get (tp_registry (jb_topology jb)) (tg_provider t) of
        None \<Rightarrow> (w, Erred (unregistered (tg_provider t)))
      | Some provider \<Rightarrow>
          (case try_admit (nd_limits w) (tp_rate (jb_topology jb)) (tg_provider t)
                  (upstream_of jb t) now_instant of
             (st, Got g) \<Rightarrow> serve jb call provider t g (w\<lparr>nd_limits := st\<rparr>)
           | (st, Later wait) \<Rightarrow> (w\<lparr>nd_limits := st\<rparr>, Busy wait)
           | (st, Panicked) \<Rightarrow> (w\<lparr>nd_limits := st\<rparr>, Crashed)))"

section \<open>The chain\<close>

datatype 'v walked =
    Served 'v string string rate_guard
  | Walked "model_error option" "duration option"
  | WalkPanic

definition soonest :: "duration option \<Rightarrow> duration \<Rightarrow> duration" where
  "soonest s wait = (case s of None \<Rightarrow> wait | Some x \<Rightarrow> min x wait)"

fun walk ::
  "'p job \<Rightarrow> ('p, 'v) op \<Rightarrow> instant \<Rightarrow> bool \<Rightarrow> route_target list \<Rightarrow> 'p node \<Rightarrow> model_error option \<Rightarrow>
     duration option \<Rightarrow> 'p node \<times> 'v walked" where
  "walk jb call now_instant honor [] w err soon = (w, Walked err soon)"
| "walk jb call now_instant honor (t # ts) w err soon =
     (case try_target jb call now_instant honor t w of
        (w, Skipped) \<Rightarrow> walk jb call now_instant honor ts w err soon
      | (w, Erred e) \<Rightarrow> walk jb call now_instant honor ts w (Some e) soon
      | (w, Busy wait) \<Rightarrow> walk jb call now_instant honor ts w err (Some (soonest soon wait))
      | (w, Accepted v upstream g) \<Rightarrow> (w, Served v (tg_provider t) upstream g)
      | (w, Crashed) \<Rightarrow> (w, WalkPanic))"

text \<open>The fail-open pass runs only when the first pass left no error.\<close>

definition two_passes ::
  "'p job \<Rightarrow> ('p, 'v) op \<Rightarrow> route_target list \<Rightarrow> 'p node \<Rightarrow> 'p node \<times> 'v walked" where
  "two_passes jb call targets w =
     (let now_instant = nd_instant w
      in case walk jb call now_instant True targets w None None of
        (w, Walked None soon) \<Rightarrow> walk jb call now_instant False targets w None soon
      | other \<Rightarrow> other)"

section \<open>The loop\<close>

record 'v dispatched =
  ds_value :: 'v
  ds_request_id :: string
  ds_key :: string
  ds_model :: string
  ds_provider :: string
  ds_upstream :: string
  ds_rate :: limiter
  ds_guard :: rate_guard

text \<open>\<open>wait.as_secs().max(1)\<close>; a duration's seconds are a \<open>u64\<close>.\<close>

definition retry_after :: "duration \<Rightarrow> u64" where
  "retry_after wait = max (of_nat (wait div 10 ^ 9)) 1"

definition rate_limited_text :: "u64 \<Rightarrow> string" where
  "rate_limited_text s = ''rate limited; retry after '' @ decimal (unat s) @ ''s''"

definition no_eligible :: model_error where
  "no_eligible = Unavailable ''no eligible targets''"

function dispatch_loop ::
  "'p job \<Rightarrow> string \<Rightarrow> ('p, 'v) op \<Rightarrow> (duration \<Rightarrow> 'p node \<Rightarrow> 'p node) \<Rightarrow> route_target list \<Rightarrow> duration \<Rightarrow>
     'p node \<Rightarrow> 'p node \<times> (engine_error + 'v dispatched) run" where
  "dispatch_loop jb key call sleep targets budget w =
     (case two_passes jb call targets w of
        (w, Served v provider upstream g) \<Rightarrow>
          (w, Ret (Inr \<lparr>ds_value = v, ds_request_id = jb_id jb, ds_key = key, ds_model = jb_model jb,
             ds_provider = provider, ds_upstream = upstream, ds_rate = tp_rate (jb_topology jb),
             ds_guard = g\<rparr>))
      | (w, WalkPanic) \<Rightarrow> (w, Panic)
      | (w, Walked (Some e) _) \<Rightarrow>
          (emit (RequestFailed (jb_id jb) (model_error_text e)) w, Ret (Inl (AllTargetsFailed e)))
      | (w, Walked None None) \<Rightarrow>
          (emit (RequestFailed (jb_id jb) (model_error_text no_eligible)) w,
           Ret (Inl (AllTargetsFailed no_eligible)))
      | (w, Walked None (Some wait)) \<Rightarrow>
          (let nap = min wait budget
           in if nap = 0
              then (emit (RequestFailed (jb_id jb) (rate_limited_text (retry_after wait))) w,
                    Ret (Inl (RateLimited (retry_after wait))))
              else dispatch_loop jb key call sleep targets (budget - nap) (sleep nap w)))"
  by pat_completeness auto
termination
  by (relation "measure (\<lambda>(jb, key, call, sleep, targets, budget, w). budget)") auto

declare dispatch_loop.simps [simp del]

definition dispatch ::
  "(string \<Rightarrow> string option) \<Rightarrow> 'p engine \<Rightarrow> (duration \<Rightarrow> 'p node \<Rightarrow> 'p node) \<Rightarrow> string \<Rightarrow> string \<Rightarrow> string \<Rightarrow>
     u64 \<Rightarrow> json option \<Rightarrow> ('p, 'v) op \<Rightarrow> 'p node \<Rightarrow> 'p node \<times> (engine_error + 'v dispatched) run" where
  "dispatch env en sleep logical_model key request_id now payload call w =
     (let topo = nd_topology w
      in case resolve (tp_router topo) logical_model of
        None \<Rightarrow> (w, Ret (Inl (NoRoute logical_model)))
      | Some [] \<Rightarrow> (w, Ret (Inl (NoTargets logical_model)))
      | Some targets \<Rightarrow>
          dispatch_loop
            \<lparr>jb_env = env, jb_topology = topo, jb_model = logical_model, jb_id = request_id,
             jb_now = now, jb_cooldown = en_cooldown_secs en\<rparr>
            key call sleep targets (en_rate_max_wait en)
            (emit (RequestStarted request_id key logical_model payload) w))"

section \<open>Proof rules\<close>

text \<open>
  A walk keeps what every target keeps. \<open>I\<close> holds between targets, \<open>Q\<close> once a target has accepted,
  \<open>C\<close> after a panic; one rule per layer carries them from a target to a whole dispatch.
\<close>

definition tried_post ::
  "('p node \<Rightarrow> bool) \<Rightarrow> ('p node \<Rightarrow> route_target \<Rightarrow> 'v \<Rightarrow> string \<Rightarrow> rate_guard \<Rightarrow> bool) \<Rightarrow> ('p node \<Rightarrow> bool) \<Rightarrow>
     route_target \<Rightarrow> 'p node \<times> 'v tried \<Rightarrow> bool" where
  "tried_post I Q C t r =
     (case r of (w, Accepted v u g) \<Rightarrow> Q w t v u g | (w, Crashed) \<Rightarrow> C w | (w, _) \<Rightarrow> I w)"

definition walked_post ::
  "('p node \<Rightarrow> bool) \<Rightarrow> ('p node \<Rightarrow> route_target \<Rightarrow> 'v \<Rightarrow> string \<Rightarrow> rate_guard \<Rightarrow> bool) \<Rightarrow> ('p node \<Rightarrow> bool) \<Rightarrow>
     route_target list \<Rightarrow> 'p node \<times> 'v walked \<Rightarrow> bool" where
  "walked_post I Q C targets r =
     (case r of
        (w, Served v p u g) \<Rightarrow> \<exists>t \<in> set targets. p = tg_provider t \<and> Q w t v u g
      | (w, Walked _ _) \<Rightarrow> I w
      | (w, WalkPanic) \<Rightarrow> C w)"

fun fail_text :: "engine_error \<Rightarrow> string \<Rightarrow> bool" where
  "fail_text (AllTargetsFailed e) s = (s = model_error_text e)"
| "fail_text (RateLimited n) s = (s = rate_limited_text n)"
| "fail_text _ s = False"

definition looped_post ::
  "'p job \<Rightarrow> string \<Rightarrow> ('p node \<Rightarrow> bool) \<Rightarrow>
     ('p node \<Rightarrow> route_target \<Rightarrow> 'v \<Rightarrow> string \<Rightarrow> rate_guard \<Rightarrow> bool) \<Rightarrow> ('p node \<Rightarrow> bool) \<Rightarrow>
     route_target list \<Rightarrow> 'p node \<times> (engine_error + 'v dispatched) run \<Rightarrow> bool" where
  "looped_post jb key I Q C targets r =
     (case r of
        (w, Ret (Inr d)) \<Rightarrow>
          (\<exists>t \<in> set targets. ds_provider d = tg_provider t \<and> Q w t (ds_value d) (ds_upstream d) (ds_guard d)) \<and>
          ds_request_id d = jb_id jb \<and> ds_key d = key \<and> ds_model d = jb_model jb \<and>
          ds_rate d = tp_rate (jb_topology jb)
      | (w, Ret (Inl e)) \<Rightarrow>
          (\<exists>w1 text. I w1 \<and> fail_text e text \<and> w = emit (RequestFailed (jb_id jb) text) w1)
      | (w, Panic) \<Rightarrow> C w)"

lemma walk_rule:
  assumes "\<And>w t. I w \<Longrightarrow> t \<in> set targets \<Longrightarrow> tried_post I Q C t (try_target jb call ni honor t w)"
    and "I w" "set ts \<subseteq> set targets"
  shows "walked_post I Q C targets (walk jb call ni honor ts w err soon)"
  using assms(2,3)
proof (induction ts arbitrary: w err soon)
  case (Cons t ts)
  obtain w1 r where r: "try_target jb call ni honor t w = (w1, r)" by (cases "try_target jb call ni honor t w")
  have "tried_post I Q C t (w1, r)" using assms(1) Cons.prems r by (metis list.set_intros(1) subsetD)
  with Cons r show ?case by (cases r) (auto simp: tried_post_def walked_post_def)
qed (simp add: walked_post_def)

lemma two_passes_rule:
  assumes "\<And>w t ni honor. I w \<Longrightarrow> t \<in> set targets \<Longrightarrow> tried_post I Q C t (try_target jb call ni honor t w)"
    and "I w"
  shows "walked_post I Q C targets (two_passes jb call targets w)"
proof -
  obtain w1 r where r: "walk jb call (nd_instant w) True targets w None None = (w1, r)"
    by (cases "walk jb call (nd_instant w) True targets w None None")
  have post: "walked_post I Q C targets (w1, r)"
    unfolding r [symmetric] by (rule walk_rule) (use assms in auto)
  show ?thesis
  proof (cases "\<exists>soon. r = Walked None soon")
    case True
    then obtain soon where soon: "r = Walked None soon" ..
    with post have "I w1" by (simp add: walked_post_def)
    then have "walked_post I Q C targets (walk jb call (nd_instant w) False targets w1 None soon)"
      by (rule walk_rule [rotated]) (use assms in auto)
    then show ?thesis by (simp add: two_passes_def r soon)
  next
    case False
    then have "two_passes jb call targets w = (w1, r)"
      by (auto simp: two_passes_def r split: walked.splits option.splits)
    with post show ?thesis by simp
  qed
qed

lemma dispatch_loop_rule:
  assumes step: "\<And>w t ni honor. I w \<Longrightarrow> t \<in> set targets \<Longrightarrow> tried_post I Q C t (try_target jb call ni honor t w)"
    and sleep: "\<And>d w. I w \<Longrightarrow> I (sleep d w)"
    and "I w"
  shows "looped_post jb key I Q C targets (dispatch_loop jb key call sleep targets budget w)"
  using assms(3)
proof (induction budget arbitrary: w rule: less_induct)
  case (less budget)
  obtain w1 r where r: "two_passes jb call targets w = (w1, r)" by (cases "two_passes jb call targets w")
  have post: "walked_post I Q C targets (w1, r)"
    unfolding r [symmetric] by (rule two_passes_rule [OF step less.prems])
  show ?case
  proof (cases r)
    case (Walked err soon)
    with post have I1: "I w1" by (simp add: walked_post_def)
    show ?thesis
    proof (cases "\<exists>wait. err = None \<and> soon = Some wait \<and> min wait budget \<noteq> 0")
      case True
      then obtain wait where wait: "err = None" "soon = Some wait" "min wait budget \<noteq> 0" by auto
      then have "budget - min wait budget < budget" by auto
      then have "looped_post jb key I Q C targets
          (dispatch_loop jb key call sleep targets (budget - min wait budget) (sleep (min wait budget) w1))"
        using I1 sleep by (intro less.IH) auto
      with r Walked wait show ?thesis
        by (subst dispatch_loop.simps) (auto simp: Let_def min_def)
    next
      case False
      then show ?thesis
        using r Walked I1
        by (subst dispatch_loop.simps) (auto simp: looped_post_def Let_def split: option.splits)
    qed
  qed (use r post in \<open>auto simp: dispatch_loop.simps [of jb key call sleep targets budget] looped_post_def walked_post_def\<close>)
qed

text \<open>The snapshot and the request of a dispatch, as the loop sees them.\<close>

definition job_of ::
  "(string \<Rightarrow> string option) \<Rightarrow> 'p engine \<Rightarrow> string \<Rightarrow> string \<Rightarrow> u64 \<Rightarrow> 'p node \<Rightarrow> 'p job" where
  "job_of env en model request_id now w =
     \<lparr>jb_env = env, jb_topology = nd_topology w, jb_model = model, jb_id = request_id,
      jb_now = now, jb_cooldown = en_cooldown_secs en\<rparr>"

lemma dispatch_routed:
  assumes "resolve (tp_router (nd_topology w)) model = Some targets" "targets \<noteq> []"
  shows "dispatch env en sleep model key rid now payload call w =
    dispatch_loop (job_of env en model rid now w) key call sleep targets (en_rate_max_wait en)
      (emit (RequestStarted rid key model payload) w)"
  using assms by (cases targets) (auto simp: dispatch_def job_of_def)

lemma dispatch_cases:
  obtains (no_route) "resolve (tp_router (nd_topology w)) model = None"
      "dispatch env en sleep model key rid now payload call w = (w, Ret (Inl (NoRoute model)))"
  | (no_targets) "resolve (tp_router (nd_topology w)) model = Some []"
      "dispatch env en sleep model key rid now payload call w = (w, Ret (Inl (NoTargets model)))"
  | (loop) targets where "resolve (tp_router (nd_topology w)) model = Some targets" "targets \<noteq> []"
      "dispatch env en sleep model key rid now payload call w =
         dispatch_loop (job_of env en model rid now w) key call sleep targets (en_rate_max_wait en)
           (emit (RequestStarted rid key model payload) w)"
proof (cases "resolve (tp_router (nd_topology w)) model")
  case (Some targets)
  show ?thesis
  proof (cases "targets = []")
    case True
    with Some show ?thesis by (intro no_targets) (simp_all add: dispatch_def)
  next
    case False
    show ?thesis by (rule loop [OF Some False dispatch_routed [OF Some False]])
  qed
qed (auto simp: dispatch_def no_route)

end
