(* ===== verification/Lifecycle.thy ===== *)
theory Lifecycle
  imports Engine
begin

text \<open>
  Properties of a whole dispatch: the events a request leaves on the bus, the permits it holds,
  the time it may wait, and the target it settles on.
\<close>

lemma job_of_simps [simp]:
  "jb_id (job_of env en model rid now w) = rid" "jb_model (job_of env en model rid now w) = model"
  "jb_topology (job_of env en model rid now w) = nd_topology w"
  by (simp_all add: job_of_def)

section \<open>Events of a request\<close>

fun event_request :: "event \<Rightarrow> string option" where
  "event_request (ProviderHealth _ _) = None"
| "event_request e = Some (ev_id e)"

text \<open>The events on the bus that carry a request's id, in order.\<close>

definition own :: "string \<Rightarrow> 'p node \<Rightarrow> event list" where
  "own rid w = filter (\<lambda>e. event_request e = Some rid) (map nv_event (nd_log w))"

lemma own_emit [simp]:
  "own rid (emit e w) = own rid w @ (if event_request e = Some rid then [e] else [])"
  by (simp add: own_def emit_def)

lemma own_update [simp]:
  "own rid (w\<lparr>nd_health := h\<rparr>) = own rid w" "own rid (w\<lparr>nd_limits := l\<rparr>) = own rid w"
  "own rid (w\<lparr>nd_instant := i\<rparr>) = own rid w" "own rid (w\<lparr>nd_topology := tp\<rparr>) = own rid w"
  by (simp_all add: own_def)

lemma own_accept [simp]:
  "own rid (accept jb t w) =
     own rid w @ (if jb_id jb = rid then [RequestRouted rid (tg_provider t) (upstream_of jb t)] else [])"
  by (simp add: accept_def)

lemma own_switch_over [simp]: "own rid (switch_over jb t w) = own rid w"
  by (simp add: switch_over_def)

lemma own_release [simp]: "own rid (release_guard g w) = own rid w"
  by (simp add: release_guard_def)

text \<open>An awaited call during which only other requests emit.\<close>

definition silent :: "string \<Rightarrow> ('p, 'v) op \<Rightarrow> bool" where
  "silent rid call \<longleftrightarrow> (\<forall>provider cx m w. own rid (fst (call provider cx m w)) = own rid w)"

lemma try_target_own:
  assumes "silent (jb_id jb) call" "own (jb_id jb) w = es"
  shows "tried_post (\<lambda>w. own (jb_id jb) w = es)
    (\<lambda>w t v u g. own (jb_id jb) w = es @ [RequestRouted (jb_id jb) (tg_provider t) u])
    (\<lambda>w. own (jb_id jb) w = es) t (try_target jb call ni honor t w)"
proof -
  have call: "own (jb_id jb) w2 = own (jb_id jb) w1" if "call p cx m w1 = (w2, r)" for p cx m w1 w2 r
    using assms(1) that by (metis fst_conv silent_def)
  show ?thesis
    using assms(2)
    by (auto simp: try_target_def serve_def tried_post_def Let_def call
        split: option.splits prod.splits attempt.splits sum.splits model_error.splits)
qed

fun failure_text :: "engine_error \<Rightarrow> string" where
  "failure_text (AllTargetsFailed e) = model_error_text e"
| "failure_text (RateLimited n) = rate_limited_text n"
| "failure_text _ = []"

text \<open>The events a dispatch must have added, given its answer.\<close>

fun lifecycle ::
  "string \<Rightarrow> string \<Rightarrow> string \<Rightarrow> json option \<Rightarrow> (engine_error + 'v dispatched) run \<Rightarrow> event list" where
  "lifecycle rid key model payload (Ret (Inl (NoRoute _))) = []"
| "lifecycle rid key model payload (Ret (Inl (NoTargets _))) = []"
| "lifecycle rid key model payload (Ret (Inl e)) =
     [RequestStarted rid key model payload, RequestFailed rid (failure_text e)]"
| "lifecycle rid key model payload (Ret (Inr d)) =
     [RequestStarted rid key model payload, RequestRouted rid (ds_provider d) (ds_upstream d)]"
| "lifecycle rid key model payload Panic = [RequestStarted rid key model payload]"

lemma fail_text_lifecycle:
  "fail_text e text \<Longrightarrow>
     lifecycle rid key model payload (Ret (Inl e)) = [RequestStarted rid key model payload, RequestFailed rid text]"
  by (cases e) auto

lemma looped_own:
  assumes "silent (jb_id jb) call" "\<And>d w. own (jb_id jb) (sleep d w) = own (jb_id jb) w"
    and "dispatch_loop jb key call sleep targets budget w = (w', r)"
    and "own (jb_id jb) w = es @ [RequestStarted (jb_id jb) key model payload]"
  shows "own (jb_id jb) w' = es @ lifecycle (jb_id jb) key model payload r"
proof -
  let ?es = "es @ [RequestStarted (jb_id jb) key model payload]"
  have "looped_post jb key (\<lambda>w. own (jb_id jb) w = ?es)
      (\<lambda>w t v u g. own (jb_id jb) w = ?es @ [RequestRouted (jb_id jb) (tg_provider t) u])
      (\<lambda>w. own (jb_id jb) w = ?es) targets (dispatch_loop jb key call sleep targets budget w)"
    by (rule dispatch_loop_rule, erule try_target_own [OF assms(1)]) (simp_all add: assms)
  then show ?thesis
    unfolding assms(3)
    by (auto simp: looped_post_def fail_text_lifecycle split: run.splits sum.splits)
qed

lemma dispatch_own:
  assumes "silent rid call" "\<And>d w. own rid (sleep d w) = own rid w"
    and "dispatch env en sleep model key rid now payload call w = (w', r)"
  shows "own rid w' = own rid w @ lifecycle rid key model payload r"
proof (rule dispatch_cases [where w = w and env = env and en = en and sleep = sleep and model = model
      and key = key and rid = rid and now = now and payload = payload and call = call], goal_cases)
  case (3 targets)
  have id: "jb_id (job_of env en model rid now w) = rid" by (simp add: job_of_def)
  show ?thesis
    using looped_own [of "job_of env en model rid now w" call sleep key targets] assms 3(3)
    by (simp add: id)
qed (use assms(3) in auto)

text \<open>A target panics only inside admission, hence only for a provider the limiter has an entry for.\<close>

lemma try_target_crashed:
  assumes "try_target jb call ni honor t w = (w', Crashed)"
  shows "\<exists>a. hm_get (tp_rate (jb_topology jb)) (tg_provider t) = Some a"
  using assms
  by (auto simp: try_target_def try_admit_def serve_def Let_def
      split: option.splits prod.splits attempt.splits sum.splits model_error.splits if_splits)

lemma try_target_upstream:
  assumes "try_target jb call ni honor t w = (w', Accepted v u g)"
  shows "u = upstream_of jb t"
  using assms
  by (auto simp: try_target_def serve_def Let_def
      split: option.splits prod.splits attempt.splits sum.splits model_error.splits if_splits)

text \<open>The one way a routed dispatch can end, with the events it must have added by then.\<close>

definition settled ::
  "string \<Rightarrow> string \<Rightarrow> event list \<Rightarrow> limiter \<Rightarrow> route_target list \<Rightarrow> 'p node \<Rightarrow>
     (engine_error + 'v dispatched) run \<Rightarrow> bool" where
  "settled rid model es lr targets w' r =
     (case r of
        Ret (Inr d) \<Rightarrow>
          own rid w' = es @ [RequestRouted rid (ds_provider d) (ds_upstream d)] \<and>
          (\<exists>t \<in> set targets. ds_provider d = tg_provider t \<and> ds_upstream d = unwrap_or model (tg_model t))
      | Ret (Inl e) \<Rightarrow>
          own rid w' = es @ [RequestFailed rid (failure_text e)] \<and>
          ((\<exists>c. e = AllTargetsFailed c) \<or> (\<exists>n. e = RateLimited n))
      | Panic \<Rightarrow> own rid w' = es \<and> (\<exists>t \<in> set targets. hm_get lr (tg_provider t) \<noteq> None))"

lemma fail_text_failure: "fail_text e text \<Longrightarrow> text = failure_text e \<and>
    ((\<exists>c. e = AllTargetsFailed c) \<or> (\<exists>n. e = RateLimited n))"
  by (cases e) auto

lemma looped_settled:
  fixes w :: "'p node"
  assumes "silent (jb_id jb) call" "\<And>d w. own (jb_id jb) (sleep d w) = own (jb_id jb) w"
    and "dispatch_loop jb key call sleep targets budget w = (w', r)"
  shows "settled (jb_id jb) (jb_model jb) (own (jb_id jb) w) (tp_rate (jb_topology jb)) targets w' r"
proof -
  let ?es = "own (jb_id jb) w" and ?limited = "\<exists>t \<in> set targets. hm_get (tp_rate (jb_topology jb)) (tg_provider t) \<noteq> None"
  let ?Q = "\<lambda>v :: 'p node. \<lambda>t _ u _. own (jb_id jb) v = ?es @ [RequestRouted (jb_id jb) (tg_provider t) u] \<and>
    u = upstream_of jb t"
  have "looped_post jb key (\<lambda>v :: 'p node. own (jb_id jb) v = ?es) ?Q (\<lambda>v. own (jb_id jb) v = ?es \<and> ?limited) targets
      (dispatch_loop jb key call sleep targets budget w)"
  proof (rule dispatch_loop_rule)
    fix v :: "'p node" and t ni honor assume "own (jb_id jb) v = ?es" "t \<in> set targets"
    then show "tried_post (\<lambda>v. own (jb_id jb) v = ?es) ?Q (\<lambda>v. own (jb_id jb) v = ?es \<and> ?limited) t
        (try_target jb call ni honor t v)"
      using try_target_own [OF assms(1), of v ?es t ni honor] try_target_crashed [of jb call ni honor t v]
      by (fastforce simp: tried_post_def split: prod.splits tried.splits dest: try_target_upstream)
  qed (simp_all add: assms)
  then show ?thesis
    unfolding assms(3)
    by (auto simp: looped_post_def settled_def upstream_of_def dest: fail_text_failure split: run.splits sum.splits)
qed

text \<open>
  C1: the lifecycle of a request on the bus. Whatever other requests do meanwhile, a dispatch whose
  model has no route, or a route with no target, changes nothing and says so. Any other dispatch adds to
  its own request's events one start, carrying key, model and payload, and then: exactly one routing, to
  one of the route's targets under that target's upstream model, when it succeeds; exactly one failure,
  with the text of the error returned, when it fails. Only a panic inside the admission of a target (the
  one operation of the loop that can panic, C38) leaves the start without an outcome, and a route none of
  whose providers has a limit cannot come to that. No retry, skipped or failed target shows up.
\<close>

theorem dispatch_lifecycle:
  assumes "silent rid call" "\<And>d w. own rid (sleep d w) = own rid w"
    and "dispatch env en sleep model key rid now payload call w = (w', r)"
  shows "case resolve (tp_router (nd_topology w)) model of
      None \<Rightarrow> w' = w \<and> r = Ret (Inl (NoRoute model))
    | Some [] \<Rightarrow> w' = w \<and> r = Ret (Inl (NoTargets model))
    | Some (t # ts) \<Rightarrow>
        (case r of
           Ret (Inr d) \<Rightarrow>
             own rid w' = own rid w @ [RequestStarted rid key model payload,
               RequestRouted rid (ds_provider d) (ds_upstream d)] \<and>
             (\<exists>u \<in> set (t # ts). ds_provider d = tg_provider u \<and> ds_upstream d = unwrap_or model (tg_model u))
         | Ret (Inl e) \<Rightarrow>
             own rid w' = own rid w @ [RequestStarted rid key model payload, RequestFailed rid (failure_text e)] \<and>
             ((\<exists>c. e = AllTargetsFailed c) \<or> (\<exists>n. e = RateLimited n))
         | Panic \<Rightarrow>
             own rid w' = own rid w @ [RequestStarted rid key model payload] \<and>
             (\<exists>u \<in> set (t # ts). hm_get (tp_rate (nd_topology w)) (tg_provider u) \<noteq> None))"
proof (rule dispatch_cases [where w = w and env = env and en = en and sleep = sleep and model = model
      and key = key and rid = rid and now = now and payload = payload and call = call], goal_cases)
  case (3 targets)
  then have "settled rid model (own rid w @ [RequestStarted rid key model payload]) (tp_rate (nd_topology w)) targets w' r"
    using looped_settled [of "job_of env en model rid now w" call sleep key targets "en_rate_max_wait en"
        "emit (RequestStarted rid key model payload) w" w' r] assms
    by simp
  with 3(1,2) show ?thesis
    by (cases targets) (auto simp: settled_def split: run.splits sum.splits)
qed (use assms(3) in auto)

text \<open>What a dispatch answers carries the request it was called with, and fails for few reasons.\<close>

lemma dispatch_answers:
  assumes "dispatch env en sleep model key rid now payload call w = (w', Ret r)"
  shows "r = Inr d \<Longrightarrow> ds_request_id d = rid \<and> ds_key d = key \<and> ds_model d = model"
    and "r = Inl e \<Longrightarrow> e = NoRoute model \<or> e = NoTargets model \<or> (\<exists>text. fail_text e text)"
proof -
  have "(\<forall>d. r = Inr d \<longrightarrow> ds_request_id d = rid \<and> ds_key d = key \<and> ds_model d = model) \<and>
    (\<forall>e. r = Inl e \<longrightarrow> e = NoRoute model \<or> e = NoTargets model \<or> (\<exists>text. fail_text e text))"
  proof (rule dispatch_cases [where w = w and env = env and en = en and sleep = sleep and model = model
        and key = key and rid = rid and now = now and payload = payload and call = call], goal_cases)
    case (3 targets)
    let ?jb = "job_of env en model rid now w"
    have "looped_post ?jb key (\<lambda>_. True) (\<lambda>_ _ _ _ _. True) (\<lambda>_. True) targets (w', Ret r)"
      unfolding assms [symmetric] 3(3)
      by (rule dispatch_loop_rule) (auto simp: tried_post_def split: prod.splits tried.splits)
    then show ?case by (cases r) (auto simp: looped_post_def job_of_def)
  qed (use assms in auto)
  then show "r = Inr d \<Longrightarrow> ds_request_id d = rid \<and> ds_key d = key \<and> ds_model d = model"
    and "r = Inl e \<Longrightarrow> e = NoRoute model \<or> e = NoTargets model \<or> (\<exists>text. fail_text e text)" by auto
qed

section \<open>Waiting\<close>

lemma node_instant [simp]:
  "nd_instant (accept jb t w) = nd_instant w" "nd_instant (switch_over jb t w) = nd_instant w"
  "nd_instant (release_guard g w) = nd_instant w"
  by (simp_all add: accept_def switch_over_def release_guard_def)

text \<open>A call that takes no time, so that the clock only counts the sleeping.\<close>

definition timeless :: "('p, 'v) op \<Rightarrow> bool" where
  "timeless call \<longleftrightarrow> (\<forall>p cx m w. nd_instant (fst (call p cx m w)) = nd_instant w)"

lemma try_target_instant:
  assumes "timeless call"
  shows "nd_instant (fst (try_target jb call ni honor t w)) = nd_instant w"
proof -
  have call: "nd_instant w2 = nd_instant w1" if "call p cx m w1 = (w2, r)" for p cx m w1 w2 r
    using assms that by (metis fst_conv timeless_def)
  show ?thesis
    by (auto simp: try_target_def serve_def Let_def call
        split: option.splits prod.splits attempt.splits sum.splits model_error.splits)
qed

lemma two_passes_instant:
  fixes w :: "'a node"
  assumes "timeless call"
    and "two_passes jb call targets w = (w', r)"
  shows "nd_instant w' = nd_instant w"
proof -
  let ?I = "\<lambda>w' :: 'a node. nd_instant w' = nd_instant w"
  have "tried_post ?I (\<lambda>w' _ _ _ _. ?I w') ?I t (try_target jb call ni honor t v)" if "?I v" for v t ni honor
    using try_target_instant [OF assms(1), where jb = jb and ni = ni and honor = honor and t = t and w = v] that
    by (cases "try_target jb call ni honor t v"; cases "snd (try_target jb call ni honor t v)")
      (auto simp: tried_post_def)
  then have "walked_post ?I (\<lambda>w' _ _ _ _. ?I w') ?I targets (two_passes jb call targets w)"
    by (rule two_passes_rule) simp_all
  then show ?thesis by (auto simp: assms(2) walked_post_def split: walked.splits)
qed

lemma retry_after_ge: "1 \<le> retry_after wait"
  by (simp add: retry_after_def)

text \<open>
  The states a dispatch may start a round in: the one it begins with, and after any round that ends
  saturated, asking for a wait, the one after a sleep no longer than that wait.
\<close>

inductive retried ::
  "'p job \<Rightarrow> ('p, 'v) op \<Rightarrow> (duration \<Rightarrow> 'p node \<Rightarrow> 'p node) \<Rightarrow> route_target list \<Rightarrow> 'p node \<Rightarrow> 'p node \<Rightarrow> bool"
  for jb call sleep targets where
  first_round: "retried jb call sleep targets w w"
| next_round: "retried jb call sleep targets (sleep nap w1) v \<Longrightarrow>
    two_passes jb call targets w = (w1, Walked None (Some wait)) \<Longrightarrow> 0 < nap \<Longrightarrow> nap \<le> wait \<Longrightarrow>
    retried jb call sleep targets w v"

text \<open>A dispatch that is refused for saturation: its last round found every target busy, and either no time is
  left or the soonest of the waits asked for is zero.\<close>

definition gave_up ::
  "'p job \<Rightarrow> ('p, 'v) op \<Rightarrow> (duration \<Rightarrow> 'p node \<Rightarrow> 'p node) \<Rightarrow> route_target list \<Rightarrow> instant \<Rightarrow> 'p node \<Rightarrow>
     'p node \<Rightarrow> u64 \<Rightarrow> bool" where
  "gave_up jb call sleep targets deadline w w' n \<longleftrightarrow>
     (\<exists>v v' wait. retried jb call sleep targets w v \<and> two_passes jb call targets v = (v', Walked None (Some wait)) \<and>
        w' = emit (RequestFailed (jb_id jb) (rate_limited_text n)) v' \<and> n = retry_after wait \<and>
        (nd_instant v' = deadline \<or> wait = 0))"

lemma gave_up_later:
  "gave_up jb call sleep targets deadline (sleep nap w1) w' n \<Longrightarrow>
     two_passes jb call targets w = (w1, Walked None (Some wait)) \<Longrightarrow> 0 < nap \<Longrightarrow> nap \<le> wait \<Longrightarrow>
     gave_up jb call sleep targets deadline w w' n"
  unfolding gave_up_def by (blast intro: next_round)

lemma dispatch_loop_wait:
  assumes "timeless call"
    and "\<And>d w. nd_instant (sleep d w) = nd_instant w + d"
    and "dispatch_loop jb key call sleep targets budget w = (w', r)"
  shows "nd_instant w \<le> nd_instant w' \<and> nd_instant w' \<le> nd_instant w + budget \<and>
    (\<forall>n. r = Ret (Inl (RateLimited n)) \<longrightarrow> gave_up jb call sleep targets (nd_instant w + budget) w w' n)"
  using assms(3)
proof (induction budget arbitrary: w rule: less_induct)
  case (less budget)
  obtain w1 x where x: "two_passes jb call targets w = (w1, x)" by (cases "two_passes jb call targets w")
  have i1: "nd_instant w1 = nd_instant w" by (rule two_passes_instant [OF assms(1) x])
  note run = less.prems [unfolded dispatch_loop.simps [of jb key call sleep targets budget w] x]
  show ?case
  proof (cases "\<exists>wait. x = Walked None (Some wait)")
    case True
    then obtain wait where wait: "x = Walked None (Some wait)" ..
    show ?thesis
    proof (cases "min wait budget = 0")
      case True
      then have r: "r = Ret (Inl (RateLimited (retry_after wait)))"
        "w' = emit (RequestFailed (jb_id jb) (rate_limited_text (retry_after wait))) w1"
        using run wait by auto
      have "wait = 0 \<or> budget = 0" using True by (auto simp: min_def split: if_splits)
      then have "gave_up jb call sleep targets (nd_instant w + budget) w w' (retry_after wait)"
        using first_round [of jb call sleep targets w] x wait r(2) i1 by (auto simp: gave_up_def)
      with r i1 show ?thesis by simp
    next
      case False
      let ?nap = "min wait budget"
      have lt: "budget - ?nap < budget" and le: "?nap \<le> budget" "?nap \<le> wait" "0 < ?nap" using False by auto
      have go: "dispatch_loop jb key call sleep targets (budget - ?nap) (sleep ?nap w1) = (w', r)"
        using run wait False by (simp add: Let_def)
      have deadline: "nd_instant (sleep ?nap w1) + (budget - ?nap) = nd_instant w + budget"
        using le(1) by (simp add: assms(2) i1)
      show ?thesis
        using less.IH [OF lt go] gave_up_later [OF _ x [unfolded wait] le(3,2)]
        unfolding deadline by (auto simp: assms(2) i1)
    qed
  next
    case False
    then show ?thesis using run i1 by (auto split: walked.splits option.splits)
  qed
qed


section \<open>Permits\<close>

text \<open>
  What the engine relies on of admission: a request turned away leaves the permits alone, and
  dropping the guard of an admitted one, with the permits otherwise unmoved, gives its permits back.
\<close>

locale admission =
  fixes admit :: "'st \<Rightarrow> 'st \<times> 'g attempt" and drop :: "'st \<Rightarrow> 'g \<Rightarrow> 'st"
    and same :: "'st \<Rightarrow> 'st \<Rightarrow> bool" and ok :: "'st \<Rightarrow> bool"
  assumes same_refl: "same s s"
    and same_trans: "same s t \<Longrightarrow> same t u \<Longrightarrow> same s u"
    and same_ok: "same s t \<Longrightarrow> ok s \<Longrightarrow> ok t"
    and refused: "ok s \<Longrightarrow> admit s = (t, Later d) \<Longrightarrow> same s t"
    and panicked: "ok s \<Longrightarrow> admit s = (t, Panicked) \<Longrightarrow> same s t"
    and dropped: "ok s \<Longrightarrow> admit s = (t, Got g) \<Longrightarrow> same t u \<Longrightarrow> same s (drop u g)"
begin

lemma admitted_ok: "ok s \<Longrightarrow> admit s = (t, Got g) \<Longrightarrow> same t u \<Longrightarrow> ok (drop u g)"
  by (rule same_ok [OF dropped])

lemma twice: "ok s \<Longrightarrow> admit s = (t, Got g) \<Longrightarrow> same t u \<Longrightarrow> same u v \<Longrightarrow> same s (drop v g)"
  by (blast intro: dropped same_trans)

end

definition same_permits :: "limits_store \<Rightarrow> limits_store \<Rightarrow> bool" where
  "same_permits st st' \<longleftrightarrow>
     length st' = length st \<and> (\<forall>i < length st. \<forall>s. sem_at s (st' ! i) = sem_at s (st ! i))"

definition limiter_ok :: "limiter \<Rightarrow> limits_store \<Rightarrow> bool" where
  "limiter_ok lr st \<longleftrightarrow> (\<forall>(p, a) \<in> set lr. a < length st)"

lemma same_permits_refl [simp]: "same_permits st st"
  by (simp add: same_permits_def)

lemma same_permits_trans: "same_permits a b \<Longrightarrow> same_permits b c \<Longrightarrow> same_permits a c"
  by (simp add: same_permits_def)

lemma try_admit_turned_away:
  assumes "try_admit st lr provider model now = (st', r)" "\<forall>g. r \<noteq> Got g"
  shows "same_permits st st'"
proof (cases "hm_get lr provider")
  case None
  with assms show ?thesis by (simp add: try_admit_def)
next
  case (Some a)
  obtain pl x where x: "admit_entry model now (st ! a) = (pl, x)" by (cases "admit_entry model now (st ! a)")
  with assms Some have st': "st' = st[a := pl]" and "\<forall>g. x \<noteq> Got g"
    by (auto simp: try_admit_def split: attempt.splits)
  then have "sem_at s pl = sem_at s (st ! a)" for s
    using admit_sem [OF x, of s] by (cases x) auto
  then show ?thesis by (simp add: same_permits_def st' sem_at_update)
qed

lemma drop_guard_length [simp]: "length (drop_guard st g) = length st"
  by (simp add: drop_guard_def)

lemma guard_empty_holds [simp]: "\<not> holds i s guard_empty"
  by (auto simp: holds_def guard_empty_def split: option.splits)

lemma try_admit_dropped:
  assumes "limiter_ok lr st" "try_admit st lr provider model now = (st', Got g)" "same_permits st' st''"
  shows "same_permits st (drop_guard st'' g)"
proof (cases "hm_get lr provider")
  case None
  with assms have "st' = st" "g = guard_empty" by (auto simp: try_admit_def)
  with assms(3) show ?thesis by (simp add: same_permits_def drop_guard_at)
next
  case (Some a)
  with assms(1) have a: "a < length st" using hm_get_Some_in by (fastforce simp: limiter_ok_def)
  note h = admit_holds [OF Some assms(2) a]
  have len: "length st'' = length st" using h(3) [OF a] assms(3) by (simp add: same_permits_def)
  have "sem_at s (drop_guard st'' g ! i) = sem_at s (st ! i)" if i: "i < length st" for i s
  proof -
    have "sem_at s (st'' ! i) = sem_at s (st' ! i)" using assms(3) i h(3) [OF a] by (simp add: same_permits_def)
    then show ?thesis
      using h(1) [OF i, of s] h(2) [OF i, of s] i len
      by (auto simp: drop_guard_at shift_sem_def)
  qed
  with len show ?thesis by (simp add: same_permits_def)
qed

interpretation limiter: admission "\<lambda>st. try_admit st lr provider model now" drop_guard same_permits "limiter_ok lr"
  for lr provider model now
proof
  show "limiter_ok lr t" if "same_permits s t" "limiter_ok lr s" for s t
    using that by (simp add: same_permits_def limiter_ok_def)
qed (auto intro: same_permits_trans try_admit_turned_away try_admit_dropped)

text \<open>An awaited call during which no permit of another request moves.\<close>

definition steady :: "('p, 'v) op \<Rightarrow> bool" where
  "steady call \<longleftrightarrow> (\<forall>p cx m w. same_permits (nd_limits w) (nd_limits (fst (call p cx m w))))"

lemma node_limits [simp]:
  "nd_limits (accept jb t w) = nd_limits w" "nd_limits (switch_over jb t w) = nd_limits w"
  "nd_limits (release_guard g w) = drop_guard (nd_limits w) g"
  by (simp_all add: accept_def switch_over_def release_guard_def)

lemma serve_permits:
  assumes "steady call" "limiter_ok lr st" "try_admit st lr provider model now = (st', Got g)"
    and "nd_limits w = st'"
  shows "tried_post (\<lambda>w. same_permits st (nd_limits w))
    (\<lambda>w _ _ _ g. same_permits st (drop_guard (nd_limits w) g)) C t (serve jb call p t g w)"
proof -
  have call: "same_permits st (drop_guard (nd_limits w2) g)" if "call q cx m w = (w2, x)" for q cx m w2 x
  proof (rule limiter.dropped [OF assms(2,3)])
    show "same_permits st' (nd_limits w2)" using assms(1,4) that by (metis fst_conv steady_def)
  qed
  show ?thesis
    by (auto simp: serve_def tried_post_def Let_def call split: prod.splits sum.splits model_error.splits)
qed

lemma try_target_permits:
  assumes "steady call" "limiter_ok (tp_rate (jb_topology jb)) st" "same_permits st (nd_limits w)"
  shows "tried_post (\<lambda>w. same_permits st (nd_limits w))
    (\<lambda>w _ _ _ g. same_permits st (drop_guard (nd_limits w) g)) (\<lambda>w. same_permits st (nd_limits w)) t
    (try_target jb call ni honor t w)"
proof -
  let ?I = "\<lambda>w :: 'a node. same_permits st (nd_limits w)"
  have ok: "limiter_ok (tp_rate (jb_topology jb)) (nd_limits w)"
    by (rule limiter.same_ok [OF assms(3,2)])
  show ?thesis
  proof (cases "honor \<and> is_down (nd_health w) (tg_provider t) (jb_now jb)")
    case up: False
    show ?thesis
    proof (cases "registry_get (tp_registry (jb_topology jb)) (tg_provider t)")
      case (Some p)
      obtain st' a where a: "try_admit (nd_limits w) (tp_rate (jb_topology jb)) (tg_provider t) (upstream_of jb t) ni = (st', a)"
        by (cases "try_admit (nd_limits w) (tp_rate (jb_topology jb)) (tg_provider t) (upstream_of jb t) ni")
      show ?thesis
      proof (cases a)
        case (Got g)
        have "tried_post (\<lambda>v. same_permits (nd_limits w) (nd_limits v))
            (\<lambda>v _ _ _ g. same_permits (nd_limits w) (drop_guard (nd_limits v) g)) (\<lambda>_. False) t
            (serve jb call p t g (w\<lparr>nd_limits := st'\<rparr>))"
          by (rule serve_permits [OF assms(1) ok a [unfolded Got]]) simp
        then have "tried_post ?I (\<lambda>w _ _ _ g. same_permits st (drop_guard (nd_limits w) g)) ?I t
            (serve jb call p t g (w\<lparr>nd_limits := st'\<rparr>))"
          using same_permits_trans [OF assms(3)]
          by (auto simp: tried_post_def split: prod.splits tried.splits)
        then show ?thesis using up Some a Got by (auto simp: try_target_def)
      next
        case (Later d)
        then have "same_permits (nd_limits w) st'" using limiter.refused [OF ok a [unfolded Later]] by simp
        then show ?thesis
          using up Some a Later same_permits_trans [OF assms(3)] by (simp add: try_target_def tried_post_def)
      next
        case Panicked
        then have "same_permits (nd_limits w) st'" using limiter.panicked [OF ok a [unfolded Panicked]] by simp
        then show ?thesis
          using up Some a Panicked same_permits_trans [OF assms(3)] by (simp add: try_target_def tried_post_def)
      qed
    qed (use up assms(3) in \<open>simp add: try_target_def tried_post_def\<close>)
  qed (use assms(3) in \<open>simp add: try_target_def tried_post_def\<close>)
qed

lemma dispatch_permits:
  fixes w :: "'p node"
  assumes "limiter_ok (tp_rate (nd_topology w)) (nd_limits w)" "steady call"
    and "\<And>d w. same_permits (nd_limits w) (nd_limits (sleep d w))"
    and "dispatch env en sleep model key rid now payload call w = (w', r)"
  shows "case r of
      Ret (Inr d) \<Rightarrow> same_permits (nd_limits w) (drop_guard (nd_limits w') (ds_guard d))
    | _ \<Rightarrow> same_permits (nd_limits w) (nd_limits w')"
proof (rule dispatch_cases [where w = w and env = env and en = en and sleep = sleep and model = model
      and key = key and rid = rid and now = now and payload = payload and call = call], goal_cases)
  case (3 targets)
  let ?jb = "job_of env en model rid now w" and ?st = "nd_limits w"
  have ok: "limiter_ok (tp_rate (jb_topology ?jb)) ?st" using assms(1) by (simp add: job_of_def)
  have "looped_post ?jb key (\<lambda>w :: 'p node. same_permits ?st (nd_limits w))
      (\<lambda>w _ _ _ g. same_permits ?st (drop_guard (nd_limits w) g)) (\<lambda>w. same_permits ?st (nd_limits w)) targets
      (dispatch_loop ?jb key call sleep targets (en_rate_max_wait en) (emit (RequestStarted rid key model payload) w))"
  proof (rule dispatch_loop_rule)
    show "same_permits ?st (nd_limits (sleep d v))" if "same_permits ?st (nd_limits v)" for d v
      using that assms(3) same_permits_trans by blast
  qed (simp_all add: try_target_permits [OF assms(2) ok])
  then have post: "looped_post ?jb key (\<lambda>w :: 'p node. same_permits ?st (nd_limits w))
      (\<lambda>w _ _ _ g. same_permits ?st (drop_guard (nd_limits w) g)) (\<lambda>w. same_permits ?st (nd_limits w)) targets
      (w', r)" using 3(3) assms(4) by simp
  show ?thesis
  proof (cases r)
    case (Ret x)
    with post show ?thesis by (cases x) (auto simp: looped_post_def)
  qed (use post in \<open>simp add: looped_post_def\<close>)
qed (use assms(4) in auto)

text \<open>
  C3: no permit leaks. If nothing else moves permits meanwhile, then after a dispatch that
  fails or panics every concurrency permit of every limit is back where it was, however many targets
  were admitted and failed on the way; and after one that succeeds, dropping the guard it
  hands out, and nothing else, brings them all back.
\<close>

theorem permits_returned:
  fixes w :: "'p node"
  assumes "limiter_ok (tp_rate (nd_topology w)) (nd_limits w)" "steady call"
    and "\<And>d w. same_permits (nd_limits w) (nd_limits (sleep d w))"
    and "dispatch env en sleep model key rid now payload call w = (w', r)"
  shows "case r of
      Ret (Inr d) \<Rightarrow> same_permits (nd_limits w) (drop_guard (nd_limits w') (ds_guard d))
    | _ \<Rightarrow> same_permits (nd_limits w) (nd_limits w')"
  using assms by (rule dispatch_permits)

section \<open>Examples\<close>

text \<open>A node with two providers on one route, the first of which fails.\<close>

definition ex_targets :: "route_target list" where
  "ex_targets = [\<lparr>tg_provider = ''a'', tg_model = None\<rparr>, \<lparr>tg_provider = ''b'', tg_model = Some ''u''\<rparr>]"

definition ex_topology :: "nat topology" where
  "ex_topology =
     \<lparr>tp_registry = [(''a'', 0), (''b'', 1)],
      tp_router = router_new [\<lparr>rt_model = ''m'', rt_targets = ex_targets\<rparr>] [],
      tp_providers = [], tp_rate = hm_empty, tp_dynamic_providers = [], tp_dynamic_routes = [],
      tp_dynamic_instances = []\<rparr>"

definition ex_node :: "nat node" where
  "ex_node =
     \<lparr>nd_topology = ex_topology, nd_health = hm_empty, nd_limits = [], nd_log = [], nd_instant = 0,
      nd_wall_ms = 0\<rparr>"

definition ex_engine :: "nat engine" where
  "ex_engine =
     \<lparr>en_base_registry = [(''a'', 0), (''b'', 1)], en_base_providers = [],
      en_base_routes = [\<lparr>rt_model = ''m'', rt_targets = ex_targets\<rparr>], en_pricing = ex_pricing,
      en_rate_max_wait = 5 * 10 ^ 9, en_include_payloads = False, en_cooldown_secs = 15,
      en_interceptor = None, en_batch_signer = None\<rparr>"

definition ex_answers :: "(string \<Rightarrow> 'v) \<Rightarrow> nat \<Rightarrow> provider_cx \<Rightarrow> string \<Rightarrow> model_error + 'v" where
  "ex_answers f p cx m = (if p = 0 then Inl model_error.Timeout else Inr (f m))"

lemma ex_resolve [simp]: "resolve (tp_router (nd_topology ex_node)) ''m'' = Some ex_targets"
  by (simp add: ex_node_def ex_topology_def resolve_def table_last)


text \<open>The same node with one permit for the provider that fails.\<close>

definition ex_limited :: "nat node" where
  "ex_limited = ex_node\<lparr>nd_topology := ex_topology\<lparr>tp_rate := [(''a'', 0)]\<rparr>,
     nd_limits := [\<lparr>pl_global = \<lparr>lm_rpm = None, lm_tpm = None, lm_sem = Some \<lparr>sm_total = 1, sm_available = 1\<rparr>\<rparr>,
       pl_per_model = []\<rparr>]\<rparr>"

theorem permits_returned_witness:
  "case dispatch (\<lambda>_. None) ex_engine (\<lambda>_ w. w) ''m'' ''k'' ''r'' 100 None
      (\<lambda>p cx m w. (w, ex_answers id p cx m)) ex_limited of
    (w', Ret (Inr d)) \<Rightarrow> same_permits (nd_limits ex_limited) (drop_guard (nd_limits w') (ds_guard d))
  | (w', _) \<Rightarrow> same_permits (nd_limits ex_limited) (nd_limits w')"
proof -
  have steady: "steady (\<lambda>p cx m w. (w, ex_answers id p cx m))" by (simp add: steady_def)
  have ok: "limiter_ok (tp_rate (nd_topology ex_limited)) (nd_limits ex_limited)"
    by (simp add: limiter_ok_def ex_limited_def)
  show ?thesis
    using permits_returned [OF ok steady, where sleep = "\<lambda>_ w. w" and env = "\<lambda>_. None"
        and en = ex_engine and model = "''m''" and key = "''k''" and rid = "''r''" and now = 100 and payload = None,
        OF _ prod.collapse [symmetric]]
    by (simp add: case_prod_unfold)
qed

end
