(* ===== verification/Fallback.thy ===== *)
theory Fallback
  imports Lifecycle
begin

text \<open>
  Which target a dispatch settles on, and what it does to the health table, when providers answer
  without side effects on this node and no rate limit is configured: the chain of the source against
  a search in the list of candidates.
\<close>

section \<open>A target's answer\<close>

text \<open>What a target answers, given what the providers answer.\<close>

definition answer :: "'p job \<Rightarrow> ('p \<Rightarrow> provider_cx \<Rightarrow> string \<Rightarrow> model_error + 'v) \<Rightarrow> route_target \<Rightarrow> model_error + 'v" where
  "answer jb ans t =
     (case registry_get (tp_registry (jb_topology jb)) (tg_provider t) of
        None \<Rightarrow> Inl (unregistered (tg_provider t))
      | Some p \<Rightarrow> ans p (build_cx (jb_env jb) (jb_topology jb) (tg_provider t) (jb_id jb)) (upstream_of jb t))"

fun is_unsupported :: "model_error \<Rightarrow> bool" where
  "is_unsupported (Unsupported _) = True"
| "is_unsupported _ = False"

text \<open>A registered provider is blamed for an error unless it only lacks the modality.\<close>

definition blamed :: "'p job \<Rightarrow> ('p \<Rightarrow> provider_cx \<Rightarrow> string \<Rightarrow> model_error + 'v) \<Rightarrow> route_target \<Rightarrow> bool" where
  "blamed jb ans t \<longleftrightarrow>
     registry_get (tp_registry (jb_topology jb)) (tg_provider t) \<noteq> None \<and>
     (\<exists>e. answer jb ans t = Inl e \<and> \<not> is_unsupported e)"

abbreviation refused :: "'p job \<Rightarrow> ('p \<Rightarrow> provider_cx \<Rightarrow> string \<Rightarrow> model_error + 'v) \<Rightarrow> route_target \<Rightarrow> bool" where
  "refused jb ans t \<equiv> isl (answer jb ans t)"

abbreviation pure_call :: "('p \<Rightarrow> provider_cx \<Rightarrow> string \<Rightarrow> model_error + 'v) \<Rightarrow> ('p, 'v) op" where
  "pure_call ans \<equiv> (\<lambda>p cx m w. (w, ans p cx m))"

definition blame :: "'p job \<Rightarrow> ('p \<Rightarrow> provider_cx \<Rightarrow> string \<Rightarrow> model_error + 'v) \<Rightarrow> route_target \<Rightarrow> 'p node \<Rightarrow> 'p node" where
  "blame jb ans t w = (if blamed jb ans t then switch_over jb t w else w)"

definition open_to :: "'p job \<Rightarrow> bool \<Rightarrow> 'p node \<Rightarrow> route_target \<Rightarrow> bool" where
  "open_to jb honor w t \<longleftrightarrow> \<not> (honor \<and> is_down (nd_health w) (tg_provider t) (jb_now jb))"

lemma release_empty [simp]: "release_guard guard_empty w = w"
  by (simp add: release_guard_def drop_guard_def guard_empty_def)

lemma admit_unlimited: "try_admit st hm_empty provider model now = (st, Got guard_empty)"
  by (simp add: try_admit_def hm_simps)

lemma node_limits_id [simp]: "w\<lparr>nd_limits := nd_limits w\<rparr> = w"
  by simp

lemma try_target_pure:
  assumes "tp_rate (jb_topology jb) = hm_empty"
  shows "try_target jb (pure_call ans) ni honor t w =
    (if open_to jb honor w t
     then (case answer jb ans t of
         Inr v \<Rightarrow> (accept jb t w, Accepted v (upstream_of jb t) guard_empty)
       | Inl e \<Rightarrow> (blame jb ans t w, Erred e))
     else (w, Skipped))"
  by (auto simp: try_target_def serve_def answer_def open_to_def blame_def blamed_def assms admit_unlimited
      Let_def split: option.splits sum.splits model_error.splits)

lemma blame_health:
  "hm_get (nd_health (blame jb ans t w)) q =
     (if q = tg_provider t \<and> blamed jb ans t then Some (jb_now jb + jb_cooldown jb) else hm_get (nd_health w) q)"
  by (simp add: blame_def switch_over_def penalize_def hm_simps)

lemma blame_open:
  "tg_provider t' \<noteq> tg_provider t \<Longrightarrow> open_to jb honor (blame jb ans t w) t' = open_to jb honor w t'"
  by (simp add: open_to_def is_down_def blame_health)

lemma fold_blame_health:
  "hm_get (nd_health (fold (blame jb ans) ts w)) q =
     (if \<exists>t \<in> set ts. tg_provider t = q \<and> blamed jb ans t then Some (jb_now jb + jb_cooldown jb)
      else hm_get (nd_health w) q)"
  by (induction ts arbitrary: w) (auto simp: blame_health)

lemma blame_wf: "hm_wf (nd_health w) \<Longrightarrow> hm_wf (nd_health (blame jb ans t w))"
  by (simp add: blame_def switch_over_def penalize_def hm_simps)

lemma fold_blame_wf: "hm_wf (nd_health w) \<Longrightarrow> hm_wf (nd_health (fold (blame jb ans) ts w))"
  by (induction ts arbitrary: w) (auto simp: blame_wf)

section \<open>The walk is a search\<close>

definition last_error :: "'p job \<Rightarrow> ('p \<Rightarrow> provider_cx \<Rightarrow> string \<Rightarrow> model_error + 'v) \<Rightarrow> route_target list \<Rightarrow>
    model_error option \<Rightarrow> model_error option" where
  "last_error jb ans ts err = (if ts = [] then err else Some (projl (answer jb ans (last ts))))"

lemma walk_pure:
  assumes "tp_rate (jb_topology jb) = hm_empty" "distinct (map tg_provider ts)"
  shows "walk jb (pure_call ans) ni honor ts w err soon =
    (let cands = filter (open_to jb honor w) ts;
         tried = takeWhile (refused jb ans) cands;
         w' = fold (blame jb ans) tried w
     in case List.find (\<lambda>t. \<not> refused jb ans t) cands of
          Some t \<Rightarrow> (accept jb t w', Served (projr (answer jb ans t)) (tg_provider t) (upstream_of jb t) guard_empty)
        | None \<Rightarrow> (w', Walked (last_error jb ans cands err) soon))"
  using assms(2)
proof (induction ts arbitrary: w err)
  case (Cons t ts)
  show ?case
  proof (cases "open_to jb honor w t")
    case True
    show ?thesis
    proof (cases "answer jb ans t")
      case (Inl e)
      have same: "filter (open_to jb honor (blame jb ans t w)) ts = filter (open_to jb honor w) ts"
      proof (rule filter_cong [OF refl])
        fix t' assume "t' \<in> set ts"
        with Cons.prems have "tg_provider t' \<noteq> tg_provider t" by (auto simp: image_iff)
        then show "open_to jb honor (blame jb ans t w) t' = open_to jb honor w t'" by (rule blame_open)
      qed
      show ?thesis
        using Cons.IH [of "blame jb ans t w" "Some e"] Cons.prems True Inl
        by (simp add: try_target_pure [OF assms(1)] same Let_def last_error_def split: option.splits)
    next
      case (Inr v)
      with True show ?thesis by (simp add: try_target_pure [OF assms(1)])
    qed
  next
    case False
    with Cons show ?thesis by (simp add: try_target_pure [OF assms(1)])
  qed
qed (simp add: last_error_def)

text \<open>The candidates of a dispatch: the targets not cooling down or, if there are none, all of them.\<close>

definition candidates :: "'p job \<Rightarrow> 'p node \<Rightarrow> route_target list \<Rightarrow> route_target list" where
  "candidates jb w targets =
     (let up = filter (\<lambda>t. \<not> is_down (nd_health w) (tg_provider t) (jb_now jb)) targets
      in if up = [] then targets else up)"

lemma two_passes_pure:
  assumes "tp_rate (jb_topology jb) = hm_empty" "distinct (map tg_provider targets)" "targets \<noteq> []"
  shows "two_passes jb (pure_call ans) targets w =
    (let cands = candidates jb w targets;
         w' = fold (blame jb ans) (takeWhile (refused jb ans) cands) w
     in case List.find (\<lambda>t. \<not> refused jb ans t) cands of
          Some t \<Rightarrow> (accept jb t w', Served (projr (answer jb ans t)) (tg_provider t) (upstream_of jb t) guard_empty)
        | None \<Rightarrow> (w', Walked (Some (projl (answer jb ans (last cands)))) None))"
proof -
  let ?up = "filter (open_to jb True w) targets"
  have up: "filter (\<lambda>t. \<not> is_down (nd_health w) (tg_provider t) (jb_now jb)) targets = ?up"
    by (simp add: open_to_def [abs_def])
  have all: "filter (open_to jb False w) targets = targets"
    by (simp add: open_to_def [abs_def])
  show ?thesis
  proof (cases "?up = []")
    case True
    then show ?thesis
      using assms(3)
      by (simp add: two_passes_def walk_pure [OF assms(1,2)] Let_def candidates_def up all last_error_def
          split: option.splits)
  next
    case False
    then show ?thesis
      by (simp add: two_passes_def walk_pure [OF assms(1,2)] Let_def candidates_def up last_error_def
          split: option.splits)
  qed
qed

text \<open>
  C2: the fallback order. With distinct providers on the chain, no rate limits and providers that answer
  without touching this node, a dispatch serves the first candidate that answers (candidates
  being the targets not cooling down, or all targets when all are), under its upstream model, and
  otherwise fails with the last candidate's error. Afterwards the serving provider's cool-down is cleared,
  the registered ones that failed before it cool down until \<open>now + cooldown\<close> unless they only lacked the
  modality, and no other provider's health has moved.
\<close>

theorem fallback_order:
  fixes w :: "'p node" and ans :: "'p \<Rightarrow> provider_cx \<Rightarrow> string \<Rightarrow> model_error + 'v"
  assumes "tp_rate (nd_topology w) = hm_empty" "hm_wf (nd_health w)"
    and "resolve (tp_router (nd_topology w)) model = Some targets" "targets \<noteq> []"
    and "distinct (map tg_provider targets)"
    and "dispatch env en sleep model key rid now payload (\<lambda>p cx m w. (w, ans p cx m)) w = (w', r)"
  defines "jb \<equiv> job_of env en model rid now w"
  shows "(case List.find (\<lambda>t. \<not> refused jb ans t) (candidates jb w targets) of
        Some t \<Rightarrow> (\<exists>d. r = Ret (Inr d) \<and> ds_provider d = tg_provider t \<and>
          ds_upstream d = unwrap_or model (tg_model t) \<and> answer jb ans t = Inr (ds_value d) \<and>
          \<not> is_down (nd_health w') (tg_provider t) now)
      | None \<Rightarrow> (\<exists>e. r = Ret (Inl (AllTargetsFailed e)) \<and>
          answer jb ans (last (candidates jb w targets)) = Inl e)) \<and>
    (\<forall>q. hm_get (nd_health w') q =
       (if \<exists>d. r = Ret (Inr d) \<and> ds_provider d = q then None
        else if \<exists>t \<in> set (takeWhile (refused jb ans) (candidates jb w targets)).
          tg_provider t = q \<and> blamed jb ans t
        then Some (now + en_cooldown_secs en)
        else hm_get (nd_health w) q))"
proof -
  let ?w = "emit (RequestStarted rid key model payload) w"
  let ?cands = "candidates jb w targets"
  let ?w1 = "fold (blame jb ans) (takeWhile (refused jb ans) ?cands) ?w"
  have jobs: "jb_now jb = now" "jb_cooldown jb = en_cooldown_secs en" "jb_id jb = rid" "jb_model jb = model"
    "jb_topology jb = nd_topology w"
    by (simp_all add: jb_def job_of_def)
  have rate: "tp_rate (jb_topology jb) = hm_empty" by (simp add: jb_def job_of_def assms)
  have cands: "candidates jb ?w targets = ?cands" by (simp add: candidates_def)
  have wf1: "hm_wf (nd_health ?w1)" using assms(2) by (simp add: fold_blame_wf)
  have get1: "hm_get (nd_health ?w1) q =
     (if \<exists>t \<in> set (takeWhile (refused jb ans) ?cands). tg_provider t = q \<and> blamed jb ans t
      then Some (now + en_cooldown_secs en) else hm_get (nd_health w) q)" for q
    unfolding fold_blame_health jobs emit_fields by (rule refl)
  have run: "dispatch env en sleep model key rid now payload (pure_call ans) w =
      dispatch_loop jb key (pure_call ans) sleep targets (en_rate_max_wait en) ?w"
    unfolding jb_def by (rule dispatch_routed [OF assms(3,4)])
  have ne: "?cands \<noteq> []" using assms(4) by (simp add: candidates_def Let_def)
  note passes = two_passes_pure [OF rate assms(5,4), of ans ?w, unfolded cands Let_def]
  show ?thesis
  proof (cases "List.find (\<lambda>t. \<not> refused jb ans t) ?cands")
    case None
    then have "refused jb ans (last ?cands)" using ne by (auto simp: find_None_iff)
    then obtain e where e: "answer jb ans (last ?cands) = Inl e" by (cases "answer jb ans (last ?cands)") auto
    have w': "w' = emit (RequestFailed rid (model_error_text e)) ?w1" and r: "r = Ret (Inl (AllTargetsFailed e))"
      using assms(6) unfolding run
      by (subst (asm) dispatch_loop.simps, simp add: passes None e jobs)+
    show ?thesis unfolding None r w' emit_fields get1 by (simp add: e)
  next
    case (Some t)
    then have "\<not> refused jb ans t" by (auto simp: find_Some_iff)
    then obtain v where v: "answer jb ans t = Inr v" by (cases "answer jb ans t") auto
    have w': "w' = accept jb t ?w1"
      and r: "r = Ret (Inr \<lparr>ds_value = v, ds_request_id = rid, ds_key = key, ds_model = model,
        ds_provider = tg_provider t, ds_upstream = unwrap_or model (tg_model t), ds_rate = hm_empty,
        ds_guard = guard_empty\<rparr>)"
      using assms(6) unfolding run
      by (subst (asm) dispatch_loop.simps, simp add: passes Some v jobs upstream_of_def assms(1))+
    have health: "hm_get (nd_health w') q = (if q = tg_provider t then None else hm_get (nd_health ?w1) q)" for q
      using wf1 by (simp add: w' accept_def health_clear_def hm_simps hm_contains_def)
    show ?thesis unfolding Some r health get1 by (simp add: v is_down_def health)
  qed
qed

text \<open>The example node: the first provider times out, the second serves.\<close>

abbreviation ex_job :: "nat job" where
  "ex_job \<equiv> job_of (\<lambda>_. None) ex_engine ''m'' ''r'' 100 ex_node"

lemma ex_chain:
  "List.find (\<lambda>t. \<not> refused ex_job (ex_answers f) t) ex_targets = Some \<lparr>tg_provider = ''b'', tg_model = Some ''u''\<rparr>"
  "takeWhile (refused ex_job (ex_answers f)) ex_targets = [\<lparr>tg_provider = ''a'', tg_model = None\<rparr>]"
  "answer ex_job (ex_answers f) \<lparr>tg_provider = ''b'', tg_model = Some ''u''\<rparr> = Inr (f ''u'')"
  "blamed ex_job (ex_answers f) \<lparr>tg_provider = ''a'', tg_model = None\<rparr>"
  by (simp_all add: answer_def blamed_def ex_answers_def ex_targets_def job_of_def ex_node_def ex_topology_def
      registry_get_def hm_get_def upstream_of_def)

lemma ex_candidates: "nd_health w = hm_empty \<Longrightarrow> candidates ex_job w ex_targets = ex_targets"
  by (simp add: candidates_def ex_targets_def is_down_def hm_simps)

lemma ex_distinct: "ex_targets \<noteq> []" "distinct (map tg_provider ex_targets)"
  by (simp_all add: ex_targets_def)

lemma ex_rate: "tp_rate (nd_topology ex_node) = hm_empty" "nd_health ex_node = hm_empty"
  by (simp_all add: ex_node_def ex_topology_def)

lemma ex_run:
  "\<exists>w' d. dispatch (\<lambda>_. None) ex_engine (\<lambda>_ w. w) ''m'' ''k'' ''r'' 100 None (pure_call (ex_answers f)) ex_node =
     (w', Ret (Inr d)) \<and> ds_provider d = ''b'' \<and> ds_upstream d = ''u'' \<and> ds_value d = f ''u'' \<and> ds_rate d = hm_empty"
proof -
  have topo: "tp_rate (jb_topology ex_job) = hm_empty" by (simp add: job_of_def ex_rate)
  have run: "dispatch (\<lambda>_. None) ex_engine (\<lambda>_ w. w) ''m'' ''k'' ''r'' 100 None (pure_call (ex_answers f)) ex_node =
      dispatch_loop ex_job ''k'' (pure_call (ex_answers f)) (\<lambda>_ w. w) ex_targets (en_rate_max_wait ex_engine)
        (emit (RequestStarted ''r'' ''k'' ''m'' None) ex_node)"
    by (rule dispatch_routed [OF ex_resolve ex_distinct(1)])
  show ?thesis
    unfolding run
    by (subst dispatch_loop.simps)
      (simp add: two_passes_pure [OF topo ex_distinct(2,1)] ex_candidates ex_rate ex_chain upstream_of_def topo)
qed

theorem fallback_order_witness:
  "\<exists>w' d. dispatch (\<lambda>_. None) ex_engine (\<lambda>_ w. w) ''m'' ''k'' ''r'' 100 None
      (\<lambda>p cx m w. (w, ex_answers id p cx m)) ex_node = (w', Ret (Inr d)) \<and>
    ds_provider d = ''b'' \<and> ds_value d = ''u'' \<and> hm_get (nd_health w') ''a'' = Some 115"
proof -
  obtain w' r where run: "dispatch (\<lambda>_. None) ex_engine (\<lambda>_ w. w) ''m'' ''k'' ''r'' 100 None
      (\<lambda>p cx m w. (w, ex_answers id p cx m)) ex_node = (w', r)" by fastforce
  have wf: "hm_wf (nd_health ex_node)" by (simp add: ex_rate hm_simps)
  show ?thesis
    using fallback_order [OF ex_rate(1) wf ex_resolve ex_distinct run]
    unfolding ex_candidates [OF ex_rate(2)] ex_chain(1,2) run
    by (auto simp: ex_chain(3,4)) (simp add: ex_engine_def)
qed

theorem dispatch_lifecycle_witness:
  "own ''r'' (fst (dispatch (\<lambda>_. None) ex_engine (\<lambda>_ w. w) ''m'' ''k'' ''r'' 100 None
      (\<lambda>p cx m w. (w, ex_answers id p cx m)) ex_node)) =
     [RequestStarted ''r'' ''k'' ''m'' None, RequestRouted ''r'' ''b'' ''u'']"
proof -
  have silent: "silent ''r'' (pure_call (ex_answers id))" by (simp add: silent_def)
  obtain w' d where run: "dispatch (\<lambda>_. None) ex_engine (\<lambda>_ w. w) ''m'' ''k'' ''r'' 100 None
      (pure_call (ex_answers id)) ex_node = (w', Ret (Inr d))" "ds_provider d = ''b''" "ds_upstream d = ''u''"
    using ex_run by blast
  have "own ''r'' ex_node = []" by (simp add: own_def ex_node_def)
  with dispatch_lifecycle [OF silent _ run(1)] run(2,3) show ?thesis by (simp add: run(1) ex_targets_def)
qed

end
