(* ===== verification/Modalities.thy ===== *)
theory Modalities
  imports Lifecycle
begin

text \<open>
  The operations of \<open>engine.rs\<close> that go through the fallback chain: screening by the interceptor, the
  payload of the start event, the four whole-object modalities, the voices listing, and the two
  streaming modalities with the streams that relay a provider's stream. The serialisation of a request
  (\<open>serde_json::to_value\<close>, \<open>from_value\<close>) is a parameter, a \<open>codec\<close>.
\<close>

section \<open>Screening\<close>

record 'r codec =
  cd_to_value :: "'r \<Rightarrow> json option"
  cd_from_value :: "json \<Rightarrow> string + 'r"

definition screen_request ::
  "'p engine \<Rightarrow> 'r codec \<Rightarrow> 'r \<Rightarrow> string \<Rightarrow> string \<Rightarrow> 'p node \<Rightarrow> 'p node \<times> (engine_error + 'r)" where
  "screen_request en cd req key model w =
     (case en_interceptor en of
        None \<Rightarrow> (w, Inr req)
      | Some ic \<Rightarrow>
          if \<not> ic_applies ic Request key model then (w, Inr req)
          else case cd_to_value cd req of
            None \<Rightarrow> (w, Inr req)
          | Some v \<Rightarrow>
              (case ic_screen ic Request key model v w of
                 (w, Pass) \<Rightarrow> (w, Inr req)
               | (w, Block reason) \<Rightarrow> (w, Inl (BlockedBy reason))
               | (w, Rewrite v') \<Rightarrow>
                   (case cd_from_value cd v' of
                      Inr req' \<Rightarrow> (w, Inr req')
                    | Inl e \<Rightarrow> (w, Inl (BlockedBy (''interceptor rewrite was invalid: '' @ e))))))"

definition payload :: "'p engine \<Rightarrow> 'r codec \<Rightarrow> 'r \<Rightarrow> json option" where
  "payload en cd req = (if en_include_payloads en then cd_to_value cd req else None)"

definition emit_batch_tail :: "string \<Rightarrow> string \<Rightarrow> string \<Rightarrow> usage \<Rightarrow> 'p node \<Rightarrow> 'p node" where
  "emit_batch_tail request_id key model u w =
     emit (RequestCompleted request_id None) (emit (Usage request_id key model u) w)"

section \<open>Whole-object modalities\<close>

text \<open>What differs between them: the request's model, the provider's method, the response's usage
  and whether a cost the provider reported is kept.\<close>

record ('p, 'r, 'v) modality_ops =
  mo_model :: "'r \<Rightarrow> string"
  mo_with_model :: "string \<Rightarrow> 'r \<Rightarrow> 'r"
  mo_call :: "'p \<Rightarrow> 'r \<Rightarrow> provider_cx \<Rightarrow> ('p node, 'v) awaited"
  mo_usage :: "'v \<Rightarrow> usage"
  mo_with_usage :: "usage \<Rightarrow> 'v \<Rightarrow> 'v"
  mo_keep_cost :: bool

text \<open>The dispatch every modality starts with.\<close>

definition screened_dispatch ::
  "(string \<Rightarrow> string option) \<Rightarrow> 'p engine \<Rightarrow> (duration \<Rightarrow> 'p node \<Rightarrow> 'p node) \<Rightarrow> 'r codec \<Rightarrow> ('r \<Rightarrow> string) \<Rightarrow>
     (string \<Rightarrow> 'r \<Rightarrow> 'r) \<Rightarrow> ('p \<Rightarrow> 'r \<Rightarrow> provider_cx \<Rightarrow> ('p node, 'v) awaited) \<Rightarrow> 'r \<Rightarrow> string \<Rightarrow> string \<Rightarrow> u64 \<Rightarrow>
     'p node \<Rightarrow> 'p node \<times> (engine_error + 'v dispatched) run" where
  "screened_dispatch env en sleep cd model_of with_model call req key request_id now w =
     (let logical_model = model_of req
      in case screen_request en cd req key logical_model w of
        (w, Inl e) \<Rightarrow> (w, Ret (Inl e))
      | (w, Inr req) \<Rightarrow>
          dispatch env en sleep logical_model key request_id now (payload en cd req)
            (\<lambda>provider cx upstream. call provider (with_model upstream req) cx) w)"

text \<open>The end of a request served whole: debit the tokens, emit the tail, drop the guard. A panic under
  a poisoned lock unwinds and drops the guard too.\<close>

definition settle ::
  "'p engine \<Rightarrow> ('v \<Rightarrow> usage) \<Rightarrow> (usage \<Rightarrow> 'v \<Rightarrow> 'v) \<Rightarrow> bool \<Rightarrow> 'v dispatched \<Rightarrow> 'p node \<Rightarrow>
     'p node \<times> (engine_error + 'v) run" where
  "settle en usage_of with_usage keep_cost d w =
     (let resp = ds_value d;
          resp = (if keep_cost \<and> ug_cost_usd (usage_of resp) \<noteq> None then resp
                  else with_usage (price (en_pricing en) (ds_model d) (usage_of resp)) resp)
      in case debit_tokens (nd_limits w) (ds_rate d) (ds_provider d) (ds_upstream d)
              (ug_total (usage_of resp)) (nd_instant w) of
        (st, Panicked) \<Rightarrow> (release_guard (ds_guard d) (w\<lparr>nd_limits := st\<rparr>), Panic)
      | (st, _) \<Rightarrow>
          (release_guard (ds_guard d)
             (emit_batch_tail (ds_request_id d) (ds_key d) (ds_model d) (usage_of resp) (w\<lparr>nd_limits := st\<rparr>)),
           Ret (Inr resp)))"

definition batch_modality ::
  "(string \<Rightarrow> string option) \<Rightarrow> 'p engine \<Rightarrow> (duration \<Rightarrow> 'p node \<Rightarrow> 'p node) \<Rightarrow> 'r codec \<Rightarrow>
     ('p, 'r, 'v) modality_ops \<Rightarrow> 'r \<Rightarrow> string \<Rightarrow> string \<Rightarrow> u64 \<Rightarrow> 'p node \<Rightarrow> 'p node \<times> (engine_error + 'v) run" where
  "batch_modality env en sleep cd mo req key request_id now w =
     (case screened_dispatch env en sleep cd (mo_model mo) (mo_with_model mo) (mo_call mo) req key request_id now w of
        (w, Ret (Inr d)) \<Rightarrow> settle en (mo_usage mo) (mo_with_usage mo) (mo_keep_cost mo) d w
      | (w, Ret (Inl e)) \<Rightarrow> (w, Ret (Inl e))
      | (w, Panic) \<Rightarrow> (w, Panic))"

definition embed_ops ::
  "('p \<Rightarrow> 'p node provider_api) \<Rightarrow> ('p, embedding_request, embedding_response) modality_ops" where
  "embed_ops api =
     \<lparr>mo_model = eq_model, mo_with_model = (\<lambda>m r. r\<lparr>eq_model := m\<rparr>), mo_call = (\<lambda>p. pa_embed (api p)),
      mo_usage = er_usage, mo_with_usage = (\<lambda>u r. r\<lparr>er_usage := u\<rparr>), mo_keep_cost = False\<rparr>"

definition embed where
  "embed env en sleep api cd = batch_modality env en sleep cd (embed_ops api)"

definition rerank_ops ::
  "('p \<Rightarrow> 'p node provider_api) \<Rightarrow> ('p, rerank_request, rerank_response) modality_ops" where
  "rerank_ops api =
     \<lparr>mo_model = rq_model, mo_with_model = (\<lambda>m r. r\<lparr>rq_model := m\<rparr>), mo_call = (\<lambda>p. pa_rerank (api p)),
      mo_usage = rk_usage, mo_with_usage = (\<lambda>u r. r\<lparr>rk_usage := u\<rparr>), mo_keep_cost = False\<rparr>"

definition rerank where
  "rerank env en sleep api cd = batch_modality env en sleep cd (rerank_ops api)"

definition decisions_ops ::
  "('p \<Rightarrow> 'p node provider_api) \<Rightarrow> ('p, decisions_request, decisions_response) modality_ops" where
  "decisions_ops api =
     \<lparr>mo_model = dq_model, mo_with_model = (\<lambda>m r. r\<lparr>dq_model := m\<rparr>), mo_call = (\<lambda>p. pa_decisions (api p)),
      mo_usage = dr_usage, mo_with_usage = (\<lambda>u r. r\<lparr>dr_usage := u\<rparr>), mo_keep_cost = True\<rparr>"

definition decisions where
  "decisions env en sleep api cd = batch_modality env en sleep cd (decisions_ops api)"

definition transcribe_ops ::
  "('p \<Rightarrow> 'p node provider_api) \<Rightarrow> ('p, transcription_request, transcription_response) modality_ops" where
  "transcribe_ops api =
     \<lparr>mo_model = tq_model, mo_with_model = (\<lambda>m r. r\<lparr>tq_model := m\<rparr>), mo_call = (\<lambda>p. pa_transcribe (api p)),
      mo_usage = tr_usage, mo_with_usage = (\<lambda>u r. r\<lparr>tr_usage := u\<rparr>), mo_keep_cost = False\<rparr>"

definition transcribe where
  "transcribe env en sleep api cd = batch_modality env en sleep cd (transcribe_ops api)"

definition voices ::
  "(string \<Rightarrow> string option) \<Rightarrow> 'p engine \<Rightarrow> (duration \<Rightarrow> 'p node \<Rightarrow> 'p node) \<Rightarrow> ('p \<Rightarrow> 'p node provider_api) \<Rightarrow>
     string \<Rightarrow> string \<Rightarrow> string \<Rightarrow> u64 \<Rightarrow> 'p node \<Rightarrow> 'p node \<times> (engine_error + voice_info list) run" where
  "voices env en sleep api model key request_id now w =
     (case dispatch env en sleep model key request_id now None
             (\<lambda>provider cx upstream. pa_voices (api provider) upstream cx) w of
        (w, Ret (Inr d)) \<Rightarrow>
          (release_guard (ds_guard d) (emit (RequestCompleted (ds_request_id d) None) w), Ret (Inr (ds_value d)))
      | (w, Ret (Inl e)) \<Rightarrow> (w, Ret (Inl e))
      | (w, Panic) \<Rightarrow> (w, Panic))"

section \<open>Streams\<close>

text \<open>
  The generator that relays a provider's stream: its captured variables, the inner stream and
  where it stands. \<open>Failing\<close> is the suspension at the yield of an error, after which it returns;
  leaving \<open>Streaming\<close> or \<open>Failing\<close>, in whatever way, drops the guard.
\<close>

datatype phase = Streaming | Failing | Ended

record ('p, 'a) relay =
  ry_id :: string
  ry_key :: string
  ry_model :: string
  ry_provider :: string
  ry_upstream :: string
  ry_rate :: limiter
  ry_guard :: rate_guard
  ry_inner :: "('p node, 'a) polls"
  ry_finish :: "finish_reason option"
  ry_phase :: phase

definition relay_of :: "('p node, 'a) polls dispatched \<Rightarrow> ('p, 'a) relay" where
  "relay_of d =
     \<lparr>ry_id = ds_request_id d, ry_key = ds_key d, ry_model = ds_model d, ry_provider = ds_provider d,
      ry_upstream = ds_upstream d, ry_rate = ds_rate d, ry_guard = ds_guard d, ry_inner = ds_value d,
      ry_finish = None, ry_phase = Streaming\<rparr>"

text \<open>What the generator makes of a chunk: a usage report, a finish, or anything else.\<close>

datatype 'a seen = SeenUsage usage "usage \<Rightarrow> 'a" | SeenFinish finish_reason | SeenOther

fun see_chunk :: "stream_chunk \<Rightarrow> stream_chunk seen" where
  "see_chunk (UsageReport u) = SeenUsage u UsageReport"
| "see_chunk (Finish i reason) = SeenFinish reason"
| "see_chunk _ = SeenOther"

fun see_audio :: "audio_chunk \<Rightarrow> audio_chunk seen" where
  "see_audio (AudioUsage u) = SeenUsage u AudioUsage"
| "see_audio _ = SeenOther"

text \<open>One poll: the item yielded, or the end.\<close>

definition relay_chunk ::
  "'p engine \<Rightarrow> ('a \<Rightarrow> 'a seen) \<Rightarrow> ('p, 'a) relay \<Rightarrow> 'a \<Rightarrow> 'p node \<Rightarrow>
     'p node \<times> (('p, 'a) relay \<times> (model_error + 'a) option) run" where
  "relay_chunk en see st chunk w =
     (case see chunk of
        SeenUsage u repack \<Rightarrow>
          (let priced = price (en_pricing en) (ry_model st) u
           in case debit_tokens (nd_limits w) (ry_rate st) (ry_provider st) (ry_upstream st)
                   (ug_total priced) (nd_instant w) of
             (limits, Panicked) \<Rightarrow> (release_guard (ry_guard st) (w\<lparr>nd_limits := limits\<rparr>), Panic)
           | (limits, _) \<Rightarrow>
               (emit (Usage (ry_id st) (ry_key st) (ry_model st) priced) (w\<lparr>nd_limits := limits\<rparr>),
                Ret (st, Some (Inr (repack priced)))))
      | SeenFinish reason \<Rightarrow> (w, Ret (st\<lparr>ry_finish := Some reason\<rparr>, Some (Inr chunk)))
      | SeenOther \<Rightarrow> (w, Ret (st, Some (Inr chunk))))"

definition relay_next ::
  "'p engine \<Rightarrow> ('a \<Rightarrow> 'a seen) \<Rightarrow> ('p, 'a) relay \<Rightarrow> 'p node \<Rightarrow>
     'p node \<times> (('p, 'a) relay \<times> (model_error + 'a) option) run" where
  "relay_next en see st w =
     (case ry_phase st of
        Ended \<Rightarrow> (w, Ret (st, None))
      | Failing \<Rightarrow> (release_guard (ry_guard st) w, Ret (st\<lparr>ry_phase := Ended\<rparr>, None))
      | Streaming \<Rightarrow>
          (case ry_inner st of
             [] \<Rightarrow>
               (release_guard (ry_guard st) (emit (RequestCompleted (ry_id st) (ry_finish st)) w),
                Ret (st\<lparr>ry_phase := Ended\<rparr>, None))
           | poll # rest \<Rightarrow>
               (case poll w of
                  (w, Inl e) \<Rightarrow>
                    (emit (RequestFailed (ry_id st) (model_error_text e)) w,
                     Ret (st\<lparr>ry_inner := rest, ry_phase := Failing\<rparr>, Some (Inl e)))
                | (w, Inr chunk) \<Rightarrow> relay_chunk en see (st\<lparr>ry_inner := rest\<rparr>) chunk w)))"

text \<open>Dropping the stream before its end: the client went away.\<close>

definition relay_drop :: "('p, 'a) relay \<Rightarrow> 'p node \<Rightarrow> 'p node" where
  "relay_drop st w = (if ry_phase st = Ended then w else release_guard (ry_guard st) w)"

definition instrument where "instrument en d = (relay_next en see_chunk, relay_of d)"

definition instrument_audio where "instrument_audio en d = (relay_next en see_audio, relay_of d)"

text \<open>The streaming modalities answer the stream in its initial state.\<close>

definition run_chat ::
  "(string \<Rightarrow> string option) \<Rightarrow> 'p engine \<Rightarrow> (duration \<Rightarrow> 'p node \<Rightarrow> 'p node) \<Rightarrow> ('p \<Rightarrow> 'p node provider_api) \<Rightarrow>
     chat_request codec \<Rightarrow> chat_request \<Rightarrow> string \<Rightarrow> string \<Rightarrow> u64 \<Rightarrow> 'p node \<Rightarrow>
     'p node \<times> (engine_error + ('p, stream_chunk) relay) run" where
  "run_chat env en sleep api cd req key request_id now w =
     (case screened_dispatch env en sleep cd cq_model (\<lambda>m r. r\<lparr>cq_model := m\<rparr>) (\<lambda>p. pa_chat (api p))
             req key request_id now w of
        (w, Ret (Inr d)) \<Rightarrow> (w, Ret (Inr (snd (instrument en d))))
      | (w, Ret (Inl e)) \<Rightarrow> (w, Ret (Inl e))
      | (w, Panic) \<Rightarrow> (w, Panic))"

definition speech ::
  "(string \<Rightarrow> string option) \<Rightarrow> 'p engine \<Rightarrow> (duration \<Rightarrow> 'p node \<Rightarrow> 'p node) \<Rightarrow> ('p \<Rightarrow> 'p node provider_api) \<Rightarrow>
     speech_request codec \<Rightarrow> speech_request \<Rightarrow> string \<Rightarrow> string \<Rightarrow> u64 \<Rightarrow> 'p node \<Rightarrow>
     'p node \<times> (engine_error + ('p, audio_chunk) relay) run" where
  "speech env en sleep api cd req key request_id now w =
     (case screened_dispatch env en sleep cd sq_model (\<lambda>m r. r\<lparr>sq_model := m\<rparr>) (\<lambda>p. pa_speech (api p))
             req key request_id now w of
        (w, Ret (Inr d)) \<Rightarrow> (w, Ret (Inr (snd (instrument_audio en d))))
      | (w, Ret (Inl e)) \<Rightarrow> (w, Ret (Inl e))
      | (w, Panic) \<Rightarrow> (w, Panic))"

section \<open>Direct calls\<close>

text \<open>\<open>provider_models\<close>, \<open>provider_compaction_support\<close> and \<open>realtime_target\<close> ask a provider without the
  chain.\<close>

definition provider_models ::
  "(string \<Rightarrow> string option) \<Rightarrow> ('p \<Rightarrow> 'p node provider_api) \<Rightarrow> string \<Rightarrow> string \<Rightarrow> 'p node \<Rightarrow>
     'p node \<times> (model_error + model_info list)" where
  "provider_models env api name request_id w =
     (let topo = nd_topology w
      in case registry_get (tp_registry topo) name of
        None \<Rightarrow> (w, Inl (Unsupported (''no provider instance '' @ [CHR 0x27] @ name @ [CHR 0x27])))
      | Some p \<Rightarrow> pa_models (api p) (build_cx env topo name request_id) w)"

definition provider_compaction_support ::
  "(string \<Rightarrow> string option) \<Rightarrow> ('p \<Rightarrow> 'p node provider_api) \<Rightarrow> 'p node \<Rightarrow> string \<Rightarrow> string \<Rightarrow> bool option" where
  "provider_compaction_support env api w name model =
     (let topo = nd_topology w
      in Option.bind (registry_get (tp_registry topo) name)
           (\<lambda>p. pa_supports_compaction (api p) model (build_cx env topo name [])))"

record 'p realtime_choice =
  ro_provider :: 'p
  ro_cx :: provider_cx
  ro_params :: realtime_params
  ro_name :: string

definition realtime_eligible :: "('p \<Rightarrow> 'p node provider_api) \<Rightarrow> bool \<Rightarrow> u64 \<Rightarrow> 'p node \<Rightarrow> route_target \<Rightarrow> bool" where
  "realtime_eligible api honor now w t \<longleftrightarrow>
     \<not> (honor \<and> is_down (nd_health w) (tg_provider t) now) \<and>
     is_some_and (\<lambda>p. pa_supports_realtime (api p)) (registry_get (tp_registry (nd_topology w)) (tg_provider t))"

definition realtime_target ::
  "(string \<Rightarrow> string option) \<Rightarrow> ('p \<Rightarrow> 'p node provider_api) \<Rightarrow> string \<Rightarrow> string \<Rightarrow> u64 \<Rightarrow> 'p node \<Rightarrow>
     'p realtime_choice option" where
  "realtime_target env api model request_id now w =
     (let topo = nd_topology w
      in Option.bind (resolve (tp_router topo) model) (\<lambda>targets.
         map_option (\<lambda>t.
             \<lparr>ro_provider = the (registry_get (tp_registry topo) (tg_provider t)),
              ro_cx = build_cx env topo (tg_provider t) request_id,
              ro_params = \<lparr>ra_model = unwrap_or model (tg_model t)\<rparr>, ro_name = tg_provider t\<rparr>)
           (or_else (List.find (realtime_eligible api True now w) targets)
                    (List.find (realtime_eligible api False now w) targets))))"

end
