(* ===== verification/Relay.thy ===== *)
theory Relay
  imports Modalities Fallback
begin

text \<open>
  What a request's consumer and the bus see of the modalities: the streams that relay a provider's
  stream, whatever the moment the consumer goes away, and the whole-object modalities from screening to
  their last event.
\<close>

section \<open>A consumer\<close>

text \<open>A consumer that polls at most \<open>n\<close> times and then drops the stream: what it receives, and whether
  a poll panicked.\<close>

fun consume ::
  "(('p, 'a) relay \<Rightarrow> 'p node \<Rightarrow> 'p node \<times> (('p, 'a) relay \<times> (model_error + 'a) option) run) \<Rightarrow> nat \<Rightarrow>
     ('p, 'a) relay \<Rightarrow> 'p node \<Rightarrow> 'p node \<times> (model_error + 'a) list \<times> bool" where
  "consume poll 0 st w = (relay_drop st w, [], False)"
| "consume poll (Suc n) st w =
     (case poll st w of
        (w, Panic) \<Rightarrow> (w, [], True)
      | (w, Ret (st, None)) \<Rightarrow> (relay_drop st w, [], False)
      | (w, Ret (st, Some x)) \<Rightarrow> (case consume poll n st w of (w, xs, p) \<Rightarrow> (w, x # xs, p)))"

text \<open>A provider stream given by its items, and what the node does while each is awaited.\<close>

abbreviation scripted :: "(('p node \<Rightarrow> 'p node) \<times> (model_error + 'a)) list \<Rightarrow> ('p node, 'a) polls" where
  "scripted script \<equiv> map (\<lambda>(g, x) w. (g w, x)) script"

fun upto_error :: "('e + 'a) list \<Rightarrow> ('e + 'a) list" where
  "upto_error [] = []"
| "upto_error (Inl e # xs) = [Inl e]"
| "upto_error (Inr c # xs) = Inr c # upto_error xs"

fun reprice :: "('a \<Rightarrow> 'a seen) \<Rightarrow> pricing \<Rightarrow> string \<Rightarrow> model_error + 'a \<Rightarrow> model_error + 'a" where
  "reprice see pr model (Inl e) = Inl e"
| "reprice see pr model (Inr c) =
     (case see c of SeenUsage u repack \<Rightarrow> Inr (repack (price pr model u)) | _ \<Rightarrow> Inr c)"

text \<open>The events of the items received: a priced usage for every report, a failure for an error.\<close>

fun item_events ::
  "('a \<Rightarrow> 'a seen) \<Rightarrow> pricing \<Rightarrow> string \<Rightarrow> string \<Rightarrow> string \<Rightarrow> model_error + 'a \<Rightarrow> event list" where
  "item_events see pr rid key model (Inl e) = [RequestFailed rid (model_error_text e)]"
| "item_events see pr rid key model (Inr c) =
     (case see c of SeenUsage u _ \<Rightarrow> [Usage rid key model (price pr model u)] | _ \<Rightarrow> [])"

fun finish_of :: "('a \<Rightarrow> 'a seen) \<Rightarrow> finish_reason option \<Rightarrow> (model_error + 'a) list \<Rightarrow> finish_reason option" where
  "finish_of see f [] = f"
| "finish_of see f (Inr c # xs) =
     finish_of see (case see c of SeenFinish reason \<Rightarrow> Some reason | _ \<Rightarrow> f) xs"
| "finish_of see f (Inl e # xs) = f"

text \<open>The stream was read to its end: every item was received, and one more poll found there was none.\<close>

definition completed :: "nat \<Rightarrow> ('e + 'a) list \<Rightarrow> bool" where
  "completed n items \<longleftrightarrow> length items < n \<and> list_all (\<lambda>x. \<not> isl x) items"

section \<open>Relaying\<close>

lemma debit_same_permits:
  assumes "debit_tokens st lr provider model tokens now = (st', r)"
  shows "same_permits st st'"
proof (cases "hm_get lr provider")
  case None
  with assms show ?thesis by (simp add: debit_tokens_def)
next
  case (Some a)
  obtain pl x where x: "debit_entry model tokens now (st ! a) = (pl, x)" by fastforce
  have "sem_at s pl = sem_at s (st ! a)" for s
    using debit_entry_sem [of s model tokens now "st ! a"] x by simp
  moreover have "st' = st[a := pl]" using assms Some x by (simp add: debit_tokens_def)
  ultimately show ?thesis by (simp add: same_permits_def sem_at_update)
qed

lemma same_permits_drop: "same_permits a b \<Longrightarrow> same_permits (drop_guard a g) (drop_guard b g)"
  by (simp add: same_permits_def drop_guard_at)

definition script_calm :: "string \<Rightarrow> (('p node \<Rightarrow> 'p node) \<times> (model_error + 'a)) list \<Rightarrow> bool" where
  "script_calm rid script \<longleftrightarrow>
     (\<forall>g \<in> fst ` set script. \<forall>w. own rid (g w) = own rid w \<and> same_permits (nd_limits w) (nd_limits (g w)))"

lemma relay_next_cases:
  assumes "ry_phase st = Streaming"
  shows "ry_inner st = [] \<Longrightarrow> relay_next en see st w =
      (release_guard (ry_guard st) (emit (RequestCompleted (ry_id st) (ry_finish st)) w),
       Ret (st\<lparr>ry_phase := Ended\<rparr>, None))"
    and "ry_inner st = poll # rest \<Longrightarrow> poll w = (w1, Inl e) \<Longrightarrow> relay_next en see st w =
      (emit (RequestFailed (ry_id st) (model_error_text e)) w1,
       Ret (st\<lparr>ry_inner := rest, ry_phase := Failing\<rparr>, Some (Inl e)))"
    and "ry_inner st = poll # rest \<Longrightarrow> poll w = (w1, Inr c) \<Longrightarrow> relay_next en see st w =
      relay_chunk en see (st\<lparr>ry_inner := rest\<rparr>) c w1"
  using assms by (simp_all add: relay_next_def)

lemma consume_ended [simp]:
  "ry_phase st = Ended \<Longrightarrow> consume (relay_next en see) n st w = (w, [], False)"
  by (cases n) (simp_all add: relay_drop_def relay_next_def)

lemma consume_failing:
  assumes "ry_phase st = Failing"
  shows "consume (relay_next en see) n st w = (release_guard (ry_guard st) w, [], False)"
  using assms by (cases n) (simp_all add: relay_drop_def relay_next_def)

lemma relay_consumed:
  assumes "consume (relay_next en see) n st w = (w', received, False)"
    and "ry_phase st = Streaming" "ry_inner st = scripted script" "script_calm (ry_id st) script"
  defines "items \<equiv> map snd script"
  shows "received = map (reprice see (en_pricing en) (ry_model st)) (upto_error (take n items)) \<and>
    own (ry_id st) w' = own (ry_id st) w @
      concat (map (item_events see (en_pricing en) (ry_id st) (ry_key st) (ry_model st)) (upto_error (take n items))) @
      (if completed n items then [RequestCompleted (ry_id st) (finish_of see (ry_finish st) items)] else [])"
  using assms(1-4) unfolding items_def
proof (induction n arbitrary: st w received script)
  case 0
  then show ?case by (auto simp: relay_drop_def completed_def)
next
  case (Suc n)
  show ?case
  proof (cases script)
    case Nil
    with Suc.prems show ?thesis
      by (auto simp: relay_next_cases(1) completed_def relay_drop_def)
  next
    case (Cons gx rest)
    obtain g x where gx: "gx = (g, x)" by (cases gx)
    have inner: "ry_inner st = (\<lambda>w. (g w, x)) # scripted rest" using Suc.prems(3) by (simp add: Cons gx)
    have calm: "own (ry_id st) (g w) = own (ry_id st) w" "script_calm (ry_id st) rest"
      using Suc.prems(4) by (auto simp: script_calm_def Cons gx)
    let ?st = "st\<lparr>ry_inner := scripted rest\<rparr>"
    show ?thesis
    proof (cases x)
      case (Inl e)
      then have step: "relay_next en see st w = (emit (RequestFailed (ry_id st) (model_error_text e)) (g w),
          Ret (st\<lparr>ry_inner := scripted rest, ry_phase := Failing\<rparr>, Some (Inl e)))"
        by (intro relay_next_cases(2) [OF Suc.prems(2) inner]) simp
      show ?thesis
        using Suc.prems(1) calm by (auto simp: step Inl consume_failing Cons gx completed_def)
    next
      case (Inr c)
      have step: "relay_next en see st w = relay_chunk en see ?st c (g w)"
        by (intro relay_next_cases(3) [OF Suc.prems(2) inner]) (simp add: Inr)
      have go: ?thesis if chunk: "relay_chunk en see ?st c (g w) = (w1, Ret (st1, Some y))"
        and y: "y = reprice see (en_pricing en) (ry_model st) x"
        and ev: "own (ry_id st) w1 = own (ry_id st) w @ item_events see (en_pricing en) (ry_id st) (ry_key st) (ry_model st) x"
        and st1: "st1 = ?st\<lparr>ry_finish := finish_of see (ry_finish st) [x]\<rparr>" for w1 st1 y
      proof -
        obtain ys where ys: "consume (relay_next en see) n st1 w1 = (w', ys, False)" "received = y # ys"
          using Suc.prems(1) by (auto simp: step chunk split: prod.splits)
        have "ry_phase st1 = Streaming" "ry_inner st1 = scripted rest" "script_calm (ry_id st1) rest"
          using Suc.prems(2) calm(2) by (simp_all add: st1)
        from Suc.IH [OF ys(1) this] show ?thesis
          using ys(2) y ev by (simp add: st1 Cons gx Inr completed_def)
      qed
      show ?thesis
      proof (cases "see c")
        case (SeenUsage u repack)
        let ?priced = "price (en_pricing en) (ry_model st) u"
        obtain limits r where d: "debit_tokens (nd_limits (g w)) (ry_rate st) (ry_provider st) (ry_upstream st)
            (ug_total ?priced) (nd_instant (g w)) = (limits, r)" by fastforce
        have "r \<noteq> Panicked"
          using Suc.prems(1) by (auto simp: step relay_chunk_def SeenUsage d Let_def)
        then have "relay_chunk en see ?st c (g w) =
            (emit (Usage (ry_id st) (ry_key st) (ry_model st) ?priced) ((g w)\<lparr>nd_limits := limits\<rparr>),
             Ret (?st, Some (Inr (repack ?priced))))"
          by (cases r) (simp_all add: relay_chunk_def SeenUsage d Let_def)
        then show ?thesis by (rule go) (simp_all add: Inr SeenUsage calm)
      next
        case (SeenFinish reason)
        then have "relay_chunk en see ?st c (g w) = (g w, Ret (?st\<lparr>ry_finish := Some reason\<rparr>, Some (Inr c)))"
          by (simp add: relay_chunk_def)
        then show ?thesis by (rule go) (simp_all add: Inr SeenFinish calm)
      next
        case SeenOther
        then have "relay_chunk en see ?st c (g w) = (g w, Ret (?st, Some (Inr c)))"
          by (simp add: relay_chunk_def)
        then show ?thesis by (rule go) (simp_all add: Inr SeenOther calm)
      qed
    qed
  qed
qed

text \<open>However the stream ends, the guard is given back once.\<close>

lemma relay_permits:
  assumes "consume (relay_next en see) n st w = (w', received, panicked)"
    and "ry_phase st = Streaming" "ry_inner st = scripted script" "script_calm (ry_id st) script"
  shows "same_permits (drop_guard (nd_limits w) (ry_guard st)) (nd_limits w')"
  using assms
proof (induction n arbitrary: st w received script)
  case 0
  then show ?case by (auto simp: relay_drop_def)
next
  case (Suc n)
  show ?case
  proof (cases script)
    case Nil
    with Suc.prems show ?thesis by (auto simp: relay_next_cases(1) relay_drop_def)
  next
    case (Cons gx rest)
    obtain g x where gx: "gx = (g, x)" by (cases gx)
    have inner: "ry_inner st = (\<lambda>w. (g w, x)) # scripted rest" using Suc.prems(3) by (simp add: Cons gx)
    have calm: "same_permits (nd_limits w) (nd_limits (g w))" "script_calm (ry_id st) rest"
      using Suc.prems(4) by (auto simp: script_calm_def Cons gx)
    show ?thesis
    proof (cases x)
      case (Inl e)
      then have step: "relay_next en see st w = (emit (RequestFailed (ry_id st) (model_error_text e)) (g w),
          Ret (st\<lparr>ry_inner := scripted rest, ry_phase := Failing\<rparr>, Some (Inl e)))"
        by (intro relay_next_cases(2) [OF Suc.prems(2) inner]) simp
      show ?thesis
        using Suc.prems(1) same_permits_drop [OF calm(1)] by (auto simp: step consume_failing)
    next
      case (Inr c)
      let ?st = "st\<lparr>ry_inner := scripted rest\<rparr>"
      have step: "relay_next en see st w = relay_chunk en see ?st c (g w)"
        by (intro relay_next_cases(3) [OF Suc.prems(2) inner]) (simp add: Inr)
      have go: "same_permits (drop_guard (nd_limits w) (ry_guard st)) (nd_limits w')"
        if chunk: "relay_chunk en see ?st c (g w) = (w1, Ret (st1, Some y))" and moved: "same_permits (nd_limits w) (nd_limits w1)"
          and fields: "ry_phase st1 = Streaming" "ry_inner st1 = scripted rest" "ry_guard st1 = ry_guard st" "ry_id st1 = ry_id st"
        for w1 st1 y
      proof -
        obtain ys where ys: "consume (relay_next en see) n st1 w1 = (w', ys, panicked)"
          using Suc.prems(1) by (auto simp: step chunk split: prod.splits)
        have "script_calm (ry_id st1) rest" using calm(2) fields(4) by simp
        from Suc.IH [OF ys fields(1,2) this] show ?thesis
          using same_permits_trans [OF same_permits_drop [OF moved]] fields(3) by simp
      qed
      show ?thesis
      proof (cases "see c")
        case (SeenUsage u repack)
        obtain limits r where d: "debit_tokens (nd_limits (g w)) (ry_rate st) (ry_provider st) (ry_upstream st)
            (ug_total (price (en_pricing en) (ry_model st) u)) (nd_instant (g w)) = (limits, r)" by fastforce
        have same: "same_permits (nd_limits w) limits"
          by (rule same_permits_trans [OF calm(1) debit_same_permits [OF d]])
        show ?thesis
        proof (cases "r = Panicked")
          case True
          then show ?thesis
            using Suc.prems(1) same_permits_drop [OF same]
            by (auto simp: step relay_chunk_def SeenUsage d Let_def)
        next
          case False
          then show ?thesis
            using same Suc.prems(2)
            by (intro go) (cases r; simp add: relay_chunk_def SeenUsage d Let_def)+
        qed
      next
        case (SeenFinish reason)
        then have "relay_chunk en see ?st c (g w) = (g w, Ret (?st\<lparr>ry_finish := Some reason\<rparr>, Some (Inr c)))"
          by (simp add: relay_chunk_def)
        then show ?thesis by (rule go) (use calm(1) Suc.prems(2) in simp_all)
      next
        case SeenOther
        then have "relay_chunk en see ?st c (g w) = (g w, Ret (?st, Some (Inr c)))"
          by (simp add: relay_chunk_def)
        then show ?thesis by (rule go) (use calm(1) Suc.prems(2) in simp_all)
      qed
    qed
  qed
qed

text \<open>
  C5: a chat stream is relayed transparently and accounted for exactly. However many items the consumer polls before it
  goes away, it receives the provider's items in order, up to and including the first error, with nothing
  changed but the cost in usage reports; the bus gets one priced usage event per report received and, at an
  error, one failure, and one completion, with the last finish reason seen, exactly when the stream was read to
  its end without error. Whatever happens, a panic included, the admission guard is given back exactly once.
\<close>

theorem stream_relayed:
  assumes "ds_value d = scripted script" "script_calm (ds_request_id d) script"
    and "consume (fst (instrument en d)) n (snd (instrument en d)) w = (w', received, panicked)"
  defines "items \<equiv> map snd script" and "rid \<equiv> ds_request_id d"
  shows "same_permits (drop_guard (nd_limits w) (ds_guard d)) (nd_limits w') \<and>
    (\<not> panicked \<longrightarrow>
      received = map (reprice see_chunk (en_pricing en) (ds_model d)) (upto_error (take n items)) \<and>
      own rid w' = own rid w @
        concat (map (item_events see_chunk (en_pricing en) rid (ds_key d) (ds_model d)) (upto_error (take n items))) @
        (if completed n items then [RequestCompleted rid (finish_of see_chunk None items)] else []))"
proof -
  have run: "consume (relay_next en see_chunk) n (relay_of d) w = (w', received, panicked)"
    using assms(3) by (simp add: instrument_def)
  have st: "ry_phase (relay_of d) = Streaming" "ry_inner (relay_of d) = scripted script"
    "script_calm (ry_id (relay_of d)) script"
    using assms(1,2) by (simp_all add: relay_of_def)
  have "same_permits (drop_guard (nd_limits w) (ds_guard d)) (nd_limits w')"
    using relay_permits [OF run st] by (simp add: relay_of_def)
  moreover have "\<not> panicked \<longrightarrow> received = map (reprice see_chunk (en_pricing en) (ds_model d)) (upto_error (take n items)) \<and>
      own rid w' = own rid w @
        concat (map (item_events see_chunk (en_pricing en) rid (ds_key d) (ds_model d)) (upto_error (take n items))) @
        (if completed n items then [RequestCompleted rid (finish_of see_chunk None items)] else [])"
    using relay_consumed [of en see_chunk n "relay_of d" w w' received, OF _ st] run
    by (simp add: items_def rid_def) (simp add: relay_of_def)
  ultimately show ?thesis by blast
qed

definition ex_script :: "((nat node \<Rightarrow> nat node) \<times> (model_error + stream_chunk)) list" where
  "ex_script = [(id, Inr (Content 0 ''hi'')), (id, Inr (UsageReport usage_default)), (id, Inr (Finish 0 Stop))]"

definition ex_stream :: "(nat node, stream_chunk) polls dispatched" where
  "ex_stream =
     \<lparr>ds_value = scripted ex_script, ds_request_id = ''r'', ds_key = ''k'', ds_model = ''m'', ds_provider = ''b'',
      ds_upstream = ''u'', ds_rate = hm_empty, ds_guard = guard_empty\<rparr>"

lemma debit_unlimited: "debit_tokens st hm_empty provider model tokens now = (st, Got False)"
  by (simp add: debit_tokens_def hm_simps)

lemma ex_no_panic:
  "snd (snd (consume (fst (instrument ex_engine ex_stream)) 2 (snd (instrument ex_engine ex_stream)) ex_node)) = False"
  "snd (snd (consume (fst (instrument ex_engine ex_stream)) 4 (snd (instrument ex_engine ex_stream)) ex_node)) = False"
  by (simp_all add: numeral_eq_Suc instrument_def relay_next_def relay_chunk_def relay_of_def ex_stream_def ex_script_def
      debit_unlimited Let_def)

theorem stream_relayed_witness:
  "own ''r'' (fst (consume (fst (instrument ex_engine ex_stream)) 2 (snd (instrument ex_engine ex_stream)) ex_node)) =
     [Usage ''r'' ''k'' ''m'' (price ex_pricing ''m'' usage_default)] \<and>
   own ''r'' (fst (consume (fst (instrument ex_engine ex_stream)) 4 (snd (instrument ex_engine ex_stream)) ex_node)) =
     [Usage ''r'' ''k'' ''m'' (price ex_pricing ''m'' usage_default), RequestCompleted ''r'' (Some Stop)]"
proof -
  have calm: "script_calm (ds_request_id ex_stream) ex_script" by (simp add: script_calm_def ex_script_def)
  have stream: "ds_value ex_stream = scripted ex_script" by (simp add: ex_stream_def)
  have start: "own ''r'' ex_node = []" by (simp add: own_def ex_node_def)
  obtain w2 r2 where r2: "consume (fst (instrument ex_engine ex_stream)) 2 (snd (instrument ex_engine ex_stream)) ex_node = (w2, r2, False)"
    using ex_no_panic(1) by (metis prod.collapse)
  obtain w4 r4 where r4: "consume (fst (instrument ex_engine ex_stream)) 4 (snd (instrument ex_engine ex_stream)) ex_node = (w4, r4, False)"
    using ex_no_panic(2) by (metis prod.collapse)
  show ?thesis
    using stream_relayed [OF stream calm r2] stream_relayed [OF stream calm r4] start
    unfolding r2 r4 by (simp add: ex_stream_def ex_script_def completed_def ex_engine_def)
qed

section \<open>Whole-object modalities\<close>

text \<open>An awaited step during which nothing of this request's moves.\<close>

definition calm :: "string \<Rightarrow> ('p node \<Rightarrow> 'p node \<times> 'b) \<Rightarrow> bool" where
  "calm rid f \<longleftrightarrow>
     (\<forall>w. own rid (fst (f w)) = own rid w \<and> same_permits (nd_limits w) (nd_limits (fst (f w))) \<and>
        nd_topology (fst (f w)) = nd_topology w)"

definition calm_interceptor :: "string \<Rightarrow> 'p engine \<Rightarrow> bool" where
  "calm_interceptor rid en \<longleftrightarrow>
     (\<forall>ic ph k m v. en_interceptor en = Some ic \<longrightarrow> calm rid (ic_screen ic ph k m v))"

lemma screen_request_calm:
  assumes "calm_interceptor rid en" "screen_request en cd req key model w = (w', r)"
  shows "own rid w' = own rid w" "same_permits (nd_limits w) (nd_limits w')" "nd_topology w' = nd_topology w"
    "r = Inl e \<Longrightarrow> \<exists>s. e = BlockedBy s"
proof -
  have calm: "own rid w2 = own rid w1 \<and> same_permits (nd_limits w1) (nd_limits w2) \<and> nd_topology w2 = nd_topology w1"
    if "en_interceptor en = Some ic" "ic_screen ic ph k m v w1 = (w2, out)" for ic ph k m v w1 w2 out
    using assms(1) that unfolding calm_interceptor_def calm_def by (metis fst_conv)
  show "own rid w' = own rid w" "same_permits (nd_limits w) (nd_limits w')" "nd_topology w' = nd_topology w"
    "r = Inl e \<Longrightarrow> \<exists>s. e = BlockedBy s"
    using assms(2)
    by (auto simp: screen_request_def dest: calm
        split: option.splits if_splits prod.splits intercept_outcome.splits sum.splits)
qed

text \<open>The events a whole-object request must have added, given its answer.\<close>

fun whole_lifecycle ::
  "('v \<Rightarrow> usage) \<Rightarrow> string \<Rightarrow> string \<Rightarrow> string \<Rightarrow> engine_error + 'v \<Rightarrow> event list \<Rightarrow> bool" where
  "whole_lifecycle usage_of rid key model (Inl (BlockedBy _)) es = (es = [])"
| "whole_lifecycle usage_of rid key model (Inl (NoRoute _)) es = (es = [])"
| "whole_lifecycle usage_of rid key model (Inl (NoTargets _)) es = (es = [])"
| "whole_lifecycle usage_of rid key model (Inl e) es =
     (\<exists>req. es = [RequestStarted rid key model req, RequestFailed rid (failure_text e)])"
| "whole_lifecycle usage_of rid key model (Inr v) es =
     (\<exists>req provider upstream. es = [RequestStarted rid key model req, RequestRouted rid provider upstream,
        Usage rid key model (usage_of v), RequestCompleted rid None])"

lemma settle_effect:
  assumes "settle en usage_of with_usage keep d w = (w', Ret r)"
  shows "\<exists>v. r = Inr v \<and> same_permits (drop_guard (nd_limits w) (ds_guard d)) (nd_limits w') \<and>
    own (ds_request_id d) w' = own (ds_request_id d) w @
      [Usage (ds_request_id d) (ds_key d) (ds_model d) (usage_of v), RequestCompleted (ds_request_id d) None]"
  using assms
  by (auto simp: settle_def Let_def emit_batch_tail_def dest!: debit_same_permits
      split: prod.splits attempt.splits if_splits intro: same_permits_drop)

lemma same_permits_sym: "same_permits a b \<Longrightarrow> same_permits b a"
  by (simp add: same_permits_def)

lemma screened_dispatch_effect:
  assumes "calm_interceptor rid en" "\<And>p r cx. calm rid (call p r cx)"
    and "\<And>d w. own rid (sleep d w) = own rid w \<and> same_permits (nd_limits w) (nd_limits (sleep d w))"
    and "limiter_ok (tp_rate (nd_topology w)) (nd_limits w)"
    and "screened_dispatch env en sleep cd model_of with_model call req key rid now w = (w', r)"
  shows "(\<exists>s. r = Ret (Inl (BlockedBy s)) \<and> own rid w' = own rid w \<and> same_permits (nd_limits w) (nd_limits w')) \<or>
    (\<forall>s. r \<noteq> Ret (Inl (BlockedBy s))) \<and>
    (\<exists>body. own rid w' = own rid w @ lifecycle rid key (model_of req) body r) \<and>
    (case r of
       Ret (Inr d) \<Rightarrow> same_permits (nd_limits w) (drop_guard (nd_limits w') (ds_guard d)) \<and>
         ds_request_id d = rid \<and> ds_key d = key \<and> ds_model d = model_of req
     | _ \<Rightarrow> same_permits (nd_limits w) (nd_limits w'))"
proof -
  obtain w1 s where s: "screen_request en cd req key (model_of req) w = (w1, s)" by fastforce
  note screen = screen_request_calm [OF assms(1) s]
  show ?thesis
  proof (cases s)
    case (Inl e)
    with assms(5) screen show ?thesis by (auto simp: screened_dispatch_def s Let_def)
  next
    case (Inr req')
    let ?call = "\<lambda>provider cx upstream. call provider (with_model upstream req') cx"
    have run: "dispatch env en sleep (model_of req) key rid now (payload en cd req') ?call w1 = (w', r)"
      using assms(5) by (simp add: screened_dispatch_def s Inr Let_def)
    have quiet: "silent rid ?call" "steady ?call"
      using assms(2) by (simp_all add: silent_def steady_def calm_def)
    have ok: "limiter_ok (tp_rate (nd_topology w1)) (nd_limits w1)"
      using limiter.same_ok [OF screen(2) assms(4)] by (simp add: screen(3))
    have events: "own rid w' = own rid w @ lifecycle rid key (model_of req) (payload en cd req') r"
      using dispatch_own [OF quiet(1) _ run] assms(3) screen(1) by simp
    have permits: "case r of
        Ret (Inr d) \<Rightarrow> same_permits (nd_limits w) (drop_guard (nd_limits w') (ds_guard d))
      | _ \<Rightarrow> same_permits (nd_limits w) (nd_limits w')"
      using dispatch_permits [OF ok quiet(2) _ run] assms(3) same_permits_trans [OF screen(2)]
      by (auto split: run.splits sum.splits)
    show ?thesis
    proof (cases r)
      case (Ret x)
      note answers = dispatch_answers [OF run [unfolded Ret]]
      have "x \<noteq> Inl (BlockedBy b)" for b using answers(2) by auto
      with events permits answers(1) Ret show ?thesis by (cases x) auto
    next
      case Panic
      with events permits show ?thesis by auto
    qed
  qed
qed

lemma lifecycle_whole:
  "\<forall>s. r \<noteq> BlockedBy s \<Longrightarrow>
     whole_lifecycle usage_of rid key model (Inl r) (lifecycle rid key model body (Ret (Inl r)))"
  by (cases r) auto

text \<open>
  C4: a request served whole is bracketed and settled. For embeddings, rerank, decisions and transcription
  alike: a blocked or unroutable request leaves no event; any other failure a start and one failure; and
  an answer a start, the routing, one usage event that reports exactly the usage in the answer the
  consumer gets, and a completion, all under the key and the logical model of the request. Every
  permit the request held is back when it returns.
\<close>

theorem whole_request_settled:
  assumes "calm_interceptor rid en" "\<And>p r cx. calm rid (mo_call mo p r cx)"
    and "\<And>d w. own rid (sleep d w) = own rid w \<and> same_permits (nd_limits w) (nd_limits (sleep d w))"
    and "limiter_ok (tp_rate (nd_topology w)) (nd_limits w)"
    and "batch_modality env en sleep cd mo req key rid now w = (w', Ret r)"
  shows "same_permits (nd_limits w) (nd_limits w') \<and>
    (\<exists>es. own rid w' = own rid w @ es \<and> whole_lifecycle (mo_usage mo) rid key (mo_model mo req) r es)"
proof -
  obtain w1 x where x: "screened_dispatch env en sleep cd (mo_model mo) (mo_with_model mo) (mo_call mo) req key rid now w = (w1, x)"
    by fastforce
  note eff = screened_dispatch_effect [OF assms(1-4) x]
  show ?thesis
  proof (cases x)
    case Panic
    with assms(5) show ?thesis by (simp add: batch_modality_def x)
  next
    case (Ret y)
    show ?thesis
    proof (cases y)
      case (Inl e)
      then have r: "r = Inl e" "w' = w1" using assms(5) by (simp_all add: batch_modality_def x Ret)
      show ?thesis
      proof (cases "\<exists>s. e = BlockedBy s")
        case True
        with eff r Ret Inl show ?thesis by auto
      next
        case False
        with eff Ret Inl r show ?thesis using lifecycle_whole [of e] by auto
      qed
    next
      case (Inr d)
      have settle: "settle en (mo_usage mo) (mo_with_usage mo) (mo_keep_cost mo) d w1 = (w', Ret r)"
        using assms(5) by (simp add: batch_modality_def x Ret Inr)
      from eff Ret Inr obtain body where ev: "own rid w1 = own rid w @ lifecycle rid key (mo_model mo req) body x"
        and perm: "same_permits (nd_limits w) (drop_guard (nd_limits w1) (ds_guard d))"
        and ids: "ds_request_id d = rid" "ds_key d = key" "ds_model d = mo_model mo req" by auto
      from settle_effect [OF settle] obtain v where v: "r = Inr v"
        "same_permits (drop_guard (nd_limits w1) (ds_guard d)) (nd_limits w')"
        "own rid w' = own rid w1 @ [Usage rid key (mo_model mo req) (mo_usage mo v), RequestCompleted rid None]"
        by (auto simp: ids)
      show ?thesis
        using same_permits_trans [OF perm v(2)] v(3) ev by (auto simp: v(1) Ret Inr)
    qed
  qed
qed

definition ex_vector :: "string \<Rightarrow> embedding_response" where
  "ex_vector m = \<lparr>er_model = m, er_embeddings = [], er_usage = usage_default\<lparr>ug_total := 3\<rparr>\<rparr>"

definition ex_ops :: "(nat, embedding_request, embedding_response) modality_ops" where
  "ex_ops = embed_ops (\<lambda>p. (provider_default ''x'' (\<lambda>_ _ w. (w, Inl model_error.Timeout)))
     \<lparr>pa_embed := \<lambda>req cx w. (w, ex_answers ex_vector p cx (eq_model req))\<rparr>)"

definition ex_request :: embedding_request where
  "ex_request = \<lparr>eq_model = ''m'', eq_input = [''hello''], eq_dimensions = None, eq_encoding_format = None, eq_extra = []\<rparr>"

abbreviation ex_embed :: "nat node \<times> (engine_error + embedding_response) run" where
  "ex_embed \<equiv> batch_modality (\<lambda>_. None) ex_engine (\<lambda>_ w. w) \<lparr>cd_to_value = \<lambda>_. None, cd_from_value = \<lambda>_. Inl []\<rparr> ex_ops
     ex_request ''k'' ''r'' 100 ex_node"

lemma ex_embed_run: "\<exists>w' v. ex_embed = (w', Ret (Inr v)) \<and> ug_total (er_usage v) = 3"
proof -
  obtain w' d where run: "dispatch (\<lambda>_. None) ex_engine (\<lambda>_ w. w) ''m'' ''k'' ''r'' 100 None
      (pure_call (ex_answers ex_vector)) ex_node = (w', Ret (Inr d))" "ds_value d = ex_vector ''u''" "ds_rate d = hm_empty"
    using ex_run [of ex_vector] by blast
  have "screened_dispatch (\<lambda>_. None) ex_engine (\<lambda>_ w. w) \<lparr>cd_to_value = \<lambda>_. None, cd_from_value = \<lambda>_. Inl []\<rparr>
      (mo_model ex_ops) (mo_with_model ex_ops) (mo_call ex_ops) ex_request ''k'' ''r'' 100 ex_node = (w', Ret (Inr d))"
    using run(1)
    by (simp add: screened_dispatch_def screen_request_def Modalities.payload_def ex_engine_def ex_ops_def embed_ops_def ex_request_def)
  then show ?thesis
    by (simp add: batch_modality_def settle_def run Let_def debit_unlimited ex_ops_def embed_ops_def ex_vector_def price_def)
qed

theorem whole_request_settled_witness:
  "\<exists>req provider upstream. \<exists>v :: embedding_response. own ''r'' (fst ex_embed) =
     [RequestStarted ''r'' ''k'' ''m'' req, RequestRouted ''r'' provider upstream, Usage ''r'' ''k'' ''m'' (er_usage v),
      RequestCompleted ''r'' None] \<and> ug_total (er_usage v) = 3"
proof -
  have "calm_interceptor ''r'' ex_engine" by (simp add: calm_interceptor_def ex_engine_def)
  moreover have "calm ''r'' (mo_call ex_ops p r cx)" for p r cx
    by (simp add: calm_def ex_ops_def embed_ops_def)
  moreover have "limiter_ok (tp_rate (nd_topology ex_node)) (nd_limits ex_node)"
    by (simp add: ex_rate limiter_ok_def hm_empty_def)
  moreover obtain w' v where run: "ex_embed = (w', Ret (Inr v))" "ug_total (er_usage v) = 3" using ex_embed_run by blast
  ultimately have "\<exists>es. own ''r'' w' = own ''r'' ex_node @ es \<and>
      whole_lifecycle (mo_usage ex_ops) ''r'' ''k'' (mo_model ex_ops ex_request) (Inr v) es"
    using whole_request_settled [OF _ _ _ _ run(1)] by auto
  moreover have "own ''r'' ex_node = []" by (simp add: own_def ex_node_def)
  moreover have "mo_usage ex_ops = er_usage" "mo_model ex_ops ex_request = ''m''"
    by (simp_all add: ex_ops_def embed_ops_def ex_request_def)
  ultimately obtain req provider upstream where own: "own ''r'' w' = [RequestStarted ''r'' ''k'' ''m'' req,
      RequestRouted ''r'' provider upstream, Usage ''r'' ''k'' ''m'' (er_usage v), RequestCompleted ''r'' None]"
    by auto
  show ?thesis
    unfolding run(1) fst_conv
    using own run(2) by blast
qed

end
