(* ===== verification/Topology.thy ===== *)
theory Topology
  imports Engine
begin

text \<open>
  Topology swaps, \<open>Engine::install_topology\<close> of \<open>engine.rs\<close>: a pulled layer of providers and routes is
  filtered, compared with the layer installed before, and merged onto the file base. Building an
  instance of a kind is the parameter \<open>factory\<close>.
\<close>

section \<open>The diff\<close>

record topology_diff =
  df_providers_added :: nat
  df_providers_updated :: nat
  df_providers_removed :: nat
  df_routes_added :: nat
  df_routes_updated :: nat
  df_routes_removed :: nat
  df_skipped :: "string list"

definition is_noop :: "topology_diff \<Rightarrow> bool" where
  "is_noop d \<longleftrightarrow>
     df_providers_added d = 0 \<and> df_providers_updated d = 0 \<and> df_providers_removed d = 0 \<and>
     df_routes_added d = 0 \<and> df_routes_updated d = 0 \<and> df_routes_removed d = 0"

definition quoted :: "string \<Rightarrow> string" where
  "quoted s = [CHR 0x27] @ s @ [CHR 0x27]"

section \<open>Filtering the pull\<close>

text \<open>The instance of a pulled provider: the previous one while its kind holds, else a new one.\<close>

definition pulled_instance ::
  "'p topology \<Rightarrow> (string \<Rightarrow> 'p option) \<Rightarrow> provider_config \<Rightarrow> 'p option" where
  "pulled_instance prev factory p =
     (let reused = (case hm_get (tp_dynamic_providers prev) (pc_name p) of
            Some old \<Rightarrow> if pc_kind old = pc_kind p then hm_get (tp_dynamic_instances prev) (pc_name p) else None
          | None \<Rightarrow> None)
      in or_else reused (factory (pc_kind p)))"

fun filter_providers ::
  "'p topology \<Rightarrow> (string \<Rightarrow> 'p option) \<Rightarrow> string list \<Rightarrow> provider_config list \<Rightarrow>
     (string, provider_config) hashmap \<Rightarrow> (string, 'p) hashmap \<Rightarrow> string list \<Rightarrow>
     (string, provider_config) hashmap \<times> (string, 'p) hashmap \<times> string list" where
  "filter_providers prev factory base [] dps dis skipped = (dps, dis, skipped)"
| "filter_providers prev factory base (p # ps) dps dis skipped =
     (if pc_name p \<in> set base
      then filter_providers prev factory base ps dps dis
             (skipped @ [''provider '' @ quoted (pc_name p) @ '' shadows a config-file provider; skipped''])
      else if hm_contains dps (pc_name p)
      then filter_providers prev factory base ps dps dis
             (skipped @ [''duplicate provider '' @ quoted (pc_name p) @ '' in pulled topology; first entry wins''])
      else case pulled_instance prev factory p of
        None \<Rightarrow> filter_providers prev factory base ps dps dis
             (skipped @ [''provider '' @ quoted (pc_name p) @ '' has unknown kind '' @ quoted (pc_kind p) @ ''; skipped''])
      | Some i \<Rightarrow> filter_providers prev factory base ps (hm_insert (pc_name p) p dps)
             (hm_insert (pc_name p) i dis) skipped)"

fun filter_routes ::
  "string list \<Rightarrow> route_config list \<Rightarrow> (string, route_config) hashmap \<Rightarrow> string list \<Rightarrow>
     (string, route_config) hashmap \<times> string list" where
  "filter_routes base [] drs skipped = (drs, skipped)"
| "filter_routes base (r # rs) drs skipped =
     (if rt_model r \<in> set base
      then filter_routes base rs drs
             (skipped @ [''route '' @ quoted (rt_model r) @ '' shadows a config-file route; skipped''])
      else if hm_contains drs (rt_model r)
      then filter_routes base rs drs
             (skipped @ [''duplicate route '' @ quoted (rt_model r) @ '' in pulled topology; first entry wins''])
      else filter_routes base rs (hm_insert (rt_model r) r drs) skipped)"

text \<open>The three counts of a comparison with the layer before.\<close>

definition count_added :: "('k, 'v) hashmap \<Rightarrow> ('k, 'v) hashmap \<Rightarrow> nat" where
  "count_added old new = length (filter (\<lambda>(k, v). hm_get old k = None) new)"

definition count_updated ::
  "('v \<Rightarrow> 'v \<Rightarrow> bool) \<Rightarrow> ('k, 'v) hashmap \<Rightarrow> ('k, 'v) hashmap \<Rightarrow> nat" where
  "count_updated eq old new =
     length (filter (\<lambda>(k, v). case hm_get old k of None \<Rightarrow> False | Some v' \<Rightarrow> \<not> eq v' v) new)"

definition count_removed :: "('k, 'v) hashmap \<Rightarrow> ('k, 'v) hashmap \<Rightarrow> nat" where
  "count_removed old new = length (filter (\<lambda>k. \<not> hm_contains new k) (hm_keys old))"

section \<open>Installing\<close>

text \<open>Equality of hash maps does not see their order; a provider's model limits are one.\<close>

definition hm_eq :: "('k, 'v) hashmap \<Rightarrow> ('k, 'v) hashmap \<Rightarrow> bool" where
  "hm_eq m n \<longleftrightarrow> length m = length n \<and> list_all (\<lambda>(k, v). hm_get n k = Some v) m"

definition provider_eq :: "provider_config \<Rightarrow> provider_config \<Rightarrow> bool" where
  "provider_eq a b \<longleftrightarrow>
     a\<lparr>pc_model_limits := []\<rparr> = b\<lparr>pc_model_limits := []\<rparr> \<and> hm_eq (pc_model_limits a) (pc_model_limits b)"

definition same_limits :: "provider_config option \<Rightarrow> provider_config option \<Rightarrow> bool" where
  "same_limits old new =
     (case (old, new) of
        (Some a, Some b) \<Rightarrow> pc_limits a = pc_limits b \<and> hm_eq (pc_model_limits a) (pc_model_limits b)
      | _ \<Rightarrow> False)"

text \<open>Cool-downs of providers that vanished or changed are cleared.\<close>

definition clear_changed ::
  "(string, provider_config) hashmap \<Rightarrow> (string, provider_config) hashmap \<Rightarrow> health_table \<Rightarrow> health_table" where
  "clear_changed old new h =
     fold (\<lambda>(name, cfg) h. if is_none_or (\<lambda>n. \<not> provider_eq n cfg) (hm_get new name) then health_clear name h else h) old h"

definition merged_topology ::
  "'p engine \<Rightarrow> 'p topology \<Rightarrow> (string, provider_config) hashmap \<Rightarrow> (string, 'p) hashmap \<Rightarrow>
     (string, route_config) hashmap \<Rightarrow> limiter \<Rightarrow> 'p topology" where
  "merged_topology en prev dps dis drs lr =
     (let providers = en_base_providers en @ map snd dps
      in \<lparr>tp_registry = fold (\<lambda>(name, i). registry_register name i) dis (en_base_registry en),
          tp_router = router_new (en_base_routes en @ map snd drs) providers,
          tp_providers = hm_collect (map (\<lambda>p. (pc_name p, p)) providers),
          tp_rate = lr, tp_dynamic_providers = dps, tp_dynamic_routes = drs, tp_dynamic_instances = dis\<rparr>)"

definition install_topology ::
  "'p engine \<Rightarrow> (string \<Rightarrow> 'p option) \<Rightarrow> provider_config list \<Rightarrow> route_config list \<Rightarrow> 'p node \<Rightarrow>
     'p node \<times> topology_diff" where
  "install_topology en factory providers routes w =
     (let prev = nd_topology w in
      case filter_providers prev factory (map pc_name (en_base_providers en)) providers hm_empty hm_empty [] of
        (dps, dis, skipped) \<Rightarrow>
      case filter_routes (map rt_model (en_base_routes en)) routes hm_empty skipped of
        (drs, skipped) \<Rightarrow>
      let diff = \<lparr>df_providers_added = count_added (tp_dynamic_providers prev) dps,
                  df_providers_updated = count_updated provider_eq (tp_dynamic_providers prev) dps,
                  df_providers_removed = count_removed (tp_dynamic_providers prev) dps,
                  df_routes_added = count_added (tp_dynamic_routes prev) drs,
                  df_routes_updated = count_updated (=) (tp_dynamic_routes prev) drs,
                  df_routes_removed = count_removed (tp_dynamic_routes prev) drs,
                  df_skipped = skipped\<rparr>
      in if is_noop diff then (w, diff)
         else
           let all = en_base_providers en @ map snd dps;
               new = hm_collect (map (\<lambda>p. (pc_name p, p)) all)
           in case reconciled (nd_limits w) (tp_rate prev) all
                     (\<lambda>name. same_limits (hm_get (tp_providers prev) name) (hm_get new name)) (nd_instant w) of
                (limits, lr) \<Rightarrow>
                  (w\<lparr>nd_limits := limits,
                     nd_health := clear_changed (tp_providers prev) new (nd_health w),
                     nd_topology := merged_topology en prev dps dis drs lr\<rparr>, diff))"

section \<open>What a pull installs\<close>

text \<open>The entry of a pull that gets a name: the first of that name whose kind can be built.\<close>

definition elected :: "'p topology \<Rightarrow> (string \<Rightarrow> 'p option) \<Rightarrow> string list \<Rightarrow> provider_config list \<Rightarrow> string \<Rightarrow>
    provider_config option" where
  "elected prev factory base ps n =
     (if n \<in> set base then None
      else List.find (\<lambda>p. pc_name p = n \<and> pulled_instance prev factory p \<noteq> None) ps)"

lemma elected_Some:
  "elected prev factory base ps n = Some p \<Longrightarrow>
     pc_name p = n \<and> n \<notin> set base \<and> pulled_instance prev factory p \<noteq> None"
  by (auto simp: elected_def find_Some_iff split: if_splits)

lemma find_append_absent: "\<forall>x \<in> set xs. \<not> P x \<Longrightarrow> List.find P (xs @ ys) = List.find P ys"
  by (induction xs) auto

lemma filter_providers_wf:
  assumes "filter_providers prev factory base ps dps dis skipped = (dps', dis', skipped')" "hm_wf dps" "hm_wf dis"
  shows "hm_wf dps' \<and> hm_wf dis'"
  using assms
  by (induction ps arbitrary: dps dis skipped) (auto simp: hm_simps split: if_splits option.splits)

lemma filter_providers_get:
  assumes "filter_providers prev factory base ps dps dis skipped = (dps', dis', skipped')"
  shows "hm_get dps' n =
      (case hm_get dps n of Some p \<Rightarrow> Some p | None \<Rightarrow> elected prev factory base ps n) \<and>
    hm_get dis' n =
      (case hm_get dps n of Some _ \<Rightarrow> hm_get dis n
       | None \<Rightarrow> (case elected prev factory base ps n of
           Some p \<Rightarrow> pulled_instance prev factory p | None \<Rightarrow> hm_get dis n))"
  using assms
proof (induction ps arbitrary: dps dis skipped)
  case Nil
  then show ?case by (auto simp: elected_def split: option.splits)
next
  case (Cons p ps)
  consider (shadow) "pc_name p \<in> set base"
    | (dup) "pc_name p \<notin> set base" "hm_contains dps (pc_name p)"
    | (unknown) "pc_name p \<notin> set base" "\<not> hm_contains dps (pc_name p)" "pulled_instance prev factory p = None"
    | (installed) i where "pc_name p \<notin> set base" "\<not> hm_contains dps (pc_name p)"
        "pulled_instance prev factory p = Some i"
    by (cases "pulled_instance prev factory p") auto
  then show ?case
  proof cases
    case shadow
    then have "elected prev factory base (p # ps) n = elected prev factory base ps n"
      by (auto simp: elected_def)
    with Cons.IH Cons.prems shadow show ?thesis by (simp split: option.splits)
  next
    case dup
    then have "hm_get dps n = None \<Longrightarrow> elected prev factory base (p # ps) n = elected prev factory base ps n"
      by (auto simp: elected_def hm_contains_def)
    with Cons.IH Cons.prems dup show ?thesis by (simp split: option.splits)
  next
    case unknown
    then have "elected prev factory base (p # ps) n = elected prev factory base ps n"
      by (auto simp: elected_def)
    with Cons.IH Cons.prems unknown show ?thesis by (simp split: option.splits)
  next
    case (installed i)
    then have "filter_providers prev factory base ps (hm_insert (pc_name p) p dps) (hm_insert (pc_name p) i dis) skipped =
        (dps', dis', skipped')" using Cons.prems by simp
    from Cons.IH [OF this] installed show ?thesis
      by (cases "n = pc_name p") (auto simp: hm_simps elected_def hm_contains_def split: option.splits)
  qed
qed

lemma filter_routes_wf:
  "filter_routes base rs drs skipped = (drs', skipped') \<Longrightarrow> hm_wf drs \<Longrightarrow> hm_wf drs'"
  by (induction rs arbitrary: drs skipped) (auto simp: hm_simps split: if_splits)

lemma filter_routes_get:
  assumes "filter_routes base rs drs skipped = (drs', skipped')"
  shows "hm_get drs' m =
    (case hm_get drs m of Some r \<Rightarrow> Some r
     | None \<Rightarrow> if m \<in> set base then None else List.find (\<lambda>r. rt_model r = m) rs)"
  using assms
proof (induction rs arbitrary: drs skipped)
  case (Cons r rs)
  consider "rt_model r \<in> set base" | "rt_model r \<notin> set base" "hm_contains drs (rt_model r)"
    | "rt_model r \<notin> set base" "\<not> hm_contains drs (rt_model r)" by blast
  then show ?case
  proof cases
    case 3
    then have "filter_routes base rs (hm_insert (rt_model r) r drs) skipped = (drs', skipped')"
      using Cons.prems by simp
    from Cons.IH [OF this] 3 show ?thesis
      by (cases "m = rt_model r") (auto simp: hm_simps hm_contains_def split: option.splits)
  qed (use Cons in \<open>auto simp: hm_contains_def split: option.splits\<close>)
qed (simp split: option.splits)

lemma find_name: "List.find (\<lambda>x. f x = n \<and> P x) xs = Some y \<Longrightarrow> f y = n"
  by (auto simp: find_Some_iff)

text \<open>Every entry of a dynamic layer sits under its own name.\<close>

definition keyed :: "('v \<Rightarrow> 'k) \<Rightarrow> ('k, 'v) hashmap \<Rightarrow> bool" where
  "keyed f m \<longleftrightarrow> hm_wf m \<and> (\<forall>k v. hm_get m k = Some v \<longrightarrow> f v = k)"

lemma keyed_values: "keyed f m \<Longrightarrow> map f (map snd m) = map fst m"
proof -
  assume k: "keyed f m"
  then have "\<forall>(k, v) \<in> set m. f v = k" by (auto simp: keyed_def dest: hm_in_get)
  then show ?thesis by auto
qed

lemma map_of_rev_wf: "hm_wf m \<Longrightarrow> map_of (rev m) = map_of m"
  by (simp add: hm_wf_def hm_keys_def map_of_inject_set flip: rev_map)

text \<open>Looking a provider up in the merged layers: the dynamic one under its names, the base elsewhere.\<close>

lemma collect_merged:
  assumes "keyed f dyn"
  shows "hm_get (hm_collect (map (\<lambda>p. (f p, p)) (base @ map snd dyn))) n =
    (case hm_get dyn n of Some p \<Rightarrow> Some p | None \<Rightarrow> hm_get (hm_collect (map (\<lambda>p. (f p, p)) base)) n)"
proof -
  have "map (\<lambda>p. (f p, p)) (map snd dyn) = dyn"
  proof -
    have "\<forall>kv \<in> set dyn. (f (snd kv), snd kv) = kv"
      using assms by (auto simp: keyed_def dest: hm_in_get)
    then show ?thesis by (simp add: map_idI)
  qed
  then show ?thesis
    using assms map_of_rev_wf [of dyn]
    by (simp only: hm_get_collect map_append rev_append map_of_append map_add_def keyed_def)
      (simp add: hm_get_def)
qed

section \<open>The base always wins\<close>

abbreviation base_names :: "'p engine \<Rightarrow> string set" where
  "base_names en \<equiv> pc_name ` set (en_base_providers en)"

abbreviation base_models :: "'p engine \<Rightarrow> string set" where
  "base_models en \<equiv> rt_model ` set (en_base_routes en)"

text \<open>The topologies an engine goes through: the one it starts from, then one pull after another,
  from whatever node the pull finds. The factory may be another one each time; \<open>of_kind\<close> says which
  instances count as being of a kind, and a factory builds only such.\<close>

inductive pulled_from :: "(string \<Rightarrow> 'p \<Rightarrow> bool) \<Rightarrow> 'p engine \<Rightarrow> 'p topology \<Rightarrow> bool" for of_kind where
  start: "engine_new env hmac cfg registry pr ic now wall = (en, w) \<Longrightarrow> pulled_from of_kind en (nd_topology w)"
| pull: "pulled_from of_kind en (nd_topology w) \<Longrightarrow> install_topology en factory ps rs w = (w', diff) \<Longrightarrow>
    \<forall>kind i. factory kind = Some i \<longrightarrow> of_kind kind i \<Longrightarrow> pulled_from of_kind en (nd_topology w')"

definition layered_names :: "'p engine \<Rightarrow> 'p topology \<Rightarrow> bool" where
  "layered_names en t \<longleftrightarrow>
     keyed pc_name (tp_dynamic_providers t) \<and> keyed rt_model (tp_dynamic_routes t) \<and>
     hm_wf (tp_dynamic_instances t) \<and>
     (\<forall>n. hm_get (tp_dynamic_instances t) n = None \<longleftrightarrow> hm_get (tp_dynamic_providers t) n = None) \<and>
     (\<forall>n \<in> base_names en. hm_get (tp_dynamic_providers t) n = None) \<and>
     (\<forall>m \<in> base_models en. hm_get (tp_dynamic_routes t) m = None)"

definition layered :: "'p engine \<Rightarrow> 'p topology \<Rightarrow> bool" where
  "layered en t \<longleftrightarrow> layered_names en t \<and>
     (\<exists>lr. t = merged_topology en t (tp_dynamic_providers t) (tp_dynamic_instances t) (tp_dynamic_routes t) lr)"

lemma layeredD:
  assumes "layered en t"
  shows "keyed pc_name (tp_dynamic_providers t)" "keyed rt_model (tp_dynamic_routes t)"
    "hm_wf (tp_dynamic_instances t)"
    "hm_get (tp_dynamic_instances t) n = None \<longleftrightarrow> hm_get (tp_dynamic_providers t) n = None"
    "n \<in> base_names en \<Longrightarrow> hm_get (tp_dynamic_providers t) n = None"
    "m \<in> base_models en \<Longrightarrow> hm_get (tp_dynamic_routes t) m = None"
proof -
  from assms have "layered_names en t" by (simp only: layered_def)
  then show "keyed pc_name (tp_dynamic_providers t)" "keyed rt_model (tp_dynamic_routes t)"
    "hm_wf (tp_dynamic_instances t)"
    "hm_get (tp_dynamic_instances t) n = None \<longleftrightarrow> hm_get (tp_dynamic_providers t) n = None"
    "n \<in> base_names en \<Longrightarrow> hm_get (tp_dynamic_providers t) n = None"
    "m \<in> base_models en \<Longrightarrow> hm_get (tp_dynamic_routes t) m = None"
    by (auto simp: layered_names_def)
qed

lemma merged_fields [simp]:
  "tp_dynamic_providers (merged_topology en prev dps dis drs lr) = dps"
  "tp_dynamic_instances (merged_topology en prev dps dis drs lr) = dis"
  "tp_dynamic_routes (merged_topology en prev dps dis drs lr) = drs"
  "tp_rate (merged_topology en prev dps dis drs lr) = lr"
  by (simp_all add: merged_topology_def Let_def)

lemma merged_prev: "merged_topology en prev dps dis drs lr = merged_topology en prev' dps dis drs lr"
  by (simp add: merged_topology_def)

text \<open>The pieces of an install that changes something.\<close>

lemma install_cases:
  assumes "install_topology en factory ps rs w = (w', diff)"
  obtains (noop) "is_noop diff" "w' = w"
  | (swap) dps dis skipped drs skipped' lr where "\<not> is_noop diff"
      "filter_providers (nd_topology w) factory (map pc_name (en_base_providers en)) ps hm_empty hm_empty [] = (dps, dis, skipped)"
      "filter_routes (map rt_model (en_base_routes en)) rs hm_empty skipped = (drs, skipped')"
      "nd_topology w' = merged_topology en (nd_topology w) dps dis drs lr"
  using assms
  by (auto simp: install_topology_def Let_def split: prod.splits if_splits)

lemma filtered_keyed:
  assumes "filter_providers prev factory base ps hm_empty hm_empty [] = (dps, dis, skipped)"
  shows "keyed pc_name dps" "hm_wf dis" "hm_get dis n = None \<longleftrightarrow> hm_get dps n = None"
    "n \<in> set base \<Longrightarrow> hm_get dps n = None"
proof -
  note get = filter_providers_get [OF assms]
  have wf: "hm_wf dps \<and> hm_wf dis" by (rule filter_providers_wf [OF assms]) (auto simp: hm_simps)
  then show "hm_wf dis" by simp
  show "keyed pc_name dps"
    using wf get by (auto simp: keyed_def hm_simps dest: elected_Some)
  show "hm_get dis n = None \<longleftrightarrow> hm_get dps n = None"
    using get [of n]
    by (cases "elected prev factory base ps n") (auto simp: hm_simps dest: elected_Some)
  show "n \<in> set base \<Longrightarrow> hm_get dps n = None"
    using get [of n] by (simp add: hm_simps elected_def)
qed

lemma filtered_routes_keyed:
  assumes "filter_routes base rs hm_empty skipped = (drs, skipped')"
  shows "keyed rt_model drs" "m \<in> set base \<Longrightarrow> hm_get drs m = None"
proof -
  note get = filter_routes_get [OF assms]
  have "hm_wf drs" by (rule filter_routes_wf [OF assms]) (simp add: hm_simps)
  then show "keyed rt_model drs"
    using get by (auto simp: keyed_def hm_simps find_Some_iff split: if_splits)
  show "m \<in> set base \<Longrightarrow> hm_get drs m = None"
    using get [of m] by (simp add: hm_simps)
qed

lemma base_topology_merged:
  "base_topology cfg registry lr =
     merged_topology (fst (engine_new env hmac cfg registry pr ic now wall)) prev hm_empty hm_empty hm_empty lr"
  by (simp add: base_topology_def merged_topology_def engine_new_def Let_def hm_empty_def split: prod.splits)

lemma keyed_empty [simp]: "keyed f hm_empty"
  by (simp add: keyed_def hm_simps)

lemma layered_start:
  assumes "engine_new env hmac cfg registry pr ic now wall = (en, w)"
  shows "layered en (nd_topology w)"
proof -
  obtain st lr where l: "limiter_new (cf_providers cfg) now = (st, lr)" by fastforce
  have "nd_topology w = base_topology cfg registry lr"
    using assms by (auto simp: engine_new_def l)
  also have "\<dots> = merged_topology en (nd_topology w) hm_empty hm_empty hm_empty lr"
    using base_topology_merged [of cfg registry lr env hmac pr ic now wall "nd_topology w"] by (simp add: assms)
  finally have t: "nd_topology w = merged_topology en (nd_topology w) hm_empty hm_empty hm_empty lr" .
  then have "tp_dynamic_providers (nd_topology w) = hm_empty" "tp_dynamic_instances (nd_topology w) = hm_empty"
    "tp_dynamic_routes (nd_topology w) = hm_empty"
    by (metis merged_fields(1), metis merged_fields(2), metis merged_fields(3))
  with t show ?thesis unfolding layered_def layered_names_def by (simp add: hm_simps) metis
qed

lemma layered_pull:
  assumes "install_topology en factory ps rs w = (w', diff)" "layered en (nd_topology w)"
  shows "layered en (nd_topology w')"
  using assms(1)
proof (cases rule: install_cases)
  case noop
  with assms(2) show ?thesis by simp
next
  case (swap dps dis skipped drs skipped' lr)
  note p = filtered_keyed [OF swap(2)] and r = filtered_routes_keyed [OF swap(3)]
  have "nd_topology w' = merged_topology en (nd_topology w') dps dis drs lr"
    unfolding swap(4) by (rule merged_prev)
  with p r show ?thesis unfolding layered_def layered_names_def by (simp add: swap(4)) metis
qed

lemma layered_lookup:
  assumes "layered en t"
  shows "registry_get (tp_registry t) n =
      (case hm_get (tp_dynamic_instances t) n of Some i \<Rightarrow> Some i | None \<Rightarrow> registry_get (en_base_registry en) n)"
    and "hm_get (tp_providers t) n =
      (case hm_get (tp_dynamic_providers t) n of Some p \<Rightarrow> Some p
       | None \<Rightarrow> hm_get (hm_collect (map (\<lambda>p. (pc_name p, p)) (en_base_providers en))) n)"
    and "m \<in> base_models en \<Longrightarrow>
      resolve (tp_router t) m = map_option rt_targets (List.find (\<lambda>r. rt_model r = m) (rev (en_base_routes en)))"
proof -
  from assms obtain lr where t: "t = merged_topology en t (tp_dynamic_providers t) (tp_dynamic_instances t) (tp_dynamic_routes t) lr"
    by (auto simp: layered_def)
  have fields: "tp_registry t = fold (\<lambda>(name, i). registry_register name i) (tp_dynamic_instances t) (en_base_registry en)"
    "tp_providers t = hm_collect (map (\<lambda>p. (pc_name p, p)) (en_base_providers en @ map snd (tp_dynamic_providers t)))"
    "tp_router t = router_new (en_base_routes en @ map snd (tp_dynamic_routes t)) (en_base_providers en @ map snd (tp_dynamic_providers t))"
    by (subst t, simp add: merged_topology_def Let_def)+
  note layeredD(3) [OF assms]
  then have "map_of (rev (tp_dynamic_instances t)) n = hm_get (tp_dynamic_instances t) n"
    by (simp add: map_of_rev_wf hm_get_def)
  then show "registry_get (tp_registry t) n =
      (case hm_get (tp_dynamic_instances t) n of Some i \<Rightarrow> Some i | None \<Rightarrow> registry_get (en_base_registry en) n)"
    unfolding fields registry_get_def registry_register_def hm.get_fold_ins by simp
  show "hm_get (tp_providers t) n =
      (case hm_get (tp_dynamic_providers t) n of Some p \<Rightarrow> Some p
       | None \<Rightarrow> hm_get (hm_collect (map (\<lambda>p. (pc_name p, p)) (en_base_providers en))) n)"
    unfolding fields by (rule collect_merged [OF layeredD(1) [OF assms]])
  show "resolve (tp_router t) m = map_option rt_targets (List.find (\<lambda>r. rt_model r = m) (rev (en_base_routes en)))"
    if m: "m \<in> base_models en"
  proof -
    have "rt_model r \<noteq> m" if "r \<in> set (rev (map snd (tp_dynamic_routes t)))" for r
    proof
      assume "rt_model r = m"
      from that obtain k where "(k, r) \<in> set (tp_dynamic_routes t)" by auto
      then have "hm_get (tp_dynamic_routes t) k = Some r" "rt_model r = k"
        using layeredD(2) [OF assms] by (auto simp: keyed_def dest: hm_in_get)
      with m \<open>rt_model r = m\<close> layeredD(6) [OF assms m] show False by simp
    qed
    then have "List.find (\<lambda>r. rt_model r = m) (rev (en_base_routes en @ map snd (tp_dynamic_routes t))) =
        List.find (\<lambda>r. rt_model r = m) (rev (en_base_routes en))"
      unfolding rev_append by (intro find_append_absent) blast
    moreover obtain r where "List.find (\<lambda>r. rt_model r = m) (rev (en_base_routes en)) = Some r"
      using m by (cases "List.find (\<lambda>r. rt_model r = m) (rev (en_base_routes en))") (auto simp: find_None_iff)
    ultimately show ?thesis unfolding fields resolve_def table_last by simp
  qed
qed

lemma pulled_from_layered: "pulled_from of_kind en t \<Longrightarrow> layered en t"
  by (induction rule: pulled_from.induct) (auto intro: layered_start layered_pull)

text \<open>Every pulled provider has an instance of its own kind, carried over or built.\<close>

definition kinds_right :: "(string \<Rightarrow> 'p \<Rightarrow> bool) \<Rightarrow> 'p topology \<Rightarrow> bool" where
  "kinds_right of_kind t \<longleftrightarrow>
     (\<forall>n p i. hm_get (tp_dynamic_providers t) n = Some p \<longrightarrow> hm_get (tp_dynamic_instances t) n = Some i \<longrightarrow>
        of_kind (pc_kind p) i)"

lemma pulled_instance_of_kind:
  assumes "kinds_right of_kind prev" "\<forall>kind i. factory kind = Some i \<longrightarrow> of_kind kind i"
    and "pulled_instance prev factory p = Some i"
  shows "of_kind (pc_kind p) i"
proof (cases "\<exists>old. hm_get (tp_dynamic_providers prev) (pc_name p) = Some old \<and> pc_kind old = pc_kind p \<and>
    hm_get (tp_dynamic_instances prev) (pc_name p) = Some i")
  case True
  with assms(1) show ?thesis by (metis kinds_right_def)
next
  case False
  with assms(3) have "factory (pc_kind p) = Some i"
    by (cases "hm_get (tp_dynamic_providers prev) (pc_name p)"; cases "hm_get (tp_dynamic_instances prev) (pc_name p)")
      (auto simp: pulled_instance_def split: if_splits)
  with assms(2) show ?thesis by blast
qed

lemma kinds_right_pull:
  assumes "install_topology en factory ps rs w = (w', diff)" "kinds_right of_kind (nd_topology w)"
    and "\<forall>kind i. factory kind = Some i \<longrightarrow> of_kind kind i"
  shows "kinds_right of_kind (nd_topology w')"
  using assms(1)
proof (cases rule: install_cases)
  case noop
  with assms(2) show ?thesis by simp
next
  case (swap dps dis skipped drs skipped' lr)
  have "of_kind (pc_kind p) i" if "hm_get dps n = Some p" "hm_get dis n = Some i" for n p i
  proof -
    have e: "elected (nd_topology w) factory (map pc_name (en_base_providers en)) ps n = Some p"
      and i: "pulled_instance (nd_topology w) factory p = Some i"
      using filter_providers_get [OF swap(2), of n] that
      by (auto simp: hm_simps dest: sym [of _ "elected _ _ _ _ _"])
    from i show ?thesis by (rule pulled_instance_of_kind [OF assms(2,3)])
  qed
  then show ?thesis by (simp add: kinds_right_def swap(4))
qed

lemma pulled_from_kinds: "pulled_from of_kind en t \<Longrightarrow> kinds_right of_kind t"
proof (induction rule: pulled_from.induct)
  case (start env hmac cfg registry pr ic now wall en w)
  obtain st lr where "limiter_new (cf_providers cfg) now = (st, lr)" by fastforce
  with start have "tp_dynamic_providers (nd_topology w) = hm_empty"
    by (auto simp: engine_new_def base_topology_def Let_def)
  then show ?case by (simp add: kinds_right_def hm_simps)
qed (rule kinds_right_pull)

text \<open>
  C32: a pulled topology never shadows the file base. Whatever is pulled, however often and in whatever
  state of the node, a provider name of the config file keeps its instance and its configuration, and a
  model with a route in the config file keeps resolving to exactly that route's targets. Pulled entries
  live under other names only, and each is served by an instance of the kind it declares: one built for
  that kind by this pull or an earlier one, never one left from a time when the name had another kind.
\<close>

theorem base_never_shadowed:
  assumes "pulled_from of_kind en t"
  shows "(\<forall>n \<in> base_names en.
      registry_get (tp_registry t) n = registry_get (en_base_registry en) n \<and>
      hm_get (tp_providers t) n = hm_get (hm_collect (map (\<lambda>p. (pc_name p, p)) (en_base_providers en))) n \<and>
      hm_get (tp_dynamic_providers t) n = None) \<and>
    (\<forall>m \<in> base_models en. resolve (tp_router t) m =
      map_option rt_targets (List.find (\<lambda>r. rt_model r = m) (rev (en_base_routes en)))) \<and>
    (\<forall>n p. hm_get (tp_dynamic_providers t) n = Some p \<longrightarrow>
      pc_name p = n \<and> hm_get (tp_providers t) n = Some p \<and>
      (\<exists>i. registry_get (tp_registry t) n = Some i \<and> of_kind (pc_kind p) i))"
proof -
  note l = pulled_from_layered [OF assms] and kinds = pulled_from_kinds [OF assms]
  have dynamic: "pc_name p = n \<and> hm_get (tp_providers t) n = Some p \<and>
      (\<exists>i. registry_get (tp_registry t) n = Some i \<and> of_kind (pc_kind p) i)"
    if dyn: "hm_get (tp_dynamic_providers t) n = Some p" for n p
  proof -
    have "pc_name p = n" "hm_get (tp_dynamic_instances t) n \<noteq> None"
      using layeredD(1,4) [OF l] dyn by (simp_all add: keyed_def)
    then show ?thesis using layered_lookup(1,2) [OF l, of n] dyn kinds by (auto simp: kinds_right_def)
  qed
  have base: "registry_get (tp_registry t) n = registry_get (en_base_registry en) n \<and>
      hm_get (tp_providers t) n = hm_get (hm_collect (map (\<lambda>p. (pc_name p, p)) (en_base_providers en))) n \<and>
      hm_get (tp_dynamic_providers t) n = None"
    if "n \<in> base_names en" for n
  proof -
    have "hm_get (tp_dynamic_instances t) n = None" "hm_get (tp_dynamic_providers t) n = None"
      using layeredD(4,5) [OF l, of n] that by simp_all
    then show ?thesis using layered_lookup(1,2) [OF l, of n] by simp
  qed
  show ?thesis
    by (rule conjI, rule ballI, erule base, rule conjI, rule ballI, erule layered_lookup(3) [OF l],
        intro allI impI, erule dynamic)
qed

definition ex_base :: config where
  "ex_base = ex_config\<lparr>cf_providers := ex_providers,
     cf_routes := [\<lparr>rt_model = ''m'', rt_targets = [\<lparr>tg_provider = ''openrouter'', tg_model = None\<rparr>]\<rparr>]\<rparr>"

definition ex_started :: "nat engine \<times> nat node" where
  "ex_started = engine_new (\<lambda>_. None) (\<lambda>_ s. s) ex_base [(''openrouter'', 0), (''direct'', 1)] [] None 0 0"

text \<open>A pull that tries to take the route of the file over, and adds a provider.\<close>

definition ex_pulled :: provider_config where
  "ex_pulled = pc_kind_update (\<lambda>_. ''other'') (pc_name_update (\<lambda>_. ''extra'') (hd ex_providers))"

definition ex_factory :: "string \<Rightarrow> nat option" where
  "ex_factory kind = Some (length kind)"

lemma ex_pulled_installed:
  assumes "install_topology (fst ex_started) ex_factory [ex_pulled] rs (snd ex_started) = (w', diff)"
  shows "hm_get (tp_dynamic_providers (nd_topology w')) ''extra'' = Some ex_pulled"
proof -
  obtain st lr where "limiter_new (cf_providers ex_base) 0 = (st, lr)" by fastforce
  then have fresh: "tp_dynamic_providers (nd_topology (snd ex_started)) = hm_empty"
    "map pc_name (en_base_providers (fst ex_started)) = map pc_name ex_providers"
    by (simp_all add: ex_started_def engine_new_def base_topology_def ex_base_def Let_def)
  have new: "pc_name ex_pulled = ''extra''" "''extra'' \<notin> set (map pc_name ex_providers)"
    by (simp_all add: ex_pulled_def ex_providers_def)
  have "pulled_instance (nd_topology (snd ex_started)) ex_factory ex_pulled = Some (length (pc_kind ex_pulled))"
    by (simp add: pulled_instance_def fresh ex_factory_def hm_simps)
  with new have filtered: "filter_providers (nd_topology (snd ex_started)) ex_factory
      (map pc_name (en_base_providers (fst ex_started))) [ex_pulled] hm_empty hm_empty [] =
    (hm_insert ''extra'' ex_pulled hm_empty, hm_insert ''extra'' (length (pc_kind ex_pulled)) hm_empty, [])"
    by (simp add: fresh hm_contains_def hm_simps)
  from assms show ?thesis
  proof (cases rule: install_cases)
    case noop
    from noop(1) assms filtered show ?thesis
      by (auto simp: install_topology_def Let_def is_noop_def count_added_def fresh hm_simps hm_insert_def hm_empty_def
          hm_get_def split: prod.splits if_splits)
  next
    case (swap dps dis skipped drs skipped' lr)
    have "dps = hm_insert ''extra'' ex_pulled hm_empty" using swap(2) unfolding filtered by simp
    then show ?thesis by (simp add: swap(4) hm_simps)
  qed
qed

theorem base_never_shadowed_witness:
  "let w = fst (install_topology (fst ex_started) ex_factory [ex_pulled] [\<lparr>rt_model = ''m'', rt_targets = []\<rparr>] (snd ex_started))
   in resolve (tp_router (nd_topology w)) ''m'' = Some [\<lparr>tg_provider = ''openrouter'', tg_model = None\<rparr>] \<and>
      registry_get (tp_registry (nd_topology w)) ''extra'' = Some (length ''other'')"
proof -
  let ?pull = "install_topology (fst ex_started) ex_factory [ex_pulled] [\<lparr>rt_model = ''m'', rt_targets = []\<rparr>] (snd ex_started)"
  have built: "\<forall>kind i. ex_factory kind = Some i \<longrightarrow> i = length kind" by (simp add: ex_factory_def)
  have "pulled_from (\<lambda>kind i. i = length kind) (fst ex_started) (nd_topology (snd ex_started))"
    by (rule pulled_from.start [of "\<lambda>_. None" "\<lambda>_ s. s" ex_base "[(''openrouter'', 0), (''direct'', 1)]" "[]" None 0 0])
      (simp add: ex_started_def)
  note safe = base_never_shadowed [OF pulled_from.pull [OF this prod.collapse [symmetric, of ?pull] built]]
  have routes: "en_base_routes (fst ex_started) = cf_routes ex_base"
    by (simp add: ex_started_def engine_new_def split: prod.splits)
  have "''m'' \<in> base_models (fst ex_started)" by (simp add: routes ex_base_def)
  with safe [THEN conjunct2, THEN conjunct1]
  have "resolve (tp_router (nd_topology (fst ?pull))) ''m'' = Some [\<lparr>tg_provider = ''openrouter'', tg_model = None\<rparr>]"
    by (simp add: routes) (simp add: ex_base_def)
  moreover have "registry_get (tp_registry (nd_topology (fst ?pull))) ''extra'' = Some (length (pc_kind ex_pulled))"
    using safe [THEN conjunct2, THEN conjunct2] ex_pulled_installed [OF prod.collapse [symmetric, of ?pull]] by blast
  ultimately show ?thesis by (simp add: Let_def) (simp add: ex_pulled_def)
qed

section \<open>Pulling the same twice\<close>

lemma pulled_instance_kind:
  "pc_name p = pc_name q \<Longrightarrow> pc_kind p = pc_kind q \<Longrightarrow> pulled_instance prev factory p = pulled_instance prev factory q"
  by (simp add: pulled_instance_def cong: option.case_cong if_cong)

lemma pulled_instance_factory: "pulled_instance prev factory p = None \<Longrightarrow> factory (pc_kind p) = None"
  by (cases "factory (pc_kind p)") (auto simp: pulled_instance_def Let_def elim: or_else.elims split: option.splits if_splits)

text \<open>An entry that is the first of its name finds the same instance, or none again, in the
  topology its own pull produced.\<close>

lemma pulled_again:
  assumes "hm_get (tp_dynamic_providers next) = (\<lambda>n. case hm_get dps n of Some p \<Rightarrow> Some p | None \<Rightarrow> elected prev factory base (p # ps) n)"
    and "hm_get (tp_dynamic_instances next) = (\<lambda>n. case hm_get dps n of Some _ \<Rightarrow> hm_get dis n
      | None \<Rightarrow> (case elected prev factory base (p # ps) n of Some p \<Rightarrow> pulled_instance prev factory p | None \<Rightarrow> hm_get dis n))"
    and "pc_name p \<notin> set base" "hm_get dps (pc_name p) = None"
  shows "pulled_instance next factory p = pulled_instance prev factory p"
proof (cases "pulled_instance prev factory p")
  case (Some i)
  then have e: "elected prev factory base (p # ps) (pc_name p) = Some p" using assms(3) by (simp add: elected_def)
  show ?thesis by (simp add: pulled_instance_def [of "next"] assms(1,2,4) e Some)
next
  case None
  have f: "factory (pc_kind p) = None" by (rule pulled_instance_factory [OF None])
  show ?thesis
  proof (cases "elected prev factory base (p # ps) (pc_name p)")
    case no: None
    then show ?thesis unfolding None by (simp add: pulled_instance_def assms no f)
  next
    case (Some q)
    from elected_Some [OF this] have q: "pc_name q = pc_name p" "pulled_instance prev factory q \<noteq> None" by auto
    with None have "pc_kind q \<noteq> pc_kind p" using pulled_instance_kind by metis
    then show ?thesis unfolding None by (simp add: pulled_instance_def [of "next"] assms Some f)
  qed
qed

lemma filter_providers_again:
  assumes "filter_providers prev factory base ps dps dis skipped = (dps', dis', skipped')"
    and "tp_dynamic_providers next = dps'" "tp_dynamic_instances next = dis'"
  shows "filter_providers next factory base ps dps dis skipped = (dps', dis', skipped')"
  using assms(1)
proof (induction ps arbitrary: dps dis skipped)
  case (Cons p ps)
  note get = filter_providers_get [OF Cons.prems]
  have same: "pulled_instance next factory p = pulled_instance prev factory p"
    if "pc_name p \<notin> set base" "hm_get dps (pc_name p) = None"
    by (rule pulled_again [OF _ _ that]) (use get assms(2,3) in \<open>auto simp: fun_eq_iff\<close>)
  show ?case
    using Cons same by (auto simp: hm_contains_def split: if_splits option.splits)
qed simp

lemma count_refl:
  assumes "hm_wf m" "\<And>k v. hm_get m k = Some v \<Longrightarrow> eq v v"
  shows "count_added m m = 0" "count_updated eq m m = 0" "count_removed m m = 0"
proof -
  have get: "hm_get m k = Some v" if "(k, v) \<in> set m" for k v using hm_in_get [OF assms(1) that] .
  show "count_added m m = 0" by (auto simp: count_added_def filter_empty_conv get)
  show "count_updated eq m m = 0"
    using assms(2) get by (fastforce simp: count_updated_def filter_empty_conv)
  show "count_removed m m = 0"
    using get by (auto simp: count_removed_def filter_empty_conv hm_contains_def hm_keys_def)
qed

text \<open>Map equality is reflexive on maps with distinct keys, which every configured one has.\<close>

lemma hm_eq_refl: "hm_wf m \<Longrightarrow> hm_eq m m"
  by (auto simp: hm_eq_def list_all_iff dest: hm_in_get)

lemma provider_eq_refl: "hm_wf (pc_model_limits p) \<Longrightarrow> provider_eq p p"
  by (simp add: provider_eq_def hm_eq_refl)

text \<open>
  Installing is idempotent. Pulling the same providers and routes again, from any node whose topology is
  the one the first pull left, changes nothing at all: no swap, no instance rebuilt, no bucket reset, no
  cool-down cleared; it reports no change and skips the same entries for the same reasons.
\<close>

theorem install_idempotent:
  assumes "install_topology en factory ps rs w = (w1, d1)" "nd_topology w2 = nd_topology w1"
    and "\<forall>p \<in> set ps. hm_wf (pc_model_limits p)"
  shows "\<exists>d2. install_topology en factory ps rs w2 = (w2, d2) \<and> is_noop d2 \<and> df_skipped d2 = df_skipped d1"
  using assms(1)
proof (cases rule: install_cases)
  case noop
  then show ?thesis
    using assms(1,2) by (auto simp: install_topology_def Let_def split: prod.splits if_splits)
next
  case (swap dps dis skipped drs skipped' lr)
  let ?t = "nd_topology w2"
  have t: "tp_dynamic_providers ?t = dps" "tp_dynamic_instances ?t = dis" "tp_dynamic_routes ?t = drs"
    by (simp_all add: assms(2) swap(4))
  note again = filter_providers_again [OF swap(2) t(1,2)]
  have wf: "hm_wf dps" "hm_wf drs"
    using filtered_keyed(1) [OF swap(2)] filtered_routes_keyed(1) [OF swap(3)] by (simp_all add: keyed_def)
  have "provider_eq p p" if "hm_get dps n = Some p" for n p
  proof (rule provider_eq_refl)
    have "elected (nd_topology w) factory (map pc_name (en_base_providers en)) ps n = Some p"
      using filter_providers_get [OF swap(2), of n] that by (simp add: hm_simps)
    then have "p \<in> set ps" by (auto simp: elected_def find_Some_iff split: if_splits)
    with assms(3) show "hm_wf (pc_model_limits p)" by simp
  qed
  note counts = count_refl [OF wf(1), of provider_eq, OF this] count_refl [OF wf(2), of "(=)"]
  have "df_skipped d1 = skipped'"
    using assms(1) swap(1-3) by (auto simp: install_topology_def Let_def split: prod.splits if_splits)
  then show ?thesis
    by (simp add: install_topology_def again swap(3) Let_def t counts is_noop_def)
qed

definition ex_pull :: "provider_config list" where
  "ex_pull = [(hd ex_providers)\<lparr>pc_name := ''pulled''\<rparr>]"

theorem install_idempotent_witness:
  "\<exists>d. install_topology (fst ex_started) (\<lambda>_. Some 7) ex_pull [] (fst (install_topology (fst ex_started)
       (\<lambda>_. Some 7) ex_pull [] (snd ex_started))) =
     (fst (install_topology (fst ex_started) (\<lambda>_. Some 7) ex_pull [] (snd ex_started)), d) \<and> is_noop d"
proof -
  have "\<forall>p \<in> set ex_pull. hm_wf (pc_model_limits p)"
    by (simp add: ex_pull_def ex_providers_def hm_wf_def hm_keys_def)
  from install_idempotent [OF prod.collapse [symmetric] refl this] show ?thesis by blast
qed

end
