(* ===== verification/Batches.thy ===== *)
theory Batches
  imports Modalities
begin

text \<open>
  Asynchronous jobs, the batch operations of \<open>engine.rs\<close>: a batch is one upstream job at one
  provider, found again from its opaque id alone, and bound to the key that created it when ids are
  signed. The base64 codec of the ids is the parameter pair \<open>enc\<close>, \<open>dec\<close>, as in the theory of the ids.
\<close>

section \<open>Ownership and routing\<close>

definition check_batch_owner :: "string option \<Rightarrow> string \<Rightarrow> string \<Rightarrow> engine_error + unit" where
  "check_batch_owner owner key batch_id =
     (case owner of
        Some w \<Rightarrow> if w \<noteq> key then Inl (BatchNotFound batch_id) else Inr ()
      | None \<Rightarrow> Inr ())"

definition batch_target ::
  "(string \<Rightarrow> string option) \<Rightarrow> 'p engine \<Rightarrow> 'p topology \<Rightarrow> string \<Rightarrow> engine_error + 'p \<times> decoded_batch" where
  "batch_target dec en topo batch_id =
     (case decode_batch dec batch_id (en_batch_signer en) of
        Inl _ \<Rightarrow> Inl (BatchNotFound batch_id)
      | Inr d \<Rightarrow>
          (case registry_get (tp_registry topo) (db_provider d) of
             None \<Rightarrow> Inl (BatchNotFound batch_id)
           | Some p \<Rightarrow> Inr (p, d)))"

text \<open>The loop of \<open>resolve_batch\<close> over the items, with the provider chosen so far.\<close>

fun resolve_items ::
  "router \<Rightarrow> string option \<Rightarrow> batch_item list \<Rightarrow> engine_error + string option \<times> batch_item list" where
  "resolve_items r chosen [] = Inr (chosen, [])"
| "resolve_items r chosen (item # items) =
     (let model = cq_model (bi_request item) in
      case resolve r model of
        None \<Rightarrow> Inl (NoRoute model)
      | Some [] \<Rightarrow> Inl (NoTargets model)
      | Some (primary # _) \<Rightarrow>
          if is_some_and (\<lambda>p. p \<noteq> tg_provider primary) chosen then Inl MixedProviderBatch
          else
            let chosen = Some (unwrap_or (tg_provider primary) chosen);
                item = (case tg_model primary of
                    Some upstream \<Rightarrow> item\<lparr>bi_request := (bi_request item)\<lparr>cq_model := upstream\<rparr>\<rparr>
                  | None \<Rightarrow> item)
            in res_bind (resolve_items r chosen items) (\<lambda>(c, rest). Inr (c, item # rest)))"

text \<open>Called with a non-empty batch only: indexing the first item and the final \<open>expect\<close> do not
  panic then.\<close>

definition resolve_batch ::
  "'p topology \<Rightarrow> batch_spec \<Rightarrow> engine_error + string \<times> string \<times> batch_spec" where
  "resolve_batch topo spec =
     (let routing_model = cq_model (bi_request (hd (bs_items spec)))
      in res_bind (resolve_items (tp_router topo) None (bs_items spec)) (\<lambda>(chosen, items).
           Inr (the chosen, routing_model, spec\<lparr>bs_items := items\<rparr>)))"

section \<open>Operations\<close>

definition wrap_handle ::
  "(string \<Rightarrow> string) \<Rightarrow> 'p engine \<Rightarrow> string \<Rightarrow> string \<Rightarrow> batch_handle \<Rightarrow> batch_handle" where
  "wrap_handle enc en provider key h =
     h\<lparr>bh_id := encode_batch enc provider (bh_id h) key (en_batch_signer en)\<rparr>"

definition batch_submit ::
  "(string \<Rightarrow> string) \<Rightarrow> 'p engine \<Rightarrow> string \<Rightarrow> string \<Rightarrow> string \<Rightarrow>
     ('p node, batch_handle) awaited \<Rightarrow> 'p node \<Rightarrow> 'p node \<times> (engine_error + batch_handle)" where
  "batch_submit enc en provider_name key request_id call w =
     (case call w of
        (w, Inr h) \<Rightarrow>
          (emit (RequestCompleted request_id None)
             (emit (RequestRouted request_id provider_name (unwrap_or [] (bh_endpoint h))) w),
           Inr (wrap_handle enc en provider_name key h))
      | (w, Inl e) \<Rightarrow>
          (emit (RequestFailed request_id (model_error_text e)) w, Inl (AllTargetsFailed e)))"

definition batch_create ::
  "(string \<Rightarrow> string option) \<Rightarrow> (string \<Rightarrow> string) \<Rightarrow> 'p engine \<Rightarrow> ('p \<Rightarrow> 'p node provider_api) \<Rightarrow> batch_spec codec \<Rightarrow>
     batch_spec \<Rightarrow> string \<Rightarrow> string \<Rightarrow> 'p node \<Rightarrow> 'p node \<times> (engine_error + batch_handle)" where
  "batch_create env enc en api cd spec key request_id w =
     (if bs_items spec = [] then (w, Inl EmptyBatch)
      else
        let topo = nd_topology w
        in case resolve_batch topo spec of
             Inl e \<Rightarrow> (w, Inl e)
           | Inr (provider_name, routing_model, spec) \<Rightarrow>
               (case registry_get (tp_registry topo) provider_name of
                  None \<Rightarrow> (w, Inl (BatchNotFound provider_name))
                | Some p \<Rightarrow>
                    batch_submit enc en provider_name key request_id
                      (pa_batch_create (api p) spec (build_cx env topo provider_name request_id))
                      (emit (RequestStarted request_id key routing_model (payload en cd spec)) w)))"

text \<open>What retrieving, cancelling and reading results share: decode, check the owner, call.\<close>

definition batch_access ::
  "(string \<Rightarrow> string option) \<Rightarrow> (string \<Rightarrow> string option) \<Rightarrow> 'p engine \<Rightarrow>
     ('p \<Rightarrow> string \<Rightarrow> provider_cx \<Rightarrow> ('p node, 'v) awaited) \<Rightarrow> string \<Rightarrow> string \<Rightarrow> string \<Rightarrow>
     'p node \<Rightarrow> 'p node \<times> (engine_error + 'v \<times> string)" where
  "batch_access env dec en call batch_id key request_id w =
     (let topo = nd_topology w
      in case batch_target dec en topo batch_id of
        Inl e \<Rightarrow> (w, Inl e)
      | Inr (p, d) \<Rightarrow>
          (case check_batch_owner (db_owner d) key batch_id of
             Inl e \<Rightarrow> (w, Inl e)
           | Inr _ \<Rightarrow>
               (case call p (db_upstream d) (build_cx env topo (db_provider d) request_id) w of
                  (w, Inl e) \<Rightarrow> (w, Inl (AllTargetsFailed e))
                | (w, Inr v) \<Rightarrow> (w, Inr (v, db_provider d)))))"

definition batch_retrieve where
  "batch_retrieve env enc dec en api batch_id key request_id w =
     (case batch_access env dec en (\<lambda>p. pa_batch_retrieve (api p)) batch_id key request_id w of
        (w, Inl e) \<Rightarrow> (w, Inl e)
      | (w, Inr (h, provider)) \<Rightarrow> (w, Inr (wrap_handle enc en provider key h)))"

definition batch_cancel where
  "batch_cancel env enc dec en api batch_id key request_id w =
     (case batch_access env dec en (\<lambda>p. pa_batch_cancel (api p)) batch_id key request_id w of
        (w, Inl e) \<Rightarrow> (w, Inl e)
      | (w, Inr (h, provider)) \<Rightarrow> (w, Inr (wrap_handle enc en provider key h)))"

text \<open>A result line on its way to the consumer.\<close>

definition instrument_line ::
  "'p engine \<Rightarrow> string \<Rightarrow> string \<Rightarrow> batch_result \<Rightarrow> 'p node \<Rightarrow> 'p node \<times> batch_result" where
  "instrument_line en batch_id key result w =
     (case br_outcome result of
        Succeeded resp \<Rightarrow>
          (let priced = price (en_pricing en) (rp_model resp) (rp_usage resp)
           in (emit (Usage (batch_id @ '':'' @ br_custom_id result) key (rp_model resp) priced) w,
               result\<lparr>br_outcome := Succeeded (resp\<lparr>rp_usage := priced\<rparr>)\<rparr>))
      | _ \<Rightarrow> (w, result))"

definition instrument_batch ::
  "'p engine \<Rightarrow> string \<Rightarrow> string \<Rightarrow> ('p node, batch_result) polls \<Rightarrow> ('p node, batch_result) polls" where
  "instrument_batch en batch_id key inner =
     map (\<lambda>poll w. case poll w of
        (w, Inr result) \<Rightarrow> (case instrument_line en batch_id key result w of (w, line) \<Rightarrow> (w, Inr line))
      | (w, Inl e) \<Rightarrow> (w, Inl e)) inner"

definition batch_results where
  "batch_results env dec en api batch_id key request_id w =
     (case batch_access env dec en (\<lambda>p. pa_batch_results (api p)) batch_id key request_id w of
        (w, Inl e) \<Rightarrow> (w, Inl e)
      | (w, Inr (stream, _)) \<Rightarrow> (w, Inr (instrument_batch en batch_id key stream)))"

section \<open>One provider per batch\<close>

text \<open>How an item is sent to its provider: first target of its model's route, under that target's
  upstream model.\<close>

definition routed_item :: "router \<Rightarrow> string \<Rightarrow> batch_item \<Rightarrow> batch_item \<Rightarrow> bool" where
  "routed_item r provider i i' \<longleftrightarrow>
     (\<exists>t ts. resolve r (cq_model (bi_request i)) = Some (t # ts) \<and> tg_provider t = provider \<and>
        i' = i\<lparr>bi_request := (bi_request i)\<lparr>cq_model := unwrap_or (cq_model (bi_request i)) (tg_model t)\<rparr>\<rparr>)"

lemma resolve_items_chosen:
  "resolve_items r (Some p) items = Inr (c, items') \<longleftrightarrow> c = Some p \<and> list_all2 (routed_item r p) items items'"
proof (induction items arbitrary: items')
  case (Cons i items)
  show ?case
  proof (cases "resolve r (cq_model (bi_request i))")
    case None
    then show ?thesis by (simp add: list_all2_Cons1 routed_item_def)
  next
    case (Some targets)
    show ?thesis
    proof (cases targets)
      case Nil
      with Some show ?thesis by (simp add: list_all2_Cons1 routed_item_def)
    next
      case (Cons t ts)
      with Some Cons.IH show ?thesis
        by (cases "tg_model t") (auto simp: Let_def list_all2_Cons1 routed_item_def res_simps)
    qed
  qed
qed auto

lemma resolve_items_first:
  "items \<noteq> [] \<Longrightarrow> resolve_items r None items = Inr (c, items') \<longleftrightarrow>
     (\<exists>p. c = Some p \<and> list_all2 (routed_item r p) items items')"
proof (cases items)
  case (Cons i rest)
  show ?thesis
  proof (cases "resolve r (cq_model (bi_request i))")
    case None
    then show ?thesis by (simp add: Cons list_all2_Cons1 routed_item_def)
  next
    case (Some targets)
    show ?thesis
    proof (cases targets)
      case Nil
      with Some show ?thesis by (simp add: Cons list_all2_Cons1 routed_item_def)
    next
      case (Cons t ts)
      with Some \<open>items = i # rest\<close> show ?thesis
        by (cases "tg_model t") (auto simp: Let_def list_all2_Cons1 routed_item_def res_simps resolve_items_chosen)
    qed
  qed
qed auto

text \<open>
  A batch goes to one provider or nowhere. A non-empty batch resolves to a provider exactly when
  the first target of every item's route is at that provider; the items then keep their order, their
  correlation ids and everything else, and only their model becomes the target's upstream model.
\<close>

theorem batch_one_provider:
  assumes "bs_items spec \<noteq> []"
  shows "resolve_batch topo spec = Inr (provider, routing_model, spec') \<longleftrightarrow>
    routing_model = cq_model (bi_request (hd (bs_items spec))) \<and>
    list_all2 (routed_item (tp_router topo) provider) (bs_items spec) (bs_items spec')"
proof -
  have "(\<exists>c items'. resolve_items (tp_router topo) None (bs_items spec) = Inr (c, items') \<and>
      the c = provider \<and> spec\<lparr>bs_items := items'\<rparr> = spec') \<longleftrightarrow>
    list_all2 (routed_item (tp_router topo) provider) (bs_items spec) (bs_items spec')"
    (is "?L \<longleftrightarrow> ?R")
  proof
    assume ?R
    then have "resolve_items (tp_router topo) None (bs_items spec) = Inr (Some provider, bs_items spec')"
      by (simp add: resolve_items_first [OF assms])
    moreover have "spec\<lparr>bs_items := bs_items spec'\<rparr> = spec'" by (cases spec, cases spec') simp
    ultimately show ?L by (metis option.sel)
  qed (auto simp: resolve_items_first [OF assms])
  then show ?thesis
    by (auto simp: resolve_batch_def Let_def res_simps)
qed

section \<open>Batches are bound to their owner\<close>

lemma batch_access_foreign:
  assumes "decode_batch dec batch_id (en_batch_signer en) = Inr d" "db_owner d = Some owner" "owner \<noteq> key"
  shows "batch_access env dec en call batch_id key rid w = (w, Inl (BatchNotFound batch_id))"
  using assms by (auto simp: batch_access_def batch_target_def check_batch_owner_def Let_def split: option.splits)

text \<open>An answer of the provider on its way back: its error wrapped, its value through \<open>f\<close>.\<close>

definition passed_on :: "('v \<Rightarrow> 'u) \<Rightarrow> 'p node \<times> (model_error + 'v) \<Rightarrow> 'p node \<times> (engine_error + 'u)" where
  "passed_on f r = (case r of (v, Inl e) \<Rightarrow> (v, Inl (AllTargetsFailed e)) | (v, Inr x) \<Rightarrow> (v, Inr (f x)))"

lemma batch_access_own:
  assumes "decode_batch dec batch_id (en_batch_signer en) = Inr d" "db_owner d = Some key"
    and "registry_get (tp_registry (nd_topology w)) (db_provider d) = Some p"
  shows "batch_access env dec en call batch_id key rid w =
    passed_on (\<lambda>x. (x, db_provider d)) (call p (db_upstream d) (build_cx env (nd_topology w) (db_provider d) rid) w)"
  using assms by (simp add: batch_access_def batch_target_def check_batch_owner_def passed_on_def Let_def)

lemma batch_access_gone:
  assumes "decode_batch dec batch_id (en_batch_signer en) = Inr d"
    and "registry_get (tp_registry (nd_topology w)) (db_provider d) = None"
  shows "batch_access env dec en call batch_id key rid w = (w, Inl (BatchNotFound batch_id))"
  using assms by (simp add: batch_access_def batch_target_def Let_def)

lemma batch_create_Inr:
  assumes "batch_create env enc en api cd spec key rid w = (w1, Inr h)"
  obtains provider model spec' p w0 h0 where
    "resolve_batch (nd_topology w) spec = Inr (provider, model, spec')"
    "registry_get (tp_registry (nd_topology w)) provider = Some p"
    "pa_batch_create (api p) spec' (build_cx env (nd_topology w) provider rid)
       (emit (RequestStarted rid key model (Modalities.payload en cd spec')) w) = (w0, Inr h0)"
    "bh_id h = encode_batch enc provider (bh_id h0) key (en_batch_signer en)"
proof -
  from assms obtain provider model spec' p where p: "resolve_batch (nd_topology w) spec = Inr (provider, model, spec')"
      "registry_get (tp_registry (nd_topology w)) provider = Some p"
    and call: "batch_submit enc en provider key rid
      (pa_batch_create (api p) spec' (build_cx env (nd_topology w) provider rid))
      (emit (RequestStarted rid key model (Modalities.payload en cd spec')) w) = (w1, Inr h)"
    by (auto simp: batch_create_def Let_def split: if_splits sum.splits option.splits prod.splits)
  obtain w0 x where x: "pa_batch_create (api p) spec' (build_cx env (nd_topology w) provider rid)
      (emit (RequestStarted rid key model (Modalities.payload en cd spec')) w) = (w0, x)" by fastforce
  then obtain h0 where "x = Inr h0" "bh_id h = encode_batch enc provider (bh_id h0) key (en_batch_signer en)"
    using call by (cases x) (auto simp: batch_submit_def wrap_handle_def)
  with p x show ?thesis by (intro that) simp_all
qed

definition names_wrappable :: "'p topology \<Rightarrow> bool" where
  "names_wrappable topo \<longleftrightarrow>
     (\<forall>n p. registry_get (tp_registry topo) n = Some p \<longrightarrow> n \<noteq> [] \<and> sep \<notin> set n \<and> utf8_valid n)"

definition ids_utf8 :: "('p \<Rightarrow> 'p node provider_api) \<Rightarrow> bool" where
  "ids_utf8 api \<longleftrightarrow>
     (\<forall>p spec cx v v' h. pa_batch_create (api p) spec cx v = (v', Inr h) \<longrightarrow> utf8_valid (bh_id h))"

lemma names_wrappableD:
  assumes "names_wrappable topo" "registry_get (tp_registry topo) n = Some p"
  shows "n \<noteq> []" "sep \<notin> set n" "utf8_valid n"
  using assms by (auto simp: names_wrappable_def)

lemma ids_utf8D:
  "ids_utf8 api \<Longrightarrow> pa_batch_create (api p) spec cx v = (v', Inr h) \<Longrightarrow> utf8_valid (bh_id h)"
  by (auto simp: ids_utf8_def)

text \<open>
  C6: with a signing secret, a batch belongs to the key that created it. Creating it submitted it to the one
  provider its items resolve to, which named it with an upstream id of its own. Whatever happened to the node since,
  the id the creator was given lets no other key retrieve, cancel or read the batch: the answer is
  \<open>BatchNotFound\<close>, no provider is called and the node does not change. The creator's own three calls are, while
  a provider is registered under that name, exactly that provider's answers for that upstream id: an error wrapped,
  a status under the same kind of id again, the results instrumented. Once no provider has the name, everyone is
  told \<open>BatchNotFound\<close>.
\<close>

theorem batch_bound_to_owner:
  fixes w1 :: "'p node"
  assumes "\<And>bytes. dec (enc bytes) = Some bytes"
    and "en_batch_signer en = Some sg" "\<And>body. tag_len \<le> length (sg_mac sg body)"
    and "names_wrappable (nd_topology w)"
    and "ids_utf8 api"
    and "sep \<notin> set key" "utf8_valid key"
    and "batch_create env enc en api cd spec key rid w = (w1, Inr h)"
  shows "\<exists>provider model spec' p0 w0 h0.
    resolve_batch (nd_topology w) spec = Inr (provider, model, spec') \<and>
    registry_get (tp_registry (nd_topology w)) provider = Some p0 \<and>
    pa_batch_create (api p0) spec' (build_cx env (nd_topology w) provider rid)
      (emit (RequestStarted rid key model (Modalities.payload en cd spec')) w) = (w0, Inr h0) \<and>
    (\<forall>key' rid' v. key' \<noteq> key \<or> registry_get (tp_registry (nd_topology v)) provider = None \<longrightarrow>
       batch_retrieve env enc dec en api (bh_id h) key' rid' v = (v, Inl (BatchNotFound (bh_id h))) \<and>
       batch_cancel env enc dec en api (bh_id h) key' rid' v = (v, Inl (BatchNotFound (bh_id h))) \<and>
       batch_results env dec en api (bh_id h) key' rid' v = (v, Inl (BatchNotFound (bh_id h)))) \<and>
    (\<forall>p rid' v. registry_get (tp_registry (nd_topology v)) provider = Some p \<longrightarrow>
       (let cx = build_cx env (nd_topology v) provider rid' in
        batch_retrieve env enc dec en api (bh_id h) key rid' v =
          passed_on (wrap_handle enc en provider key) (pa_batch_retrieve (api p) (bh_id h0) cx v) \<and>
        batch_cancel env enc dec en api (bh_id h) key rid' v =
          passed_on (wrap_handle enc en provider key) (pa_batch_cancel (api p) (bh_id h0) cx v) \<and>
        batch_results env dec en api (bh_id h) key rid' v =
          passed_on (instrument_batch en (bh_id h) key) (pa_batch_results (api p) (bh_id h0) cx v)))"
proof -
  obtain provider model spec' p0 w0 h0 where made: "resolve_batch (nd_topology w) spec = Inr (provider, model, spec')"
      "registry_get (tp_registry (nd_topology w)) provider = Some p0"
      "pa_batch_create (api p0) spec' (build_cx env (nd_topology w) provider rid)
         (emit (RequestStarted rid key model (Modalities.payload en cd spec')) w) = (w0, Inr h0)"
    and hid: "bh_id h = encode_batch enc provider (bh_id h0) key (en_batch_signer en)"
    by (rule batch_create_Inr [OF assms(8)])
  let ?d = "\<lparr>db_provider = provider, db_upstream = bh_id h0, db_owner = Some key\<rparr>"
  have decoded: "decode_batch dec (bh_id h) (en_batch_signer en) = Inr ?d"
    unfolding hid assms(2)
    by (rule signed_decodes)
      (use assms(1,3) names_wrappableD [OF assms(4) made(2)] ids_utf8D [OF assms(5) made(3)] assms(6,7) in simp_all)
  have refused: "batch_access env dec en call (bh_id h) key' rid' v = (v, Inl (BatchNotFound (bh_id h)))"
    if "key' \<noteq> key \<or> registry_get (tp_registry (nd_topology v)) provider = None"
    for call :: "'p \<Rightarrow> string \<Rightarrow> provider_cx \<Rightarrow> ('p node, 'z) awaited" and key' rid' v
    using that batch_access_foreign [OF decoded, of key key'] batch_access_gone [OF decoded] by auto
  have owned: "batch_access env dec en call (bh_id h) key rid' v =
      passed_on (\<lambda>x. (x, provider)) (call p (bh_id h0) (build_cx env (nd_topology v) provider rid') v)"
    if "registry_get (tp_registry (nd_topology v)) provider = Some p"
    for call :: "'p \<Rightarrow> string \<Rightarrow> provider_cx \<Rightarrow> ('p node, 'z) awaited" and p rid' v
    using batch_access_own [OF decoded, of key v p env call rid'] that by simp
  show ?thesis
    by (intro exI conjI allI impI, rule made, rule made, rule made)
      (auto simp: batch_retrieve_def batch_cancel_def batch_results_def refused owned passed_on_def Let_def
        split: prod.splits sum.splits)
qed

section \<open>Examples\<close>

definition ex_item :: batch_item where
  "ex_item = \<lparr>bi_custom_id = ''c1'', bi_request = \<lparr>cq_model = ''m'', cq_messages = [], cq_max_tokens = None,
     cq_temperature = None, cq_top_p = None, cq_stop = [], cq_stream = False, cq_tools = [],
     cq_tool_choice = None, cq_thinking = None, cq_extra = []\<rparr>\<rparr>"

definition ex_spec :: batch_spec where "ex_spec = \<lparr>bs_items = [ex_item, ex_item\<lparr>bi_custom_id := ''c2''\<rparr>]\<rparr>"

lemma ex_resolve_topology: "resolve (tp_router ex_topology) ''m'' = Some ex_targets"
  using ex_resolve by (simp add: ex_node_def)

theorem batch_one_provider_witness:
  "resolve_batch ex_topology ex_spec = Inr (''a'', ''m'', ex_spec)"
proof -
  have ne: "bs_items ex_spec \<noteq> []" by (simp add: ex_spec_def)
  show ?thesis
    unfolding batch_one_provider [OF ne]
    by (simp add: ex_spec_def routed_item_def ex_item_def ex_resolve_topology) (simp add: ex_targets_def)
qed

definition ex_handle :: batch_handle where
  "ex_handle =
     \<lparr>bh_id = ''batch_1'', bh_status = Validating,
      bh_counts = \<lparr>bc_total = 2, bc_processing = 0, bc_succeeded = 0, bc_errored = 0, bc_canceled = 0, bc_expired = 0\<rparr>,
      bh_created_at = None, bh_expires_at = None, bh_ended_at = None, bh_endpoint = None, bh_extra = []\<rparr>"

definition ex_batch_api :: "nat \<Rightarrow> nat node provider_api" where
  "ex_batch_api p = (provider_default ''x'' (\<lambda>_ _ w. (w, Inl model_error.Timeout)))\<lparr>pa_batch_create := \<lambda>_ _ w. (w, Inr ex_handle)\<rparr>"

definition ex_signing :: "nat engine" where
  "ex_signing = ex_engine\<lparr>en_batch_signer := Some ex_signer\<rparr>"

abbreviation ex_created :: "nat node \<times> (engine_error + batch_handle)" where
  "ex_created \<equiv> batch_create (\<lambda>_. None) base64_encode ex_signing ex_batch_api \<lparr>cd_to_value = \<lambda>_. None, cd_from_value = \<lambda>_. Inl []\<rparr>
     ex_spec ''alice'' ''r'' ex_node"

lemma ex_created_Inr: "\<exists>w1 h. ex_created = (w1, Inr h)"
proof -
  have "resolve_items (tp_router ex_topology) None (bs_items ex_spec) = Inr (Some ''a'', bs_items ex_spec)"
    by (simp add: ex_spec_def ex_item_def ex_resolve_topology Let_def) (simp add: ex_targets_def Let_def ex_resolve_topology [unfolded ex_targets_def])
  then have "resolve_batch (nd_topology ex_node) ex_spec = Inr (''a'', ''m'', ex_spec)"
    by (simp add: resolve_batch_def ex_node_def Let_def) (simp add: ex_spec_def ex_item_def)
  moreover have "registry_get (tp_registry (nd_topology ex_node)) ''a'' = Some 0"
    by (simp add: ex_node_def ex_topology_def registry_get_def hm_get_def)
  ultimately show ?thesis
    by (simp add: batch_create_def Let_def batch_submit_def ex_batch_api_def) (simp add: ex_spec_def)
qed

lemma ex_names_valid: "utf8_valid ''a''" "utf8_valid ''b''" "utf8_valid ''batch_1''" "utf8_valid ''alice''"
  by (rule utf8_valid_ascii; simp; fail)+

theorem batch_bound_to_owner_witness:
  "\<exists>h. snd ex_created = Inr h \<and>
     batch_retrieve (\<lambda>_. None) base64_encode b64_decode ex_signing ex_batch_api (bh_id h) ''mallory'' ''r2'' ex_node =
       (ex_node, Inl (BatchNotFound (bh_id h)))"
proof -
  obtain w1 h where h: "ex_created = (w1, Inr h)" using ex_created_Inr by blast
  have signer: "en_batch_signer ex_signing = Some ex_signer" by (simp add: ex_signing_def)
  have names: "names_wrappable (nd_topology ex_node)"
    using ex_names_valid
    by (auto simp: names_wrappable_def ex_node_def ex_topology_def registry_get_def hm_get_def sep_def split: if_splits)
  have ids: "ids_utf8 ex_batch_api"
    using ex_names_valid by (auto simp: ids_utf8_def ex_batch_api_def ex_handle_def)
  have key: "sep \<notin> set ''alice''" by (simp add: sep_def)
  have "batch_retrieve (\<lambda>_. None) base64_encode b64_decode ex_signing ex_batch_api (bh_id h) ''mallory'' ''r2'' ex_node =
      (ex_node, Inl (BatchNotFound (bh_id h)))"
    using batch_bound_to_owner [OF b64.dec_enc signer ex_signer_length names ids key ex_names_valid(4) h] by auto
  then show ?thesis by (simp add: h)
qed

end
