(* ===== verification/Wire.thy ===== *)
theory Wire
  imports Model
begin

text \<open>
  What the wire dialects share: the accessors of \<open>serde_json::Value\<close> they use, the conversion of a
  double to a single, fallible maps over a list, and objects written field by field. An
  object is an association list; reading the same key twice gives its first binding, and inserting
  replaces in place.
\<close>

named_theorems wire_simps

section \<open>Reading\<close>

fun as_array :: "json \<Rightarrow> json list option" where
  "as_array (JArray xs) = Some xs"
| "as_array _ = None"

fun as_object :: "json \<Rightarrow> json_map option" where
  "as_object (JObject m) = Some m"
| "as_object _ = None"

fun as_f64 :: "json \<Rightarrow> real option" where
  "as_f64 (JNumber (PosInt n)) = Some (u64_as_f64 n)"
| "as_f64 (JNumber (NegInt n)) = Some (f64_round (of_int (sint n)))"
| "as_f64 (JNumber (Float r)) = Some r"
| "as_f64 _ = None"

text \<open>\<open>as f32\<close>: 24 bits of precision; like doubles, singles have an unbounded exponent here.\<close>

definition f32_round :: "real \<Rightarrow> real" where
  "f32_round x =
     (if x = 0 then 0
      else let e = \<lfloor>log 2 \<bar>x\<bar>\<rfloor> - 23
           in of_int (round_half_even (x / 2 powr e)) * 2 powr e)"

lemma round_half_even_24:
  assumes "2 ^ 23 \<le> \<bar>q\<bar>" "\<bar>q\<bar> < 2 ^ 24"
  shows "2 ^ 23 \<le> \<bar>round_half_even q\<bar>" "\<bar>round_half_even q\<bar> \<le> 2 ^ 24"
  using assms round_half_even_le [of q "2 ^ 24"] round_half_even_ge [of "- (2 ^ 24)" q]
    round_half_even_le [of q "- (2 ^ 23)"] round_half_even_ge [of "2 ^ 23" q]
  by (auto simp: abs_if split: if_splits)

lemma f32_round_cases:
  assumes "x \<noteq> 0"
  obtains m e :: int where "f32_round x = of_int m * 2 powr e" "2 ^ 23 \<le> \<bar>m\<bar>" "\<bar>m\<bar> \<le> 2 ^ 24"
proof -
  let ?e = "\<lfloor>log 2 \<bar>x\<bar>\<rfloor> - 23"
  let ?q = "x / 2 powr ?e"
  have "2 powr (?e + 23) \<le> \<bar>x\<bar> \<and> \<bar>x\<bar> < 2 powr (?e + 23 + 1)"
    using floor_log_eq_powr_iff [of "\<bar>x\<bar>" 2 "?e + 23"] assms by simp
  then have "2 ^ 23 \<le> \<bar>?q\<bar>" "\<bar>?q\<bar> < 2 ^ 24"
    by (simp_all add: abs_divide pos_le_divide_eq pos_divide_less_eq powr_diff powr_add powr_numeral abs_mult algebra_simps)
  then have "2 ^ 23 \<le> \<bar>round_half_even ?q\<bar>" "\<bar>round_half_even ?q\<bar> \<le> 2 ^ 24"
    by (rule round_half_even_24)+
  then show thesis
    using assms by (intro that [of "round_half_even ?q" ?e]) (simp_all add: f32_round_def)
qed

lemma f32_round_exact:
  "y \<noteq> 0 \<Longrightarrow> 2 powr (e + 23) \<le> \<bar>y\<bar> \<Longrightarrow> \<bar>y\<bar> < 2 powr (e + 24) \<Longrightarrow> y = of_int n * 2 powr of_int e \<Longrightarrow> f32_round y = y"
  for e :: int
proof -
  assume y: "y \<noteq> 0" "2 powr (e + 23) \<le> \<bar>y\<bar>" "\<bar>y\<bar> < 2 powr (e + 24)" "y = of_int n * 2 powr of_int e"
  then have "\<lfloor>log 2 \<bar>y\<bar>\<rfloor> = e + 23"
    using floor_log_eq_powr_iff [of "\<bar>y\<bar>" 2 "e + 23"] by (simp add: algebra_simps)
  then have "f32_round y = of_int (round_half_even (y / 2 powr e)) * 2 powr e"
    using y(1) by (simp add: f32_round_def)
  also have "y / 2 powr e = of_int n" using y(4) by simp
  finally show ?thesis by (simp add: y(4))
qed

lemma f32_round_idem [simp]: "f32_round (f32_round x) = f32_round x"
proof (cases "x = 0")
  case False
  then obtain m e :: int where m: "f32_round x = of_int m * 2 powr e" "2 ^ 23 \<le> \<bar>m\<bar>" "\<bar>m\<bar> \<le> 2 ^ 24"
    by (rule f32_round_cases)
  let ?y = "of_int m * 2 powr e :: real"
  have y: "?y \<noteq> 0" and abs: "\<bar>?y\<bar> = of_int \<bar>m\<bar> * 2 powr e"
    using m(2) by (auto simp: abs_mult)
  have lower: "2 powr (e + 23) \<le> \<bar>?y\<bar>"
    using m(2) by (simp add: abs powr_add powr_numeral flip: of_int_abs)
  show ?thesis
  proof (cases "\<bar>m\<bar> = 2 ^ 24")
    case True
    then have "m = 2 ^ 24 \<or> m = - (2 ^ 24)" by linarith
    then obtain k where "m = 2 * k" by (auto intro: that [of "2 ^ 23"] that [of "- (2 ^ 23)"])
    then have "?y = of_int k * 2 powr of_int (e + 1)" by (simp add: powr_add)
    moreover have "\<bar>?y\<bar> = 2 powr (e + 24)" by (simp add: abs True powr_add powr_numeral)
    ultimately have "f32_round ?y = ?y"
      using y by (intro f32_round_exact [where e = "e + 1"]) (simp_all add: algebra_simps)
    then show ?thesis by (simp add: m(1))
  next
    case False
    then have "real_of_int \<bar>m\<bar> < 2 ^ 24" using m(3) by (simp flip: of_int_less_iff)
    then have "\<bar>?y\<bar> < 2 powr (e + 24)" by (simp add: abs powr_add powr_numeral)
    with y lower have "f32_round ?y = ?y" by (intro f32_round_exact) simp_all
    then show ?thesis by (simp add: m(1))
  qed
qed (simp add: f32_round_def)

text \<open>Decimal digits, as \<open>str::parse\<close> reads them.\<close>

definition is_digit :: "char \<Rightarrow> bool" where
  "is_digit c = (let n = of_char c :: nat in 48 \<le> n \<and> n \<le> 57)"

definition digits_value :: "string \<Rightarrow> nat" where
  "digits_value s = fold (\<lambda>c n. 10 * n + (of_char c - 48)) s 0"

text \<open>\<open>v.get(k).and_then(Value::as_str)\<close> and its like.\<close>

definition get_str :: "json \<Rightarrow> string \<Rightarrow> string option" where
  "get_str v k = Option.bind (json_get v k) as_str"

definition get_u64 :: "json \<Rightarrow> string \<Rightarrow> u64 option" where
  "get_u64 v k = Option.bind (json_get v k) as_u64"

definition get_array :: "json \<Rightarrow> string \<Rightarrow> json list option" where
  "get_array v k = Option.bind (json_get v k) as_array"

text \<open>\<open>iter().map(f).collect::<Result<Vec<_>, _>>()\<close>.\<close>

fun try_map :: "('a \<Rightarrow> 'e + 'b) \<Rightarrow> 'a list \<Rightarrow> 'e + 'b list" where
  "try_map f [] = Inr []"
| "try_map f (x # xs) = res_bind (f x) (\<lambda>y. res_bind (try_map f xs) (\<lambda>ys. Inr (y # ys)))"

lemma try_map_Inr [wire_simps]: "(\<And>x. x \<in> set xs \<Longrightarrow> f x = Inr (g x)) \<Longrightarrow> try_map f xs = Inr (map g xs)"
  by (induction xs) auto

lemma try_map_map: "try_map f (map g xs) = try_map (\<lambda>x. f (g x)) xs"
  by (induction xs) auto

section \<open>Writing\<close>

definition field :: "string \<Rightarrow> json \<Rightarrow> json_map" where "field k v = [(k, v)]"

text \<open>\<open>skip_serializing_if = "Option::is_none"\<close>, or an \<open>if let Some\<close> around an insert.\<close>

definition opt_field :: "string \<Rightarrow> ('a \<Rightarrow> json) \<Rightarrow> 'a option \<Rightarrow> json_map" where
  "opt_field k f v = (case v of None \<Rightarrow> [] | Some x \<Rightarrow> [(k, f x)])"

definition if_field :: "string \<Rightarrow> json \<Rightarrow> bool \<Rightarrow> json_map" where
  "if_field k v b = (if b then [(k, v)] else [])"

definition json_u64 :: "u64 \<Rightarrow> json" where "json_u64 n = JNumber (PosInt n)"
definition json_u32 :: "u32 \<Rightarrow> json" where "json_u32 n = JNumber (PosInt (ucast n))"
definition json_f64 :: "real \<Rightarrow> json" where "json_f64 r = JNumber (Float r)"

definition json_opt :: "('a \<Rightarrow> json) \<Rightarrow> 'a option \<Rightarrow> json" where
  "json_opt f v = (case v of None \<Rightarrow> JNull | Some x \<Rightarrow> f x)"

text \<open>An insert under a condition.\<close>

definition opt_insert :: "string \<Rightarrow> ('a \<Rightarrow> json) \<Rightarrow> 'a option \<Rightarrow> json_map \<Rightarrow> json_map" where
  "opt_insert k f v m = (case v of None \<Rightarrow> m | Some x \<Rightarrow> hm_insert k (f x) m)"

definition if_insert :: "string \<Rightarrow> json \<Rightarrow> bool \<Rightarrow> json_map \<Rightarrow> json_map" where
  "if_insert k v b m = (if b then hm_insert k v m else m)"

text \<open>\<open>entry(k).or_insert\<close> for every binding: what is already there wins.\<close>

definition or_insert_all :: "json_map \<Rightarrow> json_map \<Rightarrow> json_map" where
  "or_insert_all extra m = fold (\<lambda>(k, v) m. if hm_contains m k then m else hm_insert k v m) extra m"

section \<open>Lookups in what was written\<close>

lemma hm_get_append [wire_simps]:
  "hm_get (a @ b) k = or_else (hm_get a k) (hm_get b k)"
  by (cases "map_of a k") (simp_all add: hm_get_def map_add_def)

lemma or_else_None [wire_simps]: "or_else v None = v"
  by (cases v) simp_all

lemma bind_written [wire_simps]:
  "Option.bind (map_option JString s) as_str = s"
  "Option.bind (map_option json_f64 r) as_f64 = r"
  "Option.bind (map_option json_u32 n) as_u64 = map_option ucast n"
  by (cases s, simp, simp) (cases r, simp, simp add: json_f64_def, cases n, simp, simp add: json_u32_def)

lemma hm_get_Nil [wire_simps]: "hm_get [] k = None"
  by (simp add: hm_get_def)

lemma hm_get_field [wire_simps]: "hm_get (field j v) k = (if k = j then Some v else None)"
  by (simp add: hm_get_def field_def)

lemma hm_get_opt_field [wire_simps]: "hm_get (opt_field j f v) k = (if k = j then map_option f v else None)"
  by (cases v) (simp_all add: hm_get_def opt_field_def)

lemma hm_get_if_field [wire_simps]: "hm_get (if_field j v b) k = (if k = j \<and> b then Some v else None)"
  by (simp add: hm_get_def if_field_def)

lemma hm_get_single [wire_simps]: "hm_get ((j, v) # m) k = (if k = j then Some v else hm_get m k)"
  by (simp add: hm_get_def)

lemma hm_get_removed [wire_simps]: "hm_get (hm_remove k m) j = (if j = k then None else hm_get m j)"
  by (simp add: hm_get_def hm_remove_def delete_conv)

lemma as_u64_json_u64 [wire_simps]: "as_u64 (json_u64 n) = Some n"
  by (simp add: json_u64_def)

lemma as_u64_json_u32 [wire_simps]: "as_u64 (json_u32 n) = Some (ucast n)"
  by (simp add: json_u32_def)

lemma as_f64_json_f64 [wire_simps]: "as_f64 (json_f64 r) = Some r"
  by (simp add: json_f64_def)

lemma ucast_u32 [wire_simps]: "ucast (ucast n :: u64) = (n :: u32)"
  by (simp add: ucast_down_ucast_id is_down)

lemma as_str_json_numbers [wire_simps]:
  "as_str (json_u64 n) = None" "as_str (json_u32 m) = None" "as_str (json_f64 r) = None"
  by (simp_all add: json_u64_def json_u32_def json_f64_def)

lemma hm_get_or_insert_all: "hm_get (or_insert_all extra m) k = or_else (hm_get m k) (hm_get extra k)"
proof (induction extra arbitrary: m)
  case Nil
  then show ?case by (simp add: or_insert_all_def wire_simps)
next
  case (Cons kv extra)
  obtain j v where kv: "kv = (j, v)" by (cases kv)
  have "or_insert_all (kv # extra) m =
      or_insert_all extra (if hm_contains m j then m else hm_insert j v m)"
    by (simp add: or_insert_all_def kv)
  then show ?case
    by (auto simp: Cons.IH kv hm_get_insert hm_contains_def wire_simps)
qed

lemma hm_get_opt_insert [wire_simps]:
  "hm_get (opt_insert k f v m) j = (if j = k \<and> v \<noteq> None then map_option f v else hm_get m j)"
  by (cases v) (simp_all add: opt_insert_def hm_get_insert)

lemma hm_get_if_insert [wire_simps]:
  "hm_get (if_insert k v b m) j = (if j = k \<and> b then Some v else hm_get m j)"
  by (simp add: if_insert_def hm_get_insert)

end
