(* ===== verification/OpenAI.thy ===== *)
theory OpenAI
  imports Wire
begin

text \<open>
  The chat surface consumers speak, \<open>crates/llmleaf-core/src/compat/openai.rs\<close>: a request body to a
  canonical request, a canonical chunk to a \<open>chat.completion.chunk\<close> frame, a canonical response
  to a \<open>chat.completion\<close> object. \<open>dbg\<close> stands for the \<open>{:?}\<close> rendering of an optional string in one
  error message. A frame written into the buffer is the value it serialises to.
\<close>

section \<open>Requests\<close>

fun parse_reasoning_effort :: "string \<Rightarrow> effort option" where
  "parse_reasoning_effort s =
     (if s = ''minimal'' \<or> s = ''low'' then Some Low
      else if s = ''medium'' \<or> s = ''med'' then Some Med
      else if s = ''high'' then Some High
      else if s = ''xhigh'' \<or> s = ''highx'' then Some Highx
      else if s = ''max'' then Some Max
      else None)"

fun parse_role :: "string \<Rightarrow> model_error + role" where
  "parse_role r =
     (if r = ''system'' \<or> r = ''developer'' then Inr System
      else if r = ''user'' then Inr User
      else if r = ''assistant'' then Inr Assistant
      else if r = ''tool'' \<or> r = ''function'' then Inr Tool
      else Inl (Mapping (''unknown role `'' @ r @ ''`'')))"

text \<open>A string field that must be there and not empty.\<close>

definition filled :: "json_map \<Rightarrow> string \<Rightarrow> string option" where
  "filled m k = Option.bind (Option.bind (hm_get m k) as_str) (\<lambda>s. if s = [] then None else Some s)"

definition parse_image_part :: "json_map \<Rightarrow> model_error + content_part" where
  "parse_image_part obj =
     (let img = hm_get obj ''image_url''
      in case Option.bind img (\<lambda>v. get_str v ''url'') of
        None \<Rightarrow> Inl (Mapping ''image_url part missing `image_url.url`'')
      | Some url \<Rightarrow> Inr (ImageUrl url (Option.bind img (\<lambda>v. get_str v ''detail''))))"

definition parse_audio_part :: "json_map \<Rightarrow> model_error + content_part" where
  "parse_audio_part obj =
     (case Option.bind (hm_get obj ''input_audio'') as_object of
        None \<Rightarrow> Inl (Mapping ''input_audio part missing `input_audio` object'')
      | Some audio \<Rightarrow>
          (case filled audio ''data'' of
             None \<Rightarrow> Inl (Mapping ''input_audio part missing non-empty `input_audio.data`'')
           | Some data \<Rightarrow>
               (case filled audio ''format'' of
                  None \<Rightarrow> Inl (Mapping ''input_audio part missing non-empty `input_audio.format`'')
                | Some format \<Rightarrow> Inr (InputAudio data format))))"

definition parse_compaction_part :: "json_map \<Rightarrow> model_error + content_part" where
  "parse_compaction_part obj =
     (let content = get_str (JObject obj) ''content'';
          encrypted = get_str (JObject obj) ''encrypted_content''
      in if (content \<noteq> None) = (encrypted \<noteq> None)
         then Inl (Mapping ''compaction requires exactly one of `content` or `encrypted_content`'')
         else Inr (CompactionPart None (get_str (JObject obj) ''id'') content encrypted
                    (get_str (JObject obj) ''signature'')))"

definition parse_content_part :: "(string option \<Rightarrow> string) \<Rightarrow> json \<Rightarrow> model_error + content_part" where
  "parse_content_part dbg value =
     (case value of
        JObject obj \<Rightarrow>
          (let ty = get_str value ''type''
           in if ty = Some ''text'' then Inr (Text (unwrap_or [] (get_str value ''text'')))
              else if ty = Some ''image_url'' then parse_image_part obj
              else if ty = Some ''input_audio'' then parse_audio_part obj
              else if ty = Some ''compaction'' then parse_compaction_part obj
              else Inl (Mapping (''unsupported content part type '' @ dbg ty)))
      | _ \<Rightarrow> Inl (Mapping ''content part must be an object''))"

definition parse_content ::
  "(string option \<Rightarrow> string) \<Rightarrow> json option \<Rightarrow> model_error + content_part list" where
  "parse_content dbg value =
     (case value of
        None \<Rightarrow> Inr []
      | Some JNull \<Rightarrow> Inr []
      | Some (JString text) \<Rightarrow> Inr [Text text]
      | Some (JArray parts) \<Rightarrow> try_map (parse_content_part dbg) parts
      | Some _ \<Rightarrow> Inl (Mapping ''`content` must be a string, array, or null''))"

definition parse_tool_call :: "json \<Rightarrow> tool_call" where
  "parse_tool_call v =
     (let func = json_get v ''function''
      in \<lparr>tc_id = unwrap_or [] (get_str v ''id''),
          tc_name = unwrap_or [] (Option.bind func (\<lambda>f. get_str f ''name'')),
          tc_arguments = unwrap_or [] (Option.bind func (\<lambda>f. get_str f ''arguments''))\<rparr>)"

definition parse_tool_calls :: "json option \<Rightarrow> tool_call list" where
  "parse_tool_calls value =
     (case value of Some (JArray items) \<Rightarrow> map parse_tool_call items | _ \<Rightarrow> [])"

text \<open>The parts of a \<open>compaction\<close> field follow the content.\<close>

definition parse_message :: "(string option \<Rightarrow> string) \<Rightarrow> json \<Rightarrow> model_error + message" where
  "parse_message dbg value =
     (case value of
        JObject obj \<Rightarrow>
          (case hm_get obj ''role'' of
             Some (JString r) \<Rightarrow>
               res_bind (parse_role r) (\<lambda>role.
               res_bind (parse_content dbg (hm_get obj ''content'')) (\<lambda>content.
               res_bind (case hm_get obj ''compaction'' of
                    Some (JArray parts) \<Rightarrow> try_map (parse_content_part dbg) parts
                  | _ \<Rightarrow> Inr []) (\<lambda>compaction.
               Inr \<lparr>me_role = role, me_content = content @ compaction,
                 me_tool_calls = parse_tool_calls (hm_get obj ''tool_calls''),
                 me_tool_call_id = get_str value ''tool_call_id'',
                 me_name = get_str value ''name''\<rparr>)))
           | _ \<Rightarrow> Inl (Mapping ''message is missing `role`''))
      | _ \<Rightarrow> Inl (Mapping ''each message must be an object''))"

definition parse_messages :: "(string option \<Rightarrow> string) \<Rightarrow> json option \<Rightarrow> model_error + message list" where
  "parse_messages dbg value =
     (case value of
        Some (JArray items) \<Rightarrow> try_map (parse_message dbg) items
      | _ \<Rightarrow> Inl (Mapping ''`messages` is required and must be an array''))"

definition parse_tool :: "json \<Rightarrow> model_error + tool_def" where
  "parse_tool f =
     (case get_str f ''name'' of
        None \<Rightarrow> Inl (Mapping ''tool function missing `name`'')
      | Some name \<Rightarrow>
          Inr \<lparr>td_name = name, td_description = get_str f ''description'',
            td_parameters = unwrap_or JNull (json_get f ''parameters'')\<rparr>)"

definition parse_tools :: "json option \<Rightarrow> model_error + tool_def list" where
  "parse_tools value =
     (case value of
        Some (JArray items) \<Rightarrow> try_map parse_tool (List.map_filter (\<lambda>v. json_get v ''function'') items)
      | _ \<Rightarrow> Inr [])"

definition parse_tool_choice :: "json option \<Rightarrow> tool_choice option" where
  "parse_tool_choice value =
     (case value of
        Some (JString s) \<Rightarrow>
          (if s = ''auto'' then Some ChooseAuto
           else if s = ''none'' then Some ChooseNone
           else if s = ''required'' then Some ChooseRequired
           else None)
      | Some (JObject obj) \<Rightarrow>
          map_option Named (Option.bind (hm_get obj ''function'') (\<lambda>f. get_str f ''name''))
      | _ \<Rightarrow> None)"

definition parse_stop :: "json option \<Rightarrow> string list" where
  "parse_stop value =
     (case value of
        Some (JString s) \<Rightarrow> [s]
      | Some (JArray xs) \<Rightarrow> List.map_filter as_str xs
      | _ \<Rightarrow> [])"

text \<open>\<open>remove(a).or_else(|| remove(b))\<close>: the second field is left alone when the first is there.\<close>

definition take_max_tokens :: "json_map \<Rightarrow> json option \<times> json_map" where
  "take_max_tokens obj =
     (case hm_get obj ''max_completion_tokens'' of
        Some v \<Rightarrow> (Some v, hm_remove ''max_completion_tokens'' obj)
      | None \<Rightarrow> (hm_get obj ''max_tokens'', hm_remove ''max_tokens'' obj))"

text \<open>A \<open>reasoning_effort\<close> outside the ladder goes back into the object.\<close>

definition take_effort :: "json_map \<Rightarrow> effort option \<times> json_map" where
  "take_effort obj =
     (case hm_get obj ''reasoning_effort'' of
        None \<Rightarrow> (None, obj)
      | Some v \<Rightarrow>
          let rest = hm_remove ''reasoning_effort'' obj
          in case Option.bind (as_str v) parse_reasoning_effort of
               Some t \<Rightarrow> (Some t, rest)
             | None \<Rightarrow> (None, hm_insert ''reasoning_effort'' v rest))"

definition parse_chat_request :: "(string option \<Rightarrow> string) \<Rightarrow> json \<Rightarrow> model_error + chat_request" where
  "parse_chat_request dbg value =
     (case value of
        JObject obj \<Rightarrow>
          (case hm_get obj ''model'' of
             Some (JString model) \<Rightarrow>
               (let obj = hm_remove ''model'' obj
                in res_bind (parse_messages dbg (hm_get obj ''messages'')) (\<lambda>messages.
               let obj = hm_remove ''messages'' obj;
                   (cap, obj) = take_max_tokens obj;
                   temperature = hm_get obj ''temperature'';
                   obj = hm_remove ''temperature'' obj;
                   top_p = hm_get obj ''top_p'';
                   obj = hm_remove ''top_p'' obj;
                   stop = parse_stop (hm_get obj ''stop'');
                   obj = hm_remove ''stop'' obj;
                   stream = unwrap_or False (Option.bind (hm_get obj ''stream'') as_bool);
                   obj = hm_remove ''stream'' obj
                in res_bind (parse_tools (hm_get obj ''tools'')) (\<lambda>tools.
               let obj = hm_remove ''tools'' obj;
                   choice = parse_tool_choice (hm_get obj ''tool_choice'');
                   obj = hm_remove ''tool_choice'' obj;
                   (thinking, extra) = take_effort obj
                in Inr \<lparr>cq_model = model, cq_messages = messages,
                     cq_max_tokens = map_option ucast (Option.bind cap as_u64),
                     cq_temperature = map_option f32_round (Option.bind temperature as_f64),
                     cq_top_p = map_option f32_round (Option.bind top_p as_f64),
                     cq_stop = stop, cq_stream = stream, cq_tools = tools, cq_tool_choice = choice,
                     cq_thinking = thinking, cq_extra = extra\<rparr>)))
           | _ \<Rightarrow> Inl (Mapping ''`model` is required and must be a string''))
      | _ \<Rightarrow> Inl (Mapping ''request body must be a JSON object''))"

section \<open>Frames\<close>

fun finish_str :: "finish_reason \<Rightarrow> string" where
  "finish_str Stop = ''stop''"
| "finish_str Length = ''length''"
| "finish_str ToolCalls = ''tool_calls''"
| "finish_str ContentFilter = ''content_filter''"
| "finish_str FinishCompaction = ''compaction''"
| "finish_str FinishError = ''stop''"

record reasoning_detail_frame =
  rd_data :: "string option"
  rd_signature :: "string option"
  rd_text :: "string option"
  rd_kind :: string

record compaction_frame =
  cf_content :: "string option"
  cf_encrypted :: "string option"
  cf_id :: "string option"
  cf_signature :: "string option"

record tool_call_frame =
  tf_arguments :: "string option"
  tf_name :: "string option"
  tf_id :: "string option"
  tf_index :: u32

datatype delta =
    DeltaCompaction compaction_frame
  | DeltaRole string
  | DeltaContent string
  | DeltaToolCalls tool_call_frame
  | DeltaReasoning string
  | DeltaReasoningDetails reasoning_detail_frame
  | DeltaEmpty

record choice_frame =
  cr_delta :: delta
  cr_finish_reason :: "string option"
  cr_index :: u32

record usage_frame =
  uf_completion :: u64
  uf_cost_usd :: "real option"
  uf_prompt :: u64
  uf_cached :: "u64 option"
  uf_total :: u64
  uf_cache_creation :: u64

record chunk_encoder =
  ce_id :: string
  ce_model :: string
  ce_created :: u64

definition usage_frame_from :: "usage \<Rightarrow> usage_frame" where
  "usage_frame_from u =
     \<lparr>uf_completion = ug_completion u, uf_cost_usd = ug_cost_usd u, uf_prompt = ug_prompt u,
      uf_cached = (if 0 < ug_cache_read u then Some (ug_cache_read u) else None),
      uf_total = ug_total u, uf_cache_creation = ug_cache_creation u\<rparr>"

text \<open>What the derived \<open>Serialize\<close> implementations write.\<close>

definition ser_reasoning_detail :: "reasoning_detail_frame \<Rightarrow> json" where
  "ser_reasoning_detail f = JObject
     (opt_field ''data'' JString (rd_data f) @ opt_field ''signature'' JString (rd_signature f) @
      opt_field ''text'' JString (rd_text f) @ field ''type'' (JString (rd_kind f)))"

definition ser_compaction :: "compaction_frame \<Rightarrow> json" where
  "ser_compaction f = JObject
     (opt_field ''content'' JString (cf_content f) @
      opt_field ''encrypted_content'' JString (cf_encrypted f) @
      opt_field ''id'' JString (cf_id f) @ opt_field ''signature'' JString (cf_signature f) @
      field ''type'' (JString ''compaction''))"

definition ser_tool_call :: "tool_call_frame \<Rightarrow> json" where
  "ser_tool_call f = JObject
     (field ''function'' (JObject
        (opt_field ''arguments'' JString (tf_arguments f) @ opt_field ''name'' JString (tf_name f))) @
      opt_field ''id'' JString (tf_id f) @ field ''index'' (json_u32 (tf_index f)) @
      field ''type'' (JString ''function''))"

fun ser_delta :: "delta \<Rightarrow> json" where
  "ser_delta (DeltaCompaction f) = JObject (field ''compaction'' (JArray [ser_compaction f]))"
| "ser_delta (DeltaRole r) = JObject (field ''role'' (JString r))"
| "ser_delta (DeltaContent s) = JObject (field ''content'' (JString s))"
| "ser_delta (DeltaToolCalls f) = JObject (field ''tool_calls'' (JArray [ser_tool_call f]))"
| "ser_delta (DeltaReasoning s) = JObject (field ''reasoning'' (JString s))"
| "ser_delta (DeltaReasoningDetails f) =
     JObject (field ''reasoning_details'' (JArray [ser_reasoning_detail f]))"
| "ser_delta DeltaEmpty = JObject []"

definition ser_choice_frame :: "choice_frame \<Rightarrow> json" where
  "ser_choice_frame c = JObject
     (field ''delta'' (ser_delta (cr_delta c)) @
      field ''finish_reason'' (json_opt JString (cr_finish_reason c)) @
      field ''index'' (json_u32 (cr_index c)))"

definition ser_usage :: "usage_frame \<Rightarrow> json" where
  "ser_usage u = JObject
     (field ''completion_tokens'' (json_u64 (uf_completion u)) @
      opt_field ''cost_usd'' json_f64 (uf_cost_usd u) @
      field ''prompt_tokens'' (json_u64 (uf_prompt u)) @
      opt_field ''prompt_tokens_details'' (\<lambda>n. JObject (field ''cached_tokens'' (json_u64 n))) (uf_cached u) @
      field ''total_tokens'' (json_u64 (uf_total u)) @
      if_field ''cache_creation_tokens'' (json_u64 (uf_cache_creation u)) (uf_cache_creation u \<noteq> 0))"

definition write_frame :: "chunk_encoder \<Rightarrow> choice_frame list \<Rightarrow> usage_frame option \<Rightarrow> json" where
  "write_frame enc choices usage = JObject
     (field ''choices'' (JArray (map ser_choice_frame choices)) @
      field ''created'' (json_u64 (ce_created enc)) @ field ''id'' (JString (ce_id enc)) @
      field ''model'' (JString (ce_model enc)) @
      field ''object'' (JString ''chat.completion.chunk'') @ opt_field ''usage'' ser_usage usage)"

definition choice_only :: "chunk_encoder \<Rightarrow> delta \<Rightarrow> string option \<Rightarrow> u32 \<Rightarrow> json" where
  "choice_only enc d reason i =
     write_frame enc [\<lparr>cr_delta = d, cr_finish_reason = reason, cr_index = i\<rparr>] None"

text \<open>\<open>None\<close> is the answer \<open>false\<close>: no frame.\<close>

fun encode_into :: "chunk_encoder \<Rightarrow> stream_chunk \<Rightarrow> json option" where
  "encode_into enc (OutputItem i m) = None"
| "encode_into enc (Start rid model) = Some (choice_only enc (DeltaRole ''assistant'') None 0)"
| "encode_into enc (Content i d) = Some (choice_only enc (DeltaContent d) None i)"
| "encode_into enc (ToolCall i c) =
     Some (choice_only enc (DeltaToolCalls
       \<lparr>tf_arguments = tl_arguments c, tf_name = tl_name c, tf_id = tl_id c, tf_index = tl_index c\<rparr>) None i)"
| "encode_into enc (Thinking i d) = Some (choice_only enc (DeltaReasoning d) None i)"
| "encode_into enc (ThinkingSignature i signature) =
     Some (choice_only enc (DeltaReasoningDetails
       \<lparr>rd_data = None, rd_signature = Some signature, rd_text = None, rd_kind = ''reasoning.text''\<rparr>) None i)"
| "encode_into enc (RedactedThinking i data) =
     Some (choice_only enc (DeltaReasoningDetails
       \<lparr>rd_data = Some data, rd_signature = None, rd_text = None, rd_kind = ''reasoning.encrypted''\<rparr>) None i)"
| "encode_into enc (UsageReport u) = Some (write_frame enc [] (Some (usage_frame_from u)))"
| "encode_into enc (Compaction oi i d cid encrypted signature) =
     Some (choice_only enc (DeltaCompaction
       \<lparr>cf_content = (if encrypted = None then Some d else None), cf_encrypted = encrypted, cf_id = cid,
        cf_signature = signature\<rparr>) None i)"
| "encode_into enc (Finish i reason) = Some (choice_only enc DeltaEmpty (Some (finish_str reason)) i)"

section \<open>Whole responses\<close>

record tool_call_view =
  tv_arguments :: string
  tv_name :: string
  tv_id :: string

record message_view =
  mv_compaction :: "compaction_frame list"
  mv_content :: string
  mv_reasoning :: "string option"
  mv_reasoning_details :: "reasoning_detail_frame list"
  mv_role :: string
  mv_tool_calls :: "tool_call_view list"

record choice_view =
  cv_finish_reason :: "string option"
  cv_index :: u32
  cv_message :: message_view

record completion_view =
  vw_choices :: "choice_view list"
  vw_created :: u64
  vw_id :: string
  vw_model :: string
  vw_usage :: usage_frame

text \<open>The open reasoning text, if there is any block of it: one block, or all of them in a row.\<close>

fun open_thinking :: "content_part \<Rightarrow> string option" where
  "open_thinking (ThinkingPart t s) = Some t"
| "open_thinking _ = None"

definition choice_reasoning :: "content_part list \<Rightarrow> string option" where
  "choice_reasoning thinking =
     (case List.map_filter open_thinking thinking of
        [] \<Rightarrow> None
      | first # others \<Rightarrow> Some (fold (\<lambda>t all. all @ t) others first))"

fun reasoning_detail :: "content_part \<Rightarrow> reasoning_detail_frame option" where
  "reasoning_detail (ThinkingPart t s) =
     Some \<lparr>rd_data = None, rd_signature = s, rd_text = Some t, rd_kind = ''reasoning.text''\<rparr>"
| "reasoning_detail (RedactedThinkingPart data) =
     Some \<lparr>rd_data = Some data, rd_signature = None, rd_text = None, rd_kind = ''reasoning.encrypted''\<rparr>"
| "reasoning_detail _ = None"

definition choice_reasoning_details :: "content_part list \<Rightarrow> reasoning_detail_frame list" where
  "choice_reasoning_details thinking = List.map_filter reasoning_detail thinking"

fun compaction_view :: "content_part \<Rightarrow> compaction_frame option" where
  "compaction_view (CompactionPart oi cid content encrypted signature) =
     Some \<lparr>cf_content = content, cf_encrypted = encrypted, cf_id = cid, cf_signature = signature\<rparr>"
| "compaction_view _ = None"

definition message_view_of :: "choice \<Rightarrow> message_view" where
  "message_view_of c =
     \<lparr>mv_compaction = List.map_filter compaction_view (ch_compaction c), mv_content = ch_text c,
      mv_reasoning = choice_reasoning (ch_thinking c),
      mv_reasoning_details = choice_reasoning_details (ch_thinking c), mv_role = ''assistant'',
      mv_tool_calls =
        map (\<lambda>t. \<lparr>tv_arguments = tc_arguments t, tv_name = tc_name t, tv_id = tc_id t\<rparr>) (ch_tool_calls c)\<rparr>"

definition completion_view_of :: "chat_response \<Rightarrow> u64 \<Rightarrow> completion_view" where
  "completion_view_of resp created =
     \<lparr>vw_choices = map (\<lambda>c. \<lparr>cv_finish_reason = map_option finish_str (ch_finish_reason c),
        cv_index = ch_index c, cv_message = message_view_of c\<rparr>) (rp_choices resp),
      vw_created = created, vw_id = rp_id resp, vw_model = rp_model resp,
      vw_usage = usage_frame_from (rp_usage resp)\<rparr>"

definition ser_tool_call_view :: "tool_call_view \<Rightarrow> json" where
  "ser_tool_call_view t = JObject
     (field ''function'' (JObject
        (field ''arguments'' (JString (tv_arguments t)) @ field ''name'' (JString (tv_name t)))) @
      field ''id'' (JString (tv_id t)) @ field ''type'' (JString ''function''))"

definition ser_message_view :: "message_view \<Rightarrow> json" where
  "ser_message_view m = JObject
     (if_field ''compaction'' (JArray (map ser_compaction (mv_compaction m))) (mv_compaction m \<noteq> []) @
      field ''content'' (JString (mv_content m)) @
      opt_field ''reasoning'' JString (mv_reasoning m) @
      if_field ''reasoning_details'' (JArray (map ser_reasoning_detail (mv_reasoning_details m)))
        (mv_reasoning_details m \<noteq> []) @
      field ''role'' (JString (mv_role m)) @
      if_field ''tool_calls'' (JArray (map ser_tool_call_view (mv_tool_calls m))) (mv_tool_calls m \<noteq> []))"

definition ser_choice_view :: "choice_view \<Rightarrow> json" where
  "ser_choice_view c = JObject
     (field ''finish_reason'' (json_opt JString (cv_finish_reason c)) @
      field ''index'' (json_u32 (cv_index c)) @ field ''message'' (ser_message_view (cv_message c)))"

definition ser_completion_view :: "completion_view \<Rightarrow> json" where
  "ser_completion_view v = JObject
     (field ''choices'' (JArray (map ser_choice_view (vw_choices v))) @
      field ''created'' (json_u64 (vw_created v)) @ field ''id'' (JString (vw_id v)) @
      field ''model'' (JString (vw_model v)) @ field ''object'' (JString ''chat.completion'') @
      field ''usage'' (ser_usage (vw_usage v)))"

definition response_to_openai :: "chat_response \<Rightarrow> u64 \<Rightarrow> json" where
  "response_to_openai resp created = ser_completion_view (completion_view_of resp created)"

section \<open>The response of the handler\<close>

text \<open>
  \<open>sse_from_response\<close> in server.rs: the payloads of the events, a value or the closing sentinel.
\<close>

datatype sse_data = DataJson json | DataDone

fun sse_from_response :: "chunk_encoder \<Rightarrow> (model_error + stream_chunk) list \<Rightarrow> sse_data list" where
  "sse_from_response enc [] = [DataDone]"
| "sse_from_response enc (Inr chunk # items) =
     (case encode_into enc chunk of None \<Rightarrow> [] | Some frame \<Rightarrow> [DataJson frame]) @ sse_from_response enc items"
| "sse_from_response enc (Inl e # items) =
     [DataJson (JObject [(''error'', JObject [(''message'', JString (model_error_text e))])]), DataDone]"

end
