(* ===== verification/Sse.thy ===== *)
theory Sse
  imports Model
begin

text \<open>
  Server-sent events as the providers read them, \<open>crates/llmleaf-providers/src/http.rs\<close>: a rolling
  buffer of bytes from which complete \<open>data:\<close> fields are drained, and the loop that turns a response
  body into canonical chunks. A body is the list of the pieces the network delivers, each an error or
  bytes; what a stream yields is a list as well. \<open>serde_json::from_str\<close> is a parameter that
  answers a value or the text of its error.
\<close>

section \<open>White space\<close>

text \<open>The UTF-8 encodings of the characters \<open>str::trim\<close> removes.\<close>

definition white_space :: "string list" where
  "white_space =
     [[CHR 0x09], [CHR 0x0A], [CHR 0x0B], [CHR 0x0C], [CHR 0x0D], [CHR 0x20], [CHR 0xC2, CHR 0x85],
      [CHR 0xC2, CHR 0xA0], [CHR 0xE1, CHR 0x9A, CHR 0x80]] @
     map (\<lambda>c. [CHR 0xE2, CHR 0x80, c])
       [CHR 0x80, CHR 0x81, CHR 0x82, CHR 0x83, CHR 0x84, CHR 0x85, CHR 0x86, CHR 0x87, CHR 0x88,
        CHR 0x89, CHR 0x8A, CHR 0xA8, CHR 0xA9, CHR 0xAF] @
     [[CHR 0xE2, CHR 0x81, CHR 0x9F], [CHR 0xE3, CHR 0x80, CHR 0x80]]"

function strip_any :: "string list \<Rightarrow> string \<Rightarrow> string" where
  "strip_any ws s =
     (case List.find (\<lambda>w. w \<noteq> [] \<and> strip_prefix w s \<noteq> None) ws of
        None \<Rightarrow> s
      | Some w \<Rightarrow> strip_any ws (drop (length w) s))"
  by pat_completeness auto
termination
  by (relation "measure (\<lambda>(ws, s). length s)")
    (auto simp: find_Some_iff strip_prefix_Some_iff)

declare strip_any.simps [simp del]

definition str_trim :: "string \<Rightarrow> string" where
  "str_trim s = rev (strip_any (map rev white_space) (rev (strip_any white_space s)))"

section \<open>Draining complete lines\<close>

definition max_sse_line_bytes :: nat where "max_sse_line_bytes = 8 * 1024 * 1024"

text \<open>The payload of one line, its newline removed.\<close>

definition sse_line :: "string \<Rightarrow> string option" where
  "sse_line raw =
     (let raw = (if raw \<noteq> [] \<and> last raw = CHR 0x0D then butlast raw else raw)
      in if utf8_valid raw then
           let line = str_trim raw
           in if line \<noteq> [] \<and> strip_prefix '':'' line = None then
                map_option (\<lambda>rest. unwrap_or rest (strip_prefix '' '' rest)) (strip_prefix ''data:'' line)
              else None
         else None)"

function drain_lines :: "string \<Rightarrow> string list \<times> string" where
  "drain_lines buf =
     (case split_first (CHR 0x0A) buf of
        None \<Rightarrow> ([], buf)
      | Some (line, rest) \<Rightarrow>
          let (out, buf) = drain_lines rest
          in (case sse_line line of None \<Rightarrow> out | Some payload \<Rightarrow> payload # out, buf))"
  by pat_completeness auto
termination
  by (relation "measure length") (auto dest!: split_first_SomeD)

declare drain_lines.simps [simp del]

definition sse_payloads :: "string \<Rightarrow> string \<Rightarrow> string list \<times> string" where
  "sse_payloads buf incoming =
     (let (out, buf) = drain_lines (buf @ incoming)
      in (out, if max_sse_line_bytes < length buf then [] else buf))"

section \<open>The stream loop\<close>

text \<open>What a payload makes of a decoder's state: chunks and the next state, or the last items.\<close>

datatype 's decoded = Onward "stream_chunk list" 's | Over "(model_error + stream_chunk) list"

fun sse_batch ::
  "(string \<Rightarrow> 's \<Rightarrow> 's decoded) \<Rightarrow> string list \<Rightarrow> 's \<Rightarrow>
     (model_error + stream_chunk) list \<times> 's option" where
  "sse_batch step [] st = ([], Some st)"
| "sse_batch step (payload # payloads) st =
     (case step payload st of
        Over items \<Rightarrow> (items, None)
      | Onward chunks st \<Rightarrow> let (out, r) = sse_batch step payloads st in (map Inr chunks @ out, r))"

fun sse_stream ::
  "(string \<Rightarrow> 's \<Rightarrow> 's decoded) \<Rightarrow> string \<Rightarrow> 's \<Rightarrow> (model_error + string) list \<Rightarrow>
     (model_error + stream_chunk) list" where
  "sse_stream step buf st [] = []"
| "sse_stream step buf st (Inl e # items) = [Inl e]"
| "sse_stream step buf st (Inr bytes # items) =
     (let (payloads, buf) = sse_payloads buf bytes
      in case sse_batch step payloads st of
           (out, None) \<Rightarrow> out
         | (out, Some st) \<Rightarrow> out @ sse_stream step buf st items)"

text \<open>The step of \<open>json_sse_to_stream\<close>.\<close>

definition json_step ::
  "(string \<Rightarrow> string + json) \<Rightarrow> (json \<Rightarrow> 's \<Rightarrow> (model_error + stream_chunk list) \<times> 's) \<Rightarrow>
     string \<Rightarrow> 's \<Rightarrow> 's decoded" where
  "json_step parse mapper payload st =
     (if payload = ''[DONE]'' then Over []
      else case parse payload of
        Inl e \<Rightarrow> Over [Inl (Mapping e)]
      | Inr v \<Rightarrow>
          (case mapper v st of
             (Inl e, st) \<Rightarrow> Over [Inl e]
           | (Inr chunks, st) \<Rightarrow> Onward chunks st))"

definition json_sse_to_stream ::
  "(string \<Rightarrow> string + json) \<Rightarrow> (model_error + string) list \<Rightarrow> 's \<Rightarrow>
     (json \<Rightarrow> 's \<Rightarrow> (model_error + stream_chunk list) \<times> 's) \<Rightarrow> (model_error + stream_chunk) list" where
  "json_sse_to_stream parse body st mapper = sse_stream (json_step parse mapper) [] st body"

section \<open>Framing does not depend on how the bytes arrive\<close>

text \<open>The reference: the bytes cut at every newline. The last piece is the field still pending.\<close>

fun lines_of :: "string \<Rightarrow> string list" where
  "lines_of [] = [[]]"
| "lines_of (c # cs) =
     (if c = CHR 0x0A then [] # lines_of cs
      else (c # hd (lines_of cs)) # tl (lines_of cs))"

definition sse_events :: "string \<Rightarrow> string list" where
  "sse_events bytes = List.map_filter sse_line (butlast (lines_of bytes))"

definition pending :: "string \<Rightarrow> string" where "pending bytes = last (lines_of bytes)"

definition lines_fit :: "string \<Rightarrow> bool" where
  "lines_fit bytes = list_all (\<lambda>line. length line \<le> max_sse_line_bytes) (lines_of bytes)"

lemma lines_of_ne [simp]: "lines_of s \<noteq> []"
  by (cases s) auto

lemma lines_of_append:
  "lines_of (a @ b) =
     butlast (lines_of a) @ (last (lines_of a) @ hd (lines_of b)) # tl (lines_of b)"
proof (induction a)
  case Nil
  then show ?case by simp
next
  case (Cons c a)
  then show ?case by (cases "lines_of a") auto
qed

lemma lines_of_single: "CHR 0x0A \<notin> set s \<Longrightarrow> lines_of s = [s]"
  by (induction s) auto

lemma pending_no_newline: "CHR 0x0A \<notin> set (pending s)"
proof (induction s)
  case (Cons c s)
  then show ?case by (cases "lines_of s") (auto simp: pending_def)
qed (simp add: pending_def)

lemma lines_of_pending: "lines_of (pending s) = [pending s]"
  by (simp add: lines_of_single pending_no_newline)

lemma lines_of_pending_append: "lines_of (pending a @ b) = (pending a @ hd (lines_of b)) # tl (lines_of b)"
  by (simp add: lines_of_append lines_of_pending)

lemma pending_append: "pending (a @ b) = pending (pending a @ b)"
  unfolding pending_def [of "a @ b"] pending_def [of "pending a @ b"] lines_of_pending_append
  by (simp add: lines_of_append pending_def)

lemma map_filter_append: "List.map_filter f (xs @ ys) = List.map_filter f xs @ List.map_filter f ys"
  by (simp add: List.map_filter_def)

lemma sse_events_append: "sse_events (a @ b) = sse_events a @ sse_events (pending a @ b)"
  unfolding sse_events_def lines_of_pending_append
  by (simp add: lines_of_append butlast_append map_filter_append pending_def)

lemma lines_fit_append:
  "lines_fit (a @ b) \<Longrightarrow> length (pending a) \<le> max_sse_line_bytes"
  "lines_fit (a @ b) \<Longrightarrow> lines_fit (pending a @ b)"
  unfolding lines_fit_def lines_of_pending_append by (auto simp: lines_of_append pending_def)

lemma lines_of_line: "CHR 0x0A \<notin> set line \<Longrightarrow> lines_of (line @ CHR 0x0A # rest) = line # lines_of rest"
  by (simp add: lines_of_append lines_of_single)

lemma drain_lines_spec: "drain_lines s = (sse_events s, pending s)"
proof (induction s rule: drain_lines.induct)
  case (1 s)
  show ?case
  proof (cases "split_first (CHR 0x0A) s")
    case None
    then have "lines_of s = [s]" by (simp add: split_first_None_iff lines_of_single)
    with None show ?thesis by (simp add: drain_lines.simps [of s] sse_events_def pending_def map_filter_simps)
  next
    case (Some lr)
    then obtain line rest where lr: "split_first (CHR 0x0A) s = Some (line, rest)" by (cases lr) auto
    have "lines_of s = line # lines_of rest"
      using split_first_SomeD [OF lr] by (simp add: lines_of_line)
    then show ?thesis
      using "1.IH" [OF lr refl]
      by (simp add: drain_lines.simps [of s] lr sse_events_def pending_def map_filter_simps split: option.split)
  qed
qed

lemma sse_payloads_spec:
  "sse_payloads buf incoming =
     (sse_events (buf @ incoming),
      if max_sse_line_bytes < length (pending (buf @ incoming)) then [] else pending (buf @ incoming))"
  by (simp add: sse_payloads_def drain_lines_spec)

lemma sse_batch_append:
  "sse_batch step (ps @ qs) st =
     (case sse_batch step ps st of
        (out, None) \<Rightarrow> (out, None)
      | (out, Some st) \<Rightarrow> let (out', r) = sse_batch step qs st in (out @ out', r))"
  by (induction step ps st rule: sse_batch.induct)
    (auto split: decoded.splits prod.splits option.splits simp: Let_def)

lemma sse_stream_pieces:
  "lines_fit (buf @ concat pieces) \<Longrightarrow> pending buf = buf \<Longrightarrow>
     sse_stream step buf st (map Inr pieces) = fst (sse_batch step (sse_events (buf @ concat pieces)) st)"
proof (induction pieces arbitrary: buf st)
  case Nil
  then have "lines_of buf = [buf]" using lines_of_pending [of buf] by simp
  then show ?case by (simp add: sse_events_def map_filter_simps)
next
  case (Cons piece pieces)
  let ?b = "pending (buf @ piece)"
  have fit: "lines_fit ((buf @ piece) @ concat pieces)" using Cons.prems by simp
  have paid: "sse_payloads buf piece = (sse_events (buf @ piece), ?b)"
    using lines_fit_append(1) [OF fit] by (simp add: sse_payloads_spec)
  have IH: "sse_stream step ?b st' (map Inr pieces) =
      fst (sse_batch step (sse_events (?b @ concat pieces)) st')" for st'
    by (rule Cons.IH) (simp_all add: lines_fit_append(2) [OF fit] pending_def [of ?b] lines_of_pending)
  have whole: "sse_events (buf @ concat (piece # pieces)) =
      sse_events (buf @ piece) @ sse_events (?b @ concat pieces)"
    using sse_events_append [of "buf @ piece" "concat pieces"] by simp
  show ?case
    unfolding whole by (simp add: paid sse_batch_append IH split: option.splits prod.splits)
qed

text \<open>
  C19: how the network cuts a response body does not matter. A body whose lines all fit the limit decodes
  to what its events, read one after the other, decode to, whatever pieces it arrives in; the reader
  never keeps more than the limit between two pieces, and what it keeps holds no complete line.
\<close>

theorem sse_framing:
  assumes "lines_fit (concat pieces)"
  shows "json_sse_to_stream parse (map Inr pieces) st mapper =
      fst (sse_batch (json_step parse mapper) (sse_events (concat pieces)) st) \<and>
    length (snd (sse_payloads buf incoming)) \<le> max_sse_line_bytes \<and>
    CHR 0x0A \<notin> set (snd (sse_payloads buf incoming))"
proof -
  have "pending [] = []" by (simp add: pending_def)
  with assms have "json_sse_to_stream parse (map Inr pieces) st mapper =
      fst (sse_batch (json_step parse mapper) (sse_events (concat pieces)) st)"
    unfolding json_sse_to_stream_def by (subst sse_stream_pieces) simp_all
  then show ?thesis by (simp add: sse_payloads_spec pending_no_newline)
qed

theorem sse_framing_witness:
  "json_sse_to_stream (\<lambda>s. if s = ''{}'' then Inr JNull else Inl s)
      (map Inr [''da'', ''ta: {}'', [CHR 0x0A]]) (0 :: nat) (\<lambda>v n. (Inr [Content 0 ''x''], Suc n)) =
     [Inr (Content 0 ''x'')] \<and>
   length (snd (sse_payloads ''data'' '': x'')) \<le> max_sse_line_bytes"
proof -
  let ?pieces = "[''da'', ''ta: {}'', [CHR 0x0A]]"
  let ?parse = "\<lambda>s. if s = ''{}'' then Inr JNull else Inl s"
  let ?mapper = "\<lambda>v n. (Inr [Content 0 ''x''], Suc n)"
  have "lines_fit (concat ?pieces)" by (simp add: lines_fit_def max_sse_line_bytes_def)
  note framing = sse_framing [OF this, of ?parse 0 ?mapper "''data''" "'': x''"]
  have "sse_line ''data: {}'' = Some ''{}''" by code_simp
  then have "sse_events (concat ?pieces) = [''{}'']" by (simp add: sse_events_def List.map_filter_def)
  then show ?thesis
    using framing by (simp add: json_step_def)
qed

end
