(* ===== verification/OpenAIWire.thy ===== *)
theory OpenAIWire
  imports Wire Sse
begin

text \<open>
  The OpenAI wire as the providers speak it, \<open>crates/llmleaf-providers/src/openai_wire.rs\<close>: a
  canonical request to a request body, a whole response or one streamed frame to canonical chunks,
  and the stream decoder on top of the event reader.
\<close>

section \<open>Requests\<close>

text \<open>The upper rungs of the ladder collapse.\<close>

fun thinking_effort :: "effort \<Rightarrow> string" where
  "thinking_effort Low = ''low''"
| "thinking_effort Med = ''medium''"
| "thinking_effort _ = ''high''"

fun role_str :: "role \<Rightarrow> string" where
  "role_str System = ''system''"
| "role_str User = ''user''"
| "role_str Assistant = ''assistant''"
| "role_str Tool = ''tool''"

fun tool_choice_to_openai :: "tool_choice \<Rightarrow> json" where
  "tool_choice_to_openai ChooseAuto = JString ''auto''"
| "tool_choice_to_openai ChooseNone = JString ''none''"
| "tool_choice_to_openai ChooseRequired = JString ''required''"
| "tool_choice_to_openai (Named name) =
     JObject [(''type'', JString ''function''), (''function'', JObject [(''name'', JString name)])]"

fun content_part_to_openai :: "content_part \<Rightarrow> json option" where
  "content_part_to_openai (Text text) =
     Some (JObject [(''type'', JString ''text''), (''text'', JString text)])"
| "content_part_to_openai (ImageUrl url detail) =
     Some (JObject [(''type'', JString ''image_url''),
       (''image_url'', JObject (field ''url'' (JString url) @ opt_field ''detail'' JString detail))])"
| "content_part_to_openai (InputAudio data format) =
     Some (JObject [(''type'', JString ''input_audio''),
       (''input_audio'', JObject [(''data'', JString data), (''format'', JString format)])])"
| "content_part_to_openai _ = None"

definition content_parts :: "message \<Rightarrow> json" where
  "content_parts msg = JArray (List.map_filter content_part_to_openai (me_content msg))"

definition content_to_openai :: "message \<Rightarrow> json" where
  "content_to_openai msg =
     (case me_content msg of
        [Text text] \<Rightarrow> JString text
      | [] \<Rightarrow> JNull
      | _ \<Rightarrow> content_parts msg)"

definition tool_call_to_openai :: "tool_call \<Rightarrow> json" where
  "tool_call_to_openai c =
     JObject [(''id'', JString (tc_id c)), (''type'', JString ''function''),
       (''function'', JObject [(''name'', JString (tc_name c)), (''arguments'', JString (tc_arguments c))])]"

definition message_to_openai :: "message \<Rightarrow> json" where
  "message_to_openai msg = JObject
     (field ''role'' (JString (role_str (me_role msg))) @
      field ''content'' (content_to_openai msg) @
      if_field ''tool_calls'' (JArray (map tool_call_to_openai (me_tool_calls msg))) (me_tool_calls msg \<noteq> []) @
      opt_field ''tool_call_id'' JString (me_tool_call_id msg) @
      opt_field ''name'' JString (me_name msg))"

definition tool_to_openai :: "tool_def \<Rightarrow> json" where
  "tool_to_openai t =
     JObject [(''type'', JString ''function''), (''function'', JObject
       (field ''name'' (JString (td_name t)) @ opt_field ''description'' JString (td_description t) @
        field ''parameters'' (td_parameters t)))]"

definition request_to_openai :: "chat_request \<Rightarrow> string \<Rightarrow> bool \<Rightarrow> json" where
  "request_to_openai req max_tokens_field stream =
     (let obj = hm_insert ''model'' (JString (cq_model req)) hm_empty;
          obj = hm_insert ''messages'' (JArray (map message_to_openai (cq_messages req))) obj;
          obj = opt_insert max_tokens_field json_u32 (cq_max_tokens req) obj;
          obj = opt_insert ''temperature'' json_f64 (cq_temperature req) obj;
          obj = opt_insert ''top_p'' json_f64 (cq_top_p req) obj;
          obj = if_insert ''stop'' (JArray (map JString (cq_stop req))) (cq_stop req \<noteq> []) obj;
          obj = if_insert ''tools'' (JArray (map tool_to_openai (cq_tools req))) (cq_tools req \<noteq> []) obj;
          obj = opt_insert ''tool_choice'' tool_choice_to_openai (cq_tool_choice req) obj;
          obj = opt_insert ''reasoning_effort'' (\<lambda>t. JString (thinking_effort t)) (cq_thinking req) obj;
          obj = or_insert_all (cq_extra req) obj;
          obj = hm_insert ''stream'' (JBool stream) obj
      in JObject (if_insert ''stream_options'' (JObject [(''include_usage'', JBool True)]) stream obj))"

section \<open>Responses\<close>

fun map_finish :: "string \<Rightarrow> finish_reason" where
  "map_finish reason =
     (if reason = ''length'' then Length
      else if reason = ''tool_calls'' \<or> reason = ''function_call'' then ToolCalls
      else if reason = ''content_filter'' then ContentFilter
      else Stop)"

definition openai_cache_read_tokens :: "json \<Rightarrow> u64" where
  "openai_cache_read_tokens usage =
     unwrap_or 0 (or_else (Option.bind (json_get usage ''prompt_tokens_details'') (\<lambda>d. get_u64 d ''cached_tokens''))
       (get_u64 usage ''prompt_cache_hit_tokens''))"

definition openai_usage :: "json \<Rightarrow> usage" where
  "openai_usage usage =
     \<lparr>ug_prompt = unwrap_or 0 (get_u64 usage ''prompt_tokens''),
      ug_completion = unwrap_or 0 (get_u64 usage ''completion_tokens''),
      ug_total = unwrap_or 0 (get_u64 usage ''total_tokens''), ug_cost_usd = None,
      ug_cache_read = openai_cache_read_tokens usage, ug_cache_creation = 0\<rparr>"

text \<open>The opening chunk, and a text that yields a chunk unless it is absent or empty.\<close>

definition openai_start :: "json \<Rightarrow> string \<Rightarrow> stream_chunk" where
  "openai_start value fallback_model =
     Start (unwrap_or [] (get_str value ''id'')) (unwrap_or fallback_model (get_str value ''model''))"

definition text_chunk :: "(string \<Rightarrow> stream_chunk) \<Rightarrow> string option \<Rightarrow> stream_chunk list" where
  "text_chunk mk t = (case t of None \<Rightarrow> [] | Some s \<Rightarrow> if s = [] then [] else [mk s])"

definition openai_reasoning :: "json option \<Rightarrow> string option" where
  "openai_reasoning m =
     Option.bind (Option.bind m (\<lambda>m. or_else (json_get m ''reasoning'') (json_get m ''reasoning_content''))) as_str"

definition openai_tool_call :: "u32 \<Rightarrow> json \<Rightarrow> tool_call_delta" where
  "openai_tool_call i tc =
     (let func = json_get tc ''function''
      in \<lparr>tl_index = i, tl_id = get_str tc ''id'',
          tl_name = Option.bind func (\<lambda>f. get_str f ''name''),
          tl_arguments = Option.bind func (\<lambda>f. get_str f ''arguments'')\<rparr>)"

definition choice_index :: "json \<Rightarrow> u32" where
  "choice_index choice = ucast (unwrap_or 0 (get_u64 choice ''index''))"

text \<open>What a message and a delta have in common: reasoning, then content.\<close>

definition choice_texts :: "u32 \<Rightarrow> json option \<Rightarrow> stream_chunk list" where
  "choice_texts index m =
     text_chunk (Thinking index) (openai_reasoning m) @
     text_chunk (Content index) (Option.bind m (\<lambda>m. get_str m ''content''))"

definition whole_choice :: "json \<Rightarrow> stream_chunk list" where
  "whole_choice choice =
     (let index = choice_index choice; message = json_get choice ''message''
      in choice_texts index message @
         (case Option.bind message (\<lambda>m. get_array m ''tool_calls'') of
            None \<Rightarrow> []
          | Some calls \<Rightarrow>
              map (\<lambda>(i, tc). ToolCall index (openai_tool_call (of_nat i) tc)) (enumerate 0 calls)) @
         [Finish index (unwrap_or Stop (map_option map_finish (get_str choice ''finish_reason'')))])"

definition openai_to_chunks :: "json \<Rightarrow> string \<Rightarrow> stream_chunk list" where
  "openai_to_chunks value fallback_model =
     [openai_start value fallback_model] @
     (case get_array value ''choices'' of None \<Rightarrow> [] | Some choices \<Rightarrow> concat (map whole_choice choices)) @
     (case json_get value ''usage'' of None \<Rightarrow> [] | Some usage \<Rightarrow> [UsageReport (openai_usage usage)])"

section \<open>Streams\<close>

definition delta_choice :: "json \<Rightarrow> stream_chunk list" where
  "delta_choice choice =
     (let index = choice_index choice; delta = json_get choice ''delta''
      in choice_texts index delta @
         (case Option.bind delta (\<lambda>d. get_array d ''tool_calls'') of
            None \<Rightarrow> []
          | Some calls \<Rightarrow>
              map (\<lambda>tc. ToolCall index (openai_tool_call (ucast (unwrap_or 0 (get_u64 tc ''index''))) tc)) calls) @
         (case get_str choice ''finish_reason'' of
            None \<Rightarrow> []
          | Some reason \<Rightarrow> [Finish index (map_finish reason)]))"

text \<open>The flag of the opening chunk is threaded; the answer carries its new value.\<close>

definition openai_chunk_to_canonical :: "json \<Rightarrow> bool \<Rightarrow> string \<Rightarrow> stream_chunk list \<times> bool" where
  "openai_chunk_to_canonical value seen_start fallback_model =
     ((if seen_start then [] else [openai_start value fallback_model]) @
      (case get_array value ''choices'' of None \<Rightarrow> [] | Some choices \<Rightarrow> concat (map delta_choice choices)) @
      (case json_get value ''usage'' of
         None \<Rightarrow> []
       | Some usage \<Rightarrow> if usage = JNull then [] else [UsageReport (openai_usage usage)]),
      True)"

definition openai_step ::
  "(string \<Rightarrow> string + json) \<Rightarrow> (json \<Rightarrow> model_error option) \<Rightarrow> string \<Rightarrow> string \<Rightarrow> bool \<Rightarrow> bool decoded" where
  "openai_step parse check model payload seen_start =
     (if payload = ''[DONE]'' then Over []
      else case parse payload of
        Inl e \<Rightarrow> Over [Inl (Mapping e)]
      | Inr v \<Rightarrow>
          (case check v of
             Some e \<Rightarrow> Over [Inl e]
           | None \<Rightarrow>
               (case openai_chunk_to_canonical v seen_start model of
                  (chunks, seen_start) \<Rightarrow> Onward chunks seen_start)))"

definition openai_sse_to_stream_checked ::
  "(string \<Rightarrow> string + json) \<Rightarrow> (model_error + string) list \<Rightarrow> string \<Rightarrow> (json \<Rightarrow> model_error option) \<Rightarrow>
     (model_error + stream_chunk) list" where
  "openai_sse_to_stream_checked parse body model check =
     sse_stream (openai_step parse check model) [] False body"

definition openai_sse_to_stream ::
  "(string \<Rightarrow> string + json) \<Rightarrow> (model_error + string) list \<Rightarrow> string \<Rightarrow> (model_error + stream_chunk) list" where
  "openai_sse_to_stream parse body model = openai_sse_to_stream_checked parse body model (\<lambda>_. None)"

end
