(* ===== verification/Gateway.thy ===== *)
theory Gateway
  imports OpenAI OpenAIWire
begin

text \<open>
  Both ends of the OpenAI dialect together: what a consumer's body becomes, what of it a provider is
  sent, and what a second gateway behind the first one reads. A node may have another node as its
  upstream, so the surface of compat/openai.rs and the wire of openai_wire.rs meet each other.
\<close>

section \<open>A body read field by field\<close>

text \<open>What the parser leaves of a body, as a lookup.\<close>

definition read_keys :: "string list" where
  "read_keys = [''model'', ''messages'', ''max_completion_tokens'', ''temperature'', ''top_p'', ''stop'',
     ''stream'', ''tools'', ''tool_choice'']"

definition effort_of :: "json_map \<Rightarrow> effort option" where
  "effort_of obj = Option.bind (Option.bind (hm_get obj ''reasoning_effort'') as_str) parse_reasoning_effort"

definition left_over :: "json_map \<Rightarrow> string \<Rightarrow> json option" where
  "left_over obj k =
     (if k \<in> set read_keys then None
      else if k = ''max_tokens'' \<and> hm_get obj ''max_completion_tokens'' = None then None
      else if k = ''reasoning_effort'' \<and> effort_of obj \<noteq> None then None
      else hm_get obj k)"

definition cap_of :: "json_map \<Rightarrow> json option" where
  "cap_of obj = or_else (hm_get obj ''max_completion_tokens'') (hm_get obj ''max_tokens'')"

text \<open>A request against a body: every canonical field is the reading of its JSON field.\<close>

definition reads :: "(string option \<Rightarrow> string) \<Rightarrow> json_map \<Rightarrow> chat_request \<Rightarrow> bool" where
  "reads dbg obj req \<longleftrightarrow>
     hm_get obj ''model'' = Some (JString (cq_model req)) \<and>
     parse_messages dbg (hm_get obj ''messages'') = Inr (cq_messages req) \<and>
     parse_tools (hm_get obj ''tools'') = Inr (cq_tools req) \<and>
     cq_max_tokens req = map_option ucast (Option.bind (cap_of obj) as_u64) \<and>
     cq_temperature req = map_option f32_round (Option.bind (hm_get obj ''temperature'') as_f64) \<and>
     cq_top_p req = map_option f32_round (Option.bind (hm_get obj ''top_p'') as_f64) \<and>
     cq_stop req = parse_stop (hm_get obj ''stop'') \<and>
     cq_stream req = unwrap_or False (Option.bind (hm_get obj ''stream'') as_bool) \<and>
     cq_tool_choice req = parse_tool_choice (hm_get obj ''tool_choice'') \<and>
     cq_thinking req = effort_of obj \<and>
     hm_get (cq_extra req) = left_over obj"

lemma take_max_tokens_spec:
  "fst (take_max_tokens obj) = cap_of obj"
  "hm_get (snd (take_max_tokens obj)) k =
     (if k = ''max_completion_tokens'' then None
      else if k = ''max_tokens'' \<and> hm_get obj ''max_completion_tokens'' = None then None
      else hm_get obj k)"
  by (simp_all add: take_max_tokens_def cap_of_def hm_get_removed split: option.splits)

lemma take_effort_spec:
  "fst (take_effort obj) = effort_of obj"
  "hm_get (snd (take_effort obj)) k =
     (if k = ''reasoning_effort'' \<and> effort_of obj \<noteq> None then None else hm_get obj k)"
  by (simp_all add: take_effort_def effort_of_def hm_get_removed hm_get_insert Let_def split: option.splits)

definition rest_of :: "json_map \<Rightarrow> json_map" where
  "rest_of obj = snd (take_effort (hm_remove ''tool_choice'' (hm_remove ''tools'' (hm_remove ''stream''
     (hm_remove ''stop'' (hm_remove ''top_p'' (hm_remove ''temperature''
       (snd (take_max_tokens (hm_remove ''messages'' (hm_remove ''model'' obj)))))))))))"

lemma cap_of_removed: "k \<notin> {''max_completion_tokens'', ''max_tokens''} \<Longrightarrow> cap_of (hm_remove k obj) = cap_of obj"
  by (auto simp: cap_of_def hm_get_removed)

lemma effort_of_removed: "k \<noteq> ''reasoning_effort'' \<Longrightarrow> effort_of (hm_remove k obj) = effort_of obj"
  by (simp add: effort_of_def hm_get_removed)

lemma effort_of_take: "effort_of (snd (take_max_tokens obj)) = effort_of obj"
  by (simp add: effort_of_def take_max_tokens_spec)

lemma rest_of_lookup: "hm_get (rest_of obj) = left_over obj"
proof
  fix k
  show "hm_get (rest_of obj) k = left_over obj k"
    unfolding rest_of_def take_effort_spec(2) left_over_def
    by (simp add: effort_of_removed effort_of_take)
      (auto simp: hm_get_removed take_max_tokens_spec(2) read_keys_def)
qed

lemma parse_object:
  "parse_chat_request dbg (JObject obj) =
     (case hm_get obj ''model'' of
        Some (JString model) \<Rightarrow>
          res_bind (parse_messages dbg (hm_get obj ''messages'')) (\<lambda>messages.
          res_bind (parse_tools (hm_get obj ''tools'')) (\<lambda>tools.
          Inr \<lparr>cq_model = model, cq_messages = messages,
            cq_max_tokens = map_option ucast (Option.bind (cap_of obj) as_u64),
            cq_temperature = map_option f32_round (Option.bind (hm_get obj ''temperature'') as_f64),
            cq_top_p = map_option f32_round (Option.bind (hm_get obj ''top_p'') as_f64),
            cq_stop = parse_stop (hm_get obj ''stop''),
            cq_stream = unwrap_or False (Option.bind (hm_get obj ''stream'') as_bool), cq_tools = tools,
            cq_tool_choice = parse_tool_choice (hm_get obj ''tool_choice''),
            cq_thinking = effort_of obj, cq_extra = rest_of obj\<rparr>))
      | _ \<Rightarrow> Inl (Mapping ''`model` is required and must be a string''))"
proof (cases "hm_get obj ''model''")
  case None
  then show ?thesis by (simp add: parse_chat_request_def)
next
  case (Some v)
  show ?thesis
  proof (cases v)
    case (JString model)
    with Some show ?thesis
      unfolding parse_chat_request_def rest_of_def
      by (simp add: Let_def split_beta take_max_tokens_spec take_effort_spec(1) hm_get_removed
          cap_of_removed effort_of_removed effort_of_take)
  qed (simp_all add: Some parse_chat_request_def)
qed

lemma parse_reads: "parse_chat_request dbg (JObject obj) = Inr req \<Longrightarrow> reads dbg obj req"
  unfolding parse_object reads_def
  by (auto simp: res_simps rest_of_lookup split: option.splits json.splits)

lemma reads_parse:
  assumes "reads dbg obj req"
  shows "\<exists>extra. parse_chat_request dbg (JObject obj) = Inr (req\<lparr>cq_extra := extra\<rparr>) \<and>
    hm_get extra = hm_get (cq_extra req)"
  using assms unfolding parse_object reads_def
  by (intro exI [of _ "rest_of obj"]) (simp add: rest_of_lookup)

section \<open>What a provider is sent\<close>

text \<open>The fields written from the canonical request, before the rest is merged in.\<close>

definition written :: "chat_request \<Rightarrow> string \<Rightarrow> string \<Rightarrow> json option" where
  "written req max_tokens_field k =
     (if k = ''reasoning_effort'' \<and> cq_thinking req \<noteq> None
      then map_option (\<lambda>t. JString (thinking_effort t)) (cq_thinking req)
      else if k = ''tool_choice'' \<and> cq_tool_choice req \<noteq> None
      then map_option tool_choice_to_openai (cq_tool_choice req)
      else if k = ''tools'' \<and> cq_tools req \<noteq> [] then Some (JArray (map tool_to_openai (cq_tools req)))
      else if k = ''stop'' \<and> cq_stop req \<noteq> [] then Some (JArray (map JString (cq_stop req)))
      else if k = ''top_p'' \<and> cq_top_p req \<noteq> None then map_option json_f64 (cq_top_p req)
      else if k = ''temperature'' \<and> cq_temperature req \<noteq> None then map_option json_f64 (cq_temperature req)
      else if k = max_tokens_field \<and> cq_max_tokens req \<noteq> None then map_option json_u32 (cq_max_tokens req)
      else if k = ''messages'' then Some (JArray (map message_to_openai (cq_messages req)))
      else if k = ''model'' then Some (JString (cq_model req))
      else None)"

lemma request_lookup:
  "json_get (request_to_openai req max_tokens_field stream) k =
     (if k = ''stream_options'' \<and> stream then Some (JObject [(''include_usage'', JBool True)])
      else if k = ''stream'' then Some (JBool stream)
      else or_else (written req max_tokens_field k) (hm_get (cq_extra req) k))"
  unfolding request_to_openai_def Let_def json_get.simps
  by (simp only: hm_get_if_insert hm_get_insert hm_get_or_insert_all hm_get_opt_insert hm_get_empty written_def)

section \<open>The second gateway reads the same request\<close>

fun audio_filled :: "content_part \<Rightarrow> bool" where
  "audio_filled (InputAudio data format) \<longleftrightarrow> data \<noteq> [] \<and> format \<noteq> []"
| "audio_filled _ \<longleftrightarrow> True"

definition portable :: "content_part \<Rightarrow> bool" where
  "portable part \<longleftrightarrow> content_part_to_openai part \<noteq> None"

definition sent_message :: "message \<Rightarrow> message" where
  "sent_message m = m\<lparr>me_content := filter portable (me_content m)\<rparr>"

fun sent_effort :: "effort \<Rightarrow> effort" where
  "sent_effort Low = Low"
| "sent_effort Med = Med"
| "sent_effort _ = High"

definition sent_request :: "chat_request \<Rightarrow> bool \<Rightarrow> chat_request" where
  "sent_request req stream =
     req\<lparr>cq_messages := map sent_message (cq_messages req), cq_stream := stream,
       cq_thinking := map_option sent_effort (cq_thinking req)\<rparr>"

lemma parse_sent_part:
  "content_part_to_openai p = Some v \<Longrightarrow> audio_filled p \<Longrightarrow> parse_content_part dbg v = Inr p"
  by (cases p)
    (auto simp: parse_content_part_def parse_image_part_def parse_audio_part_def filled_def get_str_def wire_simps)

lemma parse_sent_parts:
  "\<forall>p \<in> set ps. audio_filled p \<Longrightarrow>
     try_map (parse_content_part dbg) (List.map_filter content_part_to_openai ps) = Inr (filter portable ps)"
  by (induction ps)
    (auto simp: map_filter_simps portable_def parse_sent_part split: option.splits)

lemma parse_sent_content:
  assumes "\<forall>p \<in> set (me_content m). audio_filled p"
  shows "parse_content dbg (Some (content_to_openai m)) = Inr (filter portable (me_content m))"
proof -
  have parts: "parse_content dbg (Some (content_parts m)) = Inr (filter portable (me_content m))"
    using parse_sent_parts [OF assms] by (simp add: parse_content_def content_parts_def)
  consider "me_content m = []" | t where "me_content m = [Text t]" | "content_to_openai m = content_parts m"
    by (cases "me_content m"; cases "tl (me_content m)"; cases "hd (me_content m)")
      (auto simp: content_to_openai_def)
  then show ?thesis
  proof cases
    case 3
    then show ?thesis by (simp only: parts)
  qed (simp_all add: parse_content_def content_to_openai_def portable_def)
qed

lemma parse_sent_tool_call: "parse_tool_call (tool_call_to_openai c) = c"
  by (simp add: parse_tool_call_def tool_call_to_openai_def get_str_def wire_simps)

lemma parse_sent_role: "parse_role (role_str r) = Inr r"
  by (cases r) simp_all

lemma parse_sent_message:
  assumes "\<forall>p \<in> set (me_content m). audio_filled p"
  shows "parse_message dbg (message_to_openai m) = Inr (sent_message m)"
  using parse_sent_content [OF assms]
  by (simp add: parse_message_def message_to_openai_def wire_simps get_str_def parse_sent_role
      parse_tool_calls_def sent_message_def del: parse_role.simps)
    (simp add: o_def parse_sent_tool_call)

lemma parse_sent_tool: "parse_tool (the (json_get (tool_to_openai t) ''function'')) = Inr t"
  by (simp add: parse_tool_def tool_to_openai_def get_str_def wire_simps)

lemma parse_sent_tools: "parse_tools (Some (JArray (map tool_to_openai ts))) = Inr ts"
proof -
  have "List.map_filter (\<lambda>v. json_get v ''function'') (map tool_to_openai ts) =
      map (\<lambda>t. the (json_get (tool_to_openai t) ''function'')) ts"
    by (induction ts) (simp_all add: map_filter_simps tool_to_openai_def wire_simps)
  then show ?thesis
    by (simp add: parse_tools_def try_map_map parse_sent_tool try_map_Inr [where g = "\<lambda>t. t"])
qed

lemma parse_sent_choice: "parse_tool_choice (Some (tool_choice_to_openai c)) = Some c"
  by (cases c) (simp_all add: parse_tool_choice_def get_str_def wire_simps)

lemma parse_sent_stop: "parse_stop (Some (JArray (map JString xs))) = xs"
  by (induction xs) (simp_all add: parse_stop_def map_filter_simps)

lemma parse_absent: "parse_tools None = Inr []" "parse_tool_choice None = None" "parse_stop None = []"
  by (simp_all add: parse_tools_def parse_tool_choice_def parse_stop_def)

lemma parse_sent_effort: "parse_reasoning_effort (thinking_effort t) = Some (sent_effort t)"
  by (cases t) simp_all

text \<open>What parsing guarantees of what it accepts.\<close>

lemma try_map_in: "try_map f xs = Inr ys \<Longrightarrow> y \<in> set ys \<Longrightarrow> \<exists>x. f x = Inr y"
  by (induction xs arbitrary: ys) (auto simp: res_simps)

lemma parsed_part_filled: "parse_content_part dbg v = Inr p \<Longrightarrow> audio_filled p"
  by (auto simp: parse_content_part_def parse_image_part_def parse_audio_part_def parse_compaction_part_def
      filled_def Let_def split: json.splits if_splits option.splits bind_splits)

lemma parsed_content_filled:
  "parse_content dbg v = Inr ps \<Longrightarrow> p \<in> set ps \<Longrightarrow> audio_filled p"
  by (auto simp: parse_content_def split: option.splits json.splits dest!: try_map_in parsed_part_filled)

lemma parsed_message_filled:
  "parse_message dbg v = Inr m \<Longrightarrow> p \<in> set (me_content m) \<Longrightarrow> audio_filled p"
  by (auto simp: parse_message_def res_simps split: json.splits option.splits
      dest: parsed_content_filled dest!: try_map_in parsed_part_filled)

lemma parsed_messages_filled:
  "parse_messages dbg v = Inr ms \<Longrightarrow> m \<in> set ms \<Longrightarrow> p \<in> set (me_content m) \<Longrightarrow> audio_filled p"
  by (auto simp: parse_messages_def split: option.splits json.splits dest!: try_map_in dest: parsed_message_filled)

text \<open>The lookups of a parsed request's remainder.\<close>

lemma reads_extra:
  assumes "reads dbg obj req"
  shows "k \<in> set read_keys \<Longrightarrow> hm_get (cq_extra req) k = None"
    and "cq_thinking req \<noteq> None \<Longrightarrow> hm_get (cq_extra req) ''reasoning_effort'' = None"
    and "cq_thinking req = None \<Longrightarrow>
      Option.bind (Option.bind (hm_get (cq_extra req) ''reasoning_effort'') as_str) parse_reasoning_effort = None"
  using assms by (auto simp: reads_def left_over_def effort_of_def read_keys_def)

definition stream_options_of :: "bool \<Rightarrow> (string \<Rightarrow> json option) \<Rightarrow> string \<Rightarrow> json option" where
  "stream_options_of stream extra k =
     (if k = ''stream_options'' \<and> stream then Some (JObject [(''include_usage'', JBool True)]) else extra k)"

lemma sent_reads:
  assumes req: "reads dbg obj req"
    and caps: "max_tokens_field = ''max_tokens'' \<or> max_tokens_field = ''max_completion_tokens''"
    and one: "hm_get (cq_extra req) ''max_tokens'' = None"
    and sent: "request_to_openai req max_tokens_field stream = JObject obj'"
  shows "reads dbg' obj' (sent_request req stream\<lparr>cq_extra := rest_of obj'\<rparr>)"
    and "hm_get (rest_of obj') = stream_options_of stream (hm_get (cq_extra req))"
proof -
  have L: "hm_get obj' k =
     (if k = ''stream_options'' \<and> stream then Some (JObject [(''include_usage'', JBool True)])
      else if k = ''stream'' then Some (JBool stream)
      else or_else (written req max_tokens_field k) (hm_get (cq_extra req) k))" for k
    using request_lookup [of req max_tokens_field stream k] by (simp add: sent)
  note none = reads_extra(1) [OF req, unfolded read_keys_def]
  have "\<forall>m \<in> set (cq_messages req). \<forall>p \<in> set (me_content m). audio_filled p"
    using req parsed_messages_filled unfolding reads_def by blast
  note audio = this
  have ne: "max_tokens_field \<noteq> ''model''" "max_tokens_field \<noteq> ''messages''" "max_tokens_field \<noteq> ''tools''"
    "max_tokens_field \<noteq> ''tool_choice''" "max_tokens_field \<noteq> ''stop''" "max_tokens_field \<noteq> ''top_p''"
    "max_tokens_field \<noteq> ''temperature''" "max_tokens_field \<noteq> ''reasoning_effort''"
    using caps by (elim disjE; simp)+
  have messages: "parse_messages dbg' (hm_get obj' ''messages'') = Inr (map sent_message (cq_messages req))"
    by (simp add: L written_def ne [symmetric] parse_messages_def try_map_map)
      (rule try_map_Inr, rule parse_sent_message, use audio in blast)
  have model: "hm_get obj' ''model'' = Some (JString (cq_model req))"
    by (simp add: L written_def ne [symmetric])
  have tools: "parse_tools (hm_get obj' ''tools'') = Inr (cq_tools req)"
    using none [of "''tools''"] by (simp add: L written_def ne [symmetric] parse_sent_tools parse_absent)
  have choice: "parse_tool_choice (hm_get obj' ''tool_choice'') = cq_tool_choice req"
    using none [of "''tool_choice''"]
    by (cases "cq_tool_choice req") (simp_all add: L written_def ne [symmetric] parse_sent_choice parse_absent)
  have stop: "parse_stop (hm_get obj' ''stop'') = cq_stop req"
    using none [of "''stop''"] by (simp add: L written_def ne [symmetric] parse_sent_stop parse_absent)
  have temperature: "map_option f32_round (Option.bind (hm_get obj' ''temperature'') as_f64) = cq_temperature req"
    using none [of "''temperature''"] req
    by (cases "cq_temperature req")
      (auto simp: L written_def ne [symmetric] reads_def wire_simps)
  have top_p: "map_option f32_round (Option.bind (hm_get obj' ''top_p'') as_f64) = cq_top_p req"
    using none [of "''top_p''"] req
    by (cases "cq_top_p req") (auto simp: L written_def ne [symmetric] reads_def wire_simps)
  have cap: "map_option ucast (Option.bind (cap_of obj') as_u64) = cq_max_tokens req"
    using caps none [of "''max_completion_tokens''"] one
    by (cases "cq_max_tokens req"; elim disjE) (simp_all add: L written_def cap_of_def wire_simps)
  have effort: "effort_of obj' = map_option sent_effort (cq_thinking req)"
    using reads_extra(2,3) [OF req]
    by (cases "cq_thinking req")
      (simp_all add: L written_def ne [symmetric] effort_of_def parse_sent_effort del: parse_reasoning_effort.simps)
  have streamed: "hm_get obj' ''stream'' = Some (JBool stream)" by (simp add: L)
  show "reads dbg' obj' (sent_request req stream\<lparr>cq_extra := rest_of obj'\<rparr>)"
    unfolding reads_def
    by (simp add: sent_request_def model messages tools choice stop temperature top_p cap effort streamed
        rest_of_lookup)
  show "hm_get (rest_of obj') = stream_options_of stream (hm_get (cq_extra req))"
  proof
    fix k
    show "hm_get (rest_of obj') k = stream_options_of stream (hm_get (cq_extra req)) k"
    proof (cases "k \<in> set read_keys \<or> k = ''max_tokens'' \<or> k = ''reasoning_effort''")
      case False
      then have "written req max_tokens_field k = None"
        using caps by (auto simp: written_def read_keys_def)
      with False show ?thesis
        by (simp add: rest_of_lookup left_over_def L stream_options_of_def read_keys_def)
    next
      case True
      then consider "k \<in> set read_keys" | "k = ''max_tokens''" | "k = ''reasoning_effort''" by blast
      then show ?thesis
      proof cases
        case 1
        then show ?thesis
          using reads_extra(1) [OF req 1]
          by (auto simp: rest_of_lookup left_over_def stream_options_of_def read_keys_def)
      next
        case 2
        then show ?thesis
          using one caps none [of "''max_completion_tokens''"]
          by (elim disjE) (simp_all add: rest_of_lookup left_over_def stream_options_of_def L written_def read_keys_def)
      next
        case 3
        then show ?thesis
          using effort reads_extra(2,3) [OF req]
          by (cases "cq_thinking req")
            (simp_all add: rest_of_lookup left_over_def stream_options_of_def L written_def ne [symmetric] read_keys_def)
      qed
    qed
  qed
qed

lemma parsed_object:
  assumes "parse_chat_request dbg body = Inr req"
  obtains obj where "body = JObject obj" "reads dbg obj req"
proof -
  from assms obtain obj where "body = JObject obj"
    by (cases body) (simp_all add: parse_chat_request_def)
  with assms that show thesis by (simp add: parse_reads)
qed

text \<open>The engine sends the request under the model name of the target it chose.\<close>

lemma left_over_renamed: "left_over (hm_insert ''model'' v obj) = left_over obj"
  by (rule ext) (auto simp: left_over_def effort_of_def hm_get_insert read_keys_def)

lemma reads_renamed:
  "reads dbg obj req \<Longrightarrow>
     reads dbg (hm_insert ''model'' (JString upstream) obj) (req\<lparr>cq_model := upstream\<rparr>)"
  by (simp add: reads_def hm_get_insert cap_of_def effort_of_def left_over_renamed)

text \<open>
  a field of a consumer's body that the canonical model has no place for reaches the provider unchanged:
  the body sent upstream, under whatever model name, answers it as the consumer's body does. The
  exceptions are the fields with a canonical reading and, on a stream, \<open>stream_options\<close>.
\<close>

theorem unmodelled_forwarded:
  assumes "parse_chat_request dbg body = Inr req"
    and "k \<notin> set read_keys" "k \<noteq> ''max_tokens''" "k \<noteq> ''reasoning_effort''" "k \<noteq> max_tokens_field"
    and "\<not> (stream \<and> k = ''stream_options'')"
  shows "json_get (request_to_openai (req\<lparr>cq_model := upstream\<rparr>) max_tokens_field stream) k = json_get body k"
proof -
  obtain obj where body: "body = JObject obj" "reads dbg obj req"
    by (rule parsed_object [OF assms(1)])
  then have "hm_get (cq_extra req) k = hm_get obj k"
    using assms(2-4) by (simp add: reads_def left_over_def)
  moreover have "written (req\<lparr>cq_model := upstream\<rparr>) max_tokens_field k = None"
    using assms(2-5) by (simp add: written_def read_keys_def)
  moreover have "k \<noteq> ''stream''" using assms(2) by (auto simp: read_keys_def)
  ultimately show ?thesis
    unfolding request_lookup using assms(6) by (auto simp: body(1))
qed

text \<open>A small body, for the witnesses of both theorems.\<close>

definition gateway_body :: json where
  "gateway_body = JObject [(''model'', JString ''fast''),
     (''messages'', JArray [JObject [(''role'', JString ''user''), (''content'', JString ''hi'')]]),
     (''max_tokens'', JNumber (PosInt 5)), (''seed'', JNumber (PosInt 7))]"

definition gateway_request :: chat_request where
  "gateway_request =
     \<lparr>cq_model = ''fast'',
      cq_messages = [\<lparr>me_role = User, me_content = [Text ''hi''], me_tool_calls = [],
        me_tool_call_id = None, me_name = None\<rparr>],
      cq_max_tokens = Some 5, cq_temperature = None, cq_top_p = None, cq_stop = [], cq_stream = False,
      cq_tools = [], cq_tool_choice = None, cq_thinking = None, cq_extra = [(''seed'', JNumber (PosInt 7))]\<rparr>"

lemma gateway_body_parsed: "parse_chat_request dbg gateway_body = Inr gateway_request"
  by (simp add: parse_chat_request_def gateway_body_def gateway_request_def Let_def take_max_tokens_def
      take_effort_def parse_messages_def parse_message_def parse_content_def parse_tools_def
      parse_tool_calls_def parse_tool_choice_def parse_stop_def hm_get_def hm_remove_def get_str_def)

theorem unmodelled_forwarded_witness:
  "json_get (request_to_openai (gateway_request\<lparr>cq_model := ''upstream''\<rparr>) ''max_tokens'' True) ''seed'' =
     json_get gateway_body ''seed'' \<and> json_get gateway_body ''seed'' = Some (JNumber (PosInt 7))"
  using unmodelled_forwarded [OF gateway_body_parsed, of "''seed''" "''max_tokens''" True "''upstream''"]
  by (simp add: read_keys_def gateway_body_def hm_get_def)



end
