(* ===== verification/Chain.thy ===== *)
theory Chain
  imports Gateway Collect
begin

text \<open>
  A response on its way from one gateway to the next: the events of compat/openai.rs and server.rs,
  read back by http.rs and openai_wire.rs, and what a consumer behind the second gateway collects.
\<close>

section \<open>One frame\<close>

fun wire_finish :: "finish_reason \<Rightarrow> finish_reason" where
  "wire_finish FinishError = Stop"
| "wire_finish FinishCompaction = Stop"
| "wire_finish r = r"

definition sent_usage :: "usage \<Rightarrow> usage" where
  "sent_usage u = u\<lparr>ug_cost_usd := None, ug_cache_creation := 0\<rparr>"

text \<open>What of a chunk arrives.\<close>

fun arriving :: "stream_chunk \<Rightarrow> stream_chunk list" where
  "arriving (Content i d) = (if d = [] then [] else [Content i d])"
| "arriving (Thinking i d) = (if d = [] then [] else [Thinking i d])"
| "arriving (ToolCall i c) = [ToolCall i c]"
| "arriving (UsageReport u) = [UsageReport (sent_usage u)]"
| "arriving (Finish i r) = [Finish i (wire_finish r)]"
| "arriving _ = []"

lemma map_finish_str: "map_finish (finish_str r) = wire_finish r"
  by (cases r) simp_all

lemma openai_usage_sent: "openai_usage (ser_usage (usage_frame_from u)) = sent_usage u"
proof -
  have "\<not> 0 < n \<Longrightarrow> n = 0" for n :: u64 by (simp add: word_gt_0)
  then show ?thesis
    by (auto simp: openai_usage_def openai_cache_read_tokens_def ser_usage_def usage_frame_from_def
        sent_usage_def get_u64_def wire_simps)
qed

lemma choice_index_frame:
  "choice_index (ser_choice_frame \<lparr>cr_delta = d, cr_finish_reason = r, cr_index = i\<rparr>) = i"
  by (simp add: choice_index_def ser_choice_frame_def get_u64_def wire_simps)

definition delta_chunks :: "u32 \<Rightarrow> delta \<Rightarrow> stream_chunk list" where
  "delta_chunks i d = choice_texts i (Some (ser_delta d)) @
     (case get_array (ser_delta d) ''tool_calls'' of
        None \<Rightarrow> []
      | Some calls \<Rightarrow>
          map (\<lambda>tc. ToolCall i (openai_tool_call (ucast (unwrap_or 0 (get_u64 tc ''index''))) tc)) calls)"

lemma delta_choice_frame:
  "delta_choice (ser_choice_frame \<lparr>cr_delta = d, cr_finish_reason = r, cr_index = i\<rparr>) =
     delta_chunks i d @ (case r of None \<Rightarrow> [] | Some s \<Rightarrow> [Finish i (map_finish s)])"
  unfolding delta_choice_def choice_index_frame Let_def delta_chunks_def
  by (simp add: ser_choice_frame_def wire_simps get_str_def json_opt_def split: option.split)

lemma delta_chunks_simps:
  "delta_chunks i (DeltaRole s) = []"
  "delta_chunks i (DeltaContent s) = text_chunk (Content i) (Some s)"
  "delta_chunks i (DeltaReasoning s) = text_chunk (Thinking i) (Some s)"
  "delta_chunks i (DeltaCompaction f) = []"
  "delta_chunks i (DeltaReasoningDetails f') = []"
  "delta_chunks i DeltaEmpty = []"
  "delta_chunks i (DeltaToolCalls \<lparr>tf_arguments = a, tf_name = n, tf_id = t, tf_index = j\<rparr>) =
     [ToolCall i \<lparr>tl_index = j, tl_id = t, tl_name = n, tl_arguments = a\<rparr>]"
  by (simp_all add: delta_chunks_def choice_texts_def text_chunk_def openai_reasoning_def get_str_def
      get_array_def get_u64_def openai_tool_call_def ser_tool_call_def wire_simps)

lemma frame_start: "openai_start (write_frame enc cs u) fm = Start (ce_id enc) (ce_model enc)"
  by (simp add: openai_start_def write_frame_def get_str_def wire_simps)

lemma frame_choices: "get_array (write_frame enc cs u) ''choices'' = Some (map ser_choice_frame cs)"
  by (simp add: write_frame_def get_array_def wire_simps)

lemma frame_usage: "json_get (write_frame enc cs u) ''usage'' = map_option ser_usage u"
  by (simp add: write_frame_def wire_simps)

lemma frame_decodes:
  assumes "encode_into enc c = Some v"
  shows "openai_chunk_to_canonical v seen fm =
    ((if seen then [] else [Start (ce_id enc) (ce_model enc)]) @ arriving c, True)"
  using assms
  by (cases c)
    (auto simp: openai_chunk_to_canonical_def choice_only_def frame_start frame_choices frame_usage
      delta_choice_frame delta_chunks_simps text_chunk_def map_finish_str openai_usage_sent
      simp del: map_finish.simps, simp_all add: ser_usage_def)

lemma silent_chunk: "encode_into enc c = None \<Longrightarrow> arriving c = []"
  by (cases c) simp_all

section \<open>A stream across the wire\<close>

text \<open>
  What the second gateway makes of the events: nothing but chunks. The opening chunk comes with
  the first event; after an error event, which has no identity, nothing follows.
\<close>

fun arrives :: "chunk_encoder \<Rightarrow> string \<Rightarrow> bool \<Rightarrow> (model_error + stream_chunk) list \<Rightarrow> stream_chunk list" where
  "arrives enc model seen [] = []"
| "arrives enc model seen (Inl e # items) = (if seen then [] else [Start [] model])"
| "arrives enc model seen (Inr c # items) =
     (if encode_into enc c = None then arrives enc model seen items
      else (if seen then [] else [Start (ce_id enc) (ce_model enc)]) @ arriving c @ arrives enc model True items)"

fun sse_text :: "(json \<Rightarrow> string) \<Rightarrow> sse_data \<Rightarrow> string" where
  "sse_text print (DataJson v) = print v"
| "sse_text print DataDone = ''[DONE]''"

text \<open>How a JSON object is printed: on one line, between its braces.\<close>

definition one_line :: "string \<Rightarrow> bool" where
  "one_line s \<longleftrightarrow> utf8_valid s \<and> CHR 0x0A \<notin> set s \<and>
     (\<exists>mid. s = CHR 0x7B # mid @ [CHR 0x7D]) \<and> length s + 6 \<le> max_sse_line_bytes"

text \<open>The printer and the parser agree on the values that are sent.\<close>

definition printable_values :: "(json \<Rightarrow> string) \<Rightarrow> (string \<Rightarrow> string + json) \<Rightarrow> sse_data list \<Rightarrow> bool" where
  "printable_values print parse ds \<longleftrightarrow>
     (\<forall>v. DataJson v \<in> set ds \<longrightarrow> parse (print v) = Inr v \<and> one_line (print v))"

text \<open>How events are written: a \<open>data\<close> field and an empty line.\<close>

definition framed :: "(string \<Rightarrow> string) \<Rightarrow> bool" where
  "framed frame \<longleftrightarrow>
     (\<forall>s. CHR 0x0A \<notin> set s \<longrightarrow> frame s = ''data: '' @ s @ [CHR 0x0A, CHR 0x0A])"

lemma strip_any_none:
  "(\<And>w. w \<in> set ws \<Longrightarrow> w \<noteq> [] \<Longrightarrow> hd w \<noteq> c) \<Longrightarrow> strip_any ws (c # s) = c # s"
proof -
  assume h: "\<And>w. w \<in> set ws \<Longrightarrow> w \<noteq> [] \<Longrightarrow> hd w \<noteq> c"
  have "List.find (\<lambda>w. w \<noteq> [] \<and> strip_prefix w (c # s) \<noteq> None) ws = None"
    unfolding find_None_iff using h by (fastforce simp: strip_prefix_Some_iff Cons_eq_append_conv)
  then show ?thesis by (simp add: strip_any.simps [of ws "c # s"])
qed

lemma trim_data_line:
  assumes "c = CHR 0x7D \<or> c = CHR '']''"
  shows "str_trim (CHR ''d'' # s @ [c]) = CHR ''d'' # s @ [c]"
proof -
  have "strip_any white_space (CHR ''d'' # s @ [c]) = CHR ''d'' # s @ [c]"
    by (rule strip_any_none) (auto simp: white_space_def)
  moreover have "strip_any (map rev white_space) (c # rev s @ [CHR ''d'']) = c # rev s @ [CHR ''d'']"
    using assms by (intro strip_any_none) (auto simp: white_space_def)
  ultimately show ?thesis by (simp add: str_trim_def)
qed

lemma utf8_valid_step: "of_char c < (128 :: nat) \<Longrightarrow> utf8_valid (c # s) = utf8_valid s"
  by (simp add: utf8_step_ascii)

lemma sse_line_data:
  assumes "utf8_valid (s @ [c])" "c = CHR 0x7D \<or> c = CHR '']''"
  shows "sse_line (''data: '' @ s @ [c]) = Some (s @ [c])"
proof -
  have valid: "utf8_valid (CHR ''d'' # (''ata: '' @ s) @ [c])"
    using assms(1) by (simp add: utf8_valid_step del: utf8_valid.simps(2))
  show ?thesis
    using valid trim_data_line [OF assms(2), of "''ata: '' @ s"] assms(2)
    by (auto simp: sse_line_def Let_def simp del: utf8_valid.simps(2))
qed

lemma sse_line_one_line: "one_line s \<Longrightarrow> sse_line (''data: '' @ s) = Some s"
  using sse_line_data [of "CHR 0x7B # mid" "CHR 0x7D" for mid] by (auto simp: one_line_def)

lemma sse_line_done: "sse_line ''data: [DONE]'' = Some ''[DONE]''"
  using sse_line_data [of "''[DONE''" "CHR '']''"] by (simp add: utf8_step_ascii)

lemma sse_line_empty: "sse_line [] = None"
  by (simp add: sse_line_def str_trim_def strip_any.simps white_space_def)

text \<open>The bytes of a response, line by line.\<close>

definition event_texts_ok :: "string list \<Rightarrow> bool" where
  "event_texts_ok ts \<longleftrightarrow> (\<forall>t \<in> set ts. CHR 0x0A \<notin> set t \<and> length t + 6 \<le> max_sse_line_bytes \<and>
     sse_line (''data: '' @ t) = Some t)"

lemma event_lines:
  assumes "framed frame" "CHR 0x0A \<notin> set t"
  shows "lines_of (frame t @ rest) = (''data: '' @ t) # [] # lines_of rest"
proof -
  have "frame t @ rest = (''data: '' @ t) @ CHR 0x0A # [] @ CHR 0x0A # rest"
    using assms by (simp add: framed_def)
  then show ?thesis using lines_of_line [of "''data: '' @ t"] assms(2) by simp
qed

lemma body_events:
  assumes "framed frame" "event_texts_ok ts"
  shows "sse_events (concat (map frame ts)) = ts \<and> lines_fit (concat (map frame ts))"
  using assms(2)
proof (induction ts)
  case Nil
  then show ?case by (simp add: sse_events_def lines_fit_def map_filter_simps)
next
  case (Cons t ts)
  then have t: "CHR 0x0A \<notin> set t" "length t + 6 \<le> max_sse_line_bytes" "sse_line (''data: '' @ t) = Some t"
    and "event_texts_ok ts" by (simp_all add: event_texts_ok_def)
  with Cons.IH have "sse_events (concat (map frame ts)) = ts \<and> lines_fit (concat (map frame ts))" by blast
  moreover have "butlast (x # y # lines_of s) = x # y # butlast (lines_of s)" for x y s by simp
  ultimately show ?case
    using t sse_line_empty event_lines [OF assms(1) t(1), of "concat (map frame ts)"]
    by (simp add: sse_events_def lines_fit_def map_filter_simps)
qed

lemma done_text_ok: "event_texts_ok [''[DONE]'']"
  using sse_line_done by (simp add: event_texts_ok_def max_sse_line_bytes_def)

lemma response_texts_ok:
  assumes "printable_values print parse ds"
  shows "event_texts_ok (map (sse_text print) ds)"
proof -
  have "event_texts_ok [sse_text print d]" if "d \<in> set ds" for d
  proof (cases d)
    case (DataJson v)
    with assms that have "one_line (print v)" by (simp add: printable_values_def)
    then show ?thesis
      using sse_line_one_line by (simp add: DataJson event_texts_ok_def one_line_def)
  next
    case DataDone
    then show ?thesis using done_text_ok by simp
  qed
  then show ?thesis by (simp add: event_texts_ok_def)
qed

lemma one_line_not_done: "one_line s \<Longrightarrow> s \<noteq> ''[DONE]''"
  by (auto simp: one_line_def)

lemma step_value:
  assumes "parse t = Inr v" "one_line t"
  shows "openai_step parse (\<lambda>_. None) model t seen =
    Onward (fst (openai_chunk_to_canonical v seen model)) (snd (openai_chunk_to_canonical v seen model))"
  using assms one_line_not_done [OF assms(2)] by (simp add: openai_step_def split_beta)

lemma step_done: "openai_step parse check model ''[DONE]'' seen = Over []"
  by (simp add: openai_step_def)

lemma response_decodes:
  "printable_values print parse (sse_from_response enc items) \<Longrightarrow>
     \<exists>r. sse_batch (openai_step parse (\<lambda>_. None) model) (map (sse_text print) (sse_from_response enc items)) seen =
       (map Inr (arrives enc model seen items), r)"
proof (induction enc items arbitrary: seen rule: sse_from_response.induct)
  case (1 enc)
  then show ?case by (simp add: step_done)
next
  case (2 enc chunk items)
  then have rest: "printable_values print parse (sse_from_response enc items)"
    by (auto simp: printable_values_def split: option.splits)
  show ?case
  proof (cases "encode_into enc chunk")
    case None
    with "2.IH" [OF rest, of seen] show ?thesis by simp
  next
    case (Some v)
    with "2.prems" have v: "parse (print v) = Inr v" "one_line (print v)"
      by (simp_all add: printable_values_def)
    obtain r where "sse_batch (openai_step parse (\<lambda>_. None) model) (map (sse_text print) (sse_from_response enc items)) True =
       (map Inr (arrives enc model True items), r)"
      using "2.IH" [OF rest] by blast
    then show ?thesis
      using Some step_value [of parse "print v" v model seen] v frame_decodes [OF Some, of seen model] by simp
  qed
next
  case (3 enc e items)
  let ?v = "JObject [(''error'', JObject [(''message'', JString (model_error_text e))])]"
  have v: "parse (print ?v) = Inr ?v" "one_line (print ?v)"
    using "3.prems" by (simp_all add: printable_values_def)
  have "openai_chunk_to_canonical ?v seen model = (if seen then [] else [Start [] model], True)"
    by (simp add: openai_chunk_to_canonical_def get_array_def openai_start_def get_str_def hm_get_def)
  then show ?case
    using step_value [of parse "print ?v" ?v model seen] v by (simp add: step_done)
qed

text \<open>
  C14: a response stream crosses from one gateway to the next. However the network cuts the bytes of the
  events, the second gateway's stream is the opening chunk with the first one's response id and model, then, in
  order, every chunk the first one relayed: text and reasoning (empty deltas dropped), tool calls
  with their indices, usage without its cost, finish reasons. An error in the middle ends the events but arrives as
  a normal end of the stream: no item of the result is an error.
\<close>

theorem stream_between_gateways:
  assumes "framed frame"
    and "printable_values print parse (sse_from_response enc items)"
    and "concat pieces = concat (map (\<lambda>d. frame (sse_text print d)) (sse_from_response enc items))"
  shows "openai_sse_to_stream parse (map Inr pieces) model = map Inr (arrives enc model False items)"
proof -
  let ?ts = "map (sse_text print) (sse_from_response enc items)"
  have bytes: "concat pieces = concat (map frame ?ts)" by (simp add: assms(3) o_def)
  have body: "sse_events (concat pieces) = ?ts" "lines_fit (concat pieces)"
    using body_events [OF assms(1) response_texts_ok [OF assms(2)]] by (simp_all only: bytes)
  have "pending [] = []" by (simp add: pending_def)
  with body(2) have "openai_sse_to_stream parse (map Inr pieces) model =
      fst (sse_batch (openai_step parse (\<lambda>_. None) model) ?ts False)"
    unfolding openai_sse_to_stream_def openai_sse_to_stream_checked_def
    by (subst sse_stream_pieces) (simp_all add: body(1))
  then show ?thesis using response_decodes [OF assms(2), of model False] by auto
qed

text \<open>One delta and a finish, printed as two small objects.\<close>

definition sample_encoder :: chunk_encoder where
  "sample_encoder = \<lparr>ce_id = ''r1'', ce_model = ''fast'', ce_created = 0\<rparr>"

definition sample_items :: "(model_error + stream_chunk) list" where
  "sample_items = [Inr (Content 0 ''hi''), Inr (Finish 0 Stop)]"

definition sample_print :: "json \<Rightarrow> string" where
  "sample_print v = (if Some v = encode_into sample_encoder (Content 0 ''hi'') then ''{d}'' else ''{f}'')"

definition sample_parse :: "string \<Rightarrow> string + json" where
  "sample_parse s =
     ok_or (encode_into sample_encoder (if s = ''{d}'' then Content 0 ''hi'' else Finish 0 Stop)) ''no value''"

definition sample_frame :: "string \<Rightarrow> string" where
  "sample_frame s = ''data: '' @ s @ [CHR 0x0A, CHR 0x0A]"

lemma sample_frames_differ:
  "encode_into sample_encoder (Content 0 ''hi'') \<noteq> encode_into sample_encoder (Finish 0 Stop)"
  by (simp add: choice_only_def write_frame_def ser_choice_frame_def field_def json_opt_def)

lemma sample_printable: "printable_values sample_print sample_parse (sse_from_response sample_encoder sample_items)"
proof -
  have "one_line ''{d}''" "one_line ''{f}''"
    by (simp_all add: one_line_def max_sse_line_bytes_def utf8_step_ascii)
  then show ?thesis
    using sample_frames_differ
    by (auto simp: printable_values_def sample_items_def sample_print_def sample_parse_def
          res_simps intro: sym simp del: encode_into.simps split: option.splits if_splits)
qed

theorem stream_between_gateways_witness:
  "openai_sse_to_stream sample_parse
     (map Inr [''dat'', ''a: {d}'' @ [CHR 0x0A], CHR 0x0A # ''data: {f}'' @ [CHR 0x0A, CHR 0x0A],
        ''data: [DONE]'' @ [CHR 0x0A, CHR 0x0A]]) ''m'' =
   [Inr (Start ''r1'' ''fast''), Inr (Content 0 ''hi''), Inr (Finish 0 Stop)]"
proof -
  let ?pieces = "[''dat'', ''a: {d}'' @ [CHR 0x0A], CHR 0x0A # ''data: {f}'' @ [CHR 0x0A, CHR 0x0A],
    ''data: [DONE]'' @ [CHR 0x0A, CHR 0x0A]]"
  have pieces: "concat ?pieces =
      concat (map (\<lambda>d. sample_frame (sse_text sample_print d)) (sse_from_response sample_encoder sample_items))"
    using sample_frames_differ
    by (cases "encode_into sample_encoder (Content 0 ''hi'')"; cases "encode_into sample_encoder (Finish 0 Stop)")
      (simp_all add: sample_items_def sample_frame_def sample_print_def del: encode_into.simps, simp_all)
  have "framed sample_frame" by (simp add: framed_def sample_frame_def)
  from stream_between_gateways [OF this sample_printable pieces, of "''m''"] show ?thesis
    by (simp add: sample_items_def sample_encoder_def)
qed

end
