(* ===== verification/Transports.thy ===== *)
theory Transports
  imports Chain
begin

text \<open>
  A consumer may ask for a stream or for a whole response, and so may a second gateway in front of its
  upstream. Both ways of carrying a completed response over the OpenAI wire end in the same choices.
\<close>

section \<open>The streamed way\<close>

lemma arrives_ok:
  "arrives enc model seen (map Inr cs) =
     (if seen \<or> (\<forall>c \<in> set cs. encode_into enc c = None) then [] else [Start (ce_id enc) (ce_model enc)]) @
     concat (map arriving cs)"
proof (induction cs arbitrary: seen)
  case (Cons c cs)
  then show ?case by (cases "encode_into enc c") (auto simp: silent_chunk)
qed simp

lemma arriving_texts:
  "concat (contributions text_item i (concat (map arriving cs))) = concat (contributions text_item i cs)"
proof (induction cs)
  case (Cons c cs)
  then show ?case by (cases c) auto
qed simp

definition thoughts :: "u32 \<Rightarrow> stream_chunk list \<Rightarrow> string list" where
  "thoughts i cs = List.map_filter thought_text (contributions thinking_item i cs)"

lemma arriving_thinking:
  "contributions thinking_item i (concat (map arriving cs)) = map Inl (filter (\<lambda>t. t \<noteq> []) (thoughts i cs))"
proof (induction cs)
  case (Cons c cs)
  then show ?case by (cases c) (auto simp: thoughts_def List.map_filter_def)
qed (simp add: thoughts_def)

lemma arriving_others:
  "contributions output_item i (concat (map arriving cs)) = []"
  "contributions redacted_item i (concat (map arriving cs)) = []"
  "contributions compaction_item i (concat (map arriving cs)) = []"
  "contributions call_item i (concat (map arriving cs)) = contributions call_item i cs"
  "contributions finish_item i (concat (map arriving cs)) = map wire_finish (contributions finish_item i cs)"
  "List.map_filter chunk_usage (concat (map arriving cs)) = map sent_usage (List.map_filter chunk_usage cs)"
proof (induction cs)
  case (Cons c cs)
  {
    case 1
    from Cons.IH(1) show ?case by (cases c) auto
  next
    case 2
    from Cons.IH(2) show ?case by (cases c) auto
  next
    case 3
    from Cons.IH(3) show ?case by (cases c) auto
  next
    case 4
    from Cons.IH(4) show ?case by (cases c) auto
  next
    case 5
    from Cons.IH(5) show ?case by (cases c) auto
  next
    case 6
    from Cons.IH(6) show ?case by (cases c) (auto simp: List.map_filter_def)
  }
qed (simp_all add: List.map_filter_def)

text \<open>A choice as it arrives.\<close>

definition thought_parts :: "string \<Rightarrow> content_part list" where
  "thought_parts t = (if t = [] then [] else [ThinkingPart t None])"

definition wire_choice :: "stream_chunk list \<Rightarrow> u32 \<Rightarrow> choice" where
  "wire_choice cs i =
     \<lparr>ch_output = [], ch_index = i, ch_text = concat (contributions text_item i cs),
      ch_thinking = thought_parts (concat (thoughts i cs)), ch_compaction = [],
      ch_tool_calls = ref_calls (contributions call_item i cs),
      ch_finish_reason = map_option wire_finish (last_or None (map Some (contributions finish_item i cs)))\<rparr>"

lemma concat_filter_ne: "concat (filter (\<lambda>t. t \<noteq> []) ts) = concat ts"
  by (induction ts) auto

lemma ref_thinking_texts: "ref_thinking (map Inl ts) = thought_parts (concat ts)"
proof -
  have "List.map_filter thought_text (map Inl ts) = ts" "List.map_filter thought_signature (map Inl ts) = []"
    by (induction ts) (simp_all add: List.map_filter_def)
  then show ?thesis by (simp add: ref_thinking_def thought_parts_def Let_def)
qed

lemma last_or_map: "last_or None (map Some (map f xs)) = map_option f (last_or None (map Some xs))"
  by (simp add: last_or_def last_map)

lemma arriving_choice: "ref_choice (concat (map arriving cs)) i = wire_choice cs i"
  unfolding ref_choice_def wire_choice_def arriving_texts arriving_others arriving_thinking
    ref_thinking_texts concat_filter_ne last_or_map by simp

definition completed_choices :: "stream_chunk list \<Rightarrow> bool" where
  "completed_choices cs \<longleftrightarrow>
     (\<forall>i \<in> set (List.map_filter chunk_index cs). contributions finish_item i cs \<noteq> [])"

lemma contribution_indexed: "contributions finish_item i cs \<noteq> [] \<Longrightarrow> i \<in> set (List.map_filter chunk_index cs)"
proof (induction cs)
  case (Cons c cs)
  then show ?case by (cases c) (auto simp: List.map_filter_def split: if_splits)
qed simp

lemma arriving_indices_sub:
  "set (List.map_filter chunk_index (concat (map arriving cs))) \<subseteq> set (List.map_filter chunk_index cs)"
proof (induction cs)
  case (Cons c cs)
  then show ?case by (cases c) (auto simp: List.map_filter_def split: if_splits)
qed simp

lemma arriving_indices:
  assumes "completed_choices cs"
  shows "set (List.map_filter chunk_index (concat (map arriving cs))) = set (List.map_filter chunk_index cs)"
proof
  show "set (List.map_filter chunk_index cs) \<subseteq> set (List.map_filter chunk_index (concat (map arriving cs)))"
    using assms contribution_indexed [of _ "concat (map arriving cs)"]
    by (auto simp: completed_choices_def arriving_others(5))
qed (rule arriving_indices_sub)

lemma last_or_sent_usage: "last_or usage_default (map sent_usage us) = sent_usage (last_or usage_default us)"
  by (simp add: last_or_def last_map) (simp add: sent_usage_def usage_default_def)

lemma streamed_response:
  assumes "completed_choices cs"
  shows "rp_choices (collect_chunks (arrives enc model False (map Inr cs))) =
      map (wire_choice cs) (sorted_list_of_set (set (List.map_filter chunk_index cs)))"
    and "rp_usage (collect_chunks (arrives enc model False (map Inr cs))) = sent_usage (rp_usage (collect_chunks cs))"
proof -
  let ?a = "concat (map arriving cs)"
  have own: "ref_choice (Start rid m # ds) = ref_choice ds" for rid m ds
    by (rule ext) (simp add: ref_choice_def)
  have drop: "List.map_filter chunk_index (Start rid m # ds) = List.map_filter chunk_index ds"
    "List.map_filter chunk_usage (Start rid m # ds) = List.map_filter chunk_usage ds" for rid m ds
    by (simp_all add: List.map_filter_def)
  have eta: "ref_choice ?a = wire_choice cs" by (rule ext) (rule arriving_choice)
  show "rp_choices (collect_chunks (arrives enc model False (map Inr cs))) =
      map (wire_choice cs) (sorted_list_of_set (set (List.map_filter chunk_index cs)))"
    by (simp add: collect_chunks_ref arrives_ok ref_response_def own drop arriving_indices [OF assms] eta)
  show "rp_usage (collect_chunks (arrives enc model False (map Inr cs))) = sent_usage (rp_usage (collect_chunks cs))"
    by (simp add: collect_chunks_ref arrives_ok ref_response_def drop arriving_others(6) last_or_sent_usage)
qed

section \<open>The collected way\<close>

definition call_delta :: "nat \<Rightarrow> tool_call \<Rightarrow> tool_call_delta" where
  "call_delta k t =
     \<lparr>tl_index = of_nat k, tl_id = Some (tc_id t), tl_name = Some (tc_name t), tl_arguments = Some (tc_arguments t)\<rparr>"

definition whole_chunks :: "choice \<Rightarrow> stream_chunk list" where
  "whole_chunks c =
     text_chunk (Thinking (ch_index c)) (choice_reasoning (ch_thinking c)) @
     text_chunk (Content (ch_index c)) (Some (ch_text c)) @
     map (\<lambda>(k, t). ToolCall (ch_index c) (call_delta k t)) (enumerate 0 (ch_tool_calls c)) @
     [Finish (ch_index c) (unwrap_or Stop (map_option wire_finish (ch_finish_reason c)))]"

definition choice_view_of :: "choice \<Rightarrow> choice_view" where
  "choice_view_of c = \<lparr>cv_finish_reason = map_option finish_str (ch_finish_reason c),
     cv_index = ch_index c, cv_message = message_view_of c\<rparr>"

lemma view_fields:
  "choice_index (ser_choice_view v) = cv_index v"
  "json_get (ser_choice_view v) ''message'' = Some (ser_message_view (cv_message v))"
  "get_str (ser_choice_view v) ''finish_reason'' = cv_finish_reason v"
  by (cases "cv_finish_reason v";
      simp add: choice_index_def ser_choice_view_def get_u64_def get_str_def json_opt_def wire_simps)+

lemma view_texts:
  "choice_texts i (Some (ser_message_view m)) =
     text_chunk (Thinking i) (mv_reasoning m) @ text_chunk (Content i) (Some (mv_content m))"
  by (simp add: choice_texts_def openai_reasoning_def ser_message_view_def get_str_def wire_simps)

lemma view_calls:
  "get_array (ser_message_view m) ''tool_calls'' =
     (if mv_tool_calls m = [] then None else Some (map ser_tool_call_view (mv_tool_calls m)))"
  by (simp add: ser_message_view_def get_array_def wire_simps)

lemma view_call:
  "openai_tool_call (of_nat k) (ser_tool_call_view \<lparr>tv_arguments = a, tv_name = n, tv_id = t\<rparr>) =
     call_delta k \<lparr>tc_id = t, tc_name = n, tc_arguments = a\<rparr>"
  by (simp add: openai_tool_call_def ser_tool_call_view_def call_delta_def get_str_def wire_simps)

lemma enumerate_map: "enumerate k (map f xs) = map (\<lambda>(i, x). (i, f x)) (enumerate k xs)"
  by (induction xs arbitrary: k) simp_all

lemma whole_choice_view: "whole_choice (ser_choice_view (choice_view_of c)) = whole_chunks c"
proof -
  have "map (\<lambda>(i, tc). ToolCall (ch_index c) (openai_tool_call (of_nat i) tc))
      (enumerate 0 (map ser_tool_call_view (mv_tool_calls (message_view_of c)))) =
    map (\<lambda>(k, t). ToolCall (ch_index c) (call_delta k t)) (enumerate 0 (ch_tool_calls c))"
    by (simp add: message_view_of_def enumerate_map o_def split_beta view_call call_delta_def)
  moreover have "map_option map_finish (map_option finish_str r) = map_option wire_finish r" for r
    by (cases r) (simp_all add: map_finish_str del: map_finish.simps)
  ultimately show ?thesis
    unfolding whole_choice_def view_fields view_texts Let_def whole_chunks_def
    by (simp add: choice_view_of_def view_texts view_calls del: map_finish.simps)
      (simp add: message_view_of_def)
qed

lemma whole_decodes:
  "openai_to_chunks (response_to_openai resp created) fm =
     Start (rp_id resp) (rp_model resp) # concat (map whole_chunks (rp_choices resp)) @
     [UsageReport (sent_usage (rp_usage resp))]"
proof -
  let ?v = "ser_completion_view (completion_view_of resp created)"
  have "get_array ?v ''choices'' = Some (map (\<lambda>c. ser_choice_view (choice_view_of c)) (rp_choices resp))"
    by (simp add: ser_completion_view_def completion_view_of_def get_array_def choice_view_of_def wire_simps)
  moreover have "openai_start ?v fm = Start (rp_id resp) (rp_model resp)"
    by (simp add: ser_completion_view_def completion_view_of_def openai_start_def get_str_def wire_simps)
  moreover have "json_get ?v ''usage'' = Some (ser_usage (usage_frame_from (rp_usage resp)))"
    by (simp add: ser_completion_view_def completion_view_of_def wire_simps)
  ultimately show ?thesis
    by (simp add: openai_to_chunks_def response_to_openai_def o_def whole_choice_view openai_usage_sent)
qed

text \<open>What one choice contributes.\<close>

lemma whole_chunks_own:
  assumes "j \<noteq> ch_index c"
  shows "contributions text_item j (whole_chunks c) = []" "contributions thinking_item j (whole_chunks c) = []"
    "contributions call_item j (whole_chunks c) = []" "contributions finish_item j (whole_chunks c) = []"
  using assms by (auto simp: whole_chunks_def text_chunk_def contributions_def List.map_filter_def
      filter_empty_conv split: option.splits)

lemma whole_chunks_none:
  "contributions output_item j (whole_chunks c) = []" "contributions redacted_item j (whole_chunks c) = []"
  "contributions compaction_item j (whole_chunks c) = []" "List.map_filter chunk_usage (whole_chunks c) = []"
  by (auto simp: whole_chunks_def text_chunk_def contributions_def List.map_filter_def
      filter_empty_conv split: option.splits)

lemma contributions_calls:
  "contributions call_item i (map (\<lambda>(k, t). ToolCall i (f k t)) kts) = map (\<lambda>(k, t). f k t) kts"
  "contributions text_item i (map (\<lambda>(k, t). ToolCall i (f k t)) kts) = []"
  "contributions thinking_item i (map (\<lambda>(k, t). ToolCall i (f k t)) kts) = []"
  "contributions finish_item i (map (\<lambda>(k, t). ToolCall i (f k t)) kts) = []"
  by (induction kts) (auto simp: split_beta)

lemma whole_chunks_contributions:
  "concat (contributions text_item (ch_index c) (whole_chunks c)) = ch_text c"
  "contributions thinking_item (ch_index c) (whole_chunks c) =
     map Inl (filter (\<lambda>t. t \<noteq> []) [unwrap_or [] (choice_reasoning (ch_thinking c))])"
  "contributions call_item (ch_index c) (whole_chunks c) =
     map (\<lambda>(k, t). call_delta k t) (enumerate 0 (ch_tool_calls c))"
  "contributions finish_item (ch_index c) (whole_chunks c) =
     [unwrap_or Stop (map_option wire_finish (ch_finish_reason c))]"
  by (auto simp: whole_chunks_def text_chunk_def contributions_calls split: option.splits)

lemma contributions_concat: "contributions item i (concat css) = concat (map (contributions item i) css)"
  by (induction css) simp_all

lemma contributions_choices:
  assumes "distinct (map ch_index choices)" "c \<in> set choices"
    and "\<And>c j. j \<noteq> ch_index c \<Longrightarrow> contributions item j (whole_chunks c) = []"
  shows "contributions item (ch_index c) (concat (map whole_chunks choices)) =
    contributions item (ch_index c) (whole_chunks c)"
  using assms(1,2)
proof (induction choices)
  case (Cons d ds)
  have none: "contributions item (ch_index c) (concat (map whole_chunks es)) = []"
    if "ch_index c \<notin> set (map ch_index es)" for es
    using that by (induction es) (auto simp: assms(3))
  show ?case
  proof (cases "c = d")
    case True
    with Cons.prems none [of ds] show ?thesis by simp
  next
    case False
    with Cons.prems have "ch_index c \<in> ch_index ` set ds" "ch_index d \<notin> ch_index ` set ds" by auto
    then have "ch_index c \<noteq> ch_index d" by metis
    with Cons False show ?thesis by (auto simp: assms(3))
  qed
qed simp

text \<open>Whole tool calls, numbered from zero, are collected as they are.\<close>

lemma sorted_of_nat_u32:
  assumes "n \<le> 2 ^ 32"
  shows "sorted_list_of_set ((of_nat :: nat \<Rightarrow> u32) ` {0..<n}) = map of_nat [0..<n]"
proof -
  have un: "unat (of_nat k :: u32) = k" if "k < n" for k
    using that assms by (simp add: unat_of_nat take_bit_nat_eq_self)
  have "sorted (map (of_nat :: nat \<Rightarrow> u32) [0..<n])"
    by (auto simp: sorted_iff_nth_mono word_le_nat_alt un)
  moreover have "distinct (map (of_nat :: nat \<Rightarrow> u32) [0..<n])"
    by (auto simp: distinct_map inj_on_def) (metis un)
  ultimately show ?thesis
    using sorted_list_of_set.idem_if_sorted_distinct [of "map (of_nat :: nat \<Rightarrow> u32) [0..<n]"] by simp
qed

lemma filter_upt_single: "k < n \<Longrightarrow> filter (\<lambda>j. j = k) [0..<n] = [k]"
  by (induction n) (auto simp: filter_empty_conv less_Suc_eq)

lemma ref_calls_whole:
  assumes "length ts \<le> 2 ^ 32"
  shows "ref_calls (map (\<lambda>(k, t). call_delta k t) (enumerate 0 ts)) = ts"
proof -
  let ?n = "length ts"
  let ?ds = "map (\<lambda>k. call_delta k (ts ! k)) [0..<?n]"
  have ds: "map (\<lambda>(k, t). call_delta k t) (enumerate 0 ts) = ?ds"
    by (rule nth_equalityI) (simp_all add: nth_enumerate_eq)
  have un: "unat (of_nat k :: u32) = k" if "k < ?n" for k
    using that assms by (simp add: unat_of_nat take_bit_nat_eq_self)
  have "filter (\<lambda>d. tl_index d = of_nat k) ?ds = [call_delta k (ts ! k)]" if "k < ?n" for k
  proof -
    have "filter (\<lambda>d. tl_index d = of_nat k) ?ds = map (\<lambda>j. call_delta j (ts ! j)) (filter (\<lambda>j. j = k) [0..<?n])"
      by (simp add: filter_map o_def call_delta_def)
        (rule arg_cong [where f = "map _"], rule filter_cong [OF refl], metis atLeastLessThan_iff set_upt that un)
    also have "filter (\<lambda>j. j = k) [0..<?n] = [k]"
      using that by (rule filter_upt_single)
    finally show ?thesis by simp
  qed
  moreover have "tl_index ` set ?ds = of_nat ` {0..<?n}"
    by (auto simp: call_delta_def image_image)
  ultimately have "ref_calls ?ds = map (\<lambda>k. ref_call [call_delta k (ts ! k)]) [0..<?n]"
    by (simp add: ref_calls_def sorted_of_nat_u32 [OF assms])
  also have "\<dots> = map (\<lambda>k. ts ! k) [0..<?n]"
    by (simp add: ref_call_def call_delta_def last_or_def)
  finally show ?thesis by (simp add: ds map_nth)
qed

lemma ref_calls_length: "length (ref_calls ds) \<le> 2 ^ 32"
proof -
  have "card (tl_index ` set ds) \<le> card (UNIV :: u32 set)" by (rule card_mono) simp_all
  then show ?thesis by (simp add: ref_calls_def card_word)
qed

lemma reasoning_ref:
  "thought_parts (unwrap_or [] (choice_reasoning (ref_thinking ts @ map RedactedThinkingPart rs))) =
     thought_parts (concat (List.map_filter thought_text ts))"
proof -
  have red: "List.map_filter open_thinking (map RedactedThinkingPart rs) = []"
    by (simp add: List.map_filter_def)
  show ?thesis
    by (simp add: choice_reasoning_def red ref_thinking_def thought_parts_def Let_def)
qed

lemma collected_choice:
  assumes "distinct idxs" "i \<in> set idxs"
  shows "ref_choice (concat (map whole_chunks (map (ref_choice cs) idxs))) i =
    wire_choice cs i\<lparr>ch_finish_reason := Some (unwrap_or Stop (map_option wire_finish (ch_finish_reason (ref_choice cs i))))\<rparr>"
proof -
  let ?c = "ref_choice cs i"
  let ?all = "concat (map whole_chunks (map (ref_choice cs) idxs))"
  have idx: "ch_index (ref_choice cs j) = j" for j by (simp add: ref_choice_def)
  have d: "distinct (map ch_index (map (ref_choice cs) idxs))" "?c \<in> set (map (ref_choice cs) idxs)"
    using assms by (simp_all add: o_def idx)
  note at = contributions_choices [OF d, unfolded idx]
  have none: "contributions output_item i ?all = []" "contributions redacted_item i ?all = []"
    "contributions compaction_item i ?all = []"
    by (simp_all add: contributions_concat o_def whole_chunks_none del: map_map)
  have words: "contributions text_item i ?all = contributions text_item i (whole_chunks ?c)"
    by (rule at) (rule whole_chunks_own(1))
  have think: "contributions thinking_item i ?all = contributions thinking_item i (whole_chunks ?c)"
    by (rule at) (rule whole_chunks_own(2))
  have calls: "contributions call_item i ?all = contributions call_item i (whole_chunks ?c)"
    by (rule at) (rule whole_chunks_own(3))
  have finish: "contributions finish_item i ?all = contributions finish_item i (whole_chunks ?c)"
    by (rule at) (rule whole_chunks_own(4))
  note own = whole_chunks_contributions [of ?c, unfolded idx]
  have "ref_calls (contributions call_item i ?all) = ch_tool_calls ?c"
    unfolding calls own by (rule ref_calls_whole) (use ref_calls_length [of "contributions call_item i cs"] in \<open>simp add: ref_choice_def\<close>)
  moreover have "ref_thinking (contributions thinking_item i ?all) = thought_parts (concat (thoughts i cs))"
    unfolding think own ref_thinking_texts concat_filter_ne
    by (simp add: ref_choice_def thoughts_def reasoning_ref)
  moreover have "concat (contributions text_item i ?all) = ch_text ?c"
    unfolding words own ..
  ultimately show ?thesis
    unfolding ref_choice_def [of ?all] none finish own
    by (simp add: wire_choice_def last_or_def) (simp add: ref_choice_def)
qed

lemma whole_chunks_index: "set (List.map_filter chunk_index (whole_chunks c)) = {ch_index c}"
  by (auto simp: whole_chunks_def text_chunk_def List.map_filter_def split: option.splits)

lemma collected_indices:
  "set (List.map_filter chunk_index (concat (map whole_chunks choices))) = set (map ch_index choices)"
  by (induction choices) (simp_all add: whole_chunks_index)

lemma collected_usage_none: "List.map_filter chunk_usage (concat (map whole_chunks choices)) = []"
  by (induction choices) (simp_all add: whole_chunks_none)

text \<open>
  a whole response and a stream agree. Take a response whose every choice has finished. Sent as a
  \<open>chat.completion\<close> object and read back, or sent as events and read back as a stream, it collects to
  the same choices, index for index: same text, same open reasoning, same tool calls in the same
  order with the same ids and arguments, same finish reason; and to the same usage. No choice is lost
  or gained on either way.
\<close>

theorem transports_agree:
  assumes "completed_choices cs"
  shows "let whole = collect_chunks (openai_to_chunks (response_to_openai (collect_chunks cs) created) model);
      streamed = collect_chunks (arrives enc model' False (map Inr cs))
    in rp_choices whole = rp_choices streamed \<and> rp_usage whole = rp_usage streamed \<and>
      map ch_index (rp_choices whole) = map ch_index (rp_choices (collect_chunks cs))"
proof -
  let ?is = "sorted_list_of_set (set (List.map_filter chunk_index cs))"
  let ?all = "concat (map whole_chunks (map (ref_choice cs) ?is))"
  let ?u = "rp_usage (collect_chunks cs)"
  let ?whole = "collect_chunks (openai_to_chunks (response_to_openai (collect_chunks cs) created) model)"
  have choices: "rp_choices (collect_chunks cs) = map (ref_choice cs) ?is"
    by (simp add: collect_chunks_ref ref_response_def)
  have idx: "ch_index (ref_choice cs j) = j" for j by (simp add: ref_choice_def)
  have whole: "openai_to_chunks (response_to_openai (collect_chunks cs) created) model =
      Start (rp_id (collect_chunks cs)) (rp_model (collect_chunks cs)) # ?all @ [UsageReport (sent_usage ?u)]"
    by (simp only: whole_decodes choices)
  have book: "ref_choice (Start rid m # ds @ [UsageReport u]) i = ref_choice ds i" for rid m ds u i
    by (simp add: ref_choice_def)
  have indices: "List.map_filter chunk_index (Start rid m # ds @ [UsageReport u]) = List.map_filter chunk_index ds"
    "List.map_filter chunk_usage (Start rid m # ds @ [UsageReport u]) = List.map_filter chunk_usage ds @ [u]"
    for rid m ds u by (simp_all add: List.map_filter_def)
  have finished: "contributions finish_item i cs \<noteq> []" if "i \<in> set ?is" for i
    using assms that by (simp add: completed_choices_def)
  have each: "ref_choice ?all i = wire_choice cs i" if "i \<in> set ?is" for i
  proof -
    have "Some (unwrap_or Stop (map_option wire_finish (ch_finish_reason (ref_choice cs i)))) =
        ch_finish_reason (wire_choice cs i)"
      using finished [OF that] by (simp add: ref_choice_def wire_choice_def last_or_def last_map)
    moreover have "wire_choice cs i\<lparr>ch_finish_reason := ch_finish_reason (wire_choice cs i)\<rparr> = wire_choice cs i"
      by simp
    ultimately show ?thesis
      using collected_choice [OF distinct_sorted_list_of_set that] by (simp only:)
  qed
  have R: "?whole = ref_response (Start (rp_id (collect_chunks cs)) (rp_model (collect_chunks cs)) # ?all @
      [UsageReport (sent_usage ?u)])"
    by (rule trans [OF arg_cong [where f = collect_chunks, OF whole] collect_chunks_ref])
  have idset: "set (map ch_index (map (ref_choice cs) ?is)) = set (List.map_filter chunk_index cs)"
    by (simp add: idx image_image)
  have same: "rp_choices ?whole = map (wire_choice cs) ?is"
    unfolding R ref_response_def chat_response.simps book indices collected_indices idset
    by (rule map_cong [OF refl each])
  have usage: "rp_usage ?whole = sent_usage ?u"
    unfolding R ref_response_def chat_response.simps indices collected_usage_none
    by (simp add: last_or_def)
  show ?thesis
    unfolding Let_def same usage streamed_response [OF assms] choices
    by (simp add: wire_choice_def ref_choice_def o_def)
qed

theorem transports_agree_witness:
  "let cs = [Content 0 ''hi'', Finish 0 Stop];
       whole = collect_chunks (openai_to_chunks (response_to_openai (collect_chunks cs) 0) ''m'');
       streamed = collect_chunks (arrives sample_encoder ''n'' False (map Inr cs))
   in rp_choices whole = rp_choices streamed \<and> map ch_index (rp_choices whole) = [0]"
proof -
  let ?cs = "[Content 0 ''hi'', Finish 0 Stop]"
  have "completed_choices ?cs" by (simp add: completed_choices_def List.map_filter_def)
  moreover have "map ch_index (rp_choices (collect_chunks ?cs)) = [0]"
    by (simp add: collect_chunks_ref ref_response_def ref_choice_def List.map_filter_def)
  ultimately show ?thesis
    using transports_agree [of ?cs 0 "''m''" sample_encoder "''n''"] unfolding Let_def by metis
qed

end
