(* ===== verification/Anthropic.thy ===== *)
theory Anthropic
  imports Wire
begin

text \<open>
  The Messages surface, \<open>crates/llmleaf-core/src/compat/anthropic.rs\<close>: a request body to a canonical
  request, a canonical response to a \<open>message\<close> object, a canonical stream to the events of a
  message, and \<open>anthropic_sse_from_response\<close> of server.rs. Parameters: \<open>print\<close> and \<open>parse\<close> are
  serde_json's printer and parser, \<open>dbg\<close> the \<open>{:?}\<close> rendering of an optional string.
\<close>

section \<open>Requests\<close>

text \<open>\<open>system_text\<close> joins blocks with an empty line, \<open>block_text\<close> with nothing.\<close>

definition system_text :: "json \<Rightarrow> string" where
  "system_text value =
     (case value of
        JString s \<Rightarrow> s
      | JArray parts \<Rightarrow>
          fold (\<lambda>part out. case get_str part ''text'' of
              None \<Rightarrow> out
            | Some t \<Rightarrow> (if out = [] then out else out @ [CHR 0x0A, CHR 0x0A]) @ t) parts []
      | _ \<Rightarrow> [])"

definition block_text :: "json \<Rightarrow> string" where
  "block_text value =
     (case value of
        JString s \<Rightarrow> s
      | JArray parts \<Rightarrow>
          fold (\<lambda>part out. case get_str part ''text'' of None \<Rightarrow> out | Some t \<Rightarrow> out @ t) parts []
      | _ \<Rightarrow> [])"

definition parse_compaction :: "json_map \<Rightarrow> model_error + content_part" where
  "parse_compaction obj =
     (case get_str (JObject obj) ''content'' of
        None \<Rightarrow> Inl (Mapping ''compaction block requires string `content`'')
      | Some content \<Rightarrow>
          Inr (CompactionPart None None (Some content) None (get_str (JObject obj) ''signature'')))"

definition user_message :: "content_part list \<Rightarrow> message" where
  "user_message content =
     \<lparr>me_role = User, me_content = content, me_tool_calls = [], me_tool_call_id = None, me_name = None\<rparr>"

definition image_part :: "(string option \<Rightarrow> string) \<Rightarrow> json_map \<Rightarrow> model_error + content_part" where
  "image_part dbg block =
     (case hm_get block ''source'' of
        None \<Rightarrow> Inl (Mapping ''image block missing `source`'')
      | Some source \<Rightarrow>
          (let ty = get_str source ''type''
           in if ty = Some ''url'' then
                (case get_str source ''url'' of
                   None \<Rightarrow> Inl (Mapping ''image url source missing `url`'')
                 | Some url \<Rightarrow> Inr (ImageUrl url None))
              else if ty = Some ''base64'' then
                (case get_str source ''data'' of
                   None \<Rightarrow> Inl (Mapping ''image base64 source missing `data`'')
                 | Some data \<Rightarrow>
                     Inr (ImageUrl (''data:'' @ unwrap_or ''application/octet-stream'' (get_str source ''media_type'') @
                       '';base64,'' @ data) None))
              else Inl (Mapping (''unsupported image source '' @ dbg ty))))"

text \<open>The blocks of a user turn, collected into tool messages and the parts that are left.\<close>

definition tool_message :: "json \<Rightarrow> message" where
  "tool_message block =
     \<lparr>me_role = Tool,
      me_content = [Text (unwrap_or [] (map_option block_text (json_get block ''content'')))],
      me_tool_calls = [], me_tool_call_id = Some (unwrap_or [] (get_str block ''tool_use_id'')),
      me_name = None\<rparr>"

definition user_block ::
  "(string option \<Rightarrow> string) \<Rightarrow> json \<Rightarrow> message list \<times> content_part list \<Rightarrow>
     model_error + message list \<times> content_part list" where
  "user_block dbg block st =
     (let (tool_msgs, parts) = st
      in case block of
        JObject obj \<Rightarrow>
          (let ty = get_str block ''type''
           in if ty = Some ''text'' then
                Inr (tool_msgs, parts @ [Text (unwrap_or [] (get_str block ''text''))])
              else if ty = Some ''image'' then
                res_bind (image_part dbg obj) (\<lambda>p. Inr (tool_msgs, parts @ [p]))
              else if ty = Some ''compaction'' then
                res_bind (parse_compaction obj) (\<lambda>p. Inr (tool_msgs, parts @ [p]))
              else if ty = Some ''tool_result'' then Inr (tool_msgs @ [tool_message block], parts)
              else Inl (Mapping (''unsupported user content block '' @ dbg ty)))
      | _ \<Rightarrow> Inl (Mapping ''content block must be an object''))"

fun each_block :: "(json \<Rightarrow> 's \<Rightarrow> 'e + 's) \<Rightarrow> json list \<Rightarrow> 's \<Rightarrow> 'e + 's" where
  "each_block f [] st = Inr st"
| "each_block f (block # blocks) st = res_bind (f block st) (each_block f blocks)"

text \<open>What a turn appends to the messages. A turn of tool results only leaves no user message.\<close>

definition parse_user_content ::
  "(string option \<Rightarrow> string) \<Rightarrow> json option \<Rightarrow> model_error + message list" where
  "parse_user_content dbg content =
     (case content of
        None \<Rightarrow> Inr [user_message []]
      | Some JNull \<Rightarrow> Inr [user_message []]
      | Some (JString t) \<Rightarrow> Inr [message_text User t]
      | Some (JArray blocks) \<Rightarrow>
          res_bind (each_block (user_block dbg) blocks ([], [])) (\<lambda>(tool_msgs, parts).
            Inr (tool_msgs @ (if parts \<noteq> [] \<or> tool_msgs = [] then [user_message parts] else [])))
      | Some _ \<Rightarrow> Inl (Mapping ''message `content` must be a string, array, or null''))"

definition tool_use_call :: "(json \<Rightarrow> string) \<Rightarrow> json \<Rightarrow> tool_call" where
  "tool_use_call print block =
     \<lparr>tc_id = unwrap_or [] (get_str block ''id''), tc_name = unwrap_or [] (get_str block ''name''),
      tc_arguments = unwrap_or ''{}'' (map_option print (json_get block ''input''))\<rparr>"

definition assistant_block ::
  "(json \<Rightarrow> string) \<Rightarrow> (string option \<Rightarrow> string) \<Rightarrow> json \<Rightarrow> content_part list \<times> tool_call list \<Rightarrow>
     model_error + content_part list \<times> tool_call list" where
  "assistant_block print dbg block st =
     (let (parts, tool_calls) = st
      in case block of
        JObject obj \<Rightarrow>
          (let ty = get_str block ''type''
           in if ty = Some ''text'' then
                Inr (parts @ [Text (unwrap_or [] (get_str block ''text''))], tool_calls)
              else if ty = Some ''tool_use'' then Inr (parts, tool_calls @ [tool_use_call print block])
              else if ty = Some ''thinking'' then
                Inr (parts @ [ThinkingPart (unwrap_or [] (get_str block ''thinking''))
                  (get_str block ''signature'')], tool_calls)
              else if ty = Some ''redacted_thinking'' then
                Inr (parts @ [RedactedThinkingPart (unwrap_or [] (get_str block ''data''))], tool_calls)
              else if ty = Some ''compaction'' then
                res_bind (parse_compaction obj) (\<lambda>p. Inr (parts @ [p], tool_calls))
              else Inl (Mapping (''unsupported assistant content block '' @ dbg ty)))
      | _ \<Rightarrow> Inl (Mapping ''content block must be an object''))"

definition parse_assistant_message ::
  "(json \<Rightarrow> string) \<Rightarrow> (string option \<Rightarrow> string) \<Rightarrow> json option \<Rightarrow> model_error + message" where
  "parse_assistant_message print dbg content =
     res_bind (case content of
         None \<Rightarrow> Inr ([], [])
       | Some JNull \<Rightarrow> Inr ([], [])
       | Some (JString t) \<Rightarrow> Inr ([Text t], [])
       | Some (JArray blocks) \<Rightarrow> each_block (assistant_block print dbg) blocks ([], [])
       | Some _ \<Rightarrow> Inl (Mapping ''assistant `content` must be a string, array, or null'')) (\<lambda>(parts, tool_calls).
     Inr \<lparr>me_role = Assistant, me_content = parts, me_tool_calls = tool_calls, me_tool_call_id = None,
       me_name = None\<rparr>)"

definition parse_turn ::
  "(json \<Rightarrow> string) \<Rightarrow> (string option \<Rightarrow> string) \<Rightarrow> json \<Rightarrow> model_error + message list" where
  "parse_turn print dbg value =
     (case value of
        JObject obj \<Rightarrow>
          (case hm_get obj ''role'' of
             Some (JString r) \<Rightarrow>
               (let content = hm_get obj ''content''
                in if r = ''user'' then parse_user_content dbg content
                   else if r = ''assistant'' then
                     res_bind (parse_assistant_message print dbg content) (\<lambda>m. Inr [m])
                   else Inl (Mapping (''unknown message role `'' @ r @ ''`'')))
           | _ \<Rightarrow> Inl (Mapping ''message is missing `role`''))
      | _ \<Rightarrow> Inl (Mapping ''each message must be an object''))"

definition parse_anthropic_tool :: "json \<Rightarrow> model_error + tool_def" where
  "parse_anthropic_tool t =
     (case get_str t ''name'' of
        None \<Rightarrow> Inl (Mapping ''tool missing `name`'')
      | Some name \<Rightarrow>
          Inr \<lparr>td_name = name, td_description = get_str t ''description'',
            td_parameters = unwrap_or JNull (json_get t ''input_schema'')\<rparr>)"

definition parse_anthropic_tools :: "json option \<Rightarrow> model_error + tool_def list" where
  "parse_anthropic_tools value =
     (case value of Some (JArray items) \<Rightarrow> try_map parse_anthropic_tool items | _ \<Rightarrow> Inr [])"

definition parse_anthropic_choice :: "json option \<Rightarrow> tool_choice option" where
  "parse_anthropic_choice value =
     (case value of
        Some (JObject obj) \<Rightarrow>
          (let ty = get_str (JObject obj) ''type''
           in if ty = Some ''auto'' then Some ChooseAuto
              else if ty = Some ''any'' then Some ChooseRequired
              else if ty = Some ''tool'' then map_option Named (get_str (JObject obj) ''name'')
              else if ty = Some ''none'' then Some ChooseNone
              else None)
      | _ \<Rightarrow> None)"

definition parse_stop_sequences :: "json option \<Rightarrow> string list" where
  "parse_stop_sequences value =
     (case value of
        Some (JString s) \<Rightarrow> [s]
      | Some (JArray xs) \<Rightarrow> List.map_filter as_str xs
      | _ \<Rightarrow> [])"

definition system_messages :: "json option \<Rightarrow> message list" where
  "system_messages system =
     (case system of
        None \<Rightarrow> []
      | Some v \<Rightarrow> if system_text v = [] then [] else [message_text System (system_text v)])"

definition parse_messages_request ::
  "(json \<Rightarrow> string) \<Rightarrow> (string option \<Rightarrow> string) \<Rightarrow> json \<Rightarrow> model_error + chat_request" where
  "parse_messages_request print dbg value =
     (case value of
        JObject obj \<Rightarrow>
          (case hm_get obj ''model'' of
             Some (JString model) \<Rightarrow>
               (let obj = hm_remove ''model'' obj
                in res_bind (case hm_get obj ''max_tokens'' of
                     None \<Rightarrow> Inl (Mapping ''`max_tokens` is required'')
                   | Some v \<Rightarrow> ok_or (map_option ucast (as_u64 v)) (Mapping ''`max_tokens` must be an integer''))
                   (\<lambda>max_tokens.
                let obj = hm_remove ''max_tokens'' obj;
                    system = system_messages (hm_get obj ''system'');
                    obj = hm_remove ''system'' obj
                in res_bind (case hm_get obj ''messages'' of
                     Some (JArray items) \<Rightarrow> Inr items
                   | _ \<Rightarrow> Inl (Mapping ''`messages` is required and must be an array'')) (\<lambda>convo.
                res_bind (try_map (parse_turn print dbg) convo) (\<lambda>turns.
                let obj = hm_remove ''messages'' obj;
                    temperature = hm_get obj ''temperature'';
                    obj = hm_remove ''temperature'' obj;
                    top_p = hm_get obj ''top_p'';
                    obj = hm_remove ''top_p'' obj;
                    stop = parse_stop_sequences (hm_get obj ''stop_sequences'');
                    obj = hm_remove ''stop_sequences'' obj;
                    stream = unwrap_or False (Option.bind (hm_get obj ''stream'') as_bool);
                    obj = hm_remove ''stream'' obj
                in res_bind (parse_anthropic_tools (hm_get obj ''tools'')) (\<lambda>tools.
                let obj = hm_remove ''tools'' obj;
                    choice = parse_anthropic_choice (hm_get obj ''tool_choice'');
                    obj = hm_remove ''tool_choice'' obj
                in Inr \<lparr>cq_model = model, cq_messages = system @ concat turns,
                     cq_max_tokens = Some max_tokens,
                     cq_temperature = map_option f32_round (Option.bind temperature as_f64),
                     cq_top_p = map_option f32_round (Option.bind top_p as_f64),
                     cq_stop = stop, cq_stream = stream, cq_tools = tools, cq_tool_choice = choice,
                     cq_thinking = None, cq_extra = obj\<rparr>)))))
           | _ \<Rightarrow> Inl (Mapping ''`model` is required and must be a string''))
      | _ \<Rightarrow> Inl (Mapping ''request body must be a JSON object''))"

section \<open>Whole responses\<close>

fun finish_to_anthropic :: "finish_reason \<Rightarrow> string" where
  "finish_to_anthropic Stop = ''end_turn''"
| "finish_to_anthropic Length = ''max_tokens''"
| "finish_to_anthropic ToolCalls = ''tool_use''"
| "finish_to_anthropic ContentFilter = ''refusal''"
| "finish_to_anthropic FinishError = ''end_turn''"
| "finish_to_anthropic FinishCompaction = ''compaction''"

record usage_out =
  uo_input :: u64
  uo_output :: u64
  uo_cost_usd :: "real option"

definition usage_out_from :: "usage \<Rightarrow> usage_out" where
  "usage_out_from u =
     \<lparr>uo_input = ug_prompt u, uo_output = ug_completion u, uo_cost_usd = ug_cost_usd u\<rparr>"

definition ser_usage_out :: "usage_out \<Rightarrow> json" where
  "ser_usage_out u = JObject
     (field ''input_tokens'' (json_u64 (uo_input u)) @ field ''output_tokens'' (json_u64 (uo_output u)) @
      opt_field ''cost_usd'' json_f64 (uo_cost_usd u))"

datatype content_block_out =
    TextOut string
  | ThinkingOut string "string option"
  | RedactedThinkingOut string
  | CompactionOut string "string option"
  | ToolUseOut string string json

fun ser_content_block :: "content_block_out \<Rightarrow> json" where
  "ser_content_block (TextOut t) = JObject
     (field ''type'' (JString ''text'') @ field ''text'' (JString t))"
| "ser_content_block (ThinkingOut t signature) = JObject
     (field ''type'' (JString ''thinking'') @ field ''thinking'' (JString t) @
      opt_field ''signature'' JString signature)"
| "ser_content_block (RedactedThinkingOut data) = JObject
     (field ''type'' (JString ''redacted_thinking'') @ field ''data'' (JString data))"
| "ser_content_block (CompactionOut content signature) = JObject
     (field ''type'' (JString ''compaction'') @ field ''content'' (JString content) @
      opt_field ''signature'' JString signature)"
| "ser_content_block (ToolUseOut i name input) = JObject
     (field ''type'' (JString ''tool_use'') @ field ''id'' (JString i) @ field ''name'' (JString name) @
      field ''input'' input)"

record anthropic_message =
  am_id :: string
  am_model :: string
  am_content :: "content_block_out list"
  am_stop_reason :: string
  am_usage :: usage_out

definition ser_anthropic_message :: "anthropic_message \<Rightarrow> json" where
  "ser_anthropic_message m = JObject
     (field ''id'' (JString (am_id m)) @ field ''type'' (JString ''message'') @
      field ''role'' (JString ''assistant'') @ field ''model'' (JString (am_model m)) @
      field ''content'' (JArray (map ser_content_block (am_content m))) @
      field ''stop_reason'' (JString (am_stop_reason m)) @ field ''stop_sequence'' JNull @
      field ''usage'' (ser_usage_out (am_usage m)))"

fun thinking_out :: "content_part \<Rightarrow> content_block_out option" where
  "thinking_out (ThinkingPart t signature) = Some (ThinkingOut t signature)"
| "thinking_out (RedactedThinkingPart data) = Some (RedactedThinkingOut data)"
| "thinking_out _ = None"

fun compaction_out :: "content_part \<Rightarrow> content_block_out option" where
  "compaction_out (CompactionPart oi i (Some summary) encrypted signature) = Some (CompactionOut summary signature)"
| "compaction_out _ = None"

text \<open>Arguments that are not JSON become an empty object.\<close>

definition parsed_arguments :: "(string \<Rightarrow> string + json) \<Rightarrow> string \<Rightarrow> json" where
  "parsed_arguments parse arguments = (case parse arguments of Inl _ \<Rightarrow> JObject [] | Inr v \<Rightarrow> v)"

definition choice_blocks :: "(string \<Rightarrow> string + json) \<Rightarrow> choice \<Rightarrow> content_block_out list" where
  "choice_blocks parse c =
     List.map_filter thinking_out (ch_thinking c) @ List.map_filter compaction_out (ch_compaction c) @
     (if ch_text c = [] then [] else [TextOut (ch_text c)]) @
     map (\<lambda>call. ToolUseOut (tc_id call) (tc_name call) (parsed_arguments parse (tc_arguments call)))
       (ch_tool_calls c)"

definition response_to_anthropic ::
  "(string \<Rightarrow> string + json) \<Rightarrow> chat_response \<Rightarrow> string \<Rightarrow> anthropic_message" where
  "response_to_anthropic parse resp mid =
     (let first = (case rp_choices resp of [] \<Rightarrow> None | c # _ \<Rightarrow> Some c)
      in \<lparr>am_id = mid, am_model = rp_model resp,
          am_content = (case first of None \<Rightarrow> [] | Some c \<Rightarrow> choice_blocks parse c),
          am_stop_reason =
            unwrap_or ''end_turn'' (map_option finish_to_anthropic (Option.bind first ch_finish_reason)),
          am_usage = usage_out_from (rp_usage resp)\<rparr>)"

section \<open>Events\<close>

datatype frame = Frame (fr_event: string) (fr_data: json)

text \<open>Every event names its kind twice: as the event and as the \<open>type\<close> of its data.\<close>

definition typed :: "string \<Rightarrow> json_map \<Rightarrow> json" where
  "typed kind members = JObject (field ''type'' (JString kind) @ members)"

definition event_frame :: "string \<Rightarrow> json_map \<Rightarrow> frame" where
  "event_frame kind members = Frame kind (typed kind members)"

definition block_start :: "u32 \<Rightarrow> json \<Rightarrow> frame" where
  "block_start i block =
     event_frame ''content_block_start'' (field ''index'' (json_u32 i) @ field ''content_block'' block)"

definition block_delta :: "u32 \<Rightarrow> json \<Rightarrow> frame" where
  "block_delta i delta =
     event_frame ''content_block_delta'' (field ''index'' (json_u32 i) @ field ''delta'' delta)"

definition block_stop :: "u32 \<Rightarrow> frame" where
  "block_stop i = event_frame ''content_block_stop'' (field ''index'' (json_u32 i))"

datatype open_block = OpenText u32 | OpenThinking u32 | OpenTool u32 u32

fun open_index :: "open_block \<Rightarrow> u32" where
  "open_index (OpenText i) = i"
| "open_index (OpenThinking i) = i"
| "open_index (OpenTool i canon) = i"

record event_encoder =
  ee_id :: string
  ee_model :: string
  ee_started :: bool
  ee_next_index :: u32
  ee_open :: "open_block option"
  ee_usage :: usage
  ee_stop_reason :: "finish_reason option"

definition encoder_new :: "string \<Rightarrow> string \<Rightarrow> event_encoder" where
  "encoder_new i model =
     \<lparr>ee_id = i, ee_model = model, ee_started = False, ee_next_index = 0, ee_open = None,
      ee_usage = usage_default, ee_stop_reason = None\<rparr>"

text \<open>The operations answer the frames they push and the encoder they leave.\<close>

definition message_start :: "event_encoder \<Rightarrow> frame" where
  "message_start e = event_frame ''message_start''
     (field ''message'' (JObject
        (field ''id'' (JString (ee_id e)) @ field ''type'' (JString ''message'') @
         field ''role'' (JString ''assistant'') @ field ''model'' (JString (ee_model e)) @
         field ''content'' (JArray []) @ field ''stop_reason'' JNull @ field ''stop_sequence'' JNull @
         field ''usage'' (JObject (field ''input_tokens'' (json_u64 0) @ field ''output_tokens'' (json_u64 0))))))"

definition ensure_started :: "event_encoder \<Rightarrow> frame list \<times> event_encoder" where
  "ensure_started e = (if ee_started e then ([], e) else ([message_start e], e\<lparr>ee_started := True\<rparr>))"

definition close_open :: "event_encoder \<Rightarrow> frame list \<times> event_encoder" where
  "close_open e =
     (case ee_open e of
        None \<Rightarrow> ([], e)
      | Some block \<Rightarrow> ([block_stop (open_index block)], e\<lparr>ee_open := None\<rparr>))"

text \<open>Closing what is open and starting a block under the next index; the counter wraps.\<close>

definition start_block :: "json \<Rightarrow> event_encoder \<Rightarrow> frame list \<times> u32 \<times> event_encoder" where
  "start_block block e =
     (let (closed, e) = close_open e; i = ee_next_index e
      in (closed @ [block_start i block], i, e\<lparr>ee_next_index := i + 1\<rparr>))"

definition start_open_block ::
  "json \<Rightarrow> (u32 \<Rightarrow> open_block) \<Rightarrow> event_encoder \<Rightarrow> frame list \<times> u32 \<times> event_encoder" where
  "start_open_block block mk e =
     (let (frames, i, e) = start_block block e in (frames, i, e\<lparr>ee_open := Some (mk i)\<rparr>))"

definition open_text_block :: "event_encoder \<Rightarrow> frame list \<times> u32 \<times> event_encoder" where
  "open_text_block e =
     (case ee_open e of
        Some (OpenText i) \<Rightarrow> ([], i, e)
      | _ \<Rightarrow> start_open_block (typed ''text'' (field ''text'' (JString []))) OpenText e)"

definition open_thinking_block :: "event_encoder \<Rightarrow> frame list \<times> u32 \<times> event_encoder" where
  "open_thinking_block e =
     (case ee_open e of
        Some (OpenThinking i) \<Rightarrow> ([], i, e)
      | _ \<Rightarrow> start_open_block (typed ''thinking'' (field ''thinking'' (JString []))) OpenThinking e)"

definition open_tool_block :: "tool_call_delta \<Rightarrow> event_encoder \<Rightarrow> frame list \<times> u32 \<times> event_encoder" where
  "open_tool_block call e =
     (let fresh = start_open_block (typed ''tool_use''
            (field ''id'' (JString (unwrap_or [] (tl_id call))) @
             field ''name'' (JString (unwrap_or [] (tl_name call))) @ field ''input'' (JObject [])))
            (\<lambda>i. OpenTool i (tl_index call)) e
      in case ee_open e of
           Some (OpenTool i canon) \<Rightarrow> if canon = tl_index call then ([], i, e) else fresh
         | _ \<Rightarrow> fresh)"

definition text_delta :: "u32 \<Rightarrow> string \<Rightarrow> frame" where
  "text_delta i t = block_delta i (typed ''text_delta'' (field ''text'' (JString t)))"

definition thinking_delta :: "u32 \<Rightarrow> string \<Rightarrow> frame" where
  "thinking_delta i t = block_delta i (typed ''thinking_delta'' (field ''thinking'' (JString t)))"

definition signature_delta :: "u32 \<Rightarrow> string \<Rightarrow> frame" where
  "signature_delta i s = block_delta i (typed ''signature_delta'' (field ''signature'' (JString s)))"

definition json_delta :: "u32 \<Rightarrow> string \<Rightarrow> frame" where
  "json_delta i s = block_delta i (typed ''input_json_delta'' (field ''partial_json'' (JString s)))"

definition compaction_delta :: "u32 \<Rightarrow> string \<Rightarrow> frame" where
  "compaction_delta i s = block_delta i (typed ''compaction_delta'' (field ''content'' (JString s)))"

definition compaction_block :: "string \<Rightarrow> string option \<Rightarrow> json" where
  "compaction_block d signature =
     (case signature of
        Some s \<Rightarrow> typed ''compaction'' (field ''content'' (JString d) @ field ''signature'' (JString s))
      | None \<Rightarrow> typed ''compaction'' (field ''content'' (JString [])))"

fun encode_event :: "stream_chunk \<Rightarrow> event_encoder \<Rightarrow> frame list \<times> event_encoder" where
  "encode_event (OutputItem i m) e = ([], e)"
| "encode_event (Start rid model) e = ensure_started e"
| "encode_event (Content ci d) e =
     (let (started, e) = ensure_started e; (opened, i, e) = open_text_block e
      in (started @ opened @ (if d = [] then [] else [text_delta i d]), e))"
| "encode_event (Thinking ci d) e =
     (let (started, e) = ensure_started e; (opened, i, e) = open_thinking_block e
      in (started @ opened @ (if d = [] then [] else [thinking_delta i d]), e))"
| "encode_event (ThinkingSignature ci signature) e =
     (let (started, e) = ensure_started e; (opened, i, e) = open_thinking_block e
      in (started @ opened @ [signature_delta i signature], e))"
| "encode_event (RedactedThinking ci data) e =
     (let (started, e) = ensure_started e;
          (opened, i, e) = start_block (typed ''redacted_thinking'' (field ''data'' (JString data))) e
      in (started @ opened @ [block_stop i], e))"
| "encode_event (Compaction oi ci d cid encrypted signature) e =
     (let (started, e) = ensure_started e; (opened, i, e) = start_block (compaction_block d signature) e
      in (started @ opened @ (if signature = None \<and> d \<noteq> [] then [compaction_delta i d] else []) @ [block_stop i], e))"
| "encode_event (ToolCall ci call) e =
     (let (started, e) = ensure_started e; (opened, i, e) = open_tool_block call e
      in (started @ opened @
          (case tl_arguments call of None \<Rightarrow> [] | Some args \<Rightarrow> if args = [] then [] else [json_delta i args]), e))"
| "encode_event (UsageReport u) e = ([], e\<lparr>ee_usage := u\<rparr>)"
| "encode_event (Finish ci reason) e = ([], e\<lparr>ee_stop_reason := Some reason\<rparr>)"

definition message_delta :: "event_encoder \<Rightarrow> frame" where
  "message_delta e = event_frame ''message_delta''
     (field ''delta'' (JObject
        (field ''stop_reason'' (JString (unwrap_or ''end_turn'' (map_option finish_to_anthropic (ee_stop_reason e)))) @
         field ''stop_sequence'' JNull)) @
      field ''usage'' (ser_usage_out (usage_out_from (ee_usage e))))"

definition message_stop :: frame where "message_stop = event_frame ''message_stop'' []"

definition encoder_finish :: "event_encoder \<Rightarrow> frame list" where
  "encoder_finish e =
     (let (started, e) = ensure_started e; (closed, e) = close_open e
      in started @ closed @ [message_delta e, message_stop])"

definition error_data :: "string \<Rightarrow> json" where
  "error_data message =
     typed ''error'' (field ''error'' (typed ''api_error'' (field ''message'' (JString message))))"

text \<open>The body of \<open>anthropic_sse_from_response\<close>.\<close>

fun anthropic_frames :: "event_encoder \<Rightarrow> (model_error + stream_chunk) list \<Rightarrow> frame list" where
  "anthropic_frames e [] = encoder_finish e"
| "anthropic_frames e (Inl err # items) = [Frame ''error'' (error_data (model_error_text err))]"
| "anthropic_frames e (Inr chunk # items) =
     (let (frames, e) = encode_event chunk e in frames @ anthropic_frames e items)"

end
