(* ===== verification/AnthropicEvents.thy ===== *)
theory AnthropicEvents
  imports Anthropic
begin

text \<open>
  The protocol of a Messages stream, as clients rely on it: one \<open>message_start\<close>; content blocks under
  consecutive indices, each started, fed deltas of its own kind only, and stopped before the next one
  starts; one \<open>message_delta\<close>, one \<open>message_stop\<close>. An \<open>error\<close> event ends the stream anywhere before that.
  The step relation states it; \<open>next_phase\<close> decides it.
\<close>

section \<open>The protocol\<close>

datatype block_kind = TextBlock | ThinkingBlock | ToolBlock | RedactedBlock | CompactionBlock

datatype phase = Fresh | Idle u32 | Inside u32 block_kind | Closing | Ended | Aborted

definition frame_kind :: "frame \<Rightarrow> string option" where
  "frame_kind f = (if get_str (fr_data f) ''type'' = Some (fr_event f) then Some (fr_event f) else None)"

definition frame_index :: "frame \<Rightarrow> u32 option" where
  "frame_index f = map_option ucast (get_u64 (fr_data f) ''index'')"

definition inner_type :: "string \<Rightarrow> frame \<Rightarrow> string option" where
  "inner_type k f = Option.bind (json_get (fr_data f) k) (\<lambda>v. get_str v ''type'')"

fun block_kind_named :: "string \<Rightarrow> block_kind option" where
  "block_kind_named s =
     (if s = ''text'' then Some TextBlock
      else if s = ''thinking'' then Some ThinkingBlock
      else if s = ''tool_use'' then Some ToolBlock
      else if s = ''redacted_thinking'' then Some RedactedBlock
      else if s = ''compaction'' then Some CompactionBlock
      else None)"

fun delta_types :: "block_kind \<Rightarrow> string list" where
  "delta_types TextBlock = [''text_delta'']"
| "delta_types ThinkingBlock = [''thinking_delta'', ''signature_delta'']"
| "delta_types ToolBlock = [''input_json_delta'']"
| "delta_types RedactedBlock = []"
| "delta_types CompactionBlock = [''compaction_delta'']"

definition has_stop_reason :: "frame \<Rightarrow> bool" where
  "has_stop_reason f \<longleftrightarrow>
     Option.bind (json_get (fr_data f) ''delta'') (\<lambda>d. get_str d ''stop_reason'') \<noteq> None \<and>
     json_get (fr_data f) ''usage'' \<noteq> None"

inductive message_step :: "phase \<Rightarrow> frame \<Rightarrow> phase \<Rightarrow> bool" where
  opens: "frame_kind f = Some ''message_start'' \<Longrightarrow> message_step Fresh f (Idle 0)"
| starts: "frame_kind f = Some ''content_block_start'' \<Longrightarrow> frame_index f = Some n \<Longrightarrow>
    Option.bind (inner_type ''content_block'' f) block_kind_named = Some k \<Longrightarrow>
    message_step (Idle n) f (Inside n k)"
| feeds: "frame_kind f = Some ''content_block_delta'' \<Longrightarrow> frame_index f = Some n \<Longrightarrow>
    inner_type ''delta'' f = Some t \<Longrightarrow> t \<in> set (delta_types k) \<Longrightarrow>
    message_step (Inside n k) f (Inside n k)"
| stops: "frame_kind f = Some ''content_block_stop'' \<Longrightarrow> frame_index f = Some n \<Longrightarrow>
    message_step (Inside n k) f (Idle (n + 1))"
| closes: "frame_kind f = Some ''message_delta'' \<Longrightarrow> has_stop_reason f \<Longrightarrow> message_step (Idle n) f Closing"
| ends: "frame_kind f = Some ''message_stop'' \<Longrightarrow> message_step Closing f Ended"
| aborts: "frame_kind f = Some ''error'' \<Longrightarrow> p \<noteq> Ended \<Longrightarrow> p \<noteq> Aborted \<Longrightarrow> message_step p f Aborted"

inductive_cases from_ended: "message_step Ended f p"
inductive_cases from_aborted: "message_step Aborted f p"
inductive_cases from_inside: "message_step (Inside n k) f p"

inductive message_run :: "phase \<Rightarrow> frame list \<Rightarrow> phase \<Rightarrow> bool" where
  run_Nil [intro!]: "message_run p [] p"
| run_Cons: "message_step p f q \<Longrightarrow> message_run q fs r \<Longrightarrow> message_run p (f # fs) r"

inductive_simps run_Nil_iff: "message_run p [] q"
inductive_simps run_Cons_iff: "message_run p (f # fs) q"

fun next_phase :: "phase \<Rightarrow> frame \<Rightarrow> phase option" where
  "next_phase p f =
     (if frame_kind f = Some ''error'' then (if p = Ended \<or> p = Aborted then None else Some Aborted)
      else case p of
        Fresh \<Rightarrow> if frame_kind f = Some ''message_start'' then Some (Idle 0) else None
      | Idle n \<Rightarrow>
          if frame_kind f = Some ''content_block_start'' \<and> frame_index f = Some n
          then map_option (Inside n) (Option.bind (inner_type ''content_block'' f) block_kind_named)
          else if frame_kind f = Some ''message_delta'' \<and> has_stop_reason f then Some Closing
          else None
      | Inside n k \<Rightarrow>
          if frame_kind f = Some ''content_block_delta'' \<and> frame_index f = Some n \<and>
             list_ex (\<lambda>t. inner_type ''delta'' f = Some t) (delta_types k)
          then Some (Inside n k)
          else if frame_kind f = Some ''content_block_stop'' \<and> frame_index f = Some n then Some (Idle (n + 1))
          else None
      | Closing \<Rightarrow> if frame_kind f = Some ''message_stop'' then Some Ended else None
      | _ \<Rightarrow> None)"

lemma step_next: "message_step p f q \<longleftrightarrow> next_phase p f = Some q"
proof
  show "message_step p f q \<Longrightarrow> next_phase p f = Some q"
    by (induction rule: message_step.induct) (auto simp: list_ex_iff)
  show "next_phase p f = Some q \<Longrightarrow> message_step p f q"
    by (cases p) (auto simp: list_ex_iff intro: message_step.intros split: if_splits)
qed

lemma run_append: "message_run p fs q \<Longrightarrow> message_run q gs r \<Longrightarrow> message_run p (fs @ gs) r"
  by (induction rule: message_run.induct) (auto intro: run_Cons)

lemma run_step: "message_step p f q \<Longrightarrow> message_run p [f] q"
  by (auto intro: run_Cons)

text \<open>The protocol is deterministic, and nothing follows its end.\<close>

lemma step_deterministic: "message_step p f q \<Longrightarrow> message_step p f r \<Longrightarrow> q = r"
  by (simp add: step_next)

lemma run_deterministic: "message_run p fs q \<Longrightarrow> message_run p fs r \<Longrightarrow> q = r"
  by (induction rule: message_run.induct) (auto simp: run_Nil_iff run_Cons_iff dest: step_deterministic)

lemma nothing_after_the_end: "message_run Ended (f # fs) p \<Longrightarrow> False" "message_run Aborted (f # fs) p \<Longrightarrow> False"
  by (auto simp: run_Cons_iff elim: from_ended from_aborted)

section \<open>The frames the encoder pushes\<close>

named_theorems event_simps

lemma typed_lookup [event_simps]:
  "get_str (typed k ms) ''type'' = Some k"
  "j \<noteq> ''type'' \<Longrightarrow> json_get (typed k ms) j = hm_get ms j"
  by (simp_all add: typed_def get_str_def wire_simps)

lemma event_frame_fields [event_simps]:
  "fr_event (event_frame k ms) = k" "fr_data (event_frame k ms) = typed k ms"
  by (simp_all add: event_frame_def)

lemma frame_kind_event [event_simps]: "frame_kind (event_frame k ms) = Some k"
  by (simp add: frame_kind_def event_simps)

lemma block_frames [event_simps]:
  "frame_kind (block_start i b) = Some ''content_block_start''" "frame_index (block_start i b) = Some i"
  "inner_type ''content_block'' (block_start i b) = get_str b ''type''"
  "frame_kind (block_delta i d) = Some ''content_block_delta''" "frame_index (block_delta i d) = Some i"
  "inner_type ''delta'' (block_delta i d) = get_str d ''type''"
  "frame_kind (block_stop i) = Some ''content_block_stop''" "frame_index (block_stop i) = Some i"
  by (simp_all add: block_start_def block_delta_def block_stop_def frame_index_def inner_type_def get_u64_def
      event_simps wire_simps)

section \<open>The encoder keeps to the protocol\<close>

fun open_kind :: "open_block \<Rightarrow> block_kind" where
  "open_kind (OpenText i) = TextBlock"
| "open_kind (OpenThinking i) = ThinkingBlock"
| "open_kind (OpenTool i canon) = ToolBlock"

definition encoder_phase :: "event_encoder \<Rightarrow> phase" where
  "encoder_phase e =
     (if \<not> ee_started e then Fresh
      else case ee_open e of None \<Rightarrow> Idle (ee_next_index e) | Some b \<Rightarrow> Inside (open_index b) (open_kind b))"

text \<open>Before the start nothing is open; an open block has the last index that was given out.\<close>

definition encoder_ok :: "event_encoder \<Rightarrow> bool" where
  "encoder_ok e \<longleftrightarrow>
     (\<not> ee_started e \<longrightarrow> ee_open e = None \<and> ee_next_index e = 0) \<and>
     (\<forall>b. ee_open e = Some b \<longrightarrow> open_index b + 1 = ee_next_index e)"

definition keeps_protocol :: "event_encoder \<Rightarrow> frame list \<times> event_encoder \<Rightarrow> bool" where
  "keeps_protocol e r \<longleftrightarrow> message_run (encoder_phase e) (fst r) (encoder_phase (snd r)) \<and> encoder_ok (snd r)"

lemma keeps_protocol_pair:
  "keeps_protocol e (fs, e') \<longleftrightarrow> message_run (encoder_phase e) fs (encoder_phase e') \<and> encoder_ok e'"
  by (simp add: keeps_protocol_def)

lemma keeps_protocol_then:
  "keeps_protocol e (fs, e') \<Longrightarrow> keeps_protocol e' (gs, e'') \<Longrightarrow> keeps_protocol e (fs @ gs, e'')"
  by (auto simp: keeps_protocol_pair intro: run_append)

lemma keeps_protocol_refl: "encoder_ok e \<Longrightarrow> keeps_protocol e ([], e)"
  by (auto simp: keeps_protocol_pair)

lemma ensure_started_keeps:
  assumes "encoder_ok e"
  shows "keeps_protocol e (ensure_started e) \<and> ee_started (snd (ensure_started e))"
proof (cases "ee_started e")
  case True
  then show ?thesis using assms by (simp add: ensure_started_def keeps_protocol_refl)
next
  case False
  have "message_step Fresh (message_start e) (Idle 0)"
    by (rule opens) (simp add: message_start_def event_simps)
  with False show ?thesis
    using assms by (auto simp: ensure_started_def keeps_protocol_pair encoder_phase_def encoder_ok_def intro: run_step)
qed

lemma close_open_keeps:
  assumes "encoder_ok e" "ee_started e"
  shows "keeps_protocol e (close_open e) \<and> ee_open (snd (close_open e)) = None \<and> ee_started (snd (close_open e)) \<and>
    ee_next_index (snd (close_open e)) = ee_next_index e"
proof (cases "ee_open e")
  case None
  then show ?thesis using assms by (simp add: close_open_def keeps_protocol_refl)
next
  case (Some b)
  then have "message_step (encoder_phase e) (block_stop (open_index b)) (Idle (open_index b + 1))"
    using assms by (simp add: encoder_phase_def) (rule stops, simp_all add: event_simps)
  then show ?thesis
    using assms Some by (auto simp: close_open_def keeps_protocol_pair encoder_phase_def encoder_ok_def intro: run_step)
qed

text \<open>Starting a block leads inside it; what is recorded as open decides where the encoder is.\<close>

lemma start_block_run:
  assumes "encoder_ok e" "ee_started e" "Option.bind (get_str block ''type'') block_kind_named = Some k"
    and start: "start_block block e = (fs, i, e')"
  shows "message_run (encoder_phase e) fs (Inside i k) \<and> ee_open e' = None \<and> ee_started e' \<and>
    ee_next_index e' = i + 1"
proof -
  obtain cs c where closed: "close_open e = (cs, c)" by (cases "close_open e")
  with start have fs: "fs = cs @ [block_start i block]" "i = ee_next_index c" "e' = c\<lparr>ee_next_index := i + 1\<rparr>"
    by (auto simp: start_block_def Let_def)
  have c: "message_run (encoder_phase e) cs (Idle i)" "ee_open c = None" "ee_started c"
    using close_open_keeps [OF assms(1,2)] by (auto simp: closed keeps_protocol_pair encoder_phase_def fs(2))
  moreover have "message_step (Idle i) (block_start i block) (Inside i k)"
    by (rule starts) (simp_all add: event_simps assms(3))
  ultimately show ?thesis by (auto simp: fs intro: run_append run_step)
qed

lemma start_open_block_keeps:
  assumes "encoder_ok e" "ee_started e" "Option.bind (get_str block ''type'') block_kind_named = Some k"
    and "open_kind (mk i) = k" "open_index (mk i) = i"
    and start: "start_open_block block mk e = (fs, i, e')"
  shows "keeps_protocol e (fs, e') \<and> ee_started e' \<and> ee_open e' = Some (mk i)"
proof -
  obtain gs j c where s: "start_block block e = (gs, j, c)" by (cases "start_block block e")
  with start have "fs = gs" "j = i" "e' = c\<lparr>ee_open := Some (mk i)\<rparr>"
    by (auto simp: start_open_block_def)
  with start_block_run [OF assms(1-3) s] assms(4,5) show ?thesis
    by (auto simp: keeps_protocol_pair encoder_phase_def encoder_ok_def)
qed

text \<open>The blocks that stay open.\<close>

lemma open_text_block_keeps:
  assumes "encoder_ok e" "ee_started e" "open_text_block e = (fs, i, e')"
  shows "keeps_protocol e (fs, e') \<and> ee_started e' \<and> ee_open e' = Some (OpenText i)"
  using assms
  by (auto simp: open_text_block_def keeps_protocol_refl event_simps split: option.splits open_block.splits
      dest!: start_open_block_keeps [where mk = OpenText and k = TextBlock, rotated 5])

lemma open_thinking_block_keeps:
  assumes "encoder_ok e" "ee_started e" "open_thinking_block e = (fs, i, e')"
  shows "keeps_protocol e (fs, e') \<and> ee_started e' \<and> ee_open e' = Some (OpenThinking i)"
  using assms
  by (auto simp: open_thinking_block_def keeps_protocol_refl event_simps split: option.splits open_block.splits
      dest!: start_open_block_keeps [where mk = OpenThinking and k = ThinkingBlock, rotated 5])

lemma open_tool_block_keeps:
  assumes "encoder_ok e" "ee_started e" "open_tool_block call e = (fs, i, e')"
  shows "keeps_protocol e (fs, e') \<and> ee_started e' \<and> ee_open e' = Some (OpenTool i (tl_index call))"
  using assms
  by (auto simp: open_tool_block_def Let_def keeps_protocol_refl event_simps split: option.splits open_block.splits if_splits
      dest!: start_open_block_keeps [where mk = "\<lambda>i. OpenTool i (tl_index call)" and k = ToolBlock, rotated 5])

text \<open>Deltas for the block under an index.\<close>

definition feeds_block :: "u32 \<Rightarrow> block_kind \<Rightarrow> frame list \<Rightarrow> bool" where
  "feeds_block i k fs \<longleftrightarrow>
     (\<forall>f \<in> set fs. \<exists>d. f = block_delta i d \<and> (\<exists>t \<in> set (delta_types k). get_str d ''type'' = Some t))"

lemma feeds_block_deltas [event_simps]:
  "feeds_block i k []" "feeds_block i TextBlock [text_delta i t]"
  "feeds_block i ThinkingBlock [thinking_delta i t]" "feeds_block i ThinkingBlock [signature_delta i t]"
  "feeds_block i ToolBlock [json_delta i t]" "feeds_block i CompactionBlock [compaction_delta i t]"
  unfolding feeds_block_def text_delta_def thinking_delta_def signature_delta_def json_delta_def compaction_delta_def
  using typed_lookup(1) by auto

lemma feeds_block_run: "feeds_block i k fs \<Longrightarrow> message_run (Inside i k) fs (Inside i k)"
proof (induction fs)
  case (Cons f fs)
  then have "message_step (Inside i k) f (Inside i k)"
    by (auto simp: feeds_block_def event_simps intro!: feeds)
  moreover have "feeds_block i k fs" using Cons.prems by (simp add: feeds_block_def)
  ultimately show ?case using Cons.IH by (auto intro: run_Cons)
qed auto

lemma deltas_keep:
  assumes "encoder_ok e" "ee_started e" "ee_open e = Some b" "feeds_block (open_index b) (open_kind b) fs"
  shows "keeps_protocol e (fs, e)"
  using assms feeds_block_run [OF assms(4)] by (simp add: keeps_protocol_pair encoder_phase_def)

text \<open>A block that is started and stopped within one chunk.\<close>

lemma whole_block_keeps:
  assumes "encoder_ok e" "ee_started e" "Option.bind (get_str block ''type'') block_kind_named = Some k"
    and start: "start_block block e = (fs, i, e')"
    and ds: "feeds_block i k ds"
  shows "keeps_protocol e (fs @ ds @ [block_stop i], e')"
proof -
  note s = start_block_run [OF assms(1-3) start]
  have "message_run (Inside i k) ds (Inside i k)" by (rule feeds_block_run [OF ds])
  moreover have "message_run (Inside i k) [block_stop i] (Idle (i + 1))"
    by (rule run_step, rule stops) (simp_all add: event_simps)
  ultimately have "message_run (encoder_phase e) (fs @ ds @ [block_stop i]) (Idle (i + 1))"
    using s by (auto intro: run_append)
  then show ?thesis using s by (simp add: keeps_protocol_pair encoder_phase_def encoder_ok_def)
qed

lemma encode_event_keeps:
  assumes "encoder_ok e"
  shows "keeps_protocol e (encode_event c e)"
proof -
  obtain ss s where started: "ensure_started e = (ss, s)" by (cases "ensure_started e")
  then have s: "keeps_protocol e (ss, s)" "encoder_ok s" "ee_started s"
    using ensure_started_keeps [OF assms] by (simp_all add: keeps_protocol_pair)
  have quiet: "keeps_protocol e ([], e\<lparr>ee_usage := u\<rparr>)" "keeps_protocol e ([], e\<lparr>ee_stop_reason := r\<rparr>)" for u r
    using assms by (auto simp: keeps_protocol_pair encoder_phase_def encoder_ok_def split: option.splits)
  have deltas: "keeps_protocol e (ss @ os @ ds, e')"
    if "keeps_protocol s (os, e') \<and> ee_started e' \<and> ee_open e' = Some b"
      "feeds_block (open_index b) (open_kind b) ds" for os e' b ds
  proof -
    from that(1) have "encoder_ok e'" by (simp add: keeps_protocol_pair)
    then have "keeps_protocol e' (ds, e')" by (rule deltas_keep) (use that in auto)
    with that(1) have "keeps_protocol s (os @ ds, e')" using keeps_protocol_then by blast
    with s(1) show ?thesis by (rule keeps_protocol_then)
  qed
  have whole: "keeps_protocol e (ss @ os @ ds @ [block_stop i], e')"
    if "start_block block s = (os, i, e')" "Option.bind (get_str block ''type'') block_kind_named = Some k"
      "feeds_block i k ds" for block os i e' ds k
    using keeps_protocol_then [OF s(1) whole_block_keeps [OF s(2,3) that(2,1,3)]] .
  show ?thesis
  proof (cases c)
    case (Content ci d)
    obtain os i e' where o: "open_text_block s = (os, i, e')" by (cases "open_text_block s")
    from deltas [OF open_text_block_keeps [OF s(2,3) o], of "if d = [] then [] else [text_delta i d]"]
    show ?thesis by (simp add: Content started o event_simps)
  next
    case (Thinking ci d)
    obtain os i e' where o: "open_thinking_block s = (os, i, e')" by (cases "open_thinking_block s")
    from deltas [OF open_thinking_block_keeps [OF s(2,3) o], of "if d = [] then [] else [thinking_delta i d]"]
    show ?thesis by (simp add: Thinking started o event_simps)
  next
    case (ThinkingSignature ci g)
    obtain os i e' where o: "open_thinking_block s = (os, i, e')" by (cases "open_thinking_block s")
    from deltas [OF open_thinking_block_keeps [OF s(2,3) o], of "[signature_delta i g]"]
    show ?thesis by (simp add: ThinkingSignature started o event_simps)
  next
    case (ToolCall ci call)
    let ?ds = "\<lambda>i. case tl_arguments call of None \<Rightarrow> [] | Some args \<Rightarrow> if args = [] then [] else [json_delta i args]"
    obtain os i e' where o: "open_tool_block call s = (os, i, e')" by (cases "open_tool_block call s")
    have "feeds_block i ToolBlock (?ds i)" by (simp add: event_simps split: option.split)
    with deltas [OF open_tool_block_keeps [OF s(2,3) o], of "?ds i"] show ?thesis
      by (simp add: ToolCall started o)
  next
    case (RedactedThinking ci data)
    let ?b = "typed ''redacted_thinking'' (field ''data'' (JString data))"
    obtain os i e' where o: "start_block ?b s = (os, i, e')" by (cases "start_block ?b s")
    from whole [OF o, of RedactedBlock "[]"] show ?thesis
      by (simp add: RedactedThinking started o event_simps)
  next
    case (Compaction oi ci d cid encrypted g)
    let ?ds = "\<lambda>i. if g = None \<and> d \<noteq> [] then [compaction_delta i d] else []"
    obtain os i e' where o: "start_block (compaction_block d g) s = (os, i, e')"
      by (cases "start_block (compaction_block d g) s")
    have "Option.bind (get_str (compaction_block d g) ''type'') block_kind_named = Some CompactionBlock"
      by (simp add: compaction_block_def event_simps split: option.splits)
    from whole [OF o this, of "?ds i"] show ?thesis
      by (simp add: Compaction started o event_simps)
  qed (simp_all add: assms keeps_protocol_refl started s(1) quiet)
qed

lemma encoder_finish_ends:
  assumes "encoder_ok e"
  shows "message_run (encoder_phase e) (encoder_finish e) Ended"
proof -
  obtain ss s where started: "ensure_started e = (ss, s)" by (cases "ensure_started e")
  then have s: "message_run (encoder_phase e) ss (encoder_phase s)" "encoder_ok s" "ee_started s"
    using ensure_started_keeps [OF assms] by (simp_all add: keeps_protocol_pair)
  obtain cs c where closed: "close_open s = (cs, c)" by (cases "close_open s")
  then have c: "message_run (encoder_phase s) cs (Idle (ee_next_index c))"
    using close_open_keeps [OF s(2,3)]
    by (auto simp: keeps_protocol_pair encoder_phase_def [of c])
  have "message_step (Idle (ee_next_index c)) (message_delta c) Closing"
    by (rule closes) (simp_all add: message_delta_def has_stop_reason_def get_str_def event_simps wire_simps)
  moreover have "message_step Closing message_stop Ended"
    by (rule ends) (simp add: message_stop_def event_simps)
  ultimately have "message_run (Idle (ee_next_index c)) [message_delta c, message_stop] Ended"
    by (auto intro: run_Cons)
  with s(1) c show ?thesis
    by (auto simp: encoder_finish_def started closed intro: run_append)
qed

definition stream_fails :: "(model_error + 'a) list \<Rightarrow> bool" where
  "stream_fails items \<longleftrightarrow> (\<exists>e. Inl e \<in> set items)"

lemma frames_run:
  "encoder_ok e \<Longrightarrow>
     message_run (encoder_phase e) (anthropic_frames e items) (if stream_fails items then Aborted else Ended)"
proof (induction e items rule: anthropic_frames.induct)
  case (1 e)
  then show ?case by (simp add: encoder_finish_ends stream_fails_def)
next
  case (2 e err items)
  have "message_step (encoder_phase e) (Frame ''error'' (error_data (model_error_text err))) Aborted"
    by (rule aborts) (simp_all add: frame_kind_def error_data_def event_simps encoder_phase_def split: option.splits)
  then show ?case by (auto simp: stream_fails_def intro: run_step)
next
  case (3 e chunk items)
  obtain fs e' where step: "encode_event chunk e = (fs, e')" by (cases "encode_event chunk e")
  with encode_event_keeps [OF "3.prems", of chunk] have "message_run (encoder_phase e) fs (encoder_phase e')"
    and "encoder_ok e'" by (simp_all add: keeps_protocol_pair)
  moreover have "stream_fails (Inr chunk # items) = stream_fails items" by (simp add: stream_fails_def)
  ultimately show ?case using "3.IH" [OF step [symmetric]] by (auto simp: step intro: run_append)
qed

text \<open>
  C16: whatever a provider streams, the events a Messages client is sent follow the protocol: \<open>message_start\<close>
  first, blocks one at a time under consecutive indices, deltas that fit the open block, and every
  stream ends, with \<open>message_stop\<close> when the provider's stream ended and with one \<open>error\<close> event
  when it failed; nothing follows. The answer is one run of the step relation from its first phase.
\<close>

theorem anthropic_protocol:
  "message_run Fresh (anthropic_frames (encoder_new mid model) items)
     (if stream_fails items then Aborted else Ended)"
proof -
  have "encoder_ok (encoder_new mid model)" "encoder_phase (encoder_new mid model) = Fresh"
    by (simp_all add: encoder_new_def encoder_ok_def encoder_phase_def)
  then show ?thesis using frames_run by metis
qed

end
