(* ===== verification/Http.thy ===== *)
theory Http
  imports Provider Sse
begin

text \<open>
  The transport seam of the provider adapters, \<open>crates/llmleaf-providers/src/transport.rs\<close>, and the
  one place that classifies upstream failures, \<open>post_json\<close> and \<open>send_checked\<close> of http.rs. The
  transport itself is a parameter: it takes a request, lets the rest of the node move on, and answers
  an error or a status, headers and the pieces of a body. \<open>parse\<close> is serde_json, \<open>lossy\<close> is
  \<open>String::from_utf8_lossy\<close>.
\<close>

section \<open>Requests\<close>

datatype http_method = Get | Post

datatype multipart_part =
    TextPart string string
  | BytesPart string "string option" "string option" string

datatype http_body = EmptyBody | JsonBody json | MultipartBody "multipart_part list"

record http_request =
  hr_method :: http_method
  hr_url :: string
  hr_headers :: "(string \<times> string) list"
  hr_body :: http_body

definition http_get :: "string \<Rightarrow> http_request" where
  "http_get url = \<lparr>hr_method = Get, hr_url = url, hr_headers = [], hr_body = EmptyBody\<rparr>"

definition http_post :: "string \<Rightarrow> http_request" where
  "http_post url = \<lparr>hr_method = Post, hr_url = url, hr_headers = [], hr_body = EmptyBody\<rparr>"

definition with_header :: "string \<Rightarrow> string \<Rightarrow> http_request \<Rightarrow> http_request" where
  "with_header name v req = req\<lparr>hr_headers := hr_headers req @ [(name, v)]\<rparr>"

definition with_bearer :: "string \<Rightarrow> http_request \<Rightarrow> http_request" where
  "with_bearer token req = with_header ''Authorization'' (''Bearer '' @ token) req"

definition with_json :: "json \<Rightarrow> http_request \<Rightarrow> http_request" where
  "with_json v req = req\<lparr>hr_body := JsonBody v\<rparr>"

definition with_multipart :: "multipart_part list \<Rightarrow> http_request \<Rightarrow> http_request" where
  "with_multipart form req = req\<lparr>hr_body := MultipartBody form\<rparr>"

definition lower_ascii :: "char \<Rightarrow> char" where
  "lower_ascii c = (let n = of_char c :: nat in if 65 \<le> n \<and> n \<le> 90 then char_of (n + 32) else c)"

definition to_ascii_lowercase :: "string \<Rightarrow> string" where
  "to_ascii_lowercase s = map lower_ascii s"

fun contains_sub :: "string \<Rightarrow> string \<Rightarrow> bool" where
  "contains_sub pat [] \<longleftrightarrow> pat = []"
| "contains_sub pat (c # s) \<longleftrightarrow> strip_prefix pat (c # s) \<noteq> None \<or> contains_sub pat s"

definition is_credential_header :: "string \<Rightarrow> bool" where
  "is_credential_header name =
     (let n = to_ascii_lowercase name
      in n = ''authorization'' \<or> n = ''cookie'' \<or> contains_sub ''key'' n \<or> contains_sub ''token'' n \<or>
         contains_sub ''secret'' n \<or> contains_sub ''auth'' n)"

text \<open>The headers as \<open>Debug\<close> shows them.\<close>

definition debug_headers :: "http_request \<Rightarrow> (string \<times> string) list" where
  "debug_headers req =
     map (\<lambda>(k, v). (k, if is_credential_header k then ''<redacted>'' else v)) (hr_headers req)"

section \<open>Responses\<close>

type_synonym body_items = "(model_error + string) list"

record http_response =
  hs_status :: u16
  hs_headers :: "(string \<times> string) list"
  hs_body :: body_items

type_synonym 'w http_transport = "http_request \<Rightarrow> ('w, http_response) awaited"

definition is_success_status :: "u16 \<Rightarrow> bool" where
  "is_success_status status \<longleftrightarrow> 200 \<le> status \<and> status \<le> 299"

definition response_header :: "http_response \<Rightarrow> string \<Rightarrow> string option" where
  "response_header resp name =
     map_option snd (List.find (\<lambda>(k, _). to_ascii_lowercase k = to_ascii_lowercase name) (hs_headers resp))"

definition max_collected_body_bytes :: nat where "max_collected_body_bytes = 64 * 1024 * 1024"

definition body_too_long :: model_error where
  "body_too_long = Unavailable (''response body exceeds '' @ decimal max_collected_body_bytes @ '' bytes'')"

fun collect_body_from :: "string \<Rightarrow> body_items \<Rightarrow> model_error + string" where
  "collect_body_from buf [] = Inr buf"
| "collect_body_from buf (Inl e # items) = Inl e"
| "collect_body_from buf (Inr chunk # items) =
     (if max_collected_body_bytes < length buf + length chunk then Inl body_too_long
      else collect_body_from (buf @ chunk) items)"

definition collect_body :: "http_response \<Rightarrow> model_error + string" where
  "collect_body resp = collect_body_from [] (hs_body resp)"

definition post_json ::
  "'w http_transport \<Rightarrow> (string \<Rightarrow> string) \<Rightarrow> (string \<Rightarrow> string + json) \<Rightarrow> http_request \<Rightarrow> ('w, json) awaited" where
  "post_json transport lossy parse req w =
     (case transport req w of
        (w, Inl e) \<Rightarrow> (w, Inl e)
      | (w, Inr resp) \<Rightarrow>
          (w, res_bind (collect_body resp) (\<lambda>bytes.
            if \<not> is_success_status (hs_status resp) then Inl (Upstream (hs_status resp) (lossy bytes))
            else case parse bytes of Inl e \<Rightarrow> Inl (Mapping e) | Inr v \<Rightarrow> Inr v)))"

definition send_checked ::
  "'w http_transport \<Rightarrow> (string \<Rightarrow> string) \<Rightarrow> http_request \<Rightarrow> ('w, http_response) awaited" where
  "send_checked transport lossy req w =
     (case transport req w of
        (w, Inl e) \<Rightarrow> (w, Inl e)
      | (w, Inr resp) \<Rightarrow>
          (w, if is_success_status (hs_status resp) then Inr resp
              else Inl (Upstream (hs_status resp)
                (lossy (case collect_body resp of Inl _ \<Rightarrow> [] | Inr bytes \<Rightarrow> bytes)))))"

text \<open>A stream of items as the boundary has it: the node does not move between its polls here.\<close>

definition polls_of :: "(model_error + 'a) list \<Rightarrow> ('w, 'a) polls" where
  "polls_of items = map (\<lambda>item w. (w, item)) items"

section \<open>What is collected\<close>

lemma collect_body_from_ok:
  "collect_body_from buf items = Inr bytes \<Longrightarrow>
     \<exists>pieces. items = map Inr pieces \<and> bytes = buf @ concat pieces \<and>
       (pieces = [] \<or> length bytes \<le> max_collected_body_bytes)"
proof (induction buf items rule: collect_body_from.induct)
  case (3 buf chunk items)
  then have fits: "length buf + length chunk \<le> max_collected_body_bytes"
    and rest: "collect_body_from (buf @ chunk) items = Inr bytes"
    by (auto split: if_splits)
  obtain pieces where pieces: "items = map Inr pieces" "bytes = (buf @ chunk) @ concat pieces"
    "pieces = [] \<or> length bytes \<le> max_collected_body_bytes"
    using "3.IH" [OF _ rest] fits by auto
  have "Inr chunk # items = map Inr (chunk # pieces) \<and> bytes = buf @ concat (chunk # pieces) \<and>
      (chunk # pieces = [] \<or> length bytes \<le> max_collected_body_bytes)"
    using pieces fits by auto
  then show ?case by (rule exI)
qed auto

text \<open>
  how upstream failures are told apart. A JSON answer is accepted only when the transport answered, every
  piece of the body arrived, the body kept within the limit, the status was a 2xx and the body parsed.
  A status outside 2xx whose body could be read is an upstream error with that status; everything the
  transport itself could not do keeps its own error.
\<close>

theorem upstream_taxonomy:
  assumes "transport req w = (w', answer)"
  shows "fst (post_json transport lossy parse req w) = w' \<and>
    (snd (post_json transport lossy parse req w) = Inr v \<longleftrightarrow>
      (\<exists>resp pieces. answer = Inr resp \<and> is_success_status (hs_status resp) \<and>
         hs_body resp = map Inr pieces \<and> collect_body resp = Inr (concat pieces) \<and>
         length (concat pieces) \<le> max_collected_body_bytes \<and> parse (concat pieces) = Inr v)) \<and>
    (\<forall>e. answer = Inl e \<longrightarrow> snd (post_json transport lossy parse req w) = Inl e \<and>
       snd (send_checked transport lossy req w) = Inl e) \<and>
    (\<forall>resp bytes. answer = Inr resp \<longrightarrow> \<not> is_success_status (hs_status resp) \<longrightarrow> collect_body resp = Inr bytes \<longrightarrow>
       snd (post_json transport lossy parse req w) = Inl (Upstream (hs_status resp) (lossy bytes)) \<and>
       snd (send_checked transport lossy req w) = Inl (Upstream (hs_status resp) (lossy bytes)))"
proof (cases answer)
  case (Inl e)
  then show ?thesis using assms by (simp add: post_json_def send_checked_def)
next
  case (Inr resp)
  have collected: "\<exists>pieces. hs_body resp = map Inr pieces \<and> bytes = concat pieces \<and>
      length bytes \<le> max_collected_body_bytes" if "collect_body resp = Inr bytes" for bytes
    using collect_body_from_ok [of "[]" "hs_body resp" bytes] that
    by (auto simp: collect_body_def max_collected_body_bytes_def)
  have "snd (post_json transport lossy parse req w) =
      res_bind (collect_body resp) (\<lambda>bytes.
        if \<not> is_success_status (hs_status resp) then Inl (Upstream (hs_status resp) (lossy bytes))
        else case parse bytes of Inl e \<Rightarrow> Inl (Mapping e) | Inr v \<Rightarrow> Inr v)"
    using assms Inr by (simp add: post_json_def)
  moreover have "fst (post_json transport lossy parse req w) = w'"
    using assms Inr by (simp add: post_json_def)
  ultimately show ?thesis
    using assms Inr collected
    by (cases "collect_body resp") (auto simp: send_checked_def split: sum.splits)
qed

theorem upstream_taxonomy_witness:
  "snd (post_json (\<lambda>_ n. (n, Inr \<lparr>hs_status = 503, hs_headers = [], hs_body = [Inr ''bu'', Inr ''sy'']\<rparr>))
      (\<lambda>b. b) (\<lambda>_. Inr JNull) (http_get ''u'') (0 :: nat)) = Inl (Upstream 503 ''busy'')"
proof -
  let ?resp = "\<lparr>hs_status = 503, hs_headers = [], hs_body = [Inr ''bu'', Inr ''sy'']\<rparr>"
  let ?transport = "\<lambda>_ n. (n, Inr ?resp)"
  have "collect_body ?resp = Inr ''busy''" by (simp add: collect_body_def max_collected_body_bytes_def)
  then show ?thesis
    using upstream_taxonomy [of ?transport "http_get ''u''" "0 :: nat" 0 "Inr ?resp" "\<lambda>b. b" "\<lambda>_. Inr JNull"]
    by (simp add: is_success_status_def)
qed

end
