(* ===== verification/AnthropicWire.thy ===== *)
theory AnthropicWire
  imports Wire Http "HOL-Library.Char_ord" "HOL-Library.List_Lexorder"
begin

text \<open>
  The wire of the Messages provider, \<open>crates/llmleaf-providers/src/anthropic.rs\<close>, with the token
  budgets of thinking.rs: a canonical request to a Messages body, a message and a stream of events to
  canonical chunks. Parameters: \<open>print\<close> and \<open>parse\<close> are serde_json.
\<close>

section \<open>Compaction\<close>

fun encrypted_compaction :: "content_part \<Rightarrow> bool" where
  "encrypted_compaction (CompactionPart oi i content (Some e) signature) = True"
| "encrypted_compaction _ = False"

fun signed_compaction :: "content_part \<Rightarrow> bool" where
  "signed_compaction (CompactionPart oi i content e (Some s)) = True"
| "signed_compaction _ = False"

fun unsigned_compaction :: "content_part \<Rightarrow> bool" where
  "unsigned_compaction (CompactionPart oi i content e None) = True"
| "unsigned_compaction _ = False"

definition request_parts :: "chat_request \<Rightarrow> content_part list" where
  "request_parts req = concat (map me_content (cq_messages req))"

definition threshold_edit :: "chat_request \<Rightarrow> bool" where
  "threshold_edit req =
     is_some_and (list_ex (\<lambda>e. get_str e ''type'' = Some ''compact_20260112''))
       (Option.bind (hm_get (cq_extra req) ''context_management'') (\<lambda>v. get_array v ''edits''))"

definition compaction_betas :: "chat_request \<Rightarrow> bool \<times> bool" where
  "compaction_betas req =
     (hm_contains (cq_extra req) ''compaction'' \<or> list_ex signed_compaction (request_parts req),
      threshold_edit req \<or> list_ex unsigned_compaction (request_parts req))"

definition compaction_beta :: "chat_request \<Rightarrow> string option" where
  "compaction_beta req =
     (case compaction_betas req of
        (True, True) \<Rightarrow> Some ''compact-2026-09-04,compact-2026-01-12''
      | (True, False) \<Rightarrow> Some ''compact-2026-09-04''
      | (False, True) \<Rightarrow> Some ''compact-2026-01-12''
      | (False, False) \<Rightarrow> None)"

definition validate_compaction :: "chat_request \<Rightarrow> model_error + unit" where
  "validate_compaction req =
     (if list_ex encrypted_compaction (request_parts req)
      then Inl (Unsupported ''Anthropic cannot replay an encrypted compaction block from another provider'')
      else if hm_contains (cq_extra req) ''compaction'' \<and> hm_contains (cq_extra req) ''context_management''
      then Inl (Mapping ''Anthropic compaction and context_management cannot be combined'')
      else Inr ())"

section \<open>Thinking\<close>

fun budget_tokens :: "effort \<Rightarrow> u32" where
  "budget_tokens Low = 1024"
| "budget_tokens Med = 4096"
| "budget_tokens High = 8192"
| "budget_tokens Highx = 16384"
| "budget_tokens Max = 32768"

datatype thinking_style = Budget | Adaptive bool

text \<open>The rest after the first occurrence (\<open>find\<close> and a slice), and \<open>str::parse::<u32>\<close>.\<close>

fun after_first :: "string \<Rightarrow> string \<Rightarrow> string option" where
  "after_first pat [] = (if pat = [] then Some [] else None)"
| "after_first pat (c # s) =
     (case strip_prefix pat (c # s) of Some rest \<Rightarrow> Some rest | None \<Rightarrow> after_first pat s)"

fun split_on :: "char \<Rightarrow> string \<Rightarrow> string list" where
  "split_on sep [] = [[]]"
| "split_on sep (c # s) =
     (if c = sep then [] # split_on sep s
      else (c # hd (split_on sep s)) # tl (split_on sep s))"

definition parse_u32 :: "string \<Rightarrow> u32 option" where
  "parse_u32 s =
     (let ds = (case s of c # rest \<Rightarrow> if c = CHR ''+'' then rest else s | [] \<Rightarrow> s)
      in if ds \<noteq> [] \<and> list_all is_digit ds \<and> digits_value ds < 2 ^ 32 then Some (of_nat (digits_value ds))
         else None)"

definition thinking_style_for :: "string \<Rightarrow> thinking_style" where
  "thinking_style_for model =
     (case after_first ''claude-'' model of
        None \<Rightarrow> Budget
      | Some rest \<Rightarrow>
          (case split_on CHR ''-'' (hd (split_on CHR ''@'' rest)) of
             [] \<Rightarrow> Budget
           | family # parts \<Rightarrow>
               if family = [] \<or> is_digit (hd family) then Budget
               else case Option.bind (case parts of [] \<Rightarrow> None | p # _ \<Rightarrow> Some p) parse_u32 of
                 None \<Rightarrow> Budget
               | Some major \<Rightarrow>
                   let minor = unwrap_or 0 (case parts of
                         m # p # _ \<Rightarrow> if length p \<le> 2 then parse_u32 p else None
                       | _ \<Rightarrow> None)
                   in if major < 4 \<or> major = 4 \<and> minor < 6 then Budget
                      else if major = 4 \<and> minor = 6 then Adaptive False
                      else Adaptive True))"

fun adaptive_effort :: "effort \<Rightarrow> bool \<Rightarrow> string" where
  "adaptive_effort Low xhigh = ''low''"
| "adaptive_effort Med xhigh = ''medium''"
| "adaptive_effort High xhigh = ''high''"
| "adaptive_effort Highx xhigh = (if xhigh then ''xhigh'' else ''high'')"
| "adaptive_effort Max xhigh = ''max''"

section \<open>Prompt caching\<close>

datatype cache_ttl = FiveMinutes | OneHour

definition cache_ttl_parse :: "string \<Rightarrow> cache_ttl" where
  "cache_ttl_parse raw = (if str_trim raw = ''1h'' then OneHour else FiveMinutes)"

fun cache_control :: "cache_ttl \<Rightarrow> json" where
  "cache_control FiveMinutes = JObject [(''type'', JString ''ephemeral'')]"
| "cache_control OneHour = JObject [(''type'', JString ''ephemeral''), (''ttl'', JString ''1h'')]"

definition prompt_cache :: "provider_cx \<Rightarrow> cache_ttl option" where
  "prompt_cache cx =
     (case hm_get (cx_settings cx) ''prompt_cache'' of
        Some (JBool b) \<Rightarrow> if b then Some FiveMinutes else None
      | Some (JString s) \<Rightarrow> Some (cache_ttl_parse s)
      | Some (JObject obj) \<Rightarrow>
          Some (unwrap_or FiveMinutes (map_option cache_ttl_parse (get_str (JObject obj) ''ttl'')))
      | _ \<Rightarrow> None)"

definition map_last :: "('a \<Rightarrow> 'a) \<Rightarrow> 'a list \<Rightarrow> 'a list" where
  "map_last f xs = (if xs = [] then [] else butlast xs @ [f (last xs)])"

fun insert_member :: "string \<Rightarrow> json \<Rightarrow> json \<Rightarrow> json" where
  "insert_member k v (JObject m) = JObject (hm_insert k v m)"
| "insert_member k v j = j"

definition mark_message :: "cache_ttl \<Rightarrow> json \<Rightarrow> json" where
  "mark_message ttl m =
     (case get_array m ''content'' of
        None \<Rightarrow> m
      | Some blocks \<Rightarrow>
          insert_member ''content'' (JArray (map_last (insert_member ''cache_control'' (cache_control ttl)) blocks)) m)"

definition mark_last_message :: "cache_ttl \<Rightarrow> json list \<Rightarrow> json list" where
  "mark_last_message ttl messages = map_last (mark_message ttl) messages"

section \<open>Requests\<close>

fun part_to_anthropic :: "content_part \<Rightarrow> json" where
  "part_to_anthropic (Text t) = JObject [(''type'', JString ''text''), (''text'', JString t)]"
| "part_to_anthropic (ImageUrl url detail) = JObject [(''type'', JString ''image''),
     (''source'', JObject [(''type'', JString ''url''), (''url'', JString url)])]"
| "part_to_anthropic (InputAudio data format) = JNull"
| "part_to_anthropic (ThinkingPart t signature) = JObject
     ([(''type'', JString ''thinking''), (''thinking'', JString t)] @ opt_field ''signature'' JString signature)"
| "part_to_anthropic (RedactedThinkingPart data) =
     JObject [(''type'', JString ''redacted_thinking''), (''data'', JString data)]"
| "part_to_anthropic (CompactionPart oi i content e signature) = JObject
     ([(''type'', JString ''compaction''), (''content'', json_opt JString content)] @
      opt_field ''signature'' JString signature)"

definition call_input :: "(string \<Rightarrow> string + json) \<Rightarrow> string \<Rightarrow> json" where
  "call_input parse arguments = (case parse arguments of Inl _ \<Rightarrow> JObject [] | Inr v \<Rightarrow> v)"

definition tool_use_block :: "(string \<Rightarrow> string + json) \<Rightarrow> tool_call \<Rightarrow> json" where
  "tool_use_block parse call = JObject [(''type'', JString ''tool_use''), (''id'', JString (tc_id call)),
     (''name'', JString (tc_name call)), (''input'', call_input parse (tc_arguments call))]"

definition message_to_anthropic :: "(string \<Rightarrow> string + json) \<Rightarrow> message \<Rightarrow> json" where
  "message_to_anthropic parse msg =
     (if me_role msg = Tool then
        JObject [(''role'', JString ''user''),
          (''content'', JArray [JObject [(''type'', JString ''tool_result''),
             (''tool_use_id'', JString (unwrap_or [] (me_tool_call_id msg))),
             (''content'', JString (text_content msg))]])]
      else
        JObject [(''role'', JString (if me_role msg = Assistant then ''assistant'' else ''user'')),
          (''content'', JArray (map part_to_anthropic (me_content msg) @
             map (tool_use_block parse) (me_tool_calls msg)))])"

fun join_with :: "string \<Rightarrow> string list \<Rightarrow> string" where
  "join_with sep [] = []"
| "join_with sep [s] = s"
| "join_with sep (s # t # ts) = s @ sep @ join_with sep (t # ts)"

definition system_prompt :: "chat_request \<Rightarrow> string" where
  "system_prompt req =
     join_with [CHR 0x0A, CHR 0x0A] (map text_content (filter (\<lambda>m. me_role m = System) (cq_messages req)))"

definition default_max_tokens :: u32 where "default_max_tokens = 4096"

definition saturating_add_u32 :: "u32 \<Rightarrow> u32 \<Rightarrow> u32" where
  "saturating_add_u32 a b = (if unat a + unat b < 2 ^ 32 then a + b else - 1)"

definition anthropic_max_tokens :: "chat_request \<Rightarrow> u32" where
  "anthropic_max_tokens req =
     (let effective = unwrap_or default_max_tokens (cq_max_tokens req)
      in case cq_thinking req of
           Some t \<Rightarrow> saturating_add_u32 effective (budget_tokens t)
         | None \<Rightarrow> effective)"

definition tool_to_anthropic :: "tool_def \<Rightarrow> json" where
  "tool_to_anthropic t = JObject [(''name'', JString (td_name t)),
     (''description'', json_opt JString (td_description t)), (''input_schema'', td_parameters t)]"

fun choice_to_anthropic :: "tool_choice \<Rightarrow> json" where
  "choice_to_anthropic ChooseAuto = JObject [(''type'', JString ''auto'')]"
| "choice_to_anthropic ChooseNone = JObject [(''type'', JString ''none'')]"
| "choice_to_anthropic ChooseRequired = JObject [(''type'', JString ''any'')]"
| "choice_to_anthropic (Named name) = JObject [(''type'', JString ''tool''), (''name'', JString name)]"

definition write_thinking :: "chat_request \<Rightarrow> json_map \<Rightarrow> json_map" where
  "write_thinking req m =
     (case cq_thinking req of
        None \<Rightarrow> m
      | Some t \<Rightarrow>
          (case thinking_style_for (cq_model req) of
             Adaptive xhigh \<Rightarrow>
               hm_insert ''output_config'' (JObject [(''effort'', JString (adaptive_effort t xhigh))])
                 (hm_insert ''thinking'' (JObject [(''type'', JString ''adaptive'')]) m)
           | Budget \<Rightarrow>
               hm_insert ''thinking'' (JObject [(''type'', JString ''enabled''),
                 (''budget_tokens'', json_u32 (budget_tokens t))]) m))"

text \<open>A caller's own \<open>output_config\<close> is merged over the mapped one; other fields only fill gaps.\<close>

definition merge_extra :: "string \<times> json \<Rightarrow> json_map \<Rightarrow> json_map" where
  "merge_extra kv m =
     (case hm_get m (fst kv) of
        None \<Rightarrow> hm_insert (fst kv) (snd kv) m
      | Some old \<Rightarrow>
          (case (old, snd kv) of
             (JObject ours, JObject theirs) \<Rightarrow>
               if fst kv = ''output_config''
               then hm_insert (fst kv) (JObject (fold (\<lambda>(k, v). hm_insert k v) theirs ours)) m
               else m
           | _ \<Rightarrow> m))"

definition system_value :: "cache_ttl option \<Rightarrow> string \<Rightarrow> json" where
  "system_value cache system =
     (case cache of
        Some ttl \<Rightarrow> JArray [JObject [(''type'', JString ''text''), (''text'', JString system),
          (''cache_control'', cache_control ttl)]]
      | None \<Rightarrow> JString system)"

definition anthropic_messages :: "(string \<Rightarrow> string + json) \<Rightarrow> chat_request \<Rightarrow> cache_ttl option \<Rightarrow> json list" where
  "anthropic_messages parse req cache =
     (let messages = map (message_to_anthropic parse) (filter (\<lambda>m. me_role m \<noteq> System) (cq_messages req))
      in case cache of Some ttl \<Rightarrow> mark_last_message ttl messages | None \<Rightarrow> messages)"

definition anthropic_tools :: "chat_request \<Rightarrow> cache_ttl option \<Rightarrow> json list" where
  "anthropic_tools req cache =
     (let tools = map tool_to_anthropic (cq_tools req)
      in case cache of
           Some ttl \<Rightarrow>
             if system_prompt req = [] then map_last (insert_member ''cache_control'' (cache_control ttl)) tools
             else tools
         | None \<Rightarrow> tools)"

definition request_to_anthropic ::
  "(string \<Rightarrow> string + json) \<Rightarrow> chat_request \<Rightarrow> cache_ttl option \<Rightarrow> json" where
  "request_to_anthropic parse req cache =
     (let obj = hm_insert ''model'' (JString (cq_model req)) hm_empty;
          obj = hm_insert ''max_tokens'' (json_u32 (anthropic_max_tokens req)) obj;
          system = system_prompt req;
          obj = if_insert ''system'' (system_value cache system) (system \<noteq> []) obj;
          obj = hm_insert ''messages'' (JArray (anthropic_messages parse req cache)) obj;
          obj = (if cq_thinking req = None
                 then opt_insert ''top_p'' json_f64 (cq_top_p req)
                   (opt_insert ''temperature'' json_f64 (cq_temperature req) obj)
                 else obj);
          obj = if_insert ''stop_sequences'' (JArray (map JString (cq_stop req))) (cq_stop req \<noteq> []) obj;
          obj = if_insert ''tools'' (JArray (anthropic_tools req cache)) (cq_tools req \<noteq> []) obj;
          obj = opt_insert ''tool_choice'' choice_to_anthropic (cq_tool_choice req) obj;
          obj = write_thinking req obj
      in JObject (fold merge_extra (cq_extra req) obj))"

text \<open>The body \<open>chat\<close> posts.\<close>

definition anthropic_body ::
  "(string \<Rightarrow> string + json) \<Rightarrow> chat_request \<Rightarrow> cache_ttl option \<Rightarrow> bool \<Rightarrow> json" where
  "anthropic_body parse req cache use_stream =
     insert_member ''stream'' (JBool use_stream) (request_to_anthropic parse req cache)"

section \<open>Responses\<close>

fun map_stop_reason :: "string \<Rightarrow> finish_reason" where
  "map_stop_reason reason =
     (if reason = ''compaction'' then FinishCompaction
      else if reason = ''max_tokens'' then Length
      else if reason = ''tool_use'' then ToolCalls
      else if reason = ''refusal'' then ContentFilter
      else Stop)"

definition chunk_of :: "('a \<Rightarrow> stream_chunk) \<Rightarrow> 'a option \<Rightarrow> stream_chunk list" where
  "chunk_of mk v = (case v of None \<Rightarrow> [] | Some x \<Rightarrow> [mk x])"

definition filled_chunk :: "(string \<Rightarrow> stream_chunk) \<Rightarrow> string option \<Rightarrow> stream_chunk list" where
  "filled_chunk mk v = (case v of None \<Rightarrow> [] | Some s \<Rightarrow> if s = [] then [] else [mk s])"

text \<open>One content block of a whole message; the counter numbers the tool calls.\<close>

definition block_chunks :: "(json \<Rightarrow> string) \<Rightarrow> json \<Rightarrow> u32 \<Rightarrow> stream_chunk list \<times> u32" where
  "block_chunks print block n =
     (let ty = get_str block ''type''
      in if ty = Some ''text'' then (filled_chunk (Content 0) (get_str block ''text''), n)
         else if ty = Some ''thinking'' then
           (chunk_of (Thinking 0) (get_str block ''thinking'') @
            chunk_of (ThinkingSignature 0) (get_str block ''signature''), n)
         else if ty = Some ''redacted_thinking'' then (chunk_of (RedactedThinking 0) (get_str block ''data''), n)
         else if ty = Some ''compaction'' then
           ([Compaction None 0 (unwrap_or [] (get_str block ''content'')) None None (get_str block ''signature'')], n)
         else if ty = Some ''tool_use'' then
           ([ToolCall 0 \<lparr>tl_index = n, tl_id = get_str block ''id'', tl_name = get_str block ''name'',
               tl_arguments = map_option print (json_get block ''input'')\<rparr>], n + 1)
         else ([], n))"

fun blocks_chunks :: "(json \<Rightarrow> string) \<Rightarrow> json list \<Rightarrow> u32 \<Rightarrow> stream_chunk list" where
  "blocks_chunks print [] n = []"
| "blocks_chunks print (block # blocks) n =
     (let (chunks, n) = block_chunks print block n in chunks @ blocks_chunks print blocks n)"

definition message_usage :: "json \<Rightarrow> usage" where
  "message_usage usage =
     (let prompt = unwrap_or 0 (get_u64 usage ''input_tokens'');
          completion = unwrap_or 0 (get_u64 usage ''output_tokens'')
      in \<lparr>ug_prompt = prompt, ug_completion = completion, ug_total = prompt + completion, ug_cost_usd = None,
          ug_cache_read = unwrap_or 0 (get_u64 usage ''cache_read_input_tokens''),
          ug_cache_creation = unwrap_or 0 (get_u64 usage ''cache_creation_input_tokens'')\<rparr>)"

definition anthropic_to_chunks :: "(json \<Rightarrow> string) \<Rightarrow> json \<Rightarrow> string \<Rightarrow> stream_chunk list" where
  "anthropic_to_chunks print v fallback_model =
     [Start (unwrap_or [] (get_str v ''id'')) (unwrap_or fallback_model (get_str v ''model''))] @
     (case get_array v ''content'' of None \<Rightarrow> [] | Some blocks \<Rightarrow> blocks_chunks print blocks 0) @
     [Finish 0 (unwrap_or Stop (map_option map_stop_reason (get_str v ''stop_reason'')))] @
     (case json_get v ''usage'' of None \<Rightarrow> [] | Some usage \<Rightarrow> [UsageReport (message_usage usage)])"

section \<open>Streams\<close>

record anthropic_state =
  as_model :: string
  as_usage :: usage
  as_finished :: bool
  as_next_tool :: u32
  as_tools :: "(u32, u32) btree"
  as_compactions :: "(u32, string \<times> string option) btree"

definition anthropic_state_new :: "string \<Rightarrow> anthropic_state" where
  "anthropic_state_new model =
     \<lparr>as_model = model, as_usage = usage_default, as_finished = False, as_next_tool = 0, as_tools = [],
      as_compactions = []\<rparr>"

definition update_anthropic_usage :: "usage \<Rightarrow> json \<Rightarrow> usage" where
  "update_anthropic_usage out usage =
     (let prompt = unwrap_or (ug_prompt out) (get_u64 usage ''input_tokens'');
          completion = unwrap_or (ug_completion out) (get_u64 usage ''output_tokens'')
      in out\<lparr>ug_prompt := prompt, ug_completion := completion,
           ug_cache_read := unwrap_or (ug_cache_read out) (get_u64 usage ''cache_read_input_tokens''),
           ug_cache_creation := unwrap_or (ug_cache_creation out) (get_u64 usage ''cache_creation_input_tokens''),
           ug_total := prompt + completion\<rparr>)"

definition usage_seen :: "json option \<Rightarrow> anthropic_state \<Rightarrow> anthropic_state" where
  "usage_seen usage st =
     (case usage of None \<Rightarrow> st | Some u \<Rightarrow> st\<lparr>as_usage := update_anthropic_usage (as_usage st) u\<rparr>)"

definition event_index :: "json \<Rightarrow> u32" where
  "event_index event = ucast (unwrap_or 0 (get_u64 event ''index''))"

definition on_message_start :: "json \<Rightarrow> anthropic_state \<Rightarrow> stream_chunk list \<times> anthropic_state" where
  "on_message_start event st =
     (let message = unwrap_or JNull (json_get event ''message'');
          model = unwrap_or (as_model st) (get_str message ''model'')
      in ([Start (unwrap_or [] (get_str message ''id'')) model],
          usage_seen (json_get message ''usage'') (st\<lparr>as_model := model\<rparr>)))"

definition on_block_start :: "json \<Rightarrow> anthropic_state \<Rightarrow> stream_chunk list \<times> anthropic_state" where
  "on_block_start event st =
     (let i = event_index event; block = unwrap_or JNull (json_get event ''content_block'');
          ty = get_str block ''type''
      in if ty = Some ''tool_use'' then
           ([ToolCall 0 \<lparr>tl_index = as_next_tool st, tl_id = get_str block ''id'',
               tl_name = get_str block ''name'', tl_arguments = None\<rparr>],
            st\<lparr>as_next_tool := as_next_tool st + 1, as_tools := bt_insert i (as_next_tool st) (as_tools st)\<rparr>)
         else if ty = Some ''redacted_thinking'' then (chunk_of (RedactedThinking 0) (get_str block ''data''), st)
         else if ty = Some ''compaction'' then
           ([], st\<lparr>as_compactions := bt_insert i
              (unwrap_or [] (get_str block ''content''), get_str block ''signature'') (as_compactions st)\<rparr>)
         else ([], st))"

definition append_compaction :: "u32 \<Rightarrow> string option \<Rightarrow> anthropic_state \<Rightarrow> anthropic_state" where
  "append_compaction i fragment st =
     (case (map_of (as_compactions st) i, fragment) of
        (Some (content, signature), Some s) \<Rightarrow>
          st\<lparr>as_compactions := bt_insert i (content @ s, signature) (as_compactions st)\<rparr>
      | _ \<Rightarrow> st)"

definition tool_fragment :: "u32 option \<Rightarrow> string option \<Rightarrow> stream_chunk list" where
  "tool_fragment tool fragment =
     (case (tool, fragment) of
        (Some n, Some s) \<Rightarrow>
          [ToolCall 0 \<lparr>tl_index = n, tl_id = None, tl_name = None, tl_arguments = Some s\<rparr>]
      | _ \<Rightarrow> [])"

definition on_block_delta :: "json \<Rightarrow> anthropic_state \<Rightarrow> stream_chunk list \<times> anthropic_state" where
  "on_block_delta event st =
     (let i = event_index event; delta = unwrap_or JNull (json_get event ''delta'');
          ty = get_str delta ''type''
      in if ty = Some ''text_delta'' then (filled_chunk (Content 0) (get_str delta ''text''), st)
         else if ty = Some ''thinking_delta'' then (chunk_of (Thinking 0) (get_str delta ''thinking''), st)
         else if ty = Some ''signature_delta'' then
           (chunk_of (ThinkingSignature 0) (get_str delta ''signature''), st)
         else if ty = Some ''compaction_delta'' then ([], append_compaction i (get_str delta ''content'') st)
         else if ty = Some ''input_json_delta'' then
           (tool_fragment (map_of (as_tools st) i) (get_str delta ''partial_json''), st)
         else ([], st))"

definition on_block_stop :: "json \<Rightarrow> anthropic_state \<Rightarrow> stream_chunk list \<times> anthropic_state" where
  "on_block_stop event st =
     (let i = event_index event
      in case map_of (as_compactions st) i of
           None \<Rightarrow> ([], st)
         | Some (content, signature) \<Rightarrow>
             ([Compaction None 0 content None None signature],
              st\<lparr>as_compactions := AList.delete i (as_compactions st)\<rparr>))"

definition on_message_delta :: "json \<Rightarrow> anthropic_state \<Rightarrow> stream_chunk list \<times> anthropic_state" where
  "on_message_delta event st =
     (let usage = json_get event ''usage''; st = usage_seen usage st;
          reason = map_option map_stop_reason (Option.bind (json_get event ''delta'') (\<lambda>d. get_str d ''stop_reason''));
          finish = (case reason of None \<Rightarrow> [] | Some r \<Rightarrow> if as_finished st then [] else [Finish 0 r])
      in (finish @ (if usage = None then [] else [UsageReport (as_usage st)]),
          st\<lparr>as_finished := (as_finished st \<or> reason \<noteq> None)\<rparr>))"

definition stream_error :: "json \<Rightarrow> model_error" where
  "stream_error event =
     (let err = unwrap_or event (json_get event ''error'');
          kind = unwrap_or ''stream_error'' (get_str err ''type'');
          message = unwrap_or ''Anthropic stream error'' (get_str err ''message'');
          status = (if kind = ''overloaded_error'' then 529 else if kind = ''rate_limit_error'' then 429 else 500)
      in Upstream status (kind @ '': '' @ message))"

definition anthropic_event_to_chunks ::
  "json \<Rightarrow> anthropic_state \<Rightarrow> (model_error + stream_chunk list) \<times> anthropic_state" where
  "anthropic_event_to_chunks event st =
     (let ty = get_str event ''type''
      in if ty = Some ''message_start'' then apfst Inr (on_message_start event st)
         else if ty = Some ''content_block_start'' then apfst Inr (on_block_start event st)
         else if ty = Some ''content_block_delta'' then apfst Inr (on_block_delta event st)
         else if ty = Some ''content_block_stop'' then apfst Inr (on_block_stop event st)
         else if ty = Some ''message_delta'' then apfst Inr (on_message_delta event st)
         else if ty = Some ''error'' then (Inl (stream_error event), st)
         else (Inr [], st))"

definition anthropic_sse_to_stream ::
  "(string \<Rightarrow> string + json) \<Rightarrow> (model_error + string) list \<Rightarrow> string \<Rightarrow> (model_error + stream_chunk) list" where
  "anthropic_sse_to_stream parse body fallback_model =
     json_sse_to_stream parse body (anthropic_state_new fallback_model) anthropic_event_to_chunks"

end
