(* ===== verification/AnthropicChain.thy ===== *)
theory AnthropicChain
  imports AnthropicEvents AnthropicWire Chain
begin

text \<open>
  A response stream between two gateways that speak the Messages dialect: the events of
  compat/anthropic.rs and server.rs, read back by http.rs and the provider of anthropic.rs.
\<close>

section \<open>What arrives of a chunk\<close>

text \<open>
  What of the encoder's state the other side can tell: the canonical index of the tool call whose block is
  open, and how many tool blocks there were.
\<close>

record crossing =
  cr_open_call :: "u32 option"
  cr_calls :: u32

definition crossing_new :: crossing where
  "crossing_new = \<lparr>cr_open_call = None, cr_calls = 0\<rparr>"

definition fragment_at :: "u32 \<Rightarrow> string option \<Rightarrow> stream_chunk list" where
  "fragment_at n args =
     (case args of
        None \<Rightarrow> []
      | Some s \<Rightarrow> if s = [] then [] else
          [ToolCall 0 \<lparr>tl_index = n, tl_id = None, tl_name = None, tl_arguments = Some s\<rparr>])"

definition no_call :: "crossing \<Rightarrow> crossing" where
  "no_call x = x\<lparr>cr_open_call := None\<rparr>"

fun crosses :: "stream_chunk \<Rightarrow> crossing \<Rightarrow> stream_chunk list \<times> crossing" where
  "crosses (Content i d) x = (if d = [] then [] else [Content 0 d], no_call x)"
| "crosses (Thinking i d) x = (if d = [] then [] else [Thinking 0 d], no_call x)"
| "crosses (ThinkingSignature i s) x = ([ThinkingSignature 0 s], no_call x)"
| "crosses (RedactedThinking i d) x = ([RedactedThinking 0 d], no_call x)"
| "crosses (Compaction oi i d cid e s) x = ([Compaction None 0 d None None s], no_call x)"
| "crosses (ToolCall i c) x =
     (if cr_open_call x = Some (tl_index c) then (fragment_at (cr_calls x - 1) (tl_arguments c), x)
      else (ToolCall 0 \<lparr>tl_index = cr_calls x, tl_id = Some (unwrap_or [] (tl_id c)),
              tl_name = Some (unwrap_or [] (tl_name c)), tl_arguments = None\<rparr> #
              fragment_at (cr_calls x) (tl_arguments c),
            \<lparr>cr_open_call = Some (tl_index c), cr_calls = cr_calls x + 1\<rparr>))"
| "crosses _ x = ([], x)"

section \<open>One event decoded\<close>

named_theorems decode_simps

lemma event_index_frames [decode_simps]:
  "event_index (fr_data (block_start i b)) = i" "event_index (fr_data (block_delta i d)) = i"
  "event_index (fr_data (block_stop i)) = i"
  by (simp_all add: block_start_def block_delta_def block_stop_def event_index_def get_u64_def event_simps wire_simps)

lemma event_parts [decode_simps]:
  "json_get (fr_data (block_start i b)) ''content_block'' = Some b"
  "json_get (fr_data (block_delta i d)) ''delta'' = Some d"
  by (simp_all add: block_start_def block_delta_def event_simps wire_simps)

lemma event_types [decode_simps]:
  "get_str (fr_data (block_start i b)) ''type'' = Some ''content_block_start''"
  "get_str (fr_data (block_delta i d)) ''type'' = Some ''content_block_delta''"
  "get_str (fr_data (block_stop i)) ''type'' = Some ''content_block_stop''"
  by (simp_all add: block_start_def block_delta_def block_stop_def event_simps)

abbreviation decode :: "frame \<Rightarrow> anthropic_state \<Rightarrow> (model_error + stream_chunk list) \<times> anthropic_state" where
  "decode f \<equiv> anthropic_event_to_chunks (fr_data f)"

lemma decode_frames:
  "decode (block_start i b) st = apfst Inr (on_block_start (fr_data (block_start i b)) st)"
  "decode (block_delta i d) st = apfst Inr (on_block_delta (fr_data (block_delta i d)) st)"
  "decode (block_stop i) st = apfst Inr (on_block_stop (fr_data (block_stop i)) st)"
  by (simp_all add: anthropic_event_to_chunks_def decode_simps)

lemma get_str_typed [decode_simps]:
  "j \<noteq> ''type'' \<Longrightarrow> get_str (typed k ms) j = Option.bind (hm_get ms j) as_str"
  by (simp add: get_str_def event_simps)

lemma get_object [decode_simps]:
  "get_str (JObject m) j = Option.bind (hm_get m j) as_str" "get_u64 (JObject m) j = Option.bind (hm_get m j) as_u64"
  by (simp_all add: get_str_def get_u64_def)

lemma decode_deltas [decode_simps]:
  "decode (text_delta i t) st = (Inr (if t = [] then [] else [Content 0 t]), st)"
  "decode (thinking_delta i t) st = (Inr [Thinking 0 t], st)"
  "decode (signature_delta i t) st = (Inr [ThinkingSignature 0 t], st)"
  "decode (json_delta i t) st = (Inr (tool_fragment (map_of (as_tools st) i) (Some t)), st)"
  "decode (compaction_delta i t) st = (Inr [], append_compaction i (Some t) st)"
  by (simp_all add: text_delta_def thinking_delta_def signature_delta_def json_delta_def compaction_delta_def
      decode_frames on_block_delta_def decode_simps event_simps wire_simps filled_chunk_def chunk_of_def)

lemma decode_starts [decode_simps]:
  "decode (block_start i (typed ''text'' ms)) st = (Inr [], st)"
  "decode (block_start i (typed ''thinking'' ms)) st = (Inr [], st)"
  "decode (block_start i (typed ''redacted_thinking'' (field ''data'' (JString d)))) st = (Inr [RedactedThinking 0 d], st)"
  "decode (block_start i (typed ''tool_use'' (field ''id'' (JString a) @ field ''name'' (JString n) @ rest))) st =
     (Inr [ToolCall 0 \<lparr>tl_index = as_next_tool st, tl_id = Some a, tl_name = Some n, tl_arguments = None\<rparr>],
      st\<lparr>as_next_tool := as_next_tool st + 1, as_tools := bt_insert i (as_next_tool st) (as_tools st)\<rparr>)"
  by (simp_all add: decode_frames on_block_start_def decode_simps event_simps wire_simps chunk_of_def)

lemma decode_compaction_start [decode_simps]:
  "decode (block_start i (compaction_block d s)) st =
     (Inr [], st\<lparr>as_compactions := bt_insert i (if s = None then [] else d, s) (as_compactions st)\<rparr>)"
  by (simp add: decode_frames on_block_start_def decode_simps event_simps wire_simps compaction_block_def
      split: option.splits)

lemma decode_stop [decode_simps]:
  "map_of (as_compactions st) i = None \<Longrightarrow> decode (block_stop i) st = (Inr [], st)"
  "map_of (as_compactions st) i = Some (d, s) \<Longrightarrow> decode (block_stop i) st =
     (Inr [Compaction None 0 d None None s], st\<lparr>as_compactions := AList.delete i (as_compactions st)\<rparr>)"
  by (simp_all add: decode_frames on_block_stop_def decode_simps)

section \<open>The events of a chunk decoded\<close>

text \<open>The chunks of a list of events, when none of them is an error.\<close>

fun decoded_frames :: "frame list \<Rightarrow> anthropic_state \<Rightarrow> (stream_chunk list \<times> anthropic_state) option" where
  "decoded_frames [] st = Some ([], st)"
| "decoded_frames (f # fs) st =
     (case decode f st of
        (Inl e, st) \<Rightarrow> None
      | (Inr chunks, st) \<Rightarrow> map_option (apfst ((@) chunks)) (decoded_frames fs st))"

lemma decoded_append:
  "decoded_frames fs st = Some (a, st') \<Longrightarrow> decoded_frames gs st' = Some (b, st'') \<Longrightarrow>
     decoded_frames (fs @ gs) st = Some (a @ b, st'')"
  by (induction fs arbitrary: st a) (auto split: prod.splits sum.splits)

lemma decoded_single: "decode f st = (Inr chunks, st') \<Longrightarrow> decoded_frames [f] st = Some (chunks, st')"
  by simp

text \<open>Both ends agree on the open block and on the number of tool blocks; no compaction is pending.\<close>

definition in_step :: "event_encoder \<Rightarrow> anthropic_state \<Rightarrow> crossing \<Rightarrow> bool" where
  "in_step e st x \<longleftrightarrow>
     as_next_tool st = cr_calls x \<and> as_compactions st = [] \<and> bt_wf (as_tools st) \<and> \<not> as_finished st \<and>
     as_usage st = usage_default \<and>
     cr_open_call x = (case ee_open e of Some (OpenTool i canon) \<Rightarrow> Some canon | _ \<Rightarrow> None) \<and>
     (\<forall>i canon. ee_open e = Some (OpenTool i canon) \<longrightarrow> map_of (as_tools st) i = Some (cr_calls x - 1))"

text \<open>Encoding a list of frames that decode to these chunks, from and to states in step.\<close>

definition carries ::
  "event_encoder \<Rightarrow> crossing \<Rightarrow> frame list \<times> event_encoder \<Rightarrow> stream_chunk list \<times> crossing \<Rightarrow> bool" where
  "carries e x r c \<longleftrightarrow>
     (\<forall>st. in_step e st x \<longrightarrow> (\<exists>st'. decoded_frames (fst r) st = Some (fst c, st') \<and> in_step (snd r) st' (snd c)))"

lemma carriesI:
  "(\<And>st. in_step e st x \<Longrightarrow> \<exists>st'. decoded_frames fs st = Some (a, st') \<and> in_step e' st' x') \<Longrightarrow>
     carries e x (fs, e') (a, x')"
  by (simp add: carries_def)

lemma carries_then:
  assumes "carries e x (fs, e') (a, x')" "carries e' x' (gs, e'') (b, x'')"
  shows "carries e x (fs @ gs, e'') (a @ b, x'')"
proof (rule carriesI)
  fix st
  assume "in_step e st x"
  with assms(1) obtain st' where s: "decoded_frames fs st = Some (a, st')" "in_step e' st' x'"
    by (auto simp: carries_def)
  with assms(2) obtain st'' where "decoded_frames gs st' = Some (b, st'')" "in_step e'' st'' x''"
    by (auto simp: carries_def)
  with s show "\<exists>st'. decoded_frames (fs @ gs) st = Some (a @ b, st') \<and> in_step e'' st' x''"
    using decoded_append by blast
qed

lemma carries_nothing: "carries e x ([], e) ([], x)"
  by (rule carriesI) simp

lemma decode_message_start:
  "decode (message_start e) st =
     (Inr [Start (ee_id e) (ee_model e)],
      st\<lparr>as_model := ee_model e, as_usage := update_anthropic_usage (as_usage st)
        (JObject (field ''input_tokens'' (json_u64 0) @ field ''output_tokens'' (json_u64 0)))\<rparr>)"
  by (simp add: anthropic_event_to_chunks_def on_message_start_def usage_seen_def message_start_def event_simps
      decode_simps wire_simps Let_def)

lemma no_usage_yet:
  "update_anthropic_usage usage_default
     (JObject (field ''input_tokens'' (json_u64 0) @ field ''output_tokens'' (json_u64 0))) = usage_default"
  by (simp add: update_anthropic_usage_def usage_default_def get_u64_def wire_simps)

definition start_chunks :: "event_encoder \<Rightarrow> stream_chunk list" where
  "start_chunks e = (if ee_started e then [] else [Start (ee_id e) (ee_model e)])"

lemma ensure_started_carries: "carries e x (ensure_started e) (start_chunks e, x)"
  unfolding ensure_started_def start_chunks_def
  by (cases "ee_started e")
    (auto simp: carries_nothing decode_message_start in_step_def no_usage_yet intro!: carriesI)

lemma close_open_carries: "carries e x (close_open e) ([], no_call x)"
  unfolding close_open_def
  by (cases "ee_open e") (auto simp: in_step_def no_call_def decode_simps intro!: carriesI)

lemma deltas_carry:
  assumes "\<And>st. in_step e st x \<Longrightarrow> decoded_frames fs st = Some (a, st)"
  shows "carries e x (fs, e) (a, x)"
  by (rule carriesI) (use assms in auto)

text \<open>Starting a block whose start event is silent on the other side.\<close>

lemma start_block_carries:
  assumes "start_block block e = (fs, i, e')"
    and "\<And>c st. in_step c st (no_call x) \<Longrightarrow> ee_open c = None \<Longrightarrow>
      \<exists>st'. decode (block_start (ee_next_index c) block) st = (Inr a, st') \<and>
        in_step (c\<lparr>ee_next_index := ee_next_index c + 1\<rparr>) st' (no_call x)"
  shows "carries e x (fs, e') (a, no_call x) \<and> ee_open e' = None"
proof -
  obtain cs c where closed: "close_open e = (cs, c)" by (cases "close_open e")
  with assms(1) have fs: "fs = cs @ [block_start i block]" "i = ee_next_index c" "e' = c\<lparr>ee_next_index := i + 1\<rparr>"
    by (auto simp: start_block_def Let_def)
  have "ee_open c = None" using closed by (auto simp: close_open_def split: option.splits)
  have "carries c (no_call x) ([block_start i block], e') (a, no_call x)"
  proof (rule carriesI)
    fix st
    assume "in_step c st (no_call x)"
    from assms(2) [OF this \<open>ee_open c = None\<close>] obtain st'
      where "decode (block_start i block) st = (Inr a, st')" "in_step e' st' (no_call x)"
      by (auto simp: fs)
    then show "\<exists>st'. decoded_frames [block_start i block] st = Some (a, st') \<and> in_step e' st' (no_call x)"
      using decoded_single by blast
  qed
  with close_open_carries [of e x] have "carries e x (fs, e') ([] @ a, no_call x)"
    unfolding closed fs(1) by (rule carries_then)
  then show ?thesis using \<open>ee_open c = None\<close> by (simp add: fs)
qed

lemma start_open_block_carries:
  assumes start: "start_open_block block mk e = (fs, i, e')"
    and silent: "\<And>j st. decode (block_start j block) st = (Inr [], st)" and kind: "\<And>j. open_kind (mk j) \<noteq> ToolBlock"
  shows "carries e x (fs, e') ([], no_call x)"
proof -
  obtain gs j c where s: "start_block block e = (gs, j, c)" by (cases "start_block block e")
  with start have fs: "fs = gs" "e' = c\<lparr>ee_open := Some (mk i)\<rparr>" by (auto simp: start_open_block_def)
  have "carries e x (gs, c) ([], no_call x) \<and> ee_open c = None"
    by (rule start_block_carries [OF s]) (auto simp: silent in_step_def)
  then have carried: "carries e x (fs, c) ([], no_call x)" and none: "ee_open c = None" by (simp_all add: fs)
  have "carries c (no_call x) ([], e') ([], no_call x)"
    using kind [of i] none by (auto simp: fs in_step_def no_call_def split: open_block.splits intro!: carriesI)
  from carries_then [OF carried this] show ?thesis by simp
qed

lemma nothing_to_close:
  assumes "\<And>i canon. ee_open e \<noteq> Some (OpenTool i canon)"
  shows "carries e x ([], e) ([], no_call x)"
  using assms by (intro carriesI) (auto simp: in_step_def no_call_def split: option.splits open_block.splits)

lemma open_text_block_carries:
  assumes "open_text_block e = (fs, i, e')"
  shows "carries e x (fs, e') ([], no_call x)"
proof (cases "\<exists>j. ee_open e = Some (OpenText j)")
  case True
  then show ?thesis using assms nothing_to_close [of e x] by (auto simp: open_text_block_def)
next
  case False
  then have "start_open_block (typed ''text'' (field ''text'' (JString []))) OpenText e = (fs, i, e')"
    using assms by (auto simp: open_text_block_def split: option.splits open_block.splits)
  then show ?thesis by (rule start_open_block_carries) (simp_all add: decode_simps)
qed

lemma open_thinking_block_carries:
  assumes "open_thinking_block e = (fs, i, e')"
  shows "carries e x (fs, e') ([], no_call x)"
proof (cases "\<exists>j. ee_open e = Some (OpenThinking j)")
  case True
  then show ?thesis using assms nothing_to_close [of e x] by (auto simp: open_thinking_block_def)
next
  case False
  then have "start_open_block (typed ''thinking'' (field ''thinking'' (JString []))) OpenThinking e = (fs, i, e')"
    using assms by (auto simp: open_thinking_block_def split: option.splits open_block.splits)
  then show ?thesis by (rule start_open_block_carries) (simp_all add: decode_simps)
qed

definition new_call :: "tool_call_delta \<Rightarrow> crossing \<Rightarrow> stream_chunk" where
  "new_call c x = ToolCall 0 \<lparr>tl_index = cr_calls x, tl_id = Some (unwrap_or [] (tl_id c)),
     tl_name = Some (unwrap_or [] (tl_name c)), tl_arguments = None\<rparr>"

definition opened_call :: "tool_call_delta \<Rightarrow> crossing \<Rightarrow> stream_chunk list \<times> crossing" where
  "opened_call c x =
     (if cr_open_call x = Some (tl_index c) then ([], x)
      else ([new_call c x], \<lparr>cr_open_call = Some (tl_index c), cr_calls = cr_calls x + 1\<rparr>))"

lemma tool_block_carries:
  assumes "start_open_block (typed ''tool_use''
      (field ''id'' (JString (unwrap_or [] (tl_id c))) @ field ''name'' (JString (unwrap_or [] (tl_name c))) @ rest))
      (\<lambda>i. OpenTool i (tl_index c)) e = (fs, i, e')"
  shows "carries e x (fs, e') ([new_call c x], \<lparr>cr_open_call = Some (tl_index c), cr_calls = cr_calls x + 1\<rparr>)"
proof -
  let ?block = "typed ''tool_use''
      (field ''id'' (JString (unwrap_or [] (tl_id c))) @ field ''name'' (JString (unwrap_or [] (tl_name c))) @ rest)"
  obtain gs j d where s: "start_block ?block e = (gs, j, d)" by (cases "start_block ?block e")
  obtain cs b where closed: "close_open e = (cs, b)" by (cases "close_open e")
  with s have gs: "gs = cs @ [block_start j ?block]" "d = b\<lparr>ee_next_index := j + 1\<rparr>"
    by (auto simp: start_block_def Let_def)
  from assms s have fs: "fs = gs" "e' = d\<lparr>ee_open := Some (OpenTool j (tl_index c))\<rparr>"
    by (auto simp: start_open_block_def)
  have "carries b (no_call x) ([block_start j ?block], e')
      ([new_call c x], \<lparr>cr_open_call = Some (tl_index c), cr_calls = cr_calls x + 1\<rparr>)"
    by (auto simp: decode_simps in_step_def no_call_def new_call_def fs gs bt_simps intro!: carriesI)
  from carries_then [OF close_open_carries [of e x, unfolded closed] this] show ?thesis by (simp add: fs gs)
qed

lemma open_tool_block_carries:
  assumes "open_tool_block c e = (fs, i, e')"
  shows "carries e x (fs, e') (opened_call c x) \<and> ee_open e' = Some (OpenTool i (tl_index c))"
proof (cases "\<exists>j. ee_open e = Some (OpenTool j (tl_index c))")
  case True
  then have "fs = []" "e' = e" "ee_open e = Some (OpenTool i (tl_index c))"
    using assms by (auto simp: open_tool_block_def Let_def)
  moreover have "carries e x ([], e) (opened_call c x)"
    using True by (auto simp: carries_def opened_call_def in_step_def)
  ultimately show ?thesis by simp
next
  case False
  let ?start = "start_open_block (typed ''tool_use''
      (field ''id'' (JString (unwrap_or [] (tl_id c))) @ field ''name'' (JString (unwrap_or [] (tl_name c))) @
       field ''input'' (JObject []))) (\<lambda>i. OpenTool i (tl_index c)) e"
  have start: "?start = (fs, i, e')"
    using assms False by (auto simp: open_tool_block_def Let_def split: option.splits open_block.splits if_splits)
  have fresh: "in_step e st x \<Longrightarrow> cr_open_call x \<noteq> Some (tl_index c)" for st
    using False by (auto simp: in_step_def split: option.splits open_block.splits)
  have "carries e x (fs, e') (opened_call c x)"
    using tool_block_carries [OF start, of x] fresh by (auto simp: carries_def opened_call_def)
  moreover have "ee_open e' = Some (OpenTool i (tl_index c))"
    using start by (auto simp: start_open_block_def split: prod.splits)
  ultimately show ?thesis by simp
qed

text \<open>A block that opens and closes within one chunk.\<close>

lemma redacted_carries:
  assumes "start_block (typed ''redacted_thinking'' (field ''data'' (JString d))) e = (fs, i, e')"
  shows "carries e x (fs @ [block_stop i], e') ([RedactedThinking 0 d], no_call x)"
proof -
  have "carries e x (fs, e') ([RedactedThinking 0 d], no_call x)"
    using start_block_carries [OF assms, of x "[RedactedThinking 0 d]"]
    by (auto simp: decode_simps in_step_def)
  moreover have "carries e' (no_call x) ([block_stop i], e') ([], no_call x)"
    by (rule carriesI) (auto simp: decode_simps in_step_def)
  ultimately show ?thesis using carries_then by fastforce
qed

lemma compaction_carries:
  assumes "start_block (compaction_block d s) e = (fs, i, e')"
  shows "carries e x (fs @ (if s = None \<and> d \<noteq> [] then [compaction_delta i d] else []) @ [block_stop i], e')
    ([Compaction None 0 d None None s], no_call x)"
proof -
  obtain cs b where closed: "close_open e = (cs, b)" by (cases "close_open e")
  with assms have fs: "fs = cs @ [block_start i (compaction_block d s)]" "e' = b\<lparr>ee_next_index := i + 1\<rparr>"
    "ee_open b = None"
    by (auto simp: start_block_def Let_def close_open_def split: option.splits)
  have "carries b (no_call x) ([block_start i (compaction_block d s)] @
      (if s = None \<and> d \<noteq> [] then [compaction_delta i d] else []) @ [block_stop i], e')
      ([Compaction None 0 d None None s], no_call x)"
    by (cases s; cases "d = []")
      (auto simp: decode_simps in_step_def no_call_def fs append_compaction_def intro!: carriesI)
  from carries_then [OF close_open_carries [of e x, unfolded closed] this] show ?thesis by (simp add: fs)
qed

section \<open>Whole streams\<close>

text \<open>Chunks that only change what the last events will say, or nothing at all.\<close>

fun held_back :: "stream_chunk \<Rightarrow> bool" where
  "held_back (OutputItem i m) = True"
| "held_back (UsageReport u) = True"
| "held_back (Finish i r) = True"
| "held_back _ = False"

lemma fragments_carry:
  assumes "ee_open e = Some (OpenTool i canon)"
  shows "carries e x (case args of None \<Rightarrow> [] | Some s \<Rightarrow> if s = [] then [] else [json_delta i s], e)
    (fragment_at (cr_calls x - 1) args, x)"
  using assms
  by (cases args) (auto simp: fragment_at_def decode_simps in_step_def tool_fragment_def intro!: carriesI)

lemma crosses_call: "crosses (ToolCall i c) x =
    (fst (opened_call c x) @ fragment_at (cr_calls (snd (opened_call c x)) - 1) (tl_arguments c), snd (opened_call c x))"
  by (simp add: opened_call_def new_call_def)

lemma encode_carries:
  "carries e x (encode_event c e)
     ((if held_back c then [] else start_chunks e) @ fst (crosses c x), snd (crosses c x))"
proof -
  obtain ss s where started: "ensure_started e = (ss, s)" by (cases "ensure_started e")
  have start: "carries e x (ss, s) (start_chunks e, x)"
    using ensure_started_carries [of e x] by (simp add: started)
  have deltas: "carries e x (ss @ os @ ds, e') (start_chunks e @ ds', no_call x)"
    if "carries s x (os, e') ([], no_call x)" "carries e' (no_call x) (ds, e') (ds', no_call x)" for os e' ds ds'
    using carries_then [OF start carries_then [OF that]] by simp
  have book: "carries e x ([], e\<lparr>ee_usage := u\<rparr>) ([], x)" "carries e x ([], e\<lparr>ee_stop_reason := r\<rparr>) ([], x)" for u r
    by (auto simp: in_step_def intro!: carriesI)
  show ?thesis
  proof (cases c)
    case (Content ci d)
    obtain os i e' where o: "open_text_block s = (os, i, e')" by (cases "open_text_block s")
    have "carries e' (no_call x) (if d = [] then [] else [text_delta i d], e')
        (if d = [] then [] else [Content 0 d], no_call x)"
      by (rule deltas_carry) (simp add: decode_simps)
    from deltas [OF open_text_block_carries [OF o] this] show ?thesis by (simp add: Content started o)
  next
    case (Thinking ci d)
    obtain os i e' where o: "open_thinking_block s = (os, i, e')" by (cases "open_thinking_block s")
    have "carries e' (no_call x) (if d = [] then [] else [thinking_delta i d], e')
        (if d = [] then [] else [Thinking 0 d], no_call x)"
      by (rule deltas_carry) (simp add: decode_simps)
    from deltas [OF open_thinking_block_carries [OF o] this] show ?thesis by (simp add: Thinking started o)
  next
    case (ThinkingSignature ci g)
    obtain os i e' where o: "open_thinking_block s = (os, i, e')" by (cases "open_thinking_block s")
    have "carries e' (no_call x) ([signature_delta i g], e') ([ThinkingSignature 0 g], no_call x)"
      by (rule deltas_carry) (simp add: decode_simps)
    from deltas [OF open_thinking_block_carries [OF o] this] show ?thesis
      by (simp add: ThinkingSignature started o)
  next
    case (ToolCall ci call)
    obtain os i e' where o: "open_tool_block call s = (os, i, e')" by (cases "open_tool_block call s")
    obtain oc x' where oc: "opened_call call x = (oc, x')" by (cases "opened_call call x")
    note opened = open_tool_block_carries [OF o, of x, unfolded oc]
    from carries_then [OF start carries_then [OF conjunct1 [OF opened]
        fragments_carry [OF conjunct2 [OF opened], of x' "tl_arguments call"]]]
    show ?thesis
      by (simp add: ToolCall started o oc crosses_call del: crosses.simps)
  next
    case (RedactedThinking ci d)
    let ?b = "typed ''redacted_thinking'' (field ''data'' (JString d))"
    obtain os i e' where o: "start_block ?b s = (os, i, e')" by (cases "start_block ?b s")
    from carries_then [OF start redacted_carries [OF o, of x]] show ?thesis
      by (simp add: RedactedThinking started o)
  next
    case (Compaction oi ci d cid encrypted g)
    obtain os i e' where o: "start_block (compaction_block d g) s = (os, i, e')"
      by (cases "start_block (compaction_block d g) s")
    from carries_then [OF start compaction_carries [OF o, of x]] show ?thesis
      by (simp add: Compaction started o)
  qed (simp_all add: carries_nothing started start book)
qed

text \<open>What the encoder remembers for the end.\<close>

fun told_usage :: "stream_chunk \<Rightarrow> usage \<Rightarrow> usage" where
  "told_usage (UsageReport u) v = u"
| "told_usage _ v = v"

fun told_finish :: "stream_chunk \<Rightarrow> finish_reason option \<Rightarrow> finish_reason option" where
  "told_finish (Finish i r) s = Some r"
| "told_finish _ s = s"

lemma encoder_book:
  "snd (ensure_started e) = e\<lparr>ee_started := True\<rparr>"
  "snd (close_open e) = e\<lparr>ee_open := None\<rparr>"
  by (auto simp: ensure_started_def close_open_def split: option.splits)

definition same_book :: "event_encoder \<Rightarrow> event_encoder \<Rightarrow> bool" where
  "same_book e e' \<longleftrightarrow> ee_id e' = ee_id e \<and> ee_model e' = ee_model e \<and> ee_started e' = ee_started e \<and>
     ee_usage e' = ee_usage e \<and> ee_stop_reason e' = ee_stop_reason e"

lemma blocks_book:
  "start_block b e = (fs, i, e') \<Longrightarrow> same_book e e'"
  "start_open_block b mk e = (fs, i, e') \<Longrightarrow> same_book e e'"
  "open_text_block e = (fs, i, e') \<Longrightarrow> same_book e e'"
  "open_thinking_block e = (fs, i, e') \<Longrightarrow> same_book e e'"
  "open_tool_block c e = (fs, i, e') \<Longrightarrow> same_book e e'"
  by (auto simp: start_block_def start_open_block_def open_text_block_def open_thinking_block_def
      open_tool_block_def same_book_def close_open_def Let_def split: option.splits open_block.splits if_splits prod.splits)

lemma encode_event_book:
  assumes "encode_event c e = (fs, e')"
  shows "ee_id e' = ee_id e \<and> ee_model e' = ee_model e \<and> ee_started e' = (ee_started e \<or> \<not> held_back c) \<and>
    ee_usage e' = told_usage c (ee_usage e) \<and> ee_stop_reason e' = told_finish c (ee_stop_reason e)"
proof -
  obtain ss s where started: "ensure_started e = (ss, s)" by (cases "ensure_started e")
  have s: "s = e\<lparr>ee_started := True\<rparr>" using encoder_book(1) [of e] by (simp add: started)
  show ?thesis
    using assms
    by (cases c) (auto simp: started s same_book_def split: prod.splits dest!: blocks_book)
qed

fun encode_all :: "event_encoder \<Rightarrow> stream_chunk list \<Rightarrow> frame list \<times> event_encoder" where
  "encode_all e [] = ([], e)"
| "encode_all e (c # cs) =
     (let (fs, e) = encode_event c e; (gs, e) = encode_all e cs in (fs @ gs, e))"

lemma frames_split:
  "anthropic_frames e (map Inr cs @ items) =
     fst (encode_all e cs) @ anthropic_frames (snd (encode_all e cs)) items"
  by (induction cs arbitrary: e) (simp_all add: split_beta)

fun crossed :: "stream_chunk list \<Rightarrow> crossing \<Rightarrow> stream_chunk list" where
  "crossed [] x = []"
| "crossed (c # cs) x = fst (crosses c x) @ crossed cs (snd (crosses c x))"

lemma held_back_crosses: "held_back c \<Longrightarrow> crosses c x = ([], x)"
  by (cases c) simp_all

lemma encode_all_carries:
  "\<exists>x'. carries e x (encode_all e cs)
     ((if list_all held_back cs then [] else start_chunks e) @ crossed cs x, x')"
proof (induction cs arbitrary: e x)
  case Nil
  show ?case by (rule exI [of _ x]) (simp add: carries_nothing)
next
  case (Cons c cs)
  obtain fs e' where step: "encode_event c e = (fs, e')" by (cases "encode_event c e")
  obtain gs e'' where rest: "encode_all e' cs = (gs, e'')" by (cases "encode_all e' cs")
  obtain x' where all: "carries e' (snd (crosses c x)) (gs, e'')
      ((if list_all held_back cs then [] else start_chunks e') @ crossed cs (snd (crosses c x)), x')"
    using Cons.IH [of e' "snd (crosses c x)"] by (auto simp: rest)
  have "start_chunks e' = (if held_back c then start_chunks e else [])"
    using encode_event_book [OF step] by (auto simp: start_chunks_def)
  then show ?case
    using carries_then [OF encode_carries [of e x c, unfolded step] all]
    by (intro exI [of _ x']) (auto simp: step rest held_back_crosses split: if_splits)
qed

lemma encode_all_book:
  "ee_id (snd (encode_all e cs)) = ee_id e \<and> ee_model (snd (encode_all e cs)) = ee_model e \<and>
   ee_started (snd (encode_all e cs)) = (ee_started e \<or> \<not> list_all held_back cs) \<and>
   ee_usage (snd (encode_all e cs)) = fold told_usage cs (ee_usage e) \<and>
   ee_stop_reason (snd (encode_all e cs)) = fold told_finish cs (ee_stop_reason e)"
proof (induction cs arbitrary: e)
  case (Cons c cs)
  obtain fs e' where step: "encode_event c e = (fs, e')" by (cases "encode_event c e")
  have eq: "snd (encode_all e (c # cs)) = snd (encode_all e' cs)" by (simp add: step split: prod.split)
  show ?case unfolding eq using Cons.IH [of e'] encode_event_book [OF step] by simp
qed simp

text \<open>The end of a stream.\<close>

definition crossed_usage :: "usage \<Rightarrow> usage" where
  "crossed_usage u =
     \<lparr>ug_prompt = ug_prompt u, ug_completion = ug_completion u, ug_total = ug_prompt u + ug_completion u,
      ug_cost_usd = None, ug_cache_read = 0, ug_cache_creation = 0\<rparr>"

fun crossed_finish :: "finish_reason option \<Rightarrow> finish_reason" where
  "crossed_finish None = Stop"
| "crossed_finish (Some FinishError) = Stop"
| "crossed_finish (Some r) = r"

lemma stop_reason_crossed:
  "map_stop_reason (unwrap_or ''end_turn'' (map_option finish_to_anthropic r)) = crossed_finish r"
  by (cases r rule: crossed_finish.cases) simp_all

lemma decode_message_delta:
  assumes "in_step e st x"
  shows "\<exists>st'. decode (message_delta d) st =
    (Inr [Finish 0 (crossed_finish (ee_stop_reason d)), UsageReport (crossed_usage (ee_usage d))], st')"
  using assms stop_reason_crossed [of "ee_stop_reason d"]
  by (simp add: anthropic_event_to_chunks_def on_message_delta_def usage_seen_def message_delta_def event_simps
      decode_simps wire_simps Let_def in_step_def update_anthropic_usage_def ser_usage_out_def usage_out_from_def
      crossed_usage_def usage_default_def del: map_stop_reason.simps crossed_finish.simps)

lemma decode_message_stop: "decode message_stop st = (Inr [], st)"
  by (simp add: anthropic_event_to_chunks_def message_stop_def event_simps)

lemma decode_error:
  "decode (Frame ''error'' (error_data message)) st = (Inl (Upstream 500 (''api_error: '' @ message)), st)"
  by (simp add: anthropic_event_to_chunks_def stream_error_def error_data_def event_simps decode_simps wire_simps)

lemma finish_decodes:
  assumes "in_step e st x"
  shows "\<exists>st'. decoded_frames (encoder_finish e) st =
    Some (start_chunks e @ [Finish 0 (crossed_finish (ee_stop_reason e)), UsageReport (crossed_usage (ee_usage e))], st')"
proof -
  obtain ss s where started: "ensure_started e = (ss, s)" by (cases "ensure_started e")
  obtain cs c where closed: "close_open s = (cs, c)" by (cases "close_open s")
  have "c = e\<lparr>ee_started := True, ee_open := None\<rparr>"
    using encoder_book(1) [of e, unfolded started snd_conv] encoder_book(2) [of s, unfolded closed snd_conv] by simp
  then have c: "ee_stop_reason c = ee_stop_reason e" "ee_usage c = ee_usage e" by simp_all
  from carries_then [OF ensure_started_carries [of e x, unfolded started] close_open_carries [of s x, unfolded closed]]
  obtain st1 where st1: "decoded_frames (ss @ cs) st = Some (start_chunks e, st1)" "in_step c st1 (no_call x)"
    using assms by (auto simp: carries_def)
  obtain st2 where "decoded_frames [message_delta c, message_stop] st1 =
      Some ([Finish 0 (crossed_finish (ee_stop_reason e)), UsageReport (crossed_usage (ee_usage e))], st2)"
    using decode_message_delta [OF st1(2), of c] by (auto simp: decode_message_stop c)
  from decoded_append [OF st1(1) this] show ?thesis by (auto simp: encoder_finish_def started closed)
qed

section \<open>Across the wire\<close>

text \<open>How named events are written.\<close>

definition framed_event :: "(string \<Rightarrow> string \<Rightarrow> string) \<Rightarrow> bool" where
  "framed_event frame \<longleftrightarrow>
     (\<forall>n s. CHR 0x0A \<notin> set n \<longrightarrow> CHR 0x0A \<notin> set s \<longrightarrow>
        frame n s = ''event: '' @ n @ [CHR 0x0A] @ ''data: '' @ s @ [CHR 0x0A, CHR 0x0A])"

definition printable_frames :: "(json \<Rightarrow> string) \<Rightarrow> (string \<Rightarrow> string + json) \<Rightarrow> frame list \<Rightarrow> bool" where
  "printable_frames print parse fs \<longleftrightarrow>
     (\<forall>f \<in> set fs. parse (print (fr_data f)) = Inr (fr_data f) \<and> one_line (print (fr_data f)))"

definition event_names :: "string list" where
  "event_names = [''message_start'', ''content_block_start'', ''content_block_delta'', ''content_block_stop'',
     ''message_delta'', ''message_stop'', ''error'']"

lemma step_names: "message_step p f q \<Longrightarrow> fr_event f \<in> set event_names"
  by (induction rule: message_step.induct) (auto simp: frame_kind_def event_names_def split: if_splits)

lemma run_names: "message_run p fs q \<Longrightarrow> f \<in> set fs \<Longrightarrow> fr_event f \<in> set event_names"
  by (induction rule: message_run.induct) (auto dest: step_names)

lemma sse_line_event: "n \<in> set event_names \<Longrightarrow> sse_line (''event: '' @ n) = None"
proof -
  have "list_all (\<lambda>n. sse_line (''event: '' @ n) = None) event_names" by code_simp
  then show "n \<in> set event_names \<Longrightarrow> sse_line (''event: '' @ n) = None" by (simp add: list_all_iff)
qed

lemma event_names_short: "n \<in> set event_names \<Longrightarrow> CHR 0x0A \<notin> set n \<and> length n \<le> 19"
  by (auto simp: event_names_def)

lemma named_events_body:
  assumes "framed_event frame" "printable_frames print parse fs" "\<forall>f \<in> set fs. fr_event f \<in> set event_names"
  shows "sse_events (concat (map (\<lambda>f. frame (fr_event f) (print (fr_data f))) fs)) = map (\<lambda>f. print (fr_data f)) fs \<and>
    lines_fit (concat (map (\<lambda>f. frame (fr_event f) (print (fr_data f))) fs))"
  using assms(2,3)
proof (induction fs)
  case Nil
  then show ?case by (simp add: sse_events_def lines_fit_def map_filter_simps)
next
  case (Cons f fs)
  let ?n = "fr_event f" and ?t = "print (fr_data f)"
  let ?rest = "concat (map (\<lambda>f. frame (fr_event f) (print (fr_data f))) fs)"
  have n: "CHR 0x0A \<notin> set ?n" "length ?n \<le> 19" "sse_line (''event: '' @ ?n) = None"
    using Cons.prems(2) event_names_short sse_line_event by simp_all
  have t: "one_line ?t" and fs: "printable_frames print parse fs"
    using Cons.prems(1) by (simp_all add: printable_frames_def)
  then have t': "CHR 0x0A \<notin> set ?t" "length ?t + 6 \<le> max_sse_line_bytes" "sse_line (''data: '' @ ?t) = Some ?t"
    using sse_line_one_line by (simp_all add: one_line_def)
  have "frame ?n ?t @ ?rest =
      (''event: '' @ ?n) @ CHR 0x0A # (''data: '' @ ?t) @ CHR 0x0A # [] @ CHR 0x0A # ?rest"
    using assms(1) n(1) t'(1) by (simp add: framed_event_def)
  then have "lines_of (frame ?n ?t @ ?rest) = (''event: '' @ ?n) # (''data: '' @ ?t) # [] # lines_of ?rest"
    using lines_of_line [of "''event: '' @ ?n"] lines_of_line [of "''data: '' @ ?t"] n(1) t'(1) by simp
  moreover have "butlast (a # b # c # lines_of s) = a # b # c # butlast (lines_of s)" for a b c s by simp
  moreover have "length ?n + 7 \<le> max_sse_line_bytes" using n(2) by (simp add: max_sse_line_bytes_def)
  ultimately show ?case
    using Cons.IH [OF fs] Cons.prems(2) n(3) t' sse_line_empty
    by (simp add: sse_events_def lines_fit_def map_filter_simps)
qed

lemma json_step_value:
  assumes "parse t = Inr v" "one_line t"
  shows "json_step parse mapper t st =
    (case mapper v st of (Inl e, st) \<Rightarrow> Over [Inl e] | (Inr chunks, st) \<Rightarrow> Onward chunks st)"
  using assms one_line_not_done [OF assms(2)] by (simp add: json_step_def)

lemma decoded_batch:
  assumes "printable_frames print parse fs" "decoded_frames fs st = Some (chunks, st')"
  shows "sse_batch (json_step parse anthropic_event_to_chunks) (map (\<lambda>f. print (fr_data f)) fs) st =
    (map Inr chunks, Some st')"
  using assms
proof (induction fs arbitrary: st chunks)
  case (Cons f fs)
  then have f: "parse (print (fr_data f)) = Inr (fr_data f)" "one_line (print (fr_data f))"
    and fs: "printable_frames print parse fs" by (simp_all add: printable_frames_def)
  obtain a st1 where d: "decode f st = (Inr a, st1)"
    using Cons.prems(2) by (auto split: prod.splits sum.splits)
  obtain b where "decoded_frames fs st1 = Some (b, st')" "chunks = a @ b"
    using Cons.prems(2) by (auto simp: d)
  with Cons.IH [OF fs this(1)] show ?case
    using json_step_value [of parse "print (fr_data f)" "fr_data f" anthropic_event_to_chunks st] f by (simp add: d)
qed simp

text \<open>What the second gateway's stream is, from the items of the first one's.\<close>

fun leading :: "(model_error + 'a) list \<Rightarrow> 'a list" where
  "leading [] = []"
| "leading (Inl e # items) = []"
| "leading (Inr c # items) = c # leading items"

fun first_error :: "(model_error + 'a) list \<Rightarrow> model_error option" where
  "first_error [] = None"
| "first_error (Inl e # items) = Some e"
| "first_error (Inr c # items) = first_error items"

definition anthropic_arrives ::
  "string \<Rightarrow> string \<Rightarrow> (model_error + stream_chunk) list \<Rightarrow> (model_error + stream_chunk) list" where
  "anthropic_arrives mid model items =
     (let cs = leading items
      in case first_error items of
           None \<Rightarrow> map Inr (Start mid model # crossed cs crossing_new @
             [Finish 0 (crossed_finish (fold told_finish cs None)),
              UsageReport (crossed_usage (fold told_usage cs usage_default))])
         | Some e \<Rightarrow>
             map Inr ((if list_all held_back cs then [] else [Start mid model]) @ crossed cs crossing_new) @
             [Inl (Upstream 500 (''api_error: '' @ model_error_text e))])"

lemma items_split:
  "first_error items = None \<Longrightarrow> items = map Inr (leading items)"
  "first_error items = Some e \<Longrightarrow> \<exists>rest. items = map Inr (leading items) @ Inl e # rest"
  by (induction items rule: first_error.induct) auto

lemma all_held_back_crossed: "list_all held_back cs \<Longrightarrow> crossed cs x = []"
  by (induction cs arbitrary: x) (simp_all add: held_back_crosses)

lemma in_step_new: "in_step (encoder_new mid model) (anthropic_state_new fallback) crossing_new"
  by (simp add: in_step_def encoder_new_def anthropic_state_new_def crossing_new_def bt_simps)

lemma frames_decode:
  assumes "printable_frames print parse (anthropic_frames (encoder_new mid model) items)"
  shows "fst (sse_batch (json_step parse anthropic_event_to_chunks)
      (map (\<lambda>f. print (fr_data f)) (anthropic_frames (encoder_new mid model) items)) (anthropic_state_new fallback)) =
    anthropic_arrives mid model items"
proof -
  let ?e = "encoder_new mid model" and ?cs = "leading items" and ?step = "json_step parse anthropic_event_to_chunks"
  let ?print = "\<lambda>f. print (fr_data f)"
  let ?head = "(if list_all held_back ?cs then [] else [Start mid model]) @ crossed ?cs crossing_new"
  obtain fs e' where all: "encode_all ?e ?cs = (fs, e')" by (cases "encode_all ?e ?cs")
  have "start_chunks ?e = [Start mid model]" by (simp add: start_chunks_def encoder_new_def)
  then obtain st x where st: "decoded_frames fs (anthropic_state_new fallback) = Some (?head, st)" "in_step e' st x"
    using encode_all_carries [of ?e crossing_new ?cs] in_step_new [of mid model fallback]
    by (auto simp: carries_def all)
  have book: "start_chunks e' = (if list_all held_back ?cs then [Start mid model] else [])"
    "ee_stop_reason e' = fold told_finish ?cs None" "ee_usage e' = fold told_usage ?cs usage_default"
    using encode_all_book [of ?e ?cs, unfolded all snd_conv] by (simp_all add: start_chunks_def encoder_new_def)
  show ?thesis
  proof (cases "first_error items")
    case None
    then have "anthropic_frames ?e items = fs @ encoder_finish e'"
      using frames_split [of ?e ?cs "[]"] items_split(1) [OF None] by (simp add: all)
    moreover obtain st' where "decoded_frames (fs @ encoder_finish e') (anthropic_state_new fallback) =
        Some (?head @ start_chunks e' @ [Finish 0 (crossed_finish (ee_stop_reason e')),
          UsageReport (crossed_usage (ee_usage e'))], st')"
      using finish_decodes [OF st(2)] decoded_append [OF st(1)] by blast
    ultimately have "decoded_frames (anthropic_frames ?e items) (anthropic_state_new fallback) =
        Some (Start mid model # crossed ?cs crossing_new @ [Finish 0 (crossed_finish (fold told_finish ?cs None)),
          UsageReport (crossed_usage (fold told_usage ?cs usage_default))], st')"
      by (cases "list_all held_back ?cs") (simp_all add: book all_held_back_crossed)
    from decoded_batch [OF assms this] show ?thesis by (simp add: anthropic_arrives_def Let_def None)
  next
    case (Some e)
    let ?err = "Frame ''error'' (error_data (model_error_text e))"
    obtain rest where items: "items = map Inr ?cs @ Inl e # rest" using items_split(2) [OF Some] by blast
    have frames: "anthropic_frames ?e items = fs @ [?err]"
      using frames_split [of ?e ?cs "Inl e # rest"] unfolding items [symmetric] all by simp
    then have "printable_frames print parse fs" and err: "parse (?print ?err) = Inr (fr_data ?err)" "one_line (?print ?err)"
      using assms by (simp_all add: printable_frames_def)
    from decoded_batch [OF this(1) st(1)] json_step_value [of parse "?print ?err" "fr_data ?err" anthropic_event_to_chunks st]
    show ?thesis
      using err Some decode_error [of "model_error_text e" st]
      by (simp add: frames sse_batch_append anthropic_arrives_def Let_def)
  qed
qed

text \<open>
  C17: a stream crosses from one gateway to the next in the Messages dialect. However the network cuts the
  bytes, the second gateway's stream is the opening chunk, then the text, reasoning, signatures,
  redacted blocks, compactions and tool calls of the first one in their order, then the last
  finish reason and the last usage (its cost and cache counts stay behind); tool calls are numbered by
  their blocks, choices become one. An upstream error in the middle arrives as an error.
\<close>

theorem messages_between_gateways:
  assumes "framed_event frame"
    and "printable_frames print parse (anthropic_frames (encoder_new mid model) items)"
    and "concat pieces = concat (map (\<lambda>f. frame (fr_event f) (print (fr_data f)))
      (anthropic_frames (encoder_new mid model) items))"
  shows "anthropic_sse_to_stream parse (map Inr pieces) fallback = anthropic_arrives mid model items"
proof -
  let ?fs = "anthropic_frames (encoder_new mid model) items"
  have "encoder_ok (encoder_new mid model)" by (simp add: encoder_new_def encoder_ok_def)
  then have "\<forall>f \<in> set ?fs. fr_event f \<in> set event_names"
    using frames_run run_names by blast
  from named_events_body [OF assms(1,2) this]
  have body: "sse_events (concat pieces) = map (\<lambda>f. print (fr_data f)) ?fs" "lines_fit (concat pieces)"
    by (simp_all only: assms(3))
  have "pending [] = []" by (simp add: pending_def)
  with body(2) have "anthropic_sse_to_stream parse (map Inr pieces) fallback =
      fst (sse_batch (json_step parse anthropic_event_to_chunks) (sse_events (concat pieces)) (anthropic_state_new fallback))"
    unfolding anthropic_sse_to_stream_def json_sse_to_stream_def by (subst sse_stream_pieces) simp_all
  then show ?thesis by (simp only: body(1) frames_decode [OF assms(2)])
qed

text \<open>A stream that fails after one delta: four frames, each printed as a name in braces.\<close>

definition sample_frames :: "frame list" where
  "sample_frames = anthropic_frames (encoder_new ''m1'' ''fast'') [Inr (Content 0 ''hi''), Inl Timeout]"

definition frame_names :: "string list" where
  "frame_names = [''{a}'', ''{b}'', ''{c}'', ''{d}'']"

definition frame_print :: "json \<Rightarrow> string" where
  "frame_print v = unwrap_or ''{}'' (map_of (zip (map fr_data sample_frames) frame_names) v)"

definition frame_parse :: "string \<Rightarrow> string + json" where
  "frame_parse s = ok_or (map_of (zip frame_names (map fr_data sample_frames)) s) ''no value''"

definition frame_text :: "string \<Rightarrow> string \<Rightarrow> string" where
  "frame_text n s = ''event: '' @ n @ [CHR 0x0A] @ ''data: '' @ s @ [CHR 0x0A, CHR 0x0A]"

lemma sample_frames_eq:
  "sample_frames = [message_start (encoder_new ''m1'' ''fast''), block_start 0 (typed ''text'' (field ''text'' (JString []))),
     text_delta 0 ''hi'', Frame ''error'' (error_data ''deadline exceeded'')]"
  by (simp add: sample_frames_def encoder_new_def ensure_started_def open_text_block_def start_open_block_def
      start_block_def close_open_def message_start_def)

lemma sample_distinct: "distinct (map fr_data sample_frames)"
proof -
  have "map (\<lambda>v. get_str v ''type'') (map fr_data sample_frames) =
      [Some ''message_start'', Some ''content_block_start'', Some ''content_block_delta'', Some ''error'']"
    by (simp add: sample_frames_eq message_start_def text_delta_def decode_simps event_simps error_data_def)
  then have "distinct (map (\<lambda>v. get_str v ''type'') (map fr_data sample_frames))" by simp
  then show ?thesis by (simp only: distinct_map)
qed

lemma sample_frames_printable: "printable_frames frame_print frame_parse sample_frames"
proof -
  have texts: "one_line ''{a}''" "one_line ''{b}''" "one_line ''{c}''" "one_line ''{d}''"
    by (simp_all add: one_line_def max_sse_line_bytes_def utf8_step_ascii)
  obtain a b c d where fs: "sample_frames = [a, b, c, d]" by (simp add: sample_frames_eq)
  then have "distinct (map fr_data [a, b, c, d])" using sample_distinct by simp
  then show ?thesis
    unfolding printable_frames_def frame_print_def frame_parse_def frame_names_def fs by (auto simp: texts)
qed

theorem messages_between_gateways_witness:
  "\<exists>pieces. length pieces = 1 \<and>
     anthropic_sse_to_stream frame_parse (map Inr pieces) ''x'' =
       [Inr (Start ''m1'' ''fast''), Inr (Content 0 ''hi''), Inl (Upstream 500 ''api_error: deadline exceeded'')]"
proof -
  let ?items = "[Inr (Content 0 ''hi''), Inl Timeout]"
  let ?piece = "concat (map (\<lambda>f. frame_text (fr_event f) (frame_print (fr_data f)))
      (anthropic_frames (encoder_new ''m1'' ''fast'') ?items))"
  have "framed_event frame_text" by (simp add: framed_event_def frame_text_def)
  moreover have "printable_frames frame_print frame_parse (anthropic_frames (encoder_new ''m1'' ''fast'') ?items)"
    using sample_frames_printable by (simp only: sample_frames_def)
  moreover have "concat [?piece] = ?piece" by (simp only: concat.simps append_Nil2)
  ultimately have "anthropic_sse_to_stream frame_parse (map Inr [?piece]) ''x'' = anthropic_arrives ''m1'' ''fast'' ?items"
    by (rule messages_between_gateways)
  moreover have "anthropic_arrives ''m1'' ''fast'' ?items =
      [Inr (Start ''m1'' ''fast''), Inr (Content 0 ''hi''), Inl (Upstream 500 ''api_error: deadline exceeded'')]"
    by (simp add: anthropic_arrives_def)
  ultimately show ?thesis by (intro exI [of _ "[?piece]"]) (simp only: length_Cons list.size(3), simp)
qed

end
