(* ===== verification/AnthropicGateway.thy ===== *)
theory AnthropicGateway
  imports Anthropic AnthropicWire
begin

text \<open>
  Both ends of the Messages dialect together: a body parsed by compat/anthropic.rs, sent on by the
  provider of anthropic.rs, and parsed by a second gateway. And what the provider sends when a
  consumer of another dialect asks for thinking.
\<close>

section \<open>A body read field by field\<close>

definition message_keys :: "string list" where
  "message_keys = [''model'', ''max_tokens'', ''system'', ''messages'', ''temperature'', ''top_p'',
     ''stop_sequences'', ''stream'', ''tools'', ''tool_choice'']"

definition left_of :: "json_map \<Rightarrow> string \<Rightarrow> json option" where
  "left_of obj k = (if k \<in> set message_keys then None else hm_get obj k)"

definition reads_messages ::
  "(json \<Rightarrow> string) \<Rightarrow> (string option \<Rightarrow> string) \<Rightarrow> json_map \<Rightarrow> chat_request \<Rightarrow> bool" where
  "reads_messages print dbg obj req \<longleftrightarrow>
     hm_get obj ''model'' = Some (JString (cq_model req)) \<and>
     (\<exists>v n. hm_get obj ''max_tokens'' = Some v \<and> as_u64 v = Some n \<and> cq_max_tokens req = Some (ucast n)) \<and>
     (\<exists>items turns. hm_get obj ''messages'' = Some (JArray items) \<and> try_map (parse_turn print dbg) items = Inr turns \<and>
       cq_messages req = system_messages (hm_get obj ''system'') @ concat turns) \<and>
     cq_temperature req = map_option f32_round (Option.bind (hm_get obj ''temperature'') as_f64) \<and>
     cq_top_p req = map_option f32_round (Option.bind (hm_get obj ''top_p'') as_f64) \<and>
     cq_stop req = parse_stop_sequences (hm_get obj ''stop_sequences'') \<and>
     cq_stream req = unwrap_or False (Option.bind (hm_get obj ''stream'') as_bool) \<and>
     parse_anthropic_tools (hm_get obj ''tools'') = Inr (cq_tools req) \<and>
     cq_tool_choice req = parse_anthropic_choice (hm_get obj ''tool_choice'') \<and>
     cq_thinking req = None \<and> hm_get (cq_extra req) = left_of obj"

definition remainder :: "json_map \<Rightarrow> json_map" where
  "remainder obj = hm_remove ''tool_choice'' (hm_remove ''tools'' (hm_remove ''stream''
     (hm_remove ''stop_sequences'' (hm_remove ''top_p'' (hm_remove ''temperature'' (hm_remove ''messages''
       (hm_remove ''system'' (hm_remove ''max_tokens'' (hm_remove ''model'' obj)))))))))"

lemma remainder_lookup: "hm_get (remainder obj) = left_of obj"
  by (rule ext) (auto simp: remainder_def left_of_def message_keys_def hm_get_removed)

lemma remainder_wf: "hm_wf obj \<Longrightarrow> hm_wf (remainder obj)"
  by (simp add: remainder_def hm_simps)

lemma parse_messages_object:
  "parse_messages_request print dbg (JObject obj) =
     (case hm_get obj ''model'' of
        Some (JString model) \<Rightarrow>
          res_bind (case hm_get obj ''max_tokens'' of
              None \<Rightarrow> Inl (Mapping ''`max_tokens` is required'')
            | Some v \<Rightarrow> ok_or (map_option ucast (as_u64 v)) (Mapping ''`max_tokens` must be an integer''))
            (\<lambda>max_tokens.
          res_bind (case hm_get obj ''messages'' of
              Some (JArray items) \<Rightarrow> Inr items
            | _ \<Rightarrow> Inl (Mapping ''`messages` is required and must be an array'')) (\<lambda>convo.
          res_bind (try_map (parse_turn print dbg) convo) (\<lambda>turns.
          res_bind (parse_anthropic_tools (hm_get obj ''tools'')) (\<lambda>tools.
          Inr \<lparr>cq_model = model, cq_messages = system_messages (hm_get obj ''system'') @ concat turns,
            cq_max_tokens = Some max_tokens,
            cq_temperature = map_option f32_round (Option.bind (hm_get obj ''temperature'') as_f64),
            cq_top_p = map_option f32_round (Option.bind (hm_get obj ''top_p'') as_f64),
            cq_stop = parse_stop_sequences (hm_get obj ''stop_sequences''),
            cq_stream = unwrap_or False (Option.bind (hm_get obj ''stream'') as_bool), cq_tools = tools,
            cq_tool_choice = parse_anthropic_choice (hm_get obj ''tool_choice''), cq_thinking = None,
            cq_extra = remainder obj\<rparr>))))
      | _ \<Rightarrow> Inl (Mapping ''`model` is required and must be a string''))"
proof (cases "hm_get obj ''model''")
  case None
  then show ?thesis by (simp add: parse_messages_request_def)
next
  case (Some v)
  show ?thesis
  proof (cases v)
    case (JString model)
    with Some show ?thesis
      unfolding parse_messages_request_def remainder_def
      by (simp add: Let_def hm_get_removed)
  qed (simp_all add: Some parse_messages_request_def)
qed

lemma parsed_reads:
  assumes "parse_messages_request print dbg (JObject obj) = Inr req"
  shows "reads_messages print dbg obj req \<and> cq_extra req = remainder obj"
  using assms unfolding parse_messages_object reads_messages_def
  by (auto simp: res_simps remainder_lookup split: option.splits json.splits)

lemma reads_parsed:
  assumes "reads_messages print dbg obj req"
  shows "parse_messages_request print dbg (JObject obj) = Inr (req\<lparr>cq_extra := remainder obj\<rparr>)"
  using assms unfolding parse_messages_object reads_messages_def
  by (auto simp: res_simps split: option.splits)

section \<open>The body that is sent\<close>

lemma merge_extra_lookup:
  assumes "hm_wf extra" "hm_get m ''output_config'' = None \<or> hm_get extra ''output_config'' = None"
  shows "hm_get (fold merge_extra extra m) k = or_else (hm_get m k) (hm_get extra k)"
  using assms
proof (induction extra arbitrary: m)
  case Nil
  then show ?case by (simp add: wire_simps)
next
  case (Cons kv extra)
  obtain j v where kv: "kv = (j, v)" by (cases kv)
  have wf: "hm_wf extra" and fresh: "hm_get extra j = None"
    using Cons.prems(1) by (simp_all add: hm_wf_def hm_keys_def kv hm_get_None_iff)
  have get: "hm_get ((j, v) # extra) i = (if i = j then Some v else hm_get extra i)" for i
    by (simp add: hm_get_def)
  have step: "merge_extra kv m = (if hm_get m j = None then hm_insert j v m else m)"
    using Cons.prems(2) by (auto simp: merge_extra_def kv get split: option.splits json.splits)
  have "hm_get (merge_extra kv m) ''output_config'' = None \<or> hm_get extra ''output_config'' = None"
    using Cons.prems(2) fresh by (auto simp: step [unfolded kv] kv get hm_get_insert split: if_splits)
  from Cons.IH [OF wf this] show ?case
    using fresh by (auto simp: step [unfolded kv] kv get hm_get_insert wire_simps)
qed

definition written_message :: "(string \<Rightarrow> string + json) \<Rightarrow> chat_request \<Rightarrow> string \<Rightarrow> json option" where
  "written_message parse req k =
     (if k = ''tool_choice'' \<and> cq_tool_choice req \<noteq> None then map_option choice_to_anthropic (cq_tool_choice req)
      else if k = ''tools'' \<and> cq_tools req \<noteq> [] then Some (JArray (map tool_to_anthropic (cq_tools req)))
      else if k = ''stop_sequences'' \<and> cq_stop req \<noteq> [] then Some (JArray (map JString (cq_stop req)))
      else if k = ''top_p'' \<and> cq_top_p req \<noteq> None then map_option json_f64 (cq_top_p req)
      else if k = ''temperature'' \<and> cq_temperature req \<noteq> None then map_option json_f64 (cq_temperature req)
      else if k = ''messages'' then Some (JArray (anthropic_messages parse req None))
      else if k = ''system'' \<and> system_prompt req \<noteq> [] then Some (JString (system_prompt req))
      else if k = ''max_tokens'' then Some (json_u32 (anthropic_max_tokens req))
      else if k = ''model'' then Some (JString (cq_model req))
      else None)"

lemma sent_lookup:
  assumes "cq_thinking req = None" "hm_wf (cq_extra req)"
  shows "json_get (anthropic_body parse req None stream) k =
    (if k = ''stream'' then Some (JBool stream)
     else or_else (written_message parse req k) (hm_get (cq_extra req) k))"
proof -
  define m where "m = opt_insert ''tool_choice'' choice_to_anthropic (cq_tool_choice req)
    (if_insert ''tools'' (JArray (anthropic_tools req None)) (cq_tools req \<noteq> [])
    (if_insert ''stop_sequences'' (JArray (map JString (cq_stop req))) (cq_stop req \<noteq> [])
    (opt_insert ''top_p'' json_f64 (cq_top_p req) (opt_insert ''temperature'' json_f64 (cq_temperature req)
    (hm_insert ''messages'' (JArray (anthropic_messages parse req None))
    (if_insert ''system'' (system_value None (system_prompt req)) (system_prompt req \<noteq> [])
    (hm_insert ''max_tokens'' (json_u32 (anthropic_max_tokens req)) (hm_insert ''model'' (JString (cq_model req)) hm_empty))))))))"
  have get: "hm_get m j = written_message parse req j" for j
    unfolding m_def written_message_def
    by (simp add: hm_get_if_insert hm_get_opt_insert hm_get_insert hm_get_empty anthropic_tools_def system_value_def)
  have "hm_get m ''output_config'' = None" unfolding get by (simp add: written_message_def)
  then have "hm_get (fold merge_extra (cq_extra req) m) j = or_else (hm_get m j) (hm_get (cq_extra req) j)" for j
    using merge_extra_lookup [OF assms(2)] by blast
  moreover have "request_to_anthropic parse req None = JObject (fold merge_extra (cq_extra req) m)"
    unfolding request_to_anthropic_def m_def Let_def write_thinking_def by (simp add: assms(1))
  ultimately show ?thesis by (simp add: anthropic_body_def hm_get_insert get)
qed

section \<open>Messages that come from this dialect\<close>

fun user_part :: "content_part \<Rightarrow> bool" where
  "user_part (Text t) = True"
| "user_part (ImageUrl url detail) \<longleftrightarrow> detail = None"
| "user_part (CompactionPart oi i content e s) \<longleftrightarrow> oi = None \<and> i = None \<and> content \<noteq> None \<and> e = None"
| "user_part _ = False"

fun assistant_part :: "content_part \<Rightarrow> bool" where
  "assistant_part (Text t) = True"
| "assistant_part (ThinkingPart t s) = True"
| "assistant_part (RedactedThinkingPart d) = True"
| "assistant_part (CompactionPart oi i content e s) \<longleftrightarrow> oi = None \<and> i = None \<and> content \<noteq> None \<and> e = None"
| "assistant_part _ = False"

text \<open>Arguments in the printer's own form: parsed and printed again they are the same text.\<close>

definition printed_form :: "(json \<Rightarrow> string) \<Rightarrow> (string \<Rightarrow> string + json) \<Rightarrow> string \<Rightarrow> bool" where
  "printed_form print parse s \<longleftrightarrow> (case parse s of Inl e \<Rightarrow> False | Inr v \<Rightarrow> print v = s)"

definition shaped :: "message \<Rightarrow> bool" where
  "shaped m \<longleftrightarrow> me_name m = None \<and>
     (case me_role m of
        User \<Rightarrow> list_all user_part (me_content m) \<and> me_tool_calls m = [] \<and> me_tool_call_id m = None
      | Assistant \<Rightarrow> list_all assistant_part (me_content m) \<and> me_tool_call_id m = None
      | Tool \<Rightarrow> me_tool_calls m = [] \<and> me_tool_call_id m \<noteq> None \<and> (\<exists>t. me_content m = [Text t])
      | System \<Rightarrow> False)"

definition calls_printed :: "(json \<Rightarrow> string) \<Rightarrow> (string \<Rightarrow> string + json) \<Rightarrow> message \<Rightarrow> bool" where
  "calls_printed print parse m \<longleftrightarrow> (\<forall>c \<in> set (me_tool_calls m). printed_form print parse (tc_arguments c))"

lemma parsed_compaction_part: "parse_compaction obj = Inr p \<Longrightarrow> user_part p \<and> assistant_part p"
  by (auto simp: parse_compaction_def split: option.splits)

lemma parsed_image_part: "image_part dbg obj = Inr p \<Longrightarrow> user_part p"
  by (auto simp: image_part_def Let_def split: option.splits if_splits)

lemma shaped_tool_message: "shaped (tool_message b)" "me_role (tool_message b) = Tool"
  by (simp_all add: shaped_def tool_message_def)

lemma shaped_user: "shaped (user_message ps) = list_all user_part ps" "shaped (message_text User t)"
  by (simp_all add: shaped_def user_message_def message_text_def)

lemma user_block_shaped:
  assumes "user_block dbg b (ms, ps) = Inr (ms', ps')" "list_all shaped ms" "list_all user_part ps"
  shows "list_all shaped ms' \<and> list_all user_part ps'"
  using assms
  by (auto simp: user_block_def Let_def res_simps shaped_tool_message parsed_compaction_part
      dest!: parsed_image_part parsed_compaction_part split: json.splits if_splits)

lemma each_block_inv:
  assumes "each_block f bs st = Inr st'" "P st" "\<And>b st st'. f b st = Inr st' \<Longrightarrow> P st \<Longrightarrow> P st'"
  shows "P st'"
  using assms(1,2) by (induction bs arbitrary: st) (auto simp: res_simps dest: assms(3))

lemma parsed_user_shaped:
  assumes "parse_user_content dbg content = Inr ms"
  shows "list_all shaped ms"
proof -
  have blocks: "list_all shaped tm \<and> list_all user_part ps"
    if "each_block (user_block dbg) bs ([], []) = Inr (tm, ps)" for bs tm ps
    using each_block_inv [where P = "\<lambda>(tm, ps). list_all shaped tm \<and> list_all user_part ps", OF that]
      user_block_shaped by fastforce
  show ?thesis
    using assms blocks
    by (auto simp: parse_user_content_def res_simps shaped_user split: option.splits json.splits prod.splits)
qed

lemma assistant_block_parts:
  assumes "assistant_block print dbg b (ps, cs) = Inr (ps', cs')" "list_all assistant_part ps"
  shows "list_all assistant_part ps'"
  using assms
  by (auto simp: assistant_block_def Let_def res_simps dest!: parsed_compaction_part split: json.splits if_splits)

lemma parsed_assistant_shaped:
  assumes "parse_assistant_message print dbg content = Inr m"
  shows "shaped m \<and> me_role m = Assistant"
proof -
  have blocks: "list_all assistant_part ps"
    if "each_block (assistant_block print dbg) bs ([], []) = Inr (ps, cs)" for bs ps cs
    using each_block_inv [where P = "\<lambda>(ps, cs). list_all assistant_part ps", OF that]
      assistant_block_parts by fastforce
  show ?thesis
    using assms
    by (auto simp: parse_assistant_message_def res_simps shaped_def dest: blocks split: option.splits json.splits)
qed

lemma parsed_turn_shaped: "parse_turn print dbg v = Inr ms \<Longrightarrow> list_all shaped ms"
  by (auto simp: parse_turn_def Let_def res_simps dest: parsed_user_shaped parsed_assistant_shaped
      split: json.splits option.splits if_splits)

lemma parsed_turns_shaped: "try_map (parse_turn print dbg) vs = Inr turns \<Longrightarrow> list_all shaped (concat turns)"
  by (induction vs arbitrary: turns) (auto simp: res_simps dest: parsed_turn_shaped)

section \<open>A message sent and read again\<close>

lemma get_obj: "get_str (JObject m) k = Option.bind (hm_get m k) as_str"
  by (simp add: get_str_def)

lemma get_cons: "hm_get ((j, v) # m) k = (if k = j then Some v else hm_get m k)"
  by (simp add: hm_get_def)

lemma user_block_sent:
  "user_part p \<Longrightarrow> user_block dbg (part_to_anthropic p) (ms, ps) = Inr (ms, ps @ [p])"
  by (cases p)
    (auto simp: user_block_def image_part_def parse_compaction_def get_obj get_cons wire_simps json_opt_def Let_def)

lemma user_blocks_sent:
  "list_all user_part ps \<Longrightarrow> each_block (user_block dbg) (map part_to_anthropic ps) (ms, qs) = Inr (ms, qs @ ps)"
  by (induction ps arbitrary: qs) (simp_all add: user_block_sent)

lemma assistant_block_sent:
  "assistant_part p \<Longrightarrow> assistant_block print dbg (part_to_anthropic p) (ps, cs) = Inr (ps @ [p], cs)"
  by (cases p)
    (auto simp: assistant_block_def parse_compaction_def get_obj get_cons wire_simps json_opt_def Let_def)

lemma assistant_blocks_sent:
  "list_all assistant_part ps \<Longrightarrow>
     each_block (assistant_block print dbg) (map part_to_anthropic ps @ bs) (qs, cs) =
     each_block (assistant_block print dbg) bs (qs @ ps, cs)"
  by (induction ps arbitrary: qs) (simp_all add: assistant_block_sent)

lemma tool_use_sent:
  assumes "printed_form print parse (tc_arguments c)"
  shows "assistant_block print dbg (tool_use_block parse c) (ps, cs) = Inr (ps, cs @ [c])"
  using assms
  by (auto simp: assistant_block_def tool_use_block_def tool_use_call_def call_input_def printed_form_def
      get_obj get_cons wire_simps Let_def split: sum.splits)

lemma tool_uses_sent:
  "\<forall>c \<in> set calls. printed_form print parse (tc_arguments c) \<Longrightarrow>
     each_block (assistant_block print dbg) (map (tool_use_block parse) calls) (ps, cs) = Inr (ps, cs @ calls)"
  by (induction calls arbitrary: cs) (simp_all add: tool_use_sent)

lemma turn_sent:
  assumes "shaped m" "calls_printed print parse m"
  shows "parse_turn print dbg (message_to_anthropic parse m) = Inr [m]"
proof (cases "me_role m")
  case User
  then obtain ps where "m = user_message ps" "list_all user_part ps"
    using assms(1) by (cases m) (auto simp: shaped_def user_message_def)
  then show ?thesis
    using user_blocks_sent [of ps dbg "[]" "[]"]
    by (simp add: message_to_anthropic_def parse_turn_def parse_user_content_def get_cons user_message_def)
next
  case Assistant
  then have "list_all assistant_part (me_content m)"
    using assms(1) by (auto simp: shaped_def)
  then have "each_block (assistant_block print dbg)
      (map part_to_anthropic (me_content m) @ map (tool_use_block parse) (me_tool_calls m)) ([], []) =
      Inr (me_content m, me_tool_calls m)"
    using assistant_blocks_sent [of "me_content m"] tool_uses_sent [of "me_tool_calls m"] assms(2)
    by (simp add: calls_printed_def)
  then show ?thesis
    using Assistant assms(1)
    by (simp add: message_to_anthropic_def parse_turn_def parse_assistant_message_def get_cons shaped_def)
next
  case Tool
  then obtain t i where "m = \<lparr>me_role = Tool, me_content = [Text t], me_tool_calls = [], me_tool_call_id = Some i, me_name = None\<rparr>"
    using assms(1) by (cases m) (auto simp: shaped_def)
  then show ?thesis
    by (simp add: message_to_anthropic_def parse_turn_def parse_user_content_def get_cons user_block_def
        get_obj tool_message_def block_text_def text_content_def)
next
  case System
  with assms(1) show ?thesis by (simp add: shaped_def)
qed

lemma turns_sent:
  "list_all shaped ms \<Longrightarrow> list_all (calls_printed print parse) ms \<Longrightarrow>
     try_map (parse_turn print dbg) (map (message_to_anthropic parse) ms) = Inr (map (\<lambda>m. [m]) ms)"
  by (induction ms) (simp_all add: turn_sent)

lemma shaped_not_system: "shaped m \<Longrightarrow> me_role m \<noteq> System"
  by (auto simp: shaped_def)

lemma join_single: "join_with sep (if t = [] then [] else [t]) = t"
  by simp

lemma system_sent:
  assumes "list_all shaped ms"
  shows "filter (\<lambda>m. me_role m \<noteq> System) (system_messages v @ ms) = ms"
    and "join_with sep (map text_content (filter (\<lambda>m. me_role m = System) (system_messages v @ ms))) =
      (case v of None \<Rightarrow> [] | Some s \<Rightarrow> system_text s)"
proof -
  have ms: "filter (\<lambda>m. me_role m \<noteq> System) ms = ms" "filter (\<lambda>m. me_role m = System) ms = []"
    using assms shaped_not_system by (auto simp: list_all_iff filter_id_conv filter_empty_conv)
  show "filter (\<lambda>m. me_role m \<noteq> System) (system_messages v @ ms) = ms"
    by (simp add: ms system_messages_def message_text_def split: option.split)
  show "join_with sep (map text_content (filter (\<lambda>m. me_role m = System) (system_messages v @ ms))) =
      (case v of None \<Rightarrow> [] | Some s \<Rightarrow> system_text s)"
    by (simp add: ms system_messages_def message_text_def text_content_def split: option.split)
qed

lemma system_read_again:
  assumes "p = (case v of None \<Rightarrow> [] | Some s \<Rightarrow> system_text s)"
  shows "system_messages (if p = [] then None else Some (JString p)) = system_messages v"
  using assms by (auto simp: system_messages_def system_text_def split: option.split)

lemma tools_sent: "parse_anthropic_tools (Some (JArray (map tool_to_anthropic ts))) = Inr ts"
proof -
  have "parse_anthropic_tool (tool_to_anthropic t) = Inr t" for t
    by (simp add: parse_anthropic_tool_def tool_to_anthropic_def get_obj get_cons json_opt_def split: option.split)
  then show ?thesis
    by (simp add: parse_anthropic_tools_def try_map_map try_map_Inr [where g = "\<lambda>t. t"])
qed

lemma choice_sent: "parse_anthropic_choice (Some (choice_to_anthropic c)) = Some c"
  by (cases c) (simp_all add: parse_anthropic_choice_def get_obj get_cons)

lemma stops_sent: "parse_stop_sequences (Some (JArray (map JString xs))) = xs"
  by (induction xs) (simp_all add: parse_stop_sequences_def map_filter_simps)

lemma absent_messages: "parse_anthropic_tools None = Inr []" "parse_anthropic_choice None = None"
  "parse_stop_sequences None = []"
  by (simp_all add: parse_anthropic_tools_def parse_anthropic_choice_def parse_stop_sequences_def)

text \<open>
  C18: the Messages dialect passes through. A body a consumer posts, parsed and sent on by the Messages
  provider without prompt caching, is read by a second gateway as the same request: system prompt,
  turns, images, tool calls and results, reasoning with its signatures, compactions, tools, limits and
  every field the model has no place for. The model name is the target's and the stream flag the
  transport's. Arguments of tool calls must be in the JSON printer's own form, which parsing gives them.
\<close>

theorem messages_second_gateway:
  assumes "parse_messages_request print dbg (JObject obj) = Inr req" "hm_wf obj"
    and "list_all (calls_printed print parse) (cq_messages req)"
  shows "\<exists>extra. parse_messages_request print dbg' (anthropic_body parse (req\<lparr>cq_model := upstream\<rparr>) None stream) =
      Inr (req\<lparr>cq_model := upstream, cq_stream := stream, cq_extra := extra\<rparr>) \<and>
    hm_get extra = hm_get (cq_extra req)"
proof -
  let ?req = "req\<lparr>cq_model := upstream\<rparr>"
  note r = parsed_reads [OF assms(1)]
  then have thinking: "cq_thinking ?req = None" and wf: "hm_wf (cq_extra ?req)"
    using remainder_wf [OF assms(2)] by (simp_all add: reads_messages_def)
  obtain body where body: "anthropic_body parse ?req None stream = JObject body"
    by (simp add: anthropic_body_def request_to_anthropic_def Let_def)
  have L: "hm_get body k = (if k = ''stream'' then Some (JBool stream)
      else or_else (written_message parse ?req k) (hm_get (cq_extra req) k))" for k
    using sent_lookup [OF thinking wf, of parse stream k] by (simp add: body)
  have none: "k \<in> set message_keys \<Longrightarrow> hm_get (cq_extra req) k = None" for k
    using r by (simp add: remainder_lookup left_of_def)
  note none = none [unfolded message_keys_def, simplified]
  obtain ms where ms: "cq_messages req = system_messages (hm_get obj ''system'') @ ms" "list_all shaped ms"
    using r parsed_turns_shaped by (auto simp: reads_messages_def)
  have printed: "list_all (calls_printed print parse) ms" using assms(3) by (simp add: ms(1))
  have q: "cq_messages ?req = system_messages (hm_get obj ''system'') @ ms" by (simp add: ms(1))
  have prompt: "system_prompt ?req = (case hm_get obj ''system'' of None \<Rightarrow> [] | Some s \<Rightarrow> system_text s)"
    unfolding system_prompt_def q by (rule system_sent(2) [OF ms(2)])
  have system: "system_messages (hm_get body ''system'') = system_messages (hm_get obj ''system'')"
    using system_read_again [OF prompt] none by (simp add: L written_message_def split: if_splits)
  have messages: "hm_get body ''messages'' = Some (JArray (map (message_to_anthropic parse) ms))"
    unfolding L written_message_def anthropic_messages_def q system_sent(1) [OF ms(2)] by simp
  have tools: "parse_anthropic_tools (hm_get body ''tools'') = Inr (cq_tools req)"
    using none by (simp add: L written_message_def tools_sent absent_messages)
  have choice: "parse_anthropic_choice (hm_get body ''tool_choice'') = cq_tool_choice req"
    using none by (cases "cq_tool_choice req") (simp_all add: L written_message_def choice_sent absent_messages)
  have stops: "parse_stop_sequences (hm_get body ''stop_sequences'') = cq_stop req"
    using none by (simp add: L written_message_def stops_sent absent_messages)
  have "cq_temperature req = map_option f32_round (Option.bind (hm_get obj ''temperature'') as_f64)"
    and "cq_top_p req = map_option f32_round (Option.bind (hm_get obj ''top_p'') as_f64)"
    using r unfolding reads_messages_def by blast+
  then have f32: "map_option f32_round (cq_temperature req) = cq_temperature req"
    "map_option f32_round (cq_top_p req) = cq_top_p req"
    by (simp_all add: option.map_comp o_def f32_round_idem)
  have temperature: "map_option f32_round (Option.bind (hm_get body ''temperature'') as_f64) = cq_temperature req"
    using none f32(1) by (cases "cq_temperature req") (simp_all add: L written_message_def wire_simps)
  have top_p: "map_option f32_round (Option.bind (hm_get body ''top_p'') as_f64) = cq_top_p req"
    using none f32(2) by (cases "cq_top_p req") (simp_all add: L written_message_def wire_simps)
  obtain n where n: "cq_max_tokens req = Some n" using r by (auto simp: reads_messages_def)
  then have cap: "hm_get body ''max_tokens'' = Some (json_u32 n)"
    using thinking by (simp add: L written_message_def anthropic_max_tokens_def)
  have rest: "left_of body = hm_get (cq_extra req)"
  proof
    fix k
    show "left_of body k = hm_get (cq_extra req) k"
    proof (cases "k \<in> set message_keys")
      case True
      with none show ?thesis by (auto simp: left_of_def message_keys_def)
    next
      case False
      then have "written_message parse ?req k = None" "k \<noteq> ''stream''"
        by (auto simp: written_message_def message_keys_def)
      with False show ?thesis by (simp add: left_of_def L)
    qed
  qed
  have streaming: "unwrap_or False (Option.bind (hm_get body ''stream'') as_bool) = stream"
    and model: "hm_get body ''model'' = Some (JString upstream)"
    by (simp_all add: L written_message_def wire_simps)
  have turns: "try_map (parse_turn print dbg') (map (message_to_anthropic parse) ms) = Inr (map (\<lambda>m. [m]) ms)"
    by (rule turns_sent [OF ms(2) printed])
  have single: "concat (map (\<lambda>m. [m]) ms) = ms" by (induction ms) simp_all
  have "reads_messages print dbg' body (?req\<lparr>cq_stream := stream, cq_extra := remainder body\<rparr>)"
    unfolding reads_messages_def messages cap
    by (simp add: system turns single tools choice stops temperature top_p streaming model remainder_lookup ms(1) n
        thinking [simplified] as_u64_json_u32 wire_simps)
  from reads_parsed [OF this] show ?thesis
    by (intro exI [of _ "remainder body"]) (simp add: body remainder_lookup rest)
qed

text \<open>A small body, for the witness.\<close>

definition messages_body :: "(string \<times> json) list" where
  "messages_body = [(''model'', JString ''fast''), (''max_tokens'', JNumber (PosInt 5)),
     (''system'', JString ''brief''),
     (''messages'', JArray [JObject [(''role'', JString ''user''), (''content'', JString ''hi'')]]),
     (''top_k'', JNumber (PosInt 7))]"

definition messages_request :: chat_request where
  "messages_request =
     \<lparr>cq_model = ''fast'',
      cq_messages = [\<lparr>me_role = System, me_content = [Text ''brief''], me_tool_calls = [],
          me_tool_call_id = None, me_name = None\<rparr>,
        \<lparr>me_role = User, me_content = [Text ''hi''], me_tool_calls = [], me_tool_call_id = None, me_name = None\<rparr>],
      cq_max_tokens = Some 5, cq_temperature = None, cq_top_p = None, cq_stop = [], cq_stream = False,
      cq_tools = [], cq_tool_choice = None, cq_thinking = None, cq_extra = [(''top_k'', JNumber (PosInt 7))]\<rparr>"

lemma messages_body_parsed: "parse_messages_request print dbg (JObject messages_body) = Inr messages_request"
  by (simp add: parse_messages_object messages_body_def messages_request_def remainder_def parse_turn_def
      parse_user_content_def system_messages_def system_text_def message_text_def absent_messages
      hm_get_def hm_remove_def)

theorem messages_second_gateway_witness:
  "\<exists>extra. parse_messages_request (\<lambda>_. []) (\<lambda>_. [])
        (anthropic_body Inl (messages_request\<lparr>cq_model := ''upstream''\<rparr>) None True) =
      Inr (messages_request\<lparr>cq_model := ''upstream'', cq_stream := True, cq_extra := extra\<rparr>) \<and>
    hm_get extra = hm_get (cq_extra messages_request)"
  by (rule messages_second_gateway [OF messages_body_parsed])
    (simp_all add: messages_body_def hm_wf_def hm_keys_def messages_request_def calls_printed_def)

section \<open>Thinking over any dialect\<close>

lemma merge_extra_other:
  assumes "k \<noteq> ''output_config''"
  shows "hm_get (fold merge_extra extra m) k = or_else (hm_get m k) (hm_get extra k)"
proof (induction extra arbitrary: m)
  case Nil
  then show ?case by (simp add: wire_simps)
next
  case (Cons kv extra)
  have "hm_get (merge_extra kv m) k =
      (if k = fst kv then or_else (hm_get m k) (Some (snd kv)) else hm_get m k)"
    using assms by (auto simp: merge_extra_def hm_get_insert wire_simps split: option.splits json.splits)
  then show ?case
    by (cases kv; cases "hm_get m k") (auto simp: Cons.IH get_cons wire_simps)
qed

lemma thinking_lookup:
  assumes "cq_thinking req = Some t" "k \<in> {''max_tokens'', ''thinking'', ''temperature'', ''top_p''}"
  shows "json_get (anthropic_body parse req cache stream) k = or_else
     (if k = ''max_tokens'' then Some (json_u32 (anthropic_max_tokens req))
      else if k = ''thinking'' then Some (JObject (case thinking_style_for (cq_model req) of
          Budget \<Rightarrow> [(''type'', JString ''enabled''), (''budget_tokens'', json_u32 (budget_tokens t))]
        | Adaptive xhigh \<Rightarrow> [(''type'', JString ''adaptive'')]))
      else None) (hm_get (cq_extra req) k)"
proof -
  from assms(2) have k: "k \<noteq> ''output_config''" "k \<noteq> ''stream''" by auto
  define m where "m = opt_insert ''tool_choice'' choice_to_anthropic (cq_tool_choice req)
    (if_insert ''tools'' (JArray (anthropic_tools req cache)) (cq_tools req \<noteq> [])
    (if_insert ''stop_sequences'' (JArray (map JString (cq_stop req))) (cq_stop req \<noteq> [])
    (hm_insert ''messages'' (JArray (anthropic_messages parse req cache))
    (if_insert ''system'' (system_value cache (system_prompt req)) (system_prompt req \<noteq> [])
    (hm_insert ''max_tokens'' (json_u32 (anthropic_max_tokens req)) (hm_insert ''model'' (JString (cq_model req)) hm_empty))))))"
  have "hm_get m k = (if k = ''max_tokens'' then Some (json_u32 (anthropic_max_tokens req)) else None)"
    unfolding m_def using assms(2)
    by (auto simp: hm_get_if_insert hm_get_opt_insert hm_get_insert hm_get_empty)
  then have get: "hm_get (write_thinking req m) k =
      (if k = ''max_tokens'' then Some (json_u32 (anthropic_max_tokens req))
      else if k = ''thinking'' then Some (JObject (case thinking_style_for (cq_model req) of
          Budget \<Rightarrow> [(''type'', JString ''enabled''), (''budget_tokens'', json_u32 (budget_tokens t))]
        | Adaptive xhigh \<Rightarrow> [(''type'', JString ''adaptive'')]))
      else None)"
    by (cases "k = ''thinking''"; cases "thinking_style_for (cq_model req)")
      (simp_all add: write_thinking_def assms(1) hm_get_insert k)
  have "request_to_anthropic parse req cache = JObject (fold merge_extra (cq_extra req) (write_thinking req m))"
    unfolding request_to_anthropic_def m_def Let_def by (simp add: assms(1))
  then show ?thesis by (simp add: anthropic_body_def hm_get_insert k merge_extra_other [OF k(1)] get)
qed

lemma cap_over_budget:
  assumes "n \<noteq> 0"
  shows "budget_tokens t < saturating_add_u32 n (budget_tokens t) \<and> n \<le> saturating_add_u32 n (budget_tokens t)"
proof (cases "unat n + unat (budget_tokens t) < 2 ^ 32")
  case True
  then have sum: "unat (n + budget_tokens t) = unat n + unat (budget_tokens t)"
    by (simp add: unat_word_ariths(1))
  have "0 < unat n" using assms by (simp add: unat_gt_0)
  then show ?thesis
    using True by (simp add: saturating_add_u32_def word_less_nat_alt word_le_nat_alt sum)
next
  case False
  have "budget_tokens t < - 1" by (cases t) simp_all
  with False show ?thesis by (simp add: saturating_add_u32_def)
qed

lemma saturating_add_exact: "unat (saturating_add_u32 a b) = min (2 ^ 32 - 1) (unat a + unat b)"
proof (cases "unat a + unat b < 2 ^ 32")
  case True
  then have "unat (a + b) = unat a + unat b" by (simp add: unat_word_ariths)
  with True show ?thesis by (simp add: saturating_add_u32_def)
next
  case False
  moreover have "unat (- 1 :: u32) = 2 ^ 32 - 1"
    by (simp add: unsigned_minus_1_eq_mask mask_eq_exp_minus_1)
  ultimately show ?thesis by (simp add: saturating_add_u32_def)
qed

text \<open>
  C20: a request for thinking never asks for an impossible cap. Whatever output cap the consumer set, unless it
  is zero, and with the default when it set none, the cap sent is that cap plus the thinking budget, room for
  both; where the sum does not fit 32 bits it is the largest 32-bit number instead, never a wrapped one. Either
  way the budget is below the cap. The budget is named only to models that take one. Sampling parameters the
  upstream would refuse are left out.
\<close>

theorem thinking_budget_fits:
  assumes "cq_thinking req = Some t" "cq_max_tokens req \<noteq> Some 0"
  shows "\<exists>cap. json_get (anthropic_body parse req cache stream) ''max_tokens'' = Some (json_u32 cap) \<and>
      unat cap = min (2 ^ 32 - 1) (unat (unwrap_or default_max_tokens (cq_max_tokens req)) + unat (budget_tokens t)) \<and>
      budget_tokens t < cap \<and>
      json_get (anthropic_body parse req cache stream) ''thinking'' =
        Some (JObject (case thinking_style_for (cq_model req) of
            Budget \<Rightarrow> [(''type'', JString ''enabled''), (''budget_tokens'', json_u32 (budget_tokens t))]
          | Adaptive xhigh \<Rightarrow> [(''type'', JString ''adaptive'')])) \<and>
      (\<forall>k. k = ''temperature'' \<or> k = ''top_p'' \<longrightarrow>
        json_get (anthropic_body parse req cache stream) k = hm_get (cq_extra req) k)"
proof -
  have "unwrap_or default_max_tokens (cq_max_tokens req) \<noteq> 0"
    using assms(2) by (cases "cq_max_tokens req") (auto simp: default_max_tokens_def)
  note cap = cap_over_budget [OF this, of t]
  show ?thesis
    by (rule exI [of _ "anthropic_max_tokens req"])
      (use cap in \<open>auto simp: thinking_lookup [OF assms(1)] anthropic_max_tokens_def assms(1) wire_simps saturating_add_exact\<close>)
qed

theorem thinking_budget_fits_witness:
  "\<exists>cap. json_get (anthropic_body Inl (messages_request\<lparr>cq_model := ''claude-sonnet-4-5'', cq_thinking := Some High\<rparr>)
        None True) ''max_tokens'' = Some (json_u32 cap) \<and> unat cap = 5 + unat (budget_tokens High) \<and> budget_tokens High < cap"
proof -
  have five: "cq_max_tokens messages_request = Some 5" by (simp add: messages_request_def)
  have "\<exists>cap. json_get (anthropic_body Inl (messages_request\<lparr>cq_model := ''claude-sonnet-4-5'', cq_thinking := Some High\<rparr>)
        None True) ''max_tokens'' = Some (json_u32 cap) \<and>
      unat cap = min (2 ^ 32 - 1) (unat (unwrap_or default_max_tokens (Some 5)) + unat (budget_tokens High)) \<and>
      budget_tokens High < cap"
    using thinking_budget_fits [of "messages_request\<lparr>cq_model := ''claude-sonnet-4-5'', cq_thinking := Some High\<rparr>"
      High Inl None True] five by fastforce
  moreover have "min (2 ^ 32 - 1) (unat (unwrap_or default_max_tokens (Some 5)) + unat (budget_tokens High)) =
      5 + unat (budget_tokens High)" by simp
  ultimately show ?thesis by simp
qed

end
