(* ===== verification/Jsonl.thy ===== *)
theory Jsonl
  imports Sse
begin

text \<open>
  Newline-delimited JSON for batches, \<open>crates/llmleaf-providers/src/batch.rs\<close>: building an upload and
  reading a results file as it arrives. \<open>print\<close> is serde_json's printer, \<open>parse\<close> its parser, \<open>decode\<close>
  the reading of one result line, which belongs to each provider.
\<close>

definition build_jsonl :: "(json \<Rightarrow> string) \<Rightarrow> json list \<Rightarrow> string" where
  "build_jsonl print lines = concat (map (\<lambda>v. print v @ [CHR 0x0A]) lines)"

definition max_jsonl_line_bytes :: nat where "max_jsonl_line_bytes = 16 * 1024 * 1024"

definition is_ascii_whitespace :: "char \<Rightarrow> bool" where
  "is_ascii_whitespace c \<longleftrightarrow> c \<in> {CHR 0x20, CHR 0x09, CHR 0x0A, CHR 0x0C, CHR 0x0D}"

definition trim_ascii :: "string \<Rightarrow> string" where
  "trim_ascii b = rev (dropWhile is_ascii_whitespace (rev (dropWhile is_ascii_whitespace b)))"

definition parse_line ::
  "(string \<Rightarrow> string + json) \<Rightarrow> (json \<Rightarrow> batch_result option) \<Rightarrow> string \<Rightarrow> model_error + batch_result option" where
  "parse_line parse decode raw =
     (let line = trim_ascii raw
      in if line = [] then Inr None
         else case parse line of Inl e \<Rightarrow> Inl (Mapping e) | Inr v \<Rightarrow> Inr (decode v))"

type_synonym result_items = "(model_error + batch_result) list"

text \<open>The complete lines of a buffer: what is yielded, and what is left of the buffer unless the stream ended.\<close>

function drain_results ::
  "(string \<Rightarrow> model_error + batch_result option) \<Rightarrow> string \<Rightarrow> result_items \<times> string option" where
  "drain_results line_of buf =
     (case split_first (CHR 0x0A) buf of
        None \<Rightarrow> ([], Some buf)
      | Some (line, rest) \<Rightarrow>
          (case line_of line of
             Inl e \<Rightarrow> ([Inl e], None)
           | Inr None \<Rightarrow> drain_results line_of rest
           | Inr (Some result) \<Rightarrow> apfst ((#) (Inr result)) (drain_results line_of rest)))"
  by pat_completeness auto
termination
  by (relation "measure (\<lambda>(_, buf). length buf)") (auto dest!: split_first_SomeD)

declare drain_results.simps [simp del]

definition line_too_long :: model_error where
  "line_too_long = Unavailable (''batch result line exceeds '' @ decimal max_jsonl_line_bytes @ '' bytes'')"

definition last_line :: "(string \<Rightarrow> model_error + batch_result option) \<Rightarrow> string \<Rightarrow> result_items" where
  "last_line line_of buf =
     (case line_of buf of Inl e \<Rightarrow> [Inl e] | Inr None \<Rightarrow> [] | Inr (Some result) \<Rightarrow> [Inr result])"

fun jsonl_loop ::
  "(string \<Rightarrow> model_error + batch_result option) \<Rightarrow> string \<Rightarrow> (model_error + string) list \<Rightarrow> result_items" where
  "jsonl_loop line_of buf [] = last_line line_of buf"
| "jsonl_loop line_of buf (Inl e # items) = [Inl e]"
| "jsonl_loop line_of buf (Inr chunk # items) =
     (case drain_results line_of (buf @ chunk) of
        (out, None) \<Rightarrow> out
      | (out, Some buf) \<Rightarrow>
          out @ (if max_jsonl_line_bytes < length buf then [Inl line_too_long] else jsonl_loop line_of buf items))"

definition jsonl_result_stream ::
  "(string \<Rightarrow> string + json) \<Rightarrow> (model_error + string) list \<Rightarrow> (json \<Rightarrow> batch_result option) \<Rightarrow> result_items" where
  "jsonl_result_stream parse body decode = jsonl_loop (parse_line parse decode) [] body"

section \<open>Reading line by line\<close>

text \<open>The reference: all lines of the whole file, up to the first that fails.\<close>

fun results_of :: "(string \<Rightarrow> model_error + batch_result option) \<Rightarrow> string list \<Rightarrow> result_items \<times> bool" where
  "results_of line_of [] = ([], True)"
| "results_of line_of (line # lines) =
     (case line_of line of
        Inl e \<Rightarrow> ([Inl e], False)
      | Inr None \<Rightarrow> results_of line_of lines
      | Inr (Some result) \<Rightarrow> apfst ((#) (Inr result)) (results_of line_of lines))"

lemma results_of_append:
  "results_of line_of (xs @ ys) =
     (if snd (results_of line_of xs) then apfst ((@) (fst (results_of line_of xs))) (results_of line_of ys)
      else results_of line_of xs)"
  by (induction xs) (auto split: sum.splits option.splits simp: prod_eq_iff)

lemma drain_results_spec:
  "drain_results line_of s =
     (fst (results_of line_of (butlast (lines_of s))),
      if snd (results_of line_of (butlast (lines_of s))) then Some (pending s) else None)"
proof (induction line_of s rule: drain_results.induct)
  case (1 line_of s)
  show ?case
  proof (cases "split_first (CHR 0x0A) s")
    case None
    then have "lines_of s = [s]" by (simp add: split_first_None_iff lines_of_single)
    with None show ?thesis by (simp add: drain_results.simps [of _ s] pending_def)
  next
    case (Some lr)
    then obtain line rest where lr: "split_first (CHR 0x0A) s = Some (line, rest)" by (cases lr) auto
    have "lines_of s = line # lines_of rest"
      using split_first_SomeD [OF lr] by (simp add: lines_of_line)
    then show ?thesis
      using "1.IH" [OF lr refl]
      by (auto simp: drain_results.simps [of _ s] lr pending_def split: sum.split option.split)
  qed
qed

lemma last_line_spec: "last_line line_of buf = fst (results_of line_of [buf])"
  by (simp add: last_line_def split: sum.split option.split)

lemma lines_split:
  "lines_of (a @ b) = butlast (lines_of a) @ lines_of (pending a @ b)"
  unfolding lines_of_pending_append by (simp add: lines_of_append pending_def)

lemma jsonl_loop_pieces:
  "list_all (\<lambda>line. length line \<le> max_jsonl_line_bytes) (lines_of (buf @ concat pieces)) \<Longrightarrow> pending buf = buf \<Longrightarrow>
     jsonl_loop line_of buf (map Inr pieces) = fst (results_of line_of (lines_of (buf @ concat pieces)))"
proof (induction pieces arbitrary: buf)
  case Nil
  then have "lines_of buf = [buf]" using lines_of_pending [of buf] by simp
  then show ?case by (simp add: last_line_spec)
next
  case (Cons piece pieces)
  let ?b = "pending (buf @ piece)"
  have whole: "lines_of (buf @ concat (piece # pieces)) =
      butlast (lines_of (buf @ piece)) @ lines_of (?b @ concat pieces)"
    using lines_split [of "buf @ piece" "concat pieces"] by simp
  have fit: "list_all (\<lambda>line. length line \<le> max_jsonl_line_bytes) (lines_of (?b @ concat pieces))"
    using Cons.prems(1) unfolding whole by simp
  have "length ?b \<le> length (hd (lines_of (?b @ concat pieces)))"
    unfolding lines_of_pending_append by simp
  also have "\<dots> \<le> max_jsonl_line_bytes"
    using fit by (cases "lines_of (?b @ concat pieces)") auto
  finally have short: "\<not> max_jsonl_line_bytes < length ?b" by simp
  have "pending ?b = ?b" by (simp add: pending_def [of ?b] lines_of_pending)
  note IH = Cons.IH [OF fit this]
  show ?case
    unfolding whole results_of_append by (simp add: drain_results_spec short IH)
qed

lemma trim_ascii_printed:
  assumes "s \<noteq> []" "\<not> is_ascii_whitespace (hd s)" "\<not> is_ascii_whitespace (last s)"
  shows "trim_ascii s = s"
proof -
  have "dropWhile is_ascii_whitespace s = s" using assms(1,2) by (cases s) simp_all
  moreover have "dropWhile is_ascii_whitespace (rev s) = rev s"
    using assms(1,3) by (cases "rev s") (simp_all add: hd_rev [symmetric])
  ultimately show ?thesis by (simp add: trim_ascii_def)
qed

lemma built_lines:
  "list_all (\<lambda>v. CHR 0x0A \<notin> set (print v)) lines \<Longrightarrow>
     lines_of (build_jsonl print lines) = map print lines @ [[]]"
  by (induction lines) (simp_all add: build_jsonl_def lines_of_line)

text \<open>What is asked of the printer: one line without white space at its ends, which parses back.\<close>

definition line_printed :: "(json \<Rightarrow> string) \<Rightarrow> (string \<Rightarrow> string + json) \<Rightarrow> json \<Rightarrow> bool" where
  "line_printed print parse v \<longleftrightarrow>
     print v \<noteq> [] \<and> CHR 0x0A \<notin> set (print v) \<and> \<not> is_ascii_whitespace (hd (print v)) \<and>
     \<not> is_ascii_whitespace (last (print v)) \<and> length (print v) \<le> max_jsonl_line_bytes \<and> parse (print v) = Inr v"

lemma results_of_printed:
  "list_all (line_printed print parse) lines \<Longrightarrow>
     results_of (parse_line parse decode) (map print lines @ [[]]) = (map Inr (List.map_filter decode lines), True)"
proof (induction lines)
  case Nil
  then show ?case by (simp add: parse_line_def trim_ascii_def map_filter_simps)
next
  case (Cons v lines)
  then have "parse_line parse decode (print v) = Inr (decode v)"
    by (simp add: parse_line_def line_printed_def trim_ascii_printed)
  with Cons show ?case by (simp add: map_filter_simps split: option.split)
qed

lemma jsonl_read:
  assumes "list_all (line_printed print parse) lines" "concat pieces = build_jsonl print lines"
  shows "jsonl_result_stream parse (map Inr pieces) decode = map Inr (List.map_filter decode lines)"
proof -
  have "list_all (\<lambda>v. CHR 0x0A \<notin> set (print v)) lines"
    using assms(1) by (auto simp: line_printed_def list_all_iff)
  note built = built_lines [OF this]
  have fits: "list_all (\<lambda>line. length line \<le> max_jsonl_line_bytes) (lines_of (concat pieces))"
    using assms(1) unfolding assms(2) built by (auto simp: line_printed_def list_all_iff)
  have "pending [] = []" by (simp add: pending_def)
  then have "jsonl_result_stream parse (map Inr pieces) decode =
      fst (results_of (parse_line parse decode) (lines_of (concat pieces)))"
    using jsonl_loop_pieces [of "[]" pieces] fits by (simp add: jsonl_result_stream_def)
  then show ?thesis
    unfolding assms(2) built results_of_printed [OF assms(1)] by simp
qed

text \<open>
  a results file comes back as it was written, however the network cuts it. The lines a file was
  built from are decoded one by one in order; a line the provider does not know is skipped, nothing else
  is lost, no error appears, and the end of the file adds nothing.
\<close>

theorem jsonl_roundtrip:
  assumes "list_all (line_printed print parse) lines" "concat pieces = build_jsonl print lines"
  shows "jsonl_result_stream parse (map Inr pieces) decode = map Inr (List.map_filter decode lines)"
  by (rule jsonl_read [OF assms])

theorem jsonl_roundtrip_witness:
  "jsonl_result_stream (\<lambda>s. if s = ''1'' then Inr (JBool True) else if s = ''0'' then Inr (JBool False) else Inl ''bad'')
     (map Inr [''1'', [CHR 0x0A, CHR ''0''], [CHR 0x0A]])
     (\<lambda>v. if v = JBool True then Some \<lparr>br_custom_id = ''a'', br_outcome = OutcomeExpired\<rparr> else None) =
     [Inr \<lparr>br_custom_id = ''a'', br_outcome = OutcomeExpired\<rparr>]"
proof -
  let ?print = "\<lambda>v. if v = JBool True then ''1'' else ''0''"
  let ?parse = "\<lambda>s. if s = ''1'' then Inr (JBool True) else if s = ''0'' then Inr (JBool False) else Inl ''bad''"
  have printed: "list_all (line_printed ?print ?parse) [JBool True, JBool False]"
    by (simp add: line_printed_def is_ascii_whitespace_def max_jsonl_line_bytes_def)
  have "concat [''1'', [CHR 0x0A, CHR ''0''], [CHR 0x0A]] = build_jsonl ?print [JBool True, JBool False]"
    by (simp add: build_jsonl_def)
  from jsonl_roundtrip [OF printed this] show ?thesis by (simp add: map_filter_simps)
qed

end
