(* ===== verification/AnthropicProvider.thy ===== *)
theory AnthropicProvider
  imports AnthropicWire Jsonl Collect
begin

text \<open>
  The Messages adapter, \<open>AnthropicProvider\<close> of \<open>crates/llmleaf-providers/src/anthropic.rs\<close>, as a value
  of the provider boundary over a transport: chat, the catalog, message batches. Parameters:
  \<open>transport\<close>, \<open>print\<close> and \<open>parse\<close> (serde_json), \<open>lossy\<close> (\<open>String::from_utf8_lossy\<close>).
\<close>

section \<open>Requests\<close>

definition trim_slashes :: "string \<Rightarrow> string" where
  "trim_slashes s = rev (dropWhile (\<lambda>c. c = CHR ''/'') (rev s))"

definition anthropic_endpoint :: "provider_cx \<Rightarrow> string" where
  "anthropic_endpoint cx = trim_slashes (unwrap_or ''https://api.anthropic.com'' (cx_endpoint cx))"

definition anthropic_version :: "provider_cx \<Rightarrow> string" where
  "anthropic_version cx = unwrap_or ''2023-06-01'' (setting_str cx ''anthropic_version'')"

definition with_api_key :: "provider_cx \<Rightarrow> http_request \<Rightarrow> http_request" where
  "with_api_key cx req =
     (case cx_credential cx of Some cred \<Rightarrow> with_header ''x-api-key'' cred req | None \<Rightarrow> req)"

definition anthropic_auth :: "http_request \<Rightarrow> provider_cx \<Rightarrow> http_request" where
  "anthropic_auth req cx = with_api_key cx (with_header ''anthropic-version'' (anthropic_version cx) req)"

definition chat_http_request ::
  "(string \<Rightarrow> string + json) \<Rightarrow> chat_request \<Rightarrow> provider_cx \<Rightarrow> bool \<Rightarrow> http_request" where
  "chat_http_request parse req cx use_stream =
     (let url = anthropic_endpoint cx @ ''/v1/messages'';
          http_req = with_json (anthropic_body parse req (prompt_cache cx) use_stream)
            (with_header ''anthropic-version'' (anthropic_version cx) (http_post url));
          http_req = (case compaction_beta req of
              Some beta \<Rightarrow> with_header ''anthropic-beta'' beta http_req | None \<Rightarrow> http_req)
      in with_api_key cx http_req)"

definition audio_unsupported :: "string \<Rightarrow> model_error" where
  "audio_unsupported place =
     Unsupported (''provider '' @ [CHR 0x27] @ ''anthropic'' @ [CHR 0x27] @ '' does not support audio input in '' @ place)"

section \<open>Chat\<close>

definition anthropic_chat ::
  "'w http_transport \<Rightarrow> (string \<Rightarrow> string) \<Rightarrow> (json \<Rightarrow> string) \<Rightarrow> (string \<Rightarrow> string + json) \<Rightarrow>
     chat_request \<Rightarrow> provider_cx \<Rightarrow> ('w, ('w, stream_chunk) polls) awaited" where
  "anthropic_chat transport lossy print parse req cx w =
     (case validate_compaction req of
        Inl e \<Rightarrow> (w, Inl e)
      | Inr _ \<Rightarrow>
          if has_input_audio req then (w, Inl (audio_unsupported ''chat''))
          else
            let use_stream = use_upstream_streaming cx (cq_stream req) True;
                http_req = chat_http_request parse req cx use_stream
            in if use_stream then
                 map_prod id (map_sum id (\<lambda>resp. polls_of (anthropic_sse_to_stream parse (hs_body resp) (cq_model req))))
                   (send_checked transport lossy http_req w)
               else
                 map_prod id (map_sum id (\<lambda>v. polls_of (map Inr (anthropic_to_chunks print v (cq_model req)))))
                   (post_json transport lossy parse http_req w))"

section \<open>The catalog\<close>

definition positive_u32 :: "json \<Rightarrow> string \<Rightarrow> u32 option" where
  "positive_u32 v key =
     (case get_u64 v key of Some n \<Rightarrow> if 0 < n then Some (ucast n) else None | None \<Rightarrow> None)"

definition json_pointer :: "string list \<Rightarrow> json \<Rightarrow> json option" where
  "json_pointer path v = fold (\<lambda>key v. Option.bind v (\<lambda>v. json_get v key)) path (Some v)"

definition copy_present :: "json \<Rightarrow> string list \<Rightarrow> json_map \<Rightarrow> json_map" where
  "copy_present v keys m =
     fold (\<lambda>key m. case json_get v key of
         Some x \<Rightarrow> if x = JNull then m else hm_insert key x m
       | None \<Rightarrow> m) keys m"

definition anthropic_model_to_info :: "json \<Rightarrow> model_info option" where
  "anthropic_model_to_info v =
     (case get_str v ''id'' of
        None \<Rightarrow> None
      | Some mid \<Rightarrow>
          let on_demand = Option.bind (json_pointer [''capabilities'', ''compaction'', ''supported''] v) as_bool;
              threshold = Option.bind (json_pointer
                [''capabilities'', ''context_management'', ''compact_20260112'', ''supported''] v) as_bool
          in Some ((model_info_new mid)
            \<lparr>mi_name := (case get_str v ''display_name'' of
                 Some s \<Rightarrow> if s = [] then None else Some s | None \<Rightarrow> None),
             mi_modality := Some Llm,
             mi_max_context := positive_u32 v ''max_input_tokens'',
             mi_max_output := positive_u32 v ''max_tokens'',
             mi_supports_compaction :=
               (if on_demand = None \<and> threshold = None then None
                else Some (on_demand = Some True \<or> threshold = Some True)),
             mi_extra := copy_present v [''created_at'', ''capabilities'', ''type''] []\<rparr>))"

definition anthropic_models ::
  "'w http_transport \<Rightarrow> (string \<Rightarrow> string) \<Rightarrow> (string \<Rightarrow> string + json) \<Rightarrow>
     provider_cx \<Rightarrow> ('w, model_info list) awaited" where
  "anthropic_models transport lossy parse cx w =
     (let url = anthropic_endpoint cx @ ''/v1/models?limit=1000'';
          req = with_header ''anthropic-beta'' ''compact-2026-09-04'' (anthropic_auth (http_get url) cx)
      in map_prod id (map_sum id (\<lambda>v. case get_array v ''data'' of
             Some items \<Rightarrow> List.map_filter anthropic_model_to_info items | None \<Rightarrow> []))
           (post_json transport lossy parse req w))"

section \<open>Batches\<close>

definition anthropic_batch_to_handle :: "json \<Rightarrow> batch_handle" where
  "anthropic_batch_to_handle v =
     (let status = (if get_str v ''processing_status'' = Some ''canceling'' then Canceling
            else if get_str v ''processing_status'' = Some ''ended'' then Completed
            else InProgress);
          count = (\<lambda>k. unwrap_or 0 (Option.bind (json_get v ''request_counts'') (\<lambda>c. get_u64 c k)));
          processing = count ''processing''; succeeded = count ''succeeded''; errored = count ''errored'';
          canceled = count ''canceled''; expired = count ''expired''
      in \<lparr>bh_id = unwrap_or [] (get_str v ''id''), bh_status = status,
          bh_counts = \<lparr>bc_total = processing + succeeded + errored + canceled + expired,
            bc_processing = processing, bc_succeeded = succeeded, bc_errored = errored,
            bc_canceled = canceled, bc_expired = expired\<rparr>,
          bh_created_at = None, bh_expires_at = None, bh_ended_at = None,
          bh_endpoint = Some ''/v1/messages'',
          bh_extra = copy_present v [''created_at'', ''expires_at'', ''ended_at''] []\<rparr>)"

definition errored_message :: "(json \<Rightarrow> string) \<Rightarrow> json \<Rightarrow> string" where
  "errored_message print result =
     (case Option.bind (json_get result ''error'') (\<lambda>e. Option.bind (json_get e ''error'') (\<lambda>e. get_str e ''message'')) of
        Some message \<Rightarrow> message
      | None \<Rightarrow> unwrap_or ''errored'' (map_option print (json_get result ''error'')))"

definition anthropic_result_line :: "(json \<Rightarrow> string) \<Rightarrow> json \<Rightarrow> batch_result option" where
  "anthropic_result_line print v =
     Option.bind (get_str v ''custom_id'') (\<lambda>custom_id.
     Option.bind (json_get v ''result'') (\<lambda>result.
     Option.bind (get_str result ''type'') (\<lambda>ty.
     map_option (\<lambda>outcome. \<lparr>br_custom_id = custom_id, br_outcome = outcome\<rparr>)
       (if ty = ''succeeded'' then
          map_option (\<lambda>message. Succeeded (collect_chunks (anthropic_to_chunks print message [])))
            (json_get result ''message'')
        else if ty = ''errored'' then Some (Errored 0 (errored_message print result))
        else if ty = ''canceled'' then Some OutcomeCanceled
        else if ty = ''expired'' then Some OutcomeExpired
        else None))))"

definition batch_betas :: "batch_item list \<Rightarrow> string list" where
  "batch_betas items =
     remdups_adj (sort (concat (map (split_on CHR '','')
       (List.map_filter (\<lambda>item. compaction_beta (bi_request item)) items))))"

definition batch_submission :: "(string \<Rightarrow> string + json) \<Rightarrow> batch_item list \<Rightarrow> cache_ttl option \<Rightarrow> json" where
  "batch_submission parse items cache = JObject [(''requests'', JArray (map (\<lambda>item.
     JObject [(''custom_id'', JString (bi_custom_id item)),
       (''params'', request_to_anthropic parse (bi_request item) cache)]) items))]"

definition batch_http_request ::
  "(string \<Rightarrow> string + json) \<Rightarrow> batch_item list \<Rightarrow> provider_cx \<Rightarrow> http_request" where
  "batch_http_request parse items cx =
     (let req = anthropic_auth (with_json (batch_submission parse items (prompt_cache cx))
            (http_post (anthropic_endpoint cx @ ''/v1/messages/batches''))) cx;
          betas = batch_betas items
      in if betas = [] then req else with_header ''anthropic-beta'' (join_with '','' betas) req)"

fun validate_items :: "batch_item list \<Rightarrow> model_error + unit" where
  "validate_items [] = Inr ()"
| "validate_items (item # items) = res_bind (validate_compaction (bi_request item)) (\<lambda>_. validate_items items)"

definition anthropic_batch_create ::
  "'w http_transport \<Rightarrow> (string \<Rightarrow> string) \<Rightarrow> (string \<Rightarrow> string + json) \<Rightarrow>
     batch_spec \<Rightarrow> provider_cx \<Rightarrow> ('w, batch_handle) awaited" where
  "anthropic_batch_create transport lossy parse spec cx w =
     (case validate_items (bs_items spec) of
        Inl e \<Rightarrow> (w, Inl e)
      | Inr _ \<Rightarrow>
          if list_ex (\<lambda>item. has_input_audio (bi_request item)) (bs_items spec)
          then (w, Inl (audio_unsupported ''chat batches''))
          else map_prod id (map_sum id anthropic_batch_to_handle)
            (post_json transport lossy parse (batch_http_request parse (bs_items spec) cx) w))"

definition anthropic_batch_retrieve ::
  "'w http_transport \<Rightarrow> (string \<Rightarrow> string) \<Rightarrow> (string \<Rightarrow> string + json) \<Rightarrow>
     string \<Rightarrow> provider_cx \<Rightarrow> ('w, batch_handle) awaited" where
  "anthropic_batch_retrieve transport lossy parse upstream_id cx w =
     map_prod id (map_sum id anthropic_batch_to_handle)
       (post_json transport lossy parse
         (anthropic_auth (http_get (anthropic_endpoint cx @ ''/v1/messages/batches/'' @ upstream_id)) cx) w)"

definition anthropic_batch_cancel ::
  "'w http_transport \<Rightarrow> (string \<Rightarrow> string) \<Rightarrow> (string \<Rightarrow> string + json) \<Rightarrow>
     string \<Rightarrow> provider_cx \<Rightarrow> ('w, batch_handle) awaited" where
  "anthropic_batch_cancel transport lossy parse upstream_id cx w =
     map_prod id (map_sum id anthropic_batch_to_handle)
       (post_json transport lossy parse
         (anthropic_auth (http_post (anthropic_endpoint cx @ ''/v1/messages/batches/'' @ upstream_id @ ''/cancel'')) cx) w)"

definition anthropic_batch_results ::
  "'w http_transport \<Rightarrow> (string \<Rightarrow> string) \<Rightarrow> (json \<Rightarrow> string) \<Rightarrow> (string \<Rightarrow> string + json) \<Rightarrow>
     string \<Rightarrow> provider_cx \<Rightarrow> ('w, ('w, batch_result) polls) awaited" where
  "anthropic_batch_results transport lossy print parse upstream_id cx w =
     map_prod id (map_sum id (\<lambda>resp.
         polls_of (jsonl_result_stream parse (hs_body resp) (anthropic_result_line print))))
       (send_checked transport lossy
         (anthropic_auth (http_get (anthropic_endpoint cx @ ''/v1/messages/batches/'' @ upstream_id @ ''/results'')) cx) w)"

section \<open>The adapter\<close>

definition anthropic_provider ::
  "'w http_transport \<Rightarrow> (string \<Rightarrow> string) \<Rightarrow> (json \<Rightarrow> string) \<Rightarrow> (string \<Rightarrow> string + json) \<Rightarrow> 'w provider_api" where
  "anthropic_provider transport lossy print parse =
     (provider_default ''anthropic'' (anthropic_chat transport lossy print parse))
       \<lparr>pa_models := anthropic_models transport lossy parse,
        pa_batch_create := anthropic_batch_create transport lossy parse,
        pa_batch_retrieve := anthropic_batch_retrieve transport lossy parse,
        pa_batch_results := anthropic_batch_results transport lossy print parse,
        pa_batch_cancel := anthropic_batch_cancel transport lossy parse\<rparr>"

section \<open>The key\<close>

text \<open>What a log line shows of a request: everything but the values of credential headers.\<close>

definition shown :: "http_request \<Rightarrow> http_method \<times> string \<times> (string \<times> string) list \<times> http_body" where
  "shown req = (hr_method req, hr_url req, debug_headers req, hr_body req)"

definition with_key :: "string \<Rightarrow> provider_cx \<Rightarrow> provider_cx" where
  "with_key c cx = cx\<lparr>cx_credential := Some c\<rparr>"

lemma api_key_hidden: "is_credential_header ''x-api-key''"
  by code_simp

lemma shown_with_header:
  "shown req = shown req' \<Longrightarrow> shown (with_header name v req) = shown (with_header name v req')"
  by (simp add: shown_def debug_headers_def with_header_def)

lemma shown_with_key: "shown (with_api_key (with_key c cx) req) = shown (with_api_key (with_key d cx) req)"
  by (simp add: shown_def debug_headers_def with_api_key_def with_key_def with_header_def api_key_hidden)

lemma with_key_simps:
  "anthropic_endpoint (with_key c cx) = anthropic_endpoint cx"
  "anthropic_version (with_key c cx) = anthropic_version cx"
  "prompt_cache (with_key c cx) = prompt_cache cx"
  "use_upstream_streaming (with_key c cx) = use_upstream_streaming cx"
  by (simp_all add: fun_eq_iff with_key_def anthropic_endpoint_def anthropic_version_def setting_str_def
      prompt_cache_def use_upstream_streaming_def)

lemma shown_auth: "shown (anthropic_auth req (with_key c cx)) = shown (anthropic_auth req (with_key d cx))"
  by (simp add: anthropic_auth_def with_key_simps shown_with_key [of c cx _ d])

lemma shown_chat:
  "shown (chat_http_request parse req (with_key c cx) b) = shown (chat_http_request parse req (with_key d cx) b)"
  unfolding chat_http_request_def Let_def with_key_simps by (rule shown_with_key)

lemma shown_batch:
  "shown (batch_http_request parse items (with_key c cx)) = shown (batch_http_request parse items (with_key d cx))"
  unfolding batch_http_request_def Let_def with_key_simps
  by (cases "batch_betas items = []") (simp_all add: shown_auth [of _ c cx d] shown_with_header [OF shown_auth [of _ c cx d]])

text \<open>A transport that answers by what is shown alone.\<close>

definition key_blind :: "'w http_transport \<Rightarrow> bool" where
  "key_blind transport \<longleftrightarrow> (\<forall>r r' w. shown r = shown r' \<longrightarrow> transport r w = transport r' w)"

lemma key_blind_calls:
  assumes "key_blind transport" "shown r = shown r'"
  shows "post_json transport lossy parse r w = post_json transport lossy parse r' w"
    and "send_checked transport lossy r w = send_checked transport lossy r' w"
proof -
  have "transport r w = transport r' w" using assms unfolding key_blind_def by blast
  then show "post_json transport lossy parse r w = post_json transport lossy parse r' w"
    and "send_checked transport lossy r w = send_checked transport lossy r' w"
    by (simp_all add: post_json_def send_checked_def)
qed

text \<open>
  the key of a provider goes nowhere but into its header. To a transport that sees no credential header
  two instances that differ in their keys alone are the same: no operation of the adapter lets the key
  reach an URL, a body, another header, an error or an answer.
\<close>

theorem key_confined:
  assumes "key_blind transport"
  shows "pa_chat (anthropic_provider transport lossy print parse) req (with_key c cx) w =
       pa_chat (anthropic_provider transport lossy print parse) req (with_key d cx) w \<and>
     pa_models (anthropic_provider transport lossy print parse) (with_key c cx) w =
       pa_models (anthropic_provider transport lossy print parse) (with_key d cx) w \<and>
     pa_batch_create (anthropic_provider transport lossy print parse) spec (with_key c cx) w =
       pa_batch_create (anthropic_provider transport lossy print parse) spec (with_key d cx) w \<and>
     pa_batch_retrieve (anthropic_provider transport lossy print parse) job (with_key c cx) w =
       pa_batch_retrieve (anthropic_provider transport lossy print parse) job (with_key d cx) w \<and>
     pa_batch_results (anthropic_provider transport lossy print parse) job (with_key c cx) w =
       pa_batch_results (anthropic_provider transport lossy print parse) job (with_key d cx) w \<and>
     pa_batch_cancel (anthropic_provider transport lossy print parse) job (with_key c cx) w =
       pa_batch_cancel (anthropic_provider transport lossy print parse) job (with_key d cx) w"
proof -
  note calls = key_blind_calls [OF assms]
  have "anthropic_chat transport lossy print parse req (with_key c cx) w =
      anthropic_chat transport lossy print parse req (with_key d cx) w"
    unfolding anthropic_chat_def with_key_simps Let_def
      calls(1) [OF shown_chat [of _ _ c cx _ d]] calls(2) [OF shown_chat [of _ _ c cx _ d]] ..
  moreover have "anthropic_models transport lossy parse (with_key c cx) w =
      anthropic_models transport lossy parse (with_key d cx) w"
    unfolding anthropic_models_def with_key_simps Let_def
      calls(1) [OF shown_with_header [OF shown_auth [of _ c cx d]]] ..
  moreover have "anthropic_batch_create transport lossy parse spec (with_key c cx) w =
      anthropic_batch_create transport lossy parse spec (with_key d cx) w"
    unfolding anthropic_batch_create_def calls(1) [OF shown_batch [of _ _ c cx d]] ..
  moreover have "anthropic_batch_retrieve transport lossy parse job (with_key c cx) w =
      anthropic_batch_retrieve transport lossy parse job (with_key d cx) w"
    unfolding anthropic_batch_retrieve_def with_key_simps calls(1) [OF shown_auth [of _ c cx d]] ..
  moreover have "anthropic_batch_results transport lossy print parse job (with_key c cx) w =
      anthropic_batch_results transport lossy print parse job (with_key d cx) w"
    unfolding anthropic_batch_results_def with_key_simps calls(2) [OF shown_auth [of _ c cx d]] ..
  moreover have "anthropic_batch_cancel transport lossy parse job (with_key c cx) w =
      anthropic_batch_cancel transport lossy parse job (with_key d cx) w"
    unfolding anthropic_batch_cancel_def with_key_simps calls(1) [OF shown_auth [of _ c cx d]] ..
  ultimately show ?thesis by (simp add: anthropic_provider_def provider_default_def)
qed

theorem key_confined_witness:
  "pa_models (anthropic_provider (\<lambda>r w. (w @ [hr_url r], Inl (Unavailable ''down''))) id (\<lambda>_. []) Inl)
     (with_key ''one'' \<lparr>cx_request_id = [], cx_credential = None, cx_endpoint = Some ''http://h/'', cx_settings = []\<rparr>) [] =
   ([''http://h/v1/models?limit=1000''], Inl (Unavailable ''down'')) \<and>
   pa_models (anthropic_provider (\<lambda>r w. (w @ [hr_url r], Inl (Unavailable ''down''))) id (\<lambda>_. []) Inl)
     (with_key ''two'' \<lparr>cx_request_id = [], cx_credential = None, cx_endpoint = Some ''http://h/'', cx_settings = []\<rparr>) [] =
   ([''http://h/v1/models?limit=1000''], Inl (Unavailable ''down''))"
proof -
  let ?t = "\<lambda>r w. (w @ [hr_url r], Inl (Unavailable ''down''))"
  let ?cx = "\<lparr>cx_request_id = [], cx_credential = None, cx_endpoint = Some ''http://h/'', cx_settings = []\<rparr>"
  have blind: "key_blind ?t" by (simp add: key_blind_def shown_def)
  have "pa_models (anthropic_provider ?t id (\<lambda>_. []) Inl) (with_key ''one'' ?cx) [] =
      ([''http://h/v1/models?limit=1000''], Inl (Unavailable ''down''))"
    by (simp add: anthropic_provider_def provider_default_def anthropic_models_def post_json_def with_key_def
        anthropic_endpoint_def trim_slashes_def anthropic_auth_def with_api_key_def with_header_def http_get_def)
  with key_confined [OF blind, of id "\<lambda>_. []" Inl _ "''one''" ?cx "[]" "''two''"] show ?thesis by metis
qed

section \<open>What is never sent\<close>

text \<open>Requests this upstream cannot represent.\<close>

definition unrepresentable :: "chat_request \<Rightarrow> bool" where
  "unrepresentable req \<longleftrightarrow> validate_compaction req \<noteq> Inr () \<or> has_input_audio req"

lemma validate_items_ok:
  "validate_items items = Inr () \<longleftrightarrow> (\<forall>item \<in> set items. validate_compaction (bi_request item) = Inr ())"
  by (induction items) (auto simp: res_simps)

text \<open>
  what the upstream cannot represent is refused before anything is sent. A chat whose messages carry audio
  or another provider's encrypted compaction, or that combines both compaction fields, and a batch with
  one such item anywhere in it, are answered by an error, the same whatever the transport would do, and
  the transport is not called.
\<close>

theorem refused_unsent:
  assumes "unrepresentable req" "item \<in> set (bs_items spec)" "bi_request item = req"
  shows "\<exists>e e'. \<forall>(transport :: 'w http_transport) lossy w.
     pa_chat (anthropic_provider transport lossy print parse) req cx w = (w, Inl e) \<and>
     pa_batch_create (anthropic_provider transport lossy print parse) spec cx w = (w, Inl e')"
proof -
  obtain e where chat: "anthropic_chat transport lossy print parse req cx w = (w, Inl e)"
    for transport :: "'w http_transport" and lossy w
    using assms(1) by (cases "validate_compaction req") (auto simp: anthropic_chat_def unrepresentable_def)
  have "validate_items (bs_items spec) \<noteq> Inr () \<or> list_ex (\<lambda>item. has_input_audio (bi_request item)) (bs_items spec)"
    using assms by (auto simp: unrepresentable_def validate_items_ok list_ex_iff)
  then obtain e' where create: "anthropic_batch_create transport lossy parse spec cx w = (w, Inl e')"
    for transport :: "'w http_transport" and lossy w
    by (cases "validate_items (bs_items spec)") (auto simp: anthropic_batch_create_def)
  show ?thesis
    by (intro exI [of _ e] exI [of _ e']) (simp add: anthropic_provider_def provider_default_def chat create)
qed

text \<open>Another provider's encrypted compaction, for the witness.\<close>

definition encrypted_turn :: chat_request where
  "encrypted_turn =
     \<lparr>cq_model = ''m'', cq_messages = [\<lparr>me_role = User, me_content = [CompactionPart None None None (Some ''x'') None],
        me_tool_calls = [], me_tool_call_id = None, me_name = None\<rparr>],
      cq_max_tokens = None, cq_temperature = None, cq_top_p = None, cq_stop = [], cq_stream = False,
      cq_tools = [], cq_tool_choice = None, cq_thinking = None, cq_extra = []\<rparr>"

theorem refused_unsent_witness:
  "\<forall>cx. \<exists>e. \<forall>(transport :: nat http_transport) w.
     pa_batch_create (anthropic_provider transport id (\<lambda>_. []) Inl)
       \<lparr>bs_items = [\<lparr>bi_custom_id = ''a'', bi_request = encrypted_turn\<lparr>cq_messages := []\<rparr>\<rparr>,
         \<lparr>bi_custom_id = ''b'', bi_request = encrypted_turn\<rparr>]\<rparr> cx w = (w, Inl e)"
proof
  fix cx
  have "unrepresentable encrypted_turn"
    by (simp add: unrepresentable_def validate_compaction_def request_parts_def encrypted_turn_def)
  note refused = refused_unsent [OF this, of "\<lparr>bi_custom_id = ''b'', bi_request = encrypted_turn\<rparr>"
      "\<lparr>bs_items = [\<lparr>bi_custom_id = ''a'', bi_request = encrypted_turn\<lparr>cq_messages := []\<rparr>\<rparr>,
         \<lparr>bi_custom_id = ''b'', bi_request = encrypted_turn\<rparr>]\<rparr>" "\<lambda>_. []" Inl cx, where 'w = nat]
  have "\<exists>e'. \<forall>(transport :: nat http_transport) lossy w.
     pa_batch_create (anthropic_provider transport lossy (\<lambda>_. []) Inl)
       \<lparr>bs_items = [\<lparr>bi_custom_id = ''a'', bi_request = encrypted_turn\<lparr>cq_messages := []\<rparr>\<rparr>,
         \<lparr>bi_custom_id = ''b'', bi_request = encrypted_turn\<rparr>]\<rparr> cx w = (w, Inl e')"
    using refused by fastforce
  then show "\<exists>e. \<forall>(transport :: nat http_transport) w.
     pa_batch_create (anthropic_provider transport id (\<lambda>_. []) Inl)
       \<lparr>bs_items = [\<lparr>bi_custom_id = ''a'', bi_request = encrypted_turn\<lparr>cq_messages := []\<rparr>\<rparr>,
         \<lparr>bi_custom_id = ''b'', bi_request = encrypted_turn\<rparr>]\<rparr> cx w = (w, Inl e)" by blast
qed

end
