(* ===== verification/Surfaces.thy ===== *)
theory Surfaces
  imports OpenAI Base64
begin

text \<open>
  The consumer surfaces beside chat, \<open>crates/llmleaf-core/src/compat/\<close>: embeddings.rs, rerank.rs,
  decisions.rs, speech.rs, transcription.rs and batch.rs. Each parses a body into the canonical request
  and renders the canonical response. Parameters: \<open>dbg\<close> of the chat parser; \<open>wide\<close>, the double that
  the decimal serde_json prints for a single denotes; \<open>le_bytes\<close>, \<open>f32::to_le_bytes\<close>.
\<close>

section \<open>Numbers in text\<close>

text \<open>
  The decimals \<open>str::parse\<close> reads for floats: digits with an optional point and exponent. The words
  for infinity and not-a-number, which it reads as well, are not real numbers and are left out.
\<close>

definition signed_text :: "string \<Rightarrow> bool \<times> string" where
  "signed_text s =
     (case s of
        c # rest \<Rightarrow> if c = CHR ''-'' then (True, rest) else if c = CHR ''+'' then (False, rest) else (False, s)
      | [] \<Rightarrow> (False, s))"

definition exponent_text :: "string \<Rightarrow> int option" where
  "exponent_text s =
     (case s of
        [] \<Rightarrow> Some 0
      | c # rest \<Rightarrow>
          if c = CHR ''e'' \<or> c = CHR ''E'' then
            let (neg, ds) = signed_text rest
            in if ds \<noteq> [] \<and> list_all is_digit ds
               then Some (if neg then - int (digits_value ds) else int (digits_value ds)) else None
          else None)"

definition decimal_value :: "string \<Rightarrow> real option" where
  "decimal_value s =
     (let (neg, s) = signed_text s;
          whole = takeWhile is_digit s;
          s = dropWhile is_digit s;
          (frac, s) = (case s of
              c # rest \<Rightarrow> if c = CHR ''.'' then (takeWhile is_digit rest, dropWhile is_digit rest) else ([], s)
            | [] \<Rightarrow> ([], s))
      in if whole = [] \<and> frac = [] then None
         else map_option (\<lambda>e. (if neg then - 1 else 1) * real (digits_value (whole @ frac)) *
             10 powr of_int (e - int (length frac))) (exponent_text s))"

definition parse_f32 :: "string \<Rightarrow> real option" where
  "parse_f32 s = map_option f32_round (decimal_value s)"

definition parse_f64 :: "string \<Rightarrow> real option" where
  "parse_f64 s = map_option f64_round (decimal_value s)"

text \<open>Members of a body.\<close>

definition body_string :: "string \<Rightarrow> json_map \<Rightarrow> model_error + string" where
  "body_string k obj =
     (case hm_get obj k of
        Some (JString s) \<Rightarrow> Inr s
      | _ \<Rightarrow> Inl (Mapping (''`'' @ k @ ''` is required and must be a string'')))"

definition body_u32 :: "string \<Rightarrow> json_map \<Rightarrow> u32 option" where
  "body_u32 k obj = map_option ucast (Option.bind (hm_get obj k) as_u64)"

definition not_an_object :: model_error where
  "not_an_object = Mapping ''request body must be a JSON object''"

section \<open>Embeddings\<close>

definition parse_input :: "json option \<Rightarrow> model_error + string list" where
  "parse_input v =
     (case v of
        Some (JString s) \<Rightarrow> Inr [s]
      | Some (JArray items) \<Rightarrow>
          try_map (\<lambda>v. case v of
              JString s \<Rightarrow> Inr s
            | _ \<Rightarrow> Inl (Mapping ''`input` array must contain strings (token-id input is unsupported)'')) items
      | _ \<Rightarrow> Inl (Mapping ''`input` is required and must be a string or array of strings''))"

definition parse_embedding_request :: "json \<Rightarrow> model_error + embedding_request" where
  "parse_embedding_request v =
     (case v of
        JObject obj \<Rightarrow>
          res_bind (body_string ''model'' obj) (\<lambda>model.
          let obj = hm_remove ''model'' obj in
          res_bind (parse_input (hm_get obj ''input'')) (\<lambda>input.
          let obj = hm_remove ''input'' obj;
              dimensions = body_u32 ''dimensions'' obj;
              obj = hm_remove ''dimensions'' obj;
              encoding_format = Option.bind (hm_get obj ''encoding_format'') as_str;
              obj = hm_remove ''encoding_format'' obj
          in Inr \<lparr>eq_model = model, eq_input = input, eq_dimensions = dimensions,
               eq_encoding_format = encoding_format, eq_extra = obj\<rparr>))
      | _ \<Rightarrow> Inl not_an_object)"

definition encode_f32_base64 :: "(real \<Rightarrow> string) \<Rightarrow> real list \<Rightarrow> string" where
  "encode_f32_base64 le_bytes vector = base64_encode (concat (map le_bytes vector))"

definition embedding_data :: "(real \<Rightarrow> string) \<Rightarrow> (real \<Rightarrow> real) \<Rightarrow> bool \<Rightarrow> real list \<Rightarrow> json" where
  "embedding_data le_bytes wide base64 vector =
     (if base64 then JString (encode_f32_base64 le_bytes vector)
      else JArray (map (\<lambda>f. json_f64 (wide f)) vector))"

definition embedding_item :: "(real \<Rightarrow> string) \<Rightarrow> (real \<Rightarrow> real) \<Rightarrow> bool \<Rightarrow> embedding \<Rightarrow> json" where
  "embedding_item le_bytes wide base64 e = JObject
     (field ''embedding'' (embedding_data le_bytes wide base64 (em_vector e)) @
      field ''index'' (json_u32 (em_index e)) @ field ''object'' (JString ''embedding''))"

definition emb_usage_view :: "usage \<Rightarrow> json" where
  "emb_usage_view u = JObject
     (opt_field ''cost_usd'' json_f64 (ug_cost_usd u) @ field ''prompt_tokens'' (json_u64 (ug_prompt u)) @
      field ''total_tokens'' (json_u64 (ug_total u)))"

definition embeddings_to_openai ::
  "(real \<Rightarrow> string) \<Rightarrow> (real \<Rightarrow> real) \<Rightarrow> embedding_response \<Rightarrow> string option \<Rightarrow> json" where
  "embeddings_to_openai le_bytes wide resp encoding_format =
     (let base64 = (encoding_format = Some ''base64'')
      in JObject
        (field ''data'' (JArray (map (embedding_item le_bytes wide base64) (er_embeddings resp))) @
         field ''model'' (JString (er_model resp)) @ field ''object'' (JString ''list'') @
         field ''usage'' (emb_usage_view (er_usage resp))))"

section \<open>Rerank\<close>

definition parse_document :: "json \<Rightarrow> model_error + rerank_document" where
  "parse_document v =
     (case v of
        JString s \<Rightarrow> Inr (DocText s)
      | JObject obj \<Rightarrow> Inr (Rich obj)
      | _ \<Rightarrow> Inl (Mapping ''`documents` items must be strings or objects''))"

definition parse_documents :: "json option \<Rightarrow> model_error + rerank_document list" where
  "parse_documents v =
     (let none = Inl (Mapping ''`documents` is required and must be a non-empty array of strings or objects'')
      in case v of
        Some (JArray items) \<Rightarrow> if items = [] then none else try_map parse_document items
      | _ \<Rightarrow> none)"

definition parse_rerank_request :: "json \<Rightarrow> model_error + rerank_request" where
  "parse_rerank_request v =
     (case v of
        JObject obj \<Rightarrow>
          res_bind (body_string ''model'' obj) (\<lambda>model.
          let obj = hm_remove ''model'' obj in
          res_bind (body_string ''query'' obj) (\<lambda>query.
          let obj = hm_remove ''query'' obj in
          res_bind (parse_documents (hm_get obj ''documents'')) (\<lambda>documents.
          let obj = hm_remove ''documents'' obj;
              top_n = body_u32 ''top_n'' obj;
              obj = hm_remove ''top_n'' obj;
              return_documents = Option.bind (hm_get obj ''return_documents'') as_bool;
              obj = hm_remove ''return_documents'' obj
          in Inr \<lparr>rq_model = model, rq_query = query, rq_documents = documents, rq_top_n = top_n,
               rq_return_documents = return_documents, rq_extra = obj\<rparr>)))
      | _ \<Rightarrow> Inl not_an_object)"

definition rerank_result_view :: "(real \<Rightarrow> real) \<Rightarrow> rerank_result \<Rightarrow> json" where
  "rerank_result_view wide r = JObject
     (field ''index'' (json_u32 (rr_index r)) @ field ''relevance_score'' (json_f64 (wide (rr_score r))) @
      opt_field ''document'' id (rr_document r))"

definition rerank_to_wire :: "(real \<Rightarrow> real) \<Rightarrow> rerank_response \<Rightarrow> json" where
  "rerank_to_wire wide resp = JObject
     (field ''model'' (JString (rk_model resp)) @ field ''object'' (JString ''list'') @
      field ''results'' (JArray (map (rerank_result_view wide) (rk_results resp))) @
      field ''usage'' (JObject
        (opt_field ''cost_usd'' json_f64 (ug_cost_usd (rk_usage resp)) @
         field ''total_tokens'' (json_u64 (ug_total (rk_usage resp))))))"

section \<open>Speech and transcription\<close>

definition parse_speech_request :: "json \<Rightarrow> model_error + speech_request" where
  "parse_speech_request v =
     (case v of
        JObject obj \<Rightarrow>
          res_bind (body_string ''model'' obj) (\<lambda>model.
          let obj = hm_remove ''model'' obj in
          res_bind (body_string ''input'' obj) (\<lambda>input.
          let obj = hm_remove ''input'' obj in
          res_bind (body_string ''voice'' obj) (\<lambda>voice.
          let obj = hm_remove ''voice'' obj;
              response_format = Option.bind (hm_get obj ''response_format'') as_str;
              obj = hm_remove ''response_format'' obj;
              speed = map_option f32_round (Option.bind (hm_get obj ''speed'') as_f64);
              obj = hm_remove ''speed'' obj
          in Inr \<lparr>sq_model = model, sq_input = input, sq_voice = voice, sq_response_format = response_format,
               sq_speed = speed, sq_extra = obj\<rparr>)))
      | _ \<Rightarrow> Inl not_an_object)"

definition content_type_for_format :: "string option \<Rightarrow> string" where
  "content_type_for_format format =
     (let f = unwrap_or ''mp3'' format
      in if f = ''mp3'' then ''audio/mpeg''
         else if f = ''opus'' then ''audio/ogg''
         else if f = ''aac'' then ''audio/aac''
         else if f = ''flac'' then ''audio/flac''
         else if f = ''wav'' then ''audio/wav''
         else if f = ''pcm'' then ''audio/pcm''
         else ''application/octet-stream'')"

record transcription_form =
  tf_model :: "string option"
  tf_audio :: "string option"
  tf_filename :: "string option"
  tf_language :: "string option"
  tf_prompt :: "string option"
  tf_response_format :: "string option"
  tf_temperature :: "string option"

definition build_transcription :: "transcription_form \<Rightarrow> model_error + transcription_request" where
  "build_transcription form =
     res_bind (ok_or (tf_model form) (Mapping ''`model` form field is required'')) (\<lambda>model.
     res_bind (ok_or (tf_audio form) (Mapping ''`file` form field is required'')) (\<lambda>audio.
     res_bind (case tf_temperature form of
         None \<Rightarrow> Inr None
       | Some t \<Rightarrow> res_bind (ok_or (parse_f32 t) (Mapping ''`temperature` must be a number'')) (\<lambda>t. Inr (Some t)))
       (\<lambda>temperature.
     Inr \<lparr>tq_model = model, tq_audio = audio, tq_filename = unwrap_or ''audio'' (tf_filename form),
       tq_language = tf_language form, tq_prompt = tf_prompt form,
       tq_response_format = tf_response_format form, tq_temperature = temperature, tq_extra = hm_empty\<rparr>)))"

datatype transcription_body = TranscriptJson json | TranscriptText string

definition encode_transcription :: "transcription_response \<Rightarrow> string option \<Rightarrow> transcription_body" where
  "encode_transcription resp response_format =
     (let f = unwrap_or ''json'' response_format
      in if f = ''text'' \<or> f = ''srt'' \<or> f = ''vtt'' then TranscriptText (tr_text resp)
         else if f = ''verbose_json'' then
           TranscriptJson (JObject
             (hm_insert ''text'' (JString (tr_text resp))
               (opt_insert ''duration'' json_f64 (tr_duration resp)
                 (opt_insert ''language'' JString (tr_language resp)
                   (hm_insert ''task'' (JString ''transcribe'') hm_empty)))))
         else TranscriptJson (JObject [(''text'', JString (tr_text resp))]))"

section \<open>Decisions\<close>

fun is_structured :: "json \<Rightarrow> bool" where
  "is_structured (JString _) = True"
| "is_structured (JObject _) = True"
| "is_structured (JArray _) = True"
| "is_structured _ = False"

definition question_error :: "string \<Rightarrow> string \<Rightarrow> model_error + 'a" where
  "question_error path what = Inl (Mapping (''`questions.'' @ path @ ''` '' @ what))"

definition validate_criteria :: "string \<Rightarrow> string \<Rightarrow> json option \<Rightarrow> model_error + unit" where
  "validate_criteria qid kind criteria =
     (let path = qid @ ''.criteria''
      in if kind = ''noul'' then
           (case criteria of
              None \<Rightarrow> Inr ()
            | Some (JObject m) \<Rightarrow>
                if list_ex (\<lambda>(_, v). \<not> is_structured v) m
                then question_error path ''values must be strings, objects, or arrays'' else Inr ()
            | Some _ \<Rightarrow> question_error path ''must be an object'')
         else if kind = ''choice'' then
           (case criteria of
              Some (JObject m) \<Rightarrow>
                if m = [] then question_error path ''must contain at least one option''
                else if list_ex (\<lambda>(_, v). v \<noteq> JNull \<and> \<not> is_structured v) m
                then question_error path ''values must be null, strings, objects, or arrays'' else Inr ()
            | _ \<Rightarrow> question_error path ''is required and must be an object'')
         else
           (case criteria of
              Some (JArray xs) \<Rightarrow>
                if xs = [] \<or> list_ex (\<lambda>v. \<not> is_structured v) xs
                then question_error path ''must be a non-empty array of strings, objects, or arrays'' else Inr ()
            | _ \<Rightarrow> question_error path ''is required and must be an array''))"

definition validate_question :: "string \<Rightarrow> json \<Rightarrow> model_error + unit" where
  "validate_question qid v =
     (case v of
        JObject question \<Rightarrow>
          (case Option.bind (hm_get question ''type'') as_str of
             None \<Rightarrow> question_error (qid @ ''.type'') ''is required and must be noul, choice, or score''
           | Some kind \<Rightarrow>
               if kind \<notin> {''noul'', ''choice'', ''score''}
               then question_error (qid @ ''.type'') ''must be noul, choice, or score''
               else
                 let wrong = question_error (qid @ ''.instructions'') ''is required and must be a string, object, or array''
                 in case hm_get question ''instructions'' of
                      Some instructions \<Rightarrow>
                        if is_structured instructions then validate_criteria qid kind (hm_get question ''criteria'')
                        else wrong
                    | None \<Rightarrow> wrong)
      | _ \<Rightarrow> question_error qid ''must be an object'')"

fun validate_questions :: "json_map \<Rightarrow> model_error + unit" where
  "validate_questions [] = Inr ()"
| "validate_questions ((qid, q) # questions) = res_bind (validate_question qid q) (\<lambda>_. validate_questions questions)"

text \<open>\<open>chars().count()\<close>: the bytes that do not continue a character.\<close>

definition chars_count :: "string \<Rightarrow> nat" where
  "chars_count s = length (filter (\<lambda>c. let n = of_char c :: nat in n < 128 \<or> 192 \<le> n) s)"

definition validate_session :: "json option \<Rightarrow> model_error + unit" where
  "validate_session session =
     (case session of
        None \<Rightarrow> Inr ()
      | Some v \<Rightarrow>
          (case as_str v of
             Some s \<Rightarrow> if chars_count s \<le> 256 then Inr ()
               else Inl (Mapping ''`session_id` must be a string of at most 256 characters'')
           | None \<Rightarrow> Inl (Mapping ''`session_id` must be a string of at most 256 characters'')))"

definition parse_decisions_request :: "json \<Rightarrow> model_error + decisions_request" where
  "parse_decisions_request v =
     (case v of
        JObject obj \<Rightarrow>
          res_bind (case hm_get obj ''model'' of
              Some (JString s) \<Rightarrow> if s \<noteq> [] then Inr s
                else Inl (Mapping ''`model` is required and must be a non-empty string'')
            | _ \<Rightarrow> Inl (Mapping ''`model` is required and must be a non-empty string'')) (\<lambda>model.
          let obj = hm_remove ''model'' obj;
              wrong = Inl (Mapping ''`state` is required and must be a string, object, or array'') in
          res_bind (case hm_get obj ''state'' of
              Some s \<Rightarrow> if is_structured s then Inr s else wrong
            | None \<Rightarrow> wrong) (\<lambda>st.
          let obj = hm_remove ''state'' obj;
              wrong = Inl (Mapping ''`questions` is required and must be a non-empty object'') in
          res_bind (case hm_get obj ''questions'' of
              Some (JObject m) \<Rightarrow> if m \<noteq> [] then Inr m else wrong
            | _ \<Rightarrow> wrong) (\<lambda>questions.
          let obj = hm_remove ''questions'' obj in
          res_bind (validate_questions questions) (\<lambda>_.
          res_bind (validate_session (hm_get obj ''session_id'')) (\<lambda>_.
          Inr \<lparr>dq_model = model, dq_state = st, dq_questions = questions, dq_extra = obj\<rparr>)))))
      | _ \<Rightarrow> Inl not_an_object)"

definition decisions_to_wire :: "decisions_response \<Rightarrow> json" where
  "decisions_to_wire resp =
     (let usage = hm_insert ''output_tokens'' (json_u64 (ug_completion (dr_usage resp)))
            (hm_insert ''input_tokens'' (json_u64 (ug_prompt (dr_usage resp))) (dr_usage_extra resp));
          usage = opt_insert ''cost'' json_f64 (ug_cost_usd (dr_usage resp)) usage
      in JObject (hm_insert ''usage'' (JObject usage)
           (hm_insert ''answers'' (JObject (dr_answers resp))
             (hm_insert ''model'' (JString (dr_model resp)) (dr_extra resp)))))"

section \<open>Batches\<close>

definition parse_batch_entry :: "(string option \<Rightarrow> string) \<Rightarrow> json \<Rightarrow> model_error + batch_item" where
  "parse_batch_entry dbg entry =
     (case entry of
        JObject line \<Rightarrow>
          res_bind (case hm_get line ''custom_id'' of
              Some (JString s) \<Rightarrow> if s \<noteq> [] then Inr s
                else Inl (Mapping ''each request needs a non-empty string `custom_id`'')
            | _ \<Rightarrow> Inl (Mapping ''each request needs a non-empty string `custom_id`'')) (\<lambda>custom_id.
          res_bind (ok_or (hm_get line ''body'') (Mapping ''each request needs a `body`'')) (\<lambda>body.
          res_bind (parse_chat_request dbg body) (\<lambda>request.
          Inr \<lparr>bi_custom_id = custom_id, bi_request = request\<rparr>)))
      | _ \<Rightarrow> Inl (Mapping ''each request must be an object''))"

definition parse_batch_create :: "(string option \<Rightarrow> string) \<Rightarrow> json \<Rightarrow> model_error + batch_spec" where
  "parse_batch_create dbg v =
     (case v of
        JObject obj \<Rightarrow>
          (case or_else (hm_get obj ''requests'') (hm_get obj ''input'') of
             Some (JArray requests) \<Rightarrow>
               if requests = [] then Inl (Mapping ''`requests` must not be empty'')
               else res_bind (try_map (parse_batch_entry dbg) requests) (\<lambda>items. Inr \<lparr>bs_items = items\<rparr>)
           | _ \<Rightarrow> Inl (Mapping ''`requests` is required and must be an array''))
      | _ \<Rightarrow> Inl (Mapping ''batch body must be a JSON object''))"

fun status_str :: "batch_status \<Rightarrow> string" where
  "status_str Validating = ''validating''"
| "status_str InProgress = ''in_progress''"
| "status_str Finalizing = ''finalizing''"
| "status_str Completed = ''completed''"
| "status_str Failed = ''failed''"
| "status_str Expired = ''expired''"
| "status_str Canceling = ''cancelling''"
| "status_str CanceledJob = ''cancelled''"

definition counts_to_json :: "batch_counts \<Rightarrow> json" where
  "counts_to_json c = JObject
     [(''total'', json_u64 (bc_total c)), (''completed'', json_u64 (bc_succeeded c)),
      (''failed'', json_u64 (bc_errored c)), (''processing'', json_u64 (bc_processing c)),
      (''canceled'', json_u64 (bc_canceled c)), (''expired'', json_u64 (bc_expired c))]"

definition handle_to_json :: "batch_handle \<Rightarrow> json" where
  "handle_to_json h =
     (let root = [(''id'', JString (bh_id h)), (''object'', JString ''batch''),
            (''status'', JString (status_str (bh_status h))), (''request_counts'', counts_to_json (bh_counts h))];
          root = opt_insert ''created_at'' json_u64 (bh_created_at h) root;
          root = opt_insert ''expires_at'' json_u64 (bh_expires_at h) root;
          root = opt_insert ''completed_at'' json_u64 (bh_ended_at h) root;
          root = opt_insert ''endpoint'' JString (bh_endpoint h) root
      in JObject (or_insert_all (bh_extra h) root))"

definition result_line :: "string \<Rightarrow> json \<Rightarrow> json \<Rightarrow> json" where
  "result_line custom_id err resp = JObject
     (field ''custom_id'' (JString custom_id) @ field ''error'' err @ field ''response'' resp)"

definition error_view :: "string \<Rightarrow> string \<Rightarrow> json" where
  "error_view code message = JObject (field ''code'' (JString code) @ field ''message'' (JString message))"

definition result_to_line :: "batch_result \<Rightarrow> json" where
  "result_to_line r =
     (case br_outcome r of
        Succeeded resp \<Rightarrow> result_line (br_custom_id r) JNull (JObject
          (field ''body'' (response_to_openai resp 0) @ field ''status_code'' (json_u32 200)))
      | Errored status message \<Rightarrow> result_line (br_custom_id r) (error_view (decimal (unat status)) message) JNull
      | OutcomeCanceled \<Rightarrow>
          result_line (br_custom_id r) (error_view ''canceled'' ''request canceled before completion'') JNull
      | OutcomeExpired \<Rightarrow>
          result_line (br_custom_id r) (error_view ''expired'' ''request expired before completion'') JNull)"

end
