(* ===== verification/OpenAIMedia.thy ===== *)
theory OpenAIMedia
  imports OpenAIWire Surfaces Http
begin

text \<open>
  The rest of the OpenAI wire, \<open>crates/llmleaf-providers/src/openai_wire.rs\<close>: embeddings, rerank,
  speech, voices, transcription and the model catalog. Parameters: \<open>b64_decode\<close> is the decoder of the
  base64 crate.
\<close>

section \<open>Embeddings\<close>

definition embedding_request_to_openai :: "embedding_request \<Rightarrow> json" where
  "embedding_request_to_openai req =
     JObject (or_insert_all (eq_extra req)
       (opt_insert ''dimensions'' json_u32 (eq_dimensions req)
         (hm_insert ''encoding_format'' (JString ''float'')
           (hm_insert ''input'' (JArray (map JString (eq_input req)))
             (hm_insert ''model'' (JString (eq_model req)) hm_empty)))))"

text \<open>\<open>iter().enumerate()\<close> with the position as a 32-bit number.\<close>

definition item_index :: "json \<Rightarrow> nat \<Rightarrow> u32" where
  "item_index item i = unwrap_or (of_nat i) (map_option ucast (get_u64 item ''index''))"

definition openai_embedding :: "json \<Rightarrow> nat \<Rightarrow> embedding" where
  "openai_embedding item i =
     \<lparr>em_index = item_index item i,
      em_vector = (case get_array item ''embedding'' of
          None \<Rightarrow> [] | Some xs \<Rightarrow> List.map_filter (\<lambda>v. map_option f32_round (as_f64 v)) xs)\<rparr>"

definition enumerated :: "('a \<Rightarrow> nat \<Rightarrow> 'b) \<Rightarrow> 'a list \<Rightarrow> 'b list" where
  "enumerated f xs = map (\<lambda>(i, x). f x i) (List.enumerate 0 xs)"

definition openai_to_embeddings :: "json \<Rightarrow> string \<Rightarrow> embedding_response" where
  "openai_to_embeddings v fallback_model =
     \<lparr>er_model = unwrap_or fallback_model (get_str v ''model''),
      er_embeddings = (case get_array v ''data'' of None \<Rightarrow> [] | Some items \<Rightarrow> enumerated openai_embedding items),
      er_usage = (case json_get v ''usage'' of
          None \<Rightarrow> usage_default
        | Some u \<Rightarrow> \<lparr>ug_prompt = unwrap_or 0 (get_u64 u ''prompt_tokens''), ug_completion = 0,
            ug_total = unwrap_or 0 (get_u64 u ''total_tokens''), ug_cost_usd = None,
            ug_cache_read = 0, ug_cache_creation = 0\<rparr>)\<rparr>"

section \<open>Rerank\<close>

fun document_to_json :: "rerank_document \<Rightarrow> json" where
  "document_to_json (DocText s) = JString s"
| "document_to_json (Rich obj) = JObject obj"

definition rerank_request_to_openai :: "rerank_request \<Rightarrow> json" where
  "rerank_request_to_openai req =
     JObject (or_insert_all (rq_extra req)
       (opt_insert ''return_documents'' JBool (rq_return_documents req)
         (opt_insert ''top_n'' json_u32 (rq_top_n req)
           (hm_insert ''documents'' (JArray (map document_to_json (rq_documents req)))
             (hm_insert ''query'' (JString (rq_query req))
               (hm_insert ''model'' (JString (rq_model req)) hm_empty))))))"

definition openai_rerank_result :: "json \<Rightarrow> nat \<Rightarrow> rerank_result" where
  "openai_rerank_result item i =
     \<lparr>rr_index = item_index item i,
      rr_score = unwrap_or 0 (map_option f32_round (Option.bind (json_get item ''relevance_score'') as_f64)),
      rr_document = (case json_get item ''document'' of
          Some v \<Rightarrow> if v = JNull then None else Some v | None \<Rightarrow> None)\<rparr>"

definition rerank_usage :: "json \<Rightarrow> usage" where
  "rerank_usage v =
     (let billed = Option.bind (json_get v ''meta'') (\<lambda>m. json_get m ''billed_units'');
          from_billed = Option.bind billed (\<lambda>b.
            or_else (get_u64 b ''search_units'') (or_else (get_u64 b ''total_tokens'') (get_u64 b ''input_tokens'')));
          total = unwrap_or 0 (or_else (Option.bind (json_get v ''usage'') (\<lambda>u. get_u64 u ''total_tokens'')) from_billed)
      in \<lparr>ug_prompt = total, ug_completion = 0, ug_total = total, ug_cost_usd = None,
          ug_cache_read = 0, ug_cache_creation = 0\<rparr>)"

definition openai_to_rerank :: "json \<Rightarrow> string \<Rightarrow> rerank_response" where
  "openai_to_rerank v fallback_model =
     \<lparr>rk_model = unwrap_or fallback_model (get_str v ''model''),
      rk_results = (case get_array v ''results'' of None \<Rightarrow> [] | Some items \<Rightarrow> enumerated openai_rerank_result items),
      rk_usage = rerank_usage v\<rparr>"

section \<open>Speech and voices\<close>

definition speech_request_to_openai :: "speech_request \<Rightarrow> json" where
  "speech_request_to_openai req =
     JObject (or_insert_all (sq_extra req)
       (opt_insert ''speed'' json_f64 (sq_speed req)
         (opt_insert ''response_format'' JString (sq_response_format req)
           (hm_insert ''voice'' (JString (sq_voice req))
             (hm_insert ''input'' (JString (sq_input req))
               (hm_insert ''model'' (JString (sq_model req)) hm_empty))))))"

definition decode_speech_envelope :: "(string \<Rightarrow> string option) \<Rightarrow> json \<Rightarrow> string option" where
  "decode_speech_envelope b64_decode v = Option.bind (get_str v ''audio_data'') b64_decode"

definition plain_voice :: "string \<Rightarrow> voice_info" where
  "plain_voice vid = \<lparr>vi_id = vid, vi_name = None, vi_languages = [], vi_extra = hm_empty\<rparr>"

definition openai_voices :: "string \<Rightarrow> voice_info list" where
  "openai_voices model =
     map plain_voice ([''alloy'', ''echo'', ''fable'', ''onyx'', ''nova'', ''shimmer''] @
       (if contains_sub ''gpt-4o'' model then [''ash'', ''ballad'', ''coral'', ''sage'', ''verse''] else []))"

definition openai_speech_model :: "string \<Rightarrow> string \<Rightarrow> string option" where
  "openai_speech_model brand model =
     (if brand = ''openai'' \<or> brand = ''azure-openai'' then Some model
      else if brand = ''openrouter'' then strip_prefix ''openai/'' model
      else None)"

fun nonempty_string :: "json \<Rightarrow> string option" where
  "nonempty_string (JString s) = (if s = [] then None else Some s)"
| "nonempty_string _ = None"

definition string_members :: "json \<Rightarrow> string list" where
  "string_members v = (case as_array v of None \<Rightarrow> [] | Some xs \<Rightarrow> List.map_filter as_str xs)"

definition mistral_voice :: "json \<Rightarrow> voice_info option" where
  "mistral_voice item =
     (case item of
        JObject obj \<Rightarrow>
          (let uuid = Option.bind (hm_get obj ''id'') nonempty_string;
               slug = Option.bind (hm_get obj ''slug'') nonempty_string;
               obj = hm_remove ''slug'' (hm_remove ''id'' obj);
               found = (case (slug, uuid) of
                   (Some slug, Some uuid) \<Rightarrow> Some (slug, hm_insert ''id'' (JString uuid) obj)
                 | (Some slug, None) \<Rightarrow> Some (slug, obj)
                 | (None, Some uuid) \<Rightarrow> Some (uuid, obj)
                 | (None, None) \<Rightarrow> None)
           in map_option (\<lambda>(vid, obj).
                \<lparr>vi_id = vid, vi_name = Option.bind (hm_get obj ''name'') as_str,
                 vi_languages = unwrap_or [] (map_option string_members (hm_get obj ''languages'')),
                 vi_extra = hm_remove ''languages'' (hm_remove ''name'' obj)\<rparr>) found)
      | _ \<Rightarrow> None)"

definition mistral_voices_to_canonical :: "json \<Rightarrow> voice_info list" where
  "mistral_voices_to_canonical v =
     (case (case v of JObject obj \<Rightarrow> Option.bind (hm_get obj ''items'') as_array | JArray xs \<Rightarrow> Some xs | _ \<Rightarrow> None) of
        None \<Rightarrow> []
      | Some items \<Rightarrow> List.map_filter mistral_voice items)"

section \<open>The catalog\<close>

definition wire_take_str :: "json_map \<Rightarrow> string \<Rightarrow> string option \<times> json_map" where
  "wire_take_str obj key = (Option.bind (hm_get obj key) nonempty_string, hm_remove key obj)"

definition parse_u64 :: "string \<Rightarrow> u64 option" where
  "parse_u64 s =
     (let ds = (case s of c # rest \<Rightarrow> if c = CHR ''+'' then rest else s | [] \<Rightarrow> s)
      in if ds \<noteq> [] \<and> list_all is_digit ds \<and> digits_value ds < 2 ^ 64 then Some (of_nat (digits_value ds)) else None)"

definition wire_u32 :: "json \<Rightarrow> u32 option" where
  "wire_u32 v = map_option (\<lambda>n. ucast (min n 0xFFFFFFFF)) (or_else (as_u64 v) (Option.bind (as_str v) parse_u64))"

fun wire_first_u32 :: "json_map \<Rightarrow> string list \<Rightarrow> u32 option" where
  "wire_first_u32 obj [] = None"
| "wire_first_u32 obj (k # ks) = or_else (Option.bind (hm_get obj k) wire_u32) (wire_first_u32 obj ks)"

definition wire_nested_u32 :: "json_map \<Rightarrow> string \<Rightarrow> string \<Rightarrow> u32 option" where
  "wire_nested_u32 obj parent key =
     Option.bind (Option.bind (hm_get obj parent) as_object) (\<lambda>m. Option.bind (hm_get m key) wire_u32)"

definition wire_f64 :: "json \<Rightarrow> real option" where
  "wire_f64 v = or_else (as_f64 v) (Option.bind (as_str v) parse_f64)"

definition wire_price :: "json_map \<Rightarrow> string \<Rightarrow> string \<Rightarrow> real option" where
  "wire_price p per_token_key per_mtok_key =
     (case Option.bind (hm_get p per_token_key) wire_f64 of
        Some x \<Rightarrow> if 0 \<le> x then Some (f64_round (x * 1000000)) else None
      | None \<Rightarrow>
          (case Option.bind (hm_get p per_mtok_key) wire_f64 of
             Some x \<Rightarrow> if 0 \<le> x then Some x else None
           | None \<Rightarrow> None))"

text \<open>The three signals of a modality; \<open>None\<close> passes on to the next.\<close>

definition modality_of_type :: "string \<Rightarrow> modality option" where
  "modality_of_type t =
     (let t = to_ascii_lowercase t
      in if t \<in> {''chat'', ''language'', ''code'', ''llm'', ''vlm''} then Some Llm
         else if t \<in> {''embedding'', ''embeddings'', ''embed''} then Some Embeddings
         else if t \<in> {''rerank'', ''reranker'', ''rank''} then Some Rerank
         else None)"

definition modality_list :: "json_map \<Rightarrow> string \<Rightarrow> string list" where
  "modality_list arch key = unwrap_or [] (map_option string_members (hm_get arch key))"

definition has_audio :: "string list \<Rightarrow> bool" where
  "has_audio m \<longleftrightarrow> list_ex (\<lambda>x. x = ''audio'' \<or> x = ''speech'') m"

definition has_vision :: "string list \<Rightarrow> bool" where
  "has_vision m \<longleftrightarrow> list_ex (\<lambda>x. x = ''image'' \<or> x = ''video'') m"

definition modality_of_architecture :: "json_map \<Rightarrow> modality option" where
  "modality_of_architecture arch =
     (let outs = modality_list arch ''output_modalities''; ins = modality_list arch ''input_modalities''
      in if ''decisions'' \<in> set outs then Some Decisions
         else if ''embeddings'' \<in> set outs then Some Embeddings
         else if ''scores'' \<in> set outs then Some Rerank
         else if has_audio outs then Some Tts
         else if ''transcription'' \<in> set outs then Some Stt
         else if ''text'' \<in> set outs then Some (if has_audio ins \<and> \<not> has_vision ins then Stt else Llm)
         else None)"

definition modality_of_capabilities :: "json_map \<Rightarrow> modality option" where
  "modality_of_capabilities caps =
     (let on = (\<lambda>k. unwrap_or False (Option.bind (hm_get caps k) as_bool))
      in if on ''audio_speech'' then Some Tts
         else if (on ''audio_transcription'' \<or> on ''audio_transcription_realtime'') \<and> \<not> on ''vision'' then Some Stt
         else if on ''embeddings'' then Some Embeddings
         else if on ''completion_chat'' \<or> on ''chat_completion'' \<or> on ''completion'' then Some Llm
         else None)"

definition wire_modality :: "json_map \<Rightarrow> modality option" where
  "wire_modality obj =
     or_else (Option.bind (Option.bind (hm_get obj ''type'') as_str) modality_of_type)
       (or_else (Option.bind (Option.bind (hm_get obj ''architecture'') as_object) modality_of_architecture)
         (Option.bind (Option.bind (hm_get obj ''capabilities'') as_object) modality_of_capabilities))"

text \<open>\<open>or_else\<close> over removals: a later key is only removed when the earlier gave nothing.\<close>

fun wire_take_first :: "json_map \<Rightarrow> string list \<Rightarrow> string option \<times> json_map" where
  "wire_take_first obj [] = (None, obj)"
| "wire_take_first obj (k # ks) =
     (case wire_take_str obj k of
        (Some s, obj) \<Rightarrow> (Some s, obj)
      | (None, obj) \<Rightarrow> wire_take_first obj ks)"

definition with_architecture :: "json_map \<Rightarrow> json_map" where
  "with_architecture obj =
     (if \<not> hm_contains obj ''architecture'' \<and>
         (hm_contains obj ''input_modalities'' \<or> hm_contains obj ''output_modalities'')
      then hm_insert ''architecture'' (JObject
        [(''input_modalities'', json_opt id (hm_get obj ''input_modalities'')),
         (''output_modalities'', json_opt id (hm_get obj ''output_modalities''))]) obj
      else obj)"

definition max_context_of :: "json_map \<Rightarrow> u32 option" where
  "max_context_of obj =
     or_else (wire_first_u32 obj [''context_window'', ''context_length'', ''max_context_length'', ''max_model_len''])
       (or_else (wire_nested_u32 obj ''top_provider'' ''context_length'')
         (wire_nested_u32 obj ''limits'' ''max_context_length''))"

definition max_output_of :: "json_map \<Rightarrow> u32 option" where
  "max_output_of obj =
     or_else (wire_first_u32 obj [''max_completion_tokens'', ''max_output_tokens''])
       (or_else (wire_nested_u32 obj ''top_provider'' ''max_completion_tokens'')
         (wire_nested_u32 obj ''limits'' ''max_completion_tokens''))"

definition model_item_to_info :: "json \<Rightarrow> model_info option" where
  "model_item_to_info item =
     (case item of
        JObject obj \<Rightarrow>
          (case wire_take_first obj [''id'', ''key'', ''model_name''] of
             (None, _) \<Rightarrow> None
           | (Some mid, obj) \<Rightarrow>
               let (name, obj) = wire_take_first obj [''name'', ''display_name''];
                   obj = with_architecture obj;
                   prices = Option.bind (hm_get obj ''pricing'') as_object;
                   supported = (case hm_get obj ''supported_parameters'' of
                       Some (JArray a) \<Rightarrow> Some (List.map_filter as_str a) | _ \<Rightarrow> None);
                   defaults = (case hm_get obj ''default_parameters'' of Some (JObject m) \<Rightarrow> m | _ \<Rightarrow> hm_empty)
               in Some ((model_info_new mid)
                 \<lparr>mi_name := name, mi_modality := wire_modality obj,
                  mi_max_context := max_context_of obj, mi_max_output := max_output_of obj,
                  mi_input_per_mtok := Option.bind prices (\<lambda>p. wire_price p ''prompt'' ''input''),
                  mi_output_per_mtok := Option.bind prices (\<lambda>p. wire_price p ''completion'' ''output''),
                  mi_supported_parameters := supported, mi_default_parameters := defaults,
                  mi_extra := hm_remove ''object'' (hm_remove ''default_parameters'' (hm_remove ''supported_parameters'' obj))\<rparr>))
      | _ \<Rightarrow> None)"

definition openai_wire_models_to_canonical :: "json \<Rightarrow> model_info list" where
  "openai_wire_models_to_canonical v =
     (let items = (case v of
          JArray xs \<Rightarrow> xs
        | JObject obj \<Rightarrow> unwrap_or [] (Option.bind (or_else (hm_get obj ''data'') (hm_get obj ''models'')) as_array)
        | _ \<Rightarrow> [])
      in List.map_filter model_item_to_info items)"

section \<open>Transcription\<close>

definition audio_content_type :: "string option \<Rightarrow> string" where
  "audio_content_type format =
     (let f = unwrap_or ''mp3'' format
      in if f = ''mp3'' then ''audio/mpeg''
         else if f = ''opus'' then ''audio/ogg''
         else if f = ''aac'' then ''audio/aac''
         else if f = ''flac'' then ''audio/flac''
         else if f = ''wav'' then ''audio/wav''
         else if f = ''pcm'' then ''audio/pcm''
         else ''application/octet-stream'')"

definition transcription_usage :: "json \<Rightarrow> real option \<Rightarrow> usage" where
  "transcription_usage u cost =
     (let prompt = unwrap_or 0 (get_u64 u ''input_tokens''); completion = unwrap_or 0 (get_u64 u ''output_tokens'')
      in \<lparr>ug_prompt = prompt, ug_completion = completion,
          ug_total = unwrap_or (prompt + completion) (get_u64 u ''total_tokens''), ug_cost_usd = cost,
          ug_cache_read = 0, ug_cache_creation = 0\<rparr>)"

definition openai_to_transcription :: "json \<Rightarrow> transcription_response" where
  "openai_to_transcription v =
     \<lparr>tr_text = unwrap_or [] (get_str v ''text''), tr_language = get_str v ''language'',
      tr_duration = map_option f32_round (Option.bind (json_get v ''duration'') as_f64),
      tr_usage = (case json_get v ''usage'' of None \<Rightarrow> usage_default | Some u \<Rightarrow> transcription_usage u None)\<rparr>"

definition transcription_request_to_openrouter :: "transcription_request \<Rightarrow> string \<Rightarrow> json" where
  "transcription_request_to_openrouter req format =
     JObject (or_insert_all (tq_extra req)
       (opt_insert ''temperature'' json_f64 (tq_temperature req)
         (opt_insert ''language'' JString (tq_language req)
           (hm_insert ''input_audio'' (JObject [(''data'', JString (base64_encode (tq_audio req))),
               (''format'', JString format)])
             (hm_insert ''model'' (JString (tq_model req)) hm_empty)))))"

definition openrouter_to_transcription :: "json \<Rightarrow> transcription_response" where
  "openrouter_to_transcription v =
     (let usage = json_get v ''usage''
      in \<lparr>tr_text = unwrap_or [] (get_str v ''text''), tr_language = get_str v ''language'',
          tr_duration = map_option f32_round (Option.bind (Option.bind usage (\<lambda>u. json_get u ''seconds'')) as_f64),
          tr_usage = (case usage of
              None \<Rightarrow> usage_default
            | Some u \<Rightarrow> transcription_usage u (Option.bind (json_get u ''cost'') as_f64))\<rparr>)"

end
