(* ===== verification/MediaGateway.thy ===== *)
theory MediaGateway
  imports OpenAIMedia
begin

text \<open>
  Both ends of the embeddings, rerank and speech dialects together: a body parsed by the consumer surface,
  sent on over the OpenAI wire and parsed by a second gateway; a response rendered by the second and
  read by the first. And what the catalog reader keeps of an entry.
\<close>

section \<open>Requests\<close>

lemma body_reads:
  "body_string k obj = Inr s \<longleftrightarrow> hm_get obj k = Some (JString s)"
  by (auto simp: body_string_def split: option.splits json.splits)

lemma embedding_sent_lookup:
  "json_get (embedding_request_to_openai req) k = or_else
    (if k = ''dimensions'' \<and> eq_dimensions req \<noteq> None then map_option json_u32 (eq_dimensions req)
     else if k = ''encoding_format'' then Some (JString ''float'')
     else if k = ''input'' then Some (JArray (map JString (eq_input req)))
     else if k = ''model'' then Some (JString (eq_model req)) else None) (hm_get (eq_extra req) k)"
  by (simp add: embedding_request_to_openai_def hm_get_or_insert_all hm_get_opt_insert hm_get_insert hm_get_empty)

lemma strings_read: "try_map (\<lambda>v. case v of JString s \<Rightarrow> Inr s | _ \<Rightarrow> Inl e) (map JString xs) = Inr xs"
  by (induction xs) simp_all

lemma embedding_parsed:
  assumes "parse_embedding_request (JObject obj) = Inr req"
  shows "hm_get obj ''model'' = Some (JString (eq_model req)) \<and> parse_input (hm_get obj ''input'') = Inr (eq_input req) \<and>
    eq_dimensions req = body_u32 ''dimensions'' obj \<and>
    eq_encoding_format req = Option.bind (hm_get obj ''encoding_format'') as_str \<and>
    hm_get (eq_extra req) = (\<lambda>k. if k \<in> {''model'', ''input'', ''dimensions'', ''encoding_format''} then None else hm_get obj k)"
  using assms
  by (auto simp: parse_embedding_request_def res_simps body_reads Let_def body_u32_def hm_get_removed fun_eq_iff)

lemma embedding_read:
  assumes "hm_get obj ''model'' = Some (JString model)" "parse_input (hm_get obj ''input'') = Inr input"
  shows "parse_embedding_request (JObject obj) = Inr \<lparr>eq_model = model, eq_input = input,
     eq_dimensions = body_u32 ''dimensions'' obj,
     eq_encoding_format = Option.bind (hm_get obj ''encoding_format'') as_str,
     eq_extra = hm_remove ''encoding_format'' (hm_remove ''dimensions'' (hm_remove ''input'' (hm_remove ''model'' obj)))\<rparr>"
  using assms by (simp add: parse_embedding_request_def body_string_def Let_def body_u32_def hm_get_removed)

section \<open>Responses\<close>

text \<open>A single survives being printed and read as a double.\<close>

definition widens :: "(real \<Rightarrow> real) \<Rightarrow> bool" where
  "widens wide \<longleftrightarrow> (\<forall>x. f32_round x = x \<longrightarrow> f32_round (wide x) = x)"

definition singles :: "real list \<Rightarrow> bool" where
  "singles xs \<longleftrightarrow> (\<forall>x \<in> set xs. f32_round x = x)"

lemma vector_read:
  assumes "widens wide" "singles xs"
  shows "List.map_filter (\<lambda>v. map_option f32_round (as_f64 v)) (map (\<lambda>f. json_f64 (wide f)) xs) = xs"
  using assms by (induction xs) (simp_all add: map_filter_simps singles_def widens_def wire_simps)

lemma enumerated_map:
  assumes "\<And>x i. x \<in> set xs \<Longrightarrow> f (g x) i = h x"
  shows "enumerated f (map g xs) = map h xs"
proof -
  have "map (\<lambda>(i, x). f x i) (List.enumerate n (map g xs)) = map h xs" for n
    using assms by (induction xs arbitrary: n) simp_all
  then show ?thesis by (simp add: enumerated_def)
qed

lemma item_index_written: "get_u64 item ''index'' = Some (ucast i) \<Longrightarrow> item_index item n = i"
  by (simp add: item_index_def wire_simps)

text \<open>What a response keeps on its way: its totals, not the price of the other gateway.\<close>

definition billed_prompt :: "usage \<Rightarrow> usage" where
  "billed_prompt u = \<lparr>ug_prompt = ug_prompt u, ug_completion = 0, ug_total = ug_total u, ug_cost_usd = None,
     ug_cache_read = 0, ug_cache_creation = 0\<rparr>"

definition billed_total :: "usage \<Rightarrow> usage" where
  "billed_total u = \<lparr>ug_prompt = ug_total u, ug_completion = 0, ug_total = ug_total u, ug_cost_usd = None,
     ug_cache_read = 0, ug_cache_creation = 0\<rparr>"

lemma embeddings_read:
  assumes "widens wide" "\<And>e. e \<in> set (er_embeddings resp) \<Longrightarrow> singles (em_vector e)"
    and "encoding_format \<noteq> Some ''base64''"
  shows "openai_to_embeddings (embeddings_to_openai le_bytes wide resp encoding_format) fallback_model =
    resp\<lparr>er_usage := billed_prompt (er_usage resp)\<rparr>"
proof -
  have item: "openai_embedding (embedding_item le_bytes wide False e) i = e"
    if "e \<in> set (er_embeddings resp)" for e i
    using vector_read [OF assms(1) assms(2) [OF that]]
    by (simp add: openai_embedding_def embedding_item_def embedding_data_def get_array_def get_u64_def
        item_index_def wire_simps)
  show ?thesis
    using assms(3) enumerated_map [of "er_embeddings resp" openai_embedding "embedding_item le_bytes wide False" id] item
    by (simp add: openai_to_embeddings_def embeddings_to_openai_def get_str_def get_array_def get_u64_def
        emb_usage_view_def billed_prompt_def wire_simps)
qed

text \<open>
  embeddings cross a second gateway unchanged. The request a consumer posts is read behind the first
  gateway as the same request under the target's model name, always asking for floats, with every
  unmodelled field; a response of singles comes back vector for vector, index for index, with its
  token counts.
\<close>

theorem embeddings_between_gateways:
  assumes "parse_embedding_request body = Inr req" "widens wide"
    and "\<forall>e \<in> set (er_embeddings resp). singles (em_vector e)"
  shows "\<exists>req'. parse_embedding_request (embedding_request_to_openai (req\<lparr>eq_model := upstream\<rparr>)) = Inr req' \<and>
      eq_model req' = upstream \<and> eq_input req' = eq_input req \<and> eq_dimensions req' = eq_dimensions req \<and>
      hm_get (eq_extra req') = hm_get (eq_extra req) \<and>
      openai_to_embeddings (embeddings_to_openai le_bytes wide resp (eq_encoding_format req')) fallback_model =
        resp\<lparr>er_usage := billed_prompt (er_usage resp)\<rparr>"
proof -
  obtain obj0 where obj0: "body = JObject obj0"
    using assms(1) by (cases body) (simp_all add: parse_embedding_request_def)
  note parsed = embedding_parsed [OF assms(1) [unfolded obj0]]
  then have none: "hm_get (eq_extra req) k = None" if "k \<in> {''model'', ''input'', ''dimensions'', ''encoding_format''}" for k
    using that by simp
  obtain obj where sent: "embedding_request_to_openai (req\<lparr>eq_model := upstream\<rparr>) = JObject obj"
    by (simp add: embedding_request_to_openai_def)
  have L: "hm_get obj k = json_get (embedding_request_to_openai (req\<lparr>eq_model := upstream\<rparr>)) k" for k
    by (simp add: sent)
  note L = L [unfolded embedding_sent_lookup]
  have model: "hm_get obj ''model'' = Some (JString upstream)"
    and input: "parse_input (hm_get obj ''input'') = Inr (eq_input req)"
    and format: "Option.bind (hm_get obj ''encoding_format'') as_str = Some ''float''"
    by (simp_all add: L parse_input_def strings_read)
  have dims: "body_u32 ''dimensions'' obj = eq_dimensions req"
    by (cases "eq_dimensions req") (simp_all add: body_u32_def L none wire_simps)
  have rest: "hm_get (hm_remove ''encoding_format'' (hm_remove ''dimensions'' (hm_remove ''input'' (hm_remove ''model'' obj)))) =
      hm_get (eq_extra req)"
    by (rule ext) (simp add: hm_get_removed L none)
  note read = embedding_read [OF model input, unfolded format dims]
  show ?thesis
    unfolding sent read using embeddings_read [OF assms(2), of resp "Some ''float''"] assms(3) by (simp add: rest)
qed

definition one_embedding :: embedding_response where
  "one_embedding = \<lparr>er_model = ''m'', er_embeddings = [\<lparr>em_index = 0, em_vector = [0, 0]\<rparr>], er_usage = usage_default\<rparr>"

theorem embeddings_between_gateways_witness:
  "\<exists>req'. parse_embedding_request (embedding_request_to_openai
        \<lparr>eq_model = ''up'', eq_input = [''hi''], eq_dimensions = None, eq_encoding_format = None, eq_extra = []\<rparr>) = Inr req' \<and>
      eq_input req' = [''hi''] \<and>
      openai_to_embeddings (embeddings_to_openai (\<lambda>_. []) id one_embedding (eq_encoding_format req')) ''f'' =
        one_embedding\<lparr>er_usage := billed_prompt usage_default\<rparr>"
proof -
  let ?req = "\<lparr>eq_model = ''fast'', eq_input = [''hi''], eq_dimensions = None, eq_encoding_format = None, eq_extra = []\<rparr>"
  have parsed: "parse_embedding_request (JObject [(''model'', JString ''fast''), (''input'', JString ''hi'')]) = Inr ?req"
    by (simp add: parse_embedding_request_def body_string_def parse_input_def body_u32_def hm_get_def hm_remove_def)
  have "widens id" by (simp add: widens_def)
  moreover have "\<forall>e \<in> set (er_embeddings one_embedding). singles (em_vector e)"
    by (simp add: one_embedding_def singles_def f32_round_def)
  ultimately show ?thesis
    using embeddings_between_gateways [OF parsed, of id one_embedding "''up''" "\<lambda>_. []" "''f''"]
    by (auto simp: one_embedding_def)
qed

section \<open>Rerank\<close>

lemma rerank_sent_lookup:
  "json_get (rerank_request_to_openai req) k = or_else
    (if k = ''return_documents'' \<and> rq_return_documents req \<noteq> None then map_option JBool (rq_return_documents req)
     else if k = ''top_n'' \<and> rq_top_n req \<noteq> None then map_option json_u32 (rq_top_n req)
     else if k = ''documents'' then Some (JArray (map document_to_json (rq_documents req)))
     else if k = ''query'' then Some (JString (rq_query req))
     else if k = ''model'' then Some (JString (rq_model req)) else None) (hm_get (rq_extra req) k)"
  by (simp add: rerank_request_to_openai_def hm_get_or_insert_all hm_get_opt_insert hm_get_insert hm_get_empty)

lemma document_read: "parse_document (document_to_json d) = Inr d"
  by (cases d) (simp_all add: parse_document_def)

lemma documents_read:
  "docs \<noteq> [] \<Longrightarrow> parse_documents (Some (JArray (map document_to_json docs))) = Inr docs"
  by (simp add: parse_documents_def try_map_map document_read try_map_Inr [where g = "\<lambda>d. d"])

lemma documents_some: "parse_documents v = Inr docs \<Longrightarrow> docs \<noteq> []"
  by (auto simp: parse_documents_def Let_def neq_Nil_conv res_simps split: option.splits json.splits if_splits)

definition rerank_keys :: "string list" where
  "rerank_keys = [''model'', ''query'', ''documents'', ''top_n'', ''return_documents'']"

definition rerank_rest :: "json_map \<Rightarrow> json_map" where
  "rerank_rest obj = hm_remove ''return_documents'' (hm_remove ''top_n'' (hm_remove ''documents''
     (hm_remove ''query'' (hm_remove ''model'' obj))))"

lemma rerank_rest_lookup: "hm_get (rerank_rest obj) k = (if k \<in> set rerank_keys then None else hm_get obj k)"
  by (auto simp: rerank_rest_def rerank_keys_def hm_get_removed)

lemma rerank_parsed:
  assumes "parse_rerank_request (JObject obj) = Inr req"
  shows "parse_documents (hm_get obj ''documents'') = Inr (rq_documents req) \<and> rq_extra req = rerank_rest obj"
  using assms by (auto simp: parse_rerank_request_def res_simps body_reads Let_def hm_get_removed rerank_rest_def)

lemma rerank_read:
  assumes "hm_get obj ''model'' = Some (JString model)" "hm_get obj ''query'' = Some (JString query)"
    "parse_documents (hm_get obj ''documents'') = Inr docs"
  shows "parse_rerank_request (JObject obj) = Inr \<lparr>rq_model = model, rq_query = query, rq_documents = docs,
     rq_top_n = body_u32 ''top_n'' obj,
     rq_return_documents = Option.bind (hm_get obj ''return_documents'') as_bool, rq_extra = rerank_rest obj\<rparr>"
  using assms
  by (simp add: parse_rerank_request_def body_string_def Let_def body_u32_def hm_get_removed rerank_rest_def)

lemma bind_bool: "Option.bind (map_option JBool b) as_bool = b"
  by (cases b) simp_all

lemma rerank_response_read:
  assumes "widens wide" "\<forall>r \<in> set (rk_results resp). f32_round (rr_score r) = rr_score r \<and> rr_document r \<noteq> Some JNull"
  shows "openai_to_rerank (rerank_to_wire wide resp) fallback_model = resp\<lparr>rk_usage := billed_total (rk_usage resp)\<rparr>"
proof -
  have item: "openai_rerank_result (rerank_result_view wide r) i = r" if "r \<in> set (rk_results resp)" for r i
    using that assms
    by (cases "rr_document r") (auto simp: openai_rerank_result_def rerank_result_view_def item_index_def get_u64_def
        widens_def wire_simps)
  show ?thesis
    using enumerated_map [of "rk_results resp" openai_rerank_result "rerank_result_view wide" id] item
    by (simp add: openai_to_rerank_def rerank_to_wire_def rerank_usage_def get_str_def get_array_def get_u64_def
        billed_total_def wire_simps Let_def)
qed

text \<open>
  Rerank crosses a second gateway unchanged. Query, documents (text or structured) in their order, the
  limit, the wish to have documents echoed and every unmodelled field are read again behind the first
  gateway; results come back with their input indices, scores and echoed documents, and the billed count.
\<close>

theorem rerank_between_gateways:
  assumes "parse_rerank_request body = Inr req" "widens wide"
    and "\<forall>r \<in> set (rk_results resp). f32_round (rr_score r) = rr_score r \<and> rr_document r \<noteq> Some JNull"
  shows "\<exists>extra. parse_rerank_request (rerank_request_to_openai (req\<lparr>rq_model := upstream\<rparr>)) =
        Inr (req\<lparr>rq_model := upstream, rq_extra := extra\<rparr>) \<and> hm_get extra = hm_get (rq_extra req) \<and>
      openai_to_rerank (rerank_to_wire wide resp) fallback_model = resp\<lparr>rk_usage := billed_total (rk_usage resp)\<rparr>"
proof -
  obtain obj0 where obj0: "body = JObject obj0"
    using assms(1) by (cases body) (simp_all add: parse_rerank_request_def)
  note parsed = rerank_parsed [OF assms(1) [unfolded obj0]]
  then have some: "rq_documents req \<noteq> []" using documents_some by blast
  from parsed have none: "hm_get (rq_extra req) k = None" if "k \<in> set rerank_keys" for k
    using that by (simp add: rerank_rest_lookup)
  note none = none [unfolded rerank_keys_def, simplified]
  obtain obj where sent: "rerank_request_to_openai (req\<lparr>rq_model := upstream\<rparr>) = JObject obj"
    by (simp add: rerank_request_to_openai_def)
  have L: "hm_get obj k = json_get (rerank_request_to_openai (req\<lparr>rq_model := upstream\<rparr>)) k" for k
    by (simp add: sent)
  note L = L [unfolded rerank_sent_lookup]
  have heads: "hm_get obj ''model'' = Some (JString upstream)" "hm_get obj ''query'' = Some (JString (rq_query req))"
    and docs: "parse_documents (hm_get obj ''documents'') = Inr (rq_documents req)"
    by (simp_all add: L documents_read some)
  have top_n: "body_u32 ''top_n'' obj = rq_top_n req"
    by (cases "rq_top_n req") (simp_all add: body_u32_def L none wire_simps)
  have echo: "Option.bind (hm_get obj ''return_documents'') as_bool = rq_return_documents req"
    by (cases "rq_return_documents req") (simp_all add: L none)
  have "hm_get (rerank_rest obj) k = hm_get (rq_extra req) k" for k
    by (cases "k \<in> set rerank_keys") (auto simp: rerank_rest_lookup L none rerank_keys_def)
  then have rest: "hm_get (rerank_rest obj) = hm_get (rq_extra req)" by blast
  show ?thesis
    unfolding sent using rerank_read [OF heads docs] rerank_response_read [OF assms(2,3)]
    by (intro exI [of _ "rerank_rest obj"]) (simp add: rest top_n echo)
qed

theorem rerank_between_gateways_witness:
  "openai_to_rerank (rerank_to_wire id
      \<lparr>rk_model = ''m'', rk_results = [\<lparr>rr_index = 1, rr_score = 0, rr_document = Some (JString ''b'')\<rparr>],
       rk_usage = usage_default\<rparr>) ''f'' =
    \<lparr>rk_model = ''m'', rk_results = [\<lparr>rr_index = 1, rr_score = 0, rr_document = Some (JString ''b'')\<rparr>],
     rk_usage = billed_total usage_default\<rparr>"
proof -
  let ?resp = "\<lparr>rk_model = ''m'', rk_results = [\<lparr>rr_index = 1, rr_score = 0, rr_document = Some (JString ''b'')\<rparr>],
     rk_usage = usage_default\<rparr>"
  let ?req = "\<lparr>rq_model = ''fast'', rq_query = ''q'', rq_documents = [DocText ''a'', DocText ''b''], rq_top_n = None,
     rq_return_documents = None, rq_extra = []\<rparr>"
  have parsed: "parse_rerank_request (JObject [(''model'', JString ''fast''), (''query'', JString ''q''),
      (''documents'', JArray [JString ''a'', JString ''b''])]) = Inr ?req"
    by (simp add: parse_rerank_request_def body_string_def parse_documents_def parse_document_def body_u32_def
        hm_get_def hm_remove_def)
  have "widens id" by (simp add: widens_def)
  moreover have "\<forall>r \<in> set (rk_results ?resp). f32_round (rr_score r) = rr_score r \<and> rr_document r \<noteq> Some JNull"
    by (simp add: f32_round_def)
  ultimately show ?thesis
    using rerank_between_gateways [OF parsed, of id ?resp "''up''" "''f''"] by auto
qed

section \<open>The catalog\<close>

lemma take_first_found:
  "wire_take_first obj ks = (Some s, obj') \<Longrightarrow>
     (\<exists>k \<in> set ks. hm_get obj k = Some (JString s)) \<and> s \<noteq> []"
proof (induction ks arbitrary: obj)
  case (Cons k ks)
  have ne: "nonempty_string v = Some t \<longleftrightarrow> v = JString t \<and> t \<noteq> []" for v t
    by (cases v) auto
  show ?case
  proof (cases "Option.bind (hm_get obj k) nonempty_string")
    case None
    then have "wire_take_first (hm_remove k obj) ks = (Some s, obj')"
      using Cons.prems by (simp add: wire_take_str_def)
    from Cons.IH [OF this] show ?thesis by (auto simp: hm_get_removed split: if_splits)
  next
    case (Some t)
    then have "s = t" using Cons.prems by (simp add: wire_take_str_def)
    with Some show ?thesis by (auto simp: bind_eq_Some_conv ne)
  qed
qed simp

lemma take_first_rest:
  "k \<notin> set ks \<Longrightarrow> hm_get (snd (wire_take_first obj ks)) k = hm_get obj k"
  by (induction ks arbitrary: obj) (auto simp: wire_take_str_def hm_get_removed split: prod.splits option.splits)

lemma wire_price_nonneg: "wire_price p a b = Some x \<Longrightarrow> 0 \<le> x"
  by (auto simp: wire_price_def f64_round_nonneg split: option.splits if_splits)

lemma with_architecture_other: "k \<noteq> ''architecture'' \<Longrightarrow> hm_get (with_architecture obj) k = hm_get obj k"
  by (simp add: with_architecture_def hm_get_insert)

definition lifted_keys :: "string list" where
  "lifted_keys = [''id'', ''key'', ''model_name'', ''name'', ''display_name'', ''architecture'',
     ''supported_parameters'', ''default_parameters'', ''object'']"

definition modality_keys :: "string list" where
  "modality_keys = [''type'', ''architecture'', ''input_modalities'', ''output_modalities'', ''capabilities'']"

lemma wire_modality_signals:
  assumes "\<forall>k \<in> set modality_keys. hm_get obj k = hm_get obj' k"
  shows "wire_modality (with_architecture obj) = wire_modality (with_architecture obj')"
proof -
  have "hm_get (with_architecture obj) k = hm_get (with_architecture obj') k"
    if "k \<in> {''type'', ''architecture'', ''capabilities''}" for k
    using assms that by (auto simp: with_architecture_def hm_contains_def hm_get_insert modality_keys_def)
  then show ?thesis by (simp add: wire_modality_def)
qed

text \<open>
  the catalog reader never guesses. An entry is listed only under an identifier it names itself; its
  modality is read from its signals alone, so entries that agree on those agree on it whatever their
  identifiers and names; a price is never negative; and every member with no typed field stays as it was.
\<close>

theorem catalog_entry_faithful:
  assumes "model_item_to_info (JObject obj) = Some info" "model_item_to_info (JObject obj') = Some info'"
  shows "mi_id info \<noteq> [] \<and>
    (\<exists>k \<in> {''id'', ''key'', ''model_name''}. hm_get obj k = Some (JString (mi_id info))) \<and>
    ((\<forall>k \<in> set modality_keys. hm_get obj k = hm_get obj' k) \<longrightarrow> mi_modality info = mi_modality info') \<and>
    (\<forall>x. mi_input_per_mtok info = Some x \<or> mi_output_per_mtok info = Some x \<longrightarrow> 0 \<le> x) \<and>
    (\<forall>k. k \<notin> set lifted_keys \<longrightarrow> hm_get (mi_extra info) k = hm_get obj k)"
proof -
  define taken where "taken o' = snd (wire_take_first (snd (wire_take_first o' [''id'', ''key'', ''model_name'']))
      [''name'', ''display_name''])" for o'
  have modality: "mi_modality i = wire_modality (with_architecture (taken o'))"
    and extra: "mi_extra i = hm_remove ''object'' (hm_remove ''default_parameters''
        (hm_remove ''supported_parameters'' (with_architecture (taken o'))))"
    and prices: "mi_input_per_mtok i = Option.bind (Option.bind (hm_get (with_architecture (taken o')) ''pricing'') as_object)
        (\<lambda>p. wire_price p ''prompt'' ''input'')"
      "mi_output_per_mtok i = Option.bind (Option.bind (hm_get (with_architecture (taken o')) ''pricing'') as_object)
        (\<lambda>p. wire_price p ''completion'' ''output'')"
    if "model_item_to_info (JObject o') = Some i" for o' i
    using that by (auto simp: model_item_to_info_def taken_def Let_def simp del: wire_take_first.simps
        split: prod.splits option.splits)
  have named: "\<exists>rest. wire_take_first obj [''id'', ''key'', ''model_name''] = (Some (mi_id info), rest)"
    using assms(1) by (auto simp: model_item_to_info_def model_info_new_def Let_def simp del: wire_take_first.simps
        split: prod.splits option.splits)
  have rest: "hm_get (taken o') k = hm_get o' k"
    if "k \<notin> {''id'', ''key'', ''model_name'', ''name'', ''display_name''}" for o' k
    using that by (simp add: taken_def take_first_rest del: wire_take_first.simps)
  have "mi_modality info = mi_modality info'" if "\<forall>k \<in> set modality_keys. hm_get obj k = hm_get obj' k"
    unfolding modality [OF assms(1)] modality [OF assms(2)]
    by (rule wire_modality_signals) (use that rest in \<open>auto simp: modality_keys_def\<close>)
  moreover have "hm_get (mi_extra info) k = hm_get obj k" if "k \<notin> set lifted_keys" for k
    using that by (simp add: extra [OF assms(1)] hm_get_removed with_architecture_other rest lifted_keys_def)
  moreover have "0 \<le> x" if "mi_input_per_mtok info = Some x \<or> mi_output_per_mtok info = Some x" for x
    using that wire_price_nonneg by (auto simp: prices [OF assms(1)] bind_eq_Some_conv)
  moreover have "mi_id info \<noteq> [] \<and>
      (\<exists>k \<in> {''id'', ''key'', ''model_name''}. hm_get obj k = Some (JString (mi_id info)))"
    using named take_first_found by fastforce
  ultimately show ?thesis by blast
qed

theorem catalog_entry_faithful_witness:
  "\<exists>info. model_item_to_info (JObject [(''id'', JString ''gpt''), (''owned_by'', JString ''me'')]) = Some info \<and>
     mi_id info = ''gpt'' \<and> hm_get (mi_extra info) ''owned_by'' = Some (JString ''me'')"
proof -
  let ?obj = "[(''id'', JString ''gpt''), (''owned_by'', JString ''me'')]"
  obtain info where info: "model_item_to_info (JObject ?obj) = Some info"
    by (simp add: model_item_to_info_def wire_take_str_def hm_get_def hm_remove_def Let_def)
  from catalog_entry_faithful [OF this this] have
    "\<exists>k \<in> {''id'', ''key'', ''model_name''}. hm_get ?obj k = Some (JString (mi_id info))"
    "\<forall>k. k \<notin> set lifted_keys \<longrightarrow> hm_get (mi_extra info) k = hm_get ?obj k" by blast+
  with info show ?thesis by (auto simp: hm_get_def lifted_keys_def)
qed

end
