(* ===== verification/Responses.thy ===== *)
theory Responses
  imports Sse OpenAI Anthropic
begin

text \<open>
  The Responses surface, \<open>crates/llmleaf-core/src/compat/responses.rs\<close>: a request body to a canonical
  request, what a response echoes of its request, a canonical response to a \<open>response\<close> object, a
  canonical stream to the events of a response, and \<open>responses_sse_from_response\<close> of server.rs. An event
  has the shape of the Messages surface's, so its type is shared. Parameters: \<open>dbg\<close> and
  \<open>dbgs\<close> are the \<open>{:?}\<close> renderings of an optional string and of a string.
\<close>

section \<open>Requests\<close>

definition str_field :: "json_map \<Rightarrow> string \<Rightarrow> string" where
  "str_field obj k = unwrap_or [] (get_str (JObject obj) k)"

definition assistant_message :: "content_part list \<Rightarrow> tool_call list \<Rightarrow> message" where
  "assistant_message content calls =
     \<lparr>me_role = Assistant, me_content = content, me_tool_calls = calls, me_tool_call_id = None, me_name = None\<rparr>"

fun parse_input_role :: "string \<Rightarrow> model_error + role" where
  "parse_input_role r =
     (if r = ''user'' then Inr User
      else if r = ''system'' \<or> r = ''developer'' then Inr System
      else if r = ''assistant'' then Inr Assistant
      else Inl (Mapping (''unknown `input` message role `'' @ r @ ''`'')))"

text \<open>\<open>None\<close> for a part that carries no content: a refusal is skipped.\<close>

definition parse_input_part ::
  "(string option \<Rightarrow> string) \<Rightarrow> (string \<Rightarrow> string) \<Rightarrow> json \<Rightarrow> model_error + content_part option" where
  "parse_input_part dbg dbgs value =
     (case value of
        JObject obj \<Rightarrow>
          (case get_str value ''type'' of
             None \<Rightarrow> Inl (Mapping (''unsupported `input` content part type '' @ dbg None))
           | Some ty \<Rightarrow>
               if ty = ''input_text'' \<or> ty = ''output_text'' \<or> ty = ''text''
               then Inr (Some (Text (str_field obj ''text'')))
               else if ty = ''input_image'' then
                 (case get_str value ''image_url'' of
                    Some url \<Rightarrow> Inr (Some (ImageUrl url (get_str value ''detail'')))
                  | None \<Rightarrow> Inl (Mapping (''unsupported `input` content part '' @ [CHR 0x22] @ ''input_image'' @
                      [CHR 0x22] @ '' without an inline `image_url` (a file_id-only image references stored bytes '' @
                      ''llmleaf does not hold)'')))
               else if ty = ''refusal'' then Inr None
               else if ty = ''input_file'' \<or> ty = ''input_audio''
               then Inl (Mapping (''unsupported `input` content part type '' @ dbgs ty))
               else Inl (Mapping (''unsupported `input` content part type '' @ dbg (Some ty))))
      | _ \<Rightarrow> Inl (Mapping ''content part must be an object''))"

definition parse_input_content ::
  "(string option \<Rightarrow> string) \<Rightarrow> (string \<Rightarrow> string) \<Rightarrow> json option \<Rightarrow> model_error + content_part list" where
  "parse_input_content dbg dbgs value =
     (case value of
        None \<Rightarrow> Inr []
      | Some JNull \<Rightarrow> Inr []
      | Some (JString text) \<Rightarrow> Inr [Text text]
      | Some (JArray parts) \<Rightarrow>
          res_bind (try_map (parse_input_part dbg dbgs) parts) (\<lambda>ps. Inr (List.map_filter (\<lambda>p. p) ps))
      | Some _ \<Rightarrow> Inl (Mapping ''`content` must be a string, array, or null''))"

text \<open>What a \<open>reasoning\<close> item adds to the parts held back for the next assistant turn.\<close>

definition reasoning_texts :: "json_map \<Rightarrow> string \<Rightarrow> string list" where
  "reasoning_texts obj k =
     (case hm_get obj k of
        Some (JArray entries) \<Rightarrow> List.map_filter (\<lambda>entry. get_str entry ''text'') entries
      | _ \<Rightarrow> [])"

definition collect_reasoning :: "json_map \<Rightarrow> content_part list \<Rightarrow> content_part list" where
  "collect_reasoning obj held =
     (let texts = reasoning_texts obj ''summary'' @ reasoning_texts obj ''content'';
          parts = map (\<lambda>t. ThinkingPart t None) texts;
          signed = (case get_str (JObject obj) ''signature'' of
              Some signature \<Rightarrow>
                if parts = [] then parts else butlast parts @ [ThinkingPart (last texts) (Some signature)]
            | None \<Rightarrow> parts);
          redacted = (case get_str (JObject obj) ''encrypted_content'' of
              Some data \<Rightarrow> [RedactedThinkingPart data] | None \<Rightarrow> [])
      in held @ signed @ redacted)"

definition function_output_text :: "json option \<Rightarrow> string" where
  "function_output_text value =
     (case value of
        Some (JString s) \<Rightarrow> s
      | Some (JArray parts) \<Rightarrow>
          fold (\<lambda>part out. case get_str part ''text'' of None \<Rightarrow> out | Some t \<Rightarrow> out @ t) parts []
      | _ \<Rightarrow> [])"

definition prepend_pending :: "message \<Rightarrow> content_part list \<Rightarrow> message" where
  "prepend_pending m held = m\<lparr>me_content := held @ me_content m\<rparr>"

text \<open>A call joins the assistant turn before it, or starts one.\<close>

definition add_call :: "tool_call \<Rightarrow> content_part list \<Rightarrow> message list \<Rightarrow> message list" where
  "add_call call held out =
     (let fresh = out @ [prepend_pending (assistant_message [] [call]) held]
      in case rev out of
           m # before \<Rightarrow>
             if me_role m = Assistant
             then rev before @ [(prepend_pending m held)\<lparr>me_tool_calls := me_tool_calls m @ [call]\<rparr>]
             else fresh
         | [] \<Rightarrow> fresh)"

text \<open>One item of the input, over the held parts and the messages so far.\<close>

definition input_message ::
  "(string option \<Rightarrow> string) \<Rightarrow> (string \<Rightarrow> string) \<Rightarrow> json_map \<Rightarrow> content_part list \<times> message list \<Rightarrow>
     model_error + content_part list \<times> message list" where
  "input_message dbg dbgs obj st =
     (let (held, out) = st
      in case get_str (JObject obj) ''role'' of
           None \<Rightarrow> Inl (Mapping ''`input` message item is missing `role`'')
         | Some r \<Rightarrow>
             res_bind (parse_input_role r) (\<lambda>role.
             res_bind (parse_input_content dbg dbgs (hm_get obj ''content'')) (\<lambda>content.
             let m = \<lparr>me_role = role, me_content = content, me_tool_calls = [], me_tool_call_id = None,
                   me_name = None\<rparr>
             in Inr (if role = Assistant then ([], out @ [prepend_pending m held]) else (held, out @ [m])))))"

definition flush_held :: "content_part list \<Rightarrow> message list" where
  "flush_held held = (if held = [] then [] else [assistant_message held []])"

definition input_compaction :: "json_map \<Rightarrow> model_error + content_part" where
  "input_compaction obj =
     (let encrypted = get_str (JObject obj) ''encrypted_content'';
          content = get_str (JObject obj) ''content''
      in if encrypted = None \<and> content = None
         then Inl (Mapping ''`compaction` input item requires `encrypted_content` or `content`'')
         else Inr (CompactionPart None (get_str (JObject obj) ''id'') content encrypted
                (get_str (JObject obj) ''signature'')))"

definition input_item ::
  "(string option \<Rightarrow> string) \<Rightarrow> (string \<Rightarrow> string) \<Rightarrow> json \<Rightarrow> content_part list \<times> message list \<Rightarrow>
     model_error + content_part list \<times> message list" where
  "input_item dbg dbgs item st =
     (let (held, out) = st
      in case item of
        JObject obj \<Rightarrow>
          (case get_str item ''type'' of
             None \<Rightarrow> input_message dbg dbgs obj st
           | Some ty \<Rightarrow>
               if ty = ''message'' then input_message dbg dbgs obj st
               else if ty = ''function_call'' then
                 Inr ([], add_call \<lparr>tc_id = str_field obj ''call_id'', tc_name = str_field obj ''name'',
                     tc_arguments = str_field obj ''arguments''\<rparr> held out)
               else if ty = ''function_call_output'' then
                 Inr (held, out @ [\<lparr>me_role = Tool, me_content = [Text (function_output_text (hm_get obj ''output''))],
                     me_tool_calls = [], me_tool_call_id = Some (str_field obj ''call_id''), me_name = None\<rparr>])
               else if ty = ''reasoning'' then Inr (collect_reasoning obj held, out)
               else if ty = ''compaction'' then
                 res_bind (input_compaction obj) (\<lambda>p.
                   Inr ([], out @ flush_held held @ [assistant_message [p] []]))
               else if ty = ''item_reference'' then
                 Inl (Mapping (''`item_reference` input items cannot be resolved: llmleaf is stateless and stores '' @
                   ''no prior response items''))
               else Inl (Mapping (''unsupported `input` item type '' @ dbgs ty)))
      | _ \<Rightarrow> Inl (Mapping ''each `input` array item must be an object''))"

definition parse_response_input ::
  "(string option \<Rightarrow> string) \<Rightarrow> (string \<Rightarrow> string) \<Rightarrow> json option \<Rightarrow> message list \<Rightarrow> model_error + message list" where
  "parse_response_input dbg dbgs value out =
     (case value of
        None \<Rightarrow> Inr out
      | Some JNull \<Rightarrow> Inr out
      | Some (JString text) \<Rightarrow> Inr (out @ [message_text User text])
      | Some (JArray items) \<Rightarrow>
          res_bind (each_block (input_item dbg dbgs) items ([], out)) (\<lambda>(held, out).
            Inr (out @ flush_held held))
      | Some _ \<Rightarrow> Inl (Mapping ''`input` must be a string or an array of items''))"

definition flat_tool :: "(string \<Rightarrow> string) \<Rightarrow> json \<Rightarrow> model_error + tool_def" where
  "flat_tool dbgs t =
     (case t of
        JObject obj \<Rightarrow>
          (let named = (case get_str t ''name'' of
               None \<Rightarrow> Inl (Mapping ''function tool missing `name`'')
             | Some name \<Rightarrow>
                 Inr \<lparr>td_name = name, td_description = get_str t ''description'',
                   td_parameters = unwrap_or JNull (hm_get obj ''parameters'')\<rparr>)
           in case get_str t ''type'' of
                None \<Rightarrow> named
              | Some kind \<Rightarrow>
                  if kind = ''function'' then named
                  else Inl (Mapping (''unsupported tool type '' @ dbgs kind @ '': llmleaf cannot execute hosted tools'')))
      | _ \<Rightarrow> Inl (Mapping ''each tool must be an object''))"

definition parse_flat_tools :: "(string \<Rightarrow> string) \<Rightarrow> json option \<Rightarrow> model_error + tool_def list" where
  "parse_flat_tools dbgs value =
     (case value of Some (JArray items) \<Rightarrow> try_map (flat_tool dbgs) items | _ \<Rightarrow> Inr [])"

definition parse_flat_choice :: "(string \<Rightarrow> string) \<Rightarrow> json option \<Rightarrow> model_error + tool_choice option" where
  "parse_flat_choice dbgs value =
     (case value of
        Some (JString s) \<Rightarrow>
          Inr (if s = ''auto'' then Some ChooseAuto
               else if s = ''none'' then Some ChooseNone
               else if s = ''required'' then Some ChooseRequired
               else None)
      | Some (JObject obj) \<Rightarrow>
          (case get_str (JObject obj) ''type'' of
             None \<Rightarrow> Inr None
           | Some ty \<Rightarrow>
               if ty = ''function'' then Inr (map_option Named (get_str (JObject obj) ''name''))
               else Inl (Mapping (''unsupported tool_choice type '' @ dbgs ty @
                 '': hosted-tool choices are not executable by the gateway'')))
      | _ \<Rightarrow> Inr None)"

text \<open>A \<open>reasoning\<close> object that says more than an effort on the ladder goes back into the object.\<close>

definition take_reasoning :: "json_map \<Rightarrow> effort option \<times> json_map" where
  "take_reasoning obj =
     (let rest = hm_remove ''reasoning'' obj
      in case hm_get obj ''reasoning'' of
           None \<Rightarrow> (None, rest)
         | Some v \<Rightarrow>
             (let keep = (None, hm_insert ''reasoning'' v rest)
              in case v of
                   JObject r \<Rightarrow>
                     if length r = 1 \<and> hm_contains r ''effort''
                     then (case Option.bind (get_str v ''effort'') parse_reasoning_effort of
                             Some t \<Rightarrow> (Some t, rest)
                           | None \<Rightarrow> keep)
                     else keep
                 | _ \<Rightarrow> keep))"

definition previous_id_ok :: "json_map \<Rightarrow> bool" where
  "previous_id_ok obj =
     (case hm_get obj ''previous_response_id'' of
        None \<Rightarrow> True | Some v \<Rightarrow> v = JNull \<or> as_str v \<noteq> None)"

definition store_ok :: "json_map \<Rightarrow> bool" where
  "store_ok obj = (case hm_get obj ''store'' of None \<Rightarrow> True | Some v \<Rightarrow> as_bool v \<noteq> None)"

definition instruction_messages :: "json_map \<Rightarrow> message list" where
  "instruction_messages obj =
     (case get_str (JObject obj) ''instructions'' of
        Some t \<Rightarrow> if t = [] then [] else [message_text System t]
      | None \<Rightarrow> [])"

definition parse_responses_request ::
  "(string option \<Rightarrow> string) \<Rightarrow> (string \<Rightarrow> string) \<Rightarrow> json \<Rightarrow> model_error + chat_request" where
  "parse_responses_request dbg dbgs value =
     (case value of
        JObject obj \<Rightarrow>
          (case hm_get obj ''model'' of
             Some (JString model) \<Rightarrow>
               if \<not> previous_id_ok obj then Inl (Mapping ''`previous_response_id` must be a string or null'')
               else if Option.bind (hm_get obj ''background'') as_bool = Some True
               then Inl (Mapping (''`background: true` is not supported: llmleaf does not store responses for '' @
                 ''later retrieval''))
               else
               (let obj = hm_remove ''background'' (hm_remove ''model'' obj);
                    system = instruction_messages obj;
                    obj = hm_remove ''instructions'' obj
                in res_bind (parse_response_input dbg dbgs (hm_get obj ''input'') system) (\<lambda>messages.
                let obj = hm_remove ''input'' obj;
                    cap = hm_get obj ''max_output_tokens'';
                    obj = hm_remove ''max_output_tokens'' obj;
                    temperature = hm_get obj ''temperature'';
                    obj = hm_remove ''temperature'' obj;
                    top_p = hm_get obj ''top_p'';
                    obj = hm_remove ''top_p'' obj;
                    stream = unwrap_or False (Option.bind (hm_get obj ''stream'') as_bool);
                    obj = hm_remove ''stream'' obj
                in res_bind (parse_flat_tools dbgs (hm_get obj ''tools'')) (\<lambda>tools.
                let obj = hm_remove ''tools'' obj
                in res_bind (parse_flat_choice dbgs (hm_get obj ''tool_choice'')) (\<lambda>choice.
                let (thinking, obj) = take_reasoning (hm_remove ''tool_choice'' obj)
                in if \<not> store_ok obj then Inl (Mapping ''`store` must be a boolean'')
                   else Inr \<lparr>cq_model = model, cq_messages = messages,
                     cq_max_tokens = map_option ucast (Option.bind cap as_u64),
                     cq_temperature = map_option f32_round (Option.bind temperature as_f64),
                     cq_top_p = map_option f32_round (Option.bind top_p as_f64),
                     cq_stop = [], cq_stream = stream, cq_tools = tools, cq_tool_choice = choice,
                     cq_thinking = thinking, cq_extra = obj\<rparr>))))
           | _ \<Rightarrow> Inl (Mapping ''`model` is required and must be a string''))
      | _ \<Rightarrow> Inl (Mapping ''request body must be a JSON object''))"

section \<open>What a response echoes\<close>

fun thinking_to_effort :: "effort \<Rightarrow> string" where
  "thinking_to_effort Low = ''low''"
| "thinking_to_effort Med = ''medium''"
| "thinking_to_effort High = ''high''"
| "thinking_to_effort Highx = ''xhigh''"
| "thinking_to_effort Max = ''max''"

record request_echo =
  ro_temperature :: "real option"
  ro_top_p :: "real option"
  ro_max_output_tokens :: "u32 option"
  ro_tools :: "json list"
  ro_tool_choice :: "json option"
  ro_reasoning_effort :: "string option"
  ro_metadata :: "json option"
  ro_parallel_tool_calls :: "json option"
  ro_text :: "json option"
  ro_truncation :: "json option"
  ro_context_management :: "json option"
  ro_previous_response_id :: "string option"
  ro_store :: bool

definition tool_to_responses :: "tool_def \<Rightarrow> json" where
  "tool_to_responses t = JObject
     (field ''type'' (JString ''function'') @ field ''name'' (JString (td_name t)) @
      opt_field ''description'' JString (td_description t) @ field ''parameters'' (td_parameters t))"

fun tool_choice_to_responses :: "tool_choice \<Rightarrow> json" where
  "tool_choice_to_responses ChooseAuto = JString ''auto''"
| "tool_choice_to_responses ChooseNone = JString ''none''"
| "tool_choice_to_responses ChooseRequired = JString ''required''"
| "tool_choice_to_responses (Named n) = JObject
     (field ''type'' (JString ''function'') @ field ''name'' (JString n))"

definition echo_from_request :: "chat_request \<Rightarrow> request_echo" where
  "echo_from_request req =
     (let extra = cq_extra req
      in \<lparr>ro_temperature = cq_temperature req, ro_top_p = cq_top_p req, ro_max_output_tokens = cq_max_tokens req,
          ro_tools = map tool_to_responses (cq_tools req),
          ro_tool_choice = map_option tool_choice_to_responses (cq_tool_choice req),
          ro_reasoning_effort = (case cq_thinking req of
              Some t \<Rightarrow> Some (thinking_to_effort t)
            | None \<Rightarrow> Option.bind (hm_get extra ''reasoning'') (\<lambda>r. get_str r ''effort'')),
          ro_metadata = hm_get extra ''metadata'', ro_parallel_tool_calls = hm_get extra ''parallel_tool_calls'',
          ro_text = hm_get extra ''text'', ro_truncation = hm_get extra ''truncation'',
          ro_context_management = hm_get extra ''context_management'',
          ro_previous_response_id = Option.bind (hm_get extra ''previous_response_id'') as_str,
          ro_store = unwrap_or False (Option.bind (hm_get extra ''store'') as_bool)\<rparr>)"

section \<open>Whole responses\<close>

fun status_for :: "finish_reason option \<Rightarrow> string \<times> string option" where
  "status_for (Some Length) = (''incomplete'', Some ''max_output_tokens'')"
| "status_for (Some ContentFilter) = (''incomplete'', Some ''content_filter'')"
| "status_for (Some FinishError) = (''failed'', None)"
| "status_for _ = (''completed'', None)"

definition usage_json :: "usage \<Rightarrow> json" where
  "usage_json u = JObject
     (field ''input_tokens'' (json_u64 (ug_prompt u)) @
      field ''input_tokens_details'' (JObject (field ''cached_tokens'' (json_u64 (ug_cache_read u)))) @
      field ''output_tokens'' (json_u64 (ug_completion u)) @
      field ''output_tokens_details'' (JObject (field ''reasoning_tokens'' (json_u64 0))) @
      field ''total_tokens'' (json_u64 (ug_total u)) @ opt_field ''cost_usd'' json_f64 (ug_cost_usd u))"

definition item_id :: "string \<Rightarrow> string \<Rightarrow> nat \<Rightarrow> string" where
  "item_id kind rid n = kind @ ''_'' @ rid @ ''_'' @ decimal n"

definition output_text_part :: "string \<Rightarrow> json" where
  "output_text_part t = typed ''output_text'' (field ''text'' (JString t) @ field ''annotations'' (JArray []))"

definition reasoning_item :: "string \<Rightarrow> string list \<Rightarrow> string option \<Rightarrow> json" where
  "reasoning_item iid texts signature = typed ''reasoning''
     (field ''id'' (JString iid) @ field ''summary'' (JArray []) @
      field ''content'' (JArray (map (\<lambda>t. typed ''reasoning_text'' (field ''text'' (JString t))) texts)) @
      opt_field ''signature'' JString signature)"

definition redacted_reasoning :: "string \<Rightarrow> string \<Rightarrow> json" where
  "redacted_reasoning data iid = typed ''reasoning''
     (field ''id'' (JString iid) @ field ''summary'' (JArray []) @ field ''encrypted_content'' (JString data))"

definition message_item :: "string \<Rightarrow> string \<Rightarrow> json" where
  "message_item iid t = typed ''message''
     (field ''id'' (JString iid) @ field ''status'' (JString ''completed'') @
      field ''role'' (JString ''assistant'') @ field ''content'' (JArray [output_text_part t]))"

definition function_item :: "string \<Rightarrow> tool_call \<Rightarrow> json" where
  "function_item iid c = typed ''function_call''
     (field ''id'' (JString iid) @ field ''call_id'' (JString (tc_id c)) @ field ''name'' (JString (tc_name c)) @
      field ''arguments'' (JString (tc_arguments c)) @ field ''status'' (JString ''completed''))"

definition compacted_item :: "string option \<Rightarrow> string option \<Rightarrow> string option \<Rightarrow> string \<Rightarrow> json" where
  "compacted_item encrypted content signature iid = typed ''compaction''
     (field ''id'' (JString iid) @ opt_field ''encrypted_content'' JString encrypted @
      opt_field ''content'' JString content @ opt_field ''signature'' JString signature)"

definition flush_reasoning :: "string \<Rightarrow> string list \<Rightarrow> string option \<Rightarrow> json list \<Rightarrow> json list" where
  "flush_reasoning rid texts signature items =
     (if texts = [] then items
      else items @ [reasoning_item (item_id ''rs'' rid (length items)) texts signature])"

text \<open>One thinking part, over the items and the run of open texts before it.\<close>

fun place_thinking :: "string \<Rightarrow> content_part \<Rightarrow> json list \<times> string list \<Rightarrow> json list \<times> string list" where
  "place_thinking rid (ThinkingPart t None) (items, texts) = (items, texts @ [t])"
| "place_thinking rid (ThinkingPart t (Some signature)) (items, texts) =
     (flush_reasoning rid (texts @ [t]) (Some signature) items, [])"
| "place_thinking rid (RedactedThinkingPart data) (items, texts) =
     (let items = flush_reasoning rid texts None items
      in (items @ [redacted_reasoning data (item_id ''rs'' rid (length items))], []))"
| "place_thinking rid _ (items, texts) = (items, texts)"

definition item_type :: "json \<Rightarrow> string option" where
  "item_type item = get_str item ''type''"

text \<open>A compaction goes back to its output index, or behind the reasoning the response opens with.\<close>

fun place_compaction :: "string \<Rightarrow> content_part \<Rightarrow> json list \<Rightarrow> json list" where
  "place_compaction rid (CompactionPart oi cid content encrypted signature) items =
     (let idx = min (case oi of
            Some i \<Rightarrow> unat i
          | None \<Rightarrow> length (takeWhile (\<lambda>item. item_type item = Some ''reasoning'') items)) (length items)
      in take idx items @
         [compacted_item encrypted content signature (unwrap_or (item_id ''cmp'' rid idx) cid)] @
         drop idx items)"
| "place_compaction rid _ items = items"

definition id_prefix :: "json \<Rightarrow> string option" where
  "id_prefix item =
     (if item_type item = Some ''reasoning'' then Some ''rs''
      else if item_type item = Some ''message'' then Some ''msg''
      else if item_type item = Some ''function_call'' then Some ''fc''
      else None)"

fun with_id :: "string \<Rightarrow> json \<Rightarrow> json" where
  "with_id iid (JObject m) = JObject (hm_insert ''id'' (JString iid) m)"
| "with_id iid v = v"

definition renumbered :: "string \<Rightarrow> json list \<Rightarrow> json list" where
  "renumbered rid items =
     map (\<lambda>(n, item). case id_prefix item of None \<Rightarrow> item | Some kind \<Rightarrow> with_id (item_id kind rid n) item)
       (List.enumerate 0 items)"

definition output_items :: "string \<Rightarrow> choice \<Rightarrow> json list" where
  "output_items rid c =
     (let (items, texts) = fold (place_thinking rid) (ch_thinking c) ([], []);
          items = flush_reasoning rid texts None items;
          items = (if ch_text c = [] then items
            else items @ [message_item (item_id ''msg'' rid (length items)) (ch_text c)]);
          items = fold (\<lambda>call items. items @ [function_item (item_id ''fc'' rid (length items)) call])
            (ch_tool_calls c) items
      in renumbered rid (fold (place_compaction rid) (ch_compaction c) items))"

fun is_thinking :: "content_part \<Rightarrow> bool" where
  "is_thinking (ThinkingPart t signature) = True"
| "is_thinking (RedactedThinkingPart data) = True"
| "is_thinking _ = False"

definition message_choice :: "message \<Rightarrow> choice" where
  "message_choice m =
     \<lparr>ch_output = [], ch_index = 0, ch_text = text_content m,
      ch_thinking = filter is_thinking (me_content m), ch_compaction = filter is_compaction (me_content m),
      ch_tool_calls = me_tool_calls m, ch_finish_reason = None\<rparr>"

definition ordered_output_items :: "string \<Rightarrow> message list \<Rightarrow> json list" where
  "ordered_output_items rid output =
     renumbered rid (concat (map (\<lambda>m. output_items rid (message_choice m)) output))"

definition response_id :: "string \<Rightarrow> string" where
  "response_id i = (if strip_prefix ''resp_'' i \<noteq> None then i else ''resp_'' @ i)"

definition build_response ::
  "string \<Rightarrow> string \<Rightarrow> json list \<Rightarrow> usage option \<Rightarrow> string \<Rightarrow> string option \<Rightarrow> request_echo \<Rightarrow> u64 \<Rightarrow> json" where
  "build_response rid model output usage status reason echo created = JObject
     (field ''id'' (JString (response_id rid)) @ field ''object'' (JString ''response'') @
      field ''created_at'' (json_u64 created) @ field ''status'' (JString status) @
      field ''background'' (JBool False) @ field ''error'' JNull @
      field ''incomplete_details'' (json_opt (\<lambda>r. JObject (field ''reason'' (JString r))) reason) @
      field ''instructions'' JNull @
      field ''max_output_tokens'' (json_opt json_u32 (ro_max_output_tokens echo)) @
      field ''model'' (JString model) @ field ''output'' (JArray output) @
      field ''parallel_tool_calls'' (unwrap_or (JBool True) (ro_parallel_tool_calls echo)) @
      field ''previous_response_id'' (json_opt JString (ro_previous_response_id echo)) @
      field ''reasoning'' (JObject
        (field ''effort'' (json_opt JString (ro_reasoning_effort echo)) @ field ''summary'' JNull)) @
      field ''store'' (JBool (ro_store echo)) @ field ''temperature'' (json_opt json_f64 (ro_temperature echo)) @
      field ''text'' (unwrap_or (JObject (field ''format'' (JObject (field ''type'' (JString ''text'')))))
        (ro_text echo)) @
      field ''tool_choice'' (unwrap_or (JString ''auto'') (ro_tool_choice echo)) @
      field ''tools'' (JArray (ro_tools echo)) @ field ''top_p'' (json_opt json_f64 (ro_top_p echo)) @
      field ''truncation'' (unwrap_or (JString ''disabled'') (ro_truncation echo)) @
      field ''context_management'' (json_opt (\<lambda>v. v) (ro_context_management echo)) @
      field ''usage'' (json_opt usage_json usage) @
      field ''metadata'' (unwrap_or (JObject []) (ro_metadata echo)))"

text \<open>Only the first choice is representable.\<close>

definition response_to_responses :: "chat_response \<Rightarrow> request_echo \<Rightarrow> u64 \<Rightarrow> json" where
  "response_to_responses resp echo created =
     (let first = (case rp_choices resp of [] \<Rightarrow> None | c # _ \<Rightarrow> Some c);
          output = (case first of
              None \<Rightarrow> []
            | Some c \<Rightarrow>
                if ch_output c = [] then output_items (rp_id resp) c
                else ordered_output_items (rp_id resp) (ch_output c));
          (status, reason) = status_for (Option.bind first ch_finish_reason)
      in build_response (rp_id resp) (rp_model resp) output (Some (rp_usage resp)) status reason echo created)"

section \<open>Events\<close>

datatype open_item =
    OpenReasoning u32 string string "string option"
  | OpenMessage u32 string string
  | OpenCall u32 string u32

record response_encoder =
  re_id :: string
  re_model :: string
  re_created :: u64
  re_echo :: request_echo
  re_seq :: u64
  re_started :: bool
  re_output_index :: u32
  re_open :: "open_item option"
  re_text :: string
  re_think_text :: string
  re_think_sig :: "string option"
  re_redacted :: "string list"
  re_compaction :: "content_part list"
  re_ordered :: "message list"
  re_tools :: "(u32, tool_call) btree"
  re_usage :: usage
  re_finish :: "finish_reason option"

definition response_encoder_new :: "string \<Rightarrow> string \<Rightarrow> u64 \<Rightarrow> request_echo \<Rightarrow> response_encoder" where
  "response_encoder_new rid model created echo =
     \<lparr>re_id = rid, re_model = model, re_created = created, re_echo = echo, re_seq = 0, re_started = False,
      re_output_index = 0, re_open = None, re_text = [], re_think_text = [], re_think_sig = None,
      re_redacted = [], re_compaction = [], re_ordered = [], re_tools = [], re_usage = usage_default,
      re_finish = None\<rparr>"

text \<open>The operations answer the frames they push and the encoder they leave; \<open>and_then\<close> runs two of them.\<close>

type_synonym pushes = "response_encoder \<Rightarrow> frame list \<times> response_encoder"

definition and_then :: "pushes \<Rightarrow> pushes \<Rightarrow> pushes" where
  "and_then f g e = (case f e of (fs, e) \<Rightarrow> case g e of (gs, e) \<Rightarrow> (fs @ gs, e))"

text \<open>\<open>next_seq\<close> and \<open>push\<close>: every event carries its number; the counter wraps.\<close>

definition push_event :: "string \<Rightarrow> json_map \<Rightarrow> pushes" where
  "push_event kind members e =
     ([event_frame kind (members @ field ''sequence_number'' (json_u64 (re_seq e)))], e\<lparr>re_seq := re_seq e + 1\<rparr>)"

definition in_progress_snapshot :: "response_encoder \<Rightarrow> json" where
  "in_progress_snapshot e =
     build_response (re_id e) (re_model e) [] None ''in_progress'' None (re_echo e) (re_created e)"

definition push_snapshot :: "string \<Rightarrow> pushes" where
  "push_snapshot kind e = push_event kind (field ''response'' (in_progress_snapshot e)) e"

definition response_started :: pushes where
  "response_started e =
     (if re_started e then ([], e)
      else and_then (push_snapshot ''response.created'') (push_snapshot ''response.in_progress'')
        (e\<lparr>re_started := True\<rparr>))"

definition item_added :: "u32 \<Rightarrow> json \<Rightarrow> pushes" where
  "item_added i item =
     push_event ''response.output_item.added'' (field ''output_index'' (json_u32 i) @ field ''item'' item)"

definition item_done :: "u32 \<Rightarrow> json \<Rightarrow> pushes" where
  "item_done i item =
     push_event ''response.output_item.done'' (field ''output_index'' (json_u32 i) @ field ''item'' item)"

definition item_event :: "string \<Rightarrow> string \<Rightarrow> u32 \<Rightarrow> json_map \<Rightarrow> pushes" where
  "item_event kind iid i members =
     push_event kind (field ''item_id'' (JString iid) @ field ''output_index'' (json_u32 i) @ members)"

definition content_event :: "string \<Rightarrow> string \<Rightarrow> u32 \<Rightarrow> json_map \<Rightarrow> pushes" where
  "content_event kind iid i members =
     item_event kind iid i (field ''content_index'' (json_u64 0) @ members)"

fun close_item :: "open_item \<Rightarrow> pushes" where
  "close_item (OpenReasoning i iid t signature) =
     and_then (content_event ''response.reasoning_text.done'' iid i (field ''text'' (JString t)))
       (item_done i (reasoning_item iid [t] signature))"
| "close_item (OpenMessage i iid t) =
     and_then (content_event ''response.output_text.done'' iid i (field ''text'' (JString t)))
       (and_then (content_event ''response.content_part.done'' iid i (field ''part'' (output_text_part t)))
         (item_done i (message_item iid t)))"
| "close_item (OpenCall i iid canon) =
     (\<lambda>e. let call = unwrap_or partial_default (bt_get (re_tools e) canon)
          in and_then (item_event ''response.function_call_arguments.done'' iid i
                 (field ''arguments'' (JString (tc_arguments call))))
               (item_done i (function_item iid call)) e)"

definition close_current :: pushes where
  "close_current e =
     (case re_open e of None \<Rightarrow> ([], e) | Some item \<Rightarrow> close_item item (e\<lparr>re_open := None\<rparr>))"

text \<open>Closing what is open and adding an item under the next index, named after it unless it has a name.\<close>

definition begin_item ::
  "string option \<Rightarrow> string \<Rightarrow> (string \<Rightarrow> json) \<Rightarrow> response_encoder \<Rightarrow>
     frame list \<times> string \<times> u32 \<times> response_encoder" where
  "begin_item given kind item e =
     (let (closed, e) = close_current e;
          i = re_output_index e;
          iid = unwrap_or (item_id kind (re_id e) (unat i)) given;
          (added, e) = item_added i (item iid) (e\<lparr>re_output_index := i + 1\<rparr>)
      in (closed @ added, iid, i, e))"

definition reasoning_stub :: "string \<Rightarrow> json" where
  "reasoning_stub iid = typed ''reasoning''
     (field ''id'' (JString iid) @ field ''summary'' (JArray []) @ field ''content'' (JArray []))"

definition message_stub :: "string \<Rightarrow> json" where
  "message_stub iid = typed ''message''
     (field ''id'' (JString iid) @ field ''status'' (JString ''in_progress'') @
      field ''role'' (JString ''assistant'') @ field ''content'' (JArray []))"

definition call_stub :: "tool_call_delta \<Rightarrow> string \<Rightarrow> json" where
  "call_stub call iid = typed ''function_call''
     (field ''id'' (JString iid) @ field ''call_id'' (JString (unwrap_or [] (tl_id call))) @
      field ''name'' (JString (unwrap_or [] (tl_name call))) @ field ''arguments'' (JString []) @
      field ''status'' (JString ''in_progress''))"

definition open_reasoning :: "response_encoder \<Rightarrow> frame list \<times> string \<times> u32 \<times> response_encoder" where
  "open_reasoning e =
     (case re_open e of
        Some (OpenReasoning i iid t signature) \<Rightarrow> ([], iid, i, e)
      | _ \<Rightarrow>
          (let (frames, iid, i, e) = begin_item None ''rs'' reasoning_stub e
           in (frames, iid, i, e\<lparr>re_open := Some (OpenReasoning i iid [] None)\<rparr>)))"

definition open_message :: "response_encoder \<Rightarrow> frame list \<times> string \<times> u32 \<times> response_encoder" where
  "open_message e =
     (case re_open e of
        Some (OpenMessage i iid t) \<Rightarrow> ([], iid, i, e)
      | _ \<Rightarrow>
          (let (frames, iid, i, e) = begin_item None ''msg'' message_stub e;
               (part, e) = content_event ''response.content_part.added'' iid i (field ''part'' (output_text_part [])) e
           in (frames @ part, iid, i, e\<lparr>re_open := Some (OpenMessage i iid [])\<rparr>)))"

definition open_call :: "tool_call_delta \<Rightarrow> response_encoder \<Rightarrow> frame list \<times> string \<times> u32 \<times> response_encoder" where
  "open_call call e =
     (let fresh = (let (frames, iid, i, e) = begin_item None ''fc'' (call_stub call) e
            in (frames, iid, i, e\<lparr>re_open := Some (OpenCall i iid (tl_index call))\<rparr>))
      in case re_open e of
           Some (OpenCall i iid canon) \<Rightarrow> if canon = tl_index call then ([], iid, i, e) else fresh
         | _ \<Rightarrow> fresh)"

fun grown :: "string \<Rightarrow> open_item \<Rightarrow> open_item" where
  "grown d (OpenReasoning i iid t signature) = OpenReasoning i iid (t @ d) signature"
| "grown d (OpenMessage i iid t) = OpenMessage i iid (t @ d)"
| "grown d (OpenCall i iid canon) = OpenCall i iid canon"

fun signed :: "string \<Rightarrow> open_item \<Rightarrow> open_item" where
  "signed s (OpenReasoning i iid t signature) = OpenReasoning i iid t (Some s)"
| "signed s item = item"

definition grow :: "string \<Rightarrow> response_encoder \<Rightarrow> response_encoder" where
  "grow d e = e\<lparr>re_open := map_option (grown d) (re_open e)\<rparr>"

definition some_text :: "string \<Rightarrow> string option" where
  "some_text d = (if d = [] then None else Some d)"

text \<open>A redacted block and a compaction arrive whole: added and done.\<close>

definition whole_item ::
  "string option \<Rightarrow> string \<Rightarrow> (string \<Rightarrow> json) \<Rightarrow> response_encoder \<Rightarrow> frame list \<times> u32 \<times> response_encoder" where
  "whole_item given kind item e =
     (let (added, iid, i, e) = begin_item given kind item e; (over, e) = item_done i (item iid) e
      in (added @ over, i, e))"

fun encode_response :: "stream_chunk \<Rightarrow> pushes" where
  "encode_response (Start rid model) e =
     response_started (if \<not> re_started e \<and> str_trim rid \<noteq> [] then e\<lparr>re_id := rid\<rparr> else e)"
| "encode_response (Thinking ci d) e =
     (if ci \<noteq> 0 then ([], e) else
      let (started, e) = response_started e;
          (opened, iid, i, e) = open_reasoning (e\<lparr>re_think_text := re_think_text e @ d\<rparr>);
          (fed, e) = content_event ''response.reasoning_text.delta'' iid i (field ''delta'' (JString d)) (grow d e)
      in (started @ opened @ fed, e))"
| "encode_response (ThinkingSignature ci s) e =
     (if ci \<noteq> 0 then ([], e)
      else ([], e\<lparr>re_think_sig := Some s, re_open := map_option (signed s) (re_open e)\<rparr>))"
| "encode_response (RedactedThinking ci data) e =
     (if ci \<noteq> 0 then ([], e) else
      let (started, e) = response_started e;
          (whole, i, e) = whole_item None ''rs'' (redacted_reasoning data) (e\<lparr>re_redacted := re_redacted e @ [data]\<rparr>)
      in (started @ whole, e))"
| "encode_response (Compaction oi ci d cid encrypted s) e =
     (if ci \<noteq> 0 then ([], e) else
      let (started, e) = response_started e;
          (whole, i, e) = whole_item cid ''cmp'' (compacted_item encrypted (some_text d) s) e;
          part = CompactionPart (Some (unwrap_or i oi)) cid (some_text d) encrypted s
      in (started @ whole, e\<lparr>re_compaction := re_compaction e @ [part]\<rparr>))"
| "encode_response (OutputItem ci m) e =
     ([], if ci = 0 then e\<lparr>re_ordered := re_ordered e @ [m]\<rparr> else e)"
| "encode_response (Content ci d) e =
     (if ci \<noteq> 0 then ([], e) else
      let (started, e) = response_started e;
          (opened, iid, i, e) = open_message (e\<lparr>re_text := re_text e @ d\<rparr>);
          (fed, e) = content_event ''response.output_text.delta'' iid i (field ''delta'' (JString d)) (grow d e)
      in (started @ opened @ fed, e))"
| "encode_response (ToolCall ci call) e =
     (if ci \<noteq> 0 then ([], e) else
      let (started, e) = response_started e;
          tools = bt_entry (tl_index call) partial_default (merge_call call) (re_tools e);
          (opened, iid, i, e) = open_call call (e\<lparr>re_tools := tools\<rparr>);
          (fed, e) = (case tl_arguments call of
              None \<Rightarrow> ([], e)
            | Some args \<Rightarrow>
                if args = [] then ([], e)
                else item_event ''response.function_call_arguments.delta'' iid i (field ''delta'' (JString args)) e)
      in (started @ opened @ fed, e))"
| "encode_response (UsageReport u) e = ([], e\<lparr>re_usage := u\<rparr>)"
| "encode_response (Finish ci reason) e =
     (if ci \<noteq> 0 then ([], e)
      else let (closed, e) = close_current e in (closed, e\<lparr>re_finish := Some reason\<rparr>))"

definition accumulated_choice :: "response_encoder \<Rightarrow> choice" where
  "accumulated_choice e =
     \<lparr>ch_output = re_ordered e, ch_index = 0, ch_text = re_text e,
      ch_thinking =
        (if re_think_text e \<noteq> [] \<or> re_think_sig e \<noteq> None
         then [ThinkingPart (re_think_text e) (re_think_sig e)] else []) @
        map RedactedThinkingPart (re_redacted e),
      ch_compaction = re_compaction e, ch_tool_calls = map snd (re_tools e), ch_finish_reason = re_finish e\<rparr>"

definition terminal_event :: "json \<Rightarrow> string" where
  "terminal_event snapshot =
     (if get_str snapshot ''status'' = Some ''incomplete'' then ''response.incomplete''
      else if get_str snapshot ''status'' = Some ''failed'' then ''response.failed''
      else ''response.completed'')"

definition final_snapshot :: "response_encoder \<Rightarrow> json" where
  "final_snapshot e = response_to_responses
     \<lparr>rp_id = re_id e, rp_model = re_model e, rp_choices = [accumulated_choice e], rp_usage = re_usage e\<rparr>
     (re_echo e) (re_created e)"

definition response_finished :: pushes where
  "response_finished =
     and_then response_started (and_then close_current
       (\<lambda>e. push_event (terminal_event (final_snapshot e)) (field ''response'' (final_snapshot e)) e))"

definition response_error_frame :: "string \<Rightarrow> response_encoder \<Rightarrow> frame" where
  "response_error_frame message e =
     event_frame ''error''
       (field ''code'' JNull @ field ''message'' (JString message) @ field ''param'' JNull @
        field ''sequence_number'' (json_u64 (re_seq e)))"

text \<open>The body of \<open>responses_sse_from_response\<close>.\<close>

fun responses_frames :: "response_encoder \<Rightarrow> (model_error + stream_chunk) list \<Rightarrow> frame list" where
  "responses_frames e [] = fst (response_finished e)"
| "responses_frames e (Inl err # items) = [response_error_frame (model_error_text err) e]"
| "responses_frames e (Inr chunk # items) =
     (let (frames, e) = encode_response chunk e in frames @ responses_frames e items)"

end
