(* ===== verification/Bodies.thy ===== *)
theory Bodies
  imports Relay OpenAI Anthropic Responses Surfaces
begin

text \<open>
  The response bodies of \<open>server.rs\<close> that are read while the upstream still produces: the generators of
  \<open>sse_from_response\<close>, \<open>anthropic_sse_from_response\<close>, \<open>responses_sse_from_response\<close>, \<open>audio_speech\<close> and
  \<open>batch_results\<close>, and
  \<open>llmleaf_model::collect\<close> over a relayed stream. The four generators over a relay are one definition, over what a
  dialect makes of a chunk, of the end and of an error. A reader may poll as often as it likes and then drop
  the body.
\<close>

section \<open>Generators\<close>

record ('a, 'e, 'f) dialect =
  dl_see :: "'a \<Rightarrow> 'a seen"
  dl_encode :: "'a \<Rightarrow> 'e \<Rightarrow> 'f list \<times> 'e"
  dl_finish :: "'e \<Rightarrow> 'f list"
  dl_failed :: "'e \<Rightarrow> model_error \<Rightarrow> 'f list"

text \<open>A suspended generator: its stream and encoder, the frames of the current step still to be yielded,
  and whether its loop goes on.\<close>

record ('p, 'a, 'e, 'f) body =
  bd_relay :: "('p, 'a) relay"
  bd_encoder :: 'e
  bd_queue :: "'f list"
  bd_more :: bool

definition body_of :: "('p, 'a) relay \<Rightarrow> 'e \<Rightarrow> 'f list \<Rightarrow> ('p, 'a, 'e, 'f) body" where
  "body_of st e queued = \<lparr>bd_relay = st, bd_encoder = e, bd_queue = queued, bd_more = True\<rparr>"

lemma relay_next_consumes:
  "relay_next en see st w = (w', Ret (st', Some (Inr c))) \<Longrightarrow> length (ry_inner st') < length (ry_inner st)"
  by (auto simp: relay_next_def relay_chunk_def Let_def split: phase.splits list.splits prod.splits sum.splits
      seen.splits attempt.splits)

text \<open>One poll: a frame, or the end. At its end a generator drops the stream it holds.\<close>

function body_next ::
  "'p engine \<Rightarrow> ('a, 'e, 'f) dialect \<Rightarrow> ('p, 'a, 'e, 'f) body \<Rightarrow> 'p node \<Rightarrow>
     'p node \<times> (('p, 'a, 'e, 'f) body \<times> 'f option) run" where
  "body_next en dl b w =
     (case bd_queue b of
        f # fs \<Rightarrow> (w, Ret (b\<lparr>bd_queue := fs\<rparr>, Some f))
      | [] \<Rightarrow>
          if \<not> bd_more b
          then (relay_drop (bd_relay b) w, Ret (b\<lparr>bd_relay := (bd_relay b)\<lparr>ry_phase := Ended\<rparr>\<rparr>, None))
          else case relay_next en (dl_see dl) (bd_relay b) w of
            (w, Panic) \<Rightarrow> (w, Panic)
          | (w, Ret (st, None)) \<Rightarrow>
              body_next en dl
                (b\<lparr>bd_relay := st, bd_queue := dl_finish dl (bd_encoder b), bd_more := False\<rparr>) w
          | (w, Ret (st, Some (Inl e))) \<Rightarrow>
              body_next en dl
                (b\<lparr>bd_relay := st, bd_queue := dl_failed dl (bd_encoder b) e, bd_more := False\<rparr>) w
          | (w, Ret (st, Some (Inr chunk))) \<Rightarrow>
              (case dl_encode dl chunk (bd_encoder b) of (frames, enc) \<Rightarrow>
                 body_next en dl (b\<lparr>bd_relay := st, bd_encoder := enc, bd_queue := frames\<rparr>) w))"
  by pat_completeness auto
termination
  by (relation "measure (\<lambda>(en, dl, b, w). if bd_more b then Suc (length (ry_inner (bd_relay b))) else 0)")
    (auto dest!: relay_next_consumes [OF sym])

declare body_next.simps [simp del]

definition body_drop :: "('p, 'a, 'e, 'f) body \<Rightarrow> 'p node \<Rightarrow> 'p node" where
  "body_drop b w = relay_drop (bd_relay b) w"

text \<open>\<open>sse_from_response\<close>: a chunk becomes at most one event; \<open>[DONE]\<close> follows the end and an error alike.\<close>

definition chat_dialect :: "(stream_chunk, chunk_encoder, sse_data) dialect" where
  "chat_dialect =
     \<lparr>dl_see = see_chunk,
      dl_encode = (\<lambda>chunk enc. (case encode_into enc chunk of None \<Rightarrow> [] | Some d \<Rightarrow> [DataJson d], enc)),
      dl_finish = (\<lambda>_. [DataDone]),
      dl_failed = (\<lambda>_ e.
        [DataJson (JObject [(''error'', JObject [(''message'', JString (model_error_text e))])]), DataDone])\<rparr>"

text \<open>\<open>anthropic_sse_from_response\<close>.\<close>

definition messages_dialect :: "(stream_chunk, event_encoder, frame) dialect" where
  "messages_dialect =
     \<lparr>dl_see = see_chunk, dl_encode = encode_event, dl_finish = encoder_finish,
      dl_failed = (\<lambda>_ e. [Frame ''error'' (error_data (model_error_text e))])\<rparr>"

text \<open>\<open>responses_sse_from_response\<close>.\<close>

definition responses_dialect :: "(stream_chunk, response_encoder, frame) dialect" where
  "responses_dialect =
     \<lparr>dl_see = see_chunk, dl_encode = encode_response, dl_finish = (\<lambda>e. fst (response_finished e)),
      dl_failed = (\<lambda>enc e. [response_error_frame (model_error_text e) enc])\<rparr>"

text \<open>The body of \<open>audio_speech\<close>: bytes only, and nothing of an error.\<close>

fun audio_payload :: "audio_chunk \<Rightarrow> string list" where
  "audio_payload (AudioData b) = [b]"
| "audio_payload _ = []"

definition audio_dialect :: "(audio_chunk, unit, string) dialect" where
  "audio_dialect =
     \<lparr>dl_see = see_audio, dl_encode = (\<lambda>chunk e. (audio_payload chunk, e)), dl_finish = (\<lambda>_. []),
      dl_failed = (\<lambda>_ _. [])\<rparr>"

section \<open>Collecting\<close>

text \<open>\<open>collect\<close> polls to the end, or to the first error, and then drops the stream.\<close>

function drain_relay ::
  "'p engine \<Rightarrow> ('p, stream_chunk) relay \<Rightarrow> 'p node \<Rightarrow> 'p node \<times> (model_error + stream_chunk) list run" where
  "drain_relay en st w =
     (case relay_next en see_chunk st w of
        (w, Panic) \<Rightarrow> (w, Panic)
      | (w, Ret (st, None)) \<Rightarrow> (relay_drop st w, Ret [])
      | (w, Ret (st, Some (Inl e))) \<Rightarrow> (relay_drop st w, Ret [Inl e])
      | (w, Ret (st, Some (Inr chunk))) \<Rightarrow>
          (case drain_relay en st w of
             (w, Panic) \<Rightarrow> (w, Panic)
           | (w, Ret items) \<Rightarrow> (w, Ret (Inr chunk # items))))"
  by pat_completeness auto
termination
  by (relation "measure (\<lambda>(en, st, w). length (ry_inner st))") (auto dest!: relay_next_consumes [OF sym])

declare drain_relay.simps [simp del]

section \<open>Result lines\<close>

text \<open>The body of \<open>batch_results\<close>: a line per result; an error is a last line.\<close>

fun lines_next ::
  "(json \<Rightarrow> string) \<Rightarrow> ('p node, batch_result) polls \<Rightarrow> 'p node \<Rightarrow>
     'p node \<times> ('p node, batch_result) polls \<times> string option" where
  "lines_next print [] w = (w, [], None)"
| "lines_next print (poll # rest) w =
     (case poll w of
        (w, Inr result) \<Rightarrow> (w, rest, Some (print (result_to_line result) @ [CHR 0x0A]))
      | (w, Inl e) \<Rightarrow>
          (w, [], Some (print (JObject [(''error'', JObject [(''message'', JString (model_error_text e))])]) @
             [CHR 0x0A])))"

section \<open>What a step of the relay leaves\<close>

text \<open>The permits of the limiter once the guard of the stream is given back, if it still holds one.\<close>

definition held :: "('p, 'a) relay \<Rightarrow> 'p node \<Rightarrow> limits_store" where
  "held st w = (if ry_phase st = Ended then nd_limits w else drop_guard (nd_limits w) (ry_guard st))"

lemma relay_drop_held [simp]: "nd_limits (relay_drop st w) = held st w"
  by (simp add: relay_drop_def held_def)

lemma own_relay_drop [simp]: "own rid (relay_drop st w) = own rid w"
  by (simp add: relay_drop_def)

text \<open>A relay whose next items are \<open>script\<close>, of the request, key and model of \<open>st\<close>.\<close>

definition relays :: "('p, 'a) relay \<Rightarrow> (('p node \<Rightarrow> 'p node) \<times> (model_error + 'a)) list \<Rightarrow> ('p, 'a) relay \<Rightarrow> bool" where
  "relays st script st1 \<longleftrightarrow>
     ry_inner st1 = scripted script \<and> ry_id st1 = ry_id st \<and> ry_key st1 = ry_key st \<and> ry_model st1 = ry_model st"

text \<open>Awaiting the next item: the item, repriced, and its events; or a panic that has dropped the guard.\<close>

lemma relay_next_item:
  assumes "ry_phase st = Streaming" "ry_inner st = scripted ((g, x) # rest)"
    and calm: "own (ry_id st) (g w) = own (ry_id st) w" "same_permits (nd_limits w) (nd_limits (g w))"
  obtains (panic) w1 where "relay_next en see st w = (w1, Panic)"
      "same_permits (held st w) (nd_limits w1)"
    | (item) w1 st1 where "relay_next en see st w = (w1, Ret (st1, Some (reprice see (en_pricing en) (ry_model st) x)))"
      "own (ry_id st) w1 = own (ry_id st) w @ item_events see (en_pricing en) (ry_id st) (ry_key st) (ry_model st) x"
      "same_permits (held st w) (held st1 w1)" "relays st rest st1"
      "ry_phase st1 = (if isl x then Failing else Streaming)" "ry_finish st1 = finish_of see (ry_finish st) [x]"
proof (cases x)
  case (Inl e)
  have "relay_next en see st w = (emit (RequestFailed (ry_id st) (model_error_text e)) (g w),
      Ret (st\<lparr>ry_inner := scripted rest, ry_phase := Failing\<rparr>, Some (reprice see (en_pricing en) (ry_model st) x)))"
    using relay_next_cases(2) [OF assms(1), of "\<lambda>w. (g w, x)" "scripted rest" w "g w" e] by (simp add: assms(2) Inl)
  then show thesis
    by (rule item) (use assms(1) calm same_permits_drop [OF calm(2)] in \<open>auto simp: Inl held_def relays_def\<close>)
next
  case (Inr c)
  let ?st = "st\<lparr>ry_inner := scripted rest\<rparr>"
  have step: "relay_next en see st w = relay_chunk en see ?st c (g w)"
    by (rule relay_next_cases(3) [OF assms(1)]) (simp_all add: assms(2) Inr)
  show thesis
  proof (cases "see c")
    case (SeenUsage u repack)
    let ?priced = "price (en_pricing en) (ry_model st) u"
    obtain limits r where d: "debit_tokens (nd_limits (g w)) (ry_rate st) (ry_provider st) (ry_upstream st)
        (ug_total ?priced) (nd_instant (g w)) = (limits, r)" by fastforce
    note same = same_permits_drop [OF same_permits_trans [OF calm(2) debit_same_permits [OF d]]]
    show thesis
    proof (cases "r = Panicked")
      case True
      then have "relay_next en see st w = (release_guard (ry_guard st) ((g w)\<lparr>nd_limits := limits\<rparr>), Panic)"
        by (simp add: step relay_chunk_def SeenUsage d)
      then show thesis
        by (rule panic) (use assms(1) same [of "ry_guard st"] in \<open>auto simp: held_def release_guard_def\<close>)
    next
      case False
      then have "relay_next en see st w = (emit (Usage (ry_id st) (ry_key st) (ry_model st) ?priced)
          ((g w)\<lparr>nd_limits := limits\<rparr>), Ret (?st, Some (reprice see (en_pricing en) (ry_model st) x)))"
        by (cases r) (simp_all add: step relay_chunk_def SeenUsage d Let_def Inr)
      then show thesis
        by (rule item) (use assms(1) same [of "ry_guard st"] calm in
            \<open>auto simp: SeenUsage Inr held_def relays_def\<close>)
    qed
  next
    case (SeenFinish reason)
    then have "relay_next en see st w = (g w, Ret (?st\<lparr>ry_finish := Some reason\<rparr>, Some (reprice see (en_pricing en) (ry_model st) x)))"
      by (simp add: step relay_chunk_def Inr)
    then show thesis
      by (rule item) (use assms(1) calm same_permits_drop [OF calm(2)] in
          \<open>auto simp: SeenFinish Inr held_def relays_def\<close>)
  next
    case SeenOther
    then have "relay_next en see st w = (g w, Ret (?st, Some (reprice see (en_pricing en) (ry_model st) x)))"
      by (simp add: step relay_chunk_def Inr)
    then show thesis
      by (rule item) (use assms(1) calm same_permits_drop [OF calm(2)] in
          \<open>auto simp: SeenOther Inr held_def relays_def\<close>)
  qed
qed

section \<open>What a body will yield\<close>

text \<open>The frames of a whole stream, and its events: what the generators compute, one poll at a time.\<close>

fun frames_of :: "('a, 'e, 'f) dialect \<Rightarrow> 'e \<Rightarrow> (model_error + 'a) list \<Rightarrow> 'f list" where
  "frames_of dl e [] = dl_finish dl e"
| "frames_of dl e (Inl err # items) = dl_failed dl e err"
| "frames_of dl e (Inr chunk # items) = (case dl_encode dl chunk e of (fs, e) \<Rightarrow> fs @ frames_of dl e items)"

lemma frames_of_chat: "frames_of chat_dialect enc items = sse_from_response enc items"
  by (induction enc items rule: sse_from_response.induct) (simp_all add: chat_dialect_def split: option.split)

lemma frames_of_messages: "frames_of messages_dialect enc items = anthropic_frames enc items"
  by (induction enc items rule: anthropic_frames.induct) (simp_all add: messages_dialect_def split: prod.splits)

lemma frames_of_responses: "frames_of responses_dialect enc items = responses_frames enc items"
  by (induction enc items rule: responses_frames.induct) (simp_all add: responses_dialect_def split: prod.split)

lemma frames_of_audio:
  "frames_of audio_dialect () items =
     concat (map (\<lambda>x. case x of Inr c \<Rightarrow> audio_payload c | Inl _ \<Rightarrow> []) (upto_error items))"
  by (induction items rule: upto_error.induct) (simp_all add: audio_dialect_def)

definition stream_events ::
  "('a \<Rightarrow> 'a seen) \<Rightarrow> pricing \<Rightarrow> ('p, 'a) relay \<Rightarrow> (model_error + 'a) list \<Rightarrow> event list" where
  "stream_events see pr st items =
     concat (map (item_events see pr (ry_id st) (ry_key st) (ry_model st)) (upto_error items)) @
     (if list_all (\<lambda>x. \<not> isl x) items then [RequestCompleted (ry_id st) (finish_of see (ry_finish st) items)] else [])"

text \<open>A body in one of its two states, with the provider's items still to come.\<close>

definition body_ok :: "(('p node \<Rightarrow> 'p node) \<times> (model_error + 'a)) list \<Rightarrow> ('p, 'a, 'e, 'f) body \<Rightarrow> bool" where
  "body_ok script b \<longleftrightarrow>
     (if bd_more b
      then ry_phase (bd_relay b) = Streaming \<and> ry_inner (bd_relay b) = scripted script \<and>
        script_calm (ry_id (bd_relay b)) script
      else ry_phase (bd_relay b) \<noteq> Streaming)"

definition rest_frames where
  "rest_frames pr dl script b = bd_queue b @
     (if bd_more b
      then frames_of dl (bd_encoder b) (map (reprice (dl_see dl) pr (ry_model (bd_relay b))) (map snd script))
      else [])"

definition rest_events where
  "rest_events pr dl script b =
     (if bd_more b then stream_events (dl_see dl) pr (bd_relay b) (map snd script) else [])"

text \<open>One poll takes the first frame off what the body will yield, and its events off those to come.\<close>

definition polled :: "pricing \<Rightarrow> ('a, 'e, 'f) dialect \<Rightarrow> (('p node \<Rightarrow> 'p node) \<times> (model_error + 'a)) list \<Rightarrow>
    ('p, 'a, 'e, 'f) body \<Rightarrow> 'p node \<Rightarrow> 'p node \<times> (('p, 'a, 'e, 'f) body \<times> 'f option) run \<Rightarrow> bool" where
  "polled pr dl script b w out \<longleftrightarrow>
     (case out of
        (w', Panic) \<Rightarrow> same_permits (held (bd_relay b) w) (nd_limits w')
      | (w', Ret (b', None)) \<Rightarrow>
          rest_frames pr dl script b = [] \<and> ry_phase (bd_relay b') = Ended \<and>
          own (ry_id (bd_relay b)) w' = own (ry_id (bd_relay b)) w @ rest_events pr dl script b \<and>
          same_permits (held (bd_relay b) w) (nd_limits w')
      | (w', Ret (b', Some f)) \<Rightarrow>
          (\<exists>script'. body_ok script' b' \<and> rest_frames pr dl script b = f # rest_frames pr dl script' b' \<and>
            own (ry_id (bd_relay b)) w' @ rest_events pr dl script' b' =
              own (ry_id (bd_relay b)) w @ rest_events pr dl script b \<and>
            ry_id (bd_relay b') = ry_id (bd_relay b) \<and>
            same_permits (held (bd_relay b) w) (held (bd_relay b') w')))"

text \<open>Going round the loop once keeps the promise.\<close>

lemma polled_step:
  assumes "polled pr dl script1 b1 w1 out"
    and "rest_frames pr dl script b = rest_frames pr dl script1 b1"
    and "own (ry_id (bd_relay b)) w1 @ rest_events pr dl script1 b1 = own (ry_id (bd_relay b)) w @ rest_events pr dl script b"
    and "ry_id (bd_relay b1) = ry_id (bd_relay b)" "same_permits (held (bd_relay b) w) (held (bd_relay b1) w1)"
  shows "polled pr dl script b w out"
proof -
  obtain w' r where out: "out = (w', r)" by (cases out)
  note permits = same_permits_trans [OF assms(5)]
  show ?thesis
  proof (cases r)
    case Panic
    with assms(1) permits show ?thesis by (simp add: polled_def out)
  next
    case (Ret br)
    obtain b' f where br: "br = (b', f)" by (cases br)
    show ?thesis
    proof (cases f)
      case None
      with assms(1) permits show ?thesis
        unfolding assms(2) polled_def out Ret br by (simp add: assms(4) flip: assms(3))
    next
      case (Some x)
      from assms(1) obtain script' where "body_ok script' b'"
        "rest_frames pr dl script1 b1 = x # rest_frames pr dl script' b'"
        "own (ry_id (bd_relay b1)) w' @ rest_events pr dl script' b' =
           own (ry_id (bd_relay b1)) w1 @ rest_events pr dl script1 b1"
        "ry_id (bd_relay b') = ry_id (bd_relay b1)"
        "same_permits (held (bd_relay b1) w1) (held (bd_relay b') w')"
        by (auto simp: polled_def out Ret br Some)
      with assms(2-4) permits show ?thesis
        unfolding polled_def out Ret br Some by (auto intro!: exI [of _ script'])
    qed
  qed
qed

lemma polled_queue:
  assumes "body_ok script b" "bd_queue b = f # fs"
  shows "polled pr dl script b w (body_next en dl b w)"
  using assms unfolding polled_def
  by (subst body_next.simps)
    (auto intro!: exI [of _ script] simp: body_ok_def rest_frames_def rest_events_def same_permits_refl)

lemma polled_closed:
  assumes "body_ok script b" "\<not> bd_more b"
  shows "polled pr dl script b w (body_next en dl b w)"
proof (cases "bd_queue b")
  case Nil
  with assms show ?thesis
    unfolding polled_def
    by (subst body_next.simps) (auto simp: rest_frames_def rest_events_def same_permits_refl)
qed (rule polled_queue [OF assms(1)])

lemma script_calm_Cons:
  "script_calm rid ((g, x) # rest) \<longleftrightarrow>
     (\<forall>w. own rid (g w) = own rid w \<and> same_permits (nd_limits w) (nd_limits (g w))) \<and> script_calm rid rest"
  by (auto simp: script_calm_def)

lemma body_next_polled:
  "body_ok script b \<Longrightarrow> polled (en_pricing en) dl script b w (body_next en dl b w)"
proof (induction script arbitrary: b w)
  case Nil
  show ?case
  proof (cases "bd_queue b = [] \<and> bd_more b")
    case True
    let ?st = "bd_relay b"
    let ?w = "release_guard (ry_guard ?st) (emit (RequestCompleted (ry_id ?st) (ry_finish ?st)) w)"
    let ?b = "b\<lparr>bd_relay := ?st\<lparr>ry_phase := Ended\<rparr>, bd_queue := dl_finish dl (bd_encoder b), bd_more := False\<rparr>"
    have st: "ry_phase ?st = Streaming" "ry_inner ?st = []" using Nil True by (auto simp: body_ok_def)
    have again: "body_next en dl b w = body_next en dl ?b ?w"
      by (subst body_next.simps) (simp add: True relay_next_cases(1) [OF st])
    have "body_ok [] ?b" by (simp add: body_ok_def)
    then have "polled (en_pricing en) dl [] ?b ?w (body_next en dl ?b ?w)" by (rule polled_closed) simp
    then show ?thesis
      unfolding again
      by (rule polled_step)
        (simp_all add: True st rest_frames_def rest_events_def stream_events_def held_def node_limits same_permits_refl)
  qed (use Nil polled_queue polled_closed in \<open>metis neq_Nil_conv\<close>)
next
  case (Cons gx rest)
  obtain g x where gx: "gx = (g, x)" by (cases gx)
  let ?st = "bd_relay b"
  show ?case
  proof (cases "bd_queue b = [] \<and> bd_more b")
    case True
    have st: "ry_phase ?st = Streaming" "ry_inner ?st = scripted ((g, x) # rest)"
      and calm: "own (ry_id ?st) (g w) = own (ry_id ?st) w" "same_permits (nd_limits w) (nd_limits (g w))"
      and calm': "script_calm (ry_id ?st) rest"
      using Cons.prems True by (auto simp: body_ok_def gx script_calm_Cons)
    from st calm show ?thesis
    proof (cases rule: relay_next_item [where en = en and see = "dl_see dl"])
      case (panic w1)
      then have "body_next en dl b w = (w1, Panic)" by (subst body_next.simps) (simp add: True)
      with panic(2) show ?thesis by (simp add: polled_def)
    next
      case (item w1 st1)
      show ?thesis
      proof (cases x)
        case (Inl e)
        let ?b = "b\<lparr>bd_relay := st1, bd_queue := dl_failed dl (bd_encoder b) e, bd_more := False\<rparr>"
        have again: "body_next en dl b w = body_next en dl ?b w1"
          by (subst body_next.simps) (simp add: True item(1) Inl)
        have "body_ok [] ?b" using item(5) by (simp add: body_ok_def Inl)
        then have "polled (en_pricing en) dl [] ?b w1 (body_next en dl ?b w1)" by (rule polled_closed) simp
        then show ?thesis
          unfolding again
          by (rule polled_step)
            (use item True in \<open>simp_all add: rest_frames_def rest_events_def stream_events_def gx Inl relays_def\<close>)
      next
        case (Inr c)
        obtain c' where c': "reprice (dl_see dl) (en_pricing en) (ry_model ?st) x = Inr c'"
          by (cases "dl_see dl c") (auto simp: Inr)
        obtain fs e where fs: "dl_encode dl c' (bd_encoder b) = (fs, e)" by fastforce
        let ?b = "b\<lparr>bd_relay := st1, bd_encoder := e, bd_queue := fs\<rparr>"
        have again: "body_next en dl b w = body_next en dl ?b w1"
          by (subst body_next.simps) (simp add: True item(1) c' fs)
        have "body_ok rest ?b"
          using item(4,5) calm' True by (simp add: body_ok_def Inr relays_def)
        from Cons.IH [OF this] show ?thesis
          unfolding again
          by (rule polled_step)
            (use item True c' in \<open>simp_all add: rest_frames_def rest_events_def stream_events_def gx Inr fs relays_def\<close>)
      qed
    qed
  qed (use Cons.prems polled_queue polled_closed in \<open>metis neq_Nil_conv\<close>)
qed

section \<open>Reading a body\<close>

text \<open>A reader that polls at most \<open>n\<close> times and then drops the body: the frames it got, and whether it saw the end.\<close>

fun read_body ::
  "'p engine \<Rightarrow> ('a, 'e, 'f) dialect \<Rightarrow> nat \<Rightarrow> ('p, 'a, 'e, 'f) body \<Rightarrow> 'p node \<Rightarrow> 'p node \<times> 'f list \<times> bool run" where
  "read_body en dl 0 b w = (body_drop b w, [], Ret False)"
| "read_body en dl (Suc n) b w =
     (case body_next en dl b w of
        (w, Panic) \<Rightarrow> (w, [], Panic)
      | (w, Ret (b, None)) \<Rightarrow> (body_drop b w, [], Ret True)
      | (w, Ret (b, Some f)) \<Rightarrow> (case read_body en dl n b w of (w, fs, r) \<Rightarrow> (w, f # fs, r)))"

lemma body_read:
  assumes "body_ok script b" "read_body en dl n b w = (w', frames, r)"
  defines "rest \<equiv> rest_frames (en_pricing en) dl script b" and "rid \<equiv> ry_id (bd_relay b)"
  shows "same_permits (held (bd_relay b) w) (nd_limits w') \<and>
    (\<forall>ended. r = Ret ended \<longrightarrow> frames = take n rest \<and> (ended \<longleftrightarrow> length rest < n) \<and>
       (ended \<longrightarrow> own rid w' = own rid w @ rest_events (en_pricing en) dl script b))"
  using assms(1,2) unfolding rest_def rid_def
proof (induction n arbitrary: script b w frames)
  case 0
  then show ?case by (auto simp: body_drop_def same_permits_refl)
next
  case (Suc n)
  note poll = body_next_polled [OF Suc.prems(1), of en dl w]
  obtain w1 out where out: "body_next en dl b w = (w1, out)" by fastforce
  show ?case
  proof (cases out)
    case Panic
    with poll Suc.prems(2) show ?thesis by (auto simp: out polled_def)
  next
    case (Ret br)
    obtain b1 f where br: "br = (b1, f)" by (cases br)
    show ?thesis
    proof (cases f)
      case None
      with poll Suc.prems(2) show ?thesis
        by (auto simp: out Ret br polled_def body_drop_def relay_drop_def)
    next
      case (Some x)
      with poll obtain script1 where ok: "body_ok script1 b1"
        and rest: "rest_frames (en_pricing en) dl script b = x # rest_frames (en_pricing en) dl script1 b1"
        and ev: "own (ry_id (bd_relay b)) w1 @ rest_events (en_pricing en) dl script1 b1 =
          own (ry_id (bd_relay b)) w @ rest_events (en_pricing en) dl script b"
        and same: "ry_id (bd_relay b1) = ry_id (bd_relay b)" "same_permits (held (bd_relay b) w) (held (bd_relay b1) w1)"
        by (auto simp: out Ret br polled_def)
      obtain fs where fs: "read_body en dl n b1 w1 = (w', fs, r)" "frames = x # fs"
        using Suc.prems(2) by (auto simp: out Ret br Some split: prod.splits)
      from Suc.IH [OF ok fs(1)] show ?thesis
        using same_permits_trans [OF same(2)] same(1) by (auto simp: rest fs(2) simp flip: ev)
    qed
  qed
qed

text \<open>A whole answer: the items, repriced, up to the first error, with their events; the guard is given back.\<close>

lemma drain_relay_spec:
  assumes "ry_phase st = Streaming" "ry_inner st = scripted script" "script_calm (ry_id st) script"
    and "drain_relay en st w = (w', r)"
  shows "same_permits (held st w) (nd_limits w') \<and>
    (\<forall>items. r = Ret items \<longrightarrow>
       items = map (reprice see_chunk (en_pricing en) (ry_model st)) (upto_error (map snd script)) \<and>
       own (ry_id st) w' = own (ry_id st) w @ stream_events see_chunk (en_pricing en) st (map snd script))"
  using assms
proof (induction script arbitrary: st w r)
  case Nil
  then show ?case
    by (subst (asm) drain_relay.simps)
      (auto simp: relay_next_cases(1) held_def node_limits relay_drop_def stream_events_def same_permits_refl)
next
  case (Cons gx rest)
  obtain g x where gx: "gx = (g, x)" by (cases gx)
  have inner: "ry_inner st = scripted ((g, x) # rest)" and calm: "own (ry_id st) (g w) = own (ry_id st) w"
      "same_permits (nd_limits w) (nd_limits (g w))" and calm': "script_calm (ry_id st) rest"
    using Cons.prems(2,3) by (simp_all add: gx script_calm_Cons)
  from Cons.prems(1) inner calm show ?case
  proof (cases rule: relay_next_item [where en = en and see = see_chunk])
    case (panic w1)
    with Cons.prems(4) show ?thesis by (subst (asm) drain_relay.simps) auto
  next
    case (item w1 st1)
    show ?thesis
    proof (cases x)
      case (Inl e)
      with item Cons.prems(4) show ?thesis
        by (subst (asm) drain_relay.simps) (auto simp: gx stream_events_def relays_def)
    next
      case (Inr c)
      obtain c' where c': "reprice see_chunk (en_pricing en) (ry_model st) x = Inr c'"
        by (cases "see_chunk c") (auto simp: Inr)
      obtain r1 where r1: "drain_relay en st1 w1 = (w', r1)"
        and r: "r = (case r1 of Panic \<Rightarrow> Panic | Ret items \<Rightarrow> Ret (Inr c' # items))"
        using Cons.prems(4) by (subst (asm) drain_relay.simps) (auto simp: item(1) c' split: prod.splits run.splits)
      have "ry_phase st1 = Streaming" "ry_inner st1 = scripted rest" "script_calm (ry_id st1) rest"
        using item(4,5) calm' by (simp_all add: Inr relays_def)
      from Cons.IH [OF this r1] show ?thesis
        using same_permits_trans [OF item(3)] item(2,4,6) c'
        by (auto simp: r gx Inr relays_def stream_events_def split: run.splits)
    qed
  qed
qed

lemma stream_events_start:
  "stream_events see pr (relay_of d) items =
     concat (map (item_events see pr (ds_request_id d) (ds_key d) (ds_model d)) (upto_error items)) @
     (if list_all (\<lambda>x. \<not> isl x) items
      then [RequestCompleted (ds_request_id d) (finish_of see None items)] else [])"
  by (simp add: stream_events_def relay_of_def cong: if_cong)

lemma relay_of_start [simp]:
  "ry_phase (relay_of d) = Streaming" "ry_inner (relay_of d) = ds_value d" "ry_id (relay_of d) = ds_request_id d"
  "ry_model (relay_of d) = ds_model d" "held (relay_of d) w = drop_guard (nd_limits w) (ds_guard d)"
  by (simp_all add: relay_of_def held_def)

text \<open>
  C9: a streamed answer reaches its end. A reader of a chat stream that polls more often than the stream has events
  gets the whole sequence of its dialect for the provider's items, repriced, and then the end: the OpenAI
  stream closes with its sentinel even after an error, and the Messages stream as its encoder does. A reader
  that leaves early has got the beginning of that sequence. However it leaves, the admission guard
  is given back once; only a poll that panics under a poisoned lock interrupts it.
\<close>

theorem streamed_answer:
  assumes "ds_value d = scripted script" "script_calm (ds_request_id d) script"
    and "read_body en chat_dialect n (body_of (relay_of d) enc []) w = (w', frames, r)"
    and "read_body en messages_dialect m (body_of (relay_of d) e []) w = (v', named, s)"
  defines "items \<equiv> map (reprice see_chunk (en_pricing en) (ds_model d)) (map snd script)"
  shows "same_permits (drop_guard (nd_limits w) (ds_guard d)) (nd_limits w') \<and>
    same_permits (drop_guard (nd_limits w) (ds_guard d)) (nd_limits v') \<and>
    (r \<noteq> Panic \<longrightarrow> frames = take n (sse_from_response enc items) \<and> r = Ret (length (sse_from_response enc items) < n)) \<and>
    (s \<noteq> Panic \<longrightarrow> named = take m (anthropic_frames e items) \<and> s = Ret (length (anthropic_frames e items) < m)) \<and>
    (\<forall>out \<in> {(r, w'), (s, v')}. fst out = Ret True \<longrightarrow>
       own (ds_request_id d) (snd out) = own (ds_request_id d) w @
         concat (map (item_events see_chunk (en_pricing en) (ds_request_id d) (ds_key d) (ds_model d)) (upto_error (map snd script))) @
         (if list_all (\<lambda>x. \<not> isl x) (map snd script)
          then [RequestCompleted (ds_request_id d) (finish_of see_chunk None (map snd script))] else []))"
proof -
  have ok: "body_ok script (body_of (relay_of d) enc' [])" for enc' :: 'x
    using assms(1,2) by (simp add: body_ok_def body_of_def)
  have see: "dl_see chat_dialect = see_chunk" "dl_see messages_dialect = see_chunk"
    by (simp_all add: chat_dialect_def messages_dialect_def)
  from body_read [OF ok assms(3)] body_read [OF ok assms(4)] show ?thesis
    by (cases r; cases s)
      (simp_all add: rest_frames_def rest_events_def frames_of_chat frames_of_messages items_def see
        body_of_def stream_events_start)
qed

definition ex_chat_encoder :: chunk_encoder where "ex_chat_encoder = \<lparr>ce_id = ''c'', ce_model = ''m'', ce_created = 0\<rparr>"

definition ex_encoder :: event_encoder where "ex_encoder = encoder_new ''c'' ''m''"

lemma ex_reading:
  "snd (snd (read_body ex_engine chat_dialect 5 (body_of (relay_of ex_stream) ex_chat_encoder []) ex_node)) \<noteq> Panic"
  "snd (snd (read_body ex_engine messages_dialect 1 (body_of (relay_of ex_stream) ex_encoder []) ex_node)) \<noteq> Panic"
  by (simp_all add: numeral_eq_Suc body_next.simps body_of_def chat_dialect_def messages_dialect_def relay_next_def
      relay_chunk_def relay_of_def ex_stream_def ex_script_def debit_unlimited Let_def ex_encoder_def encoder_new_def
      ensure_started_def open_text_block_def start_open_block_def start_block_def close_open_def)

theorem streamed_answer_witness:
  "fst (snd (read_body ex_engine chat_dialect 5 (body_of (relay_of ex_stream) ex_chat_encoder []) ex_node)) =
     sse_from_response ex_chat_encoder
       [Inr (Content 0 ''hi''), Inr (UsageReport (price ex_pricing ''m'' usage_default)), Inr (Finish 0 Stop)] \<and>
   fst (snd (read_body ex_engine messages_dialect 1 (body_of (relay_of ex_stream) ex_encoder []) ex_node)) =
     [message_start ex_encoder]"
proof -
  have calm: "script_calm (ds_request_id ex_stream) ex_script" by (simp add: script_calm_def ex_script_def)
  have stream: "ds_value ex_stream = scripted ex_script" by (simp add: ex_stream_def)
  obtain w1 f1 r1 where r1: "read_body ex_engine chat_dialect 5 (body_of (relay_of ex_stream) ex_chat_encoder []) ex_node =
      (w1, f1, r1)" "r1 \<noteq> Panic"
    using ex_reading(1) by (metis prod.collapse)
  obtain w2 f2 r2 where r2: "read_body ex_engine messages_dialect 1 (body_of (relay_of ex_stream) ex_encoder []) ex_node =
      (w2, f2, r2)" "r2 \<noteq> Panic"
    using ex_reading(2) by (metis prod.collapse)
  from streamed_answer [OF stream calm r1(1) r2(1)] r1(2) r2(2) show ?thesis
    unfolding r1(1) r2(1)
    by (simp add: ex_stream_def ex_script_def ex_engine_def ex_encoder_def encoder_new_def ensure_started_def
        open_text_block_def start_open_block_def start_block_def close_open_def split: option.splits)
qed

end
