(* ===== verification/Edge.thy ===== *)
theory Edge
  imports Bodies Collect Batches OAuth
begin

text \<open>
  The consumer surface of \<open>crates/llmleaf-core/src/server.rs\<close>: headers, authentication in front of every
  handler, the error envelopes of the dialects, and the handlers from extracted request to answer. axum
  is outside: a handler takes the headers and the body axum's extractors hand it, and an answer is a
  status, the headers the code itself sets, and a body. \<open>to_str\<close> reads a header value as text,
  \<open>header_ok\<close> tells which text may be one (the \<open>http\<close> crate).
\<close>

section \<open>State\<close>

text \<open>\<open>AppState\<close>: what authenticates, the node behind the engine, and the request counter.\<close>

record ('p, 'k) gateway =
  gw_auth :: "'k auth_state"
  gw_node :: "'p node"
  gw_seq :: u64

text \<open>What is fixed while the gateway runs. \<open>eg_meanwhile\<close> is what other tasks do to the state while a
  credential is verified, where an introspection request may be awaited.\<close>

record ('p, 'k) edge =
  eg_env :: "string \<Rightarrow> string option"
  eg_engine :: "'p engine"
  eg_sleep :: "duration \<Rightarrow> 'p node \<Rightarrow> 'p node"
  eg_api :: "'p \<Rightarrow> 'p node provider_api"
  eg_verify :: "string \<Rightarrow> string \<Rightarrow> bool"
  eg_jwt :: "'k jwt"
  eg_introspect :: "string \<Rightarrow> string + bool"
  eg_meanwhile :: "('p, 'k) gateway \<Rightarrow> ('p, 'k) gateway"
  eg_to_str :: "string \<Rightarrow> string option"
  eg_header_ok :: "string \<Rightarrow> bool"
  eg_dbg :: "string option \<Rightarrow> string"
  eg_dbgs :: "string \<Rightarrow> string"
  eg_print :: "json \<Rightarrow> string"
  eg_parse :: "string \<Rightarrow> string + json"
  eg_le_bytes :: "real \<Rightarrow> string"
  eg_wide :: "real \<Rightarrow> real"
  eg_b64 :: "string \<Rightarrow> string"
  eg_unb64 :: "string \<Rightarrow> string option"
  eg_chat :: "chat_request codec"
  eg_embedding :: "embedding_request codec"
  eg_rerank :: "rerank_request codec"
  eg_decisions :: "decisions_request codec"
  eg_speech :: "speech_request codec"
  eg_transcription :: "transcription_request codec"
  eg_batch :: "batch_spec codec"

definition on_node :: "('p node \<Rightarrow> 'p node \<times> 'b) \<Rightarrow> ('p, 'k) gateway \<Rightarrow> ('p, 'k) gateway \<times> 'b" where
  "on_node f g = (case f (gw_node g) of (w, r) \<Rightarrow> (g\<lparr>gw_node := w\<rparr>, r))"

definition now_secs :: "('p, 'k) gateway \<Rightarrow> u64" where
  "now_secs g = nd_wall_ms (gw_node g) div 1000"

definition next_request_id :: "('p, 'k) gateway \<Rightarrow> string \<times> ('p, 'k) gateway" where
  "next_request_id g =
     (decimal (unat (nd_wall_ms (gw_node g))) @ ''-'' @ decimal (unat (gw_seq g)), g\<lparr>gw_seq := gw_seq g + 1\<rparr>)"

section \<open>Answers\<close>

datatype 'p answer_body =
    Document json
  | Plain string
  | ChatEvents "('p, stream_chunk, chunk_encoder, sse_data) body"
  | MessageEvents "('p, stream_chunk, event_encoder, frame) body"
  | ResponseFrames "('p, stream_chunk, response_encoder, frame) body"
  | Audio "('p, audio_chunk, unit, string) body"
  | ResultLines "('p node, batch_result) polls"

record 'p answer =
  an_status :: nat
  an_headers :: "(string \<times> string) list"
  an_body :: "'p answer_body"

definition ok_answer :: "'p answer_body \<Rightarrow> 'p answer" where
  "ok_answer b = \<lparr>an_status = 200, an_headers = [], an_body = b\<rparr>"

definition error_answer :: "nat \<Rightarrow> string \<Rightarrow> 'p answer" where
  "error_answer status message =
     \<lparr>an_status = status, an_headers = [],
      an_body = Document (JObject [(''error'', JObject [(''message'', JString message)])])\<rparr>"

definition with_retry_after :: "'p answer \<Rightarrow> u64 \<Rightarrow> 'p answer" where
  "with_retry_after resp secs =
     resp\<lparr>an_headers := an_headers resp @ [(''retry-after'', decimal (unat secs))]\<rparr>"

fun auth_error_answer :: "auth_error \<Rightarrow> 'p answer" where
  "auth_error_answer Unknown = error_answer 401 ''unknown api key''"
| "auth_error_answer Blocked = error_answer 403 ''key is blocked''"
| "auth_error_answer (Suspended until) = error_answer 429 (''key suspended until '' @ decimal (unat until))"
| "auth_error_answer ModelNotAllowed = error_answer 403 ''model not allowed for this key''"

definition in_quotes :: "string \<Rightarrow> string" where
  "in_quotes s = [CHR 0x27] @ s @ [CHR 0x27]"

fun engine_error_answer :: "engine_error \<Rightarrow> 'p answer" where
  "engine_error_answer (NoRoute m) = error_answer 404 (''no route for model '' @ in_quotes m)"
| "engine_error_answer (NoTargets m) = error_answer 404 (''model '' @ in_quotes m @ '' has no targets'')"
| "engine_error_answer (AllTargetsFailed e) = error_answer 502 (model_error_text e)"
| "engine_error_answer (RateLimited secs) =
     with_retry_after (error_answer 429 (''rate limited; retry after '' @ decimal (unat secs) @ ''s'')) secs"
| "engine_error_answer (BlockedBy reason) = error_answer 403 reason"
| "engine_error_answer EmptyBatch = error_answer 400 ''batch has no requests''"
| "engine_error_answer MixedProviderBatch = error_answer 400 ''batch mixes models that route to different providers''"
| "engine_error_answer (BatchNotFound i) = error_answer 404 (''batch '' @ in_quotes i @ '' not found'')"

text \<open>The envelope of the Messages dialect.\<close>

definition anthropic_error :: "nat \<Rightarrow> string \<Rightarrow> string \<Rightarrow> 'p answer" where
  "anthropic_error status kind message =
     \<lparr>an_status = status, an_headers = [],
      an_body = Document (JObject [(''type'', JString ''error''),
        (''error'', JObject [(''type'', JString kind), (''message'', JString message)])])\<rparr>"

fun anthropic_auth_error :: "auth_error \<Rightarrow> 'p answer" where
  "anthropic_auth_error Unknown = anthropic_error 401 ''authentication_error'' ''unknown api key''"
| "anthropic_auth_error Blocked = anthropic_error 403 ''permission_error'' ''key is blocked''"
| "anthropic_auth_error (Suspended until) =
     anthropic_error 429 ''rate_limit_error'' (''key suspended until '' @ decimal (unat until))"
| "anthropic_auth_error ModelNotAllowed = anthropic_error 403 ''permission_error'' ''model not allowed for this key''"

fun anthropic_engine_error :: "engine_error \<Rightarrow> 'p answer" where
  "anthropic_engine_error (NoRoute m) =
     anthropic_error 404 ''not_found_error'' (''no route for model '' @ in_quotes m)"
| "anthropic_engine_error (NoTargets m) =
     anthropic_error 404 ''not_found_error'' (''model '' @ in_quotes m @ '' has no targets'')"
| "anthropic_engine_error (AllTargetsFailed e) = anthropic_error 502 ''api_error'' (model_error_text e)"
| "anthropic_engine_error (RateLimited secs) = with_retry_after
     (anthropic_error 429 ''rate_limit_error'' (''rate limited; retry after '' @ decimal (unat secs) @ ''s'')) secs"
| "anthropic_engine_error (BlockedBy reason) = anthropic_error 403 ''permission_error'' reason"
| "anthropic_engine_error EmptyBatch = anthropic_error 400 ''invalid_request_error'' ''batch has no requests''"
| "anthropic_engine_error MixedProviderBatch =
     anthropic_error 400 ''invalid_request_error'' ''batch mixes models that route to different providers''"
| "anthropic_engine_error (BatchNotFound i) =
     anthropic_error 404 ''not_found_error'' (''batch '' @ in_quotes i @ '' not found'')"

section \<open>Credentials\<close>

text \<open>A header map: lower-case names with their values, the first value of a name being the one \<open>get\<close> finds.\<close>

type_synonym headers = "(string \<times> string) list"

definition header :: "headers \<Rightarrow> string \<Rightarrow> string option" where
  "header hs name = map_of hs name"

definition bearer :: "(string \<Rightarrow> string option) \<Rightarrow> headers \<Rightarrow> string option" where
  "bearer to_str hs = Option.bind (Option.bind (header hs ''authorization'') to_str) (strip_prefix ''Bearer '')"

definition anthropic_key :: "(string \<Rightarrow> string option) \<Rightarrow> headers \<Rightarrow> string option" where
  "anthropic_key to_str hs =
     (case Option.bind (header hs ''x-api-key'') to_str of
        Some v \<Rightarrow> if v \<noteq> [] then Some v else bearer to_str hs
      | None \<Rightarrow> bearer to_str hs)"

definition credential_check ::
  "('p, 'k) edge \<Rightarrow> string \<Rightarrow> string option \<Rightarrow> u64 \<Rightarrow> ('p, 'k) gateway \<Rightarrow> ('p, 'k) gateway \<times> (auth_error + string)" where
  "credential_check ed token model now g =
     (case (case model of
              None \<Rightarrow> authorize_token_identity (eg_verify ed) (eg_jwt ed) (eg_introspect ed) (gw_auth g) token now
            | Some m \<Rightarrow> authorize_token (eg_verify ed) (eg_jwt ed) (eg_introspect ed) (gw_auth g) token m now) of
        (r, auth) \<Rightarrow> (eg_meanwhile ed (g\<lparr>gw_auth := auth\<rparr>), r))"

text \<open>How every handler starts: a credential, its identity, before anything is made of the body.\<close>

definition authenticated ::
  "('p, 'k) edge \<Rightarrow> string option \<Rightarrow> 'p answer \<Rightarrow> (auth_error \<Rightarrow> 'p answer) \<Rightarrow> ('p, 'k) gateway \<Rightarrow>
     (string \<Rightarrow> u64 \<Rightarrow> string \<Rightarrow> ('p, 'k) gateway \<Rightarrow> ('p, 'k) gateway \<times> 'p answer run) \<Rightarrow>
     ('p, 'k) gateway \<times> 'p answer run" where
  "authenticated ed credential missing deny g serve_as =
     (case credential of
        None \<Rightarrow> (g, Ret missing)
      | Some token \<Rightarrow>
          (let now = now_secs g
           in case credential_check ed token None now g of
                (g, Inl e) \<Rightarrow> (g, Ret (deny e))
              | (g, Inr key) \<Rightarrow> serve_as token now key g))"

text \<open>And how it goes on once the model is known: the gate on the model, and an id for the request.\<close>

definition admitted ::
  "('p, 'k) edge \<Rightarrow> string \<Rightarrow> string \<Rightarrow> u64 \<Rightarrow> (auth_error \<Rightarrow> 'p answer) \<Rightarrow> ('p, 'k) gateway \<Rightarrow>
     (string \<Rightarrow> string \<Rightarrow> ('p, 'k) gateway \<Rightarrow> ('p, 'k) gateway \<times> 'p answer run) \<Rightarrow>
     ('p, 'k) gateway \<times> 'p answer run" where
  "admitted ed token model now deny g serve_as =
     (case credential_check ed token (Some model) now g of
        (g, Inl e) \<Rightarrow> (g, Ret (deny e))
      | (g, Inr key) \<Rightarrow> (case next_request_id g of (rid, g) \<Rightarrow> serve_as key rid g))"

definition missing_bearer :: "'p answer" where
  "missing_bearer = error_answer 401 ''missing bearer token''"

text \<open>The end of a handler that awaits one engine call.\<close>

definition answered ::
  "(engine_error \<Rightarrow> 'p answer) \<Rightarrow> ('v \<Rightarrow> 'p answer) \<Rightarrow> ('p, 'k) gateway \<times> (engine_error + 'v) run \<Rightarrow>
     ('p, 'k) gateway \<times> 'p answer run" where
  "answered fail render out =
     (case out of
        (g, Ret (Inr v)) \<Rightarrow> (g, Ret (render v))
      | (g, Ret (Inl e)) \<Rightarrow> (g, Ret (fail e))
      | (g, Panic) \<Rightarrow> (g, Panic))"

end
