(* ===== verification/Handlers.thy ===== *)
theory Handlers
  imports Edge "HOL-Library.List_Lexorder" "HOL-Library.Char_ord"
begin

text \<open>
  The handlers of the consumer surface in \<open>crates/llmleaf-core/src/server.rs\<close>: chat in its three dialects,
  embeddings, rerank, decisions, speech, voices, transcription and batches. Each is its route's whole
  path, from the credential to the answer.
\<close>

section \<open>Chat\<close>

text \<open>A stream that is answered whole: collected, and rendered.\<close>

definition collected_answer ::
  "('p, 'k) edge \<Rightarrow> ('p, stream_chunk) relay \<Rightarrow> (string \<Rightarrow> 'p answer) \<Rightarrow> (chat_response \<Rightarrow> json) \<Rightarrow>
     ('p, 'k) gateway \<Rightarrow> ('p, 'k) gateway \<times> 'p answer run" where
  "collected_answer ed st fail render g =
     (case on_node (drain_relay (eg_engine ed) st) g of
        (g, Panic) \<Rightarrow> (g, Panic)
      | (g, Ret items) \<Rightarrow>
          (g, Ret (case collect items of
             Inr resp \<Rightarrow> ok_answer (Document (render resp))
           | Inl e \<Rightarrow> fail (model_error_text e))))"

definition chat_completions ::
  "('p, 'k) edge \<Rightarrow> headers \<Rightarrow> json \<Rightarrow> ('p, 'k) gateway \<Rightarrow> ('p, 'k) gateway \<times> 'p answer run" where
  "chat_completions ed hs body g =
     authenticated ed (bearer (eg_to_str ed) hs) missing_bearer auth_error_answer g (\<lambda>token now _ g.
       case parse_chat_request (eg_dbg ed) body of
         Inl e \<Rightarrow> (g, Ret (error_answer 400 (model_error_text e)))
       | Inr req \<Rightarrow>
           admitted ed token (cq_model req) now auth_error_answer g (\<lambda>key rid g.
             case on_node (run_chat (eg_env ed) (eg_engine ed) (eg_sleep ed) (eg_api ed) (eg_chat ed) req key rid now) g of
               (g, Panic) \<Rightarrow> (g, Panic)
             | (g, Ret (Inl e)) \<Rightarrow> (g, Ret (engine_error_answer e))
             | (g, Ret (Inr st)) \<Rightarrow>
                 if cq_stream req
                 then (g, Ret (ok_answer (ChatEvents (body_of st
                   \<lparr>ce_id = ''chatcmpl-'' @ rid, ce_model = cq_model req, ce_created = now\<rparr> []))))
                 else collected_answer ed st (error_answer 502) (\<lambda>resp. response_to_openai resp now) g))"

definition messages_handler ::
  "('p, 'k) edge \<Rightarrow> headers \<Rightarrow> json \<Rightarrow> ('p, 'k) gateway \<Rightarrow> ('p, 'k) gateway \<times> 'p answer run" where
  "messages_handler ed hs body g =
     authenticated ed (anthropic_key (eg_to_str ed) hs)
       (anthropic_error 401 ''authentication_error'' ''missing x-api-key'') anthropic_auth_error g (\<lambda>token now _ g.
       case parse_messages_request (eg_print ed) (eg_dbg ed) body of
         Inl e \<Rightarrow> (g, Ret (anthropic_error 400 ''invalid_request_error'' (model_error_text e)))
       | Inr req \<Rightarrow>
           admitted ed token (cq_model req) now anthropic_auth_error g (\<lambda>key rid g.
             case on_node (run_chat (eg_env ed) (eg_engine ed) (eg_sleep ed) (eg_api ed) (eg_chat ed) req key rid now) g of
               (g, Panic) \<Rightarrow> (g, Panic)
             | (g, Ret (Inl e)) \<Rightarrow> (g, Ret (anthropic_engine_error e))
             | (g, Ret (Inr st)) \<Rightarrow>
                 if cq_stream req
                 then (g, Ret (ok_answer (MessageEvents (body_of st (encoder_new (''msg_'' @ rid) (cq_model req)) []))))
                 else collected_answer ed st (anthropic_error 502 ''api_error'')
                   (\<lambda>resp. ser_anthropic_message (response_to_anthropic (eg_parse ed) resp (''msg_'' @ rid))) g))"

definition responses_create ::
  "('p, 'k) edge \<Rightarrow> headers \<Rightarrow> json \<Rightarrow> ('p, 'k) gateway \<Rightarrow> ('p, 'k) gateway \<times> 'p answer run" where
  "responses_create ed hs body g =
     authenticated ed (bearer (eg_to_str ed) hs) missing_bearer auth_error_answer g (\<lambda>token now _ g.
       case parse_responses_request (eg_dbg ed) (eg_dbgs ed) body of
         Inl e \<Rightarrow> (g, Ret (error_answer 400 (model_error_text e)))
       | Inr req \<Rightarrow>
           admitted ed token (cq_model req) now auth_error_answer g (\<lambda>key rid g.
             case on_node (run_chat (eg_env ed) (eg_engine ed) (eg_sleep ed) (eg_api ed) (eg_chat ed) req key rid now) g of
               (g, Panic) \<Rightarrow> (g, Panic)
             | (g, Ret (Inl e)) \<Rightarrow> (g, Ret (engine_error_answer e))
             | (g, Ret (Inr st)) \<Rightarrow>
                 if cq_stream req
                 then (g, Ret (ok_answer (ResponseFrames (body_of st
                   (response_encoder_new rid (cq_model req) now (echo_from_request req)) []))))
                 else collected_answer ed st (error_answer 502)
                   (\<lambda>resp. response_to_responses resp (echo_from_request req) now) g))"

text \<open>Retrieval names no model; it is always refused, but only to an identity.\<close>

definition get_response ::
  "('p, 'k) edge \<Rightarrow> headers \<Rightarrow> string \<Rightarrow> ('p, 'k) gateway \<Rightarrow> ('p, 'k) gateway \<times> 'p answer run" where
  "get_response ed hs rid g =
     authenticated ed (bearer (eg_to_str ed) hs) missing_bearer auth_error_answer g (\<lambda>token now _ g.
       (g, Ret (error_answer 404 (''response '' @ in_quotes rid @ '' cannot be retrieved through llmleaf: '' @
          ''response-id continuation is proxied upstream, but the gateway does not maintain a local response store''))))"

section \<open>Whole-object surfaces\<close>

definition embeddings_handler ::
  "('p, 'k) edge \<Rightarrow> headers \<Rightarrow> json \<Rightarrow> ('p, 'k) gateway \<Rightarrow> ('p, 'k) gateway \<times> 'p answer run" where
  "embeddings_handler ed hs body g =
     authenticated ed (bearer (eg_to_str ed) hs) missing_bearer auth_error_answer g (\<lambda>token now _ g.
       case parse_embedding_request body of
         Inl e \<Rightarrow> (g, Ret (error_answer 400 (model_error_text e)))
       | Inr req \<Rightarrow>
           admitted ed token (eq_model req) now auth_error_answer g (\<lambda>key rid g.
             answered engine_error_answer
               (\<lambda>resp. ok_answer (Document
                  (embeddings_to_openai (eg_le_bytes ed) (eg_wide ed) resp (eq_encoding_format req))))
               (on_node (embed (eg_env ed) (eg_engine ed) (eg_sleep ed) (eg_api ed) (eg_embedding ed) req key rid now) g)))"

definition rerank_handler ::
  "('p, 'k) edge \<Rightarrow> headers \<Rightarrow> json \<Rightarrow> ('p, 'k) gateway \<Rightarrow> ('p, 'k) gateway \<times> 'p answer run" where
  "rerank_handler ed hs body g =
     authenticated ed (bearer (eg_to_str ed) hs) missing_bearer auth_error_answer g (\<lambda>token now _ g.
       case parse_rerank_request body of
         Inl e \<Rightarrow> (g, Ret (error_answer 400 (model_error_text e)))
       | Inr req \<Rightarrow>
           admitted ed token (rq_model req) now auth_error_answer g (\<lambda>key rid g.
             answered engine_error_answer (\<lambda>resp. ok_answer (Document (rerank_to_wire (eg_wide ed) resp)))
               (on_node (rerank (eg_env ed) (eg_engine ed) (eg_sleep ed) (eg_api ed) (eg_rerank ed) req key rid now) g)))"

text \<open>The session of a decision may come in a header; the body's own member wins, even a null one.\<close>

definition session_from_header ::
  "(string \<Rightarrow> string option) \<Rightarrow> headers \<Rightarrow> json \<Rightarrow> string + json" where
  "session_from_header to_str hs body =
     (case body of
        JObject obj \<Rightarrow> if hm_contains obj ''session_id'' then Inr body else
          (case header hs ''x-session-id'' of
             None \<Rightarrow> Inr body
           | Some v \<Rightarrow>
               (case to_str v of
                  Some s \<Rightarrow>
                    if chars_count s \<le> 256 then Inr (JObject (hm_insert ''session_id'' (JString s) obj))
                    else Inl ''`x-session-id` must be valid text of at most 256 characters''
                | None \<Rightarrow> Inl ''`x-session-id` must be valid text of at most 256 characters''))
      | _ \<Rightarrow>
          (case header hs ''x-session-id'' of
             None \<Rightarrow> Inr body
           | Some v \<Rightarrow>
               if is_some_and (\<lambda>s. chars_count s \<le> 256) (to_str v) then Inr body
               else Inl ''`x-session-id` must be valid text of at most 256 characters''))"

definition decisions_handler ::
  "('p, 'k) edge \<Rightarrow> headers \<Rightarrow> json \<Rightarrow> ('p, 'k) gateway \<Rightarrow> ('p, 'k) gateway \<times> 'p answer run" where
  "decisions_handler ed hs body g =
     authenticated ed (bearer (eg_to_str ed) hs) missing_bearer auth_error_answer g (\<lambda>token now _ g.
       case session_from_header (eg_to_str ed) hs body of
         Inl message \<Rightarrow> (g, Ret (error_answer 400 message))
       | Inr body \<Rightarrow>
           (case parse_decisions_request body of
              Inl e \<Rightarrow> (g, Ret (error_answer 400 (model_error_text e)))
            | Inr req \<Rightarrow>
                admitted ed token (dq_model req) now auth_error_answer g (\<lambda>key rid g.
                  answered engine_error_answer (\<lambda>resp. ok_answer (Document (decisions_to_wire resp)))
                    (on_node (decisions (eg_env ed) (eg_engine ed) (eg_sleep ed) (eg_api ed) (eg_decisions ed)
                        req key rid now) g))))"

section \<open>Audio\<close>

text \<open>Reading the stream up to its start: the type it announces, if any, and the data that came before.\<close>

datatype audio_opening = Announced "string option" | Refused model_error

function open_audio ::
  "'p engine \<Rightarrow> string list \<Rightarrow> ('p, audio_chunk) relay \<Rightarrow> 'p node \<Rightarrow>
     'p node \<times> (audio_opening \<times> string list \<times> ('p, audio_chunk) relay) run" where
  "open_audio en queued st w =
     (case relay_next en see_audio st w of
        (w, Panic) \<Rightarrow> (w, Panic)
      | (w, Ret (st, None)) \<Rightarrow> (w, Ret (Announced None, queued, st))
      | (w, Ret (st, Some (Inl e))) \<Rightarrow> (relay_drop st w, Ret (Refused e, queued, st))
      | (w, Ret (st, Some (Inr chunk))) \<Rightarrow>
          (case chunk of
             AudioStart ct \<Rightarrow> (w, Ret (Announced (Some ct), queued, st))
           | AudioData b \<Rightarrow> open_audio en (queued @ [b]) st w
           | _ \<Rightarrow> open_audio en queued st w))"
  by pat_completeness auto
termination
  by (relation "measure (\<lambda>(en, queued, st, w). length (ry_inner st))")
    (auto dest!: relay_next_consumes [OF sym])

declare open_audio.simps [simp del]

text \<open>A declared type that cannot be a header value falls back to the type of the format; the \<open>expect\<close> on
  that one is the panic.\<close>

definition speech_content_type :: "(string \<Rightarrow> bool) \<Rightarrow> string option \<Rightarrow> string option \<Rightarrow> string run" where
  "speech_content_type header_ok declared response_format =
     (let ct = unwrap_or (content_type_for_format response_format) declared
      in if header_ok ct then Ret ct
         else if header_ok (content_type_for_format response_format)
         then Ret (content_type_for_format response_format)
         else Panic)"

definition audio_speech ::
  "('p, 'k) edge \<Rightarrow> headers \<Rightarrow> json \<Rightarrow> ('p, 'k) gateway \<Rightarrow> ('p, 'k) gateway \<times> 'p answer run" where
  "audio_speech ed hs body g =
     authenticated ed (bearer (eg_to_str ed) hs) missing_bearer auth_error_answer g (\<lambda>token now _ g.
       case parse_speech_request body of
         Inl e \<Rightarrow> (g, Ret (error_answer 400 (model_error_text e)))
       | Inr req \<Rightarrow>
           admitted ed token (sq_model req) now auth_error_answer g (\<lambda>key rid g.
             case on_node (speech (eg_env ed) (eg_engine ed) (eg_sleep ed) (eg_api ed) (eg_speech ed) req key rid now) g of
               (g, Panic) \<Rightarrow> (g, Panic)
             | (g, Ret (Inl e)) \<Rightarrow> (g, Ret (engine_error_answer e))
             | (g, Ret (Inr st)) \<Rightarrow>
                 (case on_node (open_audio (eg_engine ed) [] st) g of
                    (g, Panic) \<Rightarrow> (g, Panic)
                  | (g, Ret (Refused e, _, _)) \<Rightarrow> (g, Ret (error_answer 502 (model_error_text e)))
                  | (g, Ret (Announced declared, queued, st)) \<Rightarrow>
                      (case speech_content_type (eg_header_ok ed) declared (sq_response_format req) of
                         Panic \<Rightarrow> (g\<lparr>gw_node := relay_drop st (gw_node g)\<rparr>, Panic)
                       | Ret ct \<Rightarrow>
                           (g, Ret ((ok_answer (Audio (body_of st () queued)))\<lparr>an_headers := [(''content-type'', ct)]\<rparr>))))))"

text \<open>The derived \<open>Serialize\<close> of \<open>VoiceInfo\<close>.\<close>

definition ser_voice :: "voice_info \<Rightarrow> json" where
  "ser_voice v = JObject
     (field ''id'' (JString (vi_id v)) @ opt_field ''name'' JString (vi_name v) @
      if_field ''languages'' (JArray (map JString (vi_languages v))) (vi_languages v \<noteq> []) @
      if_field ''extra'' (JObject (vi_extra v)) (vi_extra v \<noteq> []))"

definition audio_voices ::
  "('p, 'k) edge \<Rightarrow> headers \<Rightarrow> string \<Rightarrow> ('p, 'k) gateway \<Rightarrow> ('p, 'k) gateway \<times> 'p answer run" where
  "audio_voices ed hs model g =
     (case bearer (eg_to_str ed) hs of
        None \<Rightarrow> (g, Ret missing_bearer)
      | Some token \<Rightarrow>
          (let now = now_secs g
           in admitted ed token model now auth_error_answer g (\<lambda>key rid g.
                answered engine_error_answer
                  (\<lambda>vs. ok_answer (Document (JObject
                     [(''model'', JString model), (''voices'', JArray (map ser_voice vs))])))
                  (on_node (voices (eg_env ed) (eg_engine ed) (eg_sleep ed) (eg_api ed) model key rid now) g))))"

text \<open>The parts of an upload as the multipart reader delivers them: a field with what reading it as bytes
  and as text gives, or the error that ends the reading.\<close>

record upload_part =
  up_name :: "string option"
  up_file_name :: "string option"
  up_bytes :: "string + string"
  up_text :: "string option"

definition read_part :: "upload_part \<Rightarrow> transcription_form \<Rightarrow> string + transcription_form" where
  "read_part p form =
     (let name = unwrap_or [] (up_name p)
      in if name = ''file'' then
           (case up_bytes p of
              Inr b \<Rightarrow> Inr (form\<lparr>tf_filename := up_file_name p, tf_audio := Some b\<rparr>)
            | Inl e \<Rightarrow> Inl (''reading `file` part: '' @ e))
         else if name = ''model'' then Inr (form\<lparr>tf_model := up_text p\<rparr>)
         else if name = ''language'' then Inr (form\<lparr>tf_language := up_text p\<rparr>)
         else if name = ''prompt'' then Inr (form\<lparr>tf_prompt := up_text p\<rparr>)
         else if name = ''response_format'' then Inr (form\<lparr>tf_response_format := up_text p\<rparr>)
         else if name = ''temperature'' then Inr (form\<lparr>tf_temperature := up_text p\<rparr>)
         else Inr form)"

fun read_parts :: "(string + upload_part) list \<Rightarrow> transcription_form \<Rightarrow> string + transcription_form" where
  "read_parts [] form = Inr form"
| "read_parts (Inl e # parts) form = Inl (''invalid multipart: '' @ e)"
| "read_parts (Inr p # parts) form = res_bind (read_part p form) (read_parts parts)"

definition empty_form :: transcription_form where
  "empty_form =
     \<lparr>tf_model = None, tf_audio = None, tf_filename = None, tf_language = None, tf_prompt = None,
      tf_response_format = None, tf_temperature = None\<rparr>"

definition transcript_answer :: "transcription_body \<Rightarrow> 'p answer" where
  "transcript_answer b =
     (case b of
        TranscriptJson v \<Rightarrow> ok_answer (Document v)
      | TranscriptText t \<Rightarrow>
          (ok_answer (Plain t))\<lparr>an_headers := [(''content-type'', ''text/plain; charset=utf-8'')]\<rparr>)"

definition audio_transcriptions ::
  "('p, 'k) edge \<Rightarrow> headers \<Rightarrow> (string + upload_part) list \<Rightarrow> ('p, 'k) gateway \<Rightarrow> ('p, 'k) gateway \<times> 'p answer run" where
  "audio_transcriptions ed hs parts g =
     authenticated ed (bearer (eg_to_str ed) hs) missing_bearer auth_error_answer g (\<lambda>token now _ g.
       case read_parts parts empty_form of
         Inl message \<Rightarrow> (g, Ret (error_answer 400 message))
       | Inr form \<Rightarrow>
           (case build_transcription form of
              Inl e \<Rightarrow> (g, Ret (error_answer 400 (model_error_text e)))
            | Inr req \<Rightarrow>
                admitted ed token (tq_model req) now auth_error_answer g (\<lambda>key rid g.
                  answered engine_error_answer
                    (\<lambda>resp. transcript_answer (encode_transcription resp (tf_response_format form)))
                    (on_node (transcribe (eg_env ed) (eg_engine ed) (eg_sleep ed) (eg_api ed) (eg_transcription ed)
                        req key rid now) g))))"

section \<open>Batches\<close>

text \<open>Every distinct model of the batch, in order, the last identity being the one that owns it.\<close>

fun authorize_models ::
  "('p, 'k) edge \<Rightarrow> string \<Rightarrow> u64 \<Rightarrow> string list \<Rightarrow> string option \<Rightarrow> ('p, 'k) gateway \<Rightarrow>
     ('p, 'k) gateway \<times> (auth_error + string option)" where
  "authorize_models ed token now [] key g = (g, Inr key)"
| "authorize_models ed token now (m # ms) key g =
     (case credential_check ed token (Some m) now g of
        (g, Inl e) \<Rightarrow> (g, Inl e)
      | (g, Inr k) \<Rightarrow> authorize_models ed token now ms (Some k) g)"

definition batch_models :: "batch_spec \<Rightarrow> string list" where
  "batch_models spec = remdups_adj (sort (map (\<lambda>i. cq_model (bi_request i)) (bs_items spec)))"

definition create_batch ::
  "('p, 'k) edge \<Rightarrow> headers \<Rightarrow> json \<Rightarrow> ('p, 'k) gateway \<Rightarrow> ('p, 'k) gateway \<times> 'p answer run" where
  "create_batch ed hs body g =
     authenticated ed (bearer (eg_to_str ed) hs) missing_bearer auth_error_answer g (\<lambda>token now _ g.
       case parse_batch_create (eg_dbg ed) body of
         Inl e \<Rightarrow> (g, Ret (error_answer 400 (model_error_text e)))
       | Inr spec \<Rightarrow>
           (case authorize_models ed token now (batch_models spec) None g of
              (g, Inl e) \<Rightarrow> (g, Ret (auth_error_answer e))
            | (g, Inr None) \<Rightarrow> (g, Panic)
            | (g, Inr (Some key)) \<Rightarrow>
                (case next_request_id g of (rid, g) \<Rightarrow>
                   (case on_node (batch_create (eg_env ed) (eg_b64 ed) (eg_engine ed) (eg_api ed) (eg_batch ed)
                        spec key rid) g of
                      (g, Inr h) \<Rightarrow> (g, Ret (ok_answer (Document (handle_to_json h))))
                    | (g, Inl e) \<Rightarrow> (g, Ret (engine_error_answer e))))))"

text \<open>Polling, cancelling and reading results: an identity, an opaque id, one engine call.\<close>

definition by_batch_id ::
  "('p, 'k) edge \<Rightarrow> headers \<Rightarrow> (string \<Rightarrow> string \<Rightarrow> 'p node \<Rightarrow> 'p node \<times> (engine_error + 'v)) \<Rightarrow> ('v \<Rightarrow> 'p answer) \<Rightarrow>
     ('p, 'k) gateway \<Rightarrow> ('p, 'k) gateway \<times> 'p answer run" where
  "by_batch_id ed hs call render g =
     authenticated ed (bearer (eg_to_str ed) hs) missing_bearer auth_error_answer g (\<lambda>token now key g.
       case next_request_id g of (rid, g) \<Rightarrow>
         (case on_node (call key rid) g of
            (g, Inr v) \<Rightarrow> (g, Ret (render v))
          | (g, Inl e) \<Rightarrow> (g, Ret (engine_error_answer e))))"

definition retrieve_batch where
  "retrieve_batch ed hs bid g = by_batch_id ed hs
     (batch_retrieve (eg_env ed) (eg_b64 ed) (eg_unb64 ed) (eg_engine ed) (eg_api ed) bid)
     (\<lambda>h. ok_answer (Document (handle_to_json h))) g"

definition cancel_batch where
  "cancel_batch ed hs bid g = by_batch_id ed hs
     (batch_cancel (eg_env ed) (eg_b64 ed) (eg_unb64 ed) (eg_engine ed) (eg_api ed) bid)
     (\<lambda>h. ok_answer (Document (handle_to_json h))) g"

definition batch_results_handler where
  "batch_results_handler ed hs bid g = by_batch_id ed hs
     (batch_results (eg_env ed) (eg_unb64 ed) (eg_engine ed) (eg_api ed) bid)
     (\<lambda>polls. (ok_answer (ResultLines polls))\<lparr>an_headers := [(''content-type'', ''application/x-ndjson'')]\<rparr>) g"

end
