(* ===== verification/Gate.thy ===== *)
theory Gate
  imports Handlers Gateway AnthropicGateway
begin

text \<open>
  What the consumer surface promises: how a refused credential is answered, a batch reaches
  the engine only with every model allowed, the three chat dialects differ in their wire shapes alone, and
  an audio answer loses no byte.
\<close>

section \<open>Authentication first\<close>

lemma authenticated_refused:
  "credential_check ed token None (now_secs g) g = (g', Inl e) \<Longrightarrow>
     authenticated ed (Some token) missing deny g serve_as = (g', Ret (deny e))"
  by (simp add: authenticated_def Let_def)

lemma authenticated_missing: "authenticated ed None missing deny g serve_as = (g, Ret missing)"
  by (simp add: authenticated_def)

text \<open>The refusals of a credential, as their two envelopes.\<close>

lemma auth_error_status:
  "an_status (auth_error_answer e) = an_status (anthropic_auth_error e)" "an_headers (auth_error_answer e) = an_headers (anthropic_auth_error e)"
  "an_status (auth_error_answer e) \<in> {401, 403, 429}"
  by (cases e; simp add: error_answer_def anthropic_error_def)+

lemma engine_error_status:
  "an_status (engine_error_answer e) = an_status (anthropic_engine_error e)"
  "an_headers (engine_error_answer e) = an_headers (anthropic_engine_error e)"
  by (cases e; simp add: error_answer_def anthropic_error_def with_retry_after_def)+

section \<open>Batches\<close>

lemma try_map_length: "try_map f xs = Inr ys \<Longrightarrow> length ys = length xs"
  by (induction xs arbitrary: ys) (auto simp: res_simps)

lemma parse_batch_nonempty: "parse_batch_create dbg v = Inr spec \<Longrightarrow> bs_items spec \<noteq> []"
  by (auto simp: parse_batch_create_def res_simps dest: try_map_length split: json.splits option.splits if_splits)

text \<open>A list of models vetted in turn: each is allowed by a check made in the state the check before it left,
  \<open>gs\<close> being the states in between and \<open>ks\<close> the identities found.\<close>

definition vetted ::
  "('p, 'k) edge \<Rightarrow> string \<Rightarrow> u64 \<Rightarrow> string list \<Rightarrow> ('p, 'k) gateway list \<Rightarrow> string list \<Rightarrow> bool" where
  "vetted ed token now ms gs ks \<longleftrightarrow>
     length gs = Suc (length ms) \<and> length ks = length ms \<and>
     (\<forall>i < length ms. credential_check ed token (Some (ms ! i)) now (gs ! i) = (gs ! Suc i, Inr (ks ! i)))"

lemma vetted_Cons:
  "credential_check ed token (Some m) now g = (hd gs, Inr k) \<Longrightarrow> vetted ed token now ms gs ks \<Longrightarrow>
     vetted ed token now (m # ms) (g # gs) (k # ks)"
  by (cases gs) (auto simp: vetted_def less_Suc_eq_0_disj)

lemma authorize_models_vetted:
  "authorize_models ed token now ms key g = (g', Inr key') \<Longrightarrow>
     \<exists>gs ks. vetted ed token now ms gs ks \<and> hd gs = g \<and> last gs = g' \<and> key' = last (key # map Some ks)"
proof (induction ms arbitrary: key g)
  case Nil
  then show ?case by (intro exI [of _ "[g]"] exI [of _ "[]"]) (simp add: vetted_def)
next
  case (Cons m ms)
  then obtain g1 k where one: "credential_check ed token (Some m) now g = (g1, Inr k)"
    "authorize_models ed token now ms (Some k) g1 = (g', Inr key')"
    by (auto split: prod.splits sum.splits)
  from Cons.IH [OF one(2)] obtain gs ks where rest: "vetted ed token now ms gs ks" "hd gs = g1" "last gs = g'"
    "key' = last (Some k # map Some ks)" by blast
  have "gs \<noteq> []" using rest(1) by (auto simp: vetted_def)
  then have "vetted ed token now (m # ms) (g # gs) (k # ks) \<and> hd (g # gs) = g \<and> last (g # gs) = g' \<and>
      key' = last (key # map Some (k # ks))"
    using vetted_Cons [of ed token m now g gs k ms ks] one(1) rest by auto
  then show ?case by blast
qed

text \<open>Other tasks leave the node alone while a credential is checked: the state is the checks' own.\<close>

definition undisturbed :: "('p, 'k) edge \<Rightarrow> bool" where
  "undisturbed ed \<longleftrightarrow> (\<forall>g. gw_node (eg_meanwhile ed g) = gw_node g)"

lemma credential_check_node:
  "undisturbed ed \<Longrightarrow> credential_check ed token m now g = (g', r) \<Longrightarrow> gw_node g' = gw_node g"
  by (auto simp: credential_check_def undisturbed_def split: prod.splits)

lemma authorize_models_node:
  "undisturbed ed \<Longrightarrow> authorize_models ed token now ms key g = (g', r) \<Longrightarrow> gw_node g' = gw_node g"
proof (induction ms arbitrary: key g)
  case (Cons m ms)
  then show ?case by (auto dest: credential_check_node split: prod.splits sum.splits)
qed simp

text \<open>
  C10: a batch cannot smuggle a model. Creating a batch never panics, and if it changes anything about the node, an
  event or a call of a provider, then the caller presented a credential whose identity was found good, the body
  parsed to a batch, and the models of its items, all of them, were then vetted one after the other: the checks
  start in the gateway the identity check left, each is made in the state the one before left, and each
  allowed its model. The node is then what the engine's \<open>batch_create\<close> makes of it for the identity the last of
  those checks found.
\<close>

theorem batch_models_allowed:
  assumes "undisturbed ed" "create_batch ed hs body g = (g', r)"
  shows "r \<noteq> Panic \<and>
    (gw_node g' \<noteq> gw_node g \<longrightarrow>
      (\<exists>token who spec ms gs ks rid. bearer (eg_to_str ed) hs = Some token \<and>
        parse_batch_create (eg_dbg ed) body = Inr spec \<and>
        set ms = (\<lambda>item. cq_model (bi_request item)) ` set (bs_items spec) \<and>
        credential_check ed token None (now_secs g) g = (hd gs, Inr who) \<and>
        vetted ed token (now_secs g) ms gs ks \<and>
        gw_node g' = fst (batch_create (eg_env ed) (eg_b64 ed) (eg_engine ed) (eg_api ed) (eg_batch ed) spec
          (last ks) rid (gw_node (last gs)))))"
proof (cases "bearer (eg_to_str ed) hs")
  case None
  with assms(2) show ?thesis by (auto simp: create_batch_def authenticated_def)
next
  case (Some token)
  obtain g1 r1 where check: "credential_check ed token None (now_secs g) g = (g1, r1)" by fastforce
  note node1 = credential_check_node [OF assms(1) check]
  show ?thesis
  proof (cases r1)
    case (Inl e)
    with assms(2) Some check node1 show ?thesis by (auto simp: create_batch_def authenticated_refused)
  next
    case (Inr who)
    show ?thesis
    proof (cases "parse_batch_create (eg_dbg ed) body")
      case (Inl e)
      with assms(2) Some check node1 Inr show ?thesis
        by (auto simp: create_batch_def authenticated_def Let_def)
    next
      case spec: (Inr spec)
      obtain g2 r2 where models: "authorize_models ed token (now_secs g) (batch_models spec) None g1 = (g2, r2)"
        by fastforce
      note node2 = authorize_models_node [OF assms(1) models]
      have set: "set (batch_models spec) = (\<lambda>i. cq_model (bi_request i)) ` set (bs_items spec)"
        by (simp add: batch_models_def)
      with parse_batch_nonempty [OF spec] have ne: "batch_models spec \<noteq> []" by (metis image_is_empty set_empty)
      show ?thesis
      proof (cases r2)
        case (Inl e)
        with assms(2) Some check node1 node2 Inr spec models show ?thesis
          by (auto simp: create_batch_def authenticated_def Let_def)
      next
        case keys: (Inr owner)
        from authorize_models_vetted [OF models [unfolded keys]] obtain gs ks
          where chain: "vetted ed token (now_secs g) (batch_models spec) gs ks" "hd gs = g1" "last gs = g2"
            "owner = last (None # map Some ks)" by blast
        with ne have owner: "owner = Some (last ks)" by (auto simp: vetted_def last_map split: if_splits)
        obtain rid g3 where rid: "next_request_id g2 = (rid, g3)" by fastforce
        then have g3: "gw_node g3 = gw_node g2" by (auto simp: next_request_id_def)
        obtain w h where made: "batch_create (eg_env ed) (eg_b64 ed) (eg_engine ed) (eg_api ed) (eg_batch ed) spec
            (last ks) rid (gw_node g2) = (w, h)" by fastforce
        have ended: "r \<noteq> Panic" "gw_node g' = w"
          using assms(2) Some check Inr spec models keys owner rid g3 made
          by (cases h; auto simp: create_batch_def authenticated_def on_node_def Let_def)+
        have chain': "bearer (eg_to_str ed) hs = Some token \<and> parse_batch_create (eg_dbg ed) body = Inr spec \<and>
            set (batch_models spec) = (\<lambda>item. cq_model (bi_request item)) ` set (bs_items spec) \<and>
            credential_check ed token None (now_secs g) g = (hd gs, Inr who) \<and>
            vetted ed token (now_secs g) (batch_models spec) gs ks \<and>
            w = fst (batch_create (eg_env ed) (eg_b64 ed) (eg_engine ed) (eg_api ed) (eg_batch ed) spec
              (last ks) rid (gw_node (last gs)))"
          using Some spec set check Inr chain made by simp
        show ?thesis
          by (intro conjI impI, simp add: ended, rule exI [of _ token], rule exI [of _ who], rule exI [of _ spec],
              rule exI [of _ "batch_models spec"], rule exI [of _ gs], rule exI [of _ ks], rule exI [of _ rid])
            (simp only: ended chain' simp_thms)
      qed
    qed
  qed
qed

section \<open>Three dialects, one path\<close>

text \<open>What becomes of a chat request, whatever the dialect: a stream, a collected response, or a refusal.\<close>

datatype 'p outcome =
    Streams "('p, stream_chunk) relay"
  | Collected chat_response
  | AuthRefused auth_error
  | EngineRefused engine_error
  | StreamBroken model_error

text \<open>The service behind the three endpoints, for a credential and a canonical request, with the id it draws.\<close>

definition collected_outcome ::
  "('p, 'k) edge \<Rightarrow> ('p, stream_chunk) relay \<Rightarrow> ('p, 'k) gateway \<Rightarrow> ('p, 'k) gateway \<times> 'p outcome run" where
  "collected_outcome ed st g =
     (case on_node (drain_relay (eg_engine ed) st) g of
        (g, Panic) \<Rightarrow> (g, Panic)
      | (g, Ret items) \<Rightarrow> (g, Ret (case collect items of Inr resp \<Rightarrow> Collected resp | Inl e \<Rightarrow> StreamBroken e)))"

definition served_chat ::
  "('p, 'k) edge \<Rightarrow> string \<Rightarrow> chat_request \<Rightarrow> ('p, 'k) gateway \<Rightarrow> string \<times> ('p, 'k) gateway \<times> 'p outcome run" where
  "served_chat ed token req g =
     (let now = now_secs g
      in case credential_check ed token None now g of
           (g, Inl e) \<Rightarrow> ([], g, Ret (AuthRefused e))
         | (g, Inr _) \<Rightarrow>
             (case credential_check ed token (Some (cq_model req)) now g of
                (g, Inl e) \<Rightarrow> ([], g, Ret (AuthRefused e))
              | (g, Inr key) \<Rightarrow>
                  (case next_request_id g of (rid, g) \<Rightarrow>
                     (rid, case on_node (run_chat (eg_env ed) (eg_engine ed) (eg_sleep ed) (eg_api ed) (eg_chat ed) req key rid now) g of
                        (g, Panic) \<Rightarrow> (g, Panic)
                      | (g, Ret (Inl e)) \<Rightarrow> (g, Ret (EngineRefused e))
                      | (g, Ret (Inr st)) \<Rightarrow> if cq_stream req then (g, Ret (Streams st)) else collected_outcome ed st g))))"

text \<open>Its outcome in the words of each dialect.\<close>

fun chat_answer :: "string \<Rightarrow> chat_request \<Rightarrow> u64 \<Rightarrow> 'p outcome \<Rightarrow> 'p answer" where
  "chat_answer rid req now (Streams st) = ok_answer (ChatEvents (body_of st
     \<lparr>ce_id = ''chatcmpl-'' @ rid, ce_model = cq_model req, ce_created = now\<rparr> []))"
| "chat_answer rid req now (Collected resp) = ok_answer (Document (response_to_openai resp now))"
| "chat_answer rid req now (AuthRefused e) = auth_error_answer e"
| "chat_answer rid req now (EngineRefused e) = engine_error_answer e"
| "chat_answer rid req now (StreamBroken e) = error_answer 502 (model_error_text e)"

fun messages_answer :: "(string \<Rightarrow> string + json) \<Rightarrow> string \<Rightarrow> chat_request \<Rightarrow> 'p outcome \<Rightarrow> 'p answer" where
  "messages_answer parse rid req (Streams st) =
     ok_answer (MessageEvents (body_of st (encoder_new (''msg_'' @ rid) (cq_model req)) []))"
| "messages_answer parse rid req (Collected resp) =
     ok_answer (Document (ser_anthropic_message (response_to_anthropic parse resp (''msg_'' @ rid))))"
| "messages_answer parse rid req (AuthRefused e) = anthropic_auth_error e"
| "messages_answer parse rid req (EngineRefused e) = anthropic_engine_error e"
| "messages_answer parse rid req (StreamBroken e) = anthropic_error 502 ''api_error'' (model_error_text e)"

fun responses_answer :: "string \<Rightarrow> chat_request \<Rightarrow> u64 \<Rightarrow> 'p outcome \<Rightarrow> 'p answer" where
  "responses_answer rid req now (Streams st) = ok_answer (ResponseFrames (body_of st
     (response_encoder_new rid (cq_model req) now (echo_from_request req)) []))"
| "responses_answer rid req now (Collected resp) =
     ok_answer (Document (response_to_responses resp (echo_from_request req) now))"
| "responses_answer rid req now outcome = chat_answer rid req now outcome"

fun map_run :: "('a \<Rightarrow> 'b) \<Rightarrow> 'a run \<Rightarrow> 'b run" where
  "map_run f (Ret x) = Ret (f x)"
| "map_run f Panic = Panic"

text \<open>What a client acts on: the status, the headers, and the message of an error.\<close>

definition error_message :: "'p answer \<Rightarrow> string option" where
  "error_message a =
     (case an_body a of
        Document v \<Rightarrow> Option.bind (json_get v ''error'') (\<lambda>e. get_str e ''message'')
      | _ \<Rightarrow> None)"

definition same_verdict :: "'p answer \<Rightarrow> 'p answer \<Rightarrow> bool" where
  "same_verdict a b \<longleftrightarrow>
     an_status a = an_status b \<and> an_headers a = an_headers b \<and>
     (an_status a \<noteq> 200 \<longrightarrow> error_message a \<noteq> None \<and> error_message a = error_message b)"

lemma refusals [simp]:
  "an_status (error_answer status m) = status" "an_status (anthropic_error status kind m) = status"
  "an_headers (error_answer status m) = []" "an_headers (anthropic_error status kind m) = []"
  "error_message (error_answer status m) = Some m" "error_message (anthropic_error status kind m) = Some m"
  "an_status (with_retry_after a secs) = an_status a" "error_message (with_retry_after a secs) = error_message a"
  "an_headers (with_retry_after a secs) = an_headers a @ [(''retry-after'', decimal (unat secs))]"
  "an_status (ok_answer b) = 200" "an_headers (ok_answer b) = []"
  by (simp_all add: error_answer_def anthropic_error_def error_message_def get_str_def hm_get_def with_retry_after_def
      ok_answer_def)

lemma same_refusals:
  "same_verdict (auth_error_answer e) (anthropic_auth_error e)"
  "same_verdict (engine_error_answer e') (anthropic_engine_error e')"
  "\<exists>m. error_message (auth_error_answer e) = Some m" "\<exists>m. error_message (engine_error_answer e') = Some m"
proof -
  show "same_verdict (auth_error_answer e) (anthropic_auth_error e)" "\<exists>m. error_message (auth_error_answer e) = Some m"
    by (cases e; simp add: same_verdict_def)+
  show "same_verdict (engine_error_answer e') (anthropic_engine_error e')" "\<exists>m. error_message (engine_error_answer e') = Some m"
    by (cases e'; simp add: same_verdict_def)+
qed

lemma verdicts_agree:
  "same_verdict (chat_answer rid req now x) (messages_answer parse rid req x) \<and>
     same_verdict (chat_answer rid req now x) (responses_answer rid req now x)"
  using same_refusals by (cases x) (auto simp: same_verdict_def)

lemma collected_renders:
  "(\<And>resp. ok_answer (Document (doc resp)) = render (Collected resp)) \<Longrightarrow>
     (\<And>e. fail (model_error_text e) = render (StreamBroken e)) \<Longrightarrow>
     collected_answer ed st fail doc g = map_prod id (map_run render) (collected_outcome ed st g)"
  by (simp add: collected_answer_def collected_outcome_def split: prod.split run.split sum.split)

text \<open>
  C8: the dialect changes, the path does not. Where an OpenAI body, a Messages body and a Responses body say the
  same request, and the same credential is presented, each endpoint is the one service
  \<open>served_chat\<close>, its outcome rendered in the words of the dialect: the same checks, the same dispatch,
  the same events, the same state of the gateway and the same panic, if any. The three renderings agree in
  status, in the retry delay and in the message of an error.
\<close>

theorem dialects_agree:
  assumes "bearer (eg_to_str ed) hs = Some token" "anthropic_key (eg_to_str ed) hs' = Some token"
    and "parse_chat_request (eg_dbg ed) body1 = Inr req"
    and "parse_messages_request (eg_print ed) (eg_dbg ed) body2 = Inr req"
    and "parse_responses_request (eg_dbg ed) (eg_dbgs ed) body3 = Inr req"
    and served: "served_chat ed token req g = (rid, g', r)"
  shows "chat_completions ed hs body1 g = (g', map_run (chat_answer rid req (now_secs g)) r) \<and>
    messages_handler ed hs' body2 g = (g', map_run (messages_answer (eg_parse ed) rid req) r) \<and>
    responses_create ed hs body3 g = (g', map_run (responses_answer rid req (now_secs g)) r) \<and>
    (\<forall>x. same_verdict (chat_answer rid req (now_secs g) x) (messages_answer (eg_parse ed) rid req x) \<and>
       same_verdict (chat_answer rid req (now_secs g) x) (responses_answer rid req (now_secs g) x))"
proof -
  note defs = authenticated_def admitted_def Let_def served_chat_def assms
  note splits = prod.splits sum.splits run.splits if_splits
  have "chat_completions ed hs body1 g = (g', map_run (chat_answer rid req (now_secs g)) r)"
    using served by (auto simp: chat_completions_def defs collected_renders [where render = "chat_answer rid req (now_secs g)"] split: splits)
  moreover have "messages_handler ed hs' body2 g = (g', map_run (messages_answer (eg_parse ed) rid req) r)"
    using served by (auto simp: messages_handler_def defs collected_renders [where render = "messages_answer (eg_parse ed) rid req"] split: splits)
  moreover have "responses_create ed hs body3 g = (g', map_run (responses_answer rid req (now_secs g)) r)"
    using served by (auto simp: responses_create_def defs collected_renders [where render = "responses_answer rid req (now_secs g)"] split: splits)
  ultimately show ?thesis using verdicts_agree by blast
qed

section \<open>Speech\<close>

text \<open>The audio of a provider's stream, and the type it announces before any error.\<close>

definition audio_of :: "(model_error + audio_chunk) list \<Rightarrow> string list" where
  "audio_of items = concat (map (\<lambda>x. case x of Inr c \<Rightarrow> audio_payload c | Inl _ \<Rightarrow> []) (upto_error items))"

fun announced :: "(model_error + audio_chunk) list \<Rightarrow> string option" where
  "announced (Inr (AudioStart ct) # items) = Some ct"
| "announced (Inr _ # items) = announced items"
| "announced _ = None"

lemma audio_of_reprice: "audio_of (map (reprice see_audio pr model) items) = audio_of items"
proof (induction items rule: upto_error.induct)
  case (3 c xs)
  then show ?case by (cases c) (simp_all add: audio_of_def)
qed (simp_all add: audio_of_def)

lemma stream_events_relays:
  "relays st rest st1 \<Longrightarrow> ry_finish st1 = finish_of see (ry_finish st) [x] \<Longrightarrow> \<not> isl x \<Longrightarrow>
     item_events see pr (ry_id st) (ry_key st) (ry_model st) x @ stream_events see pr st1 items =
       stream_events see pr st (x # items)"
  by (cases x) (simp_all add: stream_events_def relays_def cong: if_cong)

text \<open>Opening an audio answer takes the head off the stream and keeps its data.\<close>

lemma open_audio_spec:
  assumes "ry_phase st = Streaming" "ry_inner st = scripted script" "script_calm (ry_id st) script"
    and "open_audio en early st w = (w1, Ret (Announced ct, early1, st1))"
  shows "ct = announced (map snd script) \<and> ry_id st1 = ry_id st \<and> same_permits (held st w) (held st1 w1) \<and>
    (ry_phase st1 = Ended \<and> early1 = early @ audio_of (map snd script) \<and>
       own (ry_id st) w1 = own (ry_id st) w @ stream_events see_audio (en_pricing en) st (map snd script) \<or>
     (\<exists>rest. ry_phase st1 = Streaming \<and> ry_inner st1 = scripted rest \<and> script_calm (ry_id st1) rest \<and>
        early1 @ audio_of (map snd rest) = early @ audio_of (map snd script) \<and>
        own (ry_id st) w1 @ stream_events see_audio (en_pricing en) st1 (map snd rest) =
          own (ry_id st) w @ stream_events see_audio (en_pricing en) st (map snd script)))"
  using assms
proof (induction script arbitrary: st w early)
  case Nil
  then show ?case
    by (subst (asm) open_audio.simps)
      (auto simp: relay_next_cases(1) held_def node_limits stream_events_def audio_of_def same_permits_refl)
next
  case (Cons gx rest)
  obtain g x where gx: "gx = (g, x)" by (cases gx)
  have inner: "ry_inner st = scripted ((g, x) # rest)" and calm: "own (ry_id st) (g w) = own (ry_id st) w"
      "same_permits (nd_limits w) (nd_limits (g w))" and calm': "script_calm (ry_id st) rest"
    using Cons.prems(2,3) by (simp_all add: gx script_calm_Cons)
  from Cons.prems(1) inner calm show ?case
  proof (cases rule: relay_next_item [where en = en and see = see_audio])
    case (panic w2)
    with Cons.prems(4) show ?thesis by (subst (asm) open_audio.simps) auto
  next
    case (item w2 st2)
    show ?thesis
    proof (cases x)
      case (Inl e)
      with item Cons.prems(4) show ?thesis by (subst (asm) open_audio.simps) auto
    next
      case (Inr c)
      have fresh: "ry_phase st2 = Streaming" "ry_inner st2 = scripted rest" "script_calm (ry_id st2) rest" "ry_id st2 = ry_id st"
        using item(4,5) calm' by (simp_all add: Inr relays_def)
      have ev: "own (ry_id st) w2 @ stream_events see_audio (en_pricing en) st2 (map snd rest) =
          own (ry_id st) w @ stream_events see_audio (en_pricing en) st (map snd (gx # rest))"
        using stream_events_relays [OF item(4,6), of "en_pricing en" "map snd rest"] item(2) by (simp add: gx Inr)
      note permits = same_permits_trans [OF item(3)]
      have go: ?thesis if more: "open_audio en (early @ audio_payload c) st2 w2 = (w1, Ret (Announced ct, early1, st1))"
        and quiet: "\<forall>t. c \<noteq> AudioStart t"
      proof -
        have "announced (map snd (gx # rest)) = announced (map snd rest)" using quiet by (cases c) (simp_all add: gx Inr)
        moreover have "audio_of (map snd (gx # rest)) = audio_payload c @ audio_of (map snd rest)"
          by (simp add: audio_of_def gx Inr)
        ultimately show ?thesis
          using Cons.IH [OF fresh(1-3) more] fresh(4) permits ev by (auto simp: simp flip: ev)
      qed
      show ?thesis
      proof (cases c)
        case (AudioStart t)
        then have "w1 = w2 \<and> st1 = st2 \<and> ct = Some t \<and> early1 = early"
          using Cons.prems(4) by (subst (asm) open_audio.simps) (auto simp: item(1) Inr)
        then show ?thesis
          using fresh ev item(3) by (auto simp: gx Inr AudioStart audio_of_def)
      next
        case (AudioData b)
        then show ?thesis
          using Cons.prems(4) by (intro go) (subst (asm) open_audio.simps, auto simp: item(1) Inr)
      next
        case (AudioUsage u)
        then show ?thesis
          using Cons.prems(4) by (intro go) (subst (asm) open_audio.simps, auto simp: item(1) Inr)
      next
        case AudioFinish
        then show ?thesis
          using Cons.prems(4) by (intro go) (subst (asm) open_audio.simps, auto simp: item(1) Inr)
      qed
    qed
  qed
qed

lemma read_ended:
  assumes "ry_phase (bd_relay b) = Ended" "bd_more b" "dl_finish dl (bd_encoder b) = []"
  shows "read_body en dl n b w =
    (w, take n (bd_queue b), Ret (length (bd_queue b) < n))"
  using assms
proof (induction n arbitrary: b)
  case 0
  then show ?case by (simp add: body_drop_def relay_drop_def)
next
  case (Suc n)
  show ?case
  proof (cases "bd_queue b")
    case Nil
    have closed: "body_next en dl (b\<lparr>bd_queue := [], bd_more := False\<rparr>) w =
        (w, Ret (b\<lparr>bd_queue := [], bd_more := False, bd_relay := (bd_relay b)\<lparr>ry_phase := Ended\<rparr>\<rparr>, None))"
      using Suc.prems(1) by (subst body_next.simps) (simp add: relay_drop_def)
    have "body_next en dl b w = body_next en dl (b\<lparr>bd_queue := [], bd_more := False\<rparr>) w"
      using Suc.prems by (subst body_next.simps) (simp add: Nil relay_next_def)
    then show ?thesis by (simp add: closed Nil body_drop_def relay_drop_def)
  next
    case (Cons f fs)
    have "body_next en dl b w = (w, Ret (b\<lparr>bd_queue := fs\<rparr>, Some f))" by (subst body_next.simps) (simp add: Cons)
    with Suc.IH [of "b\<lparr>bd_queue := fs\<rparr>"] Suc.prems show ?thesis by (simp add: Cons)
  qed
qed

text \<open>
  speech loses no byte. An audio answer is headed by the type the provider announces before any error, if any, and
  its body, read to its end, is exactly the data of the provider's stream up to its first error, in
  order, what came before the announcement included; by then the bus has every event of the stream and the
  admission guard has been given back.
\<close>

theorem speech_keeps_bytes:
  assumes "ds_value d = scripted script" "script_calm (ds_request_id d) script"
    and "open_audio en [] (relay_of d) w = (w1, Ret (Announced ct, early, st))"
    and "read_body en audio_dialect n (body_of st () early) w1 = (w2, bytes, Ret True)"
  shows "ct = announced (map snd script) \<and> bytes = audio_of (map snd script) \<and>
    same_permits (drop_guard (nd_limits w) (ds_guard d)) (nd_limits w2) \<and>
    own (ds_request_id d) w2 = own (ds_request_id d) w @
      concat (map (item_events see_audio (en_pricing en) (ds_request_id d) (ds_key d) (ds_model d)) (upto_error (map snd script))) @
      (if list_all (\<lambda>x. \<not> isl x) (map snd script)
       then [RequestCompleted (ds_request_id d) (finish_of see_audio None (map snd script))] else [])"
proof -
  have calm: "script_calm (ry_id (relay_of d)) script" using assms(2) by simp
  note opened = open_audio_spec [OF _ _ calm assms(3)]
  have whole: "ct = announced (map snd script) \<and> bytes = audio_of (map snd script) \<and>
    same_permits (held (relay_of d) w) (nd_limits w2) \<and>
    own (ds_request_id d) w2 = own (ds_request_id d) w @ stream_events see_audio (en_pricing en) (relay_of d) (map snd script)"
  proof (cases "ry_phase st = Ended")
    case True
    then have "read_body en audio_dialect n (body_of st () early) w1 = (w1, take n early, Ret (length early < n))"
      by (subst read_ended) (simp_all add: body_of_def audio_dialect_def)
    with assms(4) have "w2 = w1" "bytes = early" by auto
    with opened assms(1) True show ?thesis by (auto simp: held_def)
  next
    case False
    with opened assms(1) obtain rest where st: "ry_phase st = Streaming" "ry_inner st = scripted rest" "script_calm (ry_id st) rest"
      and kept: "early @ audio_of (map snd rest) = audio_of (map snd script)"
      and ev: "own (ds_request_id d) w1 @ stream_events see_audio (en_pricing en) st (map snd rest) =
        own (ds_request_id d) w @ stream_events see_audio (en_pricing en) (relay_of d) (map snd script)"
      and same: "ct = announced (map snd script)" "ry_id st = ds_request_id d" "same_permits (held (relay_of d) w) (held st w1)"
      by auto
    have ok: "body_ok rest (body_of st () early)" using st by (simp add: body_ok_def body_of_def)
    have "audio_of (map (reprice see_audio (en_pricing en) (ry_model st) \<circ> snd) rest) = audio_of (map snd rest)"
      using audio_of_reprice [of "en_pricing en" "ry_model st" "map snd rest"] by simp
    with body_read [OF ok assms(4)] kept ev same same_permits_trans [OF same(3)] show ?thesis
      by (auto simp: rest_frames_def rest_events_def body_of_def frames_of_audio audio_of_reprice
          simp flip: audio_of_def) (simp_all add: audio_dialect_def)
  qed
  then show ?thesis by (simp add: stream_events_start)
qed

section \<open>Examples\<close>

text \<open>A gateway with one key and no OAuth, over the example engine; its providers answer one word.\<close>

definition no_codec :: "'r codec" where "no_codec = \<lparr>cd_to_value = \<lambda>_. None, cd_from_value = \<lambda>_. Inl []\<rparr>"

definition ex_api :: "nat \<Rightarrow> nat node provider_api" where
  "ex_api p = provider_default ''x'' (\<lambda>req cx w. (w, Inr [\<lambda>w. (w, Inr (Content 0 ''hi'')), \<lambda>w. (w, Inr (Finish 0 Stop))]))"

definition ex_edge :: "(nat, nat) edge" where
  "ex_edge =
     \<lparr>eg_env = \<lambda>_. None, eg_engine = ex_engine, eg_sleep = \<lambda>_ w. w, eg_api = ex_api, eg_verify = (=), eg_jwt = ex_jwt,
      eg_introspect = \<lambda>_. Inr True, eg_meanwhile = id, eg_to_str = Some, eg_header_ok = \<lambda>_. True, eg_dbg = \<lambda>_. [],
      eg_dbgs = \<lambda>_. [],
      eg_print = \<lambda>_. [], eg_parse = Inl, eg_le_bytes = \<lambda>_. [], eg_wide = id, eg_b64 = id, eg_unb64 = Some,
      eg_chat = no_codec, eg_embedding = no_codec, eg_rerank = no_codec, eg_decisions = no_codec,
      eg_speech = no_codec, eg_transcription = no_codec, eg_batch = no_codec\<rparr>"

definition ex_gateway :: "(nat, nat) gateway" where
  "ex_gateway = \<lparr>gw_auth = \<lparr>as_oauth = None, as_keys = ex_store\<rparr>, gw_node = ex_node, gw_seq = 0\<rparr>"

lemma ex_header: "bearer Some [(''authorization'', ''Bearer '' @ t)] = Some t"
  by (simp add: bearer_def header_def)

lemma ex_refused: "\<exists>st. dispatch_token (=) ex_jwt i \<lparr>as_oauth = None, as_keys = ex_store\<rparr> ''nobody'' None 0 = (Inl Unknown, st)"
proof -
  have "warm_path ex_snapshot hm_empty ''nobody'' None 0 = None" by code_simp
  moreover have "co_result (cold_path (=) ex_snapshot ''nobody'' None 0) = Inl Unknown" by code_simp
  ultimately show ?thesis by (simp add: dispatch_token_def authorize_inner_def ex_store_def Let_def)
qed

text \<open>A body that says the same in both dialects, and a batch of one such request.\<close>

lemma gateway_body_messages: "parse_messages_request print dbg gateway_body = Inr gateway_request"
  by (simp add: gateway_body_def parse_messages_object gateway_request_def remainder_def parse_turn_def
      parse_user_content_def system_messages_def system_text_def message_text_def absent_messages
      hm_get_def hm_remove_def)

definition responses_body :: json where
  "responses_body = JObject [(''model'', JString ''fast''), (''input'', JString ''hi''),
     (''max_output_tokens'', JNumber (PosInt 5)), (''seed'', JNumber (PosInt 7))]"

lemma responses_body_parsed: "parse_responses_request dbg dbgs responses_body = Inr gateway_request"
  by (simp add: responses_body_def parse_responses_request_def gateway_request_def previous_id_ok_def store_ok_def
      instruction_messages_def parse_response_input_def message_text_def parse_flat_tools_def parse_flat_choice_def
      take_reasoning_def get_str_def hm_get_def hm_remove_def Let_def)

theorem dialects_agree_witness:
  "\<exists>rid g' r. chat_completions ex_edge [(''authorization'', ''Bearer k'')] gateway_body ex_gateway =
       (g', map_run (chat_answer rid gateway_request (now_secs ex_gateway)) r) \<and>
     messages_handler ex_edge [(''x-api-key'', ''k'')] gateway_body ex_gateway =
       (g', map_run (messages_answer (eg_parse ex_edge) rid gateway_request) r) \<and>
     responses_create ex_edge [(''authorization'', ''Bearer k'')] responses_body ex_gateway =
       (g', map_run (responses_answer rid gateway_request (now_secs ex_gateway)) r)"
proof -
  have b: "bearer (eg_to_str ex_edge) [(''authorization'', ''Bearer k'')] = Some ''k''"
    using ex_header [of "''k''"] by (simp add: ex_edge_def)
  have a: "anthropic_key (eg_to_str ex_edge) [(''x-api-key'', ''k'')] = Some ''k''"
    by (simp add: anthropic_key_def header_def ex_edge_def)
  obtain rid g' r where "served_chat ex_edge ''k'' gateway_request ex_gateway = (rid, g', r)" by (rule prod_cases3)
  from dialects_agree [OF b a gateway_body_parsed gateway_body_messages responses_body_parsed this] show ?thesis by blast
qed

theorem batch_models_allowed_witness:
  "snd (create_batch ex_edge [(''authorization'', ''Bearer k'')]
     (JObject [(''requests'', JArray [JObject [(''custom_id'', JString ''a''), (''body'', gateway_body)]])]) ex_gateway) \<noteq> Panic"
proof -
  have "undisturbed ex_edge" by (simp add: undisturbed_def ex_edge_def)
  from batch_models_allowed [OF this prod.collapse [symmetric]] show ?thesis by blast
qed

definition ex_speech :: "((nat node \<Rightarrow> nat node) \<times> (model_error + audio_chunk)) list" where
  "ex_speech = [(id, Inr (AudioData ''x'')), (id, Inr (AudioStart ''audio/ogg'')), (id, Inr (AudioData ''y'')),
     (id, Inr AudioFinish)]"

definition ex_audio :: "(nat node, audio_chunk) polls dispatched" where
  "ex_audio =
     \<lparr>ds_value = scripted ex_speech, ds_request_id = ''r'', ds_key = ''k'', ds_model = ''m'', ds_provider = ''b'',
      ds_upstream = ''u'', ds_rate = hm_empty, ds_guard = guard_empty\<rparr>"

lemma ex_opened:
  "open_audio ex_engine [] (relay_of ex_audio) ex_node =
     (ex_node, Ret (Announced (Some ''audio/ogg''), [''x''], (relay_of ex_audio)\<lparr>ry_inner := scripted (drop 2 ex_speech)\<rparr>))"
  by (subst open_audio.simps, simp add: ex_audio_def ex_speech_def relay_of_def relay_next_def relay_chunk_def)
    (subst open_audio.simps, simp add: relay_next_def relay_chunk_def)

theorem speech_keeps_bytes_witness:
  "fst (snd (read_body ex_engine audio_dialect 9 (body_of ((relay_of ex_audio)\<lparr>ry_inner := scripted (drop 2 ex_speech)\<rparr>)
     () [''x'']) ex_node)) = [''x'', ''y'']"
proof -
  let ?st = "(relay_of ex_audio)\<lparr>ry_inner := scripted (drop 2 ex_speech)\<rparr>"
  have stream: "ds_value ex_audio = scripted ex_speech" by (simp add: ex_audio_def)
  have calm: "script_calm (ds_request_id ex_audio) ex_speech" by (simp add: script_calm_def ex_speech_def)
  have "\<exists>w bytes. read_body ex_engine audio_dialect 9 (body_of ?st () [''x'']) ex_node = (w, bytes, Ret True)"
    by (simp add: numeral_eq_Suc body_next.simps body_of_def audio_dialect_def relay_next_def relay_chunk_def
        relay_of_def ex_audio_def ex_speech_def)
  then obtain w bytes where read: "read_body ex_engine audio_dialect 9 (body_of ?st () [''x'']) ex_node = (w, bytes, Ret True)"
    by blast
  from speech_keeps_bytes [OF stream calm ex_opened read] show ?thesis
    unfolding read by (simp add: ex_speech_def audio_of_def)
qed

end
