(* ===== verification/Catalog.thy ===== *)
theory Catalog
  imports Gate
begin

text \<open>
  The model catalogue, \<open>list_models\<close> of \<open>crates/llmleaf-core/src/server.rs\<close>: the models the node serves, from
  its routes and the upstream catalogues of its namespaces, completed from the bundled price table,
  scoped to the caller, filtered, and rendered; and the administrative view that adds where each is served.
  With the last handler defined, it ends with what every endpoint has in common: nothing is done for a
  caller without a good credential.
\<close>

section \<open>Entries\<close>

datatype source = FromRoute | FromPrefix

record model_entry =
  se_source :: source
  se_meta :: "model_info option"
  se_callable :: bool
  se_provider :: "string option"
  se_upstream :: "string option"

definition modality_arrays :: "json_map \<Rightarrow> bool" where
  "modality_arrays arch =
     list_ex (\<lambda>k. is_some_and (\<lambda>xs. xs \<noteq> []) (Option.bind (hm_get arch k) as_array))
       [''input_modalities'', ''output_modalities'']"

definition published_architecture :: "json_map \<Rightarrow> json_map option" where
  "published_architecture extra =
     (case Option.bind (hm_get extra ''architecture'') as_object of
        Some arch \<Rightarrow> if modality_arrays arch then Some arch else None
      | None \<Rightarrow> None)"

definition card_architecture :: "string list \<Rightarrow> string list \<Rightarrow> json" where
  "card_architecture inputs outputs = JObject
     [(''modality'', JString (join_with ''+'' inputs @ ''->'' @ join_with ''+'' outputs)),
      (''input_modalities'', JArray (map JString inputs)), (''output_modalities'', JArray (map JString outputs)),
      (''tokenizer'', JString ''Other''), (''instruct_type'', JNull)]"

text \<open>The fields a provider leaves open are filled from the card of the price table.\<close>

definition enrich_architecture :: "model_card \<Rightarrow> model_info \<Rightarrow> model_info" where
  "enrich_architecture c info =
     (if published_architecture (mi_extra info) \<noteq> None then info
      else case (mc_input_modalities c, mc_output_modalities c) of
        (Some inputs, Some outputs) \<Rightarrow>
          info\<lparr>mi_extra := hm_insert ''architecture'' (card_architecture inputs outputs) (mi_extra info)\<rparr>
      | _ \<Rightarrow> info)"

definition enrich_extra :: "string \<Rightarrow> json option \<Rightarrow> model_info \<Rightarrow> model_info" where
  "enrich_extra k v info =
     (if hm_contains (mi_extra info) k then info
      else case v of None \<Rightarrow> info | Some x \<Rightarrow> info\<lparr>mi_extra := hm_insert k x (mi_extra info)\<rparr>)"

definition enrich_prices :: "bool \<Rightarrow> model_card \<Rightarrow> model_info \<Rightarrow> model_info" where
  "enrich_prices allowed c info =
     (if \<not> allowed then info
      else info\<lparr>mi_input_per_mtok := or_else (mi_input_per_mtok info) (mc_input_per_mtok c),
        mi_cached_input_per_mtok := or_else (mi_cached_input_per_mtok info) (mc_cached_input_per_mtok c),
        mi_output_per_mtok := or_else (mi_output_per_mtok info) (mc_output_per_mtok c)\<rparr>)"

definition enrich_capabilities :: "model_card \<Rightarrow> model_info \<Rightarrow> model_info" where
  "enrich_capabilities c info =
     info\<lparr>mi_modality := or_else (mi_modality info) (mc_modality c),
       mi_max_context := or_else (mi_max_context info) (mc_max_context c),
       mi_max_output := or_else (mi_max_output info) (mc_max_output c),
       mi_max_thinking := or_else (mi_max_thinking info) (mc_max_thinking c),
       mi_supports_reasoning := or_else (mi_supports_reasoning info) (mc_supports_reasoning c)\<rparr>"

definition enrich_parameters :: "model_card \<Rightarrow> model_info \<Rightarrow> model_info" where
  "enrich_parameters c info =
     (let info = (if mi_unsupported_parameters info = []
            then (case mc_unsupported_parameters c of None \<Rightarrow> info
              | Some u \<Rightarrow> info\<lparr>mi_unsupported_parameters := u\<rparr>) else info)
      in if mi_default_parameters info = []
         then (case mc_default_parameters c of None \<Rightarrow> info
           | Some d \<Rightarrow> info\<lparr>mi_default_parameters := d\<rparr>) else info)"

definition enrich :: "model_info \<Rightarrow> model_card option \<Rightarrow> model_info" where
  "enrich info known =
     (case known of
        None \<Rightarrow> info
      | Some c \<Rightarrow>
          (let allowed = (mi_allow_pricing_enrichment info \<noteq> Some False);
               info = enrich_architecture c info;
               info = enrich_capabilities c info;
               info = enrich_prices allowed c info;
               info = enrich_extra ''tier'' (map_option JString (mc_tier c)) info;
               info = enrich_extra ''prompts_used_for_training'' (map_option JBool (mc_prompts_used_for_training c)) info
           in enrich_parameters c info))"

section \<open>The query\<close>

definition parse_modality_filter :: "string option \<Rightarrow> string + modality option" where
  "parse_modality_filter raw =
     (case map_option str_trim raw of
        None \<Rightarrow> Inr None
      | Some s \<Rightarrow>
          if s = [] \<or> s = ''all'' then Inr None
          else if s = ''llm'' then Inr (Some Llm)
          else if s = ''tts'' then Inr (Some Tts)
          else if s = ''stt'' then Inr (Some Stt)
          else if s = ''embedding'' then Inr (Some Embeddings)
          else if s = ''rerank'' then Inr (Some Rerank)
          else if s = ''decisions'' then Inr (Some Decisions)
          else Inl (''unknown type '' @ in_quotes s @ '' (expected all|llm|tts|stt|embedding|rerank|decisions)''))"

fun str_contains :: "string \<Rightarrow> string \<Rightarrow> bool" where
  "str_contains needle [] \<longleftrightarrow> needle = []"
| "str_contains needle (c # s) \<longleftrightarrow> take (length needle) (c # s) = needle \<or> str_contains needle s"

section \<open>Rendering\<close>

definition opt_u32 :: "u32 option \<Rightarrow> json" where
  "opt_u32 v = json_opt json_u32 v"

fun coarse_architecture :: "modality option \<Rightarrow> string list \<times> string list \<times> string option" where
  "coarse_architecture (Some Llm) = ([''text''], [''text''], Some ''text->text'')"
| "coarse_architecture (Some Tts) = ([''text''], [''audio''], Some ''text->audio'')"
| "coarse_architecture (Some Stt) = ([''audio''], [''text''], Some ''audio->text'')"
| "coarse_architecture (Some Embeddings) = ([''text''], [''embeddings''], Some ''text->embeddings'')"
| "coarse_architecture (Some Rerank) = ([''text''], [''scores''], Some ''text->scores'')"
| "coarse_architecture (Some Decisions) = ([''text''], [''decisions''], Some ''text->decisions'')"
| "coarse_architecture None = ([], [], None)"

definition architecture_json :: "modality option \<Rightarrow> json" where
  "architecture_json m =
     (case coarse_architecture m of (inputs, outputs, name) \<Rightarrow> JObject
        [(''input_modalities'', JArray (map JString inputs)), (''output_modalities'', JArray (map JString outputs)),
         (''modality'', json_opt JString name), (''tokenizer'', JString ''Other''), (''instruct_type'', JNull)])"

definition architecture_value :: "model_info option \<Rightarrow> modality option \<Rightarrow> json" where
  "architecture_value meta m =
     (case Option.bind meta (\<lambda>i. published_architecture (mi_extra i)) of
        Some arch \<Rightarrow> JObject arch
      | None \<Rightarrow> architecture_json m)"

text \<open>\<open>format!("{:.12}")\<close>: the nearest decimal with twelve places, ties to even, its sign kept.\<close>

fun pad_left :: "nat \<Rightarrow> string \<Rightarrow> string" where
  "pad_left n s = replicate (n - length s) (CHR ''0'') @ s"

definition fixed12 :: "real \<Rightarrow> string" where
  "fixed12 x =
     (let n = nat (round_half_even (\<bar>x\<bar> * 10 ^ 12))
      in (if x < 0 then ''-'' else []) @ decimal (n div 10 ^ 12) @ ''.'' @ pad_left 12 (decimal (n mod 10 ^ 12)))"

definition trim_end_char :: "char \<Rightarrow> string \<Rightarrow> string" where
  "trim_end_char c s = rev (dropWhile (\<lambda>d. d = c) (rev s))"

definition per_token_str :: "real \<Rightarrow> string" where
  "per_token_str per_mtok =
     (let per_token = fdiv per_mtok 1000000
      in if per_token = 0 then ''0'' else trim_end_char (CHR ''.'') (trim_end_char (CHR ''0'') (fixed12 per_token)))"

definition pricing_json :: "model_info option \<Rightarrow> json" where
  "pricing_json meta =
     (case meta of
        None \<Rightarrow> JNull
      | Some i \<Rightarrow>
          if mi_input_per_mtok i = None \<and> mi_cached_input_per_mtok i = None \<and> mi_output_per_mtok i = None then JNull
          else JObject
            (field ''prompt'' (JString (per_token_str (unwrap_or 0 (mi_input_per_mtok i)))) @
             field ''completion'' (JString (per_token_str (unwrap_or 0 (mi_output_per_mtok i)))) @
             opt_field ''input_cache_read'' (\<lambda>c. JString (per_token_str c)) (mi_cached_input_per_mtok i)))"

fun modality_parameters :: "modality option \<Rightarrow> string list" where
  "modality_parameters (Some Llm) = [''max_tokens'', ''temperature'', ''top_p'', ''stop'', ''frequency_penalty'',
     ''presence_penalty'', ''tools'', ''tool_choice'']"
| "modality_parameters (Some Tts) = [''voice'', ''response_format'', ''speed'']"
| "modality_parameters (Some Stt) = [''language'', ''prompt'', ''response_format'', ''temperature'']"
| "modality_parameters (Some Embeddings) = [''encoding_format'', ''dimensions'']"
| "modality_parameters (Some Rerank) = [''query'', ''documents'', ''top_n'', ''return_documents'']"
| "modality_parameters (Some Decisions) = [''state'', ''questions'']"
| "modality_parameters None = []"

definition supported_parameters :: "modality option \<Rightarrow> bool \<Rightarrow> string list \<Rightarrow> json" where
  "supported_parameters m has_thinking excluded =
     JArray (map JString (filter (\<lambda>p. p \<notin> set excluded)
       (modality_parameters m @ (if has_thinking then [''reasoning'', ''include_reasoning'', ''reasoning_effort''] else []))))"

definition endpoints_json :: "string \<Rightarrow> model_entry \<Rightarrow> 'p node \<Rightarrow> u64 \<Rightarrow> json" where
  "endpoints_json mid entry w now =
     (if se_source entry = FromPrefix then
        (let provider = unwrap_or ''?'' (se_provider entry)
         in JArray [JObject [(''provider'', JString provider), (''model'', JString (unwrap_or ''*'' (se_upstream entry))),
              (''down'', JBool (is_down (nd_health w) provider now)), (''source'', JString ''prefix'')]])
      else case resolve_targets w mid of
        Some targets \<Rightarrow>
          JArray (map (\<lambda>t. JObject [(''provider'', JString (tg_provider t)),
            (''model'', JString (unwrap_or mid (tg_model t))),
            (''down'', JBool (is_down (nd_health w) (tg_provider t) now)), (''source'', JString ''route'')]) targets)
      | None \<Rightarrow> JArray [])"

definition top_provider :: "model_info option \<Rightarrow> json" where
  "top_provider meta = JObject
     (field ''context_length'' (opt_u32 (Option.bind meta mi_max_context)) @
      field ''max_completion_tokens'' (opt_u32 (Option.bind meta mi_max_output)) @
      field ''is_moderated'' (JBool False) @
      opt_field ''max_thinking_tokens'' json_u32 (Option.bind meta mi_max_thinking))"

definition render_model :: "string \<Rightarrow> model_entry \<Rightarrow> bool \<Rightarrow> 'p node \<Rightarrow> u64 \<Rightarrow> json" where
  "render_model mid entry admin w now =
     (let meta = se_meta entry;
          modality = Option.bind meta mi_modality;
          supports_reasoning = unwrap_or (Option.bind meta mi_max_thinking \<noteq> None) (Option.bind meta mi_supports_reasoning);
          excluded = (case meta of None \<Rightarrow> [] | Some i \<Rightarrow> mi_unsupported_parameters i);
          defaults = (case meta of None \<Rightarrow> [] | Some i \<Rightarrow> mi_default_parameters i);
          obj = hm_insert ''id'' (JString mid) hm_empty;
          obj = hm_insert ''canonical_slug'' (JString mid) obj;
          obj = hm_insert ''name'' (JString (unwrap_or mid (Option.bind meta mi_name))) obj;
          obj = hm_insert ''created'' (JNumber (PosInt 0)) obj;
          obj = hm_insert ''description'' (JString []) obj;
          obj = hm_insert ''context_length'' (opt_u32 (Option.bind meta mi_max_context)) obj;
          obj = hm_insert ''architecture'' (architecture_value meta modality) obj;
          obj = hm_insert ''pricing'' (pricing_json meta) obj;
          obj = hm_insert ''top_provider'' (top_provider meta) obj;
          obj = hm_insert ''per_request_limits'' JNull obj;
          obj = hm_insert ''supports_compaction'' (JBool (se_callable entry \<and>
            (modality = None \<or> modality = Some Llm) \<and> Option.bind meta mi_supports_compaction = Some True)) obj;
          obj = opt_insert ''tier'' id (Option.bind meta (\<lambda>i. hm_get (mi_extra i) ''tier'')) obj;
          obj = opt_insert ''prompts_used_for_training'' id
            (Option.bind meta (\<lambda>i. hm_get (mi_extra i) ''prompts_used_for_training'')) obj;
          obj = hm_insert ''supported_parameters''
            (case Option.bind meta mi_supported_parameters of
               Some ps \<Rightarrow> JArray (map JString ps)
             | None \<Rightarrow> supported_parameters modality supports_reasoning excluded) obj;
          obj = if_insert ''unsupported_parameters'' (JArray (map JString excluded)) (excluded \<noteq> []) obj;
          obj = if_insert ''default_parameters'' (JObject defaults) (defaults \<noteq> []) obj;
          obj = hm_insert ''supported_voices'' JNull obj;
          obj = if_insert ''endpoints'' (endpoints_json mid entry w now) admin obj
      in JObject obj)"

section \<open>The admin token\<close>

text \<open>
  \<open>crates/llmleaf-core/src/admin.rs\<close>: only the digest of the token is kept, and digests are compared
  byte by byte without an early exit. The digest (SHA-256) is a parameter.
\<close>

datatype admin_verdict = AdminDisabled | AdminUnauthorized | AdminAuthorized

definition digest_eq :: "string \<Rightarrow> string \<Rightarrow> bool" where
  "digest_eq a b \<longleftrightarrow> byte_diff a b = 0"

definition admin_access :: "(string \<Rightarrow> string) \<Rightarrow> string option \<Rightarrow> string option \<Rightarrow> admin_verdict" where
  "admin_access digest admin_token presented =
     (case admin_token of
        None \<Rightarrow> AdminDisabled
      | Some expected \<Rightarrow>
          (case presented of
             Some t \<Rightarrow> if digest_eq (digest t) expected then AdminAuthorized else AdminUnauthorized
           | None \<Rightarrow> AdminUnauthorized))"

definition admin_view :: "(string \<Rightarrow> string) \<Rightarrow> string option \<Rightarrow> string option \<Rightarrow> bool" where
  "admin_view digest admin_token presented \<longleftrightarrow> admin_access digest admin_token presented = AdminAuthorized"

definition presented_admin_token :: "(string \<Rightarrow> string option) \<Rightarrow> headers \<Rightarrow> string option" where
  "presented_admin_token to_str hs = Option.bind (header hs ''x-admin-token'') to_str"

text \<open>The token configured, resolved and digested when the state is built.\<close>

definition admin_token_of :: "(string \<Rightarrow> string) \<Rightarrow> (string \<Rightarrow> string option) \<Rightarrow> config \<Rightarrow> string option" where
  "admin_token_of digest env cfg =
     map_option digest (Option.bind (sv_admin_token (cf_server cfg)) (secret_resolve env))"

definition guard_admin :: "(string \<Rightarrow> string) \<Rightarrow> string option \<Rightarrow> (string \<Rightarrow> string option) \<Rightarrow> headers \<Rightarrow> 'p answer option" where
  "guard_admin digest admin_token to_str hs =
     (case admin_access digest admin_token (presented_admin_token to_str hs) of
        AdminDisabled \<Rightarrow> Some (error_answer 404 ''admin surface disabled'')
      | AdminUnauthorized \<Rightarrow> Some (error_answer 401 ''invalid admin token'')
      | AdminAuthorized \<Rightarrow> None)"

text \<open>The views, as the derived \<open>Serialize\<close> implementations write them.\<close>

definition routes_view :: "router \<Rightarrow> json" where
  "routes_view r = JObject
     [(''models'', JArray (map JString (router_models r))),
      (''prefixes'', JArray (map (\<lambda>(pre, provider). JObject
         [(''prefix'', JString pre), (''provider'', JString provider)]) (router_prefixes r)))]"

definition health_view :: "health_table \<Rightarrow> u64 \<Rightarrow> json" where
  "health_view h now = JObject
     [(''providers'', JArray (map (\<lambda>(p, down). JObject [(''provider'', JString p), (''down'', JBool down)])
        (health_snapshot h now)))]"

definition ser_verdict :: "verdict \<Rightarrow> json" where
  "ser_verdict v = JObject
     [(''blocked'', JBool (v_blocked v)), (''suspended_until'', json_opt json_u64 (v_suspended_until v)),
      (''allowed_models'', json_opt (\<lambda>ms. JArray (map JString ms)) (v_allowed_models v))]"

definition ser_key_view :: "key_view \<Rightarrow> json" where
  "ser_key_view k = JObject
     [(''id'', JString (kv_id k)), (''key_id'', JString (kv_key_id k)),
      (''config_allowed'', json_opt (\<lambda>ms. JArray (map JString ms)) (kv_config_allowed k)),
      (''verdict'', ser_verdict (kv_verdict k))]"

definition keys_view :: "key_snapshot \<Rightarrow> json" where
  "keys_view snap = JObject [(''keys'', JArray (map ser_key_view (snapshot_view snap)))]"

definition admin_get ::
  "(string \<Rightarrow> string) \<Rightarrow> string option \<Rightarrow> (string \<Rightarrow> string option) \<Rightarrow> (('p, 'k) gateway \<Rightarrow> json) \<Rightarrow> headers \<Rightarrow>
     ('p, 'k) gateway \<Rightarrow> 'p answer" where
  "admin_get digest admin_token to_str view hs g =
     (case guard_admin digest admin_token to_str hs of
        Some resp \<Rightarrow> resp
      | None \<Rightarrow> ok_answer (Document (view g)))"

definition admin_routes where
  "admin_routes digest admin_token to_str =
     admin_get digest admin_token to_str (\<lambda>g. routes_view (tp_router (nd_topology (gw_node g))))"

definition admin_health where
  "admin_health digest admin_token to_str =
     admin_get digest admin_token to_str (\<lambda>g. health_view (nd_health (gw_node g)) (now_secs g))"

definition admin_list_keys where
  "admin_list_keys digest admin_token to_str =
     admin_get digest admin_token to_str (\<lambda>g. keys_view (st_snapshot (as_keys (gw_auth g))))"

section \<open>The listing\<close>

text \<open>Each upstream catalogue is fetched once, under a request id of its own; one that fails is a gap.\<close>

fun fetch_catalogs ::
  "('p, 'k) edge \<Rightarrow> string list \<Rightarrow> ('p, 'k) gateway \<Rightarrow>
     ('p, 'k) gateway \<times> (string, model_info list) hashmap" where
  "fetch_catalogs ed [] g = (g, hm_empty)"
| "fetch_catalogs ed (p # ps) g =
     (case next_request_id g of (rid, g) \<Rightarrow>
        (case on_node (provider_models (eg_env ed) (eg_api ed) p rid) g of (g, r) \<Rightarrow>
           (case fetch_catalogs ed ps g of (g, m) \<Rightarrow>
              (g, case r of Inr models \<Rightarrow> hm_insert p models m | Inl _ \<Rightarrow> m))))"

text \<open>A route takes its metadata from its primary target.\<close>

definition route_entry ::
  "('p, 'k) edge \<Rightarrow> 'p node \<Rightarrow> (string, model_info list) hashmap \<Rightarrow> string \<Rightarrow> route_target list \<Rightarrow> model_entry" where
  "route_entry ed w catalogs model targets =
     (let primary = (case targets of [] \<Rightarrow> None | t # _ \<Rightarrow> Some t);
          upstream = unwrap_or model (Option.bind primary tg_model);
          upstream_info = Option.bind primary (\<lambda>t. Option.bind (hm_get catalogs (tg_provider t))
            (List.find (\<lambda>i. mi_id i = upstream)));
          known = or_else (card (en_pricing (eg_engine ed)) model) (card (en_pricing (eg_engine ed)) upstream);
          info = unwrap_or (model_info_new model) upstream_info;
          info = (case Option.bind primary (\<lambda>t. provider_compaction_support (eg_env ed) (eg_api ed) w (tg_provider t) upstream) of
              Some supported \<Rightarrow> info\<lparr>mi_supports_compaction := Some supported\<rparr>
            | None \<Rightarrow> info)
      in \<lparr>se_source = FromRoute, se_meta = Some (enrich (info\<lparr>mi_id := model\<rparr>) known), se_callable = True,
          se_provider = None, se_upstream = None\<rparr>)"

definition prefix_entry :: "pricing \<Rightarrow> string \<Rightarrow> string \<Rightarrow> model_info \<Rightarrow> model_entry" where
  "prefix_entry pr pre provider info =
     (let bare = mi_id info;
          meta = enrich info (card pr bare)
      in \<lparr>se_source = FromPrefix,
          se_meta = Some (meta\<lparr>mi_name := Some (''['' @ pre @ ''] '' @ unwrap_or bare (mi_name meta))\<rparr>),
          se_callable = True, se_provider = Some provider, se_upstream = Some bare\<rparr>)"

definition namespace_marker :: "string \<Rightarrow> model_entry" where
  "namespace_marker provider =
     \<lparr>se_source = FromPrefix, se_meta = None, se_callable = False, se_provider = Some provider, se_upstream = Some ''*''\<rparr>"

definition prefix_entries :: "pricing \<Rightarrow> (string, model_info list) hashmap \<Rightarrow> string \<times> string \<Rightarrow> (string \<times> model_entry) list" where
  "prefix_entries pr catalogs pp =
     (case pp of (pre, provider) \<Rightarrow>
        (case hm_get catalogs provider of
           Some models \<Rightarrow> map (\<lambda>i. (pre @ ''/'' @ mi_id i, prefix_entry pr pre provider i)) models
         | None \<Rightarrow> [(pre @ ''/*'', namespace_marker provider)]))"

definition served_entries ::
  "('p, 'k) edge \<Rightarrow> 'p node \<Rightarrow> (string \<times> route_target list) list \<Rightarrow> (string \<times> string) list \<Rightarrow>
     (string, model_info list) hashmap \<Rightarrow> (string, model_entry) btree" where
  "served_entries ed w routes namespaces catalogs =
     fold (\<lambda>(i, e). bt_entry i e id) (concat (map (prefix_entries (en_pricing (eg_engine ed)) catalogs) namespaces))
       (fold (\<lambda>(model, targets). bt_insert model (route_entry ed w catalogs model targets)) routes [])"

definition typed_providers :: "(string, model_entry) btree \<Rightarrow> string list" where
  "typed_providers entries =
     List.map_filter (\<lambda>(_, e). if Option.bind (se_meta e) mi_modality \<noteq> None then se_provider e else None) entries"

definition passes_filter :: "modality option \<Rightarrow> string list \<Rightarrow> model_entry \<Rightarrow> bool" where
  "passes_filter wanted classified e =
     (case wanted of
        None \<Rightarrow> True
      | Some m \<Rightarrow>
          if m = Decisions then Option.bind (se_meta e) mi_modality = Some Decisions
          else if is_some_and (\<lambda>p. p \<notin> set classified) (se_provider e) then True
          else Option.bind (se_meta e) mi_modality = Some m)"

text \<open>Scope, view and filters, from the entries to the listed ones.\<close>

definition listed ::
  "model_scope option \<Rightarrow> bool \<Rightarrow> modality option \<Rightarrow> string option \<Rightarrow> (string, model_entry) btree \<Rightarrow>
     (string \<times> model_entry) list" where
  "listed allowed admin wanted search entries =
     (let entries = (case allowed of None \<Rightarrow> entries | Some sc \<Rightarrow> filter (\<lambda>(i, _). permits sc i) entries);
          entries = (if admin then entries else filter (\<lambda>(_, e). se_callable e) entries);
          classified = (case wanted of None \<Rightarrow> [] | Some _ \<Rightarrow> typed_providers entries)
      in filter (\<lambda>(i, _). is_none_or (\<lambda>needle. str_contains needle (to_ascii_lowercase i)) search)
           (filter (\<lambda>(_, e). passes_filter wanted classified e) entries))"

definition list_models ::
  "('p, 'k) edge \<Rightarrow> (string \<Rightarrow> string) \<Rightarrow> string option \<Rightarrow> headers \<Rightarrow> string option \<Rightarrow> string option \<Rightarrow>
     ('p, 'k) gateway \<Rightarrow> ('p, 'k) gateway \<times> 'p answer run" where
  "list_models ed digest admin_token hs kind search g =
     authenticated ed (bearer (eg_to_str ed) hs) missing_bearer auth_error_answer g (\<lambda>token now key g.
       case parse_modality_filter kind of
         Inl message \<Rightarrow> (g, Ret (error_answer 400 message))
       | Inr wanted \<Rightarrow>
           (let admin = admin_view digest admin_token (presented_admin_token (eg_to_str ed) hs);
                allowed = model_scope (st_snapshot (as_keys (gw_auth g))) key;
                w = gw_node g;
                r = tp_router (nd_topology w);
                routes = List.map_filter (\<lambda>m. map_option (\<lambda>ts. (m, ts)) (resolve_targets w m)) (router_models r);
                namespaces = router_prefixes r;
                providers = remdups (map snd namespaces @
                  List.map_filter (\<lambda>(_, ts). case ts of [] \<Rightarrow> None | t # _ \<Rightarrow> Some (tg_provider t)) routes)
            in case fetch_catalogs ed providers g of (g, catalogs) \<Rightarrow>
                 (let entries = served_entries ed (gw_node g) routes namespaces catalogs
                  in (g, Ret (ok_answer (Document (JObject [(''data'', JArray
                        (map (\<lambda>(i, e). render_model i e admin (gw_node g) now)
                           (listed allowed admin wanted (map_option to_ascii_lowercase search) entries)))])))))))"

section \<open>What a listing shows\<close>

lemma bt_fold_wf: "bt_wf m \<Longrightarrow> bt_wf (fold (\<lambda>x. bt_entry (k x) (d x) (f x)) xs m)"
  by (induction xs arbitrary: m) (auto simp: bt_wf_entry)

lemma bt_fold_keys: "fst ` set (fold (\<lambda>x. bt_entry (k x) (d x) (f x)) xs m) = fst ` set m \<union> k ` set xs"
  by (induction xs arbitrary: m) (auto simp: bt_keys_entry)

lemma served_wf: "bt_wf (served_entries ed w routes spaces catalogs)"
  unfolding served_entries_def case_prod_unfold by (intro bt_fold_wf bt_wf_Nil)

lemma served_ids:
  "fst ` set (served_entries ed w routes spaces catalogs) =
     fst ` set routes \<union> (\<Union>pp \<in> set spaces. fst ` set (prefix_entries (en_pricing (eg_engine ed)) catalogs pp))"
  unfolding served_entries_def case_prod_unfold bt_fold_keys by (auto simp: image_UN)

lemma listed_subset: "set (listed allowed admin wanted search entries) \<subseteq> set entries"
  by (auto simp: listed_def Let_def split: option.splits if_splits)

lemma listed_sorted:
  "bt_wf entries \<Longrightarrow> sorted_wrt (<) (map fst (listed allowed admin wanted search entries))"
  by (auto simp: listed_def Let_def bt_wf_def sorted_wrt_map intro!: sorted_wrt_filter split: option.splits)

lemma listed_scope:
  "(i, e) \<in> set (listed allowed admin wanted search entries) \<Longrightarrow>
     is_none_or (\<lambda>sc. permits sc i) allowed \<and> (admin \<or> se_callable e)"
  by (auto simp: listed_def Let_def split: option.splits if_splits)

text \<open>A namespaced id is routed, if its bare part is not empty.\<close>

lemma namespaced_routed:
  assumes "(pre, provider) \<in> set (router_prefixes r)" "bare \<noteq> []"
  shows "resolve r (pre @ ''/'' @ bare) \<noteq> None"
proof -
  have "claims (pre, provider) (pre @ ''/'' @ bare)"
    using assms(2) by (auto simp: claims_def strip_namespace_def)
  with assms(1) have "List.find (\<lambda>pp. claims pp (pre @ ''/'' @ bare)) (ro_prefixes r) \<noteq> None"
    by (auto simp: find_None_iff router_prefixes_def)
  then show ?thesis by (auto simp: resolve_def resolve_prefixes_find split: option.splits)
qed

text \<open>Rendering without the admin view uses neither the provider, nor the node, nor the time.\<close>

lemma render_public:
  "render_model i e False w now =
     render_model i (e\<lparr>se_source := src, se_provider := p, se_upstream := u\<rparr>) False w' now'"
  by (simp add: render_model_def if_insert_def Let_def)

text \<open>An entry of the map is one that was put in.\<close>

lemma bt_entry_member:
  "(k', v) \<in> set (bt_entry k d f m) \<Longrightarrow> \<forall>u. f u = u \<or> f u = d \<Longrightarrow> (k', v) \<in> set m \<or> k' = k \<and> v = d"
proof (induction k d f m rule: bt_entry.induct)
  case (1 k d f)
  from 1(2) have "f d = d" by metis
  with 1 show ?case by simp
next
  case (2 k d f j u m)
  from 2(3) have "f d = d" "f u = u \<or> f u = d" by metis+
  with 2 show ?case by (auto split: if_splits)
qed

lemma bt_fold_member:
  assumes "(k', v) \<in> set (fold (\<lambda>x. bt_entry (k x) (d x) (f x)) xs m)" "\<forall>x u. f x u = u \<or> f x u = d x"
  shows "(k', v) \<in> set m \<or> (\<exists>x \<in> set xs. k' = k x \<and> v = d x)"
  using assms(1)
proof (induction xs arbitrary: m)
  case (Cons x xs)
  from Cons.IH [of "bt_entry (k x) (d x) (f x) m"] Cons.prems show ?case
    using bt_entry_member [of k' v "k x" "d x" "f x" m] assms(2) by auto
qed simp

lemma served_member:
  assumes "(i, e) \<in> set (served_entries ed w routes spaces catalogs)"
  shows "(\<exists>targets. (i, targets) \<in> set routes) \<or>
    (\<exists>pp \<in> set spaces. (i, e) \<in> set (prefix_entries (en_pricing (eg_engine ed)) catalogs pp))"
proof -
  let ?ps = "concat (map (prefix_entries (en_pricing (eg_engine ed)) catalogs) spaces)"
  from assms have "(i, e) \<in> set (fold (\<lambda>x. bt_insert (fst x) (route_entry ed w catalogs (fst x) (snd x))) routes []) \<or>
      (\<exists>x \<in> set ?ps. i = fst x \<and> e = snd x)"
    unfolding served_entries_def case_prod_unfold by (rule bt_fold_member) simp
  moreover have "\<exists>x \<in> set routes. i = fst x"
    if "(i, e) \<in> set (fold (\<lambda>x. bt_insert (fst x) (route_entry ed w catalogs (fst x) (snd x))) routes [])"
    using bt_fold_member [OF that] by auto
  ultimately show ?thesis by fastforce
qed

lemma prefix_entry_callable:
  "(i, e) \<in> set (prefix_entries pr catalogs (pre, provider)) \<Longrightarrow> se_callable e \<Longrightarrow>
     \<exists>models info. hm_get catalogs provider = Some models \<and> info \<in> set models \<and> i = pre @ ''/'' @ mi_id info"
  by (auto simp: prefix_entries_def namespace_marker_def split: option.splits)

lemma fetch_catalogs_ids:
  assumes "\<forall>p cx w w' models info. pa_models (eg_api ed p) cx w = (w', Inr models) \<longrightarrow> info \<in> set models \<longrightarrow>
      mi_id info \<noteq> []"
  shows "hm_get (snd (fetch_catalogs ed ps g)) provider = Some models \<Longrightarrow> info \<in> set models \<Longrightarrow> mi_id info \<noteq> []"
proof (induction ps arbitrary: g)
  case (Cons p ps)
  then show ?case
    using assms
    by (auto simp: on_node_def provider_models_def hm_get_insert Let_def split: prod.splits sum.splits if_splits option.splits)
      (metis snd_conv)+
qed (simp add: hm_simps)

lemma router_models_resolve: "m \<in> set (router_models r) \<Longrightarrow> \<exists>ts. resolve r m = Some ts"
  by (auto simp: router_models_def hm_keys_def resolve_def hm_get_def dest: weak_map_of_SomeI split: option.splits)

text \<open>Every route of the table is an entry that can be called.\<close>

lemma bt_fold_keeps:
  "bt_wf m \<Longrightarrow> bt_get m i = Some e \<Longrightarrow> bt_get (fold (\<lambda>x. bt_entry (k x) (d x) id) xs m) i = Some e"
proof (induction xs arbitrary: m)
  case (Cons x xs)
  then have "bt_get (bt_entry (k x) (d x) id m) i = Some e" by (cases "i = k x") (simp_all add: bt_get_entry)
  with Cons show ?case by (simp add: bt_wf_entry id_def)
qed simp

lemma bt_fold_inserted:
  assumes "bt_wf m" "(\<exists>x \<in> set xs. k x = i \<and> P (d x)) \<or> (\<exists>e. bt_get m i = Some e \<and> P e)" "\<forall>x \<in> set xs. P (d x)"
  shows "\<exists>e. bt_get (fold (\<lambda>x. bt_insert (k x) (d x)) xs m) i = Some e \<and> P e"
  using assms
proof (induction xs arbitrary: m)
  case (Cons x xs)
  show ?case
    using Cons.IH [of "bt_insert (k x) (d x) m"] Cons.prems by (auto simp: bt_get_entry bt_wf_entry)
qed auto

lemma served_route:
  assumes "(m, targets) \<in> set routes"
  shows "\<exists>e. (m, e) \<in> set (served_entries ed w routes spaces catalogs) \<and> se_callable e"
proof -
  let ?routed = "fold (\<lambda>x. bt_insert (fst x) (route_entry ed w catalogs (fst x) (snd x))) routes []"
  have "\<exists>e. bt_get ?routed m = Some e \<and> se_callable e"
    by (rule bt_fold_inserted) (use assms in \<open>auto simp: bt_wf_Nil route_entry_def Let_def intro!: bexI [of _ "(m, targets)"]\<close>)
  moreover have "bt_wf ?routed" by (intro bt_fold_wf bt_wf_Nil)
  ultimately obtain e where "bt_get (served_entries ed w routes spaces catalogs) m = Some e" "se_callable e"
    unfolding served_entries_def case_prod_unfold using bt_fold_keeps by fast
  then show ?thesis by (auto dest: map_of_SomeD)
qed

lemma listed_unfiltered:
  "(i, e) \<in> set (listed allowed admin None None entries) \<longleftrightarrow>
     (i, e) \<in> set entries \<and> is_none_or (\<lambda>sc. permits sc i) allowed \<and> (admin \<or> se_callable e)"
  by (auto simp: listed_def passes_filter_def Let_def split: option.splits)

lemma listed_search:
  "(i, e) \<in> set (listed allowed admin wanted search entries) \<Longrightarrow>
     is_none_or (\<lambda>needle. str_contains needle (to_ascii_lowercase i)) search"
  by (simp add: listed_def Let_def)

text \<open>The listing a caller gets, once its identity is known and the filter parsed.\<close>

definition listing_for ::
  "('p, 'k) edge \<Rightarrow> string \<Rightarrow> modality option \<Rightarrow> string option \<Rightarrow> ('p, 'k) gateway \<Rightarrow> (string \<times> model_entry) list" where
  "listing_for ed key wanted search g =
     (let r = tp_router (nd_topology (gw_node g));
          routes = List.map_filter (\<lambda>m. map_option (\<lambda>ts. (m, ts)) (resolve_targets (gw_node g) m)) (router_models r);
          providers = remdups (map snd (router_prefixes r) @
            List.map_filter (\<lambda>(_, ts). case ts of [] \<Rightarrow> None | t # _ \<Rightarrow> Some (tg_provider t)) routes);
          fetched = fetch_catalogs ed providers g
      in listed (model_scope (st_snapshot (as_keys (gw_auth g))) key) False wanted (map_option to_ascii_lowercase search)
           (served_entries ed (gw_node (fst fetched)) routes (router_prefixes r) (snd fetched)))"

lemma list_models_public:
  assumes "\<not> admin_view digest admin_token (presented_admin_token (eg_to_str ed) hs)"
    and "list_models ed digest admin_token hs kind search g = (g', Ret a)" "an_status a = 200"
  obtains token g1 key wanted where "bearer (eg_to_str ed) hs = Some token"
    "credential_check ed token None (now_secs g) g = (g1, Inr key)" "parse_modality_filter kind = Inr wanted"
    "an_body a = Document (JObject [(''data'', JArray (map (\<lambda>(i, e). render_model i e False (gw_node g') (now_secs g))
       (listing_for ed key wanted search g1)))])"
proof (cases "bearer (eg_to_str ed) hs")
  case None
  with assms(2,3) show ?thesis by (auto simp: list_models_def authenticated_missing missing_bearer_def)
next
  case (Some token)
  obtain g1 r1 where check: "credential_check ed token None (now_secs g) g = (g1, r1)" by fastforce
  show ?thesis
  proof (cases r1)
    case (Inl e)
    have "an_status (auth_error_answer e :: 'a answer) \<noteq> 200" by (cases e) simp_all
    with assms(2,3) Some check Inl show ?thesis by (auto simp: list_models_def authenticated_refused)
  next
    case (Inr key)
    show ?thesis
    proof (cases "parse_modality_filter kind")
      case (Inl message)
      with assms(2,3) Some check Inr show ?thesis by (auto simp: list_models_def authenticated_def Let_def)
    next
      case wanted: (Inr wanted)
      have "an_body a = Document (JObject [(''data'', JArray (map (\<lambda>(i, e). render_model i e False (gw_node g') (now_secs g))
          (listing_for ed key wanted search g1)))])"
        using assms(1,2) Some check Inr wanted
        by (auto simp: list_models_def authenticated_def listing_for_def ok_answer_def Let_def split: prod.splits)
      with Some check Inr wanted show ?thesis by (intro that) simp_all
    qed
  qed
qed

lemma render_id: "get_str (render_model i e admin w now) ''id'' = Some i"
  by (simp add: render_model_def get_str_def Let_def hm_simps hm_get_if_insert hm_get_opt_insert)

lemma render_endpoints: "json_get (render_model i e False w now) ''endpoints'' = None"
  by (simp add: render_model_def Let_def hm_simps hm_get_if_insert hm_get_opt_insert)

text \<open>What is listed can be called.\<close>

lemma served_resolves:
  assumes "(i, e) \<in> set (served_entries ed w' (List.map_filter (\<lambda>m. map_option (\<lambda>ts. (m, ts)) (resolve_targets w m))
      (router_models r)) (router_prefixes r) catalogs)"
    and "se_callable e" "r = tp_router (nd_topology w)"
    and "\<And>provider models info. hm_get catalogs provider = Some models \<Longrightarrow> info \<in> set models \<Longrightarrow> mi_id info \<noteq> []"
  shows "resolve r i \<noteq> None"
  using served_member [OF assms(1)]
proof (elim disjE bexE exE)
  fix targets
  assume "(i, targets) \<in> set (List.map_filter (\<lambda>m. map_option (\<lambda>ts. (m, ts)) (resolve_targets w m)) (router_models r))"
  then show ?thesis by (auto simp: map_filter_def resolve_targets_def assms(3))
next
  fix pp
  assume pp: "pp \<in> set (router_prefixes r)" "(i, e) \<in> set (prefix_entries (en_pricing (eg_engine ed)) catalogs pp)"
  obtain pre provider where pre: "pp = (pre, provider)" by (cases pp)
  from prefix_entry_callable [OF pp(2) [unfolded pre] assms(2)] obtain models info
    where info: "hm_get catalogs provider = Some models" "info \<in> set models" "i = pre @ ''/'' @ mi_id info" by blast
  with assms(4) have "mi_id info \<noteq> []" by blast
  with namespaced_routed [of pre provider r "mi_id info"] pp(1) pre info(3) show ?thesis by simp
qed

text \<open>
  C11: the public catalogue. Suppose \<open>GET /v1/models\<close> answers 200 to a caller that has not presented the configured admin
  token, and no upstream reports a model without an id. Then the caller's credential named an identity, and what is
  listed is sorted by id without repeats. Every model in it is inside the scope the key store gives that
  identity, contains the searched text, and can be called: the router that was listed resolves its id. It keeps the
  topology to itself: no entry has an \<open>endpoints\<close> member, and none depends on which provider serves the
  model, under what name, or whether that provider is up. And nothing is held back: asked without a filter, the
  listing has every model of the routing table inside that scope. (An OAuth identity has no scope in the key
  store, which a finding records.)
\<close>

theorem public_catalogue:
  fixes ed :: "('p, 'k) edge"
  assumes "\<forall>p cx w w' models info. pa_models (eg_api ed p) cx w = (w', Inr models) \<longrightarrow> info \<in> set models \<longrightarrow>
      mi_id info \<noteq> []"
    and "\<not> admin_view digest admin_token (presented_admin_token (eg_to_str ed) hs)"
    and "list_models ed digest admin_token hs kind search g = (g', Ret a)" "an_status a = 200"
  shows "\<exists>token g1 key items. bearer (eg_to_str ed) hs = Some token \<and>
    credential_check ed token None (now_secs g) g = (g1, Inr key) \<and>
    an_body a = Document (JObject [(''data'', JArray (map snd items))]) \<and> sorted_wrt (<) (map fst items) \<and>
    (let scope = model_scope (st_snapshot (as_keys (gw_auth g1))) key; r = tp_router (nd_topology (gw_node g1)) in
     (\<forall>(i, v) \<in> set items.
        get_str v ''id'' = Some i \<and> is_none_or (\<lambda>sc. permits sc i) scope \<and>
        is_none_or (\<lambda>s. str_contains (to_ascii_lowercase s) (to_ascii_lowercase i)) search \<and>
        resolve r i \<noteq> None \<and> json_get v ''endpoints'' = None \<and>
        (\<exists>e. \<forall>src p u (w :: 'p node) now.
           v = render_model i (e\<lparr>se_source := src, se_provider := p, se_upstream := u\<rparr>) False w now)) \<and>
     (kind = None \<and> search = None \<longrightarrow>
        (\<forall>m \<in> set (router_models r). is_none_or (\<lambda>sc. permits sc m) scope \<longrightarrow> m \<in> fst ` set items)))"
proof -
  obtain token g1 key wanted where who: "bearer (eg_to_str ed) hs = Some token"
      "credential_check ed token None (now_secs g) g = (g1, Inr key)"
    and wanted: "parse_modality_filter kind = Inr wanted"
    and told: "an_body a = Document (JObject [(''data'', JArray (map (\<lambda>(i, e). render_model i e False (gw_node g')
      (now_secs g)) (listing_for ed key wanted search g1)))])"
    by (rule list_models_public [OF assms(2-4)])
  define scope where "scope = model_scope (st_snapshot (as_keys (gw_auth g1))) key"
  define r where "r = tp_router (nd_topology (gw_node g1))"
  define routes where "routes = List.map_filter (\<lambda>m. map_option (\<lambda>ts. (m, ts)) (resolve_targets (gw_node g1) m)) (router_models r)"
  define shown where "shown = listing_for ed key wanted search g1"
  obtain w' catalogs where shown: "shown = listed scope False wanted (map_option to_ascii_lowercase search)
      (served_entries ed w' routes (router_prefixes r) catalogs)"
    and ids: "\<And>provider models info. hm_get catalogs provider = Some models \<Longrightarrow> info \<in> set models \<Longrightarrow> mi_id info \<noteq> []"
    unfolding shown_def listing_for_def Let_def scope_def routes_def r_def
    using fetch_catalogs_ids [OF assms(1)] by blast
  define items where "items = map (\<lambda>(i, e). (i, render_model i e False (gw_node g') (now_secs g))) shown"
  have entry: "is_none_or (\<lambda>sc. permits sc i) scope \<and> resolve r i \<noteq> None \<and>
      is_none_or (\<lambda>s. str_contains (to_ascii_lowercase s) (to_ascii_lowercase i)) search" if "(i, e) \<in> set shown" for i e
  proof -
    from that listed_scope have sc: "is_none_or (\<lambda>sc. permits sc i) scope" "se_callable e" unfolding shown by blast+
    from that listed_subset have "(i, e) \<in> set (served_entries ed w' routes (router_prefixes r) catalogs)"
      unfolding shown by blast
    then have "resolve r i \<noteq> None" unfolding routes_def by (rule served_resolves) (use sc(2) ids in \<open>simp_all add: r_def\<close>)
    with sc(1) show ?thesis using listed_search [OF that [unfolded shown]] by (cases search) auto
  qed
  have "map fst items = map fst shown" by (simp add: items_def case_prod_unfold)
  then have sorted: "sorted_wrt (<) (map fst items)" unfolding shown by (simp add: listed_sorted [OF served_wf])
  have body: "an_body a = Document (JObject [(''data'', JArray (map snd items))])"
    by (simp add: told items_def shown_def case_prod_unfold comp_def)
  have complete: "m \<in> fst ` set items"
    if plain: "kind = None" "search = None" and m: "m \<in> set (router_models r)" "is_none_or (\<lambda>sc. permits sc m) scope" for m
  proof -
    have "wanted = None" using wanted plain(1) by (simp add: parse_modality_filter_def)
    obtain ts where "resolve r m = Some ts" using m(1) router_models_resolve by blast
    then have "(m, ts) \<in> set routes"
      using m(1) by (force simp: routes_def map_filter_def resolve_targets_def r_def)
    from served_route [OF this] obtain e
      where "(m, e) \<in> set (served_entries ed w' routes (router_prefixes r) catalogs)" "se_callable e" by blast
    with plain(2) m(2) \<open>wanted = None\<close> have "(m, e) \<in> set shown" by (simp add: shown listed_unfiltered)
    then show ?thesis by (force simp: items_def)
  qed
  have each: "get_str v ''id'' = Some i \<and> json_get v ''endpoints'' = None \<and>
      (\<exists>e. \<forall>src p u (w :: 'p node) now.
         v = render_model i (e\<lparr>se_source := src, se_provider := p, se_upstream := u\<rparr>) False w now) \<and> (\<exists>e. (i, e) \<in> set shown)"
    if "(i, v) \<in> set items" for i v
    using that render_id render_endpoints render_public by (fastforce simp: items_def)
  have "\<forall>(i, v) \<in> set items.
      get_str v ''id'' = Some i \<and> is_none_or (\<lambda>sc. permits sc i) scope \<and>
      is_none_or (\<lambda>s. str_contains (to_ascii_lowercase s) (to_ascii_lowercase i)) search \<and>
      resolve r i \<noteq> None \<and> json_get v ''endpoints'' = None \<and>
      (\<exists>e. \<forall>src p u (w :: 'p node) now.
         v = render_model i (e\<lparr>se_source := src, se_provider := p, se_upstream := u\<rparr>) False w now)"
    using each entry by blast
  then show ?thesis
    unfolding Let_def scope_def [symmetric] r_def [symmetric]
    by (rule_tac exI [of _ token], rule_tac exI [of _ g1], rule_tac exI [of _ key], rule_tac exI [of _ items])
      (use who body sorted complete in \<open>simp add: scope_def r_def\<close>)
qed

text \<open>
  the admin surface is closed by default and opens to its token only. With digests of one length, a read-only
  endpoint answers 404 whatever is presented when no token is configured, 401 when the token presented is absent or has
  another digest, and in both cases the same answer whatever the state of the node; and it shows
  its view exactly to a token whose digest is the configured one's.
\<close>

theorem admin_closed:
  fixes env cfg
  assumes "\<forall>s. length (digest s) = 32"
  defines "expected \<equiv> Option.bind (sv_admin_token (cf_server cfg)) (secret_resolve env)"
  shows "admin_get digest (admin_token_of digest env cfg) to_str view hs g =
    (case expected of
       None \<Rightarrow> error_answer 404 ''admin surface disabled''
     | Some t \<Rightarrow>
         if is_some_and (\<lambda>p. digest p = digest t) (presented_admin_token to_str hs)
         then ok_answer (Document (view g))
         else error_answer 401 ''invalid admin token'')"
  using assms(1)
  by (auto simp: admin_get_def guard_admin_def admin_access_def admin_token_of_def expected_def digest_eq_def
      byte_diff_zero split: option.splits)

text \<open>A node with the namespace \<open>x\<close>, whose upstream lists one model, asked by a key limited to that namespace.\<close>

definition ex_spaces :: "nat node" where
  "ex_spaces = ex_node\<lparr>nd_topology := ex_topology\<lparr>tp_router := \<lparr>ro_table = [], ro_prefixes = [(''x'', ''a'')]\<rparr>\<rparr>\<rparr>"

text \<open>The key, its token verified before, and an upstream that lists one model.\<close>

definition ex_listed :: "(nat, nat) gateway" where
  "ex_listed = \<lparr>gw_auth = \<lparr>as_oauth = None, as_keys = \<lparr>st_snapshot =
       \<lparr>sn_keys = [(''k'', \<lparr>ks_name = None, ks_pw_hash = ''h'', ks_config_allowed = Some [''x/*''], ks_verdict = verdict_default\<rparr>)],
        sn_identity_gen = 0\<rparr>,
       st_verified = [(''t'', \<lparr>ve_id = ''k'', ve_identity_gen = 0, ve_pw_hash = ''h''\<rparr>)]\<rparr>\<rparr>,
     gw_node = ex_spaces, gw_seq = 0\<rparr>"

definition ex_lister :: "(nat, nat) edge" where
  "ex_lister = ex_edge\<lparr>eg_api := \<lambda>p. (ex_api p)\<lparr>pa_models := \<lambda>cx w. (w, Inr [model_info_new ''b''])\<rparr>\<rparr>"

lemma ex_listed_check: "credential_check ex_lister ''t'' None now ex_listed = (ex_listed, Inr ''k'')"
  by (simp add: credential_check_def authorize_token_identity_def dispatch_token_def authorize_inner_def warm_path_def
      enforce_def suspension_gate_def model_gate_def verdict_default_def display_id_def hm_get_def res_simps
      ex_lister_def ex_edge_def ex_listed_def)

theorem public_catalogue_witness:
  "\<exists>a items. snd (list_models ex_lister id None [(''authorization'', ''Bearer t'')] None None ex_listed) = Ret a \<and>
     an_body a = Document (JObject [(''data'', JArray (map snd items))]) \<and>
     list_all (\<lambda>(i, v). resolve (tp_router (nd_topology ex_spaces)) i \<noteq> None) items"
proof -
  let ?hs = "[(''authorization'', ''Bearer t'')]"
  have named: "\<forall>p cx w w' models info. pa_models (eg_api ex_lister p) cx w = (w', Inr models) \<longrightarrow> info \<in> set models \<longrightarrow>
      mi_id info \<noteq> []"
    by (auto simp: ex_lister_def model_info_new_def)
  have public: "\<not> admin_view id None (presented_admin_token (eg_to_str ex_lister) ?hs)"
    by (simp add: admin_view_def admin_access_def)
  have b: "bearer (eg_to_str ex_lister) ?hs = Some ''t''"
    using ex_header [of "''t''"] by (simp add: ex_lister_def ex_edge_def)
  have "\<exists>g' body. list_models ex_lister id None ?hs None None ex_listed = (g', Ret (ok_answer body))"
    by (simp add: list_models_def authenticated_def b ex_listed_check parse_modality_filter_def Let_def case_prod_unfold)
      (rule exI, rule refl)
  then obtain g' body where run: "list_models ex_lister id None ?hs None None ex_listed = (g', Ret (ok_answer body))" by blast
  have answered: "an_status (ok_answer body :: nat answer) = 200" by simp
  obtain token g1 key items where "bearer (eg_to_str ex_lister) ?hs = Some token"
    "credential_check ex_lister token None (now_secs ex_listed) ex_listed = (g1, Inr key)"
    and body: "an_body (ok_answer body) = Document (JObject [(''data'', JArray (map snd items))])"
    and shown: "\<forall>(i, v) \<in> set items. resolve (tp_router (nd_topology (gw_node g1))) i \<noteq> None"
    using public_catalogue [OF named public run answered] unfolding Let_def case_prod_unfold by blast
  then have "g1 = ex_listed" by (auto simp: b ex_listed_check)
  with shown have "list_all (\<lambda>(i, v). resolve (tp_router (nd_topology (gw_node ex_listed))) i \<noteq> None) items"
    by (simp add: list_all_iff)
  moreover have "gw_node ex_listed = ex_spaces" by (simp add: ex_listed_def)
  ultimately show ?thesis using body by (intro exI [of _ "ok_answer body"] exI [of _ items]) (simp add: run)
qed

section \<open>Authentication first\<close>

text \<open>A refused identity is refused for every model too, in the same way and leaving the same state.\<close>

lemma enforce_refused: "enforce st i None now = Inl e \<Longrightarrow> enforce st i (Some m) now = Inl e"
  by (auto simp: enforce_def model_gate_def res_simps split: if_splits)

lemma identity_refused_for_models:
  assumes "credential_check ed token None now g = (g', Inl e)"
  shows "credential_check ed token (Some m) now g = (g', Inl e)"
proof -
  have oauth: "oauth_authorize_inner jwt introspect v token None now = (Inl e, v') \<Longrightarrow>
      oauth_authorize_inner jwt introspect v token (Some m) now = (Inl e, v')" for jwt :: "'b jwt" and introspect v v'
    by (auto simp: oauth_authorize_inner_def model_answer_def split: option.splits sum.splits)
  have cold: "co_result (cold_path verify snap token None now) = Inl e \<Longrightarrow>
      co_result (cold_path verify snap token (Some m) now) = Inl e \<and>
      co_entry (cold_path verify snap token (Some m) now) = co_entry (cold_path verify snap token None now)" for verify snap
    by (auto simp: cold_path_def rejected_def enforce_refused split: option.splits)
  have keys: "authorize_inner verify ks token None now = (Inl e, k, ks') \<Longrightarrow>
      \<exists>k'. authorize_inner verify ks token (Some m) now = (Inl e, k', ks')" for verify ks k ks'
    using cold by (auto simp: authorize_inner_def warm_path_def Let_def enforce_refused split: option.splits if_splits)
  have dispatched: "dispatch_token verify jwt introspect st token None now = (Inl e, st') \<Longrightarrow>
      dispatch_token verify jwt introspect st token (Some m) now = (Inl e, st')"
    for verify introspect st st' and jwt :: "'b jwt"
    using oauth keys
    by (fastforce simp: dispatch_token_def split: option.splits if_splits prod.splits)
  show ?thesis
    using assms dispatched
    by (fastforce simp: credential_check_def authorize_token_def authorize_token_identity_def split: prod.splits)
qed

text \<open>A credential turned away: none presented, or its identity refused. \<open>e\<close> is the refusal.\<close>

definition turned_away ::
  "('p, 'k) edge \<Rightarrow> string option \<Rightarrow> ('p, 'k) gateway \<Rightarrow> ('p, 'k) gateway \<Rightarrow> auth_error option \<Rightarrow> bool" where
  "turned_away ed credential g g' e \<longleftrightarrow>
     (case credential of
        None \<Rightarrow> g' = g \<and> e = None
      | Some token \<Rightarrow> (\<exists>x. e = Some x \<and> credential_check ed token None (now_secs g) g = (g', Inl x)))"

lemma turned_away_authenticated:
  "turned_away ed credential g g' e \<Longrightarrow>
     authenticated ed credential missing deny g serve_as = (g', Ret (case e of None \<Rightarrow> missing | Some x \<Rightarrow> deny x))"
  by (auto simp: turned_away_def authenticated_missing authenticated_refused split: option.splits)

lemma turned_away_voices:
  assumes "turned_away ed (bearer (eg_to_str ed) hs) g g' e"
  shows "audio_voices ed hs model g = (g', Ret (case e of None \<Rightarrow> missing_bearer | Some x \<Rightarrow> auth_error_answer x))"
  using assms identity_refused_for_models [of ed _ "now_secs g" g g']
  by (auto simp: turned_away_def audio_voices_def admitted_def Let_def split: option.splits)

text \<open>
  C7: nothing is done for a caller without a good credential. When a request carries no bearer token, or one whose
  identity is refused, the handlers of the OpenAI, Responses, media, listing and batch endpoints answer at once, with
  401, 403 or 429; so does the Messages handler for its own credential, which may come in \<open>x-api-key\<close>, in
  its own envelope. The answer is the same whatever the extracted body, the upload, the query or the batch id says, and
  the gateway is left as the check of the credential leaves it: no request id is drawn and no engine operation runs.
  These are all the endpoints of the surface but the health check and the API document, which are public, and
  the WebSocket handshake of the realtime endpoint, which is not modelled.
\<close>

theorem unauthenticated_unserved:
  "(turned_away ed (bearer (eg_to_str ed) hs) g g' e \<longrightarrow>
     (let refusal = (case e of None \<Rightarrow> missing_bearer | Some x \<Rightarrow> auth_error_answer x) in
      chat_completions ed hs body g = (g', Ret refusal) \<and>
      responses_create ed hs body g = (g', Ret refusal) \<and> get_response ed hs bid g = (g', Ret refusal) \<and>
      embeddings_handler ed hs body g = (g', Ret refusal) \<and> rerank_handler ed hs body g = (g', Ret refusal) \<and>
      decisions_handler ed hs body g = (g', Ret refusal) \<and> audio_speech ed hs body g = (g', Ret refusal) \<and>
      audio_voices ed hs model g = (g', Ret refusal) \<and> audio_transcriptions ed hs parts g = (g', Ret refusal) \<and>
      list_models ed digest admin_token hs kind search g = (g', Ret refusal) \<and>
      create_batch ed hs body g = (g', Ret refusal) \<and> retrieve_batch ed hs bid g = (g', Ret refusal) \<and>
      cancel_batch ed hs bid g = (g', Ret refusal) \<and> batch_results_handler ed hs bid g = (g', Ret refusal) \<and>
      an_status refusal \<in> {401, 403, 429})) \<and>
   (turned_away ed (anthropic_key (eg_to_str ed) hs) g g' e \<longrightarrow>
     (let refusal = (case e of None \<Rightarrow> anthropic_error 401 ''authentication_error'' ''missing x-api-key''
          | Some x \<Rightarrow> anthropic_auth_error x) in
      messages_handler ed hs body g = (g', Ret refusal) \<and> an_status refusal \<in> {401, 403, 429}))"
proof -
  have refused: "an_status (auth_error_answer x :: 'a answer) \<in> {401, 403, 429}"
    "an_status (anthropic_auth_error x :: 'a answer) \<in> {401, 403, 429}" for x
    by (cases x; simp)+
  have missing: "an_status (missing_bearer :: 'a answer) \<in> {401, 403, 429}"
    "an_status (anthropic_error 401 kind m :: 'a answer) \<in> {401, 403, 429}" for kind m
    by (simp_all add: missing_bearer_def)
  have status: "an_status (case e of None \<Rightarrow> missing_bearer :: 'a answer | Some x \<Rightarrow> auth_error_answer x) \<in> {401, 403, 429}"
    by (cases e) (simp_all only: option.case missing refused)
  have messages: "an_status (case e of None \<Rightarrow> anthropic_error 401 kind m :: 'a answer
      | Some x \<Rightarrow> anthropic_auth_error x) \<in> {401, 403, 429}" for kind m
    by (cases e) (simp_all only: option.case missing refused)
  show ?thesis
  proof (intro conjI impI, goal_cases)
    case 1
    show ?case
      unfolding Let_def chat_completions_def responses_create_def get_response_def embeddings_handler_def
        rerank_handler_def decisions_handler_def audio_speech_def audio_transcriptions_def list_models_def create_batch_def
        retrieve_batch_def cancel_batch_def batch_results_handler_def by_batch_id_def
      by (intro conjI; rule turned_away_authenticated [OF 1] turned_away_voices [OF 1] status)
  next
    case 2
    show ?case
      unfolding Let_def messages_handler_def by (intro conjI; rule turned_away_authenticated [OF 2] messages)
  qed
qed

theorem unauthenticated_unserved_witness:
  "\<exists>g'. chat_completions ex_edge [(''authorization'', ''Bearer nobody'')] JNull ex_gateway = (g', Ret (auth_error_answer Unknown)) \<and>
     list_models ex_edge id None [(''authorization'', ''Bearer nobody'')] None None ex_gateway = (g', Ret (auth_error_answer Unknown)) \<and>
     messages_handler ex_edge [(''authorization'', ''Bearer nobody'')] JNull ex_gateway = (g', Ret (anthropic_auth_error Unknown))"
proof -
  let ?hs = "[(''authorization'', ''Bearer nobody'')]"
  have b: "bearer (eg_to_str ex_edge) ?hs = Some ''nobody''"
    using ex_header [of "''nobody''"] by (simp add: ex_edge_def)
  then have a: "anthropic_key (eg_to_str ex_edge) ?hs = Some ''nobody''"
    by (simp add: anthropic_key_def header_def)
  have "now_secs ex_gateway = 0" by (simp add: now_secs_def ex_gateway_def ex_node_def)
  then obtain g' where "credential_check ex_edge ''nobody'' None (now_secs ex_gateway) ex_gateway = (g', Inl Unknown)"
    using ex_refused [of "\<lambda>_. Inr True"]
    by (auto simp: credential_check_def authorize_token_identity_def ex_edge_def ex_gateway_def)
  then have "turned_away ex_edge (bearer (eg_to_str ex_edge) ?hs) ex_gateway g' (Some Unknown)"
    "turned_away ex_edge (anthropic_key (eg_to_str ex_edge) ?hs) ex_gateway g' (Some Unknown)"
    by (simp_all add: turned_away_def a b)
  then show ?thesis
    using unauthenticated_unserved [of ex_edge ?hs ex_gateway g' "Some Unknown" JNull "[]" "[]" "[]" id None None None]
    by (auto simp: Let_def)
qed

theorem admin_closed_witness:
  "admin_get (\<lambda>s. replicate 32 (hd (s @ ''x''))) (admin_token_of (\<lambda>s. replicate 32 (hd (s @ ''x''))) (\<lambda>_. None)
       (ex_config\<lparr>cf_server := server_config_default\<lparr>sv_admin_token := Some (Secret ''top'')\<rparr>\<rparr>))
     Some (\<lambda>_. JNull) [(''x-admin-token'', ''guess'')] ex_gateway = error_answer 401 ''invalid admin token''"
proof -
  have "\<forall>s :: string. length (replicate 32 (hd (s @ ''x''))) = 32" by simp
  from admin_closed [OF this, of "\<lambda>_. None"
      "ex_config\<lparr>cf_server := server_config_default\<lparr>sv_admin_token := Some (Secret ''top'')\<rparr>\<rparr>" Some "\<lambda>_. JNull"
      "[(''x-admin-token'', ''guess'')]" ex_gateway]
  show ?thesis by (simp add: presented_admin_token_def header_def)
qed

end
