(* ===== verification/ResponseEvents.thy ===== *)
theory ResponseEvents
  imports Responses AnthropicEvents Collect
begin

text \<open>
  The protocol of a Responses stream, as clients rely on it: events numbered from 0 without a gap;
  \<open>response.created\<close>, \<open>response.in_progress\<close>; output items under consecutive indices, each added, fed events of
  its own kind that name it, and done before the next one is added; one terminal event whose kind fits the
  status of its snapshot. An \<open>error\<close> event ends the stream anywhere before that. The second part compares the
  snapshot of the terminal event with the object the collected response is rendered to.
\<close>

section \<open>The protocol\<close>

datatype stage = ReasoningStage | BareMessage | TextStage | TextOver | CallStage | ItemOver

datatype response_phase =
    Unborn | Created | Between u32 | Within u32 string stage | Finished | Broken

definition seq_of :: "frame \<Rightarrow> u64 option" where
  "seq_of f = get_u64 (fr_data f) ''sequence_number''"

definition output_index_of :: "frame \<Rightarrow> u32 option" where
  "output_index_of f = map_option ucast (get_u64 (fr_data f) ''output_index'')"

definition item_of :: "frame \<Rightarrow> json option" where
  "item_of f = json_get (fr_data f) ''item''"

definition status_of :: "frame \<Rightarrow> string option" where
  "status_of f = Option.bind (json_get (fr_data f) ''response'') (\<lambda>r. get_str r ''status'')"

text \<open>Where an added item starts, and where an event of it leads.\<close>

definition first_stage :: "json \<Rightarrow> stage option" where
  "first_stage item =
     (if item_type item = Some ''reasoning''
      then Some (if json_get item ''encrypted_content'' = None then ReasoningStage else ItemOver)
      else if item_type item = Some ''message'' then Some BareMessage
      else if item_type item = Some ''function_call'' then Some CallStage
      else if item_type item = Some ''compaction'' then Some ItemOver
      else None)"

fun stage_after :: "stage \<Rightarrow> string \<Rightarrow> stage option" where
  "stage_after ReasoningStage k =
     (if k = ''response.reasoning_text.delta'' then Some ReasoningStage
      else if k = ''response.reasoning_text.done'' then Some ItemOver else None)"
| "stage_after BareMessage k = (if k = ''response.content_part.added'' then Some TextStage else None)"
| "stage_after TextStage k =
     (if k = ''response.output_text.delta'' then Some TextStage
      else if k = ''response.output_text.done'' then Some TextOver else None)"
| "stage_after TextOver k = (if k = ''response.content_part.done'' then Some ItemOver else None)"
| "stage_after CallStage k =
     (if k = ''response.function_call_arguments.delta'' then Some CallStage
      else if k = ''response.function_call_arguments.done'' then Some ItemOver else None)"
| "stage_after ItemOver k = None"

fun terminal_status :: "string \<Rightarrow> string option" where
  "terminal_status k =
     (if k = ''response.completed'' then Some ''completed''
      else if k = ''response.incomplete'' then Some ''incomplete''
      else if k = ''response.failed'' then Some ''failed''
      else None)"

inductive response_step :: "response_phase \<times> u64 \<Rightarrow> frame \<Rightarrow> response_phase \<times> u64 \<Rightarrow> bool" where
  creates: "frame_kind f = Some ''response.created'' \<Longrightarrow> status_of f = Some ''in_progress'' \<Longrightarrow>
    seq_of f = Some n \<Longrightarrow> response_step (Unborn, n) f (Created, n + 1)"
| progresses: "frame_kind f = Some ''response.in_progress'' \<Longrightarrow> status_of f = Some ''in_progress'' \<Longrightarrow>
    seq_of f = Some n \<Longrightarrow> response_step (Created, n) f (Between 0, n + 1)"
| adds: "frame_kind f = Some ''response.output_item.added'' \<Longrightarrow> output_index_of f = Some i \<Longrightarrow>
    item_of f = Some item \<Longrightarrow> get_str item ''id'' = Some iid \<Longrightarrow> first_stage item = Some s \<Longrightarrow>
    seq_of f = Some n \<Longrightarrow> response_step (Between i, n) f (Within i iid s, n + 1)"
| works: "frame_kind f = Some k \<Longrightarrow> output_index_of f = Some i \<Longrightarrow> get_str (fr_data f) ''item_id'' = Some iid \<Longrightarrow>
    stage_after s k = Some t \<Longrightarrow> seq_of f = Some n \<Longrightarrow> response_step (Within i iid s, n) f (Within i iid t, n + 1)"
| finishes: "frame_kind f = Some ''response.output_item.done'' \<Longrightarrow> output_index_of f = Some i \<Longrightarrow>
    item_of f = Some item \<Longrightarrow> get_str item ''id'' = Some iid \<Longrightarrow>
    seq_of f = Some n \<Longrightarrow> response_step (Within i iid ItemOver, n) f (Between (i + 1), n + 1)"
| concludes: "frame_kind f = Some k \<Longrightarrow> terminal_status k = Some s \<Longrightarrow> status_of f = Some s \<Longrightarrow>
    seq_of f = Some n \<Longrightarrow> response_step (Between i, n) f (Finished, n + 1)"
| breaks: "frame_kind f = Some ''error'' \<Longrightarrow> p \<noteq> Finished \<Longrightarrow> p \<noteq> Broken \<Longrightarrow>
    seq_of f = Some n \<Longrightarrow> response_step (p, n) f (Broken, n + 1)"

inductive_cases from_finished: "response_step (Finished, n) f p"
inductive_cases from_broken: "response_step (Broken, n) f p"
inductive_cases numbered: "response_step (p, n) f (q, m)"

inductive response_run :: "response_phase \<times> u64 \<Rightarrow> frame list \<Rightarrow> response_phase \<times> u64 \<Rightarrow> bool" where
  done_Nil [intro!]: "response_run p [] p"
| done_Cons: "response_step p f q \<Longrightarrow> response_run q fs r \<Longrightarrow> response_run p (f # fs) r"

inductive_simps done_Nil_iff: "response_run p [] q"
inductive_simps done_Cons_iff: "response_run p (f # fs) q"

lemma response_run_append: "response_run p fs q \<Longrightarrow> response_run q gs r \<Longrightarrow> response_run p (fs @ gs) r"
  by (induction rule: response_run.induct) (auto intro: done_Cons)

lemma response_run_step: "response_step p f q \<Longrightarrow> response_run p [f] q"
  by (auto intro: done_Cons)

lemma nothing_after_the_response:
  "response_run (Finished, n) (f # fs) p \<Longrightarrow> False" "response_run (Broken, n) (f # fs) p \<Longrightarrow> False"
  by (auto simp: done_Cons_iff elim: from_finished from_broken)

text \<open>Every event of a run carries its own number, counted from where the run starts.\<close>

lemma step_numbered: "response_step p f q \<Longrightarrow> seq_of f = Some (snd p) \<and> snd q = snd p + 1"
  by (induction rule: response_step.induct) auto

lemma run_numbered:
  "response_run p fs q \<Longrightarrow> (\<forall>k < length fs. seq_of (fs ! k) = Some (snd p + of_nat k)) \<and> snd q = snd p + of_nat (length fs)"
proof (induction rule: response_run.induct)
  case (done_Cons p f q fs r)
  have "seq_of ((f # fs) ! k) = Some (snd p + of_nat k)" if "k < length (f # fs)" for k
    using that done_Cons.IH step_numbered [OF done_Cons.hyps(1)] by (cases k) (auto simp: algebra_simps)
  then show ?case
    using done_Cons.IH step_numbered [OF done_Cons.hyps(1)] by (auto simp: algebra_simps)
qed simp

section \<open>The encoder keeps to the protocol\<close>

fun item_index :: "open_item \<Rightarrow> u32" where
  "item_index (OpenReasoning i iid t s) = i"
| "item_index (OpenMessage i iid t) = i"
| "item_index (OpenCall i iid canon) = i"

fun item_name :: "open_item \<Rightarrow> string" where
  "item_name (OpenReasoning i iid t s) = iid"
| "item_name (OpenMessage i iid t) = iid"
| "item_name (OpenCall i iid canon) = iid"

fun item_stage :: "open_item \<Rightarrow> stage" where
  "item_stage (OpenReasoning i iid t s) = ReasoningStage"
| "item_stage (OpenMessage i iid t) = TextStage"
| "item_stage (OpenCall i iid canon) = CallStage"

definition open_phase :: "open_item \<Rightarrow> response_phase" where
  "open_phase item = Within (item_index item) (item_name item) (item_stage item)"

definition response_at :: "response_encoder \<Rightarrow> response_phase" where
  "response_at e =
     (if \<not> re_started e then Unborn
      else case re_open e of None \<Rightarrow> Between (re_output_index e) | Some item \<Rightarrow> open_phase item)"

text \<open>Before the start nothing is open; an open item has the last index that was given out.\<close>

definition response_ok :: "response_encoder \<Rightarrow> bool" where
  "response_ok e \<longleftrightarrow>
     (\<not> re_started e \<longrightarrow> re_open e = None \<and> re_output_index e = 0) \<and>
     (\<forall>item. re_open e = Some item \<longrightarrow> item_index item + 1 = re_output_index e)"

text \<open>What an encoder has read and the number of its next event do not say where it is.\<close>

named_theorems push_simps

lemma place_updates [push_simps]:
  "response_at (e\<lparr>re_seq := n\<rparr>) = response_at e" "response_ok (e\<lparr>re_seq := n\<rparr>) = response_ok e"
  "response_at (e\<lparr>re_id := rid\<rparr>) = response_at e" "response_ok (e\<lparr>re_id := rid\<rparr>) = response_ok e"
  "response_at (e\<lparr>re_text := t\<rparr>) = response_at e" "response_ok (e\<lparr>re_text := t\<rparr>) = response_ok e"
  "response_at (e\<lparr>re_think_text := t\<rparr>) = response_at e" "response_ok (e\<lparr>re_think_text := t\<rparr>) = response_ok e"
  "response_at (e\<lparr>re_think_sig := g\<rparr>) = response_at e" "response_ok (e\<lparr>re_think_sig := g\<rparr>) = response_ok e"
  "response_at (e\<lparr>re_redacted := ds\<rparr>) = response_at e" "response_ok (e\<lparr>re_redacted := ds\<rparr>) = response_ok e"
  "response_at (e\<lparr>re_tools := tree\<rparr>) = response_at e" "response_ok (e\<lparr>re_tools := tree\<rparr>) = response_ok e"
  "response_at (e\<lparr>re_compaction := ps\<rparr>) = response_at e" "response_ok (e\<lparr>re_compaction := ps\<rparr>) = response_ok e"
  "response_at (e\<lparr>re_ordered := ms\<rparr>) = response_at e" "response_ok (e\<lparr>re_ordered := ms\<rparr>) = response_ok e"
  "response_at (e\<lparr>re_usage := u\<rparr>) = response_at e" "response_ok (e\<lparr>re_usage := u\<rparr>) = response_ok e"
  "response_at (e\<lparr>re_finish := r\<rparr>) = response_at e" "response_ok (e\<lparr>re_finish := r\<rparr>) = response_ok e"
  by (simp_all add: response_at_def response_ok_def split: option.split)

text \<open>The frames lead from one phase to another, and the encoder's number along with them.\<close>

definition leads :: "response_phase \<Rightarrow> response_encoder \<Rightarrow> frame list \<Rightarrow> response_phase \<Rightarrow> response_encoder \<Rightarrow> bool" where
  "leads p e fs q e' \<longleftrightarrow> response_run (p, re_seq e) fs (q, re_seq e')"

lemma leads_refl [intro]: "re_seq e = re_seq e' \<Longrightarrow> leads p e [] p e'"
  by (auto simp: leads_def)

lemma leads_trans: "leads p e fs q e' \<Longrightarrow> leads q e' gs r e'' \<Longrightarrow> leads p e (fs @ gs) r e''"
  by (auto simp: leads_def intro: response_run_append)

lemma and_then_pair: "f e = (fs, e') \<Longrightarrow> g e' = (gs, e'') \<Longrightarrow> and_then f g e = (fs @ gs, e'')"
  by (simp add: and_then_def)

definition numbered_frame :: "string \<Rightarrow> json_map \<Rightarrow> u64 \<Rightarrow> frame" where
  "numbered_frame k ms n = event_frame k (ms @ field ''sequence_number'' (json_u64 n))"

lemma push_event_frame [push_simps]:
  "push_event k ms e = ([numbered_frame k ms (re_seq e)], e\<lparr>re_seq := re_seq e + 1\<rparr>)"
  by (simp add: push_event_def numbered_frame_def)

lemma numbered_frame_fields [push_simps]:
  "frame_kind (numbered_frame k ms n) = Some k"
  "hm_get ms ''sequence_number'' = None \<Longrightarrow> seq_of (numbered_frame k ms n) = Some n"
  "j \<noteq> ''type'' \<Longrightarrow> j \<noteq> ''sequence_number'' \<Longrightarrow> json_get (fr_data (numbered_frame k ms n)) j = hm_get ms j"
  by (simp_all add: numbered_frame_def seq_of_def get_u64_def event_simps wire_simps)

lemma leads_pushed:
  "response_step (p, re_seq e) (numbered_frame k ms (re_seq e)) (q, re_seq e + 1) \<Longrightarrow>
     leads p e (fst (push_event k ms e)) q (snd (push_event k ms e))"
  by (auto simp: leads_def push_simps intro: response_run_step)

lemma item_type_typed [push_simps]: "item_type (typed k ms) = Some k"
  by (simp add: item_type_def event_simps)

lemma item_ids [push_simps]:
  "get_str (reasoning_item iid ts s) ''id'' = Some iid" "get_str (redacted_reasoning d iid) ''id'' = Some iid"
  "get_str (message_item iid t) ''id'' = Some iid" "get_str (function_item iid c) ''id'' = Some iid"
  "get_str (compacted_item a b s iid) ''id'' = Some iid" "get_str (reasoning_stub iid) ''id'' = Some iid"
  "get_str (message_stub iid) ''id'' = Some iid" "get_str (call_stub call iid) ''id'' = Some iid"
  by (simp_all add: get_str_def reasoning_item_def redacted_reasoning_def message_item_def function_item_def compacted_item_def
      reasoning_stub_def message_stub_def call_stub_def event_simps wire_simps)

lemma item_stages [push_simps]:
  "first_stage (redacted_reasoning d iid) = Some ItemOver" "first_stage (compacted_item a b s iid) = Some ItemOver"
  "first_stage (reasoning_stub iid) = Some ReasoningStage" "first_stage (message_stub iid) = Some BareMessage"
  "first_stage (call_stub call iid) = Some CallStage"
  by (simp_all add: first_stage_def redacted_reasoning_def compacted_item_def
      reasoning_stub_def message_stub_def call_stub_def push_simps event_simps wire_simps)

text \<open>Pushing changes nothing but the number.\<close>

lemma pushed_same [push_simps]:
  "snd (item_added i item e) = e\<lparr>re_seq := re_seq e + 1\<rparr>"
  "snd (item_done i item e) = e\<lparr>re_seq := re_seq e + 1\<rparr>"
  "snd (item_event k iid i ms e) = e\<lparr>re_seq := re_seq e + 1\<rparr>"
  "snd (content_event k iid i ms e) = e\<lparr>re_seq := re_seq e + 1\<rparr>"
  by (simp_all add: item_added_def item_done_def item_event_def content_event_def push_simps)


lemma response_started_leads:
  assumes "response_ok e" "response_started e = (fs, e')"
  shows "leads (response_at e) e fs (response_at e') e' \<and> response_ok e' \<and> re_started e' \<and> re_open e' = re_open e"
proof (cases "re_started e")
  case True
  then show ?thesis using assms by (auto simp: response_started_def)
next
  case False
  let ?e = "e\<lparr>re_started := True\<rparr>"
  let ?s = "field ''response'' (in_progress_snapshot ?e)"
  have status: "get_str (in_progress_snapshot c) ''status'' = Some ''in_progress''" for c
    by (simp add: in_progress_snapshot_def build_response_def get_str_def wire_simps)
  have "response_step (Unborn, n) (numbered_frame ''response.created'' (field ''response'' (in_progress_snapshot c)) n)
      (Created, n + 1)" for c n
    by (rule creates) (simp_all add: push_simps status_of_def status wire_simps)
  moreover have "response_step (Created, n)
      (numbered_frame ''response.in_progress'' (field ''response'' (in_progress_snapshot c)) n) (Between 0, n + 1)" for c n
    by (rule progresses) (simp_all add: push_simps status_of_def status wire_simps)
  ultimately show ?thesis
    using False assms
    by (auto simp: response_started_def and_then_def push_snapshot_def push_simps leads_def response_at_def response_ok_def
        in_progress_snapshot_def intro!: done_Cons)
qed

text \<open>Operations that lead from one phase to another, whatever the encoder.\<close>

definition pushes_lead :: "response_phase \<Rightarrow> pushes \<Rightarrow> response_phase \<Rightarrow> bool" where
  "pushes_lead p f q \<longleftrightarrow> (\<forall>e. leads p e (fst (f e)) q (snd (f e)))"

lemma pushes_leadD: "pushes_lead p f q \<Longrightarrow> leads p e (fst (f e)) q (snd (f e))"
  by (simp add: pushes_lead_def)

lemma and_then_leads: "pushes_lead p f q \<Longrightarrow> pushes_lead q g r \<Longrightarrow> pushes_lead p (and_then f g) r"
  by (auto simp: pushes_lead_def and_then_def case_prod_unfold intro: leads_trans)

lemma and_then_snd [push_simps]: "snd (and_then f g e) = snd (g (snd (f e)))"
  by (simp add: and_then_def case_prod_unfold)

lemma item_added_leads:
  "get_str item ''id'' = Some iid \<Longrightarrow> first_stage item = Some s \<Longrightarrow>
     pushes_lead (Between i) (item_added i item) (Within i iid s)"
  unfolding item_added_def pushes_lead_def
  by (rule allI, rule leads_pushed, rule adds)
    (simp_all add: push_simps output_index_of_def item_of_def get_u64_def wire_simps)

lemma item_done_leads:
  "get_str item ''id'' = Some iid \<Longrightarrow> pushes_lead (Within i iid ItemOver) (item_done i item) (Between (i + 1))"
  unfolding item_done_def pushes_lead_def
  by (rule allI, rule leads_pushed, rule finishes)
    (simp_all add: push_simps output_index_of_def item_of_def get_u64_def wire_simps)

lemma item_event_leads:
  "stage_after s k = Some t \<Longrightarrow> hm_get ms ''sequence_number'' = None \<Longrightarrow>
     pushes_lead (Within i iid s) (item_event k iid i ms) (Within i iid t)"
  unfolding item_event_def pushes_lead_def
  by (rule allI, rule leads_pushed, rule works [where k = k and t = t])
    (simp_all add: push_simps output_index_of_def get_str_def get_u64_def wire_simps)

lemma content_event_leads:
  "stage_after s k = Some t \<Longrightarrow> hm_get ms ''sequence_number'' = None \<Longrightarrow>
     pushes_lead (Within i iid s) (content_event k iid i ms) (Within i iid t)"
  unfolding content_event_def by (rule item_event_leads) (simp_all add: wire_simps)

text \<open>The events that close an item, whatever the encoder.\<close>

lemma close_item_leads: "pushes_lead (open_phase item) (close_item item) (Between (item_index item + 1))"
proof (cases item)
  case (OpenReasoning i iid t signature)
  show ?thesis
    unfolding OpenReasoning open_phase_def close_item.simps item_index.simps item_name.simps item_stage.simps
    by (rule and_then_leads [OF content_event_leads [where t = ItemOver] item_done_leads])
      (simp_all add: push_simps wire_simps)
next
  case (OpenMessage i iid t)
  show ?thesis
    unfolding OpenMessage open_phase_def close_item.simps item_index.simps item_name.simps item_stage.simps
    by (rule and_then_leads [OF content_event_leads [where t = TextOver]
          and_then_leads [OF content_event_leads [where t = ItemOver] item_done_leads]])
      (simp_all add: push_simps wire_simps)
next
  case (OpenCall i iid canon)
  have "pushes_lead (Within i iid CallStage)
      (and_then (item_event ''response.function_call_arguments.done'' iid i (field ''arguments'' (JString (tc_arguments call))))
        (item_done i (function_item iid call))) (Between (i + 1))" for call
    by (rule and_then_leads [OF item_event_leads [where t = ItemOver] item_done_leads])
      (simp_all add: push_simps wire_simps)
  then show ?thesis by (simp add: OpenCall open_phase_def pushes_lead_def Let_def)
qed

lemma close_item_same:
  "snd (close_item item e) = e\<lparr>re_seq := re_seq (snd (close_item item e))\<rparr>"
  by (cases item) (simp_all add: push_simps Let_def)


text \<open>What every operation below keeps: the stream so far leads where the encoder is.\<close>

definition follows :: "response_encoder \<Rightarrow> frame list \<Rightarrow> response_encoder \<Rightarrow> bool" where
  "follows e fs e' \<longleftrightarrow> leads (response_at e) e fs (response_at e') e' \<and> response_ok e' \<and> re_started e'"

lemma follows_trans: "follows e fs e' \<Longrightarrow> follows e' gs e'' \<Longrightarrow> follows e (fs @ gs) e''"
  by (auto simp: follows_def intro: leads_trans)

lemma close_current_leads:
  assumes "response_ok e" "re_started e" "close_current e = (fs, e')"
  shows "follows e fs e' \<and> re_open e' = None \<and> re_output_index e' = re_output_index e"
proof (cases "re_open e")
  case None
  then show ?thesis using assms by (auto simp: close_current_def follows_def)
next
  case (Some item)
  let ?e = "e\<lparr>re_open := None\<rparr>"
  have e': "fs = fst (close_item item ?e)" "e' = snd (close_item item ?e)"
    using assms(3) by (simp_all add: close_current_def Some)
  define n where "n = re_seq e'"
  have same: "e' = ?e\<lparr>re_seq := n\<rparr>" using close_item_same [of item ?e] by (simp add: e'(2) n_def)
  then have fields: "re_open e' = None" "re_started e'" "re_output_index e' = re_output_index e"
    using assms(2) by (simp_all add: push_simps)
  have "leads (open_phase item) ?e fs (Between (item_index item + 1)) e'"
    using close_item_leads [of item] by (simp add: e' pushes_lead_def)
  moreover have "item_index item + 1 = re_output_index e" using assms(1) Some by (simp add: response_ok_def)
  ultimately have "leads (response_at e) e fs (response_at e') e'"
    using assms(2) by (simp add: response_at_def Some fields leads_def)
  then show ?thesis using fields by (simp add: follows_def response_ok_def)
qed

lemma begin_item_leads:
  assumes "response_ok e" "re_started e" "begin_item given kind item e = (fs, iid, i, e')"
    and "\<And>iid. get_str (item iid) ''id'' = Some iid" "\<And>iid. first_stage (item iid) = Some s"
  shows "leads (response_at e) e fs (Within i iid s) e' \<and> re_open e' = None \<and> re_started e' \<and>
    re_output_index e' = i + 1"
proof -
  obtain cs c where closed: "close_current e = (cs, c)" by (cases "close_current e")
  note c = close_current_leads [OF assms(1,2) closed]
  let ?c = "c\<lparr>re_output_index := re_output_index c + 1\<rparr>"
  have e': "i = re_output_index c" "fs = cs @ fst (item_added i (item iid) ?c)" "e' = snd (item_added i (item iid) ?c)"
    using assms(3) by (auto simp: begin_item_def closed Let_def split: prod.splits)
  have "response_at c = Between i" using c by (simp add: follows_def response_at_def e'(1))
  then have "leads (response_at e) e cs (Between i) ?c"
    using c by (simp add: follows_def leads_def)
  moreover have "leads (Between i) ?c (fst (item_added i (item iid) ?c)) (Within i iid s) e'"
    using item_added_leads [OF assms(4,5)] unfolding e'(3) pushes_lead_def by blast
  ultimately show ?thesis
    using c by (auto simp: e'(1,2) e'(3) [unfolded push_simps] follows_def push_simps intro: leads_trans)
qed

text \<open>The items that stay open.\<close>

lemma follows_open:
  "leads (response_at e) e fs (open_phase item) e' \<Longrightarrow> re_started e' \<Longrightarrow> re_output_index e' = item_index item + 1 \<Longrightarrow>
     follows e fs (e'\<lparr>re_open := Some item\<rparr>)"
  by (simp add: follows_def response_at_def response_ok_def leads_def)

lemma follows_refl: "response_ok e \<Longrightarrow> re_started e \<Longrightarrow> follows e [] e"
  by (auto simp: follows_def)

definition is_open :: "response_encoder \<Rightarrow> stage \<Rightarrow> string \<Rightarrow> u32 \<Rightarrow> bool" where
  "is_open e s iid i \<longleftrightarrow>
     (\<exists>item. re_open e = Some item \<and> item_stage item = s \<and> item_name item = iid \<and> item_index item = i)"

lemma open_reasoning_leads:
  assumes "response_ok e" "re_started e" "open_reasoning e = (fs, iid, i, e')"
  shows "follows e fs e' \<and> is_open e' ReasoningStage iid i"
proof (cases "\<exists>j n t s. re_open e = Some (OpenReasoning j n t s)")
  case True
  then show ?thesis using assms by (auto simp: open_reasoning_def follows_refl is_open_def)
next
  case False
  then obtain c where began: "begin_item None ''rs'' reasoning_stub e = (fs, iid, i, c)"
    and e': "e' = c\<lparr>re_open := Some (OpenReasoning i iid [] None)\<rparr>"
    using assms(3)
    by (cases "begin_item None ''rs'' reasoning_stub e")
      (cases "re_open e", simp add: open_reasoning_def, cases "the (re_open e)", simp_all add: open_reasoning_def)
  from begin_item_leads [OF assms(1,2) began, of ReasoningStage] show ?thesis
    using follows_open [of e fs "OpenReasoning i iid [] None" c]
    by (simp add: push_simps e' open_phase_def is_open_def)
qed

lemma open_call_leads:
  assumes "response_ok e" "re_started e" "open_call call e = (fs, iid, i, e')"
  shows "follows e fs e' \<and> is_open e' CallStage iid i"
proof (cases "\<exists>j n. re_open e = Some (OpenCall j n (tl_index call))")
  case True
  then show ?thesis using assms by (auto simp: open_call_def follows_refl is_open_def)
next
  case False
  then obtain c where began: "begin_item None ''fc'' (call_stub call) e = (fs, iid, i, c)"
    and e': "e' = c\<lparr>re_open := Some (OpenCall i iid (tl_index call))\<rparr>"
    using assms(3)
    by (cases "begin_item None ''fc'' (call_stub call) e")
      (cases "re_open e", simp add: open_call_def, cases "the (re_open e)", simp_all add: open_call_def)
  from begin_item_leads [OF assms(1,2) began, of CallStage] show ?thesis
    using follows_open [of e fs "OpenCall i iid (tl_index call)" c]
    by (simp add: push_simps e' open_phase_def is_open_def)
qed

lemma open_message_leads:
  assumes "response_ok e" "re_started e" "open_message e = (fs, iid, i, e')"
  shows "follows e fs e' \<and> is_open e' TextStage iid i"
proof (cases "\<exists>j n t. re_open e = Some (OpenMessage j n t)")
  case True
  then show ?thesis using assms by (auto simp: open_message_def follows_refl is_open_def)
next
  case False
  let ?part = "content_event ''response.content_part.added'' iid i (field ''part'' (output_text_part []))"
  obtain gs n j c where began: "begin_item None ''msg'' message_stub e = (gs, n, j, c)" by (rule prod_cases4)
  have "open_message e =
      (let (part, c) = content_event ''response.content_part.added'' n j (field ''part'' (output_text_part [])) c
       in (gs @ part, n, j, c\<lparr>re_open := Some (OpenMessage j n [])\<rparr>))"
    using False by (cases "re_open e", simp add: open_message_def began, cases "the (re_open e)")
      (simp_all add: open_message_def began)
  with assms(3) have e': "e' = (snd (?part c))\<lparr>re_open := Some (OpenMessage i iid [])\<rparr>" "fs = gs @ fst (?part c)"
    and nj: "n = iid" "j = i"
    by (auto simp: case_prod_unfold Let_def)
  note began = began [unfolded nj]
  note c = begin_item_leads [OF assms(1,2) began, of BareMessage]
  have "leads (Within i iid BareMessage) c (fst (?part c)) (Within i iid TextStage) (snd (?part c))"
    by (rule pushes_leadD [where f = ?part], rule content_event_leads) (simp_all add: wire_simps)
  with c have "leads (response_at e) e fs (open_phase (OpenMessage i iid [])) (snd (?part c))"
    unfolding e'(2) by (auto simp: push_simps open_phase_def intro: leads_trans)
  from follows_open [OF this] c show ?thesis
    by (simp add: push_simps e'(1) is_open_def)
qed


text \<open>An event of the open item, and an item that arrives whole.\<close>

lemma open_item_event:
  assumes "response_ok e" "re_started e" "is_open e s iid i" "pushes_lead (Within i iid s) f (Within i iid s)"
    and "\<And>e. snd (f e) = e\<lparr>re_seq := re_seq e + 1\<rparr>"
  shows "follows e (fst (f e)) (snd (f e))"
proof -
  have "response_at e = Within i iid s"
    using assms(2,3) by (auto simp: response_at_def is_open_def open_phase_def)
  moreover from this have "response_at (snd (f e)) = Within i iid s"
    using assms(5) [of e] by (simp add: push_simps)
  moreover have "response_ok (snd (f e))" "re_started (snd (f e))"
    using assms(1,2) assms(5) [of e] by (simp_all add: push_simps)
  ultimately show ?thesis
    using pushes_leadD [OF assms(4), of e] by (simp add: follows_def)
qed

lemma open_events:
  assumes "response_ok e" "re_started e" "is_open e s iid i" "stage_after s k = Some s" "hm_get ms ''sequence_number'' = None"
  shows "follows e (fst (content_event k iid i ms e)) (snd (content_event k iid i ms e))"
    "follows e (fst (item_event k iid i ms e)) (snd (item_event k iid i ms e))"
proof -
  show "follows e (fst (content_event k iid i ms e)) (snd (content_event k iid i ms e))"
    by (rule open_item_event [OF assms(1-3) content_event_leads]) (simp_all add: push_simps assms(4,5))
  show "follows e (fst (item_event k iid i ms e)) (snd (item_event k iid i ms e))"
    by (rule open_item_event [OF assms(1-3) item_event_leads]) (simp_all add: push_simps assms(4,5))
qed

lemma grown_same [simp]:
  "item_stage (grown d item) = item_stage item" "item_name (grown d item) = item_name item"
  "item_index (grown d item) = item_index item" "open_phase (grown d item) = open_phase item"
  by (cases item; simp add: open_phase_def)+

lemma signed_same [simp]: "open_phase (signed d item) = open_phase item" "item_index (signed d item) = item_index item"
  by (cases item; simp add: open_phase_def)+

lemma grow_keeps:
  "follows e fs e' \<Longrightarrow> is_open e' s iid i \<Longrightarrow> follows e fs (grow d e') \<and> is_open (grow d e') s iid i"
  by (auto simp: follows_def is_open_def grow_def response_at_def response_ok_def leads_def)

lemma whole_item_leads:
  assumes "response_ok e" "re_started e" "whole_item given kind item e = (fs, i, e')"
    and "\<And>iid. get_str (item iid) ''id'' = Some iid" "\<And>iid. first_stage (item iid) = Some ItemOver"
  shows "follows e fs e'"
proof -
  obtain gs iid j c where began: "begin_item given kind item e = (gs, iid, j, c)" by (rule prod_cases4)
  then have e': "fs = gs @ fst (item_done j (item iid) c)" "e' = snd (item_done j (item iid) c)" "i = j"
    using assms(3) by (auto simp: whole_item_def case_prod_unfold Let_def)
  note c = begin_item_leads [OF assms(1,2) began assms(4,5)]
  have "leads (Within j iid ItemOver) c (fst (item_done j (item iid) c)) (Between (j + 1)) e'"
    unfolding e'(2) by (rule pushes_leadD [OF item_done_leads]) (rule assms)
  moreover have "response_at e' = Between (j + 1)" "response_ok e'" "re_started e'"
    using c by (simp_all add: e'(2) push_simps response_at_def response_ok_def)
  ultimately show ?thesis using c by (auto simp: follows_def e'(1) intro: leads_trans)
qed

section \<open>Every chunk\<close>

definition keeps_to :: "response_encoder \<Rightarrow> frame list \<times> response_encoder \<Rightarrow> bool" where
  "keeps_to e r \<longleftrightarrow> leads (response_at e) e (fst r) (response_at (snd r)) (snd r) \<and> response_ok (snd r)"

lemma keeps_to_follows: "follows e fs e' \<Longrightarrow> keeps_to e (fs, e')"
  by (simp add: keeps_to_def follows_def)

lemma keeps_to_same:
  "response_ok e \<Longrightarrow> response_at e' = response_at e \<Longrightarrow> response_ok e' \<Longrightarrow> re_seq e' = re_seq e \<Longrightarrow> keeps_to e ([], e')"
  by (auto simp: keeps_to_def)

lemma started_follows:
  assumes "response_ok e" "response_started e = (fs, e')"
  shows "follows e fs e'"
  using response_started_leads [OF assms] by (simp add: follows_def)

text \<open>What a chunk adds to the contents changes nothing of where the encoder is.\<close>

lemma content_updates [push_simps]:
  "follows (e\<lparr>re_text := t\<rparr>) fs e' = follows e fs e'" "follows (e\<lparr>re_think_text := t\<rparr>) fs e' = follows e fs e'"
  "follows (e\<lparr>re_redacted := ds\<rparr>) fs e' = follows e fs e'" "follows (e\<lparr>re_tools := tree\<rparr>) fs e' = follows e fs e'"
  "follows (e\<lparr>re_id := rid\<rparr>) fs e' = follows e fs e'" "follows e fs (e'\<lparr>re_compaction := ps\<rparr>) = follows e fs e'"
  "follows e fs (e'\<lparr>re_finish := r\<rparr>) = follows e fs e'"
  by (simp_all add: follows_def leads_def push_simps)

lemma followsD: "follows e fs e' \<Longrightarrow> response_ok e' \<and> re_started e'"
  by (simp add: follows_def)

lemma encode_response_keeps:
  assumes "response_ok e"
  shows "keeps_to e (encode_response chunk e)"
proof -
  obtain ss s where started: "response_started e = (ss, s)" by (cases "response_started e")
  note s = started_follows [OF assms started]
  then have ok: "response_ok s" "re_started s" by (simp_all add: follows_def)
  show ?thesis
  proof (cases chunk)
    case (Start rid model)
    let ?e = "if \<not> re_started e \<and> str_trim rid \<noteq> [] then e\<lparr>re_id := rid\<rparr> else e"
    obtain ts t where t: "response_started ?e = (ts, t)" by (cases "response_started ?e")
    then have "follows ?e ts t" by (rule started_follows [rotated]) (simp add: assms push_simps)
    then have "follows e ts t" by (simp add: push_simps split: if_splits)
    then show ?thesis by (simp add: Start t keeps_to_follows del: if_split)
  next
    case (Thinking ci d)
    let ?s = "s\<lparr>re_think_text := re_think_text s @ d\<rparr>"
    obtain os iid i o' where o': "open_reasoning ?s = (os, iid, i, o')" by (rule prod_cases4)
    have opened: "follows s os o'" "is_open o' ReasoningStage iid i"
      using open_reasoning_leads [OF _ _ o'] ok by (simp_all add: push_simps)
    note g = grow_keeps [OF opened, of d]
    have "follows (grow d o') (fst (content_event ''response.reasoning_text.delta'' iid i (field ''delta'' (JString d)) (grow d o')))
        (snd (content_event ''response.reasoning_text.delta'' iid i (field ''delta'' (JString d)) (grow d o')))"
      using g followsD [of s os "grow d o'"]
      by (intro open_events [where s = ReasoningStage]) (simp_all add: wire_simps)
    from follows_trans [OF s follows_trans [OF conjunct1 [OF g] this]] show ?thesis
      using assms by (auto simp: Thinking started o' case_prod_unfold Let_def keeps_to_follows keeps_to_same)
  next
    case (Content ci d)
    let ?s = "s\<lparr>re_text := re_text s @ d\<rparr>"
    obtain os iid i o' where o': "open_message ?s = (os, iid, i, o')" by (rule prod_cases4)
    have opened: "follows s os o'" "is_open o' TextStage iid i"
      using open_message_leads [OF _ _ o'] ok by (simp_all add: push_simps)
    note g = grow_keeps [OF opened, of d]
    have "follows (grow d o') (fst (content_event ''response.output_text.delta'' iid i (field ''delta'' (JString d)) (grow d o')))
        (snd (content_event ''response.output_text.delta'' iid i (field ''delta'' (JString d)) (grow d o')))"
      using g followsD [of s os "grow d o'"]
      by (intro open_events [where s = TextStage]) (simp_all add: wire_simps)
    from follows_trans [OF s follows_trans [OF conjunct1 [OF g] this]] show ?thesis
      using assms by (auto simp: Content started o' case_prod_unfold Let_def keeps_to_follows keeps_to_same)
  next
    case (ToolCall ci call)
    let ?s = "s\<lparr>re_tools := bt_entry (tl_index call) partial_default (merge_call call) (re_tools s)\<rparr>"
    let ?k = "''response.function_call_arguments.delta''"
    obtain os iid i o' where o': "open_call call ?s = (os, iid, i, o')" by (rule prod_cases4)
    have opened: "follows s os o'" "is_open o' CallStage iid i"
      using open_call_leads [OF _ _ o'] ok by (simp_all add: push_simps)
    have "follows o' (fst (item_event ?k iid i (field ''delta'' (JString args)) o'))
        (snd (item_event ?k iid i (field ''delta'' (JString args)) o'))" for args
      using opened followsD [of s os o']
      by (intro open_events [where s = CallStage]) (simp_all add: wire_simps)
    then have "follows e (ss @ os) o'" "follows e (ss @ os @ fst (item_event ?k iid i (field ''delta'' (JString args)) o'))
        (snd (item_event ?k iid i (field ''delta'' (JString args)) o'))" for args
      using s opened(1) follows_trans by blast+
    then show ?thesis
      using assms by (auto simp: ToolCall started o' case_prod_unfold Let_def keeps_to_follows keeps_to_same split: option.split)
  next
    case (RedactedThinking ci data)
    let ?s = "s\<lparr>re_redacted := re_redacted s @ [data]\<rparr>"
    obtain ws i w where w: "whole_item None ''rs'' (redacted_reasoning data) ?s = (ws, i, w)" by (rule prod_cases3)
    have "follows s ws w" using whole_item_leads [OF _ _ w] ok by (simp add: push_simps)
    from follows_trans [OF s this] show ?thesis
      using assms by (auto simp: RedactedThinking started w keeps_to_follows keeps_to_same)
  next
    case (Compaction oi ci d cid encrypted sg)
    obtain ws i w where w: "whole_item cid ''cmp'' (compacted_item encrypted (some_text d) sg) s = (ws, i, w)"
      by (rule prod_cases3)
    have "follows s ws w" using whole_item_leads [OF _ _ w] ok by (simp add: push_simps)
    from follows_trans [OF s this] show ?thesis
      using assms by (auto simp: Compaction started w Let_def push_simps intro: keeps_to_follows keeps_to_same)
  next
    case (Finish ci reason)
    show ?thesis
    proof (cases "re_started e")
      case True
      obtain cs c where c: "close_current e = (cs, c)" by (cases "close_current e")
      from close_current_leads [OF assms True c] have "follows e cs (c\<lparr>re_finish := Some reason\<rparr>)"
        by (simp add: push_simps)
      then show ?thesis using assms by (auto simp: Finish c intro: keeps_to_follows keeps_to_same)
    next
      case False
      then show ?thesis
        using assms
        by (auto simp: Finish close_current_def response_ok_def response_at_def intro!: keeps_to_same)
    qed
  qed (use assms in \<open>auto simp: response_ok_def response_at_def intro!: keeps_to_same split: option.split\<close>)
qed


section \<open>The whole stream\<close>

lemma response_status:
  "get_str (response_to_responses resp echo created) ''status'' =
     Some (fst (status_for (Option.bind (case rp_choices resp of [] \<Rightarrow> None | c # _ \<Rightarrow> Some c) ch_finish_reason)))"
  by (simp add: response_to_responses_def build_response_def get_str_def Let_def case_prod_unfold wire_simps)

lemma status_for_cases: "fst (status_for r) \<in> {''completed'', ''incomplete'', ''failed''}"
  by (cases r rule: status_for.cases) simp_all

lemma final_status:
  "\<exists>t. terminal_status (terminal_event (final_snapshot e)) = Some t \<and> get_str (final_snapshot e) ''status'' = Some t"
proof -
  obtain t where "get_str (final_snapshot e) ''status'' = Some t" "t \<in> {''completed'', ''incomplete'', ''failed''}"
    unfolding final_snapshot_def response_status using status_for_cases by blast
  then show ?thesis by (auto simp: terminal_event_def)
qed

lemma response_finished_leads:
  assumes "response_ok e" "response_finished e = (fs, e')"
  shows "leads (response_at e) e fs Finished e'"
proof -
  obtain ss s where started: "response_started e = (ss, s)" by (cases "response_started e")
  note s = started_follows [OF assms(1) started]
  obtain cs c where closed: "close_current s = (cs, c)" by (cases "close_current s")
  have c: "follows s cs c" "response_at c = Between (re_output_index c)"
    using close_current_leads [OF _ _ closed] followsD [OF s] by (auto simp: follows_def response_at_def)
  let ?k = "terminal_event (final_snapshot c)" and ?ms = "field ''response'' (final_snapshot c)"
  obtain t where t: "terminal_status ?k = Some t" "get_str (final_snapshot c) ''status'' = Some t"
    using final_status by blast
  have "response_step (Between (re_output_index c), re_seq c) (numbered_frame ?k ?ms (re_seq c)) (Finished, re_seq c + 1)"
    by (rule concludes [OF _ t(1)]) (simp_all add: push_simps status_of_def t(2) wire_simps)
  from leads_pushed [OF this] follows_trans [OF s c(1)] have
    "leads (response_at e) e ((ss @ cs) @ fst (push_event ?k ?ms c)) Finished (snd (push_event ?k ?ms c))"
    by (auto simp: follows_def c(2) simp del: append_assoc intro: leads_trans)
  moreover have "fs = (ss @ cs) @ fst (push_event ?k ?ms c)" "e' = snd (push_event ?k ?ms c)"
    using assms(2) by (auto simp: response_finished_def and_then_def started closed case_prod_unfold)
  ultimately show ?thesis by simp
qed

lemma responses_run:
  "response_ok e \<Longrightarrow>
     \<exists>n. response_run (response_at e, re_seq e) (responses_frames e items) (if stream_fails items then Broken else Finished, n)"
proof (induction e items rule: responses_frames.induct)
  case (1 e)
  obtain fs e' where finished: "response_finished e = (fs, e')" by (cases "response_finished e")
  from response_finished_leads [OF 1 this] show ?case by (auto simp: finished stream_fails_def leads_def)
next
  case (2 e err items)
  let ?f = "response_error_frame (model_error_text err) e"
  have "response_step (response_at e, re_seq e) ?f (Broken, re_seq e + 1)"
    by (rule breaks)
      (simp_all add: response_error_frame_def event_simps seq_of_def get_u64_def wire_simps response_at_def open_phase_def
        split: option.split)
  then show ?case by (auto simp: stream_fails_def intro: response_run_step)
next
  case (3 e chunk items)
  obtain fs e' where step: "encode_response chunk e = (fs, e')" by (cases "encode_response chunk e")
  with encode_response_keeps [OF "3.prems", of chunk]
  have e': "response_run (response_at e, re_seq e) fs (response_at e', re_seq e')" "response_ok e'"
    by (simp_all add: keeps_to_def leads_def)
  have same: "stream_fails (Inr chunk # items) = stream_fails items" by (simp add: stream_fails_def)
  obtain n where "response_run (response_at e', re_seq e') (responses_frames e' items)
      (if stream_fails items then Broken else Finished, n)"
    using "3.IH" [OF refl step [symmetric] e'(2)] by blast
  from response_run_append [OF e'(1) this] show ?case unfolding same by (auto simp: step)
qed

text \<open>
  C12: whatever a provider streams, the events a Responses client is sent are one run of the protocol:
  \<open>response.created\<close> and \<open>response.in_progress\<close> first, items under consecutive indices, each added,
  fed events of its kind under its own id and done before the next, and a terminal event that fits
  the status of its snapshot, or one \<open>error\<close> event when the stream failed. The \<open>n\<close>-th event
  carries the number \<open>n\<close>, and nothing follows the end.
\<close>

theorem responses_protocol:
  "response_run (Unborn, 0) (responses_frames (response_encoder_new rid model created echo) items)
     (if stream_fails items then Broken else Finished,
      of_nat (length (responses_frames (response_encoder_new rid model created echo) items)))"
proof -
  let ?e = "response_encoder_new rid model created echo"
  have "response_ok ?e" "response_at ?e = Unborn" "re_seq ?e = 0"
    by (simp_all add: response_encoder_new_def response_ok_def response_at_def)
  then obtain n where run: "response_run (Unborn, 0) (responses_frames ?e items) (if stream_fails items then Broken else Finished, n)"
    using responses_run by metis
  then have "n = of_nat (length (responses_frames ?e items))" using run_numbered [OF run] by simp
  with run show ?thesis by simp
qed


section \<open>The snapshot and the collected response\<close>

text \<open>What an encoder has read, apart from where it is in its stream of events.\<close>

definition contents :: "response_encoder \<Rightarrow> response_encoder" where
  "contents e = e\<lparr>re_seq := 0, re_started := False, re_output_index := 0, re_open := None\<rparr>"

named_theorems content_simps

lemma contents_updates [content_simps]:
  "contents (e\<lparr>re_seq := n\<rparr>) = contents e" "contents (e\<lparr>re_started := b\<rparr>) = contents e"
  "contents (e\<lparr>re_output_index := i\<rparr>) = contents e" "contents (e\<lparr>re_open := item\<rparr>) = contents e"
  "contents (e\<lparr>re_id := rid\<rparr>) = (contents e)\<lparr>re_id := rid\<rparr>"
  "contents (e\<lparr>re_text := t\<rparr>) = (contents e)\<lparr>re_text := t\<rparr>"
  "contents (e\<lparr>re_think_text := t\<rparr>) = (contents e)\<lparr>re_think_text := t\<rparr>"
  "contents (e\<lparr>re_think_sig := g\<rparr>) = (contents e)\<lparr>re_think_sig := g\<rparr>"
  "contents (e\<lparr>re_redacted := ds\<rparr>) = (contents e)\<lparr>re_redacted := ds\<rparr>"
  "contents (e\<lparr>re_compaction := ps\<rparr>) = (contents e)\<lparr>re_compaction := ps\<rparr>"
  "contents (e\<lparr>re_ordered := ms\<rparr>) = (contents e)\<lparr>re_ordered := ms\<rparr>"
  "contents (e\<lparr>re_tools := tree\<rparr>) = (contents e)\<lparr>re_tools := tree\<rparr>"
  "contents (e\<lparr>re_usage := u\<rparr>) = (contents e)\<lparr>re_usage := u\<rparr>"
  "contents (e\<lparr>re_finish := r\<rparr>) = (contents e)\<lparr>re_finish := r\<rparr>"
  by (simp_all add: contents_def)

lemma contents_events [content_simps]:
  "contents (snd (response_started e)) = contents e" "contents (snd (close_item item e)) = contents e"
  "contents (snd (close_current e)) = contents e" "contents (grow d e) = contents e"
proof -
  show "contents (snd (response_started e)) = contents e"
    by (simp add: response_started_def push_snapshot_def push_simps content_simps)
  have "contents (snd (close_item item e)) = contents e" for item e
    by (subst close_item_same) (simp add: content_simps)
  then show "contents (snd (close_item item e)) = contents e" "contents (snd (close_current e)) = contents e"
    by (simp_all add: close_current_def content_simps split: option.split)
  show "contents (grow d e) = contents e" by (simp add: grow_def content_simps)
qed

lemma contents_begin [content_simps]:
  "contents (snd (snd (snd (begin_item given kind item e)))) = contents e"
  "contents (snd (snd (whole_item given kind item e))) = contents e"
  by (simp_all add: begin_item_def whole_item_def case_prod_unfold Let_def push_simps content_simps)

lemma contents_open [content_simps]:
  "contents (snd (snd (snd (open_reasoning e)))) = contents e"
  "contents (snd (snd (snd (open_message e)))) = contents e"
  "contents (snd (snd (snd (open_call call e)))) = contents e"
  by (auto simp: open_reasoning_def open_message_def open_call_def case_prod_unfold Let_def push_simps content_simps
      split: option.split open_item.split)

lemma started_fields [content_simps]:
  "re_text (snd (response_started e)) = re_text e" "re_think_text (snd (response_started e)) = re_think_text e"
  "re_redacted (snd (response_started e)) = re_redacted e" "re_tools (snd (response_started e)) = re_tools e"
  by (simp_all add: response_started_def push_snapshot_def push_simps)

lemma whole_item_compactions [content_simps]:
  "re_compaction (snd (snd (whole_item given kind item (snd (response_started e))))) = re_compaction e"
proof -
  have "re_compaction (contents (snd (snd (whole_item given kind item (snd (response_started e)))))) = re_compaction (contents e)"
    by (simp add: content_simps)
  then show ?thesis by (simp add: contents_def)
qed

text \<open>
  A chunk both sides keep alike: of choice 0; a compaction with its place, and with a summary or an
  encrypted one.
\<close>

fun kept_alike :: "stream_chunk \<Rightarrow> bool" where
  "kept_alike (Start rid model) = False"
| "kept_alike (Compaction oi ci d cid encrypted s) =
     (ci = 0 \<and> oi \<noteq> None \<and> (if encrypted = None then cid \<noteq> None \<or> d \<noteq> [] else d = []))"
| "kept_alike chunk = (chunk_index chunk = None \<or> chunk_index chunk = Some 0)"

text \<open>The contents of an encoder after the chunks it has read.\<close>

definition having_read :: "stream_chunk list \<Rightarrow> response_encoder \<Rightarrow> response_encoder" where
  "having_read cs e = (contents e)
     \<lparr>re_text := concat (contributions text_item 0 cs),
      re_think_text := fst (fold think (contributions thinking_item 0 cs) ([], None)),
      re_think_sig := snd (fold think (contributions thinking_item 0 cs) ([], None)),
      re_redacted := contributions redacted_item 0 cs, re_compaction := contributions compaction_item 0 cs,
      re_ordered := contributions output_item 0 cs, re_tools := call_tree (contributions call_item 0 cs),
      re_usage := last_or usage_default (List.map_filter chunk_usage cs),
      re_finish := last_or None (map Some (contributions finish_item 0 cs))\<rparr>"

lemma kept_compaction:
  "kept_alike (Compaction oi ci d cid encrypted s) \<Longrightarrow>
     CompactionPart (Some (unwrap_or i oi)) cid (some_text d) encrypted s = compaction_part oi d cid encrypted s"
  by (auto simp: compaction_part_def some_text_def split: if_splits)

lemma reads_one:
  assumes read: "contents e = having_read cs e0" and alike: "kept_alike c"
  shows "contents (snd (encode_response c e)) = having_read (cs @ [c]) e0"
proof -
  have fields: "re_text e = re_text (having_read cs e0)" "re_think_text e = re_think_text (having_read cs e0)"
    "re_redacted e = re_redacted (having_read cs e0)" "re_tools e = re_tools (having_read cs e0)"
    "re_compaction e = re_compaction (having_read cs e0)" "re_ordered e = re_ordered (having_read cs e0)"
    by (simp_all flip: read add: contents_def)
  show ?thesis
  proof (cases c)
    case (Compaction oi ci d cid encrypted s)
    with alike have "ci = 0" by simp
    then show ?thesis
      using kept_compaction [OF alike [unfolded Compaction]]
      by (simp add: Compaction case_prod_unfold Let_def content_simps read fields(5)) (simp add: having_read_def)
  next
    case (Thinking ci d)
    with alike show ?thesis
      by (simp add: case_prod_unfold Let_def content_simps push_simps read fields) (simp add: having_read_def case_prod_unfold think_fun)
  next
    case (ThinkingSignature ci s)
    with alike show ?thesis
      by (simp add: case_prod_unfold Let_def content_simps push_simps read fields) (simp add: having_read_def case_prod_unfold think_fun)
  next
    case (ToolCall ci call)
    with alike show ?thesis
      by (simp add: case_prod_unfold Let_def content_simps push_simps read fields split: option.split)
        (simp add: having_read_def)
  qed (use alike in \<open>simp_all add: case_prod_unfold Let_def content_simps push_simps read fields\<close>,
      simp_all add: having_read_def)
qed

lemma reads_all:
  "\<forall>c \<in> set cs. kept_alike c \<Longrightarrow> contents e = having_read done e0 \<Longrightarrow>
     contents (fold (\<lambda>c e. snd (encode_response c e)) cs e) = having_read (done @ cs) e0"
proof (induction cs arbitrary: e "done")
  case (Cons c cs)
  from Cons.IH [of "snd (encode_response c e)" "done @ [c]"] Cons.prems reads_one [of e "done" e0 c]
  show ?case by simp
qed simp

lemma final_snapshot_contents: "final_snapshot (contents e) = final_snapshot e"
  by (simp add: final_snapshot_def accumulated_choice_def contents_def)

text \<open>A stream that ends well ends with the snapshot of its last encoder.\<close>

lemma last_frame:
  "\<exists>pre n. responses_frames e (map Inr cs) =
     (let snapshot = final_snapshot (fold (\<lambda>c e. snd (encode_response c e)) cs e)
      in pre @ [numbered_frame (terminal_event snapshot) (field ''response'' snapshot) n])"
proof (induction cs arbitrary: e)
  case Nil
  let ?s = "snd (response_started e)"
  let ?c = "snd (close_current ?s)"
  have "final_snapshot ?c = final_snapshot e"
    by (subst (1 2) final_snapshot_contents [symmetric]) (simp add: content_simps)
  then have "responses_frames e (map Inr []) = (fst (response_started e) @ fst (close_current ?s)) @
      [numbered_frame (terminal_event (final_snapshot e)) (field ''response'' (final_snapshot e)) (re_seq ?c)]"
    by (simp add: response_finished_def and_then_def case_prod_unfold push_simps)
  then show ?case unfolding Let_def fold.simps id_apply by blast
next
  case (Cons c cs)
  obtain pre n where "responses_frames (snd (encode_response c e)) (map Inr cs) =
     (let snapshot = final_snapshot (fold (\<lambda>c e. snd (encode_response c e)) (c # cs) e)
      in pre @ [numbered_frame (terminal_event snapshot) (field ''response'' snapshot) n])"
    using Cons.IH [of "snd (encode_response c e)"] by auto
  then have "responses_frames e (map Inr (c # cs)) =
     (let snapshot = final_snapshot (fold (\<lambda>c e. snd (encode_response c e)) (c # cs) e)
      in (fst (encode_response c e) @ pre) @ [numbered_frame (terminal_event snapshot) (field ''response'' snapshot) n])"
    by (simp add: case_prod_unfold Let_def)
  then show ?case by blast
qed


lemma alike_index: "kept_alike c \<Longrightarrow> chunk_index c = None \<or> chunk_index c = Some 0"
  by (cases c) auto

lemma read_choice:
  "accumulated_choice (having_read cs e) = ref_choice cs 0"
  by (simp add: accumulated_choice_def having_read_def ref_choice_def ref_thinking_def fold_think call_tree_calls Let_def)

lemma nothing_read: "chunk_index ` set cs \<subseteq> {None} \<Longrightarrow> contributions item 0 cs = []"
  if "\<And>c i x. item c = Some (i, x) \<Longrightarrow> chunk_index c = Some i"
proof (induction cs)
  case (Cons c cs)
  then have "item c = None" using that [of c] by (cases "item c") auto
  with Cons show ?case by simp
qed simp

lemma empty_choice:
  assumes "chunk_index ` set cs \<subseteq> {None}"
  shows "ch_output (ref_choice cs 0) = []" "output_items rid (ref_choice cs 0) = []" "ch_finish_reason (ref_choice cs 0) = None"
  by (simp_all add: ref_choice_def nothing_read [OF item_index(1) assms] nothing_read [OF item_index(2) assms]
      nothing_read [OF item_index(3) assms] nothing_read [OF item_index(4) assms] nothing_read [OF item_index(5) assms]
      nothing_read [OF item_index(6) assms] nothing_read [OF item_index(7) assms] output_items_def ref_thinking_def
      flush_reasoning_def ref_calls_def renumbered_def)

lemma alike_starts: "\<forall>c \<in> set cs. kept_alike c \<Longrightarrow> List.map_filter chunk_start cs = []"
  by (induction cs) (auto simp: List.map_filter_def elim: kept_alike.elims)

text \<open>
  C13: the streamed and the collected view agree on the streams both keep alike: one that opens with a start whose
  id is not blank, has no other start, gives choice 0 only, and whose compactions, if any, come with their place in
  the output and with either an encrypted body and no summary, or no encrypted body and an id or a summary. For such a
  stream the terminal event carries, whole, the \<open>response\<close> object \<open>response_to_responses\<close> makes of the collected
  chunks, under the model the client asked for; the event's kind is the one of that object's status. (On
  other compactions the views differ, as two lemmas below show: one without a place goes where it was streamed in the
  one and in front of the message in the other; a summary beside an encrypted body is kept in the one and lost in
  the other.)
\<close>

theorem streamed_snapshot:
  assumes "str_trim rid \<noteq> []" "\<forall>c \<in> set cs. kept_alike c"
  shows "\<exists>pre n. responses_frames (response_encoder_new fallback model created echo) (map Inr (Start rid upstream # cs)) =
    (let snapshot = response_to_responses ((collect_chunks (Start rid upstream # cs))\<lparr>rp_model := model\<rparr>) echo created
     in pre @ [numbered_frame (terminal_event snapshot) (field ''response'' snapshot) n])"
proof -
  let ?new = "response_encoder_new fallback model created echo" and ?all = "Start rid upstream # cs"
  let ?e = "fold (\<lambda>c e. snd (encode_response c e)) ?all ?new"
  let ?r = "having_read cs (?new\<lparr>re_id := rid\<rparr>)"
  have "contents (snd (encode_response (Start rid upstream) ?new)) = having_read [] (?new\<lparr>re_id := rid\<rparr>)"
    using assms(1) by (simp add: content_simps) (simp add: having_read_def response_encoder_new_def contents_def)
  from reads_all [OF assms(2) this] have read: "contents ?e = ?r" by simp
  have same: "ref_choice ?all = ref_choice cs" by (simp add: ref_choice_def fun_eq_iff)
  have starts: "List.map_filter chunk_start ?all = [(rid, upstream)]"
    using alike_starts [OF assms(2)] by (simp add: List.map_filter_simps)
  have others: "List.map_filter chunk_usage ?all = List.map_filter chunk_usage cs"
    "List.map_filter chunk_index ?all = List.map_filter chunk_index cs" by (simp_all add: List.map_filter_simps)
  have "final_snapshot ?e = final_snapshot ?r" using final_snapshot_contents [of ?e] by (simp only: read)
  also have "\<dots> = response_to_responses \<lparr>rp_id = rid, rp_model = model, rp_choices = [ref_choice cs 0],
      rp_usage = last_or usage_default (List.map_filter chunk_usage cs)\<rparr> echo created"
    unfolding final_snapshot_def read_choice by (simp add: having_read_def contents_def response_encoder_new_def)
  also have "\<dots> = response_to_responses ((collect_chunks ?all)\<lparr>rp_model := model\<rparr>) echo created"
  proof (cases "0 \<in> set (List.map_filter chunk_index cs)")
    case True
    moreover have "set (List.map_filter chunk_index cs) \<subseteq> {0}"
      using assms(2) alike_index by (fastforce simp: List.map_filter_def)
    ultimately have "set (List.map_filter chunk_index cs) = {0}" by auto
    then show ?thesis
      unfolding collect_chunks_ref ref_response_def same starts others by (simp add: last_or_def)
  next
    case False
    then have none: "chunk_index ` set cs \<subseteq> {None}"
      using assms(2) alike_index by (fastforce simp: List.map_filter_def image_iff)
    then have "List.map_filter chunk_index cs = []" by (auto simp: List.map_filter_def filter_empty_conv)
    then show ?thesis
      unfolding collect_chunks_ref ref_response_def same starts others
      by (simp add: response_to_responses_def empty_choice [OF none]) (simp add: last_or_def)
  qed
  finally show ?thesis using last_frame [of ?new ?all] by (simp add: Let_def)
qed

definition ex_echo :: request_echo where
  "ex_echo = \<lparr>ro_temperature = None, ro_top_p = None, ro_max_output_tokens = None, ro_tools = [], ro_tool_choice = None,
     ro_reasoning_effort = None, ro_metadata = None, ro_parallel_tool_calls = None, ro_text = None, ro_truncation = None,
     ro_context_management = None, ro_previous_response_id = None, ro_store = False\<rparr>"

text \<open>The snapshot of a stream and that of its collected chunks, where they differ.\<close>

definition output_of :: "json \<Rightarrow> json list" where
  "output_of v = unwrap_or [] (Option.bind (json_get v ''output'') as_array)"

definition snapshot_streamed :: "stream_chunk list \<Rightarrow> json" where
  "snapshot_streamed cs =
     final_snapshot (fold (\<lambda>c e. snd (encode_response c e)) cs (response_encoder_new ''r'' ''m'' 7 ex_echo))"

definition snapshot_collected :: "stream_chunk list \<Rightarrow> json" where
  "snapshot_collected cs = response_to_responses ((collect_chunks cs)\<lparr>rp_model := ''m''\<rparr>) ex_echo 7"

lemma placeless_compaction_moves:
  "map item_type (output_of (snapshot_streamed [Start ''u'' ''up'', Content 0 ''hi'', Compaction None 0 ''s'' None None None])) =
     [Some ''message'', Some ''compaction'']"
  "map item_type (output_of (snapshot_collected [Start ''u'' ''up'', Content 0 ''hi'', Compaction None 0 ''s'' None None None])) =
     [Some ''compaction'', Some ''message'']"
  by code_simp+

lemma encrypted_compaction_loses_summary:
  "map (\<lambda>item. get_str item ''content'') (output_of (snapshot_streamed
     [Start ''u'' ''up'', Compaction (Some 0) 0 ''s'' None (Some ''x'') None])) = [Some ''s'']"
  "map (\<lambda>item. get_str item ''content'') (output_of (snapshot_collected
     [Start ''u'' ''up'', Compaction (Some 0) 0 ''s'' None (Some ''x'') None])) = [None]"
  by code_simp+

theorem streamed_snapshot_witness:
  "\<exists>pre n. responses_frames (response_encoder_new ''r'' ''m'' 7 ex_echo)
      (map Inr [Start ''u'' ''up'', Thinking 0 ''hm'', Content 0 ''hi'', UsageReport usage_default, Finish 0 Length]) =
    (let snapshot = response_to_responses ((collect_chunks
         [Start ''u'' ''up'', Thinking 0 ''hm'', Content 0 ''hi'', UsageReport usage_default, Finish 0 Length])\<lparr>rp_model := ''m''\<rparr>)
         ex_echo 7
     in pre @ [numbered_frame (terminal_event snapshot) (field ''response'' snapshot) n])"
proof -
  have "str_trim ''u'' \<noteq> []" by code_simp
  from streamed_snapshot [OF this, of "[Thinking 0 ''hm'', Content 0 ''hi'', UsageReport usage_default, Finish 0 Length]"
      "''r''" "''m''" 7 ex_echo "''up''"] show ?thesis by simp
qed

end
