(* ===== verification/ResponsesWire.thy ===== *)
theory ResponsesWire
  imports Sse OpenAIWire Collect
begin

text \<open>
  The provider side of the Responses dialect, \<open>crates/llmleaf-providers/src/openai_responses_wire.rs\<close>: a
  canonical request to a request body in one of four flavors, the tests that choose between this
  endpoint and chat completions, a whole response object and an event stream to canonical chunks.
  Parameters: \<open>print\<close> and \<open>parse\<close> are serde_json's printer and parser.
\<close>

section \<open>Flavors\<close>

datatype responses_flavor = FlavorOpenAi | FlavorOpenRouter | FlavorGroq | FlavorLlmleaf

fun replays_open_reasoning :: "responses_flavor \<Rightarrow> bool" where
  "replays_open_reasoning FlavorOpenAi = False"
| "replays_open_reasoning _ = True"

fun models_signature :: "responses_flavor \<Rightarrow> bool" where
  "models_signature FlavorOpenRouter = True"
| "models_signature FlavorLlmleaf = True"
| "models_signature _ = False"

fun models_encrypted_reasoning :: "responses_flavor \<Rightarrow> bool" where
  "models_encrypted_reasoning FlavorGroq = False"
| "models_encrypted_reasoning _ = True"

fun sends_stateless_defaults :: "responses_flavor \<Rightarrow> bool" where
  "sends_stateless_defaults FlavorLlmleaf = False"
| "sends_stateless_defaults _ = True"

section \<open>Requests\<close>

fun input_part :: "content_part \<Rightarrow> json option" where
  "input_part (Text t) = Some (JObject
     (field ''type'' (JString ''input_text'') @ field ''text'' (JString t)))"
| "input_part (ImageUrl url detail) = Some (JObject
     (field ''type'' (JString ''input_image'') @ field ''image_url'' (JString url) @
      opt_field ''detail'' JString detail))"
| "input_part _ = None"

definition input_content :: "message \<Rightarrow> json" where
  "input_content msg =
     (case me_content msg of
        [Text t] \<Rightarrow> JString t
      | parts \<Rightarrow> JArray (List.map_filter input_part parts))"

fun replayed_part :: "responses_flavor \<Rightarrow> content_part \<Rightarrow> json option" where
  "replayed_part flavor (CompactionPart oi cid content encrypted signature) = Some (JObject
     (field ''type'' (JString ''compaction'') @ opt_field ''id'' JString cid @
      opt_field ''encrypted_content'' JString encrypted))"
| "replayed_part flavor (RedactedThinkingPart data) =
     (if models_encrypted_reasoning flavor then Some (JObject
        (field ''type'' (JString ''reasoning'') @ field ''summary'' (JArray []) @
         field ''encrypted_content'' (JString data)))
      else None)"
| "replayed_part flavor (ThinkingPart t signature) =
     (if replays_open_reasoning flavor then Some (JObject
        (field ''type'' (JString ''reasoning'') @ field ''summary'' (JArray []) @
         field ''content'' (JArray [JObject
           (field ''type'' (JString ''reasoning_text'') @ field ''text'' (JString t))]) @
         (if models_signature flavor then opt_field ''signature'' JString signature else [])))
      else None)"
| "replayed_part flavor _ = None"

definition call_item_input :: "tool_call \<Rightarrow> json" where
  "call_item_input c = JObject
     (field ''type'' (JString ''function_call'') @ field ''call_id'' (JString (tc_id c)) @
      field ''name'' (JString (tc_name c)) @ field ''arguments'' (JString (tc_arguments c)))"

definition assistant_items :: "responses_flavor \<Rightarrow> message \<Rightarrow> json list" where
  "assistant_items flavor msg =
     List.map_filter (replayed_part flavor) (me_content msg) @
     (if text_content msg = [] then [] else
        [JObject (field ''type'' (JString ''message'') @ field ''role'' (JString ''assistant'') @
           field ''content'' (JArray [JObject
             (field ''type'' (JString ''output_text'') @ field ''text'' (JString (text_content msg)))]))]) @
     map call_item_input (me_tool_calls msg)"

definition input_items :: "responses_flavor \<Rightarrow> message \<Rightarrow> json list" where
  "input_items flavor msg =
     (case me_role msg of
        System \<Rightarrow> [JObject (field ''role'' (JString ''system'') @ field ''content'' (input_content msg))]
      | User \<Rightarrow> [JObject (field ''role'' (JString ''user'') @ field ''content'' (input_content msg))]
      | Assistant \<Rightarrow> assistant_items flavor msg
      | Tool \<Rightarrow> [JObject (field ''type'' (JString ''function_call_output'') @
          field ''call_id'' (JString (unwrap_or [] (me_tool_call_id msg))) @
          field ''output'' (JString (text_content msg)))])"

definition flat_tool_json :: "tool_def \<Rightarrow> json" where
  "flat_tool_json t = JObject
     (field ''type'' (JString ''function'') @ field ''name'' (JString (td_name t)) @
      opt_field ''description'' JString (td_description t) @ field ''parameters'' (td_parameters t) @
      field ''strict'' (JBool False))"

fun flat_choice_json :: "tool_choice \<Rightarrow> json" where
  "flat_choice_json ChooseAuto = JString ''auto''"
| "flat_choice_json ChooseNone = JString ''none''"
| "flat_choice_json ChooseRequired = JString ''required''"
| "flat_choice_json (Named n) = JObject
     (field ''type'' (JString ''function'') @ field ''name'' (JString n))"

text \<open>The statelessness defaults yield to whatever the consumer sent.\<close>

definition stateless_defaults :: "responses_flavor \<Rightarrow> json_map \<Rightarrow> json_map" where
  "stateless_defaults flavor obj =
     (if sends_stateless_defaults flavor then
        let obj = if_insert ''store'' (JBool False) (\<not> hm_contains obj ''store'') obj
        in if_insert ''include'' (JArray [JString ''reasoning.encrypted_content''])
             (models_encrypted_reasoning flavor \<and> \<not> hm_contains obj ''include'') obj
      else obj)"

definition request_to_openai_responses :: "chat_request \<Rightarrow> bool \<Rightarrow> responses_flavor \<Rightarrow> json" where
  "request_to_openai_responses req stream flavor =
     (let obj = hm_insert ''model'' (JString (cq_model req)) hm_empty;
          obj = opt_insert ''max_output_tokens'' json_u32 (cq_max_tokens req) obj;
          obj = opt_insert ''temperature'' json_f64 (cq_temperature req) obj;
          obj = opt_insert ''top_p'' json_f64 (cq_top_p req) obj;
          obj = hm_insert ''input'' (JArray (concat (map (input_items flavor) (cq_messages req)))) obj;
          obj = if_insert ''tools'' (JArray (map flat_tool_json (cq_tools req))) (cq_tools req \<noteq> []) obj;
          obj = opt_insert ''tool_choice'' flat_choice_json (cq_tool_choice req) obj;
          obj = opt_insert ''reasoning'' (\<lambda>t. JObject [(''effort'', JString (thinking_effort t))]) (cq_thinking req) obj;
          obj = hm_insert ''stream'' (JBool stream) obj
      in JObject (stateless_defaults flavor (or_insert_all (cq_extra req) obj)))"

section \<open>Which endpoint\<close>

definition chat_only_extra_keys :: "string list" where
  "chat_only_extra_keys =
     [''response_format'', ''logit_bias'', ''frequency_penalty'', ''presence_penalty'', ''seed'', ''logprobs'', ''n'',
      ''modalities'', ''audio'', ''prediction'', ''functions'', ''function_call'', ''web_search_options'',
      ''stream_options'', ''stop'', ''max_completion_tokens'', ''verbosity'', ''reasoning_effort'',
      ''reasoning_format'', ''search_settings'']"

definition needs_chat_completions :: "chat_request \<Rightarrow> bool" where
  "needs_chat_completions req \<longleftrightarrow>
     cq_stop req \<noteq> [] \<or> has_input_audio req \<or>
     list_ex (\<lambda>(k, v). k \<in> set chat_only_extra_keys) (cq_extra req)"

fun stateful_part :: "content_part \<Rightarrow> bool" where
  "stateful_part (RedactedThinkingPart data) = True"
| "stateful_part (CompactionPart oi cid content encrypted signature) = True"
| "stateful_part _ = False"

definition requires_responses :: "chat_request \<Rightarrow> bool" where
  "requires_responses req \<longleftrightarrow>
     is_some_and (\<lambda>v. v \<noteq> JNull) (hm_get (cq_extra req) ''previous_response_id'') \<or>
     hm_contains (cq_extra req) ''context_management'' \<or>
     Option.bind (hm_get (cq_extra req) ''store'') as_bool = Some True \<or>
     list_ex (\<lambda>m. list_ex stateful_part (me_content m)) (cq_messages req)"

section \<open>Whole responses\<close>

definition responses_usage :: "json \<Rightarrow> usage" where
  "responses_usage u =
     \<lparr>ug_prompt = unwrap_or 0 (get_u64 u ''input_tokens''),
      ug_completion = unwrap_or 0 (get_u64 u ''output_tokens''),
      ug_total = unwrap_or 0 (get_u64 u ''total_tokens''),
      ug_cost_usd = Option.bind (json_get u ''cost'') as_f64,
      ug_cache_read = unwrap_or 0 (Option.bind (json_get u ''input_tokens_details'') (\<lambda>d. get_u64 d ''cached_tokens'')),
      ug_cache_creation = 0\<rparr>"

definition is_compaction_item :: "json \<Rightarrow> bool" where
  "is_compaction_item item \<longleftrightarrow> get_str item ''type'' = Some ''compaction''"

definition responses_finish_reason :: "json \<Rightarrow> bool \<Rightarrow> finish_reason" where
  "responses_finish_reason response saw_function_call =
     (let output = unwrap_or [] (get_array response ''output'');
          status = get_str response ''status''
      in if status = Some ''completed'' then
           (if saw_function_call then ToolCalls
            else if list_ex is_compaction_item output \<and> list_all is_compaction_item output then FinishCompaction
            else Stop)
         else if status = Some ''incomplete'' then
           (let reason = Option.bind (json_get response ''incomplete_details'') (\<lambda>d. get_str d ''reason'')
            in if reason = Some ''max_output_tokens'' then Length
               else if reason = Some ''content_filter'' then ContentFilter
               else Stop)
         else if status = Some ''failed'' then FinishError
         else Stop)"

text \<open>The texts of a reasoning item: its summary, then its content.\<close>

definition item_texts :: "json \<Rightarrow> string list" where
  "item_texts item =
     concat (map (\<lambda>k. List.map_filter (\<lambda>part. get_str part ''text'') (unwrap_or [] (get_array item k)))
       [''summary'', ''content''])"

definition output_texts :: "json \<Rightarrow> string list" where
  "output_texts item =
     List.map_filter (\<lambda>part. if get_str part ''type'' = Some ''output_text'' then get_str part ''text'' else None)
       (unwrap_or [] (get_array item ''content''))"

definition reasoning_parts :: "json \<Rightarrow> content_part list" where
  "reasoning_parts item =
     (let texts = item_texts item;
          parts = map (\<lambda>t. ThinkingPart t None) texts
      in (case get_str item ''signature'' of
            Some s \<Rightarrow> if parts = [] then parts else butlast parts @ [ThinkingPart (last texts) (Some s)]
          | None \<Rightarrow> parts) @
         (case get_str item ''encrypted_content'' of Some d \<Rightarrow> [RedactedThinkingPart d] | None \<Rightarrow> []))"

definition from_assistant :: "content_part list \<Rightarrow> tool_call list \<Rightarrow> message" where
  "from_assistant content calls =
     \<lparr>me_role = Assistant, me_content = content, me_tool_calls = calls, me_tool_call_id = None, me_name = None\<rparr>"

definition output_item_as_message :: "json \<Rightarrow> message option" where
  "output_item_as_message item =
     (case get_str item ''type'' of
        None \<Rightarrow> None
      | Some ty \<Rightarrow>
          if ty = ''compaction'' then Some (from_assistant
            [CompactionPart None (get_str item ''id'') (get_str item ''content'')
               (get_str item ''encrypted_content'') (get_str item ''signature'')] [])
          else if ty = ''message'' then Some (from_assistant (map Text (output_texts item)) [])
          else if ty = ''reasoning'' then Some (from_assistant (reasoning_parts item) [])
          else if ty = ''function_call'' then Some (from_assistant []
            [\<lparr>tc_id = unwrap_or [] (get_str item ''call_id''), tc_name = unwrap_or [] (get_str item ''name''),
              tc_arguments = unwrap_or [] (get_str item ''arguments'')\<rparr>])
          else None)"

definition compaction_chunk :: "json \<Rightarrow> u32 option \<Rightarrow> stream_chunk" where
  "compaction_chunk item place =
     Compaction place 0 (unwrap_or [] (get_str item ''content'')) (get_str item ''id'')
       (get_str item ''encrypted_content'') (get_str item ''signature'')"

text \<open>What a reasoning item closes with: its signature and its encrypted form.\<close>

definition sealed_chunks :: "json \<Rightarrow> stream_chunk list" where
  "sealed_chunks item =
     text_chunk (ThinkingSignature 0) (get_str item ''signature'') @
     text_chunk (RedactedThinking 0) (get_str item ''encrypted_content'')"

definition output_item_chunks :: "nat \<Rightarrow> json \<Rightarrow> u32 \<Rightarrow> stream_chunk list \<times> u32" where
  "output_item_chunks place item call_index =
     (let ty = get_str item ''type''
      in if ty = Some ''compaction'' then ([compaction_chunk item (Some (of_nat place))], call_index)
         else if ty = Some ''reasoning'' then
           (concat (map (\<lambda>t. text_chunk (Thinking 0) (Some t)) (item_texts item)) @ sealed_chunks item, call_index)
         else if ty = Some ''message'' then
           (concat (map (\<lambda>t. text_chunk (Content 0) (Some t)) (output_texts item)), call_index)
         else if ty = Some ''function_call'' then
           ([ToolCall 0 \<lparr>tl_index = call_index, tl_id = get_str item ''call_id'', tl_name = get_str item ''name'',
              tl_arguments = get_str item ''arguments''\<rparr>], call_index + 1)
         else ([], call_index))"

definition ordered_chunk :: "bool \<Rightarrow> json \<Rightarrow> stream_chunk list" where
  "ordered_chunk preserve_order item =
     (if preserve_order
      then (case output_item_as_message item of Some m \<Rightarrow> [OutputItem 0 m] | None \<Rightarrow> [])
      else [])"

fun output_chunks :: "bool \<Rightarrow> nat \<Rightarrow> u32 \<Rightarrow> json list \<Rightarrow> stream_chunk list" where
  "output_chunks preserve_order place call_index [] = []"
| "output_chunks preserve_order place call_index (item # items) =
     (let (chunks, call_index) = output_item_chunks place item call_index
      in chunks @ ordered_chunk preserve_order item @ output_chunks preserve_order (Suc place) call_index items)"

definition openai_responses_to_chunks :: "json \<Rightarrow> string \<Rightarrow> stream_chunk list" where
  "openai_responses_to_chunks v fallback_model =
     (let output = unwrap_or [] (get_array v ''output'');
          saw = list_ex (\<lambda>item. get_str item ''type'' = Some ''function_call'') output
      in [Start (unwrap_or [] (get_str v ''id'')) (unwrap_or fallback_model (get_str v ''model''))] @
         output_chunks (list_ex is_compaction_item output) 0 0 output @
         (case json_get v ''usage'' of Some u \<Rightarrow> [UsageReport (responses_usage u)] | None \<Rightarrow> []) @
         [Finish 0 (responses_finish_reason v saw)])"

section \<open>Events\<close>

record responses_state =
  rs_fallback_model :: string
  rs_seen_start :: bool
  rs_call_indices :: "(string, u32) hashmap"
  rs_next_call_index :: u32
  rs_saw_function_call :: bool
  rs_finished :: bool
  rs_preserve_order :: bool

definition responses_state_new :: "string \<Rightarrow> bool \<Rightarrow> responses_state" where
  "responses_state_new fallback_model preserve_order =
     \<lparr>rs_fallback_model = fallback_model, rs_seen_start = False, rs_call_indices = hm_empty,
      rs_next_call_index = 0, rs_saw_function_call = False, rs_finished = False,
      rs_preserve_order = preserve_order\<rparr>"

definition on_created :: "json \<Rightarrow> responses_state \<Rightarrow> stream_chunk list \<times> responses_state" where
  "on_created v st =
     (let response = json_get v ''response''
      in ([Start (unwrap_or [] (Option.bind response (\<lambda>r. get_str r ''id'')))
             (unwrap_or (rs_fallback_model st) (Option.bind response (\<lambda>r. get_str r ''model'')))],
          st\<lparr>rs_seen_start := True\<rparr>))"

definition on_item_added :: "json \<Rightarrow> responses_state \<Rightarrow> stream_chunk list \<times> responses_state" where
  "on_item_added v st =
     (let of_item = (\<lambda>k. Option.bind (json_get v ''item'') (\<lambda>i. get_str i k))
      in if of_item ''type'' = Some ''function_call'' then
           let idx = rs_next_call_index st
           in ([ToolCall 0 \<lparr>tl_index = idx, tl_id = of_item ''call_id'', tl_name = of_item ''name'', tl_arguments = None\<rparr>],
               st\<lparr>rs_saw_function_call := True, rs_next_call_index := idx + 1,
                  rs_call_indices := (case of_item ''id'' of
                     Some item_id \<Rightarrow> hm_insert item_id idx (rs_call_indices st)
                   | None \<Rightarrow> rs_call_indices st)\<rparr>)
         else ([], st))"

definition on_arguments_delta :: "json \<Rightarrow> responses_state \<Rightarrow> stream_chunk list" where
  "on_arguments_delta v st =
     (case get_str v ''delta'' of
        None \<Rightarrow> []
      | Some d \<Rightarrow>
          [ToolCall 0 \<lparr>tl_index = unwrap_or 0 (Option.bind (get_str v ''item_id'') (hm_get (rs_call_indices st))),
             tl_id = None, tl_name = None, tl_arguments = Some d\<rparr>])"

definition on_delta :: "(string \<Rightarrow> stream_chunk) \<Rightarrow> json \<Rightarrow> stream_chunk list" where
  "on_delta mk v = (case get_str v ''delta'' of Some d \<Rightarrow> [mk d] | None \<Rightarrow> [])"

definition on_item_done :: "json \<Rightarrow> responses_state \<Rightarrow> stream_chunk list" where
  "on_item_done v st =
     (let item = json_get v ''item''; ty = Option.bind item (\<lambda>i. get_str i ''type'');
          place = map_option ucast (get_u64 v ''output_index'')
      in (case item of
            None \<Rightarrow> []
          | Some i \<Rightarrow>
              if ty = Some ''reasoning'' then sealed_chunks i
              else if ty = Some ''compaction'' then [compaction_chunk i place]
              else []) @
         (case item of None \<Rightarrow> [] | Some i \<Rightarrow> ordered_chunk (rs_preserve_order st) i))"

definition on_terminal :: "json \<Rightarrow> responses_state \<Rightarrow> stream_chunk list \<times> responses_state" where
  "on_terminal v st =
     (case json_get v ''response'' of
        None \<Rightarrow> []
      | Some response \<Rightarrow>
          (case json_get response ''usage'' of Some u \<Rightarrow> [UsageReport (responses_usage u)] | None \<Rightarrow> []) @
          [Finish 0 (responses_finish_reason response (rs_saw_function_call st))],
      st\<lparr>rs_finished := True\<rparr>)"

definition openai_responses_event_to_canonical ::
  "json \<Rightarrow> responses_state \<Rightarrow> stream_chunk list \<times> responses_state" where
  "openai_responses_event_to_canonical v st =
     (let ty = unwrap_or [] (get_str v ''type'')
      in if ty = ''response.created'' \<and> \<not> rs_seen_start st then on_created v st
         else if ty = ''response.output_item.added'' then on_item_added v st
         else if ty = ''response.function_call_arguments.delta'' then (on_arguments_delta v st, st)
         else if ty = ''response.output_text.delta'' then (on_delta (Content 0) v, st)
         else if ty = ''response.reasoning_text.delta'' \<or> ty = ''response.reasoning_summary_text.delta''
         then (on_delta (Thinking 0) v, st)
         else if ty = ''response.output_item.done'' then (on_item_done v st, st)
         else if ty = ''response.completed'' \<or> ty = ''response.incomplete'' \<or> ty = ''response.failed''
         then on_terminal v st
         else ([], st))"

text \<open>One payload. A sentinel is skipped; an \<open>error\<close> event ends the stream.\<close>

definition responses_step ::
  "(json \<Rightarrow> string) \<Rightarrow> (string \<Rightarrow> string + json) \<Rightarrow> string \<Rightarrow> responses_state \<Rightarrow> responses_state decoded" where
  "responses_step print parse payload st =
     (if payload = ''[DONE]'' then Onward [] st
      else case parse payload of
        Inl e \<Rightarrow> Over [Inl (Mapping e)]
      | Inr v \<Rightarrow>
          if get_str v ''type'' = Some ''error''
          then Over [Inl (Upstream 500 (unwrap_or (print v) (get_str v ''message'')))]
          else case openai_responses_event_to_canonical v st of (chunks, st) \<Rightarrow> Onward chunks st)"

text \<open>The loop also ends once a read has brought the terminal event.\<close>

fun responses_stream ::
  "(json \<Rightarrow> string) \<Rightarrow> (string \<Rightarrow> string + json) \<Rightarrow> string \<Rightarrow> responses_state \<Rightarrow> (model_error + string) list \<Rightarrow>
     (model_error + stream_chunk) list" where
  "responses_stream print parse buf st [] = []"
| "responses_stream print parse buf st (Inl e # items) = [Inl e]"
| "responses_stream print parse buf st (Inr bytes # items) =
     (let (payloads, buf) = sse_payloads buf bytes
      in case sse_batch (responses_step print parse) payloads st of
           (out, None) \<Rightarrow> out
         | (out, Some st) \<Rightarrow> out @ (if rs_finished st then [] else responses_stream print parse buf st items))"

definition openai_responses_sse_to_stream ::
  "(json \<Rightarrow> string) \<Rightarrow> (string \<Rightarrow> string + json) \<Rightarrow> (model_error + string) list \<Rightarrow> string \<Rightarrow> bool \<Rightarrow>
     (model_error + stream_chunk) list" where
  "openai_responses_sse_to_stream print parse body model preserve_order =
     responses_stream print parse [] (responses_state_new model preserve_order) body"

end
