(* ===== verification/Brands.thy ===== *)
theory Brands
  imports ResponsesWire Http
begin

text \<open>
  The quirk table of the OpenAI-compatible family, \<open>Brand\<close> of \<open>crates/llmleaf-providers/src/compat.rs\<close>:
  one row per vendor, the config kinds that select a row, the documented catalogs of the vendors that
  cannot list their models.
\<close>

datatype auth_style = Bearer | ApiKeyHeader string

datatype batch_flavor =
    BatchUnsupported | BatchOpenAi | BatchMistralJobs | BatchTogether | BatchQianfan | BatchAzureOpenAi

datatype url_style = StandardUrl | AzureUrl

datatype chat_api = Completions | ResponsesApi

definition cerebras_public_models_url :: string where
  "cerebras_public_models_url = ''https://api.cerebras.ai/public/v1/models''"

definition deepinfra_public_models_url :: string where
  "deepinfra_public_models_url = ''https://api.deepinfra.com/models/list''"

definition xai_language_models_url :: string where
  "xai_language_models_url = ''https://api.x.ai/v1/language-models''"

definition zai_models :: "string list" where
  "zai_models =
     [''glm-5.2'', ''glm-5.1'', ''glm-5-turbo'', ''glm-5'', ''glm-4.7'', ''glm-4.7-flash'', ''glm-4.7-flashx'', ''glm-4.6'',
      ''glm-4.5'', ''glm-4.5-air'', ''glm-4.5-x'', ''glm-4.5-airx'', ''glm-4.5-flash'', ''glm-4-32b-0414-128k'',
      ''glm-5v-turbo'', ''glm-4.6v'', ''autoglm-phone-multilingual'', ''glm-4.6v-flash'', ''glm-4.6v-flashx'',
      ''glm-4.5v'']"

definition zai_coding_models :: "string list" where
  "zai_coding_models = [''glm-5.3'', ''glm-5-turbo'', ''glm-4.7'', ''glm-5.2'', ''glm-5.1'']"

definition minimax_models :: "string list" where
  "minimax_models =
     [''MiniMax-M2.7'', ''MiniMax-M2.7-highspeed'', ''MiniMax-M2.5'', ''MiniMax-M2.5-highspeed'', ''MiniMax-M2.1'',
      ''MiniMax-M2.1-highspeed'', ''MiniMax-M2'', ''M2-her'']"

definition minimax_token_plan_models :: "string list" where
  "minimax_token_plan_models = [''MiniMax-M2.7'', ''MiniMax-M2.7-highspeed'']"

definition kimi_coding_models :: "string list" where
  "kimi_coding_models = [''k3'', ''k3-256k'', ''kimi-for-coding'', ''kimi-for-coding-highspeed'']"

definition perplexity_sonar_models :: "string list" where
  "perplexity_sonar_models = [''sonar'', ''sonar-pro'', ''sonar-reasoning-pro'', ''sonar-deep-research'']"

record brand =
  bd_name :: string
  bd_default_endpoint :: string
  bd_auth :: auth_style
  bd_url_style :: url_style
  bd_default_api_version :: string
  bd_max_tokens_field :: string
  bd_supports_stream :: bool
  bd_audio_input :: bool
  bd_realtime_native :: bool
  bd_transcription_json_base64 :: bool
  bd_voices_api :: bool
  bd_models_api :: bool
  bd_documented_models :: "string list option"
  bd_allow_pricing_enrichment :: bool
  bd_models_url_override :: "string option"
  bd_models_query :: string
  bd_filter_inactive_models :: bool
  bd_base_resp_envelope :: bool
  bd_rerank_api :: bool
  bd_batch_flavor :: batch_flavor
  bd_chat_api :: chat_api
  bd_responses_flavor :: responses_flavor

text \<open>The two closures of \<open>for_kind\<close> differ in the name of the output cap.\<close>

definition brand_with_cap :: "string \<Rightarrow> string \<Rightarrow> string \<Rightarrow> brand" where
  "brand_with_cap cap name endpoint =
     \<lparr>bd_name = name, bd_default_endpoint = endpoint, bd_auth = Bearer, bd_url_style = StandardUrl,
      bd_default_api_version = [], bd_max_tokens_field = cap, bd_supports_stream = True,
      bd_audio_input = False, bd_realtime_native = False, bd_transcription_json_base64 = False,
      bd_voices_api = False, bd_models_api = False, bd_documented_models = None,
      bd_allow_pricing_enrichment = True, bd_models_url_override = None, bd_models_query = [],
      bd_filter_inactive_models = False, bd_base_resp_envelope = False, bd_rerank_api = False,
      bd_batch_flavor = BatchUnsupported, bd_chat_api = Completions, bd_responses_flavor = FlavorOpenAi\<rparr>"

definition brand_b :: "string \<Rightarrow> string \<Rightarrow> brand" where
  "brand_b = brand_with_cap ''max_tokens''"

definition brand_bc :: "string \<Rightarrow> string \<Rightarrow> brand" where
  "brand_bc = brand_with_cap ''max_completion_tokens''"

definition azure_brand :: brand where
  "azure_brand = (brand_bc ''azure-openai'' [])
     \<lparr>bd_auth := ApiKeyHeader ''api-key'', bd_url_style := AzureUrl, bd_default_api_version := ''2024-10-21'',
      bd_models_api := True, bd_batch_flavor := BatchAzureOpenAi\<rparr>"

text \<open>The arms of \<open>for_kind\<close>: the kinds that select a row, and the row.\<close>

definition brand_rows_1 :: "(string list \<times> brand) list" where
  "brand_rows_1 =
     [([''openai''], (brand_bc ''openai'' ''https://api.openai.com/v1'')
         \<lparr>bd_realtime_native := True, bd_models_api := True, bd_batch_flavor := BatchOpenAi,
          bd_chat_api := ResponsesApi, bd_audio_input := True\<rparr>),
      ([''meta'', ''meta-ai'', ''meta-model-api'', ''muse''], (brand_bc ''meta'' ''https://api.meta.ai/v1'')
         \<lparr>bd_models_api := True, bd_chat_api := ResponsesApi\<rparr>),
      ([''openrouter''], (brand_b ''openrouter'' ''https://openrouter.ai/api/v1'')
         \<lparr>bd_transcription_json_base64 := True, bd_models_api := True, bd_audio_input := True,
          bd_rerank_api := True, bd_models_query := ''output_modalities=all'',
          bd_responses_flavor := FlavorOpenRouter\<rparr>),
      ([''requesty''], (brand_b ''requesty'' ''https://router.requesty.ai/v1'')\<lparr>bd_models_api := True\<rparr>),
      ([''bedrock'', ''amazon-bedrock'', ''aws-bedrock''], (brand_b ''bedrock'' [])\<lparr>bd_models_api := True\<rparr>),
      ([''huggingface'', ''hugging-face'', ''hf''],
         (brand_b ''huggingface'' ''https://router.huggingface.co/v1'')\<lparr>bd_models_api := True\<rparr>),
      ([''deepinfra'', ''deep-infra''], (brand_b ''deepinfra'' ''https://api.deepinfra.com/v1/openai'')
         \<lparr>bd_models_api := True, bd_models_url_override := Some deepinfra_public_models_url\<rparr>),
      ([''cloudflare'', ''workers-ai'', ''cloudflare-workers-ai''], brand_b ''cloudflare'' []),
      ([''oci'', ''oracle'', ''oci-generative-ai''], brand_b ''oci'' []),
      ([''databricks'', ''databricks-model-serving''], brand_b ''databricks'' []),
      ([''nvidia-nim'', ''nim''], (brand_b ''nvidia-nim'' ''http://localhost:8000/v1'')\<lparr>bd_models_api := True\<rparr>)]"

definition brand_rows_2 :: "(string list \<times> brand) list" where
  "brand_rows_2 =
     [([''groq''], (brand_b ''groq'' ''https://api.groq.com/openai/v1'')
         \<lparr>bd_models_api := True, bd_filter_inactive_models := True, bd_batch_flavor := BatchOpenAi,
          bd_responses_flavor := FlavorGroq\<rparr>),
      ([''deepseek''], (brand_b ''deepseek'' ''https://api.deepseek.com'')\<lparr>bd_models_api := True\<rparr>),
      ([''baidu'', ''qianfan'', ''baidu-qianfan'', ''baidu-ai-cloud''],
         (brand_b ''baidu-qianfan'' ''https://qianfan.baidubce.com/v2'')
         \<lparr>bd_models_api := True, bd_rerank_api := True, bd_batch_flavor := BatchQianfan\<rparr>),
      ([''xai'', ''grok''], (brand_bc ''xai'' ''https://api.x.ai/v1'')
         \<lparr>bd_chat_api := ResponsesApi, bd_models_api := True,
          bd_models_url_override := Some xai_language_models_url\<rparr>),
      ([''mistral''], (brand_b ''mistral'' ''https://api.mistral.ai/v1'')
         \<lparr>bd_voices_api := True, bd_models_api := True, bd_batch_flavor := BatchMistralJobs\<rparr>),
      ([''together''], (brand_b ''together'' ''https://api.together.ai/v1'')
         \<lparr>bd_models_api := True, bd_rerank_api := True, bd_batch_flavor := BatchTogether\<rparr>),
      ([''fireworks''], brand_b ''fireworks'' ''https://api.fireworks.ai/inference/v1''),
      ([''llmleaf''], (brand_bc ''llmleaf'' ''http://localhost:8080/v1'')
         \<lparr>bd_models_api := True, bd_audio_input := True, bd_rerank_api := True, bd_realtime_native := True,
          bd_chat_api := ResponsesApi, bd_responses_flavor := FlavorLlmleaf\<rparr>),
      ([''perplexity''], (brand_b ''perplexity'' ''https://api.perplexity.ai'')
         \<lparr>bd_documented_models := Some perplexity_sonar_models\<rparr>),
      ([''cerebras''], (brand_bc ''cerebras'' ''https://api.cerebras.ai/v1'')
         \<lparr>bd_models_api := True, bd_models_url_override := Some cerebras_public_models_url\<rparr>),
      ([''zai'', ''z.ai'', ''glm''], (brand_b ''zai'' ''https://api.z.ai/api/paas/v4'')
         \<lparr>bd_documented_models := Some zai_models\<rparr>),
      ([''zai-coding'', ''glm-coding''], (brand_b ''zai-coding'' ''https://api.z.ai/api/coding/paas/v4'')
         \<lparr>bd_documented_models := Some zai_coding_models, bd_allow_pricing_enrichment := False\<rparr>),
      ([''moonshot'', ''kimi'', ''kimi-k2''], (brand_bc ''moonshot'' ''https://api.moonshot.ai/v1'')
         \<lparr>bd_models_api := True, bd_batch_flavor := BatchOpenAi\<rparr>),
      ([''kimi-coding'', ''kimi-for-coding''], (brand_bc ''kimi-coding'' ''https://api.kimi.com/coding/v1'')
         \<lparr>bd_documented_models := Some kimi_coding_models, bd_allow_pricing_enrichment := False\<rparr>),
      ([''minimax''], (brand_bc ''minimax'' ''https://api.minimax.io/v1'')
         \<lparr>bd_base_resp_envelope := True, bd_documented_models := Some minimax_models\<rparr>),
      ([''minimax-coding'', ''minimax-token-plan''], (brand_bc ''minimax'' ''https://api.minimax.io/v1'')
         \<lparr>bd_base_resp_envelope := True, bd_documented_models := Some minimax_token_plan_models,
          bd_allow_pricing_enrichment := False\<rparr>)]"

definition brand_rows :: "(string list \<times> brand) list" where
  "brand_rows = brand_rows_1 @ brand_rows_2 @ [([''azure-openai'', ''azure''], azure_brand)]"

definition for_kind :: "string \<Rightarrow> brand option" where
  "for_kind kind = map_option snd (List.find (\<lambda>(names, _). kind \<in> set names) brand_rows)"

definition brand_kinds :: "string list" where
  "brand_kinds =
     [''openai'', ''meta'', ''meta-ai'', ''meta-model-api'', ''muse'', ''openrouter'', ''requesty'', ''bedrock'',
      ''amazon-bedrock'', ''aws-bedrock'', ''huggingface'', ''hugging-face'', ''hf'', ''deepinfra'', ''deep-infra'',
      ''cloudflare'', ''workers-ai'', ''cloudflare-workers-ai'', ''oci'', ''oracle'', ''oci-generative-ai'',
      ''databricks'', ''databricks-model-serving'', ''nvidia-nim'', ''nim'', ''groq'', ''deepseek'', ''baidu'', ''qianfan'',
      ''baidu-qianfan'', ''baidu-ai-cloud'', ''xai'', ''grok'', ''mistral'', ''together'', ''fireworks'', ''llmleaf'',
      ''perplexity'', ''cerebras'', ''zai'', ''z.ai'', ''glm'', ''zai-coding'', ''glm-coding'', ''moonshot'', ''kimi'',
      ''kimi-k2'', ''kimi-coding'', ''kimi-for-coding'', ''minimax'', ''minimax-coding'', ''minimax-token-plan'',
      ''azure-openai'', ''azure'']"

definition documented_models :: "brand \<Rightarrow> model_info list option" where
  "documented_models b =
     map_option (map (\<lambda>mid.
         let info = (model_info_new mid)\<lparr>mi_modality := Some Llm\<rparr>
         in if bd_allow_pricing_enrichment b then info else info\<lparr>mi_allow_pricing_enrichment := Some False\<rparr>))
       (bd_documented_models b)"

section \<open>The table\<close>

text \<open>The kinds the table serves are exactly those it announces, each once, and no row shadows another.\<close>

lemma brand_kinds_rows: "concat (map fst brand_rows) = brand_kinds"
  by (simp add: brand_rows_def brand_rows_1_def brand_rows_2_def brand_kinds_def)

lemma brand_kinds_distinct: "distinct brand_kinds"
  by code_simp

lemma for_kind_known: "for_kind kind \<noteq> None \<longleftrightarrow> kind \<in> set brand_kinds"
  unfolding brand_kinds_rows [symmetric] for_kind_def by (force simp: find_None_iff case_prod_beta)

end
