(* ===== verification/Compat.thy ===== *)
theory Compat
  imports Brands AnthropicProvider OpenAIMedia
begin

text \<open>
  One provider for the whole OpenAI-compatible family, \<open>OpenAiCompatProvider\<close> of
  \<open>crates/llmleaf-providers/src/compat.rs\<close>, with the Decisions mapping (decisions.rs), the percent
  encoding of llmleaf.rs and the realtime URL of realtime_ws.rs. Parameters: the two transports,
  \<open>lossy\<close> (\<open>String::from_utf8_lossy\<close>), \<open>print\<close> and \<open>parse\<close> (serde_json), \<open>b64_decode\<close> (the base64
  crate), \<open>show_f32\<close> (the decimal \<open>Display\<close> writes for a single).
\<close>

section \<open>Decisions bodies\<close>

definition decisions_request_to_wire :: "decisions_request \<Rightarrow> json" where
  "decisions_request_to_wire req =
     JObject (hm_insert ''questions'' (JObject (dq_questions req))
       (hm_insert ''state'' (dq_state req) (hm_insert ''model'' (JString (dq_model req)) (dq_extra req))))"

definition take_u64 :: "json_map \<Rightarrow> string \<Rightarrow> u64 option \<times> json_map" where
  "take_u64 obj key = (Option.bind (hm_get obj key) as_u64, hm_remove key obj)"

definition take_f64 :: "json_map \<Rightarrow> string \<Rightarrow> real option \<times> json_map" where
  "take_f64 obj key = (Option.bind (hm_get obj key) as_f64, hm_remove key obj)"

text \<open>The second spelling of a counter is taken only when the first gave nothing.\<close>

definition take_either ::
  "(json_map \<Rightarrow> string \<Rightarrow> 'a option \<times> json_map) \<Rightarrow> string \<Rightarrow> string \<Rightarrow> json_map \<Rightarrow> 'a option \<times> json_map" where
  "take_either take_one k k' obj =
     (case take_one obj k of (Some n, obj) \<Rightarrow> (Some n, obj) | (None, obj) \<Rightarrow> take_one obj k')"

definition parse_decisions_usage :: "json \<Rightarrow> model_error + (usage \<times> json_map)" where
  "parse_decisions_usage v =
     (case v of
        JObject obj \<Rightarrow>
          (let (prompt, obj) = take_either take_u64 ''input_tokens'' ''prompt_tokens'' obj;
               (completion, obj) = take_either take_u64 ''output_tokens'' ''completion_tokens'' obj;
               prompt = unwrap_or 0 prompt; completion = unwrap_or 0 completion;
               (cost, obj) = take_either take_f64 ''cost'' ''cost_usd'' obj
           in Inr (usage_default\<lparr>ug_prompt := prompt, ug_completion := completion,
                ug_total := saturating_add prompt completion, ug_cost_usd := cost\<rparr>, obj))
      | _ \<Rightarrow> Inl (Mapping ''decisions response `usage` must be an object''))"

definition decisions_response_from_wire :: "json \<Rightarrow> string \<Rightarrow> model_error + decisions_response" where
  "decisions_response_from_wire v fallback_model =
     (case v of
        JObject obj \<Rightarrow>
          res_bind (case hm_get obj ''model'' of
              Some (JString s) \<Rightarrow> Inr s
            | Some _ \<Rightarrow> Inl (Mapping ''decisions response `model` must be a string'')
            | None \<Rightarrow> Inr fallback_model) (\<lambda>model.
          let obj = hm_remove ''model'' obj in
          res_bind (case hm_get obj ''answers'' of
              Some (JObject answers) \<Rightarrow> Inr answers
            | _ \<Rightarrow> Inl (Mapping ''decisions response `answers` must be an object'')) (\<lambda>answers.
          let obj = hm_remove ''answers'' obj in
          res_bind (case hm_get obj ''usage'' of
              Some u \<Rightarrow> parse_decisions_usage u
            | None \<Rightarrow> Inl (Mapping ''decisions response `usage` must be an object'')) (\<lambda>(usage, usage_extra).
          Inr \<lparr>dr_model = model, dr_answers = answers, dr_usage = usage, dr_extra = hm_remove ''usage'' obj,
               dr_usage_extra = usage_extra\<rparr>)))
      | _ \<Rightarrow> Inl (Mapping ''decisions response must be a JSON object''))"

section \<open>Addresses\<close>

definition hex_upper :: "nat \<Rightarrow> char" where
  "hex_upper n = ''0123456789ABCDEF'' ! (n mod 16)"

definition encode_byte :: "char \<Rightarrow> string" where
  "encode_byte b =
     (if is_ascii_alphanumeric b \<or> b \<in> set ''-_.~'' then [b]
      else [CHR ''%'', hex_upper (of_char b div 16), hex_upper (of_char b)])"

definition encode_component :: "string \<Rightarrow> string" where
  "encode_component s = concat (map encode_byte s)"

definition strip_suffix :: "string \<Rightarrow> string \<Rightarrow> string option" where
  "strip_suffix tail s = map_option rev (strip_prefix (rev tail) (rev s))"

definition build_ws_url :: "string \<Rightarrow> string \<Rightarrow> string" where
  "build_ws_url endpoint model =
     (let base = trim_slashes endpoint;
          ws_base = (case strip_prefix ''https://'' base of
              Some rest \<Rightarrow> ''wss://'' @ rest
            | None \<Rightarrow> (case strip_prefix ''http://'' base of Some rest \<Rightarrow> ''ws://'' @ rest | None \<Rightarrow> base))
      in ws_base @ ''/realtime?model='' @ encode_component model)"

text \<open>A realtime transport runs a whole session between the peer, which is part of the node, and an URL.\<close>

type_synonym 'w realtime_transport = "string \<Rightarrow> (string \<times> string) list \<Rightarrow> ('w, unit) awaited"

record 'w compat_provider =
  cp_http :: "'w http_transport"
  cp_realtime :: "'w realtime_transport"
  cp_brand :: brand

definition compat_for_kind ::
  "string \<Rightarrow> 'w http_transport \<Rightarrow> 'w realtime_transport \<Rightarrow> 'w compat_provider option" where
  "compat_for_kind kind http realtime =
     map_option (\<lambda>b. \<lparr>cp_http = http, cp_realtime = realtime, cp_brand = b\<rparr>) (for_kind kind)"

definition batch_endpoint :: "brand \<Rightarrow> provider_cx \<Rightarrow> string" where
  "batch_endpoint b cx = trim_slashes (unwrap_or (bd_default_endpoint b) (cx_endpoint cx))"

definition brand_api_version :: "brand \<Rightarrow> provider_cx \<Rightarrow> string" where
  "brand_api_version b cx = unwrap_or (bd_default_api_version b) (setting_str cx ''api_version'')"

definition url_for :: "brand \<Rightarrow> provider_cx \<Rightarrow> string \<Rightarrow> string \<Rightarrow> string" where
  "url_for b cx model op =
     (let endpoint = trim_slashes (unwrap_or (bd_default_endpoint b) (cx_endpoint cx))
      in case bd_url_style b of
           StandardUrl \<Rightarrow> endpoint @ ''/'' @ op
         | AzureUrl \<Rightarrow> endpoint @ ''/openai/deployments/'' @ model @ ''/'' @ op @ ''?api-version='' @
             brand_api_version b cx)"

definition build_url :: "brand \<Rightarrow> provider_cx \<Rightarrow> string \<Rightarrow> string" where
  "build_url b cx model = url_for b cx model ''chat/completions''"

definition decisions_url :: "brand \<Rightarrow> provider_cx \<Rightarrow> string" where
  "decisions_url b cx =
     (let endpoint = trim_slashes (unwrap_or (bd_default_endpoint b) (cx_endpoint cx))
      in unwrap_or endpoint (strip_suffix ''/v1'' endpoint) @ ''/alpha/decisions'')"

definition responses_url :: "brand \<Rightarrow> provider_cx \<Rightarrow> string" where
  "responses_url b cx =
     (let e = batch_endpoint b cx
      in case bd_url_style b of
           StandardUrl \<Rightarrow> e @ ''/responses''
         | AzureUrl \<Rightarrow> (case setting_str cx ''responses_api_version'' of
               Some v \<Rightarrow> e @ ''/openai/v1/responses?api-version='' @ v
             | None \<Rightarrow> e @ ''/openai/v1/responses''))"

definition models_url :: "brand \<Rightarrow> provider_cx \<Rightarrow> string" where
  "models_url b cx =
     (case bd_models_url_override b of
        Some url \<Rightarrow> url
      | None \<Rightarrow>
          let e = batch_endpoint b cx;
              url = (case bd_url_style b of
                  StandardUrl \<Rightarrow> e @ ''/models''
                | AzureUrl \<Rightarrow> e @ ''/openai/models?api-version='' @ brand_api_version b cx)
          in if bd_models_query b = [] then url
             else url @ (if CHR ''?'' \<in> set url then ''&'' else ''?'') @ bd_models_query b)"

section \<open>Decisions of an instance\<close>

definition chat_api_of :: "string option \<Rightarrow> chat_api option" where
  "chat_api_of s =
     (if s = Some ''responses'' then Some ResponsesApi
      else if s = Some ''chat_completions'' \<or> s = Some ''completions'' then Some Completions
      else None)"

definition effective_chat_api :: "brand \<Rightarrow> provider_cx \<Rightarrow> chat_request \<Rightarrow> chat_api" where
  "effective_chat_api b cx req =
     (let api = unwrap_or (bd_chat_api b) (chat_api_of (setting_str cx ''chat_api''));
          audio = (if has_input_audio req then chat_api_of (setting_str cx ''chat_with_audio_input_api'') else None)
      in case audio of
           Some pinned \<Rightarrow> pinned
         | None \<Rightarrow>
             if requires_responses req then ResponsesApi
             else if api = ResponsesApi \<and> needs_chat_completions req then Completions
             else api)"

definition setting_bool :: "provider_cx \<Rightarrow> string \<Rightarrow> bool option" where
  "setting_bool cx key = Option.bind (hm_get (cx_settings cx) key) as_bool"

definition compat_supports_compaction :: "brand \<Rightarrow> string \<Rightarrow> provider_cx \<Rightarrow> bool option" where
  "compat_supports_compaction b model cx =
     Some (unwrap_or (bd_name b = ''openai'' \<and> model = ''gpt-5.3-codex'') (setting_bool cx ''supports_compaction''))"

definition mark_compaction_support :: "brand \<Rightarrow> provider_cx \<Rightarrow> model_info list \<Rightarrow> model_info list" where
  "mark_compaction_support b cx models =
     map (\<lambda>m. let supported = compat_supports_compaction b (mi_id m) cx
        in m\<lparr>mi_supports_compaction :=
             (if supported = Some True \<and> is_some_and (\<lambda>x. x \<noteq> Llm) (mi_modality m) then Some False else supported)\<rparr>)
       models"

definition rerank_enabled :: "brand \<Rightarrow> provider_cx \<Rightarrow> bool" where
  "rerank_enabled b cx \<longleftrightarrow> bd_rerank_api b \<or> unwrap_or False (setting_bool cx ''rerank_api'')"

definition audio_input_enabled :: "brand \<Rightarrow> provider_cx \<Rightarrow> bool" where
  "audio_input_enabled b cx \<longleftrightarrow> bd_audio_input b \<or> unwrap_or False (setting_bool cx ''audio_input'')"

section \<open>Headers\<close>

definition opt_header :: "string \<Rightarrow> string option \<Rightarrow> http_request \<Rightarrow> http_request" where
  "opt_header name v req = (case v of Some s \<Rightarrow> with_header name s req | None \<Rightarrow> req)"

definition apply_auth :: "brand \<Rightarrow> http_request \<Rightarrow> provider_cx \<Rightarrow> http_request" where
  "apply_auth b req cx =
     (let req = (case (bd_auth b, cx_credential cx) of
            (_, None) \<Rightarrow> req
          | (Bearer, Some c) \<Rightarrow> with_bearer c req
          | (ApiKeyHeader h, Some c) \<Rightarrow> with_header h c req)
      in opt_header ''X-Title'' (setting_str cx ''x_title'')
           (opt_header ''HTTP-Referer'' (setting_str cx ''http_referer'')
             (opt_header ''OpenAI-Organization'' (setting_str cx ''organization'') req)))"

definition authed_post :: "brand \<Rightarrow> provider_cx \<Rightarrow> string \<Rightarrow> json \<Rightarrow> http_request" where
  "authed_post b cx url body = apply_auth b (with_json body (http_post url)) cx"

definition authed_get :: "brand \<Rightarrow> provider_cx \<Rightarrow> string \<Rightarrow> http_request" where
  "authed_get b cx url = apply_auth b (http_get url) cx"

section \<open>The 200 envelope\<close>

fun as_i64 :: "json \<Rightarrow> int option" where
  "as_i64 (JNumber (PosInt n)) = (if uint n < 2 ^ 63 then Some (uint n) else None)"
| "as_i64 (JNumber (NegInt n)) = Some (sint n)"
| "as_i64 _ = None"

definition signed_decimal :: "int \<Rightarrow> string" where
  "signed_decimal i = (if i < 0 then ''-'' @ decimal (nat (- i)) else decimal (nat i))"

definition base_resp_status :: "int \<Rightarrow> u16" where
  "base_resp_status code =
     (if code \<in> {1004, 2049} then 401
      else if code = 1008 then 402
      else if code \<in> {1002, 1041, 2056} then 429
      else if code \<in> {1026, 1027, 1039, 1042, 2013} then 400
      else if code = 1001 then 504
      else 500)"

definition base_resp_error :: "json \<Rightarrow> model_error option" where
  "base_resp_error v =
     (case json_get v ''base_resp'' of
        None \<Rightarrow> None
      | Some resp \<Rightarrow>
          let code = unwrap_or 0 (Option.bind (json_get resp ''status_code'') as_i64);
              message = unwrap_or [] (get_str resp ''status_msg'')
          in if code = 0 then None
             else Some (Upstream (base_resp_status code)
               (''minimax base_resp '' @ signed_decimal code @ '': '' @ message)))"

definition envelope_error :: "brand \<Rightarrow> json \<Rightarrow> model_error option" where
  "envelope_error b v = (if bd_base_resp_envelope b then base_resp_error v else None)"

text \<open>The step after an answer: an enveloped error, or the mapping.\<close>

definition unless_enveloped :: "brand \<Rightarrow> (json \<Rightarrow> 'a) \<Rightarrow> model_error + json \<Rightarrow> model_error + 'a" where
  "unless_enveloped b f answer =
     res_bind answer (\<lambda>v. case envelope_error b v of Some e \<Rightarrow> Inl e | None \<Rightarrow> Inr (f v))"

section \<open>Chat\<close>

definition whole_stream :: "(json \<Rightarrow> string \<Rightarrow> stream_chunk list) \<Rightarrow> string \<Rightarrow> json \<Rightarrow> ('w, stream_chunk) polls" where
  "whole_stream to_chunks model v = polls_of (map Inr (to_chunks v model))"

definition is_json_answer :: "http_response \<Rightarrow> bool" where
  "is_json_answer resp = is_some_and (contains_sub ''application/json'') (response_header resp ''content-type'')"

definition parsed_body :: "(string \<Rightarrow> string + json) \<Rightarrow> http_response \<Rightarrow> model_error + json" where
  "parsed_body parse resp =
     res_bind (collect_body resp) (\<lambda>bytes. case parse bytes of Inl e \<Rightarrow> Inl (Mapping e) | Inr v \<Rightarrow> Inr v)"

definition completions_answer ::
  "(string \<Rightarrow> string + json) \<Rightarrow> brand \<Rightarrow> string \<Rightarrow> http_response \<Rightarrow> model_error + ('w, stream_chunk) polls" where
  "completions_answer parse b model resp =
     (if \<not> bd_base_resp_envelope b then Inr (polls_of (openai_sse_to_stream parse (hs_body resp) model))
      else if is_json_answer resp then unless_enveloped b (whole_stream openai_to_chunks model) (parsed_body parse resp)
      else Inr (polls_of (openai_sse_to_stream_checked parse (hs_body resp) model base_resp_error)))"

definition compat_chat_completions ::
  "'w compat_provider \<Rightarrow> (string \<Rightarrow> string) \<Rightarrow> (string \<Rightarrow> string + json) \<Rightarrow>
     chat_request \<Rightarrow> provider_cx \<Rightarrow> ('w, ('w, stream_chunk) polls) awaited" where
  "compat_chat_completions p lossy parse req cx w =
     (let b = cp_brand p; url = build_url b cx (cq_model req);
          body = request_to_openai req (bd_max_tokens_field b)
      in if \<not> use_upstream_streaming cx (cq_stream req) (bd_supports_stream b) then
           map_prod id (unless_enveloped b (whole_stream openai_to_chunks (cq_model req)))
             (post_json (cp_http p) lossy parse (authed_post b cx url (body False)) w)
         else
           map_prod id (\<lambda>answer. res_bind answer (completions_answer parse b (cq_model req)))
             (send_checked (cp_http p) lossy (authed_post b cx url (body True)) w))"

definition compat_chat_responses ::
  "'w compat_provider \<Rightarrow> (string \<Rightarrow> string) \<Rightarrow> (json \<Rightarrow> string) \<Rightarrow> (string \<Rightarrow> string + json) \<Rightarrow>
     chat_request \<Rightarrow> provider_cx \<Rightarrow> ('w, ('w, stream_chunk) polls) awaited" where
  "compat_chat_responses p lossy print parse req cx w =
     (let b = cp_brand p; url = responses_url b cx;
          body = (\<lambda>stream. request_to_openai_responses req stream (bd_responses_flavor b))
      in if \<not> use_upstream_streaming cx (cq_stream req) (bd_supports_stream b) then
           map_prod id (map_sum id (whole_stream openai_responses_to_chunks (cq_model req)))
             (post_json (cp_http p) lossy parse (authed_post b cx url (body False)) w)
         else
           map_prod id (map_sum id (\<lambda>resp. polls_of (openai_responses_sse_to_stream print parse (hs_body resp)
               (cq_model req) (hm_contains (cq_extra req) ''context_management''))))
             (send_checked (cp_http p) lossy (authed_post b cx url (body True)) w))"

fun foreign_compaction :: "content_part \<Rightarrow> bool" where
  "foreign_compaction (CompactionPart oi cid content encrypted signature) \<longleftrightarrow>
     content \<noteq> None \<or> signature \<noteq> None \<or> encrypted = None"
| "foreign_compaction _ \<longleftrightarrow> False"

definition no_such_endpoint :: "model_error \<Rightarrow> bool" where
  "no_such_endpoint e = (case e of Upstream status _ \<Rightarrow> status = 404 \<or> status = 405 | _ \<Rightarrow> False)"

definition unrepresentable_text :: "string \<Rightarrow> string" where
  "unrepresentable_text name =
     ''provider '' @ [CHR 0x27] @ name @ [CHR 0x27] @
     '' is configured for the Responses API, which cannot represent this chat request; set '' @
     ''settings.chat_with_audio_input_api = '' @ [CHR 0x22] @ ''chat_completions'' @ [CHR 0x22] @
     '' or settings.chat_api = '' @ [CHR 0x22] @ ''chat_completions'' @ [CHR 0x22]"

definition compat_chat ::
  "'w compat_provider \<Rightarrow> (string \<Rightarrow> string) \<Rightarrow> (json \<Rightarrow> string) \<Rightarrow> (string \<Rightarrow> string + json) \<Rightarrow>
     chat_request \<Rightarrow> provider_cx \<Rightarrow> ('w, ('w, stream_chunk) polls) awaited" where
  "compat_chat p lossy print parse req cx w =
     (let b = cp_brand p; api = effective_chat_api b cx req
      in if list_ex (\<lambda>m. list_ex foreign_compaction (me_content m)) (cq_messages req)
         then (w, Inl (Unsupported ''OpenAI Responses can replay only encrypted compaction items''))
         else if has_input_audio req \<and> \<not> audio_input_enabled b cx
         then (w, Inl (unsupported (bd_name b) ''audio input in chat''))
         else if api = ResponsesApi \<and> needs_chat_completions req
         then (w, Inl (Unsupported (unrepresentable_text (bd_name b))))
         else case api of
           Completions \<Rightarrow> compat_chat_completions p lossy parse req cx w
         | ResponsesApi \<Rightarrow>
             (case compat_chat_responses p lossy print parse req cx w of
                (w, Inl e) \<Rightarrow>
                  if no_such_endpoint e \<and> \<not> requires_responses req
                  then compat_chat_completions p lossy parse req cx w
                  else (w, Inl e)
              | answered \<Rightarrow> answered))"

section \<open>The other modalities\<close>

definition compat_embed ::
  "'w compat_provider \<Rightarrow> (string \<Rightarrow> string) \<Rightarrow> (string \<Rightarrow> string + json) \<Rightarrow>
     embedding_request \<Rightarrow> provider_cx \<Rightarrow> ('w, embedding_response) awaited" where
  "compat_embed p lossy parse req cx w =
     (let b = cp_brand p
      in map_prod id (unless_enveloped b (\<lambda>v. openai_to_embeddings v (eq_model req)))
           (post_json (cp_http p) lossy parse
             (authed_post b cx (url_for b cx (eq_model req) ''embeddings'') (embedding_request_to_openai req)) w))"

definition compat_decisions ::
  "'w compat_provider \<Rightarrow> (string \<Rightarrow> string) \<Rightarrow> (string \<Rightarrow> string + json) \<Rightarrow>
     decisions_request \<Rightarrow> provider_cx \<Rightarrow> ('w, decisions_response) awaited" where
  "compat_decisions p lossy parse req cx w =
     (let b = cp_brand p
      in if bd_name b \<noteq> ''openrouter'' then (w, Inl (unsupported (bd_name b) ''decisions''))
         else map_prod id (\<lambda>answer. res_bind answer (\<lambda>v. decisions_response_from_wire v (dq_model req)))
           (post_json (cp_http p) lossy parse
             (authed_post b cx (decisions_url b cx) (decisions_request_to_wire req)) w))"

definition compat_rerank ::
  "'w compat_provider \<Rightarrow> (string \<Rightarrow> string) \<Rightarrow> (string \<Rightarrow> string + json) \<Rightarrow>
     rerank_request \<Rightarrow> provider_cx \<Rightarrow> ('w, rerank_response) awaited" where
  "compat_rerank p lossy parse req cx w =
     (let b = cp_brand p
      in if \<not> rerank_enabled b cx then (w, Inl (unsupported (bd_name b) ''rerank''))
         else map_prod id (unless_enveloped b (\<lambda>v. openai_to_rerank v (rq_model req)))
           (post_json (cp_http p) lossy parse
             (authed_post b cx (url_for b cx (rq_model req) ''rerank'') (rerank_request_to_openai req)) w))"

definition framed_audio :: "string \<Rightarrow> (model_error + string) list \<Rightarrow> ('w, audio_chunk) polls" where
  "framed_audio content_type data =
     polls_of ([Inr (AudioStart content_type)] @ map (map_sum id AudioData) data @ [Inr AudioFinish])"

definition speech_answer ::
  "(string \<Rightarrow> string + json) \<Rightarrow> (string \<Rightarrow> string option) \<Rightarrow> string option \<Rightarrow> http_response \<Rightarrow>
     model_error + ('w, audio_chunk) polls" where
  "speech_answer parse b64_decode format resp =
     (if is_json_answer resp then
        res_bind (parsed_body parse resp) (\<lambda>v.
          case decode_speech_envelope b64_decode v of
            Some audio \<Rightarrow> Inr (framed_audio (audio_content_type format) [Inr audio])
          | None \<Rightarrow> Inl (Mapping ''speech response was JSON without a decodable `audio_data` field''))
      else Inr (framed_audio (unwrap_or (audio_content_type format) (response_header resp ''content-type''))
        (hs_body resp)))"

definition compat_speech ::
  "'w compat_provider \<Rightarrow> (string \<Rightarrow> string) \<Rightarrow> (string \<Rightarrow> string + json) \<Rightarrow> (string \<Rightarrow> string option) \<Rightarrow>
     speech_request \<Rightarrow> provider_cx \<Rightarrow> ('w, ('w, audio_chunk) polls) awaited" where
  "compat_speech p lossy parse b64_decode req cx w =
     (let b = cp_brand p
      in map_prod id (\<lambda>answer. res_bind answer (speech_answer parse b64_decode (sq_response_format req)))
           (send_checked (cp_http p) lossy
             (authed_post b cx (url_for b cx (sq_model req) ''audio/speech'') (speech_request_to_openai req)) w))"

section \<open>Voices\<close>

definition page_limit :: nat where "page_limit = 100"
definition page_cap :: nat where "page_cap = 20"

text \<open>The new voices of a page: the first occurrence of each id not seen before.\<close>

fun unseen :: "string list \<Rightarrow> voice_info list \<Rightarrow> voice_info list" where
  "unseen seen [] = []"
| "unseen seen (v # vs) =
     (if vi_id v \<in> set seen then unseen seen vs else v # unseen (vi_id v # seen) vs)"

definition page_url :: "string \<Rightarrow> u64 \<Rightarrow> string" where
  "page_url base offset =
     base @ ''?type=all&limit='' @ decimal page_limit @ ''&offset='' @ decimal (unat offset)"

primrec fetch_pages ::
  "nat \<Rightarrow> 'w http_transport \<Rightarrow> (string \<Rightarrow> string) \<Rightarrow> (string \<Rightarrow> string + json) \<Rightarrow> (string \<Rightarrow> http_request) \<Rightarrow> string \<Rightarrow>
     voice_info list \<Rightarrow> u64 \<Rightarrow> ('w, voice_info list) awaited" where
  "fetch_pages 0 http lossy parse request base voices offset w = (w, Inr voices)"
| "fetch_pages (Suc n) http lossy parse request base voices offset w =
     (case post_json http lossy parse (request (page_url base offset)) w of
        (w, Inl e) \<Rightarrow> (w, Inl e)
      | (w, Inr v) \<Rightarrow>
          (let fetched = (case get_array v ''items'' of Some items \<Rightarrow> of_nat (length items) | None \<Rightarrow> 0);
               fresh = unseen (map vi_id voices) (mistral_voices_to_canonical v);
               offset = offset + fetched
           in if fetched = 0 \<or> fresh = [] \<or> is_none_or (\<lambda>t. t \<le> offset) (get_u64 v ''total'')
              then (w, Inr (voices @ fresh))
              else fetch_pages n http lossy parse request base (voices @ fresh) offset w))"

definition fetch_voices ::
  "'w compat_provider \<Rightarrow> (string \<Rightarrow> string) \<Rightarrow> (string \<Rightarrow> string + json) \<Rightarrow> provider_cx \<Rightarrow>
     ('w, voice_info list) awaited" where
  "fetch_voices p lossy parse cx =
     fetch_pages page_cap (cp_http p) lossy parse (authed_get (cp_brand p) cx)
       (url_for (cp_brand p) cx [] ''audio/voices'') [] 0"

fun voice_from_value :: "json \<Rightarrow> voice_info option" where
  "voice_from_value (JString vid) = Some (plain_voice vid)"
| "voice_from_value (JObject obj) =
     map_option (\<lambda>vid. (plain_voice vid)
         \<lparr>vi_name := Option.bind (hm_get obj ''name'') as_str,
          vi_languages := (case Option.bind (hm_get obj ''languages'') as_array of
              Some xs \<Rightarrow> List.map_filter as_str xs | None \<Rightarrow> [])\<rparr>)
       (Option.bind (hm_get obj ''id'') as_str)"
| "voice_from_value _ = None"

definition declared_voices :: "provider_cx \<Rightarrow> string \<Rightarrow> voice_info list option" where
  "declared_voices cx model =
     Option.bind (Option.bind (hm_get (cx_settings cx) ''voices'') as_object) (\<lambda>declared.
     Option.bind (Option.bind (hm_get declared model) as_array) (\<lambda>entry.
       let voices = List.map_filter voice_from_value entry
       in if voices = [] then None else Some voices))"

definition no_voices_text :: "string \<Rightarrow> string \<Rightarrow> string" where
  "no_voices_text name model =
     ''provider '' @ [CHR 0x27] @ name @ [CHR 0x27] @ '' does not list voices for '' @ [CHR 0x27] @ model @ [CHR 0x27] @
     '' (no documented or live catalog; declare them under [providers.settings.voices])''"

definition compat_voices ::
  "'w compat_provider \<Rightarrow> (string \<Rightarrow> string) \<Rightarrow> (string \<Rightarrow> string + json) \<Rightarrow>
     string \<Rightarrow> provider_cx \<Rightarrow> ('w, voice_info list) awaited" where
  "compat_voices p lossy parse model cx w =
     (let b = cp_brand p
      in case openai_speech_model (bd_name b) model of
           Some model \<Rightarrow> (w, Inr (openai_voices model))
         | None \<Rightarrow>
             if bd_voices_api b then
               (case fetch_voices p lossy parse cx w of
                  (w, Inr voices) \<Rightarrow> (w, Inr voices)
                | (w, Inl e) \<Rightarrow> (w, ok_or (declared_voices cx model) e))
             else (w, ok_or (declared_voices cx model) (Unsupported (no_voices_text (bd_name b) model))))"

section \<open>The catalog\<close>

definition drop_inactive :: "brand \<Rightarrow> model_info list \<Rightarrow> model_info list" where
  "drop_inactive b models =
     (if bd_filter_inactive_models b
      then filter (\<lambda>m. Option.bind (hm_get (mi_extra m) ''active'') as_bool \<noteq> Some False) models
      else models)"

definition fetch_models ::
  "'w compat_provider \<Rightarrow> (string \<Rightarrow> string) \<Rightarrow> (string \<Rightarrow> string + json) \<Rightarrow> provider_cx \<Rightarrow>
     ('w, model_info list) awaited" where
  "fetch_models p lossy parse cx w =
     (let b = cp_brand p; url = models_url b cx;
          request = (if bd_models_url_override b \<noteq> None then http_get url else authed_get b cx url)
      in map_prod id (map_sum id (\<lambda>v. drop_inactive b (openai_wire_models_to_canonical v)))
           (post_json (cp_http p) lossy parse request w))"

definition compat_models ::
  "'w compat_provider \<Rightarrow> (string \<Rightarrow> string) \<Rightarrow> (string \<Rightarrow> string + json) \<Rightarrow> provider_cx \<Rightarrow>
     ('w, model_info list) awaited" where
  "compat_models p lossy parse cx w =
     (let b = cp_brand p
      in case documented_models b of
           Some models \<Rightarrow> (w, Inr (mark_compaction_support b cx models))
         | None \<Rightarrow>
             if \<not> bd_models_api b
             then (w, Inl (Unsupported
               (''provider '' @ [CHR 0x27] @ bd_name b @ [CHR 0x27] @ '' does not list models'')))
             else map_prod id (map_sum id (mark_compaction_support b cx)) (fetch_models p lossy parse cx w))"

section \<open>Transcription\<close>

definition file_extension :: "string \<Rightarrow> string" where
  "file_extension filename =
     to_ascii_lowercase (case split_last CHR ''.'' filename of Some (_, ext) \<Rightarrow> ext | None \<Rightarrow> filename)"

definition guess_audio_mime :: "string \<Rightarrow> string" where
  "guess_audio_mime filename =
     (let ext = file_extension filename
      in if ext = ''mp3'' then ''audio/mpeg''
         else if ext = ''wav'' then ''audio/wav''
         else if ext = ''flac'' then ''audio/flac''
         else if ext = ''ogg'' \<or> ext = ''oga'' then ''audio/ogg''
         else if ext = ''webm'' then ''audio/webm''
         else if ext = ''m4a'' \<or> ext = ''mp4'' then ''audio/mp4''
         else if ext = ''mpeg'' \<or> ext = ''mpga'' then ''audio/mpeg''
         else ''application/octet-stream'')"

definition audio_format_token :: "string \<Rightarrow> string" where
  "audio_format_token filename =
     (let ext = file_extension filename
      in if ext = ''wav'' then ''wav''
         else if ext = ''flac'' then ''flac''
         else if ext = ''m4a'' \<or> ext = ''mp4'' then ''m4a''
         else if ext = ''ogg'' \<or> ext = ''oga'' then ''ogg''
         else if ext = ''webm'' then ''webm''
         else if ext = ''aac'' then ''aac''
         else ''mp3'')"

definition opt_part :: "string \<Rightarrow> string option \<Rightarrow> multipart_part list" where
  "opt_part name v = (case v of Some s \<Rightarrow> [TextPart name s] | None \<Rightarrow> [])"

definition upload_form :: "(real \<Rightarrow> string) \<Rightarrow> transcription_request \<Rightarrow> multipart_part list" where
  "upload_form show_f32 req =
     [TextPart ''model'' (tq_model req), TextPart ''response_format'' (unwrap_or ''json'' (tq_response_format req)),
      BytesPart ''file'' (Some (tq_filename req)) (Some (guess_audio_mime (tq_filename req))) (tq_audio req)] @
     opt_part ''language'' (tq_language req) @ opt_part ''prompt'' (tq_prompt req) @
     opt_part ''temperature'' (map_option show_f32 (tq_temperature req)) @
     concat (map (\<lambda>(k, v). opt_part k (as_str v)) (tq_extra req))"

definition compat_transcribe ::
  "'w compat_provider \<Rightarrow> (string \<Rightarrow> string) \<Rightarrow> (string \<Rightarrow> string + json) \<Rightarrow> (real \<Rightarrow> string) \<Rightarrow>
     transcription_request \<Rightarrow> provider_cx \<Rightarrow> ('w, transcription_response) awaited" where
  "compat_transcribe p lossy parse show_f32 req cx w =
     (let b = cp_brand p; url = url_for b cx (tq_model req) ''audio/transcriptions'';
          upload = apply_auth b (with_multipart (upload_form show_f32 req) (http_post url)) cx
      in if bd_transcription_json_base64 b then
           map_prod id (map_sum id openrouter_to_transcription)
             (post_json (cp_http p) lossy parse
               (authed_post b cx url (transcription_request_to_openrouter req (audio_format_token (tq_filename req)))) w)
         else if tq_response_format req \<in> {Some ''text'', Some ''srt'', Some ''vtt''} then
           map_prod id (\<lambda>answer. res_bind answer (\<lambda>resp. res_bind (collect_body resp) (\<lambda>bytes.
               Inr \<lparr>tr_text = lossy bytes, tr_language = None, tr_duration = None, tr_usage = usage_default\<rparr>)))
             (send_checked (cp_http p) lossy upload w)
         else
           map_prod id (map_sum id openai_to_transcription) (post_json (cp_http p) lossy parse upload w))"

section \<open>Batches\<close>

definition ensure_batch :: "brand \<Rightarrow> model_error + unit" where
  "ensure_batch b = (if bd_batch_flavor b = BatchUnsupported then Inl (unsupported (bd_name b) ''batch'') else Inr ())"

definition batch_query :: "brand \<Rightarrow> provider_cx \<Rightarrow> string" where
  "batch_query b cx =
     (if bd_batch_flavor b = BatchAzureOpenAi then ''?api-version='' @ brand_api_version b cx else [])"

definition batch_collection :: "brand \<Rightarrow> provider_cx \<Rightarrow> string" where
  "batch_collection b cx = batch_endpoint b cx @
     (if bd_batch_flavor b = BatchMistralJobs then ''/batch/jobs''
      else if bd_batch_flavor b = BatchAzureOpenAi then ''/openai/batches''
      else ''/batches'')"

definition batch_files :: "brand \<Rightarrow> provider_cx \<Rightarrow> string" where
  "batch_files b cx = batch_endpoint b cx @
     (if bd_batch_flavor b = BatchAzureOpenAi then ''/openai/files'' else ''/files'')"

definition batch_purpose :: "brand \<Rightarrow> string" where
  "batch_purpose b = (if bd_batch_flavor b = BatchTogether then ''batch-api'' else ''batch'')"

definition batch_chat_path :: "brand \<Rightarrow> provider_cx \<Rightarrow> string" where
  "batch_chat_path b cx =
     (if bd_batch_flavor b = BatchQianfan then
        ''/'' @ (if strip_suffix ''/v1'' (batch_endpoint b cx) \<noteq> None then ''v1'' else ''v2'') @ ''/chat/completions''
      else if bd_batch_flavor b = BatchAzureOpenAi then ''/chat/completions''
      else ''/v1/chat/completions'')"

definition compat_batch_line :: "brand \<Rightarrow> provider_cx \<Rightarrow> batch_item \<Rightarrow> json" where
  "compat_batch_line b cx item =
     (let body = request_to_openai (bi_request item) (bd_max_tokens_field b) False
      in if bd_batch_flavor b \<in> {BatchOpenAi, BatchQianfan, BatchAzureOpenAi}
         then JObject [(''custom_id'', JString (bi_custom_id item)), (''method'', JString ''POST''),
           (''url'', JString (batch_chat_path b cx)), (''body'', body)]
         else JObject [(''custom_id'', JString (bi_custom_id item)), (''body'', body)])"

definition upload_batch_file ::
  "'w compat_provider \<Rightarrow> (string \<Rightarrow> string) \<Rightarrow> (string \<Rightarrow> string + json) \<Rightarrow> provider_cx \<Rightarrow> string \<Rightarrow>
     ('w, string) awaited" where
  "upload_batch_file p lossy parse cx jsonl w =
     (let b = cp_brand p;
          form = [TextPart ''purpose'' (batch_purpose b),
            BytesPart ''file'' (Some ''batch.jsonl'') (Some ''application/jsonl'') jsonl];
          req = apply_auth b (with_multipart form (http_post (batch_files b cx @ batch_query b cx))) cx
      in map_prod id (\<lambda>answer. res_bind answer (\<lambda>v.
             ok_or (get_str v ''id'') (Mapping ''file upload response had no id'')))
           (post_json (cp_http p) lossy parse req w))"

definition job_url :: "brand \<Rightarrow> provider_cx \<Rightarrow> string \<Rightarrow> string \<Rightarrow> string" where
  "job_url b cx upstream_id action = batch_collection b cx @ ''/'' @ upstream_id @ action @ batch_query b cx"

definition fetch_batch_value ::
  "'w compat_provider \<Rightarrow> (string \<Rightarrow> string) \<Rightarrow> (string \<Rightarrow> string + json) \<Rightarrow> provider_cx \<Rightarrow> string \<Rightarrow> ('w, json) awaited" where
  "fetch_batch_value p lossy parse cx upstream_id w =
     post_json (cp_http p) lossy parse (authed_get (cp_brand p) cx (job_url (cp_brand p) cx upstream_id [])) w"

definition map_batch_status :: "string \<Rightarrow> batch_status" where
  "map_batch_status s =
     (let s = to_ascii_lowercase s
      in if s = ''validating'' then Validating
         else if s \<in> {''in_progress'', ''running'', ''queued''} then InProgress
         else if s = ''finalizing'' then Finalizing
         else if s \<in> {''completed'', ''success'', ''done''} then Completed
         else if s = ''failed'' then Failed
         else if s \<in> {''expired'', ''timeout_exceeded''} then Expired
         else if s \<in> {''cancelling'', ''cancellation_requested'', ''stopping''} then Canceling
         else if s \<in> {''cancelled'', ''canceled'', ''stopped''} then CanceledJob
         else InProgress)"

definition saturating_sub :: "u64 \<Rightarrow> u64 \<Rightarrow> u64" where
  "saturating_sub a b = (if b \<le> a then a - b else 0)"

definition counted :: "json \<Rightarrow> string \<Rightarrow> u64" where
  "counted v k = unwrap_or 0 (get_u64 v k)"

definition batch_counts_of :: "json \<Rightarrow> batch_counts" where
  "batch_counts_of v =
     (let (total, succeeded, errored) = (case json_get v ''request_counts'' of
            Some rc \<Rightarrow> (counted rc ''total'', counted rc ''completed'', counted rc ''failed'')
          | None \<Rightarrow> (counted v ''total_requests'', counted v ''succeeded_requests'', counted v ''failed_requests''))
      in \<lparr>bc_total = total, bc_processing = saturating_sub total (succeeded + errored),
          bc_succeeded = succeeded, bc_errored = errored, bc_canceled = 0, bc_expired = 0\<rparr>)"

definition batch_value_to_handle :: "json \<Rightarrow> batch_handle" where
  "batch_value_to_handle v =
     \<lparr>bh_id = unwrap_or [] (get_str v ''id''),
      bh_status = (case Option.bind (or_else (json_get v ''status'') (json_get v ''processing_status'')) as_str of
          Some s \<Rightarrow> map_batch_status s | None \<Rightarrow> InProgress),
      bh_counts = batch_counts_of v,
      bh_created_at = get_u64 v ''created_at'', bh_expires_at = get_u64 v ''expires_at'',
      bh_ended_at = or_else (get_u64 v ''completed_at'') (get_u64 v ''ended_at''),
      bh_endpoint = get_str v ''endpoint'', bh_extra = hm_empty\<rparr>"

definition create_body :: "brand \<Rightarrow> provider_cx \<Rightarrow> string \<Rightarrow> batch_item list \<Rightarrow> json" where
  "create_body b cx file_id items =
     (case bd_batch_flavor b of
        BatchAzureOpenAi \<Rightarrow> JObject [(''input_file_id'', JString file_id),
          (''endpoint'', JString ''/chat/completions''), (''completion_window'', JString ''24h'')]
      | BatchTogether \<Rightarrow> JObject [(''input_file_id'', JString file_id), (''endpoint'', JString ''/v1/chat/completions'')]
      | BatchMistralJobs \<Rightarrow> JObject [(''input_files'', JArray [JString file_id]),
          (''endpoint'', JString ''/v1/chat/completions''),
          (''model'', JString (case items of item # _ \<Rightarrow> cq_model (bi_request item) | [] \<Rightarrow> []))]
      | _ \<Rightarrow> JObject [(''input_file_id'', JString file_id), (''endpoint'', JString (batch_chat_path b cx)),
          (''completion_window'', JString ''24h'')])"

definition unwrapped_job :: "brand \<Rightarrow> json \<Rightarrow> json" where
  "unwrapped_job b v = (if bd_batch_flavor b = BatchTogether then unwrap_or v (json_get v ''job'') else v)"

definition compat_batch_create ::
  "'w compat_provider \<Rightarrow> (string \<Rightarrow> string) \<Rightarrow> (json \<Rightarrow> string) \<Rightarrow> (string \<Rightarrow> string + json) \<Rightarrow>
     batch_spec \<Rightarrow> provider_cx \<Rightarrow> ('w, batch_handle) awaited" where
  "compat_batch_create p lossy print parse spec cx w =
     (let b = cp_brand p
      in case ensure_batch b of
           Inl e \<Rightarrow> (w, Inl e)
         | Inr _ \<Rightarrow>
             if list_ex (\<lambda>item. has_input_audio (bi_request item)) (bs_items spec) \<and> \<not> audio_input_enabled b cx
             then (w, Inl (unsupported (bd_name b) ''audio input in chat batches''))
             else
               (case upload_batch_file p lossy parse cx (build_jsonl print (map (compat_batch_line b cx) (bs_items spec))) w of
                  (w, Inl e) \<Rightarrow> (w, Inl e)
                | (w, Inr file_id) \<Rightarrow>
                    map_prod id (map_sum id (\<lambda>v. batch_value_to_handle (unwrapped_job b v)))
                      (post_json (cp_http p) lossy parse
                        (authed_post b cx (batch_collection b cx @ batch_query b cx)
                          (create_body b cx file_id (bs_items spec))) w)))"

definition compat_batch_retrieve ::
  "'w compat_provider \<Rightarrow> (string \<Rightarrow> string) \<Rightarrow> (string \<Rightarrow> string + json) \<Rightarrow>
     string \<Rightarrow> provider_cx \<Rightarrow> ('w, batch_handle) awaited" where
  "compat_batch_retrieve p lossy parse upstream_id cx w =
     (case ensure_batch (cp_brand p) of
        Inl e \<Rightarrow> (w, Inl e)
      | Inr _ \<Rightarrow> map_prod id (map_sum id batch_value_to_handle) (fetch_batch_value p lossy parse cx upstream_id w))"

definition compat_batch_cancel ::
  "'w compat_provider \<Rightarrow> (string \<Rightarrow> string) \<Rightarrow> (string \<Rightarrow> string + json) \<Rightarrow>
     string \<Rightarrow> provider_cx \<Rightarrow> ('w, batch_handle) awaited" where
  "compat_batch_cancel p lossy parse upstream_id cx w =
     (let b = cp_brand p
      in case ensure_batch b of
           Inl e \<Rightarrow> (w, Inl e)
         | Inr _ \<Rightarrow> map_prod id (map_sum id batch_value_to_handle)
             (post_json (cp_http p) lossy parse
               (apply_auth b (http_post (job_url b cx upstream_id ''/cancel'')) cx) w))"

section \<open>Batch results\<close>

definition batch_result_file_ids :: "json \<Rightarrow> string list" where
  "batch_result_file_ids batch =
     List.map_filter (\<lambda>(k, k'). or_else (get_str batch k) (get_str batch k'))
       [(''output_file_id'', ''output_file''), (''error_file_id'', ''error_file'')]"

definition openai_batch_result_line :: "(json \<Rightarrow> string) \<Rightarrow> json \<Rightarrow> batch_result option" where
  "openai_batch_result_line print v =
     Option.bind (get_str v ''custom_id'') (\<lambda>custom_id.
       let errored = (\<lambda>status message. Some \<lparr>br_custom_id = custom_id, br_outcome = Errored status message\<rparr>);
           err = json_get v ''error''
       in if is_some_and (\<lambda>e. e \<noteq> JNull) err
          then errored 0 (unwrap_or (print (the err)) (get_str (the err) ''message''))
          else Option.bind (json_get v ''response'') (\<lambda>response.
            let status = ucast (unwrap_or 200 (get_u64 response ''status_code''))
            in Option.bind (json_get response ''body'') (\<lambda>body.
              if 400 \<le> status
              then errored status (unwrap_or (print body)
                (Option.bind (json_get body ''error'') (\<lambda>e. get_str e ''message'')))
              else Some \<lparr>br_custom_id = custom_id,
                br_outcome = Succeeded (collect_chunks (openai_to_chunks body []))\<rparr>)))"

text \<open>
  The stream over the result files. A file is asked for only when the one before it has been read to its end,
  so a reader that polls the node between items sees the second request made then. \<open>file_reader\<close> is the
  generator at one of its yield points, \<open>file_next\<close> runs it to the next item or its end.
\<close>

record file_reader =
  fr_items :: result_items
  fr_requests :: "http_request list"

function file_next ::
  "'w http_transport \<Rightarrow> (string \<Rightarrow> string) \<Rightarrow> (http_response \<Rightarrow> result_items) \<Rightarrow> file_reader \<Rightarrow> 'w \<Rightarrow>
     'w \<times> ((model_error + batch_result) \<times> file_reader) option" where
  "file_next http lossy lines_of_response rd w =
     (case fr_items rd of
        item # items \<Rightarrow> (w, Some (item, rd\<lparr>fr_items := items\<rparr>))
      | [] \<Rightarrow>
          (case fr_requests rd of
             [] \<Rightarrow> (w, None)
           | req # reqs \<Rightarrow>
               (case send_checked http lossy req w of
                  (w, Inl e) \<Rightarrow> (w, Some (Inl e, \<lparr>fr_items = [], fr_requests = []\<rparr>))
                | (w, Inr resp) \<Rightarrow>
                    file_next http lossy lines_of_response
                      \<lparr>fr_items = lines_of_response resp, fr_requests = reqs\<rparr> w)))"
  by pat_completeness auto
termination
  by (relation "measure (\<lambda>(_, _, _, rd, _). length (fr_requests rd))") auto

declare file_next.simps [simp del]

definition compat_batch_results ::
  "'w compat_provider \<Rightarrow> (string \<Rightarrow> string) \<Rightarrow> (string \<Rightarrow> string + json) \<Rightarrow>
     string \<Rightarrow> provider_cx \<Rightarrow> ('w, file_reader) awaited" where
  "compat_batch_results p lossy parse upstream_id cx w =
     (let b = cp_brand p
      in case ensure_batch b of
           Inl e \<Rightarrow> (w, Inl e)
         | Inr _ \<Rightarrow> map_prod id (\<lambda>answer. res_bind answer (\<lambda>batch.
             let ids = batch_result_file_ids batch
             in if ids = [] then Inl (Mapping ''batch has no output file yet'')
                else Inr \<lparr>fr_items = [], fr_requests = map (\<lambda>fid.
                    authed_get b cx (batch_files b cx @ ''/'' @ fid @ ''/content'' @ batch_query b cx)) ids\<rparr>))
             (fetch_batch_value p lossy parse cx upstream_id w))"

definition compat_results_next ::
  "'w compat_provider \<Rightarrow> (string \<Rightarrow> string) \<Rightarrow> (json \<Rightarrow> string) \<Rightarrow> (string \<Rightarrow> string + json) \<Rightarrow> file_reader \<Rightarrow> 'w \<Rightarrow>
     'w \<times> ((model_error + batch_result) \<times> file_reader) option" where
  "compat_results_next p lossy print parse =
     file_next (cp_http p) lossy
       (\<lambda>resp. jsonl_result_stream parse (hs_body resp) (openai_batch_result_line print))"

section \<open>Realtime\<close>

definition compat_realtime ::
  "'w compat_provider \<Rightarrow> realtime_params \<Rightarrow> provider_cx \<Rightarrow> ('w, unit) awaited" where
  "compat_realtime p params cx w =
     (let b = cp_brand p
      in if \<not> bd_realtime_native b
         then (w, Inl (Unsupported
           (''provider '' @ [CHR 0x27] @ bd_name b @ [CHR 0x27] @ '' has no native realtime transport'')))
         else case cx_credential cx of
           None \<Rightarrow> (w, Inl (Unavailable ''realtime requires a credential''))
         | Some credential \<Rightarrow>
             cp_realtime p (build_ws_url (unwrap_or (bd_default_endpoint b) (cx_endpoint cx)) (ra_model params))
               ([(''Authorization'', ''Bearer '' @ credential)] @
                (case setting_str cx ''safety_identifier'' of
                   Some sid \<Rightarrow> [(''openai-safety-identifier'', sid)] | None \<Rightarrow> [])) w)"

end
