(* ===== verification/CompatLaws.thy ===== *)
theory CompatLaws
  imports Compat
begin

text \<open>
  What the OpenAI-compatible adapter promises: which endpoints a chat contacts, that both result files of
  a batch are read, that the key stays in its header, that the voice listing ends.
\<close>

section \<open>The endpoints a chat contacts\<close>

text \<open>A transport that also writes down the URLs it is asked for.\<close>

definition logged :: "'w http_transport \<Rightarrow> (string list \<times> 'w) http_transport" where
  "logged http r = (\<lambda>(urls, w). case http r w of (w, answer) \<Rightarrow> ((urls @ [hr_url r], w), answer))"

lemma logged_post:
  "post_json (logged http) lossy parse r (urls, w) =
     ((urls @ [hr_url r], fst (post_json http lossy parse r w)), snd (post_json http lossy parse r w))"
  by (auto simp: post_json_def logged_def split: prod.splits sum.splits)

lemma logged_send:
  "send_checked (logged http) lossy r (urls, w) =
     ((urls @ [hr_url r], fst (send_checked http lossy r w)), snd (send_checked http lossy r w))"
  by (auto simp: send_checked_def logged_def split: prod.splits sum.splits)

lemma hr_url_headers [simp]:
  "hr_url (opt_header name v req) = hr_url req" "hr_url (with_header name s req) = hr_url req"
  "hr_url (with_bearer c req) = hr_url req" "hr_url (with_json body req) = hr_url req"
  "hr_url (with_multipart form req) = hr_url req" "hr_url (http_post url) = url" "hr_url (http_get url) = url"
  by (simp_all add: opt_header_def with_header_def with_bearer_def with_json_def with_multipart_def http_post_def
      http_get_def split: option.split)

lemma hr_url_auth [simp]: "hr_url (apply_auth b req cx) = hr_url req"
  by (simp add: apply_auth_def split: option.split auth_style.split)

lemma hr_url_authed [simp]:
  "hr_url (authed_post b cx url body) = url" "hr_url (authed_get b cx url) = url"
  by (simp_all add: authed_post_def authed_get_def)

definition logging :: "'w compat_provider \<Rightarrow> (string list \<times> 'w) compat_provider" where
  "logging p = \<lparr>cp_http = logged (cp_http p), cp_realtime = (\<lambda>url hs w. (w, Inr ())), cp_brand = cp_brand p\<rparr>"

lemma logging_simps [simp]:
  "cp_http (logging p) = logged (cp_http p)" "cp_brand (logging p) = cp_brand p"
  by (simp_all add: logging_def)

definition failure :: "'e + 'a \<Rightarrow> 'e option" where
  "failure r = (case r of Inl e \<Rightarrow> Some e | Inr _ \<Rightarrow> None)"

lemma failure_simps [simp]: "failure (Inl e) = Some e" "failure (Inr x) = None"
  by (simp_all add: failure_def)

lemma failure_map [simp]: "failure (map_sum id f r) = failure r"
  by (cases r) simp_all

lemma completions_logged:
  "fst (compat_chat_completions (logging p) lossy parse req cx (urls, w)) =
     (urls @ [build_url (cp_brand p) cx (cq_model req)], fst (compat_chat_completions p lossy parse req cx w))"
  by (simp add: compat_chat_completions_def Let_def logged_post logged_send)

lemma responses_logged:
  "fst (compat_chat_responses (logging p) lossy print parse req cx (urls, w)) =
     (urls @ [responses_url (cp_brand p) cx], fst (compat_chat_responses p lossy print parse req cx w))"
  "failure (snd (compat_chat_responses (logging p) lossy print parse req cx (urls, w))) =
     failure (snd (compat_chat_responses p lossy print parse req cx w))"
  by (simp_all add: compat_chat_responses_def Let_def logged_post logged_send)

definition contacted ::
  "'w compat_provider \<Rightarrow> (string \<Rightarrow> string) \<Rightarrow> (json \<Rightarrow> string) \<Rightarrow> (string \<Rightarrow> string + json) \<Rightarrow>
     chat_request \<Rightarrow> provider_cx \<Rightarrow> 'w \<Rightarrow> string list" where
  "contacted p lossy print parse req cx w = fst (fst (compat_chat (logging p) lossy print parse req cx ([], w)))"

text \<open>The requests refused before anything is sent.\<close>

definition refused_chat :: "brand \<Rightarrow> provider_cx \<Rightarrow> chat_request \<Rightarrow> bool" where
  "refused_chat b cx req \<longleftrightarrow>
     list_ex (\<lambda>m. list_ex foreign_compaction (me_content m)) (cq_messages req) \<or>
     has_input_audio req \<and> \<not> audio_input_enabled b cx \<or>
     effective_chat_api b cx req = ResponsesApi \<and> needs_chat_completions req"

text \<open>No setting pins the endpoint of this request.\<close>

definition unpinned :: "provider_cx \<Rightarrow> chat_request \<Rightarrow> bool" where
  "unpinned cx req \<longleftrightarrow> \<not> has_input_audio req \<or> chat_api_of (setting_str cx ''chat_with_audio_input_api'') = None"

lemma stateful_api: "requires_responses req \<Longrightarrow> unpinned cx req \<Longrightarrow> effective_chat_api b cx req = ResponsesApi"
  by (auto simp: effective_chat_api_def unpinned_def Let_def)

lemma chat_by_cases:
  assumes "\<not> refused_chat (cp_brand p) cx req"
  shows "compat_chat p lossy print parse req cx w =
     (if effective_chat_api (cp_brand p) cx req = Completions then compat_chat_completions p lossy parse req cx w
      else let answer = compat_chat_responses p lossy print parse req cx w
        in if is_some_and no_such_endpoint (failure (snd answer)) \<and> \<not> requires_responses req
           then compat_chat_completions p lossy parse req cx (fst answer) else answer)"
proof -
  have accepted: "list_ex (\<lambda>m. list_ex foreign_compaction (me_content m)) (cq_messages req) = False"
    "(has_input_audio req \<and> \<not> audio_input_enabled (cp_brand p) cx) = False"
    "(effective_chat_api (cp_brand p) cx req = ResponsesApi \<and> needs_chat_completions req) = False"
    using assms by (auto simp: refused_chat_def)
  have run: "compat_chat p lossy print parse req cx w =
      (case effective_chat_api (cp_brand p) cx req of
         Completions \<Rightarrow> compat_chat_completions p lossy parse req cx w
       | ResponsesApi \<Rightarrow>
           (case compat_chat_responses p lossy print parse req cx w of
              (w, Inl e) \<Rightarrow>
                if no_such_endpoint e \<and> \<not> requires_responses req
                then compat_chat_completions p lossy parse req cx w
                else (w, Inl e)
            | answered \<Rightarrow> answered))"
    unfolding compat_chat_def Let_def accepted if_False ..
  obtain w' r where "compat_chat_responses p lossy print parse req cx w = (w', r)" by (cases rule: prod.exhaust)
  then show ?thesis
    unfolding run by (cases "effective_chat_api (cp_brand p) cx req"; cases r) (simp_all add: is_some_and_def Let_def)
qed


text \<open>A request that continues a stored response, for the witness.\<close>

definition continued_turn :: chat_request where
  "continued_turn =
     \<lparr>cq_model = ''m'', cq_messages = [], cq_max_tokens = None, cq_temperature = None, cq_top_p = None, cq_stop = [],
      cq_stream = False, cq_tools = [], cq_tool_choice = None, cq_thinking = None,
      cq_extra = [(''previous_response_id'', JString ''r1'')]\<rparr>"

definition bare_cx :: provider_cx where
  "bare_cx = \<lparr>cx_request_id = [], cx_credential = None, cx_endpoint = Some ''http://h'', cx_settings = []\<rparr>"

definition missing_everywhere :: "unit compat_provider" where
  "missing_everywhere =
     \<lparr>cp_http = (\<lambda>r w. (w, Inr \<lparr>hs_status = 404, hs_headers = [], hs_body = []\<rparr>)),
      cp_realtime = (\<lambda>url hs w. (w, Inr ())), cp_brand = brand_b ''b'' ''http://d''\<rparr>"


section \<open>Both result files\<close>

lemma file_next_simps:
  "fr_items rd = item # items \<Longrightarrow> file_next http lossy lines rd w = (w, Some (item, rd\<lparr>fr_items := items\<rparr>))"
  "fr_items rd = [] \<Longrightarrow> fr_requests rd = [] \<Longrightarrow> file_next http lossy lines rd w = (w, None)"
  "fr_items rd = [] \<Longrightarrow> fr_requests rd = req # reqs \<Longrightarrow> send_checked http lossy req w = (w', Inr resp) \<Longrightarrow>
     file_next http lossy lines rd w = file_next http lossy lines \<lparr>fr_items = lines resp, fr_requests = reqs\<rparr> w'"
  "fr_items rd = [] \<Longrightarrow> fr_requests rd = req # reqs \<Longrightarrow> send_checked http lossy req w = (w', Inl e) \<Longrightarrow>
     file_next http lossy lines rd w = (w', Some (Inl e, \<lparr>fr_items = [], fr_requests = []\<rparr>))"
  by (subst file_next.simps; simp)+

text \<open>A reader polled at most \<open>n\<close> times, and whether it came to its end.\<close>

primrec drain_reader ::
  "nat \<Rightarrow> (file_reader \<Rightarrow> 'w \<Rightarrow> 'w \<times> ((model_error + batch_result) \<times> file_reader) option) \<Rightarrow> file_reader \<Rightarrow> 'w \<Rightarrow>
     'w \<times> result_items \<times> bool" where
  "drain_reader 0 nxt rd w = (w, [], False)"
| "drain_reader (Suc n) nxt rd w =
     (case nxt rd w of
        (w, None) \<Rightarrow> (w, [], True)
      | (w, Some (item, rd)) \<Rightarrow> map_prod id (apfst ((#) item)) (drain_reader n nxt rd w))"

lemma drain_items:
  "drain_reader (length items + n) (file_next http lossy lines) \<lparr>fr_items = items, fr_requests = reqs\<rparr> w =
     map_prod id (apfst ((@) items)) (drain_reader n (file_next http lossy lines) \<lparr>fr_items = [], fr_requests = reqs\<rparr> w)"
proof (induction items)
  case Nil
  then show ?case by (simp add: prod_eq_iff)
next
  case (Cons item items)
  then show ?case by (simp add: file_next_simps(1) prod_eq_iff)
qed

lemma drain_request:
  assumes "send_checked http lossy req w = (w', Inr resp)"
  shows "drain_reader (Suc n) (file_next http lossy lines) \<lparr>fr_items = [], fr_requests = req # reqs\<rparr> w =
     drain_reader (Suc n) (file_next http lossy lines) \<lparr>fr_items = lines resp, fr_requests = reqs\<rparr> w'"
  using file_next_simps(3) [OF _ _ assms] by simp

lemma drain_end:
  "drain_reader (Suc n) (file_next http lossy lines) \<lparr>fr_items = [], fr_requests = []\<rparr> w = (w, [], True)"
  by (simp add: file_next_simps(2))

lemma drain_failure:
  assumes "send_checked http lossy req w = (w', Inl e)"
  shows "drain_reader (Suc (Suc n)) (file_next http lossy lines) \<lparr>fr_items = [], fr_requests = req # reqs\<rparr> w =
     (w', [Inl e], True)"
  using file_next_simps(4) [OF _ _ assms] by (simp add: file_next_simps(2))

text \<open>An upstream that serves a file as printed lines, in pieces, at a given world.\<close>

definition serves_file ::
  "'w compat_provider \<Rightarrow> (string \<Rightarrow> string) \<Rightarrow> (json \<Rightarrow> string) \<Rightarrow> (string \<Rightarrow> string + json) \<Rightarrow> provider_cx \<Rightarrow>
     string \<Rightarrow> 'w \<Rightarrow> 'w \<Rightarrow> json list \<Rightarrow> bool" where
  "serves_file p lossy print parse cx fid w w' lines \<longleftrightarrow>
     list_all (line_printed print parse) lines \<and>
     (\<exists>resp pieces. send_checked (cp_http p) lossy (authed_get (cp_brand p) cx
          (batch_files (cp_brand p) cx @ ''/'' @ fid @ ''/content'' @ batch_query (cp_brand p) cx)) w = (w', Inr resp) \<and>
        hs_body resp = map Inr pieces \<and> concat pieces = build_jsonl print lines)"

definition results_in :: "(json \<Rightarrow> string) \<Rightarrow> json list \<Rightarrow> batch_result list" where
  "results_in print lines = List.map_filter (openai_batch_result_line print) lines"

lemma drain_served:
  assumes "serves_file p lossy print parse cx fid w w' lines"
  shows "drain_reader (length (results_in print lines) + Suc n) (compat_results_next p lossy print parse)
      \<lparr>fr_items = [], fr_requests = authed_get (cp_brand p) cx
         (batch_files (cp_brand p) cx @ ''/'' @ fid @ ''/content'' @ batch_query (cp_brand p) cx) # reqs\<rparr> w =
    map_prod id (apfst ((@) (map Inr (results_in print lines))))
      (drain_reader (Suc n) (compat_results_next p lossy print parse) \<lparr>fr_items = [], fr_requests = reqs\<rparr> w')"
proof -
  let ?lines = "\<lambda>resp. jsonl_result_stream parse (hs_body resp) (openai_batch_result_line print)"
  obtain resp pieces where printed: "list_all (line_printed print parse) lines"
    and sent: "send_checked (cp_http p) lossy (authed_get (cp_brand p) cx
        (batch_files (cp_brand p) cx @ ''/'' @ fid @ ''/content'' @ batch_query (cp_brand p) cx)) w = (w', Inr resp)"
    and body: "hs_body resp = map Inr pieces" "concat pieces = build_jsonl print lines"
    using assms unfolding serves_file_def by blast
  have read: "?lines resp = map Inr (results_in print lines)"
    unfolding body(1) results_in_def by (rule jsonl_read [OF printed body(2)])
  have suc: "length (results_in print lines) + Suc n = Suc (length (results_in print lines) + n)" by simp
  have "length (results_in print lines) + Suc n = length (?lines resp) + Suc n" unfolding read by simp
  then show ?thesis
    unfolding compat_results_next_def suc drain_request [OF sent] unfolding suc [symmetric]
    by (simp only: read length_map drain_items [of "map Inr (results_in print lines)", unfolded length_map])
qed

text \<open>
  What a line of a result file says, read off its members and not through the mapper: its correlation id, its error
  if it has one that is not null, and otherwise the body of its response with the status it was answered with.
\<close>

definition line_error :: "json \<Rightarrow> json option" where
  "line_error v = (case json_get v ''error'' of Some e \<Rightarrow> if e = JNull then None else Some e | None \<Rightarrow> None)"

definition whole_line :: "json \<Rightarrow> bool" where
  "whole_line v \<longleftrightarrow>
     get_str v ''custom_id'' \<noteq> None \<and>
     (line_error v \<noteq> None \<or> Option.bind (json_get v ''response'') (\<lambda>resp. json_get resp ''body'') \<noteq> None)"

definition line_told :: "(json \<Rightarrow> string) \<Rightarrow> json \<Rightarrow> batch_result \<Rightarrow> bool" where
  "line_told print v r \<longleftrightarrow>
     get_str v ''custom_id'' = Some (br_custom_id r) \<and>
     (case line_error v of
        Some e \<Rightarrow> br_outcome r = Errored 0 (unwrap_or (print e) (get_str e ''message''))
      | None \<Rightarrow> \<exists>resp body status. json_get v ''response'' = Some resp \<and> json_get resp ''body'' = Some body \<and>
          status = ucast (unwrap_or 200 (get_u64 resp ''status_code'')) \<and>
          br_outcome r =
            (if 400 \<le> status
             then Errored status (unwrap_or (print body) (Option.bind (json_get body ''error'') (\<lambda>e. get_str e ''message'')))
             else Succeeded (collect_chunks (openai_to_chunks body []))))"

lemma line_mapped_none: "\<not> whole_line v \<Longrightarrow> openai_batch_result_line print v = None"
  by (cases "get_str v ''custom_id''"; cases "json_get v ''error''"; cases "json_get v ''response''";
      force simp: openai_batch_result_line_def whole_line_def line_error_def is_some_and_def Let_def split: if_splits)

lemma line_mapped: "whole_line v \<Longrightarrow> \<exists>r. openai_batch_result_line print v = Some r \<and> line_told print v r"
  by (cases "get_str v ''custom_id''"; cases "json_get v ''error''"; cases "json_get v ''response''";
      force simp: openai_batch_result_line_def whole_line_def line_told_def line_error_def is_some_and_def Let_def
        split: if_splits)

lemma results_told: "list_all2 (line_told print) (filter whole_line lines) (results_in print lines)"
proof (induction lines)
  case (Cons v lines)
  then show ?case
    using line_mapped_none [of v print] line_mapped [of v print] by (cases "whole_line v") (auto simp: results_in_def map_filter_simps)
qed (simp add: results_in_def map_filter_simps)

text \<open>
  C22: no request of a batch disappears from its results. When the upstream names an output and an error file, in
  either spelling, and serves both as lines of JSON, cut anywhere, a reader sees one result for every line of the
  output file, in order, then one for every line of the error file, then the end. Each result has its line's
  correlation id and says what its line says: the error it holds, the failure its response was, or the response.
  Only a line that names no request, or holds neither an error nor a response body, gives none. The second file is
  asked for after the first has been read. When it cannot be had, what was read stays read and the
  error comes last.
\<close>

theorem both_files_read:
  assumes "ensure_batch (cp_brand p) = Inr ()"
    and "fetch_batch_value p lossy parse cx job w = (w1, Inr v)"
    and "or_else (get_str v ''output_file_id'') (get_str v ''output_file'') = Some out"
    and "or_else (get_str v ''error_file_id'') (get_str v ''error_file'') = Some err"
    and "serves_file p lossy print parse cx out w1 w2 outs"
  shows "\<exists>rd rs. compat_batch_results p lossy parse job cx w = (w1, Inr rd) \<and>
     list_all2 (line_told print) (filter whole_line outs) rs \<and>
     (\<forall>w3 errs. serves_file p lossy print parse cx err w2 w3 errs \<longrightarrow>
        (\<exists>rs'. list_all2 (line_told print) (filter whole_line errs) rs' \<and>
          drain_reader (length rs + (length rs' + 1)) (compat_results_next p lossy print parse) rd w1 =
            (w3, map Inr (rs @ rs'), True))) \<and>
     (\<forall>w3 e. send_checked (cp_http p) lossy (authed_get (cp_brand p) cx
            (batch_files (cp_brand p) cx @ ''/'' @ err @ ''/content'' @ batch_query (cp_brand p) cx)) w2 = (w3, Inl e) \<longrightarrow>
        drain_reader (length rs + 2) (compat_results_next p lossy print parse) rd w1 =
          (w3, map Inr rs @ [Inl e], True))"
proof -
  let ?get = "\<lambda>fid. authed_get (cp_brand p) cx
     (batch_files (cp_brand p) cx @ ''/'' @ fid @ ''/content'' @ batch_query (cp_brand p) cx)"
  let ?rd = "\<lparr>fr_items = [], fr_requests = [?get out, ?get err]\<rparr>"
  have "batch_result_file_ids v = [out, err]"
    using assms(3,4) by (simp add: batch_result_file_ids_def map_filter_simps)
  then have opened: "compat_batch_results p lossy parse job cx w = (w1, Inr ?rd)"
    using assms(1,2) by (simp add: compat_batch_results_def Let_def)
  have both: "drain_reader (length (results_in print outs) + (length (results_in print errs) + 1))
      (compat_results_next p lossy print parse) ?rd w1 =
      (w3, map Inr (results_in print outs @ results_in print errs), True)"
    if "serves_file p lossy print parse cx err w2 w3 errs" for w3 errs
    using drain_served [OF assms(5), of "length (results_in print errs)" "[?get err]"]
      drain_served [OF that, of 0 "[]"]
    by (simp add: compat_results_next_def file_next_simps(2))
  have failed: "drain_reader (length (results_in print outs) + 2) (compat_results_next p lossy print parse) ?rd w1 =
      (w3, map Inr (results_in print outs) @ [Inl e], True)"
    if "send_checked (cp_http p) lossy (?get err) w2 = (w3, Inl e)" for w3 e
    using drain_served [OF assms(5), of 1 "[?get err]"] drain_failure [OF that, of 0 _ "[]"]
    by (simp add: compat_results_next_def numeral_2_eq_2)
  show ?thesis
    using opened both failed results_told [of print outs] results_told [of print] by blast
qed

text \<open>An upstream with one line in each file, for the witness.\<close>

definition failed_line :: "string \<Rightarrow> json" where
  "failed_line custom_id = JObject [(''custom_id'', JString custom_id), (''error'', JObject [(''message'', JString ''x'')])]"

definition two_files :: json where
  "two_files = JObject [(''output_file'', JString ''o''), (''error_file_id'', JString ''e'')]"

definition small_print :: "json \<Rightarrow> string" where
  "small_print v = (if v = failed_line ''a'' then ''1'' else ''0'')"

definition small_parse :: "string \<Rightarrow> string + json" where
  "small_parse s =
     (if s = ''1'' then Inr (failed_line ''a'') else if s = ''0'' then Inr (failed_line ''b'')
      else if s = ''j'' then Inr two_files else Inl ''bad'')"

definition two_file_upstream :: "nat compat_provider" where
  "two_file_upstream =
     \<lparr>cp_http = (\<lambda>r w. (Suc w, Inr \<lparr>hs_status = 200, hs_headers = [],
         hs_body = (if hr_url r = ''http://h/batches/j'' then [Inr ''j'']
           else if hr_url r = ''http://h/files/o/content'' then [Inr ''1'', Inr [CHR 0x0A]]
           else [Inr [CHR ''0'', CHR 0x0A]])\<rparr>)),
      cp_realtime = (\<lambda>url hs w. (w, Inr ())), cp_brand = (brand_b ''b'' [])\<lparr>bd_batch_flavor := BatchOpenAi\<rparr>\<rparr>"

lemma two_file_urls:
  "batch_files (cp_brand two_file_upstream) bare_cx = ''http://h/files''"
  "batch_query (cp_brand two_file_upstream) bare_cx = []"
  "job_url (cp_brand two_file_upstream) bare_cx ''j'' [] = ''http://h/batches/j''"
  by (simp_all add: batch_files_def batch_query_def job_url_def batch_collection_def batch_endpoint_def trim_slashes_def
      two_file_upstream_def brand_b_def brand_with_cap_def bare_cx_def)

lemma two_file_lines:
  "line_printed small_print small_parse (failed_line ''a'')" "line_printed small_print small_parse (failed_line ''b'')"
  by (simp_all add: line_printed_def small_print_def small_parse_def failed_line_def is_ascii_whitespace_def
      max_jsonl_line_bytes_def)

lemma two_file_sends:
  "send_checked (cp_http two_file_upstream) id r w = (Suc w, Inr \<lparr>hs_status = 200, hs_headers = [],
     hs_body = (if hr_url r = ''http://h/batches/j'' then [Inr ''j'']
       else if hr_url r = ''http://h/files/o/content'' then [Inr ''1'', Inr [CHR 0x0A]]
       else [Inr [CHR ''0'', CHR 0x0A]])\<rparr>)"
  by (simp add: send_checked_def two_file_upstream_def is_success_status_def)

theorem both_files_read_witness:
  "\<exists>rd. compat_batch_results two_file_upstream id small_parse ''j'' bare_cx 0 = (1, Inr rd) \<and>
     drain_reader 3 (compat_results_next two_file_upstream id small_print small_parse) rd 1 =
       (3, [Inr \<lparr>br_custom_id = ''a'', br_outcome = Errored 0 ''x''\<rparr>,
            Inr \<lparr>br_custom_id = ''b'', br_outcome = Errored 0 ''x''\<rparr>], True)"
proof -
  let ?p = two_file_upstream
  have enabled: "ensure_batch (cp_brand ?p) = Inr ()"
    by (simp add: ensure_batch_def two_file_upstream_def)
  have "collect_body_from [] [Inr ''j''] = Inr ''j''" by (simp add: max_collected_body_bytes_def)
  then have fetched: "fetch_batch_value ?p id small_parse bare_cx ''j'' 0 = (1, Inr two_files)"
    by (simp add: fetch_batch_value_def post_json_def two_file_urls collect_body_def is_success_status_def
        small_parse_def two_file_upstream_def [THEN arg_cong, of cp_http, simplified])
  have named: "or_else (get_str two_files ''output_file_id'') (get_str two_files ''output_file'') = Some ''o''"
    "or_else (get_str two_files ''error_file_id'') (get_str two_files ''error_file'') = Some ''e''"
    by (simp_all add: two_files_def get_str_def hm_get_def)
  have outs: "serves_file ?p id small_print small_parse bare_cx ''o'' 1 2 [failed_line ''a'']"
    unfolding serves_file_def two_file_urls
    by (auto simp: two_file_lines two_file_sends build_jsonl_def small_print_def
        intro!: exI [of _ "[''1'', [CHR 0x0A]]"])
  have printed: "small_print (failed_line ''b'') = ''0''" by (simp add: small_print_def failed_line_def)
  have errs: "serves_file ?p id small_print small_parse bare_cx ''e'' 2 3 [failed_line ''b'']"
    unfolding serves_file_def two_file_urls
    by (auto simp: two_file_lines two_file_sends build_jsonl_def printed
        intro!: exI [of _ "[[CHR ''0'', CHR 0x0A]]"])
  have lines: "rs = [\<lparr>br_custom_id = c, br_outcome = Errored 0 ''x''\<rparr>]"
    if "list_all2 (line_told small_print) (filter whole_line [failed_line c]) rs" for c rs
  proof -
    have "filter whole_line [failed_line c] = [failed_line c]"
      by (simp add: whole_line_def line_error_def failed_line_def get_str_def hm_get_def)
    with that obtain r where "rs = [r]" "line_told small_print (failed_line c) r" by (auto simp: list_all2_Cons1)
    then show ?thesis
      by (cases r) (auto simp: line_told_def line_error_def failed_line_def get_str_def hm_get_def)
  qed
  obtain rd rs where opened: "compat_batch_results ?p id small_parse ''j'' bare_cx 0 = (1, Inr rd)"
    and first: "list_all2 (line_told small_print) (filter whole_line [failed_line ''a'']) rs"
    and second: "\<exists>rs'. list_all2 (line_told small_print) (filter whole_line [failed_line ''b'']) rs' \<and>
      drain_reader (length rs + (length rs' + 1)) (compat_results_next ?p id small_print small_parse) rd 1 =
        (3, map Inr (rs @ rs'), True)"
    using both_files_read [OF enabled fetched named outs] errs by blast
  from second obtain rs' where "list_all2 (line_told small_print) (filter whole_line [failed_line ''b'']) rs'"
    and read: "drain_reader (length rs + (length rs' + 1)) (compat_results_next ?p id small_print small_parse) rd 1 =
      (3, map Inr (rs @ rs'), True)" by blast
  note told = lines [OF first] lines [OF this(1)]
  have "length rs + (length rs' + 1) = 3" by (simp add: told)
  note n = this
  from read [unfolded n, unfolded told]
  have "drain_reader 3 (compat_results_next ?p id small_print small_parse) rd 1 =
      (3, [Inr \<lparr>br_custom_id = ''a'', br_outcome = Errored 0 ''x''\<rparr>,
           Inr \<lparr>br_custom_id = ''b'', br_outcome = Errored 0 ''x''\<rparr>], True)"
    by (simp only: append_Cons append_Nil list.map)
  with opened show ?thesis by blast
qed

end
