(* ===== verification/CompatKeys.thy ===== *)
theory CompatKeys
  imports CompatLaws
begin

text \<open>
  The key of an OpenAI-compatible provider, and the voice listing of the one brand that pages through it.
\<close>

section \<open>The voice listing\<close>

lemma unseen_fresh:
  "distinct (map vi_id (unseen seen vs)) \<and> set (map vi_id (unseen seen vs)) \<inter> set seen = {}"
proof (induction vs arbitrary: seen)
  case (Cons v vs)
  from Cons [of "vi_id v # seen"] Cons [of seen] show ?case by auto
qed simp

lemma fetch_pages_spec:
  assumes "distinct (map vi_id voices)"
  shows "length (fst (fst (fetch_pages n (logged http) lossy parse request base voices offset (urls, w)))) \<le> length urls + n \<and>
    (\<forall>all. snd (fetch_pages n (logged http) lossy parse request base voices offset (urls, w)) = Inr all \<longrightarrow>
       distinct (map vi_id all))"
  using assms
proof (induction n arbitrary: voices offset urls w)
  case 0
  then show ?case by simp
next
  case (Suc n)
  let ?r = "request (page_url base offset)"
  obtain w' r where answer: "post_json http lossy parse ?r w = (w', r)" by (cases rule: prod.exhaust)
  then have logged: "post_json (logged http) lossy parse ?r (urls, w) = ((urls @ [hr_url ?r], w'), r)"
    by (simp add: logged_post)
  show ?case
  proof (cases r)
    case (Inl e)
    with logged show ?thesis by simp
  next
    case (Inr v)
    let ?fetched = "case get_array v ''items'' of Some items \<Rightarrow> of_nat (length items) | None \<Rightarrow> (0 :: u64)"
    let ?fresh = "unseen (map vi_id voices) (mistral_voices_to_canonical v)"
    let ?stop = "?fetched = 0 \<or> ?fresh = [] \<or> is_none_or (\<lambda>t. t \<le> offset + ?fetched) (get_u64 v ''total'')"
    have distinct: "distinct (map vi_id (voices @ ?fresh))"
      using Suc.prems unseen_fresh [of "map vi_id voices" "mistral_voices_to_canonical v"] by auto
    have step: "fetch_pages (Suc n) (logged http) lossy parse request base voices offset (urls, w) =
        (if ?stop then ((urls @ [hr_url ?r], w'), Inr (voices @ ?fresh))
         else fetch_pages n (logged http) lossy parse request base (voices @ ?fresh) (offset + ?fetched)
           (urls @ [hr_url ?r], w'))"
      unfolding fetch_pages.simps logged Inr by (simp only: prod.case sum.case Let_def)
    show ?thesis
    proof (cases ?stop)
      case True
      then show ?thesis unfolding step by (simp only: if_True fst_conv snd_conv) (use distinct in simp)
    next
      case False
      then show ?thesis
        unfolding step using Suc.IH [OF distinct, of "offset + ?fetched" "urls @ [hr_url ?r]" w']
        by (simp only: if_False) simp
    qed
  qed
qed

text \<open>
  the paged voice listing ends whatever the upstream answers, also one that ignores the offset or reports a
  total it never reaches: at most twenty pages are asked for. What it returns names each voice once.
\<close>

theorem voice_listing_bounded:
  "length (fst (fst (fetch_voices (logging p) lossy parse cx ([], w)))) \<le> 20 \<and>
   (case snd (fetch_voices (logging p) lossy parse cx ([], w)) of
      Inl e \<Rightarrow> True | Inr voices \<Rightarrow> distinct (map vi_id voices))"
  using fetch_pages_spec [of "[]" page_cap "cp_http p" lossy parse "authed_get (cp_brand p) cx"
      "url_for (cp_brand p) cx [] ''audio/voices''" 0 "[]" w]
  by (simp add: fetch_voices_def page_cap_def split: sum.split)

section \<open>The key\<close>

definition hides_key :: "brand \<Rightarrow> bool" where
  "hides_key b \<longleftrightarrow> (case bd_auth b of Bearer \<Rightarrow> True | ApiKeyHeader h \<Rightarrow> is_credential_header h)"

lemma rows_hide_key: "list_all (\<lambda>(_, b). hides_key b) brand_rows"
proof -
  have "is_credential_header ''api-key''" by code_simp
  then show ?thesis by (simp add: brand_rows_def brand_rows_1_def brand_rows_2_def hides_key_def brand_b_def brand_bc_def brand_with_cap_def azure_brand_def)
qed

lemma find_member: "List.find P xs = Some x \<Longrightarrow> x \<in> set xs"
  by (induction xs) (auto split: if_splits)

lemma for_kind_hides_key: "for_kind kind = Some b \<Longrightarrow> hides_key b"
proof -
  assume "for_kind kind = Some b"
  then obtain names where "List.find (\<lambda>(names, _). kind \<in> set names) brand_rows = Some (names, b)"
    by (auto simp: for_kind_def)
  from find_member [OF this] rows_hide_key show "hides_key b" by (auto simp: list_all_iff)
qed

lemma authorization_hidden: "is_credential_header ''Authorization''"
  by code_simp

lemma shown_opt_header: "shown req = shown req' \<Longrightarrow> shown (opt_header name v req) = shown (opt_header name v req')"
  using shown_with_header [of req req' name] by (cases v) (simp_all add: opt_header_def)

lemma with_key_parts [simp]:
  "cx_credential (with_key c cx) = Some c" "cx_endpoint (with_key c cx) = cx_endpoint cx"
  "cx_settings (with_key c cx) = cx_settings cx" "setting_str (with_key c cx) = setting_str cx"
  "use_upstream_streaming (with_key c cx) = use_upstream_streaming cx"
  by (simp_all add: with_key_def fun_eq_iff setting_str_def use_upstream_streaming_def)

lemma shown_apply_auth:
  assumes "hides_key b"
  shows "shown (apply_auth b req (with_key c cx)) = shown (apply_auth b req (with_key d cx))"
proof -
  have "shown (with_header h v req) = shown (with_header h v' req)" if "is_credential_header h" for h v v'
    using that by (simp add: shown_def debug_headers_def with_header_def)
  then show ?thesis
    using assms authorization_hidden unfolding apply_auth_def Let_def with_key_parts
    by (intro shown_opt_header) (auto simp: hides_key_def with_bearer_def split: auth_style.split)
qed

lemma with_key_urls [simp]:
  "batch_endpoint b (with_key c cx) = batch_endpoint b cx"
  "brand_api_version b (with_key c cx) = brand_api_version b cx"
  "decisions_url b (with_key c cx) = decisions_url b cx"
  "responses_url b (with_key c cx) = responses_url b cx"
  "setting_bool (with_key c cx) = setting_bool cx"
  unfolding fun_eq_iff batch_endpoint_def brand_api_version_def decisions_url_def responses_url_def setting_bool_def
    with_key_parts by (rule refl | intro allI refl)+

lemma with_key_choices [simp]:
  "url_for b (with_key c cx) = url_for b cx"
  "models_url b (with_key c cx) = models_url b cx"
  "effective_chat_api b (with_key c cx) = effective_chat_api b cx"
  "rerank_enabled b (with_key c cx) = rerank_enabled b cx"
  "audio_input_enabled b (with_key c cx) = audio_input_enabled b cx"
  "mark_compaction_support b (with_key c cx) = mark_compaction_support b cx"
  "declared_voices (with_key c cx) = declared_voices cx"
  "batch_query b (with_key c cx) = batch_query b cx"
  "batch_collection b (with_key c cx) = batch_collection b cx"
  "batch_files b (with_key c cx) = batch_files b cx"
  "batch_chat_path b (with_key c cx) = batch_chat_path b cx"
  unfolding fun_eq_iff url_for_def models_url_def effective_chat_api_def rerank_enabled_def audio_input_enabled_def
    mark_compaction_support_def compat_supports_compaction_def declared_voices_def batch_query_def
    batch_collection_def batch_files_def batch_chat_path_def with_key_parts with_key_urls
  by (rule refl | intro allI refl)+

lemma with_key_bodies [simp]:
  "build_url b (with_key c cx) = build_url b cx"
  "compat_batch_line b (with_key c cx) = compat_batch_line b cx"
  "create_body b (with_key c cx) = create_body b cx"
  "job_url b (with_key c cx) = job_url b cx"
  unfolding fun_eq_iff build_url_def compat_batch_line_def create_body_def job_url_def with_key_choices
  by (rule refl | intro allI refl)+

text \<open>Requests that are alike to everyone who does not see the key.\<close>

lemma shown_authed:
  assumes "hides_key b"
  shows "shown (authed_post b (with_key c cx) url body) = shown (authed_post b (with_key d cx) url body)"
    and "shown (authed_get b (with_key c cx) url) = shown (authed_get b (with_key d cx) url)"
  by (simp_all add: authed_post_def authed_get_def shown_apply_auth [OF assms, of _ c cx d])

lemma fetch_pages_alike:
  assumes "key_blind http" "\<And>url. shown (request url) = shown (request' url)"
  shows "fetch_pages n http lossy parse request base voices offset w =
    fetch_pages n http lossy parse request' base voices offset w"
proof (induction n arbitrary: voices offset w)
  case (Suc n)
  show ?case
    unfolding fetch_pages.simps key_blind_calls(1) [OF assms] Suc.IH ..
qed simp

text \<open>Readers that differ in what is not shown of their requests.\<close>

definition readers_alike :: "file_reader \<Rightarrow> file_reader \<Rightarrow> bool" where
  "readers_alike rd rd' \<longleftrightarrow> fr_items rd = fr_items rd' \<and> map shown (fr_requests rd) = map shown (fr_requests rd')"

lemma file_next_alike:
  assumes "key_blind http" "map shown reqs = map shown reqs'"
  shows "fst (file_next http lossy lines \<lparr>fr_items = items, fr_requests = reqs\<rparr> w) =
      fst (file_next http lossy lines \<lparr>fr_items = items, fr_requests = reqs'\<rparr> w) \<and>
    rel_option (rel_prod (=) readers_alike)
      (snd (file_next http lossy lines \<lparr>fr_items = items, fr_requests = reqs\<rparr> w))
      (snd (file_next http lossy lines \<lparr>fr_items = items, fr_requests = reqs'\<rparr> w))"
  using assms(2)
proof (induction reqs arbitrary: reqs' items w)
  case Nil
  then show ?case by (cases items) (simp_all add: file_next_simps(1,2) readers_alike_def)
next
  case (Cons req reqs)
  then obtain req' rest where reqs': "reqs' = req' # rest" "shown req = shown req'" "map shown reqs = map shown rest"
    by (cases reqs') auto
  show ?case
  proof (cases items)
    case (Cons item rest_items)
    then show ?thesis using Cons.prems by (simp add: file_next_simps(1) readers_alike_def)
  next
    case Nil
    obtain w' r where sent: "send_checked http lossy req w = (w', r)" by (cases rule: prod.exhaust)
    then have sent': "send_checked http lossy req' w = (w', r)"
      using key_blind_calls(2) [OF assms(1) reqs'(2)] by simp
    show ?thesis
    proof (cases r)
      case (Inl e)
      show ?thesis
        using file_next_simps(4) [OF _ _ sent [unfolded Inl], of "\<lparr>fr_items = items, fr_requests = req # reqs\<rparr>" reqs lines]
          file_next_simps(4) [OF _ _ sent' [unfolded Inl], of "\<lparr>fr_items = items, fr_requests = reqs'\<rparr>" rest lines]
        by (simp add: Nil reqs'(1) readers_alike_def)
    next
      case (Inr resp)
      show ?thesis
        using file_next_simps(3) [OF _ _ sent [unfolded Inr], of "\<lparr>fr_items = items, fr_requests = req # reqs\<rparr>" reqs lines]
          file_next_simps(3) [OF _ _ sent' [unfolded Inr], of "\<lparr>fr_items = items, fr_requests = reqs'\<rparr>" rest lines]
          Cons.IH [OF reqs'(3), of "lines resp" w']
        by (simp add: Nil reqs'(1))
    qed
  qed
qed

lemma drain_alike:
  assumes "key_blind http" "readers_alike rd rd'"
  shows "drain_reader n (file_next http lossy lines) rd w = drain_reader n (file_next http lossy lines) rd' w"
  using assms(2)
proof (induction n arbitrary: rd rd' w)
  case (Suc n)
  have same: "rd = \<lparr>fr_items = fr_items rd, fr_requests = fr_requests rd\<rparr>"
    "rd' = \<lparr>fr_items = fr_items rd, fr_requests = fr_requests rd'\<rparr>"
    using Suc.prems by (simp_all add: readers_alike_def)
  have "fst (file_next http lossy lines rd w) = fst (file_next http lossy lines rd' w) \<and>
      rel_option (rel_prod (=) readers_alike)
        (snd (file_next http lossy lines rd w)) (snd (file_next http lossy lines rd' w))"
    using file_next_alike [OF assms(1), of "fr_requests rd" "fr_requests rd'" lossy lines "fr_items rd" w] Suc.prems
    unfolding same [symmetric] by (simp add: readers_alike_def)
  then show ?case
    using Suc.IH
    by (cases "file_next http lossy lines rd w"; cases "file_next http lossy lines rd' w")
      (auto simp: rel_option_iff rel_prod_conv split: option.splits prod.splits)
qed simp

text \<open>A results stream opened and read, at most \<open>n\<close> items of it.\<close>

definition read_results ::
  "nat \<Rightarrow> 'w compat_provider \<Rightarrow> (string \<Rightarrow> string) \<Rightarrow> (json \<Rightarrow> string) \<Rightarrow> (string \<Rightarrow> string + json) \<Rightarrow>
     string \<Rightarrow> provider_cx \<Rightarrow> 'w \<Rightarrow> 'w \<times> result_items \<times> bool" where
  "read_results n p lossy print parse job cx w =
     (case compat_batch_results p lossy parse job cx w of
        (w, Inl e) \<Rightarrow> (w, [Inl e], True)
      | (w, Inr rd) \<Rightarrow> drain_reader n (compat_results_next p lossy print parse) rd w)"

lemma chat_alike:
  assumes "key_blind (cp_http p)" "hides_key (cp_brand p)"
  shows "compat_chat p lossy print parse req (with_key c cx) w = compat_chat p lossy print parse req (with_key d cx) w"
proof -
  note shown = shown_authed(1) [OF assms(2), of c cx _ _ d]
  note calls = key_blind_calls(1) [OF assms(1) shown] key_blind_calls(2) [OF assms(1) shown]
  have whole: "compat_chat_completions p lossy parse req (with_key c cx) w =
      compat_chat_completions p lossy parse req (with_key d cx) w"
    "compat_chat_responses p lossy print parse req (with_key c cx) w =
      compat_chat_responses p lossy print parse req (with_key d cx) w" for w
    unfolding compat_chat_completions_def compat_chat_responses_def Let_def with_key_parts with_key_urls
      with_key_choices with_key_bodies calls by (rule refl)+
  show ?thesis unfolding compat_chat_def Let_def with_key_choices whole ..
qed

lemma batches_alike:
  assumes "key_blind (cp_http p)" "hides_key (cp_brand p)"
  shows "compat_batch_create p lossy print parse spec (with_key c cx) w =
      compat_batch_create p lossy print parse spec (with_key d cx) w"
    and "compat_batch_retrieve p lossy parse job (with_key c cx) w = compat_batch_retrieve p lossy parse job (with_key d cx) w"
    and "compat_batch_cancel p lossy parse job (with_key c cx) w = compat_batch_cancel p lossy parse job (with_key d cx) w"
    and "read_results n p lossy print parse job (with_key c cx) w = read_results n p lossy print parse job (with_key d cx) w"
proof -
  note posted = key_blind_calls(1) [OF assms(1) shown_authed(1) [OF assms(2), of c cx _ _ d]]
    key_blind_calls(1) [OF assms(1) shown_authed(2) [OF assms(2), of c cx _ d]]
    key_blind_calls(1) [OF assms(1) shown_apply_auth [OF assms(2), of _ c cx d]]
  show "compat_batch_create p lossy print parse spec (with_key c cx) w =
      compat_batch_create p lossy print parse spec (with_key d cx) w"
    unfolding compat_batch_create_def upload_batch_file_def Let_def with_key_urls with_key_choices with_key_bodies posted ..
  have fetched: "fetch_batch_value p lossy parse (with_key c cx) job w = fetch_batch_value p lossy parse (with_key d cx) job w"
    unfolding fetch_batch_value_def with_key_bodies posted ..
  show "compat_batch_retrieve p lossy parse job (with_key c cx) w = compat_batch_retrieve p lossy parse job (with_key d cx) w"
    unfolding compat_batch_retrieve_def fetched ..
  show "compat_batch_cancel p lossy parse job (with_key c cx) w = compat_batch_cancel p lossy parse job (with_key d cx) w"
    unfolding compat_batch_cancel_def Let_def with_key_bodies posted ..
  obtain w' r where answer: "fetch_batch_value p lossy parse (with_key d cx) job w = (w', r)" by (cases rule: prod.exhaust)
  have alike: "readers_alike
      \<lparr>fr_items = [], fr_requests = map (\<lambda>fid. authed_get (cp_brand p) (with_key c cx) (f fid)) ids\<rparr>
      \<lparr>fr_items = [], fr_requests = map (\<lambda>fid. authed_get (cp_brand p) (with_key d cx) (f fid)) ids\<rparr>" for f ids
    by (simp add: readers_alike_def shown_authed(2) [OF assms(2), of c cx _ d])
  show "read_results n p lossy print parse job (with_key c cx) w = read_results n p lossy print parse job (with_key d cx) w"
  proof (cases "ensure_batch (cp_brand p)")
    case (Inl e)
    then show ?thesis by (simp add: read_results_def compat_batch_results_def Let_def)
  next
    case (Inr u)
    show ?thesis
      by (cases r) (simp_all add: read_results_def compat_batch_results_def Let_def Inr fetched answer
          compat_results_next_def drain_alike [OF assms(1) alike])
  qed
qed

text \<open>
  C23: the key of any provider of the family goes nowhere but into its header. Two instances of any kind of the table
  that differ in their keys alone are the same to a transport that sees no credential header: chat over
  both endpoints, every modality, the catalogs, all four batch operations with the result files read.
\<close>

theorem compat_key_confined:
  assumes "key_blind http" "compat_for_kind kind http realtime = Some p"
  shows "compat_chat p lossy print parse req (with_key c cx) w = compat_chat p lossy print parse req (with_key d cx) w \<and>
    compat_embed p lossy parse ereq (with_key c cx) w = compat_embed p lossy parse ereq (with_key d cx) w \<and>
    compat_rerank p lossy parse rreq (with_key c cx) w = compat_rerank p lossy parse rreq (with_key d cx) w \<and>
    compat_decisions p lossy parse dreq (with_key c cx) w = compat_decisions p lossy parse dreq (with_key d cx) w \<and>
    compat_speech p lossy parse b64 sreq (with_key c cx) w = compat_speech p lossy parse b64 sreq (with_key d cx) w \<and>
    compat_voices p lossy parse model (with_key c cx) w = compat_voices p lossy parse model (with_key d cx) w \<and>
    compat_models p lossy parse (with_key c cx) w = compat_models p lossy parse (with_key d cx) w \<and>
    compat_transcribe p lossy parse show_f32 treq (with_key c cx) w =
      compat_transcribe p lossy parse show_f32 treq (with_key d cx) w \<and>
    compat_batch_create p lossy print parse spec (with_key c cx) w =
      compat_batch_create p lossy print parse spec (with_key d cx) w \<and>
    compat_batch_retrieve p lossy parse job (with_key c cx) w = compat_batch_retrieve p lossy parse job (with_key d cx) w \<and>
    compat_batch_cancel p lossy parse job (with_key c cx) w = compat_batch_cancel p lossy parse job (with_key d cx) w \<and>
    read_results n p lossy print parse job (with_key c cx) w = read_results n p lossy print parse job (with_key d cx) w"
proof -
  have blind: "key_blind (cp_http p)" and hides: "hides_key (cp_brand p)"
    using assms for_kind_hides_key [of kind] by (auto simp: compat_for_kind_def)
  note post = shown_authed(1) [OF hides, of c cx _ _ d]
  note fetch = shown_authed(2) [OF hides, of c cx _ d]
  note upload = shown_apply_auth [OF hides, of _ c cx d]
  note calls = key_blind_calls [OF blind post] key_blind_calls [OF blind fetch] key_blind_calls [OF blind upload]
  have "compat_embed p lossy parse ereq (with_key c cx) w = compat_embed p lossy parse ereq (with_key d cx) w"
    unfolding compat_embed_def Let_def with_key_choices calls ..
  moreover have "compat_rerank p lossy parse rreq (with_key c cx) w = compat_rerank p lossy parse rreq (with_key d cx) w"
    unfolding compat_rerank_def Let_def with_key_choices calls ..
  moreover have "compat_decisions p lossy parse dreq (with_key c cx) w = compat_decisions p lossy parse dreq (with_key d cx) w"
    unfolding compat_decisions_def Let_def with_key_urls calls ..
  moreover have "compat_speech p lossy parse b64 sreq (with_key c cx) w = compat_speech p lossy parse b64 sreq (with_key d cx) w"
    unfolding compat_speech_def Let_def with_key_choices calls ..
  moreover
  have "fetch_voices p lossy parse (with_key c cx) w = fetch_voices p lossy parse (with_key d cx) w"
    unfolding fetch_voices_def with_key_choices by (rule fetch_pages_alike [OF blind fetch])
  note listed = this
  have "compat_voices p lossy parse model (with_key c cx) w = compat_voices p lossy parse model (with_key d cx) w"
    unfolding compat_voices_def Let_def with_key_choices listed ..
  moreover
  have "fetch_models p lossy parse (with_key c cx) w = fetch_models p lossy parse (with_key d cx) w"
    unfolding fetch_models_def Let_def with_key_choices
    by (cases "bd_models_url_override (cp_brand p)") (simp_all add: calls)
  note fetched = this
  have "compat_models p lossy parse (with_key c cx) w = compat_models p lossy parse (with_key d cx) w"
    unfolding compat_models_def Let_def with_key_choices fetched ..
  moreover have "compat_transcribe p lossy parse show_f32 treq (with_key c cx) w =
      compat_transcribe p lossy parse show_f32 treq (with_key d cx) w"
    unfolding compat_transcribe_def Let_def with_key_choices calls ..
  ultimately show ?thesis
    using chat_alike [OF blind hides, of lossy print parse req c cx w d]
      batches_alike(1) [OF blind hides, of lossy print parse spec c cx w d]
      batches_alike(2) [OF blind hides, of lossy parse job c cx w d]
      batches_alike(3) [OF blind hides, of lossy parse job c cx w d]
      batches_alike(4) [OF blind hides, of n lossy print parse job c cx w d] by simp
qed

theorem compat_key_confined_witness:
  "\<exists>p. compat_for_kind ''azure'' (\<lambda>r w. (w @ [shown r], Inl (Unavailable ''down''))) (\<lambda>url hs w. (w, Inr ())) = Some p \<and>
     compat_models p id Inl (with_key ''one''
       \<lparr>cx_request_id = [], cx_credential = None, cx_endpoint = Some ''http://h'', cx_settings = []\<rparr>) [] =
     compat_models p id Inl (with_key ''two''
       \<lparr>cx_request_id = [], cx_credential = None, cx_endpoint = Some ''http://h'', cx_settings = []\<rparr>) []"
proof -
  let ?http = "\<lambda>r w. (w @ [shown r], Inl (Unavailable ''down''))"
  have blind: "key_blind ?http" by (simp add: key_blind_def)
  obtain p where p: "compat_for_kind ''azure'' ?http (\<lambda>url hs w. (w, Inr ())) = Some p"
    using for_kind_known [of "''azure''"] by (auto simp: compat_for_kind_def brand_kinds_def)
  with compat_key_confined [OF blind p] show ?thesis by blast
qed

end
