(* ===== verification/Llmleaf.thy ===== *)
theory Llmleaf
  imports Compat
begin

text \<open>
  Another llmleaf node as an upstream, \<open>LlmleafProvider\<close> of \<open>crates/llmleaf-providers/src/llmleaf.rs\<close>:
  most operations are those of the OpenAI-compatible family on the \<open>llmleaf\<close> row; decisions, voices and
  batches use the paths and shapes of llmleaf itself, and a refusal that crossed the hop inside a 502 is
  turned back into a refusal. Parameters: those of the family, and \<open>de_voices\<close>, the derived
  deserialiser of \<open>Vec<VoiceInfo>\<close>.
\<close>

section \<open>Mappings\<close>

definition reclassify :: "(string \<Rightarrow> string + json) \<Rightarrow> model_error \<Rightarrow> model_error" where
  "reclassify parse err =
     (case err of
        Upstream status message \<Rightarrow>
          if status = 502 then
            (case parse message of
               Inl _ \<Rightarrow> err
             | Inr body \<Rightarrow>
                 (case Option.bind (Option.bind (json_pointer [''error'', ''message''] body) as_str)
                    (strip_prefix ''unsupported: '') of
                    Some reason \<Rightarrow> Unsupported reason
                  | None \<Rightarrow> err))
          else err
      | _ \<Rightarrow> err)"

definition reclassified :: "(string \<Rightarrow> string + json) \<Rightarrow> ('w, 'a) awaited \<Rightarrow> ('w, 'a) awaited" where
  "reclassified parse call w = map_prod id (map_sum (reclassify parse) id) (call w)"

definition lift_llmleaf_catalog_fields :: "model_info \<Rightarrow> model_info" where
  "lift_llmleaf_catalog_fields info =
     (let info = (if mi_max_thinking info = None
            then info\<lparr>mi_max_thinking := map_option (\<lambda>n. ucast (min n 0xFFFFFFFF))
              (Option.bind (hm_get (mi_extra info) ''top_provider'') (\<lambda>tp. get_u64 tp ''max_thinking_tokens''))\<rparr>
            else info);
          listed = hm_get (mi_extra info) ''unsupported_parameters'';
          info = info\<lparr>mi_extra := hm_remove ''unsupported_parameters'' (mi_extra info)\<rparr>
      in case listed of
           Some (JArray xs) \<Rightarrow> info\<lparr>mi_unsupported_parameters := List.map_filter as_str xs\<rparr>
         | _ \<Rightarrow> info)"

definition llmleaf_batch_handle :: "json \<Rightarrow> batch_handle" where
  "llmleaf_batch_handle v =
     (let h = batch_value_to_handle v
      in case json_get v ''request_counts'' of
           None \<Rightarrow> h
         | Some rc \<Rightarrow>
             let c = bh_counts h
             in h\<lparr>bh_counts := c\<lparr>bc_processing := unwrap_or (bc_processing c) (get_u64 rc ''processing''),
                  bc_canceled := unwrap_or (bc_canceled c) (get_u64 rc ''canceled''),
                  bc_expired := unwrap_or (bc_expired c) (get_u64 rc ''expired'')\<rparr>\<rparr>)"

definition parse_u16 :: "string \<Rightarrow> u16 option" where
  "parse_u16 s =
     (let ds = (case s of c # rest \<Rightarrow> if c = CHR ''+'' then rest else s | [] \<Rightarrow> s)
      in if ds \<noteq> [] \<and> list_all is_digit ds \<and> digits_value ds < 2 ^ 16 then Some (of_nat (digits_value ds)) else None)"

definition llmleaf_batch_result_line :: "(json \<Rightarrow> string) \<Rightarrow> json \<Rightarrow> batch_result option" where
  "llmleaf_batch_result_line print v =
     (case json_get v ''error'' of
        None \<Rightarrow> openai_batch_result_line print v
      | Some err \<Rightarrow>
          if err = JNull then openai_batch_result_line print v
          else map_option (\<lambda>custom_id.
              let code = get_str err ''code''
              in \<lparr>br_custom_id = custom_id,
                 br_outcome =
                   (if code = Some ''canceled'' then OutcomeCanceled
                    else if code = Some ''expired'' then OutcomeExpired
                    else Errored (unwrap_or 0 (Option.bind code parse_u16)) (unwrap_or [] (get_str err ''message'')))\<rparr>)
            (get_str v ''custom_id''))"

section \<open>Operations\<close>

definition llmleaf_brand :: brand where
  "llmleaf_brand = the (for_kind ''llmleaf'')"

definition llmleaf_base :: "provider_cx \<Rightarrow> string" where
  "llmleaf_base cx = trim_slashes (unwrap_or (bd_default_endpoint llmleaf_brand) (cx_endpoint cx))"

definition llmleaf_authed :: "http_request \<Rightarrow> provider_cx \<Rightarrow> http_request" where
  "llmleaf_authed req cx = (case cx_credential cx of Some c \<Rightarrow> with_bearer c req | None \<Rightarrow> req)"

definition llmleaf_batch_url :: "provider_cx \<Rightarrow> string \<Rightarrow> string \<Rightarrow> string" where
  "llmleaf_batch_url cx upstream_id action =
     llmleaf_base cx @ ''/batches/'' @ encode_component upstream_id @ action"

definition llmleaf_decisions ::
  "'w http_transport \<Rightarrow> (string \<Rightarrow> string) \<Rightarrow> (string \<Rightarrow> string + json) \<Rightarrow>
     decisions_request \<Rightarrow> provider_cx \<Rightarrow> ('w, decisions_response) awaited" where
  "llmleaf_decisions http lossy parse req cx w =
     map_prod id (\<lambda>answer. res_bind answer (\<lambda>v. decisions_response_from_wire v (dq_model req)))
       (reclassified parse (post_json http lossy parse
         (llmleaf_authed (with_json (decisions_request_to_wire req) (http_post (llmleaf_base cx @ ''/decisions''))) cx)) w)"

definition llmleaf_voices ::
  "'w http_transport \<Rightarrow> (string \<Rightarrow> string) \<Rightarrow> (string \<Rightarrow> string + json) \<Rightarrow> (json \<Rightarrow> string + voice_info list) \<Rightarrow>
     string \<Rightarrow> provider_cx \<Rightarrow> ('w, voice_info list) awaited" where
  "llmleaf_voices http lossy parse de_voices model cx w =
     map_prod id (\<lambda>answer. res_bind answer (\<lambda>v.
         res_bind (ok_or (json_get v ''voices'') (Mapping ''voices response had no `voices` array'')) (\<lambda>voices.
         map_sum Mapping id (de_voices voices))))
       (reclassified parse (post_json http lossy parse
         (llmleaf_authed (http_get (llmleaf_base cx @ ''/audio/voices?model='' @ encode_component model)) cx)) w)"

definition llmleaf_models ::
  "'w compat_provider \<Rightarrow> (string \<Rightarrow> string) \<Rightarrow> (string \<Rightarrow> string + json) \<Rightarrow> provider_cx \<Rightarrow>
     ('w, model_info list) awaited" where
  "llmleaf_models p lossy parse cx w =
     map_prod id (map_sum id (\<lambda>models. map lift_llmleaf_catalog_fields
         (filter (\<lambda>m. strip_suffix ''/*'' (mi_id m) = None) models)))
       (reclassified parse (compat_models p lossy parse cx) w)"

definition llmleaf_submission :: "batch_item list \<Rightarrow> json" where
  "llmleaf_submission items = JObject [(''requests'', JArray (map (\<lambda>item.
     JObject [(''custom_id'', JString (bi_custom_id item)),
       (''body'', request_to_openai (bi_request item) ''max_completion_tokens'' False)]) items))]"

definition llmleaf_batch_create ::
  "'w http_transport \<Rightarrow> (string \<Rightarrow> string) \<Rightarrow> (string \<Rightarrow> string + json) \<Rightarrow>
     batch_spec \<Rightarrow> provider_cx \<Rightarrow> ('w, batch_handle) awaited" where
  "llmleaf_batch_create http lossy parse spec cx w =
     map_prod id (map_sum id llmleaf_batch_handle)
       (reclassified parse (post_json http lossy parse
         (llmleaf_authed (with_json (llmleaf_submission (bs_items spec)) (http_post (llmleaf_base cx @ ''/batches''))) cx)) w)"

definition llmleaf_batch_retrieve ::
  "'w http_transport \<Rightarrow> (string \<Rightarrow> string) \<Rightarrow> (string \<Rightarrow> string + json) \<Rightarrow>
     string \<Rightarrow> provider_cx \<Rightarrow> ('w, batch_handle) awaited" where
  "llmleaf_batch_retrieve http lossy parse upstream_id cx w =
     map_prod id (map_sum id llmleaf_batch_handle)
       (reclassified parse (post_json http lossy parse
         (llmleaf_authed (http_get (llmleaf_batch_url cx upstream_id [])) cx)) w)"

definition llmleaf_batch_results ::
  "'w http_transport \<Rightarrow> (string \<Rightarrow> string) \<Rightarrow> (json \<Rightarrow> string) \<Rightarrow> (string \<Rightarrow> string + json) \<Rightarrow>
     string \<Rightarrow> provider_cx \<Rightarrow> ('w, ('w, batch_result) polls) awaited" where
  "llmleaf_batch_results http lossy print parse upstream_id cx w =
     map_prod id (map_sum id (\<lambda>resp.
         polls_of (jsonl_result_stream parse (hs_body resp) (llmleaf_batch_result_line print))))
       (reclassified parse (send_checked http lossy
         (llmleaf_authed (http_get (llmleaf_batch_url cx upstream_id ''/results'')) cx)) w)"

definition llmleaf_batch_cancel ::
  "'w http_transport \<Rightarrow> (string \<Rightarrow> string) \<Rightarrow> (string \<Rightarrow> string + json) \<Rightarrow>
     string \<Rightarrow> provider_cx \<Rightarrow> ('w, batch_handle) awaited" where
  "llmleaf_batch_cancel http lossy parse upstream_id cx w =
     map_prod id (map_sum id llmleaf_batch_handle)
       (reclassified parse (post_json http lossy parse
         (llmleaf_authed (http_post (llmleaf_batch_url cx upstream_id ''/cancel'')) cx)) w)"

definition llmleaf_realtime ::
  "'w compat_provider \<Rightarrow> (string \<Rightarrow> string + json) \<Rightarrow> realtime_params \<Rightarrow> provider_cx \<Rightarrow> ('w, unit) awaited" where
  "llmleaf_realtime p parse params cx = reclassified parse (compat_realtime p params cx)"

section \<open>The adapter\<close>

definition llmleaf_provider ::
  "'w http_transport \<Rightarrow> 'w realtime_transport \<Rightarrow> (string \<Rightarrow> string) \<Rightarrow> (json \<Rightarrow> string) \<Rightarrow> (string \<Rightarrow> string + json) \<Rightarrow>
     (string \<Rightarrow> string option) \<Rightarrow> (real \<Rightarrow> string) \<Rightarrow> (json \<Rightarrow> string + voice_info list) \<Rightarrow> 'w provider_api" where
  "llmleaf_provider http realtime lossy print parse b64_decode show_f32 de_voices =
     (let p = \<lparr>cp_http = http, cp_realtime = realtime, cp_brand = llmleaf_brand\<rparr>
      in \<lparr>pa_name = ''llmleaf'',
          pa_chat = (\<lambda>req cx. reclassified parse (compat_chat p lossy print parse req cx)),
          pa_embed = (\<lambda>req cx. reclassified parse (compat_embed p lossy parse req cx)),
          pa_rerank = (\<lambda>req cx. reclassified parse (compat_rerank p lossy parse req cx)),
          pa_decisions = llmleaf_decisions http lossy parse,
          pa_speech = (\<lambda>req cx. reclassified parse (compat_speech p lossy parse b64_decode req cx)),
          pa_voices = llmleaf_voices http lossy parse de_voices,
          pa_models = llmleaf_models p lossy parse,
          pa_supports_compaction = compat_supports_compaction llmleaf_brand,
          pa_transcribe = (\<lambda>req cx. reclassified parse (compat_transcribe p lossy parse show_f32 req cx)),
          pa_batch_create = llmleaf_batch_create http lossy parse,
          pa_batch_retrieve = llmleaf_batch_retrieve http lossy parse,
          pa_batch_results = llmleaf_batch_results http lossy print parse,
          pa_batch_cancel = llmleaf_batch_cancel http lossy parse,
          pa_supports_realtime = bd_realtime_native llmleaf_brand\<rparr>)"

end
