(* ===== verification/LlmleafHop.thy ===== *)
theory LlmleafHop
  imports Llmleaf CompatLaws Bodies Edge
begin

text \<open>
  Two llmleaf nodes in a row: what the surface of one node writes (the batch objects and result lines of
  Surfaces, the error envelopes of Edge) read by the llmleaf adapter of the next.
\<close>

section \<open>Batches\<close>

lemma statuses_cross:
  "list_all (\<lambda>s. map_batch_status (status_str s) = s)
     [Validating, InProgress, Finalizing, Completed, Failed, Expired, Canceling, CanceledJob]"
  by code_simp

lemma status_crosses: "map_batch_status (status_str s) = s"
  using statuses_cross by (cases s) simp_all

text \<open>The fields a handle keeps beside the typed ones do not stand in for a typed one that is absent.\<close>

definition extra_apart :: "batch_handle \<Rightarrow> bool" where
  "extra_apart h \<longleftrightarrow>
     get_u64 (JObject (bh_extra h)) ''created_at'' = None \<and> get_u64 (JObject (bh_extra h)) ''expires_at'' = None \<and>
     get_u64 (JObject (bh_extra h)) ''completed_at'' = None \<and> get_u64 (JObject (bh_extra h)) ''ended_at'' = None \<and>
     get_str (JObject (bh_extra h)) ''endpoint'' = None"

lemma entry_found: "hm_get ((j, v) # m) k = (if k = j then Some v else hm_get m k)" "hm_get [] k = None"
  by (simp_all add: hm_get_def)

lemma handle_lookup:
  "json_get (handle_to_json h) ''id'' = Some (JString (bh_id h))"
  "json_get (handle_to_json h) ''status'' = Some (JString (status_str (bh_status h)))"
  "json_get (handle_to_json h) ''request_counts'' = Some (counts_to_json (bh_counts h))"
  "json_get (handle_to_json h) ''created_at'' =
     or_else (map_option json_u64 (bh_created_at h)) (hm_get (bh_extra h) ''created_at'')"
  "json_get (handle_to_json h) ''expires_at'' =
     or_else (map_option json_u64 (bh_expires_at h)) (hm_get (bh_extra h) ''expires_at'')"
  "json_get (handle_to_json h) ''completed_at'' =
     or_else (map_option json_u64 (bh_ended_at h)) (hm_get (bh_extra h) ''completed_at'')"
  "json_get (handle_to_json h) ''ended_at'' = hm_get (bh_extra h) ''ended_at''"
  "json_get (handle_to_json h) ''endpoint'' =
     or_else (map_option JString (bh_endpoint h)) (hm_get (bh_extra h) ''endpoint'')"
  unfolding handle_to_json_def Let_def json_get.simps hm_get_or_insert_all
  by (auto simp: hm_get_opt_insert entry_found)

lemma counts_lookup:
  "get_u64 (counts_to_json c) ''total'' = Some (bc_total c)"
  "get_u64 (counts_to_json c) ''completed'' = Some (bc_succeeded c)"
  "get_u64 (counts_to_json c) ''failed'' = Some (bc_errored c)"
  "get_u64 (counts_to_json c) ''processing'' = Some (bc_processing c)"
  "get_u64 (counts_to_json c) ''canceled'' = Some (bc_canceled c)"
  "get_u64 (counts_to_json c) ''expired'' = Some (bc_expired c)"
  by (simp_all add: counts_to_json_def get_u64_def hm_get_def json_u64_def)

lemma u64_or_else:
  "Option.bind (or_else (map_option json_u64 x) y) as_u64 = or_else x (Option.bind y as_u64)"
  by (cases x) (simp_all add: json_u64_def)

lemma str_or_else:
  "Option.bind (or_else (map_option JString x) y) as_str = or_else x (Option.bind y as_str)"
  by (cases x) simp_all

lemma handle_crosses:
  assumes "extra_apart h"
  shows "llmleaf_batch_handle (handle_to_json h) = h\<lparr>bh_extra := hm_empty\<rparr>"
proof -
  have none: "or_else x None = x" for x :: "'a option" by (cases x) simp_all
  have texts: "get_str (handle_to_json h) ''id'' = Some (bh_id h)"
    "json_get (handle_to_json h) ''status'' = Some (JString (status_str (bh_status h)))"
    "json_get (handle_to_json h) ''request_counts'' = Some (counts_to_json (bh_counts h))"
    by (simp_all add: get_str_def handle_lookup)
  have typed: "get_u64 (handle_to_json h) ''created_at'' = bh_created_at h"
    "get_u64 (handle_to_json h) ''expires_at'' = bh_expires_at h"
    "get_u64 (handle_to_json h) ''completed_at'' = bh_ended_at h"
    "get_u64 (handle_to_json h) ''ended_at'' = None"
    "get_str (handle_to_json h) ''endpoint'' = bh_endpoint h"
    using assms by (simp_all add: extra_apart_def get_u64_def get_str_def handle_lookup u64_or_else str_or_else none)
  have crossed: "llmleaf_batch_handle (handle_to_json h) =
      (batch_value_to_handle (handle_to_json h))\<lparr>bh_counts := bh_counts h\<rparr>"
  proof -
    let ?c = "bh_counts (batch_value_to_handle (handle_to_json h))"
    have "?c\<lparr>bc_processing := bc_processing (bh_counts h), bc_canceled := bc_canceled (bh_counts h),
        bc_expired := bc_expired (bh_counts h)\<rparr> = bh_counts h"
      by (rule batch_counts.equality)
        (simp_all add: batch_value_to_handle_def batch_counts_of_def texts counted_def counts_lookup)
    then show ?thesis by (simp add: llmleaf_batch_handle_def texts counts_lookup Let_def)
  qed
  show ?thesis
    unfolding crossed
    by (rule batch_handle.equality) (simp_all add: batch_value_to_handle_def texts typed none status_crosses)
qed

section \<open>Result lines\<close>

lemma digits_snoc: "digits_value (s @ [c]) = 10 * digits_value s + (of_char c - 48)"
  by (simp add: digits_value_def)

lemma decimal_digits:
  "decimal n \<noteq> [] \<and> list_all is_digit (decimal n) \<and> digits_value (decimal n) = n \<and> hd (decimal n) \<noteq> CHR ''+''"
proof (induction n rule: decimal.induct)
  case (1 n)
  have digit: "is_digit (char_of (48 + m))" "of_char (char_of (48 + m) :: char) = 48 + m"
      "char_of (48 + m) \<noteq> CHR ''+''" if "m < 10" for m :: nat
  proof -
    have v: "of_char (char_of (48 + m) :: char) = 48 + m" using that by (simp add: of_char_of)
    then show "is_digit (char_of (48 + m))" "of_char (char_of (48 + m) :: char) = 48 + m"
      using that by (simp_all add: is_digit_def)
    show "char_of (48 + m) \<noteq> CHR ''+''"
    proof
      assume "char_of (48 + m) = CHR ''+''"
      then have "of_char (char_of (48 + m) :: char) = (of_char (CHR ''+'') :: nat)" by simp
      with v show False by simp
    qed
  qed
  show ?case
  proof (cases "n < 10")
    case True
    then show ?thesis using digit [OF True] by (simp add: decimal.simps [of n] digits_value_def)
  next
    case False
    then show ?thesis
      using 1 [OF False] digit [of "n mod 10"] by (simp add: decimal.simps [of n] digits_snoc hd_append)
  qed
qed

lemma parse_u16_decimal: "parse_u16 (decimal (unat status)) = Some (status :: u16)"
proof -
  have "unat status < 2 ^ 16" using unsigned_less [of status] by simp
  moreover obtain c ds where "decimal (unat status) = c # ds" "c \<noteq> CHR ''+''"
    using decimal_digits [of "unat status"] by (cases "decimal (unat status)") auto
  ultimately show ?thesis
    using decimal_digits [of "unat status"] by (simp add: parse_u16_def Let_def)
qed

lemma decimal_not_word:
  "decimal n \<noteq> ''canceled''" "decimal n \<noteq> ''expired''"
proof -
  have "\<not> list_all is_digit ''canceled''" "\<not> list_all is_digit ''expired''" by code_simp+
  then show "decimal n \<noteq> ''canceled''" "decimal n \<noteq> ''expired''" using decimal_digits [of n] by metis+
qed

text \<open>A result on the other side: a response as a whole object carries it, every failure as it was.\<close>

definition crossed_result :: "batch_result \<Rightarrow> batch_result" where
  "crossed_result r = r\<lparr>br_outcome :=
     (case br_outcome r of
        Succeeded resp \<Rightarrow> Succeeded (collect_chunks (openai_to_chunks (response_to_openai resp 0) []))
      | outcome \<Rightarrow> outcome)\<rparr>"

lemma line_crosses: "llmleaf_batch_result_line print (result_to_line r) = Some (crossed_result r)"
proof (cases r)
  case (fields custom_id outcome)
  show ?thesis
    unfolding fields
    by (cases outcome)
      (simp_all add: result_to_line_def result_line_def error_view_def llmleaf_batch_result_line_def
        openai_batch_result_line_def crossed_result_def get_str_def get_u64_def wire_simps parse_u16_decimal decimal_not_word Let_def
        is_some_and_def json_u32_def)
qed

text \<open>The body a node writes for a results stream, as it is polled, and the results before an error.\<close>

function results_body :: "(json \<Rightarrow> string) \<Rightarrow> ('p node, batch_result) polls \<Rightarrow> 'p node \<Rightarrow> string list" where
  "results_body print polls w =
     (case polls of
        [] \<Rightarrow> []
      | _ # _ \<Rightarrow>
          (case lines_next print polls w of
             (w, rest, None) \<Rightarrow> []
           | (w, rest, Some line) \<Rightarrow> line # (if length rest < length polls then results_body print rest w else [])))"
  by pat_completeness auto
termination
  by (relation "measure (\<lambda>(_, polls, _). length polls)") auto

declare results_body.simps [simp del]

fun results_before :: "(model_error + batch_result) list \<Rightarrow> batch_result list" where
  "results_before (Inr r # items) = r # results_before items"
| "results_before _ = []"

definition error_line :: "model_error \<Rightarrow> json" where
  "error_line e = JObject [(''error'', JObject [(''message'', JString (model_error_text e))])]"

fun body_lines :: "(model_error + batch_result) list \<Rightarrow> json list" where
  "body_lines [] = []"
| "body_lines (Inr r # items) = result_to_line r # body_lines items"
| "body_lines (Inl e # items) = [error_line e]"

lemma results_body_lines: "concat (results_body print (polls_of items) w) = build_jsonl print (body_lines items)"
proof (induction items arbitrary: w rule: body_lines.induct)
  case 1
  then show ?case by (subst results_body.simps) (simp add: polls_of_def build_jsonl_def)
next
  case (2 r items)
  then show ?case by (subst results_body.simps) (simp add: polls_of_def build_jsonl_def)
next
  case (3 e items)
  have "results_body print [] w = []" for w :: "'a node" by (subst results_body.simps) simp
  then show ?case by (subst results_body.simps) (simp add: polls_of_def build_jsonl_def error_line_def)
qed

lemma error_line_lost: "llmleaf_batch_result_line print (error_line e) = None"
  by (simp add: llmleaf_batch_result_line_def error_line_def get_str_def hm_get_def)

lemma body_lines_read:
  "List.map_filter (llmleaf_batch_result_line print) (body_lines items) = map crossed_result (results_before items)"
  by (induction items rule: body_lines.induct) (simp_all add: map_filter_simps line_crosses error_line_lost)

text \<open>
  C24: batches survive a hop between two nodes. A batch object keeps its id, status, all six counts, its times and
  endpoint; only untyped extra fields are dropped. A results body, however the network cuts it, yields
  one result per line in order, failures with their status and message, cancelled and expired ones as
  such. An error that ends the body on the first node leaves no trace on the second: its line names no
  request and is skipped, so a truncated body reads as a complete one.
\<close>

theorem batches_cross_hop:
  assumes "extra_apart h" "list_all (line_printed print parse) (body_lines items)"
    and "concat pieces = concat (results_body print (polls_of items) w)"
  shows "llmleaf_batch_handle (handle_to_json h) = h\<lparr>bh_extra := hm_empty\<rparr> \<and>
    jsonl_result_stream parse (map Inr pieces) (llmleaf_batch_result_line print) =
      map Inr (map crossed_result (results_before items))"
proof
  show "llmleaf_batch_handle (handle_to_json h) = h\<lparr>bh_extra := hm_empty\<rparr>"
    by (rule handle_crosses [OF assms(1)])
  have "concat pieces = build_jsonl print (body_lines items)"
    unfolding assms(3) by (rule results_body_lines)
  note read = jsonl_read [OF assms(2) this]
  show "jsonl_result_stream parse (map Inr pieces) (llmleaf_batch_result_line print) =
      map Inr (map crossed_result (results_before items))"
    unfolding read body_lines_read ..
qed

text \<open>A small results body, for the witness.\<close>

definition hop_print :: "json \<Rightarrow> string" where
  "hop_print v = (if v = error_line Timeout then ''t'' else ''c'')"

definition hop_parse :: "string \<Rightarrow> string + json" where
  "hop_parse s = (if s = ''t'' then Inr (error_line Timeout)
     else if s = ''c'' then Inr (result_to_line \<lparr>br_custom_id = ''a'', br_outcome = OutcomeCanceled\<rparr>) else Inl ''bad'')"

theorem batches_cross_hop_witness:
  "jsonl_result_stream hop_parse [Inr ''c'', Inr [CHR 0x0A, CHR ''t''], Inr [CHR 0x0A]] (llmleaf_batch_result_line hop_print) =
     [Inr \<lparr>br_custom_id = ''a'', br_outcome = OutcomeCanceled\<rparr>]"
proof -
  let ?r = "\<lparr>br_custom_id = ''a'', br_outcome = OutcomeCanceled\<rparr>"
  let ?h = "\<lparr>bh_id = [], bh_status = Failed, bh_counts = \<lparr>bc_total = 1, bc_processing = 0, bc_succeeded = 0, bc_errored = 0,
      bc_canceled = 1, bc_expired = 0\<rparr>, bh_created_at = None, bh_expires_at = None, bh_ended_at = None,
      bh_endpoint = None, bh_extra = []\<rparr>"
  have differ: "result_to_line ?r \<noteq> error_line Timeout"
    by (simp add: result_to_line_def result_line_def error_line_def field_def)
  have apart: "extra_apart ?h" by (simp add: extra_apart_def get_u64_def get_str_def hm_get_def)
  have printed: "list_all (line_printed hop_print hop_parse) (body_lines [Inr ?r, Inl Timeout])"
    using differ by (simp add: line_printed_def hop_print_def hop_parse_def is_ascii_whitespace_def max_jsonl_line_bytes_def)
  have body: "concat [''c'', [CHR 0x0A, CHR ''t''], [CHR 0x0A]] =
      concat (results_body hop_print (polls_of [Inr ?r, Inl Timeout]) (undefined :: nat node))"
    using differ by (simp add: results_body_lines build_jsonl_def hop_print_def)
  from batches_cross_hop [OF apart printed body] show ?thesis by (simp add: crossed_result_def)
qed

section \<open>Refusals\<close>

text \<open>What the second node makes of an error of the first.\<close>

definition error_body :: "'p answer \<Rightarrow> json" where
  "error_body a = (case an_body a of Document v \<Rightarrow> v | _ \<Rightarrow> JNull)"

definition crossed_refusal :: "(json \<Rightarrow> string) \<Rightarrow> engine_error \<Rightarrow> model_error" where
  "crossed_refusal print err =
     (case err of
        AllTargetsFailed (Unsupported reason) \<Rightarrow> Unsupported reason
      | _ \<Rightarrow> Upstream (of_nat (an_status (engine_error_answer err :: nat answer)))
               (print (error_body (engine_error_answer err :: nat answer))))"

lemma refusal_text: "strip_prefix ''unsupported: '' (model_error_text e) = (case e of Unsupported s \<Rightarrow> Some s | _ \<Rightarrow> None)"
  by (cases e) simp_all

lemma refusal_status:
  "an_status (engine_error_answer err :: nat answer) \<in> {400, 403, 404, 429, 502} \<and>
   (an_status (engine_error_answer err :: nat answer) = 502 \<longleftrightarrow> (\<exists>e. err = AllTargetsFailed e))"
  by (cases err) (simp_all add: error_answer_def with_retry_after_def)

lemma refusal_body:
  "error_body (engine_error_answer (AllTargetsFailed e) :: nat answer) =
     JObject [(''error'', JObject [(''message'', JString (model_error_text e))])]"
  by (simp add: error_body_def error_answer_def)

lemma refusal_reclassified:
  assumes "parse (print (error_body (engine_error_answer err :: nat answer))) =
      Inr (error_body (engine_error_answer err :: nat answer))"
  shows "reclassify parse (Upstream (of_nat (an_status (engine_error_answer err :: nat answer)))
      (print (error_body (engine_error_answer err :: nat answer)))) = crossed_refusal print err"
proof (cases "\<exists>e. err = AllTargetsFailed e")
  case True
  then obtain e where err: "err = AllTargetsFailed e" by blast
  have status: "an_status (engine_error_answer (AllTargetsFailed e) :: nat answer) = 502" for e
    using refusal_status [of "AllTargetsFailed e"] by blast
  show ?thesis
    using assms unfolding err refusal_body
    by (cases e) (simp_all add: reclassify_def crossed_refusal_def refusal_body json_pointer_def hm_get_def refusal_text
        status del: engine_error_answer.simps model_error_text.simps)
next
  case False
  then have "an_status (engine_error_answer err :: nat answer) \<in> {400, 403, 404, 429}"
    using refusal_status [of err] by blast
  then have "of_nat (an_status (engine_error_answer err :: nat answer)) \<noteq> (502 :: u16)" by auto
  then show ?thesis
    using False by (cases err) (simp_all add: reclassify_def crossed_refusal_def)
qed

text \<open>A transport that answers every request with that error, readable on the other side.\<close>

definition refuses ::
  "'w http_transport \<Rightarrow> (string \<Rightarrow> string) \<Rightarrow> (json \<Rightarrow> string) \<Rightarrow> (string \<Rightarrow> string + json) \<Rightarrow> engine_error \<Rightarrow> bool" where
  "refuses http lossy print parse err \<longleftrightarrow>
     (let body = error_body (engine_error_answer err :: nat answer)
      in parse (print body) = Inr body \<and> lossy (print body) = print body \<and>
         length (print body) \<le> max_collected_body_bytes \<and>
         (\<forall>r w. \<exists>w' hs. http r w = (w', Inr \<lparr>hs_status = of_nat (an_status (engine_error_answer err :: nat answer)),
            hs_headers = hs, hs_body = [Inr (print body)]\<rparr>)))"

lemma refused_calls:
  assumes "refuses http lossy print parse err"
  shows "snd (reclassified parse (post_json http lossy parse r) w) = Inl (crossed_refusal print err)"
    and "snd (reclassified parse (send_checked http lossy r) w) = Inl (crossed_refusal print err)"
    and "snd (post_json http lossy parse r w) = Inl (Upstream (of_nat (an_status (engine_error_answer err :: nat answer)))
      (print (error_body (engine_error_answer err :: nat answer))))"
    and "snd (send_checked http lossy r w) = Inl (Upstream (of_nat (an_status (engine_error_answer err :: nat answer)))
      (print (error_body (engine_error_answer err :: nat answer))))"
proof -
  let ?a = "engine_error_answer err :: nat answer"
  have readable: "parse (print (error_body ?a)) = Inr (error_body ?a)" "lossy (print (error_body ?a)) = print (error_body ?a)"
    and short: "\<not> max_collected_body_bytes < length (print (error_body ?a))"
    using assms by (auto simp: refuses_def Let_def)
  obtain w' hs where sent: "http r w = (w', Inr \<lparr>hs_status = of_nat (an_status ?a), hs_headers = hs,
      hs_body = [Inr (print (error_body ?a))]\<rparr>)"
    using assms unfolding refuses_def Let_def by blast
  have "\<not> is_success_status (of_nat (an_status ?a))"
    using refusal_status [of err] by (auto simp: is_success_status_def)
  then show posted: "snd (post_json http lossy parse r w) = Inl (Upstream (of_nat (an_status ?a)) (print (error_body ?a)))"
    and checked: "snd (send_checked http lossy r w) = Inl (Upstream (of_nat (an_status ?a)) (print (error_body ?a)))"
    using short by (simp_all add: post_json_def send_checked_def sent collect_body_def readable)
  show "snd (reclassified parse (post_json http lossy parse r) w) = Inl (crossed_refusal print err)"
    "snd (reclassified parse (send_checked http lossy r) w) = Inl (crossed_refusal print err)"
    using posted checked refusal_reclassified [of parse print err, OF readable(1)] by (simp_all add: reclassified_def)
qed

lemma llmleaf_row:
  "llmleaf_brand = (brand_bc ''llmleaf'' ''http://localhost:8080/v1'')
     \<lparr>bd_models_api := True, bd_audio_input := True, bd_rerank_api := True, bd_realtime_native := True,
      bd_chat_api := ResponsesApi, bd_responses_flavor := FlavorLlmleaf\<rparr>"
  by (simp add: llmleaf_brand_def for_kind_def brand_rows_def brand_rows_1_def brand_rows_2_def)

lemma llmleaf_switches:
  "bd_documented_models llmleaf_brand = None" "bd_models_api llmleaf_brand" "bd_models_url_override llmleaf_brand = None"
  "bd_base_resp_envelope llmleaf_brand = False" "rerank_enabled llmleaf_brand cx"
  "bd_transcription_json_base64 llmleaf_brand = False" "bd_supports_stream llmleaf_brand"
  by (simp_all add: llmleaf_row rerank_enabled_def brand_bc_def brand_with_cap_def)

lemma reclassified_refusal:
  assumes "refuses http lossy print parse err"
    and "snd (call w) = Inl (Upstream (of_nat (an_status (engine_error_answer err :: nat answer)))
      (print (error_body (engine_error_answer err :: nat answer))))"
  shows "snd (reclassified parse call w) = Inl (crossed_refusal print err)"
proof -
  have "parse (print (error_body (engine_error_answer err :: nat answer))) =
      Inr (error_body (engine_error_answer err :: nat answer))"
    using assms(1) by (simp add: refuses_def Let_def)
  from refusal_reclassified [of parse print err, OF this] assms(2) show ?thesis by (simp add: reclassified_def)
qed

lemma failing_pair: "snd x = Inl e \<Longrightarrow> \<exists>w. x = (w, Inl e)"
  by (cases x) simp

lemma refused_chat_calls:
  assumes "refuses http lossy print parse err" "\<not> refused_chat llmleaf_brand cx req"
    and "cp_http p = http" "cp_brand p = llmleaf_brand"
  shows "snd (compat_chat p lossy print parse req cx w) = Inl (Upstream (of_nat (an_status (engine_error_answer err :: nat answer)))
      (print (error_body (engine_error_answer err :: nat answer))))"
proof -
  note calls = refused_calls(3,4) [OF assms(1)]
  have completions: "snd (compat_chat_completions p lossy parse req cx w) =
      Inl (Upstream (of_nat (an_status (engine_error_answer err :: nat answer)))
        (print (error_body (engine_error_answer err :: nat answer))))" for w
    by (simp add: compat_chat_completions_def Let_def assms(3,4) calls unless_enveloped_def)
  have responses: "snd (compat_chat_responses p lossy print parse req cx w) =
      Inl (Upstream (of_nat (an_status (engine_error_answer err :: nat answer)))
        (print (error_body (engine_error_answer err :: nat answer))))" for w
    by (simp add: compat_chat_responses_def Let_def assms(3,4) calls)
  have "\<not> refused_chat (cp_brand p) cx req" using assms(2,4) by simp
  from chat_by_cases [OF this] show ?thesis by (simp add: completions responses Let_def)
qed

text \<open>
  C25: a refusal keeps its meaning across a hop. When every target of the first node lacks a capability, that node
  answers 502, and the second node sees the refusal it stands for, with the reason, on every operation,
  so that its own routing falls past the node without a penalty. Any other error of the first node, a
  502 with another cause included, stays an upstream error with its status and body.
\<close>

theorem refusals_cross_hop:
  assumes "refuses http lossy print parse err"
  shows "let node = llmleaf_provider http realtime lossy print parse b64 show_f32 de_voices
    in (\<not> refused_chat llmleaf_brand cx req \<longrightarrow> snd (pa_chat node req cx w) = Inl (crossed_refusal print err)) \<and>
      snd (pa_embed node ereq cx w) = Inl (crossed_refusal print err) \<and>
      snd (pa_rerank node rreq cx w) = Inl (crossed_refusal print err) \<and>
      snd (pa_decisions node dreq cx w) = Inl (crossed_refusal print err) \<and>
      snd (pa_speech node sreq cx w) = Inl (crossed_refusal print err) \<and>
      snd (pa_voices node model cx w) = Inl (crossed_refusal print err) \<and>
      snd (pa_models node cx w) = Inl (crossed_refusal print err) \<and>
      snd (pa_transcribe node treq cx w) = Inl (crossed_refusal print err) \<and>
      snd (pa_batch_create node spec cx w) = Inl (crossed_refusal print err) \<and>
      snd (pa_batch_retrieve node job cx w) = Inl (crossed_refusal print err) \<and>
      snd (pa_batch_results node job cx w) = Inl (crossed_refusal print err) \<and>
      snd (pa_batch_cancel node job cx w) = Inl (crossed_refusal print err)"
proof -
  let ?p = "\<lparr>cp_http = http, cp_realtime = realtime, cp_brand = llmleaf_brand\<rparr>"
  note calls = refused_calls [OF assms]
  note via = reclassified_refusal [OF assms]
  have chat: "snd (reclassified parse (compat_chat ?p lossy print parse req cx) w) = Inl (crossed_refusal print err)"
    if "\<not> refused_chat llmleaf_brand cx req"
    by (rule via) (rule refused_chat_calls [OF assms that], simp_all)
  have embed: "snd (reclassified parse (compat_embed ?p lossy parse ereq cx) w) = Inl (crossed_refusal print err)"
    by (rule via) (simp add: compat_embed_def Let_def calls unless_enveloped_def)
  have rerank: "snd (reclassified parse (compat_rerank ?p lossy parse rreq cx) w) = Inl (crossed_refusal print err)"
    by (rule via) (simp add: compat_rerank_def Let_def calls unless_enveloped_def llmleaf_switches)
  have speech: "snd (reclassified parse (compat_speech ?p lossy parse b64 sreq cx) w) = Inl (crossed_refusal print err)"
    by (rule via) (simp add: compat_speech_def Let_def calls)
  have models: "snd (reclassified parse (compat_models ?p lossy parse cx) w) = Inl (crossed_refusal print err)"
    by (rule via) (simp add: compat_models_def documented_models_def fetch_models_def Let_def calls llmleaf_switches)
  have transcribe: "snd (reclassified parse (compat_transcribe ?p lossy parse show_f32 treq cx) w) = Inl (crossed_refusal print err)"
    by (rule via) (simp add: compat_transcribe_def Let_def calls llmleaf_switches)
  show ?thesis
    unfolding Let_def llmleaf_provider_def
    by (simp add: chat embed rerank speech models transcribe llmleaf_decisions_def llmleaf_voices_def llmleaf_models_def
        llmleaf_batch_create_def llmleaf_batch_retrieve_def llmleaf_batch_results_def llmleaf_batch_cancel_def calls)
qed

theorem refusals_cross_hop_witness:
  "snd (pa_embed (llmleaf_provider (\<lambda>r (w :: unit). (w, Inr \<lparr>hs_status = 502, hs_headers = [], hs_body = [Inr ''u'']\<rparr>))
      (\<lambda>url hs w. (w, Inr ())) id (\<lambda>_. ''u'')
      (\<lambda>_. Inr (JObject [(''error'', JObject [(''message'', JString ''unsupported: no embeddings'')])]))
      (\<lambda>_. None) (\<lambda>_. []) (\<lambda>_. Inl []))
      \<lparr>eq_model = ''m'', eq_input = [], eq_dimensions = None, eq_encoding_format = None, eq_extra = []\<rparr> bare_cx ()) =
    Inl (Unsupported ''no embeddings'')"
proof -
  let ?http = "\<lambda>r (w :: unit). (w, Inr \<lparr>hs_status = 502, hs_headers = [], hs_body = [Inr ''u'']\<rparr>)"
  let ?parse = "\<lambda>_. Inr (JObject [(''error'', JObject [(''message'', JString ''unsupported: no embeddings'')])])"
  have "refuses ?http id (\<lambda>_. ''u'') ?parse (AllTargetsFailed (Unsupported ''no embeddings''))"
    by (simp add: refuses_def Let_def error_body_def error_answer_def max_collected_body_bytes_def)
  from refusals_cross_hop [OF this] show ?thesis unfolding Let_def crossed_refusal_def by simp
qed

end
