(* ===== verification/Gemini.thy ===== *)
theory Gemini
  imports AnthropicProvider OpenAIMedia
begin

text \<open>
  The \<open>generateContent\<close> dialect and its two providers: Gemini
  (\<open>crates/llmleaf-providers/src/gemini.rs\<close>) with its whole surface, Vertex (vertex.rs), which differs
  in addresses, authentication and embeddings. Parameters: the transport, \<open>lossy\<close>, \<open>print\<close> and
  \<open>parse\<close> (serde_json).
\<close>

section \<open>Requests\<close>

text \<open>What a mapping with an \<open>expect\<close> answers: \<open>None\<close> is the panic.\<close>

definition audio_mime_type :: "string \<Rightarrow> string option" where
  "audio_mime_type format =
     (let f = to_ascii_lowercase format
      in if f = ''wav'' then Some ''audio/wav''
         else if f = ''mp3'' then Some ''audio/mp3''
         else if f = ''aiff'' then Some ''audio/aiff''
         else if f = ''aac'' then Some ''audio/aac''
         else if f = ''ogg'' then Some ''audio/ogg''
         else if f = ''flac'' then Some ''audio/flac''
         else None)"

fun unknown_audio :: "content_part \<Rightarrow> string option" where
  "unknown_audio (InputAudio data format) = (if audio_mime_type format = None then Some format else None)"
| "unknown_audio _ = None"

definition ensure_audio_input_supported :: "chat_request \<Rightarrow> string \<Rightarrow> model_error + unit" where
  "ensure_audio_input_supported req provider =
     (if has_compaction req \<or> hm_contains (cq_extra req) ''context_management'' \<or> hm_contains (cq_extra req) ''compaction''
      then Inl (Unsupported ''native API compaction is not supported by this endpoint'')
      else case List.map_filter unknown_audio (request_parts req) of
        format # _ \<Rightarrow> Inl (unsupported provider
          (''chat audio format '' @ [CHR 0x27] @ format @ [CHR 0x27]))
      | [] \<Rightarrow> Inr ())"

fun gemini_part :: "content_part \<Rightarrow> json option option" where
  "gemini_part (Text t) = Some (Some (JObject [(''text'', JString t)]))"
| "gemini_part (ImageUrl url detail) =
     Some (Some (JObject [(''fileData'', JObject [(''fileUri'', JString url)])]))"
| "gemini_part (InputAudio data format) =
     map_option (\<lambda>mime. Some (JObject [(''inlineData'',
       JObject [(''mimeType'', JString mime), (''data'', JString data)])])) (audio_mime_type format)"
| "gemini_part _ = Some None"

definition call_part :: "(string \<Rightarrow> string + json) \<Rightarrow> tool_call \<Rightarrow> json" where
  "call_part parse c = JObject [(''functionCall'', JObject [(''name'', JString (tc_name c)),
     (''args'', case parse (tc_arguments c) of Inl _ \<Rightarrow> JObject [] | Inr v \<Rightarrow> v)])]"

definition message_to_gemini :: "(string \<Rightarrow> string + json) \<Rightarrow> message \<Rightarrow> json option" where
  "message_to_gemini parse msg =
     (if me_role msg = Tool then Some (JObject [(''role'', JString ''user''), (''parts'', JArray [JObject
        [(''functionResponse'', JObject [(''name'', JString (unwrap_or [] (me_name msg))),
           (''response'', JObject [(''content'', JString (text_content msg))])])]])])
      else map_option (\<lambda>parts. JObject
          [(''role'', JString (if me_role msg = Assistant then ''model'' else ''user'')),
           (''parts'', JArray (List.map_filter id parts @ map (call_part parse) (me_tool_calls msg)))])
        (those (map gemini_part (me_content msg))))"

definition generation_config :: "chat_request \<Rightarrow> json_map" where
  "generation_config req =
     (let gen = opt_insert ''maxOutputTokens'' json_u32 (cq_max_tokens req) hm_empty;
          gen = opt_insert ''temperature'' json_f64 (cq_temperature req) gen;
          gen = opt_insert ''topP'' json_f64 (cq_top_p req) gen;
          gen = if_insert ''stopSequences'' (JArray (map JString (cq_stop req))) (cq_stop req \<noteq> []) gen
      in opt_insert ''thinkingConfig'' (\<lambda>t. JObject [(''thinkingBudget'', json_u32 (budget_tokens t))])
           (cq_thinking req) gen)"

definition function_declaration :: "tool_def \<Rightarrow> json" where
  "function_declaration t = JObject [(''name'', JString (td_name t)),
     (''description'', json_opt JString (td_description t)), (''parameters'', td_parameters t)]"

fun function_calling_config :: "tool_choice \<Rightarrow> json" where
  "function_calling_config ChooseAuto = JObject [(''mode'', JString ''AUTO'')]"
| "function_calling_config ChooseNone = JObject [(''mode'', JString ''NONE'')]"
| "function_calling_config ChooseRequired = JObject [(''mode'', JString ''ANY'')]"
| "function_calling_config (Named n) =
     JObject [(''mode'', JString ''ANY''), (''allowedFunctionNames'', JArray [JString n])]"

definition request_to_gemini :: "(string \<Rightarrow> string + json) \<Rightarrow> chat_request \<Rightarrow> json option" where
  "request_to_gemini parse req =
     map_option (\<lambda>contents.
         let system = join_with [CHR 0x0A, CHR 0x0A]
               (map text_content (filter (\<lambda>m. me_role m = System) (cq_messages req)));
             obj = if_insert ''systemInstruction''
               (JObject [(''parts'', JArray [JObject [(''text'', JString system)]])]) (system \<noteq> []) hm_empty;
             obj = hm_insert ''contents'' (JArray contents) obj;
             gen = generation_config req;
             obj = if_insert ''generationConfig'' (JObject gen) (gen \<noteq> []) obj;
             obj = if_insert ''tools'' (JArray [JObject
               [(''functionDeclarations'', JArray (map function_declaration (cq_tools req)))]]) (cq_tools req \<noteq> []) obj;
             obj = opt_insert ''toolConfig'' (\<lambda>tc. JObject [(''functionCallingConfig'', function_calling_config tc)])
               (cq_tool_choice req) obj
         in JObject (or_insert_all (cq_extra req) obj))
       (those (map (message_to_gemini parse) (filter (\<lambda>m. me_role m \<noteq> System) (cq_messages req))))"

section \<open>Responses\<close>

definition map_finish_reason :: "string \<Rightarrow> finish_reason" where
  "map_finish_reason reason =
     (if reason = ''MAX_TOKENS'' then Length
      else if reason \<in> {''SAFETY'', ''RECITATION'', ''BLOCKLIST'', ''PROHIBITED_CONTENT'', ''SPII'', ''IMAGE_SAFETY''}
      then ContentFilter
      else if reason \<in> {''MALFORMED_FUNCTION_CALL'', ''UNEXPECTED_TOOL_CALL'', ''TOO_MANY_TOOL_CALLS'', ''OTHER'', ''LANGUAGE''}
      then FinishError
      else Stop)"

definition candidate_parts :: "json \<Rightarrow> json list" where
  "candidate_parts candidate =
     unwrap_or [] (Option.bind (json_get candidate ''content'') (\<lambda>c. get_array c ''parts''))"

text \<open>The chunks of a candidate's parts, and the index of the next call.\<close>

fun part_chunks :: "(json \<Rightarrow> string) \<Rightarrow> u32 \<Rightarrow> json list \<Rightarrow> u32 \<Rightarrow> stream_chunk list \<times> u32" where
  "part_chunks print index [] tool_index = ([], tool_index)"
| "part_chunks print index (part # parts) tool_index =
     (case get_str part ''text'' of
        Some text \<Rightarrow> apfst ((@) (text_chunk (Content index) (Some text))) (part_chunks print index parts tool_index)
      | None \<Rightarrow>
          (case json_get part ''functionCall'' of
             Some fc \<Rightarrow> apfst ((#) (ToolCall index \<lparr>tl_index = tool_index, tl_id = get_str fc ''id'',
                 tl_name = get_str fc ''name'', tl_arguments = map_option print (json_get fc ''args'')\<rparr>))
               (part_chunks print index parts (tool_index + 1))
           | None \<Rightarrow> part_chunks print index parts tool_index))"

definition calls_function :: "json \<Rightarrow> bool" where
  "calls_function part \<longleftrightarrow> get_str part ''text'' = None \<and> json_get part ''functionCall'' \<noteq> None"

definition gemini_candidate :: "(json \<Rightarrow> string) \<Rightarrow> json \<Rightarrow> stream_chunk list" where
  "gemini_candidate print candidate =
     (let index = ucast (unwrap_or 0 (get_u64 candidate ''index'')); parts = candidate_parts candidate
      in fst (part_chunks print index parts 0) @
         [Finish index (if list_ex calls_function parts then ToolCalls
            else unwrap_or Stop (map_option map_finish_reason (get_str candidate ''finishReason'')))])"

definition blocked :: "json \<Rightarrow> bool" where
  "blocked v \<longleftrightarrow> Option.bind (json_get v ''promptFeedback'') (\<lambda>f. get_str f ''blockReason'') \<noteq> None"

definition gemini_usage :: "json \<Rightarrow> usage" where
  "gemini_usage u =
     (let prompt = unwrap_or 0 (get_u64 u ''promptTokenCount''); completion = unwrap_or 0 (get_u64 u ''candidatesTokenCount'')
      in \<lparr>ug_prompt = prompt, ug_completion = completion,
          ug_total = unwrap_or (prompt + completion) (get_u64 u ''totalTokenCount''), ug_cost_usd = None,
          ug_cache_read = unwrap_or 0 (get_u64 u ''cachedContentTokenCount''), ug_cache_creation = 0\<rparr>)"

definition gemini_start :: "json \<Rightarrow> string \<Rightarrow> stream_chunk" where
  "gemini_start v fallback_model =
     Start (unwrap_or [] (get_str v ''responseId'')) (unwrap_or fallback_model (get_str v ''modelVersion''))"

definition usage_chunk :: "json \<Rightarrow> stream_chunk list" where
  "usage_chunk v = (case json_get v ''usageMetadata'' of Some u \<Rightarrow> [UsageReport (gemini_usage u)] | None \<Rightarrow> [])"

definition gemini_to_chunks :: "(json \<Rightarrow> string) \<Rightarrow> json \<Rightarrow> string \<Rightarrow> stream_chunk list" where
  "gemini_to_chunks print v fallback_model =
     (let candidates = unwrap_or [] (get_array v ''candidates'')
      in [gemini_start v fallback_model] @ concat (map (gemini_candidate print) candidates) @
         (if candidates = [] then [Finish 0 (if blocked v then ContentFilter else Stop)] else []) @
         usage_chunk v)"

section \<open>Streams\<close>

record gemini_state =
  gs_fallback_model :: string
  gs_seen_start :: bool
  gs_next_tool_indexes :: "(u32, u32) btree"
  gs_saw_tools :: "u32 set"
  gs_finished :: "u32 set"

definition gemini_state_new :: "string \<Rightarrow> gemini_state" where
  "gemini_state_new fallback_model =
     \<lparr>gs_fallback_model = fallback_model, gs_seen_start = False, gs_next_tool_indexes = [], gs_saw_tools = {},
      gs_finished = {}\<rparr>"

text \<open>One part of a candidate, and one candidate.\<close>

definition stream_part :: "(json \<Rightarrow> string) \<Rightarrow> u32 \<Rightarrow> json \<Rightarrow> gemini_state \<Rightarrow> stream_chunk list \<times> gemini_state" where
  "stream_part print index part st =
     (case get_str part ''text'' of
        Some text \<Rightarrow> (text_chunk (Content index) (Some text), st)
      | None \<Rightarrow>
          (case json_get part ''functionCall'' of
             Some fc \<Rightarrow>
               let tool_index = unwrap_or 0 (bt_get (gs_next_tool_indexes st) index)
               in ([ToolCall index \<lparr>tl_index = tool_index, tl_id = get_str fc ''id'',
                    tl_name = get_str fc ''name'', tl_arguments = map_option print (json_get fc ''args'')\<rparr>],
                   st\<lparr>gs_next_tool_indexes := bt_insert index (tool_index + 1) (gs_next_tool_indexes st),
                      gs_saw_tools := insert index (gs_saw_tools st)\<rparr>)
           | None \<Rightarrow> ([], st)))"

fun stream_parts :: "(json \<Rightarrow> string) \<Rightarrow> u32 \<Rightarrow> json list \<Rightarrow> gemini_state \<Rightarrow> stream_chunk list \<times> gemini_state" where
  "stream_parts print index [] st = ([], st)"
| "stream_parts print index (part # parts) st =
     (let (chunks, st) = stream_part print index part st in apfst ((@) chunks) (stream_parts print index parts st))"

definition stream_candidate :: "(json \<Rightarrow> string) \<Rightarrow> json \<Rightarrow> gemini_state \<Rightarrow> stream_chunk list \<times> gemini_state" where
  "stream_candidate print candidate st =
     (let index = ucast (unwrap_or 0 (get_u64 candidate ''index''));
          (chunks, st) = stream_parts print index (candidate_parts candidate) st
      in case get_str candidate ''finishReason'' of
           None \<Rightarrow> (chunks, st)
         | Some reason \<Rightarrow>
             if index \<in> gs_finished st then (chunks, st)
             else (chunks @ [Finish index (if index \<in> gs_saw_tools st then ToolCalls else map_finish_reason reason)],
                   st\<lparr>gs_finished := insert index (gs_finished st)\<rparr>))"

fun stream_candidates :: "(json \<Rightarrow> string) \<Rightarrow> json list \<Rightarrow> gemini_state \<Rightarrow> stream_chunk list \<times> gemini_state" where
  "stream_candidates print [] st = ([], st)"
| "stream_candidates print (c # cs) st =
     (let (chunks, st) = stream_candidate print c st in apfst ((@) chunks) (stream_candidates print cs st))"

definition gemini_event_to_chunks ::
  "(json \<Rightarrow> string) \<Rightarrow> json \<Rightarrow> gemini_state \<Rightarrow> (model_error + stream_chunk list) \<times> gemini_state" where
  "gemini_event_to_chunks print event st =
     (case json_get event ''error'' of
        Some err \<Rightarrow> (Inl (Upstream (ucast (unwrap_or 500 (get_u64 err ''code'')))
          (unwrap_or ''Gemini stream error'' (get_str err ''message''))), st)
      | None \<Rightarrow>
          (let start = (if gs_seen_start st then [] else [gemini_start event (gs_fallback_model st)]);
               (chunks, st) = stream_candidates print (unwrap_or [] (get_array event ''candidates''))
                 (st\<lparr>gs_seen_start := True\<rparr>);
               refuse = blocked event \<and> 0 \<notin> gs_finished st
           in (Inr (start @ chunks @ (if refuse then [Finish 0 ContentFilter] else []) @ usage_chunk event),
               if refuse then st\<lparr>gs_finished := insert 0 (gs_finished st)\<rparr> else st)))"

definition gemini_sse_to_stream ::
  "(json \<Rightarrow> string) \<Rightarrow> (string \<Rightarrow> string + json) \<Rightarrow> (model_error + string) list \<Rightarrow> string \<Rightarrow>
     (model_error + stream_chunk) list" where
  "gemini_sse_to_stream print parse body fallback_model =
     json_sse_to_stream parse body (gemini_state_new fallback_model) (gemini_event_to_chunks print)"

section \<open>Embeddings\<close>

definition embedding_request_to_gemini :: "embedding_request \<Rightarrow> string option \<Rightarrow> json" where
  "embedding_request_to_gemini req task_type = JObject [(''requests'', JArray (map (\<lambda>text. JObject
     (field ''model'' (JString (''models/'' @ eq_model req)) @
      field ''content'' (JObject [(''parts'', JArray [JObject [(''text'', JString text)]])]) @
      opt_field ''outputDimensionality'' json_u32 (eq_dimensions req) @
      opt_field ''taskType'' JString task_type)) (eq_input req)))]"

definition values_vector :: "json \<Rightarrow> real list" where
  "values_vector v = List.map_filter (\<lambda>x. map_option f32_round (as_f64 x)) (unwrap_or [] (get_array v ''values''))"

definition gemini_to_embeddings :: "json \<Rightarrow> string \<Rightarrow> embedding_response" where
  "gemini_to_embeddings v model =
     \<lparr>er_model = model,
      er_embeddings = enumerated (\<lambda>item i. \<lparr>em_index = of_nat i, em_vector = values_vector item\<rparr>)
        (unwrap_or [] (get_array v ''embeddings'')),
      er_usage = usage_default\<rparr>"

section \<open>Catalog and batches\<close>

text \<open>Google writes an int64 as a number or as a string.\<close>

definition google_int :: "json \<Rightarrow> u64 option" where
  "google_int v = or_else (as_u64 v) (Option.bind (as_str v) parse_u64)"

definition gemini_modality :: "string list \<Rightarrow> modality option" where
  "gemini_modality methods =
     (if ''generateContent'' \<in> set methods \<or> ''countTokens'' \<in> set methods \<or> ''batchGenerateContent'' \<in> set methods
      then Some Llm
      else if ''embedContent'' \<in> set methods \<or> ''batchEmbedContents'' \<in> set methods then Some Embeddings
      else None)"

definition token_limit :: "json \<Rightarrow> string \<Rightarrow> u32 option" where
  "token_limit m key = map_option (\<lambda>n. ucast (min n 0xFFFFFFFF)) (Option.bind (json_get m key) google_int)"

definition gemini_model_to_info :: "json \<Rightarrow> model_info option" where
  "gemini_model_to_info m =
     map_option (\<lambda>raw. (model_info_new (unwrap_or raw (strip_prefix ''models/'' raw)))
         \<lparr>mi_name := (case get_str m ''displayName'' of Some s \<Rightarrow> if s = [] then None else Some s | None \<Rightarrow> None),
          mi_modality := gemini_modality
            (List.map_filter as_str (unwrap_or [] (get_array m ''supportedGenerationMethods''))),
          mi_max_context := token_limit m ''inputTokenLimit'', mi_max_output := token_limit m ''outputTokenLimit'',
          mi_extra := copy_present m [''version'', ''description'', ''supportedGenerationMethods'', ''thinking'',
            ''temperature'', ''maxTemperature'', ''topP'', ''topK'', ''baseModelId''] []\<rparr>)
       (get_str m ''name'')"

definition map_gemini_batch_state :: "string \<Rightarrow> batch_status" where
  "map_gemini_batch_state s =
     (let last = (case split_last CHR ''_'' s of Some (_, after) \<Rightarrow> after | None \<Rightarrow> s)
      in if last = ''PENDING'' \<or> last = ''RUNNING'' then InProgress
         else if last = ''SUCCEEDED'' then Completed
         else if last = ''FAILED'' then Failed
         else if last = ''CANCELLED'' then CanceledJob
         else if last = ''EXPIRED'' then Expired
         else InProgress)"

definition no_counts :: batch_counts where
  "no_counts = \<lparr>bc_total = 0, bc_processing = 0, bc_succeeded = 0, bc_errored = 0, bc_canceled = 0, bc_expired = 0\<rparr>"

definition gemini_batch_counts :: "json \<Rightarrow> batch_counts" where
  "gemini_batch_counts stats =
     (let n = (\<lambda>k. unwrap_or 0 (Option.bind (json_get stats k) google_int))
      in \<lparr>bc_total = n ''requestCount'', bc_processing = n ''pendingRequestCount'',
          bc_succeeded = n ''successfulRequestCount'', bc_errored = n ''failedRequestCount'',
          bc_canceled = 0, bc_expired = 0\<rparr>)"

definition gemini_handle :: "string \<Rightarrow> batch_status \<Rightarrow> batch_counts \<Rightarrow> batch_handle" where
  "gemini_handle bid status counts =
     \<lparr>bh_id = bid, bh_status = status, bh_counts = counts, bh_created_at = None, bh_expires_at = None,
      bh_ended_at = None, bh_endpoint = Some ''/v1beta/models:generateContent'', bh_extra = hm_empty\<rparr>"

definition gemini_batch_to_handle :: "json \<Rightarrow> batch_handle" where
  "gemini_batch_to_handle v =
     (let metadata = json_get v ''metadata''
      in gemini_handle
           (unwrap_or [] (map_option (\<lambda>n. unwrap_or n (strip_prefix ''batches/'' n)) (get_str v ''name'')))
           (unwrap_or InProgress (map_option map_gemini_batch_state (Option.bind metadata (\<lambda>m. get_str m ''state''))))
           (unwrap_or no_counts (map_option gemini_batch_counts (Option.bind metadata (\<lambda>m. json_get m ''batchStats'')))))"

definition gemini_inline_result :: "(json \<Rightarrow> string) \<Rightarrow> json \<Rightarrow> batch_result option" where
  "gemini_inline_result print entry =
     Option.bind (Option.bind (json_get entry ''metadata'') (\<lambda>m. get_str m ''key'')) (\<lambda>custom_id.
       let err = json_get entry ''error''
       in if is_some_and (\<lambda>e. e \<noteq> JNull) err
          then Some \<lparr>br_custom_id = custom_id,
            br_outcome = Errored 0 (unwrap_or (print (the err)) (get_str (the err) ''message''))\<rparr>
          else map_option (\<lambda>response. \<lparr>br_custom_id = custom_id,
            br_outcome = Succeeded (collect_chunks (gemini_to_chunks print response []))\<rparr>) (json_get entry ''response''))"

section \<open>The Gemini provider\<close>

definition gemini_endpoint :: "provider_cx \<Rightarrow> string" where
  "gemini_endpoint cx =
     trim_slashes (unwrap_or ''https://generativelanguage.googleapis.com/v1beta'' (cx_endpoint cx))"

definition gemini_auth :: "http_request \<Rightarrow> provider_cx \<Rightarrow> http_request" where
  "gemini_auth req cx = (case cx_credential cx of Some c \<Rightarrow> with_header ''x-goog-api-key'' c req | None \<Rightarrow> req)"

text \<open>A paged listing: the pages of both providers, at most \<open>n\<close> of them.\<close>

primrec paged ::
  "nat \<Rightarrow> 'w http_transport \<Rightarrow> (string \<Rightarrow> string) \<Rightarrow> (string \<Rightarrow> string + json) \<Rightarrow> (string \<Rightarrow> http_request) \<Rightarrow>
     string \<Rightarrow> string \<Rightarrow> (json \<Rightarrow> model_info option) \<Rightarrow> model_info list \<Rightarrow> string option \<Rightarrow> ('w, model_info list) awaited" where
  "paged 0 http lossy parse request base key item out token w = (w, Inr out)"
| "paged (Suc n) http lossy parse request base key item out token w =
     (case post_json http lossy parse
         (request (base @ (case token of Some tok \<Rightarrow> ''&pageToken='' @ tok | None \<Rightarrow> []))) w of
        (w, Inl e) \<Rightarrow> (w, Inl e)
      | (w, Inr v) \<Rightarrow>
          (let out = out @ List.map_filter item (unwrap_or [] (get_array v key))
           in case get_str v ''nextPageToken'' of
                None \<Rightarrow> (w, Inr out)
              | Some tok \<Rightarrow>
                  if tok = [] then (w, Inr out)
                  else paged n http lossy parse request base key item out (Some tok) w))"

definition gemini_models ::
  "'w http_transport \<Rightarrow> (string \<Rightarrow> string) \<Rightarrow> (string \<Rightarrow> string + json) \<Rightarrow> provider_cx \<Rightarrow> ('w, model_info list) awaited" where
  "gemini_models http lossy parse cx =
     paged 100 http lossy parse (\<lambda>url. gemini_auth (http_get url) cx)
       (gemini_endpoint cx @ ''/models?pageSize=1000'') ''models'' gemini_model_to_info [] None"

text \<open>The answer to a \<open>generateContent\<close> request, streamed or whole; shared with Vertex.\<close>

definition generate ::
  "'w http_transport \<Rightarrow> (string \<Rightarrow> string) \<Rightarrow> (json \<Rightarrow> string) \<Rightarrow> (string \<Rightarrow> string + json) \<Rightarrow>
     bool \<Rightarrow> string \<Rightarrow> http_request \<Rightarrow> ('w, ('w, stream_chunk) polls) awaited" where
  "generate http lossy print parse use_stream model req w =
     (if use_stream then
        map_prod id (map_sum id (\<lambda>resp. polls_of (gemini_sse_to_stream print parse (hs_body resp) model)))
          (send_checked http lossy req w)
      else map_prod id (map_sum id (\<lambda>v. polls_of (map Inr (gemini_to_chunks print v model))))
          (post_json http lossy parse req w))"

definition generate_method :: "bool \<Rightarrow> string" where
  "generate_method use_stream = (if use_stream then ''streamGenerateContent?alt=sse'' else ''generateContent'')"

definition gemini_chat ::
  "'w http_transport \<Rightarrow> (string \<Rightarrow> string) \<Rightarrow> (json \<Rightarrow> string) \<Rightarrow> (string \<Rightarrow> string + json) \<Rightarrow>
     chat_request \<Rightarrow> provider_cx \<Rightarrow> ('w, ('w, stream_chunk) polls) awaited" where
  "gemini_chat http lossy print parse req cx w =
     (case ensure_audio_input_supported req ''gemini'' of
        Inl e \<Rightarrow> (w, Inl e)
      | Inr _ \<Rightarrow>
          (let use_stream = use_upstream_streaming cx (cq_stream req) True;
               url = gemini_endpoint cx @ ''/models/'' @ cq_model req @ '':'' @ generate_method use_stream
           in generate http lossy print parse use_stream (cq_model req)
                (gemini_auth (with_json (the (request_to_gemini parse req)) (http_post url)) cx) w))"

definition gemini_embed ::
  "'w http_transport \<Rightarrow> (string \<Rightarrow> string) \<Rightarrow> (string \<Rightarrow> string + json) \<Rightarrow>
     embedding_request \<Rightarrow> provider_cx \<Rightarrow> ('w, embedding_response) awaited" where
  "gemini_embed http lossy parse req cx w =
     (let url = gemini_endpoint cx @ ''/models/'' @ eq_model req @ '':batchEmbedContents'';
          body = embedding_request_to_gemini req (setting_str cx ''task_type'')
      in map_prod id (map_sum id (\<lambda>v. gemini_to_embeddings v (eq_model req)))
           (post_json http lossy parse (gemini_auth (with_json body (http_post url)) cx) w))"

fun ensure_items :: "batch_item list \<Rightarrow> string \<Rightarrow> model_error + unit" where
  "ensure_items [] provider = Inr ()"
| "ensure_items (item # items) provider =
     res_bind (ensure_audio_input_supported (bi_request item) provider) (\<lambda>_. ensure_items items provider)"

definition gemini_submission :: "(string \<Rightarrow> string + json) \<Rightarrow> batch_item list \<Rightarrow> json" where
  "gemini_submission parse items =
     JObject [(''batch'', JObject [(''input_config'', JObject [(''requests'', JObject [(''requests'', JArray (map (\<lambda>item.
       JObject [(''request'', the (request_to_gemini parse (bi_request item))),
         (''metadata'', JObject [(''key'', JString (bi_custom_id item))])]) items))])])])]"

definition gemini_batch_create ::
  "'w http_transport \<Rightarrow> (string \<Rightarrow> string) \<Rightarrow> (string \<Rightarrow> string + json) \<Rightarrow>
     batch_spec \<Rightarrow> provider_cx \<Rightarrow> ('w, batch_handle) awaited" where
  "gemini_batch_create http lossy parse spec cx w =
     (case ensure_items (bs_items spec) ''gemini'' of
        Inl e \<Rightarrow> (w, Inl e)
      | Inr _ \<Rightarrow>
          (let model = (case bs_items spec of item # _ \<Rightarrow> cq_model (bi_request item) | [] \<Rightarrow> []);
               url = gemini_endpoint cx @ ''/models/'' @ model @ '':batchGenerateContent''
           in map_prod id (map_sum id gemini_batch_to_handle)
                (post_json http lossy parse
                  (gemini_auth (with_json (gemini_submission parse (bs_items spec)) (http_post url)) cx) w)))"

definition gemini_batch_url :: "provider_cx \<Rightarrow> string \<Rightarrow> string" where
  "gemini_batch_url cx upstream_id = gemini_endpoint cx @ ''/batches/'' @ upstream_id"

definition gemini_batch_retrieve ::
  "'w http_transport \<Rightarrow> (string \<Rightarrow> string) \<Rightarrow> (string \<Rightarrow> string + json) \<Rightarrow>
     string \<Rightarrow> provider_cx \<Rightarrow> ('w, batch_handle) awaited" where
  "gemini_batch_retrieve http lossy parse upstream_id cx w =
     map_prod id (map_sum id gemini_batch_to_handle)
       (post_json http lossy parse (gemini_auth (http_get (gemini_batch_url cx upstream_id)) cx) w)"

definition gemini_batch_cancel ::
  "'w http_transport \<Rightarrow> (string \<Rightarrow> string) \<Rightarrow> string \<Rightarrow> provider_cx \<Rightarrow> ('w, batch_handle) awaited" where
  "gemini_batch_cancel http lossy upstream_id cx w =
     map_prod id (map_sum id (\<lambda>_. gemini_handle upstream_id Canceling no_counts))
       (send_checked http lossy (gemini_auth (http_post (gemini_batch_url cx upstream_id @ '':cancel'')) cx) w)"

definition inline_entries :: "json \<Rightarrow> json list" where
  "inline_entries v =
     unwrap_or [] (Option.bind (map_option (\<lambda>ir. unwrap_or ir (json_get ir ''inlinedResponses''))
       (Option.bind (json_get v ''response'') (\<lambda>r. json_get r ''inlinedResponses''))) as_array)"

definition gemini_batch_results ::
  "'w http_transport \<Rightarrow> (string \<Rightarrow> string) \<Rightarrow> (json \<Rightarrow> string) \<Rightarrow> (string \<Rightarrow> string + json) \<Rightarrow>
     string \<Rightarrow> provider_cx \<Rightarrow> ('w, ('w, batch_result) polls) awaited" where
  "gemini_batch_results http lossy print parse upstream_id cx w =
     map_prod id (map_sum id (\<lambda>v. polls_of (map Inr (List.map_filter (gemini_inline_result print) (inline_entries v)))))
       (post_json http lossy parse (gemini_auth (http_get (gemini_batch_url cx upstream_id)) cx) w)"

definition gemini_provider ::
  "'w http_transport \<Rightarrow> (string \<Rightarrow> string) \<Rightarrow> (json \<Rightarrow> string) \<Rightarrow> (string \<Rightarrow> string + json) \<Rightarrow> 'w provider_api" where
  "gemini_provider http lossy print parse =
     (provider_default ''gemini'' (gemini_chat http lossy print parse))
       \<lparr>pa_models := gemini_models http lossy parse,
        pa_embed := gemini_embed http lossy parse,
        pa_batch_create := gemini_batch_create http lossy parse,
        pa_batch_retrieve := gemini_batch_retrieve http lossy parse,
        pa_batch_cancel := gemini_batch_cancel http lossy,
        pa_batch_results := gemini_batch_results http lossy print parse\<rparr>"

section \<open>The Vertex provider\<close>

definition nonempty_setting :: "provider_cx \<Rightarrow> string \<Rightarrow> string option" where
  "nonempty_setting cx key = (case setting_str cx key of Some s \<Rightarrow> if s = [] then None else Some s | None \<Rightarrow> None)"

definition vertex_host :: "provider_cx \<Rightarrow> string" where
  "vertex_host cx =
     (case cx_endpoint cx of
        Some ep \<Rightarrow> trim_slashes ep
      | None \<Rightarrow>
          (case nonempty_setting cx ''location'' of
             Some loc \<Rightarrow> if loc = ''global'' then ''https://aiplatform.googleapis.com''
               else ''https://'' @ loc @ ''-aiplatform.googleapis.com''
           | None \<Rightarrow> ''https://aiplatform.googleapis.com''))"

definition resource_base :: "provider_cx \<Rightarrow> string \<Rightarrow> model_error + string" where
  "resource_base cx model =
     res_bind (ok_or (nonempty_setting cx ''project'') (Mapping ''vertex provider requires `settings.project`'')) (\<lambda>project.
     res_bind (ok_or (nonempty_setting cx ''location'') (Mapping ''vertex provider requires `settings.location`'')) (\<lambda>location.
     Inr (vertex_host cx @ ''/v1/projects/'' @ project @ ''/locations/'' @ location @
       ''/publishers/google/models/'' @ model)))"

definition vertex_auth :: "http_request \<Rightarrow> provider_cx \<Rightarrow> http_request" where
  "vertex_auth req cx = (case cx_credential cx of Some token \<Rightarrow> with_bearer token req | None \<Rightarrow> req)"

fun after_last :: "string \<Rightarrow> string \<Rightarrow> string option" where
  "after_last pat [] = (if pat = [] then Some [] else None)"
| "after_last pat (c # s) = (case after_last pat s of Some t \<Rightarrow> Some t | None \<Rightarrow> strip_prefix pat (c # s))"

definition vertex_publisher_to_info :: "json \<Rightarrow> model_info option" where
  "vertex_publisher_to_info m =
     map_option (\<lambda>raw. (model_info_new (unwrap_or raw (after_last ''/models/'' raw)))
         \<lparr>mi_extra := copy_present m [''versionId'', ''openSourceCategory'', ''launchStage'', ''versionState'',
            ''publisherModelTemplate''] []\<rparr>)
       (get_str m ''name'')"

definition vertex_models ::
  "'w http_transport \<Rightarrow> (string \<Rightarrow> string) \<Rightarrow> (string \<Rightarrow> string + json) \<Rightarrow> provider_cx \<Rightarrow> ('w, model_info list) awaited" where
  "vertex_models http lossy parse cx =
     paged 100 http lossy parse (\<lambda>url. vertex_auth (http_get url) cx)
       (vertex_host cx @ ''/v1beta1/publishers/'' @ unwrap_or ''google'' (nonempty_setting cx ''publisher'') @
        ''/models?pageSize=200'') ''publisherModels'' vertex_publisher_to_info [] None"

definition vertex_chat ::
  "'w http_transport \<Rightarrow> (string \<Rightarrow> string) \<Rightarrow> (json \<Rightarrow> string) \<Rightarrow> (string \<Rightarrow> string + json) \<Rightarrow>
     chat_request \<Rightarrow> provider_cx \<Rightarrow> ('w, ('w, stream_chunk) polls) awaited" where
  "vertex_chat http lossy print parse req cx w =
     (case ensure_audio_input_supported req ''vertex'' of
        Inl e \<Rightarrow> (w, Inl e)
      | Inr _ \<Rightarrow>
          (let use_stream = use_upstream_streaming cx (cq_stream req) True
           in case resource_base cx (cq_model req) of
                Inl e \<Rightarrow> (w, Inl e)
              | Inr base \<Rightarrow>
                  generate http lossy print parse use_stream (cq_model req)
                    (vertex_auth (with_json (the (request_to_gemini parse req))
                      (http_post (base @ '':'' @ generate_method use_stream))) cx) w))"

definition vertex_embed_request :: "embedding_request \<Rightarrow> string option \<Rightarrow> bool option \<Rightarrow> json" where
  "vertex_embed_request req task_type auto_truncate =
     (let params = opt_field ''outputDimensionality'' json_u32 (eq_dimensions req) @
            opt_field ''autoTruncate'' JBool auto_truncate
      in JObject (field ''instances'' (JArray (map (\<lambda>text. JObject
           (field ''content'' (JString text) @ opt_field ''task_type'' JString task_type)) (eq_input req))) @
         if_field ''parameters'' (JObject params) (params \<noteq> [])))"

definition reported_tokens :: "json \<Rightarrow> u64" where
  "reported_tokens item =
     unwrap_or 0 (Option.bind (Option.bind (Option.bind (json_get item ''embeddings'') (\<lambda>e. json_get e ''statistics''))
       (\<lambda>s. json_get s ''token_count'')) google_int)"

definition vertex_to_embeddings :: "json \<Rightarrow> string \<Rightarrow> embedding_response" where
  "vertex_to_embeddings v model =
     (let items = unwrap_or [] (get_array v ''predictions''); tokens = sum_list (map reported_tokens items)
      in \<lparr>er_model = model,
          er_embeddings = enumerated (\<lambda>item i. \<lparr>em_index = of_nat i,
            em_vector = (case json_get item ''embeddings'' of Some e \<Rightarrow> values_vector e | None \<Rightarrow> [])\<rparr>) items,
          er_usage = (if 0 < tokens then usage_default\<lparr>ug_prompt := tokens, ug_total := tokens\<rparr> else usage_default)\<rparr>)"

definition vertex_embed ::
  "'w http_transport \<Rightarrow> (string \<Rightarrow> string) \<Rightarrow> (string \<Rightarrow> string + json) \<Rightarrow>
     embedding_request \<Rightarrow> provider_cx \<Rightarrow> ('w, embedding_response) awaited" where
  "vertex_embed http lossy parse req cx w =
     (case resource_base cx (eq_model req) of
        Inl e \<Rightarrow> (w, Inl e)
      | Inr base \<Rightarrow>
          map_prod id (map_sum id (\<lambda>v. vertex_to_embeddings v (eq_model req)))
            (post_json http lossy parse (vertex_auth (with_json (vertex_embed_request req (setting_str cx ''task_type'')
              (Option.bind (hm_get (cx_settings cx) ''auto_truncate'') as_bool)) (http_post (base @ '':predict''))) cx) w))"

definition vertex_provider ::
  "'w http_transport \<Rightarrow> (string \<Rightarrow> string) \<Rightarrow> (json \<Rightarrow> string) \<Rightarrow> (string \<Rightarrow> string + json) \<Rightarrow> 'w provider_api" where
  "vertex_provider http lossy print parse =
     (provider_default ''vertex'' (vertex_chat http lossy print parse))
       \<lparr>pa_models := vertex_models http lossy parse, pa_embed := vertex_embed http lossy parse\<rparr>"

end
