(* ===== verification/Decoder.thy ===== *)
theory Decoder
  imports Sse
begin

text \<open>
  What holds of every chunk a stream decoder gives, whatever the body holds: the reading loops of
  \<open>crates/llmleaf-providers/src/http.rs\<close> and ollama.rs keep a relation between the chunks emitted and
  the decoder's state that one payload keeps.
\<close>

section \<open>Chunks that arrived\<close>

text \<open>The chunks of a stream that ended or failed, without the failure.\<close>

definition good_chunks :: "(model_error + stream_chunk) list \<Rightarrow> stream_chunk list" where
  "good_chunks items = List.map_filter (\<lambda>x. case x of Inl e \<Rightarrow> None | Inr c \<Rightarrow> Some c) items"

lemma good_chunks_simps [simp]:
  "good_chunks [] = []" "good_chunks (Inl e # items) = good_chunks items"
  "good_chunks (Inr c # items) = c # good_chunks items" "good_chunks (map Inr cs @ items) = cs @ good_chunks items"
  by (simp_all add: good_chunks_def map_filter_simps map_filter_append, induction cs) (simp_all add: map_filter_simps)

lemma good_chunks_append: "good_chunks (xs @ ys) = good_chunks xs @ good_chunks ys"
  by (simp add: good_chunks_def map_filter_append)

text \<open>An answer is announced once, before anything else.\<close>

fun is_start :: "stream_chunk \<Rightarrow> bool" where
  "is_start (Start _ _) = True"
| "is_start _ = False"

definition start_told :: "stream_chunk list \<Rightarrow> bool" where
  "start_told acc \<longleftrightarrow> (case acc of [] \<Rightarrow> True | c # cs \<Rightarrow> is_start c \<and> list_all (\<lambda>c. \<not> is_start c) cs)"

lemma start_told_more: "start_told acc \<Longrightarrow> acc \<noteq> [] \<Longrightarrow> list_all (\<lambda>c. \<not> is_start c) cs \<Longrightarrow> start_told (acc @ cs)"
  by (cases acc) (simp_all add: start_told_def)

lemma start_told_simps [simp]:
  "start_told []" "start_told (c # cs) \<longleftrightarrow> is_start c \<and> list_all (\<lambda>c. \<not> is_start c) cs"
  by (simp_all add: start_told_def)

section \<open>The contract of a decoder\<close>

lemma json_step_simps:
  "json_step parse mapper payload st = Onward chunks st' \<longleftrightarrow>
     payload \<noteq> ''[DONE]'' \<and> (\<exists>event. parse payload = Inr event \<and> mapper event st = (Inr chunks, st'))"
  "json_step parse mapper payload st = Over items \<Longrightarrow> good_chunks items = []"
  by (auto simp: json_step_def split: if_splits sum.splits prod.splits)

locale decoder =
  fixes step :: "string \<Rightarrow> 's \<Rightarrow> 's decoded"
    and told :: "stream_chunk list \<Rightarrow> 's \<Rightarrow> bool"
  assumes kept: "told acc st \<Longrightarrow> step payload st = Onward chunks st' \<Longrightarrow> told (acc @ chunks) st'"
    and over: "step payload st = Over items \<Longrightarrow> good_chunks items = []"
begin

lemma batch_kept:
  "told acc st \<Longrightarrow> sse_batch step payloads st = (out, rest) \<Longrightarrow>
     (\<exists>st'. told (acc @ good_chunks out) st') \<and> (case rest of Some st' \<Rightarrow> told (acc @ good_chunks out) st' | None \<Rightarrow> True)"
proof (induction payloads arbitrary: acc st out rest)
  case Nil
  then show ?case by auto
next
  case (Cons payload payloads)
  show ?case
  proof (cases "step payload st")
    case (Over items)
    with Cons.prems over [OF Over] show ?thesis by auto
  next
    case (Onward chunks st1)
    with Cons.prems(1) have one: "told (acc @ chunks) st1" by (rule kept)
    obtain out1 where out1: "sse_batch step payloads st1 = (out1, rest)" "out = map Inr chunks @ out1"
      using Cons.prems(2) Onward by (auto split: prod.splits)
    from Cons.IH [OF one out1(1)] show ?thesis unfolding out1(2) by (simp only: good_chunks_simps append_assoc)
  qed
qed

lemma stream_kept: "told acc st \<Longrightarrow> \<exists>st'. told (acc @ good_chunks (sse_stream step buf st body)) st'"
proof (induction body arbitrary: acc buf st)
  case (Cons item items)
  show ?case
  proof (cases item)
    case (Inl e)
    then show ?thesis using Cons.prems by auto
  next
    case (Inr bytes)
    obtain payloads buf1 where p: "sse_payloads buf bytes = (payloads, buf1)" by (cases "sse_payloads buf bytes")
    obtain out rest where b: "sse_batch step payloads st = (out, rest)" by (cases "sse_batch step payloads st")
    note kept = batch_kept [OF Cons.prems b]
    show ?thesis
    proof (cases rest)
      case None
      then show ?thesis using kept by (simp add: Inr p b)
    next
      case (Some st1)
      then have "told (acc @ good_chunks out) st1" using kept by simp
      from Cons.IH [OF this, of buf1] show ?thesis by (simp add: Inr p b Some good_chunks_append)
    qed
  qed
qed auto

end

end
