(* ===== verification/GeminiLaws.thy ===== *)
theory GeminiLaws
  imports Gemini Decoder
begin

text \<open>
  What the \<open>generateContent\<close> adapters promise: the \<open>expect\<close> of the audio mapping is never reached,
  whatever a streamed body holds the chunks it gives are well formed, and a stream of one whole event says
  what the unary mapper says.
\<close>

section \<open>The Gemini stream\<close>

fun finish_reason_of :: "u32 \<Rightarrow> stream_chunk \<Rightarrow> finish_reason option" where
  "finish_reason_of i (Finish j reason) = (if j = i then Some reason else None)"
| "finish_reason_of i _ = None"

fun call_index :: "u32 \<Rightarrow> stream_chunk \<Rightarrow> u32 option" where
  "call_index i (ToolCall j d) = (if j = i then Some (tl_index d) else None)"
| "call_index i _ = None"

definition finishes :: "u32 \<Rightarrow> stream_chunk list \<Rightarrow> finish_reason list" where
  "finishes i cs = List.map_filter (finish_reason_of i) cs"

definition calls :: "u32 \<Rightarrow> stream_chunk list \<Rightarrow> u32 list" where
  "calls i cs = List.map_filter (call_index i) cs"

definition numbered :: "u32 list \<Rightarrow> bool" where
  "numbered is \<longleftrightarrow> is = map of_nat [0..<length is]"

definition candidate_told :: "u32 \<Rightarrow> stream_chunk list \<Rightarrow> gemini_state \<Rightarrow> bool" where
  "candidate_told i acc st \<longleftrightarrow>
     length (finishes i acc) \<le> (if i \<in> gs_finished st then 1 else 0) \<and> numbered (calls i acc) \<and>
     unwrap_or 0 (bt_get (gs_next_tool_indexes st) i) = of_nat (length (calls i acc)) \<and>
     (i \<in> gs_saw_tools st \<longleftrightarrow> calls i acc \<noteq> [])"

definition gemini_told :: "stream_chunk list \<Rightarrow> gemini_state \<Rightarrow> bool" where
  "gemini_told acc st \<longleftrightarrow> start_told acc \<and> (acc = [] \<longleftrightarrow> \<not> gs_seen_start st) \<and>
     bt_wf (gs_next_tool_indexes st) \<and> (\<forall>i. candidate_told i acc st)"

named_theorems told_simps

lemma told_append [told_simps]:
  "finishes i (xs @ ys) = finishes i xs @ finishes i ys" "calls i (xs @ ys) = calls i xs @ calls i ys"
  "finishes i [] = []" "calls i [] = []"
  "finishes i (c # cs) = (case finish_reason_of i c of Some r \<Rightarrow> r # finishes i cs | None \<Rightarrow> finishes i cs)"
  "calls i (c # cs) = (case call_index i c of Some r \<Rightarrow> r # calls i cs | None \<Rightarrow> calls i cs)"
  by (simp_all add: finishes_def calls_def map_filter_append map_filter_simps split: option.split)

lemma numbered_snoc [told_simps]: "numbered (is @ [n]) \<longleftrightarrow> numbered is \<and> n = of_nat (length is)"
  by (simp add: numbered_def)

text \<open>One chunk at a time: what it must be for the relation to hold of the next state.\<close>

lemma quiet_told:
  assumes "gemini_told acc st" and "gs_seen_start st" and "list_all (\<lambda>c. \<not> is_start c) cs"
    and "\<And>i. finishes i cs = []" and "\<And>i. calls i cs = []"
  shows "gemini_told (acc @ cs) st"
  using assms by (auto simp: gemini_told_def candidate_told_def told_simps intro: start_told_more)

lemma part_told:
  assumes "gemini_told acc st" and "gs_seen_start st" and "stream_part print index part st = (chunks, st')"
  shows "gemini_told (acc @ chunks) st' \<and> gs_seen_start st'"
proof (cases "get_str part ''text''")
  case (Some t)
  then have "st' = st" "chunks = text_chunk (Content index) (Some t)" using assms(3) by (simp_all add: stream_part_def)
  then show ?thesis
    using quiet_told [OF assms(1,2), of chunks] assms(2) by (auto simp: text_chunk_def told_simps)
next
  case None
  show ?thesis
  proof (cases "json_get part ''functionCall''")
    case None
    with \<open>get_str part ''text'' = None\<close> assms show ?thesis by (auto simp: stream_part_def)
  next
    case (Some fc)
    have wf: "bt_wf (gs_next_tool_indexes st)" using assms(1) by (simp add: gemini_told_def)
    have one: "chunks = [ToolCall index \<lparr>tl_index = unwrap_or 0 (bt_get (gs_next_tool_indexes st) index),
          tl_id = get_str fc ''id'', tl_name = get_str fc ''name'', tl_arguments = map_option print (json_get fc ''args'')\<rparr>]"
        "st' = st\<lparr>gs_next_tool_indexes := bt_insert index (unwrap_or 0 (bt_get (gs_next_tool_indexes st) index) + 1)
             (gs_next_tool_indexes st), gs_saw_tools := insert index (gs_saw_tools st)\<rparr>"
      using assms(3) None Some by (simp_all add: stream_part_def Let_def)
    have "candidate_told i (acc @ chunks) st'" for i
    proof -
      have "candidate_told i acc st" using assms(1) by (simp add: gemini_told_def)
      then show ?thesis unfolding candidate_told_def one told_simps
        by (cases "i = index") (simp_all add: bt_get_entry [OF wf] told_simps)
    qed
    moreover have "start_told (acc @ chunks)"
      using assms(1,2) by (auto simp: gemini_told_def one(1) intro!: start_told_more)
    ultimately show ?thesis
      using assms(2) by (simp add: gemini_told_def one bt_wf_entry [OF wf])
  qed
qed

lemma parts_told:
  "gemini_told acc st \<Longrightarrow> gs_seen_start st \<Longrightarrow> stream_parts print index parts st = (chunks, st') \<Longrightarrow>
     gemini_told (acc @ chunks) st' \<and> gs_seen_start st'"
proof (induction parts arbitrary: acc st chunks)
  case (Cons part parts)
  obtain c1 st1 where one: "stream_part print index part st = (c1, st1)" by (cases "stream_part print index part st")
  obtain c2 where rest: "stream_parts print index parts st1 = (c2, st')" "chunks = c1 @ c2"
    using Cons.prems(3) one by (auto simp: apfst_def map_prod_def split: prod.splits)
  from part_told [OF Cons.prems(1,2) one] have "gemini_told (acc @ c1) st1" "gs_seen_start st1" by simp_all
  from Cons.IH [OF this rest(1)] show ?case by (simp add: rest(2))
qed simp

text \<open>Closing a candidate that is still open.\<close>

lemma finish_told:
  assumes "gemini_told acc st" and "gs_seen_start st" and "index \<notin> gs_finished st"
  shows "gemini_told (acc @ [Finish index reason]) (st\<lparr>gs_finished := insert index (gs_finished st)\<rparr>)"
proof -
  have "candidate_told i (acc @ [Finish index reason]) (st\<lparr>gs_finished := insert index (gs_finished st)\<rparr>)" for i
  proof -
    have "candidate_told i acc st" "candidate_told index acc st" using assms(1) by (simp_all add: gemini_told_def)
    then show ?thesis using assms(3) by (cases "i = index") (simp_all add: candidate_told_def told_simps)
  qed
  with assms show ?thesis by (auto simp: gemini_told_def intro!: start_told_more)
qed

lemma candidate_keeps:
  assumes "gemini_told acc st" and "gs_seen_start st" and "stream_candidate print candidate st = (chunks, st')"
  shows "gemini_told (acc @ chunks) st' \<and> gs_seen_start st'"
proof -
  let ?index = "ucast (unwrap_or 0 (get_u64 candidate ''index'')) :: u32"
  obtain c1 st1 where one: "stream_parts print ?index (candidate_parts candidate) st = (c1, st1)"
    by (cases "stream_parts print ?index (candidate_parts candidate) st")
  have kept: "gemini_told (acc @ c1) st1" "gs_seen_start st1" using parts_told [OF assms(1,2) one] by simp_all
  show ?thesis
    using assms(3) kept finish_told [OF kept, of ?index]
    by (auto simp: stream_candidate_def one Let_def split: option.splits if_splits)
qed

lemma candidates_told:
  "gemini_told acc st \<Longrightarrow> gs_seen_start st \<Longrightarrow> stream_candidates print candidates st = (chunks, st') \<Longrightarrow>
     gemini_told (acc @ chunks) st' \<and> gs_seen_start st'"
proof (induction candidates arbitrary: acc st chunks)
  case (Cons c cs)
  obtain c1 st1 where one: "stream_candidate print c st = (c1, st1)" by (cases "stream_candidate print c st")
  obtain c2 where rest: "stream_candidates print cs st1 = (c2, st')" "chunks = c1 @ c2"
    using Cons.prems(3) one by (auto simp: apfst_def map_prod_def split: prod.splits)
  from candidate_keeps [OF Cons.prems(1,2) one] have "gemini_told (acc @ c1) st1" "gs_seen_start st1" by simp_all
  from Cons.IH [OF this rest(1)] show ?case by (simp add: rest(2))
qed simp

lemma opened:
  assumes "gemini_told acc st"
  shows "gemini_told (acc @ (if gs_seen_start st then [] else [gemini_start event m])) (st\<lparr>gs_seen_start := True\<rparr>)"
  using assms by (auto simp: gemini_told_def start_told_def gemini_start_def candidate_told_def told_simps)

lemma event_told:
  assumes told: "gemini_told acc st" and event: "gemini_event_to_chunks print event st = (Inr chunks, st')"
  shows "gemini_told (acc @ chunks) st'"
proof -
  let ?start = "if gs_seen_start st then [] else [gemini_start event (gs_fallback_model st)]"
  have ok: "json_get event ''error'' = None"
    using event by (auto simp: gemini_event_to_chunks_def split: option.splits)
  obtain c st1 where run: "stream_candidates print (unwrap_or [] (get_array event ''candidates''))
      (st\<lparr>gs_seen_start := True\<rparr>) = (c, st1)" by (meson surj_pair)
  have open1: "gs_seen_start (st\<lparr>gs_seen_start := True\<rparr>)" by simp
  have kept: "gemini_told ((acc @ ?start) @ c) st1" "gs_seen_start st1"
    using candidates_told [OF opened [OF told, of event "gs_fallback_model st"] open1 run] by simp_all
  let ?refuse = "blocked event \<and> 0 \<notin> gs_finished st1"
  let ?st2 = "if ?refuse then st1\<lparr>gs_finished := insert 0 (gs_finished st1)\<rparr> else st1"
  have closed: "gemini_told (((acc @ ?start) @ c) @ (if ?refuse then [Finish 0 ContentFilter] else [])) ?st2"
  proof (cases ?refuse)
    case True
    then have "0 \<notin> gs_finished st1" by simp
    from finish_told [OF kept this] True show ?thesis by simp
  next
    case False
    then show ?thesis using kept(1) unfolding if_not_P [OF False] by (simp only: append_Nil2)
  qed
  have "gemini_told ((((acc @ ?start) @ c) @ (if ?refuse then [Finish 0 ContentFilter] else [])) @ usage_chunk event) ?st2"
    using kept(2) by (intro quiet_told [OF closed])
      (simp_all add: usage_chunk_def told_simps split: option.splits)
  then show ?thesis using event by (simp add: gemini_event_to_chunks_def ok run Let_def)
qed

interpretation gemini_stream: decoder "json_step parse (gemini_event_to_chunks print)" gemini_told for parse print
  by unfold_locales (auto simp: json_step_simps intro: event_told)

lemma gemini_told_new: "gemini_told [] (gemini_state_new model)"
  by (simp add: gemini_told_def start_told_def candidate_told_def gemini_state_new_def numbered_def told_simps bt_simps)

lemma gemini_stream_told: "\<exists>st. gemini_told (good_chunks (gemini_sse_to_stream print parse body model)) st"
  using gemini_stream.stream_kept [OF gemini_told_new, of parse print "[]" model body]
  by (simp add: gemini_sse_to_stream_def json_sse_to_stream_def)

text \<open>
  C26: whatever bytes a Gemini or Vertex upstream streams, the chunks the consumer is given are well formed:
  the first announces the answer and no other does, a candidate finishes at most once, and the calls of a
  candidate are numbered 0, 1, 2, \<dots> without gap or repetition, however the parts are spread over events.
\<close>

theorem gemini_stream_well_formed:
  "let chunks = good_chunks (gemini_sse_to_stream print parse body model)
   in start_told chunks \<and> (\<forall>i. length (finishes i chunks) \<le> 1 \<and> numbered (calls i chunks))"
proof -
  obtain st where told: "gemini_told (good_chunks (gemini_sse_to_stream print parse body model)) st"
    using gemini_stream_told by blast
  have each: "length (finishes i cs) \<le> 1 \<and> numbered (calls i cs)" if "candidate_told i cs st" for i cs
    using that by (auto simp: candidate_told_def split: if_splits)
  show ?thesis unfolding Let_def using told by (auto simp: gemini_told_def dest!: spec dest: each)
qed

section \<open>The audio preflight\<close>

lemma gemini_part_known: "unknown_audio p = None \<Longrightarrow> gemini_part p \<noteq> None"
  by (cases p) (auto split: if_splits)

lemma those_map: "list_all (\<lambda>x. f x \<noteq> None) xs \<Longrightarrow> those (map f xs) \<noteq> None"
  by (induction xs) auto

lemma preflighted:
  assumes "ensure_audio_input_supported req provider = Inr u"
  shows "request_to_gemini parse req \<noteq> None"
proof -
  have "List.map_filter unknown_audio (request_parts req) = []"
    using assms by (auto simp: ensure_audio_input_supported_def split: if_splits list.splits)
  then have known: "gemini_part p \<noteq> None" if "m \<in> set (cq_messages req)" "p \<in> set (me_content m)" for m p
    using that gemini_part_known [of p]
    by (auto simp: List.map_filter_def filter_empty_conv request_parts_def)
  have "message_to_gemini parse m \<noteq> None" if "m \<in> set (cq_messages req)" for m
    using those_map [of gemini_part "me_content m"] known [OF that]
    by (auto simp: message_to_gemini_def list_all_iff)
  then have "those (map (message_to_gemini parse) (filter (\<lambda>m. me_role m \<noteq> System) (cq_messages req))) \<noteq> None"
    by (intro those_map) (auto simp: list_all_iff)
  then show ?thesis by (auto simp: request_to_gemini_def)
qed

lemma preflighted_items:
  "ensure_items items provider = Inr u \<Longrightarrow> list_all (\<lambda>i. request_to_gemini parse (bi_request i) \<noteq> None) items"
proof (induction items)
  case (Cons item items)
  then obtain v where "ensure_audio_input_supported (bi_request item) provider = Inr v" "ensure_items items provider = Inr u"
    by (cases "ensure_audio_input_supported (bi_request item) provider") auto
  with Cons.IH preflighted show ?case by simp
qed simp

text \<open>What neither provider takes: a request for compaction, or audio in a format Gemini has no type for.\<close>

definition beyond_gemini :: "chat_request \<Rightarrow> bool" where
  "beyond_gemini req \<longleftrightarrow>
     has_compaction req \<or> hm_contains (cq_extra req) ''context_management'' \<or> hm_contains (cq_extra req) ''compaction'' \<or>
     (\<exists>m \<in> set (cq_messages req). \<exists>p \<in> set (me_content m). \<exists>data format.
        p = InputAudio data format \<and> audio_mime_type format = None)"

lemma unknown_audio_Some:
  "unknown_audio p = Some f \<longleftrightarrow> (\<exists>data. p = InputAudio data f \<and> audio_mime_type f = None)"
  by (cases p) auto

lemma preflight_beyond: "isl (ensure_audio_input_supported req provider) \<longleftrightarrow> beyond_gemini req"
proof -
  have "List.map_filter unknown_audio (request_parts req) = [] \<longleftrightarrow>
      \<not> (\<exists>m \<in> set (cq_messages req). \<exists>p \<in> set (me_content m). \<exists>f. unknown_audio p = Some f)"
    by (auto simp: List.map_filter_def filter_empty_conv request_parts_def)
  also have "\<dots> \<longleftrightarrow> \<not> (\<exists>m \<in> set (cq_messages req). \<exists>p \<in> set (me_content m). \<exists>data format.
        p = InputAudio data format \<and> audio_mime_type format = None)"
    unfolding unknown_audio_Some by blast
  finally show ?thesis
    by (cases "List.map_filter unknown_audio (request_parts req)")
      (simp_all only: ensure_audio_input_supported_def beyond_gemini_def list.case split: if_splits, simp_all)
qed

lemma preflight_cases:
  obtains (refused) e where "beyond_gemini req" "ensure_audio_input_supported req provider = Inl e"
  | (fit) body where "\<not> beyond_gemini req" "ensure_audio_input_supported req provider = Inr ()"
      "request_to_gemini parse req = Some body"
proof (cases "ensure_audio_input_supported req provider")
  case (Inl e)
  then show ?thesis using refused preflight_beyond [of req provider] by simp
next
  case (Inr u)
  then show ?thesis using fit preflight_beyond [of req provider] preflighted [OF Inr, of parse] by fastforce
qed

lemma items_beyond: "isl (ensure_items items provider) \<longleftrightarrow> list_ex (\<lambda>i. beyond_gemini (bi_request i)) items"
proof (induction items)
  case (Cons item items)
  show ?case
    by (rule preflight_cases [where req = "bi_request item" and provider = provider]) (simp_all add: res_simps Cons)
qed simp

lemma those_map_Some: "list_all (\<lambda>x. f x \<noteq> None) xs \<Longrightarrow> those (map f xs) = Some (map (\<lambda>x. the (f x)) xs)"
  by (induction xs) auto

text \<open>
  C28: the \<open>expect\<close> of the audio mapping is never reached, and only what the mapping cannot take is refused. A request
  that asks for compaction or holds audio of an unknown format is refused by both providers before anything is
  sent, and a batch holding one such request is refused whole, whatever its other items are. Any other request has a
  mapped body, and that body is what is posted: by Gemini to the generating endpoint of the model, by
  Vertex to the one of its resource, if the configuration names one; a batch is posted as its items'
  mapped bodies, in order, each under the correlation id of its item.
\<close>

theorem audio_never_panics:
  "(if beyond_gemini req
    then (\<exists>e. gemini_chat http lossy print parse req cx w = (w, Inl e)) \<and>
      (\<exists>e. vertex_chat http lossy print parse req cx w = (w, Inl e))
    else \<exists>body use_stream. request_to_gemini parse req = Some body \<and>
      use_stream = use_upstream_streaming cx (cq_stream req) True \<and>
      gemini_chat http lossy print parse req cx w =
        generate http lossy print parse use_stream (cq_model req)
          (gemini_auth (with_json body (http_post (gemini_endpoint cx @ ''/models/'' @ cq_model req @ '':'' @
             generate_method use_stream))) cx) w \<and>
      vertex_chat http lossy print parse req cx w =
        (case resource_base cx (cq_model req) of
           Inl e \<Rightarrow> (w, Inl e)
         | Inr base \<Rightarrow>
             generate http lossy print parse use_stream (cq_model req)
               (vertex_auth (with_json body (http_post (base @ '':'' @ generate_method use_stream))) cx) w)) \<and>
   (if list_ex (\<lambda>i. beyond_gemini (bi_request i)) (bs_items spec)
    then \<exists>e. gemini_batch_create http lossy parse spec cx w = (w, Inl e)
    else \<exists>bodies url. those (map (\<lambda>i. request_to_gemini parse (bi_request i)) (bs_items spec)) = Some bodies \<and>
      gemini_batch_create http lossy parse spec cx w =
        map_prod id (map_sum id gemini_batch_to_handle) (post_json http lossy parse (gemini_auth (with_json (JObject
          [(''batch'', JObject [(''input_config'', JObject [(''requests'', JObject [(''requests'', JArray
             (map2 (\<lambda>item body. JObject [(''request'', body), (''metadata'', JObject [(''key'', JString (bi_custom_id item))])])
               (bs_items spec) bodies))])])])]) (http_post url)) cx) w))"
proof (intro conjI, goal_cases)
  case 1
  show ?case
    by (rule preflight_cases [where req = req and provider = "''gemini''" and parse = parse];
        rule preflight_cases [where req = req and provider = "''vertex''" and parse = parse])
      (simp_all add: gemini_chat_def vertex_chat_def Let_def split: sum.split)
next
  case 2
  show ?case
  proof (cases "ensure_items (bs_items spec) ''gemini''")
    case (Inl e)
    then show ?thesis using items_beyond [of "bs_items spec" "''gemini''"] by (simp add: gemini_batch_create_def)
  next
    case (Inr u)
    have mapped: "those (map (\<lambda>i. request_to_gemini parse (bi_request i)) (bs_items spec)) =
        Some (map (\<lambda>i. the (request_to_gemini parse (bi_request i))) (bs_items spec))"
      by (rule those_map_Some [OF preflighted_items [OF Inr]])
    have zipped: "map2 g xs (map f xs) = map (\<lambda>x. g x (f x)) xs" for g :: "batch_item \<Rightarrow> json \<Rightarrow> json" and f xs
      by (induction xs) simp_all
    show ?thesis
      using Inr items_beyond [of "bs_items spec" "''gemini''"]
      by (simp add: mapped zipped gemini_batch_create_def gemini_submission_def Let_def) (rule exI, rule refl)
  qed
qed

section \<open>A stream of one whole event\<close>

text \<open>An event that carries a whole answer: every candidate finished, under an index of its own.\<close>

definition candidate_index :: "json \<Rightarrow> u32" where
  "candidate_index c = ucast (unwrap_or 0 (get_u64 c ''index''))"

definition whole_answer :: "json \<Rightarrow> bool" where
  "whole_answer event \<longleftrightarrow>
     (let candidates = unwrap_or [] (get_array event ''candidates'')
      in json_get event ''error'' = None \<and> list_all (\<lambda>c. get_str c ''finishReason'' \<noteq> None) candidates \<and>
         distinct (map candidate_index candidates) \<and>
         (if blocked event then candidates = [] \<or> 0 \<in> set (map candidate_index candidates) else candidates \<noteq> []))"

lemma stream_parts_fresh:
  "bt_wf (gs_next_tool_indexes st) \<Longrightarrow> unwrap_or 0 (bt_get (gs_next_tool_indexes st) index) = n \<Longrightarrow>
     stream_parts print index parts st = (chunks, st') \<Longrightarrow>
     chunks = fst (part_chunks print index parts n) \<and> gs_finished st' = gs_finished st \<and>
     gs_saw_tools st' = gs_saw_tools st \<union> (if list_ex calls_function parts then {index} else {}) \<and>
     bt_wf (gs_next_tool_indexes st') \<and>
     (\<forall>i. i \<noteq> index \<longrightarrow> bt_get (gs_next_tool_indexes st') i = bt_get (gs_next_tool_indexes st) i)"
proof (induction parts arbitrary: st n chunks)
  case (Cons part parts)
  obtain c1 st1 where one: "stream_part print index part st = (c1, st1)" by (cases "stream_part print index part st")
  obtain c2 where rest: "stream_parts print index parts st1 = (c2, st')" "chunks = c1 @ c2"
    using Cons.prems(3) one by (auto simp: apfst_def map_prod_def split: prod.splits)
  consider (words) t where "get_str part ''text'' = Some t"
    | (call) fc where "get_str part ''text'' = None" "json_get part ''functionCall'' = Some fc"
    | (other) "get_str part ''text'' = None" "json_get part ''functionCall'' = None"
    by (cases "get_str part ''text''"; cases "json_get part ''functionCall''") auto
  then show ?case
  proof cases
    case words
    with one have "st1 = st" "c1 = text_chunk (Content index) (Some t)" by (simp_all add: stream_part_def)
    with Cons.IH [of st n c2] Cons.prems rest words show ?thesis by (simp add: calls_function_def)
  next
    case call
    have wf: "bt_wf (gs_next_tool_indexes st)" by (rule Cons.prems(1))
    from call one Cons.prems have st1: "gs_next_tool_indexes st1 = bt_insert index (n + 1) (gs_next_tool_indexes st)"
        "gs_saw_tools st1 = insert index (gs_saw_tools st)" "gs_finished st1 = gs_finished st"
        "c1 = [ToolCall index \<lparr>tl_index = n, tl_id = get_str fc ''id'',
          tl_name = get_str fc ''name'', tl_arguments = map_option print (json_get fc ''args'')\<rparr>]"
      by (auto simp: stream_part_def)
    have "bt_wf (gs_next_tool_indexes st1)" "unwrap_or 0 (bt_get (gs_next_tool_indexes st1) index) = n + 1"
      by (simp_all add: st1 bt_get_entry [OF wf] bt_wf_entry [OF wf])
    from Cons.IH [OF this rest(1)] call show ?thesis
      by (auto simp: rest(2) st1 calls_function_def bt_get_entry [OF wf])
  next
    case other
    with one have "st1 = st" "c1 = []" by (simp_all add: stream_part_def)
    with Cons.IH [of st n c2] Cons.prems rest other show ?thesis by (simp add: calls_function_def)
  qed
qed simp

lemma stream_candidate_whole:
  assumes "bt_wf (gs_next_tool_indexes st)" and "bt_get (gs_next_tool_indexes st) (candidate_index c) = None"
    and "candidate_index c \<notin> gs_saw_tools st" and "candidate_index c \<notin> gs_finished st"
    and "get_str c ''finishReason'' \<noteq> None" and run: "stream_candidate print c st = (chunks, st')"
  shows "chunks = gemini_candidate print c" and "bt_wf (gs_next_tool_indexes st')"
    and "gs_finished st' = insert (candidate_index c) (gs_finished st)"
    and "i \<noteq> candidate_index c \<Longrightarrow> bt_get (gs_next_tool_indexes st') i = bt_get (gs_next_tool_indexes st) i \<and>
      (i \<in> gs_saw_tools st' \<longleftrightarrow> i \<in> gs_saw_tools st)"
proof -
  obtain c1 st1 where one: "stream_parts print (candidate_index c) (candidate_parts c) st = (c1, st1)"
    by (cases "stream_parts print (candidate_index c) (candidate_parts c) st")
  obtain reason where "get_str c ''finishReason'' = Some reason" using assms(5) by blast
  with stream_parts_fresh [OF assms(1) _ one, of 0] assms one
  have "chunks = gemini_candidate print c \<and> bt_wf (gs_next_tool_indexes st') \<and>
      gs_finished st' = insert (candidate_index c) (gs_finished st) \<and>
      (\<forall>i. i \<noteq> candidate_index c \<longrightarrow> bt_get (gs_next_tool_indexes st') i = bt_get (gs_next_tool_indexes st) i \<and>
        (i \<in> gs_saw_tools st' \<longleftrightarrow> i \<in> gs_saw_tools st))"
    by (auto simp: stream_candidate_def gemini_candidate_def candidate_index_def Let_def)
  then show "chunks = gemini_candidate print c" and "bt_wf (gs_next_tool_indexes st')"
    and "gs_finished st' = insert (candidate_index c) (gs_finished st)"
    and "i \<noteq> candidate_index c \<Longrightarrow> bt_get (gs_next_tool_indexes st') i = bt_get (gs_next_tool_indexes st) i \<and>
      (i \<in> gs_saw_tools st' \<longleftrightarrow> i \<in> gs_saw_tools st)" by simp_all
qed

lemma stream_candidates_whole:
  "bt_wf (gs_next_tool_indexes st) \<Longrightarrow>
     (\<And>i. i \<in> set (map candidate_index cs) \<Longrightarrow>
        bt_get (gs_next_tool_indexes st) i = None \<and> i \<notin> gs_saw_tools st \<and> i \<notin> gs_finished st) \<Longrightarrow>
     list_all (\<lambda>c. get_str c ''finishReason'' \<noteq> None) cs \<Longrightarrow> distinct (map candidate_index cs) \<Longrightarrow>
     stream_candidates print cs st = (chunks, st') \<Longrightarrow>
     chunks = concat (map (gemini_candidate print) cs) \<and>
     gs_finished st' = gs_finished st \<union> set (map candidate_index cs)"
proof (induction cs arbitrary: st chunks)
  case (Cons c cs)
  obtain c1 st1 where one: "stream_candidate print c st = (c1, st1)" by (cases "stream_candidate print c st")
  obtain c2 where rest: "stream_candidates print cs st1 = (c2, st')" "chunks = c1 @ c2"
    using Cons.prems(5) one by (auto simp: apfst_def map_prod_def split: prod.splits)
  have fresh: "bt_get (gs_next_tool_indexes st) (candidate_index c) = None"
      "candidate_index c \<notin> gs_saw_tools st" "candidate_index c \<notin> gs_finished st" "get_str c ''finishReason'' \<noteq> None"
    using Cons.prems(2) [of "candidate_index c"] Cons.prems(3) by simp_all
  note whole = stream_candidate_whole [OF Cons.prems(1) fresh one]
  have later: "bt_get (gs_next_tool_indexes st1) i = None \<and> i \<notin> gs_saw_tools st1 \<and> i \<notin> gs_finished st1"
    if "i \<in> set (map candidate_index cs)" for i
  proof -
    have "i \<noteq> candidate_index c" using that Cons.prems(4) by (metis distinct.simps(2) list.simps(9))
    with whole(3) whole(4) [of i] Cons.prems(2) [of i] that show ?thesis by simp
  qed
  have "list_all (\<lambda>c. get_str c ''finishReason'' \<noteq> None) cs" "distinct (map candidate_index cs)"
    using Cons.prems(3,4) by simp_all
  from Cons.IH [OF whole(2) later this rest(1)] show ?case by (simp add: rest(2) whole(1,3))
qed simp

text \<open>
  C27: streaming and waiting tell the same story. An event holding a whole answer, every candidate finished
  under its own index, is decoded by the streaming mapper into exactly the chunks of the unary mapper: the
  same announcement, parts, call numbers, finish reasons (calls over the upstream's reason, a refused prompt
  as filtered content) and usage.
\<close>

theorem whole_event_is_unary:
  assumes "whole_answer event"
  shows "fst (gemini_event_to_chunks print event (gemini_state_new model)) = Inr (gemini_to_chunks print event model)"
proof -
  let ?cs = "unwrap_or [] (get_array event ''candidates'')"
  let ?st = "gemini_state_new model\<lparr>gs_seen_start := True\<rparr>"
  obtain c st1 where run: "stream_candidates print ?cs ?st = (c, st1)" by (meson surj_pair)
  have fresh: "gs_next_tool_indexes ?st = []" "gs_saw_tools ?st = {}" "gs_finished ?st = {}"
    "\<not> gs_seen_start (gemini_state_new model)" "gs_fallback_model (gemini_state_new model) = model"
    by (simp_all add: gemini_state_new_def)
  note parts = assms [unfolded whole_answer_def Let_def]
  note whole = parts [THEN conjunct1] parts [THEN conjunct2, THEN conjunct1]
    parts [THEN conjunct2, THEN conjunct2, THEN conjunct1] parts [THEN conjunct2, THEN conjunct2, THEN conjunct2]
  have ran: "c = concat (map (gemini_candidate print) ?cs)" "gs_finished st1 = set (map candidate_index ?cs)"
    using stream_candidates_whole [OF _ _ whole(2,3) run] by (simp_all add: fresh bt_simps)
  have "blocked event \<and> 0 \<notin> gs_finished st1 \<longleftrightarrow> ?cs = []"
    using whole(4) unfolding ran(2) by (cases "blocked event"; cases ?cs) auto
  then show ?thesis
    using whole(4)
    by (auto simp: gemini_event_to_chunks_def gemini_to_chunks_def whole(1) fresh run ran(1) Let_def)
qed

definition whole_event :: json where
  "whole_event = JObject [(''candidates'', JArray [JObject
     [(''content'', JObject [(''parts'', JArray [JObject [(''text'', JString ''hi'')],
        JObject [(''functionCall'', JObject [(''name'', JString ''f''), (''args'', JObject [])])]])]),
      (''finishReason'', JString ''STOP'')]])]"

theorem whole_event_is_unary_witness:
  "whole_answer whole_event \<and>
   fst (gemini_event_to_chunks (\<lambda>_. ''{}'') whole_event (gemini_state_new ''m'')) =
     Inr [Start [] ''m'', Content 0 ''hi'', ToolCall 0 \<lparr>tl_index = 0, tl_id = None, tl_name = Some ''f'',
       tl_arguments = Some ''{}''\<rparr>, Finish 0 ToolCalls]"
proof -
  have whole: "whole_answer whole_event" by code_simp
  have "gemini_to_chunks (\<lambda>_. ''{}'') whole_event ''m'' =
      [Start [] ''m'', Content 0 ''hi'', ToolCall 0 \<lparr>tl_index = 0, tl_id = None, tl_name = Some ''f'',
       tl_arguments = Some ''{}''\<rparr>, Finish 0 ToolCalls]" by code_simp
  with whole_event_is_unary [OF whole, of "\<lambda>_. ''{}''" "''m''"] whole show ?thesis by simp
qed

end
