(* ===== verification/Cohere.thy ===== *)
theory Cohere
  imports AnthropicProvider OpenAIMedia
begin

text \<open>
  The Cohere provider, \<open>crates/llmleaf-providers/src/cohere.rs\<close>: chat over \<open>/v2/chat\<close>, whole or as an
  event stream, embeddings, rerank and the paged catalog. Parameters: the transport, \<open>lossy\<close>, \<open>print\<close>
  and \<open>parse\<close> (serde_json).
\<close>

section \<open>Requests\<close>

fun cohere_document :: "(json \<Rightarrow> string) \<Rightarrow> rerank_document \<Rightarrow> json" where
  "cohere_document print d =
     (case rerank_as_text d of
        Some s \<Rightarrow> JString s
      | None \<Rightarrow> (case d of Rich obj \<Rightarrow> JString (print (JObject obj)) | DocText s \<Rightarrow> JString s))"

definition rerank_request_to_cohere :: "(json \<Rightarrow> string) \<Rightarrow> rerank_request \<Rightarrow> json" where
  "rerank_request_to_cohere print req =
     JObject (or_insert_all (rq_extra req)
       (opt_insert ''top_n'' json_u32 (rq_top_n req)
         (hm_insert ''documents'' (JArray (map (cohere_document print) (rq_documents req)))
           (hm_insert ''query'' (JString (rq_query req))
             (hm_insert ''model'' (JString (rq_model req)) hm_empty)))))"

definition embedding_request_to_cohere :: "embedding_request \<Rightarrow> string \<Rightarrow> json" where
  "embedding_request_to_cohere req input_type =
     JObject (or_insert_all (eq_extra req)
       (hm_insert ''embedding_types'' (JArray [JString ''float''])
         (hm_insert ''input_type'' (JString input_type)
           (hm_insert ''texts'' (JArray (map JString (eq_input req)))
             (hm_insert ''model'' (JString (eq_model req)) hm_empty)))))"

definition message_to_cohere :: "message \<Rightarrow> json" where
  "message_to_cohere msg =
     (let obj = hm_insert ''role'' (JString (role_str (me_role msg))) hm_empty
      in if me_role msg = Tool then
           JObject (hm_insert ''content'' (JArray [JObject [(''type'', JString ''document''),
               (''document'', JObject [(''data'', JString (text_content msg))])]])
             (hm_insert ''tool_call_id'' (JString (unwrap_or [] (me_tool_call_id msg))) obj))
         else
           let text = text_content msg;
               obj = if_insert ''content'' (JString text) (text \<noteq> []) obj
           in JObject (if_insert ''tool_calls'' (JArray (map tool_call_to_openai (me_tool_calls msg)))
                (me_tool_calls msg \<noteq> []) obj))"

fun tool_choice_to_cohere :: "tool_choice \<Rightarrow> json option" where
  "tool_choice_to_cohere ChooseRequired = Some (JString ''REQUIRED'')"
| "tool_choice_to_cohere (Named _) = Some (JString ''REQUIRED'')"
| "tool_choice_to_cohere ChooseNone = Some (JString ''NONE'')"
| "tool_choice_to_cohere ChooseAuto = None"

text \<open>A tool as Cohere and Ollama write it, an absent description as \<open>null\<close>.\<close>

definition tool_with_null :: "tool_def \<Rightarrow> json" where
  "tool_with_null t = JObject [(''type'', JString ''function''), (''function'', JObject
     [(''name'', JString (td_name t)), (''description'', json_opt JString (td_description t)),
      (''parameters'', td_parameters t)])]"

definition request_to_cohere :: "chat_request \<Rightarrow> json_map" where
  "request_to_cohere req =
     (let obj = hm_insert ''model'' (JString (cq_model req)) hm_empty;
          obj = hm_insert ''messages'' (JArray (map message_to_cohere (cq_messages req))) obj;
          obj = opt_insert ''max_tokens'' json_u32 (cq_max_tokens req) obj;
          obj = opt_insert ''temperature'' json_f64 (cq_temperature req) obj;
          obj = opt_insert ''p'' json_f64 (cq_top_p req) obj;
          obj = if_insert ''stop_sequences'' (JArray (map JString (cq_stop req))) (cq_stop req \<noteq> []) obj;
          obj = if_insert ''tools'' (JArray (map tool_with_null (cq_tools req))) (cq_tools req \<noteq> []) obj;
          obj = opt_insert ''tool_choice'' (\<lambda>c. c) (Option.bind (cq_tool_choice req) tool_choice_to_cohere) obj;
          obj = opt_insert ''thinking'' (\<lambda>t. JObject [(''type'', JString ''enabled''),
            (''token_budget'', json_u32 (budget_tokens t))]) (cq_thinking req) obj
      in or_insert_all (cq_extra req) obj)"

section \<open>Responses\<close>

definition cohere_finish_reason :: "string \<Rightarrow> finish_reason" where
  "cohere_finish_reason reason =
     (if reason = ''MAX_TOKENS'' then Length
      else if reason = ''TOOL_CALL'' then ToolCalls
      else if reason = ''ERROR'' \<or> reason = ''TIMEOUT'' then FinishError
      else Stop)"

definition cohere_usage :: "u64 \<Rightarrow> u64 \<Rightarrow> stream_chunk" where
  "cohere_usage prompt completion = UsageReport
     \<lparr>ug_prompt = prompt, ug_completion = completion, ug_total = prompt + completion, ug_cost_usd = None,
      ug_cache_read = 0, ug_cache_creation = 0\<rparr>"

definition cohere_to_chunks :: "json \<Rightarrow> string \<Rightarrow> stream_chunk list" where
  "cohere_to_chunks v fallback_model =
     (let message = json_get v ''message''
      in [Start (unwrap_or [] (get_str v ''id'')) fallback_model] @
         concat (map (\<lambda>block. text_chunk (Content 0) (get_str block ''text''))
           (unwrap_or [] (Option.bind message (\<lambda>m. get_array m ''content'')))) @
         enumerated (\<lambda>tc i. ToolCall 0 (openai_tool_call (of_nat i) tc))
           (unwrap_or [] (Option.bind message (\<lambda>m. get_array m ''tool_calls''))) @
         [Finish 0 (unwrap_or Stop (map_option cohere_finish_reason (get_str v ''finish_reason'')))] @
         (case Option.bind (json_get v ''meta'') (\<lambda>m. json_get m ''tokens'') of
            Some tokens \<Rightarrow> [cohere_usage (unwrap_or 0 (get_u64 tokens ''input_tokens''))
              (unwrap_or 0 (get_u64 tokens ''output_tokens''))]
          | None \<Rightarrow> []))"

section \<open>Streams\<close>

text \<open>\<open>f64 as u64\<close> saturates and truncates.\<close>

definition f64_as_u64 :: "real \<Rightarrow> u64" where
  "f64_as_u64 r = (if r \<le> 0 then 0 else if 2 ^ 64 \<le> r then - 1 else of_int \<lfloor>r\<rfloor>)"

definition cohere_token_count :: "json option \<Rightarrow> u64" where
  "cohere_token_count v = unwrap_or 0 (or_else (Option.bind v as_u64) (map_option f64_as_u64 (Option.bind v as_f64)))"

definition streamed_calls :: "json \<Rightarrow> json option" where
  "streamed_calls event =
     Option.bind (Option.bind (json_get event ''delta'') (\<lambda>d. json_get d ''message'')) (\<lambda>m. json_get m ''tool_calls'')"

definition cohere_event_to_chunks :: "json \<Rightarrow> string \<Rightarrow> (model_error + stream_chunk list) \<times> string" where
  "cohere_event_to_chunks event model =
     (let kind = get_str event ''type''; index = ucast (unwrap_or 0 (get_u64 event ''index'')) :: u32
      in if kind = Some ''message-start'' then (Inr [Start (unwrap_or [] (get_str event ''id'')) model], model)
         else if kind = Some ''content-delta'' then
           (Inr (text_chunk (Content 0) (Option.bind (Option.bind (Option.bind (json_get event ''delta'')
              (\<lambda>d. json_get d ''message'')) (\<lambda>m. json_get m ''content'')) (\<lambda>c. get_str c ''text''))), model)
         else if kind = Some ''tool-call-start'' then
           (let call = unwrap_or JNull (streamed_calls event); func = json_get call ''function''
            in (Inr [ToolCall 0 \<lparr>tl_index = index, tl_id = get_str call ''id'',
                 tl_name = Option.bind func (\<lambda>f. get_str f ''name''),
                 tl_arguments = (case Option.bind func (\<lambda>f. get_str f ''arguments'') of
                     Some a \<Rightarrow> if a = [] then None else Some a | None \<Rightarrow> None)\<rparr>], model))
         else if kind = Some ''tool-call-delta'' then
           (case Option.bind (Option.bind (streamed_calls event) (\<lambda>c. json_get c ''function'')) (\<lambda>f. get_str f ''arguments'') of
              Some arguments \<Rightarrow> (Inr [ToolCall 0 \<lparr>tl_index = index, tl_id = None, tl_name = None,
                tl_arguments = Some arguments\<rparr>], model)
            | None \<Rightarrow> (Inr [], model))
         else if kind = Some ''message-end'' then
           (let delta = unwrap_or JNull (json_get event ''delta'')
            in (Inr (Finish 0 (unwrap_or Stop (map_option cohere_finish_reason (get_str delta ''finish_reason''))) #
                 (case Option.bind (json_get delta ''usage'') (\<lambda>u. json_get u ''tokens'') of
                    Some tokens \<Rightarrow> [cohere_usage (cohere_token_count (json_get tokens ''input_tokens''))
                      (cohere_token_count (json_get tokens ''output_tokens''))]
                  | None \<Rightarrow> [])), model))
         else if kind = Some ''error'' then
           (Inl (Upstream 500 (unwrap_or ''Cohere stream error'' (Option.bind
              (or_else (json_get event ''message'') (Option.bind (json_get event ''error'') (\<lambda>e. json_get e ''message'')))
              as_str))), model)
         else (Inr [], model))"

definition cohere_sse_to_stream ::
  "(string \<Rightarrow> string + json) \<Rightarrow> (model_error + string) list \<Rightarrow> string \<Rightarrow> (model_error + stream_chunk) list" where
  "cohere_sse_to_stream parse body fallback_model = json_sse_to_stream parse body fallback_model cohere_event_to_chunks"

section \<open>Rerank, embeddings and the catalog\<close>

text \<open>What Cohere bills, reported as the prompt.\<close>

definition billed :: "json \<Rightarrow> string \<Rightarrow> usage" where
  "billed v key =
     (let n = unwrap_or 0 (Option.bind (Option.bind (json_get v ''meta'') (\<lambda>m. json_get m ''billed_units''))
            (\<lambda>b. get_u64 b key))
      in usage_default\<lparr>ug_prompt := n, ug_total := n\<rparr>)"

definition cohere_to_rerank :: "json \<Rightarrow> string \<Rightarrow> rerank_response" where
  "cohere_to_rerank v model =
     \<lparr>rk_model = model,
      rk_results = enumerated (\<lambda>item i. \<lparr>rr_index = item_index item i,
          rr_score = unwrap_or 0 (map_option f32_round (Option.bind (json_get item ''relevance_score'') as_f64)),
          rr_document = None\<rparr>) (unwrap_or [] (get_array v ''results'')),
      rk_usage = billed v ''search_units''\<rparr>"

text \<open>A vector written as an array of numbers; what is not a number is skipped.\<close>

definition number_row :: "json \<Rightarrow> real list" where
  "number_row v = List.map_filter (\<lambda>x. map_option f32_round (as_f64 x)) (case v of JArray xs \<Rightarrow> xs | _ \<Rightarrow> [])"

definition number_rows :: "json list \<Rightarrow> embedding list" where
  "number_rows rows = enumerated (\<lambda>row i. \<lparr>em_index = of_nat i, em_vector = number_row row\<rparr>) rows"

definition cohere_to_embeddings :: "json \<Rightarrow> string \<Rightarrow> embedding_response" where
  "cohere_to_embeddings v model =
     \<lparr>er_model = model,
      er_embeddings = number_rows (unwrap_or [] (Option.bind (json_get v ''embeddings'') (\<lambda>e. get_array e ''float''))),
      er_usage = billed v ''input_tokens''\<rparr>"

definition cohere_model_to_info :: "json \<Rightarrow> model_info option" where
  "cohere_model_to_info m =
     map_option (\<lambda>mid.
         let endpoints = List.map_filter as_str (unwrap_or [] (get_array m ''endpoints''))
         in (model_info_new mid)
           \<lparr>mi_modality := (if ''chat'' \<in> set endpoints \<or> ''generate'' \<in> set endpoints then Some Llm
              else if ''embed'' \<in> set endpoints then Some Embeddings
              else if ''rerank'' \<in> set endpoints then Some Rerank
              else None),
            mi_max_context := map_option (\<lambda>n. ucast (min n 0xFFFFFFFF)) (get_u64 m ''context_length''),
            mi_extra := copy_present m [''endpoints'', ''default_endpoints'', ''finetuned'', ''is_deprecated'',
              ''tokenizer_url'', ''features'', ''sampling_defaults''] []\<rparr>)
       (get_str m ''name'')"

section \<open>The provider\<close>

definition cohere_endpoint :: "provider_cx \<Rightarrow> string" where
  "cohere_endpoint cx = trim_slashes (unwrap_or ''https://api.cohere.com'' (cx_endpoint cx))"

definition bearer_auth :: "http_request \<Rightarrow> provider_cx \<Rightarrow> http_request" where
  "bearer_auth req cx = (case cx_credential cx of Some cred \<Rightarrow> with_bearer cred req | None \<Rightarrow> req)"

definition cohere_post :: "provider_cx \<Rightarrow> string \<Rightarrow> string \<Rightarrow> json \<Rightarrow> http_request" where
  "cohere_post cx path accept body =
     bearer_auth (with_json body (with_header ''Accept'' accept (http_post (cohere_endpoint cx @ path)))) cx"

text \<open>The listing, at most \<open>n\<close> pages of it.\<close>

primrec cohere_pages ::
  "nat \<Rightarrow> 'w http_transport \<Rightarrow> (string \<Rightarrow> string) \<Rightarrow> (string \<Rightarrow> string + json) \<Rightarrow> provider_cx \<Rightarrow>
     model_info list \<Rightarrow> string option \<Rightarrow> ('w, model_info list) awaited" where
  "cohere_pages 0 http lossy parse cx out token w = (w, Inr out)"
| "cohere_pages (Suc n) http lossy parse cx out token w =
     (let url = cohere_endpoint cx @ ''/v1/models?page_size=1000'' @
            (case token of Some tok \<Rightarrow> ''&page_token='' @ tok | None \<Rightarrow> [])
      in case post_json http lossy parse
           (bearer_auth (with_header ''Accept'' ''application/json'' (http_get url)) cx) w of
        (w, Inl e) \<Rightarrow> (w, Inl e)
      | (w, Inr v) \<Rightarrow>
          (let out = out @ List.map_filter cohere_model_to_info (unwrap_or [] (get_array v ''models''))
           in case get_str v ''next_page_token'' of
                None \<Rightarrow> (w, Inr out)
              | Some tok \<Rightarrow>
                  if tok = [] then (w, Inr out) else cohere_pages n http lossy parse cx out (Some tok) w))"

definition cohere_models ::
  "'w http_transport \<Rightarrow> (string \<Rightarrow> string) \<Rightarrow> (string \<Rightarrow> string + json) \<Rightarrow> provider_cx \<Rightarrow> ('w, model_info list) awaited" where
  "cohere_models http lossy parse cx = cohere_pages 100 http lossy parse cx [] None"

text \<open>The refusals of the providers without compaction and audio input.\<close>

definition refuse_chat :: "string \<Rightarrow> chat_request \<Rightarrow> model_error option" where
  "refuse_chat name req =
     (if hm_contains (cq_extra req) ''context_management'' \<or> hm_contains (cq_extra req) ''compaction'' \<or> has_compaction req
      then Some (Unsupported ''native API compaction is not supported by this endpoint'')
      else if has_input_audio req then Some (unsupported name ''audio input in chat'')
      else None)"

definition cohere_chat ::
  "'w http_transport \<Rightarrow> (string \<Rightarrow> string) \<Rightarrow> (string \<Rightarrow> string + json) \<Rightarrow>
     chat_request \<Rightarrow> provider_cx \<Rightarrow> ('w, ('w, stream_chunk) polls) awaited" where
  "cohere_chat http lossy parse req cx w =
     (case refuse_chat ''cohere'' req of
        Some e \<Rightarrow> (w, Inl e)
      | None \<Rightarrow>
          (let use_stream = use_upstream_streaming cx (cq_stream req) True;
               body = JObject (hm_insert ''stream'' (JBool use_stream) (request_to_cohere req));
               accept = (if use_stream then ''text/event-stream'' else ''application/json'');
               http_req = cohere_post cx ''/v2/chat'' accept body
           in if use_stream then
                map_prod id (map_sum id (\<lambda>resp. polls_of (cohere_sse_to_stream parse (hs_body resp) (cq_model req))))
                  (send_checked http lossy http_req w)
              else
                map_prod id (map_sum id (\<lambda>v. polls_of (map Inr (cohere_to_chunks v (cq_model req)))))
                  (post_json http lossy parse http_req w)))"

definition cohere_embed ::
  "'w http_transport \<Rightarrow> (string \<Rightarrow> string) \<Rightarrow> (string \<Rightarrow> string + json) \<Rightarrow>
     embedding_request \<Rightarrow> provider_cx \<Rightarrow> ('w, embedding_response) awaited" where
  "cohere_embed http lossy parse req cx w =
     map_prod id (map_sum id (\<lambda>v. cohere_to_embeddings v (eq_model req)))
       (post_json http lossy parse (cohere_post cx ''/v2/embed'' ''application/json''
         (embedding_request_to_cohere req (unwrap_or ''search_document'' (setting_str cx ''input_type'')))) w)"

definition cohere_rerank ::
  "'w http_transport \<Rightarrow> (string \<Rightarrow> string) \<Rightarrow> (json \<Rightarrow> string) \<Rightarrow> (string \<Rightarrow> string + json) \<Rightarrow>
     rerank_request \<Rightarrow> provider_cx \<Rightarrow> ('w, rerank_response) awaited" where
  "cohere_rerank http lossy print parse req cx w =
     map_prod id (map_sum id (\<lambda>v. cohere_to_rerank v (rq_model req)))
       (post_json http lossy parse (cohere_post cx ''/v2/rerank'' ''application/json''
         (rerank_request_to_cohere print req)) w)"

definition cohere_provider ::
  "'w http_transport \<Rightarrow> (string \<Rightarrow> string) \<Rightarrow> (json \<Rightarrow> string) \<Rightarrow> (string \<Rightarrow> string + json) \<Rightarrow> 'w provider_api" where
  "cohere_provider http lossy print parse =
     (provider_default ''cohere'' (cohere_chat http lossy parse))
       \<lparr>pa_models := cohere_models http lossy parse,
        pa_embed := cohere_embed http lossy parse,
        pa_rerank := cohere_rerank http lossy print parse\<rparr>"

end
