(* ===== verification/Ollama.thy ===== *)
theory Ollama
  imports Cohere Decoder
begin

text \<open>
  The Ollama provider, \<open>crates/llmleaf-providers/src/ollama.rs\<close>: the native chat surface with its
  newline-delimited JSON stream, embeddings, and the catalog joined from two endpoints. Parameters: the
  transport, \<open>lossy\<close>, \<open>print\<close> and \<open>parse\<close> (serde_json).
\<close>

section \<open>Requests\<close>

fun think_value :: "effort \<Rightarrow> string" where
  "think_value Low = ''low''"
| "think_value Med = ''medium''"
| "think_value High = ''high''"
| "think_value Highx = ''high''"
| "think_value Max = ''max''"

definition ollama_image_b64 :: "string \<Rightarrow> string option" where
  "ollama_image_b64 url =
     (case after_first '';base64,'' url of
        Some payload \<Rightarrow> Some payload
      | None \<Rightarrow>
          if strip_prefix ''http://'' url \<noteq> None \<or> strip_prefix ''https://'' url \<noteq> None then None else Some url)"

fun part_image :: "content_part \<Rightarrow> string option" where
  "part_image (ImageUrl url detail) = ollama_image_b64 url"
| "part_image _ = None"

definition ollama_call :: "(string \<Rightarrow> string + json) \<Rightarrow> tool_call \<Rightarrow> nat \<Rightarrow> json" where
  "ollama_call parse c i = JObject
     (if_field ''id'' (JString (tc_id c)) (tc_id c \<noteq> []) @
      field ''function'' (JObject [(''index'', json_u64 (of_nat i)), (''name'', JString (tc_name c)),
        (''arguments'', case parse (tc_arguments c) of Inl _ \<Rightarrow> JObject [] | Inr v \<Rightarrow> v)]))"

definition message_to_ollama :: "(string \<Rightarrow> string + json) \<Rightarrow> message \<Rightarrow> json" where
  "message_to_ollama parse msg =
     (let images = List.map_filter part_image (me_content msg);
          obj = hm_insert ''role'' (JString (role_str (me_role msg))) hm_empty;
          obj = hm_insert ''content'' (JString (text_content msg)) obj;
          obj = if_insert ''images'' (JArray (map JString images)) (images \<noteq> []) obj;
          obj = (if me_role msg = Tool
            then opt_insert ''tool_call_id'' JString (me_tool_call_id msg) (opt_insert ''tool_name'' JString (me_name msg) obj)
            else obj)
      in JObject (if_insert ''tool_calls'' (JArray (enumerated (ollama_call parse) (me_tool_calls msg)))
           (me_tool_calls msg \<noteq> []) obj))"

definition ollama_options :: "chat_request \<Rightarrow> json_map" where
  "ollama_options req =
     (let options = (case hm_get (cq_extra req) ''options'' of Some (JObject m) \<Rightarrow> m | _ \<Rightarrow> hm_empty);
          options = opt_insert ''temperature'' json_f64 (cq_temperature req) options;
          options = opt_insert ''top_p'' json_f64 (cq_top_p req) options;
          options = opt_insert ''num_predict'' json_u32 (cq_max_tokens req) options
      in if_insert ''stop'' (JArray (map JString (cq_stop req))) (cq_stop req \<noteq> []) options)"

definition request_to_ollama :: "(string \<Rightarrow> string + json) \<Rightarrow> chat_request \<Rightarrow> string option \<Rightarrow> bool \<Rightarrow> json" where
  "request_to_ollama parse req keep_alive stream =
     (let obj = hm_insert ''model'' (JString (cq_model req)) hm_empty;
          obj = hm_insert ''messages'' (JArray (map (message_to_ollama parse) (cq_messages req))) obj;
          options = ollama_options req;
          obj = if_insert ''options'' (JObject options) (options \<noteq> []) obj;
          obj = if_insert ''tools'' (JArray (map tool_with_null (cq_tools req))) (cq_tools req \<noteq> []) obj;
          obj = opt_insert ''think'' (\<lambda>t. JString (think_value t)) (cq_thinking req) obj;
          obj = opt_insert ''keep_alive'' JString keep_alive obj;
          obj = or_insert_all (cq_extra req) obj
      in JObject (hm_insert ''stream'' (JBool stream) obj))"

section \<open>Responses\<close>

definition map_done_reason :: "string \<Rightarrow> finish_reason" where
  "map_done_reason reason = (if reason = ''length'' then Length else Stop)"

definition ollama_tool_call :: "(json \<Rightarrow> string) \<Rightarrow> json \<Rightarrow> stream_chunk" where
  "ollama_tool_call print tc =
     (let func = json_get tc ''function''
      in ToolCall 0 \<lparr>tl_index = ucast (unwrap_or 0 (Option.bind func (\<lambda>f. get_u64 f ''index''))),
           tl_id = get_str tc ''id'', tl_name = Option.bind func (\<lambda>f. get_str f ''name''),
           tl_arguments = map_option print (Option.bind func (\<lambda>f. json_get f ''arguments''))\<rparr>)"

text \<open>The end of an answer.\<close>

definition ollama_done :: "json \<Rightarrow> bool \<Rightarrow> stream_chunk list" where
  "ollama_done v saw_tool =
     (if unwrap_or False (Option.bind (json_get v ''done'') as_bool) then
        let prompt = unwrap_or 0 (get_u64 v ''prompt_eval_count''); completion = unwrap_or 0 (get_u64 v ''eval_count'')
        in [Finish 0 (if saw_tool then ToolCalls
              else unwrap_or Stop (map_option map_done_reason (get_str v ''done_reason''))),
            UsageReport \<lparr>ug_prompt = prompt, ug_completion = completion, ug_total = prompt + completion,
              ug_cost_usd = None, ug_cache_read = 0, ug_cache_creation = 0\<rparr>]
      else [])"

text \<open>The two flags: whether the answer was announced, and whether it called a tool.\<close>

definition ollama_chunk_to_canonical ::
  "(json \<Rightarrow> string) \<Rightarrow> json \<Rightarrow> bool \<times> bool \<Rightarrow> stream_chunk list \<times> bool \<times> bool" where
  "ollama_chunk_to_canonical print v flags =
     (let (seen_start, saw_tool) = flags;
          message = json_get v ''message'';
          calls = map (ollama_tool_call print) (unwrap_or [] (Option.bind message (\<lambda>m. get_array m ''tool_calls'')));
          saw_tool = (saw_tool \<or> calls \<noteq> [])
      in ((if seen_start then [] else [Start [] (unwrap_or [] (get_str v ''model''))]) @
          text_chunk (Content 0) (Option.bind message (\<lambda>m. get_str m ''content'')) @ calls @
          ollama_done v saw_tool, True, saw_tool))"

section \<open>Newline-delimited JSON\<close>

definition ndjson_line :: "string \<Rightarrow> string option" where
  "ndjson_line raw =
     (let raw = (if raw \<noteq> [] \<and> last raw = CHR 0x0D then butlast raw else raw)
      in if utf8_valid raw \<and> str_trim raw \<noteq> [] then Some (str_trim raw) else None)"

function drain_ndjson :: "string \<Rightarrow> string list \<times> string" where
  "drain_ndjson buf =
     (case split_first (CHR 0x0A) buf of
        None \<Rightarrow> ([], buf)
      | Some (raw, rest) \<Rightarrow>
          let (out, buf) = drain_ndjson rest
          in (case ndjson_line raw of None \<Rightarrow> out | Some line \<Rightarrow> line # out, buf))"
  by pat_completeness auto
termination
  by (relation "measure length") (auto dest!: split_first_SomeD)

declare drain_ndjson.simps [simp del]

definition ndjson_lines :: "string \<Rightarrow> string \<Rightarrow> string list \<times> string" where
  "ndjson_lines buf incoming = drain_ndjson (buf @ incoming)"

definition ollama_step ::
  "(json \<Rightarrow> string) \<Rightarrow> (string \<Rightarrow> string + json) \<Rightarrow> string \<Rightarrow> bool \<times> bool \<Rightarrow> (bool \<times> bool) decoded" where
  "ollama_step print parse line flags =
     (case parse line of
        Inl e \<Rightarrow> Over [Inl (Mapping e)]
      | Inr v \<Rightarrow>
          (case get_str v ''error'' of
             Some err \<Rightarrow> Over [Inl (Upstream 500 err)]
           | None \<Rightarrow> (case ollama_chunk_to_canonical print v flags of (chunks, flags) \<Rightarrow> Onward chunks flags)))"

text \<open>The stream loop; a line the body never ends is not read.\<close>

fun ndjson_stream ::
  "(string \<Rightarrow> 's \<Rightarrow> 's decoded) \<Rightarrow> string \<Rightarrow> 's \<Rightarrow> (model_error + string) list \<Rightarrow>
     (model_error + stream_chunk) list" where
  "ndjson_stream step buf st [] = []"
| "ndjson_stream step buf st (Inl e # items) = [Inl e]"
| "ndjson_stream step buf st (Inr bytes # items) =
     (let (lines, buf) = ndjson_lines buf bytes
      in case sse_batch step lines st of
           (out, None) \<Rightarrow> out
         | (out, Some st) \<Rightarrow> out @ ndjson_stream step buf st items)"

section \<open>Embeddings and the catalog\<close>

definition embedding_request_to_ollama :: "embedding_request \<Rightarrow> string option \<Rightarrow> json" where
  "embedding_request_to_ollama req keep_alive =
     JObject (or_insert_all (eq_extra req)
       (opt_insert ''keep_alive'' JString keep_alive
         (opt_insert ''dimensions'' json_u32 (eq_dimensions req)
           (hm_insert ''input'' (JArray (map JString (eq_input req)))
             (hm_insert ''model'' (JString (eq_model req)) hm_empty)))))"

definition ollama_to_embeddings :: "json \<Rightarrow> string \<Rightarrow> embedding_response" where
  "ollama_to_embeddings v fallback_model =
     (let prompt = unwrap_or 0 (get_u64 v ''prompt_eval_count'')
      in \<lparr>er_model = unwrap_or fallback_model (get_str v ''model''),
          er_embeddings = number_rows (unwrap_or [] (get_array v ''embeddings'')),
          er_usage = usage_default\<lparr>ug_prompt := prompt, ug_total := prompt\<rparr>\<rparr>)"

definition ollama_tag_to_info :: "json \<Rightarrow> model_info option" where
  "ollama_tag_to_info m =
     map_option (\<lambda>mid. (model_info_new mid)
         \<lparr>mi_extra := copy_present m [''size'', ''digest'', ''modified_at'', ''details''] []\<rparr>)
       (or_else (get_str m ''model'') (get_str m ''name''))"

definition enrich_from_capabilities :: "json \<Rightarrow> model_info \<Rightarrow> model_info" where
  "enrich_from_capabilities detail info =
     (case json_get detail ''capabilities'' of
        Some (JArray caps) \<Rightarrow>
          (let names = List.map_filter as_str caps
           in info\<lparr>mi_modality := (if ''completion'' \<in> set names then Some Llm
                else if ''embedding'' \<in> set names then Some Embeddings else mi_modality info),
              mi_extra := hm_insert ''capabilities'' (JArray caps) (mi_extra info)\<rparr>)
      | _ \<Rightarrow> info)"

definition enrich_context :: "json \<Rightarrow> model_info \<Rightarrow> model_info" where
  "enrich_context detail info =
     (case json_get detail ''model_info'' of
        Some (JObject mi) \<Rightarrow>
          (case Option.bind (hm_get mi ''general.architecture'') as_str of
             Some arch \<Rightarrow>
               (case Option.bind (hm_get mi (arch @ ''.context_length'')) as_u64 of
                  Some ctx \<Rightarrow> info\<lparr>mi_max_context := Some (ucast (min ctx 0xFFFFFFFF))\<rparr>
                | None \<Rightarrow> info)
           | None \<Rightarrow> info)
      | _ \<Rightarrow> info)"

definition enrich_from_show :: "json \<Rightarrow> model_info \<Rightarrow> model_info" where
  "enrich_from_show detail info = enrich_context detail (enrich_from_capabilities detail info)"

section \<open>The provider\<close>

definition ollama_endpoint :: "provider_cx \<Rightarrow> string" where
  "ollama_endpoint cx = trim_slashes (unwrap_or ''http://localhost:11434'' (cx_endpoint cx))"

definition fetch_show ::
  "'w http_transport \<Rightarrow> (string \<Rightarrow> string) \<Rightarrow> (string \<Rightarrow> string + json) \<Rightarrow> provider_cx \<Rightarrow> string \<Rightarrow> ('w, json) awaited" where
  "fetch_show http lossy parse cx model =
     post_json http lossy parse (bearer_auth
       (with_json (JObject [(''model'', JString model)]) (http_post (ollama_endpoint cx @ ''/api/show''))) cx)"

text \<open>The enrichment; the source keeps eight of these calls in flight, their results in catalog order.\<close>

fun enrich_all ::
  "'w http_transport \<Rightarrow> (string \<Rightarrow> string) \<Rightarrow> (string \<Rightarrow> string + json) \<Rightarrow> provider_cx \<Rightarrow>
     model_info list \<Rightarrow> 'w \<Rightarrow> 'w \<times> model_info list" where
  "enrich_all http lossy parse cx [] w = (w, [])"
| "enrich_all http lossy parse cx (info # infos) w =
     (let (w, r) = fetch_show http lossy parse cx (mi_id info) w;
          info = (case r of Inr detail \<Rightarrow> enrich_from_show detail info | Inl _ \<Rightarrow> info)
      in map_prod id ((#) info) (enrich_all http lossy parse cx infos w))"

definition ollama_models ::
  "'w http_transport \<Rightarrow> (string \<Rightarrow> string) \<Rightarrow> (string \<Rightarrow> string + json) \<Rightarrow> provider_cx \<Rightarrow> ('w, model_info list) awaited" where
  "ollama_models http lossy parse cx w =
     (case post_json http lossy parse (bearer_auth (http_get (ollama_endpoint cx @ ''/api/tags'')) cx) w of
        (w, Inl e) \<Rightarrow> (w, Inl e)
      | (w, Inr v) \<Rightarrow> map_prod id Inr (enrich_all http lossy parse cx
          (List.map_filter ollama_tag_to_info (unwrap_or [] (get_array v ''models''))) w))"

definition ollama_chat ::
  "'w http_transport \<Rightarrow> (string \<Rightarrow> string) \<Rightarrow> (json \<Rightarrow> string) \<Rightarrow> (string \<Rightarrow> string + json) \<Rightarrow>
     chat_request \<Rightarrow> provider_cx \<Rightarrow> ('w, ('w, stream_chunk) polls) awaited" where
  "ollama_chat http lossy print parse req cx w =
     (case refuse_chat ''ollama'' req of
        Some e \<Rightarrow> (w, Inl e)
      | None \<Rightarrow>
          (let use_stream = use_upstream_streaming cx (cq_stream req) True;
               http_req = bearer_auth (with_json (request_to_ollama parse req (setting_str cx ''keep_alive'') use_stream)
                 (http_post (ollama_endpoint cx @ ''/api/chat''))) cx
           in if use_stream then
                map_prod id (map_sum id (\<lambda>resp. polls_of
                    (ndjson_stream (ollama_step print parse) [] (False, False) (hs_body resp))))
                  (send_checked http lossy http_req w)
              else
                map_prod id (map_sum id (\<lambda>v. polls_of
                    (map Inr (fst (ollama_chunk_to_canonical print v (False, False))))))
                  (post_json http lossy parse http_req w)))"

definition ollama_embed ::
  "'w http_transport \<Rightarrow> (string \<Rightarrow> string) \<Rightarrow> (string \<Rightarrow> string + json) \<Rightarrow>
     embedding_request \<Rightarrow> provider_cx \<Rightarrow> ('w, embedding_response) awaited" where
  "ollama_embed http lossy parse req cx w =
     map_prod id (map_sum id (\<lambda>v. ollama_to_embeddings v (eq_model req)))
       (post_json http lossy parse (bearer_auth
         (with_json (embedding_request_to_ollama req (setting_str cx ''keep_alive''))
           (http_post (ollama_endpoint cx @ ''/api/embed''))) cx) w)"

definition ollama_provider ::
  "'w http_transport \<Rightarrow> (string \<Rightarrow> string) \<Rightarrow> (json \<Rightarrow> string) \<Rightarrow> (string \<Rightarrow> string + json) \<Rightarrow> 'w provider_api" where
  "ollama_provider http lossy print parse =
     (provider_default ''ollama'' (ollama_chat http lossy print parse))
       \<lparr>pa_models := ollama_models http lossy parse, pa_embed := ollama_embed http lossy parse\<rparr>"

section \<open>Framing\<close>

text \<open>The reference: the complete lines of the body, cut once the whole body is there.\<close>

definition ndjson_events :: "string \<Rightarrow> string list" where
  "ndjson_events bytes = List.map_filter ndjson_line (butlast (lines_of bytes))"

lemma ndjson_events_append: "ndjson_events (a @ b) = ndjson_events a @ ndjson_events (pending a @ b)"
  unfolding ndjson_events_def lines_of_pending_append
  by (simp add: lines_of_append butlast_append map_filter_append pending_def)

lemma drain_ndjson_spec: "drain_ndjson s = (ndjson_events s, pending s)"
proof (induction s rule: drain_ndjson.induct)
  case (1 s)
  show ?case
  proof (cases "split_first (CHR 0x0A) s")
    case None
    then have "lines_of s = [s]" by (simp add: split_first_None_iff lines_of_single)
    with None show ?thesis by (simp add: drain_ndjson.simps [of s] ndjson_events_def pending_def map_filter_simps)
  next
    case (Some lr)
    then obtain line rest where lr: "split_first (CHR 0x0A) s = Some (line, rest)" by (cases lr) auto
    have "lines_of s = line # lines_of rest"
      using split_first_SomeD [OF lr] by (simp add: lines_of_line)
    then show ?thesis
      using "1.IH" [OF lr refl]
      by (simp add: drain_ndjson.simps [of s] lr ndjson_events_def pending_def map_filter_simps split: option.split)
  qed
qed

lemma ndjson_stream_pieces:
  "pending buf = buf \<Longrightarrow>
     ndjson_stream step buf st (map Inr pieces) = fst (sse_batch step (ndjson_events (buf @ concat pieces)) st)"
proof (induction pieces arbitrary: buf st)
  case Nil
  then have "lines_of buf = [buf]" using lines_of_pending [of buf] by simp
  then show ?case by (simp add: ndjson_events_def map_filter_simps)
next
  case (Cons piece pieces)
  let ?b = "pending (buf @ piece)"
  have IH: "ndjson_stream step ?b st' (map Inr pieces) = fst (sse_batch step (ndjson_events (?b @ concat pieces)) st')" for st'
    by (rule Cons.IH) (simp add: pending_def [of ?b] lines_of_pending)
  have whole: "ndjson_events (buf @ concat (piece # pieces)) =
      ndjson_events (buf @ piece) @ ndjson_events (?b @ concat pieces)"
    using ndjson_events_append [of "buf @ piece" "concat pieces"] by simp
  show ?case
    unfolding whole
    by (simp add: ndjson_lines_def drain_ndjson_spec sse_batch_append IH split: option.splits prod.splits)
qed

section \<open>What a stream tells\<close>

context decoder begin

lemma ndjson_kept: "told acc st \<Longrightarrow> \<exists>st'. told (acc @ good_chunks (ndjson_stream step buf st body)) st'"
proof (induction body arbitrary: acc buf st)
  case (Cons item items)
  show ?case
  proof (cases item)
    case (Inl e)
    then show ?thesis using Cons.prems by auto
  next
    case (Inr bytes)
    obtain payloads buf1 where p: "ndjson_lines buf bytes = (payloads, buf1)" by (cases "ndjson_lines buf bytes")
    obtain out rest where b: "sse_batch step payloads st = (out, rest)" by (cases "sse_batch step payloads st")
    note kept = batch_kept [OF Cons.prems b]
    show ?thesis
    proof (cases rest)
      case None
      then show ?thesis using kept by (simp add: Inr p b)
    next
      case (Some st1)
      then have "told (acc @ good_chunks out) st1" using kept by simp
      from Cons.IH [OF this, of buf1] show ?thesis by (simp add: Inr p b Some good_chunks_append)
    qed
  qed
qed auto

end

text \<open>No candidate is finished with another reason once it called a tool.\<close>

fun is_call :: "stream_chunk \<Rightarrow> bool" where
  "is_call (ToolCall _ _) = True"
| "is_call _ = False"

fun other_finish :: "stream_chunk \<Rightarrow> bool" where
  "other_finish (Finish _ reason) = (reason \<noteq> ToolCalls)"
| "other_finish _ = False"

fun calls_finish :: "bool \<Rightarrow> stream_chunk list \<Rightarrow> bool" where
  "calls_finish called [] = True"
| "calls_finish called (c # cs) = (\<not> (called \<and> other_finish c) \<and> calls_finish (called \<or> is_call c) cs)"

definition ollama_told :: "stream_chunk list \<Rightarrow> bool \<times> bool \<Rightarrow> bool" where
  "ollama_told acc flags \<longleftrightarrow> start_told acc \<and> (acc = [] \<longleftrightarrow> \<not> fst flags) \<and> (snd flags \<longleftrightarrow> list_ex is_call acc) \<and>
     calls_finish False acc"

lemma calls_finish_append:
  "calls_finish called (xs @ ys) \<longleftrightarrow> calls_finish called xs \<and> calls_finish (called \<or> list_ex is_call xs) ys"
  by (induction xs arbitrary: called) auto

lemma calls_finish_silent: "list_all (\<lambda>c. \<not> other_finish c) cs \<Longrightarrow> calls_finish called cs"
  by (induction cs arbitrary: called) auto

lemma ollama_calls:
  "list_all is_call (map (ollama_tool_call print) tcs)" "list_all (\<lambda>c. \<not> other_finish c) (map (ollama_tool_call print) tcs)"
  "list_all (\<lambda>c. \<not> is_start c) (map (ollama_tool_call print) tcs)"
  by (induction tcs) (simp_all add: ollama_tool_call_def Let_def)

lemma ollama_texts:
  "list_all (\<lambda>c. \<not> is_start c) (text_chunk (Content 0) t)" "list_all (\<lambda>c. \<not> other_finish c) (text_chunk (Content 0) t)"
  "\<not> list_ex is_call (text_chunk (Content 0) t)"
  by (simp_all add: text_chunk_def split: option.split)

lemma ollama_done_told:
  "list_all (\<lambda>c. \<not> is_start c) (ollama_done v saw)" "\<not> list_ex is_call (ollama_done v saw)"
  "calls_finish saw (ollama_done v saw)"
  by (simp_all add: ollama_done_def Let_def)

lemma object_told:
  assumes "ollama_told acc flags"
  shows "ollama_told (acc @ fst (ollama_chunk_to_canonical print v flags)) (snd (ollama_chunk_to_canonical print v flags))"
proof -
  obtain seen saw where flags: "flags = (seen, saw)" by (cases flags)
  define start where "start = (if seen then [] else [Start [] (unwrap_or [] (get_str v ''model''))])"
  define words where "words = text_chunk (Content 0) (Option.bind (json_get v ''message'') (\<lambda>m. get_str m ''content''))"
  define calls where "calls = map (ollama_tool_call print)
    (unwrap_or [] (Option.bind (json_get v ''message'') (\<lambda>m. get_array m ''tool_calls'')))"
  define saw1 where "saw1 = (saw \<or> calls \<noteq> [])"
  have result: "ollama_chunk_to_canonical print v flags = (start @ words @ calls @ ollama_done v saw1, True, saw1)"
    by (simp add: ollama_chunk_to_canonical_def flags Let_def start_def words_def calls_def saw1_def)
  note quiet = ollama_texts [of "Option.bind (json_get v ''message'') (\<lambda>m. get_str m ''content'')", folded words_def]
    ollama_calls [of print "unwrap_or [] (Option.bind (json_get v ''message'') (\<lambda>m. get_array m ''tool_calls''))",
      folded calls_def] ollama_done_told [where v = v and saw = saw1]
  have some: "list_ex is_call calls \<longleftrightarrow> calls \<noteq> []" using quiet(4) by (cases calls) auto
  have past: "list_ex is_call acc \<longleftrightarrow> saw" "acc = [] \<longleftrightarrow> \<not> seen" "start_told acc" "calls_finish False acc"
    using assms by (simp_all add: ollama_told_def flags)
  have silent: "\<not> list_ex is_call start" "list_all (\<lambda>c. \<not> other_finish c) start" by (simp_all add: start_def)
  have "calls_finish saw (start @ words @ calls @ ollama_done v saw1)"
    by (simp add: calls_finish_append calls_finish_silent quiet silent some flip: saw1_def)
  then have "calls_finish False (acc @ start @ words @ calls @ ollama_done v saw1)"
    using past(1,4) by (simp add: calls_finish_append [of False acc])
  moreover have "list_ex is_call (acc @ start @ words @ calls @ ollama_done v saw1) \<longleftrightarrow> saw1"
    using quiet by (auto simp: past(1) silent some saw1_def)
  moreover have "start_told (acc @ start @ words @ calls @ ollama_done v saw1)"
  proof (cases seen)
    case True
    then have "list_all (\<lambda>c. \<not> is_start c) (start @ words @ calls @ ollama_done v saw1)" by (simp add: start_def quiet)
    with True past show ?thesis by (intro start_told_more) auto
  next
    case False
    with past(2) show ?thesis by (simp add: start_def quiet)
  qed
  moreover have "acc @ start @ words @ calls @ ollama_done v saw1 \<noteq> []" using past(2) by (cases seen) (auto simp: start_def)
  ultimately show ?thesis by (simp add: result ollama_told_def)
qed

lemma line_told:
  assumes "ollama_told acc flags" and "ollama_step print parse line flags = Onward chunks flags'"
  shows "ollama_told (acc @ chunks) flags'"
proof -
  obtain v where "ollama_chunk_to_canonical print v flags = (chunks, flags')"
    using assms(2) by (auto simp: ollama_step_def split: sum.splits option.splits prod.splits)
  with object_told [OF assms(1), of print v] show ?thesis by simp
qed

lemma line_over: "ollama_step print parse line flags = Over items \<Longrightarrow> good_chunks items = []"
  by (auto simp: ollama_step_def split: sum.splits option.splits prod.splits)

interpretation ollama_stream: decoder "ollama_step print parse" ollama_told for print parse
  by unfold_locales (rule line_told line_over, assumption+)+

text \<open>
  C31: an Ollama stream is read line by line, and how the network cuts it does not matter: the chunks
  are those of the complete lines of the whole body, so an object the body never ends with a newline is not
  read. Whatever the lines hold, the answer is announced once and first, and after a tool call no
  finish carries another reason.
\<close>

theorem ollama_framing:
  "ndjson_stream (ollama_step print parse) [] (False, False) (map Inr pieces) =
     fst (sse_batch (ollama_step print parse) (ndjson_events (concat pieces)) (False, False)) \<and>
   start_told (good_chunks (ndjson_stream (ollama_step print parse) [] (False, False) body)) \<and>
   calls_finish False (good_chunks (ndjson_stream (ollama_step print parse) [] (False, False) body))"
proof (intro conjI)
  show "ndjson_stream (ollama_step print parse) [] (False, False) (map Inr pieces) =
     fst (sse_batch (ollama_step print parse) (ndjson_events (concat pieces)) (False, False))"
    using ndjson_stream_pieces [of "[]"] by (simp add: pending_def)
next
  have "ollama_told [] (False, False)" by (simp add: ollama_told_def)
  from ollama_stream.ndjson_kept [OF this, of print parse "[]" body]
  show "start_told (good_chunks (ndjson_stream (ollama_step print parse) [] (False, False) body))"
    "calls_finish False (good_chunks (ndjson_stream (ollama_step print parse) [] (False, False) body))"
    by (auto simp: ollama_told_def)
qed

end
