(* ===== verification/Moonshot.thy ===== *)
theory Moonshot
  imports Compat
begin

text \<open>
  The Moonshot provider, \<open>crates/llmleaf-providers/src/moonshot.rs\<close>: an OpenAI-compatible provider that
  rewrites the schemas of tools and structured outputs into the subset its upstream validates, and lifts
  the catalog's capability flags. A rewrite answers whether it changed anything, and the object.
\<close>

section \<open>Rewrites of one node\<close>

text \<open>\<open>entry(k).or_insert\<close> and a value edited in place.\<close>

definition or_insert :: "string \<Rightarrow> json \<Rightarrow> json_map \<Rightarrow> json_map" where
  "or_insert k v m = (if hm_contains m k then m else hm_insert k v m)"

fun is_array :: "json \<Rightarrow> bool" where
  "is_array (JArray _) = True"
| "is_array _ = False"

definition definitions_to_defs :: "json_map \<Rightarrow> bool \<times> json_map" where
  "definitions_to_defs obj =
     (case hm_get obj ''definitions'' of
        None \<Rightarrow> (False, obj)
      | Some defs \<Rightarrow>
          (let obj = hm_remove ''definitions'' obj
           in (True, case hm_get obj ''$defs'' of
                 None \<Rightarrow> hm_insert ''$defs'' defs obj
               | Some (JObject existing) \<Rightarrow>
                   (case defs of JObject moved \<Rightarrow> hm_insert ''$defs'' (JObject (or_insert_all moved existing)) obj | _ \<Rightarrow> obj)
               | Some _ \<Rightarrow> obj)))"

definition push_new :: "json \<Rightarrow> json list \<Rightarrow> json list" where
  "push_new v xs = (if v \<in> set xs then xs else xs @ [v])"

definition merge_key :: "string \<Rightarrow> json \<Rightarrow> json_map \<Rightarrow> json_map" where
  "merge_key k v obj =
     (case hm_get obj k of
        None \<Rightarrow> hm_insert k v obj
      | Some (JObject existing) \<Rightarrow>
          (case v of
             JObject moved \<Rightarrow>
               if k = ''properties'' \<or> k = ''patternProperties''
               then hm_insert k (JObject (or_insert_all moved existing)) obj else obj
           | _ \<Rightarrow> obj)
      | Some (JArray existing) \<Rightarrow>
          (case v of
             JArray moved \<Rightarrow> if k = ''required'' then hm_insert k (JArray (fold push_new moved existing)) obj else obj
           | _ \<Rightarrow> obj)
      | Some _ \<Rightarrow> obj)"

fun merge_branch :: "json \<Rightarrow> json_map \<Rightarrow> json_map" where
  "merge_branch (JObject branch) obj = fold (\<lambda>(k, v). merge_key k v) branch obj"
| "merge_branch _ obj = obj"

definition merge_all_of :: "json_map \<Rightarrow> bool \<times> json_map" where
  "merge_all_of obj =
     (case hm_get obj ''allOf'' of
        None \<Rightarrow> (False, obj)
      | Some (JArray branches) \<Rightarrow> (True, fold merge_branch branches (hm_remove ''allOf'' obj))
      | Some _ \<Rightarrow> (True, hm_remove ''allOf'' obj))"

definition const_to_enum :: "json_map \<Rightarrow> bool \<times> json_map" where
  "const_to_enum obj =
     (case hm_get obj ''const'' of
        None \<Rightarrow> (False, obj)
      | Some c \<Rightarrow> (True, hm_insert ''enum'' (JArray [c]) (hm_remove ''const'' obj)))"

definition one_of_to_any_of :: "json_map \<Rightarrow> bool \<times> json_map" where
  "one_of_to_any_of obj =
     (case hm_get obj ''oneOf'' of
        None \<Rightarrow> (False, obj)
      | Some one_of \<Rightarrow>
          (let obj = hm_remove ''oneOf'' obj
           in (True, case hm_get obj ''anyOf'' of
                 None \<Rightarrow> hm_insert ''anyOf'' one_of obj
               | Some (JArray existing) \<Rightarrow>
                   (case one_of of JArray moved \<Rightarrow> hm_insert ''anyOf'' (JArray (existing @ moved)) obj | _ \<Rightarrow> obj)
               | Some _ \<Rightarrow> obj)))"

fun is_string :: "json \<Rightarrow> bool" where
  "is_string (JString _) = True"
| "is_string _ = False"

definition split_types :: "json list \<Rightarrow> json_map \<Rightarrow> json_map" where
  "split_types types obj =
     (let branches = map (\<lambda>t. JObject [(''type'', t)]) (filter is_string types); obj = hm_remove ''type'' obj
      in if \<not> hm_contains obj ''anyOf'' \<and> branches \<noteq> [] then hm_insert ''anyOf'' (JArray branches) obj else obj)"

definition split_type_array :: "json_map \<Rightarrow> bool \<times> json_map" where
  "split_type_array obj =
     (case hm_get obj ''type'' of
        Some (JArray types) \<Rightarrow>
          (True, case types of
             [JString single] \<Rightarrow> hm_insert ''type'' (JString single) obj
           | _ \<Rightarrow> split_types types obj)
      | _ \<Rightarrow> (False, obj))"

fun give_type :: "json \<Rightarrow> json \<Rightarrow> json" where
  "give_type ty (JObject b) = JObject (if hm_contains b ''$ref'' then b else or_insert ''type'' ty b)"
| "give_type ty v = v"

definition push_type_into_any_of :: "json_map \<Rightarrow> bool \<times> json_map" where
  "push_type_into_any_of obj =
     (case (hm_get obj ''anyOf'', hm_get obj ''type'') of
        (Some any_of, Some ty) \<Rightarrow>
          (let obj = hm_remove ''type'' obj
           in (True, case any_of of
                 JArray branches \<Rightarrow> hm_insert ''anyOf'' (JArray (map (give_type ty) branches)) obj
               | _ \<Rightarrow> obj))
      | _ \<Rightarrow> (False, obj))"

definition isolate_ref :: "json_map \<Rightarrow> bool \<times> json_map" where
  "isolate_ref obj =
     (if length obj \<le> 1 then (False, obj)
      else case hm_get obj ''$ref'' of
        None \<Rightarrow> (False, obj)
      | Some reference \<Rightarrow>
          (let obj = hm_remove ''$ref'' obj; branch = JObject [(''$ref'', reference)]
           in (True, hm_insert ''anyOf'' (JArray (case hm_get obj ''anyOf'' of
                 Some (JArray existing) \<Rightarrow> existing @ [branch]
               | _ \<Rightarrow> [branch])) obj)))"

text \<open>The branches a tuple folds into, and the object without the positions they came from.\<close>

definition take_prefix :: "json_map \<Rightarrow> json list \<times> json_map" where
  "take_prefix obj =
     (case hm_get obj ''prefixItems'' of
        Some (JArray items) \<Rightarrow> (items, hm_remove ''prefixItems'' obj)
      | _ \<Rightarrow> ([], obj))"

definition take_items :: "json list \<Rightarrow> json_map \<Rightarrow> json list \<times> json_map" where
  "take_items branches obj =
     (case hm_get obj ''items'' of
        None \<Rightarrow> (branches, obj)
      | Some (JArray tuple) \<Rightarrow> (branches @ tuple, hm_remove ''items'' obj)
      | Some v \<Rightarrow> if branches \<noteq> [] then (branches @ [v], hm_remove ''items'' obj) else (branches, obj))"

definition fold_tuple_items :: "json_map \<Rightarrow> bool \<times> json_map" where
  "fold_tuple_items obj =
     (let (branches, obj) = take_prefix obj; (branches, obj) = take_items branches obj
      in if branches = [] then (False, obj)
         else (True, hm_insert ''items'' (JObject [(''anyOf'', JArray branches)]) obj))"

fun literal_type :: "json \<Rightarrow> string option" where
  "literal_type (JString _) = Some ''string''"
| "literal_type (JNumber (Float _)) = Some ''number''"
| "literal_type (JNumber _) = Some ''integer''"
| "literal_type (JBool _) = Some ''boolean''"
| "literal_type _ = None"

fun common_type :: "string \<Rightarrow> json list \<Rightarrow> string option" where
  "common_type ty [] = Some ty"
| "common_type ty (v # vs) =
     Option.bind (literal_type v) (\<lambda>b.
       if ty = b then common_type ty vs
       else if ty \<in> {''integer'', ''number''} \<and> b \<in> {''integer'', ''number''} then common_type ''number'' vs
       else None)"

fun enum_literal_type :: "json list \<Rightarrow> string option" where
  "enum_literal_type [] = None"
| "enum_literal_type (v # vs) = Option.bind (literal_type v) (\<lambda>ty. common_type ty vs)"

definition inferred_type :: "json_map \<Rightarrow> string option" where
  "inferred_type obj =
     (let has = list_ex (hm_contains obj)
      in if has [''properties'', ''patternProperties'', ''required'', ''additionalProperties''] then Some ''object''
         else if has [''items'', ''contains'', ''minItems'', ''maxItems'', ''uniqueItems''] then Some ''array''
         else case hm_get obj ''enum'' of
           Some (JArray values) \<Rightarrow> enum_literal_type values
         | _ \<Rightarrow>
             if has [''pattern'', ''format'', ''minLength'', ''maxLength''] then Some ''string''
             else if has [''minimum'', ''maximum'', ''exclusiveMinimum'', ''exclusiveMaximum'', ''multipleOf'']
             then Some ''number''
             else None)"

definition infer_missing_type :: "json_map \<Rightarrow> bool \<times> json_map" where
  "infer_missing_type obj =
     (if hm_contains obj ''type'' \<or> hm_contains obj ''anyOf'' \<or> hm_contains obj ''$ref'' then (False, obj)
      else case inferred_type obj of
        Some ty \<Rightarrow> (True, hm_insert ''type'' (JString ty) obj)
      | None \<Rightarrow> (False, obj))"

fun declared :: "json_map \<Rightarrow> json \<Rightarrow> bool" where
  "declared properties (JString name) = hm_contains properties name"
| "declared properties _ = False"

definition prune_required :: "json_map \<Rightarrow> bool \<times> json_map" where
  "prune_required obj =
     (case (hm_get obj ''properties'', hm_get obj ''required'') of
        (Some (JObject properties), Some (JArray required)) \<Rightarrow>
          (let kept = filter (declared properties) required
           in if kept = [] \<and> required \<noteq> [] then (True, hm_remove ''required'' obj)
              else (length kept \<noteq> length required, hm_insert ''required'' (JArray kept) obj))
      | _ \<Rightarrow> (False, obj))"

definition rewrite_ref_target :: "json_map \<Rightarrow> bool \<times> json_map" where
  "rewrite_ref_target obj =
     (case hm_get obj ''$ref'' of
        Some (JString reference) \<Rightarrow>
          (case strip_prefix ''#/definitions/'' reference of
             Some rest \<Rightarrow> (True, hm_insert ''$ref'' (JString (''#/$defs/'' @ rest)) obj)
           | None \<Rightarrow> (False, obj))
      | _ \<Rightarrow> (False, obj))"

text \<open>The rewrites in their order, each on the result of the one before.\<close>

definition combine :: "(json_map \<Rightarrow> bool \<times> json_map) \<Rightarrow> bool \<times> json_map \<Rightarrow> bool \<times> json_map" where
  "combine f r = (case r of (changed, obj) \<Rightarrow> case f obj of (c, obj) \<Rightarrow> (changed \<or> c, obj))"

definition node_rewrites :: "(json_map \<Rightarrow> bool \<times> json_map) list" where
  "node_rewrites =
     [merge_all_of, const_to_enum, one_of_to_any_of, split_type_array, isolate_ref, push_type_into_any_of,
      fold_tuple_items, infer_missing_type, prune_required, rewrite_ref_target]"

definition rewrite_node :: "json_map \<Rightarrow> bool \<times> json_map" where
  "rewrite_node obj = fold combine node_rewrites (False, obj)"

section \<open>Positions that hold schemas\<close>

definition schema_keys :: "string list" where
  "schema_keys =
     [''items'', ''additionalProperties'', ''not'', ''if'', ''then'', ''else'', ''contains'', ''propertyNames'']"

definition schema_map_keys :: "string list" where
  "schema_map_keys = [''properties'', ''patternProperties'', ''$defs'']"

text \<open>A rewrite of every schema under one entry.\<close>

fun under_entry :: "(json \<Rightarrow> bool \<times> json) \<Rightarrow> string \<times> json \<Rightarrow> bool \<times> string \<times> json" where
  "under_entry f (k, v) =
     (if k \<in> set schema_keys then map_prod id (Pair k) (f v)
      else if k = ''anyOf'' then
        (case v of JArray items \<Rightarrow> (list_ex fst (map f items), k, JArray (map snd (map f items))) | _ \<Rightarrow> (False, k, v))
      else if k \<in> set schema_map_keys then
        (case v of JObject m \<Rightarrow>
             (list_ex fst (map (\<lambda>kv. f (snd kv)) m), k, JObject (map (\<lambda>kv. (fst kv, snd (f (snd kv)))) m))
         | _ \<Rightarrow> (False, k, v))
      else (False, k, v))"

definition under_entries :: "(json \<Rightarrow> bool \<times> json) \<Rightarrow> json_map \<Rightarrow> bool \<times> json_map" where
  "under_entries f obj = (list_ex fst (map (under_entry f) obj), map snd (map (under_entry f) obj))"

fun entry_schemas :: "string \<times> json \<Rightarrow> json list" where
  "entry_schemas (k, v) =
     (if k \<in> set schema_keys then [v]
      else if k = ''anyOf'' then (case v of JArray items \<Rightarrow> items | _ \<Rightarrow> [])
      else if k \<in> set schema_map_keys then (case v of JObject m \<Rightarrow> map snd m | _ \<Rightarrow> [])
      else [])"

definition subschemas :: "json_map \<Rightarrow> json list" where
  "subschemas obj = concat (map entry_schemas obj)"

lemma under_entry_cong:
  assumes "\<And>v. v \<in> set (entry_schemas kv) \<Longrightarrow> f v = g v"
  shows "under_entry f kv = under_entry g kv"
proof -
  obtain k v where kv: "kv = (k, v)" by (cases kv)
  show ?thesis
  proof (cases "k \<in> set schema_keys")
    case True
    then show ?thesis using assms by (simp add: kv)
  next
    case one: False
    show ?thesis
    proof (cases "k = ''anyOf''")
      case True
      then show ?thesis using assms one by (cases v) (auto simp: kv cong: map_cong)
    next
      case any: False
      show ?thesis
      proof (cases "k \<in> set schema_map_keys")
        case True
        with assms one any have "\<And>m kv. v = JObject m \<Longrightarrow> kv \<in> set m \<Longrightarrow> f (snd kv) = g (snd kv)" by (auto simp: kv)
        with True one any show ?thesis by (cases v) (auto simp: kv list_ex_iff)
      next
        case False
        with one any show ?thesis by (simp add: kv)
      qed
    qed
  qed
qed

lemma under_entries_cong [fundef_cong]:
  assumes "obj = obj'" and "\<And>v. v \<in> set (subschemas obj') \<Longrightarrow> f v = g v"
  shows "under_entries f obj = under_entries g obj'"
proof -
  have "map (under_entry f) obj' = map (under_entry g) obj'"
    using assms(2) by (intro map_cong refl under_entry_cong) (auto simp: subschemas_def)
  then show ?thesis unfolding under_entries_def assms(1) by (rule arg_cong)
qed

section \<open>The rewriting ends\<close>

text \<open>
  How deep schemas nest. A tuple counts for more than the \<open>anyOf\<close> it folds into, a type array and a
  reference with siblings for the branches they become.
\<close>

definition maxl :: "nat list \<Rightarrow> nat" where
  "maxl ns = foldr max ns 0"

lemma maxl_le [simp]: "maxl ns \<le> n \<longleftrightarrow> (\<forall>x \<in> set ns. x \<le> n)"
  by (induction ns) (auto simp: maxl_def)

lemma maxl_ge: "x \<in> set ns \<Longrightarrow> x \<le> maxl ns"
  using maxl_le [of ns "maxl ns"] by blast

fun schema_depth :: "json \<Rightarrow> nat" where
  "schema_depth (JObject m) = Suc (max (if hm_contains m ''$ref'' \<and> 1 < length m then 1 else 0)
     (maxl (map (\<lambda>(k, v).
        if k = ''items'' \<or> k = ''prefixItems'' then
          Suc (case v of JArray xs \<Rightarrow> maxl (map schema_depth xs) | _ \<Rightarrow> schema_depth v)
        else if k \<in> set schema_keys then schema_depth v
        else if k \<in> {''anyOf'', ''oneOf'', ''allOf''} then
          (case v of JArray xs \<Rightarrow> maxl (map schema_depth xs) | _ \<Rightarrow> 0)
        else if k \<in> set schema_map_keys then
          (case v of JObject m \<Rightarrow> maxl (map (\<lambda>(k, v). schema_depth v) m) | _ \<Rightarrow> 0)
        else if k = ''type'' then (if is_array v then 1 else 0)
        else 0) m)))"
| "schema_depth _ = 0"

definition entry_depth :: "string \<times> json \<Rightarrow> nat" where
  "entry_depth kv = (case kv of (k, v) \<Rightarrow>
     if k = ''items'' \<or> k = ''prefixItems'' then
       Suc (case v of JArray xs \<Rightarrow> maxl (map schema_depth xs) | _ \<Rightarrow> schema_depth v)
     else if k \<in> set schema_keys then schema_depth v
     else if k \<in> {''anyOf'', ''oneOf'', ''allOf''} then
       (case v of JArray xs \<Rightarrow> maxl (map schema_depth xs) | _ \<Rightarrow> 0)
     else if k \<in> set schema_map_keys then
       (case v of JObject m \<Rightarrow> maxl (map (\<lambda>(k, v). schema_depth v) m) | _ \<Rightarrow> 0)
     else if k = ''type'' then (if is_array v then 1 else 0)
     else 0)"

definition fits :: "nat \<Rightarrow> json_map \<Rightarrow> bool" where
  "fits n obj \<longleftrightarrow> (hm_contains obj ''$ref'' \<and> 1 < length obj \<longrightarrow> 1 \<le> n) \<and> (\<forall>kv \<in> set obj. entry_depth kv \<le> n)"

lemma schema_depth_fits: "schema_depth (JObject m) \<le> Suc n \<longleftrightarrow> fits n m"
proof -
  have "schema_depth (JObject m) =
      Suc (max (if hm_contains m ''$ref'' \<and> 1 < length m then 1 else 0) (maxl (map entry_depth m)))"
    unfolding schema_depth.simps entry_depth_def ..
  then show ?thesis by (auto simp: fits_def)
qed

declare schema_depth.simps(1) [simp del]

lemma hm_get_remove_any: "hm_get (hm_remove k m) j = (if j = k then None else hm_get m j)"
  by (simp add: hm_get_def hm_remove_def delete_conv)

lemma set_hm_remove: "set (hm_remove k m) \<subseteq> set m"
  by (auto simp: hm_remove_def AList.delete_eq)

lemma length_hm_remove: "length (hm_remove k m) \<le> length m"
  by (simp add: hm_remove_def AList.delete_eq)

lemma set_hm_insert: "set (hm_insert k v m) \<subseteq> insert (k, v) (set m)"
  unfolding hm_insert_def by (rule set_update_subset)

lemma two_keys: "hm_get m j \<noteq> None \<Longrightarrow> hm_get m k \<noteq> None \<Longrightarrow> j \<noteq> k \<Longrightarrow> 1 < length m"
  by (cases m; cases "tl m") (auto simp: hm_get_def split: if_splits)

lemma fits_remove: "fits n obj \<Longrightarrow> fits n (hm_remove k obj)"
  using set_hm_remove [of k obj] length_hm_remove [of k obj]
  by (fastforce simp: fits_def hm_contains_def hm_get_remove_any)

lemma fits_insert:
  "fits n obj \<Longrightarrow> entry_depth (k, v) \<le> n \<Longrightarrow> 1 \<le> n \<or> (hm_get obj ''$ref'' = None \<and> k \<noteq> ''$ref'') \<Longrightarrow>
     fits n (hm_insert k v obj)"
  using set_hm_insert [of k v obj] by (auto simp: fits_def hm_contains_def hm_get_insert)

lemma fits_entry: "fits n obj \<Longrightarrow> hm_get obj k = Some v \<Longrightarrow> entry_depth (k, v) \<le> n"
  by (auto simp: fits_def dest: hm_get_Some_in)

text \<open>An entry that takes the place of another.\<close>

lemma fits_replace:
  assumes "fits n obj" and "hm_get obj j \<noteq> None" and "j \<noteq> ''$ref''" and "k \<noteq> ''$ref''" and "entry_depth (k, v) \<le> n"
  shows "fits n (hm_insert k v (hm_remove j obj))"
proof (rule fits_insert [OF fits_remove [OF assms(1)] assms(5)])
  show "1 \<le> n \<or> (hm_get (hm_remove j obj) ''$ref'' = None \<and> k \<noteq> ''$ref'')"
    using assms(1,3,4) two_keys [OF assms(2), of "''$ref''"]
    by (auto simp: fits_def hm_get_remove_any hm_contains_def)
qed

lemma entry_depth_simps [simp]:
  "entry_depth (''enum'', v) = 0" "entry_depth (''required'', v) = 0" "entry_depth (''$ref'', v) = 0"
  "entry_depth (''anyOf'', JArray xs) \<le> n \<longleftrightarrow> (\<forall>x \<in> set xs. schema_depth x \<le> n)"
  "entry_depth (''oneOf'', JArray xs) \<le> n \<longleftrightarrow> (\<forall>x \<in> set xs. schema_depth x \<le> n)"
  "entry_depth (''allOf'', JArray xs) \<le> n \<longleftrightarrow> (\<forall>x \<in> set xs. schema_depth x \<le> n)"
  "\<not> is_array v \<Longrightarrow> entry_depth (''anyOf'', v) = 0" "entry_depth (''type'', v) = (if is_array v then 1 else 0)"
  by (auto simp: entry_depth_def schema_keys_def schema_map_keys_def split: json.splits)

lemma entry_depth_map:
  "k = ''properties'' \<or> k = ''patternProperties'' \<Longrightarrow>
     entry_depth (k, JObject m) \<le> n \<longleftrightarrow> (\<forall>kv \<in> set m. schema_depth (snd kv) \<le> n)"
  by (auto simp: entry_depth_def schema_keys_def schema_map_keys_def)

lemma set_or_insert_all: "set (or_insert_all extra m) \<subseteq> set m \<union> set extra"
proof (induction extra arbitrary: m)
  case (Cons kv extra)
  obtain k v where kv: "kv = (k, v)" by (cases kv)
  let ?m = "if hm_contains m k then m else hm_insert k v m"
  have "or_insert_all (kv # extra) m = or_insert_all extra ?m" by (simp add: or_insert_all_def kv)
  moreover have "set ?m \<subseteq> insert kv (set m)" using set_hm_insert [of k v m] by (auto simp: kv)
  ultimately show ?case using Cons.IH [of ?m] by auto
qed (simp add: or_insert_all_def)

lemma fits_merge_key:
  assumes "fits n obj" and "entry_depth (k, v) \<le> n" and "1 \<le> n"
  shows "fits n (merge_key k v obj)"
proof (cases "hm_get obj k")
  case None
  with assms show ?thesis by (simp add: merge_key_def fits_insert)
next
  case (Some old)
  show ?thesis
  proof (cases "(k = ''properties'' \<or> k = ''patternProperties'') \<and> (\<exists>a b. old = JObject a \<and> v = JObject b)")
    case True
    then obtain existing moved where m: "old = JObject existing" "v = JObject moved" by blast
    have "\<forall>kv \<in> set existing \<union> set moved. schema_depth (snd kv) \<le> n"
      using True fits_entry [OF assms(1) Some] assms(2) unfolding m by (auto simp: entry_depth_map)
    then have "\<forall>kv \<in> set (or_insert_all moved existing). schema_depth (snd kv) \<le> n"
      using set_or_insert_all [of moved existing] by auto
    with True have "entry_depth (k, JObject (or_insert_all moved existing)) \<le> n" by (simp add: entry_depth_map)
    with True assms show ?thesis by (auto simp: merge_key_def Some m intro!: fits_insert)
  next
    case False
    with assms show ?thesis by (auto simp: merge_key_def Some intro!: fits_insert split: json.split)
  qed
qed

lemma fits_merge_branch:
  assumes "fits n obj" and "schema_depth branch \<le> n"
  shows "fits n (merge_branch branch obj)"
proof (cases branch)
  case (JObject m)
  then have n: "1 \<le> n" using assms(2) by (simp add: schema_depth.simps)
  have "\<forall>kv \<in> set m. entry_depth kv \<le> n"
    using assms(2) schema_depth_fits [of m "n - 1"] n unfolding JObject by (auto simp: fits_def)
  then have "fits n (fold (\<lambda>(k, v). merge_key k v) m obj)"
    using assms(1) by (induction m arbitrary: obj) (auto intro: fits_merge_key n)
  then show ?thesis by (simp add: JObject)
qed (use assms(1) in simp_all)

lemma fits_merge_all_of: "fits n obj \<Longrightarrow> fits n (snd (merge_all_of obj))"
proof -
  assume fits: "fits n obj"
  have "fits n (fold merge_branch bs o')" if "\<forall>b \<in> set bs. schema_depth b \<le> n" "fits n o'" for bs o'
    using that by (induction bs arbitrary: o') (auto intro: fits_merge_branch)
  with fits show ?thesis
    using fits_entry [OF fits, of "''allOf''"]
    by (auto simp: merge_all_of_def fits_remove split: option.split json.split)
qed

lemma fits_const_to_enum: "fits n obj \<Longrightarrow> fits n (snd (const_to_enum obj))"
  by (auto simp: const_to_enum_def intro!: fits_replace split: option.split)

lemma fits_one_of:
  assumes "fits n obj"
  shows "fits n (snd (one_of_to_any_of obj))"
proof (cases "hm_get obj ''oneOf''")
  case (Some one_of)
  have depth: "entry_depth (''anyOf'', one_of) \<le> n"
    using fits_entry [OF assms Some] by (simp add: entry_depth_def schema_keys_def schema_map_keys_def)
  have merged: "entry_depth (''anyOf'', JArray (xs @ ys)) \<le> n"
    if "one_of = JArray ys" "hm_get obj ''anyOf'' = Some (JArray xs)" for xs ys
    using depth fits_entry [OF assms that(2)] by (auto simp: that(1))
  show ?thesis
    using depth merged
    by (auto simp: one_of_to_any_of_def Some Let_def hm_get_remove_any
        intro!: fits_replace assms fits_remove split: option.split json.split)
qed (simp add: one_of_to_any_of_def assms)

lemma fits_split_type:
  assumes "fits n obj"
  shows "fits n (snd (split_type_array obj))"
proof (cases "\<exists>types. hm_get obj ''type'' = Some (JArray types)")
  case True
  then obtain types where t: "hm_get obj ''type'' = Some (JArray types)" by blast
  then have n: "1 \<le> n" using fits_entry [OF assms t] by simp
  have "schema_depth (JObject [(''type'', x)]) \<le> n" if "is_string x" for x
  proof -
    have "fits 0 [(''type'', x)]" using that by (cases x) (simp_all add: fits_def)
    then show ?thesis using n schema_depth_fits [of "[(''type'', x)]" 0] by simp
  qed
  then have "fits n (split_types types obj)"
    using n by (auto simp: split_types_def Let_def intro!: fits_insert fits_remove assms)
  moreover have "fits n (hm_insert ''type'' (JString s) obj)" for s
    using n by (intro fits_insert assms) simp_all
  ultimately show ?thesis by (auto simp: split_type_array_def t split: list.split json.split)
qed (use assms in \<open>auto simp: split_type_array_def split: option.split json.split\<close>)

lemma fits_isolate_ref:
  assumes "fits n obj"
  shows "fits n (snd (isolate_ref obj))"
proof (cases "length obj \<le> 1 \<or> hm_get obj ''$ref'' = None")
  case False
  then obtain r where r: "hm_get obj ''$ref'' = Some r" and n: "1 \<le> n"
    using assms by (auto simp: fits_def hm_contains_def)
  have "fits 0 [(''$ref'', r)]" by (simp add: fits_def)
  then have branch: "schema_depth (JObject [(''$ref'', r)]) \<le> n"
    using n schema_depth_fits [of "[(''$ref'', r)]" 0] by simp
  have old: "\<forall>x \<in> set xs. schema_depth x \<le> n" if "hm_get (hm_remove ''$ref'' obj) ''anyOf'' = Some (JArray xs)" for xs
    using fits_entry [OF fits_remove [OF assms] that] by simp
  show ?thesis
    using False r n branch old
    by (auto simp: isolate_ref_def Let_def intro!: fits_insert fits_remove assms split: option.split json.split)
qed (use assms in \<open>auto simp: isolate_ref_def\<close>)

text \<open>A single type added to a branch does not deepen it.\<close>

lemma give_type_depth:
  assumes "\<not> is_array ty" and "schema_depth v \<le> n"
  shows "schema_depth (give_type ty v) \<le> n"
proof (cases v)
  case (JObject b)
  then obtain m where n: "n = Suc m" using assms(2) by (cases n) (simp_all add: schema_depth.simps)
  with assms(2) JObject have "fits m b" by (simp add: schema_depth_fits)
  then have "hm_get b ''$ref'' = None \<Longrightarrow> fits m (or_insert ''type'' ty b)"
    using assms(1) by (auto simp: or_insert_def intro: fits_insert)
  with \<open>fits m b\<close> show ?thesis by (auto simp: JObject n schema_depth_fits hm_contains_def)
qed (use assms in simp_all)

lemma fits_push_type:
  assumes "fits n obj" and "case hm_get obj ''type'' of Some ty \<Rightarrow> \<not> is_array ty | None \<Rightarrow> True"
  shows "fits n (snd (push_type_into_any_of obj))"
proof (cases "hm_get obj ''anyOf'' = None \<or> hm_get obj ''type'' = None")
  case False
  then obtain any_of ty where get: "hm_get obj ''anyOf'' = Some any_of" "hm_get obj ''type'' = Some ty" by auto
  have "entry_depth (''anyOf'', JArray (map (give_type ty) xs)) \<le> n" if "any_of = JArray xs" for xs
    using fits_entry [OF assms(1) get(1)] assms(2) by (auto simp: that get intro: give_type_depth)
  then show ?thesis
    by (auto simp: push_type_into_any_of_def get Let_def intro!: fits_replace fits_remove assms(1) split: json.split)
qed (use assms in \<open>auto simp: push_type_into_any_of_def split: option.split\<close>)

lemma single_type:
  "case hm_get (snd (split_type_array obj)) ''type'' of Some ty \<Rightarrow> \<not> is_array ty | None \<Rightarrow> True"
  by (auto simp: split_type_array_def split_types_def Let_def hm_get_insert hm_get_remove_any
      split: option.split json.split list.split)

lemma isolate_keeps_type: "hm_get (snd (isolate_ref obj)) ''type'' = hm_get obj ''type''"
  by (simp add: isolate_ref_def Let_def hm_get_insert hm_get_remove_any split: option.split)

text \<open>The schemas one level down, once the node is rewritten.\<close>

definition kids_fit :: "nat \<Rightarrow> json_map \<Rightarrow> bool" where
  "kids_fit n obj \<longleftrightarrow> (\<forall>kv \<in> set obj. \<forall>v \<in> set (entry_schemas kv). schema_depth v \<le> n)"

lemma entry_schemas_depth: "v \<in> set (entry_schemas kv) \<Longrightarrow> entry_depth kv \<le> n \<Longrightarrow> schema_depth v \<le> n"
proof -
  assume v: "v \<in> set (entry_schemas kv)" and n: "entry_depth kv \<le> n"
  obtain k x where kv: "kv = (k, x)" by (cases kv)
  have items: "schema_depth x \<le> n" if "k = ''items''"
    using n that by (cases x) (auto simp: kv entry_depth_def)
  show ?thesis
  proof (cases "k \<in> set schema_keys")
    case True
    then have x: "v = x" using v by (simp add: kv)
    show ?thesis
    proof (cases "k = ''items''")
      case True
      then show ?thesis using items by (simp add: x)
    next
      case False
      moreover have "k \<noteq> ''prefixItems''" using True by (auto simp: schema_keys_def)
      ultimately show ?thesis using True n by (simp add: x kv entry_depth_def)
    qed
  next
    case one: False
    then have tuple: "k \<noteq> ''items''" "k = ''anyOf'' \<or> k \<in> set schema_map_keys \<Longrightarrow> k \<noteq> ''prefixItems''"
      by (auto simp: schema_keys_def schema_map_keys_def)
    have maps: "k \<in> set schema_map_keys \<Longrightarrow> k \<noteq> ''oneOf'' \<and> k \<noteq> ''allOf''" by (auto simp: schema_map_keys_def)
    show ?thesis
    proof (cases "k = ''anyOf''")
      case True
      then show ?thesis using v n one by (cases x) (auto simp: kv entry_depth_def)
    next
      case False
      have k: "k \<in> set schema_map_keys"
      proof (rule ccontr)
        assume "k \<notin> set schema_map_keys"
        with v one False show False by (simp add: kv)
      qed
      with v one False obtain m where m: "x = JObject m" "v \<in> snd ` set m"
        by (cases x) (simp_all add: kv)
      have "entry_depth kv = maxl (map (\<lambda>(k, v). schema_depth v) m)"
        using k one False tuple maps by (simp add: kv m(1) entry_depth_def)
      with n m(2) show ?thesis by auto
    qed
  qed
qed

lemma fits_kids: "fits n obj \<Longrightarrow> kids_fit n obj"
  by (auto simp: fits_def kids_fit_def intro: entry_schemas_depth)

lemma kids_remove: "kids_fit n obj \<Longrightarrow> kids_fit n (hm_remove k obj)"
  using set_hm_remove [of k obj] by (auto simp: kids_fit_def)

lemma kids_insert:
  "kids_fit n obj \<Longrightarrow> \<forall>x \<in> set (entry_schemas (k, v)). schema_depth x \<le> n \<Longrightarrow> kids_fit n (hm_insert k v obj)"
  unfolding kids_fit_def using set_hm_insert [of k v obj] by blast

lemma maxl_below: "Suc (maxl (map f xs)) \<le> n \<Longrightarrow> x \<in> set xs \<Longrightarrow> Suc (f x) \<le> n"
  using maxl_ge [of "f x" "map f xs"] by simp

lemma kids_fold_tuple:
  assumes "fits n obj"
  shows "kids_fit n (snd (fold_tuple_items obj))"
proof -
  obtain bs o1 where p: "take_prefix obj = (bs, o1)" by (cases "take_prefix obj")
  obtain cs o2 where i: "take_items bs o1 = (cs, o2)" by (cases "take_items bs o1")
  have one: "fits n o1" "\<forall>b \<in> set bs. Suc (schema_depth b) \<le> n"
    using p fits_entry [OF assms, of "''prefixItems''"] assms
    by (auto simp: take_prefix_def entry_depth_def fits_remove intro: maxl_below split: option.splits json.splits)
  have two: "fits n o2" "\<forall>c \<in> set cs. Suc (schema_depth c) \<le> n"
    using i fits_entry [OF one(1), of "''items''"] one
    by (auto simp: take_items_def entry_depth_def fits_remove intro: maxl_below split: option.splits json.splits if_splits)
  have "schema_depth (JObject [(''anyOf'', JArray cs)]) \<le> n" if some: "cs \<noteq> []"
  proof -
    obtain m where n: "n = Suc m" using some two(2) by (cases cs; cases n) auto
    then have "fits m [(''anyOf'', JArray cs)]" using two(2) by (simp add: fits_def hm_contains_def hm_get_def)
    then show ?thesis by (simp add: n schema_depth_fits)
  qed
  then show ?thesis
    using fits_kids [OF two(1)] by (auto simp: fold_tuple_items_def p i schema_keys_def intro: kids_insert)
qed

lemma kids_infer: "kids_fit n obj \<Longrightarrow> kids_fit n (snd (infer_missing_type obj))"
  by (auto simp: infer_missing_type_def schema_keys_def schema_map_keys_def intro: kids_insert split: option.split)

lemma kids_prune: "kids_fit n obj \<Longrightarrow> kids_fit n (snd (prune_required obj))"
  by (auto simp: prune_required_def Let_def schema_keys_def schema_map_keys_def
      intro: kids_insert kids_remove split: option.split json.split)

lemma kids_rewrite_ref: "kids_fit n obj \<Longrightarrow> kids_fit n (snd (rewrite_ref_target obj))"
  by (auto simp: rewrite_ref_target_def schema_keys_def schema_map_keys_def
      intro: kids_insert split: option.split json.split)

lemma snd_combine [simp]: "snd (combine f r) = snd (f (snd r))"
  by (cases r) (simp add: combine_def split: prod.split)

lemma rewrite_node_steps:
  "snd (rewrite_node obj) = snd (rewrite_ref_target (snd (prune_required (snd (infer_missing_type
     (snd (fold_tuple_items (snd (push_type_into_any_of (snd (isolate_ref (snd (split_type_array
       (snd (one_of_to_any_of (snd (const_to_enum (snd (merge_all_of obj)))))))))))))))))))"
  by (simp add: rewrite_node_def node_rewrites_def)

lemma kids_rewrite_node:
  assumes "fits n obj"
  shows "kids_fit n (snd (rewrite_node obj))"
proof -
  let ?o = "snd (isolate_ref (snd (split_type_array (snd (one_of_to_any_of (snd (const_to_enum (snd (merge_all_of obj)))))))))"
  have "fits n ?o"
    by (intro fits_isolate_ref fits_split_type fits_one_of fits_const_to_enum fits_merge_all_of assms)
  moreover have "case hm_get ?o ''type'' of Some ty \<Rightarrow> \<not> is_array ty | None \<Rightarrow> True"
    unfolding isolate_keeps_type by (rule single_type)
  ultimately have "fits n (snd (push_type_into_any_of ?o))" by (rule fits_push_type)
  then show ?thesis
    unfolding rewrite_node_steps by (intro kids_rewrite_ref kids_prune kids_infer kids_fold_tuple)
qed

lemma subschemas_shallower:
  assumes "v \<in> set (subschemas (snd (rewrite_node obj)))"
  shows "schema_depth v < schema_depth (JObject obj)"
proof -
  obtain n where n: "schema_depth (JObject obj) = Suc n" by (simp add: schema_depth.simps)
  then have "fits n obj" by (simp flip: schema_depth_fits)
  from kids_rewrite_node [OF this] assms have "schema_depth v \<le> n"
    unfolding kids_fit_def subschemas_def set_concat set_map by blast
  then show ?thesis by (simp add: n)
qed

text \<open>One node, then every schema below what it became.\<close>

function flavor_node :: "json \<Rightarrow> bool \<times> json" where
  "flavor_node schema =
     (case schema of
        JObject obj \<Rightarrow>
          (let (changed, obj) = rewrite_node obj; (below, obj) = under_entries flavor_node obj
           in (changed \<or> below, JObject obj))
      | _ \<Rightarrow> (False, schema))"
  by pat_completeness auto
termination
proof (relation "measure schema_depth")
  fix schema obj changed obj' v and p :: "bool \<times> json_map"
  assume schema: "schema = JObject obj" and p: "p = rewrite_node obj" "(changed, obj') = p"
    and v: "v \<in> set (subschemas obj')"
  from p have "obj' = snd (rewrite_node obj)" by (metis snd_conv)
  with v subschemas_shallower [of v obj] show "(v, schema) \<in> measure schema_depth" by (simp add: schema)
qed simp

declare flavor_node.simps [simp del]

lemma flavor_node_simps:
  "flavor_node (JObject obj) =
     (fst (rewrite_node obj) \<or> fst (under_entries flavor_node (snd (rewrite_node obj))),
      JObject (snd (under_entries flavor_node (snd (rewrite_node obj)))))"
  "(\<And>obj. v \<noteq> JObject obj) \<Longrightarrow> flavor_node v = (False, v)"
  by (subst flavor_node.simps, simp add: split_beta Let_def) (subst flavor_node.simps, simp split: json.split)

fun flavor_schema :: "json \<Rightarrow> bool \<times> json" where
  "flavor_schema (JObject obj) =
     (let (changed, obj) = definitions_to_defs obj; (c, schema) = flavor_node (JObject obj) in (changed \<or> c, schema))"
| "flavor_schema schema = (False, schema)"

section \<open>The provider\<close>

definition flavored :: "json \<Rightarrow> json" where
  "flavored schema = snd (flavor_schema schema)"

definition flavor_tools :: "tool_def list \<Rightarrow> tool_def list" where
  "flavor_tools tools = map (\<lambda>t. t\<lparr>td_parameters := flavored (td_parameters t)\<rparr>) tools"

text \<open>\<open>pointer_mut\<close> and an edit of what it points at.\<close>

fun edit_at :: "string list \<Rightarrow> (json \<Rightarrow> json) \<Rightarrow> json \<Rightarrow> json" where
  "edit_at [] f v = f v"
| "edit_at (k # path) f (JObject m) =
     (case hm_get m k of Some v \<Rightarrow> JObject (hm_insert k (edit_at path f v) m) | None \<Rightarrow> JObject m)"
| "edit_at (k # path) f v = v"

definition flavor_request :: "chat_request \<Rightarrow> chat_request" where
  "flavor_request req =
     req\<lparr>cq_tools := flavor_tools (cq_tools req),
        cq_extra := (case hm_get (cq_extra req) ''response_format'' of
            Some rf \<Rightarrow> hm_insert ''response_format'' (edit_at [''json_schema'', ''schema''] flavored rf) (cq_extra req)
          | None \<Rightarrow> cq_extra req)\<rparr>"

definition flavor_batch :: "batch_spec \<Rightarrow> batch_spec" where
  "flavor_batch spec = spec\<lparr>bs_items := map (\<lambda>i. i\<lparr>bi_request :=
     (bi_request i)\<lparr>cq_tools := flavor_tools (cq_tools (bi_request i))\<rparr>\<rparr>) (bs_items spec)\<rparr>"

definition enrich_catalog_capabilities :: "model_info \<Rightarrow> model_info" where
  "enrich_catalog_capabilities info =
     (let flag = (\<lambda>k. Option.bind (hm_get (mi_extra info) k) as_bool);
          image = flag ''supports_image_in''; video = flag ''supports_video_in''; reasoning = flag ''supports_reasoning''
      in if image = None \<and> video = None \<and> reasoning = None then info
         else info\<lparr>mi_modality := or_else (mi_modality info) (Some Llm),
           mi_supports_reasoning := reasoning,
           mi_extra := or_insert ''architecture'' (JObject
             [(''input_modalities'', JArray ([JString ''text''] @ (if image = Some True then [JString ''image''] else []) @
                (if video = Some True then [JString ''video''] else []))),
              (''output_modalities'', JArray [JString ''text'']), (''modality'', JString ''text->text''),
              (''tokenizer'', JString ''Other''), (''instruct_type'', JNull)]) (mi_extra info)\<rparr>)"

definition moonshot_for_kind ::
  "string \<Rightarrow> 'w http_transport \<Rightarrow> 'w realtime_transport \<Rightarrow> 'w compat_provider option" where
  "moonshot_for_kind kind http realtime =
     (if kind \<in> {''moonshot'', ''kimi'', ''kimi-k2'', ''kimi-coding'', ''kimi-for-coding''}
      then compat_for_kind kind http realtime else None)"

definition moonshot_chat ::
  "'w compat_provider \<Rightarrow> (string \<Rightarrow> string) \<Rightarrow> (json \<Rightarrow> string) \<Rightarrow> (string \<Rightarrow> string + json) \<Rightarrow>
     chat_request \<Rightarrow> provider_cx \<Rightarrow> ('w, ('w, stream_chunk) polls) awaited" where
  "moonshot_chat p lossy print parse req = compat_chat p lossy print parse (flavor_request req)"

definition moonshot_batch_create ::
  "'w compat_provider \<Rightarrow> (string \<Rightarrow> string) \<Rightarrow> (json \<Rightarrow> string) \<Rightarrow> (string \<Rightarrow> string + json) \<Rightarrow>
     batch_spec \<Rightarrow> provider_cx \<Rightarrow> ('w, batch_handle) awaited" where
  "moonshot_batch_create p lossy print parse spec = compat_batch_create p lossy print parse (flavor_batch spec)"

definition moonshot_models ::
  "'w compat_provider \<Rightarrow> (string \<Rightarrow> string) \<Rightarrow> (string \<Rightarrow> string + json) \<Rightarrow> provider_cx \<Rightarrow>
     ('w, model_info list) awaited" where
  "moonshot_models p lossy parse cx w =
     map_prod id (map_sum id (map enrich_catalog_capabilities)) (compat_models p lossy parse cx w)"

text \<open>The modalities its upstream does not serve; the rest is the inner provider.\<close>

definition moonshot_refuses :: "'w compat_provider \<Rightarrow> string \<Rightarrow> ('w, 'a) awaited" where
  "moonshot_refuses p what w = (w, Inl (unsupported (bd_name (cp_brand p)) what))"

definition moonshot_embed :: "'w compat_provider \<Rightarrow> embedding_request \<Rightarrow> provider_cx \<Rightarrow> ('w, embedding_response) awaited" where
  "moonshot_embed p req cx = moonshot_refuses p ''embeddings''"

definition moonshot_speech :: "'w compat_provider \<Rightarrow> speech_request \<Rightarrow> provider_cx \<Rightarrow> ('w, ('w, audio_chunk) polls) awaited" where
  "moonshot_speech p req cx = moonshot_refuses p ''speech synthesis''"

definition moonshot_transcribe ::
  "'w compat_provider \<Rightarrow> transcription_request \<Rightarrow> provider_cx \<Rightarrow> ('w, transcription_response) awaited" where
  "moonshot_transcribe p req cx = moonshot_refuses p ''transcription''"

end
