(* ===== verification/MoonshotLaws.thy ===== *)
theory MoonshotLaws
  imports Moonshot
begin

text \<open>
  What the schema rewriting guarantees: nothing the upstream's validator rejects in a node is left at any
  node of a schema that is sent, and a second rewriting changes nothing.
\<close>

section \<open>The flavored subset\<close>

text \<open>What a node of the flavored subset must be; \<open>allOf\<close> apart, which see below.\<close>

definition plain_node :: "json_map \<Rightarrow> bool" where
  "plain_node m \<longleftrightarrow>
     hm_get m ''const'' = None \<and> hm_get m ''oneOf'' = None \<and>
     (case hm_get m ''type'' of Some ty \<Rightarrow> \<not> is_array ty \<and> hm_get m ''anyOf'' = None | None \<Rightarrow> True) \<and>
     (hm_get m ''$ref'' = None \<or> length m \<le> 1) \<and>
     (case hm_get m ''items'' of Some v \<Rightarrow> \<not> is_array v | None \<Rightarrow> True) \<and>
     (case hm_get m ''prefixItems'' of Some v \<Rightarrow> \<not> is_array v | None \<Rightarrow> True) \<and>
     (hm_contains m ''type'' \<or> hm_contains m ''anyOf'' \<or> hm_contains m ''$ref'' \<or> inferred_type m = None) \<and>
     (case (hm_get m ''properties'', hm_get m ''required'') of
        (Some (JObject properties), Some (JArray required)) \<Rightarrow> list_all (declared properties) required
      | _ \<Rightarrow> True) \<and>
     (case hm_get m ''$ref'' of Some (JString r) \<Rightarrow> strip_prefix ''#/definitions/'' r = None | _ \<Rightarrow> True)"

lemma subschemas_depth: "v \<in> set (subschemas m) \<Longrightarrow> schema_depth v < schema_depth (JObject m)"
proof -
  assume v: "v \<in> set (subschemas m)"
  obtain n where n: "schema_depth (JObject m) = Suc n" by (simp add: schema_depth.simps)
  then have "kids_fit n m" by (intro fits_kids) (simp flip: schema_depth_fits)
  with v have "schema_depth v \<le> n" unfolding kids_fit_def subschemas_def set_concat set_map by blast
  then show ?thesis by (simp add: n)
qed

text \<open>Every node of a schema.\<close>

function schema_nodes :: "json \<Rightarrow> json_map list" where
  "schema_nodes v = (case v of JObject m \<Rightarrow> m # concat (map schema_nodes (subschemas m)) | _ \<Rightarrow> [])"
  by pat_completeness auto
termination by (relation "measure schema_depth") (auto simp: subschemas_depth)

declare schema_nodes.simps [simp del]

lemma schema_nodes_simps:
  "schema_nodes (JObject m) = m # concat (map schema_nodes (subschemas m))"
  "(\<And>m. v \<noteq> JObject m) \<Longrightarrow> schema_nodes v = []"
  by (subst schema_nodes.simps, simp) (subst schema_nodes.simps, simp split: json.split)

definition conforms :: "json \<Rightarrow> bool" where
  "conforms schema \<longleftrightarrow> list_all plain_node (schema_nodes schema)"

section \<open>One node\<close>

named_theorems node_simps

lemmas [node_simps] = hm_get_insert hm_get_remove_any hm_contains_def Let_def

lemma length_hm_insert: "length (hm_insert k v m) = (if hm_contains m k then length m else Suc (length m))"
  by (induction m) (auto simp: hm_insert_def hm_contains_def hm_get_def)

lemma hm_insert_same: "hm_get m k = Some v \<Longrightarrow> hm_insert k v m = m"
  by (induction m) (auto simp: hm_insert_def hm_get_def)

lemma only_ref: "hm_get m ''$ref'' \<noteq> None \<Longrightarrow> length m \<le> 1 \<Longrightarrow> k \<noteq> ''$ref'' \<Longrightarrow> hm_get m k = None"
  using two_keys [of m "''$ref''" k] by fastforce

text \<open>What each rewrite establishes, and what the ones after it keep.\<close>

definition settled_words :: "json_map \<Rightarrow> bool" where
  "settled_words m \<longleftrightarrow> hm_get m ''const'' = None \<and> hm_get m ''oneOf'' = None"

definition settled_type :: "json_map \<Rightarrow> bool" where
  "settled_type m \<longleftrightarrow> (case hm_get m ''type'' of Some ty \<Rightarrow> \<not> is_array ty | None \<Rightarrow> True)"

definition settled_union :: "json_map \<Rightarrow> bool" where
  "settled_union m \<longleftrightarrow> hm_get m ''type'' = None \<or> hm_get m ''anyOf'' = None"

definition settled_ref :: "json_map \<Rightarrow> bool" where
  "settled_ref m \<longleftrightarrow> hm_get m ''$ref'' = None \<or> length m \<le> 1"

definition settled_tuple :: "json_map \<Rightarrow> bool" where
  "settled_tuple m \<longleftrightarrow> (case hm_get m ''items'' of Some v \<Rightarrow> \<not> is_array v | None \<Rightarrow> True) \<and>
     (case hm_get m ''prefixItems'' of Some v \<Rightarrow> \<not> is_array v | None \<Rightarrow> True)"

definition settled_inference :: "json_map \<Rightarrow> bool" where
  "settled_inference m \<longleftrightarrow>
     hm_contains m ''type'' \<or> hm_contains m ''anyOf'' \<or> hm_contains m ''$ref'' \<or> inferred_type m = None"

definition settled_required :: "json_map \<Rightarrow> bool" where
  "settled_required m \<longleftrightarrow>
     (case (hm_get m ''properties'', hm_get m ''required'') of
        (Some (JObject properties), Some (JArray required)) \<Rightarrow> list_all (declared properties) required
      | _ \<Rightarrow> True)"

definition settled_target :: "json_map \<Rightarrow> bool" where
  "settled_target m \<longleftrightarrow>
     (case hm_get m ''$ref'' of Some (JString r) \<Rightarrow> strip_prefix ''#/definitions/'' r = None | _ \<Rightarrow> True)"

lemma plain_node_settled:
  "plain_node m \<longleftrightarrow> settled_words m \<and> settled_type m \<and> settled_union m \<and> settled_ref m \<and> settled_tuple m \<and>
     settled_inference m \<and> settled_required m \<and> settled_target m"
  unfolding plain_node_def settled_words_def settled_type_def settled_union_def settled_ref_def settled_tuple_def
    settled_inference_def settled_required_def settled_target_def
  by (cases "hm_get m ''type''") auto

lemma words_settle: "settled_words (snd (one_of_to_any_of (snd (const_to_enum m))))"
  by (auto simp: settled_words_def one_of_to_any_of_def const_to_enum_def node_simps split: option.split json.split)

lemma words_kept:
  assumes "settled_words m"
  shows "settled_words (snd (split_type_array m))" "settled_words (snd (isolate_ref m))"
    "settled_words (snd (push_type_into_any_of m))" "settled_words (snd (infer_missing_type m))"
    "settled_words (snd (prune_required m))" "settled_words (snd (rewrite_ref_target m))"
  using assms
  by (auto simp: settled_words_def split_type_array_def split_types_def isolate_ref_def push_type_into_any_of_def
      infer_missing_type_def prune_required_def rewrite_ref_target_def node_simps
      split: option.split json.split list.split)

lemma type_settles: "settled_type (snd (split_type_array m))"
  unfolding settled_type_def by (rule single_type)

lemma type_kept:
  assumes "settled_type m"
  shows "settled_type (snd (isolate_ref m))" "settled_type (snd (push_type_into_any_of m))"
    "settled_type (snd (infer_missing_type m))" "settled_type (snd (prune_required m))"
    "settled_type (snd (rewrite_ref_target m))"
  using assms
  by (auto simp: settled_type_def isolate_ref_def push_type_into_any_of_def
      infer_missing_type_def prune_required_def rewrite_ref_target_def node_simps
      split: option.split json.split)

lemma ref_settles: "settled_ref (snd (isolate_ref m))"
  by (auto simp: settled_ref_def isolate_ref_def node_simps split: option.split json.split)

lemma union_settles: "settled_union (snd (push_type_into_any_of m))"
  by (auto simp: settled_union_def push_type_into_any_of_def node_simps split: option.split json.split)

lemma ref_pushed:
  assumes "settled_ref m"
  shows "settled_ref (snd (push_type_into_any_of m))"
proof (cases "hm_get m ''$ref'' = None")
  case True
  then show ?thesis
    by (auto simp: settled_ref_def push_type_into_any_of_def node_simps split: option.split json.split)
next
  case False
  with assms have "length m \<le> 1" by (simp add: settled_ref_def)
  with False have "hm_get m ''type'' = None" by (intro only_ref) simp_all
  then have "push_type_into_any_of m = (False, m)" by (simp add: push_type_into_any_of_def split: option.split)
  with assms show ?thesis by simp
qed

text \<open>The tuple rewrite touches nothing when a reference stands alone.\<close>

lemma fold_tuple_get:
  "k \<noteq> ''items'' \<Longrightarrow> k \<noteq> ''prefixItems'' \<Longrightarrow> hm_get (snd (fold_tuple_items m)) k = hm_get m k"
  by (auto simp: fold_tuple_items_def take_prefix_def take_items_def node_simps split: option.split json.split)

lemma fold_tuple_alone:
  "hm_get m ''items'' = None \<Longrightarrow> hm_get m ''prefixItems'' = None \<Longrightarrow> fold_tuple_items m = (False, m)"
  by (simp add: fold_tuple_items_def take_prefix_def take_items_def)

lemma fold_tuple_kept:
  assumes "settled_ref m"
  shows "settled_ref (snd (fold_tuple_items m))"
proof (cases "hm_get m ''$ref'' = None")
  case True
  then show ?thesis by (simp add: settled_ref_def fold_tuple_get)
next
  case False
  with assms have "length m \<le> 1" by (simp add: settled_ref_def)
  with False have "fold_tuple_items m = (False, m)" by (intro fold_tuple_alone only_ref) simp_all
  with assms show ?thesis by simp
qed

lemma tuple_settles: "settled_tuple (snd (fold_tuple_items m))"
  by (auto simp: settled_tuple_def fold_tuple_items_def take_prefix_def take_items_def node_simps
      split: option.split json.split)

lemma tuple_kept:
  assumes "settled_tuple m"
  shows "settled_tuple (snd (infer_missing_type m))" "settled_tuple (snd (prune_required m))"
    "settled_tuple (snd (rewrite_ref_target m))"
  using assms
  by (auto simp: settled_tuple_def infer_missing_type_def prune_required_def rewrite_ref_target_def node_simps
      split: option.split json.split)

lemma inference_settles: "settled_inference (snd (infer_missing_type m))"
  by (auto simp: settled_inference_def infer_missing_type_def node_simps split: option.split)

lemma inference_kept_union:
  "settled_union m \<Longrightarrow> settled_union (snd (infer_missing_type m))"
  "settled_ref m \<Longrightarrow> settled_ref (snd (infer_missing_type m))"
  by (auto simp: settled_union_def settled_ref_def infer_missing_type_def node_simps split: option.split)

lemma prune_get: "k \<noteq> ''required'' \<Longrightarrow> hm_get (snd (prune_required m)) k = hm_get m k"
  by (auto simp: prune_required_def node_simps split: option.split json.split)

lemma prune_length: "length (snd (prune_required m)) \<le> length m"
  using length_hm_remove [of "''required''" m]
  by (auto simp: prune_required_def length_hm_insert node_simps split: option.split json.split)

lemma inferred_type_None:
  "inferred_type m = None \<Longrightarrow> hm_get m ''required'' = None"
  by (cases "hm_get m ''required''") (simp_all add: inferred_type_def hm_contains_def Let_def)

lemma prune_nothing: "hm_get m ''required'' = None \<Longrightarrow> prune_required m = (False, m)"
  by (simp add: prune_required_def split: option.split json.split)

lemma prune_kept:
  "settled_union m \<Longrightarrow> settled_union (snd (prune_required m))"
  "settled_ref m \<Longrightarrow> settled_ref (snd (prune_required m))"
  "settled_inference m \<Longrightarrow> settled_inference (snd (prune_required m))"
  using prune_length [of m]
  by (auto simp: settled_union_def settled_ref_def settled_inference_def prune_get hm_contains_def
      prune_nothing inferred_type_None)

lemma required_settles: "settled_required (snd (prune_required m))"
  by (auto simp: settled_required_def prune_required_def node_simps list_all_iff split: option.split json.split)

lemma target_get: "k \<noteq> ''$ref'' \<Longrightarrow> hm_get (snd (rewrite_ref_target m)) k = hm_get m k"
  by (auto simp: rewrite_ref_target_def node_simps split: option.split json.split)

lemma target_contains: "hm_contains (snd (rewrite_ref_target m)) k = hm_contains m k"
  by (auto simp: rewrite_ref_target_def node_simps split: option.split json.split)

lemma target_length: "length (snd (rewrite_ref_target m)) = length m"
  by (auto simp: rewrite_ref_target_def length_hm_insert hm_contains_def split: option.split json.split)

lemma inferred_cong:
  assumes "\<And>k. hm_contains m' k = hm_contains m k" and "hm_get m' ''enum'' = hm_get m ''enum''"
  shows "inferred_type m' = inferred_type m"
proof -
  have "hm_contains m' = hm_contains m" using assms(1) by (rule ext)
  then show ?thesis unfolding inferred_type_def assms(2) by simp
qed

lemma target_kept:
  "settled_union m \<Longrightarrow> settled_union (snd (rewrite_ref_target m))"
  "settled_ref m \<Longrightarrow> settled_ref (snd (rewrite_ref_target m))"
  "settled_inference m \<Longrightarrow> settled_inference (snd (rewrite_ref_target m))"
  "settled_required m \<Longrightarrow> settled_required (snd (rewrite_ref_target m))"
proof -
  have "hm_get (snd (rewrite_ref_target m)) ''$ref'' = None \<longleftrightarrow> hm_get m ''$ref'' = None"
    using target_contains [of m "''$ref''"] unfolding hm_contains_def by blast
  then show "settled_ref m \<Longrightarrow> settled_ref (snd (rewrite_ref_target m))"
    by (simp add: settled_ref_def target_length)
  have "inferred_type (snd (rewrite_ref_target m)) = inferred_type m"
    by (rule inferred_cong) (simp_all add: target_contains target_get)
  then show "settled_inference m \<Longrightarrow> settled_inference (snd (rewrite_ref_target m))"
    by (simp add: settled_inference_def target_contains)
qed (simp_all add: settled_union_def settled_required_def target_get)

lemma target_settles: "settled_target (snd (rewrite_ref_target m))"
  by (auto simp: settled_target_def rewrite_ref_target_def node_simps split: option.split json.split)

lemma node_settles: "plain_node (snd (rewrite_node obj))"
proof -
  define m3 where "m3 = snd (one_of_to_any_of (snd (const_to_enum (snd (merge_all_of obj)))))"
  define m6 where "m6 = snd (push_type_into_any_of (snd (isolate_ref (snd (split_type_array m3)))))"
  define m8 where "m8 = snd (infer_missing_type (snd (fold_tuple_items m6)))"
  have words: "settled_words m6"
    unfolding m6_def by (intro words_kept) (simp add: m3_def words_settle)
  have six: "settled_type m6" "settled_union m6" "settled_ref m6"
    unfolding m6_def by (intro type_kept type_settles) (rule union_settles, intro ref_pushed ref_settles)
  have tuple: "settled_words (snd (fold_tuple_items m6))" "settled_type (snd (fold_tuple_items m6))"
      "settled_union (snd (fold_tuple_items m6))"
    using words six by (simp_all add: settled_words_def settled_type_def settled_union_def fold_tuple_get)
  have eight: "settled_words m8" "settled_type m8" "settled_union m8" "settled_ref m8" "settled_tuple m8" "settled_inference m8"
    unfolding m8_def
    by (intro words_kept tuple) (intro type_kept tuple, intro inference_kept_union tuple,
        intro inference_kept_union fold_tuple_kept six, intro tuple_kept tuple_settles, rule inference_settles)
  have "snd (rewrite_node obj) = snd (rewrite_ref_target (snd (prune_required m8)))"
    by (simp add: rewrite_node_steps m8_def m6_def m3_def)
  with eight show ?thesis
    by (simp add: plain_node_settled words_kept type_kept tuple_kept prune_kept target_kept required_settles target_settles)
qed

section \<open>The schemas below\<close>

definition child_keys :: "string list" where
  "child_keys = ''anyOf'' # schema_keys @ schema_map_keys"

definition under_value :: "(json \<Rightarrow> bool \<times> json) \<Rightarrow> string \<Rightarrow> json \<Rightarrow> json" where
  "under_value f k v = snd (snd (under_entry f (k, v)))"

lemma under_entry_key: "fst (snd (under_entry f (k, v))) = k"
  by (simp split: json.split)

lemma under_entries_map: "snd (under_entries f m) = map (\<lambda>(k, v). (k, under_value f k v)) m"
  unfolding under_entries_def snd_conv map_map comp_def
  by (intro map_cong refl) (auto simp: under_value_def under_entry_key prod_eq_iff simp del: under_entry.simps)

lemma under_get: "hm_get (snd (under_entries f m)) k = map_option (under_value f k) (hm_get m k)"
  unfolding under_entries_map by (induction m) (auto simp: hm_get_def)

lemma under_contains: "hm_contains (snd (under_entries f m)) k = hm_contains m k"
  by (simp add: hm_contains_def under_get)

lemma under_length: "length (snd (under_entries f m)) = length m"
  by (simp add: under_entries_map)

lemma under_other: "k \<notin> set child_keys \<Longrightarrow> under_value f k v = v"
  by (simp add: under_value_def child_keys_def)

lemma under_schema: "k \<in> set schema_keys \<Longrightarrow> under_value f k v = snd (f v)"
  by (simp add: under_value_def map_prod_def split: prod.split)

lemma under_properties:
  "under_value f ''properties'' v =
     (case v of JObject m \<Rightarrow> JObject (map (\<lambda>kv. (fst kv, snd (f (snd kv)))) m) | _ \<Rightarrow> v)"
  by (simp add: under_value_def schema_keys_def schema_map_keys_def split: json.split)

lemma under_entry_schemas: "entry_schemas (k, under_value f k v) = map (\<lambda>v. snd (f v)) (entry_schemas (k, v))"
proof (cases "k \<in> set schema_keys")
  case True
  then show ?thesis by (simp add: under_schema)
next
  case one: False
  show ?thesis
  proof (cases "k = ''anyOf''")
    case True
    then show ?thesis using one by (cases v) (simp_all add: under_value_def)
  next
    case False
    then show ?thesis using one by (cases v) (simp_all add: under_value_def)
  qed
qed

lemma subschemas_under: "subschemas (snd (under_entries f m)) = map (\<lambda>v. snd (f v)) (subschemas m)"
proof -
  have "map entry_schemas (snd (under_entries f m)) = map (map (\<lambda>v. snd (f v))) (map entry_schemas m)"
    unfolding under_entries_map map_map comp_def
    by (intro map_cong refl) (auto simp: under_entry_schemas simp del: entry_schemas.simps)
  then show ?thesis unfolding subschemas_def by (simp add: map_concat)
qed

lemma declared_map: "declared (map (\<lambda>kv. (fst kv, f (snd kv))) m) = declared m"
proof (rule ext)
  have "hm_get (map (\<lambda>kv. (fst kv, f (snd kv))) m) k = None \<longleftrightarrow> hm_get m k = None" for k
    by (induction m) (auto simp: hm_get_def)
  then show "declared (map (\<lambda>kv. (fst kv, f (snd kv))) m) v = declared m v" for v
    by (cases v) (simp_all add: hm_contains_def)
qed

lemma flavor_node_array: "is_array (snd (flavor_node v)) = is_array v"
  by (cases v) (simp_all add: flavor_node_simps)

lemma plain_under:
  assumes "plain_node m"
  shows "plain_node (snd (under_entries flavor_node m))"
proof -
  let ?m = "snd (under_entries flavor_node m)"
  have same: "hm_get ?m k = hm_get m k" if "k \<notin> set child_keys" for k
    using that by (cases "hm_get m k") (simp_all add: under_get under_other)
  have keys: "''const'' \<notin> set child_keys" "''oneOf'' \<notin> set child_keys" "''type'' \<notin> set child_keys"
      "''$ref'' \<notin> set child_keys" "''prefixItems'' \<notin> set child_keys" "''required'' \<notin> set child_keys"
      "''enum'' \<notin> set child_keys" "''items'' \<in> set schema_keys"
    by (simp_all add: child_keys_def schema_keys_def schema_map_keys_def)
  note get = same [OF keys(1)] same [OF keys(2)] same [OF keys(3)] same [OF keys(4)] same [OF keys(5)] same [OF keys(6)]
  have inferred: "inferred_type ?m = inferred_type m"
    by (rule inferred_cong) (simp_all add: under_contains same keys)
  have required: "settled_required ?m = settled_required m"
  proof (cases "hm_get m ''properties''")
    case (Some v)
    then show ?thesis
      using declared_map [of "\<lambda>v. snd (flavor_node v)"]
      by (cases v) (simp_all add: settled_required_def get under_get [of _ _ "''properties''"] under_properties
          split: option.split json.split)
  qed (simp add: settled_required_def under_get [of _ _ "''properties''"])
  show ?thesis
    using assms
    by (simp add: plain_node_settled settled_words_def settled_type_def settled_union_def settled_ref_def
        settled_tuple_def settled_inference_def settled_target_def required inferred get under_length under_contains
        under_get [of _ _ "''anyOf''"] under_get [of _ _ "''items''"] under_schema [OF keys(8)] flavor_node_array
        option.case_eq_if option.map_sel)
qed

lemma node_conforms: "list_all plain_node (schema_nodes (snd (flavor_node v)))"
proof (induction v rule: flavor_node.induct)
  case (1 v)
  show ?case
  proof (cases v)
    case (JObject obj)
    let ?obj = "snd (rewrite_node obj)"
    have below: "list_all plain_node (schema_nodes (snd (flavor_node w)))" if "w \<in> set (subschemas ?obj)" for w
      by (rule "1.IH" [OF JObject refl prod.collapse that])
    then have "list_all plain_node (concat (map schema_nodes (map (\<lambda>v. snd (flavor_node v)) (subschemas ?obj))))"
      by (auto simp: list_all_iff)
    then show ?thesis
      using plain_under [OF node_settles [of obj]]
      by (simp add: JObject flavor_node_simps schema_nodes_simps subschemas_under)
  qed (simp_all add: flavor_node_simps schema_nodes_simps)
qed

lemma flavored_conforms: "conforms (flavored schema)"
proof (cases schema)
  case (JObject obj)
  then have "flavored schema = snd (flavor_node (JObject (snd (definitions_to_defs obj))))"
    by (simp add: flavored_def split: prod.split)
  then show ?thesis unfolding conforms_def by (simp add: node_conforms)
qed (simp_all add: flavored_def conforms_def schema_nodes_simps)

section \<open>No \<open>allOf\<close> is left\<close>

text \<open>
  A schema no \<open>allOf\<close> of which has a branch that brings an \<open>allOf\<close>, or draft-07 \<open>definitions\<close>, of its own. It is
  the only condition under which nothing of either is left: the merge lifts a branch's members after it
  has removed the node's own.
\<close>

definition plain_branch :: "json \<Rightarrow> bool" where
  "plain_branch b = (case b of JObject m \<Rightarrow> \<not> hm_contains m ''allOf'' \<and> \<not> hm_contains m ''definitions'' | _ \<Rightarrow> True)"

definition plain_branches :: "json_map \<Rightarrow> bool" where
  "plain_branches m = (case hm_get m ''allOf'' of Some (JArray bs) \<Rightarrow> list_all plain_branch bs | _ \<Rightarrow> True)"

fun flat :: "json \<Rightarrow> bool" where
  "flat (JObject m) = (list_all (\<lambda>(k, v). flat v) m \<and> plain_branches m)"
| "flat (JArray vs) = list_all flat vs"
| "flat _ = True"

lemma flat_object: "flat (JObject m) \<longleftrightarrow> (\<forall>kv \<in> set m. flat (snd kv)) \<and> plain_branches m"
  by (simp add: list_all_iff case_prod_unfold)

lemma flat_get: "flat (JObject m) \<Longrightarrow> hm_get m k = Some v \<Longrightarrow> flat v"
  using hm_get_Some_in [of m k v] unfolding flat_object by fastforce

lemma flat_insert:
  "flat (JObject m) \<Longrightarrow> flat v \<Longrightarrow> k \<noteq> ''allOf'' \<Longrightarrow> flat (JObject (hm_insert k v m))"
  using set_hm_insert [of k v m] unfolding flat_object plain_branches_def by (auto simp: hm_get_insert)

lemma flat_or_insert_all:
  assumes "flat (JObject a)" "flat (JObject b)"
  shows "flat (JObject (or_insert_all a b))"
proof -
  have "set (or_insert_all a b) \<subseteq> set a \<union> set b"
    unfolding or_insert_all_def
  proof (induction a arbitrary: b)
    case (Cons kv a)
    have "set (if hm_contains b (fst kv) then b else hm_insert (fst kv) (snd kv) b) \<subseteq> insert kv (set b)"
      using set_hm_insert [of "fst kv" "snd kv" b] by auto
    with Cons.IH [of "if hm_contains b (fst kv) then b else hm_insert (fst kv) (snd kv) b"] show ?case
      by (auto simp: case_prod_unfold)
  qed simp
  with assms show ?thesis
    unfolding flat_object plain_branches_def hm_get_or_insert_all
    by (cases "hm_get b ''allOf''") auto
qed

text \<open>A node without an \<open>allOf\<close>, at the root without \<open>definitions\<close> as well, over flat values.\<close>

definition bare :: "bool \<Rightarrow> json_map \<Rightarrow> bool" where
  "bare outer m \<longleftrightarrow>
     hm_get m ''allOf'' = None \<and> (outer \<longrightarrow> hm_get m ''definitions'' = None) \<and> (\<forall>kv \<in> set m. flat (snd kv))"

definition new_key :: "bool \<Rightarrow> string \<Rightarrow> bool" where
  "new_key outer k \<longleftrightarrow> k \<noteq> ''allOf'' \<and> (outer \<longrightarrow> k \<noteq> ''definitions'')"

lemma bare_insert: "bare outer m \<Longrightarrow> flat v \<Longrightarrow> new_key outer k \<Longrightarrow> bare outer (hm_insert k v m)"
proof -
  assume m: "bare outer m" and v: "flat v" and k: "new_key outer k"
  have "flat (snd kv)" if "kv \<in> set (hm_insert k v m)" for kv
    using subsetD [OF set_hm_insert that] m v by (auto simp: bare_def)
  with m k show ?thesis by (auto simp: bare_def new_key_def hm_get_insert)
qed

lemma bare_remove: "bare outer m \<Longrightarrow> bare outer (hm_remove k m)"
  using set_hm_remove [of k m] unfolding bare_def by (auto simp: hm_get_remove_any)

lemma bare_get: "bare outer m \<Longrightarrow> hm_get m k = Some v \<Longrightarrow> flat v"
  using hm_get_Some_in [of m k v] unfolding bare_def by fastforce

lemma new_keys [simp]:
  "new_key outer ''enum''" "new_key outer ''anyOf''" "new_key outer ''type''" "new_key outer ''items''"
  "new_key outer ''required''" "new_key outer ''$ref''"
  by (simp_all add: new_key_def)

lemma flat_pushed: "list_all flat xs \<Longrightarrow> list_all flat ys \<Longrightarrow> list_all flat (fold push_new xs ys)"
  by (induction xs arbitrary: ys) (simp_all add: push_new_def)

lemma bare_merge_key:
  assumes "bare outer m" "flat v" "new_key outer k"
  shows "bare outer (merge_key k v m)"
proof -
  have "flat (JObject (or_insert_all a b))" if "v = JObject a" "hm_get m k = Some (JObject b)" for a b
    using assms(2) bare_get [OF assms(1) that(2)] unfolding that(1) by (rule flat_or_insert_all)
  moreover have "flat (JArray (fold push_new xs ys))" if "v = JArray xs" "hm_get m k = Some (JArray ys)" for xs ys
    using assms(2) bare_get [OF assms(1) that(2)] flat_pushed by (simp add: that(1))
  ultimately show ?thesis
    using assms
    by (auto simp: merge_key_def simp del: flat.simps intro: bare_insert split: option.split json.split)
qed

lemma bare_merge_branch:
  assumes "bare outer m" "flat b" "plain_branch b"
  shows "bare outer (merge_branch b m)"
proof (cases b)
  case (JObject kvs)
  have "(\<forall>kv \<in> set kvs. flat (snd kv) \<and> new_key outer (fst kv))"
  proof
    fix kv assume kv: "kv \<in> set kvs"
    have "fst kv \<noteq> k" if "\<not> hm_contains kvs k" for k
      using that kv by (auto simp: hm_contains_def hm_get_def map_of_eq_None_iff)
    with assms(3) have "fst kv \<noteq> ''allOf''" "fst kv \<noteq> ''definitions''" by (auto simp: JObject plain_branch_def)
    with assms(2) kv show "flat (snd kv) \<and> new_key outer (fst kv)"
      unfolding JObject flat_object by (simp add: new_key_def)
  qed
  then have "bare outer (fold (\<lambda>(k, v). merge_key k v) kvs m)"
    using assms(1) by (induction kvs arbitrary: m) (auto simp: bare_merge_key)
  then show ?thesis by (simp add: JObject)
qed (use assms in simp_all)

lemma bare_merge_all_of:
  assumes "flat (JObject m)" "outer \<Longrightarrow> hm_get m ''definitions'' = None"
  shows "bare outer (snd (merge_all_of m))"
proof (cases "hm_get m ''allOf''")
  case None
  with assms show ?thesis unfolding flat_object by (simp add: merge_all_of_def bare_def)
next
  case (Some v)
  have removed: "bare outer (hm_remove ''allOf'' m)"
    using assms set_hm_remove [of "''allOf''" m] unfolding flat_object by (auto simp: bare_def hm_get_remove_any)
  have "bare outer (fold merge_branch bs m')" if "list_all flat bs" "list_all plain_branch bs" "bare outer m'" for bs m'
    using that by (induction bs arbitrary: m') (auto intro: bare_merge_branch)
  moreover have "list_all flat bs \<and> list_all plain_branch bs" if "v = JArray bs" for bs
    using flat_get [OF assms(1) Some] assms(1) Some by (simp add: that plain_branches_def)
  ultimately show ?thesis using removed by (cases v) (simp_all add: merge_all_of_def Some)
qed

text \<open>The other rewrites keep a bare node bare.\<close>

lemma plain_singletons [simp]:
  "plain_branches [(''type'', v)]" "plain_branches [(''$ref'', v)]" "plain_branches [(''anyOf'', v)]"
  by (simp_all add: plain_branches_def hm_get_def)

lemma bare_words: "bare outer m \<Longrightarrow> bare outer (snd (one_of_to_any_of (snd (const_to_enum m))))"
proof -
  assume "bare outer m"
  then have one: "bare outer (snd (const_to_enum m))"
    by (auto simp: const_to_enum_def intro!: bare_insert bare_remove dest: bare_get split: option.split)
  have "bare outer (snd (one_of_to_any_of n))" if n: "bare outer n" for n
  proof -
    have arrays: "flat (JArray (xs @ ys))"
      if "hm_get n ''oneOf'' = Some (JArray ys)" "hm_get n ''anyOf'' = Some (JArray xs)" for xs ys
      using bare_get [OF n that(1)] bare_get [OF n that(2)] by simp
    show ?thesis
      using n arrays bare_get [OF n]
      by (auto simp: one_of_to_any_of_def Let_def hm_get_remove_any simp del: flat.simps
          intro!: bare_insert bare_remove split: option.split json.split)
  qed
  with one show ?thesis by blast
qed

lemma bare_split_type: "bare outer m \<Longrightarrow> bare outer (snd (split_type_array m))"
proof -
  assume m: "bare outer m"
  have string: "is_string x \<Longrightarrow> flat x" for x by (cases x) simp_all
  then have "list_all flat (map (\<lambda>t. JObject [(''type'', t)]) (filter is_string ts))" for ts by (induction ts) auto
  with m show ?thesis
    by (auto simp: split_type_array_def split_types_def Let_def string intro!: bare_insert bare_remove
        split: option.split json.split list.split)
qed

lemma bare_isolate_ref: "bare outer m \<Longrightarrow> bare outer (snd (isolate_ref m))"
proof -
  assume m: "bare outer m"
  have arrays: "list_all flat xs" if "hm_get m ''anyOf'' = Some (JArray xs)" for xs
    using bare_get [OF m that] by simp
  with m bare_get [OF m] show ?thesis
    by (auto simp: isolate_ref_def Let_def hm_get_remove_any intro!: bare_insert bare_remove
        split: option.split json.split)
qed

lemma flat_give_type: "flat ty \<Longrightarrow> flat v \<Longrightarrow> flat (give_type ty v)"
  by (cases v) (auto simp: or_insert_def simp del: flat.simps intro: flat_insert)

lemma bare_push_type: "bare outer m \<Longrightarrow> bare outer (snd (push_type_into_any_of m))"
proof -
  assume m: "bare outer m"
  have "list_all flat (map (give_type ty) xs)"
    if "hm_get m ''anyOf'' = Some (JArray xs)" "hm_get m ''type'' = Some ty" for ty xs
    using bare_get [OF m that(1)] bare_get [OF m that(2)] flat_give_type by (auto simp: list_all_iff)
  with m show ?thesis
    by (auto simp: push_type_into_any_of_def Let_def intro!: bare_insert bare_remove split: option.split json.split)
qed

lemma bare_fold_tuple: "bare outer m \<Longrightarrow> bare outer (snd (fold_tuple_items m))"
proof -
  assume m: "bare outer m"
  obtain bs o1 where p: "take_prefix m = (bs, o1)" by (cases "take_prefix m")
  obtain cs o2 where i: "take_items bs o1 = (cs, o2)" by (cases "take_items bs o1")
  have one: "bare outer o1 \<and> list_all flat bs"
    using p m bare_get [OF m, of "''prefixItems''"]
    by (auto simp: take_prefix_def intro: bare_remove split: option.splits json.splits)
  then have "bare outer o2 \<and> list_all flat cs"
    using i bare_get [of outer o1 "''items''"]
    by (auto simp: take_items_def intro: bare_remove split: option.splits json.splits if_splits)
  then show ?thesis by (auto simp: fold_tuple_items_def p i intro!: bare_insert)
qed

lemma bare_last:
  assumes "bare outer m"
  shows "bare outer (snd (infer_missing_type m))" "bare outer (snd (prune_required m))" "bare outer (snd (rewrite_ref_target m))"
proof -
  have "flat (JArray (filter (declared ps) rs))" if "hm_get m ''required'' = Some (JArray rs)" for ps rs
    using bare_get [OF assms that] by (simp add: list_all_iff)
  with assms show "bare outer (snd (prune_required m))"
    by (auto simp: prune_required_def Let_def simp del: flat.simps intro!: bare_insert bare_remove
        split: option.split json.split)
qed (use assms in \<open>auto simp: infer_missing_type_def rewrite_ref_target_def intro!: bare_insert split: option.split json.split\<close>)

lemma bare_node:
  assumes "flat (JObject m)" "outer \<Longrightarrow> hm_get m ''definitions'' = None"
  shows "bare outer (snd (rewrite_node m))"
proof -
  have "bare outer (snd (merge_all_of m))" using assms by (rule bare_merge_all_of)
  then show ?thesis
    unfolding rewrite_node_steps
    by (intro bare_last bare_fold_tuple bare_push_type bare_isolate_ref bare_split_type bare_words)
qed

lemma flat_below:
  assumes "bare outer m" "v \<in> set (subschemas m)"
  shows "flat v"
proof -
  obtain k x where kx: "(k, x) \<in> set m" "v \<in> set (entry_schemas (k, x))" using assms(2) by (auto simp: subschemas_def)
  then have "flat x" using assms(1) by (fastforce simp: bare_def)
  show ?thesis
  proof (cases "k \<in> set schema_keys")
    case True
    with kx(2) \<open>flat x\<close> show ?thesis by simp
  next
    case False
    with kx(2) have "v = x \<or> (\<exists>vs. x = JArray vs \<and> v \<in> set vs) \<or> (\<exists>m. x = JObject m \<and> v \<in> snd ` set m)"
      by (cases "k = ''anyOf''"; cases "k \<in> set schema_map_keys"; cases x) simp_all
    with \<open>flat x\<close> show ?thesis by (fastforce simp: list_all_iff flat_object simp del: flat.simps(1))
  qed
qed

lemma node_without_all_of: "flat v \<Longrightarrow> list_all (\<lambda>m. hm_get m ''allOf'' = None) (schema_nodes (snd (flavor_node v)))"
proof (induction v rule: flavor_node.induct)
  case (1 v)
  show ?case
  proof (cases v)
    case (JObject obj)
    let ?obj = "snd (rewrite_node obj)"
    have bare: "bare False ?obj" using "1.prems" unfolding JObject by (rule bare_node) simp
    then have "list_all (\<lambda>m. hm_get m ''allOf'' = None) (schema_nodes (snd (flavor_node w)))" if "w \<in> set (subschemas ?obj)" for w
      using that flat_below by (intro "1.IH" [OF JObject refl prod.collapse that])
    moreover have "hm_get (snd (under_entries flavor_node ?obj)) ''allOf'' = None"
      using bare by (simp add: under_get bare_def)
    ultimately show ?thesis
      by (auto simp: JObject flavor_node_simps schema_nodes_simps subschemas_under list_all_iff)
  qed (simp_all add: flavor_node_simps schema_nodes_simps)
qed

text \<open>The whole dialect: no \<open>allOf\<close> at any node and no \<open>definitions\<close> at the root, beside what every node must be.\<close>

definition in_dialect :: "json \<Rightarrow> bool" where
  "in_dialect schema \<longleftrightarrow>
     conforms schema \<and> list_all (\<lambda>m. hm_get m ''allOf'' = None) (schema_nodes schema) \<and>
     json_get schema ''definitions'' = None"

lemma flat_definitions:
  assumes "flat (JObject m)"
  shows "flat (JObject (snd (definitions_to_defs m)))" "hm_get (snd (definitions_to_defs m)) ''definitions'' = None"
proof -
  let ?m = "hm_remove ''definitions'' m"
  have removed: "flat (JObject ?m)"
    using assms set_hm_remove [of "''definitions''" m] unfolding flat_object plain_branches_def
    by (auto simp: hm_get_remove_any)
  have "flat (JObject (or_insert_all a b))"
    if "hm_get m ''definitions'' = Some (JObject a)" "hm_get ?m ''$defs'' = Some (JObject b)" for a b
    using flat_get [OF assms that(1)] flat_get [OF removed that(2)] by (rule flat_or_insert_all)
  then show "flat (JObject (snd (definitions_to_defs m)))"
    using removed assms flat_get [OF assms, of "''definitions''"]
    by (auto simp: definitions_to_defs_def Let_def simp del: flat.simps intro!: flat_insert split: option.split json.split)
qed (auto simp: definitions_to_defs_def Let_def hm_get_insert hm_get_remove_any split: option.split json.split)

lemma flavored_in_dialect:
  assumes "flat schema"
  shows "in_dialect (flavored schema)"
proof (cases schema)
  case (JObject obj)
  let ?obj = "snd (definitions_to_defs obj)"
  have flavored: "flavored schema = snd (flavor_node (JObject ?obj))"
    by (simp add: JObject flavored_def split: prod.split)
  note flat = flat_definitions [OF assms [unfolded JObject]]
  have "bare True (snd (rewrite_node ?obj))" using flat by (rule bare_node)
  then have "json_get (flavored schema) ''definitions'' = None"
    by (simp add: flavored flavor_node_simps under_get bare_def)
  then show ?thesis
    using node_without_all_of [OF flat(1)] flavored_conforms [of schema] by (simp add: in_dialect_def flavored)
qed (simp_all add: flavored_def in_dialect_def conforms_def schema_nodes_simps)

section \<open>What is sent\<close>

definition response_schema :: "chat_request \<Rightarrow> json option" where
  "response_schema req =
     Option.bind (hm_get (cq_extra req) ''response_format'') (json_pointer [''json_schema'', ''schema''])"

lemma json_pointer_two: "json_pointer [j, k] v = Option.bind (json_get v j) (\<lambda>v. json_get v k)"
  by (simp add: json_pointer_def)

lemma pointer_edited_one: "json_get (edit_at [k] f v) k = map_option f (json_get v k)"
  by (cases v) (simp_all add: hm_get_insert split: option.split)

lemma pointer_edited: "json_pointer [j, k] (edit_at [j, k] f v) = map_option f (json_pointer [j, k] v)"
proof (cases v)
  case (JObject m)
  show ?thesis
  proof (cases "hm_get m j")
    case (Some x)
    then have "json_get (edit_at [j, k] f v) j = Some (edit_at [k] f x)" by (simp add: JObject hm_get_insert)
    then show ?thesis by (simp add: json_pointer_two pointer_edited_one Some JObject)
  qed (simp add: JObject json_pointer_two)
qed (simp_all add: json_pointer_two)

text \<open>
  C29: the schemas Moonshot is sent are rewritten into its dialect. Whatever schema a consumer puts on a tool, on the structured output, or
  on a tool of a batch line, at no node of the one that goes out in its place, wherever the rewriting knows schemas
  to be, is there a \<open>const\<close>, a \<open>oneOf\<close>, a list of types, a type beside \<open>anyOf\<close>, a reference beside anything, a tuple,
  a type its own keywords imply but do not say, a required name it does not declare, or a draft-07
  reference. When no \<open>allOf\<close> of it has a branch with an \<open>allOf\<close> or \<open>definitions\<close> of its own, there is no \<open>allOf\<close>
  left at any node and no \<open>definitions\<close> at the root either. Otherwise an \<open>allOf\<close> may be left, and what is inside it
  is not rewritten, which a finding records.
\<close>

theorem schemas_conform:
  "list_all2 (\<lambda>t t'. conforms (td_parameters t') \<and> (flat (td_parameters t) \<longrightarrow> in_dialect (td_parameters t')))
     (cq_tools req) (cq_tools (flavor_request req)) \<and>
   rel_option (\<lambda>schema schema'. conforms schema' \<and> (flat schema \<longrightarrow> in_dialect schema'))
     (response_schema req) (response_schema (flavor_request req)) \<and>
   list_all2 (\<lambda>i i'. list_all2 (\<lambda>t t'. conforms (td_parameters t') \<and>
       (flat (td_parameters t) \<longrightarrow> in_dialect (td_parameters t')))
     (cq_tools (bi_request i)) (cq_tools (bi_request i'))) (bs_items spec) (bs_items (flavor_batch spec)) \<and>
   moonshot_chat p lossy print parse req cx w = compat_chat p lossy print parse (flavor_request req) cx w \<and>
   moonshot_batch_create p lossy print parse spec cx w = compat_batch_create p lossy print parse (flavor_batch spec) cx w"
proof (intro conjI)
  show "rel_option (\<lambda>schema schema'. conforms schema' \<and> (flat schema \<longrightarrow> in_dialect schema'))
      (response_schema req) (response_schema (flavor_request req))"
  proof (cases "hm_get (cq_extra req) ''response_format''")
    case None
    then show ?thesis by (simp add: response_schema_def flavor_request_def)
  next
    case (Some rf)
    then have "response_schema (flavor_request req) = map_option flavored (response_schema req)"
      by (simp add: response_schema_def flavor_request_def hm_get_insert pointer_edited)
    then show ?thesis by (cases "response_schema req") (simp_all add: flavored_conforms flavored_in_dialect)
  qed
qed (simp_all add: flavor_request_def flavor_batch_def flavor_tools_def list_all2_map2 list.rel_refl flavored_conforms
    flavored_in_dialect moonshot_chat_def moonshot_batch_create_def)

section \<open>A second rewriting changes nothing\<close>

lemma prune_settled: "settled_required m \<Longrightarrow> prune_required m = (False, m)"
proof -
  assume settled: "settled_required m"
  have "filter (declared ps) rs = rs"
    if "hm_get m ''properties'' = Some (JObject ps)" "hm_get m ''required'' = Some (JArray rs)" for ps rs
    using settled that by (simp add: settled_required_def list_all_iff)
  then show ?thesis
    by (auto simp: prune_required_def Let_def hm_insert_same split: option.split json.split)
qed

text \<open>Each rewrite where its rule already holds.\<close>

lemma rewrites_settled:
  "hm_get m ''allOf'' = None \<Longrightarrow> merge_all_of m = (False, m)"
  "settled_words m \<Longrightarrow> const_to_enum m = (False, m)"
  "settled_words m \<Longrightarrow> one_of_to_any_of m = (False, m)"
  "settled_union m \<Longrightarrow> push_type_into_any_of m = (False, m)"
  "settled_ref m \<Longrightarrow> isolate_ref m = (False, m)"
  "settled_inference m \<Longrightarrow> infer_missing_type m = (False, m)"
  by (auto simp: merge_all_of_def const_to_enum_def one_of_to_any_of_def push_type_into_any_of_def isolate_ref_def
      infer_missing_type_def settled_words_def settled_union_def settled_ref_def settled_inference_def
      split: option.split)

lemma split_type_settled: "settled_type m \<Longrightarrow> split_type_array m = (False, m)"
  by (cases "hm_get m ''type''"; cases "the (hm_get m ''type'')") (simp_all add: settled_type_def split_type_array_def)

lemma fold_tuple_settled:
  assumes "settled_tuple m"
  shows "fold_tuple_items m = (False, m)"
proof -
  have "take_prefix m = ([], m)"
    using assms by (cases "hm_get m ''prefixItems''"; cases "the (hm_get m ''prefixItems'')")
      (simp_all add: settled_tuple_def take_prefix_def)
  moreover have "take_items [] m = ([], m)"
    using assms by (cases "hm_get m ''items''"; cases "the (hm_get m ''items'')")
      (simp_all add: settled_tuple_def take_items_def)
  ultimately show ?thesis by (simp add: fold_tuple_items_def)
qed

lemma target_settled: "settled_target m \<Longrightarrow> rewrite_ref_target m = (False, m)"
  by (cases "hm_get m ''$ref''"; cases "the (hm_get m ''$ref'')") (simp_all add: settled_target_def rewrite_ref_target_def)

lemma node_settled: "plain_node m \<Longrightarrow> hm_get m ''allOf'' = None \<Longrightarrow> rewrite_node m = (False, m)"
  by (simp add: plain_node_settled rewrite_node_def node_rewrites_def combine_def rewrites_settled split_type_settled
      fold_tuple_settled prune_settled target_settled)

lemma under_entry_settled:
  assumes "\<And>v. v \<in> set (entry_schemas kv) \<Longrightarrow> f v = (False, v)"
  shows "under_entry f kv = (False, kv)"
proof -
  have "under_entry f kv = under_entry (Pair False) kv" by (rule under_entry_cong) (rule assms)
  moreover have "under_entry (Pair False) (k, v) = (False, k, v)" for k v
    by (cases v) (simp_all add: list_ex_iff comp_def)
  ultimately show ?thesis by (cases kv) simp
qed

lemma under_entries_settled:
  assumes "\<And>v. v \<in> set (subschemas m) \<Longrightarrow> f v = (False, v)"
  shows "under_entries f m = (False, m)"
proof -
  have each: "under_entry f kv = (False, kv)" if "kv \<in> set m" for kv
    using assms that by (intro under_entry_settled) (auto simp: subschemas_def simp del: entry_schemas.simps)
  then have "map (under_entry f) m = map (Pair False) m" by (rule map_cong [OF refl])
  then show ?thesis by (simp only: under_entries_def map_map) (simp add: list_ex_iff comp_def)
qed

lemma settled_schema:
  "list_all (\<lambda>m. plain_node m \<and> hm_get m ''allOf'' = None) (schema_nodes v) \<Longrightarrow> flavor_node v = (False, v)"
proof (induction v rule: schema_nodes.induct)
  case (1 v)
  show ?case
  proof (cases v)
    case (JObject m)
    with "1.prems" have here: "plain_node m" "hm_get m ''allOf'' = None" by (simp_all add: schema_nodes_simps)
    have below: "list_all (\<lambda>m. plain_node m \<and> hm_get m ''allOf'' = None) (schema_nodes w)"
      if "w \<in> set (subschemas m)" for w
      using "1.prems" that unfolding JObject schema_nodes_simps by (auto simp: list_all_iff)
    have "under_entries flavor_node m = (False, m)"
      by (rule under_entries_settled) (rule "1.IH" [OF JObject _ below])
    then show ?thesis by (simp add: JObject flavor_node_simps node_settled [OF here])
  qed (simp_all add: flavor_node_simps)
qed

text \<open>
  C30: the rewriting settles. A schema that is in the dialect already is not touched, and is reported unchanged,
  whoever made it. In particular a schema once flavored is left as it is, so that a request that passes through two such
  nodes carries the same schemas, unless a branch of one of its \<open>allOf\<close>s has an \<open>allOf\<close> or \<open>definitions\<close> of its own.
\<close>

theorem flavoring_settles:
  "(in_dialect schema \<longrightarrow> flavor_schema schema = (False, schema)) \<and>
   (flat schema \<longrightarrow> flavor_schema (flavored schema) = (False, flavored schema))"
proof -
  have settled: "flavor_schema s = (False, s)" if "in_dialect s" for s
  proof -
    have "list_all (\<lambda>m. plain_node m \<and> hm_get m ''allOf'' = None) (schema_nodes s)"
      using that by (simp add: in_dialect_def conforms_def list_all_iff)
    then have same: "flavor_node s = (False, s)" by (rule settled_schema)
    show ?thesis
    proof (cases s)
      case (JObject m)
      with that have "definitions_to_defs m = (False, m)" by (simp add: in_dialect_def definitions_to_defs_def)
      with same show ?thesis by (simp add: JObject)
    qed simp_all
  qed
  then show ?thesis using flavored_in_dialect by blast
qed

definition zod_schema :: json where
  "zod_schema = JObject
     [(''properties'', JObject
        [(''a'', JObject [(''const'', JString ''x'')]),
         (''b'', JObject [(''$ref'', JString ''#/definitions/B''), (''description'', JString ''d'')])]),
      (''required'', JArray [JString ''a'', JString ''c'']),
      (''definitions'', JObject [(''B'', JObject [(''type'', JArray [JString ''string'', JString ''null''])])])]"

definition zod_flavored :: json where
  "zod_flavored = JObject
     [(''properties'', JObject
        [(''a'', JObject [(''enum'', JArray [JString ''x'']), (''type'', JString ''string'')]),
         (''b'', JObject [(''description'', JString ''d''),
            (''anyOf'', JArray [JObject [(''$ref'', JString ''#/$defs/B'')]])])]),
      (''required'', JArray [JString ''a'']),
      (''$defs'', JObject [(''B'', JObject [(''anyOf'', JArray
        [JObject [(''type'', JString ''string'')], JObject [(''type'', JString ''null'')]])])]),
      (''type'', JString ''object'')]"

lemma zod_example: "flavored zod_schema = zod_flavored"
  by code_simp

lemma zod_flat: "flat zod_schema"
  by code_simp

definition zod_request :: chat_request where
  "zod_request = \<lparr>cq_model = ''kimi'', cq_messages = [], cq_max_tokens = None, cq_temperature = None, cq_top_p = None,
     cq_stop = [], cq_stream = False,
     cq_tools = [\<lparr>td_name = ''f'', td_description = None, td_parameters = zod_schema\<rparr>],
     cq_tool_choice = None, cq_thinking = None, cq_extra = []\<rparr>"

theorem schemas_conform_witness:
  "cq_tools (flavor_request zod_request) = [\<lparr>td_name = ''f'', td_description = None, td_parameters = zod_flavored\<rparr>] \<and>
     in_dialect zod_flavored"
proof -
  have sent: "cq_tools (flavor_request zod_request) =
      [\<lparr>td_name = ''f'', td_description = None, td_parameters = zod_flavored\<rparr>]"
    using zod_example by (simp add: flavor_request_def flavor_tools_def zod_request_def)
  have "cq_tools zod_request = [\<lparr>td_name = ''f'', td_description = None, td_parameters = zod_schema\<rparr>]"
    by (simp add: zod_request_def)
  with schemas_conform [of zod_request, THEN conjunct1] sent zod_flat show ?thesis by simp
qed

theorem flavoring_settles_witness:
  "flavored zod_schema = zod_flavored \<and> flavor_schema zod_flavored = (False, zod_flavored)"
  using flavoring_settles [of zod_schema] zod_flat zod_example by simp

text \<open>The nested \<open>allOf\<close> that the merge leaves, and what the report of a change leaves out.\<close>

lemma nested_all_of_survives:
  "flavored (JObject [(''allOf'', JArray [JObject [(''allOf'', JArray [JObject [(''type'', JString ''object'')]])]])]) =
     JObject [(''allOf'', JArray [JObject [(''type'', JString ''object'')]])]"
  by code_simp

lemma empty_tuple_unreported: "flavor_schema (JObject [(''items'', JArray [])]) = (False, JObject [])"
  by code_simp

end
